(* ===== verification/Go_Base.thy ===== *)
theory Go_Base
  imports Main "HOL-Library.Multiset" "HOL-Library.Sublist" "HOL-Library.List_Lexorder"
    "HOL-Library.Char_ord"
begin

text \<open>
  The part of the Go language and of its standard library that the modelled packages use:
  results, 64-bit integers, strings (byte lists), instants and durations, and sorting with a
  comparison function. Every component theory builds on it.

  A Go function with an error result returns a sum: \<open>Inl e\<close> the error, \<open>Inr v\<close> the value. A
  Go function whose only result is an error returns an option: \<open>None\<close> is \<open>nil\<close>.
\<close>

named_theorems time_simps \<open>instants and durations\<close>
named_theorems str_simps \<open>strings\<close>
named_theorems result_simps \<open>results with an error\<close>

section \<open>Integers\<close>

text \<open>
  \<open>int\<close> and \<open>int64\<close> are 64 bits wide. A value is an \<^typ>\<open>int\<close>; \<open>wrap64\<close> is the two's
  complement reduction that a Go operation applies to its exact result. It is written wherever
  an operand is not a counter the program itself starts at zero or one and increments.
\<close>

type_synonym int64 = int

definition max_int64 :: int where
  "max_int64 = 9223372036854775807"

definition min_int64 :: int where
  "min_int64 = - 9223372036854775808"

definition wrap64 :: "int \<Rightarrow> int" where
  "wrap64 x = (x + 9223372036854775808) mod 18446744073709551616 - 9223372036854775808"

definition is_int64 :: "int \<Rightarrow> bool" where
  "is_int64 x \<longleftrightarrow> min_int64 \<le> x \<and> x \<le> max_int64"

lemmas int64_defs = max_int64_def min_int64_def is_int64_def wrap64_def

lemma wrap64_id [simp]: "is_int64 x \<Longrightarrow> wrap64 x = x"
  by (simp add: int64_defs)

lemma is_int64_wrap64 [simp]: "is_int64 (wrap64 x)"
  by (simp add: int64_defs)

section \<open>Results\<close>

lemma case_sum_Inr_iff:
  "(case r of Inl e \<Rightarrow> Inl e | Inr v \<Rightarrow> f v) = Inr w \<longleftrightarrow> (\<exists>v. r = Inr v \<and> f v = Inr w)"
  by (cases r) auto

lemma case_sum_Inl_iff:
  "(case r of Inl e \<Rightarrow> Inl e | Inr v \<Rightarrow> f v) = Inl e' \<longleftrightarrow> r = Inl e' \<or> (\<exists>v. r = Inr v \<and> f v = Inl e')"
  by (cases r) auto

lemma in_set_mapE: "x \<in> set (map f xs) \<Longrightarrow> (\<And>y. x = f y \<Longrightarrow> y \<in> set xs \<Longrightarrow> thesis) \<Longrightarrow> thesis"
  by auto

lemma find_append: "find P (xs @ ys) = (case find P xs of None \<Rightarrow> find P ys | Some x \<Rightarrow> Some x)"
  by (induction xs) auto

lemma in_set_mapI: "y \<in> set xs \<Longrightarrow> f y = x \<Longrightarrow> x \<in> set (map f xs)"
  by auto

text \<open>
  The early-return idiom: \<open>bindE r f\<close> goes on with \<open>f\<close> when \<open>r\<close> is a value, \<open>err_none\<close> turns an
  error-only result into one to bind, and \<open>require b e\<close> returns the error \<open>e\<close> unless \<open>b\<close> holds.
\<close>

definition bindE :: "'e + 'a \<Rightarrow> ('a \<Rightarrow> 'e + 'b) \<Rightarrow> 'e + 'b" where
  "bindE r f = (case r of Inl e \<Rightarrow> Inl e | Inr v \<Rightarrow> f v)"

definition err_none :: "('e \<Rightarrow> 'f) \<Rightarrow> 'e option \<Rightarrow> 'f + unit" where
  "err_none wrap r = (case r of None \<Rightarrow> Inr () | Some e \<Rightarrow> Inl (wrap e))"

definition require :: "bool \<Rightarrow> 'e \<Rightarrow> 'e + unit" where
  "require b e = (if b then Inr () else Inl e)"

definition some_or :: "'e \<Rightarrow> 'a option \<Rightarrow> 'e + 'a" where
  "some_or e r = (case r of None \<Rightarrow> Inl e | Some v \<Rightarrow> Inr v)"

lemma bindE_Inr_iff [result_simps]: "bindE r f = Inr w \<longleftrightarrow> (\<exists>v. r = Inr v \<and> f v = Inr w)"
  by (simp add: bindE_def case_sum_Inr_iff)

lemma map_sum_Inr_iff [result_simps]: "map_sum g f r = Inr y \<longleftrightarrow> (\<exists>x. r = Inr x \<and> y = f x)"
  by (cases r) auto

lemma bindE_simps [simp]: "bindE (Inl e) f = Inl e" "bindE (Inr v) f = f v"
  by (simp_all add: bindE_def)

lemma err_none_Inr_iff [result_simps]: "err_none w r = Inr u \<longleftrightarrow> r = None"
  by (auto simp: err_none_def split: option.split)

lemma err_none_simps [simp]: "err_none w None = Inr ()" "err_none w (Some e) = Inl (w e)"
  by (simp_all add: err_none_def)

lemma require_Inr_iff [result_simps]: "require b e = Inr u \<longleftrightarrow> b"
  by (simp add: require_def)

lemma require_simps [simp]: "require True e = Inr ()" "require False e = Inl e"
  by (simp_all add: require_def)

lemma some_or_Inr_iff [result_simps]: "some_or e r = Inr v \<longleftrightarrow> r = Some v"
  by (auto simp: some_or_def split: option.split)

lemma some_or_simps [simp]: "some_or e None = Inl e" "some_or e (Some v) = Inr v"
  by (simp_all add: some_or_def)

section \<open>Strings\<close>

text \<open>
  A Go string is a sequence of bytes, here a list of \<^typ>\<open>char\<close>. \<open>space_seqs\<close> lists the UTF-8
  encodings of the code points with the Unicode White\_Space property, which is what
  \<open>strings.TrimSpace\<close> removes at both ends: no encoding is a proper prefix or suffix of another
  one, so matching them byte by byte decodes the runes.
\<close>

definition space_seqs :: "string list" where
  "space_seqs =
     [[CHR 0x20], [CHR 0x09], [CHR 0x0A], [CHR 0x0B], [CHR 0x0C], [CHR 0x0D],
      [CHR 0xC2, CHR 0x85], [CHR 0xC2, CHR 0xA0], [CHR 0xE1, CHR 0x9A, CHR 0x80],
      [CHR 0xE2, CHR 0x80, CHR 0x80], [CHR 0xE2, CHR 0x80, CHR 0x81],
      [CHR 0xE2, CHR 0x80, CHR 0x82], [CHR 0xE2, CHR 0x80, CHR 0x83],
      [CHR 0xE2, CHR 0x80, CHR 0x84], [CHR 0xE2, CHR 0x80, CHR 0x85],
      [CHR 0xE2, CHR 0x80, CHR 0x86], [CHR 0xE2, CHR 0x80, CHR 0x87],
      [CHR 0xE2, CHR 0x80, CHR 0x88], [CHR 0xE2, CHR 0x80, CHR 0x89],
      [CHR 0xE2, CHR 0x80, CHR 0x8A], [CHR 0xE2, CHR 0x80, CHR 0xA8],
      [CHR 0xE2, CHR 0x80, CHR 0xA9], [CHR 0xE2, CHR 0x80, CHR 0xAF],
      [CHR 0xE2, CHR 0x81, CHR 0x9F], [CHR 0xE3, CHR 0x80, CHR 0x80]]"

function strip_seqs :: "string list \<Rightarrow> string \<Rightarrow> string" where
  "strip_seqs seqs s =
     (case find (\<lambda>q. q \<noteq> [] \<and> prefix q s) seqs of
        None \<Rightarrow> s
      | Some q \<Rightarrow> strip_seqs seqs (drop (length q) s))"
  by pat_completeness auto
termination
proof (relation "measure (\<lambda>(seqs, s). length s)", goal_cases)
  case 1
  show ?case by simp
next
  case (2 seqs s q)
  then have "q \<noteq> []" and "prefix q s"
    by (auto simp: find_Some_iff)
  then show ?case by (auto simp: prefix_def)
qed

declare strip_seqs.simps [simp del]

definition trim_left_space :: "string \<Rightarrow> string" where
  "trim_left_space s = strip_seqs space_seqs s"

definition trim_right_space :: "string \<Rightarrow> string" where
  "trim_right_space s = rev (strip_seqs (map rev space_seqs) (rev s))"

text \<open>\<open>strings.TrimSpace\<close>.\<close>

definition trim_space :: "string \<Rightarrow> string" where
  "trim_space s = trim_right_space (trim_left_space s)"

text \<open>
  \<open>strings.ToLower\<close> on ASCII: bytes \<open>A\<close> to \<open>Z\<close> are mapped, every other byte is kept. Letters
  outside ASCII are not case-mapped by the model.
\<close>

definition lower_char :: "char \<Rightarrow> char" where
  "lower_char c = (if (65::nat) \<le> of_char c \<and> of_char c \<le> (90::nat)
     then char_of (of_char c + (32::nat)) else c)"

definition to_lower :: "string \<Rightarrow> string" where
  "to_lower s = map lower_char s"

text \<open>\<open>strings.Split\<close> with a one-byte separator, and the first cut at one (\<open>strings.Cut\<close>).\<close>

fun split_on :: "char \<Rightarrow> string \<Rightarrow> string list" where
  "split_on c [] = [[]]"
| "split_on c (x # xs) =
     (if x = c then [] # split_on c xs
      else (case split_on c xs of [] \<Rightarrow> [[x]] | w # ws \<Rightarrow> (x # w) # ws))"

fun cut_at :: "char \<Rightarrow> string \<Rightarrow> (string \<times> string) option" where
  "cut_at c [] = None"
| "cut_at c (x # xs) =
     (if x = c then Some ([], xs)
      else (case cut_at c xs of None \<Rightarrow> None | Some (a, b) \<Rightarrow> Some (x # a, b)))"

lemma strip_seqs_no_prefix:
  "q \<in> set seqs \<Longrightarrow> q \<noteq> [] \<Longrightarrow> \<not> prefix q (strip_seqs seqs s)"
proof (induction seqs s rule: strip_seqs.induct)
  case (1 seqs s)
  show ?case
  proof (cases "find (\<lambda>q. q \<noteq> [] \<and> prefix q s) seqs")
    case None
    then have "strip_seqs seqs s = s" by (simp add: strip_seqs.simps [of seqs s])
    with None 1 show ?thesis by (auto simp: find_None_iff)
  next
    case (Some p)
    with 1 show ?thesis by (simp add: strip_seqs.simps [of seqs s])
  qed
qed

lemma strip_seqs_suffix: "suffix (strip_seqs seqs s) s"
proof (induction seqs s rule: strip_seqs.induct)
  case (1 seqs s)
  then show ?case
    by (subst strip_seqs.simps)
      (auto split: option.split intro: suffix_order.trans suffix_drop)
qed

lemma strip_seqs_id: "(\<And>q. q \<in> set seqs \<Longrightarrow> q \<noteq> [] \<Longrightarrow> \<not> prefix q s) \<Longrightarrow> strip_seqs seqs s = s"
  by (subst strip_seqs.simps) (auto split: option.split simp: find_Some_iff)

lemma trim_left_no_space: "q \<in> set space_seqs \<Longrightarrow> \<not> prefix q (trim_left_space s)"
  unfolding trim_left_space_def
  by (rule strip_seqs_no_prefix) (auto simp: space_seqs_def)

lemma trim_right_no_space: "q \<in> set space_seqs \<Longrightarrow> \<not> suffix q (trim_right_space s)"
  using strip_seqs_no_prefix [of "rev q" "map rev space_seqs" "rev s"]
  by (auto simp: trim_right_space_def suffix_to_prefix space_seqs_def)

lemma trim_right_prefix: "prefix (trim_right_space s) s"
  using strip_seqs_suffix [of "map rev space_seqs" "rev s"]
  by (auto simp: trim_right_space_def suffix_to_prefix)

lemma trim_space_no_leading: "q \<in> set space_seqs \<Longrightarrow> \<not> prefix q (trim_space s)"
  unfolding trim_space_def
  by (meson prefix_order.trans trim_left_no_space trim_right_prefix)

lemma trim_left_id: "(\<And>q. q \<in> set space_seqs \<Longrightarrow> \<not> prefix q s) \<Longrightarrow> trim_left_space s = s"
  by (simp add: trim_left_space_def strip_seqs_id)

lemma trim_right_id: "(\<And>q. q \<in> set space_seqs \<Longrightarrow> \<not> suffix q s) \<Longrightarrow> trim_right_space s = s"
  by (subst trim_right_space_def, subst strip_seqs_id) (auto simp: suffix_to_prefix)

lemma trim_space_idem [str_simps, simp]: "trim_space (trim_space s) = trim_space s"
proof -
  have "trim_left_space (trim_space s) = trim_space s"
    by (rule trim_left_id) (rule trim_space_no_leading)
  moreover have "trim_right_space (trim_space s) = trim_space s"
    unfolding trim_space_def by (rule trim_right_id) (rule trim_right_no_space)
  ultimately show ?thesis by (simp add: trim_space_def [of "trim_space s"])
qed

lemma trim_space_Nil [str_simps, simp]: "trim_space [] = []"
  by (simp add: trim_space_def trim_left_space_def trim_right_space_def strip_seqs_id
      space_seqs_def)

text \<open>Strings of visible ASCII characters have nothing to trim.\<close>

definition graphic :: "char \<Rightarrow> bool" where
  "graphic c \<longleftrightarrow> (33::nat) \<le> of_char c \<and> of_char c \<le> (126::nat)"

lemma space_seqs_not_graphic: "q \<in> set space_seqs \<Longrightarrow> q \<noteq> [] \<and> (\<forall>c \<in> set q. \<not> graphic c)"
  by (auto simp: space_seqs_def graphic_def)

lemma trim_space_graphic:
  assumes "list_all graphic s"
  shows "trim_space s = s"
proof -
  have no: "\<not> set q \<subseteq> set s" if "q \<in> set space_seqs" for q
  proof
    assume "set q \<subseteq> set s"
    with space_seqs_not_graphic [OF that] assms show False
      by (cases q) (auto simp: list_all_iff)
  qed
  have "trim_left_space s = s"
    by (rule trim_left_id) (use no set_mono_prefix in blast)
  moreover have "trim_right_space s = s"
    by (rule trim_right_id) (use no set_mono_suffix in blast)
  ultimately show ?thesis by (simp add: trim_space_def)
qed

lemma lower_char_idem [simp]: "lower_char (lower_char c) = lower_char c"
  by (simp add: lower_char_def)

lemma to_lower_idem [str_simps, simp]: "to_lower (to_lower s) = to_lower s"
  by (simp add: to_lower_def)

lemma to_lower_append [str_simps]: "to_lower (a @ b) = to_lower a @ to_lower b"
  by (simp add: to_lower_def)

lemma split_on_not_Nil [simp]: "split_on c s \<noteq> []"
  by (cases s) (auto split: list.splits)

lemma split_on_no_sep: "c \<notin> set s \<Longrightarrow> split_on c s = [s]"
  by (induction s) auto

lemma split_on_append: "c \<notin> set a \<Longrightarrow> split_on c (a @ c # b) = a # split_on c b"
  by (induction a) auto

lemma split_on_snoc: "split_on c (xs @ [c]) = split_on c xs @ [[]]"
  by (induction xs) (auto split: list.split)

lemma split_on_chars: "x \<in> set s \<Longrightarrow> x = c \<or> (\<exists>w \<in> set (split_on c s). x \<in> set w)"
  by (induction s) (auto split: list.split)

lemma cut_at_append: "c \<notin> set a \<Longrightarrow> cut_at c (a @ c # b) = Some (a, b)"
  by (induction a) auto

lemma cut_at_SomeD: "cut_at c s = Some (a, b) \<Longrightarrow> s = a @ c # b \<and> c \<notin> set a"
  by (induction s arbitrary: a b) (auto split: if_splits option.splits)

lemma cut_at_Some_iff: "cut_at c s = Some (a, b) \<longleftrightarrow> s = a @ c # b \<and> c \<notin> set a"
  by (auto simp: cut_at_append dest: cut_at_SomeD)

lemma cut_at_None_iff: "cut_at c s = None \<longleftrightarrow> c \<notin> set s"
  by (induction s) (auto split: option.splits)

section \<open>Instants and durations\<close>

text \<open>
  A \<open>time.Time\<close> is an instant, in nanoseconds since the zero time 0001-01-01T00:00:00Z, with the
  location it is presented in (monotonic clock readings are not modelled). \<open>Before\<close>, \<open>After\<close>,
  \<open>Equal\<close> and \<open>Compare\<close> look at the instant only; \<open>==\<close> compares the location too and is the
  equality of the datatype. A duration is a number of nanoseconds in an \<open>int64\<close>; \<open>Sub\<close>
  saturates at its bounds.
\<close>

datatype location = UTC | Zone string

datatype gotime = Time (nanos: int) (location_of: location)

type_synonym duration = int

definition before :: "gotime \<Rightarrow> gotime \<Rightarrow> bool" where
  "before a b \<longleftrightarrow> nanos a < nanos b"

definition after :: "gotime \<Rightarrow> gotime \<Rightarrow> bool" where
  "after a b \<longleftrightarrow> nanos b < nanos a"

definition time_equal :: "gotime \<Rightarrow> gotime \<Rightarrow> bool" where
  "time_equal a b \<longleftrightarrow> nanos a = nanos b"

definition time_compare :: "gotime \<Rightarrow> gotime \<Rightarrow> int" where
  "time_compare a b = (if nanos a < nanos b then -1 else if nanos b < nanos a then 1 else 0)"

definition is_zero :: "gotime \<Rightarrow> bool" where
  "is_zero t \<longleftrightarrow> nanos t = 0"

definition utc :: "gotime \<Rightarrow> gotime" where
  "utc t = Time (nanos t) UTC"

definition time_add :: "gotime \<Rightarrow> duration \<Rightarrow> gotime" where
  "time_add t d = Time (nanos t + d) (location_of t)"

definition time_sub :: "gotime \<Rightarrow> gotime \<Rightarrow> duration" where
  "time_sub a b = max min_int64 (min max_int64 (nanos a - nanos b))"

definition zero_time :: gotime where
  "zero_time = Time 0 UTC"

definition millisecond :: duration where "millisecond = 1000000"
definition second :: duration where "second = 1000000000"
definition minute :: duration where "minute = 60000000000"
definition hour :: duration where "hour = 3600000000000"
definition day_length :: duration where "day_length = 86400000000000"

text \<open>\<open>AddDate(0, 0, n)\<close> on a UTC instant, where every day has 24 hours.\<close>

definition add_days :: "gotime \<Rightarrow> int \<Rightarrow> gotime" where
  "add_days t n = Time (nanos t + n * day_length) (location_of t)"

text \<open>\<open>UnixMilli\<close>: milliseconds since 1970, rounded towards the past, and \<open>time.UnixMilli\<close>.\<close>

definition unix_epoch :: int where
  "unix_epoch = 62135596800000000000"

definition unix_milli :: "gotime \<Rightarrow> int" where
  "unix_milli t = (nanos t - unix_epoch) div millisecond"

definition of_unix_milli :: "int \<Rightarrow> gotime" where
  "of_unix_milli m = Time (m * millisecond + unix_epoch) UTC"

text \<open>A PostgreSQL \<open>timestamptz\<close> column keeps microseconds.\<close>

definition pg_time :: "gotime \<Rightarrow> gotime" where
  "pg_time t = Time (nanos t div 1000 * 1000) UTC"

lemmas duration_defs = millisecond_def second_def minute_def hour_def day_length_def

declare before_def [time_simps] after_def [time_simps] time_equal_def [time_simps]
  time_compare_def [time_simps] is_zero_def [time_simps] utc_def [time_simps]
  time_add_def [time_simps] zero_time_def [time_simps] add_days_def [time_simps]

lemma unix_milli_of_unix_milli [simp]: "unix_milli (of_unix_milli m) = m"
  by (simp add: unix_milli_def of_unix_milli_def millisecond_def)

lemma utc_simps [simp]: "nanos (utc t) = nanos t" "location_of (utc t) = UTC"
  by (simp_all add: utc_def)

lemma time_sub_exact:
  "is_int64 (nanos a - nanos b) \<Longrightarrow> time_sub a b = nanos a - nanos b"
  by (simp add: time_sub_def is_int64_def)

section \<open>Sorting with a comparison function\<close>

text \<open>
  \<open>slices.SortFunc(xs, cmp)\<close> and \<open>sort.Slice\<close> permute their argument into an order in which no
  element compares greater than a later one. \<open>sort_func\<close> is the insertion sort that computes
  one such order. Go does not say how equal elements are arranged; the locale's
  \<open>sort_func_unique\<close> shows that there is only one result when elements that compare equal are
  equal, and statements about lists with ties are made for every admissible order.
\<close>

fun insert_by :: "('a \<Rightarrow> 'a \<Rightarrow> int) \<Rightarrow> 'a \<Rightarrow> 'a list \<Rightarrow> 'a list" where
  "insert_by cmp x [] = [x]"
| "insert_by cmp x (y # ys) = (if cmp x y \<le> 0 then x # y # ys else y # insert_by cmp x ys)"

fun sort_func :: "('a \<Rightarrow> 'a \<Rightarrow> int) \<Rightarrow> 'a list \<Rightarrow> 'a list" where
  "sort_func cmp [] = []"
| "sort_func cmp (x # xs) = insert_by cmp x (sort_func cmp xs)"

definition ordered_by :: "('a \<Rightarrow> 'a \<Rightarrow> int) \<Rightarrow> 'a list \<Rightarrow> bool" where
  "ordered_by cmp xs = sorted_wrt (\<lambda>x y. cmp x y \<le> 0) xs"

definition sort_result :: "('a \<Rightarrow> 'a \<Rightarrow> int) \<Rightarrow> 'a list \<Rightarrow> 'a list \<Rightarrow> bool" where
  "sort_result cmp xs ys \<longleftrightarrow> mset ys = mset xs \<and> ordered_by cmp ys"

lemma mset_insert_by [simp]: "mset (insert_by cmp x ys) = add_mset x (mset ys)"
  by (induction ys) auto

lemma mset_sort_func [simp]: "mset (sort_func cmp xs) = mset xs"
  by (induction xs) auto

lemma set_sort_func [simp]: "set (sort_func cmp xs) = set xs"
  by (metis mset_sort_func set_mset_mset)

lemma length_sort_func [simp]: "length (sort_func cmp xs) = length xs"
  by (metis mset_sort_func size_mset)

lemma set_insert_by [simp]: "set (insert_by cmp x ys) = insert x (set ys)"
  by (induction ys) auto

lemma sort_func_cong:
  assumes "\<And>x y. x \<in> set xs \<Longrightarrow> y \<in> set xs \<Longrightarrow> f x y = g x y"
  shows "sort_func f xs = sort_func g xs"
proof -
  have ins: "insert_by f x ys = insert_by g x ys" if "\<And>y. y \<in> set ys \<Longrightarrow> f x y = g x y" for x ys
    using that by (induction ys) auto
  show ?thesis using assms
  proof (induction xs)
    case (Cons x xs)
    then have "sort_func f xs = sort_func g xs" by simp
    moreover have "insert_by f x (sort_func g xs) = insert_by g x (sort_func g xs)"
      by (rule ins) (use Cons.prems in auto)
    ultimately show ?case by simp
  qed simp
qed

lemma sort_resultD:
  assumes "sort_result cmp xs ys"
  shows "set ys = set xs" "length ys = length xs" "ordered_by cmp ys"
  using assms mset_eq_setD [of ys xs] mset_eq_length [of ys xs]
  by (auto simp: sort_result_def)

locale comparator =
  fixes cmp :: "'a \<Rightarrow> 'a \<Rightarrow> int"
  assumes cmp_total: "cmp x y \<le> 0 \<or> cmp y x \<le> 0"
    and cmp_trans: "cmp x y \<le> 0 \<Longrightarrow> cmp y z \<le> 0 \<Longrightarrow> cmp x z \<le> 0"
begin

lemma ordered_insert_by: "ordered_by cmp ys \<Longrightarrow> ordered_by cmp (insert_by cmp x ys)"
proof (induction ys)
  case Nil
  then show ?case by (simp add: ordered_by_def)
next
  case (Cons y ys)
  then show ?case
    using cmp_total [of x y] by (auto simp: ordered_by_def intro: cmp_trans)
qed

lemma ordered_sort: "ordered_by cmp (sort_func cmp xs)"
  by (induction xs) (simp_all add: ordered_insert_by ordered_by_def [of cmp "[]"])

lemma sort_result_sort: "sort_result cmp xs (sort_func cmp xs)"
  by (simp add: sort_result_def ordered_sort)

lemma ordered_unique:
  assumes "mset ys = mset zs" "ordered_by cmp ys" "ordered_by cmp zs"
    and anti: "\<And>x y. x \<in> set ys \<Longrightarrow> y \<in> set ys \<Longrightarrow> cmp x y \<le> 0 \<Longrightarrow> cmp y x \<le> 0 \<Longrightarrow> x = y"
  shows "ys = zs"
  using assms
proof (induction ys arbitrary: zs)
  case Nil
  then show ?case by simp
next
  case (Cons y ys)
  then obtain z zs' where zs: "zs = z # zs'" by (cases zs) auto
  have sets: "set (y # ys) = set (z # zs')"
    using Cons.prems(1) zs by (metis set_mset_mset)
  have "y = z"
  proof (rule ccontr)
    assume ne: "y \<noteq> z"
    with sets have "z \<in> set ys" "y \<in> set zs'" by auto
    with Cons.prems(2,3) zs have "cmp y z \<le> 0" "cmp z y \<le> 0" by (auto simp: ordered_by_def)
    with ne sets show False using Cons.prems(4) [of y z] by auto
  qed
  moreover have "ys = zs'"
    using Cons.prems zs \<open>y = z\<close> by (intro Cons.IH) (auto simp: ordered_by_def)
  ultimately show ?case using zs by simp
qed

lemma sort_func_unique:
  assumes "sort_result cmp xs ys"
    and "\<And>x y. x \<in> set xs \<Longrightarrow> y \<in> set xs \<Longrightarrow> cmp x y \<le> 0 \<Longrightarrow> cmp y x \<le> 0 \<Longrightarrow> x = y"
  shows "ys = sort_func cmp xs"
  using assms sort_resultD(1) [OF assms(1)]
  by (intro ordered_unique) (auto simp: sort_result_def ordered_sort)

end

text \<open>Comparators the packages share: by an integer key, by an instant, and lexicographic ones.\<close>

definition cmp_int :: "int \<Rightarrow> int \<Rightarrow> int" where
  "cmp_int a b = (if a < b then -1 else if a > b then 1 else 0)"

definition cmp_string :: "string \<Rightarrow> string \<Rightarrow> int" where
  "cmp_string a b = (if a < b then -1 else if b < a then 1 else 0)"

definition cmp_then :: "int \<Rightarrow> int \<Rightarrow> int" where
  "cmp_then c d = (if c \<noteq> 0 then c else d)"

text \<open>\<open>slices.Contains\<close> and \<open>slices.Compact\<close> (adjacent duplicates only).\<close>

fun compact :: "'a list \<Rightarrow> 'a list" where
  "compact [] = []"
| "compact [x] = [x]"
| "compact (x # y # ys) = (if x = y then compact (y # ys) else x # compact (y # ys))"

lemma compact_eq_remdups_adj: "compact xs = remdups_adj xs"
  by (induction xs rule: compact.induct) auto

lemma set_compact [simp]: "set (compact xs) = set xs"
  by (simp add: compact_eq_remdups_adj)

lemma sorted_compact_distinct:
  fixes xs :: "'a::linorder list"
  assumes "sorted xs"
  shows "sorted (compact xs)" "distinct (compact xs)"
  using assms by (induction xs rule: compact.induct) (auto simp: order_less_le)

interpretation int_order: comparator cmp_int
  by unfold_locales (auto simp: cmp_int_def split: if_splits)

lemma sorted_sort_ints: "sorted (sort_func cmp_int xs)"
proof -
  have "sorted_wrt (\<le>) (sort_func cmp_int xs)"
    using int_order.ordered_sort [of xs] unfolding ordered_by_def
    by (rule sorted_wrt_mono_rel [rotated]) (auto simp: cmp_int_def split: if_splits)
  then show ?thesis by simp
qed

text \<open>
  The duplicate check that many validators make: a loop with a \<open>seen\<close> set, which returns at
  the first key it has already met.
\<close>

fun has_dup :: "'a list \<Rightarrow> 'a list \<Rightarrow> bool" where
  "has_dup seen [] = False"
| "has_dup seen (x # xs) = (x \<in> set seen \<or> has_dup (x # seen) xs)"

lemma has_dup_iff: "has_dup seen xs \<longleftrightarrow> \<not> (distinct xs \<and> set xs \<inter> set seen = {})"
  by (induction xs arbitrary: seen) auto

section \<open>Decimal integers\<close>

text \<open>\<open>strconv.FormatInt(i, 10)\<close> (also \<open>fmt\<close>'s \<open>%d\<close>) and \<open>strconv.ParseInt(s, 10, 64)\<close>.\<close>

definition digit_char :: "nat \<Rightarrow> char" where
  "digit_char d = char_of (48 + d)"

definition digit_value :: "char \<Rightarrow> nat option" where
  "digit_value c = (if 48 \<le> (of_char c :: nat) \<and> of_char c \<le> (57 :: nat)
     then Some (of_char c - 48) else None)"

fun format_nat :: "nat \<Rightarrow> string" where
  "format_nat n = (if n < 10 then [digit_char n] else format_nat (n div 10) @ [digit_char (n mod 10)])"

declare format_nat.simps [simp del]

definition format_int :: "int \<Rightarrow> string" where
  "format_int i = (if i < 0 then CHR ''-'' # format_nat (nat (- i)) else format_nat (nat i))"

fun parse_digits :: "nat \<Rightarrow> string \<Rightarrow> nat option" where
  "parse_digits acc [] = Some acc"
| "parse_digits acc (c # cs) =
     (case digit_value c of None \<Rightarrow> None | Some d \<Rightarrow> parse_digits (10 * acc + d) cs)"

definition parse_nat :: "string \<Rightarrow> nat option" where
  "parse_nat s = (if s = [] then None else parse_digits 0 s)"

definition parse_int64 :: "string \<Rightarrow> int option" where
  "parse_int64 s =
     (let (neg, digits) = (case s of [] \<Rightarrow> (False, [])
            | c # cs \<Rightarrow> if c = CHR ''-'' then (True, cs)
                       else if c = CHR ''+'' then (False, cs) else (False, s))
      in case parse_nat digits of
           None \<Rightarrow> None
         | Some n \<Rightarrow> (let v = (if neg then - int n else int n)
             in if is_int64 v then Some v else None))"

lemma digit_value_digit_char: "d < 10 \<Longrightarrow> digit_value (digit_char d) = Some d"
  by (simp add: digit_value_def digit_char_def)

lemma format_nat_not_Nil [simp]: "format_nat n \<noteq> []"
  by (subst format_nat.simps) simp

lemma parse_digits_append:
  "parse_digits acc (a @ b) = (case parse_digits acc a of None \<Rightarrow> None | Some v \<Rightarrow> parse_digits v b)"
  by (induction a arbitrary: acc) (auto split: option.splits)

lemma parse_digits_format_nat: "parse_digits 0 (format_nat n) = Some n"
proof (induction n rule: format_nat.induct)
  case (1 n)
  show ?case
  proof (cases "n < 10")
    case True
    then show ?thesis by (subst format_nat.simps) (simp add: digit_value_digit_char)
  next
    case False
    with 1 show ?thesis
      by (subst format_nat.simps) (simp add: parse_digits_append digit_value_digit_char)
  qed
qed

lemma set_format_nat: "c \<in> set (format_nat n) \<Longrightarrow> \<exists>d<10. c = digit_char d"
proof (induction n rule: format_nat.induct)
  case (1 n)
  then show ?case
    by (subst (asm) (2) format_nat.simps) (auto split: if_splits intro: exI [of _ "n mod 10"])
qed

lemma digit_char_neq [simp]:
  "d < 10 \<Longrightarrow> digit_char d \<noteq> CHR ''-''" "d < 10 \<Longrightarrow> digit_char d \<noteq> CHR ''+''"
  "d < 10 \<Longrightarrow> digit_char d \<noteq> CHR ''.''" "d < 10 \<Longrightarrow> digit_char d \<noteq> CHR '':''"
  "d < 10 \<Longrightarrow> digit_char d \<noteq> CHR ''/''"
  by (auto simp: digit_char_def dest: arg_cong [where f = "of_char :: char \<Rightarrow> nat"])

lemmas digit_char_neq_sym [simp] = digit_char_neq [symmetric]

lemma format_nat_hd_digit:
  obtains c cs d where "format_nat n = c # cs" "c = digit_char d" "d < 10"
  using set_format_nat [of "hd (format_nat n)" n] by (cases "format_nat n") auto

lemma parse_int64_format_int: "is_int64 i \<Longrightarrow> parse_int64 (format_int i) = Some i"
proof -
  assume i: "is_int64 i"
  obtain c cs d where f: "format_nat (nat i) = c # cs" "c = digit_char d" "d < 10"
    by (rule format_nat_hd_digit)
  show ?thesis
  proof (cases "i < 0")
    case True
    with i show ?thesis
      by (simp add: parse_int64_def format_int_def parse_nat_def parse_digits_format_nat)
  next
    case False
    with i f parse_digits_format_nat [of "nat i"] show ?thesis
      by (simp add: parse_int64_def format_int_def parse_nat_def)
  qed
qed

lemma set_format_int: "c \<in> set (format_int i) \<Longrightarrow> c = CHR ''-'' \<or> (\<exists>d<10. c = digit_char d)"
  by (auto simp: format_int_def dest: set_format_nat split: if_splits)

lemma format_int_no_sep [simp]:
  "CHR ''.'' \<notin> set (format_int i)" "CHR '':'' \<notin> set (format_int i)" "CHR ''/'' \<notin> set (format_int i)"
  by (auto dest!: set_format_int)

lemma format_nat_inj: "format_nat m = format_nat n \<Longrightarrow> m = n"
  by (metis option.inject parse_digits_format_nat)

lemma format_int_inj: "format_int i = format_int j \<Longrightarrow> i = j"
proof -
  assume eq: "format_int i = format_int j"
  have sign: "format_nat n \<noteq> CHR ''-'' # s" for n s
    using set_format_nat [of "CHR ''-''" n] digit_char_neq(1) by (metis list.set_intros(1))
  from eq sign show ?thesis
    by (auto simp: format_int_def dest: format_nat_inj split: if_splits)
      (metis sign)+
qed

end
