(* ===== verification/Go_Float.thy ===== *)
theory Go_Float
  imports Complex_Main "HOL-Library.Log_Nat" Go_Base
begin

text \<open>
  Go's \<open>float64\<close>: IEEE 754 binary64 with rounding to nearest, ties to even. A finite value is the
  rational number it denotes, and every arithmetic operation is the exact rational result
  rounded by \<open>round_rat\<close>, the rounding to 53 significant bits with gradual underflow; a result
  of magnitude at least \<open>2^1024\<close> is an infinity. The two zeros are one value, so division by
  zero takes the zero as positive. The locale \<open>rounding\<close> collects what the components use of
  the rounding; it is interpreted on \<open>round_rat\<close>.
\<close>

named_theorems float_simps \<open>IEEE comparisons and arithmetic\<close>

section \<open>Rounding\<close>

definition flog2 :: "rat \<Rightarrow> int" where
  "flog2 q = (let (n, d) = quotient_of q; k = bitlen n - bitlen d
     in if 2 powi k \<le> q then k else k - 1)"

definition round_half_even :: "rat \<Rightarrow> int" where
  "round_half_even y = (let f = \<lfloor>y\<rfloor>; r = y - of_int f
     in if r < 1 / 2 then f else if 1 / 2 < r then f + 1 else if even f then f else f + 1)"

definition round_pos :: "rat \<Rightarrow> rat" where
  "round_pos q = (let e = max (- 1022) (flog2 q)
     in of_int (round_half_even (q * 2 powi (52 - e))) * 2 powi (e - 52))"

definition round_rat :: "rat \<Rightarrow> rat" where
  "round_rat q = (if q = 0 then 0 else if 0 < q then round_pos q else - round_pos (- q))"

lemma bitlen_bounds':
  assumes "0 < n"
  shows "(2::rat) powi (bitlen n - 1) \<le> of_int n" "of_int n < (2::rat) powi bitlen n"
proof -
  have b: "2 ^ nat (bitlen n - 1) \<le> n" "n < 2 ^ nat (bitlen n)"
    using bitlen_bounds [OF assms] by auto
  have p: "0 < bitlen n"
  proof -
    have "0 \<le> \<lfloor>log 2 (real_of_int n)\<rfloor>" using assms by simp
    with assms show ?thesis by (simp add: bitlen_def floorlog_def del: zero_le_floor)
  qed
  have "(of_int (2 ^ nat (bitlen n - 1)) :: rat) \<le> of_int n"
    using b(1) of_int_le_iff by blast
  with p show "(2::rat) powi (bitlen n - 1) \<le> of_int n"
    by (simp add: power_int_def)
  have "(of_int n :: rat) < of_int (2 ^ nat (bitlen n))"
    using b(2) of_int_less_iff by blast
  with p show "of_int n < (2::rat) powi bitlen n"
    by (simp add: power_int_def)
qed

lemma flog2_bounds:
  assumes "0 < q"
  shows "2 powi flog2 q \<le> q" "q < 2 powi (flog2 q + 1)"
proof -
  obtain n d where nd: "quotient_of q = (n, d)" by fastforce
  then have q: "q = of_int n / of_int d" and d: "0 < d"
    by (auto simp: quotient_of_div quotient_of_denom_pos)
  with assms have n: "0 < n"
    by (simp add: zero_less_divide_iff)
  note bn = bitlen_bounds' [OF n] and bd = bitlen_bounds' [OF d]
  define k where "k = bitlen n - bitlen d"
  have up: "q < 2 powi (k + 1)"
  proof -
    have "of_int n < (2::rat) powi bitlen n" by (rule bn)
    also have "\<dots> = 2 powi (k + 1) * (2::rat) powi (bitlen d - 1)"
      by (simp add: k_def flip: power_int_add)
    also have "\<dots> \<le> 2 powi (k + 1) * of_int d"
      using bd(1) by (intro mult_left_mono) auto
    finally show ?thesis using d by (simp add: q divide_simps)
  qed
  have low: "2 powi (k - 1) \<le> q"
  proof -
    have "2 powi (k - 1) * of_int d \<le> 2 powi (k - 1) * (2::rat) powi bitlen d"
      using bd(2) by (intro mult_left_mono) auto
    also have "\<dots> = 2 powi (bitlen n - 1)"
      by (simp add: k_def flip: power_int_add)
    also have "\<dots> \<le> of_int n" by (rule bn)
    finally show ?thesis using d by (simp add: q divide_simps)
  qed
  have f: "flog2 q = (if 2 powi k \<le> q then k else k - 1)"
    by (simp add: flog2_def nd k_def)
  show "2 powi flog2 q \<le> q" "q < 2 powi (flog2 q + 1)"
    using up low by (auto simp: f)
qed

lemma powi2_less_iff: "(2::rat) powi a < 2 powi b \<longleftrightarrow> a < b"
  by (meson less_le_not_le linorder_not_less one_less_numeral_iff power_int_increasing
      power_int_strict_increasing semiring_norm(76) one_le_numeral)

lemma powi2_mono: "a \<le> b \<Longrightarrow> (2::rat) powi a \<le> 2 powi b"
  by (simp add: power_int_increasing)

lemma flog2_less_max:
  assumes "0 < q"
  shows "q < 2 powi (max m (flog2 q) + 1)"
  using flog2_bounds(2) [OF assms] powi2_mono [of "flog2 q + 1" "max m (flog2 q) + 1"] by simp

lemma flog2_unique: "2 powi e \<le> q \<Longrightarrow> q < 2 powi (e + 1) \<Longrightarrow> flog2 q = e"
proof -
  assume a: "2 powi e \<le> q" "q < 2 powi (e + 1)"
  then have "0 < q" using less_le_trans [of 0 "2 powi e" q] by simp
  note f = flog2_bounds [OF this]
  have "(2::rat) powi e < 2 powi (flog2 q + 1)" "(2::rat) powi flog2 q < 2 powi (e + 1)"
    using a f by auto
  then show ?thesis by (simp add: powi2_less_iff)
qed

lemma flog2_mono:
  assumes "0 < p" "p \<le> q"
  shows "flog2 p \<le> flog2 q"
proof -
  have "(2::rat) powi flog2 p < 2 powi (flog2 q + 1)"
    using flog2_bounds [of p] flog2_bounds [of q] assms by linarith
  then show ?thesis by (simp add: powi2_less_iff)
qed

lemma round_half_even_bounds: "\<lfloor>y\<rfloor> \<le> round_half_even y" "round_half_even y \<le> \<lfloor>y\<rfloor> + 1"
  by (auto simp: round_half_even_def Let_def)

lemma round_half_even_of_int [simp]: "round_half_even (of_int i) = i"
  by (simp add: round_half_even_def)

lemma round_half_even_mono:
  assumes "x \<le> y"
  shows "round_half_even x \<le> round_half_even y"
proof (cases "\<lfloor>x\<rfloor> = \<lfloor>y\<rfloor>")
  case True
  with assms show ?thesis by (auto simp: round_half_even_def Let_def)
next
  case False
  with assms have "\<lfloor>x\<rfloor> + 1 \<le> \<lfloor>y\<rfloor>" using floor_mono [OF assms] by linarith
  then show ?thesis
    using round_half_even_bounds(2) [of x] round_half_even_bounds(1) [of y] by linarith
qed

lemma round_pos_le_power:
  assumes "0 < q" "- 1022 \<le> e" "q < 2 powi (e + 1)"
  shows "round_pos q \<le> 2 powi (e + 1)"
proof -
  define f where "f = max (- 1022) (flog2 q)"
  have "(2::rat) powi flog2 q < 2 powi (e + 1)"
    using flog2_bounds(1) [OF assms(1)] assms(3) by linarith
  then have fe: "f \<le> e" using assms(2) by (simp add: f_def powi2_less_iff)
  have "q < 2 powi (f + 1)"
    using flog2_less_max [OF assms(1)] by (simp add: f_def)
  then have "q * 2 powi (52 - f) \<le> 2 powi (f + 1) * 2 powi (52 - f)"
    by (intro mult_right_mono) auto
  also have "\<dots> = (of_int (2 ^ 53) :: rat)"
    by (simp flip: power_int_add)
  finally have "round_half_even (q * 2 powi (52 - f)) \<le> 2 ^ 53"
    using round_half_even_mono round_half_even_of_int by metis
  then have "(of_int (round_half_even (q * 2 powi (52 - f))) :: rat) \<le> of_int (2 ^ 53)"
    using of_int_le_iff by blast
  then have "round_pos q \<le> of_int (2 ^ 53) * 2 powi (f - 52)"
    unfolding round_pos_def Let_def f_def [symmetric] by (intro mult_right_mono) auto
  also have "\<dots> = 2 powi (f + 1)"
    using power_int_add [of "2::rat" 53 "f - 52"] by (simp add: add.commute)
  also have "\<dots> \<le> 2 powi (e + 1)"
    using fe by (intro power_int_increasing) auto
  finally show ?thesis .
qed

lemma round_pos_ge_power:
  assumes "0 < q" "- 1022 \<le> flog2 q"
  shows "2 powi flog2 q \<le> round_pos q"
proof -
  define f where "f = flog2 q"
  have m: "max (- 1022) (flog2 q) = f" using assms(2) by (simp add: f_def)
  have "2 powi f * 2 powi (52 - f) \<le> q * 2 powi (52 - f)"
    using flog2_bounds(1) [OF assms(1)] by (intro mult_right_mono) (auto simp: f_def)
  moreover have "2 powi f * 2 powi (52 - f) = (of_int (2 ^ 52) :: rat)"
    by (simp flip: power_int_add)
  ultimately have "2 ^ 52 \<le> round_half_even (q * 2 powi (52 - f))"
    using round_half_even_mono round_half_even_of_int by metis
  then have "(of_int (2 ^ 52) :: rat) \<le> of_int (round_half_even (q * 2 powi (52 - f)))"
    using of_int_le_iff by blast
  then have "of_int (2 ^ 52) * 2 powi (f - 52) \<le> round_pos q"
    unfolding round_pos_def Let_def m by (intro mult_right_mono) auto
  moreover have "of_int (2 ^ 52) * 2 powi (f - 52) = (2::rat) powi f"
    using power_int_add [of "2::rat" 52 "f - 52"] by simp
  ultimately show ?thesis by (simp add: f_def)
qed

lemma round_pos_mono:
  assumes "0 < p" "p \<le> q"
  shows "round_pos p \<le> round_pos q"
proof (cases "max (- 1022) (flog2 p) = max (- 1022) (flog2 q)")
  case True
  define e where "e = max (- 1022) (flog2 q)"
  have "(of_int (round_half_even (p * 2 powi (52 - e))) :: rat) \<le>
        of_int (round_half_even (q * 2 powi (52 - e)))"
    using assms by (intro of_int_le_iff [THEN iffD2] round_half_even_mono mult_right_mono) auto
  then show ?thesis
    unfolding round_pos_def Let_def True e_def [symmetric] by (intro mult_right_mono) auto
next
  case False
  define e where "e = max (- 1022) (flog2 p)"
  have lt: "e < flog2 q" using False flog2_mono [OF assms] by (auto simp: e_def)
  have "p < 2 powi (e + 1)"
    using flog2_less_max [OF assms(1)] by (simp add: e_def)
  then have "round_pos p \<le> 2 powi (e + 1)"
    using assms(1) by (intro round_pos_le_power) (auto simp: e_def)
  also have "\<dots> \<le> 2 powi flog2 q"
    using lt by (intro power_int_increasing) auto
  also have "\<dots> \<le> round_pos q"
    using assms lt by (intro round_pos_ge_power) (auto simp: e_def)
  finally show ?thesis .
qed

lemma round_pos_nonneg: "0 < q \<Longrightarrow> 0 \<le> round_pos q"
proof -
  assume "0 < q"
  then have "0 \<le> round_half_even (q * 2 powi (52 - max (- 1022) (flog2 q)))"
    using round_half_even_mono [of 0] round_half_even_of_int [of 0] by simp
  then show ?thesis by (simp add: round_pos_def Let_def)
qed

text \<open>Integers of magnitude up to \<open>2^53\<close> are represented exactly.\<close>

lemma round_pos_of_int:
  assumes "0 < n" "n \<le> 2 ^ 53"
  shows "round_pos (of_int n) = of_int n"
proof -
  define e where "e = flog2 (of_int n)"
  have lo: "2 powi e \<le> (of_int n :: rat)" and hi: "(of_int n :: rat) < 2 powi (e + 1)"
    using flog2_bounds [of "of_int n"] assms by (auto simp: e_def)
  have "(2::rat) powi 0 < 2 powi (e + 1)" using hi assms by (simp add: le_less_trans)
  then have e0: "0 \<le> e" by (simp only: powi2_less_iff)
  have "(of_int n :: rat) \<le> of_int (2 ^ 53)" using assms(2) of_int_le_iff by blast
  then have "(2::rat) powi e < 2 powi 54" using lo by (simp add: le_less_trans)
  then have e53: "e \<le> 53" by (simp only: powi2_less_iff)
  have scale: "(2::rat) powi (52 - e) * 2 powi (e - 52) = 1"
    by (simp flip: power_int_add)
  show ?thesis
  proof (cases "e = 53")
    case True
    then have "of_int n = (2::rat) ^ 53"
      using lo \<open>of_int n \<le> of_int (2 ^ 53)\<close> by (simp add: power_int_def)
    then have "n = 2 ^ 53"
      by (metis of_int_eq_iff of_int_numeral of_int_power)
    moreover have "flog2 (of_int (2 ^ 53)) = 53"
      by (rule flog2_unique) (auto simp: power_int_def)
    moreover have "round_half_even (of_int (2 ^ 53) * 2 powi (52 - 53)) = 2 ^ 52"
      using round_half_even_of_int [of "2 ^ 52"] by (simp add: power_int_def)
    ultimately show ?thesis
      by (simp add: round_pos_def Let_def power_int_def)
  next
    case False
    with e53 have "(of_int n * 2 powi (52 - e) :: rat) = of_int (n * 2 ^ nat (52 - e))"
      by (simp add: power_int_def)
    then have "round_half_even (of_int n * 2 powi (52 - e)) = n * 2 ^ nat (52 - e)"
      by (simp only: round_half_even_of_int)
    then show ?thesis
      using e0 False e53 scale
      by (simp add: round_pos_def Let_def e_def [symmetric] power_int_def)
  qed
qed

section \<open>What the components use of the rounding\<close>

locale rounding =
  fixes rnd :: "rat \<Rightarrow> rat"
  assumes rnd_mono: "x \<le> y \<Longrightarrow> rnd x \<le> rnd y"
    and rnd_minus: "rnd (- x) = - rnd x"
    and rnd_0: "rnd 0 = 0"
    and rnd_1: "rnd 1 = 1"
begin

lemma rnd_nonneg: "0 \<le> x \<Longrightarrow> 0 \<le> rnd x"
  using rnd_mono [of 0 x] by (simp add: rnd_0)

lemma rnd_le_1: "x \<le> 1 \<Longrightarrow> rnd x \<le> 1"
  using rnd_mono [of x 1] by (simp add: rnd_1)

lemma rnd_abs: "\<bar>rnd x\<bar> = rnd \<bar>x\<bar>"
  using rnd_nonneg [of x] rnd_nonneg [of "- x"] by (auto simp: abs_if rnd_minus)

end

lemma round_rat_mono: "x \<le> y \<Longrightarrow> round_rat x \<le> round_rat y"
  using round_pos_mono [of x y] round_pos_mono [of "- y" "- x"]
    round_pos_nonneg [of y] round_pos_nonneg [of "- x"]
  by (auto simp: round_rat_def)

lemma round_rat_of_int: "\<bar>n\<bar> \<le> 2 ^ 53 \<Longrightarrow> round_rat (of_int n) = of_int n"
  using round_pos_of_int [of n] round_pos_of_int [of "- n"] by (auto simp: round_rat_def)

text \<open>The rounding of a concrete number: \<open>n / 2^k\<close> when \<open>n\<close> is the nearest 53-bit integer to \<open>q * 2^k\<close>.\<close>

lemma round_half_even_nearest:
  assumes "\<bar>y - of_int n\<bar> < 1 / 2 \<or> \<bar>y - of_int n\<bar> = 1 / 2 \<and> even n"
  shows "round_half_even y = n"
proof -
  have "\<lfloor>y\<rfloor> = n \<or> \<lfloor>y\<rfloor> = n - 1" using assms by (auto simp: floor_eq_iff abs_if split: if_splits)
  then show ?thesis
  proof
    assume f: "\<lfloor>y\<rfloor> = n"
    then have "of_int n \<le> y" by linarith
    with assms f show ?thesis by (auto simp: round_half_even_def Let_def)
  next
    assume f: "\<lfloor>y\<rfloor> = n - 1"
    then have "y < of_int n" by linarith
    with assms f show ?thesis by (auto simp: round_half_even_def Let_def)
  qed
qed

lemma round_rat_nearest:
  assumes "2 ^ 52 \<le> q * 2 ^ k" "q * 2 ^ k < 2 ^ 53" "k \<le> 1000"
    and "\<bar>q * 2 ^ k - of_int n\<bar> < 1 / 2 \<or> \<bar>q * 2 ^ k - of_int n\<bar> = 1 / 2 \<and> even n"
  shows "round_rat q = of_int n / 2 ^ k"
proof -
  have "0 < q * 2 ^ k" using assms(1) by (rule less_le_trans [rotated]) simp
  then have pos: "0 < q" by (simp add: zero_less_mult_iff)
  have p: "(2::rat) powi (52 - int k) = 2 ^ 52 / 2 ^ k" "(2::rat) powi (52 - int k + 1) = 2 ^ 53 / 2 ^ k"
    by (simp_all add: power_int_diff power_int_add)
  have "flog2 q = 52 - int k"
    using assms(1,2) by (intro flog2_unique, unfold p) (simp_all add: pos_divide_le_eq pos_less_divide_eq)
  moreover have "max (- 1022) (52 - int k) = 52 - int k" using assms(3) by simp
  ultimately have "round_pos q = of_int (round_half_even (q * 2 ^ k)) * 2 powi (- int k)"
    by (simp add: round_pos_def)
  also have "\<dots> = of_int n / 2 ^ k"
    using round_half_even_nearest [OF assms(4)] by (simp add: power_int_minus divide_inverse)
  finally show ?thesis using pos by (simp add: round_rat_def)
qed

interpretation r64: rounding round_rat
proof
  show "x \<le> y \<Longrightarrow> round_rat x \<le> round_rat y" for x y by (rule round_rat_mono)
  show "round_rat (- x) = - round_rat x" for x by (simp add: round_rat_def)
  show "round_rat 0 = 0" by (simp add: round_rat_def)
  show "round_rat 1 = 1" using round_rat_of_int [of 1] by simp
qed

section \<open>Values, comparisons and arithmetic\<close>

datatype f64 = Fin rat | PInf | NInf | NaN

definition of_rat64 :: "rat \<Rightarrow> f64" where
  "of_rat64 q = (let v = round_rat q
     in if 2 ^ 1024 \<le> v then PInf else if v \<le> - (2 ^ 1024) then NInf else Fin v)"

text \<open>The conversion \<open>float64(i)\<close>.\<close>

definition of_int_f64 :: "int \<Rightarrow> f64" where
  "of_int_f64 i = of_rat64 (of_int i)"

definition is_nan :: "f64 \<Rightarrow> bool" where
  "is_nan x \<longleftrightarrow> x = NaN"

definition is_inf :: "f64 \<Rightarrow> bool" where
  "is_inf x \<longleftrightarrow> x = PInf \<or> x = NInf"

definition finite_f64 :: "f64 \<Rightarrow> bool" where
  "finite_f64 x \<longleftrightarrow> \<not> is_nan x \<and> \<not> is_inf x"

fun flt :: "f64 \<Rightarrow> f64 \<Rightarrow> bool" where
  "flt (Fin a) (Fin b) = (a < b)"
| "flt (Fin a) PInf = True"
| "flt NInf (Fin b) = True"
| "flt NInf PInf = True"
| "flt _ _ = False"

fun feq :: "f64 \<Rightarrow> f64 \<Rightarrow> bool" where
  "feq (Fin a) (Fin b) = (a = b)"
| "feq PInf PInf = True"
| "feq NInf NInf = True"
| "feq _ _ = False"

definition fle :: "f64 \<Rightarrow> f64 \<Rightarrow> bool" where
  "fle x y \<longleftrightarrow> flt x y \<or> feq x y"

fun fneg :: "f64 \<Rightarrow> f64" where
  "fneg (Fin a) = Fin (- a)"
| "fneg PInf = NInf"
| "fneg NInf = PInf"
| "fneg NaN = NaN"

fun fabs :: "f64 \<Rightarrow> f64" where
  "fabs (Fin a) = Fin \<bar>a\<bar>"
| "fabs NaN = NaN"
| "fabs _ = PInf"

fun fadd :: "f64 \<Rightarrow> f64 \<Rightarrow> f64" where
  "fadd (Fin a) (Fin b) = of_rat64 (a + b)"
| "fadd NaN _ = NaN"
| "fadd _ NaN = NaN"
| "fadd PInf NInf = NaN"
| "fadd NInf PInf = NaN"
| "fadd PInf _ = PInf"
| "fadd _ PInf = PInf"
| "fadd NInf _ = NInf"
| "fadd _ NInf = NInf"

definition fsub :: "f64 \<Rightarrow> f64 \<Rightarrow> f64" where
  "fsub x y = fadd x (fneg y)"

definition signed_inf :: "rat \<Rightarrow> bool \<Rightarrow> f64" where
  "signed_inf a positive = (if a = 0 then NaN else if (0 < a) = positive then PInf else NInf)"

fun fmul :: "f64 \<Rightarrow> f64 \<Rightarrow> f64" where
  "fmul (Fin a) (Fin b) = of_rat64 (a * b)"
| "fmul NaN _ = NaN"
| "fmul _ NaN = NaN"
| "fmul (Fin a) PInf = signed_inf a True"
| "fmul (Fin a) NInf = signed_inf a False"
| "fmul PInf (Fin b) = signed_inf b True"
| "fmul NInf (Fin b) = signed_inf b False"
| "fmul PInf PInf = PInf"
| "fmul NInf NInf = PInf"
| "fmul _ _ = NInf"

fun fdiv :: "f64 \<Rightarrow> f64 \<Rightarrow> f64" where
  "fdiv (Fin a) (Fin b) = (if b = 0 then signed_inf a True else of_rat64 (a / b))"
| "fdiv NaN _ = NaN"
| "fdiv _ NaN = NaN"
| "fdiv (Fin a) _ = Fin 0"
| "fdiv PInf (Fin b) = (if b < 0 then NInf else PInf)"
| "fdiv NInf (Fin b) = (if b < 0 then PInf else NInf)"
| "fdiv _ _ = NaN"

lemma of_rat64_Fin [simp]: "\<bar>round_rat q\<bar> < 2 ^ 1024 \<Longrightarrow> of_rat64 q = Fin (round_rat q)"
  by (auto simp: of_rat64_def Let_def abs_if split: if_splits)

lemma of_rat64_nearest:
  fixes q :: rat
  assumes "2 ^ 52 \<le> q * 2 ^ k" "q * 2 ^ k < 2 ^ 53" "k \<le> 1000"
    and "\<bar>q * 2 ^ k - of_int n\<bar> < 1 / 2 \<or> \<bar>q * 2 ^ k - of_int n\<bar> = 1 / 2 \<and> even n"
    and "\<bar>n\<bar> \<le> 2 ^ 53"
  shows "of_rat64 q = Fin (of_int n / 2 ^ k)"
proof -
  have "\<bar>of_int n / 2 ^ k :: rat\<bar> \<le> \<bar>of_int n\<bar>"
    by (simp add: abs_divide divide_le_eq mult_le_cancel_left1)
  also have "\<bar>of_int n :: rat\<bar> \<le> 2 ^ 53" using assms(5) by (metis of_int_abs of_int_le_iff of_int_numeral of_int_power)
  also have "(2::rat) ^ 53 < 2 ^ 1024" by simp
  finally show ?thesis
    using round_rat_nearest [OF assms(1-4)] by (simp add: of_rat64_Fin)
qed

lemma of_rat64_unit:
  assumes "0 \<le> q" "q \<le> 1"
  shows "of_rat64 q = Fin (round_rat q)"
proof -
  have "\<bar>round_rat q\<bar> \<le> 1"
    using assms r64.rnd_nonneg [of q] r64.rnd_le_1 [of q] by simp
  also have "(1::rat) < 2 ^ 1024" by simp
  finally show ?thesis by simp
qed

lemma of_int_f64_small:
  assumes "\<bar>i\<bar> \<le> 2 ^ 53"
  shows "of_int_f64 i = Fin (of_int i)"
proof -
  have "\<bar>of_int i :: rat\<bar> \<le> 2 ^ 53"
    using assms of_int_le_iff [of "\<bar>i\<bar>" "2 ^ 53", where 'a = rat] by simp
  also have "(2::rat) ^ 53 < 2 ^ 1024" by simp
  finally show ?thesis
    using round_rat_of_int [OF assms] by (simp add: of_int_f64_def)
qed

lemma fle_Fin [simp]: "fle (Fin a) (Fin b) \<longleftrightarrow> a \<le> b"
  by (auto simp: fle_def)

lemma fle_refl: "\<not> is_nan x \<Longrightarrow> fle x x"
  by (cases x) (auto simp: fle_def is_nan_def)

lemma fle_trans: "fle x y \<Longrightarrow> fle y z \<Longrightarrow> fle x z"
  by (cases x; cases y; cases z) (auto simp: fle_def)

lemma not_flt_fle: "\<not> is_nan x \<Longrightarrow> \<not> is_nan y \<Longrightarrow> \<not> flt x y \<longleftrightarrow> fle y x"
  by (cases x; cases y) (auto simp: fle_def is_nan_def)

lemma feq_iff: "feq x y \<longleftrightarrow> x = y \<and> \<not> is_nan x"
  by (cases x; cases y) (auto simp: is_nan_def)

lemma finite_f64_iff: "finite_f64 x \<longleftrightarrow> (\<exists>a. x = Fin a)"
  by (cases x) (auto simp: finite_f64_def is_nan_def is_inf_def)

lemma fle_of_rat64: "p \<le> q \<Longrightarrow> fle (of_rat64 p) (of_rat64 q)"
  using r64.rnd_mono [of p q] by (auto simp: of_rat64_def Let_def fle_def)

lemma is_nan_of_rat64 [simp]: "\<not> is_nan (of_rat64 q)"
  by (simp add: of_rat64_def Let_def is_nan_def)

text \<open>\<open>slices.Sort\<close> on floats puts NaN first.\<close>

definition cmp_f64 :: "f64 \<Rightarrow> f64 \<Rightarrow> int" where
  "cmp_f64 x y = (if is_nan x then (if is_nan y then 0 else -1) else if is_nan y then 1
     else if flt x y then -1 else if flt y x then 1 else 0)"

interpretation float_order: comparator cmp_f64
proof
  show "cmp_f64 x y \<le> 0 \<or> cmp_f64 y x \<le> 0" for x y
    by (cases x; cases y) (auto simp: cmp_f64_def is_nan_def)
  show "cmp_f64 x y \<le> 0 \<Longrightarrow> cmp_f64 y z \<le> 0 \<Longrightarrow> cmp_f64 x z \<le> 0" for x y z
    by (cases x; cases y; cases z) (auto simp: cmp_f64_def is_nan_def split: if_splits)
qed

end
