(* ===== verification/Go_Lifecycle.thy ===== *)
theory Go_Lifecycle
  imports Go_Base
begin

text \<open>
  The contract that the stateful entities of the program share: an operation either refuses,
  keeps the value as it is, or returns a new value with a greater version, and a terminal value
  never changes again. A caller that gets an error keeps the value it has, which is what
  \<open>run_ops\<close> does over a sequence of operations. \<open>preserving\<close> is the part of the contract that
  every invariant of a component needs, \<open>versioned\<close> extends it with versions and terminal states.
\<close>

fun run_ops :: "('op \<Rightarrow> 's \<Rightarrow> 'e + 's) \<Rightarrow> 's \<Rightarrow> 'op list \<Rightarrow> 's" where
  "run_ops f s [] = s"
| "run_ops f s (a # as) = run_ops f (case f a s of Inl e \<Rightarrow> s | Inr t \<Rightarrow> t) as"

lemma run_ops_cong: "(\<And>a. a \<in> set as \<Longrightarrow> f a = g a) \<Longrightarrow> run_ops f s as = run_ops g s as"
  by (induction as arbitrary: s) auto

locale preserving =
  fixes apply_op :: "'op \<Rightarrow> 's \<Rightarrow> 'e + 's"
    and well_formed :: "'s \<Rightarrow> bool"
  assumes op_well_formed: "well_formed s \<Longrightarrow> apply_op a s = Inr t \<Longrightarrow> well_formed t"
begin

lemma run_well_formed: "well_formed s \<Longrightarrow> well_formed (run_ops apply_op s as)"
  by (induction as arbitrary: s) (auto intro: op_well_formed split: sum.split)

end

locale versioned = preserving apply_op well_formed
  for apply_op :: "'op \<Rightarrow> 's \<Rightarrow> 'e + 's" and well_formed :: "'s \<Rightarrow> bool" +
  fixes version_of :: "'s \<Rightarrow> int"
    and terminal_state :: "'s \<Rightarrow> bool"
  assumes op_version: "well_formed s \<Longrightarrow> apply_op a s = Inr t \<Longrightarrow> t = s \<or> version_of s < version_of t"
    and op_terminal: "well_formed s \<Longrightarrow> terminal_state s \<Longrightarrow> apply_op a s = Inr t \<Longrightarrow> t = s"
begin

lemma run_version: 
  "well_formed s \<Longrightarrow> run_ops apply_op s as = s \<or> version_of s < version_of (run_ops apply_op s as)"
proof (induction as arbitrary: s)
  case Nil
  then show ?case by simp
next
  case (Cons a as)
  show ?case
  proof (cases "apply_op a s")
    case (Inl e)
    with Cons show ?thesis by simp
  next
    case (Inr t)
    then have t: "well_formed t" "t = s \<or> version_of s < version_of t"
      using Cons.prems by (auto intro: op_well_formed dest: op_version)
    with Cons.IH [OF t(1)] Inr show ?thesis by auto
  qed
qed

lemma run_version_mono: "well_formed s \<Longrightarrow> version_of s \<le> version_of (run_ops apply_op s as)"
  using run_version [of s as] by auto

lemma run_terminal:
  "well_formed s \<Longrightarrow> terminal_state s \<Longrightarrow> run_ops apply_op s as = s"
proof (induction as)
  case (Cons a as)
  then show ?case
    by (cases "apply_op a s") (auto dest: op_terminal)
qed simp

lemma version_determines_state:
  "well_formed s \<Longrightarrow> version_of (run_ops apply_op s as) = version_of s \<Longrightarrow> run_ops apply_op s as = s"
  using run_version [of s as] by auto

lemma run_append: "run_ops apply_op s (as @ bs) = run_ops apply_op (run_ops apply_op s as) bs"
  by (induction as arbitrary: s) auto

end

end
