(* ===== verification/Access.thy ===== *)
theory Access
  imports Go_Base
begin

text \<open>
  Package \<open>internal/access\<close>: roles, statuses, principals and the authorization decision
  (\<open>access.go\<close>), members, service accounts and the last-admin rule (\<open>member.go\<close>), session tokens
  (\<open>session.go\<close>) and signed pagination cursors (\<open>cursor.go\<close>).

  A Go string type with constants is a datatype with those constants and a last constructor for
  every other string; the zero value is that constructor at the empty string. The URL parser,
  the time-zone database, JSON, Base64, HMAC and SHA-256 are arguments of the definitions that
  call them.
\<close>

section \<open>Roles, statuses, actions\<close>

datatype Role = RoleViewer | RoleAnalyst | RoleAdmin | RoleOther string

datatype AccessStatus = StatusPending | StatusActive | StatusRejected | StatusSuspended
  | StatusDeleted | StatusOther string

datatype ActorKind = ActorMember | ActorServiceAccount | ActorSystem | ActorDeleted
  | ActorOther string

datatype AccessAction = ActionCatalogRead | ActionIntelligenceRead | ActionProjectWrite
  | ActionExportWrite | ActionMembershipGovern | ActionServiceGovern | ActionAuditRead
  | ActionOperationsRead | ActionProjectLifecycle | ActionPolicyGovern | ActionOther string

datatype access_error = ErrAuthenticationRequired | ErrAccessPending | ErrPermissionDenied
  | ErrLastAdminRequired | ErrVersionConflict | ErrNotFound | ErrInvalidInput

record Principal =
  pr_ActorID :: int64
  pr_Kind :: ActorKind
  pr_Role :: Role
  pr_Status :: AccessStatus
  pr_Scopes :: "string list"
  pr_Version :: int64
  pr_Workspace :: int64

definition access_validRole :: "Role \<Rightarrow> bool" where
  "access_validRole role \<longleftrightarrow> role = RoleViewer \<or> role = RoleAnalyst \<or> role = RoleAdmin"

fun roleRank :: "Role \<Rightarrow> int" where
  "roleRank RoleViewer = 1"
| "roleRank RoleAnalyst = 2"
| "roleRank RoleAdmin = 3"
| "roleRank (RoleOther _) = 0"

fun minimumRole :: "AccessAction \<Rightarrow> Role option" where
  "minimumRole ActionIntelligenceRead = Some RoleViewer"
| "minimumRole ActionProjectWrite = Some RoleAnalyst"
| "minimumRole ActionExportWrite = Some RoleAnalyst"
| "minimumRole ActionMembershipGovern = Some RoleAdmin"
| "minimumRole ActionServiceGovern = Some RoleAdmin"
| "minimumRole ActionAuditRead = Some RoleAdmin"
| "minimumRole ActionOperationsRead = Some RoleAdmin"
| "minimumRole ActionProjectLifecycle = Some RoleAdmin"
| "minimumRole ActionPolicyGovern = Some RoleAdmin"
| "minimumRole _ = None"

fun requiredScope :: "AccessAction \<Rightarrow> string" where
  "requiredScope ActionIntelligenceRead = ''projects:read''"
| "requiredScope ActionProjectWrite = ''projects:write''"
| "requiredScope ActionExportWrite = ''exports:write''"
| "requiredScope _ = ''''"

definition IsApproved :: "Principal \<Rightarrow> bool" where
  "IsApproved p \<longleftrightarrow> pr_ActorID p > 0 \<and> pr_Status p = StatusActive \<and> access_validRole (pr_Role p)"

definition Authorize :: "Principal \<Rightarrow> AccessAction \<Rightarrow> access_error option" where
  "Authorize p action =
     (if action = ActionCatalogRead then None
      else if pr_ActorID p = 0 then Some ErrAuthenticationRequired
      else if pr_Status p = StatusPending then Some ErrAccessPending
      else if \<not> IsApproved p then Some ErrPermissionDenied
      else (case minimumRole action of
          None \<Rightarrow> Some ErrPermissionDenied
        | Some minimum \<Rightarrow>
            if roleRank (pr_Role p) < roleRank minimum then Some ErrPermissionDenied
            else if pr_Kind p = ActorServiceAccount then
              (if pr_Role p = RoleAdmin \<or> action = ActionMembershipGovern \<or>
                  action = ActionServiceGovern \<or> action = ActionAuditRead \<or>
                  action = ActionOperationsRead \<or> action = ActionProjectLifecycle \<or>
                  action = ActionPolicyGovern
               then Some ErrPermissionDenied
               else if requiredScope action \<noteq> '''' \<and> requiredScope action \<notin> set (pr_Scopes p)
               then Some ErrPermissionDenied
               else None)
            else None))"

definition ValidateRole :: "Role \<Rightarrow> bool \<Rightarrow> access_error option" where
  "ValidateRole role service =
     (if \<not> access_validRole role \<or> service \<and> role = RoleAdmin then Some ErrInvalidInput else None)"

section \<open>Members and service accounts\<close>

record url_parts =
  url_Scheme :: string
  url_Host :: string

record IdentityKey =
  ik_Issuer :: string
  ik_Subject :: string

definition IdentityKey_Validate ::
    "(string \<Rightarrow> url_parts option) \<Rightarrow> IdentityKey \<Rightarrow> access_error option" where
  "IdentityKey_Validate parse k =
     (case parse (ik_Issuer k) of
        None \<Rightarrow> Some ErrInvalidInput
      | Some issuer \<Rightarrow>
          if url_Scheme issuer \<noteq> ''https'' \<or> url_Host issuer = '''' then Some ErrInvalidInput
          else if trim_space (ik_Subject k) = '''' \<or> length (ik_Subject k) > 255
          then Some ErrInvalidInput
          else None)"

record Member =
  m_ID :: int64
  m_IdentityID :: int64
  m_DisplayName :: string
  m_Email :: string
  m_Role :: Role
  m_Status :: AccessStatus
  m_Locale :: string
  m_Timezone :: string
  m_Version :: int64
  m_RequestedAt :: gotime

record ServiceAccount =
  sa_ID :: int64
  sa_Issuer :: string
  sa_ExternalSubject :: string
  sa_Name :: string
  sa_Role :: Role
  sa_Status :: AccessStatus
  sa_Scopes :: "string list"
  sa_Version :: int64

definition DeletionConfirmation :: string where
  "DeletionConfirmation = ''DELETE MY ACCOUNT''"

definition ValidatePreferences ::
    "(string \<Rightarrow> bool) \<Rightarrow> string \<Rightarrow> string \<Rightarrow> access_error option" where
  "ValidatePreferences known_zone locl timezone =
     (if locl \<noteq> ''en'' \<and> locl \<noteq> ''pt-BR'' then Some ErrInvalidInput
      else if trim_space timezone = '''' then Some ErrInvalidInput
      else if \<not> known_zone timezone then Some ErrInvalidInput
      else None)"

definition ValidateDeletionConfirmation :: "string \<Rightarrow> access_error option" where
  "ValidateDeletionConfirmation val =
     (if val \<noteq> DeletionConfirmation then Some ErrInvalidInput else None)"

text \<open>The loop over the scopes, with the map of the scopes already seen.\<close>

fun check_scopes :: "string list \<Rightarrow> string list \<Rightarrow> string list \<Rightarrow> access_error option" where
  "check_scopes allowed seen [] = None"
| "check_scopes allowed seen (scope # rest) =
     (if scope \<notin> set allowed then Some ErrInvalidInput
      else if scope \<in> set seen then Some ErrInvalidInput
      else check_scopes allowed (scope # seen) rest)"

definition ValidateServiceAccount ::
    "(string \<Rightarrow> url_parts option) \<Rightarrow> ServiceAccount \<Rightarrow> string list \<Rightarrow> access_error option" where
  "ValidateServiceAccount parse account allowedScopes =
     (case IdentityKey_Validate parse
         \<lparr>ik_Issuer = sa_Issuer account, ik_Subject = sa_ExternalSubject account\<rparr> of
        Some e \<Rightarrow> Some e
      | None \<Rightarrow>
          if trim_space (sa_Name account) = '''' then Some ErrInvalidInput
          else (case ValidateRole (sa_Role account) True of
              Some e \<Rightarrow> Some e
            | None \<Rightarrow>
                if sa_Status account \<noteq> StatusActive \<and> sa_Status account \<noteq> StatusSuspended
                then Some ErrInvalidInput
                else check_scopes allowedScopes [] (sa_Scopes account)))"

definition ProtectLastAdmin ::
    "Member \<Rightarrow> int \<Rightarrow> Role \<Rightarrow> AccessStatus \<Rightarrow> access_error option" where
  "ProtectLastAdmin target activeAdminCount nextRole nextStatus =
     (let removesAdmin = m_Role target = RoleAdmin \<and> m_Status target = StatusActive \<and>
            (nextRole \<noteq> RoleAdmin \<or> nextStatus \<noteq> StatusActive)
      in if removesAdmin \<and> activeAdminCount \<le> 1 then Some ErrLastAdminRequired else None)"

section \<open>Session tokens\<close>

definition tokenBytes :: nat where
  "tokenBytes = 32"

definition EncodeSessionToken :: "int64 \<Rightarrow> string \<Rightarrow> string" where
  "EncodeSessionToken i verifier = format_int i @ ''.'' @ verifier"

definition DecodeSessionToken ::
    "(string \<Rightarrow> string option) \<Rightarrow> string \<Rightarrow> (int64 \<times> string) option" where
  "DecodeSessionToken b64_decode token =
     (case cut_at CHR ''.'' token of
        None \<Rightarrow> None
      | Some (idText, verifier) \<Rightarrow>
          if verifier = '''' then None
          else (case parse_int64 idText of
              None \<Rightarrow> None
            | Some i \<Rightarrow>
                if i \<le> 0 then None
                else (case b64_decode verifier of
                    None \<Rightarrow> None
                  | Some decoded \<Rightarrow>
                      if length decoded \<noteq> tokenBytes then None else Some (i, verifier))))"

text \<open>\<open>NewSecret\<close> on the bytes the random source gave (\<open>None\<close> when it failed), and \<open>VerifySecret\<close>.\<close>

definition NewSecret ::
    "(string \<Rightarrow> string) \<Rightarrow> (string \<Rightarrow> string) \<Rightarrow> string option \<Rightarrow> (string \<times> string) option" where
  "NewSecret b64_encode sha256 random =
     (case random of
        None \<Rightarrow> None
      | Some raw \<Rightarrow> (let encoded = b64_encode raw in Some (encoded, sha256 encoded)))"

definition VerifySecret :: "(string \<Rightarrow> string) \<Rightarrow> string \<Rightarrow> string \<Rightarrow> bool" where
  "VerifySecret sha256 verifier expected \<longleftrightarrow> sha256 verifier = expected"

section \<open>Pagination cursors\<close>

record Cursor =
  cu_Route :: string
  cu_Filters :: string
  cu_Offset :: int

text \<open>
  \<open>NewCursorCodec\<close>; a codec is its key. \<open>cutCursor\<close> is the cut at the first dot. The codec's
  libraries are the arguments \<open>marshal\<close>, \<open>unmarshal\<close> (JSON), \<open>hmac\<close> (key, message), and
  \<open>b64_encode\<close>, \<open>b64_decode\<close> (raw URL Base64).
\<close>

definition NewCursorCodec :: "string \<Rightarrow> string option" where
  "NewCursorCodec key = (if length key < 32 then None else Some key)"

fun cutCursor :: "string \<Rightarrow> (string \<times> string) option" where
  "cutCursor [] = None"
| "cutCursor (c # cs) =
     (if c = CHR ''.'' then Some ([], cs)
      else (case cutCursor cs of None \<Rightarrow> None | Some (a, b) \<Rightarrow> Some (c # a, b)))"

definition Cursor_Encode ::
    "(Cursor \<Rightarrow> string option) \<Rightarrow> (string \<Rightarrow> string \<Rightarrow> string) \<Rightarrow> (string \<Rightarrow> string) \<Rightarrow>
     string \<Rightarrow> Cursor \<Rightarrow> string option" where
  "Cursor_Encode marshal hmac b64_encode key cursor =
     (if cu_Route cursor = '''' \<or> cu_Offset cursor < 0 then None
      else (case marshal cursor of
          None \<Rightarrow> None
        | Some payload \<Rightarrow>
            Some (b64_encode payload @ ''.'' @ b64_encode (hmac key payload))))"

definition Cursor_Decode ::
    "(string \<Rightarrow> Cursor option) \<Rightarrow> (string \<Rightarrow> string \<Rightarrow> string) \<Rightarrow> (string \<Rightarrow> string option) \<Rightarrow>
     string \<Rightarrow> string \<Rightarrow> string \<Rightarrow> string \<Rightarrow> Cursor option" where
  "Cursor_Decode unmarshal hmac b64_decode key val route filters =
     (case cutCursor val of
        None \<Rightarrow> None
      | Some (payloadText, signatureText) \<Rightarrow>
          (case b64_decode payloadText of
             None \<Rightarrow> None
           | Some payload \<Rightarrow>
               (case b64_decode signatureText of
                  None \<Rightarrow> None
                | Some signature \<Rightarrow>
                    if signature \<noteq> hmac key payload then None
                    else (case unmarshal payload of
                        None \<Rightarrow> None
                      | Some cursor \<Rightarrow>
                          if cu_Route cursor \<noteq> route \<or> cu_Filters cursor \<noteq> filters \<or>
                             cu_Offset cursor < 0
                          then None else Some cursor))))"

section \<open>Authorization\<close>

text \<open>Roles are ordered by rank; the strings that are no role all have rank zero.\<close>

instantiation Role :: preorder
begin

definition less_eq_Role :: "Role \<Rightarrow> Role \<Rightarrow> bool" where
  "less_eq_Role a b \<longleftrightarrow> roleRank a \<le> roleRank b"

definition less_Role :: "Role \<Rightarrow> Role \<Rightarrow> bool" where
  "less_Role a b \<longleftrightarrow> roleRank a < roleRank b"

instance
  by standard (auto simp: less_eq_Role_def less_Role_def)

end

lemma access_validRole_rank: "access_validRole role \<longleftrightarrow> 0 < roleRank role"
  by (cases role) (auto simp: access_validRole_def)

lemma minimumRole_valid: "minimumRole action = Some r \<Longrightarrow> access_validRole r"
  by (cases action) (auto simp: access_validRole_def)

text \<open>
  The specification: what each role may do, and which scope a service account needs for it. An
  approved member has the capabilities of the role; an approved service account has those of
  them that are not governance and whose scope it holds, unless it carries the admin role.
\<close>

definition read_actions :: "AccessAction set" where
  "read_actions = {ActionIntelligenceRead}"

definition write_actions :: "AccessAction set" where
  "write_actions = {ActionProjectWrite, ActionExportWrite}"

definition govern_actions :: "AccessAction set" where
  "govern_actions = {ActionMembershipGovern, ActionServiceGovern, ActionAuditRead,
     ActionOperationsRead, ActionProjectLifecycle, ActionPolicyGovern}"

fun role_capabilities :: "Role \<Rightarrow> AccessAction set" where
  "role_capabilities RoleViewer = read_actions"
| "role_capabilities RoleAnalyst = read_actions \<union> write_actions"
| "role_capabilities RoleAdmin = read_actions \<union> write_actions \<union> govern_actions"
| "role_capabilities (RoleOther _) = {}"

definition capabilities :: "Principal \<Rightarrow> AccessAction set" where
  "capabilities p =
     (if pr_ActorID p \<le> 0 \<or> pr_Status p \<noteq> StatusActive then {}
      else if pr_Kind p \<noteq> ActorServiceAccount then role_capabilities (pr_Role p)
      else if pr_Role p = RoleAdmin then {}
      else {a \<in> role_capabilities (pr_Role p). requiredScope a \<in> set (pr_Scopes p)})"

lemmas action_set_defs = read_actions_def write_actions_def govern_actions_def

lemma role_capabilities_iff:
  "a \<in> role_capabilities r \<longleftrightarrow> (\<exists>m. minimumRole a = Some m \<and> roleRank m \<le> roleRank r)"
  by (cases r; cases a) (auto simp: action_set_defs)

lemma authorize_None_iff: "Authorize p a = None \<longleftrightarrow> a = ActionCatalogRead \<or> a \<in> capabilities p"
  by (cases a; cases "pr_Role p")
    (auto simp: Authorize_def capabilities_def IsApproved_def access_validRole_def action_set_defs)

lemma authorize_Some_cases:
  "Authorize p a = Some e \<Longrightarrow>
     e = (if pr_ActorID p = 0 then ErrAuthenticationRequired
          else if pr_Status p = StatusPending then ErrAccessPending else ErrPermissionDenied)"
  by (auto simp: Authorize_def split: if_splits option.splits)

text \<open>
  C2: \<open>Authorize\<close> implements the capability matrix. It lets an action through exactly when the
  action is the public catalog read or a capability of the principal; otherwise it reports a
  missing authentication, a pending membership and a denied permission in that order of
  precedence.
\<close>

theorem authorize_decides:
  "Authorize p a =
     (if a = ActionCatalogRead \<or> a \<in> capabilities p then None
      else if pr_ActorID p = 0 then Some ErrAuthenticationRequired
      else if pr_Status p = StatusPending then Some ErrAccessPending
      else Some ErrPermissionDenied)"
  using authorize_None_iff [of p a] authorize_Some_cases [of p a]
  by (cases "Authorize p a") auto

text \<open>Consequences that the other components use.\<close>

lemma authorize_approved: "Authorize p a = None \<Longrightarrow> a \<noteq> ActionCatalogRead \<Longrightarrow> IsApproved p"
  by (auto simp: Authorize_def split: if_splits)

lemma authorize_govern_admin:
  "Authorize p a = None \<Longrightarrow> a \<in> govern_actions \<Longrightarrow>
     pr_Role p = RoleAdmin \<and> pr_Kind p \<noteq> ActorServiceAccount"
  by (cases "pr_Role p")
    (auto simp: authorize_None_iff capabilities_def action_set_defs split: if_splits)

lemma capabilities_role_mono:
  assumes "pr_Role p \<le> r" and "pr_Kind p \<noteq> ActorServiceAccount"
  shows "capabilities p \<subseteq> capabilities (p\<lparr>pr_Role := r\<rparr>)"
  using assms
  by (auto simp: capabilities_def role_capabilities_iff less_eq_Role_def intro: order_trans)

definition example_analyst :: Principal where
  "example_analyst = \<lparr>pr_ActorID = 7, pr_Kind = ActorMember, pr_Role = RoleAnalyst,
     pr_Status = StatusActive, pr_Scopes = [], pr_Version = 1, pr_Workspace = 1\<rparr>"

text \<open>
  promoting a member never takes an action away: with the same identity and status, a role
  of at least the same rank is authorized for everything the lower one was. (Service accounts
  are different: the admin role takes everything from them.)
\<close>

theorem authorize_role_monotone:
  assumes "Authorize p a = None" and "pr_Role p \<le> r" and "pr_Kind p \<noteq> ActorServiceAccount"
  shows "Authorize (p\<lparr>pr_Role := r\<rparr>) a = None"
  using assms capabilities_role_mono [of p r] by (auto simp: authorize_None_iff)

theorem authorize_role_monotone_witness:
  "Authorize (example_analyst\<lparr>pr_Role := RoleAdmin\<rparr>) ActionExportWrite = None"
  by (rule authorize_role_monotone)
    (simp_all add: example_analyst_def Authorize_def IsApproved_def access_validRole_def
      less_eq_Role_def)

section \<open>Validation\<close>

lemma check_scopes_None_iff:
  "check_scopes allowed seen scopes = None \<longleftrightarrow>
     set scopes \<subseteq> set allowed \<and> distinct scopes \<and> set scopes \<inter> set seen = {}"
  by (induction scopes arbitrary: seen) auto

lemma ValidateServiceAccount_None:
  "ValidateServiceAccount parse a allowed = None \<longleftrightarrow>
     IdentityKey_Validate parse \<lparr>ik_Issuer = sa_Issuer a, ik_Subject = sa_ExternalSubject a\<rparr> = None \<and>
     trim_space (sa_Name a) \<noteq> '''' \<and> (sa_Role a = RoleViewer \<or> sa_Role a = RoleAnalyst) \<and>
     (sa_Status a = StatusActive \<or> sa_Status a = StatusSuspended) \<and>
     set (sa_Scopes a) \<subseteq> set allowed \<and> distinct (sa_Scopes a)"
  by (auto simp: ValidateServiceAccount_def ValidateRole_def access_validRole_def
      check_scopes_None_iff split: option.splits)

lemma ProtectLastAdmin_None:
  "ProtectLastAdmin target n nextRole nextStatus = None \<longleftrightarrow>
     \<not> (m_Role target = RoleAdmin \<and> m_Status target = StatusActive) \<or>
     nextRole = RoleAdmin \<and> nextStatus = StatusActive \<or> 1 < n"
  by (auto simp: ProtectLastAdmin_def)

section \<open>Tokens and cursors\<close>

lemma cutCursor_eq_cut_at: "cutCursor s = cut_at CHR ''.'' s"
  by (induction s) auto

lemma decode_session_token_Some:
  "DecodeSessionToken dec t = Some (i, v) \<longleftrightarrow>
     (\<exists>s. cut_at CHR ''.'' t = Some (s, v) \<and> parse_int64 s = Some i) \<and> 0 < i \<and> v \<noteq> '''' \<and>
     (\<exists>raw. dec v = Some raw \<and> length raw = tokenBytes)"
  by (auto simp: DecodeSessionToken_def split: option.splits if_splits)

lemma decode_encode_session_token:
  assumes "is_int64 i" and "0 < i" and "length raw = tokenBytes"
    and "dec v = Some raw" and "v \<noteq> ''''"
  shows "DecodeSessionToken dec (EncodeSessionToken i v) = Some (i, v)"
  using assms parse_int64_format_int [of i]
  by (auto simp: decode_session_token_Some EncodeSessionToken_def cut_at_append)

text \<open>
  session tokens round-trip. For a positive identifier and a secret that \<open>NewSecret\<close> made
  from 32 random bytes, decoding the encoded token gives the identifier and a verifier that
  \<open>VerifySecret\<close> accepts against the stored hash. The hypothesis on Base64 is that decoding
  undoes encoding and that 32 bytes do not encode to the empty string.
\<close>

theorem session_token_roundtrip:
  assumes "NewSecret enc sha256 (Some raw) = Some (v, h)"
    and "length raw = tokenBytes" and "is_int64 i" and "0 < i"
    and base64: "dec (enc raw) = Some raw" "enc raw \<noteq> ''''"
  shows "DecodeSessionToken dec (EncodeSessionToken i v) = Some (i, v) \<and> VerifySecret sha256 v h"
  using assms by (auto simp: NewSecret_def VerifySecret_def Let_def intro: decode_encode_session_token)

definition example_secret :: string where
  "example_secret = replicate 32 CHR ''k''"

theorem session_token_roundtrip_witness:
  "DecodeSessionToken Some (EncodeSessionToken 42 example_secret) = Some (42, example_secret) \<and>
   VerifySecret rev example_secret (rev example_secret)"
  by (rule session_token_roundtrip [where raw = example_secret and enc = id])
    (simp_all add: NewSecret_def Let_def example_secret_def tokenBytes_def int64_defs)

lemma cursor_decode_Some:
  "Cursor_Decode unmarshal hmac dec key val route filters = Some c \<longleftrightarrow>
     (\<exists>pt st payload. cut_at CHR ''.'' val = Some (pt, st) \<and> dec pt = Some payload \<and>
        dec st = Some (hmac key payload) \<and> unmarshal payload = Some c \<and>
        cu_Route c = route \<and> cu_Filters c = filters \<and> 0 \<le> cu_Offset c)"
  by (auto simp: Cursor_Decode_def cutCursor_eq_cut_at not_less split: option.splits if_splits)

text \<open>
  pagination cursors round-trip and are bound to their query. What \<open>Encode\<close> returns decodes,
  under the same key, exactly for the route and the filters it was made for, to the cursor that
  was encoded; for any other route or filters it is refused. The hypotheses are that JSON and
  raw URL Base64 are undone by their decoders and that the Base64 alphabet has no dot.
\<close>

theorem cursor_roundtrip:
  assumes "Cursor_Encode marshal hmac enc key c = Some text"
    and json: "\<And>p. marshal c = Some p \<Longrightarrow> unmarshal p = Some c"
    and base64: "\<And>s. dec (enc s) = Some s" "\<And>s. CHR ''.'' \<notin> set (enc s)"
  shows "Cursor_Decode unmarshal hmac dec key text route filters =
     (if route = cu_Route c \<and> filters = cu_Filters c then Some c else None)"
proof -
  obtain p where p: "marshal c = Some p" "0 \<le> cu_Offset c"
      "text = enc p @ CHR ''.'' # enc (hmac key p)"
    using assms(1) by (auto simp: Cursor_Encode_def split: if_splits option.splits)
  then have "cut_at CHR ''.'' text = Some (enc p, enc (hmac key p))"
    by (simp add: cut_at_append base64(2))
  with p json base64(1) show ?thesis
    by (auto simp: Cursor_Decode_def cutCursor_eq_cut_at)
qed

text \<open>A concrete instance: hexadecimal digits stand for Base64, and the JSON object has one route.\<close>

fun hex_enc :: "string \<Rightarrow> string" where
  "hex_enc [] = []"
| "hex_enc (c # cs) =
     char_of (65 + (of_char c :: nat) div 16) # char_of (65 + (of_char c :: nat) mod 16) # hex_enc cs"

fun hex_dec :: "string \<Rightarrow> string option" where
  "hex_dec [] = Some []"
| "hex_dec [_] = None"
| "hex_dec (a # b # cs) =
     map_option (Cons (char_of (16 * (of_char a - 65) + (of_char b - 65 :: nat)))) (hex_dec cs)"

lemma hex_dec_enc: "hex_dec (hex_enc s) = Some s"
proof (induction s)
  case (Cons c s)
  have "(of_char c :: nat) div 16 < 16"
    using nat_of_char_less_256 [of c] by linarith
  with Cons show ?case by simp
qed simp

lemma hex_enc_no_dot: "CHR ''.'' \<notin> set (hex_enc s)"
proof (induction s)
  case (Cons c s)
  have "(of_char c :: nat) div 16 < 16"
    using nat_of_char_less_256 [of c] by linarith
  then have "CHR ''.'' \<noteq> char_of (65 + (of_char c :: nat) div 16)"
    "CHR ''.'' \<noteq> char_of (65 + (of_char c :: nat) mod 16)"
    by (auto dest!: arg_cong [where f = "of_char :: char \<Rightarrow> nat"])
  with Cons show ?case by simp
qed simp

definition example_cursor :: Cursor where
  "example_cursor = \<lparr>cu_Route = ''/projects'', cu_Filters = ''q=a'', cu_Offset = 20\<rparr>"

theorem cursor_roundtrip_witness:
  "Cursor_Decode (\<lambda>s. Some example_cursor) (\<lambda>key m. key @ m) hex_dec (replicate 32 CHR ''k'')
     (hex_enc ''x'' @ ''.'' @ hex_enc (replicate 32 CHR ''k'' @ ''x''))
     ''/projects'' ''q=b'' = None"
  by (subst cursor_roundtrip [where marshal = "\<lambda>c. Some ''x''" and c = example_cursor and enc = hex_enc])
    (simp_all add: Cursor_Encode_def example_cursor_def hex_dec_enc hex_enc_no_dot)

end
