(* ===== verification/AccessStore.thy ===== *)
theory AccessStore
  imports Access Go_Lifecycle
begin

text \<open>
  Package \<open>internal/platform/accessstore\<close>: the PostgreSQL store of identities, memberships,
  browser sessions, login flows, service accounts and audit events. Each table is a list of rows
  in a database record, with the columns and constraints of
  \<open>migrations/0002_identity_access.up.sql\<close>. A method of the Go \<open>Store\<close> is a function from the
  database to an error or a new database with its result; an error leaves the database as it was,
  as the deferred rollback does. A statement is the filter or update its SQL text describes.

  The methods get an \<open>env\<close>: the Go clock, the transaction's \<open>now()\<close>, and what the identifier
  source answers to its first, second, ... call. Connection and commit failures are not modelled.
\<close>

section \<open>Tables\<close>

record identity_row =
  ei_id :: int64
  ei_issuer :: string
  ei_subject :: string
  ei_display_name :: string
  ei_email :: string

record membership_row =
  mr_id :: int64
  mr_workspace :: int64
  mr_identity :: int64
  mr_role :: "Role option"
  mr_status :: AccessStatus
  mr_locale :: string
  mr_timezone :: string
  mr_version :: int64
  mr_requested_at :: gotime
  mr_decided_at :: "gotime option"
  mr_deleted_at :: "gotime option"
  mr_deletion_job :: "int64 option"

record service_row =
  sv_id :: int64
  sv_workspace :: int64
  sv_issuer :: string
  sv_subject :: string
  sv_name :: string
  sv_role :: Role
  sv_status :: AccessStatus
  sv_version :: int64

record session_row =
  bs_id :: int64
  bs_membership :: int64
  bs_verifier_hash :: string
  bs_csrf_hash :: string
  bs_created_at :: gotime
  bs_expires_at :: gotime
  bs_revoked_at :: "gotime option"

record flow_row =
  lf_state_hash :: string
  lf_nonce_hash :: string
  lf_verifier_hash :: string
  lf_return_to :: string
  lf_created_at :: gotime
  lf_expires_at :: gotime
  lf_consumed_at :: "gotime option"

text \<open>A value of the \<open>changes\<close> object of an audit event.\<close>

datatype change_value = ChRole Role | ChStatus AccessStatus | ChText string | ChTexts "string list"
  | ChNum int

record audit_row =
  ae_id :: int64
  ae_occurred_at :: gotime
  ae_actor_id :: int64
  ae_actor_kind :: ActorKind
  ae_action :: string
  ae_resource_type :: string
  ae_resource_id :: int64
  ae_outcome :: string
  ae_request_id :: string
  ae_changes :: "(string \<times> change_value) list"

record deletion_job_row =
  dj_id :: int64
  dj_kind :: string
  dj_state :: string

record db =
  db_workspaces :: "int64 list"
  db_identities :: "identity_row list"
  db_memberships :: "membership_row list"
  db_services :: "service_row list"
  db_scopes :: "(int64 \<times> string) list"
  db_sessions :: "session_row list"
  db_flows :: "flow_row list"
  db_jobs :: "deletion_job_row list"
  db_audit :: "audit_row list"

record env =
  env_now :: gotime
  env_db_now :: gotime
  env_ids :: "nat \<Rightarrow> int64 option"

datatype store_error = AccessErr access_error | ConstraintViolation | IDUnavailable
  | InvalidHashLength | ScanFailed

definition WorkspaceID :: int64 where
  "WorkspaceID = 1"

definition AllowedServiceScopes :: "string list" where
  "AllowedServiceScopes = [''projects:read'', ''projects:write'', ''exports:write'']"

text \<open>The \<open>role\<close> column is nullable: \<open>COALESCE(role, '')\<close> and \<open>NULLIF(role, '')\<close>.\<close>

definition coalesce_role :: "Role option \<Rightarrow> Role" where
  "coalesce_role r = (case r of None \<Rightarrow> RoleOther '''' | Some x \<Rightarrow> x)"

definition nullif_role :: "Role \<Rightarrow> Role option" where
  "nullif_role r = (if r = RoleOther '''' then None else Some r)"

text \<open>The CHECK constraints of the tables.\<close>

definition btrim_blank :: "string \<Rightarrow> bool" where
  "btrim_blank s \<longleftrightarrow> (\<forall>c \<in> set s. c = CHR '' '')"

definition membership_check :: "membership_row \<Rightarrow> bool" where
  "membership_check m \<longleftrightarrow> mr_id m > 0 \<and>
     (case mr_role m of None \<Rightarrow> True | Some r \<Rightarrow> access_validRole r) \<and>
     (mr_status m = StatusPending \<or> mr_status m = StatusActive \<or> mr_status m = StatusRejected \<or>
      mr_status m = StatusSuspended \<or> mr_status m = StatusDeleted) \<and>
     (mr_locale m = ''en'' \<or> mr_locale m = ''pt-BR'') \<and> \<not> btrim_blank (mr_timezone m) \<and>
     mr_version m > 0 \<and> (mr_status m = StatusActive \<longrightarrow> mr_role m \<noteq> None)"

definition service_check :: "service_row \<Rightarrow> bool" where
  "service_check a \<longleftrightarrow> sv_id a > 0 \<and> \<not> btrim_blank (sv_issuer a) \<and> \<not> btrim_blank (sv_subject a) \<and>
     \<not> btrim_blank (sv_name a) \<and> (sv_role a = RoleViewer \<or> sv_role a = RoleAnalyst) \<and>
     (sv_status a = StatusActive \<or> sv_status a = StatusSuspended \<or> sv_status a = StatusDeleted) \<and>
     sv_version a > 0"

definition session_check :: "session_row \<Rightarrow> bool" where
  "session_check s \<longleftrightarrow> bs_id s > 0 \<and> length (bs_verifier_hash s) = 32 \<and>
     length (bs_csrf_hash s) = 32 \<and> before (bs_created_at s) (bs_expires_at s)"

definition flow_check :: "flow_row \<Rightarrow> bool" where
  "flow_check f \<longleftrightarrow> length (lf_state_hash f) = 32 \<and> length (lf_nonce_hash f) = 32 \<and>
     length (lf_verifier_hash f) = 32 \<and> take 1 (lf_return_to f) = ''/'' \<and>
     before (lf_created_at f) (lf_expires_at f)"

definition audit_check :: "audit_row \<Rightarrow> bool" where
  "audit_check a \<longleftrightarrow> ae_id a > 0 \<and> ae_action a \<noteq> '''' \<and> ae_resource_type a \<noteq> '''' \<and>
     (ae_actor_kind a = ActorMember \<or> ae_actor_kind a = ActorServiceAccount \<or>
      ae_actor_kind a = ActorSystem \<or> ae_actor_kind a = ActorDeleted) \<and>
     (ae_outcome a = ''succeeded'' \<or> ae_outcome a = ''denied'' \<or> ae_outcome a = ''failed'' \<or>
      ae_outcome a = ''stale'')"

section \<open>Statements the methods share\<close>


definition next_id :: "env \<Rightarrow> nat \<Rightarrow> store_error + int64" where
  "next_id e k = some_or IDUnavailable (env_ids e k)"

text \<open>
  \<open>scanMember\<close> on the columns of a membership and of the identity it is joined with;
  \<open>select_member\<close> is the join of the two tables at a membership identifier, with an extra
  condition on the membership.
\<close>

definition scanMember :: "membership_row \<Rightarrow> string \<Rightarrow> string \<Rightarrow> Member" where
  "scanMember m name email =
     \<lparr>m_ID = mr_id m, m_IdentityID = mr_identity m, m_DisplayName = name, m_Email = email,
      m_Role = coalesce_role (mr_role m), m_Status = mr_status m, m_Locale = mr_locale m,
      m_Timezone = mr_timezone m, m_Version = mr_version m, m_RequestedAt = mr_requested_at m\<rparr>"

definition join_member :: "db \<Rightarrow> membership_row \<Rightarrow> Member option" where
  "join_member d m = map_option (\<lambda>i. scanMember m (ei_display_name i) (ei_email i))
     (find (\<lambda>i. ei_id i = mr_identity m) (db_identities d))"

definition select_member :: "db \<Rightarrow> int64 \<Rightarrow> (membership_row \<Rightarrow> bool) \<Rightarrow> Member option" where
  "select_member d mid cond =
     (case find (\<lambda>m. mr_id m = mid \<and> cond m) (db_memberships d) of
        None \<Rightarrow> None | Some m \<Rightarrow> join_member d m)"

text \<open>\<open>UPDATE memberships ... WHERE id = mid\<close>, checked against the constraints of the table.\<close>

definition update_memberships ::
    "int64 \<Rightarrow> (membership_row \<Rightarrow> membership_row) \<Rightarrow> membership_row list \<Rightarrow> membership_row list" where
  "update_memberships mid f rows = map (\<lambda>m. if mr_id m = mid then f m else m) rows"

definition update_membership ::
    "int64 \<Rightarrow> (membership_row \<Rightarrow> membership_row) \<Rightarrow> db \<Rightarrow> store_error + db" where
  "update_membership mid f d =
     (let rows = update_memberships mid f (db_memberships d)
      in if list_all membership_check rows then Inr (d\<lparr>db_memberships := rows\<rparr>)
         else Inl ConstraintViolation)"

definition is_active_admin :: "membership_row \<Rightarrow> bool" where
  "is_active_admin m \<longleftrightarrow> mr_workspace m = WorkspaceID \<and> mr_role m = Some RoleAdmin \<and>
     mr_status m = StatusActive"

definition active_admins :: "db \<Rightarrow> int" where
  "active_admins d = int (length (filter is_active_admin (db_memberships d)))"

definition appendAudit ::
    "env \<Rightarrow> nat \<Rightarrow> Principal \<Rightarrow> string \<Rightarrow> string \<Rightarrow> int64 \<Rightarrow> string \<Rightarrow> string \<Rightarrow>
     (string \<times> change_value) list \<Rightarrow> db \<Rightarrow> store_error + db" where
  "appendAudit e k actor action resourceType resourceID outcome requestID changes d =
     bindE (next_id e k) (\<lambda>i.
       let row = \<lparr>ae_id = i, ae_occurred_at = env_db_now e, ae_actor_id = pr_ActorID actor,
             ae_actor_kind = pr_Kind actor, ae_action = action, ae_resource_type = resourceType,
             ae_resource_id = resourceID, ae_outcome = outcome, ae_request_id = requestID,
             ae_changes = changes\<rparr>
       in if audit_check row \<and> i \<notin> set (map ae_id (db_audit d))
          then Inr (d\<lparr>db_audit := db_audit d @ [row]\<rparr>) else Inl ConstraintViolation)"

section \<open>Applicants and identities\<close>

definition EnsureWorkspace :: "db \<Rightarrow> db" where
  "EnsureWorkspace d = d\<lparr>db_workspaces := List.insert WorkspaceID (db_workspaces d)\<rparr>"

text \<open>\<open>INSERT INTO external_identities ... ON CONFLICT (issuer, subject) DO UPDATE\<close>.\<close>

definition same_identity :: "IdentityKey \<Rightarrow> identity_row \<Rightarrow> bool" where
  "same_identity key i \<longleftrightarrow> ei_issuer i = ik_Issuer key \<and> ei_subject i = ik_Subject key"

definition upsert_identity ::
    "int64 \<Rightarrow> IdentityKey \<Rightarrow> string \<Rightarrow> string \<Rightarrow> db \<Rightarrow> store_error + (db \<times> int64)" where
  "upsert_identity i key name email d =
     (case find (same_identity key) (db_identities d) of
        Some row \<Rightarrow>
          Inr (d\<lparr>db_identities := map (\<lambda>x. if same_identity key x
                   then x\<lparr>ei_display_name := name, ei_email := email\<rparr> else x) (db_identities d)\<rparr>,
               ei_id row)
      | None \<Rightarrow>
          if i \<le> 0 \<or> i \<in> set (map ei_id (db_identities d)) \<or> btrim_blank (ik_Issuer key) \<or>
             btrim_blank (ik_Subject key)
          then Inl ConstraintViolation
          else Inr (d\<lparr>db_identities := db_identities d @
                 [\<lparr>ei_id = i, ei_issuer = ik_Issuer key, ei_subject = ik_Subject key,
                   ei_display_name = name, ei_email = email\<rparr>]\<rparr>, i))"

text \<open>\<open>INSERT INTO memberships ... ON CONFLICT\<close>: the CASE keeps the status on both branches.\<close>

definition new_membership :: "env \<Rightarrow> int64 \<Rightarrow> int64 \<Rightarrow> membership_row" where
  "new_membership e memberID identityID =
     \<lparr>mr_id = memberID, mr_workspace = WorkspaceID, mr_identity = identityID, mr_role = None,
      mr_status = StatusPending, mr_locale = ''en'', mr_timezone = ''UTC'', mr_version = 1,
      mr_requested_at = env_db_now e, mr_decided_at = None, mr_deleted_at = None,
      mr_deletion_job = None\<rparr>"

definition upsert_membership ::
    "env \<Rightarrow> int64 \<Rightarrow> int64 \<Rightarrow> db \<Rightarrow> store_error + (db \<times> membership_row)" where
  "upsert_membership e memberID identityID d =
     (case find (\<lambda>m. mr_workspace m = WorkspaceID \<and> mr_identity m = identityID) (db_memberships d) of
        Some m \<Rightarrow> Inr (d, m)
      | None \<Rightarrow>
          let m = new_membership e memberID identityID
          in if membership_check m \<and> memberID \<notin> set (map mr_id (db_memberships d)) \<and>
                WorkspaceID \<in> set (db_workspaces d)
             then Inr (d\<lparr>db_memberships := db_memberships d @ [m]\<rparr>, m)
             else Inl ConstraintViolation)"

definition UpsertApplicant ::
    "(string \<Rightarrow> url_parts option) \<Rightarrow> env \<Rightarrow> IdentityKey \<Rightarrow> string \<Rightarrow> string \<Rightarrow> db \<Rightarrow>
     store_error + (db \<times> Member)" where
  "UpsertApplicant parse e key displayName email d =
     bindE (err_none AccessErr (IdentityKey_Validate parse key)) (\<lambda>_.
     bindE (next_id e 0) (\<lambda>identityID.
     bindE (upsert_identity identityID key displayName email d) (\<lambda>(d1, storedIdentityID).
     bindE (next_id e 1) (\<lambda>memberID.
     bindE (upsert_membership e memberID storedIdentityID d1) (\<lambda>(d2, m).
       Inr (d2, scanMember m displayName email))))))"

text \<open>
  \<open>ResolveIdentity\<close>: the candidates are the rows of the UNION ALL, memberships first, and
  \<open>LIMIT 1\<close> takes the first of them. The scopes of a service account come from a second query.
\<close>

definition service_scopes :: "db \<Rightarrow> int64 \<Rightarrow> string list" where
  "service_scopes d sid =
     sort_func cmp_string (map snd (filter (\<lambda>r. fst r = sid) (db_scopes d)))"

definition identity_candidates :: "db \<Rightarrow> IdentityKey \<Rightarrow> Principal list" where
  "identity_candidates d key =
     [\<lparr>pr_ActorID = mr_id m, pr_Kind = ActorMember, pr_Role = coalesce_role (mr_role m),
       pr_Status = mr_status m, pr_Scopes = [], pr_Version = mr_version m,
       pr_Workspace = WorkspaceID\<rparr>.
        m \<leftarrow> db_memberships d, i \<leftarrow> db_identities d,
        ei_id i = mr_identity m \<and> mr_workspace m = WorkspaceID \<and> same_identity key i] @
     [\<lparr>pr_ActorID = sv_id a, pr_Kind = ActorServiceAccount, pr_Role = sv_role a,
       pr_Status = sv_status a, pr_Scopes = service_scopes d (sv_id a), pr_Version = sv_version a,
       pr_Workspace = WorkspaceID\<rparr>.
        a \<leftarrow> db_services d,
        sv_workspace a = WorkspaceID \<and> sv_issuer a = ik_Issuer key \<and> sv_subject a = ik_Subject key]"

definition ResolveIdentity ::
    "(string \<Rightarrow> url_parts option) \<Rightarrow> IdentityKey \<Rightarrow> db \<Rightarrow> store_error + Principal" where
  "ResolveIdentity parse key d =
     bindE (err_none AccessErr (IdentityKey_Validate parse key)) (\<lambda>_.
       case identity_candidates d key of
         [] \<Rightarrow> Inl (AccessErr ErrNotFound)
       | p # _ \<Rightarrow> Inr p)"

section \<open>Sessions and login flows\<close>

record Session =
  se_ID :: int64
  se_Member :: Member
  se_Principal :: Principal
  se_CSRFHash :: string
  se_ExpiresAt :: gotime

record LoginFlow =
  fl_Nonce :: string
  fl_Verifier :: string
  fl_ReturnTo :: string
  fl_ExpiresAt :: gotime

definition CreateSession ::
    "env \<Rightarrow> int64 \<Rightarrow> string \<Rightarrow> string \<Rightarrow> gotime \<Rightarrow> db \<Rightarrow> store_error + (db \<times> int64)" where
  "CreateSession e memberID verifierHash csrfHash expiresAt d =
     bindE (next_id e 0) (\<lambda>i.
       if filter (\<lambda>m. mr_id m = memberID \<and> mr_workspace m = WorkspaceID \<and>
             mr_status m \<noteq> StatusDeleted) (db_memberships d) = []
       then Inl (AccessErr ErrPermissionDenied)
       else let s = \<lparr>bs_id = i, bs_membership = memberID, bs_verifier_hash = verifierHash,
                  bs_csrf_hash = csrfHash, bs_created_at = env_db_now e,
                  bs_expires_at = pg_time expiresAt, bs_revoked_at = None\<rparr>
            in if session_check s \<and> i \<notin> set (map bs_id (db_sessions d))
               then Inr (d\<lparr>db_sessions := db_sessions d @ [s]\<rparr>, i)
               else Inl ConstraintViolation)"

definition CreateLoginFlow ::
    "env \<Rightarrow> string \<Rightarrow> string \<Rightarrow> string \<Rightarrow> string \<Rightarrow> gotime \<Rightarrow> db \<Rightarrow> store_error + db" where
  "CreateLoginFlow e stateHash nonceHash verifierHash returnTo expiresAt d =
     (let f = \<lparr>lf_state_hash = stateHash, lf_nonce_hash = nonceHash,
            lf_verifier_hash = verifierHash, lf_return_to = returnTo, lf_created_at = env_db_now e,
            lf_expires_at = pg_time expiresAt, lf_consumed_at = None\<rparr>
      in if flow_check f \<and> stateHash \<notin> set (map lf_state_hash (db_flows d))
         then Inr (d\<lparr>db_flows := db_flows d @ [f]\<rparr>) else Inl ConstraintViolation)"

definition flow_matches ::
    "(string \<Rightarrow> string) \<Rightarrow> env \<Rightarrow> string \<Rightarrow> string \<Rightarrow> string \<Rightarrow> flow_row \<Rightarrow> bool" where
  "flow_matches sha256 e state nonce verifier f \<longleftrightarrow>
     lf_state_hash f = sha256 state \<and> lf_nonce_hash f = sha256 nonce \<and>
     lf_verifier_hash f = sha256 verifier \<and> lf_consumed_at f = None \<and>
     after (lf_expires_at f) (env_db_now e)"

definition ConsumeLoginFlow ::
    "(string \<Rightarrow> string) \<Rightarrow> env \<Rightarrow> string \<Rightarrow> string \<Rightarrow> string \<Rightarrow> db \<Rightarrow>
     store_error + (db \<times> LoginFlow)" where
  "ConsumeLoginFlow sha256 e state nonce verifier d =
     (case find (flow_matches sha256 e state nonce verifier) (db_flows d) of
        None \<Rightarrow> Inl (AccessErr ErrAuthenticationRequired)
      | Some f \<Rightarrow>
          Inr (d\<lparr>db_flows := map (\<lambda>x. if flow_matches sha256 e state nonce verifier x
                   then x\<lparr>lf_consumed_at := Some (env_db_now e)\<rparr> else x) (db_flows d)\<rparr>,
               \<lparr>fl_Nonce = nonce, fl_Verifier = verifier, fl_ReturnTo = lf_return_to f,
                fl_ExpiresAt = lf_expires_at f\<rparr>))"

definition session_live :: "env \<Rightarrow> session_row \<Rightarrow> bool" where
  "session_live e s \<longleftrightarrow> bs_revoked_at s = None \<and> after (bs_expires_at s) (pg_time (env_now e))"

definition ResolveSession ::
    "(string \<Rightarrow> string) \<Rightarrow> env \<Rightarrow> int64 \<Rightarrow> string \<Rightarrow> db \<Rightarrow> store_error + Session" where
  "ResolveSession sha256 e i verifier d =
     (case find (\<lambda>s. bs_id s = i \<and> session_live e s) (db_sessions d) of
        None \<Rightarrow> Inl (AccessErr ErrAuthenticationRequired)
      | Some s \<Rightarrow>
          bindE (some_or (AccessErr ErrAuthenticationRequired)
                  (select_member d (bs_membership s) (\<lambda>_. True))) (\<lambda>m.
            if length (bs_verifier_hash s) \<noteq> 32 \<or> length (bs_csrf_hash s) \<noteq> 32
            then Inl InvalidHashLength
            else if \<not> VerifySecret sha256 verifier (bs_verifier_hash s)
            then Inl (AccessErr ErrAuthenticationRequired)
            else Inr \<lparr>se_ID = bs_id s, se_Member = m,
                   se_Principal = \<lparr>pr_ActorID = m_ID m, pr_Kind = ActorMember, pr_Role = m_Role m,
                     pr_Status = m_Status m, pr_Scopes = [], pr_Version = m_Version m,
                     pr_Workspace = WorkspaceID\<rparr>,
                   se_CSRFHash = bs_csrf_hash s, se_ExpiresAt = bs_expires_at s\<rparr>))"

definition revoke_where :: "env \<Rightarrow> (session_row \<Rightarrow> bool) \<Rightarrow> db \<Rightarrow> db" where
  "revoke_where e cond d = d\<lparr>db_sessions :=
     map (\<lambda>s. if cond s \<and> bs_revoked_at s = None then s\<lparr>bs_revoked_at := Some (env_db_now e)\<rparr> else s)
       (db_sessions d)\<rparr>"

definition RevokeSession :: "env \<Rightarrow> int64 \<Rightarrow> db \<Rightarrow> db" where
  "RevokeSession e i d = revoke_where e (\<lambda>s. bs_id s = i) d"

definition RevokeMemberSessions :: "env \<Rightarrow> int64 \<Rightarrow> db \<Rightarrow> db" where
  "RevokeMemberSessions e memberID d = revoke_where e (\<lambda>s. bs_membership s = memberID) d"

section \<open>Membership governance\<close>

definition approve_row :: "env \<Rightarrow> Role \<Rightarrow> AccessStatus \<Rightarrow> membership_row \<Rightarrow> membership_row" where
  "approve_row e role status m = m\<lparr>mr_role := nullif_role role, mr_status := status,
     mr_decided_at := Some (env_db_now e),
     mr_version := (if mr_role m \<noteq> nullif_role role \<or> mr_status m \<noteq> status
       then mr_version m + 1 else mr_version m)\<rparr>"

definition ApproveMember ::
    "env \<Rightarrow> Principal \<Rightarrow> int64 \<Rightarrow> string \<Rightarrow> Role \<Rightarrow> string \<Rightarrow> db \<Rightarrow> store_error + (db \<times> Member)" where
  "ApproveMember e actor memberID decision role0 requestID d =
     bindE (err_none AccessErr (Authorize actor ActionMembershipGovern)) (\<lambda>_.
     bindE (require (decision = ''approve'' \<or> decision = ''reject'') (AccessErr ErrInvalidInput)) (\<lambda>_.
     bindE (if decision = ''approve'' then err_none AccessErr (ValidateRole role0 False) else Inr ()) (\<lambda>_.
     let role = (if decision = ''approve'' then role0 else RoleOther '''') in
     bindE (some_or (AccessErr ErrNotFound)
             (select_member d memberID (\<lambda>m. mr_workspace m = WorkspaceID))) (\<lambda>current.
     let status = (if decision = ''approve'' then StatusActive else StatusRejected) in
     if m_Status current = status \<and> m_Role current = role then Inr (d, current)
     else if m_Status current \<notin> {StatusPending, StatusActive, StatusRejected, StatusSuspended}
     then Inl (AccessErr ErrNotFound)
     else
       bindE (update_membership memberID (approve_row e role status) d) (\<lambda>d1.
       bindE (some_or (AccessErr ErrNotFound) (select_member d1 memberID (\<lambda>_. True))) (\<lambda>member.
       bindE (appendAudit e 0 actor (''membership.'' @ decision) ''membership'' memberID ''succeeded''
               requestID [(''role'', ChRole role), (''status'', ChStatus status)] d1) (\<lambda>d2.
         Inr (d2, member))))))))"

definition update_row :: "Role \<Rightarrow> AccessStatus \<Rightarrow> membership_row \<Rightarrow> membership_row" where
  "update_row role status m =
     m\<lparr>mr_role := Some role, mr_status := status, mr_version := mr_version m + 1\<rparr>"

definition UpdateMember ::
    "env \<Rightarrow> Principal \<Rightarrow> int64 \<Rightarrow> int64 \<Rightarrow> Role \<Rightarrow> AccessStatus \<Rightarrow> string \<Rightarrow> db \<Rightarrow>
     store_error + (db \<times> Member)" where
  "UpdateMember e actor memberID expectedVersion role0 status0 requestID d =
     bindE (err_none AccessErr (Authorize actor ActionMembershipGovern)) (\<lambda>_.
     bindE (if role0 \<noteq> RoleOther '''' then err_none AccessErr (ValidateRole role0 False) else Inr ()) (\<lambda>_.
     bindE (require (status0 = StatusOther '''' \<or> status0 = StatusActive \<or> status0 = StatusSuspended)
             (AccessErr ErrInvalidInput)) (\<lambda>_.
     bindE (some_or (AccessErr ErrNotFound)
             (select_member d memberID (\<lambda>m. mr_workspace m = WorkspaceID))) (\<lambda>target.
     bindE (require (m_Version target = expectedVersion) (AccessErr ErrVersionConflict)) (\<lambda>_.
     let role = (if role0 = RoleOther '''' then m_Role target else role0);
         status = (if status0 = StatusOther '''' then m_Status target else status0) in
     bindE (err_none AccessErr (ProtectLastAdmin target (active_admins d) role status)) (\<lambda>_.
     let d1 = (if m_Role target \<noteq> role \<or> m_Status target \<noteq> status
               then RevokeMemberSessions e memberID d else d) in
     bindE (update_membership memberID (update_row role status) d1) (\<lambda>d2.
     bindE (some_or (AccessErr ErrNotFound) (select_member d2 memberID (\<lambda>_. True))) (\<lambda>updated.
     bindE (appendAudit e 0 actor ''membership.update'' ''membership'' memberID ''succeeded''
             requestID [(''role'', ChRole role), (''status'', ChStatus status)] d2) (\<lambda>d3.
       Inr (d3, updated))))))))))"

definition UpdatePreferences ::
    "(string \<Rightarrow> bool) \<Rightarrow> env \<Rightarrow> Principal \<Rightarrow> int64 \<Rightarrow> string \<Rightarrow> string \<Rightarrow> string \<Rightarrow> db \<Rightarrow>
     store_error + (db \<times> Member)" where
  "UpdatePreferences known_zone e actor expectedVersion locl timezone requestID d =
     bindE (require (IsApproved actor \<and> pr_Kind actor = ActorMember) (AccessErr ErrPermissionDenied)) (\<lambda>_.
     bindE (err_none AccessErr (ValidatePreferences known_zone locl timezone)) (\<lambda>_.
     bindE (some_or (AccessErr ErrVersionConflict) (select_member d (pr_ActorID actor)
             (\<lambda>m. mr_version m = expectedVersion \<and> mr_status m = StatusActive))) (\<lambda>_.
     bindE (update_membership (pr_ActorID actor) (\<lambda>m. m\<lparr>mr_locale := locl, mr_timezone := timezone,
             mr_version := mr_version m + 1\<rparr>) d) (\<lambda>d1.
     bindE (some_or (AccessErr ErrVersionConflict)
             (select_member d1 (pr_ActorID actor) (\<lambda>_. True))) (\<lambda>member.
     bindE (appendAudit e 0 actor ''member.preferences.update'' ''membership'' (pr_ActorID actor)
             ''succeeded'' requestID [(''locale'', ChText locl), (''timezone'', ChText timezone)] d1) (\<lambda>d2.
       Inr (d2, member)))))))"

definition delete_row :: "env \<Rightarrow> int64 \<Rightarrow> membership_row \<Rightarrow> membership_row" where
  "delete_row e jobID m = m\<lparr>mr_role := None, mr_status := StatusDeleted, mr_locale := ''en'',
     mr_timezone := ''UTC'', mr_version := mr_version m + 1, mr_deleted_at := Some (env_db_now e),
     mr_deletion_job := Some jobID\<rparr>"

definition purge_identity :: "int64 \<Rightarrow> db \<Rightarrow> db" where
  "purge_identity i d = d\<lparr>db_identities :=
     map (\<lambda>x. if ei_id x = i then x\<lparr>ei_display_name := '''', ei_email := ''''\<rparr> else x) (db_identities d)\<rparr>"

definition insert_deletion_job :: "int64 \<Rightarrow> db \<Rightarrow> store_error + db" where
  "insert_deletion_job jobID d =
     (if jobID \<le> 0 \<or> jobID \<in> set (map dj_id (db_jobs d)) then Inl ConstraintViolation
      else Inr (d\<lparr>db_jobs := db_jobs d @
        [\<lparr>dj_id = jobID, dj_kind = ''account_deletion'', dj_state = ''succeeded''\<rparr>]\<rparr>))"

definition DeleteAccount ::
    "env \<Rightarrow> Principal \<Rightarrow> string \<Rightarrow> string \<Rightarrow> db \<Rightarrow> store_error + (db \<times> int64)" where
  "DeleteAccount e actor confirmation requestID d =
     bindE (require (pr_Kind actor = ActorMember \<and> pr_ActorID actor \<noteq> 0)
             (AccessErr ErrPermissionDenied)) (\<lambda>_.
     bindE (err_none AccessErr (ValidateDeletionConfirmation confirmation)) (\<lambda>_.
     bindE (some_or (AccessErr ErrNotFound) (select_member d (pr_ActorID actor) (\<lambda>_. True))) (\<lambda>target.
     if m_Status target = StatusDeleted
     then bindE (some_or ScanFailed (Option.bind
                  (find (\<lambda>m. mr_id m = pr_ActorID actor) (db_memberships d)) mr_deletion_job)) (\<lambda>jobID.
            Inr (d, jobID))
     else
       bindE (err_none AccessErr
               (ProtectLastAdmin target (active_admins d) (RoleOther '''') StatusDeleted)) (\<lambda>_.
       let d1 = RevokeMemberSessions e (pr_ActorID actor) d;
           d2 = purge_identity (m_IdentityID target) d1 in
       bindE (next_id e 0) (\<lambda>jobID.
       bindE (insert_deletion_job jobID d2) (\<lambda>d3.
       bindE (update_membership (pr_ActorID actor) (delete_row e jobID) d3) (\<lambda>d4.
       bindE (appendAudit e 1 (actor\<lparr>pr_Kind := ActorDeleted\<rparr>) ''member.delete'' ''membership''
               (pr_ActorID actor) ''succeeded'' requestID [(''personal_data'', ChText ''purged'')] d4) (\<lambda>d5.
         Inr (d5, jobID)))))))))"

section \<open>Service accounts and the audit trail\<close>

definition insert_scopes :: "int64 \<Rightarrow> string list \<Rightarrow> db \<Rightarrow> store_error + db" where
  "insert_scopes sid scopes d =
     (let rows = map (Pair sid) scopes
      in if distinct rows \<and> set rows \<inter> set (db_scopes d) = {} \<and> (\<forall>s \<in> set scopes. \<not> btrim_blank s)
         then Inr (d\<lparr>db_scopes := db_scopes d @ rows\<rparr>) else Inl ConstraintViolation)"

definition CreateServiceAccount ::
    "(string \<Rightarrow> url_parts option) \<Rightarrow> env \<Rightarrow> Principal \<Rightarrow> ServiceAccount \<Rightarrow> string \<Rightarrow> db \<Rightarrow>
     store_error + (db \<times> ServiceAccount)" where
  "CreateServiceAccount parse e actor account requestID d =
     bindE (err_none AccessErr (Authorize actor ActionServiceGovern)) (\<lambda>_.
     bindE (err_none AccessErr (ValidateServiceAccount parse account AllowedServiceScopes)) (\<lambda>_.
     bindE (next_id e 0) (\<lambda>i.
     let row = \<lparr>sv_id = i, sv_workspace = WorkspaceID, sv_issuer = sa_Issuer account,
           sv_subject = sa_ExternalSubject account, sv_name = sa_Name account,
           sv_role = sa_Role account, sv_status = sa_Status account, sv_version = 1\<rparr> in
     bindE (require (service_check row \<and> i \<notin> set (map sv_id (db_services d)) \<and>
              (WorkspaceID, sa_Issuer account, sa_ExternalSubject account) \<notin>
                set (map (\<lambda>a. (sv_workspace a, sv_issuer a, sv_subject a)) (db_services d)) \<and>
              WorkspaceID \<in> set (db_workspaces d)) ConstraintViolation) (\<lambda>_.
     bindE (insert_scopes i (sa_Scopes account) (d\<lparr>db_services := db_services d @ [row]\<rparr>)) (\<lambda>d1.
     bindE (appendAudit e 1 actor ''service_account.create'' ''service_account'' i ''succeeded'' requestID
             [(''role'', ChRole (sa_Role account)), (''scopes'', ChTexts (sa_Scopes account))] d1) (\<lambda>d2.
       Inr (d2, account\<lparr>sa_ID := i, sa_Version := 1\<rparr>)))))))"

text \<open>In \<open>UpdateServiceAccount\<close> the argument \<open>scopes0\<close> is \<open>None\<close> for the nil slice, which keeps the scopes.\<close>

definition UpdateServiceAccount ::
    "(string \<Rightarrow> url_parts option) \<Rightarrow> env \<Rightarrow> Principal \<Rightarrow> int64 \<Rightarrow> int64 \<Rightarrow> Role \<Rightarrow> AccessStatus \<Rightarrow>
     string list option \<Rightarrow> string \<Rightarrow> db \<Rightarrow> store_error + (db \<times> ServiceAccount)" where
  "UpdateServiceAccount parse e actor accountID expectedVersion role0 status0 scopes0 requestID d =
     bindE (err_none AccessErr (Authorize actor ActionServiceGovern)) (\<lambda>_.
     bindE (some_or (AccessErr ErrNotFound)
             (find (\<lambda>a. sv_id a = accountID \<and> sv_workspace a = WorkspaceID) (db_services d))) (\<lambda>current.
     bindE (require (sv_version current = expectedVersion) (AccessErr ErrVersionConflict)) (\<lambda>_.
     let role = (if role0 = RoleOther '''' then sv_role current else role0);
         status = (if status0 = StatusOther '''' then sv_status current else status0);
         scopes = (case scopes0 of None \<Rightarrow> service_scopes d accountID | Some s \<Rightarrow> s);
         nxt = \<lparr>sa_ID = sv_id current, sa_Issuer = sv_issuer current,
           sa_ExternalSubject = sv_subject current, sa_Name = sv_name current, sa_Role = role,
           sa_Status = status, sa_Scopes = scopes, sa_Version = sv_version current\<rparr> in
     bindE (err_none AccessErr (ValidateServiceAccount parse nxt AllowedServiceScopes)) (\<lambda>_.
     let rows = map (\<lambda>a. if sv_id a = accountID
           then a\<lparr>sv_role := role, sv_status := status, sv_version := sv_version a + 1\<rparr> else a)
           (db_services d) in
     bindE (require (list_all service_check rows) ConstraintViolation) (\<lambda>_.
     let d1 = d\<lparr>db_services := rows, db_scopes := filter (\<lambda>r. fst r \<noteq> accountID) (db_scopes d)\<rparr> in
     bindE (insert_scopes accountID scopes d1) (\<lambda>d2.
     bindE (appendAudit e 0 actor ''service_account.update'' ''service_account'' accountID ''succeeded''
             requestID [(''role'', ChRole role), (''status'', ChStatus status), (''scopes'', ChTexts scopes)]
             d2) (\<lambda>d3.
       Inr (d3, nxt\<lparr>sa_Version := sv_version current + 1\<rparr>))))))))"

definition mutation_outcome :: "int \<Rightarrow> string" where
  "mutation_outcome status =
     (if status = 401 \<or> status = 403 then ''denied''
      else if status = 409 \<or> status = 412 \<or> status = 428 then ''stale''
      else if status \<ge> 400 then ''failed'' else ''succeeded'')"

definition RecordHTTPMutation ::
    "env \<Rightarrow> Principal \<Rightarrow> string \<Rightarrow> string \<Rightarrow> int \<Rightarrow> string \<Rightarrow> db \<Rightarrow> store_error + db" where
  "RecordHTTPMutation e actor0 method path status requestID d =
     (let actor = (if pr_Kind actor0 = ActorOther '''' then actor0\<lparr>pr_Kind := ActorSystem\<rparr> else actor0)
      in appendAudit e 0 actor (to_lower method @ '' '' @ path) ''http_route'' 0
           (mutation_outcome status) requestID [(''status'', ChNum status)] d)"

section \<open>Listings\<close>

definition clamp_limit :: "int \<Rightarrow> int" where
  "clamp_limit limit = (if limit \<le> 0 then 50 else if limit > 200 then 200 else limit)"

definition page :: "int \<Rightarrow> int \<Rightarrow> 'a list \<Rightarrow> 'a list" where
  "page limit offset xs = take (nat (clamp_limit limit)) (drop (nat (max offset 0)) xs)"

record MemberFilter =
  mf_State :: AccessStatus
  mf_Role :: Role
  mf_Query :: string
  mf_Limit :: int
  mf_Offset :: int

definition cmp_members :: "Member \<Rightarrow> Member \<Rightarrow> int" where
  "cmp_members a b = cmp_then (time_compare (m_RequestedAt a) (m_RequestedAt b)) (cmp_int (m_ID a) (m_ID b))"

text \<open>\<open>ilike text query\<close> is the database's \<open>text ILIKE '%' || query || '%'\<close>.\<close>

definition member_selected ::
    "(string \<Rightarrow> string \<Rightarrow> bool) \<Rightarrow> MemberFilter \<Rightarrow> membership_row \<Rightarrow> Member \<Rightarrow> bool" where
  "member_selected ilike flt r m \<longleftrightarrow> mr_workspace r = WorkspaceID \<and> mr_status r \<noteq> StatusDeleted \<and>
     (mf_State flt = StatusOther '''' \<or> mr_status r = mf_State flt) \<and>
     (mf_Role flt = RoleOther '''' \<or> mr_role r = Some (mf_Role flt)) \<and>
     (trim_space (mf_Query flt) = '''' \<or> ilike (m_DisplayName m) (trim_space (mf_Query flt)) \<or>
      ilike (m_Email m) (trim_space (mf_Query flt)))"

definition ListMembers :: "(string \<Rightarrow> string \<Rightarrow> bool) \<Rightarrow> MemberFilter \<Rightarrow> db \<Rightarrow> Member list" where
  "ListMembers ilike flt d =
     page (mf_Limit flt) (mf_Offset flt) (sort_func cmp_members
       [m. r \<leftarrow> db_memberships d, m \<leftarrow> (case join_member d r of None \<Rightarrow> [] | Some m \<Rightarrow> [m]),
           member_selected ilike flt r m])"

record AuditFilter =
  af_ActorID :: "int64 option"
  af_Action :: string
  af_Resource :: string
  af_Outcome :: string
  af_OccurredFrom :: "gotime option"
  af_OccurredTo :: "gotime option"
  af_Limit :: int
  af_Offset :: int

definition audit_selected :: "AuditFilter \<Rightarrow> audit_row \<Rightarrow> bool" where
  "audit_selected flt a \<longleftrightarrow>
     (case af_ActorID flt of None \<Rightarrow> True | Some i \<Rightarrow> ae_actor_id a = i) \<and>
     (af_Action flt = '''' \<or> ae_action a = af_Action flt) \<and>
     (af_Resource flt = '''' \<or> ae_resource_type a = af_Resource flt) \<and>
     (af_Outcome flt = '''' \<or> ae_outcome a = af_Outcome flt) \<and>
     (case af_OccurredFrom flt of None \<Rightarrow> True | Some t \<Rightarrow> \<not> before (ae_occurred_at a) (pg_time t)) \<and>
     (case af_OccurredTo flt of None \<Rightarrow> True | Some t \<Rightarrow> \<not> after (ae_occurred_at a) (pg_time t))"

definition cmp_audit :: "audit_row \<Rightarrow> audit_row \<Rightarrow> int" where
  "cmp_audit a b = cmp_then (time_compare (ae_occurred_at b) (ae_occurred_at a)) (cmp_int (ae_id b) (ae_id a))"

definition ListAudit :: "Principal \<Rightarrow> AuditFilter \<Rightarrow> db \<Rightarrow> store_error + audit_row list" where
  "ListAudit actor flt d =
     bindE (err_none AccessErr (Authorize actor ActionAuditRead)) (\<lambda>_.
       Inr (page (af_Limit flt) (af_Offset flt)
              (sort_func cmp_audit (filter (audit_selected flt) (db_audit d)))))"

text \<open>The two orders are total, so the locale's facts on sorting hold of the listings.\<close>

lemmas cmp_defs = cmp_then_def cmp_int_def time_compare_def

interpretation member_order: comparator cmp_members
  by unfold_locales (auto simp: cmp_members_def cmp_defs split: if_splits)

interpretation audit_order: comparator cmp_audit
  by unfold_locales (auto simp: cmp_audit_def cmp_defs split: if_splits)

lemma page_length: "length (page limit offset xs) \<le> 200"
  by (auto simp: page_def clamp_limit_def min_def)

lemma set_page: "set (page limit offset xs) \<subseteq> set xs"
  by (auto simp: page_def dest: in_set_takeD in_set_dropD)

lemma ListMembers_no_deleted:
  "m \<in> set (ListMembers ilike flt d) \<Longrightarrow> m_Status m \<noteq> StatusDeleted"
proof -
  assume "m \<in> set (ListMembers ilike flt d)"
  then have "m \<in> set [m. r \<leftarrow> db_memberships d,
      m \<leftarrow> (case join_member d r of None \<Rightarrow> [] | Some m \<Rightarrow> [m]), member_selected ilike flt r m]"
    using set_page by (force simp: ListMembers_def)
  then show ?thesis
    by (auto simp: member_selected_def join_member_def scanMember_def split: option.splits)
qed

section \<open>What the statements change\<close>

lemma update_membership_Inr [result_simps]:
  "update_membership mid f d = Inr d' \<longleftrightarrow>
     d' = d\<lparr>db_memberships := update_memberships mid f (db_memberships d)\<rparr> \<and>
     list_all membership_check (update_memberships mid f (db_memberships d))"
  by (auto simp: update_membership_def Let_def)

definition audit_entry ::
    "env \<Rightarrow> int64 \<Rightarrow> Principal \<Rightarrow> string \<Rightarrow> string \<Rightarrow> int64 \<Rightarrow> string \<Rightarrow> string \<Rightarrow>
     (string \<times> change_value) list \<Rightarrow> audit_row" where
  "audit_entry e i actor action rtype rid outcome req changes =
     \<lparr>ae_id = i, ae_occurred_at = env_db_now e, ae_actor_id = pr_ActorID actor,
      ae_actor_kind = pr_Kind actor, ae_action = action, ae_resource_type = rtype,
      ae_resource_id = rid, ae_outcome = outcome, ae_request_id = req, ae_changes = changes\<rparr>"

lemma appendAudit_Inr [result_simps]:
  "appendAudit e k actor action rtype rid outcome req changes d = Inr d' \<longleftrightarrow>
     (\<exists>i. env_ids e k = Some i \<and>
        d' = d\<lparr>db_audit := db_audit d @ [audit_entry e i actor action rtype rid outcome req changes]\<rparr> \<and>
        audit_check (audit_entry e i actor action rtype rid outcome req changes) \<and>
        i \<notin> set (map ae_id (db_audit d)))"
  by (auto simp: appendAudit_def next_id_def audit_entry_def bindE_Inr_iff some_or_Inr_iff Let_def
      split: if_splits)

lemma insert_scopes_Inr [result_simps]:
  "insert_scopes sid scopes d = Inr d' \<Longrightarrow> d' = d\<lparr>db_scopes := db_scopes d @ map (Pair sid) scopes\<rparr>"
  by (auto simp: insert_scopes_def Let_def split: if_splits)

lemma insert_deletion_job_Inr:
  "insert_deletion_job j d = Inr d' \<Longrightarrow> \<exists>rows. d' = d\<lparr>db_jobs := rows\<rparr>"
  by (auto simp: insert_deletion_job_def split: if_splits)

lemma revoke_where_simps [simp]:
  "db_memberships (revoke_where e c d) = db_memberships d"
  "db_identities (revoke_where e c d) = db_identities d"
  "db_audit (revoke_where e c d) = db_audit d"
  "db_memberships (purge_identity i d) = db_memberships d"
  "db_sessions (purge_identity i d) = db_sessions d"
  "db_audit (purge_identity i d) = db_audit d"
  by (simp_all add: revoke_where_def purge_identity_def)

lemma select_member_Some:
  assumes "select_member d mid cond = Some t"
  obtains m where "m \<in> set (db_memberships d)" "mr_id m = mid" "cond m"
    "m_Role t = coalesce_role (mr_role m)" "m_Status t = mr_status m" "m_Version t = mr_version m"
    "m_ID t = mid" "m_IdentityID t = mr_identity m"
proof -
  from assms obtain m where f: "find (\<lambda>m. mr_id m = mid \<and> cond m) (db_memberships d) = Some m"
    and j: "join_member d m = Some t"
    by (auto simp: select_member_def split: option.splits)
  from f have "m \<in> set (db_memberships d)" "mr_id m = mid" "cond m"
    by (auto simp: find_Some_iff)
  with j that show ?thesis by (auto simp: join_member_def scanMember_def)
qed

lemma update_memberships_ids [simp]:
  "(\<And>m. mr_id (f m) = mr_id m) \<Longrightarrow> map mr_id (update_memberships mid f rows) = map mr_id rows"
  by (induction rows) (auto simp: update_memberships_def)

lemma update_memberships_none: "mid \<notin> mr_id ` set rows \<Longrightarrow> update_memberships mid f rows = rows"
  by (induction rows) (auto simp: update_memberships_def)

text \<open>An update of one row changes a count by that row only.\<close>

lemma update_memberships_count:
  assumes "distinct (map mr_id rows)" and "m \<in> set rows"
  shows "int (length (filter P (update_memberships (mr_id m) f rows))) =
     int (length (filter P rows)) - (if P m then 1 else 0) + (if P (f m) then 1 else 0)"
  using assms
proof (induction rows)
  case (Cons r rows)
  have step: "update_memberships mid f (r # rows) =
      (if mr_id r = mid then f r else r) # update_memberships mid f rows" for mid
    by (simp add: update_memberships_def)
  show ?case
  proof (cases "r = m")
    case True
    with Cons.prems have "update_memberships (mr_id m) f rows = rows"
      by (intro update_memberships_none) auto
    with True show ?thesis unfolding step by simp
  next
    case False
    with Cons.prems have "mr_id r \<noteq> mr_id m" "m \<in> set rows" by auto
    with Cons show ?thesis unfolding step by (auto split: if_splits)
  qed
qed simp

lemma row_by_id:
  "distinct (map mr_id rows) \<Longrightarrow> m \<in> set rows \<Longrightarrow> m' \<in> set rows \<Longrightarrow> mr_id m = mr_id m' \<Longrightarrow> m = m'"
  by (auto simp: distinct_map inj_on_def)

text \<open>The integrity the database itself enforces on memberships.\<close>

definition db_ok :: "db \<Rightarrow> bool" where
  "db_ok d \<longleftrightarrow> distinct (map mr_id (db_memberships d)) \<and> list_all membership_check (db_memberships d)"

lemma coalesce_role_iff [simp]: "coalesce_role r = RoleAdmin \<longleftrightarrow> r = Some RoleAdmin"
  by (auto simp: coalesce_role_def split: option.splits)

lemma update_row_simps [simp]:
  "mr_id (update_row role status m) = mr_id m"
  "mr_id (approve_row e role status m) = mr_id m"
  "mr_id (delete_row e j m) = mr_id m"
  by (simp_all add: update_row_def approve_row_def delete_row_def)

text \<open>
  The effect of each governance operation on the memberships: one row changes. The last two
  facts say how the row and the count of active admins are related to the guard.
\<close>

lemma UpdateMember_effect:
  assumes "UpdateMember e actor mid ver role0 status0 req d = Inr (d', t)"
  obtains m role status where
    "Authorize actor ActionMembershipGovern = None"
    "m \<in> set (db_memberships d)" "mr_id m = mid" "mr_workspace m = WorkspaceID" "mr_version m = ver"
    "role = (if role0 = RoleOther '''' then coalesce_role (mr_role m) else role0)"
    "status = (if status0 = StatusOther '''' then mr_status m else status0)"
    "\<not> is_active_admin m \<or> role = RoleAdmin \<and> status = StatusActive \<or> 1 < active_admins d"
    "db_memberships d' = update_memberships mid (update_row role status) (db_memberships d)"
    "list_all membership_check (db_memberships d')"
    "db_sessions d' = (if coalesce_role (mr_role m) \<noteq> role \<or> mr_status m \<noteq> status
       then db_sessions (RevokeMemberSessions e mid d) else db_sessions d)"
    "\<exists>i. db_audit d' = db_audit d @ [audit_entry e i actor ''membership.update'' ''membership'' mid
       ''succeeded'' req [(''role'', ChRole role), (''status'', ChStatus status)]]"
proof -
  from assms obtain target where
    auth: "Authorize actor ActionMembershipGovern = None" and
    sel: "select_member d mid (\<lambda>m. mr_workspace m = WorkspaceID) = Some target" and
    ver: "m_Version target = ver"
    by (auto simp: UpdateMember_def result_simps Let_def)
  define role where "role = (if role0 = RoleOther '''' then m_Role target else role0)"
  define status where "status = (if status0 = StatusOther '''' then m_Status target else status0)"
  from assms auth sel ver have eff:
    "ProtectLastAdmin target (active_admins d) role status = None"
    "db_memberships d' = update_memberships mid (update_row role status) (db_memberships d)"
    "list_all membership_check (db_memberships d')"
    "db_sessions d' = (if m_Role target \<noteq> role \<or> m_Status target \<noteq> status
       then db_sessions (RevokeMemberSessions e mid d) else db_sessions d)"
    "\<exists>i. db_audit d' = db_audit d @ [audit_entry e i actor ''membership.update'' ''membership'' mid
       ''succeeded'' req [(''role'', ChRole role), (''status'', ChStatus status)]]"
    unfolding role_def [symmetric] status_def [symmetric]
    by (auto simp: UpdateMember_def result_simps Let_def role_def [symmetric]
        status_def [symmetric] RevokeMemberSessions_def)
  from sel obtain m where m: "m \<in> set (db_memberships d)" "mr_id m = mid"
      "mr_workspace m = WorkspaceID" "m_Role target = coalesce_role (mr_role m)"
      "m_Status target = mr_status m" "m_Version target = mr_version m"
    by (rule select_member_Some)
  show ?thesis
  proof (rule that [of m role status])
    show "\<not> is_active_admin m \<or> role = RoleAdmin \<and> status = StatusActive \<or> 1 < active_admins d"
      using eff(1) m by (auto simp: ProtectLastAdmin_None is_active_admin_def)
  qed (use eff m auth ver in \<open>simp_all add: role_def status_def\<close>)
qed

lemma ApproveMember_effect:
  assumes "ApproveMember e actor mid decision role0 req d = Inr (d', t)"
  obtains (repeated) "d' = d"
  | (changed) m role status where
    "m \<in> set (db_memberships d)" "mr_id m = mid" "mr_workspace m = WorkspaceID"
    "mr_status m \<noteq> StatusDeleted"
    "decision = ''approve'' \<and> role = role0 \<and> status = StatusActive \<or>
     decision = ''reject'' \<and> role = RoleOther '''' \<and> status = StatusRejected"
    "db_memberships d' = update_memberships mid (approve_row e role status) (db_memberships d)"
    "list_all membership_check (db_memberships d')"
    "\<exists>i. db_audit d' = db_audit d @ [audit_entry e i actor (''membership.'' @ decision) ''membership'' mid
       ''succeeded'' req [(''role'', ChRole role), (''status'', ChStatus status)]]"
proof -
  define role where "role = (if decision = ''approve'' then role0 else RoleOther '''')"
  define status where "status = (if decision = ''approve'' then StatusActive else StatusRejected)"
  from assms obtain current where
    dec: "decision = ''approve'' \<or> decision = ''reject''" and
    sel: "select_member d mid (\<lambda>m. mr_workspace m = WorkspaceID) = Some current"
    by (auto simp: ApproveMember_def result_simps Let_def)
  from assms sel have eff: "d' = d \<or>
    m_Status current \<noteq> StatusDeleted \<and>
    db_memberships d' = update_memberships mid (approve_row e role status) (db_memberships d) \<and>
    list_all membership_check (db_memberships d') \<and>
    (\<exists>i. db_audit d' = db_audit d @ [audit_entry e i actor (''membership.'' @ decision) ''membership'' mid
       ''succeeded'' req [(''role'', ChRole role), (''status'', ChStatus status)]])"
    unfolding ApproveMember_def role_def [symmetric] status_def [symmetric]
    by (auto simp: result_simps Let_def split: if_splits)
  from sel obtain m where m: "m \<in> set (db_memberships d)" "mr_id m = mid"
      "mr_workspace m = WorkspaceID" "m_Status current = mr_status m"
    by (rule select_member_Some)
  show ?thesis
  proof (cases "d' = d")
    case True
    then show ?thesis by (rule repeated)
  next
    case False
    show ?thesis
      by (rule changed [of m role status]) (use eff False m dec in \<open>auto simp: role_def status_def\<close>)
  qed
qed

lemma DeleteAccount_effect:
  assumes "DeleteAccount e actor confirmation req d = Inr (d', j)"
  obtains (repeated) m where "d' = d" "m \<in> set (db_memberships d)" "mr_id m = pr_ActorID actor"
    "mr_status m = StatusDeleted"
  | (deleted) m where
    "confirmation = DeletionConfirmation"
    "m \<in> set (db_memberships d)" "mr_id m = pr_ActorID actor"
    "\<not> (mr_role m = Some RoleAdmin \<and> mr_status m = StatusActive) \<or> 1 < active_admins d"
    "db_memberships d' = update_memberships (pr_ActorID actor) (delete_row e j) (db_memberships d)"
    "list_all membership_check (db_memberships d')"
    "db_sessions d' = db_sessions (RevokeMemberSessions e (pr_ActorID actor) d)"
    "db_identities d' = db_identities (purge_identity (mr_identity m) d)"
    "\<exists>i. db_audit d' = db_audit d @ [audit_entry e i (actor\<lparr>pr_Kind := ActorDeleted\<rparr>) ''member.delete''
       ''membership'' (pr_ActorID actor) ''succeeded'' req [(''personal_data'', ChText ''purged'')]]"
proof -
  from assms obtain target where
    conf: "confirmation = DeletionConfirmation" and
    sel: "select_member d (pr_ActorID actor) (\<lambda>_. True) = Some target"
    by (auto simp: DeleteAccount_def result_simps Let_def ValidateDeletionConfirmation_def
        split: if_splits)
  from assms sel have eff: "d' = d \<and> m_Status target = StatusDeleted \<or>
    ProtectLastAdmin target (active_admins d) (RoleOther '''') StatusDeleted = None \<and>
    db_memberships d' = update_memberships (pr_ActorID actor) (delete_row e j) (db_memberships d) \<and>
    list_all membership_check (db_memberships d') \<and>
    db_sessions d' = db_sessions (RevokeMemberSessions e (pr_ActorID actor) d) \<and>
    db_identities d' = db_identities (purge_identity (m_IdentityID target) d) \<and>
    (\<exists>i. db_audit d' = db_audit d @ [audit_entry e i (actor\<lparr>pr_Kind := ActorDeleted\<rparr>) ''member.delete''
       ''membership'' (pr_ActorID actor) ''succeeded'' req [(''personal_data'', ChText ''purged'')]])"
    by (auto simp: DeleteAccount_def result_simps Let_def RevokeMemberSessions_def purge_identity_def
        dest!: insert_deletion_job_Inr split: if_splits)
  from sel obtain m where m: "m \<in> set (db_memberships d)" "mr_id m = pr_ActorID actor"
      "m_Role target = coalesce_role (mr_role m)" "m_Status target = mr_status m"
      "m_IdentityID target = mr_identity m"
    by (rule select_member_Some)
  show ?thesis
    using eff
  proof (elim disjE conjE)
    assume "d' = d" "m_Status target = StatusDeleted"
    with m show ?thesis by (intro repeated [of m]) simp_all
  qed (rule deleted [of m], use m conf in \<open>auto simp: ProtectLastAdmin_None\<close>)
qed

lemma UpdatePreferences_effect:
  assumes "UpdatePreferences kz e actor ver locl tz req d = Inr (d', t)"
  shows "db_memberships d' = update_memberships (pr_ActorID actor)
      (\<lambda>m. m\<lparr>mr_locale := locl, mr_timezone := tz, mr_version := mr_version m + 1\<rparr>) (db_memberships d)"
    and "list_all membership_check (db_memberships d')"
    and "\<exists>a. db_audit d' = db_audit d @ [a]"
  using assms by (auto simp: UpdatePreferences_def result_simps)

lemma UpsertApplicant_effect:
  assumes "UpsertApplicant parse e key name email d = Inr (d', t)"
  shows "(db_memberships d' = db_memberships d \<or>
      (\<exists>m. db_memberships d' = db_memberships d @ [m] \<and> membership_check m \<and>
         mr_id m \<notin> set (map mr_id (db_memberships d)) \<and> mr_status m = StatusPending))"
    and "db_audit d' = db_audit d"
  using assms
  by (auto simp: UpsertApplicant_def upsert_identity_def upsert_membership_def new_membership_def
      result_simps Let_def split: option.splits if_splits)

section \<open>Histories of the store\<close>

text \<open>
  One constructor per method that writes, and the step it makes. \<open>libs\<close> gathers the library
  functions the methods need: the URL parser, the time-zone database and SHA-256.
\<close>

record libs =
  lib_parse :: "string \<Rightarrow> url_parts option"
  lib_zone :: "string \<Rightarrow> bool"
  lib_sha256 :: "string \<Rightarrow> string"

datatype access_op =
    OpUpsertApplicant IdentityKey string string
  | OpCreateSession int64 string string gotime
  | OpCreateLoginFlow string string string string gotime
  | OpConsumeLoginFlow string string string
  | OpRevokeSession int64
  | OpApproveMember Principal int64 string Role string
  | OpUpdateMember Principal int64 int64 Role AccessStatus string
  | OpUpdatePreferences Principal int64 string string string
  | OpDeleteAccount Principal string string
  | OpCreateServiceAccount Principal ServiceAccount string
  | OpUpdateServiceAccount Principal int64 int64 Role AccessStatus "string list option" string
  | OpRecordHTTPMutation Principal string string int string

fun access_step :: "libs \<Rightarrow> env \<times> access_op \<Rightarrow> db \<Rightarrow> store_error + db" where
  "access_step l (e, OpUpsertApplicant key name email) d =
     map_sum id fst (UpsertApplicant (lib_parse l) e key name email d)"
| "access_step l (e, OpCreateSession mid vh ch t) d = map_sum id fst (CreateSession e mid vh ch t d)"
| "access_step l (e, OpCreateLoginFlow sh nh vh ret t) d = CreateLoginFlow e sh nh vh ret t d"
| "access_step l (e, OpConsumeLoginFlow st n v) d =
     map_sum id fst (ConsumeLoginFlow (lib_sha256 l) e st n v d)"
| "access_step l (e, OpRevokeSession i) d = Inr (RevokeSession e i d)"
| "access_step l (e, OpApproveMember actor mid dec role req) d =
     map_sum id fst (ApproveMember e actor mid dec role req d)"
| "access_step l (e, OpUpdateMember actor mid ver role status req) d =
     map_sum id fst (UpdateMember e actor mid ver role status req d)"
| "access_step l (e, OpUpdatePreferences actor ver loc tz req) d =
     map_sum id fst (UpdatePreferences (lib_zone l) e actor ver loc tz req d)"
| "access_step l (e, OpDeleteAccount actor conf req) d =
     map_sum id fst (DeleteAccount e actor conf req d)"
| "access_step l (e, OpCreateServiceAccount actor account req) d =
     map_sum id fst (CreateServiceAccount (lib_parse l) e actor account req d)"
| "access_step l (e, OpUpdateServiceAccount actor i ver role status scopes req) d =
     map_sum id fst (UpdateServiceAccount (lib_parse l) e actor i ver role status scopes req d)"
| "access_step l (e, OpRecordHTTPMutation actor meth path status req) d =
     RecordHTTPMutation e actor meth path status req d"

lemma map_sum_fst_Inr: "map_sum id fst r = Inr d' \<longleftrightarrow> (\<exists>x. r = Inr (d', x))"
  by (cases r) auto

lemma distinct_update_memberships:
  "distinct (map mr_id rows) \<Longrightarrow> (\<And>m. mr_id (f m) = mr_id m) \<Longrightarrow>
     distinct (map mr_id (update_memberships mid f rows))"
  by simp

lemma store_step_frame:
  shows "CreateSession e mid vh ch t d = Inr (d', i) \<Longrightarrow>
      db_memberships d' = db_memberships d \<and> db_audit d' = db_audit d"
    and "CreateLoginFlow e sh nh vh ret t d = Inr d' \<Longrightarrow>
      db_memberships d' = db_memberships d \<and> db_audit d' = db_audit d"
    and "ConsumeLoginFlow sha e st n v d = Inr (d', f) \<Longrightarrow>
      db_memberships d' = db_memberships d \<and> db_audit d' = db_audit d"
    and "CreateServiceAccount parse e actor acc req d = Inr (d', a) \<Longrightarrow>
      db_memberships d' = db_memberships d \<and> (\<exists>row. db_audit d' = db_audit d @ [row])"
    and "UpdateServiceAccount parse e actor i ver role status scopes req d = Inr (d', a) \<Longrightarrow>
      db_memberships d' = db_memberships d \<and> (\<exists>row. db_audit d' = db_audit d @ [row])"
    and "RecordHTTPMutation e actor meth path code req d = Inr d' \<Longrightarrow>
      db_memberships d' = db_memberships d \<and> (\<exists>row. db_audit d' = db_audit d @ [row])"
  by (auto simp: CreateSession_def CreateLoginFlow_def ConsumeLoginFlow_def CreateServiceAccount_def
      UpdateServiceAccount_def RecordHTTPMutation_def result_simps Let_def
      dest!: insert_scopes_Inr split: if_splits option.splits)

text \<open>Every step keeps the integrity of the memberships and only appends to the audit trail.\<close>

lemma access_step_memberships:
  assumes "access_step l (e, op) d = Inr d'" and "db_ok d"
  shows "db_ok d'"
  using assms
proof (cases op)
  case (OpApproveMember actor mid dec role req)
  with assms show ?thesis
    by (auto simp: map_sum_fst_Inr db_ok_def elim!: ApproveMember_effect)
next
  case (OpUpdateMember actor mid ver role status req)
  with assms show ?thesis
    by (auto simp: map_sum_fst_Inr db_ok_def elim!: UpdateMember_effect)
next
  case (OpDeleteAccount actor conf req)
  with assms show ?thesis
    by (auto simp: map_sum_fst_Inr db_ok_def elim!: DeleteAccount_effect)
next
  case (OpUpdatePreferences actor ver loc tz req)
  with assms show ?thesis
    by (auto simp: map_sum_fst_Inr db_ok_def UpdatePreferences_effect(1)
        dest: UpdatePreferences_effect(2))
next
  case (OpUpsertApplicant key name email)
  with assms show ?thesis
    by (auto simp: map_sum_fst_Inr db_ok_def dest!: UpsertApplicant_effect(1))
qed (use assms in \<open>auto simp: map_sum_fst_Inr db_ok_def RevokeSession_def dest!: store_step_frame\<close>)

lemma access_step_audit:
  assumes "access_step l (e, op) d = Inr d'"
  shows "db_audit d' = db_audit d \<or> (\<exists>row. db_audit d' = db_audit d @ [row])"
  using assms
proof (cases op)
  case (OpApproveMember actor mid dec role req)
  with assms show ?thesis by (auto simp: map_sum_fst_Inr elim!: ApproveMember_effect)
next
  case (OpUpdateMember actor mid ver role status req)
  with assms show ?thesis by (auto simp: map_sum_fst_Inr elim!: UpdateMember_effect)
next
  case (OpDeleteAccount actor conf req)
  with assms show ?thesis by (auto simp: map_sum_fst_Inr elim!: DeleteAccount_effect)
next
  case (OpUpdatePreferences actor ver loc tz req)
  with assms show ?thesis by (auto simp: map_sum_fst_Inr dest!: UpdatePreferences_effect(3))
next
  case (OpUpsertApplicant key name email)
  with assms show ?thesis by (auto simp: map_sum_fst_Inr dest!: UpsertApplicant_effect(2))
qed (use assms in \<open>auto simp: map_sum_fst_Inr RevokeSession_def dest!: store_step_frame\<close>)

interpretation store_integrity: preserving "access_step l" db_ok
  by unfold_locales (metis access_step_memberships surj_pair)

lemma active_admins_update:
  assumes "db_ok d" and "m \<in> set (db_memberships d)"
    and "db_memberships d' = update_memberships (mr_id m) f (db_memberships d)"
  shows "active_admins d' = active_admins d - (if is_active_admin m then 1 else 0) +
     (if is_active_admin (f m) then 1 else 0)"
  using assms update_memberships_count [of "db_memberships d" m is_active_admin f]
  by (simp add: active_admins_def db_ok_def)

lemma active_admins_same: "db_memberships d' = db_memberships d \<Longrightarrow> active_admins d' = active_admins d"
  by (simp add: active_admins_def)

lemma UpdateMember_admins:
  assumes "UpdateMember e actor mid ver role0 status0 req d = Inr (d', t)" and "db_ok d"
    and "1 \<le> active_admins d"
  shows "1 \<le> active_admins d'"
  using assms(1)
proof (rule UpdateMember_effect)
  fix m role status
  assume m: "m \<in> set (db_memberships d)" "mr_id m = mid" "mr_workspace m = WorkspaceID"
    and guard: "\<not> is_active_admin m \<or> role = RoleAdmin \<and> status = StatusActive \<or> 1 < active_admins d"
    and upd: "db_memberships d' = update_memberships mid (update_row role status) (db_memberships d)"
  have "active_admins d' = active_admins d - (if is_active_admin m then 1 else 0) +
      (if is_active_admin (update_row role status m) then 1 else 0)"
    using active_admins_update [OF assms(2) m(1)] upd m(2) by simp
  with guard assms(3) m(3) show ?thesis
    by (auto simp: is_active_admin_def update_row_def split: if_splits)
qed

lemma DeleteAccount_admins:
  assumes "DeleteAccount e actor conf req d = Inr (d', j)" and "db_ok d" and "1 \<le> active_admins d"
  shows "1 \<le> active_admins d'"
  using assms(1)
proof (cases rule: DeleteAccount_effect)
  case (repeated m)
  with assms(3) show ?thesis by simp
next
  case (deleted m)
  have "active_admins d' = active_admins d - (if is_active_admin m then 1 else 0) +
      (if is_active_admin (delete_row e j m) then 1 else 0)"
    using active_admins_update [OF assms(2) deleted(2)] deleted(3,5) by simp
  with deleted(4) assms(3) show ?thesis
    by (auto simp: is_active_admin_def delete_row_def split: if_splits)
qed

lemma UpdatePreferences_admins:
  assumes "UpdatePreferences kz e actor ver locl tz req d = Inr (d', t)"
  shows "active_admins d' = active_admins d"
proof -
  have "length (filter is_active_admin (update_memberships (pr_ActorID actor)
      (\<lambda>m. m\<lparr>mr_locale := locl, mr_timezone := tz, mr_version := mr_version m + 1\<rparr>) rows)) =
      length (filter is_active_admin rows)" for rows
    by (induction rows) (auto simp: update_memberships_def is_active_admin_def)
  with UpdatePreferences_effect(1) [OF assms] show ?thesis by (simp add: active_admins_def)
qed

lemma UpsertApplicant_admins:
  "UpsertApplicant parse e key name email d = Inr (d', t) \<Longrightarrow> active_admins d' = active_admins d"
  by (drule UpsertApplicant_effect(1)) (auto simp: active_admins_def is_active_admin_def)

text \<open>\<open>decides\<close> are the operations that decide an application.\<close>

fun decides :: "access_op \<Rightarrow> bool" where
  "decides (OpApproveMember actor mid dec role req) = True"
| "decides _ = False"

definition undeciding_step :: "libs \<Rightarrow> env \<times> access_op \<Rightarrow> db \<Rightarrow> store_error + db" where
  "undeciding_step l a d = (if decides (snd a) then Inl ConstraintViolation else access_step l a d)"

definition has_admin :: "db \<Rightarrow> bool" where
  "has_admin d \<longleftrightarrow> db_ok d \<and> 1 \<le> active_admins d"

lemma undeciding_step_admins:
  assumes "has_admin d" and "undeciding_step l (e, op) d = Inr d'"
  shows "has_admin d'"
proof -
  from assms have step: "access_step l (e, op) d = Inr d'" and nd: "\<not> decides op"
    by (auto simp: undeciding_step_def split: if_splits)
  have "1 \<le> active_admins d'"
    using step nd assms(1)
    by (cases op) (auto simp: map_sum_fst_Inr has_admin_def RevokeSession_def
        UpsertApplicant_admins UpdatePreferences_admins
        active_admins_same [OF conjunct1 [OF store_step_frame(1)]]
        active_admins_same [OF conjunct1 [OF store_step_frame(2)]]
        active_admins_same [OF conjunct1 [OF store_step_frame(3)]]
        active_admins_same [OF conjunct1 [OF store_step_frame(4)]]
        active_admins_same [OF conjunct1 [OF store_step_frame(5)]]
        active_admins_same [OF conjunct1 [OF store_step_frame(6)]]
        active_admins_same [OF revoke_where_simps(1)]
        dest: UpdateMember_admins DeleteAccount_admins)
  with step assms(1) show ?thesis
    by (simp add: has_admin_def access_step_memberships)
qed

interpretation admin_kept: preserving "undeciding_step l" has_admin
  by unfold_locales (metis undeciding_step_admins surj_pair)

text \<open>
  C1: the last active admin is protected. From a database with an active admin, no sequence of
  the store's operations other than application decisions (\<open>ApproveMember\<close>) reaches one without
  an active admin: neither updates of members, nor preferences, account deletions, logins,
  sessions or service accounts, whatever their arguments, refusals and constraint violations.
\<close>

theorem last_admin_protected:
  assumes "db_ok d" and "1 \<le> active_admins d" and "\<not> list_ex (\<lambda>a. decides (snd a)) ops"
  shows "1 \<le> active_admins (run_ops (access_step l) d ops)"
proof -
  have "run_ops (access_step l) d ops = run_ops (undeciding_step l) d ops"
    using assms(3) by (intro run_ops_cong) (auto simp: undeciding_step_def list_ex_iff fun_eq_iff)
  moreover have "has_admin (run_ops (undeciding_step l) d ops)"
    using assms(1,2) by (intro admin_kept.run_well_formed) (simp add: has_admin_def)
  ultimately show ?thesis by (simp add: has_admin_def)
qed

text \<open>A database with one member, an active admin with an open session, and the admin's principal.\<close>

definition example_env :: env where
  "example_env = \<lparr>env_now = Time 5000000 UTC, env_db_now = Time 5000000 UTC,
     env_ids = (\<lambda>k. Some (900 + int k))\<rparr>"

definition example_row :: membership_row where
  "example_row = \<lparr>mr_id = 1, mr_workspace = 1, mr_identity = 10, mr_role = Some RoleAdmin,
     mr_status = StatusActive, mr_locale = ''en'', mr_timezone = ''UTC'', mr_version = 1,
     mr_requested_at = Time 1000 UTC, mr_decided_at = None, mr_deleted_at = None,
     mr_deletion_job = None\<rparr>"

definition example_db :: db where
  "example_db = \<lparr>db_workspaces = [1],
     db_identities = [\<lparr>ei_id = 10, ei_issuer = ''https://id'', ei_subject = ''a'',
       ei_display_name = ''Ada'', ei_email = ''a@b''\<rparr>],
     db_memberships = [example_row], db_services = [], db_scopes = [],
     db_sessions = [\<lparr>bs_id = 77, bs_membership = 1, bs_verifier_hash = replicate 32 CHR ''h'',
       bs_csrf_hash = replicate 32 CHR ''c'', bs_created_at = Time 1000 UTC,
       bs_expires_at = Time 9000000 UTC, bs_revoked_at = None\<rparr>],
     db_flows = [], db_jobs = [], db_audit = []\<rparr>"

definition example_principal :: Principal where
  "example_principal = \<lparr>pr_ActorID = 1, pr_Kind = ActorMember, pr_Role = RoleAdmin,
     pr_Status = StatusActive, pr_Scopes = [], pr_Version = 1, pr_Workspace = 1\<rparr>"

lemmas example_defs = example_env_def example_row_def example_db_def example_principal_def

lemma example_db_ok: "db_ok example_db"
  by (simp add: example_defs db_ok_def membership_check_def access_validRole_def btrim_blank_def)

lemma example_authorized: "Authorize example_principal ActionMembershipGovern = None"
  by (simp add: example_defs Authorize_def IsApproved_def access_validRole_def)

theorem last_admin_protected_witness:
  "1 \<le> active_admins (run_ops (access_step \<lparr>lib_parse = (\<lambda>_. None), lib_zone = (\<lambda>_. True), lib_sha256 = id\<rparr>)
     example_db [(example_env, OpUpdateMember example_principal 1 1 RoleViewer StatusActive ''r''),
       (example_env, OpDeleteAccount example_principal ''DELETE MY ACCOUNT'' ''r'')])"
  by (rule last_admin_protected [OF example_db_ok])
    (simp_all add: active_admins_def is_active_admin_def example_defs WorkspaceID_def)

lemma member_unique: "db_ok d \<Longrightarrow> m \<in> set (db_memberships d) \<Longrightarrow> n \<in> set (db_memberships d) \<Longrightarrow> mr_id m = mr_id n \<Longrightarrow> m = n"
  by (auto simp: db_ok_def distinct_map dest: inj_onD)

lemma reject_active_admin:
  assumes "ApproveMember e actor (mr_id m) ''reject'' role0 req d = Inr (d', t)" and "db_ok d" and "m \<in> set (db_memberships d)"
    and "is_active_admin m"
  shows "db_memberships d' = update_memberships (mr_id m) (approve_row e (RoleOther '''') StatusRejected) (db_memberships d)"
    "db_sessions d' = db_sessions d"
proof -
  obtain current where sel: "select_member d (mr_id m) (\<lambda>m. mr_workspace m = WorkspaceID) = Some current"
    using assms(1) by (auto simp: ApproveMember_def result_simps Let_def)
  then obtain n where n: "n \<in> set (db_memberships d)" "mr_id n = mr_id m" "m_Status current = mr_status n"
    by (rule select_member_Some)
  have "m_Status current = StatusActive" using member_unique [OF assms(2) n(1) assms(3) n(2)] n(3) assms(4) by (simp add: is_active_admin_def)
  then show "db_memberships d' = update_memberships (mr_id m) (approve_row e (RoleOther '''') StatusRejected) (db_memberships d)"
    "db_sessions d' = db_sessions d"
    using assms(1) sel by (auto simp: ApproveMember_def result_simps Let_def split: if_splits)
qed

text \<open>
  C18: application decisions escape that protection. Whenever a database has one active admin and \<open>ApproveMember\<close> with the decision
  \<open>reject\<close> on that admin succeeds, no active admin is left and the admin's sessions stay as they were. The other two operations that could
  take the admin away are refused on the same database, whoever asks for them: every \<open>UpdateMember\<close> that names another role or the
  status \<open>suspended\<close>, and the deletion of the admin's own account.
\<close>

theorem approve_member_drops_last_admin:
  assumes "db_ok d" and "active_admins d = 1" and "m \<in> set (db_memberships d)" and "is_active_admin m"
    and "ApproveMember e actor (mr_id m) ''reject'' role0 req d = Inr (d', t)"
  shows "active_admins d' = 0 \<and> db_sessions d' = db_sessions d \<and>
    (\<forall>e actor ver role status req. role \<notin> {RoleOther '''', RoleAdmin} \<or> status = StatusSuspended \<longrightarrow>
       isl (UpdateMember e actor (mr_id m) ver role status req d)) \<and>
    (\<forall>e actor confirmation req. pr_ActorID actor = mr_id m \<longrightarrow> isl (DeleteAccount e actor confirmation req d))"
proof (intro conjI allI impI)
  note r = reject_active_admin [OF assms(5,1,3,4)]
  show "active_admins d' = 0"
    using active_admins_update [OF assms(1,3) r(1)] assms(2,4) by (simp add: is_active_admin_def approve_row_def)
  show "db_sessions d' = db_sessions d" by (rule r(2))
next
  fix e actor ver role status req
  assume away: "role \<notin> {RoleOther '''', RoleAdmin} \<or> status = StatusSuspended"
  have False if u: "UpdateMember e actor (mr_id m) ver role status req d = Inr (d2, t2)" for d2 t2
    using u
  proof (rule UpdateMember_effect)
    fix n role' status'
    assume n: "n \<in> set (db_memberships d)" "mr_id n = mr_id m"
      and new: "role' = (if role = RoleOther '''' then coalesce_role (mr_role n) else role)"
        "status' = (if status = StatusOther '''' then mr_status n else status)"
        "\<not> is_active_admin n \<or> role' = RoleAdmin \<and> status' = StatusActive \<or> 1 < active_admins d"
    show False using member_unique [OF assms(1) n(1) assms(3) n(2)] new away assms(2,4) by (auto split: if_splits)
  qed
  then show "isl (UpdateMember e actor (mr_id m) ver role status req d)"
    by (cases "UpdateMember e actor (mr_id m) ver role status req d") auto
next
  fix e and actor :: Principal and confirmation req
  assume self: "pr_ActorID actor = mr_id m"
  have False if u: "DeleteAccount e actor confirmation req d = Inr (d2, t2)" for d2 t2
    using u
  proof (cases rule: DeleteAccount_effect)
    case (repeated n)
    then show False using member_unique [OF assms(1) repeated(2) assms(3)] self assms(4) by (simp add: is_active_admin_def)
  next
    case (deleted n)
    then show False using member_unique [OF assms(1) deleted(2) assms(3)] self assms(2,4) by (simp add: is_active_admin_def)
  qed
  then show "isl (DeleteAccount e actor confirmation req d)" by (cases "DeleteAccount e actor confirmation req d") auto
qed

theorem approve_member_drops_last_admin_witness:
  "\<exists>d' t. ApproveMember example_env example_principal 1 ''reject'' (RoleOther '''') ''r'' example_db = Inr (d', t) \<and>
    active_admins d' = 0 \<and> map bs_revoked_at (db_sessions d') = [None]"
proof -
  have "\<not> isl (ApproveMember example_env example_principal 1 ''reject'' (RoleOther '''') ''r'' example_db)"
    by (simp add: ApproveMember_def example_authorized)
      (simp add: example_defs WorkspaceID_def select_member_def join_member_def scanMember_def coalesce_role_def update_membership_def
        update_memberships_def approve_row_def nullif_role_def membership_check_def btrim_blank_def appendAudit_def next_id_def
        audit_check_def Let_def)
  then obtain d' t where a: "ApproveMember example_env example_principal 1 ''reject'' (RoleOther '''') ''r'' example_db = Inr (d', t)"
    by (cases "ApproveMember example_env example_principal 1 ''reject'' (RoleOther '''') ''r'' example_db") auto
  have m: "example_row \<in> set (db_memberships example_db)" "is_active_admin example_row" "active_admins example_db = 1" "mr_id example_row = 1"
    by (simp_all add: example_defs is_active_admin_def active_admins_def WorkspaceID_def)
  then have "active_admins d' = 0 \<and> db_sessions d' = db_sessions example_db"
    using approve_member_drops_last_admin [OF example_db_ok m(3,1,2)] a by metis
  then show ?thesis using a by (simp add: example_db_def)
qed

section \<open>Sessions, login flows and the audit trail\<close>

lemma ResolveSession_Inr:
  assumes "ResolveSession sha e i v d = Inr s"
  obtains row m where "row \<in> set (db_sessions d)" "bs_id row = i" "bs_revoked_at row = None"
    "nanos (pg_time (env_now e)) < nanos (bs_expires_at row)" "sha v = bs_verifier_hash row"
    "m \<in> set (db_memberships d)" "mr_id m = bs_membership row" "m_ID (se_Member s) = bs_membership row"
    "pr_ActorID (se_Principal s) = mr_id m" "pr_Role (se_Principal s) = coalesce_role (mr_role m)"
    "pr_Status (se_Principal s) = mr_status m"
proof -
  from assms obtain row t where row: "find (\<lambda>s. bs_id s = i \<and> session_live e s) (db_sessions d) = Some row"
    and t: "select_member d (bs_membership row) (\<lambda>_. True) = Some t"
    and s: "sha v = bs_verifier_hash row" "se_Member s = t" "pr_ActorID (se_Principal s) = m_ID t"
      "pr_Role (se_Principal s) = m_Role t" "pr_Status (se_Principal s) = m_Status t"
    by (auto simp: ResolveSession_def VerifySecret_def result_simps split: option.splits if_splits)
  from row have "row \<in> set (db_sessions d)" "bs_id row = i" "session_live e row"
    by (auto simp: find_Some_iff)
  with t s that show ?thesis
    by (elim select_member_Some) (auto simp: session_live_def after_def)
qed

lemma revoke_where_sessions:
  "db_sessions (revoke_where e cond d) =
     map (\<lambda>s. if cond s \<and> bs_revoked_at s = None then s\<lparr>bs_revoked_at := Some (env_db_now e)\<rparr> else s)
       (db_sessions d)"
  by (simp add: revoke_where_def)

lemma revoked_sessions:
  "row \<in> set (db_sessions (RevokeMemberSessions e mid d)) \<Longrightarrow> bs_membership row = mid \<Longrightarrow>
     bs_revoked_at row \<noteq> None"
proof -
  assume "row \<in> set (db_sessions (RevokeMemberSessions e mid d))" and mid: "bs_membership row = mid"
  from this(1) obtain s where s: "row = (if bs_membership s = mid \<and> bs_revoked_at s = None
      then s\<lparr>bs_revoked_at := Some (env_db_now e)\<rparr> else s)"
    unfolding RevokeMemberSessions_def revoke_where_sessions by (rule in_set_mapE)
  with mid show ?thesis by (cases "bs_membership s = mid \<and> bs_revoked_at s = None") simp_all
qed

lemma updated_row:
  assumes "select_member d mid cond = Some t"
    and "db_memberships d = update_memberships mid (update_row role status) rows"
  shows "m_Role t = role" "m_Status t = status"
proof -
  from assms(1) obtain m where m: "m \<in> set (db_memberships d)" "mr_id m = mid"
      "m_Role t = coalesce_role (mr_role m)" "m_Status t = mr_status m"
    by (rule select_member_Some)
  from m(1) obtain r where r: "m = (if mr_id r = mid then update_row role status r else r)"
    unfolding assms(2) update_memberships_def by (rule in_set_mapE)
  with m(2) have "m = update_row role status r" by (cases "mr_id r = mid") simp_all
  with m show "m_Role t = role" "m_Status t = status"
    by (simp_all add: update_row_def coalesce_role_def)
qed

text \<open>
  C11: a change of access ends the member's sessions. After \<open>UpdateMember\<close> has changed the role or
  the status of a member, no token of a session opened before resolves to that member, at any
  later time and for any verifier.
\<close>

theorem access_change_ends_sessions:
  assumes "UpdateMember e actor mid ver role status req d = Inr (d', t)" and "db_ok d"
    and "m \<in> set (db_memberships d)" and "mr_id m = mid"
    and "coalesce_role (mr_role m) \<noteq> m_Role t \<or> mr_status m \<noteq> m_Status t"
  shows "\<not> (\<exists>e' i v s. ResolveSession sha e' i v d' = Inr s \<and> m_ID (se_Member s) = mid)"
proof clarify
  fix e' i v s
  assume res: "ResolveSession sha e' i v d' = Inr s" and mid: "mid = m_ID (se_Member s)"
  obtain role' status' where
    sess: "db_sessions d' = (if coalesce_role (mr_role m) \<noteq> role' \<or> mr_status m \<noteq> status'
       then db_sessions (RevokeMemberSessions e mid d) else db_sessions d)" and
    upd: "db_memberships d' = update_memberships mid (update_row role' status') (db_memberships d)"
    using UpdateMember_effect [OF assms(1)] assms(2-4) by (metis db_ok_def row_by_id)
  have "m_Role t = role' \<and> m_Status t = status'"
  proof -
    from assms(1) obtain d2 where "select_member d2 mid (\<lambda>_. True) = Some t"
      and "db_memberships d2 = db_memberships d'"
      by (auto simp: UpdateMember_def result_simps Let_def)
    with upd show ?thesis by (simp add: updated_row)
  qed
  with sess assms(5) have "db_sessions d' = db_sessions (RevokeMemberSessions e mid d)" by auto
  with res mid show False
    by (elim ResolveSession_Inr) (auto dest: revoked_sessions)
qed

definition example_db2 :: db where
  "example_db2 = example_db\<lparr>
     db_identities := db_identities example_db @ [\<lparr>ei_id = 11, ei_issuer = ''https://id'',
       ei_subject = ''b'', ei_display_name = ''Bob'', ei_email = ''b@b''\<rparr>],
     db_memberships := [example_row, example_row\<lparr>mr_id := 2, mr_identity := 11\<rparr>]\<rparr>"

definition example_suspension :: "store_error + (db \<times> Member)" where
  "example_suspension =
     UpdateMember example_env example_principal 2 1 (RoleOther '''') StatusSuspended ''r'' example_db2"

lemmas store_eval = active_admins_def is_active_admin_def WorkspaceID_def select_member_def
  join_member_def scanMember_def coalesce_role_def update_membership_def update_memberships_def
  update_row_def nullif_role_def membership_check_def btrim_blank_def access_validRole_def
  appendAudit_def next_id_def audit_check_def ProtectLastAdmin_def Let_def

lemma example_suspension_ok:
  "\<not> isl example_suspension" "m_Status (snd (projr example_suspension)) = StatusSuspended"
  by (simp_all add: example_suspension_def UpdateMember_def example_authorized example_db2_def)
    (simp_all add: example_defs store_eval RevokeMemberSessions_def revoke_where_def)

theorem access_change_ends_sessions_witness:
  "\<not> (\<exists>e' i v s. ResolveSession id e' i v (fst (projr example_suspension)) = Inr s \<and>
     m_ID (se_Member s) = 2)"
proof (rule access_change_ends_sessions)
  show "UpdateMember example_env example_principal 2 1 (RoleOther '''') StatusSuspended ''r'' example_db2 =
      Inr (fst (projr example_suspension), snd (projr example_suspension))"
    using example_suspension_ok(1) by (cases example_suspension) (auto simp: example_suspension_def)
  show "db_ok example_db2"
    by (simp add: example_db2_def example_defs db_ok_def store_eval)
  show "example_row\<lparr>mr_id := 2, mr_identity := 11\<rparr> \<in> set (db_memberships example_db2)"
    by (simp add: example_db2_def)
qed (simp_all add: example_suspension_ok(2) example_row_def)

text \<open>Login flows: a row is only ever added with a fresh state hash, or marked as consumed.\<close>

definition flow_spent :: "string \<Rightarrow> db \<Rightarrow> bool" where
  "flow_spent h d \<longleftrightarrow> distinct (map lf_state_hash (db_flows d)) \<and>
     (\<exists>f \<in> set (db_flows d). lf_state_hash f = h \<and> lf_consumed_at f \<noteq> None)"

definition consume_rows ::
    "(string \<Rightarrow> string) \<Rightarrow> env \<Rightarrow> string \<Rightarrow> string \<Rightarrow> string \<Rightarrow> flow_row list \<Rightarrow> flow_row list" where
  "consume_rows sha e st n v rows =
     map (\<lambda>x. if flow_matches sha e st n v x then x\<lparr>lf_consumed_at := Some (env_db_now e)\<rparr> else x) rows"

lemma consume_rows_simps:
  "map lf_state_hash (consume_rows sha e st n v rows) = map lf_state_hash rows"
  by (simp add: consume_rows_def)

lemma consume_rows_keeps:
  assumes "f \<in> set rows" and "lf_consumed_at f \<noteq> None"
  shows "f \<in> set (consume_rows sha e st n v rows)"
proof -
  have "\<not> flow_matches sha e st n v f" using assms(2) by (simp add: flow_matches_def)
  with assms(1) show ?thesis by (force simp: consume_rows_def)
qed

lemma ConsumeLoginFlow_Inr:
  assumes "ConsumeLoginFlow sha e st n v d = Inr (d', fl)"
  obtains f where "f \<in> set (db_flows d)" "flow_matches sha e st n v f"
    "db_flows d' = consume_rows sha e st n v (db_flows d)"
    "fl_ReturnTo fl = lf_return_to f"
  using assms by (auto simp: ConsumeLoginFlow_def consume_rows_def find_Some_iff
      split: option.splits dest!: nth_mem)

lemma revoke_flows [simp]:
  "db_flows (if c then RevokeMemberSessions e mid d else d) = db_flows d"
  by (simp add: RevokeMemberSessions_def revoke_where_def)

lemma access_step_flows:
  assumes "access_step l (e, op) d = Inr d'"
  shows "db_flows d' = db_flows d \<or>
    (\<exists>f. db_flows d' = db_flows d @ [f] \<and> lf_state_hash f \<notin> set (map lf_state_hash (db_flows d))) \<or>
    (\<exists>st n v. db_flows d' = consume_rows (lib_sha256 l) e st n v (db_flows d))"
proof (cases op)
  case (OpConsumeLoginFlow st n v)
  with assms show ?thesis by (auto simp: map_sum_fst_Inr elim!: ConsumeLoginFlow_Inr)
next
  case (OpUpsertApplicant key name email)
  with assms show ?thesis
    by (auto simp: map_sum_fst_Inr UpsertApplicant_def upsert_identity_def upsert_membership_def
        result_simps Let_def split: option.splits if_splits)
next
  case (OpUpdateMember actor mid ver role status req)
  with assms show ?thesis
    by (auto simp: map_sum_fst_Inr UpdateMember_def result_simps Let_def)
next
  case (OpApproveMember actor mid dec role req)
  with assms show ?thesis
    by (auto simp: map_sum_fst_Inr ApproveMember_def result_simps Let_def split: if_splits)
next
  case (OpDeleteAccount actor conf req)
  with assms show ?thesis
    by (auto simp: map_sum_fst_Inr DeleteAccount_def result_simps Let_def RevokeMemberSessions_def
        revoke_where_def purge_identity_def dest!: insert_deletion_job_Inr split: if_splits)
qed (use assms in \<open>auto simp: map_sum_fst_Inr CreateSession_def CreateLoginFlow_def RevokeSession_def
      revoke_where_def UpdatePreferences_def CreateServiceAccount_def UpdateServiceAccount_def
      RecordHTTPMutation_def result_simps Let_def dest!: insert_scopes_Inr split: if_splits\<close>)

lemma access_step_spent:
  assumes "flow_spent h d" and "access_step l (e, op) d = Inr d'"
  shows "flow_spent h d'"
  using access_step_flows [OF assms(2)] assms(1)
  by (auto simp: flow_spent_def consume_rows_simps intro!: bexI [OF _ consume_rows_keeps])

interpretation flow_kept: preserving "access_step l" "flow_spent h"
  by unfold_locales (metis access_step_spent surj_pair)

lemma consume_spends:
  assumes "ConsumeLoginFlow sha e st n v d = Inr (d', fl)"
    and "distinct (map lf_state_hash (db_flows d))"
  shows "flow_spent (sha st) d'"
  using assms(1)
proof (rule ConsumeLoginFlow_Inr)
  fix f
  assume f: "f \<in> set (db_flows d)" "flow_matches sha e st n v f"
    and d': "db_flows d' = consume_rows sha e st n v (db_flows d)"
  let ?g = "f\<lparr>lf_consumed_at := Some (env_db_now e)\<rparr>"
  have "?g \<in> set (db_flows d')"
    unfolding d' consume_rows_def using f by force
  moreover have "lf_state_hash ?g = sha st" "lf_consumed_at ?g \<noteq> None"
    using f(2) by (simp_all add: flow_matches_def)
  ultimately show ?thesis using assms(2) d' unfolding flow_spent_def by (metis consume_rows_simps)
qed

lemma spent_refuses:
  assumes "flow_spent (sha st) d"
  shows "ConsumeLoginFlow sha e st n v d = Inl (AccessErr ErrAuthenticationRequired)"
proof -
  from assms obtain f where f: "f \<in> set (db_flows d)" "lf_state_hash f = sha st"
      "lf_consumed_at f \<noteq> None" and dist: "distinct (map lf_state_hash (db_flows d))"
    by (auto simp: flow_spent_def)
  have "\<not> flow_matches sha e st n v x" if "x \<in> set (db_flows d)" for x
  proof
    assume x: "flow_matches sha e st n v x"
    then have "x = f" using dist that f by (auto simp: flow_matches_def distinct_map inj_on_def)
    with x f show False by (simp add: flow_matches_def)
  qed
  then have "find (flow_matches sha e st n v) (db_flows d) = None" by (simp add: find_None_iff)
  then show ?thesis by (simp add: ConsumeLoginFlow_def)
qed

text \<open>
  a login flow is consumed at most once. After \<open>ConsumeLoginFlow\<close> succeeded for a state, it
  is refused for that state after any further sequence of operations, including attempts to
  create the flow again, with any nonce and verifier and at any time. The hypothesis is the
  primary key of the table of login flows.
\<close>

theorem login_flow_single_use:
  assumes "ConsumeLoginFlow (lib_sha256 l) e st n v d = Inr (d', fl)"
    and "distinct (map lf_state_hash (db_flows d))"
  shows "ConsumeLoginFlow (lib_sha256 l) e' st n' v' (run_ops (access_step l) d' ops) =
    Inl (AccessErr ErrAuthenticationRequired)"
  using flow_kept.run_well_formed [OF consume_spends [OF assms]] by (rule spent_refuses)

definition example_flow_db :: db where
  "example_flow_db = example_db\<lparr>db_flows := [\<lparr>lf_state_hash = ''s'', lf_nonce_hash = ''n'',
     lf_verifier_hash = ''v'', lf_return_to = ''/'', lf_created_at = Time 1000 UTC,
     lf_expires_at = Time 9000000 UTC, lf_consumed_at = None\<rparr>]\<rparr>"

definition example_libs :: libs where
  "example_libs = \<lparr>lib_parse = (\<lambda>_. None), lib_zone = (\<lambda>_. True), lib_sha256 = id\<rparr>"

theorem login_flow_single_use_witness:
  "ConsumeLoginFlow (lib_sha256 example_libs) example_env ''s'' ''n'' ''v'' (run_ops (access_step example_libs)
     (example_flow_db\<lparr>db_flows := consume_rows id example_env ''s'' ''n'' ''v'' (db_flows example_flow_db)\<rparr>)
     [(example_env, OpRevokeSession 77)]) = Inl (AccessErr ErrAuthenticationRequired)"
  by (rule login_flow_single_use [where d = example_flow_db and e = example_env and n = "''n''" and
        v = "''v''" and fl = "\<lparr>fl_Nonce = ''n'', fl_Verifier = ''v'', fl_ReturnTo = ''/'',
          fl_ExpiresAt = Time 9000000 UTC\<rparr>"])
    (simp_all add: ConsumeLoginFlow_def example_flow_db_def example_libs_def example_env_def
      flow_matches_def consume_rows_def after_def)

text \<open>The audit trail.\<close>

interpretation audit_kept: preserving "access_step l" "\<lambda>d. prefix (db_audit d\<^sub>0) (db_audit d)"
proof
  fix s a t
  assume p: "prefix (db_audit d\<^sub>0) (db_audit s)" and step: "access_step l a s = Inr t"
  obtain e op where "a = (e, op)" by (cases a)
  with step have "prefix (db_audit s) (db_audit t)"
    using access_step_audit [of l e op s t] by auto
  with p show "prefix (db_audit d\<^sub>0) (db_audit t)" by (rule prefix_order.trans)
qed

text \<open>
  the audit trail is append-only. Whatever sequence of operations runs, the events recorded
  before are a prefix of the events recorded after: none is removed, changed or reordered.
\<close>

theorem audit_append_only: "prefix (db_audit d) (db_audit (run_ops (access_step l) d ops))"
  by (rule audit_kept.run_well_formed) simp

section \<open>Account deletion\<close>

lemma find_update_memberships:
  assumes "\<And>m. mr_id (f m) = mr_id m"
  shows "find (\<lambda>m. mr_id m = mid) (update_memberships mid f rows) =
    map_option f (find (\<lambda>m. mr_id m = mid) rows)"
  by (induction rows) (auto simp: update_memberships_def assms)

lemma find_purged:
  "find (\<lambda>x. ei_id x = j) (map (\<lambda>x. if ei_id x = i then x\<lparr>ei_display_name := '''', ei_email := ''''\<rparr> else x) rows)
     = None \<longleftrightarrow> find (\<lambda>x. ei_id x = j) rows = None"
  by (induction rows) auto

lemma find_by_id:
  assumes "db_ok d" and "m \<in> set (db_memberships d)"
  shows "find (\<lambda>x. mr_id x = mr_id m) (db_memberships d) = Some m"
proof -
  have "find (\<lambda>x. mr_id x = mr_id m) (db_memberships d) \<noteq> None"
    using assms(2) by (auto simp: find_None_iff)
  then obtain x where x: "find (\<lambda>x. mr_id x = mr_id m) (db_memberships d) = Some x" by auto
  then have "x \<in> set (db_memberships d)" "mr_id x = mr_id m" by (auto simp: find_Some_iff)
  with assms x show ?thesis using row_by_id by (fastforce simp: db_ok_def)
qed

lemma DeleteAccount_guards:
  assumes "DeleteAccount e actor conf req d = Inr (d', j)"
  shows "pr_Kind actor = ActorMember" "pr_ActorID actor \<noteq> 0" "conf = DeletionConfirmation"
    and "select_member d (pr_ActorID actor) (\<lambda>_. True) \<noteq> None"
  using assms
  by (auto simp: DeleteAccount_def result_simps ValidateDeletionConfirmation_def split: if_splits)

lemma delete_again:
  assumes del: "DeleteAccount e actor conf req d = Inr (d', j)" and ok: "db_ok d"
    and m: "m \<in> set (db_memberships d)" "mr_id m = pr_ActorID actor"
    and d': "db_memberships d' = update_memberships (pr_ActorID actor) (delete_row e j) (db_memberships d)"
      "db_identities d' = db_identities (purge_identity (mr_identity m) d)"
  shows "DeleteAccount e' actor conf req' d' = Inr (d', j)"
proof -
  have "find (\<lambda>x. mr_id x = pr_ActorID actor) (db_memberships d) = Some m"
    using find_by_id [OF ok m(1)] m(2) by simp
  then have f: "find (\<lambda>x. mr_id x = pr_ActorID actor) (db_memberships d') = Some (delete_row e j m)"
    unfolding d' by (subst find_update_memberships) simp_all
  have "find (\<lambda>i. ei_id i = mr_identity m) (db_identities d) \<noteq> None"
    using DeleteAccount_guards(4) [OF del] find_by_id [OF ok m(1)] m(2)
    by (auto simp: select_member_def join_member_def)
  then have "find (\<lambda>i. ei_id i = mr_identity m) (db_identities d') \<noteq> None"
    unfolding d' purge_identity_def by (simp add: find_purged)
  then obtain t where t: "join_member d' (delete_row e j m) = Some t" "m_Status t = StatusDeleted"
    by (auto simp: join_member_def delete_row_def scanMember_def)
  with f have "select_member d' (pr_ActorID actor) (\<lambda>_. True) = Some t"
    by (simp add: select_member_def)
  with f t DeleteAccount_guards(1-3) [OF del] show ?thesis
    by (simp add: DeleteAccount_def ValidateDeletionConfirmation_def delete_row_def)
qed

text \<open>
  C12: account deletion is complete and repeatable. When \<open>DeleteAccount\<close> succeeds for a member
  that was not deleted yet, the name and the e-mail of the identity are erased, no session
  resolves to the member any more, the event is recorded under the deleted-actor kind, and asking
  again changes nothing and returns the same job.
\<close>

theorem account_deletion_complete:
  assumes "DeleteAccount e actor conf req d = Inr (d', j)" and "db_ok d"
    and "m \<in> set (db_memberships d)" and "mr_id m = pr_ActorID actor" and "mr_status m \<noteq> StatusDeleted"
  shows "(\<forall>i \<in> set (db_identities d'). ei_id i = mr_identity m \<longrightarrow>
      ei_display_name i = '''' \<and> ei_email i = '''') \<and>
    \<not> (\<exists>e' i v s. ResolveSession sha e' i v d' = Inr s \<and> m_ID (se_Member s) = pr_ActorID actor) \<and>
    (\<exists>a. db_audit d' = db_audit d @ [a] \<and> ae_actor_kind a = ActorDeleted \<and>
       ae_actor_id a = pr_ActorID actor) \<and>
    DeleteAccount e' actor conf req' d' = Inr (d', j)"
  using assms(1)
proof (cases rule: DeleteAccount_effect)
  case (repeated m')
  with assms(2-5) have False using row_by_id [of "db_memberships d" m' m] by (simp add: db_ok_def)
  then show ?thesis ..
next
  case (deleted m')
  have mm: "m' = m"
    using row_by_id [of "db_memberships d"] assms(2-4) deleted(2,3) by (auto simp: db_ok_def)
  have purged: "\<forall>i \<in> set (db_identities d'). ei_id i = mr_identity m \<longrightarrow>
      ei_display_name i = '''' \<and> ei_email i = ''''"
    unfolding deleted(8) mm by (auto simp: purge_identity_def)
  have "\<not> (\<exists>e' i v s. ResolveSession sha e' i v d' = Inr s \<and> m_ID (se_Member s) = pr_ActorID actor)"
    using deleted(7) by (auto elim!: ResolveSession_Inr dest: revoked_sessions)
  moreover have "DeleteAccount e' actor conf req' d' = Inr (d', j)"
    using delete_again [OF assms(1-4)] deleted(5,8) mm by simp
  ultimately show ?thesis using purged deleted(9) by (auto simp: audit_entry_def)
qed

definition example_deletion :: "store_error + (db \<times> int64)" where
  "example_deletion = DeleteAccount example_env example_principal ''DELETE MY ACCOUNT'' ''r'' example_db2"

lemma example_deletion_ok: "\<not> isl example_deletion" "snd (projr example_deletion) = 900"
  by (simp_all add: example_deletion_def DeleteAccount_def example_db2_def
      ValidateDeletionConfirmation_def DeletionConfirmation_def)
    (simp_all add: example_defs store_eval RevokeMemberSessions_def revoke_where_def
      purge_identity_def insert_deletion_job_def delete_row_def)

theorem account_deletion_complete_witness:
  "\<not> (\<exists>e' i v s. ResolveSession id e' i v (fst (projr example_deletion)) = Inr s \<and> m_ID (se_Member s) = 1) \<and>
    (\<exists>a. db_audit (fst (projr example_deletion)) = db_audit example_db2 @ [a] \<and>
       ae_actor_kind a = ActorDeleted \<and> ae_actor_id a = 1) \<and>
    DeleteAccount example_env example_principal ''DELETE MY ACCOUNT'' ''again'' (fst (projr example_deletion)) =
      Inr (fst (projr example_deletion), 900)"
proof -
  have del: "DeleteAccount example_env example_principal ''DELETE MY ACCOUNT'' ''r'' example_db2 =
      Inr (fst (projr example_deletion), 900)"
    using example_deletion_ok by (cases example_deletion) (auto simp: example_deletion_def)
  have ok: "db_ok example_db2" by (simp add: example_db2_def example_defs db_ok_def store_eval)
  have m: "example_row \<in> set (db_memberships example_db2)" "mr_id example_row = pr_ActorID example_principal"
      "mr_status example_row \<noteq> StatusDeleted"
    by (simp_all add: example_db2_def example_row_def example_principal_def)
  show ?thesis
    using account_deletion_complete [OF del ok m, of id example_env "''again''"]
    by (simp add: example_row_def example_principal_def)
qed

text \<open>
  Two consequences of the statements as they are written, on the same databases. \<open>UpdateMember\<close>
  does not look at whether its target is deleted, so it turns a deleted account into an active
  one; \<open>UpsertApplicant\<close> updates the profile of the identity before the membership is looked at,
  so a login of the deleted identity stores the name and the e-mail again.
\<close>

definition deleted_row :: membership_row where
  "deleted_row = delete_row example_env 900 example_row\<lparr>mr_id := 3, mr_identity := 12\<rparr>"

definition example_db3 :: db where
  "example_db3 = example_db\<lparr>
     db_identities := db_identities example_db @ [\<lparr>ei_id = 12, ei_issuer = ''https://id'',
       ei_subject = ''c'', ei_display_name = '''', ei_email = ''''\<rparr>],
     db_memberships := [example_row, deleted_row]\<rparr>"

lemma update_member_revives_deleted:
  "map_sum id (\<lambda>(d, m). (m_Role m, m_Status m))
     (UpdateMember example_env example_principal 3 2 RoleViewer StatusActive ''r'' example_db3) =
     Inr (RoleViewer, StatusActive)"
  by (simp add: UpdateMember_def example_authorized example_db3_def deleted_row_def ValidateRole_def
      access_validRole_def)
    (simp add: example_defs store_eval RevokeMemberSessions_def revoke_where_def delete_row_def)

lemma login_restores_purged_profile:
  "map_sum id (\<lambda>(d, m). (map ei_email (db_identities d), m_Status m))
     (UpsertApplicant (\<lambda>_. Some \<lparr>url_Scheme = ''https'', url_Host = ''id''\<rparr>) example_env
        \<lparr>ik_Issuer = ''https://id'', ik_Subject = ''c''\<rparr> ''Cy'' ''c@c'' example_db3) =
     Inr ([''a@b'', ''c@c''], StatusDeleted)"
proof -
  have "trim_space ''c'' = ''c''" by code_simp
  then show ?thesis
    by (simp add: UpsertApplicant_def IdentityKey_Validate_def example_db3_def deleted_row_def)
      (simp add: example_defs store_eval upsert_identity_def upsert_membership_def same_identity_def
        delete_row_def)
qed

end
