(* ===== verification/Job.thy ===== *)
theory Job
  imports Go_Base Go_Lifecycle
begin

text \<open>
  Package \<open>internal/job\<close>: the state machine of durable work. A job is claimed with a lease,
  commits pages of progress with an advancing checkpoint while it holds the lease, and ends
  succeeded, failed or cancelled. The methods have value receivers: they return the changed
  job, or an error.
\<close>

section \<open>The job and its operations\<close>

datatype job_error = JobErrInvalid | JobErrConflict | JobErrLeaseUnavailable

datatype JobState = Queued | Running | Succeeded | Failed | Cancelled | JobStateOther string

record Progress =
  pg_Completed :: int64
  pg_Total :: "int64 option"
  pg_TotalStatus :: string
  pg_Unit :: string

record Checkpoint =
  cp_Scope :: string
  cp_Cursor :: string
  cp_CoverageTo :: gotime
  cp_Version :: int64

record Job =
  jb_ID :: int64
  jb_ProjectID :: int64
  jb_Kind :: string
  jb_State :: JobState
  jb_Progress :: Progress
  jb_Checkpoint :: "Checkpoint option"
  jb_RequestedFrom :: "gotime option"
  jb_RequestedTo :: "gotime option"
  jb_Version :: int64
  jb_CoalescedRequests :: int64
  jb_Cancellable :: bool
  jb_LeaseHolder :: string
  jb_LeaseExpiresAt :: "gotime option"
  jb_CreatedAt :: gotime
  jb_StartedAt :: "gotime option"
  jb_UpdatedAt :: gotime
  jb_FinishedAt :: "gotime option"
  jb_Failure :: string

definition job_terminal :: "JobState \<Rightarrow> bool" where
  "job_terminal state \<longleftrightarrow> state = Succeeded \<or> state = Failed \<or> state = Cancelled"

definition job_New ::
    "int64 \<Rightarrow> int64 \<Rightarrow> string \<Rightarrow> string \<Rightarrow> int64 option \<Rightarrow> bool \<Rightarrow> gotime \<Rightarrow> job_error + Job" where
  "job_New i projectID kind unit tot cancellable now =
     (if i \<le> 0 \<or> trim_space kind = '''' \<or> trim_space unit = '''' \<or>
         (case tot of None \<Rightarrow> False | Some t \<Rightarrow> t < 0)
      then Inl JobErrInvalid
      else Inr \<lparr>jb_ID = i, jb_ProjectID = projectID, jb_Kind = kind, jb_State = Queued,
        jb_Progress = \<lparr>pg_Completed = 0, pg_Total = tot,
          pg_TotalStatus = (if tot = None then ''unknown'' else ''''), pg_Unit = unit\<rparr>,
        jb_Checkpoint = None, jb_RequestedFrom = None, jb_RequestedTo = None, jb_Version = 1,
        jb_CoalescedRequests = 0, jb_Cancellable = cancellable, jb_LeaseHolder = '''',
        jb_LeaseExpiresAt = None, jb_CreatedAt = utc now, jb_StartedAt = None,
        jb_UpdatedAt = utc now, jb_FinishedAt = None, jb_Failure = ''''\<rparr>)"

fun job_allowed :: "JobState \<Rightarrow> JobState list" where
  "job_allowed Queued = [Running, Failed, Cancelled]"
| "job_allowed Running = [Succeeded, Failed, Cancelled]"
| "job_allowed _ = []"

definition job_Transition :: "Job \<Rightarrow> JobState \<Rightarrow> gotime \<Rightarrow> string \<Rightarrow> job_error + Job" where
  "job_Transition j to now0 failure =
     (if job_terminal (jb_State j) then
        (if jb_State j = to then Inr j else Inl JobErrConflict)
      else if to \<notin> set (job_allowed (jb_State j)) then Inl JobErrConflict
      else
        let now = utc now0;
            j1 = j\<lparr>jb_State := to, jb_Version := jb_Version j + 1, jb_UpdatedAt := now\<rparr>;
            j2 = (if to = Running \<and> jb_StartedAt j1 = None then j1\<lparr>jb_StartedAt := Some now\<rparr> else j1);
            j3 = (if job_terminal to
                  then j2\<lparr>jb_FinishedAt := Some now, jb_LeaseHolder := '''', jb_LeaseExpiresAt := None\<rparr>
                  else j2)
        in Inr (if to = Failed then j3\<lparr>jb_Failure := trim_space failure\<rparr> else j3))"

definition job_Cancel :: "Job \<Rightarrow> gotime \<Rightarrow> job_error + Job" where
  "job_Cancel j now =
     (if \<not> jb_Cancellable j then Inl JobErrConflict else job_Transition j Cancelled now '''')"

definition job_Claim :: "Job \<Rightarrow> string \<Rightarrow> gotime \<Rightarrow> duration \<Rightarrow> job_error + Job" where
  "job_Claim j holder now0 ttl =
     (if trim_space holder = '''' \<or> ttl \<le> 0 \<or> job_terminal (jb_State j) then Inl JobErrInvalid
      else
        let now = utc now0 in
        if (case jb_LeaseExpiresAt j of None \<Rightarrow> False | Some t \<Rightarrow> after t now) \<and> jb_LeaseHolder j \<noteq> holder
        then Inl JobErrLeaseUnavailable
        else
          let j1 = j\<lparr>jb_LeaseHolder := holder, jb_LeaseExpiresAt := Some (time_add now ttl),
                jb_Version := jb_Version j + 1, jb_UpdatedAt := now\<rparr>
          in if jb_State j1 = Queued then job_Transition j1 Running now '''' else Inr j1)"

definition job_CommitPage ::
    "Job \<Rightarrow> string \<Rightarrow> int64 \<Rightarrow> Checkpoint \<Rightarrow> gotime \<Rightarrow> job_error + Job" where
  "job_CommitPage j holder completed checkpoint now =
     (if jb_State j \<noteq> Running \<or> jb_LeaseHolder j \<noteq> holder \<or>
         (case jb_LeaseExpiresAt j of None \<Rightarrow> True | Some t \<Rightarrow> \<not> after t now) \<or>
         completed < pg_Completed (jb_Progress j) \<or>
         (case pg_Total (jb_Progress j) of None \<Rightarrow> False | Some t \<Rightarrow> completed > t) \<or>
         cp_Version checkpoint \<le> 0
      then Inl JobErrConflict
      else if (case jb_Checkpoint j of None \<Rightarrow> False | Some c \<Rightarrow> cp_Version checkpoint \<le> cp_Version c)
      then Inl JobErrConflict
      else Inr (j\<lparr>jb_Progress := (jb_Progress j)\<lparr>pg_Completed := completed\<rparr>,
             jb_Checkpoint := Some (checkpoint\<lparr>cp_CoverageTo := utc (cp_CoverageTo checkpoint)\<rparr>),
             jb_Version := jb_Version j + 1, jb_UpdatedAt := utc now\<rparr>))"

definition job_Coalesce :: "Job \<Rightarrow> Job" where
  "job_Coalesce j =
     (if \<not> job_terminal (jb_State j)
      then j\<lparr>jb_CoalescedRequests := jb_CoalescedRequests j + 1, jb_Version := jb_Version j + 1\<rparr>
      else j)"

section \<open>Steps\<close>

datatype job_op =
    JTransition JobState gotime string
  | JCancel gotime
  | JClaim string gotime duration
  | JCommitPage string int64 Checkpoint gotime
  | JCoalesce

fun job_step :: "job_op \<Rightarrow> Job \<Rightarrow> job_error + Job" where
  "job_step (JTransition to now failure) j = job_Transition j to now failure"
| "job_step (JCancel now) j = job_Cancel j now"
| "job_step (JClaim holder now ttl) j = job_Claim j holder now ttl"
| "job_step (JCommitPage holder completed cp now) j = job_CommitPage j holder completed cp now"
| "job_step JCoalesce j = Inr (job_Coalesce j)"

text \<open>
  Well-formed jobs: a queued job has neither started nor a lease, a running one has started, a
  finished one has a finish time and no lease; progress lies between zero and the total.
\<close>

definition progress_ok :: "Progress \<Rightarrow> bool" where
  "progress_ok p \<longleftrightarrow> 0 \<le> pg_Completed p \<and>
     (case pg_Total p of None \<Rightarrow> True | Some t \<Rightarrow> pg_Completed p \<le> t)"

definition checkpoint_ok :: "Checkpoint option \<Rightarrow> bool" where
  "checkpoint_ok c \<longleftrightarrow> (case c of None \<Rightarrow> True | Some c \<Rightarrow> 0 < cp_Version c)"

definition job_ok :: "Job \<Rightarrow> bool" where
  "job_ok j \<longleftrightarrow> 0 < jb_ID j \<and> 1 \<le> jb_Version j \<and> trim_space (jb_Kind j) \<noteq> '''' \<and>
     jb_State j \<in> {Queued, Running, Succeeded, Failed, Cancelled} \<and>
     progress_ok (jb_Progress j) \<and> checkpoint_ok (jb_Checkpoint j) \<and>
     (jb_FinishedAt j \<noteq> None \<longleftrightarrow> job_terminal (jb_State j)) \<and>
     (jb_State j = Queued \<longrightarrow> jb_StartedAt j = None \<and> jb_Checkpoint j = None) \<and>
     (jb_State j = Running \<or> jb_State j = Succeeded \<longrightarrow> jb_StartedAt j \<noteq> None) \<and>
     (jb_LeaseHolder j \<noteq> '''' \<longleftrightarrow> jb_LeaseExpiresAt j \<noteq> None) \<and>
     (jb_LeaseExpiresAt j \<noteq> None \<longrightarrow> jb_State j = Running)"

text \<open>The effect of a transition, field by field.\<close>

definition job_moved :: "Job \<Rightarrow> JobState \<Rightarrow> gotime \<Rightarrow> string \<Rightarrow> Job" where
  "job_moved j to now f = j\<lparr>jb_State := to, jb_Version := jb_Version j + 1, jb_UpdatedAt := utc now,
     jb_StartedAt := (if to = Running \<and> jb_StartedAt j = None then Some (utc now) else jb_StartedAt j),
     jb_FinishedAt := (if job_terminal to then Some (utc now) else jb_FinishedAt j),
     jb_LeaseHolder := (if job_terminal to then '''' else jb_LeaseHolder j),
     jb_LeaseExpiresAt := (if job_terminal to then None else jb_LeaseExpiresAt j),
     jb_Failure := (if to = Failed then trim_space f else jb_Failure j)\<rparr>"

lemma job_Transition_moved:
  "job_Transition j to now f =
     (if job_terminal (jb_State j) then (if jb_State j = to then Inr j else Inl JobErrConflict)
      else if to \<notin> set (job_allowed (jb_State j)) then Inl JobErrConflict
      else Inr (job_moved j to now f))"
  by (cases "to = Running \<and> jb_StartedAt j = None"; cases "job_terminal to"; cases "to = Failed")
    (simp_all add: job_Transition_def job_moved_def Let_def)

lemma job_moved_simps [simp]:
  "jb_State (job_moved j to now f) = to" "jb_Version (job_moved j to now f) = jb_Version j + 1"
  "jb_Progress (job_moved j to now f) = jb_Progress j" "jb_ID (job_moved j to now f) = jb_ID j"
  "jb_Checkpoint (job_moved j to now f) = jb_Checkpoint j" "jb_Kind (job_moved j to now f) = jb_Kind j"
  by (simp_all add: job_moved_def)

lemma job_Transition_Inr:
  "job_Transition j to now f = Inr j' \<longleftrightarrow>
     job_terminal (jb_State j) \<and> jb_State j = to \<and> j' = j \<or>
     \<not> job_terminal (jb_State j) \<and> to \<in> set (job_allowed (jb_State j)) \<and> j' = job_moved j to now f"
  by (auto simp: job_Transition_moved)

lemma job_moved_ok:
  assumes "job_ok j" and "to \<in> set (job_allowed (jb_State j))"
  shows "job_ok (job_moved j to now f)"
  using assms by (cases "jb_State j") (auto simp: job_ok_def job_moved_def job_terminal_def)

text \<open>\<open>Claim\<close> as one update: it leases the job, and starts it when it was queued.\<close>

definition job_leased :: "Job \<Rightarrow> string \<Rightarrow> gotime \<Rightarrow> duration \<Rightarrow> Job" where
  "job_leased j holder now ttl = j\<lparr>jb_LeaseHolder := holder,
     jb_LeaseExpiresAt := Some (time_add (utc now) ttl), jb_Version := jb_Version j + 1,
     jb_UpdatedAt := utc now\<rparr>"

lemma job_leased_simps [simp]:
  "jb_State (job_leased j holder now ttl) = jb_State j"
  "jb_Version (job_leased j holder now ttl) = jb_Version j + 1"
  "jb_Progress (job_leased j holder now ttl) = jb_Progress j"
  "jb_Checkpoint (job_leased j holder now ttl) = jb_Checkpoint j"
  by (simp_all add: job_leased_def)

lemma job_Claim_Inr:
  "job_Claim j holder now ttl = Inr j' \<longleftrightarrow>
     trim_space holder \<noteq> '''' \<and> 0 < ttl \<and> \<not> job_terminal (jb_State j) \<and>
     (jb_LeaseHolder j = holder \<or>
      (case jb_LeaseExpiresAt j of None \<Rightarrow> True | Some t \<Rightarrow> nanos t \<le> nanos now)) \<and>
     j' = (if jb_State j = Queued then job_moved (job_leased j holder now ttl) Running (utc now) ''''
           else job_leased j holder now ttl)"
  unfolding job_Claim_def Let_def job_leased_def [symmetric] job_Transition_moved
  by (cases "jb_State j = Queued") (auto simp: job_terminal_def after_def not_le split: option.splits)

lemma job_Claim_ok:
  assumes "job_Claim j holder now ttl = Inr j'" and "job_ok j"
  shows "job_ok j'"
proof -
  from assms(1) have nz: "holder \<noteq> ''''" by (auto simp: job_Claim_Inr)
  from assms have "jb_State j = Queued \<or> jb_State j = Running"
    by (auto simp: job_Claim_Inr job_ok_def job_terminal_def)
  then show ?thesis
  proof
    assume "jb_State j = Queued"
    with assms nz show ?thesis
      by (simp add: job_Claim_Inr job_ok_def job_moved_def job_leased_def job_terminal_def
          checkpoint_ok_def)
  next
    assume "jb_State j = Running"
    with assms nz show ?thesis by (simp add: job_Claim_Inr job_ok_def job_leased_def job_terminal_def)
  qed
qed

text \<open>\<open>CommitPage\<close>: what it requires and what it changes.\<close>

definition job_committed :: "Job \<Rightarrow> int64 \<Rightarrow> Checkpoint \<Rightarrow> gotime \<Rightarrow> Job" where
  "job_committed j n cp now = j\<lparr>jb_Progress := (jb_Progress j)\<lparr>pg_Completed := n\<rparr>,
     jb_Checkpoint := Some (cp\<lparr>cp_CoverageTo := utc (cp_CoverageTo cp)\<rparr>),
     jb_Version := jb_Version j + 1, jb_UpdatedAt := utc now\<rparr>"

lemma job_CommitPage_Inr:
  "job_CommitPage j holder n cp now = Inr j' \<longleftrightarrow>
     jb_State j = Running \<and> jb_LeaseHolder j = holder \<and>
     (\<exists>t. jb_LeaseExpiresAt j = Some t \<and> nanos now < nanos t) \<and>
     pg_Completed (jb_Progress j) \<le> n \<and> (\<forall>t. pg_Total (jb_Progress j) = Some t \<longrightarrow> n \<le> t) \<and>
     0 < cp_Version cp \<and> (\<forall>c. jb_Checkpoint j = Some c \<longrightarrow> cp_Version c < cp_Version cp) \<and>
     j' = job_committed j n cp now"
  unfolding job_CommitPage_def job_committed_def [symmetric]
  by (auto simp: after_def not_le not_less split: option.splits)

lemma job_CommitPage_ok:
  assumes "job_CommitPage j holder n cp now = Inr j'" and "job_ok j"
  shows "job_ok j'"
  using assms
  by (auto simp: job_CommitPage_Inr job_ok_def job_committed_def job_terminal_def progress_ok_def
      checkpoint_ok_def split: option.splits)

lemma job_Coalesce_ok: "job_ok j \<Longrightarrow> job_ok (job_Coalesce j)"
  by (simp add: job_Coalesce_def job_ok_def)

lemma job_Cancel_Inr:
  "job_Cancel j now = Inr j' \<longleftrightarrow> jb_Cancellable j \<and> job_Transition j Cancelled now '''' = Inr j'"
  by (simp add: job_Cancel_def)

lemma job_step_ok: "job_ok j \<Longrightarrow> job_step a j = Inr j' \<Longrightarrow> job_ok j'"
  by (cases a) (auto simp: job_Cancel_Inr job_Transition_Inr
      intro: job_moved_ok job_Claim_ok job_CommitPage_ok job_Coalesce_ok)

lemma job_step_version: "job_step a j = Inr j' \<Longrightarrow> j' = j \<or> jb_Version j < jb_Version j'"
  by (cases a) (auto simp: job_Cancel_Inr job_Transition_Inr job_Claim_Inr job_CommitPage_Inr
      job_Coalesce_def job_committed_def)

lemma job_step_terminal: "job_terminal (jb_State j) \<Longrightarrow> job_step a j = Inr j' \<Longrightarrow> j' = j"
  by (cases a) (auto simp: job_Cancel_Inr job_Transition_Inr job_Claim_Inr job_CommitPage_Inr
      job_Coalesce_def job_terminal_def)

interpretation job_life: versioned job_step job_ok jb_Version "\<lambda>j. job_terminal (jb_State j)"
  by unfold_locales (auto intro: job_step_ok dest: job_step_version job_step_terminal)

lemma job_New_ok: "job_New i p kind unit tot c now = Inr j \<Longrightarrow> job_ok j"
  by (auto simp: job_New_def job_ok_def job_terminal_def progress_ok_def checkpoint_ok_def
      split: if_splits option.splits)

section \<open>Properties of histories\<close>

text \<open>
  C7: every history of a job keeps it well-formed, and a finished job stays as it is. From a job
  that \<open>New\<close> returned, after any sequence of transitions, cancellations, claims, page commits and
  coalesced requests, in any order and with any arguments, the job is well-formed; and once it is
  succeeded, failed or cancelled, no further operation changes anything in it.
\<close>

theorem job_history_invariant:
  assumes "job_New i p kind unit tot c now = Inr j"
  shows "job_ok (run_ops job_step j ops) \<and>
    (job_terminal (jb_State (run_ops job_step j ops)) \<longrightarrow>
      run_ops job_step j (ops @ later) = run_ops job_step j ops)"
proof -
  have ok: "job_ok (run_ops job_step j ops)"
    by (rule job_life.run_well_formed) (rule job_New_ok [OF assms])
  then show ?thesis by (simp add: job_life.run_append job_life.run_terminal)
qed

definition example_job :: Job where
  "example_job = projr (job_New 5 1 ''sync'' ''pages'' (Some 10) True (Time 0 UTC))"

lemma trim_samples [simp]:
  "trim_space ''sync'' = ''sync''" "trim_space ''pages'' = ''pages''" "trim_space ''w1'' = ''w1''"
  "trim_space ''w2'' = ''w2''"
  by code_simp+

lemma example_job_New: "job_New 5 1 ''sync'' ''pages'' (Some 10) True (Time 0 UTC) = Inr example_job"
  by (simp add: example_job_def job_New_def)

theorem job_history_invariant_witness:
  "job_ok (run_ops job_step example_job [JClaim ''w1'' (Time 5 UTC) 100, JCancel (Time 7 UTC)]) \<and>
   run_ops job_step example_job ([JClaim ''w1'' (Time 5 UTC) 100, JCancel (Time 7 UTC)] @ [JCoalesce]) =
   run_ops job_step example_job [JClaim ''w1'' (Time 5 UTC) 100, JCancel (Time 7 UTC)]"
proof -
  let ?ops = "[JClaim ''w1'' (Time 5 UTC) 100, JCancel (Time 7 UTC)]"
  have "jb_State (run_ops job_step example_job ?ops) = Cancelled"
    by (simp add: example_job_def job_New_def job_Claim_def job_Cancel_def job_Transition_moved
        job_terminal_def Let_def job_moved_def)
  then show ?thesis
    using job_history_invariant [OF example_job_New, of ?ops "[JCoalesce]"]
    by (simp add: job_terminal_def)
qed

text \<open>Progress and checkpoints never move back.\<close>

definition advanced :: "Job \<Rightarrow> Job \<Rightarrow> bool" where
  "advanced j j' \<longleftrightarrow> pg_Completed (jb_Progress j) \<le> pg_Completed (jb_Progress j') \<and>
     (\<forall>c. jb_Checkpoint j = Some c \<longrightarrow>
        (\<exists>c'. jb_Checkpoint j' = Some c' \<and> (c' = c \<or> cp_Version c < cp_Version c')))"

lemma advanced_trans: "advanced a b \<Longrightarrow> advanced b c \<Longrightarrow> advanced a c"
  by (fastforce simp: advanced_def)

lemma job_step_advanced: "job_step a j = Inr j' \<Longrightarrow> advanced j j'"
  by (cases a) (auto simp: job_Cancel_Inr job_Transition_Inr job_Claim_Inr job_CommitPage_Inr
      job_Coalesce_def job_committed_def advanced_def)

interpretation job_progress: preserving job_step "advanced j\<^sub>0"
  by unfold_locales (rule advanced_trans, assumption, rule job_step_advanced)

text \<open>
  a page that was committed is never lost. Over any sequence of operations on any job, the
  completed count never decreases, and a checkpoint is only ever replaced by one with a greater
  version; with the previous property this holds across crashes, re-claims and retries.
\<close>

theorem job_progress_monotone: "advanced j (run_ops job_step j ops)"
  by (rule job_progress.run_well_formed) (simp add: advanced_def)

text \<open>
  The lease. \<open>honest_until t h\<close> are the operations of other workers whose clocks have not reached
  \<open>t\<close>: claims by another holder before \<open>t\<close>, and everything that is not a claim.
\<close>

fun honest_until :: "gotime \<Rightarrow> string \<Rightarrow> job_op \<Rightarrow> bool" where
  "honest_until t h (JClaim holder now ttl) = (holder \<noteq> h \<and> nanos now < nanos t)"
| "honest_until t h _ = True"

definition leased_to :: "string \<Rightarrow> gotime \<Rightarrow> Job \<Rightarrow> bool" where
  "leased_to h t j \<longleftrightarrow> job_terminal (jb_State j) \<or>
     jb_State j = Running \<and> jb_LeaseHolder j = h \<and> jb_LeaseExpiresAt j = Some t"

definition honest_step :: "gotime \<Rightarrow> string \<Rightarrow> job_op \<Rightarrow> Job \<Rightarrow> job_error + Job" where
  "honest_step t h a j = (if honest_until t h a then job_step a j else Inl JobErrInvalid)"

lemma honest_step_leased:
  assumes "leased_to h t j" and "honest_step t h a j = Inr j'"
  shows "leased_to h t j'"
proof -
  from assms(2) have hon: "honest_until t h a" and step: "job_step a j = Inr j'"
    by (auto simp: honest_step_def split: if_splits)
  show ?thesis
  proof (cases "job_terminal (jb_State j)")
    case True
    with job_step_terminal [OF True step] show ?thesis by (simp add: leased_to_def)
  next
    case False
    with assms(1) have j: "jb_State j = Running" "jb_LeaseHolder j = h" "jb_LeaseExpiresAt j = Some t"
      by (auto simp: leased_to_def)
    show ?thesis
      using step hon j
      by (cases a) (auto simp: job_Cancel_Inr job_Transition_Inr job_Claim_Inr job_CommitPage_Inr
          job_Coalesce_def job_committed_def leased_to_def job_moved_def job_terminal_def)
  qed
qed

interpretation lease_kept: preserving "honest_step t h" "leased_to h t"
  by unfold_locales (rule honest_step_leased)

lemma claim_leases:
  "job_Claim j h now ttl = Inr j' \<Longrightarrow> job_ok j \<Longrightarrow> leased_to h (time_add (utc now) ttl) j'"
  by (auto simp: job_Claim_Inr leased_to_def job_moved_def job_leased_def job_terminal_def job_ok_def)

text \<open>
  C3: a lease excludes every other worker until it expires. After a successful claim by \<open>h\<close>, as
  long as the claims that other workers attempt carry times before the expiry, none of them gets
  the lease and no page of another holder is committed, whatever else happens to the job.
\<close>

theorem lease_excludes_others:
  assumes "job_ok j" and "job_Claim j h now ttl = Inr j'"
    and "list_all (honest_until (time_add (utc now) ttl) h) ops" and "h' \<noteq> h"
    and "before now' (time_add (utc now) ttl)"
  shows "job_CommitPage (run_ops job_step j' ops) h' n cp t = Inl JobErrConflict \<and>
    \<not> (\<exists>j''. job_Claim (run_ops job_step j' ops) h' now' ttl' = Inr j'')"
proof -
  let ?t = "time_add (utc now) ttl"
  have "run_ops job_step j' ops = run_ops (honest_step ?t h) j' ops"
    using assms(3) by (intro run_ops_cong) (auto simp: honest_step_def list_all_iff fun_eq_iff)
  then have l: "leased_to h ?t (run_ops job_step j' ops)"
    using lease_kept.run_well_formed [OF claim_leases [OF assms(2,1)]] by simp
  then have "job_CommitPage (run_ops job_step j' ops) h' n cp t = Inl JobErrConflict"
    using assms(4) by (auto simp: leased_to_def job_CommitPage_def job_terminal_def)
  moreover have "\<not> (\<exists>j''. job_Claim (run_ops job_step j' ops) h' now' ttl' = Inr j'')"
    using l assms(4,5) by (auto simp: leased_to_def job_Claim_Inr before_def)
  ultimately show ?thesis by blast
qed

definition example_claimed :: Job where
  "example_claimed = projr (job_Claim example_job ''w1'' (Time 5 UTC) 100)"

lemma example_claimed: "job_Claim example_job ''w1'' (Time 5 UTC) 100 = Inr example_claimed"
  by (simp add: example_claimed_def example_job_def job_New_def job_Claim_def job_Transition_moved
      job_terminal_def Let_def)

definition example_checkpoint :: Checkpoint where
  "example_checkpoint =
     \<lparr>cp_Scope = ''issues'', cp_Cursor = ''c'', cp_CoverageTo = Time 0 UTC, cp_Version = 1\<rparr>"

theorem lease_excludes_others_witness:
  "job_CommitPage (run_ops job_step example_claimed [JClaim ''w2'' (Time 50 UTC) 100]) ''w2'' 1
     example_checkpoint (Time 60 UTC) = Inl JobErrConflict \<and>
   \<not> (\<exists>j. job_Claim (run_ops job_step example_claimed [JClaim ''w2'' (Time 50 UTC) 100]) ''w2''
     (Time 60 UTC) 100 = Inr j)"
  by (rule lease_excludes_others [OF job_New_ok [OF example_job_New] example_claimed])
    (simp_all add: time_simps)

end
