(* ===== verification/Project.thy ===== *)
theory Project
  imports Go_Base Go_Float Go_Lifecycle
begin

text \<open>
  Package \<open>internal/project\<close>: projects with their repositories and sources and their lifecycle
  (\<open>project.go\<close>), history ranges, canonical repository URLs and slugs (\<open>rules.go\<close>).

  A method that returns a project together with the result of \<open>Validate\<close> returns the error alone
  when there is one, as its callers use it. \<open>time.Now()\<close> and the URL parser are arguments. The
  methods update the elements of the repository slice in place: what the caller's own value
  looks like after the call is modelled by \<open>caller_after_AddRepository\<close>. \<open>strings.EqualFold\<close> is
  equality of the ASCII lower cases.
\<close>

section \<open>Data\<close>

datatype project_error = ProjErrInvalid | ProjErrConflict | ProjErrVersionConflict
  | ProjErrPermissionDenied | ProjErrNotFound

datatype ProjectState = StateActive | StatePaused | StateArchived | StateDeleting | StateDeleted
  | ProjectStateOther string

datatype RepositoryRole = RolePrimary | RoleCore | RoleDocumentation | RoleExamples | RoleSDK
  | RoleOtherRepository | RepositoryRoleOther string

datatype SourceKind = SourceGitHub | SourceGitLab | SourceGitea | SourceGit | SourceNPM
  | SourceNuGet | SourcePyPI | SourceDocs | SourceWebsite | SourceChangelog | SourceRSS
  | SourceDiscussion | SourceAdvisory | SourceKindOther string

datatype SourceState = SourceAvailable | SourceUnavailable | SourcePaused | SourceRemoved
  | SourceStateOther string

record Repository =
  rp_ID :: int64
  rp_ProjectID :: int64
  rp_Provider :: string
  rp_CanonicalURL :: string
  rp_Role :: RepositoryRole
  rp_Version :: int64

record Source =
  so_ID :: int64
  so_ProjectID :: int64
  so_Kind :: SourceKind
  so_CanonicalURL :: string
  so_State :: SourceState
  so_Public :: bool
  so_CoverageFrom :: "gotime option"
  so_CoverageTo :: "gotime option"
  so_LastAttemptAt :: "gotime option"
  so_LastSuccessAt :: "gotime option"
  so_NextRunAt :: "gotime option"
  so_Failure :: string
  so_Version :: int64

record Project =
  pj_ID :: int64
  pj_WorkspaceID :: int64
  pj_Name :: string
  pj_Slug :: string
  pj_Description :: string
  pj_State :: ProjectState
  pj_Version :: int64
  pj_Repositories :: "Repository list"
  pj_Sources :: "Source list"
  pj_DeletedAt :: "gotime option"

definition validState :: "ProjectState \<Rightarrow> bool" where
  "validState state \<longleftrightarrow> state \<in> set [StateActive, StatePaused, StateArchived, StateDeleting, StateDeleted]"

definition project_validRole :: "RepositoryRole \<Rightarrow> bool" where
  "project_validRole role \<longleftrightarrow> role \<in> set [RolePrimary, RoleCore, RoleDocumentation, RoleExamples,
     RoleSDK, RoleOtherRepository]"

definition ValidSourceKind :: "SourceKind \<Rightarrow> bool" where
  "ValidSourceKind kind \<longleftrightarrow> kind \<in> set [SourceGitHub, SourceGitLab, SourceGitea, SourceGit, SourceNPM,
     SourceNuGet, SourcePyPI, SourceDocs, SourceWebsite, SourceChangelog, SourceRSS,
     SourceDiscussion, SourceAdvisory]"

section \<open>Projects and repositories\<close>

definition project_New ::
    "int64 \<Rightarrow> int64 \<Rightarrow> string \<Rightarrow> string \<Rightarrow> Repository \<Rightarrow> project_error + Project" where
  "project_New i workspaceID name slug primary =
     (if i \<le> 0 \<or> workspaceID \<le> 0 \<or> trim_space name = '''' \<or> trim_space slug = ''''
      then Inl ProjErrInvalid
      else if rp_ID primary \<le> 0 \<or> rp_ProjectID primary \<noteq> i \<or> rp_Role primary \<noteq> RolePrimary \<or>
         trim_space (rp_CanonicalURL primary) = ''''
      then Inl ProjErrInvalid
      else Inr \<lparr>pj_ID = i, pj_WorkspaceID = workspaceID, pj_Name = trim_space name,
        pj_Slug = trim_space slug, pj_Description = '''', pj_State = StateActive, pj_Version = 1,
        pj_Repositories = [primary\<lparr>rp_Version := max (rp_Version primary) 1\<rparr>], pj_Sources = [],
        pj_DeletedAt = None\<rparr>)"

definition malformed_repository :: "int64 \<Rightarrow> Repository \<Rightarrow> bool" where
  "malformed_repository pid r \<longleftrightarrow> rp_ID r \<le> 0 \<or> rp_ProjectID r \<noteq> pid \<or> \<not> project_validRole (rp_Role r) \<or>
     trim_space (rp_CanonicalURL r) = ''''"

text \<open>The loop of \<open>Validate\<close>: the URLs seen so far and the number of primaries.\<close>

fun check_repositories ::
    "int64 \<Rightarrow> string list \<Rightarrow> int \<Rightarrow> Repository list \<Rightarrow> project_error + int" where
  "check_repositories pid seen primary [] = Inr primary"
| "check_repositories pid seen primary (r # rs) =
     (if malformed_repository pid r then Inl ProjErrInvalid
      else let canonical = to_lower (rp_CanonicalURL r)
           in if canonical \<in> set seen then Inl ProjErrConflict
              else check_repositories pid (canonical # seen)
                     (if rp_Role r = RolePrimary then primary + 1 else primary) rs)"

definition project_Validate :: "Project \<Rightarrow> project_error option" where
  "project_Validate p =
     (if pj_ID p \<le> 0 \<or> pj_WorkspaceID p \<le> 0 \<or> trim_space (pj_Name p) = '''' \<or>
         trim_space (pj_Slug p) = '''' \<or> pj_Version p \<le> 0 \<or> \<not> validState (pj_State p)
      then Some ProjErrInvalid
      else (case check_repositories (pj_ID p) [] 0 (pj_Repositories p) of
          Inl e \<Rightarrow> Some e
        | Inr primary \<Rightarrow>
            if pj_State p \<noteq> StateDeleted \<and> primary \<noteq> 1 then Some ProjErrConflict else None))"

definition CanSynchronize :: "Project \<Rightarrow> project_error option" where
  "CanSynchronize p = (if pj_State p \<noteq> StateActive then Some ProjErrConflict else None)"

fun project_allowed :: "ProjectState \<Rightarrow> ProjectState list" where
  "project_allowed StateActive = [StatePaused, StateArchived, StateDeleting]"
| "project_allowed StatePaused = [StateActive, StateArchived, StateDeleting]"
| "project_allowed StateArchived = [StateActive, StatePaused, StateDeleting]"
| "project_allowed StateDeleting = [StateDeleted]"
| "project_allowed _ = []"

definition project_Transition ::
    "Project \<Rightarrow> ProjectState \<Rightarrow> int64 \<Rightarrow> bool \<Rightarrow> gotime \<Rightarrow> project_error + Project" where
  "project_Transition p to expectedVersion admin now =
     (if \<not> admin then Inl ProjErrPermissionDenied
      else if expectedVersion \<noteq> pj_Version p then Inl ProjErrVersionConflict
      else if pj_State p = to \<and> (to = StatePaused \<or> to = StateArchived) then Inr p
      else if to \<notin> set (project_allowed (pj_State p)) then Inl ProjErrConflict
      else
        let q = p\<lparr>pj_State := to, pj_Version := pj_Version p + 1\<rparr>
        in Inr (if to = StateDeleted
                then q\<lparr>pj_DeletedAt := Some (utc now), pj_Repositories := [], pj_Sources := []\<rparr>
                else q))"

definition read_only :: "Project \<Rightarrow> bool" where
  "read_only p \<longleftrightarrow> pj_State p = StateArchived \<or> pj_State p = StateDeleting \<or> pj_State p = StateDeleted"

definition demote :: "Repository \<Rightarrow> Repository" where
  "demote r = (if rp_Role r = RolePrimary
     then r\<lparr>rp_Role := RoleCore, rp_Version := rp_Version r + 1\<rparr> else r)"

definition validated :: "Project \<Rightarrow> project_error + Project" where
  "validated p = (case project_Validate p of None \<Rightarrow> Inr p | Some e \<Rightarrow> Inl e)"

definition AddRepository :: "Project \<Rightarrow> Repository \<Rightarrow> int \<Rightarrow> project_error + Project" where
  "AddRepository p repository limit =
     (if read_only p then Inl ProjErrConflict
      else if limit > 0 \<and> int (length (pj_Repositories p)) \<ge> limit then Inl ProjErrConflict
      else if malformed_repository (pj_ID p) repository then Inl ProjErrInvalid
      else if list_ex (\<lambda>c. to_lower (rp_CanonicalURL c) = to_lower (rp_CanonicalURL repository))
                (pj_Repositories p)
      then Inr p
      else
        let repos = (if rp_Role repository = RolePrimary then map demote (pj_Repositories p)
                     else pj_Repositories p)
        in validated (p\<lparr>pj_Repositories := repos @ [repository\<lparr>rp_Version := max (rp_Version repository) 1\<rparr>],
                      pj_Version := pj_Version p + 1\<rparr>))"

text \<open>
  The repositories that the caller's value shows after \<open>AddRepository\<close>: the slice shares its
  array with the receiver, so the demotions are visible in it, the appended element is not.
\<close>

definition caller_after_AddRepository :: "Project \<Rightarrow> Repository \<Rightarrow> int \<Rightarrow> Repository list" where
  "caller_after_AddRepository p repository limit =
     (if read_only p \<or> limit > 0 \<and> int (length (pj_Repositories p)) \<ge> limit \<or>
         malformed_repository (pj_ID p) repository \<or>
         list_ex (\<lambda>c. to_lower (rp_CanonicalURL c) = to_lower (rp_CanonicalURL repository))
           (pj_Repositories p)
      then pj_Repositories p
      else if rp_Role repository = RolePrimary then map demote (pj_Repositories p)
      else pj_Repositories p)"

fun index_of :: "('a \<Rightarrow> bool) \<Rightarrow> 'a list \<Rightarrow> nat option" where
  "index_of P [] = None"
| "index_of P (x # xs) = (if P x then Some 0 else map_option Suc (index_of P xs))"

definition ChangeRepositoryRole :: "Project \<Rightarrow> int64 \<Rightarrow> RepositoryRole \<Rightarrow> project_error + Project" where
  "ChangeRepositoryRole p repositoryID role =
     (if read_only p then Inl ProjErrConflict
      else if \<not> project_validRole role then Inl ProjErrInvalid
      else (case index_of (\<lambda>r. rp_ID r = repositoryID) (pj_Repositories p) of
          None \<Rightarrow> Inl ProjErrNotFound
        | Some index \<Rightarrow>
            if rp_Role (pj_Repositories p ! index) = role then Inr p
            else if role \<noteq> RolePrimary \<and> rp_Role (pj_Repositories p ! index) = RolePrimary
            then Inl ProjErrConflict
            else
              let repos = (if role = RolePrimary then map demote (pj_Repositories p)
                           else pj_Repositories p);
                  r = repos ! index
              in validated (p\<lparr>pj_Repositories :=
                     repos[index := r\<lparr>rp_Role := role, rp_Version := rp_Version r + 1\<rparr>],
                   pj_Version := pj_Version p + 1\<rparr>)))"

definition RemoveRepository :: "Project \<Rightarrow> int64 \<Rightarrow> project_error + Project" where
  "RemoveRepository p repositoryID =
     (if read_only p then Inl ProjErrConflict
      else (case index_of (\<lambda>r. rp_ID r = repositoryID) (pj_Repositories p) of
          None \<Rightarrow> Inr p
        | Some index \<Rightarrow>
            if rp_Role (pj_Repositories p ! index) = RolePrimary then Inl ProjErrConflict
            else validated (p\<lparr>pj_Repositories :=
                     take index (pj_Repositories p) @ drop (index + 1) (pj_Repositories p),
                   pj_Version := pj_Version p + 1\<rparr>)))"

section \<open>Associations and sources\<close>

datatype AssociationStatus = AssociationLinked | AssociationUnresolved | AssociationCorrected
  | AssociationStatusOther string

record Correction =
  co_Action :: string
  co_ProjectID :: int64
  co_Reason :: string
  co_ActorID :: int64
  co_At :: gotime

record Association =
  as_ID :: int64
  as_SourceID :: int64
  as_ProjectID :: int64
  as_Method :: string
  as_Confidence :: f64
  as_Evidence :: "int64 list"
  as_DecisionVersion :: string
  as_Status :: AssociationStatus
  as_Constraint :: "Correction option"
  as_Version :: int64

definition Correct :: "Association \<Rightarrow> Correction \<Rightarrow> project_error + (Association \<times> bool)" where
  "Correct a c =
     (if as_ID a \<le> 0 \<or> co_ActorID c \<le> 0 \<or> trim_space (co_Reason c) = '''' \<or>
         co_Action c \<notin> set [''split'', ''reassign'', ''confirm'']
      then Inl ProjErrInvalid
      else if co_Action c = ''reassign'' \<and> co_ProjectID c \<le> 0 then Inl ProjErrInvalid
      else if (case as_Constraint a of None \<Rightarrow> False
               | Some k \<Rightarrow> co_Action k = co_Action c \<and> co_ProjectID k = co_ProjectID c)
      then Inr (a, False)
      else
        let b = a\<lparr>as_Constraint := Some (c\<lparr>co_At := utc (co_At c)\<rparr>), as_Status := AssociationCorrected,
              as_Version := as_Version a + 1\<rparr>
        in Inr (if co_Action c = ''reassign'' then b\<lparr>as_ProjectID := co_ProjectID c\<rparr> else b, True))"

definition MarkUnavailable :: "Source \<Rightarrow> string \<Rightarrow> project_error + Source" where
  "MarkUnavailable source reason =
     (if trim_space reason = '''' then Inl ProjErrInvalid
      else Inr (source\<lparr>so_State := SourceUnavailable, so_Public := False, so_Failure := trim_space reason,
        so_NextRunAt := None, so_Version := so_Version source + 1\<rparr>))"

section \<open>Rules\<close>

definition DefaultHistoryDays :: int where
  "DefaultHistoryDays = 180"

record HistoryRange =
  hr_From :: gotime
  hr_To :: gotime

text \<open>\<open>day\<close>: the midnight (UTC) at or before an instant; days start at multiples of 24 hours.\<close>

definition day :: "gotime \<Rightarrow> gotime" where
  "day t = (if is_zero t then t else Time (nanos t div day_length * day_length) UTC)"

text \<open>
  \<open>int(to.Sub(from).Hours() / 24)\<close> is the whole number of days of the duration: for midnights the
  division is exact, and at the saturated maximum both give 106751.
\<close>

definition ValidateHistoryRange ::
    "gotime \<Rightarrow> gotime \<Rightarrow> gotime \<Rightarrow> int \<Rightarrow> project_error + HistoryRange" where
  "ValidateHistoryRange from0 to0 now0 maximumDays =
     (let frm = day from0; to = day to0; now = day now0 in
      if is_zero frm \<or> is_zero to \<or> \<not> before frm to \<or> after frm now then Inl ProjErrInvalid
      else if maximumDays > 0 \<and> time_sub to frm div day_length > maximumDays then Inl ProjErrInvalid
      else Inr \<lparr>hr_From = frm,
        hr_To = (if after to (add_days now 1) then add_days now 1 else to)\<rparr>)"

definition InitialHistoryRange :: "gotime \<Rightarrow> int \<Rightarrow> HistoryRange" where
  "InitialHistoryRange now days0 =
     (let days = (if days0 \<le> 0 then DefaultHistoryDays else days0);
          to = add_days (day now) 1
      in \<lparr>hr_From = add_days to (- days), hr_To = to\<rparr>)"

text \<open>The parts of a parsed URL that the rules look at.\<close>

record request_uri =
  ru_Scheme :: string
  ru_HasUser :: bool
  ru_RawQuery :: string
  ru_Fragment :: string
  ru_Hostname :: string
  ru_Port :: string
  ru_Path :: string

definition trim_suffix :: "string \<Rightarrow> string \<Rightarrow> string" where
  "trim_suffix s suf = (if suffix suf s then take (length s - length suf) s else s)"

definition trim_char :: "char \<Rightarrow> string \<Rightarrow> string" where
  "trim_char c s = rev (dropWhile (\<lambda>x. x = c) (rev (dropWhile (\<lambda>x. x = c) s)))"

record canonical_repository =
  cr_Provider :: string
  cr_Owner :: string
  cr_Name :: string
  cr_Canonical :: string

definition CanonicalRepositoryURL ::
    "(string \<Rightarrow> request_uri option) \<Rightarrow> string \<Rightarrow> project_error + canonical_repository" where
  "CanonicalRepositoryURL parse raw =
     (case parse (trim_space raw) of
        None \<Rightarrow> Inl ProjErrInvalid
      | Some parsed \<Rightarrow>
          if ru_Scheme parsed \<noteq> ''https'' \<or> ru_HasUser parsed \<or> ru_RawQuery parsed \<noteq> '''' \<or>
             ru_Fragment parsed \<noteq> ''''
          then Inl ProjErrInvalid
          else
            let host = to_lower (ru_Hostname parsed) in
            if ru_Port parsed \<noteq> '''' \<and> ru_Port parsed \<noteq> ''443'' then Inl ProjErrInvalid
            else if host \<noteq> ''github.com'' \<and> host \<noteq> ''gitlab.com'' then Inl ProjErrInvalid
            else
              let provider = (if host = ''github.com'' then ''github'' else ''gitlab'');
                  parts = split_on CHR ''/'' (trim_char CHR ''/'' (trim_suffix (ru_Path parsed) ''.git''))
              in (case parts of
                   [a, b] \<Rightarrow>
                     if a = '''' \<or> b = '''' then Inl ProjErrInvalid
                     else Inr \<lparr>cr_Provider = provider, cr_Owner = to_lower a, cr_Name = to_lower b,
                       cr_Canonical = ''https://'' @ host @ ''/'' @ to_lower a @ ''/'' @ to_lower b\<rparr>
                 | _ \<Rightarrow> Inl ProjErrInvalid))"

text \<open>\<open>slugPattern\<close>: \<open>^[a-z0-9]+(?:-[a-z0-9]+)*$\<close>, non-empty words of letters and digits joined by dashes.\<close>

definition slug_char :: "char \<Rightarrow> bool" where
  "slug_char c \<longleftrightarrow> (let n = (of_char c :: nat) in 97 \<le> n \<and> n \<le> 122 \<or> 48 \<le> n \<and> n \<le> 57)"

definition slugPattern :: "string \<Rightarrow> bool" where
  "slugPattern s \<longleftrightarrow> list_all (\<lambda>w. w \<noteq> [] \<and> list_all slug_char w) (split_on CHR ''-'' s)"

definition Slug :: "string \<Rightarrow> project_error + string" where
  "Slug val =
     (let slug = trim_char CHR ''-''
            (to_lower (map (\<lambda>c. if c = CHR '' '' then CHR ''-'' else c) (trim_space val)))
      in if length slug = 0 \<or> length slug > 100 \<or> \<not> slugPattern slug then Inl ProjErrInvalid
         else Inr slug)"

section \<open>Validity is an invariant\<close>

definition primaries :: "Repository list \<Rightarrow> int" where
  "primaries rs = int (length (filter (\<lambda>r. rp_Role r = RolePrimary) rs))"

lemma primaries_simps [simp]:
  "primaries [] = 0"
  "primaries (r # rs) = (if rp_Role r = RolePrimary then 1 else 0) + primaries rs"
  "primaries (rs @ rs') = primaries rs + primaries rs'"
  by (simp_all add: primaries_def)

definition canonical :: "Repository \<Rightarrow> string" where
  "canonical r = to_lower (rp_CanonicalURL r)"

lemma check_repositories_Inr:
  "check_repositories pid seen n rs = Inr k \<longleftrightarrow>
     list_all (\<lambda>r. \<not> malformed_repository pid r) rs \<and> distinct (map canonical rs) \<and>
     canonical ` set rs \<inter> set seen = {} \<and> k = n + primaries rs"
  by (induction rs arbitrary: seen n) (auto simp: Let_def canonical_def)

lemma project_Validate_None:
  "project_Validate p = None \<longleftrightarrow>
     0 < pj_ID p \<and> 0 < pj_WorkspaceID p \<and> trim_space (pj_Name p) \<noteq> '''' \<and> trim_space (pj_Slug p) \<noteq> '''' \<and>
     0 < pj_Version p \<and> validState (pj_State p) \<and>
     list_all (\<lambda>r. \<not> malformed_repository (pj_ID p) r) (pj_Repositories p) \<and>
     distinct (map canonical (pj_Repositories p)) \<and>
     (pj_State p \<noteq> StateDeleted \<longrightarrow> primaries (pj_Repositories p) = 1)"
proof (cases "check_repositories (pj_ID p) [] 0 (pj_Repositories p)")
  case (Inl e)
  then have "\<not> (\<exists>k. check_repositories (pj_ID p) [] 0 (pj_Repositories p) = Inr k)" by simp
  then show ?thesis
    unfolding check_repositories_Inr by (auto simp: project_Validate_def Inl)
next
  case (Inr k)
  then show ?thesis
    using check_repositories_Inr [of "pj_ID p" "[]" 0 "pj_Repositories p" k]
    by (auto simp: project_Validate_def)
qed

lemma validated_Inr: "validated p = Inr q \<longleftrightarrow> q = p \<and> project_Validate p = None"
  by (auto simp: validated_def split: option.splits)

lemma validated_valid: "project_Validate p = None \<Longrightarrow> validated p = Inr p"
  by (simp add: validated_def)

lemma demote_simps [simp]:
  "rp_Role (demote r) \<noteq> RolePrimary" "canonical (demote r) = canonical r"
  "malformed_repository pid (demote r) \<longleftrightarrow> malformed_repository pid r"
  by (auto simp: demote_def canonical_def malformed_repository_def project_validRole_def)

lemma primaries_demote [simp]: "primaries (map demote rs) = 0"
  by (induction rs) auto

lemma canonical_demote_comp [simp]: "canonical \<circ> demote = canonical"
  by (simp add: fun_eq_iff)

lemma version_irrelevant [simp]:
  "canonical (r\<lparr>rp_Version := v\<rparr>) = canonical r"
  "malformed_repository pid (r\<lparr>rp_Version := v\<rparr>) \<longleftrightarrow> malformed_repository pid r"
  by (simp_all add: canonical_def malformed_repository_def)

lemma index_of_Some: "index_of P xs = Some i \<Longrightarrow> i < length xs \<and> P (xs ! i)"
  by (induction xs arbitrary: i) (auto split: if_splits)

lemma primaries_update:
  "i < length rs \<Longrightarrow> primaries (rs[i := r]) =
     primaries rs - (if rp_Role (rs ! i) = RolePrimary then 1 else 0) +
       (if rp_Role r = RolePrimary then 1 else 0)"
  by (induction rs arbitrary: i) (auto split: nat.splits)

lemma primaries_remove:
  "i < length rs \<Longrightarrow> primaries (take i rs @ drop (Suc i) rs) =
     primaries rs - (if rp_Role (rs ! i) = RolePrimary then 1 else 0)"
  using arg_cong [OF id_take_nth_drop [of i rs], of primaries] by simp

text \<open>
  On a valid project the final \<open>Validate\<close> of an edit never fails: the value it checks is valid.
\<close>

lemma add_repository_valid:
  assumes "project_Validate p = None" and "\<not> read_only p"
    and "\<not> malformed_repository (pj_ID p) r"
    and "\<not> list_ex (\<lambda>c. to_lower (rp_CanonicalURL c) = to_lower (rp_CanonicalURL r)) (pj_Repositories p)"
  shows "project_Validate (p\<lparr>pj_Repositories :=
      (if rp_Role r = RolePrimary then map demote (pj_Repositories p) else pj_Repositories p) @
        [r\<lparr>rp_Version := max (rp_Version r) 1\<rparr>], pj_Version := pj_Version p + 1\<rparr>) = None"
proof -
  have new: "canonical r \<notin> canonical ` set (pj_Repositories p)"
    using assms(4) by (auto simp: list_ex_iff canonical_def)
  have st: "pj_State p \<noteq> StateDeleted" using assms(2) by (auto simp: read_only_def)
  show ?thesis
    using assms(1,3) new st
    by (auto simp: project_Validate_None list_all_iff)
qed

lemma change_role_valid:
  assumes "project_Validate p = None" and "\<not> read_only p" and "project_validRole role"
    and "i < length (pj_Repositories p)"
    and "\<not> (role \<noteq> RolePrimary \<and> rp_Role (pj_Repositories p ! i) = RolePrimary)"
    and "repos = (if role = RolePrimary then map demote (pj_Repositories p) else pj_Repositories p)"
  shows "project_Validate (p\<lparr>pj_Repositories :=
      repos[i := (repos ! i)\<lparr>rp_Role := role, rp_Version := rp_Version (repos ! i) + 1\<rparr>],
      pj_Version := pj_Version p + 1\<rparr>) = None"
proof -
  let ?r = "(repos ! i)\<lparr>rp_Role := role, rp_Version := rp_Version (repos ! i) + 1\<rparr>"
  have len: "i < length repos" and st: "pj_State p \<noteq> StateDeleted"
    using assms(2,4,6) by (auto simp: read_only_def)
  have good: "list_all (\<lambda>r. \<not> malformed_repository (pj_ID p) r) repos"
    and can: "map canonical repos = map canonical (pj_Repositories p)"
    using assms(1,6) by (auto simp: project_Validate_None list_all_iff)
  have "\<not> malformed_repository (pj_ID p) (repos ! i)" using good len by (simp add: list_all_length)
  then have "\<not> malformed_repository (pj_ID p) ?r" using assms(3) by (simp add: malformed_repository_def)
  then have good': "list_all (\<lambda>r. \<not> malformed_repository (pj_ID p) r) (repos[i := ?r])"
    using good by (auto simp: list_all_iff dest!: set_update_subset_insert [THEN subsetD])
  have can': "map canonical (repos[i := ?r]) = map canonical (pj_Repositories p)"
    using len by (simp add: map_update canonical_def can [symmetric] list_update_same_conv)
  have "primaries (repos[i := ?r]) = 1"
    using assms(1,5,6) len st by (auto simp: primaries_update project_Validate_None)
  with assms(1) good' can' show ?thesis by (simp add: project_Validate_None)
qed

lemma remove_repository_valid:
  assumes "project_Validate p = None" and "i < length (pj_Repositories p)"
    and "rp_Role (pj_Repositories p ! i) \<noteq> RolePrimary"
  shows "project_Validate (p\<lparr>pj_Repositories :=
      take i (pj_Repositories p) @ drop (i + 1) (pj_Repositories p), pj_Version := pj_Version p + 1\<rparr>) = None"
proof -
  let ?rs = "take i (pj_Repositories p) @ drop (Suc i) (pj_Repositories p)"
  have sub: "set ?rs \<subseteq> set (pj_Repositories p)"
    by (auto dest: in_set_takeD in_set_dropD)
  have "distinct (map canonical (take i (pj_Repositories p) @ pj_Repositories p ! i # drop (Suc i) (pj_Repositories p)))"
    using assms(1,2) by (simp add: project_Validate_None flip: id_take_nth_drop)
  then have "distinct (map canonical ?rs)" by simp
  with assms sub show ?thesis
    by (auto simp: project_Validate_None list_all_iff primaries_remove simp del: primaries_simps(3))
qed

datatype project_op =
    PTransition ProjectState int64 bool gotime
  | PAddRepository Repository int
  | PChangeRepositoryRole int64 RepositoryRole
  | PRemoveRepository int64

fun project_step :: "project_op \<Rightarrow> Project \<Rightarrow> project_error + Project" where
  "project_step (PTransition to ver admin now) p = project_Transition p to ver admin now"
| "project_step (PAddRepository r limit) p = AddRepository p r limit"
| "project_step (PChangeRepositoryRole rid role) p = ChangeRepositoryRole p rid role"
| "project_step (PRemoveRepository rid) p = RemoveRepository p rid"

lemma project_Transition_valid:
  assumes "project_Transition p to ver admin now = Inr q" and "project_Validate p = None"
  shows "project_Validate q = None"
proof -
  have nd: "pj_State p \<noteq> StateDeleted" if "to \<in> set (project_allowed (pj_State p))"
    using that by (cases "pj_State p") auto
  have vs: "validState to" if "to \<in> set (project_allowed (pj_State p))"
    using that by (cases "pj_State p") (auto simp: validState_def)
  show ?thesis
    using assms nd vs
    by (auto simp: project_Transition_def Let_def project_Validate_None split: if_splits)
qed

lemma project_step_valid:
  assumes "project_Validate p = None" and "project_step a p = Inr q"
  shows "project_Validate q = None"
  using assms project_Transition_valid [OF _ assms(1)]
  by (cases a) (auto simp: AddRepository_def ChangeRepositoryRole_def RemoveRepository_def Let_def
      validated_Inr split: if_splits option.splits)

lemma project_step_version: "project_step a p = Inr q \<Longrightarrow> q = p \<or> pj_Version p < pj_Version q"
  by (cases a) (auto simp: project_Transition_def AddRepository_def ChangeRepositoryRole_def
      RemoveRepository_def Let_def validated_Inr split: if_splits option.splits)

lemma project_step_deleted: "pj_State p = StateDeleted \<Longrightarrow> project_step a p = Inr q \<Longrightarrow> q = p"
  by (cases a) (auto simp: project_Transition_def AddRepository_def ChangeRepositoryRole_def
      RemoveRepository_def read_only_def split: if_splits)

interpretation project_life: versioned project_step "\<lambda>p. project_Validate p = None" pj_Version
    "\<lambda>p. pj_State p = StateDeleted"
  by unfold_locales (auto intro: project_step_valid dest: project_step_version project_step_deleted)

lemma project_New_valid: "project_New i w name slug r = Inr p \<Longrightarrow> project_Validate p = None"
  by (auto simp: project_New_def project_Validate_None validState_def malformed_repository_def
      project_validRole_def split: if_splits)

section \<open>Properties of projects\<close>

text \<open>
  C4: every history of a project keeps it valid, and deletion is final. From a project that \<open>New\<close>
  accepted, after any sequence of transitions and repository edits with any arguments, \<open>Validate\<close>
  accepts the project: in particular it has exactly one primary repository until it is deleted
  and no two repositories with the same canonical URL; and a deleted project never changes again.
\<close>

theorem project_history_valid:
  assumes "project_New i w name slug r = Inr p"
  shows "project_Validate (run_ops project_step p ops) = None \<and>
    (pj_State (run_ops project_step p ops) = StateDeleted \<longrightarrow>
       run_ops project_step p (ops @ later) = run_ops project_step p ops) \<and>
    (pj_State (run_ops project_step p ops) \<noteq> StateDeleted \<longrightarrow>
       primaries (pj_Repositories (run_ops project_step p ops)) = 1)"
proof -
  have ok: "project_Validate (run_ops project_step p ops) = None"
    by (rule project_life.run_well_formed) (rule project_New_valid [OF assms])
  then show ?thesis
    by (simp add: project_life.run_append project_life.run_terminal) (simp add: project_Validate_None)
qed

definition example_repository :: Repository where
  "example_repository = \<lparr>rp_ID = 3, rp_ProjectID = 9, rp_Provider = ''github'',
     rp_CanonicalURL = ''https://github.com/o/r'', rp_Role = RolePrimary, rp_Version = 0\<rparr>"

definition example_project :: Project where
  "example_project = projr (project_New 9 1 ''demo'' ''demo'' example_repository)"

lemma trim_samples_project [simp]:
  "trim_space ''demo'' = ''demo''" "trim_space ''https://github.com/o/r'' = ''https://github.com/o/r''"
  "trim_space ''https://github.com/o/s'' = ''https://github.com/o/s''"
  by code_simp+

lemma example_project_New:
  "project_New 9 1 ''demo'' ''demo'' example_repository = Inr example_project"
  by (simp add: example_project_def project_New_def example_repository_def)

theorem project_history_valid_witness:
  "project_Validate (run_ops project_step example_project [PTransition StatePaused 1 True (Time 1 UTC)]) = None"
  using project_history_valid [OF example_project_New] by blast

lemma single_primary:
  assumes "primaries rs = 1" and "i < length rs" and "rp_Role (rs ! i) = RolePrimary"
  shows "\<forall>j < length rs. rp_Role (rs ! j) = RolePrimary \<longleftrightarrow> j = i"
proof (rule ccontr)
  let ?S = "{k. k < length rs \<and> rp_Role (rs ! k) = RolePrimary}"
  assume "\<not> ?thesis"
  then obtain j where j: "j \<in> ?S" "j \<noteq> i" using assms(3) by auto
  then have "{i, j} \<subseteq> ?S" using assms(2,3) by auto
  then have "card {i, j} \<le> card ?S" by (intro card_mono) auto
  with j(2) assms(1) show False by (simp add: primaries_def length_filter_conv_card)
qed

text \<open>
  promoting a repository makes it the only primary. When \<open>ChangeRepositoryRole\<close> to primary
  succeeds on a valid project, the result is valid, has the same repositories by identifier and
  URL in the same order, and the repository it was asked for is the one with the primary role.
\<close>

theorem promote_repository_unique_primary:
  assumes "project_Validate p = None" and "ChangeRepositoryRole p rid RolePrimary = Inr q"
  shows "project_Validate q = None \<and>
    map (\<lambda>r. (rp_ID r, rp_CanonicalURL r)) (pj_Repositories q) =
      map (\<lambda>r. (rp_ID r, rp_CanonicalURL r)) (pj_Repositories p) \<and>
    (\<exists>i < length (pj_Repositories q). rp_ID (pj_Repositories q ! i) = rid \<and>
       (\<forall>j < length (pj_Repositories q). rp_Role (pj_Repositories q ! j) = RolePrimary \<longleftrightarrow> j = i))"
proof -
  have q: "project_Validate q = None"
    using project_step_valid [of p "PChangeRepositoryRole rid RolePrimary" q] assms by simp
  obtain i where i: "index_of (\<lambda>r. rp_ID r = rid) (pj_Repositories p) = Some i" and nd: "\<not> read_only p"
    using assms(2) by (auto simp: ChangeRepositoryRole_def split: if_splits option.splits)
  then have len: "i < length (pj_Repositories p)" and rid: "rp_ID (pj_Repositories p ! i) = rid"
    by (auto dest: index_of_Some)
  let ?d = "map demote (pj_Repositories p)"
  let ?r = "(?d ! i)\<lparr>rp_Role := RolePrimary, rp_Version := rp_Version (?d ! i) + 1\<rparr>"
  consider (same) "rp_Role (pj_Repositories p ! i) = RolePrimary" "q = p"
    | (new) "pj_Repositories q = ?d[i := ?r]"
    using assms(2) i nd
    by (auto simp: ChangeRepositoryRole_def validated_Inr Let_def split: if_splits)
  then show ?thesis
  proof cases
    case same
    have one: "primaries (pj_Repositories p) = 1"
      using assms(1) nd by (auto simp: project_Validate_None read_only_def)
    show ?thesis
      unfolding same(2) using q single_primary [OF one len same(1)] len rid same
      by (intro conjI exI [of _ i]) simp_all
  next
    case new
    have ids: "rp_ID (demote x) = rp_ID x" "rp_CanonicalURL (demote x) = rp_CanonicalURL x" for x
      by (simp_all add: demote_def)
    have "map (\<lambda>r. (rp_ID r, rp_CanonicalURL r)) (?d[i := ?r]) =
        map (\<lambda>r. (rp_ID r, rp_CanonicalURL r)) (pj_Repositories p)"
      using len by (intro nth_equalityI) (auto simp: nth_list_update ids)
    moreover have "\<forall>j < length ?d. rp_Role (?d[i := ?r] ! j) = RolePrimary \<longleftrightarrow> j = i"
      using len by (auto simp: nth_list_update)
    moreover have "rp_ID (?d[i := ?r] ! i) = rid" using len rid ids by simp
    ultimately show ?thesis
      unfolding new using q len by (intro conjI exI [of _ i]) simp_all
  qed
qed

definition example_two :: Project where
  "example_two = example_project\<lparr>pj_Repositories := [example_repository, example_repository\<lparr>rp_ID := 4,
     rp_CanonicalURL := ''https://github.com/o/s'', rp_Role := RoleCore\<rparr>]\<rparr>"

lemma example_two_valid: "project_Validate example_two = None"
proof -
  have "to_lower ''https://github.com/o/r'' \<noteq> to_lower ''https://github.com/o/s''" by code_simp
  then show ?thesis
    by (simp add: project_Validate_None example_two_def example_project_def project_New_def
        example_repository_def validState_def malformed_repository_def project_validRole_def canonical_def)
qed

definition example_promoted :: Project where
  "example_promoted = projr (ChangeRepositoryRole example_two 4 RolePrimary)"

lemma example_promoted: "ChangeRepositoryRole example_two 4 RolePrimary = Inr example_promoted"
proof -
  have "read_only example_two = False" "index_of (\<lambda>r. rp_ID r = 4) (pj_Repositories example_two) = Some 1"
      "rp_Role (pj_Repositories example_two ! 1) = RoleCore"
    by (simp_all add: read_only_def example_two_def example_project_def project_New_def
        example_repository_def)
  then show ?thesis
    using change_role_valid [OF example_two_valid, of RolePrimary 1]
    by (simp add: example_promoted_def ChangeRepositoryRole_def project_validRole_def Let_def
        validated_valid example_two_def)
qed

theorem promote_repository_unique_primary_witness:
  "project_Validate example_promoted = None"
  using promote_repository_unique_primary [OF example_two_valid example_promoted] by blast

text \<open>
  a repository edit of a valid project fails only on its guards. On a valid project that is
  not read-only, adding a well-formed repository within the limit always succeeds; the result is
  valid, and when the URL is new it has one repository more, which is the only primary if it was
  added as primary.
\<close>

theorem add_repository_succeeds:
  assumes "project_Validate p = None" and "\<not> read_only p" and "\<not> malformed_repository (pj_ID p) r"
    and "limit \<le> 0 \<or> int (length (pj_Repositories p)) < limit"
  shows "\<exists>q. AddRepository p r limit = Inr q \<and> project_Validate q = None \<and>
    (canonical r \<in> canonical ` set (pj_Repositories p) \<longrightarrow> q = p) \<and>
    (canonical r \<notin> canonical ` set (pj_Repositories p) \<longrightarrow>
       pj_Version q = pj_Version p + 1 \<and>
       length (pj_Repositories q) = Suc (length (pj_Repositories p)) \<and>
       canonical (last (pj_Repositories q)) = canonical r \<and>
       (rp_Role r = RolePrimary \<longrightarrow>
          (\<forall>x \<in> set (butlast (pj_Repositories q)). rp_Role x \<noteq> RolePrimary)))"
proof (cases "list_ex (\<lambda>c. to_lower (rp_CanonicalURL c) = to_lower (rp_CanonicalURL r)) (pj_Repositories p)")
  case True
  then have "canonical r \<in> canonical ` set (pj_Repositories p)"
    by (auto simp: list_ex_iff canonical_def intro: rev_image_eqI)
  with True assms show ?thesis by (auto simp: AddRepository_def)
next
  case False
  then have "canonical r \<notin> canonical ` set (pj_Repositories p)"
    by (auto simp: list_ex_iff canonical_def)
  with False assms add_repository_valid [OF assms(1-3) False] show ?thesis
    by (auto simp: AddRepository_def Let_def validated_valid)
qed

theorem add_repository_succeeds_witness:
  "\<exists>q. AddRepository example_project (example_repository\<lparr>rp_ID := 4,
      rp_CanonicalURL := ''https://github.com/o/s''\<rparr>) 5 = Inr q \<and> project_Validate q = None"
  using add_repository_succeeds [OF project_New_valid [OF example_project_New], of
      "example_repository\<lparr>rp_ID := 4, rp_CanonicalURL := ''https://github.com/o/s''\<rparr>" 5]
  by (auto simp: example_project_def project_New_def example_repository_def read_only_def
      malformed_repository_def project_validRole_def)

text \<open>
  The slice shared with the caller: after a primary was added, the caller's own value has lost
  its primary, so it is not a valid project any more.
\<close>

lemma add_repository_invalidates_caller:
  assumes "project_Validate p = None" and "\<not> read_only p" and "\<not> malformed_repository (pj_ID p) r"
    and "limit \<le> 0" and "rp_Role r = RolePrimary"
    and "canonical r \<notin> canonical ` set (pj_Repositories p)"
  shows "project_Validate (p\<lparr>pj_Repositories := caller_after_AddRepository p r limit\<rparr>) \<noteq> None"
proof -
  have "\<not> list_ex (\<lambda>c. to_lower (rp_CanonicalURL c) = to_lower (rp_CanonicalURL r)) (pj_Repositories p)"
    using assms(6) by (auto simp: list_ex_iff canonical_def image_iff)
  with assms have "caller_after_AddRepository p r limit = map demote (pj_Repositories p)"
    by (simp add: caller_after_AddRepository_def)
  with assms(2) show ?thesis by (auto simp: project_Validate_None read_only_def)
qed

section \<open>Properties of the rules\<close>

lemma day_aligned: "day_length dvd nanos (day t)"
  by (auto simp: day_def is_zero_def)

lemma day_le: "nanos (day t) \<le> nanos t"
proof (cases "is_zero t")
  case False
  have "nanos t div day_length * day_length = nanos t - nanos t mod day_length"
    by (simp add: minus_mod_eq_div_mult)
  moreover have "0 \<le> nanos t mod day_length" by (simp add: day_length_def)
  ultimately show ?thesis using False by (simp add: day_def)
qed (simp add: day_def)

lemma time_sub_days:
  assumes "nanos a < nanos b" and "time_sub b a div day_length \<le> m" and "m < 106751"
    and "day_length dvd nanos a" and "day_length dvd nanos b"
  shows "nanos b - nanos a \<le> m * day_length"
proof -
  from assms(4,5) obtain k where k: "nanos b - nanos a = day_length * k"
    by (metis dvd_def dvd_diff)
  have "nanos b - nanos a \<le> max_int64"
  proof (rule ccontr)
    assume "\<not> nanos b - nanos a \<le> max_int64"
    then have "time_sub b a = max_int64" by (simp add: time_sub_def max_int64_def min_int64_def)
    with assms(2,3) show False by (simp add: max_int64_def day_length_def)
  qed
  with assms(1) have "time_sub b a = nanos b - nanos a"
    by (simp add: time_sub_def min_int64_def)
  with assms(2) k have "k \<le> m" by (simp add: day_length_def)
  then show ?thesis unfolding k by (simp add: day_length_def)
qed

text \<open>
  an accepted history range is a non-empty range of whole days that starts no later than
  today, ends no later than the end of today, and is not longer than the maximum, for maxima
  below the 106751 days (292 years) at which a \<open>time.Duration\<close> saturates.
\<close>

theorem history_range_bounds:
  assumes "ValidateHistoryRange frm to now m = Inr h"
  shows "before (hr_From h) (hr_To h) \<and> day_length dvd nanos (hr_From h) \<and>
    day_length dvd nanos (hr_To h) \<and> \<not> after (hr_From h) now \<and>
    \<not> after (hr_To h) (add_days (day now) 1) \<and>
    (0 < m \<and> m < 106751 \<longrightarrow> nanos (hr_To h) - nanos (hr_From h) \<le> m * day_length)"
proof -
  from assms have ord: "nanos (day frm) < nanos (day to)" "nanos (day frm) \<le> nanos (day now)"
    and len: "0 < m \<Longrightarrow> time_sub (day to) (day frm) div day_length \<le> m"
    and h: "hr_From h = day frm"
      "hr_To h = (if after (day to) (add_days (day now) 1) then add_days (day now) 1 else day to)"
    by (auto simp: ValidateHistoryRange_def Let_def before_def after_def split: if_splits)
  have le: "nanos (hr_To h) \<le> nanos (day to)" "nanos (hr_To h) \<le> nanos (add_days (day now) 1)"
    by (auto simp: h after_def)
  have gt: "nanos (day frm) < nanos (hr_To h)"
    using ord by (auto simp: h add_days_def day_length_def)
  have al: "day_length dvd nanos (hr_To h)"
    using day_aligned by (auto simp: h add_days_def)
  have bound: "nanos (hr_To h) - nanos (hr_From h) \<le> m * day_length" if "0 < m" "m < 106751"
    using time_sub_days [OF ord(1) len [OF that(1)] that(2) day_aligned day_aligned] le(1)
    by (simp add: h(1))
  have "nanos (day frm) \<le> nanos now" using ord(2) day_le [of now] by simp
  then show ?thesis
    using gt al le(2) bound day_aligned by (simp add: h(1) before_def after_def not_less)
qed

theorem history_range_bounds_witness:
  "before (Time (3 * day_length) UTC) (Time (6 * day_length) UTC) \<and>
   nanos (Time (6 * day_length) UTC) - nanos (Time (3 * day_length) UTC) \<le> 10 * day_length"
proof -
  have "ValidateHistoryRange (Time (3 * day_length + 5) UTC) (Time (9 * day_length) UTC)
      (Time (5 * day_length + 7) UTC) 10 =
      Inr \<lparr>hr_From = Time (3 * day_length) UTC, hr_To = Time (6 * day_length) UTC\<rparr>"
    by (simp add: ValidateHistoryRange_def day_def is_zero_def before_def after_def add_days_def
        time_sub_def day_length_def max_int64_def min_int64_def Let_def)
  from history_range_bounds [OF this] show ?thesis by simp
qed

lemma slugPattern_chars: "slugPattern s \<Longrightarrow> c \<in> set s \<Longrightarrow> c = CHR ''-'' \<or> slug_char c"
  using split_on_chars [of c s "CHR ''-''"] by (auto simp: slugPattern_def list_all_iff)

lemma slugPattern_ends:
  assumes "slugPattern s"
  shows "s \<noteq> []" "hd s \<noteq> CHR ''-''" "last s \<noteq> CHR ''-''"
proof -
  show ne: "s \<noteq> []" using assms by (auto simp: slugPattern_def)
  show "hd s \<noteq> CHR ''-''" using assms ne by (cases s) (auto simp: slugPattern_def)
  show "last s \<noteq> CHR ''-''"
  proof
    assume "last s = CHR ''-''"
    with ne obtain t where "s = t @ [CHR ''-'']" by (metis append_butlast_last_id)
    with assms show False by (simp add: slugPattern_def split_on_snoc)
  qed
qed

lemma trim_char_id: "s \<noteq> [] \<Longrightarrow> hd s \<noteq> c \<Longrightarrow> last s \<noteq> c \<Longrightarrow> trim_char c s = s"
proof -
  assume a: "s \<noteq> []" "hd s \<noteq> c" "last s \<noteq> c"
  have "dropWhile (\<lambda>x. x = c) s = s" using a by (cases s) auto
  moreover have "dropWhile (\<lambda>x. x = c) (rev s) = rev s"
    using a by (cases s rule: rev_cases) auto
  ultimately show ?thesis by (simp add: trim_char_def)
qed

text \<open>
  slugs are normal forms. A slug that \<open>Slug\<close> returns has between 1 and 100 characters, matches
  the pattern, and is returned unchanged when it is given to \<open>Slug\<close> again.
\<close>

theorem slug_normal_form:
  assumes "Slug v = Inr s"
  shows "Slug s = Inr s \<and> slugPattern s \<and> 0 < length s \<and> length s \<le> 100"
proof -
  from assms have s: "slugPattern s" "0 < length s" "length s \<le> 100"
    by (auto simp: Slug_def Let_def split: if_splits)
  have chars: "graphic c \<and> lower_char c = c \<and> c \<noteq> CHR '' ''" if "c \<in> set s" for c
    using slugPattern_chars [OF s(1) that] by (auto simp: slug_char_def graphic_def lower_char_def Let_def)
  have "trim_space s = s" by (rule trim_space_graphic) (simp add: list_all_iff chars)
  moreover have "map (\<lambda>c. if c = CHR '' '' then CHR ''-'' else c) s = s" "to_lower s = s"
    using chars by (auto simp: to_lower_def intro!: map_idI)
  moreover have "trim_char CHR ''-'' s = s"
    using slugPattern_ends [OF s(1)] by (intro trim_char_id)
  ultimately have "Slug s = Inr s" using s by (simp add: Slug_def)
  with s show ?thesis by simp
qed

theorem slug_normal_form_witness: "Slug ''my-project-2'' = Inr ''my-project-2''"
proof -
  have "Slug '' My Project-2'' = Inr ''my-project-2''" by code_simp
  from slug_normal_form [OF this] show ?thesis ..
qed

lemma lower_char_slash [simp]: "lower_char c = CHR ''/'' \<longleftrightarrow> c = CHR ''/''"
proof
  assume l: "lower_char c = CHR ''/''"
  show "c = CHR ''/''"
  proof (cases "(65::nat) \<le> of_char c \<and> of_char c \<le> (90::nat)")
    case True
    then have "(of_char (lower_char c) :: nat) = of_char c + 32" by (simp add: lower_char_def)
    with True l show ?thesis by simp
  qed (use l in \<open>auto simp: lower_char_def\<close>)
qed (simp add: lower_char_def)

lemma to_lower_no_slash: "CHR ''/'' \<notin> set s \<Longrightarrow> CHR ''/'' \<notin> set (to_lower s)"
  by (auto simp: to_lower_def image_iff simp del: lower_char_slash)
    (metis lower_char_slash)

lemma suffix_git:
  assumes "suffix ''.git'' (a @ CHR ''/'' # b)"
  shows "suffix ''.git'' b"
proof -
  from assms obtain p where p: "a @ CHR ''/'' # b = p @ ''.git''" by (auto simp: suffix_def)
  then consider us where "p = a @ us" "CHR ''/'' # b = us @ ''.git''"
    | us where "a = p @ us" "us @ CHR ''/'' # b = ''.git''"
    by (auto simp: append_eq_append_conv2)
  then show ?thesis
  proof cases
    case (1 us)
    then show ?thesis by (cases us) (auto simp: suffix_def)
  next
    case (2 us)
    have "CHR ''/'' \<in> set (us @ CHR ''/'' # b)" by simp
    then show ?thesis unfolding 2(2) by simp
  qed
qed

lemma split_path:
  assumes "CHR ''/'' \<notin> set a" "CHR ''/'' \<notin> set b" "a \<noteq> []" "b \<noteq> []" "\<not> suffix ''.git'' b"
  shows "split_on CHR ''/'' (trim_char CHR ''/'' (trim_suffix (''/'' @ a @ ''/'' @ b) ''.git'')) = [a, b]"
proof -
  have "\<not> suffix ''.git'' ((CHR ''/'' # a) @ CHR ''/'' # b)" using assms(5) suffix_git by blast
  then have "trim_suffix (''/'' @ a @ ''/'' @ b) ''.git'' = ''/'' @ a @ ''/'' @ b"
    by (simp add: trim_suffix_def)
  moreover have "trim_char CHR ''/'' (''/'' @ a @ ''/'' @ b) = a @ ''/'' @ b"
  proof -
    have "dropWhile (\<lambda>x. x = CHR ''/'') (''/'' @ a @ ''/'' @ b) = a @ ''/'' @ b"
      using assms(1,3) by (cases a) auto
    moreover have "trim_char CHR ''/'' (a @ ''/'' @ b) = a @ ''/'' @ b"
    proof -
      have "hd a \<noteq> CHR ''/''" "last b \<noteq> CHR ''/''" using assms by (metis hd_in_set, metis last_in_set)
      with assms(3,4) show ?thesis by (intro trim_char_id) auto
    qed
    ultimately show ?thesis using assms(1,3) by (cases a) (auto simp: trim_char_def)
  qed
  ultimately show ?thesis using assms by (simp add: split_on_append split_on_no_sep)
qed

lemma CanonicalRepositoryURL_Inr:
  assumes "CanonicalRepositoryURL parse raw = Inr c"
  obtains host where "host = ''github.com'' \<and> cr_Provider c = ''github'' \<or>
      host = ''gitlab.com'' \<and> cr_Provider c = ''gitlab''"
    "cr_Canonical c = ''https://'' @ host @ ''/'' @ cr_Owner c @ ''/'' @ cr_Name c"
    "CHR ''/'' \<notin> set (cr_Owner c)" "CHR ''/'' \<notin> set (cr_Name c)" "cr_Owner c \<noteq> []" "cr_Name c \<noteq> []"
    "to_lower (cr_Owner c) = cr_Owner c" "to_lower (cr_Name c) = cr_Name c"
proof -
  from assms obtain u a b where u: "parse (trim_space raw) = Some u"
    and host: "to_lower (ru_Hostname u) = ''github.com'' \<or> to_lower (ru_Hostname u) = ''gitlab.com''"
    and parts: "split_on CHR ''/'' (trim_char CHR ''/'' (trim_suffix (ru_Path u) ''.git'')) = [a, b]"
    and ab: "a \<noteq> []" "b \<noteq> []"
    and c: "c = \<lparr>cr_Provider = (if to_lower (ru_Hostname u) = ''github.com'' then ''github'' else ''gitlab''),
        cr_Owner = to_lower a, cr_Name = to_lower b,
        cr_Canonical = ''https://'' @ to_lower (ru_Hostname u) @ ''/'' @ to_lower a @ ''/'' @ to_lower b\<rparr>"
    by (auto simp: CanonicalRepositoryURL_def Let_def split: option.splits if_splits list.splits)
  have sl: "CHR ''/'' \<notin> set w" if "w \<in> set (split_on CHR ''/'' s)" for w s
    using that by (induction s arbitrary: w) (auto split: list.splits if_splits)
  have "CHR ''/'' \<notin> set a" "CHR ''/'' \<notin> set b"
    using sl [of _ "trim_char CHR ''/'' (trim_suffix (ru_Path u) ''.git'')"] parts by simp_all
  with host ab c that [of "to_lower (ru_Hostname u)"] show ?thesis
    by (auto simp: to_lower_no_slash) (auto simp: to_lower_def)
qed

text \<open>The parse of a canonical URL: no user, port, query or fragment, and a path of two segments.\<close>

definition plain_uri :: "string \<Rightarrow> string \<Rightarrow> string \<Rightarrow> request_uri" where
  "plain_uri host owner name = \<lparr>ru_Scheme = ''https'', ru_HasUser = False, ru_RawQuery = '''',
     ru_Fragment = '''', ru_Hostname = host, ru_Port = '''', ru_Path = ''/'' @ owner @ ''/'' @ name\<rparr>"

text \<open>
  canonical repository URLs are fixed points, for repository names that do not end in
  \<open>.git\<close>: canonicalizing the canonical URL gives the same provider, owner, name and URL. The
  hypothesis on the parser is that it splits a URL of visible characters into its parts.
\<close>

theorem canonical_url_fixed_point:
  assumes "CanonicalRepositoryURL parse raw = Inr c" and "\<not> suffix ''.git'' (cr_Name c)"
    and "list_all graphic (cr_Canonical c)"
    and parser: "\<And>host owner name. cr_Canonical c = ''https://'' @ host @ ''/'' @ owner @ ''/'' @ name \<Longrightarrow>
      CHR ''/'' \<notin> set host \<Longrightarrow> CHR ''/'' \<notin> set owner \<Longrightarrow>
      parse (cr_Canonical c) = Some (plain_uri host owner name)"
  shows "CanonicalRepositoryURL parse (cr_Canonical c) = Inr c"
  using assms(1)
proof (rule CanonicalRepositoryURL_Inr)
  fix host
  assume host: "host = ''github.com'' \<and> cr_Provider c = ''github'' \<or>
      host = ''gitlab.com'' \<and> cr_Provider c = ''gitlab''"
    and can: "cr_Canonical c = ''https://'' @ host @ ''/'' @ cr_Owner c @ ''/'' @ cr_Name c"
    and sl: "CHR ''/'' \<notin> set (cr_Owner c)" "CHR ''/'' \<notin> set (cr_Name c)"
      "cr_Owner c \<noteq> []" "cr_Name c \<noteq> []"
    and low: "to_lower (cr_Owner c) = cr_Owner c" "to_lower (cr_Name c) = cr_Name c"
  have "CHR ''/'' \<notin> set host" and lh: "to_lower host = host"
    using host by (auto simp: to_lower_def lower_char_def)
  with parser [OF can] sl have p: "parse (trim_space (cr_Canonical c)) =
      Some (plain_uri host (cr_Owner c) (cr_Name c))"
    by (simp add: trim_space_graphic [OF assms(3)])
  have "split_on CHR ''/'' (trim_char CHR ''/'' (trim_suffix
      (''/'' @ cr_Owner c @ ''/'' @ cr_Name c) ''.git'')) = [cr_Owner c, cr_Name c]"
    using split_path [OF sl assms(2)] .
  then show ?thesis
    using p host lh low sl can
    by (cases c) (auto simp: CanonicalRepositoryURL_def plain_uri_def Let_def)
qed

definition sample_parse :: "string \<Rightarrow> request_uri option" where
  "sample_parse s =
     (if s = ''https://GitHub.com/O/R.git'' then Some (plain_uri ''GitHub.com'' ''O'' ''R.git'')
      else if s = ''https://github.com/o/r.git'' then Some (plain_uri ''github.com'' ''o'' ''r.git'')
      else if s = ''https://github.com/o/r.git/'' then Some (plain_uri ''github.com'' ''o'' ''r.git/'')
      else if s = ''https://github.com/o/r'' then Some (plain_uri ''github.com'' ''o'' ''r'') else None)"

definition sample_canonical :: canonical_repository where
  "sample_canonical = \<lparr>cr_Provider = ''github'', cr_Owner = ''o'', cr_Name = ''r'',
     cr_Canonical = ''https://github.com/o/r''\<rparr>"

lemma sample_canonicalizes: "CanonicalRepositoryURL sample_parse ''https://GitHub.com/O/R.git'' = Inr sample_canonical"
  by code_simp

lemma sample_parts:
  assumes "''https://github.com/o/r'' = ''https://'' @ host @ ''/'' @ owner @ ''/'' @ name"
    and "CHR ''/'' \<notin> set host" and "CHR ''/'' \<notin> set owner"
  shows "host = ''github.com'' \<and> owner = ''o'' \<and> name = ''r''"
proof -
  have c: "cut_at CHR ''/'' ''github.com/o/r'' = Some (''github.com'', ''o/r'')"
    "cut_at CHR ''/'' ''o/r'' = Some (''o'', ''r'')" by code_simp+
  have "''github.com/o/r'' = host @ CHR ''/'' # owner @ CHR ''/'' # name" using assms(1) by simp
  then have h: "host = ''github.com''" "''o/r'' = owner @ CHR ''/'' # name"
    using c(1) assms(2) by (simp_all add: cut_at_append)
  show ?thesis using c(2) assms(3) h(1) unfolding h(2) by (simp add: cut_at_append)
qed

theorem canonical_url_fixed_point_witness:
  "CanonicalRepositoryURL sample_parse (cr_Canonical sample_canonical) = Inr sample_canonical"
proof (rule canonical_url_fixed_point [OF sample_canonicalizes])
  show "\<not> suffix ''.git'' (cr_Name sample_canonical)" by code_simp
  show "list_all graphic (cr_Canonical sample_canonical)" by code_simp
  fix host owner name
  assume "cr_Canonical sample_canonical = ''https://'' @ host @ ''/'' @ owner @ ''/'' @ name"
    "CHR ''/'' \<notin> set host" "CHR ''/'' \<notin> set owner"
  with sample_parts [of host owner name] have "host = ''github.com'' \<and> owner = ''o'' \<and> name = ''r''"
    by (simp add: sample_canonical_def)
  moreover have "sample_parse (cr_Canonical sample_canonical) = Some (plain_uri ''github.com'' ''o'' ''r'')"
    by code_simp
  ultimately show "sample_parse (cr_Canonical sample_canonical) = Some (plain_uri host owner name)"
    by simp
qed

text \<open>
  for other URLs the canonical form is not one form. The suffix is removed before the slashes
  are, and only once: a clone URL with and without a trailing slash has two canonical forms, and
  the canonical form of the first is not canonical.
\<close>

theorem canonical_url_not_unique:
  "map_sum id cr_Canonical (CanonicalRepositoryURL sample_parse ''https://github.com/o/r.git'') =
     Inr ''https://github.com/o/r'' \<and>
   map_sum id cr_Canonical (CanonicalRepositoryURL sample_parse ''https://github.com/o/r.git/'') =
     Inr ''https://github.com/o/r.git''"
  by code_simp

end
