(* ===== verification/JobStore.thy ===== *)
theory JobStore
  imports Access Job Project
begin

text \<open>
  The jobs table with its attempts, events and deliveries: \<open>internal/platform/jobstore\<close> (claims,
  heartbeats, checkpoints, completion, recovery of expired leases, collection targets) and the two
  methods of \<open>internal/platform/projectstore\<close> that queue and cancel jobs. Tables are lists of rows
  with the constraints of migrations 0001 and 0003; a failed transaction leaves them as they were.
  Identifiers are the list of what the calls of \<open>Next\<close> return, and a call beyond it fails. The rows
  that concurrent transactions hold locked are an argument of a claim, which skips them. Timestamps
  of columns and parameters are in microseconds. The purge of a project is not modelled here.
\<close>

section \<open>Tables\<close>

datatype jobstore_error = JsJob job_error | JsConstraint | JsIDs | JsNotFound | JsInvalidSource | JsAccess access_error

record job_row =
  jr_job :: Job
  jr_Workspace :: int64
  jr_Key :: "string option"
  jr_AvailableAt :: gotime
  jr_Holder :: "string option"
  jr_ExpiresAt :: "gotime option"
  jr_HeartbeatAt :: "gotime option"
  jr_MaxAttempts :: int
  jr_CorrelationID :: string

record attempt_row =
  ja_ID :: int64
  ja_JobID :: int64
  ja_Attempt :: int
  ja_WorkerID :: string
  ja_State :: JobState
  ja_FinishedAt :: "gotime option"
  ja_Failure :: string

record event_row =
  je_ID :: int64
  je_JobID :: int64
  je_Version :: int64
  je_Job :: Job

record delivery_row =
  jd_ID :: int64
  jd_AggregateID :: int64
  jd_Type :: string
  jd_JobID :: int64
  jd_CorrelationID :: string
  jd_AvailableAt :: "gotime option"

record job_db =
  jt_jobs :: "job_row list"
  jt_attempts :: "attempt_row list"
  jt_events :: "event_row list"
  jt_outbox :: "delivery_row list"

record JobLease =
  lz_Job :: Job
  lz_AttemptID :: int64
  lz_Attempt :: int
  lz_Holder :: string
  lz_ExpiresAt :: gotime

definition row_by_job :: "job_db \<Rightarrow> int64 \<Rightarrow> job_row option" where
  "row_by_job db i = find (\<lambda>r. jb_ID (jr_job r) = i) (jt_jobs db)"

definition update_job :: "job_db \<Rightarrow> int64 \<Rightarrow> (job_row \<Rightarrow> job_row) \<Rightarrow> job_db" where
  "update_job db i f = db\<lparr>jt_jobs := map (\<lambda>r. if jb_ID (jr_job r) = i then f r else r) (jt_jobs db)\<rparr>"

definition attempts_of :: "job_db \<Rightarrow> int64 \<Rightarrow> attempt_row list" where
  "attempts_of db i = filter (\<lambda>a. ja_JobID a = i) (jt_attempts db)"

definition recordEvent :: "job_db \<Rightarrow> int64 list \<Rightarrow> Job \<Rightarrow> jobstore_error + job_db \<times> int64 list" where
  "recordEvent db ids v =
     (case ids of [] \<Rightarrow> Inl JsIDs
      | i # rest \<Rightarrow>
          if i \<le> 0 \<or> i \<in> set (map je_ID (jt_events db)) \<or> jb_Version v \<le> 0 \<or> row_by_job db (jb_ID v) = None \<or>
             list_ex (\<lambda>e. je_JobID e = jb_ID v \<and> je_Version e = jb_Version v) (jt_events db)
          then Inl JsConstraint
          else Inr (db\<lparr>jt_events := jt_events db @ [\<lparr>je_ID = i, je_JobID = jb_ID v, je_Version = jb_Version v, je_Job = v\<rparr>]\<rparr>, rest))"

definition insert_delivery :: "job_db \<Rightarrow> int64 list \<Rightarrow> Job \<Rightarrow> string \<Rightarrow> string \<Rightarrow> gotime option \<Rightarrow> jobstore_error + job_db \<times> int64 list" where
  "insert_delivery db ids v eventType correlationID availableAt =
     (case ids of [] \<Rightarrow> Inl JsIDs
      | i # rest \<Rightarrow>
          let aggregateID = (if jb_ProjectID v = 0 then jb_ID v else jb_ProjectID v) in
          if i \<le> 0 \<or> i \<in> set (map jd_ID (jt_outbox db)) \<or> aggregateID \<le> 0 then Inl JsConstraint
          else Inr (db\<lparr>jt_outbox := jt_outbox db @ [\<lparr>jd_ID = i, jd_AggregateID = aggregateID, jd_Type = eventType,
                 jd_JobID = jb_ID v, jd_CorrelationID = correlationID, jd_AvailableAt = availableAt\<rparr>]\<rparr>, rest))"

definition recordDeliveryEvent :: "job_db \<Rightarrow> int64 list \<Rightarrow> Job \<Rightarrow> string \<Rightarrow> string \<Rightarrow> gotime \<Rightarrow> jobstore_error + job_db \<times> int64 list" where
  "recordDeliveryEvent db ids v eventType correlationID availableAt =
     insert_delivery db ids v eventType correlationID (Some (pg_time availableAt))"

section \<open>Claims and leases\<close>

definition cmp_claim :: "job_row \<Rightarrow> job_row \<Rightarrow> int" where
  "cmp_claim a b = cmp_then (time_compare (jr_AvailableAt a) (jr_AvailableAt b))
     (cmp_then (time_compare (jb_CreatedAt (jr_job a)) (jb_CreatedAt (jr_job b))) (cmp_int (jb_ID (jr_job a)) (jb_ID (jr_job b))))"

definition claimable :: "job_db \<Rightarrow> int64 \<Rightarrow> int64 list \<Rightarrow> gotime \<Rightarrow> job_row list" where
  "claimable db jobID locked dbnow = filter (\<lambda>r. jb_State (jr_job r) = Queued \<and> \<not> after (jr_AvailableAt r) dbnow \<and>
     (jobID = 0 \<or> jb_ID (jr_job r) = jobID) \<and> jb_ID (jr_job r) \<notin> set locked) (jt_jobs db)"

definition markExhausted :: "job_db \<Rightarrow> int64 \<Rightarrow> gotime \<Rightarrow> job_db" where
  "markExhausted db i now = update_job db i (\<lambda>r. r\<lparr>jr_job := (jr_job r)\<lparr>jb_State := Failed, jb_Failure := ''attempts_exhausted'',
     jb_FinishedAt := Some (pg_time now), jb_UpdatedAt := pg_time now, jb_Version := jb_Version (jr_job r) + 1\<rparr>\<rparr>)"

definition insert_attempt :: "job_db \<Rightarrow> int64 \<Rightarrow> int64 \<Rightarrow> int \<Rightarrow> string \<Rightarrow> jobstore_error + job_db" where
  "insert_attempt db i jobID attempt holder =
     (if i \<le> 0 \<or> i \<in> set (map ja_ID (jt_attempts db)) \<or> attempt \<le> 0 \<or> attempt \<ge> 2 ^ 31 \<or>
         list_ex (\<lambda>a. ja_JobID a = jobID \<and> ja_Attempt a = attempt) (jt_attempts db)
      then Inl JsConstraint
      else Inr (db\<lparr>jt_attempts := jt_attempts db @ [\<lparr>ja_ID = i, ja_JobID = jobID, ja_Attempt = attempt, ja_WorkerID = holder,
             ja_State = Running, ja_FinishedAt = None, ja_Failure = ''''\<rparr>]\<rparr>))"

definition claimed_row :: "string \<Rightarrow> gotime \<Rightarrow> gotime \<Rightarrow> job_row \<Rightarrow> job_row" where
  "claimed_row holder now expires r = r\<lparr>jr_job := (jr_job r)\<lparr>jb_State := Running, jb_Version := jb_Version (jr_job r) + 1,
       jb_StartedAt := (case jb_StartedAt (jr_job r) of None \<Rightarrow> Some (pg_time now) | t \<Rightarrow> t), jb_UpdatedAt := pg_time now\<rparr>,
     jr_Holder := Some holder, jr_ExpiresAt := Some (pg_time expires), jr_HeartbeatAt := Some (pg_time now)\<rparr>"

definition store_claim ::
    "job_db \<Rightarrow> int64 \<Rightarrow> string \<Rightarrow> duration \<Rightarrow> gotime \<Rightarrow> gotime \<Rightarrow> int64 list \<Rightarrow> int64 list \<Rightarrow> jobstore_error + job_db \<times> JobLease option" where
  "store_claim db jobID holder ttl now0 dbnow locked ids =
     (if trim_space holder = '''' \<or> ttl \<le> 0 then Inl (JsJob JobErrInvalid)
      else
        let now = utc now0; expires = time_add now ttl in
        case sort_func cmp_claim (claimable db jobID locked dbnow) of
          [] \<Rightarrow> Inr (db, None)
        | r # _ \<Rightarrow>
            let v = jr_job r; attempt = int (length (attempts_of db (jb_ID v))) + 1 in
            if attempt > jr_MaxAttempts r then Inr (markExhausted db (jb_ID v) now, None)
            else
              case ids of [] \<Rightarrow> Inl JsIDs
              | attemptID # rest \<Rightarrow>
                  let v' = v\<lparr>jb_State := Running, jb_Version := jb_Version v + 1, jb_UpdatedAt := now,
                        jb_StartedAt := (case jb_StartedAt v of None \<Rightarrow> Some now | t \<Rightarrow> t)\<rparr> in
                  bindE (insert_attempt db attemptID (jb_ID v) attempt holder) (\<lambda>db1.
                  bindE (recordEvent (update_job db1 (jb_ID v) (claimed_row holder now expires)) rest v') (\<lambda>(db2, _).
                  Inr (db2, Some \<lparr>lz_Job = v', lz_AttemptID = attemptID, lz_Attempt = attempt, lz_Holder = holder,
                    lz_ExpiresAt = expires\<rparr>))))"

definition ClaimJob ::
    "job_db \<Rightarrow> int64 \<Rightarrow> string \<Rightarrow> duration \<Rightarrow> gotime \<Rightarrow> gotime \<Rightarrow> int64 list \<Rightarrow> int64 list \<Rightarrow> jobstore_error + job_db \<times> JobLease option" where
  "ClaimJob db jobID holder ttl now dbnow locked ids =
     (if jobID \<le> 0 then Inl (JsJob JobErrInvalid) else store_claim db jobID holder ttl now dbnow locked ids)"

definition Claim_any ::
    "job_db \<Rightarrow> string \<Rightarrow> duration \<Rightarrow> gotime \<Rightarrow> gotime \<Rightarrow> int64 list \<Rightarrow> int64 list \<Rightarrow> jobstore_error + job_db \<times> JobLease option" where
  "Claim_any db holder ttl now dbnow locked ids = store_claim db 0 holder ttl now dbnow locked ids"

text \<open>The row that a lease still holds at a time.\<close>

definition held_row :: "job_db \<Rightarrow> JobLease \<Rightarrow> gotime \<Rightarrow> job_row option" where
  "held_row db l now =
     (case row_by_job db (jb_ID (lz_Job l)) of None \<Rightarrow> None
      | Some r \<Rightarrow> if jb_State (jr_job r) = Running \<and> jr_Holder r = Some (lz_Holder l) \<and>
            (case jr_ExpiresAt r of None \<Rightarrow> False | Some t \<Rightarrow> after t (pg_time now))
          then Some r else None)"

definition Heartbeat :: "job_db \<Rightarrow> JobLease \<Rightarrow> duration \<Rightarrow> gotime \<Rightarrow> jobstore_error + job_db \<times> JobLease" where
  "Heartbeat db l ttl now0 =
     (if ttl \<le> 0 then Inl (JsJob JobErrInvalid)
      else
        let now = utc now0; expires = time_add now ttl in
        case held_row db l now of None \<Rightarrow> Inl (JsJob JobErrLeaseUnavailable)
        | Some r \<Rightarrow> Inr (update_job db (jb_ID (lz_Job l)) (\<lambda>r. r\<lparr>jr_HeartbeatAt := Some (pg_time now), jr_ExpiresAt := Some (pg_time expires),
              jr_job := (jr_job r)\<lparr>jb_UpdatedAt := pg_time now\<rparr>\<rparr>), l\<lparr>lz_ExpiresAt := expires\<rparr>))"

definition CheckCancelled :: "job_db \<Rightarrow> JobLease \<Rightarrow> jobstore_error + bool" where
  "CheckCancelled db l =
     (case row_by_job db (jb_ID (lz_Job l)) of None \<Rightarrow> Inl JsNotFound | Some r \<Rightarrow> Inr (jb_State (jr_job r) = Cancelled))"

definition store_Checkpoint ::
    "job_db \<Rightarrow> JobLease \<Rightarrow> int64 \<Rightarrow> Checkpoint \<Rightarrow> gotime \<Rightarrow> int64 list \<Rightarrow> jobstore_error + job_db \<times> JobLease" where
  "store_Checkpoint db l completed checkpoint now0 ids =
     (let now = utc now0 in
      case held_row db l now of None \<Rightarrow> Inl (JsJob JobErrLeaseUnavailable)
      | Some r \<Rightarrow>
          let progress = (jb_Progress (jr_job r))\<lparr>pg_Completed := completed\<rparr>;
              version = jb_Version (jr_job r) + 1;
              v = (lz_Job l)\<lparr>jb_Progress := progress, jb_Checkpoint := Some checkpoint, jb_Version := version, jb_UpdatedAt := now\<rparr>;
              db1 = update_job db (jb_ID v) (\<lambda>r. r\<lparr>jr_job := (jr_job r)\<lparr>jb_Progress := progress, jb_Checkpoint := Some checkpoint,
                      jb_Version := version, jb_UpdatedAt := pg_time now\<rparr>\<rparr>) in
          bindE (recordEvent db1 ids v) (\<lambda>(db2, _). Inr (db2, l\<lparr>lz_Job := v\<rparr>)))"

definition retry_backoff :: "int \<Rightarrow> duration" where
  "retry_backoff attempt = 2 ^ nat (min attempt 8) * second"

definition close_attempts :: "(attempt_row \<Rightarrow> bool) \<Rightarrow> JobState \<Rightarrow> gotime \<Rightarrow> string \<Rightarrow> job_db \<Rightarrow> job_db" where
  "close_attempts p state now code db = db\<lparr>jt_attempts := map (\<lambda>a. if p a \<and> ja_State a = Running
     then a\<lparr>ja_State := state, ja_FinishedAt := Some (pg_time now), ja_Failure := code\<rparr> else a) (jt_attempts db)\<rparr>"

definition finished_row :: "JobState \<Rightarrow> string \<Rightarrow> gotime \<Rightarrow> gotime \<Rightarrow> job_row \<Rightarrow> job_row" where
  "finished_row final code now availableAt r = r\<lparr>jr_job := (jr_job r)\<lparr>jb_State := final, jb_Version := jb_Version (jr_job r) + 1,
       jb_UpdatedAt := pg_time now, jb_FinishedAt := (if job_terminal final then Some (pg_time now) else None), jb_Failure := code\<rparr>,
     jr_AvailableAt := pg_time availableAt, jr_Holder := None, jr_ExpiresAt := None, jr_HeartbeatAt := None\<rparr>"

definition store_finish ::
    "job_db \<Rightarrow> JobLease \<Rightarrow> JobState \<Rightarrow> string \<Rightarrow> duration \<Rightarrow> gotime \<Rightarrow> int64 list \<Rightarrow> jobstore_error + job_db" where
  "store_finish db l state code retryAfter now0 ids =
     (let now = utc now0; i = jb_ID (lz_Job l) in
      case row_by_job db i of None \<Rightarrow> Inl (JsJob JobErrLeaseUnavailable)
      | Some r \<Rightarrow>
          if jr_Holder r \<noteq> Some (lz_Holder l) \<or> jb_State (jr_job r) \<noteq> Running then Inl (JsJob JobErrLeaseUnavailable)
          else
            let retry = (state = Failed \<and> lz_Attempt l < jr_MaxAttempts r \<and> retryAfter \<ge> 0);
                final = (if retry then Queued else state);
                availableAt = (if retry then time_add now (if retryAfter = 0 then retry_backoff (lz_Attempt l) else retryAfter) else now);
                db2 = close_attempts (\<lambda>a. ja_ID a = lz_AttemptID l) state now code
                        (update_job db i (finished_row final code now availableAt));
                v = (lz_Job l)\<lparr>jb_State := final, jb_Version := jb_Version (lz_Job l) + 1, jb_UpdatedAt := now, jb_Failure := code,
                      jb_FinishedAt := (if job_terminal final then Some now else jb_FinishedAt (lz_Job l))\<rparr> in
            bindE (recordEvent db2 ids v) (\<lambda>(db3, rest).
            if final = Queued
            then bindE (recordDeliveryEvent db3 rest v ''job.queued'' (jr_CorrelationID r) availableAt) (\<lambda>(db4, _). Inr db4)
            else if final = Failed
            then bindE (recordDeliveryEvent db3 rest v ''job.dead_lettered'' (jr_CorrelationID r) now) (\<lambda>(db4, _). Inr db4)
            else Inr db3))"

definition Complete :: "job_db \<Rightarrow> JobLease \<Rightarrow> gotime \<Rightarrow> int64 list \<Rightarrow> jobstore_error + job_db" where
  "Complete db l now ids = store_finish db l Succeeded '''' 0 now ids"

definition store_Fail :: "job_db \<Rightarrow> JobLease \<Rightarrow> string \<Rightarrow> duration \<Rightarrow> gotime \<Rightarrow> int64 list \<Rightarrow> jobstore_error + job_db" where
  "store_Fail db l code retryAfter now ids =
     store_finish db l Failed (if trim_space code = '''' then ''worker_error'' else code) retryAfter now ids"

section \<open>Recovery of expired leases\<close>

definition zero_job :: Job where
  "zero_job = \<lparr>jb_ID = 0, jb_ProjectID = 0, jb_Kind = '''', jb_State = JobStateOther '''',
     jb_Progress = \<lparr>pg_Completed = 0, pg_Total = None, pg_TotalStatus = '''', pg_Unit = ''''\<rparr>, jb_Checkpoint = None,
     jb_RequestedFrom = None, jb_RequestedTo = None, jb_Version = 0, jb_CoalescedRequests = 0, jb_Cancellable = False,
     jb_LeaseHolder = '''', jb_LeaseExpiresAt = None, jb_CreatedAt = zero_time, jb_StartedAt = None, jb_UpdatedAt = zero_time,
     jb_FinishedAt = None, jb_Failure = ''''\<rparr>"

record expired_job =
  ex_value :: Job
  ex_maxAttempts :: int
  ex_attemptCount :: int
  ex_correlationID :: string

definition lease_expired :: "gotime \<Rightarrow> job_row \<Rightarrow> bool" where
  "lease_expired now r \<longleftrightarrow> jb_State (jr_job r) = Running \<and>
     (case jr_ExpiresAt r of None \<Rightarrow> False | Some t \<Rightarrow> \<not> after t (pg_time now))"

definition cmp_job_id :: "job_row \<Rightarrow> job_row \<Rightarrow> int" where
  "cmp_job_id a b = cmp_int (jb_ID (jr_job a)) (jb_ID (jr_job b))"

definition expired_jobs :: "job_db \<Rightarrow> gotime \<Rightarrow> expired_job list" where
  "expired_jobs db now = map (\<lambda>r. \<lparr>ex_value = zero_job\<lparr>jb_ID := jb_ID (jr_job r), jb_ProjectID := jb_ProjectID (jr_job r),
       jb_Kind := jb_Kind (jr_job r), jb_Version := jb_Version (jr_job r)\<rparr>,
     ex_maxAttempts = jr_MaxAttempts r, ex_attemptCount = int (length (attempts_of db (jb_ID (jr_job r)))),
     ex_correlationID = jr_CorrelationID r\<rparr>) (sort_func cmp_job_id (filter (lease_expired now) (jt_jobs db)))"

definition recovered_value :: "expired_job \<Rightarrow> gotime \<Rightarrow> Job" where
  "recovered_value t now =
     (let v = (ex_value t)\<lparr>jb_Version := jb_Version (ex_value t) + 1, jb_UpdatedAt := now\<rparr> in
      if ex_attemptCount t \<ge> ex_maxAttempts t
      then v\<lparr>jb_State := Failed, jb_Failure := ''attempts_exhausted'', jb_FinishedAt := Some now\<rparr>
      else v\<lparr>jb_State := Queued, jb_Failure := ''''\<rparr>)"

definition recovered_row :: "Job \<Rightarrow> gotime \<Rightarrow> job_row \<Rightarrow> job_row" where
  "recovered_row v now r = r\<lparr>jr_job := (jr_job r)\<lparr>jb_State := jb_State v, jb_Failure := jb_Failure v,
       jb_FinishedAt := map_option pg_time (jb_FinishedAt v), jb_Version := jb_Version v, jb_UpdatedAt := pg_time now\<rparr>,
     jr_Holder := None, jr_ExpiresAt := None, jr_HeartbeatAt := None, jr_AvailableAt := pg_time now\<rparr>"

definition recover_one :: "job_db \<Rightarrow> int64 list \<Rightarrow> gotime \<Rightarrow> expired_job \<Rightarrow> jobstore_error + job_db \<times> int64 list" where
  "recover_one db ids now t =
     (let v = recovered_value t now;
          eventType = (if jb_State v = Failed then ''job.dead_lettered'' else ''job.queued'');
          db1 = close_attempts (\<lambda>a. ja_JobID a = jb_ID v) Failed now ''lease_expired'' db;
          db2 = update_job db1 (jb_ID v) (recovered_row v now) in
      bindE (recordEvent db2 ids v) (\<lambda>(db3, rest). recordDeliveryEvent db3 rest v eventType (ex_correlationID t) now))"

fun recover_all :: "job_db \<Rightarrow> int64 list \<Rightarrow> gotime \<Rightarrow> expired_job list \<Rightarrow> jobstore_error + job_db" where
  "recover_all db ids now [] = Inr db"
| "recover_all db ids now (t # ts) = bindE (recover_one db ids now t) (\<lambda>(db', rest). recover_all db' rest now ts)"

definition RecoverExpired :: "job_db \<Rightarrow> gotime \<Rightarrow> int64 list \<Rightarrow> jobstore_error + job_db \<times> int" where
  "RecoverExpired db now0 ids =
     (let now = utc now0; expired = expired_jobs db now in
      bindE (recover_all db ids now expired) (\<lambda>db'. Inr (db', int (length expired))))"

section \<open>Queueing and cancelling\<close>

text \<open>The methods of \<open>projectstore\<close> that write the same tables. \<open>writeOutbox\<close> leaves the availability to its default.\<close>

definition CancelJob :: "job_db \<Rightarrow> Principal \<Rightarrow> int64 \<Rightarrow> string \<Rightarrow> gotime \<Rightarrow> int64 list \<Rightarrow> jobstore_error + job_db \<times> Job" where
  "CancelJob db actor i requestID now ids =
     (case Authorize actor ActionProjectWrite of Some e \<Rightarrow> Inl (JsAccess e)
      | None \<Rightarrow>
          (case row_by_job db i of None \<Rightarrow> Inl JsNotFound
           | Some r \<Rightarrow>
               if jr_Workspace r \<noteq> pr_Workspace actor then Inl JsNotFound
               else if jb_State (jr_job r) = Cancelled then Inr (db, jr_job r)
               else
                 bindE (map_sum JsJob id (job_Cancel (jr_job r) now)) (\<lambda>v.
                 let db1 = update_job db i (\<lambda>r. r\<lparr>jr_job := (jr_job r)\<lparr>jb_State := Cancelled, jb_Version := jb_Version v,
                             jb_UpdatedAt := pg_time (jb_UpdatedAt v), jb_FinishedAt := Some (pg_time (jb_UpdatedAt v))\<rparr>,
                           jr_Holder := None, jr_ExpiresAt := None\<rparr>) in
                 bindE (recordEvent db1 ids v) (\<lambda>(db2, rest).
                 bindE (insert_delivery db2 rest v ''job.cancelled'' requestID None) (\<lambda>(db3, _). Inr (db3, v))))))"

definition least_time :: "gotime option \<Rightarrow> gotime option \<Rightarrow> gotime option" where
  "least_time old new =
     (case new of None \<Rightarrow> old | Some n \<Rightarrow> Some (case old of None \<Rightarrow> pg_time n | Some t \<Rightarrow> if after t (pg_time n) then pg_time n else t))"

definition greatest_time :: "gotime option \<Rightarrow> gotime option \<Rightarrow> gotime option" where
  "greatest_time old new =
     (case new of None \<Rightarrow> old | Some n \<Rightarrow> Some (case old of None \<Rightarrow> pg_time n | Some t \<Rightarrow> if before t (pg_time n) then pg_time n else t))"

definition coalesced_row :: "gotime option \<Rightarrow> gotime option \<Rightarrow> gotime \<Rightarrow> job_row \<Rightarrow> job_row" where
  "coalesced_row from to dbnow r = r\<lparr>jr_job := (jr_job r)\<lparr>jb_CoalescedRequests := jb_CoalescedRequests (jr_job r) + 1,
     jb_RequestedFrom := least_time (jb_RequestedFrom (jr_job r)) from,
     jb_RequestedTo := greatest_time (jb_RequestedTo (jr_job r)) to,
     jb_Version := jb_Version (jr_job r) + 1, jb_UpdatedAt := pg_time dbnow\<rparr>\<rparr>"

definition range_ordered :: "gotime option \<Rightarrow> gotime option \<Rightarrow> bool" where
  "range_ordered from to \<longleftrightarrow> (case (from, to) of (Some a, Some b) \<Rightarrow> before a b | _ \<Rightarrow> True)"

definition active_with_key :: "job_db \<Rightarrow> int64 \<Rightarrow> string \<Rightarrow> job_row option" where
  "active_with_key db ws key = find (\<lambda>r. jr_Workspace r = ws \<and> jr_Key r = Some key \<and>
     (jb_State (jr_job r) = Queued \<or> jb_State (jr_job r) = Running)) (jt_jobs db)"

definition insertJob :: "job_db \<Rightarrow> Job \<Rightarrow> Principal \<Rightarrow> string \<Rightarrow> string \<Rightarrow> jobstore_error + job_db" where
  "insertJob db v actor requestID key =
     (if jb_ID v \<le> 0 \<or> row_by_job db (jb_ID v) \<noteq> None \<or> jb_Kind v = '''' \<or> jb_Version v \<le> 0 \<or> active_with_key db (pr_Workspace actor) key \<noteq> None \<or>
         \<not> range_ordered (map_option pg_time (jb_RequestedFrom v)) (map_option pg_time (jb_RequestedTo v)) \<or> jb_ProjectID v < 0
      then Inl JsConstraint
      else Inr (db\<lparr>jt_jobs := jt_jobs db @ [\<lparr>jr_job = v\<lparr>jb_CreatedAt := pg_time (jb_CreatedAt v), jb_UpdatedAt := pg_time (jb_CreatedAt v),
               jb_RequestedFrom := map_option pg_time (jb_RequestedFrom v), jb_RequestedTo := map_option pg_time (jb_RequestedTo v)\<rparr>,
             jr_Workspace = pr_Workspace actor, jr_Key = Some key, jr_AvailableAt = pg_time (jb_CreatedAt v),
             jr_Holder = None, jr_ExpiresAt = None, jr_HeartbeatAt = None, jr_MaxAttempts = 5, jr_CorrelationID = requestID\<rparr>]\<rparr>))"

definition queueJob ::
    "job_db \<Rightarrow> Principal \<Rightarrow> int64 \<Rightarrow> string \<Rightarrow> string \<Rightarrow> string \<Rightarrow> string \<Rightarrow> gotime option \<Rightarrow> gotime option \<Rightarrow> gotime \<Rightarrow> gotime \<Rightarrow>
     int64 list \<Rightarrow> jobstore_error + job_db \<times> Job" where
  "queueJob db actor projectID kind scope key requestID from to now dbnow ids =
     (case ids of [] \<Rightarrow> Inl JsIDs
      | jobID # rest \<Rightarrow>
          bindE (map_sum JsJob id (job_New jobID projectID kind scope None True now)) (\<lambda>queued0.
          let queued = queued0\<lparr>jb_RequestedFrom := from, jb_RequestedTo := to\<rparr> in
          case active_with_key db (pr_Workspace actor) key of
            Some r \<Rightarrow>
              let r' = coalesced_row from to dbnow r;
                  db1 = update_job db (jb_ID (jr_job r)) (coalesced_row from to dbnow) in
              if \<not> range_ordered (jb_RequestedFrom (jr_job r')) (jb_RequestedTo (jr_job r')) then Inl JsConstraint
              else bindE (recordEvent db1 rest (jr_job r')) (\<lambda>(db2, _). Inr (db2, jr_job r'))
          | None \<Rightarrow>
              bindE (insertJob db queued actor requestID key) (\<lambda>db1.
              bindE (recordEvent db1 rest queued) (\<lambda>(db2, rest2).
              bindE (insert_delivery db2 rest2 queued ''job.queued'' requestID None) (\<lambda>(db3, _). Inr (db3, queued))))))"

section \<open>Collection targets\<close>

text \<open>A row of \<open>sources\<close> with its repository, and the cursors of \<open>sync_checkpoints\<close> by source and scope.\<close>

record source_row =
  sx_source :: Source
  sx_RepositoryID :: int64

record GitHubTarget =
  gt_ProjectID :: int64
  gt_RepositoryID :: int64
  gt_SourceID :: int64
  gt_Owner :: string
  gt_Repository :: string
  gt_Pages :: "(string \<times> int) list"
  gt_CoverageFrom :: gotime

definition checkpointPage :: "string \<Rightarrow> jobstore_error + int" where
  "checkpointPage cursor =
     (if cursor = ''complete'' then Inr 1
      else if cursor = '''' then Inr 1
      else case parse_int64 cursor of None \<Rightarrow> Inl JsInvalidSource
        | Some page \<Rightarrow> if page \<le> 0 then Inl JsInvalidSource else Inr page)"

definition github_scopes :: "string list" where
  "github_scopes = [''github_issues'', ''github_pull_requests'', ''github_releases'', ''github_commits'']"

fun checkpoint_pages :: "(string \<Rightarrow> string option) \<Rightarrow> string list \<Rightarrow> jobstore_error + (string \<times> int) list" where
  "checkpoint_pages cursor [] = Inr []"
| "checkpoint_pages cursor (scope # scopes) =
     bindE (checkpointPage (case cursor scope of None \<Rightarrow> '''' | Some c \<Rightarrow> c)) (\<lambda>page.
     bindE (checkpoint_pages cursor scopes) (\<lambda>pages. Inr ((scope, page) # pages)))"

definition trim_prefix :: "string \<Rightarrow> string \<Rightarrow> string" where
  "trim_prefix s p = (if prefix p s then drop (length p) s else s)"

definition cmp_source_id :: "source_row \<Rightarrow> source_row \<Rightarrow> int" where
  "cmp_source_id a b = cmp_int (so_ID (sx_source a)) (so_ID (sx_source b))"

definition GitHubSource :: "source_row list \<Rightarrow> (int64 \<Rightarrow> string \<Rightarrow> string option) \<Rightarrow> int64 \<Rightarrow> gotime \<Rightarrow> jobstore_error + GitHubTarget" where
  "GitHubSource srcs cursor projectID dbnow =
     (case sort_func cmp_source_id (filter (\<lambda>s. so_ProjectID (sx_source s) = projectID \<and> so_Kind (sx_source s) = SourceGitHub \<and>
            so_State (sx_source s) = SourceAvailable) srcs) of
        [] \<Rightarrow> Inl JsNotFound
      | s # _ \<Rightarrow>
          (case split_on CHR ''/'' (trim_char CHR ''/'' (trim_prefix (so_CanonicalURL (sx_source s)) ''https://github.com/'')) of
             [owner, repo] \<Rightarrow>
               if owner = '''' \<or> repo = '''' then Inl JsInvalidSource
               else bindE (checkpoint_pages (cursor (so_ID (sx_source s))) github_scopes) (\<lambda>pages.
                 Inr \<lparr>gt_ProjectID = so_ProjectID (sx_source s), gt_RepositoryID = sx_RepositoryID s, gt_SourceID = so_ID (sx_source s),
                   gt_Owner = owner, gt_Repository = trim_suffix repo ''.git'', gt_Pages = pages,
                   gt_CoverageFrom = (case so_CoverageFrom (sx_source s) of None \<Rightarrow> time_add dbnow (- 180 * day_length) | Some t \<Rightarrow> t)\<rparr>)
           | _ \<Rightarrow> Inl JsInvalidSource))"

definition MarkSourceUnavailable :: "source_row list \<Rightarrow> int64 \<Rightarrow> string \<Rightarrow> gotime \<Rightarrow> jobstore_error + source_row list" where
  "MarkSourceUnavailable srcs sourceID code dbnow =
     (if sourceID \<le> 0 \<or> trim_space code = '''' then Inl (JsJob JobErrInvalid)
      else Inr (map (\<lambda>s. if so_ID (sx_source s) = sourceID
             then s\<lparr>sx_source := (sx_source s)\<lparr>so_State := SourceUnavailable, so_Public := False, so_Failure := code,
               so_LastAttemptAt := Some dbnow, so_NextRunAt := None, so_Version := so_Version (sx_source s) + 1\<rparr>\<rparr> else s) srcs))"

definition MarkCollectionSuccess :: "job_db \<Rightarrow> source_row list \<Rightarrow> JobLease \<Rightarrow> gotime \<Rightarrow> jobstore_error + source_row list" where
  "MarkCollectionSuccess db srcs l now0 =
     (let now = pg_time now0; pid = jb_ProjectID (lz_Job l);
          hit = (\<lambda>s. so_ProjectID (sx_source s) = pid \<and> so_State (sx_source s) = SourceAvailable) in
      if held_row db l now \<noteq> None \<and> list_ex hit srcs
      then Inr (map (\<lambda>s. if hit s then s\<lparr>sx_source := (sx_source s)\<lparr>so_LastAttemptAt := Some now, so_LastSuccessAt := Some now,
             so_CoverageTo := Some (case so_CoverageTo (sx_source s) of None \<Rightarrow> now | Some t \<Rightarrow> if after t now then t else now),
             so_Failure := '''', so_NextRunAt := Some (time_add now hour), so_Version := so_Version (sx_source s) + 1\<rparr>\<rparr> else s) srcs)
      else if list_ex (\<lambda>s. so_ProjectID (sx_source s) = pid) srcs then Inl (JsJob JobErrLeaseUnavailable)
      else Inr srcs)"

section \<open>The invariant of the tables\<close>

text \<open>
  A row is sound when it is leased exactly while it runs, its attempts are numbered from one without
  gaps and within its limit, and no event of it is from a version it has not reached.
\<close>

definition lease_shape :: "job_row \<Rightarrow> bool" where
  "lease_shape r \<longleftrightarrow> (jb_State (jr_job r) = Running \<longleftrightarrow> jr_Holder r \<noteq> None) \<and> (jr_Holder r = None \<longleftrightarrow> jr_ExpiresAt r = None)"

definition numbered :: "attempt_row list \<Rightarrow> bool" where
  "numbered as \<longleftrightarrow> map ja_Attempt as = map int [1..<Suc (length as)]"

definition row_ok :: "job_db \<Rightarrow> job_row \<Rightarrow> bool" where
  "row_ok db r \<longleftrightarrow> 0 < jb_ID (jr_job r) \<and> 0 \<le> jb_ProjectID (jr_job r) \<and> 0 < jb_Version (jr_job r) \<and> lease_shape r \<and>
     numbered (attempts_of db (jb_ID (jr_job r))) \<and>
     int (length (attempts_of db (jb_ID (jr_job r)))) \<le> jr_MaxAttempts r \<and> jr_MaxAttempts r = 5 \<and>
     (\<forall>e \<in> set (jt_events db). je_JobID e = jb_ID (jr_job r) \<longrightarrow> je_Version e \<le> jb_Version (jr_job r))"

lemma numbered_simps [simp]: "numbered []" "numbered (as @ [a]) \<longleftrightarrow> numbered as \<and> ja_Attempt a = int (length as) + 1"
  by (auto simp: numbered_def)

lemma numbered_map: "(\<And>a. ja_Attempt (g a) = ja_Attempt a) \<Longrightarrow> numbered (map g as) = numbered as"
  by (simp add: numbered_def comp_def)

definition job_db_ok :: "job_db \<Rightarrow> bool" where
  "job_db_ok db \<longleftrightarrow> distinct (map (\<lambda>r. jb_ID (jr_job r)) (jt_jobs db)) \<and> list_all (row_ok db) (jt_jobs db) \<and>
     list_all (\<lambda>a. row_by_job db (ja_JobID a) \<noteq> None) (jt_attempts db) \<and>
     list_all (\<lambda>e. row_by_job db (je_JobID e) \<noteq> None) (jt_events db)"

definition grows :: "job_db \<Rightarrow> job_db \<Rightarrow> bool" where
  "grows db db' \<longleftrightarrow> (\<forall>i r. row_by_job db i = Some r \<longrightarrow>
     (\<exists>r'. row_by_job db' i = Some r' \<and> jb_Version (jr_job r) \<le> jb_Version (jr_job r')))"

lemma grows_refl [simp]: "grows db db"
  by (simp add: grows_def)

lemma grows_trans: "grows a b \<Longrightarrow> grows b c \<Longrightarrow> grows a c"
  unfolding grows_def by (meson order_trans)

lemma row_by_job_id: "row_by_job db i = Some r \<Longrightarrow> jb_ID (jr_job r) = i \<and> r \<in> set (jt_jobs db)"
  by (auto simp: row_by_job_def find_Some_iff)

lemma row_by_job_ok: "job_db_ok db \<Longrightarrow> row_by_job db i = Some r \<Longrightarrow> row_ok db r"
  by (auto simp: job_db_ok_def list_all_iff dest: row_by_job_id)

lemma row_by_job_cong: "jt_jobs db = jt_jobs db' \<Longrightarrow> row_by_job db = row_by_job db'"
  by (simp add: row_by_job_def fun_eq_iff)

lemma row_by_job_mem: "job_db_ok db \<Longrightarrow> r \<in> set (jt_jobs db) \<Longrightarrow> row_by_job db (jb_ID (jr_job r)) = Some r"
proof -
  have "distinct (map (\<lambda>r. jb_ID (jr_job r)) rs) \<Longrightarrow> r \<in> set rs \<Longrightarrow> find (\<lambda>x. jb_ID (jr_job x) = jb_ID (jr_job r)) rs = Some r" for rs
    by (induction rs) (auto simp: image_iff)
  then show "job_db_ok db \<Longrightarrow> r \<in> set (jt_jobs db) \<Longrightarrow> ?thesis" by (simp add: job_db_ok_def row_by_job_def)
qed

lemma job_db_ok_cong:
  "jt_jobs db' = jt_jobs db \<Longrightarrow> jt_attempts db' = jt_attempts db \<Longrightarrow> jt_events db' = jt_events db \<Longrightarrow> job_db_ok db' = job_db_ok db"
  by (simp add: job_db_ok_def row_ok_def[abs_def] attempts_of_def row_by_job_cong [of db' db])

lemma job_db_ok_tables:
  assumes "job_db_ok db" "jt_jobs db' = jt_jobs db" "\<And>q. q \<in> set (jt_jobs db) \<Longrightarrow> row_ok db' q"
    "\<And>a. a \<in> set (jt_attempts db') \<Longrightarrow> row_by_job db (ja_JobID a) \<noteq> None"
    "\<And>e. e \<in> set (jt_events db') \<Longrightarrow> row_by_job db (je_JobID e) \<noteq> None"
  shows "job_db_ok db' \<and> row_by_job db' = row_by_job db"
proof -
  have rows: "row_by_job db' = row_by_job db" by (rule row_by_job_cong) (rule assms(2))
  have "distinct (map (\<lambda>r. jb_ID (jr_job r)) (jt_jobs db'))" using assms(1,2) by (simp add: job_db_ok_def)
  then show ?thesis unfolding job_db_ok_def rows list_all_iff assms(2) using assms(3-5) by blast
qed

lemma job_db_ok_known:
  assumes "job_db_ok db"
  shows "a \<in> set (jt_attempts db) \<Longrightarrow> row_by_job db (ja_JobID a) \<noteq> None" "e \<in> set (jt_events db) \<Longrightarrow> row_by_job db (je_JobID e) \<noteq> None"
  using assms unfolding job_db_ok_def list_all_iff by blast+

lemma find_map_cong: "(\<And>r. P (f r) \<longleftrightarrow> P r) \<Longrightarrow> find P (map f rs) = map_option f (find P rs)"
  by (induction rs) auto

lemma row_by_job_update:
  assumes "\<And>r. jb_ID (jr_job (f r)) = jb_ID (jr_job r)"
  shows "row_by_job (update_job db i f) j = (if j = i then map_option f (row_by_job db i) else row_by_job db j)"
proof -
  have "row_by_job (update_job db i f) j = map_option (\<lambda>r. if jb_ID (jr_job r) = i then f r else r) (row_by_job db j)"
    unfolding row_by_job_def update_job_def using assms by (simp add: find_map_cong)
  also have "\<dots> = (if j = i then map_option f (row_by_job db i) else row_by_job db j)"
    by (cases "row_by_job db j") (auto dest: row_by_job_id)
  finally show ?thesis .
qed

lemma update_job_simps [simp]:
  "jt_attempts (update_job db i f) = jt_attempts db" "jt_events (update_job db i f) = jt_events db"
  "jt_outbox (update_job db i f) = jt_outbox db" "attempts_of (update_job db i f) = attempts_of db"
  by (simp_all add: update_job_def attempts_of_def fun_eq_iff)

text \<open>What an update of a row must keep.\<close>

definition row_keeps :: "job_row \<Rightarrow> job_row \<Rightarrow> bool" where
  "row_keeps r r' \<longleftrightarrow> jb_ID (jr_job r') = jb_ID (jr_job r) \<and> jb_ProjectID (jr_job r') = jb_ProjectID (jr_job r) \<and>
     jb_Version (jr_job r) \<le> jb_Version (jr_job r') \<and> jr_MaxAttempts r' = jr_MaxAttempts r \<and>
     lease_shape r'"

lemma update_job_ok:
  assumes "job_db_ok db" "\<And>r. jb_ID (jr_job (f r)) = jb_ID (jr_job r)" "\<And>r. row_by_job db i = Some r \<Longrightarrow> row_keeps r (f r)"
  shows "job_db_ok (update_job db i f) \<and> grows db (update_job db i f)"
proof -
  note find = row_by_job_update [OF assms(2), of db i]
  have ids: "map (\<lambda>r. jb_ID (jr_job r)) (jt_jobs (update_job db i f)) = map (\<lambda>r. jb_ID (jr_job r)) (jt_jobs db)"
    using assms(2) by (auto simp: update_job_def)
  have "row_ok (update_job db i f) r'" if "r' \<in> set (jt_jobs (update_job db i f))" for r'
  proof -
    from that obtain r where r: "r \<in> set (jt_jobs db)" "r' = (if jb_ID (jr_job r) = i then f r else r)"
      by (auto simp: update_job_def)
    have ok: "row_ok db r" using assms(1) r(1) by (simp add: job_db_ok_def list_all_iff)
    show ?thesis
    proof (cases "jb_ID (jr_job r) = i")
      case True
      then have "row_keeps r r'" using assms(3) row_by_job_mem [OF assms(1) r(1)] r(2) by simp
      with ok show ?thesis by (auto simp: row_ok_def row_keeps_def intro: order_trans)
    qed (use ok r in \<open>simp add: row_ok_def\<close>)
  qed
  then have "job_db_ok (update_job db i f)"
    using assms(1) ids by (auto simp: job_db_ok_def list_all_iff find)
  moreover have "grows db (update_job db i f)" unfolding grows_def find using assms(3) by (auto simp: row_keeps_def)
  ultimately show ?thesis by blast
qed

lemma recordEvent_effect:
  "recordEvent db ids v = Inr (db', rest) \<Longrightarrow> \<exists>i. ids = i # rest \<and> row_by_job db (jb_ID v) \<noteq> None \<and>
     \<not> list_ex (\<lambda>e. je_JobID e = jb_ID v \<and> je_Version e = jb_Version v) (jt_events db) \<and>
     db' = db\<lparr>jt_events := jt_events db @ [\<lparr>je_ID = i, je_JobID = jb_ID v, je_Version = jb_Version v, je_Job = v\<rparr>]\<rparr>"
  by (auto simp: recordEvent_def split: list.splits if_splits)

lemma recordEvent_ok:
  assumes "recordEvent db ids v = Inr (db', rest)" "job_db_ok db" "row_by_job db (jb_ID v) = Some r" "jb_Version v \<le> jb_Version (jr_job r)"
  shows "job_db_ok db' \<and> grows db db' \<and> row_by_job db' = row_by_job db"
proof -
  obtain i where db': "db' = db\<lparr>jt_events := jt_events db @ [\<lparr>je_ID = i, je_JobID = jb_ID v, je_Version = jb_Version v, je_Job = v\<rparr>]\<rparr>"
    using recordEvent_effect [OF assms(1)] by blast
  have "row_ok db' q" if "q \<in> set (jt_jobs db)" for q
  proof -
    have "row_ok db q" using assms(2) that by (simp add: job_db_ok_def list_all_iff)
    moreover have "jb_ID v = jb_ID (jr_job q) \<longrightarrow> q = r" using row_by_job_mem [OF assms(2) that] assms(3) by auto
    ultimately show ?thesis using assms(4) db' by (auto simp: row_ok_def attempts_of_def)
  qed
  moreover have "row_by_job db (je_JobID e) \<noteq> None" if "e \<in> set (jt_events db')" for e
    using that job_db_ok_known(2) [OF assms(2), of e] assms(3) db' by auto
  ultimately have "job_db_ok db' \<and> row_by_job db' = row_by_job db"
    using job_db_ok_tables [OF assms(2), of db'] job_db_ok_known(1) [OF assms(2)] db' by simp
  then show ?thesis by (simp add: grows_def)
qed

lemma insert_delivery_effect:
  assumes "insert_delivery db ids v t c a = Inr (db', rest)"
  shows "jt_jobs db' = jt_jobs db \<and> jt_attempts db' = jt_attempts db \<and> jt_events db' = jt_events db"
  using assms by (auto simp: insert_delivery_def Let_def split: list.splits if_splits)

lemma insert_delivery_ok:
  assumes "insert_delivery db ids v t c a = Inr (db', rest)" "job_db_ok db"
  shows "job_db_ok db' \<and> grows db db' \<and> row_by_job db' = row_by_job db"
  using insert_delivery_effect [OF assms(1)] assms(2) row_by_job_cong [of db' db]
  by (simp add: job_db_ok_cong [of db' db] grows_def)

lemma attempts_map_ok:
  assumes "job_db_ok db" "\<And>a. ja_JobID (g a) = ja_JobID a \<and> ja_Attempt (g a) = ja_Attempt a"
  shows "job_db_ok (db\<lparr>jt_attempts := map g (jt_attempts db)\<rparr>) \<and> row_by_job (db\<lparr>jt_attempts := map g (jt_attempts db)\<rparr>) = row_by_job db"
proof -
  let ?db = "db\<lparr>jt_attempts := map g (jt_attempts db)\<rparr>"
  have "attempts_of ?db i = map g (attempts_of db i)" for i
    using assms(2) by (auto simp: attempts_of_def filter_map comp_def)
  then have "row_ok ?db = row_ok db" using assms(2) by (simp add: row_ok_def fun_eq_iff numbered_map)
  then have "row_ok ?db q" if "q \<in> set (jt_jobs db)" for q using assms(1) that by (simp add: job_db_ok_def list_all_iff)
  moreover have "row_by_job db (ja_JobID a) \<noteq> None" if "a \<in> set (jt_attempts ?db)" for a
    using that assms(2) job_db_ok_known(1) [OF assms(1)] by auto
  ultimately show ?thesis using job_db_ok_tables [OF assms(1), of ?db] job_db_ok_known(2) [OF assms(1)] by simp
qed

lemma insert_attempt_ok:
  assumes "insert_attempt db a i (int (length (attempts_of db i)) + 1) h = Inr db'" "job_db_ok db" "row_by_job db i = Some r"
    "int (length (attempts_of db i)) + 1 \<le> jr_MaxAttempts r"
  shows "job_db_ok db' \<and> row_by_job db' = row_by_job db \<and> jt_events db' = jt_events db"
proof -
  define new where "new = \<lparr>ja_ID = a, ja_JobID = i, ja_Attempt = int (length (attempts_of db i)) + 1, ja_WorkerID = h,
     ja_State = Running, ja_FinishedAt = None, ja_Failure = ''''\<rparr>"
  have db': "db' = db\<lparr>jt_attempts := jt_attempts db @ [new]\<rparr>" using assms(1) by (auto simp: insert_attempt_def new_def split: if_splits)
  have att: "attempts_of db' j = attempts_of db j @ (if j = i then [new] else [])" for j
    by (simp add: attempts_of_def db' new_def)
  have ev: "jt_events db' = jt_events db" and num: "ja_Attempt new = int (length (attempts_of db i)) + 1" by (simp_all add: db' new_def)
  have "row_ok db' q" if q: "q \<in> set (jt_jobs db)" for q
  proof -
    have ok: "row_ok db q" using assms(2) q by (simp add: job_db_ok_def list_all_iff)
    show ?thesis
    proof (cases "jb_ID (jr_job q) = i")
      case True
      then have "q = r" using row_by_job_mem [OF assms(2) q] assms(3) by simp
      with ok assms(4) True show ?thesis by (simp add: row_ok_def att ev num)
    qed (use ok in \<open>simp add: row_ok_def att ev\<close>)
  qed
  moreover have "row_by_job db (ja_JobID b) \<noteq> None" if "b \<in> set (jt_attempts db')" for b
    using that assms(3) job_db_ok_known(1) [OF assms(2), of b] by (auto simp: db' new_def)
  ultimately show ?thesis using job_db_ok_tables [OF assms(2), of db'] job_db_ok_known(2) [OF assms(2)] db' by simp
qed


text \<open>What every operation promises of the tables it leaves.\<close>

definition advances :: "job_db \<Rightarrow> job_db \<Rightarrow> bool" where
  "advances db db' \<longleftrightarrow> job_db_ok db' \<and> grows db db'"

lemma advances_trans: "advances a b \<Longrightarrow> advances b c \<Longrightarrow> advances a c"
  by (auto simp: advances_def intro: grows_trans)

lemma update_record_ok:
  assumes "job_db_ok db" "\<And>r. jb_ID (jr_job (f r)) = jb_ID (jr_job r)" "row_by_job db i = Some r" "row_keeps r (f r)"
    "jb_ID v = i" "jb_Version v \<le> jb_Version (jr_job (f r))" "recordEvent (update_job db i f) ids v = Inr (db', rest)"
  shows "advances db db' \<and> row_by_job db' = row_by_job (update_job db i f)"
proof -
  have u: "job_db_ok (update_job db i f) \<and> grows db (update_job db i f)"
    by (rule update_job_ok [OF assms(1,2)]) (use assms(3,4) in simp)
  have "row_by_job (update_job db i f) (jb_ID v) = Some (f r)"
    using assms(3,5) row_by_job_update [of f, OF assms(2)] by simp
  from recordEvent_ok [OF assms(7) conjunct1 [OF u] this assms(6)] u show ?thesis
    by (auto simp: advances_def intro: grows_trans)
qed

lemma store_claim_advances:
  assumes "store_claim db j h ttl now dbnow locked ids = Inr (db', res)" "job_db_ok db"
  shows "advances db db' \<and> (case res of None \<Rightarrow> True
     | Some l \<Rightarrow> \<exists>r. row_by_job db' (jb_ID (lz_Job l)) = Some r \<and> jb_Version (lz_Job l) \<le> jb_Version (jr_job r))"
proof (cases "sort_func cmp_claim (claimable db j locked dbnow)")
  case Nil
  with assms show ?thesis by (auto simp: store_claim_def advances_def split: if_splits)
next
  case (Cons r rs)
  then have "r \<in> set (claimable db j locked dbnow)" using set_sort_func [of cmp_claim] by (metis list.set_intros(1))
  then have r: "r \<in> set (jt_jobs db)" "jb_State (jr_job r) = Queued" by (auto simp: claimable_def)
  have row: "row_by_job db (jb_ID (jr_job r)) = Some r" by (rule row_by_job_mem [OF assms(2) r(1)])
  have shape: "lease_shape r" using row_by_job_ok [OF assms(2) row] by (simp add: row_ok_def)
  show ?thesis
  proof (cases "jr_MaxAttempts r < int (length (attempts_of db (jb_ID (jr_job r)))) + 1")
    case True
    then have "db' = markExhausted db (jb_ID (jr_job r)) (utc now) \<and> res = None" using assms(1) Cons by (auto simp: store_claim_def Let_def split: if_splits)
    moreover have "advances db (markExhausted db (jb_ID (jr_job r)) (utc now))"
      unfolding markExhausted_def advances_def by (rule update_job_ok [OF assms(2)]) (use row shape r in \<open>auto simp: row_keeps_def lease_shape_def\<close>)
    ultimately show ?thesis by simp
  next
    case False
    define v where "v = (jr_job r)\<lparr>jb_State := Running, jb_Version := jb_Version (jr_job r) + 1, jb_UpdatedAt := utc now,
      jb_StartedAt := (case jb_StartedAt (jr_job r) of None \<Rightarrow> Some (utc now) | t \<Rightarrow> t)\<rparr>"
    from assms(1) Cons False obtain a rest db1 rest2 where
      one: "insert_attempt db a (jb_ID (jr_job r)) (int (length (attempts_of db (jb_ID (jr_job r)))) + 1) h = Inr db1"
      and two: "recordEvent (update_job db1 (jb_ID (jr_job r)) (claimed_row h (utc now) (time_add (utc now) ttl))) rest v = Inr (db', rest2)"
      and res: "map_option lz_Job res = Some v"
      by (auto simp: store_claim_def Let_def result_simps v_def split: if_splits list.splits prod.splits)
    from res obtain l where l: "res = Some l" "lz_Job l = v" "jb_ID v = jb_ID (jr_job r)" "jb_Version v = jb_Version (jr_job r) + 1"
      by (auto simp: v_def)
    from insert_attempt_ok [OF one assms(2) row] False have ok1: "job_db_ok db1" "row_by_job db1 = row_by_job db" by auto
    have ex: "advances db1 db' \<and> row_by_job db' = row_by_job (update_job db1 (jb_ID (jr_job r)) (claimed_row h (utc now) (time_add (utc now) ttl)))"
      by (rule update_record_ok [OF ok1(1) _ _ _ l(3) _ two, of r]) (use row ok1 l in \<open>simp_all add: claimed_row_def row_keeps_def lease_shape_def\<close>)
    have "row_by_job db' (jb_ID (jr_job r)) = Some (claimed_row h (utc now) (time_add (utc now) ttl) r)"
      using ex row ok1(2) by (simp add: row_by_job_update claimed_row_def)
    moreover have "advances db db'" using conjunct1 [OF ex] ok1(2) unfolding advances_def grows_def by metis
    ultimately show ?thesis using l by (simp add: claimed_row_def)
  qed
qed

lemma held_row_Some:
  "held_row db l now = Some r \<Longrightarrow> row_by_job db (jb_ID (lz_Job l)) = Some r \<and> jb_State (jr_job r) = Running \<and> jr_Holder r = Some (lz_Holder l)"
  by (auto simp: held_row_def split: option.splits if_splits)

lemma Heartbeat_advances:
  assumes "Heartbeat db l ttl now = Inr (db', l')" "job_db_ok db"
  shows "advances db db' \<and> lz_Job l' = lz_Job l"
proof -
  from assms(1) obtain r where r: "held_row db l (utc now) = Some r" and l': "lz_Job l' = lz_Job l"
    and db': "db' = update_job db (jb_ID (lz_Job l)) (\<lambda>r. r\<lparr>jr_HeartbeatAt := Some (pg_time (utc now)),
      jr_ExpiresAt := Some (pg_time (time_add (utc now) ttl)), jr_job := (jr_job r)\<lparr>jb_UpdatedAt := pg_time (utc now)\<rparr>\<rparr>)"
    by (auto simp: Heartbeat_def Let_def split: if_splits option.splits)
  have "advances db db'" unfolding db' advances_def
    by (rule update_job_ok [OF assms(2)]) (use held_row_Some [OF r] in \<open>auto simp: row_keeps_def lease_shape_def\<close>)
  with l' show ?thesis by simp
qed

lemma store_Checkpoint_advances:
  assumes "store_Checkpoint db l done cp now ids = Inr (db', l')" "job_db_ok db"
  shows "advances db db' \<and> (\<exists>r. row_by_job db' (jb_ID (lz_Job l')) = Some r \<and> jb_Version (lz_Job l') \<le> jb_Version (jr_job r))"
proof -
  from assms(1) obtain r where r: "held_row db l (utc now) = Some r" by (auto simp: store_Checkpoint_def Let_def split: option.splits)
  define p where "p = (jb_Progress (jr_job r))\<lparr>pg_Completed := done\<rparr>"
  define f :: "job_row \<Rightarrow> job_row" where "f = (\<lambda>q. q\<lparr>jr_job := (jr_job q)\<lparr>jb_Progress := p, jb_Checkpoint := Some cp,
    jb_Version := jb_Version (jr_job r) + 1, jb_UpdatedAt := pg_time (utc now)\<rparr>\<rparr>)"
  from assms(1) r obtain rest where v: "jb_ID (lz_Job l') = jb_ID (lz_Job l)" "jb_Version (lz_Job l') = jb_Version (jr_job r) + 1"
    and rec: "recordEvent (update_job db (jb_ID (lz_Job l)) f) ids (lz_Job l') = Inr (db', rest)"
    by (auto simp: store_Checkpoint_def Let_def result_simps p_def f_def)
  note row = held_row_Some [OF r]
  have shape: "lease_shape r" using row_by_job_ok [OF assms(2)] row by (auto simp: row_ok_def)
  have ex: "advances db db' \<and> row_by_job db' = row_by_job (update_job db (jb_ID (lz_Job l)) f)"
    by (rule update_record_ok [OF assms(2) _ _ _ v(1) _ rec, of r]) (use row shape v in \<open>simp_all add: f_def row_keeps_def lease_shape_def\<close>)
  moreover have "row_by_job db' (jb_ID (lz_Job l)) = Some (f r)" using ex row by (simp add: row_by_job_update f_def)
  ultimately show ?thesis using v by (simp add: f_def)
qed


lemma close_attempts_ok:
  "job_db_ok db \<Longrightarrow> job_db_ok (close_attempts p st now code db) \<and> row_by_job (close_attempts p st now code db) = row_by_job db"
  unfolding close_attempts_def by (rule attempts_map_ok) auto

lemma recordDeliveryEvent_ok:
  "recordDeliveryEvent db ids v t c a = Inr (db', rest) \<Longrightarrow> job_db_ok db \<Longrightarrow> job_db_ok db' \<and> row_by_job db' = row_by_job db"
  unfolding recordDeliveryEvent_def by (blast dest: insert_delivery_ok)

lemma advances_rows: "advances a b \<Longrightarrow> job_db_ok c \<Longrightarrow> row_by_job c = row_by_job b \<Longrightarrow> advances a c"
  by (simp add: advances_def grows_def)

lemma close_update_record_ok:
  assumes "job_db_ok db" "\<And>r. jb_ID (jr_job (f r)) = jb_ID (jr_job r)" "row_by_job db i = Some r" "row_keeps r (f r)"
    "jb_ID v = i" "jb_Version v \<le> jb_Version (jr_job (f r))"
    "recordEvent (close_attempts p st now code (update_job db i f)) ids v = Inr (db', rest)"
  shows "advances db db' \<and> row_by_job db' = row_by_job (update_job db i f)"
proof -
  have u: "job_db_ok (update_job db i f) \<and> grows db (update_job db i f)"
    by (rule update_job_ok [OF assms(1,2)]) (use assms(3,4) in simp)
  note c = close_attempts_ok [OF conjunct1 [OF u], of p st now code]
  have "row_by_job (close_attempts p st now code (update_job db i f)) (jb_ID v) = Some (f r)"
    using assms(3,5) c row_by_job_update [of f, OF assms(2)] by simp
  from recordEvent_ok [OF assms(7) conjunct1 [OF c] this assms(6)] u c show ?thesis
    by (auto simp: advances_def grows_def)
qed

lemma store_finish_advances:
  assumes "store_finish db l st code retry now ids = Inr db'" "job_db_ok db" "st \<noteq> Running"
    "row_by_job db (jb_ID (lz_Job l)) = Some r" "jb_Version (lz_Job l) \<le> jb_Version (jr_job r)"
  shows "advances db db'"
proof -
  define again where "again = (st = Failed \<and> lz_Attempt l < jr_MaxAttempts r \<and> retry \<ge> 0)"
  define final where "final = (if again then Queued else st)"
  define available where "available = (if again then time_add (utc now) (if retry = 0 then retry_backoff (lz_Attempt l) else retry) else utc now)"
  define v where "v = (lz_Job l)\<lparr>jb_State := final, jb_Version := jb_Version (lz_Job l) + 1, jb_UpdatedAt := utc now, jb_Failure := code,
    jb_FinishedAt := (if job_terminal final then Some (utc now) else jb_FinishedAt (lz_Job l))\<rparr>"
  have final: "final \<noteq> Running" using assms(3) by (simp add: final_def)
  obtain db3 rest where rec: "recordEvent (close_attempts (\<lambda>a. ja_ID a = lz_AttemptID l) st (utc now) code
      (update_job db (jb_ID (lz_Job l)) (finished_row final code (utc now) available))) ids v = Inr (db3, rest)"
    and out: "db' = db3 \<or> (\<exists>t a q. recordDeliveryEvent db3 rest v t (jr_CorrelationID r) a = Inr (db', q))"
    using assms(1,4) by (fastforce simp: store_finish_def Let_def result_simps v_def final_def available_def again_def split: if_splits)
  have "advances db db3"
    by (rule conjunct1 [OF close_update_record_ok [OF assms(2) _ assms(4) _ _ _ rec]])
       (use final assms(5) in \<open>simp_all add: finished_row_def row_keeps_def lease_shape_def v_def\<close>)
  with out show ?thesis by (metis advances_def advances_rows recordDeliveryEvent_ok)
qed

text \<open>The expired rows are read before any is recovered, and recovering one leaves the others as they were.\<close>

definition expired_now :: "job_db \<Rightarrow> expired_job \<Rightarrow> bool" where
  "expired_now db t \<longleftrightarrow> (\<exists>r. row_by_job db (jb_ID (ex_value t)) = Some r \<and> jb_Version (ex_value t) = jb_Version (jr_job r) \<and>
     jb_ProjectID (ex_value t) = jb_ProjectID (jr_job r) \<and> jb_State (jr_job r) = Running)"


lemma close_update: "update_job (close_attempts p st now code db) i f = close_attempts p st now code (update_job db i f)"
  by (simp add: update_job_def close_attempts_def)

lemma recovered_value_simps [simp]:
  "jb_ID (recovered_value t now) = jb_ID (ex_value t)" "jb_ProjectID (recovered_value t now) = jb_ProjectID (ex_value t)"
  "jb_Version (recovered_value t now) = jb_Version (ex_value t) + 1" "jb_State (recovered_value t now) \<noteq> Running"
  by (simp_all add: recovered_value_def Let_def)

lemma recovered_row_keeps:
  "row_by_job db (jb_ID (ex_value t)) = Some r \<Longrightarrow> expired_now db t \<Longrightarrow> row_keeps r (recovered_row (recovered_value t now) now r)"
  by (auto simp: recovered_row_def row_keeps_def lease_shape_def expired_now_def)

definition recovered_rows :: "gotime \<Rightarrow> expired_job list \<Rightarrow> (int64 \<Rightarrow> job_row option) \<Rightarrow> int64 \<Rightarrow> job_row option" where
  "recovered_rows now ts rows j = (case find (\<lambda>t. jb_ID (ex_value t) = j) ts of None \<Rightarrow> rows j
     | Some t \<Rightarrow> map_option (recovered_row (recovered_value t now) now) (rows j))"

lemma recover_one_advances:
  assumes "recover_one db ids now t = Inr (db', rest)" "job_db_ok db" "expired_now db t"
  shows "advances db db' \<and> row_by_job db' = recovered_rows now [t] (row_by_job db)"
proof -
  obtain r where r: "row_by_job db (jb_ID (ex_value t)) = Some r" and v: "jb_Version (ex_value t) = jb_Version (jr_job r)"
    using assms(3) by (auto simp: expired_now_def)
  let ?f = "recovered_row (recovered_value t now) now" and ?i = "jb_ID (ex_value t)"
  have id: "jb_ID (jr_job (?f q)) = jb_ID (jr_job q)" for q by (simp add: recovered_row_def)
  obtain db3 rest3 ty where rec: "recordEvent (close_attempts (\<lambda>a. ja_JobID a = ?i) Failed now ''lease_expired''
      (update_job db ?i ?f)) ids (recovered_value t now) = Inr (db3, rest3)"
    and out: "recordDeliveryEvent db3 rest3 (recovered_value t now) ty (ex_correlationID t) now = Inr (db', rest)"
    using assms(1) by (auto simp: recover_one_def Let_def result_simps close_update)
  have ex: "advances db db3 \<and> row_by_job db3 = row_by_job (update_job db ?i ?f)"
    by (rule close_update_record_ok [OF assms(2) id r recovered_row_keeps [OF r assms(3)] _ _ rec]) (simp_all add: recovered_row_def v)
  from recordDeliveryEvent_ok [OF out] ex have "job_db_ok db' \<and> row_by_job db' = row_by_job db3" by (simp add: advances_def)
  moreover have "row_by_job (update_job db ?i ?f) j = recovered_rows now [t] (row_by_job db) j" for j
    using row_by_job_update [of ?f, OF id, of db ?i j] by (simp add: recovered_rows_def)
  ultimately show ?thesis using ex advances_rows [of db db3 db'] by (simp add: fun_eq_iff)
qed

lemma expired_now_rows: "row_by_job db' j = row_by_job db j \<Longrightarrow> jb_ID (ex_value t) = j \<Longrightarrow> expired_now db' t = expired_now db t"
  by (simp add: expired_now_def)

lemma recovered_rows_other: "jb_ID (ex_value t) \<noteq> j \<Longrightarrow> recovered_rows now [t] rows j = rows j"
  by (simp add: recovered_rows_def)

lemma recovered_rows_Cons:
  assumes "jb_ID (ex_value t) \<notin> (\<lambda>t. jb_ID (ex_value t)) ` set ts"
  shows "recovered_rows now ts (recovered_rows now [t] rows) = recovered_rows now (t # ts) rows"
proof
  have "find (\<lambda>u. jb_ID (ex_value u) = jb_ID (ex_value t)) ts = None" by (metis (mono_tags, lifting) assms find_None_iff image_eqI)
  then show "recovered_rows now ts (recovered_rows now [t] rows) j = recovered_rows now (t # ts) rows j" for j
    by (cases "jb_ID (ex_value t) = j") (auto simp: recovered_rows_def cong: option.case_cong)
qed

definition all_expired :: "job_db \<Rightarrow> expired_job list \<Rightarrow> bool" where
  "all_expired db ts \<longleftrightarrow> distinct (map (\<lambda>t. jb_ID (ex_value t)) ts) \<and> (\<forall>t \<in> set ts. expired_now db t)"

lemma all_expired_step:
  assumes "all_expired db (t # ts)" "row_by_job db' = recovered_rows now [t] (row_by_job db)"
  shows "all_expired db' ts"
proof -
  have "expired_now db' u" if u: "u \<in> set ts" for u
  proof -
    have "jb_ID (ex_value t) \<noteq> jb_ID (ex_value u)" using assms(1) u by (auto simp: all_expired_def image_iff)
    then show ?thesis using assms u expired_now_rows [of db' _ db u] recovered_rows_other by (simp add: all_expired_def)
  qed
  then show ?thesis using assms(1) by (simp add: all_expired_def)
qed

lemma recover_all_advances:
  "recover_all db ids now ts = Inr db' \<Longrightarrow> job_db_ok db \<Longrightarrow> all_expired db ts \<Longrightarrow>
   advances db db' \<and> row_by_job db' = recovered_rows now ts (row_by_job db)"
proof (induction ts arbitrary: db ids)
  case Nil
  then show ?case by (simp add: advances_def recovered_rows_def fun_eq_iff)
next
  case (Cons t ts)
  then obtain db1 rest where one: "recover_one db ids now t = Inr (db1, rest)" and more: "recover_all db1 rest now ts = Inr db'"
    by (auto simp: result_simps)
  have t: "expired_now db t" and fresh: "jb_ID (ex_value t) \<notin> (\<lambda>t. jb_ID (ex_value t)) ` set ts"
    using Cons.prems(3) by (auto simp: all_expired_def)
  note s = recover_one_advances [OF one Cons.prems(2) t]
  have "advances db1 db' \<and> row_by_job db' = recovered_rows now ts (row_by_job db1)"
    by (rule Cons.IH [OF more]) (use s all_expired_step [OF Cons.prems(3)] in \<open>auto simp: advances_def\<close>)
  then show ?case using s recovered_rows_Cons [OF fresh] advances_trans by metis
qed

lemma expired_jobs_members: "t \<in> set (expired_jobs db now) \<longleftrightarrow> (\<exists>r \<in> set (jt_jobs db). lease_expired now r \<and>
   t = \<lparr>ex_value = zero_job\<lparr>jb_ID := jb_ID (jr_job r), jb_ProjectID := jb_ProjectID (jr_job r),
       jb_Kind := jb_Kind (jr_job r), jb_Version := jb_Version (jr_job r)\<rparr>,
     ex_maxAttempts = jr_MaxAttempts r, ex_attemptCount = int (length (attempts_of db (jb_ID (jr_job r)))),
     ex_correlationID = jr_CorrelationID r\<rparr>)"
  by (auto simp: expired_jobs_def image_iff)

lemma distinct_map_sort_func: "distinct (map f xs) \<Longrightarrow> distinct (map f (sort_func cmp xs))"
  by (metis mset_map mset_sort_func mset_eq_imp_distinct_iff)

lemma all_expired_jobs:
  assumes "job_db_ok db"
  shows "all_expired db (expired_jobs db now)"
proof -
  have "distinct (map (\<lambda>r. jb_ID (jr_job r)) (filter (lease_expired now) (jt_jobs db)))"
    using assms by (simp add: job_db_ok_def distinct_map_filter)
  then have "distinct (map (\<lambda>r. jb_ID (jr_job r)) (sort_func cmp_job_id (filter (lease_expired now) (jt_jobs db))))"
    by (rule distinct_map_sort_func)
  then have "distinct (map (\<lambda>t. jb_ID (ex_value t)) (expired_jobs db now))" by (simp add: expired_jobs_def comp_def)
  moreover have "expired_now db t" if "t \<in> set (expired_jobs db now)" for t
    using that by (auto simp: expired_jobs_members expired_now_def lease_expired_def row_by_job_mem [OF assms])
  ultimately show ?thesis by (simp add: all_expired_def)
qed

lemma RecoverExpired_rows:
  assumes "RecoverExpired db now ids = Inr (db', n)" "job_db_ok db"
  shows "advances db db' \<and> row_by_job db' = recovered_rows (utc now) (expired_jobs db (utc now)) (row_by_job db)"
  using assms(1) recover_all_advances [OF _ assms(2) all_expired_jobs [OF assms(2)]]
  by (auto simp: RecoverExpired_def Let_def result_simps)

lemma job_Cancel_effect:
  assumes "job_Cancel j now = Inr v"
  shows "jb_ID v = jb_ID j \<and> jb_ProjectID v = jb_ProjectID j \<and> (v = j \<or> jb_Version v = jb_Version j + 1)"
  using assms by (auto simp: job_Cancel_def job_Transition_def Let_def split: if_splits)

lemma CancelJob_advances:
  assumes "CancelJob db actor i req now ids = Inr (db', v)" "job_db_ok db"
  shows "advances db db'"
proof (cases "db' = db")
  case True
  with assms(2) show ?thesis by (simp add: advances_def)
next
  case False
  define f :: "Job \<Rightarrow> job_row \<Rightarrow> job_row" where "f v = (\<lambda>r. r\<lparr>jr_job := (jr_job r)\<lparr>jb_State := Cancelled, jb_Version := jb_Version v,
    jb_UpdatedAt := pg_time (jb_UpdatedAt v), jb_FinishedAt := Some (pg_time (jb_UpdatedAt v))\<rparr>, jr_Holder := None, jr_ExpiresAt := None\<rparr>)" for v
  from assms(1) False obtain r db2 rest rest2 where r: "row_by_job db i = Some r" and v: "job_Cancel (jr_job r) now = Inr v"
    and rec: "recordEvent (update_job db i (f v)) ids v = Inr (db2, rest)"
    and out: "insert_delivery db2 rest v ''job.cancelled'' req None = Inr (db', rest2)"
    by (auto simp: CancelJob_def result_simps Let_def f_def map_sum_Inr_iff [abs_def] split: option.splits if_splits)
  note e = job_Cancel_effect [OF v]
  have "advances db db2"
    by (rule conjunct1 [OF update_record_ok [OF assms(2) _ r _ _ _ rec]])
       (use e row_by_job_id [OF r] in \<open>auto simp: f_def row_keeps_def lease_shape_def\<close>)
  with insert_delivery_ok [OF out] show ?thesis by (metis advances_def advances_rows)
qed

lemma job_New_effect:
  assumes "job_New i p k s t c now = Inr v"
  shows "0 < i \<and> jb_ID v = i \<and> jb_Version v = 1 \<and> jb_State v = Queued"
  using assms by (auto simp: job_New_def Let_def split: if_splits)

lemma coalesced_row_keeps: "row_ok db r \<Longrightarrow> row_keeps r (coalesced_row from to dbnow r)"
  by (auto simp: coalesced_row_def row_keeps_def row_ok_def lease_shape_def)

lemma insertJob_advances:
  assumes "insertJob db v actor req key = Inr db'" "job_db_ok db" "jb_State v = Queued"
  shows "advances db db' \<and> (\<exists>r. row_by_job db' (jb_ID v) = Some r \<and> jb_Version (jr_job r) = jb_Version v)"
proof -
  define new where "new = last (jt_jobs db')"
  have new: "jb_ID (jr_job new) = jb_ID v" "jb_Version (jr_job new) = jb_Version v" "jb_ProjectID (jr_job new) = jb_ProjectID v"
      "jb_State (jr_job new) = Queued" "jr_Holder new = None" "jr_ExpiresAt new = None" "jr_MaxAttempts new = 5"
    and db': "db' = db\<lparr>jt_jobs := jt_jobs db @ [new]\<rparr>"
    and ok: "row_by_job db (jb_ID v) = None" "0 < jb_ID v" "0 \<le> jb_ProjectID v" "0 < jb_Version v"
    using assms(1,3) by (auto simp: insertJob_def new_def split: if_splits)
  have rows: "row_by_job db' j = (if j = jb_ID v then Some new else row_by_job db j)" for j
    using ok(1) new(1) by (auto simp: row_by_job_def db' find_append split: option.split)
  have att: "attempts_of db' = attempts_of db" "jt_events db' = jt_events db" "jt_attempts db' = jt_attempts db" by (simp_all add: db' attempts_of_def fun_eq_iff)
  have none: "attempts_of db (jb_ID v) = []" "e \<in> set (jt_events db) \<Longrightarrow> je_JobID e \<noteq> jb_ID v" for e
    using ok(1) job_db_ok_known [OF assms(2)] by (fastforce simp: attempts_of_def filter_empty_conv)+
  have same: "row_ok db' = row_ok db" by (simp add: row_ok_def fun_eq_iff att)
  have "row_ok db new" using none ok new by (auto simp: row_ok_def lease_shape_def)
  moreover have "jb_ID v \<notin> (\<lambda>r. jb_ID (jr_job r)) ` set (jt_jobs db)" using ok(1) row_by_job_mem [OF assms(2)] by force
  moreover have "row_by_job db x \<noteq> None \<Longrightarrow> row_by_job db' x \<noteq> None" for x by (simp add: rows)
  ultimately have "job_db_ok db'" using assms(2) unfolding job_db_ok_def same att by (auto simp: db' new list_all_iff)
  moreover have "grows db db'" using ok(1) by (auto simp: grows_def rows)
  ultimately show ?thesis using new by (simp add: advances_def rows)
qed

lemma queueJob_advances:
  assumes "queueJob db actor p kind scope key req from to now dbnow ids = Inr (db', v)" "job_db_ok db"
  shows "advances db db'"
proof -
  obtain i rest q0 where ids: "ids = i # rest" and q0: "job_New i p kind scope None True now = Inr q0"
    using assms(1) by (auto simp: queueJob_def result_simps split: list.splits)
  define q where "q = q0\<lparr>jb_RequestedFrom := from, jb_RequestedTo := to\<rparr>"
  have q: "jb_ID q = i" "jb_Version q = 1" "jb_State q = Queued" using job_New_effect [OF q0] by (simp_all add: q_def)
  show ?thesis
  proof (cases "active_with_key db (pr_Workspace actor) key")
    case None
    then obtain db1 db2 rest2 rest3 where ins: "insertJob db q actor req key = Inr db1" and rec: "recordEvent db1 rest q = Inr (db2, rest2)"
      and out: "insert_delivery db2 rest2 q ''job.queued'' req None = Inr (db', rest3)"
      using assms(1) ids q0 by (auto simp: queueJob_def result_simps q_def Let_def)
    obtain r where a: "advances db db1" and r: "row_by_job db1 (jb_ID q) = Some r" "jb_Version q \<le> jb_Version (jr_job r)"
      using insertJob_advances [OF ins assms(2) q(3)] by auto
    note e = recordEvent_ok [OF rec _ r]
    show ?thesis using a e insert_delivery_ok [OF out] by (auto simp: advances_def intro: grows_trans)
  next
    case (Some r)
    then have r: "r \<in> set (jt_jobs db)" by (auto simp: active_with_key_def find_Some_iff)
    note row = row_by_job_mem [OF assms(2) r]
    obtain rest2 where rec: "recordEvent (update_job db (jb_ID (jr_job r)) (coalesced_row from to dbnow)) rest
        (jr_job (coalesced_row from to dbnow r)) = Inr (db', rest2)"
      using assms(1) ids q0 Some by (auto simp: queueJob_def result_simps Let_def split: if_splits)
    show ?thesis
      by (rule conjunct1 [OF update_record_ok [OF assms(2) _ row coalesced_row_keeps [OF row_by_job_ok [OF assms(2) row]] _ _ rec]])
         (simp_all add: coalesced_row_def)
  qed
qed

section \<open>The system of tables and leases\<close>

text \<open>
  Workers keep the leases they were handed, old ones included, and may use any of them at any time.
  A call that fails changes nothing; one that finishes a job drops no lease.
\<close>

record job_sys =
  ys_db :: job_db
  ys_leases :: "JobLease list"

datatype jobstore_op =
    DoClaim int64 string duration gotime gotime "int64 list" "int64 list"
  | DoHeartbeat nat duration gotime
  | DoCheckpoint nat int64 Checkpoint gotime "int64 list"
  | DoComplete nat gotime "int64 list"
  | DoFail nat string duration gotime "int64 list"
  | DoRecover gotime "int64 list"
  | DoCancel Principal int64 string gotime "int64 list"
  | DoQueue Principal int64 string string string string "gotime option" "gotime option" gotime gotime "int64 list"

definition lease_at :: "job_sys \<Rightarrow> nat \<Rightarrow> jobstore_error + JobLease" where
  "lease_at s k = (if k < length (ys_leases s) then Inr (ys_leases s ! k) else Inl JsNotFound)"

definition hand_out :: "job_sys \<Rightarrow> job_db \<times> JobLease \<Rightarrow> job_sys" where
  "hand_out s p = s\<lparr>ys_db := fst p, ys_leases := ys_leases s @ [snd p]\<rparr>"

fun apply_jobstore :: "jobstore_op \<Rightarrow> job_sys \<Rightarrow> jobstore_error + job_sys" where
  "apply_jobstore (DoClaim j h ttl now dbnow locked ids) s =
     bindE (store_claim (ys_db s) j h ttl now dbnow locked ids) (\<lambda>(db, l).
     Inr (case l of None \<Rightarrow> s\<lparr>ys_db := db\<rparr> | Some l \<Rightarrow> hand_out s (db, l)))"
| "apply_jobstore (DoHeartbeat k ttl now) s =
     bindE (lease_at s k) (\<lambda>l. bindE (Heartbeat (ys_db s) l ttl now) (\<lambda>p. Inr (hand_out s p)))"
| "apply_jobstore (DoCheckpoint k n cp now ids) s =
     bindE (lease_at s k) (\<lambda>l. bindE (store_Checkpoint (ys_db s) l n cp now ids) (\<lambda>p. Inr (hand_out s p)))"
| "apply_jobstore (DoComplete k now ids) s =
     bindE (lease_at s k) (\<lambda>l. bindE (Complete (ys_db s) l now ids) (\<lambda>db. Inr (s\<lparr>ys_db := db\<rparr>)))"
| "apply_jobstore (DoFail k code retry now ids) s =
     bindE (lease_at s k) (\<lambda>l. bindE (store_Fail (ys_db s) l code retry now ids) (\<lambda>db. Inr (s\<lparr>ys_db := db\<rparr>)))"
| "apply_jobstore (DoRecover now ids) s = bindE (RecoverExpired (ys_db s) now ids) (\<lambda>(db, _). Inr (s\<lparr>ys_db := db\<rparr>))"
| "apply_jobstore (DoCancel actor i req now ids) s = bindE (CancelJob (ys_db s) actor i req now ids) (\<lambda>(db, _). Inr (s\<lparr>ys_db := db\<rparr>))"
| "apply_jobstore (DoQueue actor p kind scope key req from to now dbnow ids) s =
     bindE (queueJob (ys_db s) actor p kind scope key req from to now dbnow ids) (\<lambda>(db, _). Inr (s\<lparr>ys_db := db\<rparr>))"

definition no_jobs :: job_sys where
  "no_jobs = \<lparr>ys_db = \<lparr>jt_jobs = [], jt_attempts = [], jt_events = [], jt_outbox = []\<rparr>, ys_leases = []\<rparr>"

text \<open>The part of an attempt that is never updated, and what a lease knows of the tables.\<close>

definition attempt_key :: "attempt_row \<Rightarrow> int64 \<times> int64 \<times> int \<times> string" where
  "attempt_key a = (ja_ID a, ja_JobID a, ja_Attempt a, ja_WorkerID a)"

definition attempts_kept :: "job_db \<Rightarrow> job_db \<Rightarrow> bool" where
  "attempts_kept db db' \<longleftrightarrow> prefix (map attempt_key (jt_attempts db)) (map attempt_key (jt_attempts db'))"

definition lease_key :: "JobLease \<Rightarrow> int64 \<times> int64 \<times> int \<times> string" where
  "lease_key l = (lz_AttemptID l, jb_ID (lz_Job l), lz_Attempt l, lz_Holder l)"

definition lease_known :: "job_db \<Rightarrow> JobLease \<Rightarrow> bool" where
  "lease_known db l \<longleftrightarrow> lease_key l \<in> attempt_key ` set (jt_attempts db) \<and>
     (\<exists>r. row_by_job db (jb_ID (lz_Job l)) = Some r \<and> jb_Version (lz_Job l) \<le> jb_Version (jr_job r))"

definition job_sys_ok :: "job_sys \<Rightarrow> bool" where
  "job_sys_ok s \<longleftrightarrow> job_db_ok (ys_db s) \<and> (\<forall>l \<in> set (ys_leases s). lease_known (ys_db s) l)"

lemma recordEvent_attempts: "recordEvent db ids v = Inr (db', rest) \<Longrightarrow> jt_attempts db' = jt_attempts db"
  by (auto dest!: recordEvent_effect)

lemma delivery_attempts:
  "insert_delivery db ids v t c a = Inr (db', rest) \<Longrightarrow> jt_attempts db' = jt_attempts db"
  "recordDeliveryEvent db ids v t c b = Inr (db', rest) \<Longrightarrow> jt_attempts db' = jt_attempts db"
  unfolding recordDeliveryEvent_def by (blast dest: insert_delivery_effect)+

lemma close_attempts_key [simp]: "map attempt_key (jt_attempts (close_attempts p st now code db)) = map attempt_key (jt_attempts db)"
  by (simp add: close_attempts_def attempt_key_def)

lemma attempts_kept_simps [simp]: "attempts_kept db db" "attempts_kept db (update_job db i f)"
  "attempts_kept db (close_attempts p st now code db)"
  by (simp_all add: attempts_kept_def)

lemma attempts_kept_trans: "attempts_kept a b \<Longrightarrow> attempts_kept b c \<Longrightarrow> attempts_kept a c"
  by (auto simp: attempts_kept_def)

lemma store_claim_attempts:
  assumes "store_claim db j h ttl now dbnow locked ids = Inr (db', res)"
  shows "attempts_kept db db' \<and> (\<forall>l. res = Some l \<longrightarrow> lease_key l \<in> attempt_key ` set (jt_attempts db'))"
  using assms
  by (auto simp: store_claim_def Let_def result_simps markExhausted_def insert_attempt_def attempts_kept_def attempt_key_def lease_key_def
      dest!: recordEvent_attempts split: if_splits list.splits)

lemma store_finish_attempts:
  assumes "store_finish db l st code retry now ids = Inr db'"
  shows "attempts_kept db db'"
  using assms
  by (auto simp: store_finish_def Let_def result_simps attempts_kept_def dest!: recordEvent_attempts delivery_attempts split: if_splits option.splits)

lemma recover_all_attempts: "recover_all db ids now ts = Inr db' \<Longrightarrow> attempts_kept db db'"
proof (induction ts arbitrary: db ids)
  case (Cons t ts)
  then obtain db1 rest where one: "recover_one db ids now t = Inr (db1, rest)" and tl: "recover_all db1 rest now ts = Inr db'"
    by (auto simp: result_simps)
  have "attempts_kept db db1" using one
    by (auto simp: recover_one_def Let_def result_simps attempts_kept_def dest!: recordEvent_attempts delivery_attempts)
  with Cons.IH [OF tl] show ?case by (rule attempts_kept_trans [rotated])
qed simp

lemma queueJob_attempts: "queueJob db actor p kind scope key req from to now dbnow ids = Inr (db', v) \<Longrightarrow> attempts_kept db db'"
  by (auto simp: queueJob_def insertJob_def Let_def result_simps attempts_kept_def dest!: recordEvent_attempts delivery_attempts
      split: if_splits option.splits list.splits)

lemma CancelJob_attempts: "CancelJob db actor i req now ids = Inr (db', v) \<Longrightarrow> attempts_kept db db'"
  by (auto simp: CancelJob_def Let_def result_simps attempts_kept_def dest!: recordEvent_attempts delivery_attempts split: if_splits option.splits)

lemma lease_known_kept:
  assumes "lease_known db l" "advances db db'" "attempts_kept db db'"
  shows "lease_known db' l"
proof -
  have "attempt_key ` set (jt_attempts db) \<subseteq> attempt_key ` set (jt_attempts db')"
    using set_mono_prefix [OF assms(3) [unfolded attempts_kept_def]] by simp
  then show ?thesis using assms(1,2) unfolding lease_known_def advances_def grows_def by (meson order_trans subsetD)
qed

lemma job_sys_step:
  assumes "job_sys_ok s" "advances (ys_db s) db'" "attempts_kept (ys_db s) db'" "\<forall>l \<in> set new. lease_known db' l"
  shows "job_sys_ok (s\<lparr>ys_db := db', ys_leases := ys_leases s @ new\<rparr>)"
  using assms lease_known_kept by (auto simp: job_sys_ok_def advances_def)

lemma job_sys_step0:
  "job_sys_ok s \<Longrightarrow> advances (ys_db s) db' \<Longrightarrow> attempts_kept (ys_db s) db' \<Longrightarrow> job_sys_ok (s\<lparr>ys_db := db'\<rparr>)"
  using lease_known_kept by (auto simp: job_sys_ok_def advances_def)

lemma lease_at_known: "lease_at s k = Inr l \<Longrightarrow> job_sys_ok s \<Longrightarrow> lease_known (ys_db s) l"
  by (auto simp: lease_at_def job_sys_ok_def split: if_splits)

lemma finish_step:
  assumes "job_sys_ok s" "lease_at s k = Inr l" "store_finish (ys_db s) l st code retry now ids = Inr db'" "st \<noteq> Running"
  shows "job_sys_ok (s\<lparr>ys_db := db'\<rparr>)"
proof (rule job_sys_step0 [OF assms(1)])
  show "advances (ys_db s) db'"
    using lease_at_known [OF assms(2,1)] assms(1) store_finish_advances [OF assms(3) _ assms(4)] by (auto simp: lease_known_def job_sys_ok_def)
qed (rule store_finish_attempts [OF assms(3)])

interpretation jobstore: preserving apply_jobstore job_sys_ok
proof
  fix s t a
  assume ok: "job_sys_ok s" and step: "apply_jobstore a s = Inr t"
  then have db: "job_db_ok (ys_db s)" by (simp add: job_sys_ok_def)
  show "job_sys_ok t"
  proof (cases a)
    case (DoClaim j h ttl now dbnow locked ids)
    with step obtain db' res where c: "store_claim (ys_db s) j h ttl now dbnow locked ids = Inr (db', res)"
      and t: "t = (case res of None \<Rightarrow> s\<lparr>ys_db := db'\<rparr> | Some l \<Rightarrow> hand_out s (db', l))" by (auto simp: result_simps)
    note e = store_claim_advances [OF c db] store_claim_attempts [OF c]
    show ?thesis
    proof (cases res)
      case None
      with t e ok show ?thesis by (auto intro: job_sys_step0)
    next
      case (Some l)
      with e have "lease_known db' l" by (auto simp: lease_known_def)
      with Some t e ok show ?thesis using job_sys_step [OF ok, of db' "[l]"] by (auto simp: hand_out_def)
    qed
  next
    case (DoHeartbeat k ttl now)
    with step obtain l db' l' where l: "lease_at s k = Inr l" and h: "Heartbeat (ys_db s) l ttl now = Inr (db', l')" and t: "t = hand_out s (db', l')"
      by (auto simp: result_simps)
    have keys: "attempts_kept (ys_db s) db' \<and> lease_key l' = lease_key l"
      using h by (auto simp: Heartbeat_def Let_def lease_key_def split: if_splits option.splits)
    note e = Heartbeat_advances [OF h db]
    have "lease_known db' l" by (rule lease_known_kept [OF lease_at_known [OF l ok]]) (use e keys in auto)
    with keys e have "lease_known db' l'" by (simp add: lease_known_def)
    with t keys e show ?thesis using job_sys_step [OF ok, of db' "[l']"] by (simp add: hand_out_def)
  next
    case (DoCheckpoint k n cp now ids)
    with step obtain l db' l' where l: "lease_at s k = Inr l" and h: "store_Checkpoint (ys_db s) l n cp now ids = Inr (db', l')"
      and t: "t = hand_out s (db', l')" by (auto simp: result_simps)
    have keys: "attempts_kept (ys_db s) db' \<and> lease_key l' = lease_key l"
      using h by (auto simp: store_Checkpoint_def Let_def lease_key_def result_simps attempts_kept_def dest!: recordEvent_attempts split: option.splits)
    note e = store_Checkpoint_advances [OF h db]
    have "lease_known db' l" by (rule lease_known_kept [OF lease_at_known [OF l ok]]) (use e keys in auto)
    with keys e have "lease_known db' l'" by (simp add: lease_known_def)
    with t keys e show ?thesis using job_sys_step [OF ok, of db' "[l']"] by (simp add: hand_out_def)
  next
    case (DoComplete k now ids)
    with step show ?thesis by (auto simp: result_simps Complete_def intro: finish_step [OF ok])
  next
    case (DoFail k code retry now ids)
    with step show ?thesis by (auto simp: result_simps store_Fail_def intro: finish_step [OF ok])
  qed (use step ok db in \<open>auto simp: result_simps RecoverExpired_def Let_def
      intro!: job_sys_step0 dest: queueJob_advances queueJob_attempts CancelJob_advances CancelJob_attempts
        recover_all_attempts recover_all_advances [OF _ _ all_expired_jobs]\<close>)
qed

lemma no_jobs_ok [simp]: "job_sys_ok no_jobs"
  by (simp add: no_jobs_def job_sys_ok_def job_db_ok_def)

lemma reachable_db_ok: "job_db_ok (ys_db (run_ops apply_jobstore no_jobs ops))"
  using jobstore.run_well_formed [OF no_jobs_ok] by (simp add: job_sys_ok_def)

section \<open>Properties\<close>

abbreviation reachable_jobs :: "jobstore_op list \<Rightarrow> job_sys" where
  "reachable_jobs ops \<equiv> run_ops apply_jobstore no_jobs ops"

lemma row_ok_meaning:
  assumes "row_ok db r"
  shows "let as = attempts_of db (jb_ID (jr_job r)) in
     length as \<le> 5 \<and> map ja_Attempt as = map int [1..<Suc (length as)] \<and>
     (jb_State (jr_job r) = Running \<longleftrightarrow> jr_Holder r \<noteq> None) \<and> (jr_Holder r = None \<longleftrightarrow> jr_ExpiresAt r = None) \<and>
     list_all (\<lambda>e. je_Version e \<le> jb_Version (jr_job r)) (filter (\<lambda>e. je_JobID e = jb_ID (jr_job r)) (jt_events db))"
proof -
  have "length (attempts_of db (jb_ID (jr_job r))) \<le> 5" using assms by (simp add: row_ok_def)
  moreover have "map ja_Attempt (attempts_of db (jb_ID (jr_job r))) = map int [1..<Suc (length (attempts_of db (jb_ID (jr_job r))))]"
    using assms by (simp add: row_ok_def numbered_def)
  moreover have "list_all (\<lambda>e. je_Version e \<le> jb_Version (jr_job r)) (filter (\<lambda>e. je_JobID e = jb_ID (jr_job r)) (jt_events db))"
    using assms by (auto simp: row_ok_def list_all_iff)
  moreover have "(jb_State (jr_job r) = Running \<longleftrightarrow> jr_Holder r \<noteq> None) \<and> (jr_Holder r = None \<longleftrightarrow> jr_ExpiresAt r = None)"
    using assms unfolding row_ok_def lease_shape_def by blast
  ultimately show ?thesis unfolding Let_def by blast
qed

text \<open>
  C8: After any sequence of claims, heartbeats, checkpoints, completions, failures, recoveries, cancellations and queueing
  requests, by any workers with leases of any age, every job has at most five attempts, numbered from one without gaps, is
  leased exactly while it runs, and its version is at least that of every event recorded for it.
\<close>
theorem job_attempts_bounded:
  "list_all (\<lambda>r. let as = attempts_of (ys_db (reachable_jobs ops)) (jb_ID (jr_job r)) in
     length as \<le> 5 \<and> map ja_Attempt as = map int [1..<Suc (length as)] \<and>
     (jb_State (jr_job r) = Running \<longleftrightarrow> jr_Holder r \<noteq> None) \<and> (jr_Holder r = None \<longleftrightarrow> jr_ExpiresAt r = None) \<and>
     list_all (\<lambda>e. je_Version e \<le> jb_Version (jr_job r)) (filter (\<lambda>e. je_JobID e = jb_ID (jr_job r)) (jt_events (ys_db (reachable_jobs ops)))))
   (jt_jobs (ys_db (reachable_jobs ops)))"
proof (rule list.pred_mono_strong)
  show "list_all (row_ok (ys_db (reachable_jobs ops))) (jt_jobs (ys_db (reachable_jobs ops)))"
    using reachable_db_ok [of ops] by (simp only: job_db_ok_def)
qed (rule row_ok_meaning)

lemma numbered_nth:
  assumes "numbered as" "i < length as"
  shows "ja_Attempt (as ! i) = int i + 1"
proof -
  have "map ja_Attempt as ! i = map int [1..<Suc (length as)] ! i" using assms(1) by (simp only: numbered_def)
  then show ?thesis using assms(2) by (simp del: upt_Suc)
qed

lemma numbered_unique:
  "numbered as \<Longrightarrow> i < length as \<Longrightarrow> j < length as \<Longrightarrow> ja_Attempt (as ! i) = ja_Attempt (as ! j) \<Longrightarrow> i = j"
  by (simp add: numbered_nth)

lemma attempt_unique:
  assumes "job_db_ok db" "a \<in> set (jt_attempts db)" "b \<in> set (jt_attempts db)" "ja_JobID a = ja_JobID b" "ja_Attempt a = ja_Attempt b"
  shows "a = b"
proof -
  obtain r where r: "row_by_job db (ja_JobID a) = Some r" using job_db_ok_known(1) [OF assms(1,2)] by auto
  have num: "numbered (attempts_of db (ja_JobID a))" using row_by_job_ok [OF assms(1) r] row_by_job_id [OF r] by (auto simp: row_ok_def)
  have "a \<in> set (attempts_of db (ja_JobID a))" "b \<in> set (attempts_of db (ja_JobID a))" using assms by (auto simp: attempts_of_def)
  then show ?thesis using numbered_unique [OF num] assms(5) by (metis in_set_conv_nth)
qed

text \<open>
  An attempt of a job belongs to one worker: two leases that were handed out for the same job and the same attempt, at
  any time, have the same holder and the same attempt identifier.
\<close>
theorem attempt_single_holder:
  assumes "l \<in> set (ys_leases (reachable_jobs ops))" "m \<in> set (ys_leases (reachable_jobs ops))"
    "jb_ID (lz_Job l) = jb_ID (lz_Job m)" "lz_Attempt l = lz_Attempt m"
  shows "lz_Holder l = lz_Holder m \<and> lz_AttemptID l = lz_AttemptID m"
proof -
  have ok: "job_sys_ok (reachable_jobs ops)" by (rule jobstore.run_well_formed) simp
  then have "lease_key k \<in> attempt_key ` set (jt_attempts (ys_db (reachable_jobs ops)))" if "k \<in> set (ys_leases (reachable_jobs ops))" for k
    using that by (simp add: job_sys_ok_def lease_known_def)
  from this [OF assms(1)] this [OF assms(2)]
  obtain a b where ab: "a \<in> set (jt_attempts (ys_db (reachable_jobs ops)))" "lease_key l = attempt_key a"
      "b \<in> set (jt_attempts (ys_db (reachable_jobs ops)))" "lease_key m = attempt_key b"
    by blast
  then have "a = b" using assms(3,4) by (intro attempt_unique [OF reachable_db_ok [of ops]]) (auto simp: lease_key_def attempt_key_def)
  with ab show ?thesis by (simp add: lease_key_def attempt_key_def)
qed

text \<open>
  C9: A worker that has committed a checkpoint cannot report a failure with the lease it claimed the job with: the event of
  the failure has the version of the event of the checkpoint, so the transaction is refused whatever the code and the delay,
  and the job stays running under the dead lease. \<open>runLease\<close> reports every failure of \<open>execute\<close> in that way.
\<close>
theorem failure_after_checkpoint_refused:
  assumes "store_Checkpoint db l n cp now ids = Inr (db', l')"
    "map_option (\<lambda>r. jb_Version (jr_job r)) (row_by_job db (jb_ID (lz_Job l))) = Some (jb_Version (lz_Job l))" "ids' \<noteq> []"
  shows "store_Fail db' l code retry later ids' = Inl JsConstraint"
proof -
  obtain r where r: "held_row db l (utc now) = Some r" using assms(1) by (auto simp: store_Checkpoint_def Let_def split: option.splits)
  note row = held_row_Some [OF r]
  define p where "p = (jb_Progress (jr_job r))\<lparr>pg_Completed := n\<rparr>"
  define f :: "job_row \<Rightarrow> job_row" where "f = (\<lambda>q. q\<lparr>jr_job := (jr_job q)\<lparr>jb_Progress := p, jb_Checkpoint := Some cp,
    jb_Version := jb_Version (jr_job r) + 1, jb_UpdatedAt := pg_time (utc now)\<rparr>\<rparr>)"
  obtain rest where id: "jb_ID (lz_Job l') = jb_ID (lz_Job l)" and v: "jb_Version (lz_Job l') = jb_Version (lz_Job l) + 1"
    and rec: "recordEvent (update_job db (jb_ID (lz_Job l)) f) ids (lz_Job l') = Inr (db', rest)"
    using assms(1,2) r row by (auto simp: store_Checkpoint_def Let_def result_simps p_def f_def)
  from recordEvent_effect [OF rec] obtain i where
    db': "db' = (update_job db (jb_ID (lz_Job l)) f)\<lparr>jt_events := jt_events db @ [\<lparr>je_ID = i, je_JobID = jb_ID (lz_Job l'),
      je_Version = jb_Version (lz_Job l'), je_Job = lz_Job l'\<rparr>]\<rparr>" by auto
  have row': "row_by_job db' (jb_ID (lz_Job l)) = Some (f r)"
    using row row_by_job_update [of f db "jb_ID (lz_Job l)" "jb_ID (lz_Job l)"] by (simp add: db' row_by_job_def f_def)
  have held: "jr_Holder (f r) = Some (lz_Holder l)" "jb_State (jr_job (f r)) = Running" using row by (simp_all add: f_def)
  have clash: "recordEvent (close_attempts q Failed t c (update_job db' (jb_ID (lz_Job l)) g)) ids' w = Inl JsConstraint"
    if "jb_ID w = jb_ID (lz_Job l)" "jb_Version w = jb_Version (lz_Job l) + 1" for q t c g w
    using assms(3) that by (auto simp: recordEvent_def close_attempts_def db' id v split: list.split)
  show ?thesis by (simp add: store_Fail_def store_finish_def row' held Let_def clash)
qed

text \<open>Recovery returns when the calls of \<open>Next\<close> do.\<close>

definition fresh_ids :: "job_db \<Rightarrow> int64 list \<Rightarrow> bool" where
  "fresh_ids db ids \<longleftrightarrow> distinct ids \<and>
     list_all (\<lambda>i. 0 < i \<and> i \<notin> set (map je_ID (jt_events db)) \<and> i \<notin> set (map jd_ID (jt_outbox db))) ids"

lemma insert_delivery_total:
  assumes "0 < k" "k \<notin> set (map jd_ID (jt_outbox db))" "0 < (if jb_ProjectID v = 0 then jb_ID v else jb_ProjectID v)"
  shows "\<exists>db'. insert_delivery db (k # rest) v ty c a = Inr (db', rest) \<and> jt_events db' = jt_events db \<and>
    map jd_ID (jt_outbox db') = map jd_ID (jt_outbox db) @ [k]"
  using assms by (simp add: insert_delivery_def Let_def)

lemma recover_one_total:
  assumes "job_db_ok db" "expired_now db t" "fresh_ids db (i # k # rest)"
  shows "\<exists>db'. recover_one db (i # k # rest) now t = Inr (db', rest) \<and> fresh_ids db' rest"
proof -
  let ?v = "recovered_value t now"
  let ?db = "close_attempts (\<lambda>a. ja_JobID a = jb_ID (ex_value t)) Failed now ''lease_expired''
    (update_job db (jb_ID (ex_value t)) (recovered_row ?v now))"
  obtain r where r: "row_by_job db (jb_ID (ex_value t)) = Some r" "jb_Version (ex_value t) = jb_Version (jr_job r)"
      "jb_ProjectID (ex_value t) = jb_ProjectID (jr_job r)"
    using assms(2) by (auto simp: expired_now_def)
  have ok: "row_ok db r" by (rule row_by_job_ok [OF assms(1) r(1)])
  have id: "jb_ID (jr_job r) = jb_ID (ex_value t)" using row_by_job_id [OF r(1)] by simp
  have tables: "jt_events ?db = jt_events db" "jt_outbox ?db = jt_outbox db" by (simp_all add: close_attempts_def)
  have "row_by_job ?db (jb_ID (ex_value t)) \<noteq> None"
    using r(1) row_by_job_update [of "recovered_row ?v now" db "jb_ID (ex_value t)" "jb_ID (ex_value t)"]
    by (simp add: row_by_job_def close_attempts_def recovered_row_def)
  moreover have "\<not> list_ex (\<lambda>e. je_JobID e = jb_ID ?v \<and> je_Version e = jb_Version ?v) (jt_events db)"
    using ok r(2) id by (auto simp: row_ok_def list_ex_iff)
  moreover have "0 < jb_Version ?v" using ok r(2) by (simp add: row_ok_def)
  ultimately obtain db3 where rec: "recordEvent ?db (i # k # rest) ?v = Inr (db3, k # rest)"
    and db3: "map je_ID (jt_events db3) = map je_ID (jt_events db) @ [i]" "jt_outbox db3 = jt_outbox db"
    using assms(3) tables by (auto simp: recordEvent_def fresh_ids_def)
  have agg: "0 < (if jb_ProjectID ?v = 0 then jb_ID ?v else jb_ProjectID ?v)"
    using ok id r(3) by (cases "jb_ProjectID (jr_job r) = 0") (simp_all add: row_ok_def)
  have k: "0 < k" "k \<notin> set (map jd_ID (jt_outbox db3))" using assms(3) db3(2) by (simp_all add: fresh_ids_def)
  obtain db4 where "recordDeliveryEvent db3 (k # rest) ?v (if jb_State ?v = Failed then ''job.dead_lettered'' else ''job.queued'') (ex_correlationID t) now
      = Inr (db4, rest)" "jt_events db4 = jt_events db3" "map jd_ID (jt_outbox db4) = map jd_ID (jt_outbox db) @ [k]"
    using insert_delivery_total [OF k agg] db3(2) unfolding recordDeliveryEvent_def by metis
  moreover have "recover_one db (i # k # rest) now t = bindE (recordEvent ?db (i # k # rest) ?v) (\<lambda>(db3, rest). recordDeliveryEvent db3 rest ?v
      (if jb_State ?v = Failed then ''job.dead_lettered'' else ''job.queued'') (ex_correlationID t) now)"
    by (simp add: recover_one_def Let_def close_update)
  moreover have "fresh_ids db4 rest" if "jt_events db4 = jt_events db3" "map jd_ID (jt_outbox db4) = map jd_ID (jt_outbox db) @ [k]" for db4
    using assms(3) db3 that unfolding fresh_ids_def that db3(1) by (auto simp: list_all_iff)
  ultimately show ?thesis using rec by auto
qed

lemma recover_all_total:
  "job_db_ok db \<Longrightarrow> all_expired db ts \<Longrightarrow> fresh_ids db ids \<Longrightarrow> 2 * length ts \<le> length ids \<Longrightarrow> \<exists>db'. recover_all db ids now ts = Inr db'"
proof (induction ts arbitrary: db ids)
  case (Cons t ts)
  then obtain i k rest where ids: "ids = i # k # rest" by (metis Suc_le_length_iff length_Cons mult_2 add_Suc_right add_Suc)
  have t: "expired_now db t" using Cons.prems(2) by (simp add: all_expired_def)
  obtain db1 where one: "recover_one db ids now t = Inr (db1, rest)" and fr: "fresh_ids db1 rest"
    using recover_one_total [OF Cons.prems(1) t] Cons.prems(3) unfolding ids by blast
  note s = recover_one_advances [OF one Cons.prems(1) t]
  have "\<exists>db'. recover_all db1 rest now ts = Inr db'"
    by (rule Cons.IH) (use s fr all_expired_step [OF Cons.prems(2)] Cons.prems(4) ids in \<open>auto simp: advances_def\<close>)
  then show ?case using one by auto
qed simp

lemma find_unique: "u \<in> set xs \<Longrightarrow> P u \<Longrightarrow> (\<And>x. x \<in> set xs \<Longrightarrow> P x \<Longrightarrow> x = u) \<Longrightarrow> find P xs = Some u"
  by (induction xs) (fastforce split: if_splits)+

lemma expired_job_found:
  assumes "job_db_ok db" "r \<in> set (jt_jobs db)"
  shows "recovered_rows now (expired_jobs db now) (row_by_job db) (jb_ID (jr_job r)) = (if lease_expired now r
    then Some (recovered_row (recovered_value (hd (expired_jobs (db\<lparr>jt_jobs := [r]\<rparr>) now)) now) now r) else Some r)"
proof -
  have row: "row_by_job db (jb_ID (jr_job r)) = Some r" by (rule row_by_job_mem [OF assms])
  have uniq: "q = r" if "q \<in> set (jt_jobs db)" "jb_ID (jr_job q) = jb_ID (jr_job r)" for q
    using row_by_job_mem [OF assms(1) that(1)] row that(2) by (metis option.inject)
  show ?thesis
  proof (cases "lease_expired now r")
    case False
    then have "find (\<lambda>t. jb_ID (ex_value t) = jb_ID (jr_job r)) (expired_jobs db now) = None"
      by (auto simp: find_None_iff expired_jobs_members dest!: uniq)
    with False row show ?thesis by (simp add: recovered_rows_def)
  next
    case True
    define u where "u = hd (expired_jobs (db\<lparr>jt_jobs := [r]\<rparr>) now)"
    have u: "expired_jobs (db\<lparr>jt_jobs := [r]\<rparr>) now = [u]" using True by (simp add: u_def expired_jobs_def)
    have "u \<in> set (expired_jobs db now) \<and> jb_ID (ex_value u) = jb_ID (jr_job r)"
      using True assms(2) u expired_jobs_members [of u "db\<lparr>jt_jobs := [r]\<rparr>" now] by (auto simp: expired_jobs_members attempts_of_def)
    moreover have "t = u" if "t \<in> set (expired_jobs db now)" "jb_ID (ex_value t) = jb_ID (jr_job r)" for t
      using that u expired_jobs_members [of u "db\<lparr>jt_jobs := [r]\<rparr>" now] by (auto simp: expired_jobs_members attempts_of_def dest!: uniq)
    ultimately have "find (\<lambda>t. jb_ID (ex_value t) = jb_ID (jr_job r)) (expired_jobs db now) = Some u"
      by (intro find_unique) blast+
    with True row show ?thesis by (simp add: recovered_rows_def u_def)
  qed
qed

lemma recovered_job_row:
  assumes "t = hd (expired_jobs (db\<lparr>jt_jobs := [r]\<rparr>) now)" "lease_expired now r" "jr_MaxAttempts r = 5"
    "length (attempts_of db (jb_ID (jr_job r))) \<le> 5"
  shows "jb_ID (jr_job (recovered_row (recovered_value t now) now r)) = jb_ID (jr_job r) \<and>
    (if length (attempts_of db (jb_ID (jr_job r))) = 5
     then jb_State (jr_job (recovered_row (recovered_value t now) now r)) = Failed \<and>
       jb_Failure (jr_job (recovered_row (recovered_value t now) now r)) = ''attempts_exhausted''
     else jb_State (jr_job (recovered_row (recovered_value t now) now r)) = Queued \<and>
       \<not> after (jr_AvailableAt (recovered_row (recovered_value t now) now r)) now)"
proof -
  have t: "t = \<lparr>ex_value = zero_job\<lparr>jb_ID := jb_ID (jr_job r), jb_ProjectID := jb_ProjectID (jr_job r),
       jb_Kind := jb_Kind (jr_job r), jb_Version := jb_Version (jr_job r)\<rparr>, ex_maxAttempts = 5,
     ex_attemptCount = int (length (attempts_of db (jb_ID (jr_job r)))), ex_correlationID = jr_CorrelationID r\<rparr>"
    using assms(1-3) by (simp add: expired_jobs_def attempts_of_def)
  show ?thesis using assms(4) unfolding t
    by (auto simp: recovered_row_def recovered_value_def Let_def after_def pg_time_def nanos_def)
qed

text \<open>
  C10: However the workers failed, recovery returns as soon as the generator yields two fresh identifiers for each expired
  lease. Afterwards no running job has an expired lease; every job that had one is failed with \<open>attempts_exhausted\<close> when it
  has used its five attempts, and can be claimed at once otherwise; every other job is as it was.
\<close>
theorem expired_leases_recovered:
  assumes "fresh_ids (ys_db (reachable_jobs ops)) ids"
    "2 * length (expired_jobs (ys_db (reachable_jobs ops)) (utc now)) \<le> length ids"
  shows "\<exists>db'. RecoverExpired (ys_db (reachable_jobs ops)) now ids =
       Inr (db', int (length (expired_jobs (ys_db (reachable_jobs ops)) (utc now)))) \<and>
     \<not> list_ex (lease_expired (utc now)) (jt_jobs db') \<and>
     list_all (\<lambda>r. case row_by_job db' (jb_ID (jr_job r)) of None \<Rightarrow> False | Some r' \<Rightarrow>
         if \<not> lease_expired (utc now) r then r' = r
         else if length (attempts_of (ys_db (reachable_jobs ops)) (jb_ID (jr_job r))) = 5
         then jb_State (jr_job r') = Failed \<and> jb_Failure (jr_job r') = ''attempts_exhausted''
         else r' \<in> set (claimable db' 0 [] (utc now)))
       (jt_jobs (ys_db (reachable_jobs ops)))"
proof -
  let ?now = "utc now"
  define db where "db = ys_db (reachable_jobs ops)"
  have ok: "job_db_ok db" unfolding db_def by (rule reachable_db_ok)
  obtain db' where run: "recover_all db ids ?now (expired_jobs db ?now) = Inr db'"
    using recover_all_total [OF ok all_expired_jobs [OF ok]] assms unfolding db_def by blast
  then have rec: "RecoverExpired db now ids = Inr (db', int (length (expired_jobs db ?now)))" by (simp add: RecoverExpired_def Let_def)
  note adv = RecoverExpired_rows [OF rec ok]
  have row: "row_by_job db' (jb_ID (jr_job r)) = (if lease_expired ?now r
      then Some (recovered_row (recovered_value (hd (expired_jobs (db\<lparr>jt_jobs := [r]\<rparr>) ?now)) ?now) ?now r) else Some r)"
    if "r \<in> set (jt_jobs db)" for r using adv expired_job_found [OF ok that] by simp
  have each: "case row_by_job db' (jb_ID (jr_job r)) of None \<Rightarrow> False | Some r' \<Rightarrow>
         if \<not> lease_expired ?now r then r' = r
         else if length (attempts_of db (jb_ID (jr_job r))) = 5
         then jb_State (jr_job r') = Failed \<and> jb_Failure (jr_job r') = ''attempts_exhausted''
         else r' \<in> set (claimable db' 0 [] ?now)" if r: "r \<in> set (jt_jobs db)" for r
  proof (cases "lease_expired ?now r")
    case False
    with row [OF r] show ?thesis by simp
  next
    case True
    have "row_ok db r" using ok r by (simp add: job_db_ok_def list_all_iff)
    then have "jr_MaxAttempts r = 5" "length (attempts_of db (jb_ID (jr_job r))) \<le> 5" by (simp_all add: row_ok_def)
    note rr = recovered_job_row [OF refl True this]
    from True row [OF r] have here: "row_by_job db' (jb_ID (jr_job r)) =
      Some (recovered_row (recovered_value (hd (expired_jobs (db\<lparr>jt_jobs := [r]\<rparr>) ?now)) ?now) ?now r)" by simp
    from row_by_job_id [OF here] rr True show ?thesis unfolding here by (auto simp: claimable_def)
  qed
  have "\<not> lease_expired ?now q" if q: "q \<in> set (jt_jobs db')" for q
  proof
    assume bad: "lease_expired ?now q"
    have "job_db_ok db'" using adv by (simp add: advances_def)
    then have here: "row_by_job db' (jb_ID (jr_job q)) = Some q" using q by (rule row_by_job_mem)
    then have "recovered_rows ?now (expired_jobs db ?now) (row_by_job db) (jb_ID (jr_job q)) = Some q" using adv by simp
    then obtain r where "row_by_job db (jb_ID (jr_job q)) = Some r" by (auto simp: recovered_rows_def split: option.splits)
    note r = row_by_job_id [OF this]
    have "Some q = (if lease_expired ?now r then Some (recovered_row
        (recovered_value (hd (expired_jobs (db\<lparr>jt_jobs := [r]\<rparr>) ?now)) ?now) ?now r) else Some r)"
      using row [OF conjunct2 [OF r]] here unfolding conjunct1 [OF r] by simp
    moreover have "jb_State (jr_job (recovered_row (recovered_value t ?now) ?now r)) \<noteq> Running" for t by (simp add: recovered_row_def)
    ultimately show False using bad by (metis lease_expired_def option.inject)
  qed
  then have "\<not> list_ex (lease_expired ?now) (jt_jobs db')" by (auto simp: list_ex_iff)
  then show ?thesis unfolding db_def [symmetric] list_all_iff by (intro exI [of _ db'] conjI ballI each rec)
qed

section \<open>Concrete runs\<close>

definition sample_operator :: Principal where
  "sample_operator = \<lparr>pr_ActorID = 7, pr_Kind = ActorMember, pr_Role = RoleAnalyst, pr_Status = StatusActive, pr_Scopes = [],
     pr_Version = 1, pr_Workspace = 1\<rparr>"

definition sample_job_ops :: "jobstore_op list" where
  "sample_job_ops = [
     DoQueue sample_operator 3 ''project_sync'' ''pages'' ''k'' ''req'' None None (Time 0 UTC) (Time 0 UTC) [11, 12, 13],
     DoClaim 0 ''w'' 1000000 (Time 0 UTC) (Time 0 UTC) [] [21, 22]]"

definition sample_lease :: JobLease where
  "sample_lease = ys_leases (reachable_jobs sample_job_ops) ! 0"

definition sample_checkpoint :: Checkpoint where
  "sample_checkpoint = \<lparr>cp_Scope = ''github_issues'', cp_Cursor = ''2'', cp_CoverageTo = Time 0 UTC, cp_Version = 3\<rparr>"

definition sample_jobs_now :: job_db where
  "sample_jobs_now = ys_db (reachable_jobs sample_job_ops)"

theorem attempt_single_holder_witness:
  "lz_Holder sample_lease = lz_Holder sample_lease \<and> lz_AttemptID sample_lease = lz_AttemptID sample_lease"
proof (rule attempt_single_holder [of _ sample_job_ops])
  show "sample_lease \<in> set (ys_leases (reachable_jobs sample_job_ops))" by code_simp
  show "sample_lease \<in> set (ys_leases (reachable_jobs sample_job_ops))" by code_simp
qed (rule refl)+

theorem failure_after_checkpoint_refused_witness:
  "\<exists>db l. store_Checkpoint sample_jobs_now sample_lease 10 sample_checkpoint (Time 1000 UTC) [23] = Inr (db, l) \<and>
     store_Fail db sample_lease ''network'' 0 (Time 2000 UTC) [24, 25] = Inl JsConstraint"
proof -
  obtain db l where c: "store_Checkpoint sample_jobs_now sample_lease 10 sample_checkpoint (Time 1000 UTC) [23] = Inr (db, l)"
  proof (cases "store_Checkpoint sample_jobs_now sample_lease 10 sample_checkpoint (Time 1000 UTC) [23]")
    case (Inl e)
    have "\<not> isl (store_Checkpoint sample_jobs_now sample_lease 10 sample_checkpoint (Time 1000 UTC) [23])" by code_simp
    with Inl show thesis by simp
  qed (metis that prod.collapse)
  have "map_option (\<lambda>r. jb_Version (jr_job r)) (row_by_job sample_jobs_now (jb_ID (lz_Job sample_lease))) = Some (jb_Version (lz_Job sample_lease))"
    by code_simp
  with c show ?thesis using failure_after_checkpoint_refused by blast
qed

theorem expired_leases_recovered_witness:
  "\<exists>db'. RecoverExpired (ys_db (reachable_jobs sample_job_ops)) (Time 5000000 UTC) [31, 32] =
       Inr (db', int (length (expired_jobs (ys_db (reachable_jobs sample_job_ops)) (utc (Time 5000000 UTC))))) \<and>
     \<not> list_ex (lease_expired (utc (Time 5000000 UTC))) (jt_jobs db')"
proof -
  have "fresh_ids (ys_db (reachable_jobs sample_job_ops)) [31, 32]" by code_simp
  moreover have "2 * length (expired_jobs (ys_db (reachable_jobs sample_job_ops)) (utc (Time 5000000 UTC))) \<le> length [31 :: int64, 32]" by code_simp
  ultimately show ?thesis using expired_leases_recovered by blast
qed
end
