(* ===== verification/Snowflake.thy ===== *)
theory Snowflake
  imports Go_Base Go_Lifecycle
begin

unbundle bit_operations_syntax

text \<open>
  Package \<open>internal/platform/id\<close>: the generator of 64-bit identifiers, and the PostgreSQL leases
  on its nodes (\<open>internal/platform/database/snowflake.go\<close> with the queries of
  \<open>sqlc/platform.sql.go\<close>). \<open>Next\<close> reads the clock up to three times, may renew its lease and may
  sleep twice; what the clock, the leaser and the sleeps answer is the input record of a call.
  The generator is mutated in place under a mutex, so a call returns the new generator together
  with its result, also when the result is an error.
\<close>

section \<open>The generator\<close>

definition nodeBits :: nat where "nodeBits = 10"
definition sequenceBits :: nat where "sequenceBits = 12"
definition maxNode :: int where "maxNode = 2 ^ nodeBits - 1"
definition maxSequence :: int where "maxSequence = 2 ^ sequenceBits - 1"

lemmas snowflake_bits = nodeBits_def sequenceBits_def maxNode_def maxSequence_def

text \<open>\<open>Epoch\<close> is 2026-01-01T00:00:00Z.\<close>

definition Epoch :: gotime where
  "Epoch = of_unix_milli 1767225600000"

datatype snowflake_error = ErrConfig | ErrAcquire | ErrLeaseLost | ErrRenew | ErrClockRegression
  | ErrSleep | ErrClockStuck | ErrOutsideEpoch | ErrNotPositive

record Lease =
  ls_Node :: int
  ls_Holder :: string
  ls_ExpiresAt :: gotime

record SnowflakeConfig =
  sc_Holder :: string
  sc_LeaseTTL :: duration
  sc_RenewalInterval :: duration
  sc_RegressionTolerance :: duration

record Generator =
  gn_lease :: Lease
  gn_leaseTTL :: duration
  gn_renewAt :: gotime
  gn_renewalInterval :: duration
  gn_tolerance :: duration
  gn_lastMillisecond :: int64
  gn_sequence :: int

definition snowflake_New ::
    "(string \<Rightarrow> gotime \<Rightarrow> duration \<Rightarrow> Lease option) \<Rightarrow> gotime \<Rightarrow> SnowflakeConfig \<Rightarrow>
     snowflake_error + Generator" where
  "snowflake_New acquire now0 cfg =
     (if sc_Holder cfg = '''' \<or> sc_LeaseTTL cfg \<le> 0 then Inl ErrConfig
      else
        let renewal = (if sc_RenewalInterval cfg = 0 then sc_LeaseTTL cfg div 3 else sc_RenewalInterval cfg)
        in if renewal \<le> 0 \<or> renewal \<ge> sc_LeaseTTL cfg then Inl ErrConfig
           else
             let now = utc now0 in
             case acquire (sc_Holder cfg) now (sc_LeaseTTL cfg) of
               None \<Rightarrow> Inl ErrAcquire
             | Some lease \<Rightarrow>
                 if ls_Node lease > maxNode \<or> ls_Holder lease \<noteq> sc_Holder cfg \<or>
                    \<not> after (ls_ExpiresAt lease) now
                 then Inl ErrLeaseLost
                 else Inr \<lparr>gn_lease = lease, gn_leaseTTL = sc_LeaseTTL cfg,
                   gn_renewAt = time_add now renewal, gn_renewalInterval = renewal,
                   gn_tolerance = sc_RegressionTolerance cfg, gn_lastMillisecond = 0, gn_sequence = 0\<rparr>)"

record next_input =
  ni_now1 :: gotime
  ni_renew :: "Lease \<Rightarrow> gotime \<Rightarrow> duration \<Rightarrow> Lease option"
  ni_sleep1 :: bool
  ni_now2 :: gotime
  ni_sleep2 :: bool
  ni_now3 :: gotime

text \<open>The renewal at the start of \<open>Next\<close>.\<close>

definition renew_lease :: "next_input \<Rightarrow> gotime \<Rightarrow> Generator \<Rightarrow> snowflake_error + Generator" where
  "renew_lease inp now g =
     (if \<not> before now (gn_renewAt g) then
        (case ni_renew inp (gn_lease g) now (gn_leaseTTL g) of
           None \<Rightarrow> Inl ErrRenew
         | Some lease \<Rightarrow>
             if ls_Node lease \<noteq> ls_Node (gn_lease g) \<or> ls_Holder lease \<noteq> ls_Holder (gn_lease g) \<or>
                \<not> after (ls_ExpiresAt lease) now
             then Inl ErrLeaseLost
             else Inr (g\<lparr>gn_lease := lease, gn_renewAt := time_add now (gn_renewalInterval g)\<rparr>))
      else Inr g)"

text \<open>The wait for a clock that moved back: the time and its millisecond to go on with.\<close>

definition wait_regression ::
    "next_input \<Rightarrow> gotime \<Rightarrow> Generator \<Rightarrow> snowflake_error + (gotime \<times> int64)" where
  "wait_regression inp now g =
     (let ms = unix_milli now in
      if ms < gn_lastMillisecond g then
        (let regression = wrap64 ((gn_lastMillisecond g - ms) * millisecond) in
         if regression > gn_tolerance g then Inl ErrClockRegression
         else if \<not> ni_sleep1 inp then Inl ErrSleep
         else
           let now2 = utc (ni_now2 inp) in
           if \<not> before now2 (ls_ExpiresAt (gn_lease g)) then Inl ErrLeaseLost
           else if unix_milli now2 < gn_lastMillisecond g then Inl ErrClockRegression
           else Inr (now2, unix_milli now2))
      else Inr (now, ms))"

text \<open>The sequence within a millisecond, waiting for the next one when it is exhausted.\<close>

definition advance_sequence ::
    "next_input \<Rightarrow> int64 \<Rightarrow> Generator \<Rightarrow> snowflake_error + (Generator \<times> int64)" where
  "advance_sequence inp ms g =
     (if ms = gn_lastMillisecond g then
        (if gn_sequence g = maxSequence then
           (if \<not> before (of_unix_milli (gn_lastMillisecond g + 1)) (ls_ExpiresAt (gn_lease g))
            then Inl ErrLeaseLost
            else if \<not> ni_sleep2 inp then Inl ErrSleep
            else
              let now3 = utc (ni_now3 inp); ms3 = unix_milli now3 in
              if \<not> before now3 (ls_ExpiresAt (gn_lease g)) then Inl ErrLeaseLost
              else if ms3 \<le> gn_lastMillisecond g then Inl ErrClockStuck
              else Inr (g\<lparr>gn_lastMillisecond := ms3, gn_sequence := 0\<rparr>, ms3))
         else Inr (g\<lparr>gn_sequence := gn_sequence g + 1\<rparr>, ms))
      else Inr (g\<lparr>gn_lastMillisecond := ms, gn_sequence := 0\<rparr>, ms))"

definition compose_id :: "int64 \<Rightarrow> int \<Rightarrow> int \<Rightarrow> snowflake_error + int64" where
  "compose_id ms node seqn =
     (let delta = ms - unix_milli Epoch in
      if delta < 0 \<or> delta \<ge> 2 ^ 41 then Inl ErrOutsideEpoch
      else
        let val = push_bit (nodeBits + sequenceBits) delta OR push_bit sequenceBits node OR seqn
        in if val \<le> 0 then Inl ErrNotPositive else Inr val)"

definition Next :: "next_input \<Rightarrow> Generator \<Rightarrow> Generator \<times> (snowflake_error + int64)" where
  "Next inp g =
     (let now = utc (ni_now1 inp) in
      if \<not> before now (ls_ExpiresAt (gn_lease g)) then (g, Inl ErrLeaseLost)
      else (case renew_lease inp now g of
          Inl e \<Rightarrow> (g, Inl e)
        | Inr g1 \<Rightarrow>
            (case wait_regression inp now g1 of
               Inl e \<Rightarrow> (g1, Inl e)
             | Inr (now2, ms) \<Rightarrow>
                 (case advance_sequence inp ms g1 of
                    Inl e \<Rightarrow> (g1, Inl e)
                  | Inr (g2, ms2) \<Rightarrow>
                      (g2, compose_id ms2 (ls_Node (gn_lease g2)) (gn_sequence g2))))))"

definition Decimal :: "int64 \<Rightarrow> string" where
  "Decimal val = format_int val"

section \<open>Identifiers\<close>

text \<open>The bit fields do not overlap, so the identifier is a mixed-radix number.\<close>

lemma or_fields:
  fixes a b :: int
  assumes "0 \<le> b" and "b < 2 ^ n"
  shows "push_bit n a OR b = a * 2 ^ n + b"
proof -
  have "push_bit n a AND b = 0"
  proof (rule bit_eqI)
    fix k
    have "\<not> bit b k" if "n \<le> k"
    proof -
      have "b < 2 ^ k" using assms(2) that
        by (meson less_le_trans power_increasing_iff one_less_numeral_iff semiring_norm(76))
      with assms(1) show ?thesis by (simp add: bit_iff_odd)
    qed
    then show "bit (push_bit n a AND b) k = bit 0 k" by (auto simp: bit_simps)
  qed
  then show ?thesis
    by (metis disjunctive_add_eq_or push_bit_eq_mult)
qed

definition id_value :: "int64 \<Rightarrow> int \<Rightarrow> int \<Rightarrow> int64" where
  "id_value ms node seqn = ((ms - unix_milli Epoch) * 2 ^ 10 + node) * 2 ^ 12 + seqn"

lemma compose_id_Inr:
  assumes "0 \<le> node" "node \<le> maxNode" "0 \<le> seqn" "seqn \<le> maxSequence"
  shows "compose_id ms node seqn = Inr v \<longleftrightarrow>
    0 \<le> ms - unix_milli Epoch \<and> ms - unix_milli Epoch < 2 ^ 41 \<and> v = id_value ms node seqn \<and> 0 < v"
proof -
  have "push_bit 22 d OR push_bit 12 node = push_bit 12 (push_bit 10 d OR node)" for d :: int
    by (simp add: push_bit_or)
  also have "\<dots> d = push_bit 12 (d * 2 ^ 10 + node)" for d
    using assms by (simp add: or_fields snowflake_bits)
  finally have "push_bit (nodeBits + sequenceBits) d OR push_bit sequenceBits node OR seqn =
      (d * 2 ^ 10 + node) * 2 ^ 12 + seqn" for d
    using assms by (simp add: or_fields snowflake_bits or.assoc [symmetric])
  then show ?thesis by (auto simp: compose_id_def Let_def id_value_def)
qed

definition gen_ok :: "Generator \<Rightarrow> bool" where
  "gen_ok g \<longleftrightarrow> 0 \<le> ls_Node (gn_lease g) \<and> ls_Node (gn_lease g) \<le> maxNode \<and>
     0 \<le> gn_sequence g \<and> gn_sequence g \<le> maxSequence"

text \<open>The position of a generator: its millisecond and its sequence, as one number.\<close>

definition position :: "Generator \<Rightarrow> int" where
  "position g = gn_lastMillisecond g * 2 ^ 12 + gn_sequence g"

lemma position_le:
  assumes "gen_ok g" "gen_ok g'" "gn_lastMillisecond g < gn_lastMillisecond g'"
  shows "position g < position g'"
proof -
  have "(gn_lastMillisecond g + 1) * 2 ^ 12 \<le> gn_lastMillisecond g' * 2 ^ 12"
    using assms(3) by (intro mult_right_mono) auto
  moreover have "gn_sequence g < 2 ^ 12" "0 \<le> gn_sequence g'"
    using assms(1,2) by (auto simp: gen_ok_def snowflake_bits)
  ultimately show ?thesis by (simp add: position_def algebra_simps)
qed

lemma renew_lease_Inr:
  assumes "renew_lease inp now g = Inr g1"
  shows "ls_Node (gn_lease g1) = ls_Node (gn_lease g)" "gn_sequence g1 = gn_sequence g"
    "gn_lastMillisecond g1 = gn_lastMillisecond g" "ls_Holder (gn_lease g1) = ls_Holder (gn_lease g)"
    "before now (ls_ExpiresAt (gn_lease g)) \<Longrightarrow> before now (ls_ExpiresAt (gn_lease g1))"
  using assms by (auto simp: renew_lease_def before_def after_def split: if_splits option.splits)

lemma wait_regression_Inr:
  assumes "wait_regression inp now g = Inr (t, ms)" and "before now (ls_ExpiresAt (gn_lease g))"
  shows "ms = unix_milli t" "gn_lastMillisecond g \<le> ms" "before t (ls_ExpiresAt (gn_lease g))"
  using assms by (auto simp: wait_regression_def Let_def split: if_splits)

lemma advance_sequence_Inr:
  assumes "advance_sequence inp ms g = Inr (g2, ms2)" and "gen_ok g"
    and "gn_lastMillisecond g \<le> ms" and "ms = unix_milli t" and "before t (ls_ExpiresAt (gn_lease g))"
  shows "gn_lease g2 = gn_lease g" "ms2 = gn_lastMillisecond g2" "gen_ok g2"
    "position g < position g2"
    "\<exists>t'. ms2 = unix_milli t' \<and> before t' (ls_ExpiresAt (gn_lease g2))"
proof -
  have cases: "ms = gn_lastMillisecond g \<and> gn_sequence g < maxSequence \<and>
        g2 = g\<lparr>gn_sequence := gn_sequence g + 1\<rparr> \<and> ms2 = ms \<or>
      (\<exists>t'. gn_lastMillisecond g < ms2 \<and> g2 = g\<lparr>gn_lastMillisecond := ms2, gn_sequence := 0\<rparr> \<and>
        ms2 = unix_milli t' \<and> before t' (ls_ExpiresAt (gn_lease g)))"
    using assms by (auto simp: advance_sequence_def Let_def gen_ok_def split: if_splits)
  then show "gn_lease g2 = gn_lease g" "ms2 = gn_lastMillisecond g2"
    "\<exists>t'. ms2 = unix_milli t' \<and> before t' (ls_ExpiresAt (gn_lease g2))"
    using assms(4,5) by auto
  show ok: "gen_ok g2"
    using cases assms(2) by (auto simp: gen_ok_def snowflake_bits)
  show "position g < position g2"
    using cases
  proof (elim disjE exE conjE)
    assume "g2 = g\<lparr>gn_sequence := gn_sequence g + 1\<rparr>"
    then show ?thesis by (simp add: position_def)
  next
    fix t'
    assume "gn_lastMillisecond g < ms2" "g2 = g\<lparr>gn_lastMillisecond := ms2, gn_sequence := 0\<rparr>"
    then show ?thesis using position_le [OF assms(2) ok] by simp
  qed
qed

text \<open>What a call does: the generator moves forward or stays, and an identifier encodes where it is.\<close>

lemma Next_effect:
  assumes "Next inp g = (g', r)" and "gen_ok g"
  shows "gen_ok g' \<and> ls_Node (gn_lease g') = ls_Node (gn_lease g) \<and> position g \<le> position g' \<and>
    (\<forall>v. r = Inr v \<longrightarrow> position g < position g' \<and>
       v = id_value (gn_lastMillisecond g') (ls_Node (gn_lease g)) (gn_sequence g') \<and> 0 < v \<and>
       gn_lastMillisecond g' - unix_milli Epoch < 2 ^ 41 \<and> unix_milli Epoch \<le> gn_lastMillisecond g' \<and>
       (\<exists>t. gn_lastMillisecond g' = unix_milli t \<and> before t (ls_ExpiresAt (gn_lease g'))))"
proof -
  let ?now = "utc (ni_now1 inp)"
  consider (stay) e where "g' = g" "r = Inl e"
    | (renewed) g1 e where "renew_lease inp ?now g = Inr g1" "g' = g1" "r = Inl e"
    | (moved) g1 t ms ms2 where "renew_lease inp ?now g = Inr g1" "before ?now (ls_ExpiresAt (gn_lease g))"
        "wait_regression inp ?now g1 = Inr (t, ms)" "advance_sequence inp ms g1 = Inr (g', ms2)"
        "r = compose_id ms2 (ls_Node (gn_lease g')) (gn_sequence g')"
    using assms(1) by (auto simp: Next_def Let_def split: if_splits sum.splits)
  then show ?thesis
  proof cases
    case stay
    with assms(2) show ?thesis by simp
  next
    case renewed
    with assms(2) renew_lease_Inr [OF renewed(1)] show ?thesis by (simp add: gen_ok_def position_def)
  next
    case moved
    note r = renew_lease_Inr [OF moved(1)]
    have g1: "gen_ok g1" "position g1 = position g" using assms(2) r by (simp_all add: gen_ok_def position_def)
    note w = wait_regression_Inr [OF moved(3) r(5) [OF moved(2)]]
    note a = advance_sequence_Inr [OF moved(4) g1(1) w(2,1,3)]
    have nd: "0 \<le> ls_Node (gn_lease g)" "ls_Node (gn_lease g) \<le> maxNode" "0 \<le> gn_sequence g'"
        "gn_sequence g' \<le> maxSequence"
      using a(3) assms(2) by (simp_all add: gen_ok_def)
    show ?thesis
      using a g1 r(1) moved(5) by (auto simp: compose_id_Inr [OF nd])
  qed
qed

text \<open>The identifiers that a sequence of calls issues.\<close>

fun issued :: "next_input list \<Rightarrow> Generator \<Rightarrow> int64 list" where
  "issued [] g = []"
| "issued (inp # inps) g =
     (let (g', r) = Next inp g in case r of Inl e \<Rightarrow> issued inps g' | Inr v \<Rightarrow> v # issued inps g')"

lemma id_value_position:
  "id_value (gn_lastMillisecond g) node (gn_sequence g) =
     (gn_lastMillisecond g - unix_milli Epoch) * 2 ^ 22 + node * 2 ^ 12 + gn_sequence g"
  by (simp add: id_value_def algebra_simps)

lemma id_value_mono:
  assumes "gen_ok g" "gen_ok g'" "position g < position g'"
  shows "id_value (gn_lastMillisecond g) node (gn_sequence g) <
    id_value (gn_lastMillisecond g') node (gn_sequence g')"
proof -
  have "\<not> gn_lastMillisecond g' < gn_lastMillisecond g"
    using position_le [OF assms(2,1)] assms(3) by auto
  then consider "gn_lastMillisecond g = gn_lastMillisecond g'" "gn_sequence g < gn_sequence g'"
    | "gn_lastMillisecond g + 1 \<le> gn_lastMillisecond g'"
    using assms(3) by (fastforce simp: position_def)
  then show ?thesis
  proof cases
    case 1
    then show ?thesis by (simp add: id_value_def)
  next
    case 2
    then have "(gn_lastMillisecond g + 1 - unix_milli Epoch) * 2 ^ 22 \<le>
        (gn_lastMillisecond g' - unix_milli Epoch) * 2 ^ 22"
      by (intro mult_right_mono) auto
    with assms(1,2) show ?thesis
      unfolding id_value_position by (simp add: gen_ok_def snowflake_bits algebra_simps)
  qed
qed

lemma issued_after:
  assumes "gen_ok g" and "v \<in> set (issued inps g)"
  shows "\<exists>g'. gen_ok g' \<and> position g < position g' \<and>
    v = id_value (gn_lastMillisecond g') (ls_Node (gn_lease g)) (gn_sequence g') \<and> 0 < v \<and>
    gn_lastMillisecond g' - unix_milli Epoch < 2 ^ 41 \<and> unix_milli Epoch \<le> gn_lastMillisecond g'"
  using assms
proof (induction inps arbitrary: g)
  case (Cons inp inps)
  obtain g' r where n: "Next inp g = (g', r)" by fastforce
  note e = Next_effect [OF n Cons.prems(1)]
  consider "v \<in> set (issued inps g')" | "r = Inr v"
    using Cons.prems(2) n by (auto split: sum.splits)
  then show ?case
  proof cases
    case 1
    from Cons.IH [of g'] e 1 show ?thesis by fastforce
  next
    case 2
    with e show ?thesis by blast
  qed
qed simp

lemma issued_fields:
  assumes "gen_ok g" and "v \<in> set (issued inps g)"
  shows "0 < v \<and> is_int64 v \<and> v div 2 ^ 12 mod 2 ^ 10 = ls_Node (gn_lease g)"
proof -
  from issued_after [OF assms] obtain ms seqn where
    v: "v = id_value ms (ls_Node (gn_lease g)) seqn" "0 < v" "ms - unix_milli Epoch < 2 ^ 41"
      "unix_milli Epoch \<le> ms" "0 \<le> seqn" "seqn < 2 ^ 12"
    by (auto simp: gen_ok_def snowflake_bits)
  have nd: "0 \<le> ls_Node (gn_lease g)" "ls_Node (gn_lease g) < 2 ^ 10"
    using assms by (auto simp: gen_ok_def snowflake_bits)
  define D where "D = ms - unix_milli Epoch"
  have "v div 2 ^ 12 = D * 2 ^ 10 + ls_Node (gn_lease g)"
    using v(1,5,6) by (simp add: id_value_def D_def [symmetric])
  then have "v div 2 ^ 12 mod 2 ^ 10 = ls_Node (gn_lease g)"
    using nd by (simp add: mod_pos_pos_trivial)
  moreover have "is_int64 v" using v nd by (simp add: id_value_def int64_defs)
  ultimately show ?thesis using v(2) by simp
qed

text \<open>
  C19: one generator never issues an identifier twice. Over any sequence of calls, with any clock
  readings, renewals and sleeps, the issued identifiers are strictly increasing, hence distinct;
  they are positive and fit in 63 bits, and carry the generator's node in bits 12 to 21.
\<close>

theorem snowflake_strictly_increasing:
  assumes "gen_ok g"
  shows "sorted_wrt (<) (issued inps g) \<and>
    (\<forall>v \<in> set (issued inps g). 0 < v \<and> is_int64 v \<and> v div 2 ^ 12 mod 2 ^ 10 = ls_Node (gn_lease g))"
proof (rule conjI)
  show "sorted_wrt (<) (issued inps g)"
    using assms
  proof (induction inps arbitrary: g)
    case (Cons inp inps)
    obtain g' r where n: "Next inp g = (g', r)" by fastforce
    note e = Next_effect [OF n Cons.prems]
    then have srt: "sorted_wrt (<) (issued inps g')" using Cons.IH by blast
    show ?case
    proof (cases r)
      case (Inl x)
      with n srt show ?thesis by simp
    next
      case (Inr v)
      have "v < w" if w: "w \<in> set (issued inps g')" for w
        using issued_after [OF conjunct1 [OF e] w] e Inr id_value_mono [of g'] by fastforce
      with Inr n srt show ?thesis by simp
    qed
  qed simp
  show "\<forall>v \<in> set (issued inps g). 0 < v \<and> is_int64 v \<and> v div 2 ^ 12 mod 2 ^ 10 = ls_Node (gn_lease g)"
    using issued_fields [OF assms] by blast
qed

definition example_generator :: Generator where
  "example_generator = \<lparr>gn_lease = \<lparr>ls_Node = 5, ls_Holder = ''h'', ls_ExpiresAt = of_unix_milli 1767225700000\<rparr>,
     gn_leaseTTL = 30000000000, gn_renewAt = of_unix_milli 1767225690000,
     gn_renewalInterval = 10000000000, gn_tolerance = 0, gn_lastMillisecond = 0, gn_sequence = 0\<rparr>"

definition example_call :: "int \<Rightarrow> next_input" where
  "example_call ms = \<lparr>ni_now1 = of_unix_milli ms, ni_renew = (\<lambda>_ _ _. None), ni_sleep1 = True,
     ni_now2 = of_unix_milli ms, ni_sleep2 = True, ni_now3 = of_unix_milli (ms + 1)\<rparr>"

lemma unix_milli_utc [simp]: "unix_milli (utc t) = unix_milli t"
  by (simp add: unix_milli_def)

lemma example_issued:
  "issued [example_call 1767225600001, example_call 1767225600001] example_generator = [4214784, 4214785]"
  by (simp add: Next_def renew_lease_def wait_regression_def advance_sequence_def compose_id_def
      example_call_def example_generator_def Let_def before_def of_unix_milli_def millisecond_def
      snowflake_bits unix_milli_def Epoch_def unix_epoch_def)

theorem snowflake_strictly_increasing_witness:
  "sorted_wrt (<) [4214784, 4214785 :: int64] \<and> 4214785 div 2 ^ 12 mod 2 ^ 10 = (5 :: int64)"
  using snowflake_strictly_increasing [of example_generator
      "[example_call 1767225600001, example_call 1767225600001]"]
  unfolding example_issued by (simp add: gen_ok_def example_generator_def snowflake_bits)

text \<open>
  generators on different nodes never issue the same identifier, whatever their clocks.
\<close>

theorem snowflake_nodes_disjoint:
  assumes "gen_ok g" and "gen_ok h" and "ls_Node (gn_lease g) \<noteq> ls_Node (gn_lease h)"
  shows "set (issued inps g) \<inter> set (issued inps' h) = {}"
proof -
  have "ls_Node (gn_lease g) = ls_Node (gn_lease h)"
    if "v \<in> set (issued inps g)" "v \<in> set (issued inps' h)" for v
    using issued_fields [OF assms(1) that(1)] issued_fields [OF assms(2) that(2)] by simp
  with assms(3) show ?thesis by blast
qed

theorem snowflake_nodes_disjoint_witness:
  "set (issued [example_call 1767225600001] example_generator) \<inter>
   set (issued [example_call 1767225600001] (example_generator\<lparr>gn_lease := (gn_lease example_generator)\<lparr>ls_Node := 6\<rparr>\<rparr>)) = {}"
  by (rule snowflake_nodes_disjoint) (simp_all add: gen_ok_def example_generator_def snowflake_bits)

section \<open>Node leases in PostgreSQL\<close>

text \<open>
  The table \<open>snowflake_node_leases\<close>: the node is its primary key and the holder is unique.
  \<open>AcquireSnowflakeNode\<close> takes the smallest node without an unexpired lease; a row that violates
  the uniqueness of the holder is an error, here \<open>None\<close>.
\<close>

record node_row =
  nl_node :: int
  nl_holder :: string
  nl_expires :: gotime

definition node_free :: "node_row list \<Rightarrow> gotime \<Rightarrow> int \<Rightarrow> bool" where
  "node_free rows now n \<longleftrightarrow> \<not> list_ex (\<lambda>r. nl_node r = n \<and> after (nl_expires r) now) rows"

definition AcquireSnowflakeNode ::
    "string \<Rightarrow> gotime \<Rightarrow> gotime \<Rightarrow> node_row list \<Rightarrow> (node_row list \<times> node_row) option" where
  "AcquireSnowflakeNode holder expires now rows =
     (case find (node_free rows now) (map int [0..<1024]) of
        None \<Rightarrow> None
      | Some n \<Rightarrow>
          let row = \<lparr>nl_node = n, nl_holder = holder, nl_expires = expires\<rparr>
          in if holder = '''' \<or> list_ex (\<lambda>r. nl_node r \<noteq> n \<and> nl_holder r = holder) rows then None
             else if list_ex (\<lambda>r. nl_node r = n) rows
             then Some (map (\<lambda>r. if nl_node r = n then row else r) rows, row)
             else Some (rows @ [row], row))"

definition RenewSnowflakeNode ::
    "int \<Rightarrow> string \<Rightarrow> gotime \<Rightarrow> gotime \<Rightarrow> node_row list \<Rightarrow> (node_row list \<times> node_row) option" where
  "RenewSnowflakeNode node holder expires now rows =
     (let hit = (\<lambda>r. nl_node r = node \<and> nl_holder r = holder \<and> after (nl_expires r) now)
      in case find hit rows of
           None \<Rightarrow> None
         | Some r \<Rightarrow> Some (map (\<lambda>r. if hit r then r\<lparr>nl_expires := expires\<rparr> else r) rows,
             r\<lparr>nl_expires := expires\<rparr>))"

definition row_lease :: "node_row \<Rightarrow> Lease" where
  "row_lease r = \<lparr>ls_Node = nl_node r, ls_Holder = nl_holder r, ls_ExpiresAt = nl_expires r\<rparr>"

definition leaser_Acquire ::
    "string \<Rightarrow> gotime \<Rightarrow> duration \<Rightarrow> node_row list \<Rightarrow> (node_row list \<times> Lease) option" where
  "leaser_Acquire holder now ttl rows =
     (case AcquireSnowflakeNode holder (pg_time (time_add now ttl)) (pg_time now) rows of
        None \<Rightarrow> None
      | Some (rows', row) \<Rightarrow> if nl_node row < 0 then None else Some (rows', row_lease row))"

definition leaser_Renew ::
    "Lease \<Rightarrow> gotime \<Rightarrow> duration \<Rightarrow> node_row list \<Rightarrow> (node_row list \<times> Lease) option" where
  "leaser_Renew lease now ttl rows =
     (case RenewSnowflakeNode (ls_Node lease) (ls_Holder lease) (pg_time (time_add now ttl)) (pg_time now) rows of
        None \<Rightarrow> None
      | Some (rows', row) \<Rightarrow> if nl_node row < 0 then None else Some (rows', row_lease row))"

datatype lease_op = LAcquire string gotime duration | LRenew Lease gotime duration

fun lease_step :: "lease_op \<Rightarrow> node_row list \<Rightarrow> unit + node_row list" where
  "lease_step (LAcquire holder now ttl) rows = some_or () (map_option fst (leaser_Acquire holder now ttl rows))"
| "lease_step (LRenew lease now ttl) rows = some_or () (map_option fst (leaser_Renew lease now ttl rows))"

text \<open>The table holds the row of a lease, and nodes are unique.\<close>

definition holds :: "node_row \<Rightarrow> node_row list \<Rightarrow> bool" where
  "holds r rows \<longleftrightarrow> distinct (map nl_node rows) \<and> r \<in> set rows"

text \<open>
  The time up to which a holder \<open>h\<close> owns a node \<open>n\<close>: a renewal of the lease that succeeds moves it to its own time plus its
  duration. \<open>before_expiry\<close> says that every acquisition of a history carries a time before the expiry that holds when it runs.
\<close>

fun granted_until :: "int \<Rightarrow> string \<Rightarrow> gotime \<Rightarrow> node_row list \<Rightarrow> lease_op \<Rightarrow> gotime" where
  "granted_until n h t rows (LAcquire holder now ttl) = t"
| "granted_until n h t rows (LRenew lease now ttl) =
     (if ls_Node lease = n \<and> ls_Holder lease = h \<and> leaser_Renew lease now ttl rows \<noteq> None then pg_time (time_add now ttl) else t)"

fun expiry_after :: "int \<Rightarrow> string \<Rightarrow> gotime \<Rightarrow> node_row list \<Rightarrow> lease_op list \<Rightarrow> gotime" where
  "expiry_after n h t rows [] = t"
| "expiry_after n h t rows (a # ops) = expiry_after n h (granted_until n h t rows a) (run_ops lease_step rows [a]) ops"

fun before_expiry :: "int \<Rightarrow> string \<Rightarrow> gotime \<Rightarrow> node_row list \<Rightarrow> lease_op list \<Rightarrow> bool" where
  "before_expiry n h t rows [] = True"
| "before_expiry n h t rows (a # ops) =
     ((case a of LAcquire _ now _ \<Rightarrow> nanos (pg_time now) < nanos t | LRenew _ _ _ \<Rightarrow> True) \<and>
      before_expiry n h (granted_until n h t rows a) (run_ops lease_step rows [a]) ops)"

lemma acquire_Some:
  assumes "AcquireSnowflakeNode holder expires now rows = Some (rows', row)"
  shows "row = \<lparr>nl_node = nl_node row, nl_holder = holder, nl_expires = expires\<rparr>"
    "node_free rows now (nl_node row)" "0 \<le> nl_node row" "nl_node row \<le> 1023"
    "rows' = (if list_ex (\<lambda>r. nl_node r = nl_node row) rows
       then map (\<lambda>r. if nl_node r = nl_node row then row else r) rows else rows @ [row])"
  using assms
  by (auto simp: AcquireSnowflakeNode_def Let_def find_Some_iff split: option.splits if_splits)

lemma acquire_holds:
  assumes "AcquireSnowflakeNode holder expires now rows = Some (rows', row)" and "distinct (map nl_node rows)"
  shows "holds row rows'"
proof -
  let ?f = "\<lambda>r. if nl_node r = nl_node row then row else r"
  have ids: "map nl_node (map ?f rows) = map nl_node rows" by simp
  show ?thesis
  proof (cases "list_ex (\<lambda>r. nl_node r = nl_node row) rows")
    case True
    then have rows': "rows' = map ?f rows" using acquire_Some(5) [OF assms(1)] by argo
    from True obtain x where "x \<in> set rows" "?f x = row" by (auto simp: list_ex_iff)
    then have "row \<in> set rows'" unfolding rows' by (rule in_set_mapI)
    moreover have "distinct (map nl_node rows')" unfolding rows' ids by (rule assms(2))
    ultimately show ?thesis by (simp add: holds_def)
  next
    case False
    then have "rows' = rows @ [row]" using acquire_Some(5) [OF assms(1)] by argo
    with assms(2) False show ?thesis by (auto simp: holds_def list_ex_iff)
  qed
qed

lemma acquire_keeps:
  assumes "AcquireSnowflakeNode holder expires now rows = Some (rows', row)" and "holds r rows"
    and "nanos now < nanos (nl_expires r)"
  shows "holds r rows'" "nl_node row \<noteq> nl_node r"
proof -
  show ne: "nl_node row \<noteq> nl_node r"
    using acquire_Some(2) [OF assms(1)] assms(2,3) by (auto simp: node_free_def holds_def list_ex_iff after_def)
  let ?f = "\<lambda>x. if nl_node x = nl_node row then row else x"
  have "?f r = r" using ne by simp
  with assms(2) have m: "r \<in> set (map ?f rows)" "r \<in> set rows"
    unfolding holds_def by (blast intro: in_set_mapI)+
  have "rows' = map ?f rows \<or> rows' = rows @ [row]" using acquire_Some(5) [OF assms(1)] by argo
  with m have "r \<in> set rows'" by (elim disjE) (simp_all only: set_append Un_iff simp_thms)
  moreover have "distinct (map nl_node rows')"
    using acquire_holds [OF assms(1)] assms(2) by (simp add: holds_def)
  ultimately show "holds r rows'" by (simp add: holds_def)
qed

lemma find_lease_mem: "find P xs = Some x \<Longrightarrow> x \<in> set xs \<and> P x"
  by (induction xs) (auto split: if_splits)

lemma renew_node:
  assumes "RenewSnowflakeNode node holder expires now rows = Some (rows', row)" and "holds r rows"
  shows "holds (if nl_node r = node \<and> nl_holder r = holder then r\<lparr>nl_expires := expires\<rparr> else r) rows'"
proof -
  let ?hit = "\<lambda>x. nl_node x = node \<and> nl_holder x = holder \<and> after (nl_expires x) now"
  let ?f = "\<lambda>x. if ?hit x then x\<lparr>nl_expires := expires\<rparr> else x"
  have rows': "rows' = map ?f rows" and some: "\<exists>x. find ?hit rows = Some x"
    using assms(1) by (auto simp: RenewSnowflakeNode_def Let_def split: option.splits)
  have d: "distinct (map nl_node rows)" and m: "r \<in> set rows" using assms(2) by (simp_all add: holds_def)
  obtain x where x: "x \<in> set rows" "?hit x" using some find_lease_mem [of ?hit rows] by blast
  have inj: "inj_on nl_node (set rows)" using d by (simp add: distinct_map)
  have "?f r = (if nl_node r = node \<and> nl_holder r = holder then r\<lparr>nl_expires := expires\<rparr> else r)"
  proof (cases "nl_node r = node")
    case True
    then have "r = x" using inj_onD [OF inj _ m x(1)] x(2) by simp
    then show ?thesis using x(2) by simp
  qed simp
  moreover have "?f r \<in> set rows'" unfolding rows' using m by (simp del: if_split_asm)
  moreover have "map nl_node rows' = map nl_node rows" unfolding rows' by simp
  ultimately show ?thesis using d unfolding holds_def by metis
qed

lemma lease_step_holds:
  assumes "holds \<lparr>nl_node = n, nl_holder = h, nl_expires = t\<rparr> rows" and "before_expiry n h t rows [a]"
  shows "holds \<lparr>nl_node = n, nl_holder = h, nl_expires = granted_until n h t rows a\<rparr> (run_ops lease_step rows [a])"
proof (cases a)
  case (LAcquire holder now ttl)
  then show ?thesis using assms
    by (auto simp: leaser_Acquire_def result_simps dest: acquire_keeps(1) split: option.splits if_splits)
next
  case (LRenew lease now ttl)
  show ?thesis
  proof (cases "RenewSnowflakeNode (ls_Node lease) (ls_Holder lease) (pg_time (time_add now ttl)) (pg_time now) rows")
    case None
    then show ?thesis using LRenew assms(1) by (simp add: leaser_Renew_def result_simps)
  next
    case (Some p)
    obtain rows' row where p: "p = (rows', row)" by (cases p)
    have "0 \<le> nl_node row \<or> nl_node row < 0" by arith
    then show ?thesis using LRenew Some p renew_node [OF Some [unfolded p] assms(1)] assms(1)
      by (auto simp: leaser_Renew_def result_simps)
  qed
qed

lemma leases_hold:
  assumes "holds \<lparr>nl_node = n, nl_holder = h, nl_expires = t\<rparr> rows" and "before_expiry n h t rows ops"
  shows "holds \<lparr>nl_node = n, nl_holder = h, nl_expires = expiry_after n h t rows ops\<rparr> (run_ops lease_step rows ops)"
  using assms
proof (induction ops arbitrary: t rows)
  case (Cons a ops)
  have "holds \<lparr>nl_node = n, nl_holder = h, nl_expires = granted_until n h t rows a\<rparr> (run_ops lease_step rows [a])"
    using Cons.prems by (intro lease_step_holds) simp_all
  then show ?case using Cons.IH Cons.prems(2) by simp
qed simp

lemma holder_renews:
  assumes "holds \<lparr>nl_node = n, nl_holder = h, nl_expires = t\<rparr> rows" and "nanos (pg_time now) < nanos t" and "0 \<le> n"
    and "ls_Node lease = n" and "ls_Holder lease = h"
  shows "leaser_Renew lease now ttl rows \<noteq> None"
proof -
  let ?hit = "\<lambda>x. nl_node x = n \<and> nl_holder x = h \<and> after (nl_expires x) (pg_time now)"
  have "\<exists>x. find ?hit rows = Some x"
  proof (cases "find ?hit rows")
    case None
    then have "\<not> ?hit \<lparr>nl_node = n, nl_holder = h, nl_expires = t\<rparr>" using assms(1) by (simp only: find_None_iff holds_def) blast
    then show ?thesis using assms(2) by (simp add: after_def)
  qed blast
  then obtain x where x: "find ?hit rows = Some x" by blast
  moreover have "nl_node x = n" using find_lease_mem [OF x] by blast
  ultimately show ?thesis using assms(3-5) by (simp add: leaser_Renew_def RenewSnowflakeNode_def Let_def)
qed

text \<open>
  C20: a node has one holder at a time. After a holder acquired a node, whatever acquisitions and renewals follow, its own renewals
  among them, the lease runs to the time of the acquisition or of its last renewal plus the duration given there: as long as no
  acquisition carries a time at or after that expiry, the next acquisition by anybody gets another node, and the holder can renew.
\<close>

theorem node_lease_exclusive:
  assumes "leaser_Acquire h now ttl rows = Some (rows1, lease)" and "distinct (map nl_node rows)"
    and "before_expiry (ls_Node lease) h (pg_time (time_add now ttl)) rows1 ops"
    and "nanos (pg_time now') < nanos (expiry_after (ls_Node lease) h (pg_time (time_add now ttl)) rows1 ops)"
  shows "(\<forall>h' ttl' rows2 lease'. leaser_Acquire h' now' ttl' (run_ops lease_step rows1 ops) = Some (rows2, lease') \<longrightarrow>
      ls_Node lease' \<noteq> ls_Node lease) \<and>
    (\<forall>ttl'. leaser_Renew lease now' ttl' (run_ops lease_step rows1 ops) \<noteq> None)"
proof -
  let ?t = "expiry_after (ls_Node lease) h (pg_time (time_add now ttl)) rows1 ops"
  obtain row where row: "AcquireSnowflakeNode h (pg_time (time_add now ttl)) (pg_time now) rows = Some (rows1, row)"
    and l: "lease = row_lease row"
    using assms(1) by (auto simp: leaser_Acquire_def split: option.splits if_splits)
  have r: "row = \<lparr>nl_node = ls_Node lease, nl_holder = h, nl_expires = pg_time (time_add now ttl)\<rparr>"
    using acquire_Some(1) [OF row] unfolding l by (simp add: row_lease_def)
  have held: "holds \<lparr>nl_node = ls_Node lease, nl_holder = h, nl_expires = ?t\<rparr> (run_ops lease_step rows1 ops)"
    using leases_hold [OF acquire_holds [OF row assms(2), unfolded r] assms(3)] .
  have "ls_Node lease' \<noteq> ls_Node lease"
    if a: "leaser_Acquire h' now' ttl' (run_ops lease_step rows1 ops) = Some (rows2, lease')" for h' ttl' rows2 lease'
  proof -
    obtain row' where "AcquireSnowflakeNode h' (pg_time (time_add now' ttl')) (pg_time now')
        (run_ops lease_step rows1 ops) = Some (rows2, row')" and l': "lease' = row_lease row'"
      using a by (auto simp: leaser_Acquire_def split: option.splits if_splits)
    from acquire_keeps(2) [OF this(1) held] assms(4) l' show ?thesis by (simp add: row_lease_def)
  qed
  moreover have "0 \<le> ls_Node lease" "ls_Holder lease = h"
    using acquire_Some(3) [OF row] arg_cong [OF r, of nl_holder] unfolding l by (simp_all add: row_lease_def)
  ultimately show ?thesis using holder_renews [OF held assms(4)] by blast
qed

lemma find_first: "P 0 \<Longrightarrow> find P (map int [0..<1024]) = Some 0"
  by (subst upt_conv_Cons) simp_all

lemma find_second: "\<not> P 0 \<Longrightarrow> P 1 \<Longrightarrow> find P (map int [0..<1024]) = Some 1"
  by (subst upt_conv_Cons, simp, subst upt_conv_Cons) simp_all

definition example_lease :: Lease where
  "example_lease = \<lparr>ls_Node = 0, ls_Holder = ''a'', ls_ExpiresAt = Time 30000 UTC\<rparr>"

lemma example_acquired:
  "leaser_Acquire ''a'' (Time 10000 UTC) 20000 [] =
     Some ([\<lparr>nl_node = 0, nl_holder = ''a'', nl_expires = Time 30000 UTC\<rparr>], example_lease)"
  by (simp add: leaser_Acquire_def AcquireSnowflakeNode_def find_first node_free_def pg_time_def Let_def
      time_add_def row_lease_def example_lease_def)

lemma example_acquired2:
  "leaser_Acquire ''b'' (Time 20000 UTC) 20000 [\<lparr>nl_node = 0, nl_holder = ''a'', nl_expires = Time 30000 UTC\<rparr>] =
     Some ([\<lparr>nl_node = 0, nl_holder = ''a'', nl_expires = Time 30000 UTC\<rparr>,
            \<lparr>nl_node = 1, nl_holder = ''b'', nl_expires = Time 40000 UTC\<rparr>],
           \<lparr>ls_Node = 1, ls_Holder = ''b'', ls_ExpiresAt = Time 40000 UTC\<rparr>)"
  by (simp add: leaser_Acquire_def AcquireSnowflakeNode_def find_second node_free_def pg_time_def Let_def
      time_add_def row_lease_def after_def)

lemma example_renewed:
  "run_ops lease_step [\<lparr>nl_node = 0, nl_holder = ''a'', nl_expires = Time 30000 UTC\<rparr>] [LRenew example_lease (Time 20000 UTC) 20000] =
     [\<lparr>nl_node = 0, nl_holder = ''a'', nl_expires = Time 40000 UTC\<rparr>]"
  "leaser_Renew example_lease (Time 20000 UTC) 20000 [\<lparr>nl_node = 0, nl_holder = ''a'', nl_expires = Time 30000 UTC\<rparr>] \<noteq> None"
  by (simp_all add: leaser_Renew_def RenewSnowflakeNode_def Let_def example_lease_def after_def pg_time_def time_add_def result_simps)

theorem node_lease_exclusive_witness:
  "\<exists>rows1. leaser_Acquire ''a'' (Time 10000 UTC) 20000 [] = Some (rows1, example_lease) \<and>
    (\<forall>h' ttl' rows2 lease'. leaser_Acquire h' (Time 35000 UTC) ttl'
        (run_ops lease_step rows1 [LRenew example_lease (Time 20000 UTC) 20000]) = Some (rows2, lease') \<longrightarrow> ls_Node lease' \<noteq> ls_Node example_lease)"
  using node_lease_exclusive [OF example_acquired, where ops = "[LRenew example_lease (Time 20000 UTC) 20000]" and now' = "Time 35000 UTC"]
    example_acquired example_renewed
  by (simp add: example_lease_def pg_time_def time_add_def)

text \<open>Two successive holders of node 0, around the expiry of the first lease.\<close>

definition handover_ms :: int where
  "handover_ms = 1767225600001 * 1000000 + 62135596800000000000"

definition handover_first :: "node_row list \<times> Lease" where
  "handover_first = the (leaser_Acquire ''a'' (Time handover_ms UTC) 500000 [])"

definition handover_second :: "node_row list \<times> Lease" where
  "handover_second = the (leaser_Acquire ''b'' (Time (handover_ms + 600000) UTC) 30000000000
     (fst handover_first))"

definition handover_generator :: "Lease \<Rightarrow> gotime \<Rightarrow> snowflake_error + Generator" where
  "handover_generator lease now = snowflake_New (\<lambda>_ _ _. Some lease) now
     \<lparr>sc_Holder = ls_Holder lease, sc_LeaseTTL = 30000000000, sc_RenewalInterval = 10000000000,
      sc_RegressionTolerance = 0\<rparr>"

definition handover_call :: "int \<Rightarrow> next_input" where
  "handover_call t = \<lparr>ni_now1 = Time t UTC, ni_renew = (\<lambda>_ _ _. None), ni_sleep1 = True,
     ni_now2 = Time t UTC, ni_sleep2 = True, ni_now3 = Time t UTC\<rparr>"

lemma handover_leases:
  "handover_first = ([\<lparr>nl_node = 0, nl_holder = ''a'', nl_expires = Time (handover_ms + 500000) UTC\<rparr>],
     \<lparr>ls_Node = 0, ls_Holder = ''a'', ls_ExpiresAt = Time (handover_ms + 500000) UTC\<rparr>)"
  "snd handover_second = \<lparr>ls_Node = 0, ls_Holder = ''b'',
     ls_ExpiresAt = Time (handover_ms + 600000 + 30000000000) UTC\<rparr>"
proof -
  show f: "handover_first = ([\<lparr>nl_node = 0, nl_holder = ''a'', nl_expires = Time (handover_ms + 500000) UTC\<rparr>],
     \<lparr>ls_Node = 0, ls_Holder = ''a'', ls_ExpiresAt = Time (handover_ms + 500000) UTC\<rparr>)"
    by (simp add: handover_first_def leaser_Acquire_def AcquireSnowflakeNode_def find_first
        node_free_def pg_time_def time_add_def row_lease_def handover_ms_def Let_def)
  show "snd handover_second = \<lparr>ls_Node = 0, ls_Holder = ''b'',
     ls_ExpiresAt = Time (handover_ms + 600000 + 30000000000) UTC\<rparr>"
    unfolding handover_second_def f
    by (simp add: leaser_Acquire_def AcquireSnowflakeNode_def find_first
        node_free_def pg_time_def time_add_def row_lease_def handover_ms_def Let_def after_def)
qed

text \<open>
  successive holders of one node can issue the same identifier. Leases end at microseconds and
  a new generator forgets the millisecond of its predecessor: a first holder issues an identifier
  0.1 ms before its lease on node 0 expires, a second holder acquires the same node 0.1 ms after
  the expiry, within the same millisecond, and issues the same identifier.
\<close>

theorem successive_holders_collide:
  "before (ls_ExpiresAt (snd handover_first)) (Time (handover_ms + 600000) UTC) \<and>
   issued [handover_call (handover_ms + 400000)]
     (projr (handover_generator (snd handover_first) (Time handover_ms UTC))) = [4194304] \<and>
   issued [handover_call (handover_ms + 700000)]
     (projr (handover_generator (snd handover_second) (Time (handover_ms + 600000) UTC))) = [4194304]"
  unfolding handover_leases
  by (simp add: handover_generator_def snowflake_New_def handover_call_def before_def after_def
      Next_def renew_lease_def wait_regression_def advance_sequence_def compose_id_def Let_def
      snowflake_bits unix_milli_def Epoch_def of_unix_milli_def unix_epoch_def millisecond_def
      handover_ms_def time_add_def)

text \<open>
  A holder that starts again under its old name cannot acquire a node while a smaller node than
  its old one is free: the statement picks the smaller node and violates the uniqueness of the
  holder, also after the holder's own lease has expired.
\<close>

lemma reacquire_under_old_name_fails:
  "leaser_Acquire ''b'' (Time 90000 UTC) 20000
     [\<lparr>nl_node = 0, nl_holder = ''a'', nl_expires = Time 30000 UTC\<rparr>,
      \<lparr>nl_node = 1, nl_holder = ''b'', nl_expires = Time 40000 UTC\<rparr>] = None"
  by (simp add: leaser_Acquire_def AcquireSnowflakeNode_def find_first node_free_def pg_time_def Let_def
      after_def)

end
