(* ===== verification/Activity.thy ===== *)
theory Activity
  imports Go_Base Go_Float
begin

text \<open>
  The provider-neutral facts that metrics are computed from: packages \<open>internal/contributor\<close>,
  \<open>internal/issue\<close>, \<open>internal/pullrequest\<close>, \<open>internal/release\<close> (\<open>release.go\<close>) and
  \<open>internal/platform/timewindow\<close>. Go maps that are only counted or sorted are association lists;
  the lemmas show that the order in which a map is iterated does not matter.
\<close>

section \<open>Time windows\<close>

record time_window =
  tw_From :: gotime
  tw_To :: gotime

definition Contains :: "time_window \<Rightarrow> gotime \<Rightarrow> bool" where
  "Contains w instant \<longleftrightarrow> \<not> before instant (tw_From w) \<and> before instant (tw_To w)"

text \<open>\<open>Duration.Hours()\<close>: whole hours plus the rest, both truncated towards zero.\<close>

definition duration_hours :: "duration \<Rightarrow> f64" where
  "duration_hours d =
     (let whole = (if d < 0 then - ((- d) div hour) else d div hour)
      in fadd (of_int_f64 whole) (fdiv (of_int_f64 (d - whole * hour)) (Fin 3600000000000)))"

section \<open>Contributors\<close>

datatype LinkStatus = LinkUnresolved | LinkVerified | LinkAnalystConfirmed | LinkOther string

record Commit =
  cm_ID :: int64
  cm_AccountID :: string
  cm_IdentityID :: string
  cm_LinkStatus :: LinkStatus
  cm_CommittedAt :: gotime
  cm_DefaultBranch :: bool
  cm_MergeCommit :: bool
  cm_Bot :: bool

record Contributor =
  ct_Key :: string
  ct_Commits :: int
  ct_Status :: LinkStatus

record Summary =
  su_Status :: string
  su_Active :: int
  su_TopOneShare :: "f64 option"
  su_TopThreeShare :: "f64 option"
  su_ResolutionCoverage :: f64
  su_Contributors :: "Contributor list"

definition commit_eligible :: "time_window \<Rightarrow> Commit \<Rightarrow> bool" where
  "commit_eligible w c \<longleftrightarrow> cm_DefaultBranch c \<and> \<not> cm_MergeCommit c \<and> \<not> cm_Bot c \<and>
     Contains w (utc (cm_CommittedAt c))"

definition identityKey :: "Commit \<Rightarrow> string \<times> LinkStatus" where
  "identityKey c =
     (if (cm_LinkStatus c = LinkVerified \<or> cm_LinkStatus c = LinkAnalystConfirmed) \<and>
         trim_space (cm_IdentityID c) \<noteq> ''''
      then (''identity:'' @ cm_IdentityID c, cm_LinkStatus c)
      else (''account:'' @ cm_AccountID c, LinkUnresolved))"

text \<open>The maps \<open>counts\<close> and \<open>statuses\<close> have the same keys: one list of contributors holds both.\<close>

fun bump :: "string \<Rightarrow> LinkStatus \<Rightarrow> Contributor list \<Rightarrow> Contributor list" where
  "bump key status [] = [\<lparr>ct_Key = key, ct_Commits = 1, ct_Status = status\<rparr>]"
| "bump key status (c # cs) =
     (if ct_Key c = key then c\<lparr>ct_Commits := ct_Commits c + 1, ct_Status := status\<rparr> # cs
      else c # bump key status cs)"

fun tally :: "time_window \<Rightarrow> Commit list \<Rightarrow> Contributor list \<times> int \<times> int \<Rightarrow> Contributor list \<times> int \<times> int" where
  "tally w [] st = st"
| "tally w (c # cs) (counts, eligible, resolved) =
     (if \<not> commit_eligible w c \<or> trim_space (cm_AccountID c) = '''' then tally w cs (counts, eligible, resolved)
      else let (key, status) = identityKey c
           in tally w cs (bump key status counts, eligible + 1,
                if status \<noteq> LinkUnresolved then resolved + 1 else resolved))"

definition cmp_contributor :: "Contributor \<Rightarrow> Contributor \<Rightarrow> int" where
  "cmp_contributor l r = (if ct_Commits l \<noteq> ct_Commits r then ct_Commits r - ct_Commits l
     else cmp_string (ct_Key l) (ct_Key r))"

definition float_ratio :: "int \<Rightarrow> int \<Rightarrow> f64" where
  "float_ratio a b = fdiv (of_int_f64 a) (of_int_f64 b)"

definition Aggregate :: "Commit list \<Rightarrow> time_window \<Rightarrow> Summary" where
  "Aggregate commits w =
     (let (counts, eligible, resolved) = tally w commits ([], 0, 0)
      in if eligible = 0
         then \<lparr>su_Status = ''insufficient_data'', su_Active = 0, su_TopOneShare = None,
               su_TopThreeShare = None, su_ResolutionCoverage = Fin 0, su_Contributors = []\<rparr>
         else let contributors = sort_func cmp_contributor counts
              in \<lparr>su_Status = ''available'', su_Active = int (length contributors),
                  su_TopOneShare = Some (float_ratio (ct_Commits (hd contributors)) eligible),
                  su_TopThreeShare = Some (float_ratio (sum_list (map ct_Commits (take 3 contributors))) eligible),
                  su_ResolutionCoverage = float_ratio resolved eligible,
                  su_Contributors = contributors\<rparr>)"

datatype contributor_error = ContributorErrInvalid

definition ValidateStatus :: "LinkStatus \<Rightarrow> contributor_error option" where
  "ValidateStatus status =
     (if status \<noteq> LinkVerified \<and> status \<noteq> LinkAnalystConfirmed \<and> status \<noteq> LinkUnresolved
      then Some ContributorErrInvalid else None)"

section \<open>Issues\<close>

record Response =
  re_At :: gotime
  re_ActorID :: string
  re_Public :: bool
  re_Bot :: bool
  re_Member :: bool

record Issue =
  is_ID :: int64
  is_OpenerID :: string
  is_CreatedAt :: gotime
  is_Responses :: "Response list"

definition qualifying :: "Issue \<Rightarrow> gotime \<Rightarrow> Response \<Rightarrow> bool" where
  "qualifying i cutoff r \<longleftrightarrow> \<not> (after (re_At r) cutoff \<or> \<not> re_Public r \<or> re_Bot r \<or> \<not> re_Member r \<or>
     re_ActorID r = is_OpenerID i)"

definition cmp_response :: "Response \<Rightarrow> Response \<Rightarrow> int" where
  "cmp_response l r = time_compare (re_At l) (re_At r)"

definition FirstResponse :: "Issue \<Rightarrow> gotime \<Rightarrow> duration option" where
  "FirstResponse i cutoff =
     (case find (qualifying i cutoff) (sort_func cmp_response (is_Responses i)) of
        None \<Rightarrow> None
      | Some r \<Rightarrow> Some (time_sub (re_At r) (is_CreatedAt i)))"

record StateEvent =
  ev_IssueID :: int64
  ev_At :: gotime
  ev_State :: string

definition cmp_event :: "StateEvent \<Rightarrow> StateEvent \<Rightarrow> int" where
  "cmp_event l r = cmp_then (time_compare (ev_At l) (ev_At r)) (cmp_int (ev_IssueID l) (ev_IssueID r))"

text \<open>The map \<open>states\<close> as an association list, and the number of its open entries.\<close>

fun put_state :: "int64 \<Rightarrow> string \<Rightarrow> (int64 \<times> string) list \<Rightarrow> (int64 \<times> string) list" where
  "put_state k v [] = [(k, v)]"
| "put_state k v ((a, b) # xs) = (if a = k then (a, v) # xs else (a, b) # put_state k v xs)"

definition record_event :: "StateEvent \<Rightarrow> (int64 \<times> string) list \<Rightarrow> (int64 \<times> string) list" where
  "record_event e states = put_state (ev_IssueID e) (ev_State e) states"

definition open_count :: "(int64 \<times> string) list \<Rightarrow> int" where
  "open_count states = int (length (filter (\<lambda>(_, s). s = ''open'') states))"

text \<open>The two loops of \<open>BacklogChange\<close> on the ordered events: the first stops at the window.\<close>

definition backlog_on :: "StateEvent list \<Rightarrow> time_window \<Rightarrow> int" where
  "backlog_on ordered w =
     (let states = fold record_event (takeWhile (\<lambda>e. before (ev_At e) (tw_From w)) ordered) [];
          start = open_count states;
          states2 = fold record_event (filter (\<lambda>e. \<not> (before (ev_At e) (tw_From w) \<or>
                      \<not> before (ev_At e) (tw_To w))) ordered) states
      in open_count states2 - start)"

definition BacklogChange :: "StateEvent list \<Rightarrow> time_window \<Rightarrow> int" where
  "BacklogChange events w = backlog_on (sort_func cmp_event events) w"

section \<open>Pull requests and releases\<close>

record PullRequest =
  pl_CreatedAt :: gotime
  pl_ReadyAt :: "gotime option"
  pl_MergedAt :: gotime

definition MergeDuration :: "PullRequest \<Rightarrow> duration \<times> bool" where
  "MergeDuration p = (case pl_ReadyAt p of
      None \<Rightarrow> (time_sub (pl_MergedAt p) (pl_CreatedAt p), True)
    | Some t \<Rightarrow> (time_sub (pl_MergedAt p) t, False))"

record Release =
  rl_ID :: int64
  rl_PublishedAt :: gotime
  rl_Draft :: bool
  rl_Prerelease :: bool

definition StableInWindow :: "Release list \<Rightarrow> time_window \<Rightarrow> Release list" where
  "StableInWindow vals w =
     filter (\<lambda>r. \<not> rl_Draft r \<and> \<not> rl_Prerelease r \<and> Contains w (utc (rl_PublishedAt r))) vals"

section \<open>Comparators\<close>

lemma cmp_string_simps:
  "cmp_string a b \<le> 0 \<longleftrightarrow> a \<le> b" "cmp_string a b = 0 \<longleftrightarrow> a = b"
  by (auto simp: cmp_string_def not_less)

interpretation contributor_order: comparator cmp_contributor
  by unfold_locales (auto simp: cmp_contributor_def cmp_string_simps split: if_splits)

interpretation response_order: comparator cmp_response
  by unfold_locales (auto simp: cmp_response_def time_compare_def split: if_splits)

interpretation event_order: comparator cmp_event
  by unfold_locales (auto simp: cmp_event_def cmp_then_def cmp_int_def time_compare_def split: if_splits)

section \<open>Concentration of contributors\<close>

definition counted :: "time_window \<Rightarrow> Commit \<Rightarrow> bool" where
  "counted w c \<longleftrightarrow> commit_eligible w c \<and> trim_space (cm_AccountID c) \<noteq> ''''"

definition commits_of :: "time_window \<Rightarrow> Commit list \<Rightarrow> string \<Rightarrow> int" where
  "commits_of w cs key = int (length (filter (\<lambda>c. counted w c \<and> fst (identityKey c) = key) cs))"

definition resolved_commit :: "time_window \<Rightarrow> Commit \<Rightarrow> bool" where
  "resolved_commit w c \<longleftrightarrow> counted w c \<and> snd (identityKey c) \<noteq> LinkUnresolved"

lemma bump_keys: "set (map ct_Key (bump k s cs)) = insert k (set (map ct_Key cs))"
  by (induction cs) auto

lemma bump_distinct: "distinct (map ct_Key cs) \<Longrightarrow> distinct (map ct_Key (bump k s cs))"
proof (induction cs)
  case (Cons c cs)
  then show ?case using bump_keys [of k s cs] by (auto simp flip: set_map)
qed simp

lemma bump_sum: "sum_list (map ct_Commits (bump k s cs)) = sum_list (map ct_Commits cs) + 1"
  by (induction cs) auto

text \<open>\<open>weight cs k\<close> is the count that the list has under a key, zero when the key is absent.\<close>

definition weight :: "Contributor list \<Rightarrow> string \<Rightarrow> int" where
  "weight cs k = sum_list (map ct_Commits (filter (\<lambda>c. ct_Key c = k) cs))"

lemma weight_bump: "weight (bump k s cs) k' = weight cs k' + (if k' = k then 1 else 0)"
  by (induction cs) (auto simp: weight_def)

lemma weight_member:
  "distinct (map ct_Key cs) \<Longrightarrow> c \<in> set cs \<Longrightarrow> weight cs (ct_Key c) = ct_Commits c"
proof (induction cs)
  case (Cons d cs)
  show ?case
  proof (cases "c = d")
    case True
    with Cons.prems have "filter (\<lambda>x. ct_Key x = ct_Key c) cs = []"
      by (auto simp: filter_empty_conv image_iff)
    with True show ?thesis by (simp add: weight_def)
  next
    case False
    with Cons show ?thesis by (auto simp: weight_def image_iff)
  qed
qed simp

lemma tally_spec:
  assumes "tally w commits (cs, e, r) = (cs', e', r')"
  shows "e' = e + int (length (filter (counted w) commits))"
    "r' = r + int (length (filter (resolved_commit w) commits))"
    "sum_list (map ct_Commits cs') = sum_list (map ct_Commits cs) + int (length (filter (counted w) commits))"
    "distinct (map ct_Key cs) \<Longrightarrow> distinct (map ct_Key cs')"
    "set (map ct_Key cs') = set (map ct_Key cs) \<union> (\<lambda>c. fst (identityKey c)) ` set (filter (counted w) commits)"
    "weight cs' k = weight cs k + commits_of w commits k"
proof -
  have "e' = e + int (length (filter (counted w) commits)) \<and>
    r' = r + int (length (filter (resolved_commit w) commits)) \<and>
    sum_list (map ct_Commits cs') = sum_list (map ct_Commits cs) + int (length (filter (counted w) commits)) \<and>
    (distinct (map ct_Key cs) \<longrightarrow> distinct (map ct_Key cs')) \<and>
    set (map ct_Key cs') = set (map ct_Key cs) \<union> (\<lambda>c. fst (identityKey c)) ` set (filter (counted w) commits) \<and>
    weight cs' k = weight cs k + commits_of w commits k"
    using assms
  proof (induction commits arbitrary: cs e r)
    case (Cons c commits)
    obtain key status where k: "identityKey c = (key, status)" by fastforce
    show ?case
    proof (cases "counted w c")
      case False
      with Cons.prems have "tally w commits (cs, e, r) = (cs', e', r')" by (auto simp: counted_def)
      from Cons.IH [OF this] False show ?thesis by (simp add: commits_of_def resolved_commit_def)
    next
      case True
      with Cons.prems k have "tally w commits (bump key status cs, e + 1,
          if status \<noteq> LinkUnresolved then r + 1 else r) = (cs', e', r')"
        by (simp add: counted_def)
      from Cons.IH [OF this] True k bump_keys [of key status cs] bump_sum [of key status cs]
        bump_distinct [of cs key status] weight_bump [of key status cs k] show ?thesis
        by (simp add: commits_of_def resolved_commit_def)
    qed
  qed (simp add: commits_of_def)
  then show "e' = e + int (length (filter (counted w) commits))"
    "r' = r + int (length (filter (resolved_commit w) commits))"
    "sum_list (map ct_Commits cs') = sum_list (map ct_Commits cs) + int (length (filter (counted w) commits))"
    "distinct (map ct_Key cs) \<Longrightarrow> distinct (map ct_Key cs')"
    "set (map ct_Key cs') = set (map ct_Key cs) \<union> (\<lambda>c. fst (identityKey c)) ` set (filter (counted w) commits)"
    "weight cs' k = weight cs k + commits_of w commits k" by simp_all
qed

text \<open>Contributors with different keys never compare equal: sorting them has one result.\<close>

lemma contributors_sorted_unique:
  assumes "distinct (map ct_Key cs)" and "mset ds = mset cs"
  shows "sort_func cmp_contributor ds = sort_func cmp_contributor cs"
proof (rule contributor_order.sort_func_unique [symmetric, where xs = ds, simplified])
  show "sort_result cmp_contributor ds (sort_func cmp_contributor cs)"
    using assms(2) contributor_order.ordered_sort by (simp add: sort_result_def)
  fix x y
  assume "x \<in> set ds" "y \<in> set ds" "cmp_contributor x y \<le> 0" "cmp_contributor y x \<le> 0"
  moreover have "set ds = set cs" using assms(2) by (metis set_mset_mset)
  ultimately have "x \<in> set cs" "y \<in> set cs" "ct_Key x = ct_Key y"
    by (auto simp: cmp_contributor_def cmp_string_simps split: if_splits)
  with assms(1) show "x = y" by (auto simp: distinct_map inj_on_def)
qed

definition eligible_commits :: "time_window \<Rightarrow> Commit list \<Rightarrow> int" where
  "eligible_commits w commits = int (length (filter (counted w) commits))"

lemma Aggregate_counts:
  assumes "eligible_commits w commits \<noteq> 0"
  obtains counts resolved where
    "Aggregate commits w = \<lparr>su_Status = ''available'', su_Active = int (length counts),
       su_TopOneShare = Some (float_ratio (ct_Commits (hd (sort_func cmp_contributor counts)))
         (eligible_commits w commits)),
       su_TopThreeShare = Some (float_ratio (sum_list (map ct_Commits (take 3 (sort_func cmp_contributor counts))))
         (eligible_commits w commits)),
       su_ResolutionCoverage = float_ratio resolved (eligible_commits w commits),
       su_Contributors = sort_func cmp_contributor counts\<rparr>"
    "distinct (map ct_Key counts)"
    "set (map ct_Key counts) = (\<lambda>c. fst (identityKey c)) ` set (filter (counted w) commits)"
    "sum_list (map ct_Commits counts) = eligible_commits w commits"
    "\<And>c. c \<in> set counts \<Longrightarrow> ct_Commits c = commits_of w commits (ct_Key c)"
    "resolved = int (length (filter (resolved_commit w) commits))"
proof -
  obtain counts e r where t: "tally w commits ([], 0, 0) = (counts, e, r)"
    by (metis prod_cases3)
  note s = tally_spec [OF t]
  have d: "distinct (map ct_Key counts)" using s(4) by simp
  have "ct_Commits c = commits_of w commits (ct_Key c)" if "c \<in> set counts" for c
    using weight_member [OF d that] s(6) [of "ct_Key c"] by (simp add: weight_def)
  moreover have "e = eligible_commits w commits" using s(1) by (simp add: eligible_commits_def)
  ultimately show ?thesis
    using that [of counts r] assms t d s(2,3,5)
    by (simp add: Aggregate_def eligible_commits_def Let_def)
qed

text \<open>
  \<open>Aggregate\<close> attributes every eligible commit to exactly one contributor. When some commit is
  eligible, the contributors are the distinct resolved-or-distinct identities of the eligible
  commits, each with the number of its commits; these add up to the number of eligible commits,
  and the list is ordered by decreasing count and then by key.
\<close>

theorem aggregate_partitions_commits:
  assumes "eligible_commits w commits \<noteq> 0"
  shows "let cs = su_Contributors (Aggregate commits w) in
    distinct (map ct_Key cs) \<and>
    set (map ct_Key cs) = (\<lambda>c. fst (identityKey c)) ` set (filter (counted w) commits) \<and>
    (\<forall>c \<in> set cs. ct_Commits c = commits_of w commits (ct_Key c)) \<and>
    sum_list (map ct_Commits cs) = eligible_commits w commits \<and>
    su_Active (Aggregate commits w) = int (length cs) \<and> ordered_by cmp_contributor cs"
  using assms
proof (rule Aggregate_counts)
  fix counts resolved
  let ?cs = "sort_func cmp_contributor counts"
  assume agg: "Aggregate commits w = \<lparr>su_Status = ''available'', su_Active = int (length counts),
       su_TopOneShare = Some (float_ratio (ct_Commits (hd ?cs)) (eligible_commits w commits)),
       su_TopThreeShare = Some (float_ratio (sum_list (map ct_Commits (take 3 ?cs))) (eligible_commits w commits)),
       su_ResolutionCoverage = float_ratio resolved (eligible_commits w commits), su_Contributors = ?cs\<rparr>"
    and c: "distinct (map ct_Key counts)"
      "set (map ct_Key counts) = (\<lambda>c. fst (identityKey c)) ` set (filter (counted w) commits)"
      "sum_list (map ct_Commits counts) = eligible_commits w commits"
      "\<And>c. c \<in> set counts \<Longrightarrow> ct_Commits c = commits_of w commits (ct_Key c)"
  have "mset (map f ?cs) = mset (map f counts)" for f :: "Contributor \<Rightarrow> 'b" by simp
  then have "distinct (map ct_Key ?cs)" "sum_list (map ct_Commits ?cs) = eligible_commits w commits"
    using c(1,3) by (metis mset_eq_imp_distinct_iff, metis sum_mset_sum_list)
  with c agg show ?thesis
    by (simp add: Let_def contributor_order.ordered_sort)
qed

definition sample_window :: time_window where
  "sample_window = \<lparr>tw_From = Time 0 UTC, tw_To = Time 100 UTC\<rparr>"

definition sample_commit :: Commit where
  "sample_commit = \<lparr>cm_ID = 1, cm_AccountID = ''a'', cm_IdentityID = '''', cm_LinkStatus = LinkUnresolved,
     cm_CommittedAt = Time 5 UTC, cm_DefaultBranch = True, cm_MergeCommit = False, cm_Bot = False\<rparr>"

lemma sample_eligible: "eligible_commits sample_window [sample_commit] = 1"
proof -
  have "trim_space ''a'' = ''a''" by code_simp
  then show ?thesis
    by (simp add: eligible_commits_def counted_def commit_eligible_def Contains_def sample_window_def
        sample_commit_def before_def)
qed

theorem aggregate_partitions_commits_witness:
  "sum_list (map ct_Commits (su_Contributors (Aggregate [sample_commit] sample_window))) = 1 \<and>
   distinct (map ct_Key (su_Contributors (Aggregate [sample_commit] sample_window)))"
  using aggregate_partitions_commits [of sample_window "[sample_commit]"]
  by (simp add: sample_eligible Let_def)

lemma float_ratio_le:
  assumes "0 \<le> a" "a \<le> b" "b \<le> n" "0 < n" "n \<le> 2 ^ 53"
  shows "fle (Fin 0) (float_ratio a n) \<and> fle (float_ratio a n) (float_ratio b n) \<and>
    fle (float_ratio b n) (Fin 1)"
proof -
  have r: "float_ratio x n = Fin (round_rat (of_int x / of_int n))" if "0 \<le> x" "x \<le> n" for x
    using that assms(4,5) by (simp add: float_ratio_def of_int_f64_small of_rat64_unit)
  have "round_rat (of_int a / of_int n) \<le> round_rat (of_int b / of_int n)"
    using assms by (intro r64.rnd_mono) (simp add: divide_right_mono)
  with assms r [of a] r [of b] show ?thesis
    by (simp add: r64.rnd_nonneg r64.rnd_le_1)
qed

lemma sum_list_take_le:
  fixes xs :: "int list"
  assumes "\<And>x. x \<in> set xs \<Longrightarrow> 0 \<le> x"
  shows "sum_list (take n xs) \<le> sum_list xs"
proof -
  have "sum_list xs = sum_list (take n xs) + sum_list (drop n xs)"
    by (metis append_take_drop_id sum_list_append)
  moreover have "0 \<le> sum_list (drop n xs)"
    using assms by (intro sum_list_nonneg) (auto dest: in_set_dropD)
  ultimately show ?thesis by simp
qed

lemma shares_bounds:
  assumes "eligible_commits w commits \<noteq> 0" and "eligible_commits w commits \<le> 2 ^ 53"
  shows "\<exists>one three. su_TopOneShare (Aggregate commits w) = Some one \<and>
    su_TopThreeShare (Aggregate commits w) = Some three \<and>
    fle (Fin 0) one \<and> fle one three \<and> fle three (Fin 1) \<and>
    fle (Fin 0) (su_ResolutionCoverage (Aggregate commits w)) \<and>
    fle (su_ResolutionCoverage (Aggregate commits w)) (Fin 1)"
  using assms(1)
proof (rule Aggregate_counts)
  fix counts resolved
  let ?cs = "sort_func cmp_contributor counts"
  let ?n = "eligible_commits w commits"
  assume agg: "Aggregate commits w = \<lparr>su_Status = ''available'', su_Active = int (length counts),
       su_TopOneShare = Some (float_ratio (ct_Commits (hd ?cs)) ?n),
       su_TopThreeShare = Some (float_ratio (sum_list (map ct_Commits (take 3 ?cs))) ?n),
       su_ResolutionCoverage = float_ratio resolved ?n, su_Contributors = ?cs\<rparr>"
    and sum: "sum_list (map ct_Commits counts) = ?n"
    and cnt: "\<And>c. c \<in> set counts \<Longrightarrow> ct_Commits c = commits_of w commits (ct_Key c)"
    and res: "resolved = int (length (filter (resolved_commit w) commits))"
  have nn: "0 \<le> x" if "x \<in> set (map ct_Commits ?cs)" for x
    using that cnt by (auto simp: commits_of_def)
  have sum': "sum_list (map ct_Commits ?cs) = ?n"
    using sum by (metis mset_map mset_sort_func sum_mset_sum_list)
  have pos: "0 < ?n" using assms(1) by (simp add: eligible_commits_def)
  then obtain c rest where cs: "?cs = c # rest" using sum' by (cases ?cs) auto
  have three: "sum_list (map ct_Commits (take 3 ?cs)) \<le> ?n"
    using sum_list_take_le [of "map ct_Commits ?cs" 3] nn sum' by (simp add: take_map)
  have rest: "0 \<le> sum_list (map ct_Commits (take 2 rest))"
    using nn unfolding cs by (intro sum_list_nonneg) (auto dest: in_set_takeD)
  have one: "0 \<le> ct_Commits (hd ?cs)" "ct_Commits (hd ?cs) \<le> sum_list (map ct_Commits (take 3 ?cs))"
    using nn rest unfolding cs by (simp_all add: take_Cons')
  have "length (filter (resolved_commit w) commits) \<le> length (filter (counted w) commits)"
    by (induction commits) (auto simp: resolved_commit_def)
  then have "0 \<le> resolved" "resolved \<le> ?n" by (simp_all add: res eligible_commits_def)
  then show ?thesis
    using float_ratio_le [OF one three pos assms(2)] float_ratio_le [of resolved resolved ?n]
      pos assms(2) by (simp add: agg)
qed

lemma active_le_eligible:
  assumes "eligible_commits w commits \<noteq> 0"
  shows "0 \<le> su_Active (Aggregate commits w)" "su_Active (Aggregate commits w) \<le> eligible_commits w commits"
proof -
  obtain counts :: "Contributor list" where c: "su_Active (Aggregate commits w) = int (length counts)"
      "set (map ct_Key counts) = (\<lambda>c. fst (identityKey c)) ` set (filter (counted w) commits)"
      "distinct (map ct_Key counts)"
  proof (rule Aggregate_counts [OF assms])
    fix counts resolved
    assume "Aggregate commits w = \<lparr>su_Status = ''available'', su_Active = int (length counts),
       su_TopOneShare = Some (float_ratio (ct_Commits (hd (sort_func cmp_contributor counts)))
         (eligible_commits w commits)),
       su_TopThreeShare = Some (float_ratio (sum_list (map ct_Commits (take 3 (sort_func cmp_contributor counts))))
         (eligible_commits w commits)),
       su_ResolutionCoverage = float_ratio resolved (eligible_commits w commits),
       su_Contributors = sort_func cmp_contributor counts\<rparr>"
      and "distinct (map ct_Key counts)"
      "set (map ct_Key counts) = (\<lambda>c. fst (identityKey c)) ` set (filter (counted w) commits)"
    then show thesis by (intro that [of counts]) simp_all
  qed
  then show "0 \<le> su_Active (Aggregate commits w)" by simp
  have "length counts = card ((\<lambda>c. fst (identityKey c)) ` set (filter (counted w) commits))"
    using c(2,3) by (metis distinct_card length_map)
  also have "\<dots> \<le> card (set (filter (counted w) commits))" by (rule card_image_le) simp
  also have "\<dots> \<le> length (filter (counted w) commits)" by (rule card_length)
  finally show "su_Active (Aggregate commits w) \<le> eligible_commits w commits"
    using c(1) by (simp add: eligible_commits_def)
qed

text \<open>
  the concentration shares are proper ratios. For up to \<open>2^53\<close> eligible commits, computed in
  64-bit floating point, the share of the first contributor is at least zero and at most the share
  of the first three, which is at most one; the resolution coverage lies between zero and one.
\<close>

theorem aggregate_shares_bounds:
  assumes "eligible_commits w commits \<noteq> 0" and "eligible_commits w commits \<le> 2 ^ 53"
  shows "\<exists>one three. su_TopOneShare (Aggregate commits w) = Some one \<and>
    su_TopThreeShare (Aggregate commits w) = Some three \<and>
    fle (Fin 0) one \<and> fle one three \<and> fle three (Fin 1) \<and>
    fle (Fin 0) (su_ResolutionCoverage (Aggregate commits w)) \<and>
    fle (su_ResolutionCoverage (Aggregate commits w)) (Fin 1)"
  using assms by (rule shares_bounds)

theorem aggregate_shares_bounds_witness:
  "\<exists>one three. su_TopOneShare (Aggregate [sample_commit] sample_window) = Some one \<and>
    su_TopThreeShare (Aggregate [sample_commit] sample_window) = Some three \<and> fle one three"
  using aggregate_shares_bounds [of sample_window "[sample_commit]"] by (auto simp: sample_eligible)

section \<open>Backlog\<close>

text \<open>\<open>open_before t\<close>: the issues that are open in the state that the events before \<open>t\<close> leave.\<close>

definition open_before :: "StateEvent list \<Rightarrow> gotime \<Rightarrow> int" where
  "open_before ordered t = open_count (fold record_event (filter (\<lambda>e. before (ev_At e) t) ordered) [])"

definition time_ordered :: "StateEvent list \<Rightarrow> bool" where
  "time_ordered es \<longleftrightarrow> sorted_wrt (\<lambda>a b. nanos (ev_At a) \<le> nanos (ev_At b)) es"

lemma ordered_events: "ordered_by cmp_event es \<Longrightarrow> time_ordered es"
  unfolding ordered_by_def time_ordered_def
  by (rule sorted_wrt_mono_rel [of es, rotated], assumption)
    (auto simp: cmp_event_def cmp_then_def time_compare_def split: if_splits)

lemma takeWhile_before:
  "time_ordered es \<Longrightarrow> takeWhile (\<lambda>e. before (ev_At e) t) es = filter (\<lambda>e. before (ev_At e) t) es"
proof (induction es)
  case (Cons e es)
  then have IH: "takeWhile (\<lambda>e. before (ev_At e) t) es = filter (\<lambda>e. before (ev_At e) t) es"
    by (simp add: time_ordered_def)
  show ?case
  proof (cases "before (ev_At e) t")
    case True
    with IH show ?thesis by simp
  next
    case False
    with Cons.prems have "filter (\<lambda>e. before (ev_At e) t) es = []"
      by (auto simp: time_ordered_def filter_empty_conv before_def)
    with False show ?thesis by simp
  qed
qed simp

lemma filter_before_split:
  "time_ordered es \<Longrightarrow> nanos s \<le> nanos t \<Longrightarrow>
     filter (\<lambda>e. before (ev_At e) s) es @
     filter (\<lambda>e. \<not> before (ev_At e) s \<and> before (ev_At e) t) es = filter (\<lambda>e. before (ev_At e) t) es"
proof (induction es)
  case (Cons e es)
  then have IH: "filter (\<lambda>e. before (ev_At e) s) es @
     filter (\<lambda>e. \<not> before (ev_At e) s \<and> before (ev_At e) t) es = filter (\<lambda>e. before (ev_At e) t) es"
    by (simp add: time_ordered_def)
  show ?case
  proof (cases "before (ev_At e) s")
    case True
    with IH Cons.prems(2) show ?thesis by (simp add: before_def)
  next
    case False
    with Cons.prems have "filter (\<lambda>e. before (ev_At e) s) es = []"
      by (auto simp: time_ordered_def filter_empty_conv before_def)
    with False IH show ?thesis by simp
  qed
qed simp

lemma backlog_on_open_before:
  assumes "time_ordered es" and "\<not> before (tw_To w) (tw_From w)"
  shows "backlog_on es w = open_before es (tw_To w) - open_before es (tw_From w)"
proof -
  have "fold record_event (filter (\<lambda>e. \<not> before (ev_At e) (tw_From w) \<and> before (ev_At e) (tw_To w)) es)
      (fold record_event (filter (\<lambda>e. before (ev_At e) (tw_From w)) es) []) =
      fold record_event (filter (\<lambda>e. before (ev_At e) (tw_To w)) es) []"
    using filter_before_split [OF assms(1), of "tw_From w" "tw_To w", symmetric] assms(2)
    by (simp add: before_def not_less fold_append)
  then show ?thesis
    using takeWhile_before [OF assms(1)] by (simp add: backlog_on_def open_before_def)
qed

text \<open>
  the backlog change is the difference of two states, so it adds up over adjacent windows: the
  change from \<open>a\<close> to \<open>c\<close> is the change from \<open>a\<close> to \<open>b\<close> plus the change from \<open>b\<close> to \<open>c\<close>, for every
  list of state events.
\<close>

theorem backlog_change_additive:
  assumes "\<not> before b a" and "\<not> before c b"
  shows "BacklogChange events \<lparr>tw_From = a, tw_To = c\<rparr> =
    BacklogChange events \<lparr>tw_From = a, tw_To = b\<rparr> + BacklogChange events \<lparr>tw_From = b, tw_To = c\<rparr>"
proof -
  have "time_ordered (sort_func cmp_event events)"
    by (rule ordered_events) (rule event_order.ordered_sort)
  from backlog_on_open_before [OF this] assms show ?thesis
    by (simp add: BacklogChange_def before_def)
qed

theorem backlog_change_additive_witness:
  "BacklogChange [\<lparr>ev_IssueID = 1, ev_At = Time 5 UTC, ev_State = ''open''\<rparr>]
     \<lparr>tw_From = Time 0 UTC, tw_To = Time 9 UTC\<rparr> =
   BacklogChange [\<lparr>ev_IssueID = 1, ev_At = Time 5 UTC, ev_State = ''open''\<rparr>]
     \<lparr>tw_From = Time 0 UTC, tw_To = Time 3 UTC\<rparr> +
   BacklogChange [\<lparr>ev_IssueID = 1, ev_At = Time 5 UTC, ev_State = ''open''\<rparr>]
     \<lparr>tw_From = Time 3 UTC, tw_To = Time 9 UTC\<rparr>"
  by (rule backlog_change_additive) (simp_all add: before_def)

text \<open>
  The comparator does not order two events of one issue at one instant, and \<open>slices.SortFunc\<close> is
  not stable: an issue that is closed and reopened within the resolution of the timestamps makes
  the change depend on the arrangement that the sort happens to choose.
\<close>

lemma backlog_depends_on_ties:
  fixes a b :: StateEvent and w :: time_window
  defines "a \<equiv> \<lparr>ev_IssueID = 1, ev_At = Time 5 UTC, ev_State = ''closed''\<rparr>"
    and "b \<equiv> \<lparr>ev_IssueID = 1, ev_At = Time 5 UTC, ev_State = ''open''\<rparr>"
    and "w \<equiv> \<lparr>tw_From = Time 0 UTC, tw_To = Time 9 UTC\<rparr>"
  shows "sort_result cmp_event [a, b] [a, b] \<and> sort_result cmp_event [a, b] [b, a] \<and>
    backlog_on [a, b] w = 1 \<and> backlog_on [b, a] w = 0"
  by (simp add: a_def b_def w_def sort_result_def ordered_by_def cmp_event_def cmp_then_def
      cmp_int_def time_compare_def backlog_on_def open_count_def record_event_def before_def)

section \<open>First responses\<close>

lemma find_sorted_first:
  assumes "ordered_by cmp_response rs" and "find P rs = Some r" and "x \<in> set rs" and "P x"
  shows "nanos (re_At r) \<le> nanos (re_At x)"
  using assms
proof (induction rs)
  case (Cons y ys)
  show ?case
  proof (cases "P y")
    case True
    with Cons.prems show ?thesis
      by (auto simp: ordered_by_def cmp_response_def time_compare_def split: if_splits)
  next
    case False
    with Cons show ?thesis by (auto simp: ordered_by_def)
  qed
qed simp

text \<open>
  \<open>FirstResponse\<close> is the least qualifying delay: it returns a duration exactly when some
  response qualifies (public, by a member that is not the opener and not a bot, at or before the
  cutoff), and then the duration of a qualifying response that no other one precedes.
\<close>

theorem first_response_earliest:
  "(FirstResponse i cutoff = None \<longleftrightarrow> \<not> list_ex (qualifying i cutoff) (is_Responses i)) \<and>
   (\<forall>d. FirstResponse i cutoff = Some d \<longrightarrow>
      (\<exists>r \<in> set (is_Responses i). qualifying i cutoff r \<and> d = time_sub (re_At r) (is_CreatedAt i) \<and>
         (\<forall>x \<in> set (is_Responses i). qualifying i cutoff x \<longrightarrow> nanos (re_At r) \<le> nanos (re_At x))))"
proof (cases "find (qualifying i cutoff) (sort_func cmp_response (is_Responses i))")
  case None
  then have "\<not> (\<exists>x. x \<in> set (is_Responses i) \<and> qualifying i cutoff x)" by (simp add: find_None_iff)
  with None show ?thesis by (simp add: FirstResponse_def list_ex_iff)
next
  case (Some r)
  then have r: "r \<in> set (is_Responses i)" "qualifying i cutoff r"
    by (auto simp: find_Some_iff) (metis nth_mem length_sort_func set_sort_func)
  have "nanos (re_At r) \<le> nanos (re_At x)" if "x \<in> set (is_Responses i)" "qualifying i cutoff x" for x
    using find_sorted_first [OF response_order.ordered_sort Some] that by simp
  with r Some show ?thesis by (auto simp: FirstResponse_def list_ex_iff)
qed

theorem first_response_earliest_witness:
  "FirstResponse \<lparr>is_ID = 1, is_OpenerID = ''o'', is_CreatedAt = Time 2 UTC, is_Responses = []\<rparr> (Time 9 UTC) = None"
  using first_response_earliest [of "\<lparr>is_ID = 1, is_OpenerID = ''o'', is_CreatedAt = Time 2 UTC, is_Responses = []\<rparr>"
      "Time 9 UTC"] by simp

end
