(* ===== verification/Metric.thy ===== *)
theory Metric
  imports Activity
begin

text \<open>
  Package \<open>internal/metric\<close>: the closed catalog of metric definitions, analysis windows, immutable
  snapshots, the computation of the catalog from facts, and the health score. A Go \<open>*float64\<close> is
  an optional float; \<open>slices.Clone\<close> is the identity on lists. Dates are parsed with the proleptic
  Gregorian calendar, as \<open>time.Parse("2006-01-02", _)\<close> does.
\<close>

section \<open>Definitions\<close>

datatype metric_error = MetricErrInvalid

datatype MetricStatus = StatusAvailable | StatusUnknown | StatusNotApplicable
  | StatusInsufficientData | StatusIncomparable | StatusStale | StatusUnavailable
  | MetricStatusOther string

record Definition =
  df_Name :: string
  df_Version :: string
  df_Unit :: string
  df_DefaultWindow :: duration
  df_Formula :: string
  df_Eligibility :: string
  df_MissingDataRule :: string

definition definition_row ::
    "string \<Rightarrow> string \<Rightarrow> int \<Rightarrow> string \<Rightarrow> string \<Rightarrow> string \<Rightarrow> Definition" where
  "definition_row name unit days formula eligibility missing = \<lparr>df_Name = name, df_Version = ''v1'',
     df_Unit = unit, df_DefaultWindow = days * day_length, df_Formula = formula,
     df_Eligibility = eligibility, df_MissingDataRule = missing\<rparr>"

definition catalog :: "Definition list" where
  "catalog =
    [definition_row ''release_frequency'' ''releases'' 90 ''count(stable releases published in [from,to))''
       ''published and not draft or prerelease'' ''insufficient_data when release coverage is incomplete'',
     definition_row ''active_contributors'' ''people'' 30 ''count(distinct eligible contributor identities)''
       ''human non-merge default-branch commits'' ''insufficient_data when commit evidence is absent'',
     definition_row ''issues_opened_closed'' ''issues'' 30 ''count(opened), count(closed) in [from,to)''
       ''canonical issues'' ''insufficient_data when issue coverage is incomplete'',
     definition_row ''median_issue_first_response'' ''hours'' 30 ''median(first qualifying response - opened_at)''
       ''issues opened in window; public non-bot member response excluding opener''
       ''unanswered issues are censored and reduce coverage'',
     definition_row ''median_pr_merge_time'' ''hours'' 30 ''median(merged_at - ready_for_review)''
       ''pull requests merged in window'' ''created_at fallback is counted in coverage'',
     definition_row ''backlog_change'' ''issues'' 30 ''open_at_end - open_at_start''
       ''issue state events including reopen'' ''insufficient_data without boundary history'',
     definition_row ''top_three_author_share'' ''ratio'' 90
       ''commits by top three resolved-or-distinct authors / eligible commits''
       ''human non-merge default-branch commits''
       ''unresolved accounts remain distinct and reduce resolution coverage'']"

definition DefinitionByName :: "string \<Rightarrow> Definition option" where
  "DefinitionByName name = find (\<lambda>d. df_Name d = name) catalog"

section \<open>Windows\<close>

record MetricWindow =
  mw_From :: gotime
  mw_To :: gotime
  mw_Cutoff :: gotime

definition window_Validate :: "MetricWindow \<Rightarrow> metric_error option" where
  "window_Validate w =
     (if is_zero (mw_From w) \<or> is_zero (mw_To w) \<or> is_zero (mw_Cutoff w) \<or>
         \<not> before (mw_From w) (mw_To w) \<or> after (mw_To w) (mw_Cutoff w)
      then Some MetricErrInvalid
      else if location_of (mw_From w) \<noteq> UTC \<or> location_of (mw_To w) \<noteq> UTC \<or> location_of (mw_Cutoff w) \<noteq> UTC
      then Some MetricErrInvalid
      else None)"

definition preset_days :: "string \<Rightarrow> int" where
  "preset_days s = (if s = ''30d'' then 30 else if s = ''90d'' then 90 else if s = ''180d'' then 180
     else if s = ''365d'' then 365 else 0)"

definition PresetWindow :: "string \<Rightarrow> gotime \<Rightarrow> metric_error + MetricWindow" where
  "PresetWindow val cutoff0 =
     (let days = preset_days val in
      if days = 0 then Inl MetricErrInvalid
      else let cutoff = utc cutoff0
           in Inr \<lparr>mw_From = add_days cutoff (- days), mw_To = cutoff, mw_Cutoff = cutoff\<rparr>)"

text \<open>\<open>time.Parse("2006-01-02", s)\<close>.\<close>

definition leap_year :: "int \<Rightarrow> bool" where
  "leap_year y \<longleftrightarrow> y mod 4 = 0 \<and> (y mod 100 \<noteq> 0 \<or> y mod 400 = 0)"

definition days_in_month :: "int \<Rightarrow> nat \<Rightarrow> int" where
  "days_in_month y m = (if m = 2 then (if leap_year y then 29 else 28)
     else if m \<in> {4, 6, 9, 11} then 30 else 31)"

definition days_before_year :: "int \<Rightarrow> int" where
  "days_before_year y = (let p = y - 1 in 365 * p + p div 4 - p div 100 + p div 400)"

definition parse_date :: "string \<Rightarrow> gotime option" where
  "parse_date s =
     (if length s \<noteq> 10 \<or> s ! 4 \<noteq> CHR ''-'' \<or> s ! 7 \<noteq> CHR ''-'' then None
      else (case (parse_nat (take 4 s), parse_nat (take 2 (drop 5 s)), parse_nat (drop 8 s)) of
          (Some y, Some m, Some d) \<Rightarrow>
            if m < 1 \<or> m > 12 \<or> d < 1 \<or> int d > days_in_month (int y) m then None
            else Some (Time ((days_before_year (int y) +
                   sum_list (map (days_in_month (int y)) [1..<m]) + int d - 1) * day_length) UTC)
        | _ \<Rightarrow> None))"

definition ResolveWindow :: "string \<Rightarrow> gotime \<Rightarrow> metric_error + MetricWindow" where
  "ResolveWindow val cutoff =
     (case PresetWindow val cutoff of
        Inr preset \<Rightarrow> Inr preset
      | Inl _ \<Rightarrow>
          (case split_on CHR ''/'' val of
             [a, b] \<Rightarrow>
               (case (parse_date a, parse_date b) of
                  (Some frm, Some to) \<Rightarrow>
                    let w = \<lparr>mw_From = utc frm, mw_To = utc to, mw_Cutoff = utc cutoff\<rparr>
                    in if window_Validate w \<noteq> None then Inl MetricErrInvalid else Inr w
                | _ \<Rightarrow> Inl MetricErrInvalid)
           | _ \<Rightarrow> Inl MetricErrInvalid))"

section \<open>Snapshots\<close>

record Coverage =
  cv_Eligible :: int
  cv_Observed :: int
  cv_Ratio :: f64
  cv_Note :: string

record Factor =
  fc_Name :: string
  fc_Value :: "f64 option"
  fc_Unit :: string
  fc_EvidenceID :: int64

record Snapshot =
  sn_ID :: int64
  sn_ProjectID :: int64
  sn_Definition :: Definition
  sn_Window :: MetricWindow
  sn_Status :: MetricStatus
  sn_Value :: "f64 option"
  sn_Coverage :: Coverage
  sn_Factors :: "Factor list"
  sn_Repositories :: "int64 list"
  sn_StaleReason :: string

definition NewSnapshot ::
    "int64 \<Rightarrow> Definition \<Rightarrow> MetricWindow \<Rightarrow> MetricStatus \<Rightarrow> f64 option \<Rightarrow> Coverage \<Rightarrow> Factor list \<Rightarrow>
     int64 list \<Rightarrow> metric_error + Snapshot" where
  "NewSnapshot projectID definition window status val coverage factors repositories =
     (if projectID \<le> 0 \<or> trim_space (df_Name definition) = '''' \<or> window_Validate window \<noteq> None
      then Inl MetricErrInvalid
      else if status = StatusAvailable \<and> (case val of None \<Rightarrow> True | Some v \<Rightarrow> is_nan v \<or> is_inf v)
      then Inl MetricErrInvalid
      else if status \<noteq> StatusAvailable \<and> val \<noteq> None then Inl MetricErrInvalid
      else
        let cov = (if cv_Eligible coverage > 0
              then coverage\<lparr>cv_Ratio := float_ratio (cv_Observed coverage) (cv_Eligible coverage)\<rparr>
              else coverage)
        in Inr \<lparr>sn_ID = 0, sn_ProjectID = projectID, sn_Definition = definition, sn_Window = window,
             sn_Status = status, sn_Value = val, sn_Coverage = cov, sn_Factors = factors,
             sn_Repositories = repositories, sn_StaleReason = ''''\<rparr>)"

section \<open>Health\<close>

definition HealthDimensionNames :: "string list" where
  "HealthDimensionNames = [''Activity'', ''Community'', ''Maintenance'', ''Concentration'', ''Stability'',
     ''Security'', ''Adoption'']"

record Dimension =
  dm_Name :: string
  dm_Status :: MetricStatus
  dm_Score :: "f64 option"
  dm_Weight :: f64
  dm_Version :: string
  dm_Factors :: "Factor list"

record Health =
  he_ProjectID :: int64
  he_Window :: MetricWindow
  he_Version :: string
  he_Dimensions :: "Dimension list"
  he_Overall :: "f64 option"
  he_OverallStatus :: MetricStatus

definition health_weight :: f64 where
  "health_weight = of_rat64 (1 / 7)"

text \<open>The loop over the names: the ordered dimensions, the running total, and whether it counts.\<close>

fun health_loop ::
    "Dimension list \<Rightarrow> string list \<Rightarrow> f64 \<Rightarrow> bool \<Rightarrow> metric_error + (Dimension list \<times> f64 \<times> bool)" where
  "health_loop dims [] tot calculable = Inr ([], tot, calculable)"
| "health_loop dims (name # names) tot calculable =
     (case find (\<lambda>d. dm_Name d = name) (rev dims) of
        None \<Rightarrow> Inl MetricErrInvalid
      | Some d0 \<Rightarrow>
          let d = d0\<lparr>dm_Weight := health_weight\<rparr>;
              (tot', calculable') =
                (if dm_Status d \<noteq> StatusAvailable then (tot, False)
                 else case dm_Score d of
                     None \<Rightarrow> (tot, False)
                   | Some s \<Rightarrow> (fadd tot (fmul s health_weight), calculable))
          in bindE (health_loop dims names tot' calculable') (\<lambda>(ds, t, c). Inr (d # ds, t, c)))"

definition CalculateHealth ::
    "int64 \<Rightarrow> MetricWindow \<Rightarrow> string \<Rightarrow> Dimension list \<Rightarrow> metric_error + Health" where
  "CalculateHealth projectID window version dimensions =
     (if projectID \<le> 0 \<or> window_Validate window \<noteq> None \<or>
         length dimensions \<noteq> length HealthDimensionNames
      then Inl MetricErrInvalid
      else bindE (health_loop dimensions HealthDimensionNames (Fin 0) True) (\<lambda>(ordered, tot, calculable).
        Inr \<lparr>he_ProjectID = projectID, he_Window = window, he_Version = version, he_Dimensions = ordered,
          he_Overall = (if calculable then Some tot else None),
          he_OverallStatus = (if calculable then StatusAvailable else StatusInsufficientData)\<rparr>))"

definition Median :: "f64 list \<Rightarrow> f64 option" where
  "Median vals =
     (if vals = [] then None
      else let ordered = sort_func cmp_f64 vals; middle = length ordered div 2
           in if length ordered mod 2 = 1 then Some (ordered ! middle)
              else Some (fdiv (fadd (ordered ! (middle - 1)) (ordered ! middle)) (Fin 2)))"

section \<open>The catalog computed from facts\<close>

definition AsTimeWindow :: "MetricWindow \<Rightarrow> time_window" where
  "AsTimeWindow w = \<lparr>tw_From = mw_From w, tw_To = mw_To w\<rparr>"

text \<open>\<open>IssueClosedAt\<close> is a Go map: an association list with distinct keys, of which only the values are counted.\<close>

record Facts =
  fa_Releases :: "Release list"
  fa_Commits :: "Commit list"
  fa_Issues :: "Issue list"
  fa_IssueClosedAt :: "(int64 \<times> gotime) list"
  fa_PullRequests :: "PullRequest list"
  fa_IssueEvents :: "StateEvent list"
  fa_RepositoryIDs :: "int64 list"
  fa_ReleaseCovered :: bool
  fa_CommitCovered :: bool
  fa_IssueCovered :: bool
  fa_PRCovered :: bool

type_synonym computed = "MetricStatus \<times> f64 option \<times> Coverage \<times> Factor list"

definition coverage_of :: "int \<Rightarrow> int \<Rightarrow> f64 \<Rightarrow> string \<Rightarrow> Coverage" where
  "coverage_of eligible observed ratio note =
     \<lparr>cv_Eligible = eligible, cv_Observed = observed, cv_Ratio = ratio, cv_Note = note\<rparr>"

definition factor_of :: "string \<Rightarrow> f64 option \<Rightarrow> string \<Rightarrow> Factor" where
  "factor_of name val unit = \<lparr>fc_Name = name, fc_Value = val, fc_Unit = unit, fc_EvidenceID = 0\<rparr>"

definition count_where :: "('a \<Rightarrow> bool) \<Rightarrow> 'a list \<Rightarrow> int" where
  "count_where P xs = int (length (filter P xs))"

definition number :: "int \<Rightarrow> f64 option" where
  "number n = Some (of_int_f64 n)"

definition release_frequency :: "MetricWindow \<Rightarrow> Facts \<Rightarrow> computed" where
  "release_frequency w f =
     (let n = int (length (fa_Releases f)); stable = StableInWindow (fa_Releases f) (AsTimeWindow w) in
      if \<not> fa_ReleaseCovered f
      then (StatusInsufficientData, None, coverage_of n n (Fin 0) ''release coverage is incomplete'', [])
      else (StatusAvailable, number (int (length stable)), coverage_of n n (Fin 0) '''',
            [factor_of ''stable_releases'' (number (int (length stable))) ''releases'']))"

definition contributor_metric :: "string \<Rightarrow> MetricWindow \<Rightarrow> Facts \<Rightarrow> computed" where
  "contributor_metric name w f =
     (let summary = Aggregate (fa_Commits f) (AsTimeWindow w);
          n = int (length (fa_Commits f));
          coverage = coverage_of n n (su_ResolutionCoverage summary)
            ''ratio additionally reports verified identity resolution'' in
      if \<not> fa_CommitCovered f \<or> su_Status summary \<noteq> ''available''
      then (StatusInsufficientData, None, coverage, [])
      else if name = ''active_contributors''
      then (StatusAvailable, number (su_Active summary), coverage,
            [factor_of ''eligible_identities'' (number (su_Active summary)) ''people''])
      else (StatusAvailable, su_TopThreeShare summary, coverage,
            [factor_of ''top_three_share'' (su_TopThreeShare summary) ''ratio'']))"

definition issues_opened_closed :: "MetricWindow \<Rightarrow> Facts \<Rightarrow> computed" where
  "issues_opened_closed w f =
     (let opened = count_where (\<lambda>i. Contains (AsTimeWindow w) (is_CreatedAt i)) (fa_Issues f);
          closed = count_where (\<lambda>(_, t). Contains (AsTimeWindow w) t) (fa_IssueClosedAt f);
          n = int (length (fa_Issues f)) in
      if \<not> fa_IssueCovered f then (StatusInsufficientData, None, coverage_of n n (Fin 0) '''', [])
      else (StatusAvailable, number (opened + closed), coverage_of n n (Fin 0) '''',
            [factor_of ''opened'' (number opened) ''issues'', factor_of ''closed'' (number closed) ''issues'']))"

definition median_issue_first_response :: "MetricWindow \<Rightarrow> Facts \<Rightarrow> computed" where
  "median_issue_first_response w f =
     (let cohort = filter (\<lambda>i. Contains (AsTimeWindow w) (is_CreatedAt i)) (fa_Issues f);
          durations = map duration_hours (List.map_filter (\<lambda>i. FirstResponse i (mw_Cutoff w)) cohort);
          coverage = coverage_of (int (length cohort)) (int (length durations)) (Fin 0)
            ''unanswered issues are censored'' in
      case Median durations of
        None \<Rightarrow> (StatusInsufficientData, None, coverage, [])
      | Some m \<Rightarrow> if \<not> fa_IssueCovered f then (StatusInsufficientData, None, coverage, [])
                 else (StatusAvailable, Some m, coverage, []))"

definition median_pr_merge_time :: "MetricWindow \<Rightarrow> Facts \<Rightarrow> computed" where
  "median_pr_merge_time w f =
     (let cohort = filter (\<lambda>p. Contains (AsTimeWindow w) (pl_MergedAt p)) (fa_PullRequests f);
          fallbacks = count_where (\<lambda>p. snd (MergeDuration p)) cohort;
          durations = map (\<lambda>p. duration_hours (fst (MergeDuration p))) cohort;
          n = int (length durations);
          coverage = coverage_of n n (Fin 0) (format_int fallbacks @ '' created_at fallbacks'') in
      case Median durations of
        None \<Rightarrow> (StatusInsufficientData, None, coverage, [])
      | Some m \<Rightarrow> if \<not> fa_PRCovered f then (StatusInsufficientData, None, coverage, [])
                 else (StatusAvailable, Some m, coverage, []))"

definition backlog_change :: "MetricWindow \<Rightarrow> Facts \<Rightarrow> computed" where
  "backlog_change w f =
     (let n = int (length (fa_IssueEvents f)) in
      if \<not> fa_IssueCovered f \<or> fa_IssueEvents f = []
      then (StatusInsufficientData, None, coverage_of n n (Fin 0) '''', [])
      else (StatusAvailable, number (BacklogChange (fa_IssueEvents f) (AsTimeWindow w)),
            coverage_of n n (Fin 0) '''', []))"

text \<open>The switch on the name; a name outside the catalog would keep the initial values.\<close>

definition compute_metric :: "string \<Rightarrow> MetricWindow \<Rightarrow> Facts \<Rightarrow> computed" where
  "compute_metric name w f =
     (if name = ''release_frequency'' then release_frequency w f
      else if name = ''active_contributors'' \<or> name = ''top_three_author_share'' then contributor_metric name w f
      else if name = ''issues_opened_closed'' then issues_opened_closed w f
      else if name = ''median_issue_first_response'' then median_issue_first_response w f
      else if name = ''median_pr_merge_time'' then median_pr_merge_time w f
      else if name = ''backlog_change'' then backlog_change w f
      else (StatusAvailable, None, coverage_of 0 0 (Fin 0) '''', []))"

fun compute_loop :: "int64 \<Rightarrow> MetricWindow \<Rightarrow> Facts \<Rightarrow> Definition list \<Rightarrow> metric_error + Snapshot list" where
  "compute_loop pid w f [] = Inr []"
| "compute_loop pid w f (d # ds) =
     (let (status, val, coverage, factors) = compute_metric (df_Name d) w f
      in bindE (NewSnapshot pid d w status val coverage factors (fa_RepositoryIDs f)) (\<lambda>s.
           bindE (compute_loop pid w f ds) (\<lambda>rest. Inr (s # rest))))"

definition ComputeCatalog :: "int64 \<Rightarrow> MetricWindow \<Rightarrow> Facts \<Rightarrow> metric_error + Snapshot list" where
  "ComputeCatalog projectID window facts =
     (if projectID \<le> 0 \<or> window_Validate window \<noteq> None then Inl MetricErrInvalid
      else compute_loop projectID window facts catalog)"

definition MaterializationAllowed :: "string \<Rightarrow> bool" where
  "MaterializationAllowed projectState \<longleftrightarrow> projectState = ''active'' \<or> projectState = ''paused''"

section \<open>Comparing and averaging floats\<close>

definition bounded_f64 :: "rat \<Rightarrow> f64 \<Rightarrow> bool" where
  "bounded_f64 b x \<longleftrightarrow> (\<exists>q. x = Fin q \<and> \<bar>q\<bar> \<le> b)"

lemma of_rat64_bounded:
  assumes "\<bar>q\<bar> \<le> of_int n" and "0 \<le> n" and "n \<le> 2 ^ 53"
  shows "bounded_f64 (of_int n) (of_rat64 q)"
proof -
  have "\<bar>round_rat q\<bar> \<le> of_int n"
    using r64.rnd_mono [OF assms(1)] round_rat_of_int [of n] assms(2,3) by (simp add: r64.rnd_abs)
  moreover have "(of_int n :: rat) \<le> 2 ^ 53"
    using assms(3) of_int_le_iff [of n "2 ^ 53", where 'a = rat] by simp
  moreover have "(2::rat) ^ 53 < 2 ^ 1024" by simp
  ultimately show ?thesis by (auto simp: bounded_f64_def)
qed

lemma fadd_bounded:
  assumes "bounded_f64 (of_int a) x" "bounded_f64 (of_int b) y" "0 \<le> a" "0 \<le> b" "a + b \<le> 2 ^ 53"
  shows "bounded_f64 (of_int (a + b)) (fadd x y)"
proof -
  from assms(1,2) obtain p q where "x = Fin p" "y = Fin q" "\<bar>p\<bar> \<le> of_int a" "\<bar>q\<bar> \<le> of_int b"
    by (auto simp: bounded_f64_def)
  with assms(3-5) of_rat64_bounded [of "p + q" "a + b"] show ?thesis by simp
qed

lemma duration_hours_bounded:
  assumes "is_int64 d"
  shows "bounded_f64 (of_int 2562048) (duration_hours d)"
proof -
  define whole where "whole = (if d < 0 then - ((- d) div hour) else d div hour)"
  have h: "\<bar>whole\<bar> \<le> 2562047" "\<bar>d - whole * hour\<bar> \<le> 3600000000000"
    using assms by (auto simp: whole_def hour_def int64_defs)
  have w: "bounded_f64 (of_int 2562047) (of_int_f64 whole)"
    using h(1) of_rat64_bounded [of "of_int whole" 2562047] by (simp add: of_int_f64_def flip: of_int_abs)
  have "of_int_f64 (d - whole * hour) = Fin (of_int (d - whole * hour))"
    using h(2) by (intro of_int_f64_small) simp
  moreover have "\<bar>of_int (d - whole * hour) / 3600000000000 :: rat\<bar> \<le> of_int 1"
  proof -
    have "\<bar>of_int (d - whole * hour) :: rat\<bar> \<le> 3600000000000"
      using h(2) by (metis of_int_abs of_int_le_iff of_int_numeral)
    then show ?thesis by (simp del: of_int_diff of_int_mult)
  qed
  ultimately have f: "bounded_f64 (of_int 1) (fdiv (of_int_f64 (d - whole * hour)) (Fin 3600000000000))"
    using of_rat64_bounded [of "of_int (d - whole * hour) / 3600000000000" 1] by simp
  show ?thesis
    using fadd_bounded [OF w f] by (simp add: duration_hours_def Let_def whole_def [symmetric])
qed

lemma time_sub_int64: "is_int64 (time_sub a b)"
  by (auto simp: time_sub_def int64_defs)

lemma sort_nth_bounded:
  assumes "\<And>x. x \<in> set vals \<Longrightarrow> bounded_f64 b x" and "i < length vals"
  shows "bounded_f64 b (sort_func cmp_f64 vals ! i)"
  using assms by (metis length_sort_func nth_mem set_sort_func)

lemma Median_finite:
  assumes "\<And>x. x \<in> set vals \<Longrightarrow> bounded_f64 (of_int 2562048) x" and "Median vals = Some m"
  shows "finite_f64 m"
proof -
  let ?s = "sort_func cmp_f64 vals"
  have ne: "vals \<noteq> []" using assms(2) by (auto simp: Median_def)
  then have len: "0 < length vals" "length vals div 2 < length vals" by simp_all
  have b: "bounded_f64 (of_int 2562048) (?s ! i)" if "i < length vals" for i
    using that assms(1) by (rule sort_nth_bounded [rotated])
  show ?thesis
  proof (cases "length vals mod 2 = 1")
    case True
    then have "m = ?s ! (length vals div 2)" using assms(2) ne by (simp add: Median_def Let_def)
    with b [OF len(2)] show ?thesis by (auto simp: bounded_f64_def finite_f64_iff)
  next
    case False
    then have m: "m = fdiv (fadd (?s ! (length vals div 2 - 1)) (?s ! (length vals div 2))) (Fin 2)"
      using assms(2) ne by (simp add: Median_def Let_def)
    have "bounded_f64 (of_int (2562048 + 2562048)) (fadd (?s ! (length vals div 2 - 1)) (?s ! (length vals div 2)))"
      using len b [of "length vals div 2 - 1"] b [of "length vals div 2"]
      by (intro fadd_bounded) (auto simp: less_imp_diff_less)
    then obtain q where q: "fadd (?s ! (length vals div 2 - 1)) (?s ! (length vals div 2)) = Fin q"
        "\<bar>q\<bar> \<le> of_int 5124096" by (auto simp: bounded_f64_def)
    have "bounded_f64 (of_int 5124096) (of_rat64 (q / 2))"
      using q(2) by (intro of_rat64_bounded) auto
    then show ?thesis using m q(1) by (auto simp: bounded_f64_def finite_f64_iff)
  qed
qed

lemma number_finite: "\<bar>n\<bar> \<le> 2 ^ 53 \<Longrightarrow> \<exists>v. number n = Some v \<and> finite_f64 v"
  by (auto simp: number_def of_int_f64_small finite_f64_iff)

text \<open>A computed metric that a snapshot accepts: available exactly with a finite value.\<close>

definition acceptable :: "computed \<Rightarrow> bool" where
  "acceptable r \<longleftrightarrow> (case r of (status, val, _, _) \<Rightarrow>
     status = StatusAvailable \<and> (\<exists>v. val = Some v \<and> finite_f64 v) \<or>
     status = StatusInsufficientData \<and> val = None)"

text \<open>The sizes up to which counts are exact in 64-bit floating point.\<close>

definition max_facts :: nat where
  "max_facts = 2 ^ 52"

definition facts_bounded :: "Facts \<Rightarrow> bool" where
  "facts_bounded f \<longleftrightarrow> length (fa_Releases f) \<le> max_facts \<and> length (fa_Commits f) \<le> max_facts \<and>
     length (fa_Issues f) \<le> max_facts \<and> length (fa_IssueClosedAt f) \<le> max_facts \<and>
     length (fa_IssueEvents f) \<le> max_facts"

lemma filter_max_facts: "length xs \<le> max_facts \<Longrightarrow> length (filter P xs) \<le> max_facts"
  by (meson length_filter_le order_trans)

lemma count_finite: "m \<le> max_facts \<Longrightarrow> \<exists>v. number (int m) = Some v \<and> finite_f64 v"
  by (rule number_finite) (simp add: max_facts_def)

lemma counts_finite:
  assumes "m \<le> max_facts" "n \<le> max_facts"
  shows "\<exists>v. number (int m + int n) = Some v \<and> finite_f64 v"
    "\<exists>v. number (int m - int n) = Some v \<and> finite_f64 v"
  using assms by (auto intro!: number_finite simp: max_facts_def)

lemma release_frequency_acceptable: "facts_bounded f \<Longrightarrow> acceptable (release_frequency w f)"
  using count_finite [OF filter_max_facts [of "fa_Releases f"]]
  by (fastforce simp: release_frequency_def acceptable_def facts_bounded_def StableInWindow_def Let_def)

lemma issues_opened_closed_acceptable: "facts_bounded f \<Longrightarrow> acceptable (issues_opened_closed w f)"
  using counts_finite(1) [OF filter_max_facts [of "fa_Issues f"] filter_max_facts [of "fa_IssueClosedAt f"]]
  by (fastforce simp: issues_opened_closed_def acceptable_def facts_bounded_def count_where_def Let_def)

lemma Median_hours_finite:
  assumes "\<And>d. d \<in> set ds \<Longrightarrow> is_int64 d" and "Median (map duration_hours ds) = Some m"
  shows "finite_f64 m"
proof (rule Median_finite [OF _ assms(2)])
  show "bounded_f64 (of_int 2562048) x" if "x \<in> set (map duration_hours ds)" for x
    using that assms(1) duration_hours_bounded by auto
qed

lemma first_response_int64: "FirstResponse i c = Some d \<Longrightarrow> is_int64 d"
  by (auto simp: FirstResponse_def time_sub_int64 Let_def split: option.splits list.splits if_splits)

lemma merge_duration_int64: "is_int64 (fst (MergeDuration p))"
  by (auto simp: MergeDuration_def time_sub_int64 Let_def split: option.splits if_splits)

lemma median_issue_acceptable: "acceptable (median_issue_first_response w f)"
proof -
  let ?ds = "List.map_filter (\<lambda>i. FirstResponse i (mw_Cutoff w))
    (filter (\<lambda>i. Contains (AsTimeWindow w) (is_CreatedAt i)) (fa_Issues f))"
  have "finite_f64 m" if "Median (map duration_hours ?ds) = Some m" for m
    using that by (rule Median_hours_finite [rotated])
      (auto simp: List.map_filter_def first_response_int64)
  then show ?thesis
    by (cases "Median (map duration_hours ?ds)")
      (simp_all add: median_issue_first_response_def acceptable_def Let_def)
qed

lemma median_pr_acceptable: "acceptable (median_pr_merge_time w f)"
proof -
  let ?ds = "map (\<lambda>p. fst (MergeDuration p))
    (filter (\<lambda>p. Contains (AsTimeWindow w) (pl_MergedAt p)) (fa_PullRequests f))"
  have "finite_f64 m" if "Median (map duration_hours ?ds) = Some m" for m
    using that by (rule Median_hours_finite [rotated]) (auto simp: merge_duration_int64)
  then show ?thesis
    by (cases "Median (map duration_hours ?ds)")
      (simp_all add: median_pr_merge_time_def acceptable_def Let_def comp_def)
qed

lemma put_state_length: "length (put_state k v xs) \<le> Suc (length xs)"
  by (induction k v xs rule: put_state.induct) auto

lemma fold_record_length: "length (fold record_event es st) \<le> length es + length st"
proof (induction es arbitrary: st)
  case (Cons e es)
  have "length (record_event e st) \<le> Suc (length st)" by (simp add: record_event_def put_state_length)
  with Cons [of "record_event e st"] show ?case by simp
qed simp

lemma open_before_le: "\<exists>n \<le> length es. open_before es t = int n"
proof -
  let ?st = "fold record_event (filter (\<lambda>e. before (ev_At e) t) es) []"
  have "length (filter (\<lambda>(_, s). s = ''open'') ?st) \<le> length es"
    using fold_record_length [of "filter (\<lambda>e. before (ev_At e) t) es" "[]"]
    by (metis (no_types, lifting) length_filter_le list.size(3) add_0_right order_trans)
  then show ?thesis by (auto simp: open_before_def open_count_def)
qed

lemma backlog_change_acceptable:
  assumes "facts_bounded f" and "window_Validate w = None"
  shows "acceptable (backlog_change w f)"
proof -
  let ?es = "sort_func cmp_event (fa_IssueEvents f)"
  have "time_ordered ?es" by (rule ordered_events) (rule event_order.ordered_sort)
  moreover have "\<not> before (mw_To w) (mw_From w)"
    using assms(2) by (auto simp: window_Validate_def before_def split: if_splits)
  ultimately have b: "BacklogChange (fa_IssueEvents f) (AsTimeWindow w) =
      open_before ?es (mw_To w) - open_before ?es (mw_From w)"
    using backlog_on_open_before [of ?es "AsTimeWindow w"] by (simp add: BacklogChange_def AsTimeWindow_def)
  obtain m n where "open_before ?es (mw_To w) = int m" "m \<le> max_facts"
      "open_before ?es (mw_From w) = int n" "n \<le> max_facts"
    using open_before_le [of ?es "mw_To w"] open_before_le [of ?es "mw_From w"] assms(1)
    by (auto simp: facts_bounded_def)
  then show ?thesis
    using counts_finite(2) [of m n] b by (auto simp: backlog_change_def acceptable_def Let_def)
qed

lemma contributor_metric_acceptable:
  assumes "facts_bounded f"
  shows "acceptable (contributor_metric name w f)"
proof (cases "eligible_commits (AsTimeWindow w) (fa_Commits f) = 0")
  case True
  then have "su_Status (Aggregate (fa_Commits f) (AsTimeWindow w)) = ''insufficient_data''"
    using tally_spec(1) [of "AsTimeWindow w" "fa_Commits f" "[]" 0 0]
    by (cases "tally (AsTimeWindow w) (fa_Commits f) ([], 0, 0)")
      (simp add: Aggregate_def eligible_commits_def)
  then show ?thesis by (simp add: contributor_metric_def acceptable_def Let_def)
next
  case False
  have "length (filter (counted (AsTimeWindow w)) (fa_Commits f)) \<le> max_facts"
    using assms by (simp add: facts_bounded_def filter_max_facts)
  then have le: "eligible_commits (AsTimeWindow w) (fa_Commits f) \<le> 2 ^ 53"
    by (simp add: eligible_commits_def max_facts_def)
  obtain three where t: "su_TopThreeShare (Aggregate (fa_Commits f) (AsTimeWindow w)) = Some three"
      "fle (Fin 0) three" "fle three (Fin 1)"
    using shares_bounds [OF False le] fle_trans by blast
  have "\<exists>v. number (su_Active (Aggregate (fa_Commits f) (AsTimeWindow w))) = Some v \<and> finite_f64 v"
    using active_le_eligible [OF False] le by (intro number_finite) simp
  moreover have "finite_f64 three" using t(2,3) by (cases three) (auto simp: fle_def finite_f64_iff)
  ultimately show ?thesis using t(1)
    by (auto simp: contributor_metric_def acceptable_def Let_def)
qed

lemmas metric_acceptable = release_frequency_acceptable contributor_metric_acceptable
  issues_opened_closed_acceptable median_issue_acceptable median_pr_acceptable backlog_change_acceptable

section \<open>Materialising the catalog\<close>

text \<open>A snapshot that says what it holds: an available one has a finite value, any other has none.\<close>

definition honest_snapshot :: "int64 \<Rightarrow> MetricWindow \<Rightarrow> Snapshot \<Rightarrow> bool" where
  "honest_snapshot pid w s \<longleftrightarrow> sn_ProjectID s = pid \<and> sn_Window s = w \<and>
     (case sn_Value s of
        Some v \<Rightarrow> sn_Status s = StatusAvailable \<and> finite_f64 v
      | None \<Rightarrow> sn_Status s = StatusInsufficientData)"

lemma NewSnapshot_acceptable:
  assumes "0 < pid" "trim_space (df_Name d) \<noteq> ''''" "window_Validate w = None"
    and "acceptable (status, val, cov, factors)"
  shows "\<exists>s. NewSnapshot pid d w status val cov factors repos = Inr s \<and> sn_Definition s = d \<and> honest_snapshot pid w s"
proof -
  have "\<not> (is_nan v \<or> is_inf v)" if "finite_f64 v" for v
    using that by (auto simp: finite_f64_iff is_nan_def is_inf_def)
  with assms show ?thesis
    by (auto simp: NewSnapshot_def acceptable_def honest_snapshot_def Let_def)
qed

lemma compute_loop_total:
  assumes "0 < pid" "window_Validate w = None"
    and "\<And>d. d \<in> set ds \<Longrightarrow> trim_space (df_Name d) \<noteq> '''' \<and> acceptable (compute_metric (df_Name d) w f)"
  shows "\<exists>ss. compute_loop pid w f ds = Inr ss \<and> map sn_Definition ss = ds \<and> list_all (honest_snapshot pid w) ss"
  using assms(3)
proof (induction ds)
  case (Cons d ds)
  obtain status val cov factors where c: "compute_metric (df_Name d) w f = (status, val, cov, factors)"
    by (metis prod_cases4)
  have d: "trim_space (df_Name d) \<noteq> '''' \<and> acceptable (compute_metric (df_Name d) w f)"
    by (rule Cons.prems) simp
  obtain s where "NewSnapshot pid d w status val cov factors (fa_RepositoryIDs f) = Inr s"
      "sn_Definition s = d" "honest_snapshot pid w s"
    using NewSnapshot_acceptable [of pid d w status val cov factors "fa_RepositoryIDs f"] assms(1,2) d c by auto
  moreover obtain ss where "compute_loop pid w f ds = Inr ss" "map sn_Definition ss = ds"
      "list_all (honest_snapshot pid w) ss"
    using Cons.IH Cons.prems by auto
  ultimately show ?case by (simp add: c)
qed simp

lemma catalog_names: "list_all (\<lambda>d. trim_space (df_Name d) \<noteq> '''') catalog"
  by code_simp

lemma compute_metric_acceptable:
  assumes "facts_bounded f" "window_Validate w = None" "d \<in> set catalog"
  shows "acceptable (compute_metric (df_Name d) w f)"
proof -
  have "df_Name d \<in> set (map df_Name catalog)" using assms(3) by simp
  also have "map df_Name catalog = [''release_frequency'', ''active_contributors'', ''issues_opened_closed'',
     ''median_issue_first_response'', ''median_pr_merge_time'', ''backlog_change'', ''top_three_author_share'']"
    by (simp add: catalog_def definition_row_def)
  finally show ?thesis using metric_acceptable assms(1,2)
    unfolding list.set compute_metric_def by (auto split: if_splits)
qed

text \<open>
  The catalog is always materialised completely. For a positive project id, a valid window and
  facts whose counts are exact in floating point, \<open>ComputeCatalog\<close> returns one snapshot per catalog
  definition, in catalog order, each for that project and window, and each either available with a
  finite value or insufficient data with none; no snapshot is refused half-way.
\<close>

theorem compute_catalog_total:
  assumes "0 < projectID" and "window_Validate w = None" and "facts_bounded f"
  shows "\<exists>ss. ComputeCatalog projectID w f = Inr ss \<and> map sn_Definition ss = catalog \<and>
    list_all (honest_snapshot projectID w) ss"
  using assms compute_loop_total [OF assms(1,2), of catalog f] catalog_names
  by (simp add: ComputeCatalog_def list_all_iff compute_metric_acceptable)

definition sample_metric_window :: MetricWindow where
  "sample_metric_window = \<lparr>mw_From = Time 100 UTC, mw_To = Time 200 UTC, mw_Cutoff = Time 300 UTC\<rparr>"

definition sample_facts :: Facts where
  "sample_facts = \<lparr>fa_Releases = [], fa_Commits = [sample_commit\<lparr>cm_CommittedAt := Time 150 UTC\<rparr>],
     fa_Issues = [], fa_IssueClosedAt = [(7, Time 120 UTC)], fa_PullRequests = [], fa_IssueEvents = [],
     fa_RepositoryIDs = [3], fa_ReleaseCovered = True, fa_CommitCovered = True, fa_IssueCovered = True,
     fa_PRCovered = False\<rparr>"

lemma sample_metric_window_valid: "window_Validate sample_metric_window = None"
  by code_simp

theorem compute_catalog_total_witness:
  "\<exists>ss. ComputeCatalog 5 sample_metric_window sample_facts = Inr ss \<and> length ss = 7 \<and>
    list_all (honest_snapshot 5 sample_metric_window) ss"
proof -
  have "facts_bounded sample_facts" by (simp add: facts_bounded_def sample_facts_def max_facts_def)
  with compute_catalog_total [of 5 sample_metric_window sample_facts] sample_metric_window_valid
  obtain ss where "ComputeCatalog 5 sample_metric_window sample_facts = Inr ss" "map sn_Definition ss = catalog"
      "list_all (honest_snapshot 5 sample_metric_window) ss" by auto
  moreover have "length catalog = 7" by (simp add: catalog_def)
  ultimately show ?thesis by (metis length_map)
qed

text \<open>
  The coverage that the contributor metrics report is not the identity resolution their note
  announces: as soon as there is a commit, \<open>NewSnapshot\<close> replaces the ratio set by \<open>ComputeCatalog\<close> with
  the share of commits that were read, which is always one.
\<close>

theorem resolution_coverage_overwritten:
  assumes "contributor_metric name w f = (status, val, cov, factors)" and "fa_Commits f \<noteq> []"
    and "length (fa_Commits f) \<le> max_facts" and "NewSnapshot pid d w status val cov factors repos = Inr s"
  shows "cv_Ratio (sn_Coverage s) = Fin 1 \<and>
    cv_Note (sn_Coverage s) = ''ratio additionally reports verified identity resolution''"
proof -
  let ?n = "int (length (fa_Commits f))"
  have cov: "cov = coverage_of ?n ?n (su_ResolutionCoverage (Aggregate (fa_Commits f) (AsTimeWindow w)))
      ''ratio additionally reports verified identity resolution''"
    using assms(1) by (auto simp: contributor_metric_def Let_def split: if_splits)
  have n: "0 < ?n" "\<bar>?n\<bar> \<le> 2 ^ 53" using assms(2,3) by (auto simp: max_facts_def)
  then have "of_int_f64 ?n = Fin (of_int ?n)" by (intro of_int_f64_small)
  moreover have "of_rat64 1 = Fin 1" using round_rat_of_int [of 1] by simp
  ultimately have "float_ratio ?n ?n = Fin 1" using n(1) by (simp add: float_ratio_def)
  with assms(4) n(1) show ?thesis
    by (auto simp: cov NewSnapshot_def coverage_of_def Let_def split: if_splits)
qed

theorem resolution_coverage_overwritten_witness:
  "\<exists>s :: Snapshot. cv_Ratio (sn_Coverage s) = Fin 1 \<and> sn_Status s = StatusInsufficientData"
proof -
  obtain status val cov factors where
    m: "contributor_metric ''active_contributors'' sample_metric_window
      (sample_facts\<lparr>fa_CommitCovered := False\<rparr>) = (status, val, cov, factors)"
    by (metis prod_cases4)
  then have st: "status = StatusInsufficientData" "val = None" by (auto simp: contributor_metric_def Let_def)
  moreover have "trim_space ''a'' \<noteq> ''''" by code_simp
  ultimately obtain s where
    s: "NewSnapshot 5 (definition_row ''a'' ''u'' 1 ''f'' ''e'' ''m'') sample_metric_window status val cov factors [] = Inr s"
      "sn_Status s = StatusInsufficientData"
    by (simp add: NewSnapshot_def definition_row_def sample_metric_window_valid Let_def)
  have "fa_Commits (sample_facts\<lparr>fa_CommitCovered := False\<rparr>) \<noteq> []"
    "length (fa_Commits (sample_facts\<lparr>fa_CommitCovered := False\<rparr>)) \<le> max_facts"
    by (simp_all add: sample_facts_def max_facts_def)
  from resolution_coverage_overwritten [OF m this s(1)] s(2) show ?thesis by blast
qed

section \<open>Health\<close>

definition scored :: "Dimension \<Rightarrow> bool" where
  "scored d \<longleftrightarrow> dm_Status d = StatusAvailable \<and> dm_Score d \<noteq> None"

lemma health_loop_step:
  assumes "find (\<lambda>d. dm_Name d = name) (rev dims) = Some d0"
  obtains tot' c1 where "health_loop dims (name # names) tot c =
      bindE (health_loop dims names tot' c1) (\<lambda>(ds, t, c). Inr (d0\<lparr>dm_Weight := health_weight\<rparr> # ds, t, c))"
    and "c1 \<longleftrightarrow> c \<and> scored d0"
    and "scored d0 \<Longrightarrow> tot' = fadd tot (fmul (the (dm_Score d0)) health_weight)"
proof (cases "scored d0")
  case True
  with assms show thesis
    by (intro that [of "fadd tot (fmul (the (dm_Score d0)) health_weight)" c])
      (auto simp: scored_def Let_def)
next
  case False
  with assms show thesis by (intro that [of tot False]) (auto simp: scored_def Let_def)
qed

text \<open>What the loop yields when it succeeds: one weighted dimension per name, in order.\<close>

lemma health_loop_Inr:
  assumes "health_loop dims names tot c = Inr (ds, t, c')"
  shows "map dm_Name ds = names" and "list_all (\<lambda>d. \<exists>d0 \<in> set dims. d = d0\<lparr>dm_Weight := health_weight\<rparr>) ds"
    and "c' \<longleftrightarrow> c \<and> list_all scored ds"
proof -
  have "map dm_Name ds = names \<and> list_all (\<lambda>d. \<exists>d0 \<in> set dims. d = d0\<lparr>dm_Weight := health_weight\<rparr>) ds \<and>
      (c' \<longleftrightarrow> c \<and> list_all scored ds)"
    using assms
  proof (induction names arbitrary: tot c ds t c')
    case (Cons name names)
    obtain d0 where f: "find (\<lambda>d. dm_Name d = name) (rev dims) = Some d0"
      using Cons.prems by (auto split: option.splits)
    then have d0: "d0 \<in> set dims" "dm_Name d0 = name"
      by (auto simp: find_Some_iff) (metis length_rev nth_mem set_rev)
    obtain tot' c1 where st: "health_loop dims (name # names) tot c =
      bindE (health_loop dims names tot' c1) (\<lambda>(ds, t, c). Inr (d0\<lparr>dm_Weight := health_weight\<rparr> # ds, t, c))"
      "c1 \<longleftrightarrow> c \<and> scored d0"
      by (rule health_loop_step [OF f, of names tot c])
    obtain ds' where l: "health_loop dims names tot' c1 = Inr (ds', t, c')"
        "ds = d0\<lparr>dm_Weight := health_weight\<rparr> # ds'"
      using Cons.prems unfolding st(1) bindE_Inr_iff by auto
    with st(2) Cons.IH [OF l(1)] d0 show ?case by (auto simp: scored_def)
  qed simp
  then show "map dm_Name ds = names" "list_all (\<lambda>d. \<exists>d0 \<in> set dims. d = d0\<lparr>dm_Weight := health_weight\<rparr>) ds"
    "c' \<longleftrightarrow> c \<and> list_all scored ds" by simp_all
qed

lemma health_loop_Inl:
  "(\<exists>e. health_loop dims names tot c = Inl e) \<longleftrightarrow> \<not> set names \<subseteq> dm_Name ` set dims"
proof (induction names arbitrary: tot c)
  case (Cons name names)
  show ?case
  proof (cases "find (\<lambda>d. dm_Name d = name) (rev dims)")
    case None
    then have "name \<notin> dm_Name ` set dims" by (auto simp: find_None_iff)
    with None show ?thesis by simp
  next
    case (Some d0)
    then have "name \<in> dm_Name ` set dims"
      by (auto simp: find_Some_iff) (metis image_eqI length_rev nth_mem set_rev)
    moreover obtain tot' c1 where "health_loop dims (name # names) tot c =
      bindE (health_loop dims names tot' c1) (\<lambda>(ds, t, c). Inr (d0\<lparr>dm_Weight := health_weight\<rparr> # ds, t, c))"
      by (rule health_loop_step [OF Some, of names tot c])
    ultimately show ?thesis using Cons.IH [of tot' c1]
      by (cases "health_loop dims names tot' c1") (auto simp del: health_loop.simps)
  qed
qed simp

lemma mset_eq_if_covers:
  assumes "distinct xs" "set xs \<subseteq> set ys" "length ys = length xs"
  shows "mset ys = mset xs"
proof -
  have "card (set xs) = length xs" using assms(1) by (rule distinct_card)
  moreover have "card (set xs) \<le> card (set ys)" using assms(2) by (simp add: card_mono)
  ultimately have "card (set ys) = length ys" using assms(3) card_length [of ys] by linarith
  then have "distinct ys" by (rule card_distinct)
  moreover have "set xs = set ys"
    using assms(2) \<open>card (set ys) = length ys\<close> \<open>card (set xs) = length xs\<close> assms(3) by (simp add: card_subset_eq)
  ultimately show ?thesis using assms(1) set_eq_iff_mset_eq_distinct by blast
qed

lemma health_names_covered:
  assumes "length dims = length HealthDimensionNames"
  shows "set HealthDimensionNames \<subseteq> dm_Name ` set dims \<longleftrightarrow> mset (map dm_Name dims) = mset HealthDimensionNames"
proof
  have d: "distinct HealthDimensionNames" by (simp add: HealthDimensionNames_def)
  show "mset (map dm_Name dims) = mset HealthDimensionNames" if "set HealthDimensionNames \<subseteq> dm_Name ` set dims"
    using mset_eq_if_covers [OF d, of "map dm_Name dims"] that assms by simp
  show "set HealthDimensionNames \<subseteq> dm_Name ` set dims" if "mset (map dm_Name dims) = mset HealthDimensionNames"
    using that by (metis image_set mset_eq_setD order_refl)
qed

text \<open>
  \<open>CalculateHealth\<close> accepts exactly a positive project with a valid window and one dimension for
  each of the seven names, in any order, and returns the dimensions in the fixed order with equal
  weights; the overall score is there, and marked available, exactly when every dimension is
  available with a score, so a missing dimension is never counted as zero.
\<close>

theorem calculate_health_decides:
  "case CalculateHealth projectID w version dims of
     Inl _ \<Rightarrow> \<not> (0 < projectID \<and> window_Validate w = None \<and>
               mset (map dm_Name dims) = mset HealthDimensionNames)
   | Inr h \<Rightarrow> 0 < projectID \<and> window_Validate w = None \<and>
               mset (map dm_Name dims) = mset HealthDimensionNames \<and>
               map dm_Name (he_Dimensions h) = HealthDimensionNames \<and>
               list_all (\<lambda>d. \<exists>d0. d0 \<in> set dims \<and> d = d0\<lparr>dm_Weight := health_weight\<rparr>) (he_Dimensions h) \<and>
               (he_Overall h \<noteq> None \<longleftrightarrow> list_all scored (he_Dimensions h)) \<and>
               he_OverallStatus h = (if list_all scored (he_Dimensions h) then StatusAvailable
                                     else StatusInsufficientData)"
proof (cases "0 < projectID \<and> window_Validate w = None \<and> length dims = length HealthDimensionNames")
  case False
  have "length dims = length HealthDimensionNames" if "mset (map dm_Name dims) = mset HealthDimensionNames"
    using that by (metis length_map mset_eq_length)
  with False show ?thesis by (auto simp: CalculateHealth_def)
next
  case guard: True
  then have names: "set HealthDimensionNames \<subseteq> dm_Name ` set dims \<longleftrightarrow>
      mset (map dm_Name dims) = mset HealthDimensionNames" using health_names_covered by blast
  note calc = CalculateHealth_def [of projectID w version dims]
  show ?thesis
  proof (cases "health_loop dims HealthDimensionNames (Fin 0) True")
    case (Inl e)
    then have "mset (map dm_Name dims) \<noteq> mset HealthDimensionNames"
      using health_loop_Inl [of dims HealthDimensionNames "Fin 0" True] names by auto
    with guard Inl show ?thesis by (simp add: calc)
  next
    case (Inr r)
    then have "mset (map dm_Name dims) = mset HealthDimensionNames"
      using health_loop_Inl [of dims HealthDimensionNames "Fin 0" True] names by auto
    moreover obtain ds t c where "r = (ds, t, c)" by (metis prod_cases3)
    ultimately show ?thesis using guard Inr health_loop_Inr [of dims HealthDimensionNames "Fin 0" True ds t c]
      by (simp add: calc Bex_def)
  qed
qed

text \<open>The largest total that \<open>n\<close> dimensions with scores up to 100 can reach.\<close>

fun top_total :: "nat \<Rightarrow> f64" where
  "top_total 0 = Fin 0"
| "top_total (Suc n) = fadd (top_total n) (fmul (Fin 100) health_weight)"

definition percent :: "Dimension \<Rightarrow> bool" where
  "percent d \<longleftrightarrow> (case dm_Score d of None \<Rightarrow> True | Some s \<Rightarrow> fle (Fin 0) s \<and> fle s (Fin 100))"

lemma health_weight_value: "health_weight = Fin (5146971002709138 / 2 ^ 55)"
  unfolding health_weight_def using of_rat64_nearest [of "1 / 7" 55 5146971002709138] by simp

lemma perfect_term: "fmul (Fin 100) health_weight = Fin (8042142191733028 / 2 ^ 49)"
  using of_rat64_nearest [of "100 * (5146971002709138 / 2 ^ 55)" 49 8042142191733028]
  by (simp add: health_weight_value)

lemma perfect_finite: "finite_f64 (fmul (Fin 100) health_weight)"
  unfolding perfect_term by (simp only: finite_f64_iff) blast

lemma top_total_values:
  "top_total 1 = Fin (8042142191733028 / 2 ^ 49)" "top_total 2 = Fin (8042142191733028 / 2 ^ 48)"
  "top_total 3 = Fin (6031606643799771 / 2 ^ 47)" "top_total 4 = Fin (8042142191733028 / 2 ^ 47)"
  "top_total 5 = Fin (5026338869833142 / 2 ^ 46)" "top_total 6 = Fin (6031606643799770 / 2 ^ 46)"
  "top_total 7 = Fin (7036874417766398 / 2 ^ 46)"
proof -
  note t = of_rat64_nearest [of "_ + 8042142191733028 / 2 ^ 49"]
  show 1: "top_total 1 = Fin (8042142191733028 / 2 ^ 49)"
    using t [of 0 49 8042142191733028] by (simp add: perfect_term)
  have s: "top_total (Suc n) = of_rat64 (q + 8042142191733028 / 2 ^ 49)" if "top_total n = Fin q" for n q
    using that by (simp add: perfect_term)
  show 2: "top_total 2 = Fin (8042142191733028 / 2 ^ 48)"
    using s [OF 1] t [of "8042142191733028 / 2 ^ 49" 48 8042142191733028]
    by (simp add: numeral_2_eq_2 del: top_total.simps)
  show 3: "top_total 3 = Fin (6031606643799771 / 2 ^ 47)"
    using s [OF 2] t [of "8042142191733028 / 2 ^ 48" 47 6031606643799771] by (simp del: top_total.simps)
  show 4: "top_total 4 = Fin (8042142191733028 / 2 ^ 47)"
    using s [OF 3] t [of "6031606643799771 / 2 ^ 47" 47 8042142191733028] by (simp del: top_total.simps)
  show 5: "top_total 5 = Fin (5026338869833142 / 2 ^ 46)"
    using s [OF 4] t [of "8042142191733028 / 2 ^ 47" 46 5026338869833142] by (simp del: top_total.simps)
  show 6: "top_total 6 = Fin (6031606643799770 / 2 ^ 46)"
    using s [OF 5] t [of "5026338869833142 / 2 ^ 46" 46 6031606643799770] by (simp del: top_total.simps)
  show "top_total 7 = Fin (7036874417766398 / 2 ^ 46)"
    using s [OF 6] t [of "6031606643799770 / 2 ^ 46" 46 7036874417766398] by (simp del: top_total.simps)
qed

lemma top_total_finite: "n \<le> 7 \<Longrightarrow> finite_f64 (top_total n)"
proof -
  assume "n \<le> 7"
  then consider "n = 0" | "n = 1" | "n = 2" | "n = 3" | "n = 4" | "n = 5" | "n = 6" | "n = 7" by linarith
  then have "\<exists>q. top_total n = Fin q" by cases (use top_total_values in \<open>fastforce+\<close>)
  then show ?thesis by (simp add: finite_f64_iff)
qed

lemma between_Fin: "fle (Fin a) x \<Longrightarrow> fle x y \<Longrightarrow> finite_f64 y \<Longrightarrow> \<exists>q. x = Fin q \<and> a \<le> q"
  by (cases x; cases y) (auto simp: fle_def finite_f64_iff)

lemma fadd_between:
  assumes "fle (Fin 0) x" "fle x X" "fle (Fin 0) y" "fle y Y" "finite_f64 X" "finite_f64 Y"
  shows "fle (Fin 0) (fadd x y)" "fle (fadd x y) (fadd X Y)"
proof -
  obtain p q where x: "x = Fin p" "0 \<le> p" and y: "y = Fin q" "0 \<le> q"
    using between_Fin [OF assms(1,2,5)] between_Fin [OF assms(3,4,6)] by auto
  obtain P Q where "X = Fin P" "Y = Fin Q" using assms(5,6) by (auto simp: finite_f64_iff)
  with assms(2,4) x y fle_of_rat64 [of 0 "p + q"] fle_of_rat64 [of "p + q" "P + Q"] of_rat64_unit [of 0]
  show "fle (Fin 0) (fadd x y)" "fle (fadd x y) (fadd X Y)"
    by (auto simp: r64.rnd_0)
qed

lemma weighted_between:
  assumes "fle (Fin 0) s" "fle s (Fin 100)"
  shows "fle (Fin 0) (fmul s health_weight)" "fle (fmul s health_weight) (fmul (Fin 100) health_weight)"
proof -
  obtain h where h: "health_weight = Fin h" "0 \<le> h"
    using health_weight_value by simp
  obtain q where q: "s = Fin q" "0 \<le> q" "q \<le> 100"
    using between_Fin [OF assms] assms(2) by (auto simp: finite_f64_iff)
  then have "0 \<le> q * h" "q * h \<le> 100 * h" using h(2) by (auto intro: mult_right_mono)
  with fle_of_rat64 [of 0 "q * h"] fle_of_rat64 [of "q * h" "100 * h"] of_rat64_unit [of 0]
  show "fle (Fin 0) (fmul s health_weight)" "fle (fmul s health_weight) (fmul (Fin 100) health_weight)"
    unfolding q(1) h(1) by (simp_all add: r64.rnd_0)
qed

lemma health_loop_total:
  assumes "health_loop dims names tot True = Inr (ds, t, True)" "\<And>d. d \<in> set dims \<Longrightarrow> percent d"
    and "fle (Fin 0) tot" "fle tot (top_total n)" "n + length names \<le> 7"
  shows "fle (Fin 0) t \<and> fle t (top_total (n + length names))"
  using assms
proof (induction names arbitrary: tot ds n)
  case (Cons name names)
  obtain d0 where f: "find (\<lambda>d. dm_Name d = name) (rev dims) = Some d0"
    using Cons.prems(1) by (auto split: option.splits)
  then have "d0 \<in> set dims" by (auto simp: find_Some_iff) (metis length_rev nth_mem set_rev)
  obtain tot' c1 where st: "health_loop dims (name # names) tot True =
      bindE (health_loop dims names tot' c1) (\<lambda>(ds, t, c). Inr (d0\<lparr>dm_Weight := health_weight\<rparr> # ds, t, c))"
      "c1 \<longleftrightarrow> scored d0" "scored d0 \<Longrightarrow> tot' = fadd tot (fmul (the (dm_Score d0)) health_weight)"
    using health_loop_step [OF f, of names tot True] by auto
  obtain ds' where l: "health_loop dims names tot' c1 = Inr (ds', t, True)"
    using Cons.prems(1) unfolding st(1) bindE_Inr_iff by auto
  then have c1: "c1" "scored d0" using health_loop_Inr(3) [OF l] st(2) by auto
  obtain s where s: "dm_Score d0 = Some s" "fle (Fin 0) s" "fle s (Fin 100)"
    using c1(2) Cons.prems(2) [OF \<open>d0 \<in> set dims\<close>] by (auto simp: scored_def percent_def)
  have "fle (Fin 0) tot'" "fle tot' (top_total (Suc n))"
    using fadd_between [OF Cons.prems(3,4) weighted_between [OF s(2,3)] top_total_finite perfect_finite]
      Cons.prems(5) st(3) [OF c1(2)] s(1) by auto
  with Cons.IH [of tot' ds' "Suc n"] l c1 Cons.prems(2,5) show ?case by auto
qed auto

text \<open>
  Scores between 0 and 100 give an overall health that lies above 0 and strictly below 100:
  the weights are seven times the rounded seventh, whose products and sums round to less than the
  exact mean, so even a project with seven perfect scores does not reach 100.
\<close>

theorem perfect_health_unreachable:
  assumes "CalculateHealth projectID w version dims = Inr h" and "he_Overall h = Some overall"
    and "list_all percent dims"
  shows "fle (Fin 0) overall \<and> flt overall (Fin 100)"
proof -
  obtain ds where l: "health_loop dims HealthDimensionNames (Fin 0) True = Inr (ds, overall, True)"
    using assms(1,2) by (auto simp: CalculateHealth_def bindE_Inr_iff split: if_splits)
  have "length HealthDimensionNames = 7" by (simp add: HealthDimensionNames_def)
  with health_loop_total [OF l, of 0] assms(3)
  have b: "fle (Fin 0) overall" "fle overall (top_total 7)" by (auto simp: list_all_iff fle_refl is_nan_def)
  then show ?thesis unfolding top_total_values by (cases overall) (auto simp: fle_def)
qed

definition perfect_dimensions :: "Dimension list" where
  "perfect_dimensions = map (\<lambda>n. \<lparr>dm_Name = n, dm_Status = StatusAvailable, dm_Score = Some (Fin 100),
     dm_Weight = Fin 0, dm_Version = ''v1'', dm_Factors = []\<rparr>) HealthDimensionNames"

theorem perfect_health_unreachable_witness:
  "\<exists>h overall. CalculateHealth 5 sample_metric_window ''v1'' perfect_dimensions = Inr h \<and>
    he_Overall h = Some overall \<and> flt overall (Fin 100)"
proof -
  have "\<not> isl (CalculateHealth 5 sample_metric_window ''v1'' perfect_dimensions) \<and>
     he_Overall (projr (CalculateHealth 5 sample_metric_window ''v1'' perfect_dimensions)) \<noteq> None"
    by (simp add: CalculateHealth_def sample_metric_window_valid perfect_dimensions_def HealthDimensionNames_def)
  then obtain h overall where h: "CalculateHealth 5 sample_metric_window ''v1'' perfect_dimensions = Inr h"
      "he_Overall h = Some overall"
    by (cases "CalculateHealth 5 sample_metric_window ''v1'' perfect_dimensions") auto
  moreover have "list_all percent perfect_dimensions"
    by (simp add: perfect_dimensions_def percent_def HealthDimensionNames_def)
  ultimately show ?thesis using perfect_health_unreachable by blast
qed

end
