(* ===== verification/Alert.thy ===== *)
theory Alert
  imports Access Go_Lifecycle Go_Float "HOL-Library.AList"
begin

text \<open>
  Alerts: the typed rules, the deduplicated occurrences and their transitions of package
  \<open>internal/alert\<close>, and the part of \<open>internal/platform/intelligencestore/governance.go\<close> that keeps
  them in PostgreSQL. As in the access store, a table is a list of rows and a method maps the
  database to an error, which leaves it unchanged, or to a new database and a result. The
  constraints are those of \<open>migrations/0006_trends_policies_radar_alerts.up.sql\<close> that the checks in
  the code do not already imply. Identifiers come from an argument, and each transaction is one
  step: it locks the workspace, rule or occurrence row it works on.
\<close>

section \<open>Rules and occurrences\<close>

datatype alert_error = AlertErrInvalid | AlertAccess access_error | AlertErrNoRows
  | AlertErrConstraint | AlertErrID

record Limits =
  li_Rules :: int
  li_Occurrences :: int

definition DefaultLimits :: Limits where
  "DefaultLimits = \<lparr>li_Rules = 500, li_Occurrences = 10000\<rparr>"

definition ValidateVolume :: "Limits \<Rightarrow> int \<Rightarrow> int \<Rightarrow> alert_error option" where
  "ValidateVolume l ruleCount occurrenceCount =
     (if li_Rules l \<le> 0 \<or> li_Occurrences l \<le> 0 \<or> ruleCount < 0 \<or> occurrenceCount < 0 \<or>
         ruleCount > li_Rules l \<or> occurrenceCount > li_Occurrences l
      then Some AlertErrInvalid else None)"

datatype Severity = SeverityInfo | SeverityWarning | SeverityCritical | SeverityOther string

datatype AlertState = StateOpen | StateAcknowledged | StateResolved | StateDismissed | AlertStateOther string

datatype AlertOperator = AlertGreaterThan | AlertLessThan | AlertEqual | AlertOperatorOther string

definition knownSignals :: "string list" where
  "knownSignals = [''metric.release_frequency'', ''metric.active_contributors'',
     ''metric.median_issue_first_response'', ''metric.median_pr_merge_time'',
     ''trend.increase'', ''trend.decrease'', ''forecast.warning'',
     ''recommendation.not_recommended'', ''recommendation.conditional'']"

record alert_Rule =
  ru_ID :: int64
  ru_Version :: int64
  ru_Name :: string
  ru_Signal :: string
  ru_Operator :: AlertOperator
  ru_Threshold :: f64
  ru_Scope :: string
  ru_ProjectID :: int64
  ru_Severity :: Severity
  ru_Cooldown :: duration
  ru_Deduplication :: duration
  ru_Enabled :: bool
  ru_CreatedBy :: int64
  ru_UpdatedAt :: gotime

definition alert_rule_Validate :: "alert_Rule \<Rightarrow> alert_error option" where
  "alert_rule_Validate r =
     (if ru_Version r \<le> 0 \<or> trim_space (ru_Name r) = '''' \<or> ru_Signal r \<notin> set knownSignals \<or>
         (ru_Operator r \<noteq> AlertGreaterThan \<and> ru_Operator r \<noteq> AlertLessThan \<and> ru_Operator r \<noteq> AlertEqual) \<or>
         is_nan (ru_Threshold r) \<or> is_inf (ru_Threshold r) \<or>
         (ru_Scope r \<noteq> ''workspace'' \<and> ru_Scope r \<noteq> ''project'') \<or>
         ru_Scope r = ''project'' \<and> ru_ProjectID r \<le> 0 \<or>
         (ru_Severity r \<noteq> SeverityInfo \<and> ru_Severity r \<noteq> SeverityWarning \<and> ru_Severity r \<noteq> SeverityCritical) \<or>
         ru_Cooldown r < 0 \<or> ru_Deduplication r \<le> 0 \<or> ru_Deduplication r > 365 * 24 * hour
      then Some AlertErrInvalid else None)"

record alert_Fact =
  ft_ProjectID :: int64
  ft_Signal :: string
  ft_Version :: string
  ft_Value :: "f64 option"
  ft_EvidenceID :: int64
  ft_WindowFrom :: gotime
  ft_WindowTo :: gotime
  ft_DetectedAt :: gotime
  ft_Complete :: bool
  ft_Archived :: bool

record Occurrence =
  oc_ID :: int64
  oc_RuleID :: int64
  oc_RuleVersion :: int64
  oc_ProjectID :: int64
  oc_SignalVersion :: string
  oc_Severity :: Severity
  oc_State :: AlertState
  oc_WindowFrom :: gotime
  oc_WindowTo :: gotime
  oc_EvidenceIDs :: "int64 list"
  oc_FirstDetectedAt :: gotime
  oc_LastDetectedAt :: gotime
  oc_SuppressionCount :: int
  oc_TransitionReason :: string
  oc_TransitionedBy :: int64
  oc_Revision :: int64

record MemberState =
  ms_OccurrenceID :: int64
  ms_MemberID :: int64
  ms_ReadAt :: "gotime option"

fun alert_matches :: "f64 \<Rightarrow> AlertOperator \<Rightarrow> f64 \<Rightarrow> bool" where
  "alert_matches val AlertGreaterThan threshold = flt threshold val"
| "alert_matches val AlertLessThan threshold = flt val threshold"
| "alert_matches val AlertEqual threshold = feq val threshold"
| "alert_matches val (AlertOperatorOther _) threshold = False"

text \<open>
  \<open>Evaluate\<close> returns the pointer it was given, a changed copy, or a new occurrence. A copy has another
  revision and a new occurrence is only made when the given one is no duplicate, so comparing
  the values tells whether the pointer was returned.
\<close>

definition duplicate_of :: "alert_Rule \<Rightarrow> alert_Fact \<Rightarrow> Occurrence \<Rightarrow> bool" where
  "duplicate_of rule fct o\<^sub>0 \<longleftrightarrow> oc_RuleID o\<^sub>0 = ru_ID rule \<and> oc_RuleVersion o\<^sub>0 = ru_Version rule \<and>
     oc_ProjectID o\<^sub>0 = ft_ProjectID fct \<and>
     time_sub (ft_DetectedAt fct) (oc_FirstDetectedAt o\<^sub>0) \<le> ru_Deduplication rule"

definition suppress :: "alert_Fact \<Rightarrow> Occurrence \<Rightarrow> Occurrence" where
  "suppress fct o\<^sub>0 = o\<^sub>0\<lparr>oc_LastDetectedAt := ft_DetectedAt fct,
     oc_SuppressionCount := oc_SuppressionCount o\<^sub>0 + 1, oc_Revision := oc_Revision o\<^sub>0 + 1,
     oc_EvidenceIDs := (if ft_EvidenceID fct > 0 \<and> ft_EvidenceID fct \<notin> set (oc_EvidenceIDs o\<^sub>0)
       then oc_EvidenceIDs o\<^sub>0 @ [ft_EvidenceID fct] else oc_EvidenceIDs o\<^sub>0)\<rparr>"

definition new_occurrence :: "alert_Rule \<Rightarrow> alert_Fact \<Rightarrow> Occurrence" where
  "new_occurrence rule fct = \<lparr>oc_ID = 0, oc_RuleID = ru_ID rule, oc_RuleVersion = ru_Version rule,
     oc_ProjectID = ft_ProjectID fct, oc_SignalVersion = ft_Version fct, oc_Severity = ru_Severity rule,
     oc_State = StateOpen, oc_WindowFrom = ft_WindowFrom fct, oc_WindowTo = ft_WindowTo fct,
     oc_EvidenceIDs = [ft_EvidenceID fct], oc_FirstDetectedAt = ft_DetectedAt fct,
     oc_LastDetectedAt = ft_DetectedAt fct, oc_SuppressionCount = 0, oc_TransitionReason = '''',
     oc_TransitionedBy = 0, oc_Revision = 1\<rparr>"

definition triggers :: "alert_Rule \<Rightarrow> alert_Fact \<Rightarrow> bool" where
  "triggers rule fct \<longleftrightarrow> ru_Enabled rule \<and> \<not> ft_Archived fct \<and> ft_Complete fct \<and> \<not> ft_EvidenceID fct \<le> 0 \<and>
     (case ft_Value fct of None \<Rightarrow> False | Some v \<Rightarrow> alert_matches v (ru_Operator rule) (ru_Threshold rule))"

definition alert_Evaluate ::
    "alert_Rule \<Rightarrow> alert_Fact \<Rightarrow> Occurrence option \<Rightarrow> alert_error + Occurrence option" where
  "alert_Evaluate rule fct existing =
     (if alert_rule_Validate rule \<noteq> None \<or> ft_ProjectID fct \<le> 0 \<or> ft_Signal fct \<noteq> ru_Signal rule \<or>
         is_zero (ft_DetectedAt fct) \<or> \<not> before (ft_WindowFrom fct) (ft_WindowTo fct)
      then Inl AlertErrInvalid
      else if \<not> triggers rule fct then Inr existing
      else case existing of
          Some o\<^sub>0 \<Rightarrow> if duplicate_of rule fct o\<^sub>0 then Inr (Some (suppress fct o\<^sub>0))
                    else Inr (Some (new_occurrence rule fct))
        | None \<Rightarrow> Inr (Some (new_occurrence rule fct)))"

definition allowedTransition :: "AlertState \<Rightarrow> AlertState \<Rightarrow> bool" where
  "allowedTransition frm to =
     (if frm = StateOpen then to = StateAcknowledged \<or> to = StateResolved \<or> to = StateDismissed
      else if frm = StateAcknowledged then to = StateOpen \<or> to = StateResolved \<or> to = StateDismissed
      else (frm = StateResolved \<or> frm = StateDismissed) \<and> to = StateOpen)"

definition alert_Transition ::
    "Principal \<Rightarrow> Occurrence \<Rightarrow> AlertState \<Rightarrow> string \<Rightarrow> int64 \<Rightarrow> alert_error + Occurrence" where
  "alert_Transition p val to reason expectedRevision =
     bindE (err_none AlertAccess (Authorize p ActionProjectWrite)) (\<lambda>_.
       if oc_Revision val \<noteq> expectedRevision then Inl (AlertAccess ErrVersionConflict)
       else if trim_space reason = '''' \<or> \<not> allowedTransition (oc_State val) to then Inl AlertErrInvalid
       else Inr (val\<lparr>oc_State := to, oc_TransitionReason := trim_space reason,
              oc_TransitionedBy := pr_ActorID p, oc_Revision := oc_Revision val + 1\<rparr>))"

definition MarkRead :: "Principal \<Rightarrow> int64 \<Rightarrow> gotime \<Rightarrow> alert_error + MemberState" where
  "MarkRead p occurrenceID readAt =
     bindE (err_none AlertAccess (Authorize p ActionIntelligenceRead)) (\<lambda>_.
       if occurrenceID \<le> 0 \<or> is_zero readAt then Inl AlertErrInvalid
       else Inr \<lparr>ms_OccurrenceID = occurrenceID, ms_MemberID = pr_ActorID p, ms_ReadAt = Some readAt\<rparr>)"

section \<open>The store\<close>

record alert_project =
  ap_ID :: int64
  ap_Workspace :: int64
  ap_State :: string

record alert_transition =
  tn_Occurrence :: int64
  tn_Revision :: int64
  tn_From :: AlertState
  tn_To :: AlertState
  tn_Reason :: string
  tn_Actor :: int64
  tn_CreatedAt :: gotime

text \<open>
  A row of \<open>alert_rules\<close> is the workspace with the rule as it is read back; a row of
  \<open>alert_occurrences\<close> is the occurrence without its evidence, which is in a table of pairs.
\<close>

record alert_db =
  ad_workspaces :: "int64 list"
  ad_projects :: "alert_project list"
  ad_rules :: "(int64 \<times> alert_Rule) list"
  ad_occurrences :: "Occurrence list"
  ad_evidence :: "(int64 \<times> int64) list"
  ad_member_state :: "((int64 \<times> int64) \<times> gotime) list"
  ad_transitions :: "alert_transition list"

definition project_row :: "alert_db \<Rightarrow> int64 \<Rightarrow> alert_project option" where
  "project_row db pid = find (\<lambda>r. ap_ID r = pid) (ad_projects db)"

text \<open>The trigger \<open>reject_deleted_project_write\<close> with the foreign key: the project is there and not deleted.\<close>

definition project_writable :: "alert_db \<Rightarrow> int64 \<Rightarrow> bool" where
  "project_writable db pid = (case project_row db pid of None \<Rightarrow> False
     | Some r \<Rightarrow> ap_State r \<noteq> ''deleting'' \<and> ap_State r \<noteq> ''deleted'')"

definition in_workspace :: "alert_db \<Rightarrow> int64 \<Rightarrow> int64 \<Rightarrow> bool" where
  "in_workspace db ws pid = (case project_row db pid of None \<Rightarrow> False | Some r \<Rightarrow> ap_Workspace r = ws)"

definition alertWorkspaceVolume :: "alert_db \<Rightarrow> int64 \<Rightarrow> int \<times> int" where
  "alertWorkspaceVolume db ws =
     (int (length (remdups (map (\<lambda>(_, r). ru_ID r) (filter (\<lambda>(w, _). w = ws) (ad_rules db))))),
      int (length (filter (\<lambda>occ. in_workspace db ws (oc_ProjectID occ)) (ad_occurrences db))))"

definition lockAlertWorkspaceVolume :: "alert_db \<Rightarrow> int64 \<Rightarrow> alert_error + int \<times> int" where
  "lockAlertWorkspaceVolume db ws =
     (if ws \<notin> set (ad_workspaces db) then Inl AlertErrNoRows else Inr (alertWorkspaceVolume db ws))"

definition stored_rule :: "alert_Rule \<Rightarrow> alert_Rule" where
  "stored_rule r = r\<lparr>ru_ProjectID := (if ru_ProjectID r > 0 then ru_ProjectID r else 0),
     ru_Cooldown := ru_Cooldown r div second * second,
     ru_Deduplication := ru_Deduplication r div second * second, ru_UpdatedAt := pg_time (ru_UpdatedAt r)\<rparr>"

definition rule_constraints :: "alert_db \<Rightarrow> int64 \<Rightarrow> alert_Rule \<Rightarrow> bool" where
  "rule_constraints db ws r \<longleftrightarrow> ru_ID r > 0 \<and> ws \<in> set (ad_workspaces db) \<and> ru_CreatedBy r > 0 \<and>
     ru_Deduplication r div second > 0 \<and> (ru_Scope r = ''project'' \<longleftrightarrow> ru_ProjectID r > 0) \<and>
     (ru_ProjectID r > 0 \<longrightarrow> project_writable db (ru_ProjectID r)) \<and>
     list_all (\<lambda>(_, q). \<not> (ru_ID q = ru_ID r \<and> ru_Version q = ru_Version r)) (ad_rules db)"

definition insertAlertRule :: "alert_db \<Rightarrow> int64 \<Rightarrow> alert_Rule \<Rightarrow> alert_error + alert_db" where
  "insertAlertRule db ws val =
     (if rule_constraints db ws val then Inr (db\<lparr>ad_rules := ad_rules db @ [(ws, stored_rule val)]\<rparr>)
      else Inl AlertErrConstraint)"

definition CreateAlertRule ::
    "alert_db \<Rightarrow> Principal \<Rightarrow> alert_Rule \<Rightarrow> gotime \<Rightarrow> int64 option \<Rightarrow> alert_error + alert_db \<times> alert_Rule" where
  "CreateAlertRule db p val now nextID =
     bindE (err_none AlertAccess (Authorize p ActionProjectWrite)) (\<lambda>_.
       let v1 = val\<lparr>ru_Version := 1, ru_CreatedBy := pr_ActorID p,
                 ru_UpdatedAt := (if is_zero (ru_UpdatedAt val) then utc now else ru_UpdatedAt val)\<rparr> in
       bindE (err_none id (alert_rule_Validate v1)) (\<lambda>_.
       bindE (if ru_ID v1 = 0 then some_or AlertErrID nextID else Inr (ru_ID v1)) (\<lambda>newID.
       let v2 = v1\<lparr>ru_ID := newID\<rparr> in
       bindE (lockAlertWorkspaceVolume db (pr_Workspace p)) (\<lambda>(rules, occurrences).
       bindE (err_none id (ValidateVolume DefaultLimits (rules + 1) occurrences)) (\<lambda>_.
       bindE (insertAlertRule db (pr_Workspace p) v2) (\<lambda>db'. Inr (db', v2)))))))"

definition cmp_version_desc :: "alert_Rule \<Rightarrow> alert_Rule \<Rightarrow> int" where
  "cmp_version_desc a b = cmp_int (ru_Version b) (ru_Version a)"

text \<open>\<open>ORDER BY version DESC LIMIT 1\<close>.\<close>

definition latest_rule :: "alert_db \<Rightarrow> int64 \<Rightarrow> int64 \<Rightarrow> alert_Rule option" where
  "latest_rule db ws ruleID =
     (case sort_func cmp_version_desc (map snd (filter (\<lambda>(w, r). ru_ID r = ruleID \<and> w = ws) (ad_rules db))) of
        [] \<Rightarrow> None | r # _ \<Rightarrow> Some r)"

definition UpdateAlertRule ::
    "alert_db \<Rightarrow> Principal \<Rightarrow> alert_Rule \<Rightarrow> int64 \<Rightarrow> alert_error + alert_db \<times> alert_Rule" where
  "UpdateAlertRule db p val expectedVersion =
     bindE (err_none AlertAccess (Authorize p ActionProjectWrite)) (\<lambda>_.
     bindE (some_or AlertErrNoRows (latest_rule db (pr_Workspace p) (ru_ID val))) (\<lambda>latest.
       if ru_Version latest \<noteq> expectedVersion then Inl (AlertAccess ErrVersionConflict)
       else let v1 = val\<lparr>ru_Version := ru_Version latest + 1, ru_CreatedBy := pr_ActorID p\<rparr> in
         bindE (err_none id (alert_rule_Validate v1)) (\<lambda>_.
         bindE (insertAlertRule db (pr_Workspace p) v1) (\<lambda>db'. Inr (db', v1)))))"

definition AlertRule :: "alert_db \<Rightarrow> Principal \<Rightarrow> int64 \<Rightarrow> alert_error + alert_Rule" where
  "AlertRule db p ruleID =
     bindE (err_none AlertAccess (Authorize p ActionIntelligenceRead)) (\<lambda>_.
       some_or AlertErrNoRows (latest_rule db (pr_Workspace p) ruleID))"

text \<open>\<open>ORDER BY first_detected_at DESC, id DESC\<close>.\<close>

definition cmp_first_desc :: "Occurrence \<Rightarrow> Occurrence \<Rightarrow> int" where
  "cmp_first_desc a b = cmp_then (time_compare (oc_FirstDetectedAt b) (oc_FirstDetectedAt a)) (cmp_int (oc_ID b) (oc_ID a))"

definition occurrence_evidence :: "alert_db \<Rightarrow> int64 \<Rightarrow> int64 list" where
  "occurrence_evidence db occID = map snd (filter (\<lambda>(i, _). i = occID) (ad_evidence db))"

definition dedup_candidates :: "alert_db \<Rightarrow> alert_Rule \<Rightarrow> alert_Fact \<Rightarrow> Occurrence list" where
  "dedup_candidates db rule fct = filter (\<lambda>occ. oc_RuleID occ = ru_ID rule \<and> oc_RuleVersion occ = ru_Version rule \<and>
     oc_ProjectID occ = ft_ProjectID fct \<and>
     \<not> before (oc_FirstDetectedAt occ) (pg_time (time_add (ft_DetectedAt fct) (- ru_Deduplication rule))))
     (ad_occurrences db)"

definition loadDedupOccurrence :: "alert_db \<Rightarrow> alert_Rule \<Rightarrow> alert_Fact \<Rightarrow> Occurrence option" where
  "loadDedupOccurrence db rule fct =
     (case sort_func cmp_first_desc (dedup_candidates db rule fct) of
        [] \<Rightarrow> None
      | occ # _ \<Rightarrow> Some (occ\<lparr>oc_EvidenceIDs := occurrence_evidence db (oc_ID occ)\<rparr>))"

definition resolve_workspace :: "alert_db \<Rightarrow> alert_Rule \<Rightarrow> alert_Fact \<Rightarrow> int64 option" where
  "resolve_workspace db rule fct =
     (case project_row db (ft_ProjectID fct) of
        None \<Rightarrow> None
      | Some r \<Rightarrow>
          if ap_Workspace r \<in> set (ad_workspaces db) \<and>
             list_ex (\<lambda>(w, q). w = ap_Workspace r \<and> ru_ID q = ru_ID rule \<and> ru_Version q = ru_Version rule) (ad_rules db)
          then Some (ap_Workspace r) else None)"

definition pg_not_blank :: "string \<Rightarrow> bool" where
  "pg_not_blank s \<longleftrightarrow> list_ex (\<lambda>c. c \<noteq> CHR '' '') s"

definition occurrence_row :: "Occurrence \<Rightarrow> Occurrence" where
  "occurrence_row occ = occ\<lparr>oc_EvidenceIDs := [], oc_WindowFrom := pg_time (oc_WindowFrom occ),
     oc_WindowTo := pg_time (oc_WindowTo occ), oc_FirstDetectedAt := pg_time (oc_FirstDetectedAt occ),
     oc_LastDetectedAt := pg_time (oc_LastDetectedAt occ)\<rparr>"

definition insert_occurrence :: "alert_db \<Rightarrow> Occurrence \<Rightarrow> alert_error + alert_db" where
  "insert_occurrence db occ =
     (let row = occurrence_row occ in
      if oc_ID row > 0 \<and> oc_ID row \<notin> oc_ID ` set (ad_occurrences db) \<and> pg_not_blank (oc_SignalVersion row) \<and>
         before (oc_WindowFrom row) (oc_WindowTo row) \<and> project_writable db (oc_ProjectID row)
      then Inr (db\<lparr>ad_occurrences := ad_occurrences db @ [row]\<rparr>)
      else Inl AlertErrConstraint)"

text \<open>An update of the rows with an identifier; \<open>ok\<close> are the constraints on the changed row.\<close>

definition update_occurrence ::
    "alert_db \<Rightarrow> int64 \<Rightarrow> (Occurrence \<Rightarrow> Occurrence) \<Rightarrow> (Occurrence \<Rightarrow> bool) \<Rightarrow> alert_error + alert_db" where
  "update_occurrence db occID f ok =
     (if list_all (\<lambda>occ. oc_ID occ \<noteq> occID \<or> ok (f occ) \<and> project_writable db (oc_ProjectID occ)) (ad_occurrences db)
      then Inr (db\<lparr>ad_occurrences := map (\<lambda>occ. if oc_ID occ = occID then f occ else occ) (ad_occurrences db)\<rparr>)
      else Inl AlertErrConstraint)"

fun insert_evidence :: "alert_db \<Rightarrow> int64 \<Rightarrow> int64 list \<Rightarrow> alert_error + alert_db" where
  "insert_evidence db occID [] = Inr db"
| "insert_evidence db occID (e # es) =
     (if (occID, e) \<in> set (ad_evidence db) then insert_evidence db occID es
      else if occID \<notin> oc_ID ` set (ad_occurrences db) \<or> e \<le> 0 then Inl AlertErrConstraint
      else insert_evidence (db\<lparr>ad_evidence := ad_evidence db @ [(occID, e)]\<rparr>) occID es)"

definition EvaluateAlert ::
    "alert_db \<Rightarrow> alert_Rule \<Rightarrow> alert_Fact \<Rightarrow> int64 option \<Rightarrow> alert_error + alert_db \<times> Occurrence option" where
  "EvaluateAlert db rule fct nextID =
     (if alert_rule_Validate rule \<noteq> None then Inl AlertErrInvalid
      else
        bindE (some_or AlertErrNoRows (resolve_workspace db rule fct)) (\<lambda>workspaceID.
        let existing = loadDedupOccurrence db rule fct in
        bindE (alert_Evaluate rule fct existing) (\<lambda>result.
          if result = existing then Inr (db, result)
          else case result of
              None \<Rightarrow> Inr (db, None)
            | Some occ \<Rightarrow>
                bindE (case existing of
                    None \<Rightarrow>
                      let (rules, occurrences) = alertWorkspaceVolume db workspaceID in
                      bindE (err_none id (ValidateVolume DefaultLimits rules (occurrences + 1))) (\<lambda>_.
                      bindE (some_or AlertErrID nextID) (\<lambda>i.
                        let occ' = occ\<lparr>oc_ID := i\<rparr> in
                        bindE (insert_occurrence db occ') (\<lambda>db'. Inr (db', occ'))))
                  | Some _ \<Rightarrow>
                      bindE (update_occurrence db (oc_ID occ)
                        (\<lambda>r. r\<lparr>oc_LastDetectedAt := pg_time (oc_LastDetectedAt occ),
                             oc_SuppressionCount := oc_SuppressionCount occ, oc_Revision := oc_Revision occ\<rparr>)
                        (\<lambda>r. \<not> after (oc_FirstDetectedAt r) (oc_LastDetectedAt r)))
                        (\<lambda>db'. Inr (db', occ))) (\<lambda>(db', occ').
                bindE (insert_evidence db' (oc_ID occ') (oc_EvidenceIDs occ')) (\<lambda>db''.
                  Inr (db'', Some occ'))))))"

record AlertItem = Occurrence +
  it_ReadAt :: "gotime option"

definition cmp_last_desc :: "Occurrence \<Rightarrow> Occurrence \<Rightarrow> int" where
  "cmp_last_desc a b = cmp_then (time_compare (oc_LastDetectedAt b) (oc_LastDetectedAt a)) (cmp_int (oc_ID b) (oc_ID a))"

definition state_text :: "AlertState \<Rightarrow> string" where
  "state_text s = (case s of StateOpen \<Rightarrow> ''open'' | StateAcknowledged \<Rightarrow> ''acknowledged''
     | StateResolved \<Rightarrow> ''resolved'' | StateDismissed \<Rightarrow> ''dismissed'' | AlertStateOther t \<Rightarrow> t)"

definition loadAlertEvidence :: "alert_db \<Rightarrow> int64 \<Rightarrow> int64 list" where
  "loadAlertEvidence db occID = sort_func cmp_int (occurrence_evidence db occID)"

definition alert_item :: "alert_db \<Rightarrow> int64 \<Rightarrow> Occurrence \<Rightarrow> AlertItem" where
  "alert_item db member occ = Occurrence.extend (occ\<lparr>oc_EvidenceIDs := loadAlertEvidence db (oc_ID occ)\<rparr>)
     (AlertItem.fields (map_of (ad_member_state db) (oc_ID occ, member)))"

definition Alerts ::
    "alert_db \<Rightarrow> Principal \<Rightarrow> string \<Rightarrow> int64 \<Rightarrow> int \<Rightarrow> int \<Rightarrow> alert_error + AlertItem list" where
  "Alerts db p state projectID limit offset =
     bindE (err_none AlertAccess (Authorize p ActionIntelligenceRead)) (\<lambda>_.
       if limit \<le> 0 \<or> limit > 200 \<or> offset < 0 then Inl AlertErrInvalid
       else Inr (map (alert_item db (pr_ActorID p)) (take (nat limit) (drop (nat offset) (sort_func cmp_last_desc
              (filter (\<lambda>occ. in_workspace db (pr_Workspace p) (oc_ProjectID occ) \<and>
                 (state = '''' \<or> state_text (oc_State occ) = state) \<and>
                 (projectID = 0 \<or> oc_ProjectID occ = projectID)) (ad_occurrences db)))))))"

definition visible_occurrence :: "alert_db \<Rightarrow> int64 \<Rightarrow> int64 \<Rightarrow> Occurrence option" where
  "visible_occurrence db ws occID =
     find (\<lambda>occ. oc_ID occ = occID \<and> in_workspace db ws (oc_ProjectID occ)) (ad_occurrences db)"

definition MarkAlertRead :: "alert_db \<Rightarrow> Principal \<Rightarrow> int64 \<Rightarrow> gotime \<Rightarrow> alert_error + alert_db" where
  "MarkAlertRead db p occID now =
     bindE (MarkRead p occID now) (\<lambda>state.
       case visible_occurrence db (pr_Workspace p) occID of
         None \<Rightarrow> Inl (AlertAccess ErrNotFound)
       | Some _ \<Rightarrow>
           if ms_MemberID state \<le> 0 then Inl AlertErrConstraint
           else Inr (db\<lparr>ad_member_state := AList.update (occID, ms_MemberID state) (pg_time now) (ad_member_state db)\<rparr>))"

definition TransitionAlert ::
    "alert_db \<Rightarrow> Principal \<Rightarrow> int64 \<Rightarrow> AlertState \<Rightarrow> string \<Rightarrow> int64 \<Rightarrow> gotime \<Rightarrow> alert_error + alert_db \<times> Occurrence" where
  "TransitionAlert db p occID to reason expectedRevision now =
     bindE (err_none AlertAccess (Authorize p ActionProjectWrite)) (\<lambda>_.
     bindE (some_or AlertErrNoRows (visible_occurrence db (pr_Workspace p) occID)) (\<lambda>current.
     bindE (alert_Transition p current to reason expectedRevision) (\<lambda>updated.
     bindE (update_occurrence db occID
         (\<lambda>r. r\<lparr>oc_State := oc_State updated, oc_TransitionReason := oc_TransitionReason updated,
              oc_TransitionedBy := oc_TransitionedBy updated, oc_Revision := oc_Revision updated\<rparr>)
         (\<lambda>r. oc_Revision r > 0)) (\<lambda>db'.
       if oc_Revision updated \<le> 1 \<or> oc_TransitionedBy updated \<le> 0 \<or>
          list_ex (\<lambda>t. tn_Occurrence t = occID \<and> tn_Revision t = oc_Revision updated) (ad_transitions db')
       then Inl AlertErrConstraint
       else Inr (db'\<lparr>ad_transitions := ad_transitions db' @ [\<lparr>tn_Occurrence = occID, tn_Revision = oc_Revision updated,
               tn_From = oc_State current, tn_To = oc_State updated, tn_Reason = oc_TransitionReason updated,
               tn_Actor = oc_TransitionedBy updated, tn_CreatedAt = pg_time now\<rparr>]\<rparr>, updated)))))"

section \<open>Steps of the store\<close>

datatype alert_op =
    CreateRuleOp Principal alert_Rule gotime "int64 option"
  | UpdateRuleOp Principal alert_Rule int64
  | EvaluateOp alert_Rule alert_Fact "int64 option"
  | MarkReadOp Principal int64 gotime
  | TransitionOp Principal int64 AlertState string int64 gotime

fun alert_step :: "alert_op \<Rightarrow> alert_db \<Rightarrow> alert_error + alert_db" where
  "alert_step (CreateRuleOp p val now i) db = map_sum id fst (CreateAlertRule db p val now i)"
| "alert_step (UpdateRuleOp p val v) db = map_sum id fst (UpdateAlertRule db p val v)"
| "alert_step (EvaluateOp rule fct i) db = map_sum id fst (EvaluateAlert db rule fct i)"
| "alert_step (MarkReadOp p i t) db = MarkAlertRead db p i t"
| "alert_step (TransitionOp p i to reason v now) db = map_sum id fst (TransitionAlert db p i to reason v now)"

lemma insert_evidence_effect:
  "insert_evidence db occID es = Inr db' \<Longrightarrow> es \<noteq> [] \<Longrightarrow> \<forall>(i, e) \<in> set (ad_evidence db). i \<in> oc_ID ` set (ad_occurrences db) \<Longrightarrow>
     occID \<in> oc_ID ` set (ad_occurrences db)"
  "insert_evidence db occID es = Inr db' \<Longrightarrow> \<exists>ev. db' = db\<lparr>ad_evidence := ev\<rparr>"
  "insert_evidence db occID es = Inr db' \<Longrightarrow> \<forall>(i, e) \<in> set (ad_evidence db). i \<in> oc_ID ` set (ad_occurrences db) \<Longrightarrow>
     \<forall>(i, e) \<in> set (ad_evidence db'). i \<in> oc_ID ` set (ad_occurrences db)"
proof -
  show "insert_evidence db occID es = Inr db' \<Longrightarrow> es \<noteq> [] \<Longrightarrow>
      \<forall>(i, e) \<in> set (ad_evidence db). i \<in> oc_ID ` set (ad_occurrences db) \<Longrightarrow>
      occID \<in> oc_ID ` set (ad_occurrences db)"
    by (cases es) (auto split: if_splits)
  show "insert_evidence db occID es = Inr db' \<Longrightarrow> \<exists>ev. db' = db\<lparr>ad_evidence := ev\<rparr>"
  proof (induction db occID es rule: insert_evidence.induct)
    case (1 db occID)
    then show ?case by (intro exI [of _ "ad_evidence db"]) simp
  qed (auto split: if_splits)
  show "insert_evidence db occID es = Inr db' \<Longrightarrow> \<forall>(i, e) \<in> set (ad_evidence db). i \<in> oc_ID ` set (ad_occurrences db) \<Longrightarrow>
     \<forall>(i, e) \<in> set (ad_evidence db'). i \<in> oc_ID ` set (ad_occurrences db)"
    by (induction db occID es rule: insert_evidence.induct) (fastforce split: if_splits)+
qed

text \<open>Keys and references: identifiers are positive and unique, evidence belongs to an occurrence.\<close>

definition alert_ok :: "alert_db \<Rightarrow> bool" where
  "alert_ok db \<longleftrightarrow> distinct (map oc_ID (ad_occurrences db)) \<and> (\<forall>occ \<in> set (ad_occurrences db). oc_ID occ > 0) \<and>
     (\<forall>(i, e) \<in> set (ad_evidence db). i \<in> oc_ID ` set (ad_occurrences db))"

definition touch :: "int64 \<Rightarrow> (Occurrence \<Rightarrow> Occurrence) \<Rightarrow> Occurrence list \<Rightarrow> Occurrence list" where
  "touch i f = map (\<lambda>occ. if oc_ID occ = i then f occ else occ)"

definition suppress_row :: "alert_Fact \<Rightarrow> Occurrence \<Rightarrow> Occurrence \<Rightarrow> Occurrence" where
  "suppress_row fct o\<^sub>0 r = r\<lparr>oc_LastDetectedAt := pg_time (ft_DetectedAt fct),
     oc_SuppressionCount := oc_SuppressionCount o\<^sub>0 + 1, oc_Revision := oc_Revision o\<^sub>0 + 1\<rparr>"

lemma loadDedup_None: "loadDedupOccurrence db rule fct = None \<longleftrightarrow> dedup_candidates db rule fct = []"
proof -
  have "sort_func cmp_first_desc xs = [] \<longleftrightarrow> xs = []" for xs
    by (metis length_0_conv length_sort_func)
  then show ?thesis
    by (cases "sort_func cmp_first_desc (dedup_candidates db rule fct)")
      (force simp: loadDedupOccurrence_def)+
qed

lemma loadDedup_Some:
  assumes "loadDedupOccurrence db rule fct = Some e"
  obtains occ where "occ \<in> set (dedup_candidates db rule fct)"
    "e = occ\<lparr>oc_EvidenceIDs := occurrence_evidence db (oc_ID occ)\<rparr>"
proof -
  obtain occ rest where s: "sort_func cmp_first_desc (dedup_candidates db rule fct) = occ # rest"
      "e = occ\<lparr>oc_EvidenceIDs := occurrence_evidence db (oc_ID occ)\<rparr>"
    using assms by (auto simp: loadDedupOccurrence_def split: list.splits)
  then have "occ \<in> set (dedup_candidates db rule fct)" by (metis list.set_intros(1) set_sort_func)
  then show thesis using s(2) by (rule that)
qed

lemma update_occurrence_Inr:
  "update_occurrence db i f ok = Inr db' \<longleftrightarrow>
     list_all (\<lambda>occ. oc_ID occ \<noteq> i \<or> ok (f occ) \<and> project_writable db (oc_ProjectID occ)) (ad_occurrences db) \<and>
     db' = db\<lparr>ad_occurrences := touch i f (ad_occurrences db)\<rparr>"
  by (auto simp: update_occurrence_def touch_def)

lemma insert_occurrence_Inr:
  "insert_occurrence db occ = Inr db' \<longleftrightarrow>
     oc_ID occ > 0 \<and> oc_ID occ \<notin> oc_ID ` set (ad_occurrences db) \<and> pg_not_blank (oc_SignalVersion occ) \<and>
     before (pg_time (oc_WindowFrom occ)) (pg_time (oc_WindowTo occ)) \<and> project_writable db (oc_ProjectID occ) \<and>
     db' = db\<lparr>ad_occurrences := ad_occurrences db @ [occurrence_row occ]\<rparr>"
  by (auto simp: insert_occurrence_def occurrence_row_def Let_def)

lemma touch_ids [simp]: "(\<And>occ. oc_ID (f occ) = oc_ID occ) \<Longrightarrow> map oc_ID (touch i f xs) = map oc_ID xs"
  by (simp add: touch_def)

lemma touch_fresh: "i \<notin> oc_ID ` set xs \<Longrightarrow> touch i f xs = xs"
  unfolding touch_def by (induction xs) auto

text \<open>A successful evaluation changes nothing, suppresses a stored duplicate, or inserts an occurrence.\<close>

lemma EvaluateAlert_cases:
  assumes "EvaluateAlert db rule fct nextID = Inr (db', r)" and ok: "alert_ok db"
  obtains (same) "db' = db"
  | (suppressed) occ ev where "occ \<in> set (ad_occurrences db)" "duplicate_of rule fct occ"
      "\<not> after (oc_FirstDetectedAt occ) (pg_time (ft_DetectedAt fct))"
      "db' = db\<lparr>ad_occurrences := touch (oc_ID occ) (suppress_row fct occ) (ad_occurrences db), ad_evidence := ev\<rparr>"
      "\<forall>(i, e) \<in> set ev. i \<in> oc_ID ` set (ad_occurrences db)"
  | (inserted) occ ev ws where "dedup_candidates db rule fct = []" "triggers rule fct"
      "occ = occurrence_row ((new_occurrence rule fct)\<lparr>oc_ID := the nextID\<rparr>)"
      "oc_ID occ > 0" "oc_ID occ \<notin> oc_ID ` set (ad_occurrences db)"
      "resolve_workspace db rule fct = Some ws"
      "ValidateVolume DefaultLimits (fst (alertWorkspaceVolume db ws)) (snd (alertWorkspaceVolume db ws) + 1) = None"
      "db' = db\<lparr>ad_occurrences := ad_occurrences db @ [occ], ad_evidence := ev\<rparr>"
      "\<forall>(i, e) \<in> set ev. i \<in> insert (oc_ID occ) (oc_ID ` set (ad_occurrences db))"
proof -
  let ?ex = "loadDedupOccurrence db rule fct"
  obtain ws result where ws: "resolve_workspace db rule fct = Some ws"
      and ev: "alert_Evaluate rule fct ?ex = Inr result"
    using assms(1) by (auto simp: EvaluateAlert_def Let_def result_simps split: if_splits)
  have ids: "oc_ID ` set (touch i f xs) = oc_ID ` set xs" if "\<And>x. oc_ID (f x) = oc_ID x" for i f xs
    using touch_ids [of f i xs, OF that] by (metis image_set)
  show thesis
  proof (cases "result = ?ex")
    case True
    with assms(1) ws ev have "db' = db" by (auto simp: EvaluateAlert_def Let_def result_simps split: if_splits)
    then show thesis by (rule same)
  next
    case changed: False
    then have trig: "triggers rule fct" using ev by (auto simp: alert_Evaluate_def split: if_splits)
    show thesis
    proof (cases ?ex)
      case None
      then have res: "result = Some (new_occurrence rule fct)"
        using ev trig by (auto simp: alert_Evaluate_def split: if_splits)
      let ?occ = "(new_occurrence rule fct)\<lparr>oc_ID := the nextID\<rparr>"
      obtain db1 where db1: "insert_occurrence db ?occ = Inr db1"
          "insert_evidence db1 (oc_ID ?occ) (oc_EvidenceIDs ?occ) = Inr db'"
          "ValidateVolume DefaultLimits (fst (alertWorkspaceVolume db ws)) (snd (alertWorkspaceVolume db ws) + 1) = None"
        using assms(1) ws ev None changed res
        by (auto simp: EvaluateAlert_def Let_def result_simps split: if_splits prod.splits)
      note ins = db1(1) [unfolded insert_occurrence_Inr]
      have "\<forall>(i, e) \<in> set (ad_evidence db1). i \<in> oc_ID ` set (ad_occurrences db1)"
        using ok ins by (fastforce simp: alert_ok_def)
      note e = insert_evidence_effect(2) [OF db1(2)] insert_evidence_effect(3) [OF db1(2) this]
      have row: "oc_ID (occurrence_row ?occ) = oc_ID ?occ" by (simp add: occurrence_row_def)
      from e obtain evd where d: "db' = db1\<lparr>ad_evidence := evd\<rparr>" by blast
      show thesis
        by (rule inserted [of "occurrence_row ?occ" ws evd])
          (use None trig ws db1(3) ins d e(2) row in \<open>auto simp: loadDedup_None\<close>)
    next
      case (Some e)
      then obtain occ where occ: "occ \<in> set (dedup_candidates db rule fct)"
          "e = occ\<lparr>oc_EvidenceIDs := occurrence_evidence db (oc_ID occ)\<rparr>" by (rule loadDedup_Some)
      have "result \<noteq> None" using ev Some trig by (auto simp: alert_Evaluate_def split: if_splits)
      then obtain occ' db1 where o': "result = Some occ'"
          and up: "update_occurrence db (oc_ID occ') (\<lambda>r. r\<lparr>oc_LastDetectedAt := pg_time (oc_LastDetectedAt occ'),
             oc_SuppressionCount := oc_SuppressionCount occ', oc_Revision := oc_Revision occ'\<rparr>)
            (\<lambda>r. \<not> after (oc_FirstDetectedAt r) (oc_LastDetectedAt r)) = Inr db1"
          and ie: "insert_evidence db1 (oc_ID occ') (oc_EvidenceIDs occ') = Inr db'"
        using assms(1) ws ev Some changed
        by (auto simp: EvaluateAlert_def Let_def result_simps split: if_splits option.splits)
      note up' = up [unfolded update_occurrence_Inr]
      have i1: "oc_ID ` set (ad_occurrences db1) = oc_ID ` set (ad_occurrences db)" "ad_evidence db1 = ad_evidence db"
        using up' by (auto simp: ids)
      then have e1: "\<forall>(i, e) \<in> set (ad_evidence db1). i \<in> oc_ID ` set (ad_occurrences db1)"
        using ok by (simp add: alert_ok_def)
      have dup: "duplicate_of rule fct e"
      proof (rule ccontr)
        assume "\<not> duplicate_of rule fct e"
        then have "occ' = new_occurrence rule fct"
          using ev Some trig o' by (auto simp: alert_Evaluate_def split: if_splits)
        then have "oc_ID occ' = 0" "oc_EvidenceIDs occ' \<noteq> []" by (simp_all add: new_occurrence_def)
        with insert_evidence_effect(1) [OF ie _ e1] i1 ok show False by (auto simp: alert_ok_def)
      qed
      then have oc: "occ' = suppress fct e" using ev Some trig o' by (auto simp: alert_Evaluate_def split: if_splits)
      obtain evd where d: "db' = db1\<lparr>ad_evidence := evd\<rparr>" using insert_evidence_effect(2) [OF ie] by blast
      have f: "(\<lambda>r. r\<lparr>oc_LastDetectedAt := pg_time (oc_LastDetectedAt occ'), oc_SuppressionCount := oc_SuppressionCount occ',
           oc_Revision := oc_Revision occ'\<rparr>) = suppress_row fct occ" "oc_ID occ' = oc_ID occ"
        by (auto simp: oc occ(2) suppress_def suppress_row_def)
      have m: "occ \<in> set (ad_occurrences db)" using occ(1) by (simp add: dedup_candidates_def)
      have "\<not> after (oc_FirstDetectedAt occ) (pg_time (ft_DetectedAt fct))"
        using up' m unfolding f list_all_iff by (auto simp: suppress_row_def oc suppress_def)
      moreover have "duplicate_of rule fct occ" using dup by (simp add: occ(2) duplicate_of_def)
      ultimately show thesis
        using suppressed [OF m, of evd] up' d insert_evidence_effect(3) [OF ie e1] i1 unfolding f by auto
    qed
  qed
qed

definition transition_row :: "Principal \<Rightarrow> AlertState \<Rightarrow> string \<Rightarrow> int64 \<Rightarrow> Occurrence \<Rightarrow> Occurrence" where
  "transition_row p to reason v r = r\<lparr>oc_State := to, oc_TransitionReason := trim_space reason,
     oc_TransitionedBy := pr_ActorID p, oc_Revision := v + 1\<rparr>"

lemma TransitionAlert_effect:
  assumes "TransitionAlert db p i to reason v now = Inr (db', upd)"
  obtains cur where "cur \<in> set (ad_occurrences db)" "oc_ID cur = i" "oc_Revision cur = v"
    "Authorize p ActionProjectWrite = None" "allowedTransition (oc_State cur) to" "trim_space reason \<noteq> ''''"
    "db' = db\<lparr>ad_occurrences := touch i (transition_row p to reason v) (ad_occurrences db),
       ad_transitions := ad_transitions db @ [\<lparr>tn_Occurrence = i, tn_Revision = v + 1, tn_From = oc_State cur,
         tn_To = to, tn_Reason = trim_space reason, tn_Actor = pr_ActorID p, tn_CreatedAt = pg_time now\<rparr>]\<rparr>"
proof -
  obtain cur upd' db1 where c: "visible_occurrence db (pr_Workspace p) i = Some cur"
      "alert_Transition p cur to reason v = Inr upd'"
      and up: "update_occurrence db i (\<lambda>r. r\<lparr>oc_State := oc_State upd', oc_TransitionReason := oc_TransitionReason upd',
              oc_TransitionedBy := oc_TransitionedBy upd', oc_Revision := oc_Revision upd'\<rparr>)
         (\<lambda>r. oc_Revision r > 0) = Inr db1"
      and db': "db' = db1\<lparr>ad_transitions := ad_transitions db1 @ [\<lparr>tn_Occurrence = i, tn_Revision = oc_Revision upd',
         tn_From = oc_State cur, tn_To = oc_State upd', tn_Reason = oc_TransitionReason upd',
         tn_Actor = oc_TransitionedBy upd', tn_CreatedAt = pg_time now\<rparr>]\<rparr>"
    using assms by (auto simp: TransitionAlert_def result_simps split: if_splits)
  have cur: "cur \<in> set (ad_occurrences db)" "oc_ID cur = i"
    using c(1) by (auto simp: visible_occurrence_def find_Some_iff)
  have u: "upd' = transition_row p to reason v cur" "oc_Revision cur = v" "Authorize p ActionProjectWrite = None"
      "allowedTransition (oc_State cur) to" "trim_space reason \<noteq> ''''"
    using c(2) by (auto simp: alert_Transition_def transition_row_def result_simps split: if_splits)
  then have "(\<lambda>r. r\<lparr>oc_State := oc_State upd', oc_TransitionReason := oc_TransitionReason upd',
      oc_TransitionedBy := oc_TransitionedBy upd', oc_Revision := oc_Revision upd'\<rparr>) = transition_row p to reason v"
    by (auto simp: transition_row_def)
  with up have "db1 = db\<lparr>ad_occurrences := touch i (transition_row p to reason v) (ad_occurrences db)\<rparr>"
    by (simp add: update_occurrence_Inr)
  with db' u cur show thesis by (intro that [of cur]) (simp_all add: transition_row_def)
qed

lemma rule_ops_effect:
  "CreateAlertRule db p val now i = Inr (db', r) \<Longrightarrow>
     db' = db\<lparr>ad_rules := ad_rules db @ [(pr_Workspace p, stored_rule r)]\<rparr> \<and>
     ValidateVolume DefaultLimits (fst (alertWorkspaceVolume db (pr_Workspace p)) + 1)
       (snd (alertWorkspaceVolume db (pr_Workspace p))) = None"
  "UpdateAlertRule db p val v = Inr (db', r) \<Longrightarrow>
     db' = db\<lparr>ad_rules := ad_rules db @ [(pr_Workspace p, stored_rule r)]\<rparr> \<and>
     ru_ID r \<in> (\<lambda>(_, q). ru_ID q) ` set (filter (\<lambda>(w, _). w = pr_Workspace p) (ad_rules db))"
proof -
  show "CreateAlertRule db p val now i = Inr (db', r) \<Longrightarrow>
     db' = db\<lparr>ad_rules := ad_rules db @ [(pr_Workspace p, stored_rule r)]\<rparr> \<and>
     ValidateVolume DefaultLimits (fst (alertWorkspaceVolume db (pr_Workspace p)) + 1)
       (snd (alertWorkspaceVolume db (pr_Workspace p))) = None"
    by (auto simp: CreateAlertRule_def lockAlertWorkspaceVolume_def insertAlertRule_def Let_def result_simps
        split: if_splits prod.splits)
  assume u: "UpdateAlertRule db p val v = Inr (db', r)"
  then obtain latest where l: "latest_rule db (pr_Workspace p) (ru_ID val) = Some latest"
      "db' = db\<lparr>ad_rules := ad_rules db @ [(pr_Workspace p, stored_rule r)]\<rparr>" "ru_ID r = ru_ID val"
    by (auto simp: UpdateAlertRule_def insertAlertRule_def Let_def result_simps split: if_splits)
  then have "latest \<in> set (sort_func cmp_version_desc (map snd (filter (\<lambda>(w, r). ru_ID r = ru_ID val \<and> w = pr_Workspace p)
      (ad_rules db))))" by (auto simp: latest_rule_def simp del: set_sort_func split: list.splits)
  then have "(pr_Workspace p, latest) \<in> set (ad_rules db)" "ru_ID latest = ru_ID val" by auto
  with l show "db' = db\<lparr>ad_rules := ad_rules db @ [(pr_Workspace p, stored_rule r)]\<rparr> \<and>
     ru_ID r \<in> (\<lambda>(_, q). ru_ID q) ` set (filter (\<lambda>(w, _). w = pr_Workspace p) (ad_rules db))" by force
qed

lemma MarkAlertRead_effect: "MarkAlertRead db p i t = Inr db' \<Longrightarrow> \<exists>ms. db' = db\<lparr>ad_member_state := ms\<rparr>"
  by (auto simp: MarkAlertRead_def result_simps split: option.splits if_splits)

section \<open>The history of an occurrence\<close>

fun chain :: "AlertState \<Rightarrow> alert_transition list \<Rightarrow> AlertState \<Rightarrow> bool" where
  "chain s [] s' \<longleftrightarrow> s = s'"
| "chain s (t # ts) s' \<longleftrightarrow> tn_From t = s \<and> allowedTransition s (tn_To t) \<and> chain (tn_To t) ts s'"

definition history :: "alert_db \<Rightarrow> int64 \<Rightarrow> alert_transition list" where
  "history db i = filter (\<lambda>t. tn_Occurrence t = i) (ad_transitions db)"

text \<open>The recorded transitions lead from open to the state, and the revision counts every change.\<close>

definition recorded :: "alert_db \<Rightarrow> Occurrence \<Rightarrow> bool" where
  "recorded db occ \<longleftrightarrow> chain StateOpen (history db (oc_ID occ)) (oc_State occ) \<and>
     sorted_wrt (<) (map tn_Revision (history db (oc_ID occ)) @ [oc_Revision occ + 1]) \<and>
     oc_Revision occ = 1 + oc_SuppressionCount occ + int (length (history db (oc_ID occ))) \<and>
     0 \<le> oc_SuppressionCount occ"

definition history_ok :: "alert_db \<Rightarrow> bool" where
  "history_ok db \<longleftrightarrow> alert_ok db \<and> list_all (recorded db) (ad_occurrences db) \<and>
     (\<forall>t \<in> set (ad_transitions db). tn_Occurrence t \<in> oc_ID ` set (ad_occurrences db))"

lemma chain_snoc: "chain s ts m \<Longrightarrow> allowedTransition m (tn_To t) \<Longrightarrow> tn_From t = m \<Longrightarrow> chain s (ts @ [t]) (tn_To t)"
  by (induction s ts m rule: chain.induct) auto

lemma recorded_cong: "history db' (oc_ID occ) = history db (oc_ID occ) \<Longrightarrow> recorded db' occ = recorded db occ"
  by (simp add: recorded_def)

lemma history_eq: "ad_transitions db' = ad_transitions db \<Longrightarrow> history db' i = history db i"
  by (simp add: history_def)

lemma same_id: "alert_ok db \<Longrightarrow> a \<in> set (ad_occurrences db) \<Longrightarrow> b \<in> set (ad_occurrences db) \<Longrightarrow> oc_ID a = oc_ID b \<Longrightarrow> a = b"
  by (auto simp: alert_ok_def distinct_map inj_on_def)

lemma touch_set:
  assumes "occ' \<in> set (touch i f xs)"
  obtains occ where "occ \<in> set xs" "oc_ID occ \<noteq> i" "occ' = occ" | occ where "occ \<in> set xs" "oc_ID occ = i" "occ' = f occ"
  using assms unfolding touch_def by (auto elim!: in_set_mapE split: if_splits)

lemma history_touch:
  assumes ok: "history_ok db" and f: "\<And>occ. oc_ID (f occ) = oc_ID occ"
    and ev: "\<forall>(i, e) \<in> set ev. i \<in> oc_ID ` set (ad_occurrences db)"
    and tr: "\<forall>t \<in> set ts. tn_Occurrence t = i" and i: "i \<in> oc_ID ` set (ad_occurrences db)"
    and rec: "\<And>occ. occ \<in> set (ad_occurrences db) \<Longrightarrow> oc_ID occ = i \<Longrightarrow>
      recorded (db\<lparr>ad_transitions := ad_transitions db @ ts\<rparr>) (f occ)"
  shows "history_ok (db\<lparr>ad_occurrences := touch i f (ad_occurrences db), ad_evidence := ev,
    ad_transitions := ad_transitions db @ ts\<rparr>)"
proof -
  let ?db = "db\<lparr>ad_occurrences := touch i f (ad_occurrences db), ad_evidence := ev,
    ad_transitions := ad_transitions db @ ts\<rparr>"
  have ids: "map oc_ID (touch i f (ad_occurrences db)) = map oc_ID (ad_occurrences db)" using f by simp
  then have img: "oc_ID ` set (touch i f (ad_occurrences db)) = oc_ID ` set (ad_occurrences db)" by (metis image_set)
  have "0 < oc_ID occ" if "occ \<in> set (touch i f (ad_occurrences db))" for occ
  proof -
    have "oc_ID occ \<in> oc_ID ` set (ad_occurrences db)" using that img by blast
    then show ?thesis using ok by (auto simp: history_ok_def alert_ok_def)
  qed
  then have "alert_ok ?db"
    using ok ev ids img unfolding alert_ok_def history_ok_def by simp
  moreover have "recorded ?db occ'" if "occ' \<in> set (touch i f (ad_occurrences db))" for occ'
    using that
  proof (rule touch_set)
    fix occ assume "occ \<in> set (ad_occurrences db)" "oc_ID occ \<noteq> i" "occ' = occ"
    moreover from this have "filter (\<lambda>t. tn_Occurrence t = oc_ID occ) ts = []"
      using tr by (auto simp: filter_empty_conv)
    then have "history ?db (oc_ID occ) = history db (oc_ID occ)" by (simp add: history_def)
    ultimately show ?thesis using ok recorded_cong [of ?db occ db] by (simp add: history_ok_def list_all_iff)
  next
    fix occ assume "occ \<in> set (ad_occurrences db)" "oc_ID occ = i" "occ' = f occ"
    with rec [of occ] recorded_cong [OF history_eq, of ?db "db\<lparr>ad_transitions := ad_transitions db @ ts\<rparr>" "f occ"]
    show ?thesis by simp
  qed
  ultimately show ?thesis using ok tr i img by (auto simp: history_ok_def list_all_iff)
qed

lemma evaluate_history:
  assumes ok: "history_ok db" and "EvaluateAlert db rule fct nextID = Inr (db', r)"
  shows "history_ok db'"
proof -
  have a: "alert_ok db" using ok by (simp add: history_ok_def)
  show ?thesis
  proof (rule EvaluateAlert_cases [OF assms(2) a])
    assume "db' = db" with ok show ?thesis by simp
  next
    fix occ ev
    assume s: "occ \<in> set (ad_occurrences db)" "\<forall>(i, e) \<in> set ev. i \<in> oc_ID ` set (ad_occurrences db)"
      "db' = db\<lparr>ad_occurrences := touch (oc_ID occ) (suppress_row fct occ) (ad_occurrences db), ad_evidence := ev\<rparr>"
    have "recorded db occ" using ok s(1) by (simp add: history_ok_def list_all_iff)
    then have "recorded (db\<lparr>ad_transitions := ad_transitions db @ []\<rparr>) (suppress_row fct occ occ)"
      by (fastforce simp: recorded_def history_def suppress_row_def sorted_wrt_append)
    then have "history_ok (db\<lparr>ad_occurrences := touch (oc_ID occ) (suppress_row fct occ) (ad_occurrences db),
        ad_evidence := ev, ad_transitions := ad_transitions db @ []\<rparr>)"
      using s same_id [OF a _ s(1)] by (intro history_touch [OF ok]) (auto simp: suppress_row_def)
    with s(3) show ?thesis by simp
  next
    fix occ ev ws
    assume o: "occ = occurrence_row ((new_occurrence rule fct)\<lparr>oc_ID := the nextID\<rparr>)"
      and id: "oc_ID occ > 0" "oc_ID occ \<notin> oc_ID ` set (ad_occurrences db)"
      and db': "db' = db\<lparr>ad_occurrences := ad_occurrences db @ [occ], ad_evidence := ev\<rparr>"
      and e: "\<forall>(i, e) \<in> set ev. i \<in> insert (oc_ID occ) (oc_ID ` set (ad_occurrences db))"
    have "tn_Occurrence t \<noteq> oc_ID occ" if "t \<in> set (ad_transitions db)" for t
      using ok id(2) that unfolding history_ok_def by metis
    then have "history db (oc_ID occ) = []" by (simp add: history_def filter_empty_conv)
    then have "recorded db occ" by (simp add: recorded_def o occurrence_row_def new_occurrence_def)
    moreover have "alert_ok db'" using a id e by (auto simp: alert_ok_def db')
    ultimately show ?thesis
      using ok recorded_cong [OF history_eq, of db' db] by (auto simp: history_ok_def db' list_all_iff)
  qed
qed

lemma transition_history:
  assumes ok: "history_ok db" and "TransitionAlert db p i to reason v now = Inr (db', upd)"
  shows "history_ok db'"
proof (rule TransitionAlert_effect [OF assms(2)])
  fix cur :: Occurrence
  let ?t = "\<lparr>tn_Occurrence = i, tn_Revision = v + 1, tn_From = oc_State cur,
         tn_To = to, tn_Reason = trim_space reason, tn_Actor = pr_ActorID p, tn_CreatedAt = pg_time now\<rparr>"
  assume c: "cur \<in> set (ad_occurrences db)" "oc_ID cur = i" "oc_Revision cur = v" "allowedTransition (oc_State cur) to"
    and db': "db' = db\<lparr>ad_occurrences := touch i (transition_row p to reason v) (ad_occurrences db),
       ad_transitions := ad_transitions db @ [?t]\<rparr>"
  have a: "alert_ok db" and r: "recorded db cur" using ok c(1) by (auto simp: history_ok_def list_all_iff)
  have "chain StateOpen (history db i @ [?t]) to"
    using chain_snoc [of StateOpen "history db i" "oc_State cur" ?t] r c by (simp add: recorded_def)
  with r c have rec: "recorded (db\<lparr>ad_transitions := ad_transitions db @ [?t]\<rparr>) (transition_row p to reason v cur)"
    by (auto simp: recorded_def history_def transition_row_def sorted_wrt_append)
  have "history_ok (db\<lparr>ad_occurrences := touch i (transition_row p to reason v) (ad_occurrences db),
       ad_evidence := ad_evidence db, ad_transitions := ad_transitions db @ [?t]\<rparr>)"
  proof (rule history_touch [OF ok])
    show "oc_ID (transition_row p to reason v occ) = oc_ID occ" for occ by (simp add: transition_row_def)
    show "\<forall>(i, e) \<in> set (ad_evidence db). i \<in> oc_ID ` set (ad_occurrences db)" using a by (simp add: alert_ok_def)
    show "i \<in> oc_ID ` set (ad_occurrences db)" using c(1,2) by blast
    fix occ assume "occ \<in> set (ad_occurrences db)" "oc_ID occ = i"
    then have "occ = cur" using same_id [OF a _ c(1)] c(2) by simp
    with rec show "recorded (db\<lparr>ad_transitions := ad_transitions db @ [?t]\<rparr>) (transition_row p to reason v occ)" by simp
  qed simp
  with db' show ?thesis by simp
qed

lemma history_ok_cong:
  "ad_occurrences db' = ad_occurrences db \<Longrightarrow> ad_evidence db' = ad_evidence db \<Longrightarrow> ad_transitions db' = ad_transitions db \<Longrightarrow>
   history_ok db' = history_ok db"
  by (auto simp: history_ok_def alert_ok_def list_all_iff recorded_cong [OF history_eq, of db' db])

interpretation alert_history: preserving alert_step history_ok
proof
  fix db db' a assume ok: "history_ok db" and st: "alert_step a db = Inr db'"
  show "history_ok db'"
  proof (cases a)
    case (CreateRuleOp p val now i)
    with st obtain r where "CreateAlertRule db p val now i = Inr (db', r)" by (auto simp: map_sum_Inr_iff)
    from rule_ops_effect(1) [OF this] have "history_ok db' = history_ok db" by (intro history_ok_cong) auto
    with ok show ?thesis by simp
  next
    case (UpdateRuleOp p val v)
    with st obtain r where "UpdateAlertRule db p val v = Inr (db', r)" by (auto simp: map_sum_Inr_iff)
    from rule_ops_effect(2) [OF this] have "history_ok db' = history_ok db" by (intro history_ok_cong) auto
    with ok show ?thesis by simp
  next
    case (EvaluateOp rule fct i)
    with st ok show ?thesis by (auto simp: map_sum_Inr_iff intro: evaluate_history)
  next
    case (MarkReadOp p i t)
    with st MarkAlertRead_effect [of db p i t db'] have "history_ok db' = history_ok db" by (intro history_ok_cong) auto
    with ok show ?thesis by simp
  next
    case (TransitionOp p i to reason v now)
    with st ok show ?thesis by (auto simp: map_sum_Inr_iff intro: transition_history)
  qed
qed

definition no_alerts :: "alert_db \<Rightarrow> bool" where
  "no_alerts db \<longleftrightarrow> ad_occurrences db = [] \<and> ad_evidence db = [] \<and> ad_transitions db = []"

lemma no_alerts_history: "no_alerts db \<Longrightarrow> history_ok db"
  by (simp add: no_alerts_def history_ok_def alert_ok_def)

text \<open>
  C21: The history of every alert explains its state. Starting with no alerts, after any sequence of
  rule changes, evaluations, reads and transitions, the transitions recorded for an occurrence form
  a chain of allowed moves from open to its present state, with increasing revisions, and its
  revision is one plus its suppressions plus its transitions: no change is lost or unrecorded.
\<close>

theorem alert_history_faithful:
  assumes "no_alerts db"
  shows "list_all (recorded (run_ops alert_step db ops)) (ad_occurrences (run_ops alert_step db ops)) \<and>
    distinct (map oc_ID (ad_occurrences (run_ops alert_step db ops)))"
  using alert_history.run_well_formed [OF no_alerts_history [OF assms], of ops]
  by (simp add: history_ok_def alert_ok_def)

text \<open>A workspace with one project and one rule, in which an alert is raised and then acknowledged.\<close>

definition sample_alert_rule :: alert_Rule where
  "sample_alert_rule = \<lparr>ru_ID = 3, ru_Version = 1, ru_Name = ''few releases'', ru_Signal = ''metric.release_frequency'',
     ru_Operator = AlertLessThan, ru_Threshold = Fin 2, ru_Scope = ''workspace'', ru_ProjectID = 0,
     ru_Severity = SeverityWarning, ru_Cooldown = 0, ru_Deduplication = 60 * second, ru_Enabled = True,
     ru_CreatedBy = 9, ru_UpdatedAt = Time 1000 UTC\<rparr>"

definition sample_alert_fact :: alert_Fact where
  "sample_alert_fact = \<lparr>ft_ProjectID = 7, ft_Signal = ''metric.release_frequency'', ft_Version = ''v1'',
     ft_Value = Some (Fin 1), ft_EvidenceID = 11, ft_WindowFrom = Time 1000 UTC, ft_WindowTo = Time 90000 UTC,
     ft_DetectedAt = Time 100000 UTC, ft_Complete = True, ft_Archived = False\<rparr>"

definition sample_alert_db :: alert_db where
  "sample_alert_db = \<lparr>ad_workspaces = [1], ad_projects = [\<lparr>ap_ID = 7, ap_Workspace = 1, ap_State = ''active''\<rparr>],
     ad_rules = [(1, sample_alert_rule)], ad_occurrences = [], ad_evidence = [], ad_member_state = [],
     ad_transitions = []\<rparr>"

definition sample_analyst :: Principal where
  "sample_analyst = \<lparr>pr_ActorID = 9, pr_Kind = ActorMember, pr_Role = RoleAnalyst, pr_Status = StatusActive,
     pr_Scopes = [], pr_Version = 1, pr_Workspace = 1\<rparr>"

definition sample_alert_ops :: "alert_op list" where
  "sample_alert_ops = [EvaluateOp sample_alert_rule sample_alert_fact (Some 50),
     TransitionOp sample_analyst 50 StateAcknowledged ''seen'' 1 (Time 200000 UTC)]"

lemma sample_alert_run:
  "map (\<lambda>occ. (oc_ID occ, oc_State occ)) (ad_occurrences (run_ops alert_step sample_alert_db sample_alert_ops)) =
     [(50, StateAcknowledged)]"
  by code_simp

theorem alert_history_faithful_witness:
  "list_all (recorded (run_ops alert_step sample_alert_db sample_alert_ops))
     (ad_occurrences (run_ops alert_step sample_alert_db sample_alert_ops)) \<and>
   map (\<lambda>occ. (oc_ID occ, oc_State occ)) (ad_occurrences (run_ops alert_step sample_alert_db sample_alert_ops)) =
     [(50, StateAcknowledged)]"
  using alert_history_faithful [of sample_alert_db sample_alert_ops] sample_alert_run
  by (simp add: no_alerts_def sample_alert_db_def)

section \<open>Deduplication\<close>

text \<open>What deduplication looks at: the identifier, the rule with its version, the project and the first detection.\<close>

definition slot :: "Occurrence \<Rightarrow> int64 \<times> (int64 \<times> int64 \<times> int64) \<times> int" where
  "slot occ = (oc_ID occ, (oc_RuleID occ, oc_RuleVersion occ, oc_ProjectID occ), nanos (oc_FirstDetectedAt occ))"

lemma slot_touch:
  "(\<And>occ. slot (f occ) = slot occ) \<Longrightarrow> map slot (touch i f xs) = map slot xs"
  by (simp add: touch_def)

definition far_apart :: "(int64 \<times> int64 \<Rightarrow> duration) \<Rightarrow> Occurrence \<Rightarrow> Occurrence \<Rightarrow> bool" where
  "far_apart window a b \<longleftrightarrow>
     oc_ID a = oc_ID b \<or> (oc_RuleID a, oc_RuleVersion a, oc_ProjectID a) \<noteq> (oc_RuleID b, oc_RuleVersion b, oc_ProjectID b) \<or>
     window (oc_RuleID a, oc_RuleVersion a) < \<bar>nanos (oc_FirstDetectedAt a) - nanos (oc_FirstDetectedAt b)\<bar>"

definition slots_ok :: "(int64 \<times> int64 \<Rightarrow> duration) \<Rightarrow> (int64 \<times> (int64 \<times> int64 \<times> int64) \<times> int) list \<Rightarrow> bool" where
  "slots_ok window xs \<longleftrightarrow> (\<forall>(i, (r, v, p), t) \<in> set xs. t mod 1000 = 0 \<and>
     (\<forall>(j, k, u) \<in> set xs. i = j \<or> (r, v, p) \<noteq> k \<or> window (r, v) < \<bar>t - u\<bar>))"

text \<open>A history in which every evaluation passes the deduplication window that belongs to the rule version.\<close>

fun consistent :: "(int64 \<times> int64 \<Rightarrow> duration) \<Rightarrow> alert_op \<Rightarrow> bool" where
  "consistent window (EvaluateOp rule fct i) = (ru_Deduplication rule = window (ru_ID rule, ru_Version rule))"
| "consistent window _ = True"

definition consistent_step :: "(int64 \<times> int64 \<Rightarrow> duration) \<Rightarrow> alert_op \<Rightarrow> alert_db \<Rightarrow> alert_error + alert_db" where
  "consistent_step window a db = (if consistent window a then alert_step a db else Inl AlertErrInvalid)"

lemma slots_ok_snoc:
  assumes "slots_ok window xs" "t mod 1000 = 0"
    and "\<And>j u. (j, (r, v, p), u) \<in> set xs \<Longrightarrow> window (r, v) < t - u"
  shows "slots_ok window (xs @ [(i, (r, v, p), t)])"
  using assms by (fastforce simp: slots_ok_def abs_if)

lemma micros_gap:
  fixes x n d :: int
  assumes "x < (n - d) div 1000 * 1000" "x mod 1000 = 0"
  shows "d < n div 1000 * 1000 - x"
proof -
  define k a b where "k = x div 1000" and "a = (n - d) div 1000" and "b = n div 1000"
  have x: "x = k * 1000" using assms(2) div_mult_mod_eq [of x 1000] by (simp add: k_def)
  have a: "a * 1000 \<le> n - d"
    using div_mult_mod_eq [of "n - d" 1000] pos_mod_sign [of 1000 "n - d"] unfolding a_def by simp
  have b: "n < b * 1000 + 1000"
    using div_mult_mod_eq [of n 1000] pos_mod_bound [of 1000 n] unfolding b_def by simp
  have "k < a" using assms(1) unfolding x a_def by simp
  then have "k * 1000 + 1000 \<le> a * 1000" by simp
  with a b show ?thesis unfolding x b_def [symmetric] by linarith
qed

lemma candidates_before:
  assumes "dedup_candidates db rule fct = []" "occ \<in> set (ad_occurrences db)"
    and "(oc_RuleID occ, oc_RuleVersion occ, oc_ProjectID occ) = (ru_ID rule, ru_Version rule, ft_ProjectID fct)"
    and "nanos (oc_FirstDetectedAt occ) mod 1000 = 0"
  shows "ru_Deduplication rule < nanos (pg_time (ft_DetectedAt fct)) - nanos (oc_FirstDetectedAt occ)"
proof -
  have "nanos (oc_FirstDetectedAt occ) < (nanos (ft_DetectedAt fct) - ru_Deduplication rule) div 1000 * 1000"
    using assms(1-3) by (auto simp: dedup_candidates_def filter_empty_conv before_def pg_time_def time_add_def)
  with assms(4) show ?thesis unfolding pg_time_def gotime.sel by (rule micros_gap [rotated])
qed

lemma evaluate_slots:
  assumes ok: "history_ok db" "slots_ok window (map slot (ad_occurrences db))"
    and w: "ru_Deduplication rule = window (ru_ID rule, ru_Version rule)"
    and "EvaluateAlert db rule fct nextID = Inr (db', r)"
  shows "slots_ok window (map slot (ad_occurrences db'))"
proof -
  have a: "alert_ok db" using ok(1) by (simp add: history_ok_def)
  show ?thesis
  proof (rule EvaluateAlert_cases [OF assms(4) a])
    assume "db' = db" with ok show ?thesis by simp
  next
    fix occ ev
    assume "db' = db\<lparr>ad_occurrences := touch (oc_ID occ) (suppress_row fct occ) (ad_occurrences db), ad_evidence := ev\<rparr>"
    moreover have "slot (suppress_row fct occ x) = slot x" for x by (simp add: slot_def suppress_row_def)
    ultimately show ?thesis using ok(2) by (simp add: slot_touch)
  next
    fix occ ev ws
    assume c: "dedup_candidates db rule fct = []"
      and o: "occ = occurrence_row ((new_occurrence rule fct)\<lparr>oc_ID := the nextID\<rparr>)"
      and db': "db' = db\<lparr>ad_occurrences := ad_occurrences db @ [occ], ad_evidence := ev\<rparr>"
    have s: "slot occ = (oc_ID occ, (ru_ID rule, ru_Version rule, ft_ProjectID fct), nanos (pg_time (ft_DetectedAt fct)))"
      by (simp add: o slot_def occurrence_row_def new_occurrence_def)
    have "slots_ok window (map slot (ad_occurrences db) @ [slot occ])"
      unfolding s
    proof (rule slots_ok_snoc [OF ok(2)])
      show "nanos (pg_time (ft_DetectedAt fct)) mod 1000 = 0" by (simp add: pg_time_def)
      fix j u assume "(j, (ru_ID rule, ru_Version rule, ft_ProjectID fct), u) \<in> set (map slot (ad_occurrences db))"
      then obtain q where q: "q \<in> set (ad_occurrences db)"
          "slot q = (j, (ru_ID rule, ru_Version rule, ft_ProjectID fct), u)" by (auto elim: in_set_mapE)
      then have "u mod 1000 = 0" using ok(2) by (force simp: slots_ok_def image_iff)
      with q candidates_before [OF c q(1)] w
      show "window (ru_ID rule, ru_Version rule) < nanos (pg_time (ft_DetectedAt fct)) - u" by (simp add: slot_def)
    qed
    then show ?thesis by (simp add: db')
  qed
qed

interpretation alert_dedup: preserving "consistent_step window"
  "\<lambda>db. history_ok db \<and> slots_ok window (map slot (ad_occurrences db))" for window
proof
  fix db db' a
  assume ok: "history_ok db \<and> slots_ok window (map slot (ad_occurrences db))" and st: "consistent_step window a db = Inr db'"
  then have st': "alert_step a db = Inr db'" and con: "consistent window a"
    by (auto simp: consistent_step_def split: if_splits)
  have "slots_ok window (map slot (ad_occurrences db'))"
  proof (cases a)
    case (CreateRuleOp p val now i)
    with st' obtain r where "CreateAlertRule db p val now i = Inr (db', r)" by (auto simp: map_sum_Inr_iff)
    from rule_ops_effect(1) [OF this] ok show ?thesis by simp
  next
    case (UpdateRuleOp p val v)
    with st' obtain r where "UpdateAlertRule db p val v = Inr (db', r)" by (auto simp: map_sum_Inr_iff)
    from rule_ops_effect(2) [OF this] ok show ?thesis by simp
  next
    case (EvaluateOp rule fct i)
    with st' con ok show ?thesis by (auto simp: map_sum_Inr_iff intro: evaluate_slots)
  next
    case (MarkReadOp p i t)
    with st' MarkAlertRead_effect [of db p i t db'] ok show ?thesis by auto
  next
    case (TransitionOp p i to reason v now)
    with st' obtain u where "TransitionAlert db p i to reason v now = Inr (db', u)" by (auto simp: map_sum_Inr_iff)
    then show ?thesis
    proof (rule TransitionAlert_effect)
      fix cur :: Occurrence
      assume "db' = db\<lparr>ad_occurrences := touch i (transition_row p to reason v) (ad_occurrences db),
        ad_transitions := ad_transitions db @ [\<lparr>tn_Occurrence = i, tn_Revision = v + 1, tn_From = oc_State cur,
         tn_To = to, tn_Reason = trim_space reason, tn_Actor = pr_ActorID p, tn_CreatedAt = pg_time now\<rparr>]\<rparr>"
      moreover have "slot (transition_row p to reason v x) = slot x" for x by (simp add: slot_def transition_row_def)
      ultimately show ?thesis using ok by (simp add: slot_touch)
    qed
  qed
  with ok st' show "history_ok db' \<and> slots_ok window (map slot (ad_occurrences db'))"
    using alert_history.op_well_formed by blast
qed

text \<open>
  Deduplication holds over any history. When every evaluation of a rule version uses that
  version's window, two different occurrences of the same rule version and project were first
  detected more than the window apart, whatever evaluations, transitions and rule changes happened.
\<close>

theorem alert_dedup_spacing:
  assumes "no_alerts db" and "list_all (consistent window) ops"
    and "a \<in> set (ad_occurrences (run_ops alert_step db ops))" "b \<in> set (ad_occurrences (run_ops alert_step db ops))"
  shows "far_apart window a b"
proof -
  have eq: "run_ops alert_step db ops = run_ops (consistent_step window) db ops"
    by (rule run_ops_cong) (use assms(2) in \<open>auto simp: consistent_step_def list_all_iff fun_eq_iff\<close>)
  have "history_ok db \<and> slots_ok window (map slot (ad_occurrences db))"
    using assms(1) no_alerts_history by (simp add: no_alerts_def slots_ok_def)
  from alert_dedup.run_well_formed [OF this, of ops]
  have "slots_ok window (map slot (ad_occurrences (run_ops alert_step db ops)))" by (simp add: eq)
  with assms(3,4) have "case slot a of (i, (r, v, p), t) \<Rightarrow> case slot b of (j, k, u) \<Rightarrow>
      i = j \<or> (r, v, p) \<noteq> k \<or> window (r, v) < \<bar>t - u\<bar>"
    unfolding slots_ok_def by (fastforce simp: image_iff)
  then show ?thesis by (simp add: slot_def far_apart_def)
qed

text \<open>A later fact, outside the window: it raises a second occurrence.\<close>

definition later_fact :: alert_Fact where
  "later_fact = sample_alert_fact\<lparr>ft_DetectedAt := Time 90000000000 UTC\<rparr>"

definition two_alert_ops :: "alert_op list" where
  "two_alert_ops = [EvaluateOp sample_alert_rule sample_alert_fact (Some 50), EvaluateOp sample_alert_rule later_fact (Some 51)]"

theorem alert_dedup_spacing_witness:
  "\<exists>a b. oc_ID a = 50 \<and> oc_ID b = 51 \<and> far_apart (\<lambda>_. 60 * second) a (b :: Occurrence)"
proof -
  let ?db = "run_ops alert_step sample_alert_db two_alert_ops"
  have "map oc_ID (ad_occurrences ?db) = [50, 51]" by code_simp
  then obtain a b where "ad_occurrences ?db = [a, b]" "oc_ID a = 50" "oc_ID b = 51" by auto
  moreover have "list_all (consistent (\<lambda>_. 60 * second)) two_alert_ops"
    by (simp add: two_alert_ops_def sample_alert_rule_def)
  moreover have "no_alerts sample_alert_db" by (simp add: no_alerts_def sample_alert_db_def)
  ultimately show ?thesis
    using alert_dedup_spacing [of sample_alert_db "\<lambda>_. 60 * second" two_alert_ops a b] by auto
qed

section \<open>Quotas, and what evaluation ignores\<close>

definition within_quota :: "alert_db \<Rightarrow> bool" where
  "within_quota db \<longleftrightarrow> (\<forall>ws. fst (alertWorkspaceVolume db ws) \<le> li_Rules DefaultLimits \<and>
     snd (alertWorkspaceVolume db ws) \<le> li_Occurrences DefaultLimits)"

lemma volume_counts:
  "fst (alertWorkspaceVolume db ws) = int (card ((\<lambda>(_, r). ru_ID r) ` set (filter (\<lambda>(w, _). w = ws) (ad_rules db))))"
  by (simp add: alertWorkspaceVolume_def length_remdups_card_conv)

lemma in_workspace_cong: "ad_projects db' = ad_projects db \<Longrightarrow> in_workspace db' = in_workspace db"
  by (simp add: in_workspace_def project_row_def fun_eq_iff)

lemma volume_cong:
  assumes "ad_projects db' = ad_projects db" "ad_rules db' = ad_rules db"
    and "map oc_ProjectID (ad_occurrences db') = map oc_ProjectID (ad_occurrences db)"
  shows "alertWorkspaceVolume db' ws = alertWorkspaceVolume db ws"
proof -
  have "length (filter (P \<circ> oc_ProjectID) (ad_occurrences db')) = length (filter (P \<circ> oc_ProjectID) (ad_occurrences db))" for P
    using assms(3) by (metis filter_map length_map)
  from this [of "in_workspace db ws"] assms(1,2) in_workspace_cong [OF assms(1)]
  show ?thesis by (simp add: alertWorkspaceVolume_def comp_def)
qed

lemma touch_projects: "(\<And>occ. oc_ProjectID (f occ) = oc_ProjectID occ) \<Longrightarrow> map oc_ProjectID (touch i f xs) = map oc_ProjectID xs"
  by (simp add: touch_def)

lemma rule_volume_snoc:
  assumes "db' = db\<lparr>ad_rules := ad_rules db @ [(w, r)]\<rparr>"
  shows "snd (alertWorkspaceVolume db' ws) = snd (alertWorkspaceVolume db ws)"
    and "fst (alertWorkspaceVolume db' ws) \<le> fst (alertWorkspaceVolume db ws) + (if w = ws then 1 else 0)"
    and "ru_ID r \<in> (\<lambda>(_, q). ru_ID q) ` set (filter (\<lambda>(v, _). v = w) (ad_rules db)) \<Longrightarrow>
      fst (alertWorkspaceVolume db' ws) = fst (alertWorkspaceVolume db ws)"
proof -
  have p: "in_workspace db' = in_workspace db" using assms by (intro in_workspace_cong) simp
  show "snd (alertWorkspaceVolume db' ws) = snd (alertWorkspaceVolume db ws)"
    using assms p by (simp add: alertWorkspaceVolume_def)
  let ?S = "\<lambda>d v. (\<lambda>(_, q). ru_ID q) ` set (filter (\<lambda>(u, _). u = v) (ad_rules d))"
  have S: "?S db' ws = (if w = ws then insert (ru_ID r) (?S db ws) else ?S db ws)"
    using assms by auto
  have "card (insert x A) \<le> card A + 1" if "finite A" for x :: int and A
    using that by (simp add: card_insert_if)
  from this [of "?S db ws" "ru_ID r"]
  show "fst (alertWorkspaceVolume db' ws) \<le> fst (alertWorkspaceVolume db ws) + (if w = ws then 1 else 0)"
    unfolding volume_counts S by simp
  show "fst (alertWorkspaceVolume db' ws) = fst (alertWorkspaceVolume db ws)" if "ru_ID r \<in> ?S db w"
  proof (cases "w = ws")
    case True
    with that have "insert (ru_ID r) (?S db ws) = ?S db ws" by (intro insert_absorb) simp
    with True show ?thesis unfolding volume_counts S if_P [OF True] by (simp only:)
  next
    case False
    show ?thesis unfolding volume_counts S if_not_P [OF False] ..
  qed
qed

lemma evaluate_quota:
  assumes a: "alert_ok db" and q: "within_quota db" and "EvaluateAlert db rule fct nextID = Inr (db', r)"
  shows "within_quota db'"
proof (rule EvaluateAlert_cases [OF assms(3) a])
  assume "db' = db" with q show ?thesis by simp
next
  fix occ ev
  assume "db' = db\<lparr>ad_occurrences := touch (oc_ID occ) (suppress_row fct occ) (ad_occurrences db), ad_evidence := ev\<rparr>"
  then have "alertWorkspaceVolume db' ws = alertWorkspaceVolume db ws" for ws
    by (intro volume_cong) (auto simp: touch_projects suppress_row_def)
  with q show ?thesis by (simp add: within_quota_def)
next
  fix occ ev ws
  assume o: "occ = occurrence_row ((new_occurrence rule fct)\<lparr>oc_ID := the nextID\<rparr>)"
    and ws: "resolve_workspace db rule fct = Some ws"
    and v: "ValidateVolume DefaultLimits (fst (alertWorkspaceVolume db ws)) (snd (alertWorkspaceVolume db ws) + 1) = None"
    and db': "db' = db\<lparr>ad_occurrences := ad_occurrences db @ [occ], ad_evidence := ev\<rparr>"
  have p: "in_workspace db' = in_workspace db" by (rule in_workspace_cong) (simp add: db')
  have "in_workspace db ws' (oc_ProjectID occ) \<longleftrightarrow> ws' = ws" for ws'
    using ws by (auto simp: resolve_workspace_def in_workspace_def o occurrence_row_def new_occurrence_def
        split: option.splits if_splits)
  then have "fst (alertWorkspaceVolume db' ws') = fst (alertWorkspaceVolume db ws')"
    "snd (alertWorkspaceVolume db' ws') = snd (alertWorkspaceVolume db ws') + (if ws' = ws then 1 else 0)" for ws'
    by (simp_all add: alertWorkspaceVolume_def p) (simp_all add: db')
  with q v show ?thesis by (auto simp: within_quota_def ValidateVolume_def split: if_splits)
qed

interpretation alert_quota: preserving alert_step "\<lambda>db. history_ok db \<and> within_quota db"
proof
  fix db db' a assume ok: "history_ok db \<and> within_quota db" and st: "alert_step a db = Inr db'"
  have "within_quota db'"
  proof (cases a)
    case (CreateRuleOp p val now i)
    with st obtain r where c: "CreateAlertRule db p val now i = Inr (db', r)" by (auto simp: map_sum_Inr_iff)
    note e = rule_ops_effect(1) [OF c]
    note v = rule_volume_snoc(1,2) [OF conjunct1 [OF e]]
    have "fst (alertWorkspaceVolume db ws) + (if pr_Workspace p = ws then 1 else 0) \<le> li_Rules DefaultLimits" for ws
      using conjunct2 [OF e] ok by (auto simp: within_quota_def ValidateVolume_def split: if_splits)
    then show ?thesis using v ok unfolding within_quota_def by (metis order_trans)
  next
    case (UpdateRuleOp p val v)
    with st obtain r where u: "UpdateAlertRule db p val v = Inr (db', r)" by (auto simp: map_sum_Inr_iff)
    have "ru_ID (stored_rule r) = ru_ID r" by (simp add: stored_rule_def)
    with rule_ops_effect(2) [OF u] rule_volume_snoc(1,3) [of db' db "pr_Workspace p" "stored_rule r"] ok
    show ?thesis by (simp add: within_quota_def)
  next
    case (EvaluateOp rule fct i)
    with st ok show ?thesis by (auto simp: map_sum_Inr_iff history_ok_def intro: evaluate_quota)
  next
    case (MarkReadOp p i t)
    with st have "MarkAlertRead db p i t = Inr db'" by simp
    then obtain ms where "db' = db\<lparr>ad_member_state := ms\<rparr>" using MarkAlertRead_effect by blast
    then have "alertWorkspaceVolume db' ws = alertWorkspaceVolume db ws" for ws by (intro volume_cong) auto
    with ok show ?thesis by (simp add: within_quota_def)
  next
    case (TransitionOp p i to reason v now)
    with st obtain u where "TransitionAlert db p i to reason v now = Inr (db', u)" by (auto simp: map_sum_Inr_iff)
    then have "alertWorkspaceVolume db' ws = alertWorkspaceVolume db ws" for ws
      by (rule TransitionAlert_effect) (auto intro!: volume_cong simp: touch_projects transition_row_def)
    with ok show ?thesis by (simp add: within_quota_def)
  qed
  with ok st show "history_ok db' \<and> within_quota db'" using alert_history.op_well_formed by blast
qed

text \<open>
  The workspace quotas hold over any history: from a database without alerts whose workspaces
  have at most 500 rules, no sequence of operations gives a workspace more than 500 rules or more
  than 10,000 occurrences, counted by the queries the code uses.
\<close>

theorem alert_quota_respected:
  assumes "no_alerts db" and "\<forall>ws. fst (alertWorkspaceVolume db ws) \<le> 500"
  shows "fst (alertWorkspaceVolume (run_ops alert_step db ops) ws) \<le> 500 \<and>
    snd (alertWorkspaceVolume (run_ops alert_step db ops) ws) \<le> 10000"
proof -
  have "within_quota db" using assms by (simp add: within_quota_def DefaultLimits_def alertWorkspaceVolume_def no_alerts_def)
  then have "within_quota (run_ops alert_step db ops)"
    using alert_quota.run_well_formed [of db ops] no_alerts_history [OF assms(1)] by blast
  then show ?thesis by (simp add: within_quota_def DefaultLimits_def)
qed

theorem alert_quota_respected_witness:
  "snd (alertWorkspaceVolume (run_ops alert_step sample_alert_db sample_alert_ops) 1) \<le> 10000"
proof -
  have "\<forall>ws. fst (alertWorkspaceVolume sample_alert_db ws) \<le> 500"
    by (simp add: sample_alert_db_def alertWorkspaceVolume_def)
  then show ?thesis
    using alert_quota_respected [of sample_alert_db sample_alert_ops 1] by (simp add: no_alerts_def sample_alert_db_def)
qed

text \<open>
  The cooldown of a rule has no effect: two rules that differ only in a non-negative cooldown
  evaluate every fact alike, so evidence inside the cooldown raises a new occurrence as soon as the
  deduplication window has passed.
\<close>

theorem cooldown_has_no_effect:
  assumes "0 \<le> ru_Cooldown rule" and "0 \<le> c"
  shows "EvaluateAlert db (rule\<lparr>ru_Cooldown := c\<rparr>) fct nextID = EvaluateAlert db rule fct nextID"
proof -
  let ?r = "rule\<lparr>ru_Cooldown := c\<rparr>"
  have "alert_rule_Validate ?r = alert_rule_Validate rule" using assms by (auto simp: alert_rule_Validate_def)
  moreover have "dedup_candidates db ?r fct = dedup_candidates db rule fct" by (simp add: dedup_candidates_def)
  moreover have "duplicate_of ?r fct = duplicate_of rule fct" by (simp add: duplicate_of_def fun_eq_iff)
  moreover have "new_occurrence ?r fct = new_occurrence rule fct" "triggers ?r fct = triggers rule fct"
    by (simp_all add: new_occurrence_def triggers_def split: option.split)
  ultimately have "alert_Evaluate ?r fct = alert_Evaluate rule fct"
      "loadDedupOccurrence db ?r fct = loadDedupOccurrence db rule fct" "resolve_workspace db ?r fct = resolve_workspace db rule fct"
    by (simp_all add: alert_Evaluate_def loadDedupOccurrence_def resolve_workspace_def fun_eq_iff cong: option.case_cong if_cong)
  then show ?thesis using \<open>alert_rule_Validate ?r = _\<close> by (simp add: EvaluateAlert_def)
qed

theorem cooldown_has_no_effect_witness:
  "EvaluateAlert sample_alert_db (sample_alert_rule\<lparr>ru_Cooldown := 365 * 24 * hour\<rparr>) sample_alert_fact (Some 50) =
   EvaluateAlert sample_alert_db sample_alert_rule sample_alert_fact (Some 50)"
  by (rule cooldown_has_no_effect) (simp_all add: sample_alert_rule_def hour_def)

text \<open>A rule with project scope raises alerts for facts of other projects of its workspace.\<close>

lemma project_scope_ignored:
  "\<exists>rule fct db' occ. ru_Scope rule = ''project'' \<and> ru_ProjectID rule = 8 \<and> ft_ProjectID fct = 7 \<and>
    EvaluateAlert (sample_alert_db\<lparr>ad_rules := [(1, rule)]\<rparr>) rule fct (Some 50) = Inr (db', Some occ) \<and>
    oc_ProjectID occ = 7"
proof -
  let ?r = "sample_alert_rule\<lparr>ru_Scope := ''project'', ru_ProjectID := 8\<rparr>"
  have "(case EvaluateAlert (sample_alert_db\<lparr>ad_rules := [(1, ?r)]\<rparr>) ?r sample_alert_fact (Some 50) of
      Inr (_, Some occ) \<Rightarrow> oc_ProjectID occ = 7 | _ \<Rightarrow> False)" by code_simp
  then obtain db' occ where "EvaluateAlert (sample_alert_db\<lparr>ad_rules := [(1, ?r)]\<rparr>) ?r sample_alert_fact (Some 50) =
      Inr (db', Some occ)" "oc_ProjectID occ = 7" by (auto split: sum.splits prod.splits option.splits)
  then show ?thesis by (intro exI [of _ ?r] exI [of _ sample_alert_fact]) (simp add: sample_alert_fact_def)
qed

end
