(* ===== verification/Policy.thy ===== *)
theory Policy
  imports Metric Access Go_Lifecycle "HOL-Library.AList"
begin

text \<open>
  Package \<open>internal/policy\<close>: typed policy versions, their validation and life cycle, and the evaluation
  of a recommendation from metric facts; and package \<open>internal/radar\<close>, which places a project on a
  ring from a recommendation and an attributed override. Go maps are association lists; a map is
  read with \<open>map_of\<close> and written with \<open>AList.update\<close>.
\<close>

section \<open>Policies\<close>

datatype policy_error = PolicyErrInvalid

datatype Outcome = Recommended | Conditional | NotRecommended | InsufficientData | OutcomeOther string

definition outcome_Valid :: "Outcome \<Rightarrow> bool" where
  "outcome_Valid c \<longleftrightarrow> c = Recommended \<or> c = Conditional \<or> c = NotRecommended \<or> c = InsufficientData"

datatype PolicyState = PolicyDraft | PolicyActive | PolicySuperseded | PolicyRetired | PolicyStateOther string

datatype PolicyOperator = OpGt | OpGte | OpLt | OpLte | OpEq | PolicyOperatorOther string

record policy_Rule =
  po_MetricName :: string
  po_MetricVersion :: string
  po_Operator :: PolicyOperator
  po_Threshold :: f64
  po_Weight :: f64
  po_Required :: bool
  po_RequiredEvidence :: string
  po_OnFailure :: Outcome
  po_Label :: string

record PolicyVersion =
  pv_ID :: int64
  pv_FamilyID :: int64
  pv_Version :: int
  pv_Name :: string
  pv_Description :: string
  pv_Owner :: string
  pv_State :: PolicyState
  pv_Rules :: "policy_Rule list"
  pv_RadarMap :: "(Outcome \<times> string) list"
  pv_CreatedBy :: int64
  pv_CreatedAt :: gotime
  pv_ActivatedAt :: "gotime option"
  pv_RetiredAt :: "gotime option"
  pv_Revision :: int64

definition radarRings :: "string list" where
  "radarRings = [''adopt'', ''trial'', ''assess'', ''hold'', ''unplaced'']"

definition validOperator :: "PolicyOperator \<Rightarrow> bool" where
  "validOperator op \<longleftrightarrow> op = OpGt \<or> op = OpGte \<or> op = OpLt \<or> op = OpLte \<or> op = OpEq"

definition typed_rule :: "policy_Rule \<Rightarrow> bool" where
  "typed_rule r \<longleftrightarrow> \<not> ((case DefinitionByName (po_MetricName r) of
       None \<Rightarrow> True | Some d \<Rightarrow> df_Version d \<noteq> po_MetricVersion r) \<or>
     \<not> validOperator (po_Operator r) \<or> is_nan (po_Threshold r) \<or> is_inf (po_Threshold r) \<or>
     fle (po_Weight r) (Fin 0) \<or> flt (Fin 1) (po_Weight r) \<or>
     (po_OnFailure r \<noteq> Conditional \<and> po_OnFailure r \<noteq> NotRecommended) \<or> trim_space (po_Label r) = '''' \<or>
     po_Required r \<and> trim_space (po_RequiredEvidence r) = '''')"

text \<open>The greatest lower and the smallest upper threshold seen for a metric.\<close>

type_synonym bound_pair = "f64 option \<times> f64 option"

definition raise_bound :: "f64 \<Rightarrow> f64 option \<Rightarrow> f64 option" where
  "raise_bound t b = (case b of None \<Rightarrow> Some t | Some x \<Rightarrow> if flt x t then Some t else Some x)"

definition lower_bound :: "f64 \<Rightarrow> f64 option \<Rightarrow> f64 option" where
  "lower_bound t b = (case b of None \<Rightarrow> Some t | Some x \<Rightarrow> if flt t x then Some t else Some x)"

definition tighten :: "policy_Rule \<Rightarrow> bound_pair \<Rightarrow> bound_pair" where
  "tighten r pair = (case po_Operator r of
       OpGt \<Rightarrow> (raise_bound (po_Threshold r) (fst pair), snd pair)
     | OpGte \<Rightarrow> (raise_bound (po_Threshold r) (fst pair), snd pair)
     | OpLt \<Rightarrow> (fst pair, lower_bound (po_Threshold r) (snd pair))
     | OpLte \<Rightarrow> (fst pair, lower_bound (po_Threshold r) (snd pair))
     | _ \<Rightarrow> pair)"

text \<open>The loop over the rules: the sum of the weights and the bounds per metric.\<close>

fun rules_loop :: "policy_Rule list \<Rightarrow> f64 \<Rightarrow> (string \<times> bound_pair) list \<Rightarrow>
    policy_error + (f64 \<times> (string \<times> bound_pair) list)" where
  "rules_loop [] tot bounds = Inr (tot, bounds)"
| "rules_loop (r # rs) tot bounds =
     (if \<not> typed_rule r then Inl PolicyErrInvalid
      else let pair = (case map_of bounds (po_MetricName r) of None \<Rightarrow> (None, None) | Some p \<Rightarrow> p)
           in rules_loop rs (fadd tot (po_Weight r)) (AList.update (po_MetricName r) (tighten r pair) bounds))"

definition contradictory :: "bound_pair \<Rightarrow> bool" where
  "contradictory pair = (case pair of (Some lo, Some hi) \<Rightarrow> flt hi lo | _ \<Rightarrow> False)"

definition weight_tolerance :: f64 where
  "weight_tolerance = of_rat64 (1 / 1000000000)"

definition policy_Validate :: "PolicyVersion \<Rightarrow> policy_error option" where
  "policy_Validate v =
     (if pv_Version v \<le> 0 \<or> trim_space (pv_Name v) = '''' \<or> trim_space (pv_Owner v) = '''' \<or>
         pv_Rules v = [] \<or> length (pv_Rules v) > 100
      then Some PolicyErrInvalid
      else case rules_loop (pv_Rules v) (Fin 0) [] of
          Inl e \<Rightarrow> Some e
        | Inr (tot, bounds) \<Rightarrow>
            if flt weight_tolerance (fabs (fsub tot (Fin 1))) then Some PolicyErrInvalid
            else if list_ex (\<lambda>(_, pair). contradictory pair) bounds then Some PolicyErrInvalid
            else if list_ex (\<lambda>c. case map_of (pv_RadarMap v) c of None \<Rightarrow> True | Some ring \<Rightarrow> ring \<notin> set radarRings)
                 [Recommended, Conditional, NotRecommended, InsufficientData]
            then Some PolicyErrInvalid
            else None)"

record policy_Fact =
  pf_MetricName :: string
  pf_MetricVersion :: string
  pf_Status :: MetricStatus
  pf_Value :: "f64 option"
  pf_Coverage :: Coverage
  pf_EvidenceIDs :: "int64 list"
  pf_SnapshotID :: int64

record policy_Factor =
  px_RuleIndex :: int
  px_MetricName :: string
  px_Value :: f64
  px_Threshold :: f64
  px_Weight :: f64
  px_Matched :: bool
  px_Label :: string

record Evaluation =
  el_ID :: int64
  el_ProjectID :: int64
  el_PolicyID :: int64
  el_PolicyVersion :: int
  el_PolicyOwner :: string
  el_Window :: MetricWindow
  el_Outcome :: Outcome
  el_Factors :: "policy_Factor list"
  el_EvidenceIDs :: "int64 list"
  el_Missing :: "string list"
  el_Conditions :: "string list"
  el_Decisive :: "string list"
  el_StaleInputs :: "string list"
  el_Explanation :: string
  el_InputDigest :: string
  el_CreatedAt :: gotime

fun policy_compare :: "f64 \<Rightarrow> PolicyOperator \<Rightarrow> f64 \<Rightarrow> bool" where
  "policy_compare val OpGt threshold = flt threshold val"
| "policy_compare val OpGte threshold = fle threshold val"
| "policy_compare val OpLt threshold = flt val threshold"
| "policy_compare val OpLte threshold = fle val threshold"
| "policy_compare val OpEq threshold = feq val threshold"
| "policy_compare val (PolicyOperatorOther _) threshold = False"

text \<open>\<open>byName\<close>: the last fact of a name. A missing fact reads as the zero fact, whose status is not stale.\<close>

definition fact_by_name :: "policy_Fact list \<Rightarrow> string \<Rightarrow> policy_Fact option" where
  "fact_by_name facts name = find (\<lambda>f. pf_MetricName f = name) (rev facts)"

definition usable_value :: "policy_Fact list \<Rightarrow> policy_Rule \<Rightarrow> f64 option" where
  "usable_value facts r =
     (case fact_by_name facts (po_MetricName r) of
        None \<Rightarrow> None
      | Some f \<Rightarrow> if pf_MetricVersion f \<noteq> po_MetricVersion r \<or> pf_Status f \<noteq> StatusAvailable then None else pf_Value f)"

definition policy_factor :: "int \<Rightarrow> policy_Rule \<Rightarrow> f64 \<Rightarrow> bool \<Rightarrow> policy_Factor" where
  "policy_factor index r val matched = \<lparr>px_RuleIndex = index, px_MetricName = po_MetricName r, px_Value = val,
     px_Threshold = po_Threshold r, px_Weight = po_Weight r, px_Matched = matched, px_Label = po_Label r\<rparr>"

definition apply_rule :: "policy_Fact list \<Rightarrow> int \<Rightarrow> policy_Rule \<Rightarrow> Evaluation \<Rightarrow> Evaluation" where
  "apply_rule facts index r ev =
     (case usable_value facts r of
        None \<Rightarrow>
          let ev1 = (if (case fact_by_name facts (po_MetricName r) of None \<Rightarrow> False
                | Some f \<Rightarrow> pf_Status f = StatusStale)
              then ev\<lparr>el_StaleInputs := el_StaleInputs ev @ [po_MetricName r]\<rparr> else ev)
          in if po_Required r then ev1\<lparr>el_Missing := el_Missing ev1 @ [po_MetricName r]\<rparr> else ev1
      | Some val \<Rightarrow>
          let matched = policy_compare val (po_Operator r) (po_Threshold r);
              ev1 = ev\<lparr>el_Factors := el_Factors ev @ [policy_factor index r val matched],
                 el_EvidenceIDs := el_EvidenceIDs ev @
                   (case fact_by_name facts (po_MetricName r) of None \<Rightarrow> [] | Some f \<Rightarrow> pf_EvidenceIDs f)\<rparr>
          in if matched then ev1
             else let ev2 = ev1\<lparr>el_Decisive := el_Decisive ev1 @ [po_Label r]\<rparr>
                  in if po_OnFailure r = NotRecommended then ev2\<lparr>el_Outcome := NotRecommended\<rparr>
                     else if el_Outcome ev2 = Recommended
                     then ev2\<lparr>el_Outcome := Conditional, el_Conditions := el_Conditions ev2 @ [po_Label r]\<rparr>
                     else ev2)"

fun apply_rules :: "policy_Fact list \<Rightarrow> int \<Rightarrow> policy_Rule list \<Rightarrow> Evaluation \<Rightarrow> Evaluation" where
  "apply_rules facts index [] ev = ev"
| "apply_rules facts index (r # rs) ev = apply_rules facts (index + 1) rs (apply_rule facts index r ev)"

definition compactIDs :: "int64 list \<Rightarrow> int64 list" where
  "compactIDs ids = compact (sort_func cmp_int ids)"

definition blank_evaluation :: "int64 \<Rightarrow> PolicyVersion \<Rightarrow> MetricWindow \<Rightarrow> Evaluation" where
  "blank_evaluation projectID selected window = \<lparr>el_ID = 0, el_ProjectID = projectID, el_PolicyID = pv_FamilyID selected,
     el_PolicyVersion = pv_Version selected, el_PolicyOwner = pv_Owner selected, el_Window = window,
     el_Outcome = Recommended, el_Factors = [], el_EvidenceIDs = [], el_Missing = [], el_Conditions = [],
     el_Decisive = [], el_StaleInputs = [], el_Explanation = '''', el_InputDigest = '''', el_CreatedAt = zero_time\<rparr>"

definition policy_Evaluate ::
    "int64 \<Rightarrow> PolicyVersion \<Rightarrow> MetricWindow \<Rightarrow> policy_Fact list \<Rightarrow> policy_error + Evaluation" where
  "policy_Evaluate projectID selected window facts =
     (if projectID \<le> 0 \<or> pv_State selected \<noteq> PolicyActive \<or> policy_Validate selected \<noteq> None \<or>
         window_Validate window \<noteq> None
      then Inl PolicyErrInvalid
      else
        let ev1 = apply_rules facts 0 (pv_Rules selected) (blank_evaluation projectID selected window);
            ev2 = (if el_Missing ev1 \<noteq> [] then ev1\<lparr>el_Outcome := InsufficientData\<rparr> else ev1)
        in Inr (ev2\<lparr>el_EvidenceIDs := compactIDs (el_EvidenceIDs ev2)\<rparr>))"

definition CanSelect :: "Principal \<Rightarrow> access_error option" where
  "CanSelect p = Authorize p ActionProjectWrite"

definition CanGovern :: "Principal \<Rightarrow> access_error option" where
  "CanGovern p = Authorize p ActionPolicyGovern"

definition Activate :: "PolicyVersion \<Rightarrow> gotime \<Rightarrow> policy_error + PolicyVersion" where
  "Activate v now =
     (if pv_State v \<noteq> PolicyDraft \<or> policy_Validate v \<noteq> None \<or> is_zero now then Inl PolicyErrInvalid
      else Inr (v\<lparr>pv_State := PolicyActive, pv_ActivatedAt := Some now, pv_Revision := pv_Revision v + 1\<rparr>))"

definition Retire :: "PolicyVersion \<Rightarrow> gotime \<Rightarrow> policy_error + PolicyVersion" where
  "Retire v now =
     (if pv_State v \<noteq> PolicyActive \<or> is_zero now then Inl PolicyErrInvalid
      else Inr (v\<lparr>pv_State := PolicyRetired, pv_RetiredAt := Some now, pv_Revision := pv_Revision v + 1\<rparr>))"

definition PageVersions :: "PolicyVersion list \<Rightarrow> int \<Rightarrow> int \<Rightarrow> policy_error + (PolicyVersion list \<times> bool)" where
  "PageVersions vals limit offset =
     (if limit \<le> 0 \<or> limit > 200 \<or> offset < 0 then Inl PolicyErrInvalid
      else if offset \<ge> int (length vals) then Inr ([], False)
      else let stop = min (int (length vals)) (offset + limit)
           in Inr (take (nat (stop - offset)) (drop (nat offset) vals), stop < int (length vals)))"

section \<open>The radar\<close>

datatype radar_error = RadarErrInvalid | RadarAccess access_error

datatype Ring = RingAdopt | RingTrial | RingAssess | RingHold | RingUnplaced | RingOther string

text \<open>The conversion \<open>Ring(s)\<close>.\<close>

definition ring_of :: "string \<Rightarrow> Ring" where
  "ring_of s = (if s = ''adopt'' then RingAdopt else if s = ''trial'' then RingTrial
     else if s = ''assess'' then RingAssess else if s = ''hold'' then RingHold
     else if s = ''unplaced'' then RingUnplaced else RingOther s)"

definition ring_Valid :: "Ring \<Rightarrow> bool" where
  "ring_Valid r \<longleftrightarrow> r = RingAdopt \<or> r = RingTrial \<or> r = RingAssess \<or> r = RingHold \<or> r = RingUnplaced"

record Override =
  ov_ID :: int64
  ov_Ring :: Ring
  ov_Reason :: string
  ov_Owner :: string
  ov_ActorID :: int64
  ov_CreatedAt :: gotime
  ov_ReviewOn :: gotime
  ov_RemovedAt :: "gotime option"
  ov_Revision :: int64

record Placement =
  pm_ProjectID :: int64
  pm_ProjectState :: string
  pm_Evaluation :: Evaluation
  pm_Suggested :: Ring
  pm_Effective :: Ring
  pm_Override :: "Override option"
  pm_OverrideExpired :: bool
  pm_ReviewOverdue :: bool
  pm_SuggestionStale :: bool
  pm_Historical :: bool

definition FilterAndCount ::
    "Placement list \<Rightarrow> Ring \<Rightarrow> int \<Rightarrow> int \<Rightarrow> radar_error + (Placement list \<times> (Ring \<times> int) list)" where
  "FilterAndCount vals ring limit offset =
     (if ring \<noteq> RingOther '''' \<and> \<not> ring_Valid ring \<or> limit \<le> 0 \<or> limit > 200 \<or> offset < 0 then Inl RadarErrInvalid
      else
        let filtered = filter (\<lambda>v. ring = RingOther '''' \<or> pm_Effective v = ring) vals;
            paged = (if offset \<ge> int (length filtered) then []
              else take (nat (min (int (length filtered)) (offset + limit) - offset)) (drop (nat offset) filtered))
        in Inr (paged, map (\<lambda>r. (r, count_where (\<lambda>v. pm_Effective v = r) vals))
             [RingAdopt, RingTrial, RingAssess, RingHold, RingUnplaced]))"

definition Derive :: "Evaluation \<Rightarrow> (Outcome \<times> string) list \<Rightarrow> radar_error + Ring" where
  "Derive evaluation mapping =
     (if \<not> outcome_Valid (el_Outcome evaluation) \<or> el_PolicyVersion evaluation \<le> 0 then Inl RadarErrInvalid
      else case map_of mapping (el_Outcome evaluation) of
          None \<Rightarrow> Inl RadarErrInvalid
        | Some ring \<Rightarrow> if \<not> ring_Valid (ring_of ring) then Inl RadarErrInvalid else Inr (ring_of ring))"

definition NewOverride ::
    "Principal \<Rightarrow> Ring \<Rightarrow> string \<Rightarrow> string \<Rightarrow> gotime \<Rightarrow> gotime \<Rightarrow> radar_error + Override" where
  "NewOverride p ring reason owner reviewOn now =
     bindE (err_none RadarAccess (Authorize p ActionProjectWrite)) (\<lambda>_.
       if \<not> ring_Valid ring \<or> ring = RingUnplaced \<or> trim_space reason = '''' \<or> trim_space owner = '''' \<or>
          location_of reviewOn \<noteq> UTC \<or> \<not> after reviewOn now
       then Inl RadarErrInvalid
       else Inr \<lparr>ov_ID = 0, ov_Ring = ring, ov_Reason = trim_space reason, ov_Owner = trim_space owner,
              ov_ActorID = pr_ActorID p, ov_CreatedAt = now, ov_ReviewOn = reviewOn, ov_RemovedAt = None,
              ov_Revision = 1\<rparr>)"

definition Resolve ::
    "int64 \<Rightarrow> string \<Rightarrow> Evaluation \<Rightarrow> (Outcome \<times> string) list \<Rightarrow> Override option \<Rightarrow> gotime \<Rightarrow>
     radar_error + Placement" where
  "Resolve projectID projectState evaluation mapping override now =
     bindE (Derive evaluation mapping) (\<lambda>suggested.
       if projectID \<le> 0 then Inl RadarErrInvalid
       else
         let result = \<lparr>pm_ProjectID = projectID, pm_ProjectState = projectState, pm_Evaluation = evaluation,
               pm_Suggested = suggested, pm_Effective = suggested, pm_Override = None, pm_OverrideExpired = False,
               pm_ReviewOverdue = False, pm_SuggestionStale = False, pm_Historical = (projectState = ''archived'')\<rparr> in
         if pm_Historical result then Inr result
         else case override of
             None \<Rightarrow> Inr result
           | Some v \<Rightarrow>
               let expired = (ov_RemovedAt v \<noteq> None \<or> \<not> after (ov_ReviewOn v) now);
                   result1 = result\<lparr>pm_Override := Some v, pm_OverrideExpired := expired,
                     pm_ReviewOverdue := \<not> after (ov_ReviewOn v) now\<rparr>
               in Inr (if \<not> expired then result1\<lparr>pm_Effective := ov_Ring v\<rparr> else result1))"

definition RemoveOverride :: "Override \<Rightarrow> int64 \<Rightarrow> gotime \<Rightarrow> radar_error + Override" where
  "RemoveOverride v expectedRevision now =
     (if ov_Revision v \<noteq> expectedRevision \<or> ov_RemovedAt v \<noteq> None then Inl (RadarAccess ErrVersionConflict)
      else Inr (v\<lparr>ov_RemovedAt := Some now, ov_Revision := ov_Revision v + 1\<rparr>))"

section \<open>What a valid policy is\<close>

text \<open>The declarative reading of the bounds: no lower threshold of a metric lies above an upper one.\<close>

definition is_lower :: "policy_Rule \<Rightarrow> bool" where
  "is_lower r \<longleftrightarrow> po_Operator r = OpGt \<or> po_Operator r = OpGte"

definition is_upper :: "policy_Rule \<Rightarrow> bool" where
  "is_upper r \<longleftrightarrow> po_Operator r = OpLt \<or> po_Operator r = OpLte"

definition bounds_agree :: "policy_Rule list \<Rightarrow> bool" where
  "bounds_agree rs \<longleftrightarrow> (\<forall>r \<in> set rs. \<forall>q \<in> set rs. po_MetricName r = po_MetricName q \<longrightarrow> is_lower r \<longrightarrow> is_upper q \<longrightarrow>
     \<not> flt (po_Threshold q) (po_Threshold r))"

definition total_weight :: "policy_Rule list \<Rightarrow> f64" where
  "total_weight rs = fold (\<lambda>r t. fadd t (po_Weight r)) rs (Fin 0)"

text \<open>\<open>pair\<close> holds the tightest thresholds of the rules of a metric.\<close>

definition tightest :: "policy_Rule list \<Rightarrow> bound_pair \<Rightarrow> bool" where
  "tightest rs pair \<longleftrightarrow>
     (case fst pair of None \<Rightarrow> \<not> list_ex is_lower rs
      | Some lo \<Rightarrow> (\<exists>r \<in> set rs. is_lower r \<and> po_Threshold r = lo) \<and> (\<forall>r \<in> set rs. is_lower r \<longrightarrow> fle (po_Threshold r) lo)) \<and>
     (case snd pair of None \<Rightarrow> \<not> list_ex is_upper rs
      | Some hi \<Rightarrow> (\<exists>r \<in> set rs. is_upper r \<and> po_Threshold r = hi) \<and> (\<forall>r \<in> set rs. is_upper r \<longrightarrow> fle hi (po_Threshold r)))"

lemma tightest_snoc:
  assumes t: "tightest rs pair" and r: "\<not> is_nan (po_Threshold r)" "\<And>q. q \<in> set rs \<Longrightarrow> \<not> is_nan (po_Threshold q)"
  shows "tightest (rs @ [r]) (tighten r pair)"
proof -
  obtain lo hi where p: "pair = (lo, hi)" by fastforce
  have n: "\<not> is_nan x" if "lo = Some x \<or> hi = Some x" for x
    using t r(2) that by (auto simp: tightest_def p)
  have *: "\<not> flt a b \<longleftrightarrow> fle b a" if "\<not> is_nan a" "\<not> is_nan b" for a b using that by (rule not_flt_fle)
  have lt: "fle x z" if "fle x y" "flt y z" for x y z using that fle_trans by (auto simp: fle_def)
  consider "is_lower r" | "is_upper r" | "\<not> is_lower r" "\<not> is_upper r" by blast
  then show ?thesis
  proof cases
    case 1
    then have nu: "\<not> is_upper r" and tg: "tighten r pair = (raise_bound (po_Threshold r) lo, hi)"
      by (auto simp: is_lower_def is_upper_def tighten_def p)
    show ?thesis using t 1 nu n r(1) unfolding tg
      by (cases lo; cases hi) (auto simp: tightest_def p raise_bound_def list_ex_iff fle_refl * intro: lt)
  next
    case 2
    then have nl: "\<not> is_lower r" and tg: "tighten r pair = (lo, lower_bound (po_Threshold r) hi)"
      by (auto simp: is_lower_def is_upper_def tighten_def p)
    show ?thesis using t 2 nl n r(1) unfolding tg
      by (cases lo; cases hi) (auto simp: tightest_def p lower_bound_def list_ex_iff fle_refl * intro: fle_trans fle_def [THEN iffD2])
  next
    case 3
    then have "tighten r pair = pair" by (auto simp: is_lower_def is_upper_def tighten_def split: PolicyOperator.split)
    with 3 t show ?thesis by (auto simp: tightest_def split: option.splits)
  qed
qed

definition rules_for :: "string \<Rightarrow> policy_Rule list \<Rightarrow> policy_Rule list" where
  "rules_for name = filter (\<lambda>r. po_MetricName r = name)"

definition bounds_of :: "policy_Rule list \<Rightarrow> (string \<times> bound_pair) list \<Rightarrow> bool" where
  "bounds_of seen bounds \<longleftrightarrow> distinct (map fst bounds) \<and>
     (\<forall>name. case map_of bounds name of None \<Rightarrow> rules_for name seen = [] | Some pair \<Rightarrow> tightest (rules_for name seen) pair)"

lemma bounds_ofD:
  assumes "bounds_of seen bounds"
  shows "map_of bounds name = None \<Longrightarrow> rules_for name seen = []"
    "map_of bounds name = Some pair \<Longrightarrow> tightest (rules_for name seen) pair"
proof -
  have "case map_of bounds name of None \<Rightarrow> rules_for name seen = [] | Some pair \<Rightarrow> tightest (rules_for name seen) pair"
    using assms unfolding bounds_of_def by blast
  then show "map_of bounds name = None \<Longrightarrow> rules_for name seen = []"
    "map_of bounds name = Some pair \<Longrightarrow> tightest (rules_for name seen) pair" by simp_all
qed

lemma typed_not_nan: "typed_rule r \<Longrightarrow> \<not> is_nan (po_Threshold r)"
  by (simp add: typed_rule_def)

lemma bounds_of_update:
  assumes b: "bounds_of seen bounds" and r: "typed_rule r" "list_all typed_rule seen"
  shows "bounds_of (seen @ [r]) (AList.update (po_MetricName r)
    (tighten r (case map_of bounds (po_MetricName r) of None \<Rightarrow> (None, None) | Some p \<Rightarrow> p)) bounds)"
proof -
  let ?pair = "case map_of bounds (po_MetricName r) of None \<Rightarrow> (None, None) | Some p \<Rightarrow> p"
  have "tightest (rules_for (po_MetricName r) seen) ?pair"
    using bounds_ofD [OF b, of "po_MetricName r"]
    by (cases "map_of bounds (po_MetricName r)") (simp_all add: tightest_def)
  then have t: "tightest (rules_for (po_MetricName r) seen @ [r]) (tighten r ?pair)"
    using r by (intro tightest_snoc) (auto simp: rules_for_def typed_not_nan list_all_iff)
  show ?thesis unfolding bounds_of_def
  proof (intro conjI allI)
    show "distinct (map fst (AList.update (po_MetricName r) (tighten r ?pair) bounds))"
      using b by (simp add: bounds_of_def distinct_update)
    fix name
    show "case map_of (AList.update (po_MetricName r) (tighten r ?pair) bounds) name of
        None \<Rightarrow> rules_for name (seen @ [r]) = [] | Some pair \<Rightarrow> tightest (rules_for name (seen @ [r])) pair"
      using t bounds_ofD [OF b, of name] by (cases "name = po_MetricName r")
        (auto simp: update_conv' rules_for_def split: option.split)
  qed
qed

lemma rules_loop_spec:
  assumes "bounds_of seen bounds" "list_all typed_rule seen"
  shows "(if list_all typed_rule rs
     then \<exists>b. rules_loop rs tot bounds = Inr (fold (\<lambda>r t. fadd t (po_Weight r)) rs tot, b) \<and> bounds_of (seen @ rs) b
     else rules_loop rs tot bounds = Inl PolicyErrInvalid)"
  using assms
proof (induction rs arbitrary: seen tot bounds)
  case (Cons r rs)
  show ?case
  proof (cases "typed_rule r")
    case True
    with Cons.IH [OF bounds_of_update [OF Cons.prems(1) True Cons.prems(2)], of "fadd tot (po_Weight r)"] Cons.prems(2)
    show ?thesis by (cases "list_all typed_rule rs") (simp_all add: Let_def)
  qed simp
qed simp

lemma contradictory_iff:
  assumes "tightest rs pair"
  shows "contradictory pair \<longleftrightarrow> (\<exists>r \<in> set rs. \<exists>q \<in> set rs. is_lower r \<and> is_upper q \<and> flt (po_Threshold q) (po_Threshold r))"
proof -
  have "flt a d" if "fle a b" "flt b c" "fle c d" for a b c d
    using that by (cases a; cases b; cases c; cases d) (auto simp: fle_def)
  with assms show ?thesis
    by (auto simp: tightest_def contradictory_def list_ex_iff split: option.splits prod.splits) blast+
qed

lemma bounds_agree_iff:
  assumes b: "bounds_of rs bounds"
  shows "list_ex (\<lambda>(_, pair). contradictory pair) bounds \<longleftrightarrow> \<not> bounds_agree rs"
proof -
  have m: "(name, pair) \<in> set bounds \<longleftrightarrow> map_of bounds name = Some pair" for name pair
    using b by (simp add: bounds_of_def map_of_eq_Some_iff)
  have t: "tightest (rules_for name rs) pair" if "map_of bounds name = Some pair" for name pair
    using bounds_ofD(2) [OF b that] .
  have s: "\<exists>pair. map_of bounds (po_MetricName r) = Some pair" if "r \<in> set rs" for r
    using bounds_ofD(1) [OF b, of "po_MetricName r"] that by (fastforce simp: rules_for_def filter_empty_conv)
  have "list_ex (\<lambda>(_, pair). contradictory pair) bounds \<longleftrightarrow>
      (\<exists>name pair. map_of bounds name = Some pair \<and> contradictory pair)"
    by (auto simp: list_ex_iff m [symmetric])
  also have "\<dots> \<longleftrightarrow> (\<exists>r \<in> set rs. \<exists>q \<in> set rs. po_MetricName r = po_MetricName q \<and> is_lower r \<and> is_upper q \<and>
      flt (po_Threshold q) (po_Threshold r))"
  proof
    assume "\<exists>name pair. map_of bounds name = Some pair \<and> contradictory pair"
    then obtain name pair where "map_of bounds name = Some pair" "contradictory pair" by blast
    with contradictory_iff [OF t] obtain r q where "r \<in> set (rules_for name rs)" "q \<in> set (rules_for name rs)"
        "is_lower r" "is_upper q" "flt (po_Threshold q) (po_Threshold r)" by blast
    then show "\<exists>r \<in> set rs. \<exists>q \<in> set rs. po_MetricName r = po_MetricName q \<and> is_lower r \<and> is_upper q \<and>
      flt (po_Threshold q) (po_Threshold r)"
      by (intro bexI [of _ r] bexI [of _ q]) (simp_all add: rules_for_def)
  next
    assume "\<exists>r \<in> set rs. \<exists>q \<in> set rs. po_MetricName r = po_MetricName q \<and> is_lower r \<and> is_upper q \<and>
      flt (po_Threshold q) (po_Threshold r)"
    then obtain r q where r: "r \<in> set rs" "q \<in> set rs" "po_MetricName r = po_MetricName q" "is_lower r" "is_upper q"
      "flt (po_Threshold q) (po_Threshold r)" by blast
    from s [OF r(1)] obtain pair where p: "map_of bounds (po_MetricName r) = Some pair" by blast
    from r have "r \<in> set (rules_for (po_MetricName r) rs)" "q \<in> set (rules_for (po_MetricName r) rs)"
      by (simp_all add: rules_for_def)
    with r contradictory_iff [OF t [OF p]] p
    show "\<exists>name pair. map_of bounds name = Some pair \<and> contradictory pair" by blast
  qed
  finally show ?thesis by (auto simp: bounds_agree_def)
qed

lemma policy_Validate_iff:
  "policy_Validate v = None \<longleftrightarrow>
     0 < pv_Version v \<and> trim_space (pv_Name v) \<noteq> '''' \<and> trim_space (pv_Owner v) \<noteq> '''' \<and>
     pv_Rules v \<noteq> [] \<and> length (pv_Rules v) \<le> 100 \<and> list_all typed_rule (pv_Rules v) \<and>
     \<not> flt weight_tolerance (fabs (fsub (total_weight (pv_Rules v)) (Fin 1))) \<and>
     bounds_agree (pv_Rules v) \<and>
     list_all (\<lambda>c. \<exists>ring. map_of (pv_RadarMap v) c = Some ring \<and> ring \<in> set radarRings)
       [Recommended, Conditional, NotRecommended, InsufficientData]"
proof -
  have e: "bounds_of [] []" by (simp add: bounds_of_def rules_for_def)
  have radar: "(case map_of (pv_RadarMap v) c of None \<Rightarrow> True | Some ring \<Rightarrow> ring \<notin> set radarRings) \<longleftrightarrow>
      \<not> (\<exists>ring. map_of (pv_RadarMap v) c = Some ring \<and> ring \<in> set radarRings)" for c
    by (cases "map_of (pv_RadarMap v) c") auto
  show ?thesis
  proof (cases "list_all typed_rule (pv_Rules v)")
    case True
    with rules_loop_spec [OF e, of "pv_Rules v" "Fin 0"] obtain b where
      l: "rules_loop (pv_Rules v) (Fin 0) [] = Inr (total_weight (pv_Rules v), b)" "bounds_of (pv_Rules v) b"
      by (auto simp: total_weight_def)
    show ?thesis
      using True by (simp add: policy_Validate_def l(1) bounds_agree_iff [OF l(2)] radar not_less)
  next
    case False
    with rules_loop_spec [OF e, of "pv_Rules v" "Fin 0"] show ?thesis by (simp add: policy_Validate_def)
  qed
qed

text \<open>
  C17: \<open>Validate\<close> decides exactly this specification of a policy version: named and owned, one to a
  hundred typed catalog rules, a total weight not further than the tolerance from one, no lower
  threshold of a metric above one of its upper thresholds, and a known ring for each of the four
  outcomes. The bounds that the loop accumulates per metric say the same as the comparison of all
  pairs of rules.
\<close>

theorem policy_validate_reference:
  "policy_Validate v = None \<longleftrightarrow>
     0 < pv_Version v \<and> trim_space (pv_Name v) \<noteq> '''' \<and> trim_space (pv_Owner v) \<noteq> '''' \<and>
     pv_Rules v \<noteq> [] \<and> length (pv_Rules v) \<le> 100 \<and> list_all typed_rule (pv_Rules v) \<and>
     \<not> flt weight_tolerance (fabs (fsub (total_weight (pv_Rules v)) (Fin 1))) \<and>
     bounds_agree (pv_Rules v) \<and>
     list_all (\<lambda>c. \<exists>ring. map_of (pv_RadarMap v) c = Some ring \<and> ring \<in> set radarRings)
       [Recommended, Conditional, NotRecommended, InsufficientData]"
  by (rule policy_Validate_iff)

text \<open>The check of the weights is vacuous once a weight is not a number: a version whose only rule weighs NaN is valid.\<close>

definition sample_policy :: "f64 \<Rightarrow> policy_Rule list \<Rightarrow> PolicyVersion" where
  "sample_policy w rest = \<lparr>pv_ID = 1, pv_FamilyID = 2, pv_Version = 1, pv_Name = ''p'', pv_Description = '''',
     pv_Owner = ''o'', pv_State = PolicyActive,
     pv_Rules = \<lparr>po_MetricName = ''release_frequency'', po_MetricVersion = ''v1'', po_Operator = OpGt,
       po_Threshold = Fin 5, po_Weight = w, po_Required = False, po_RequiredEvidence = '''', po_OnFailure = Conditional,
       po_Label = ''l''\<rparr> # rest,
     pv_RadarMap = [(Recommended, ''adopt''), (Conditional, ''trial''), (NotRecommended, ''hold''), (InsufficientData, ''unplaced'')],
     pv_CreatedBy = 1, pv_CreatedAt = Time 1 UTC, pv_ActivatedAt = None, pv_RetiredAt = None, pv_Revision = 1\<rparr>"

lemma trim_letters: "trim_space ''p'' = ''p''" "trim_space ''o'' = ''o''" "trim_space ''l'' = ''l''"
  by code_simp+

lemma release_frequency_known: "\<exists>d. DefinitionByName ''release_frequency'' = Some d \<and> df_Version d = ''v1''"
  by (simp add: DefinitionByName_def catalog_def definition_row_def)

lemma nan_weight_accepted: "policy_Validate (sample_policy NaN []) = None"
  using release_frequency_known
  by (auto simp: policy_Validate_iff sample_policy_def trim_letters typed_rule_def validOperator_def total_weight_def
      bounds_agree_def is_lower_def is_upper_def radarRings_def is_nan_def is_inf_def fle_def fsub_def weight_tolerance_def)

section \<open>What an evaluation recommends\<close>

definition unmeasured :: "policy_Fact list \<Rightarrow> policy_Rule \<Rightarrow> bool" where
  "unmeasured facts r \<longleftrightarrow> po_Required r \<and> usable_value facts r = None"

definition failing :: "policy_Fact list \<Rightarrow> policy_Rule \<Rightarrow> bool" where
  "failing facts r = (case usable_value facts r of None \<Rightarrow> False
     | Some val \<Rightarrow> \<not> policy_compare val (po_Operator r) (po_Threshold r))"

definition outcome_after :: "policy_Fact list \<Rightarrow> policy_Rule list \<Rightarrow> Outcome \<Rightarrow> Outcome" where
  "outcome_after facts rs c = (if list_ex (\<lambda>r. failing facts r \<and> po_OnFailure r = NotRecommended) rs then NotRecommended
     else if c = Recommended \<and> list_ex (failing facts) rs then Conditional else c)"

lemma apply_rule_fields:
  "el_Missing (apply_rule facts i r ev) = el_Missing ev @ (if unmeasured facts r then [po_MetricName r] else [])"
  "el_Decisive (apply_rule facts i r ev) = el_Decisive ev @ (if failing facts r then [po_Label r] else [])"
  "el_Outcome (apply_rule facts i r ev) = outcome_after facts [r] (el_Outcome ev)"
  by (cases "usable_value facts r"; simp add: apply_rule_def unmeasured_def failing_def outcome_after_def Let_def)+

lemma apply_rules_fields:
  "el_Missing (apply_rules facts i rs ev) = el_Missing ev @ map po_MetricName (filter (unmeasured facts) rs)"
  "el_Decisive (apply_rules facts i rs ev) = el_Decisive ev @ map po_Label (filter (failing facts) rs)"
  "el_Outcome (apply_rules facts i rs ev) = outcome_after facts rs (el_Outcome ev)"
proof (induction rs arbitrary: i ev)
  case (Cons r rs)
  { case 1 show ?case by (simp add: Cons.IH(1) apply_rule_fields) }
  { case 2 show ?case by (simp add: Cons.IH(2) apply_rule_fields) }
  { case 3 show ?case by (auto simp: Cons.IH(3) apply_rule_fields outcome_after_def) }
qed (simp_all add: outcome_after_def)

text \<open>
  A recommendation is decided by its rules alone, in any order: missing data of a required rule
  gives insufficient data; otherwise a failing rule that excludes gives not recommended, any other
  failing rule conditional, and no failing rule recommended. The decisive factors are the labels of
  the failing rules and the missing data the metrics of the required rules without a usable value.
\<close>

theorem policy_outcome_decides:
  assumes "policy_Evaluate projectID v w facts = Inr ev"
  shows "el_Outcome ev =
      (if list_ex (unmeasured facts) (pv_Rules v) then InsufficientData
       else if list_ex (\<lambda>r. failing facts r \<and> po_OnFailure r = NotRecommended) (pv_Rules v) then NotRecommended
       else if list_ex (failing facts) (pv_Rules v) then Conditional else Recommended) \<and>
    el_Decisive ev = map po_Label (filter (failing facts) (pv_Rules v)) \<and>
    el_Missing ev = map po_MetricName (filter (unmeasured facts) (pv_Rules v)) \<and>
    sorted (el_EvidenceIDs ev) \<and> distinct (el_EvidenceIDs ev)"
proof -
  let ?ev = "apply_rules facts 0 (pv_Rules v) (blank_evaluation projectID v w)"
  have ev: "ev = (if el_Missing ?ev \<noteq> [] then ?ev\<lparr>el_Outcome := InsufficientData\<rparr> else ?ev)
      \<lparr>el_EvidenceIDs := compactIDs (el_EvidenceIDs ?ev)\<rparr>"
    using assms by (auto simp: policy_Evaluate_def Let_def split: if_splits)
  have b: "el_Missing (blank_evaluation projectID v w) = []" "el_Decisive (blank_evaluation projectID v w) = []"
    "el_Outcome (blank_evaluation projectID v w) = Recommended" by (simp_all add: blank_evaluation_def)
  have "filter (unmeasured facts) (pv_Rules v) = [] \<longleftrightarrow> \<not> list_ex (unmeasured facts) (pv_Rules v)"
    by (auto simp: filter_empty_conv list_ex_iff)
  moreover have "sorted (compactIDs ids) \<and> distinct (compactIDs ids)" for ids
    by (simp add: compactIDs_def sorted_compact_distinct sorted_sort_ints)
  ultimately show ?thesis
    unfolding ev by (simp add: apply_rules_fields b outcome_after_def)
qed

definition sample_policy_fact :: policy_Fact where
  "sample_policy_fact = \<lparr>pf_MetricName = ''release_frequency'', pf_MetricVersion = ''v1'', pf_Status = StatusAvailable,
     pf_Value = Some (Fin 3), pf_Coverage = coverage_of 1 1 (Fin 1) '''', pf_EvidenceIDs = [8, 4, 8], pf_SnapshotID = 6\<rparr>"

lemma sample_policy_valid: "policy_Validate (sample_policy (Fin 1) []) = None"
proof -
  have one: "of_rat64 1 = Fin 1" "of_rat64 0 = Fin 0" using round_rat_of_int [of 1] round_rat_of_int [of 0] by simp_all
  have "\<not> flt weight_tolerance (Fin 0)"
    using fle_of_rat64 [of 0 "1 / 1000000000"] by (auto simp: weight_tolerance_def one fle_def elim: flt.elims)
  then show ?thesis using release_frequency_known
    by (auto simp: policy_Validate_iff sample_policy_def trim_letters typed_rule_def validOperator_def total_weight_def
        bounds_agree_def is_lower_def is_upper_def radarRings_def is_nan_def is_inf_def fle_def fsub_def one)
qed

theorem policy_outcome_decides_witness:
  "\<exists>ev. policy_Evaluate 5 (sample_policy (Fin 1) []) sample_metric_window [sample_policy_fact] = Inr ev \<and>
     el_Outcome ev = Conditional \<and> el_Decisive ev = [''l'']"
proof -
  let ?v = "sample_policy (Fin 1) []"
  have "pv_State ?v = PolicyActive" by (simp add: sample_policy_def)
  then obtain ev where ev: "policy_Evaluate 5 ?v sample_metric_window [sample_policy_fact] = Inr ev"
    by (simp add: policy_Evaluate_def sample_policy_valid sample_metric_window_valid Let_def)
  from policy_outcome_decides [OF ev] ev show ?thesis
    by (auto simp: sample_policy_def sample_policy_fact_def unmeasured_def failing_def usable_value_def fact_by_name_def)
qed

text \<open>A strict lower and a strict upper bound at the same threshold exclude every value, and are accepted.\<close>

definition opposite_rule :: policy_Rule where
  "opposite_rule = \<lparr>po_MetricName = ''release_frequency'', po_MetricVersion = ''v1'', po_Operator = OpLt,
     po_Threshold = Fin 5, po_Weight = NaN, po_Required = False, po_RequiredEvidence = '''', po_OnFailure = Conditional,
     po_Label = ''l''\<rparr>"

lemma unsatisfiable_bounds_accepted:
  "bounds_agree (pv_Rules (sample_policy NaN [opposite_rule])) \<and>
   \<not> (policy_compare val OpGt (Fin 5) \<and> policy_compare val OpLt (Fin 5))"
  by (cases val) (auto simp: sample_policy_def opposite_rule_def bounds_agree_def is_lower_def is_upper_def)

text \<open>Without any fact a policy whose rules are all optional recommends.\<close>

lemma recommended_without_facts:
  assumes "policy_Evaluate projectID v w [] = Inr ev" and "\<And>r. r \<in> set (pv_Rules v) \<Longrightarrow> \<not> po_Required r"
  shows "el_Outcome ev = Recommended"
proof -
  have "usable_value [] r = None" for r by (simp add: usable_value_def fact_by_name_def)
  then have "failing [] r = False" "filter (unmeasured []) (pv_Rules v) = []" for r
    using assms(2) by (auto simp: unmeasured_def failing_def filter_empty_conv)
  with assms(1) show ?thesis
    by (auto simp: policy_Evaluate_def Let_def apply_rules_fields outcome_after_def blank_evaluation_def list_ex_iff
        split: if_splits)
qed

section \<open>Life cycle and placement\<close>

datatype policy_op = ActivateOp gotime | RetireOp gotime

fun policy_step :: "policy_op \<Rightarrow> PolicyVersion \<Rightarrow> policy_error + PolicyVersion" where
  "policy_step (ActivateOp t) v = Activate v t"
| "policy_step (RetireOp t) v = Retire v t"

text \<open>An active or retired version was valid when it was activated, and what \<open>Validate\<close> looks at does not change.\<close>

definition governed :: "PolicyVersion \<Rightarrow> bool" where
  "governed v \<longleftrightarrow> (pv_State v = PolicyActive \<or> pv_State v = PolicyRetired \<longrightarrow> policy_Validate v = None)"

lemma policy_Validate_lifecycle [simp]:
  "policy_Validate (v\<lparr>pv_State := s, pv_ActivatedAt := t, pv_Revision := n\<rparr>) = policy_Validate v"
  "policy_Validate (v\<lparr>pv_State := s, pv_RetiredAt := t, pv_Revision := n\<rparr>) = policy_Validate v"
  by (simp_all add: policy_Validate_def)

interpretation policy_life: versioned policy_step governed pv_Revision "\<lambda>v. pv_State v = PolicyRetired"
proof
  fix v v' a assume g: "governed v" and s: "policy_step a v = Inr v'"
  show "governed v'" using g s by (cases a) (auto simp: governed_def Activate_def Retire_def split: if_splits)
  show "v' = v \<or> pv_Revision v < pv_Revision v'" using s by (cases a) (auto simp: Activate_def Retire_def split: if_splits)
  show "v' = v" if "pv_State v = PolicyRetired"
    using that s by (cases a) (auto simp: Activate_def Retire_def split: if_splits)
qed

text \<open>
  A placement keeps the recommendation apart from the override. The suggested ring is the one
  the policy maps the outcome to, the evaluation is kept, and the effective ring is the override's
  exactly when the project is not archived and the override is neither removed nor overdue for
  review; otherwise it is the suggestion.
\<close>

theorem resolve_effective_ring:
  assumes "Resolve projectID state evaluation mapping override now = Inr pl"
  shows "Derive evaluation mapping = Inr (pm_Suggested pl) \<and> pm_Evaluation pl = evaluation \<and>
    pm_Effective pl = (case override of
        None \<Rightarrow> pm_Suggested pl
      | Some v \<Rightarrow> if state \<noteq> ''archived'' \<and> ov_RemovedAt v = None \<and> after (ov_ReviewOn v) now
                  then ov_Ring v else pm_Suggested pl) \<and>
    ring_Valid (pm_Suggested pl)"
  using assms by (auto simp: Resolve_def Derive_def result_simps Let_def split: if_splits option.splits)

definition sample_override :: Override where
  "sample_override = \<lparr>ov_ID = 1, ov_Ring = RingHold, ov_Reason = ''r'', ov_Owner = ''o'', ov_ActorID = 9,
     ov_CreatedAt = Time 1 UTC, ov_ReviewOn = Time 100 UTC, ov_RemovedAt = None, ov_Revision = 1\<rparr>"

lemma sample_resolve:
  "\<exists>pl. Resolve 5 ''active'' ((blank_evaluation 5 (sample_policy (Fin 1) []) sample_metric_window)) [(Recommended, ''adopt'')]
     (Some sample_override) (Time t UTC) = Inr pl"
  by (simp add: Resolve_def Derive_def blank_evaluation_def outcome_Valid_def sample_policy_def ring_of_def ring_Valid_def
      Let_def)

theorem resolve_effective_ring_witness:
  "\<exists>pl. Resolve 5 ''active'' ((blank_evaluation 5 (sample_policy (Fin 1) []) sample_metric_window)) [(Recommended, ''adopt'')]
     (Some sample_override) (Time 50 UTC) = Inr pl \<and> pm_Effective pl = RingHold"
proof -
  obtain pl where pl: "Resolve 5 ''active'' ((blank_evaluation 5 (sample_policy (Fin 1) []) sample_metric_window))
      [(Recommended, ''adopt'')] (Some sample_override) (Time 50 UTC) = Inr pl" using sample_resolve by blast
  with resolve_effective_ring [OF pl] show ?thesis by (simp add: sample_override_def after_def)
qed

text \<open>
  An override that is overdue for review no longer decides the ring: at the review date the
  placement moves back to the suggestion, although nobody removed the override.
\<close>

lemma overdue_override_moves:
  "\<exists>pl. Resolve 5 ''active'' ((blank_evaluation 5 (sample_policy (Fin 1) []) sample_metric_window)) [(Recommended, ''adopt'')]
     (Some sample_override) (Time 100 UTC) = Inr pl \<and> ov_RemovedAt sample_override = None \<and> pm_Effective pl = RingAdopt"
  by (simp add: Resolve_def Derive_def blank_evaluation_def outcome_Valid_def sample_policy_def ring_of_def ring_Valid_def
      sample_override_def after_def Let_def)

end
