(* ===== verification/Knowledge.thy ===== *)
theory Knowledge
  imports Go_Base Go_Float "HOL-Library.AList"
begin

text \<open>
  Package \<open>internal/knowledge\<close>: the crawl budget, snapshots, the deterministic splitting of UTF-8 text
  into chunks, reciprocal-rank fusion of search results, and citations. A Go string is a list of
  bytes; SHA-256 is an argument. The Go maps \<open>Domains\<close> and \<open>byChunk\<close> are lists without duplicates
  and association lists.
\<close>

section \<open>Crawl budget and snapshots\<close>

datatype knowledge_error = KnowErrInvalid | KnowErrLimitExceeded | KnowErrNoEvidence

record CrawlLimits =
  cl_MaxDomains :: int
  cl_MaxDepth :: int
  cl_MaxPages :: int
  cl_MaxPageBytes :: int64
  cl_MaxTotalBytes :: int64
  cl_RequestsPerMinute :: int
  cl_MediaTypes :: "string list"

definition crawl_limits_Validate :: "CrawlLimits \<Rightarrow> knowledge_error option" where
  "crawl_limits_Validate l =
     (if cl_MaxDomains l < 1 \<or> cl_MaxDomains l > 16 \<or> cl_MaxDepth l < 0 \<or> cl_MaxDepth l > 8 \<or>
         cl_MaxPages l < 1 \<or> cl_MaxPages l > 10000 \<or> cl_MaxPageBytes l < 1 \<or>
         cl_MaxTotalBytes l < cl_MaxPageBytes l \<or> cl_RequestsPerMinute l < 1 \<or>
         cl_RequestsPerMinute l > 6000 \<or> cl_MediaTypes l = []
      then Some KnowErrInvalid else None)"

record CrawlBudget =
  cb_Limits :: CrawlLimits
  cb_Domains :: "string list"
  cb_Pages :: int
  cb_Bytes :: int64

text \<open>\<open>Accept\<close> changes the budget also when it reports that a limit is exceeded.\<close>

definition budget_Accept ::
    "CrawlBudget \<Rightarrow> string \<Rightarrow> int \<Rightarrow> int64 \<Rightarrow> string \<Rightarrow> CrawlBudget \<times> knowledge_error option" where
  "budget_Accept b host0 depth sz mediaType =
     (if crawl_limits_Validate (cb_Limits b) \<noteq> None \<or> trim_space host0 = '''' \<or> depth < 0 \<or> sz < 0 \<or>
         trim_space mediaType = ''''
      then (b, Some KnowErrInvalid)
      else
        let host = to_lower (trim_space host0);
            b1 = b\<lparr>cb_Domains := (if host \<in> set (cb_Domains b) then cb_Domains b else cb_Domains b @ [host]),
                  cb_Pages := wrap64 (cb_Pages b + 1), cb_Bytes := wrap64 (cb_Bytes b + sz)\<rparr>;
            l = cb_Limits b in
        if int (length (cb_Domains b1)) > cl_MaxDomains l \<or> depth > cl_MaxDepth l \<or> cb_Pages b1 > cl_MaxPages l \<or>
           sz > cl_MaxPageBytes l \<or> cb_Bytes b1 > cl_MaxTotalBytes l \<or> mediaType \<notin> set (cl_MediaTypes l)
        then (b1, Some KnowErrLimitExceeded) else (b1, None))"

record KnowledgeSnapshot =
  ks_ID :: int64
  ks_ProjectID :: int64
  ks_SourceID :: int64
  ks_URL :: string
  ks_ObservedAt :: gotime
  ks_Digest :: string
  ks_MediaType :: string
  ks_Language :: string
  ks_Current :: bool

definition knowledge_NewSnapshot ::
    "(string \<Rightarrow> string) \<Rightarrow> KnowledgeSnapshot \<Rightarrow> string \<Rightarrow> knowledge_error + KnowledgeSnapshot" where
  "knowledge_NewSnapshot sha256 v body =
     (if ks_ID v \<le> 0 \<or> ks_ProjectID v \<le> 0 \<or> ks_SourceID v \<le> 0 \<or> \<not> prefix ''https://'' (ks_URL v) \<or>
         is_zero (ks_ObservedAt v) \<or> trim_space (ks_MediaType v) = '''' \<or> body = []
      then Inl KnowErrInvalid
      else Inr (v\<lparr>ks_Digest := sha256 body\<rparr>))"

section \<open>Chunks\<close>

record Chunk =
  ck_ID :: int64
  ck_ProjectID :: int64
  ck_SourceID :: int64
  ck_SnapshotID :: int64
  ck_Heading :: string
  ck_Text :: string
  ck_Language :: string
  ck_StartOffset :: int
  ck_EndOffset :: int
  ck_ParserVersion :: string
  ck_ObservedAt :: gotime
  ck_Current :: bool

text \<open>\<open>utf8.RuneStart\<close> and \<open>utf8.ValidString\<close>, on the values of the bytes.\<close>

definition continuation :: "nat \<Rightarrow> bool" where
  "continuation b \<longleftrightarrow> 128 \<le> b \<and> b < 192"

definition rune_start :: "char \<Rightarrow> bool" where
  "rune_start c \<longleftrightarrow> \<not> continuation (of_char c)"

fun utf8_ok :: "nat list \<Rightarrow> bool" where
  "utf8_ok [] = True"
| "utf8_ok (b # bs) =
     (if b < 128 then utf8_ok bs
      else if 194 \<le> b \<and> b < 224 then (case bs of c # cs \<Rightarrow> continuation c \<and> utf8_ok cs | _ \<Rightarrow> False)
      else if 224 \<le> b \<and> b < 240 then
        (case bs of c # d # cs \<Rightarrow>
             (if b = 224 then 160 \<le> c \<and> c < 192 else if b = 237 then 128 \<le> c \<and> c < 160 else continuation c) \<and>
             continuation d \<and> utf8_ok cs
         | _ \<Rightarrow> False)
      else if 240 \<le> b \<and> b < 245 then
        (case bs of c # d # e # cs \<Rightarrow>
             (if b = 240 then 144 \<le> c \<and> c < 192 else if b = 244 then 128 \<le> c \<and> c < 144 else continuation c) \<and>
             continuation d \<and> continuation e \<and> utf8_ok cs
         | _ \<Rightarrow> False)
      else False)"

definition valid_string :: "string \<Rightarrow> bool" where
  "valid_string s \<longleftrightarrow> utf8_ok (map of_char s)"

record text_section =
  se_heading :: string
  se_body :: string
  se_offset :: int

text \<open>The loop over the lines: the finished sections, the current one, the offset of the line.\<close>

fun section_loop :: "string list \<Rightarrow> text_section list \<Rightarrow> text_section \<Rightarrow> int \<Rightarrow> text_section list" where
  "section_loop [] acc current offset =
     (if se_body current \<noteq> '''' \<or> se_heading current \<noteq> '''' then acc @ [current] else acc)"
| "section_loop (line # lines) acc current offset =
     (let trimmed = trim_space line in
      if prefix ''#'' trimmed
      then section_loop lines (if se_body current \<noteq> '''' then acc @ [current] else acc)
             \<lparr>se_heading = trim_space (dropWhile (\<lambda>c. c = CHR ''#'') trimmed), se_body = '''', se_offset = offset\<rparr>
             (offset + int (length line) + 1)
      else section_loop lines acc
             (current\<lparr>se_body := (if se_body current \<noteq> '''' then se_body current @ [CHR 0x0A] else '''') @ line\<rparr>)
             (offset + int (length line) + 1))"

text \<open>Back from \<open>stop\<close> to the start of a rune.\<close>

fun rune_end :: "string \<Rightarrow> nat \<Rightarrow> nat \<Rightarrow> nat" where
  "rune_end body consumed 0 = 0"
| "rune_end body consumed (Suc e) =
     (if Suc e < length body \<and> Suc e > consumed \<and> \<not> rune_start (body ! Suc e)
      then rune_end body consumed e else Suc e)"

definition chunk_of :: "KnowledgeSnapshot \<Rightarrow> text_section \<Rightarrow> string \<Rightarrow> string \<Rightarrow> nat \<Rightarrow> nat \<Rightarrow> Chunk" where
  "chunk_of s sec parserVersion part consumed stop =
     \<lparr>ck_ID = 0, ck_ProjectID = ks_ProjectID s, ck_SourceID = ks_SourceID s, ck_SnapshotID = ks_ID s,
      ck_Heading = se_heading sec, ck_Text = part, ck_Language = ks_Language s,
      ck_StartOffset = se_offset sec + int consumed, ck_EndOffset = se_offset sec + int stop,
      ck_ParserVersion = parserVersion, ck_ObservedAt = ks_ObservedAt s, ck_Current = ks_Current s\<rparr>"

function chunk_body :: "KnowledgeSnapshot \<Rightarrow> string \<Rightarrow> nat \<Rightarrow> text_section \<Rightarrow> string \<Rightarrow> nat \<Rightarrow> knowledge_error + Chunk list" where
  "chunk_body s parserVersion maxBytes sec body consumed =
     (if consumed < length body then
        let stop = rune_end body consumed (min (length body) (consumed + maxBytes)) in
        if stop \<le> consumed then Inl KnowErrInvalid
        else
          let part = trim_space (take (stop - consumed) (drop consumed body)) in
          bindE (chunk_body s parserVersion maxBytes sec body stop) (\<lambda>rest.
            Inr (if part \<noteq> '''' then chunk_of s sec parserVersion part consumed stop # rest else rest))
      else Inr [])"
  by pat_completeness auto
termination
  by (relation "measure (\<lambda>(s, p, m, sec, body, consumed). length body - consumed)") auto

fun chunk_sections :: "KnowledgeSnapshot \<Rightarrow> string \<Rightarrow> nat \<Rightarrow> text_section list \<Rightarrow> knowledge_error + Chunk list" where
  "chunk_sections s parserVersion maxBytes [] = Inr []"
| "chunk_sections s parserVersion maxBytes (sec # secs) =
     bindE (chunk_body s parserVersion maxBytes sec (trim_space (se_body sec)) 0) (\<lambda>cs.
     bindE (chunk_sections s parserVersion maxBytes secs) (\<lambda>rest. Inr (cs @ rest)))"

definition sections_of :: "string \<Rightarrow> text_section list" where
  "sections_of text0 = section_loop (split_on (CHR 0x0A) text0) [] \<lparr>se_heading = '''', se_body = '''', se_offset = 0\<rparr> 0"

definition ChunkText :: "KnowledgeSnapshot \<Rightarrow> string \<Rightarrow> string \<Rightarrow> int \<Rightarrow> knowledge_error + Chunk list" where
  "ChunkText s text0 parserVersion maxBytes =
     (if ks_ID s \<le> 0 \<or> \<not> valid_string text0 \<or> trim_space parserVersion = '''' \<or> maxBytes < 64 then Inl KnowErrInvalid
      else chunk_sections s parserVersion (nat maxBytes) (sections_of text0))"

declare chunk_body.simps [simp del]

section \<open>Fusion of search results\<close>

record Candidate =
  cd_Chunk :: Chunk
  cd_LexicalRank :: int
  cd_VectorRank :: int

record SearchFilter =
  sf_ProjectID :: int64
  sf_SourceIDs :: "int64 list"
  sf_Cutoff :: gotime

record SearchResult =
  sr_Chunk :: Chunk
  sr_Score :: f64
  sr_Modes :: "string list"

definition appendMode :: "string list \<Rightarrow> string \<Rightarrow> string list" where
  "appendMode vals v = (if v \<in> set vals then vals else vals @ [v])"

definition accessible_chunk :: "SearchFilter \<Rightarrow> Chunk \<Rightarrow> bool" where
  "accessible_chunk f c \<longleftrightarrow> \<not> (ck_ID c \<le> 0 \<or> ck_ProjectID c \<noteq> sf_ProjectID f \<or> \<not> ck_Current c \<or>
     after (ck_ObservedAt c) (sf_Cutoff f) \<or> sf_SourceIDs f \<noteq> [] \<and> ck_SourceID c \<notin> set (sf_SourceIDs f))"

definition add_rank :: "int \<Rightarrow> int \<Rightarrow> string \<Rightarrow> SearchResult \<Rightarrow> SearchResult" where
  "add_rank rankConstant rank mode r =
     (if rank > 0
      then r\<lparr>sr_Score := fadd (sr_Score r) (fdiv (Fin 1) (of_int_f64 (wrap64 (rankConstant + rank)))),
             sr_Modes := appendMode (sr_Modes r) mode\<rparr>
      else r)"

definition fuse_step ::
    "SearchFilter \<Rightarrow> int \<Rightarrow> Candidate \<Rightarrow> (int64 \<times> SearchResult) list \<Rightarrow> (int64 \<times> SearchResult) list" where
  "fuse_step f rankConstant c byChunk =
     (let chunk = cd_Chunk c in
      if \<not> accessible_chunk f chunk then byChunk
      else
        let r0 = (case map_of byChunk (ck_ID chunk) of
              None \<Rightarrow> \<lparr>sr_Chunk = chunk, sr_Score = Fin 0, sr_Modes = []\<rparr> | Some r \<Rightarrow> r\<lparr>sr_Chunk := chunk\<rparr>);
            r = add_rank rankConstant (cd_VectorRank c) ''vector''
                  (add_rank rankConstant (cd_LexicalRank c) ''lexical'' r0)
        in if flt (Fin 0) (sr_Score r) \<and> \<not> is_nan (sr_Score r) then AList.update (ck_ID chunk) r byChunk else byChunk)"

definition cmp_result :: "SearchResult \<Rightarrow> SearchResult \<Rightarrow> int" where
  "cmp_result l r =
     (if flt (sr_Score r) (sr_Score l) then -1 else if flt (sr_Score l) (sr_Score r) then 1
      else cmp_then (cmp_int (ck_SourceID (sr_Chunk l)) (ck_SourceID (sr_Chunk r)))
             (cmp_int (ck_ID (sr_Chunk l)) (ck_ID (sr_Chunk r))))"

definition Fuse :: "Candidate list \<Rightarrow> SearchFilter \<Rightarrow> int \<Rightarrow> int \<Rightarrow> knowledge_error + SearchResult list" where
  "Fuse candidates f limit rankConstant =
     (if sf_ProjectID f \<le> 0 \<or> is_zero (sf_Cutoff f) \<or> limit < 1 \<or> limit > 100 \<or> rankConstant < 1 then Inl KnowErrInvalid
      else Inr (take (nat limit) (sort_func cmp_result (map snd (fold (fuse_step f rankConstant) candidates [])))))"

record Citation =
  ci_SnapshotID :: int64
  ci_ChunkID :: int64
  ci_StartOffset :: int
  ci_EndOffset :: int

fun Cite_loop :: "SearchResult list \<Rightarrow> knowledge_error + Citation list" where
  "Cite_loop [] = Inr []"
| "Cite_loop (r # rs) =
     (let c = sr_Chunk r in
      if ck_SnapshotID c \<le> 0 \<or> ck_ID c \<le> 0 \<or> ck_StartOffset c < 0 \<or> ck_EndOffset c \<le> ck_StartOffset c
      then Inl KnowErrInvalid
      else bindE (Cite_loop rs) (\<lambda>rest. Inr (\<lparr>ci_SnapshotID = ck_SnapshotID c, ci_ChunkID = ck_ID c,
             ci_StartOffset = ck_StartOffset c, ci_EndOffset = ck_EndOffset c\<rparr> # rest)))"

definition Cite :: "SearchResult list \<Rightarrow> knowledge_error + Citation list" where
  "Cite results = (if results = [] then Inl KnowErrNoEvidence else Cite_loop results)"

section \<open>Chunking always succeeds\<close>

text \<open>
  At most three continuation bytes in a row (and at most \<open>n\<close> at the front): this holds in valid UTF-8,
  in every part of it, and in lines joined by newlines, and it is all that the search for the start
  of a rune needs.
\<close>

fun run_ok :: "nat \<Rightarrow> string \<Rightarrow> bool" where
  "run_ok n [] = True"
| "run_ok n (c # cs) = (if rune_start c then run_ok 3 cs else 0 < n \<and> run_ok (n - 1) cs)"

lemma run_ok_mono: "run_ok m s \<Longrightarrow> m \<le> n \<Longrightarrow> run_ok n s"
proof (induction s arbitrary: m n)
  case (Cons c cs)
  then show ?case using Cons.IH [of "m - 1" "n - 1"] by (auto split: if_splits)
qed simp

lemma run_ok_append: "run_ok n a \<Longrightarrow> run_ok 0 b \<Longrightarrow> run_ok n (a @ b)"
proof (induction a arbitrary: n)
  case Nil
  then show ?case using run_ok_mono [of 0 b n] by simp
qed (auto split: if_splits)

lemma run_ok_drop: "run_ok n s \<Longrightarrow> n \<le> 3 \<Longrightarrow> run_ok 3 (drop k s)"
proof (induction s arbitrary: n k)
  case (Cons c cs)
  show ?case
  proof (cases k)
    case 0
    with run_ok_mono [OF Cons.prems] show ?thesis by (simp only: drop_0)
  next
    case (Suc j)
    with Cons.prems Cons.IH [of 3 j] Cons.IH [of "n - 1" j] show ?thesis by (auto split: if_splits)
  qed
qed simp

lemma run_ok_take: "run_ok n s \<Longrightarrow> run_ok n (take k s)"
proof (induction s arbitrary: n k)
  case (Cons c cs)
  then show ?case by (cases k) (auto split: if_splits)
qed simp

lemma run_ok_front: "k \<le> n \<Longrightarrow> n \<le> 3 \<Longrightarrow> run_ok 0 (drop k s) \<Longrightarrow> run_ok n s"
proof (induction k arbitrary: n s)
  case 0
  then show ?case using run_ok_mono [of 0 s n] by simp
next
  case (Suc k)
  show ?case
  proof (cases s)
    case (Cons c cs)
    with Suc.prems Suc.IH [of 3 cs] Suc.IH [of "n - 1" cs] show ?thesis by auto
  qed simp
qed

lemma utf8_ok_step: "utf8_ok (b # bs) \<Longrightarrow> \<not> continuation b \<and> (\<exists>k \<le> 3. utf8_ok (drop k bs))"
proof
  assume ok: "utf8_ok (b # bs)"
  then show "\<not> continuation b" by (auto simp: continuation_def split: if_splits)
  show "\<exists>k \<le> 3. utf8_ok (drop k bs)"
  proof (cases "b < 128")
    case True
    with ok show ?thesis by (intro exI [of _ 0]) simp
  next
    case False
    then consider "194 \<le> b" "b < 224" | "224 \<le> b" "b < 240" | "240 \<le> b" "b < 245" using ok by (auto split: if_splits)
    then show ?thesis
    proof cases
      case 1
      with ok obtain c cs where "bs = c # cs" "utf8_ok cs" by (cases bs) auto
      then show ?thesis by (intro exI [of _ 1]) simp
    next
      case 2
      with ok obtain c d cs where "bs = c # d # cs" "utf8_ok cs" by (cases bs; cases "tl bs") auto
      then show ?thesis by (intro exI [of _ 2]) simp
    next
      case 3
      with ok obtain c d e cs where "bs = c # d # e # cs" "utf8_ok cs"
        by (cases bs; cases "tl bs"; cases "tl (tl bs)") auto
      then show ?thesis by (intro exI [of _ 3]) simp
    qed
  qed
qed

lemma run_ok_utf8: "utf8_ok (map of_char s) \<Longrightarrow> run_ok 0 s"
proof (induction "length s" arbitrary: s rule: less_induct)
  case less
  show ?case
  proof (cases s)
    case (Cons c cs)
    with utf8_ok_step [of "of_char c" "map of_char cs"] less.prems obtain k where
      k: "\<not> continuation (of_char c)" "k \<le> 3" "utf8_ok (map of_char (drop k cs))" by (auto simp: drop_map)
    with less.hyps [of "drop k cs"] have "run_ok 0 (drop k cs)" by (simp add: Cons)
    with run_ok_front [of k 3 cs] k show ?thesis by (simp add: Cons rune_start_def)
  qed simp
qed

lemma run_ok_join: "run_ok n a \<Longrightarrow> rune_start c \<Longrightarrow> run_ok 3 b \<Longrightarrow> run_ok n (a @ c # b)"
  by (induction a arbitrary: n) (auto split: if_splits)

lemma run_ok_split:
  assumes "rune_start c"
  shows "run_ok n s \<Longrightarrow> split_on c s = w # ws \<Longrightarrow> run_ok n w \<and> (\<forall>v \<in> set ws. run_ok 3 v)"
proof (induction s arbitrary: n w ws)
  case (Cons x s)
  obtain v vs where sp: "split_on c s = v # vs" by (cases "split_on c s") auto
  show ?case
  proof (cases "x = c")
    case True
    then have ws: "w = []" "ws = v # vs" "run_ok 3 s" using Cons.prems assms sp by auto
    with Cons.IH [OF ws(3) sp] show ?thesis by auto
  next
    case False
    then have ws: "w = x # v" "ws = vs" using Cons.prems(2) sp by auto
    show ?thesis using Cons.IH [of 3 v vs] Cons.IH [of "n - 1" v vs] Cons.prems(1) sp ws by (auto split: if_splits)
  qed
qed auto

lemma run_ok_trim: "run_ok 3 s \<Longrightarrow> run_ok 3 (trim_space s)"
proof -
  assume ok: "run_ok 3 s"
  obtain k where "trim_left_space s = drop k s"
    using strip_seqs_suffix [of space_seqs s] unfolding trim_left_space_def suffix_def by (metis append_eq_conv_conj)
  moreover obtain j where "trim_space s = take j (trim_left_space s)"
    using trim_right_prefix [of "trim_left_space s"] unfolding trim_space_def prefix_def by (metis append_eq_conv_conj)
  ultimately show ?thesis using run_ok_take [OF run_ok_drop [OF ok]] by simp
qed

lemma section_bodies_ok:
  assumes "list_all (run_ok 3) ls" "list_all (\<lambda>x. run_ok 3 (se_body x)) acc" "run_ok 3 (se_body cur)"
  shows "list_all (\<lambda>x. run_ok 3 (se_body x)) (section_loop ls acc cur off)"
  using assms
proof (induction ls acc cur off rule: section_loop.induct)
  case (2 line lines acc cur off)
  have "rune_start (CHR 0x0A)" by (simp add: rune_start_def continuation_def)
  with 2 show ?case by (auto simp: Let_def run_ok_join)
qed auto

lemma rune_end_le: "rune_end body consumed e \<le> e"
  by (induction body consumed e rule: rune_end.induct) auto

lemma rune_end_ge:
  "j \<le> e \<Longrightarrow> rune_start (body ! j) \<Longrightarrow> j \<le> rune_end body consumed e"
proof (induction body consumed e rule: rune_end.induct)
  case (2 body consumed e)
  then show ?case by (cases "j = Suc e") auto
qed simp

lemma run_ok_four: "run_ok n s \<Longrightarrow> n \<le> 3 \<Longrightarrow> 3 < length s \<Longrightarrow> \<exists>j \<le> 3. rune_start (s ! j)"
proof (rule ccontr)
  assume a: "run_ok n s" "n \<le> 3" "3 < length s" "\<not> (\<exists>j \<le> 3. rune_start (s ! j))"
  obtain c0 c1 c2 c3 cs where s: "s = c0 # c1 # c2 # c3 # cs"
    using a(3) by (cases s; cases "tl s"; cases "tl (tl s)"; cases "tl (tl (tl s))") auto
  from a(4) have "\<not> rune_start (s ! 0)" "\<not> rune_start (s ! 1)" "\<not> rune_start (s ! 2)" "\<not> rune_start (s ! 3)" by auto
  with a(1,2) show False by (auto simp: s numeral_2_eq_2 numeral_3_eq_3)
qed

lemma rune_end_progress:
  assumes "run_ok 3 body" "consumed < length body" "64 \<le> m"
  shows "consumed < rune_end body consumed (min (length body) (consumed + m))"
proof (cases "length body \<le> consumed + m")
  case True
  then have "rune_end body consumed (min (length body) (consumed + m)) = length body"
    using assms(2) by (cases "length body") auto
  with assms(2) show ?thesis by simp
next
  case False
  let ?e = "consumed + m"
  have "3 < length (drop (?e - 3) body)" using False assms(3) by simp
  from run_ok_four [OF run_ok_drop [OF assms(1)] _ this] obtain j where
    j: "j \<le> 3" "rune_start (body ! (?e - 3 + j))" using False assms(3) by auto
  have "?e - 3 + j \<le> rune_end body consumed ?e" by (rule rune_end_ge) (use j assms(3) in auto)
  with False assms(3) show ?thesis by simp
qed

definition good_chunk :: "KnowledgeSnapshot \<Rightarrow> int \<Rightarrow> Chunk \<Rightarrow> bool" where
  "good_chunk s maxBytes c \<longleftrightarrow> ck_Text c \<noteq> '''' \<and> int (length (ck_Text c)) \<le> maxBytes \<and>
     ck_StartOffset c < ck_EndOffset c \<and> ck_EndOffset c - ck_StartOffset c \<le> maxBytes \<and>
     ck_SnapshotID c = ks_ID s \<and> ck_ProjectID c = ks_ProjectID s"

lemma trim_space_length: "length (trim_space s) \<le> length s"
proof -
  have "length (trim_left_space s) \<le> length s"
    using suffix_length_le [OF strip_seqs_suffix [of space_seqs s]] by (simp add: trim_left_space_def)
  moreover have "length (trim_space s) \<le> length (trim_left_space s)"
    using prefix_length_le [OF trim_right_prefix [of "trim_left_space s"]] by (simp add: trim_space_def)
  ultimately show ?thesis by simp
qed

lemma chunk_body_total:
  assumes "run_ok 3 body" "64 \<le> m"
  shows "\<exists>cs. chunk_body s pv m sec body consumed = Inr cs \<and> list_all (good_chunk s (int m)) cs"
proof (induction "length body - consumed" arbitrary: consumed rule: less_induct)
  case less
  show ?case
  proof (cases "consumed < length body")
    case True
    let ?stop = "rune_end body consumed (min (length body) (consumed + m))"
    have stop: "consumed < ?stop" "?stop \<le> consumed + m"
      using rune_end_progress [OF assms(1) True assms(2)]
        rune_end_le [of body consumed "min (length body) (consumed + m)"] by auto
    then have "length body - ?stop < length body - consumed" using True by auto
    from less [OF this] obtain cs where "chunk_body s pv m sec body ?stop = Inr cs" "list_all (good_chunk s (int m)) cs"
      by blast
    moreover have "length (trim_space (take (?stop - consumed) (drop consumed body))) \<le> m"
      using trim_space_length [of "take (?stop - consumed) (drop consumed body)"] stop by simp linarith
    ultimately show ?thesis
      using True stop by (simp add: chunk_body.simps [of s pv m sec body consumed] Let_def good_chunk_def chunk_of_def)
  next
    case False
    then show ?thesis by (simp add: chunk_body.simps)
  qed
qed

lemma chunk_sections_total:
  assumes "list_all (\<lambda>x. run_ok 3 (se_body x)) secs" "64 \<le> m"
  shows "\<exists>cs. chunk_sections s pv m secs = Inr cs \<and> list_all (good_chunk s (int m)) cs"
  using assms(1)
proof (induction secs)
  case (Cons sec secs)
  then obtain cs where "chunk_sections s pv m secs = Inr cs" "list_all (good_chunk s (int m)) cs" by auto
  moreover obtain cs' where "chunk_body s pv m sec (trim_space (se_body sec)) 0 = Inr cs'" "list_all (good_chunk s (int m)) cs'"
    using chunk_body_total [OF run_ok_trim assms(2), of "se_body sec" s pv sec 0] Cons.prems by auto
  ultimately show ?case by simp
qed simp

text \<open>
  Chunking terminates without error on every valid input: for a stored snapshot, valid UTF-8, a
  parser version and at least 64 bytes per chunk, the loop always moves forward, its error branch
  for a stuck position is never taken, and every chunk has text, at most the bytes asked for and a
  non-empty range, and belongs to the snapshot.
\<close>

theorem chunk_text_total:
  assumes "0 < ks_ID s" and "valid_string body" and "trim_space parserVersion \<noteq> ''''" and "64 \<le> maxBytes"
  shows "\<exists>cs. ChunkText s body parserVersion maxBytes = Inr cs \<and> list_all (good_chunk s maxBytes) cs"
proof -
  have start: "rune_start (CHR 0x0A)" by (simp add: rune_start_def continuation_def)
  have "run_ok 0 body" using assms(2) by (simp add: valid_string_def run_ok_utf8)
  then have "list_all (run_ok 3) (split_on (CHR 0x0A) body)"
    using run_ok_split [OF start run_ok_mono [of 0 body 3]]
    by (cases "split_on (CHR 0x0A) body") (auto simp: list_all_iff)
  then have "list_all (\<lambda>x. run_ok 3 (se_body x)) (sections_of body)"
    unfolding sections_of_def by (intro section_bodies_ok) simp_all
  from chunk_sections_total [OF this, of "nat maxBytes" s parserVersion] assms show ?thesis
    by (auto simp: ChunkText_def)
qed

definition sample_snapshot :: KnowledgeSnapshot where
  "sample_snapshot = \<lparr>ks_ID = 4, ks_ProjectID = 7, ks_SourceID = 2, ks_URL = ''https://x'', ks_ObservedAt = Time 5 UTC,
     ks_Digest = '''', ks_MediaType = ''text/markdown'', ks_Language = ''en'', ks_Current = True\<rparr>"

theorem chunk_text_total_witness:
  "\<exists>cs. ChunkText sample_snapshot ''# T
body'' ''p1'' 64 = Inr cs \<and> list_all (good_chunk sample_snapshot 64) cs"
proof -
  have "valid_string ''# T
body''" "trim_space ''p1'' \<noteq> ''''" by code_simp+
  with chunk_text_total [of sample_snapshot _ "''p1''" 64] show ?thesis by (simp add: sample_snapshot_def)
qed

text \<open>
  The offsets of a chunk are counted from the heading line of its section and from the trimmed
  body, so they need not point at the text of the chunk: here the chunk \<open>body\<close> has the range of the
  four bytes of the heading line.
\<close>

lemma chunk_offsets_off:
  "map (\<lambda>c. (ck_Text c, ck_StartOffset c, ck_EndOffset c)) (projr (ChunkText sample_snapshot ''# T
body'' ''p1'' 64)) = [(''body'', 0, 4)] \<and>
   take 4 (drop 0 ''# T
body'') \<noteq> ''body''"
  by code_simp

section \<open>Fusion keeps to the filter\<close>

lemma update_set: "(k, v) \<in> set (AList.update i x al) \<Longrightarrow> (k, v) = (i, x) \<or> (k, v) \<in> set al"
  by (induction al) (auto split: if_splits)

definition fused_ok :: "SearchFilter \<Rightarrow> (int64 \<times> SearchResult) list \<Rightarrow> bool" where
  "fused_ok f m \<longleftrightarrow> distinct (map fst m) \<and> (\<forall>(k, r) \<in> set m. ck_ID (sr_Chunk r) = k \<and> accessible_chunk f (sr_Chunk r) \<and>
     flt (Fin 0) (sr_Score r))"

lemma add_rank_chunk [simp]: "sr_Chunk (add_rank k n mode r) = sr_Chunk r"
  by (simp add: add_rank_def)

lemma fuse_step_ok:
  assumes "fused_ok f m"
  shows "fused_ok f (fuse_step f k c m)"
proof -
  let ?ch = "cd_Chunk c"
  define r where "r = add_rank k (cd_VectorRank c) ''vector'' (add_rank k (cd_LexicalRank c) ''lexical''
    (case map_of m (ck_ID ?ch) of None \<Rightarrow> \<lparr>sr_Chunk = ?ch, sr_Score = Fin 0, sr_Modes = []\<rparr> | Some r \<Rightarrow> r\<lparr>sr_Chunk := ?ch\<rparr>))"
  have ch: "sr_Chunk r = ?ch" by (simp add: r_def split: option.split)
  show ?thesis
  proof (cases "accessible_chunk f ?ch \<and> flt (Fin 0) (sr_Score r) \<and> \<not> is_nan (sr_Score r)")
    case True
    then have "fuse_step f k c m = AList.update (ck_ID ?ch) r m" by (simp add: fuse_step_def Let_def r_def)
    moreover have "ck_ID (sr_Chunk q) = i \<and> accessible_chunk f (sr_Chunk q) \<and> flt (Fin 0) (sr_Score q)"
      if "(i, q) \<in> set (AList.update (ck_ID ?ch) r m)" for i q
      using update_set [OF that] assms True ch by (auto simp: fused_ok_def)
    ultimately show ?thesis using assms by (auto simp: fused_ok_def distinct_update)
  next
    case False
    then have "fuse_step f k c m = m" by (auto simp: fuse_step_def Let_def r_def)
    with assms show ?thesis by simp
  qed
qed

lemma fuse_fold_ok: "fused_ok f m \<Longrightarrow> fused_ok f (fold (fuse_step f k) cs m)"
  by (induction cs arbitrary: m) (auto intro: fuse_step_ok)

definition cmp_ranked :: "SearchResult \<Rightarrow> SearchResult \<Rightarrow> int" where
  "cmp_ranked l r = cmp_then (cmp_f64 (sr_Score r) (sr_Score l))
     (cmp_then (cmp_int (ck_SourceID (sr_Chunk l)) (ck_SourceID (sr_Chunk r)))
       (cmp_int (ck_ID (sr_Chunk l)) (ck_ID (sr_Chunk r))))"

interpretation ranked_order: comparator cmp_ranked
proof
  show "cmp_ranked x y \<le> 0 \<or> cmp_ranked y x \<le> 0" for x y
    by (cases "sr_Score x"; cases "sr_Score y") (auto simp: cmp_ranked_def cmp_then_def cmp_f64_def cmp_int_def is_nan_def)
  show "cmp_ranked x y \<le> 0 \<Longrightarrow> cmp_ranked y z \<le> 0 \<Longrightarrow> cmp_ranked x z \<le> 0" for x y z
    by (cases "sr_Score x"; cases "sr_Score y"; cases "sr_Score z")
      (auto simp: cmp_ranked_def cmp_then_def cmp_f64_def cmp_int_def is_nan_def split: if_splits)
qed

lemma cmp_result_ranked: "\<not> is_nan (sr_Score l) \<Longrightarrow> \<not> is_nan (sr_Score r) \<Longrightarrow> cmp_result l r = cmp_ranked l r"
  by (simp add: cmp_result_def cmp_ranked_def cmp_then_def cmp_f64_def)

text \<open>
  Fusion never leaks. Every result of \<open>Fuse\<close> is a current chunk of the project asked for, observed
  by the cutoff and from an allowed source; no chunk appears twice, at most the limit is returned,
  and the results are ordered by decreasing score, then source and identifier.
\<close>

theorem fuse_respects_filter:
  assumes "Fuse candidates f limit rankConstant = Inr rs"
  shows "list_all (\<lambda>r. accessible_chunk f (sr_Chunk r)) rs \<and> distinct (map (\<lambda>r. ck_ID (sr_Chunk r)) rs) \<and>
    int (length rs) \<le> limit \<and> ordered_by cmp_result rs"
proof -
  define m where "m = fold (fuse_step f rankConstant) candidates []"
  have ok: "fused_ok f m" unfolding m_def by (rule fuse_fold_ok) (simp add: fused_ok_def)
  have pos: "\<not> is_nan (sr_Score r)" if "r \<in> set (map snd m)" for r
    using ok that by (force simp: fused_ok_def is_nan_def)
  have rs: "rs = take (nat limit) (sort_func cmp_result (map snd m))" and lim: "1 \<le> limit"
    using assms by (auto simp: Fuse_def m_def split: if_splits)
  have "sort_func cmp_result (map snd m) = sort_func cmp_ranked (map snd m)"
    by (rule sort_func_cong) (rule cmp_result_ranked; rule pos; assumption)
  then have srt: "rs = take (nat limit) (sort_func cmp_ranked (map snd m))" using rs by simp
  have sub: "set rs \<subseteq> set (map snd m)" unfolding srt by (metis set_sort_func set_take_subset)
  have "ordered_by cmp_ranked rs"
    unfolding srt ordered_by_def using ranked_order.ordered_sort by (simp add: ordered_by_def sorted_wrt_take)
  then have "ordered_by cmp_result rs"
    unfolding ordered_by_def
    by (rule sorted_wrt_mono_rel [rotated]) (use sub pos in \<open>auto simp: cmp_result_ranked subset_iff\<close>)
  moreover have "list_all (\<lambda>r. accessible_chunk f (sr_Chunk r)) rs"
    using sub ok by (fastforce simp: list_all_iff fused_ok_def)
  moreover have "distinct (map (\<lambda>r. ck_ID (sr_Chunk r)) rs)"
  proof -
    have "map (\<lambda>r. ck_ID (sr_Chunk r)) (map snd m) = map fst m" using ok by (auto simp: fused_ok_def)
    then have "distinct (map (\<lambda>r. ck_ID (sr_Chunk r)) (map snd m))" using ok by (simp only: fused_ok_def)
    then have "distinct (map (\<lambda>r. ck_ID (sr_Chunk r)) (sort_func cmp_ranked (map snd m)))"
      by (metis mset_sort_func mset_map mset_eq_imp_distinct_iff)
    then show ?thesis unfolding srt by (metis distinct_take take_map)
  qed
  moreover have "int (length rs) \<le> limit" using lim by (simp add: rs)
  ultimately show ?thesis by blast
qed

definition sample_chunk :: "int64 \<Rightarrow> int64 \<Rightarrow> Chunk" where
  "sample_chunk i project =
     \<lparr>ck_ID = i, ck_ProjectID = project, ck_SourceID = 3, ck_SnapshotID = 4, ck_Heading = ''h'', ck_Text = ''t'',
      ck_Language = ''en'', ck_StartOffset = 0, ck_EndOffset = 1, ck_ParserVersion = ''v1'',
      ck_ObservedAt = Time 5 UTC, ck_Current = True\<rparr>"

theorem fuse_respects_filter_witness:
  "\<exists>rs. Fuse [\<lparr>cd_Chunk = sample_chunk 1 7, cd_LexicalRank = 2, cd_VectorRank = 0\<rparr>,
              \<lparr>cd_Chunk = sample_chunk 2 7, cd_LexicalRank = 1, cd_VectorRank = 1\<rparr>,
              \<lparr>cd_Chunk = sample_chunk 3 8, cd_LexicalRank = 1, cd_VectorRank = 0\<rparr>]
            \<lparr>sf_ProjectID = 7, sf_SourceIDs = [], sf_Cutoff = Time 9 UTC\<rparr> 10 60 = Inr rs \<and>
       list_all (\<lambda>r. ck_ProjectID (sr_Chunk r) = 7) rs \<and> ordered_by cmp_result rs"
proof -
  define cs where "cs = [\<lparr>cd_Chunk = sample_chunk 1 7, cd_LexicalRank = 2, cd_VectorRank = 0\<rparr>,
              \<lparr>cd_Chunk = sample_chunk 2 7, cd_LexicalRank = 1, cd_VectorRank = 1\<rparr>,
              \<lparr>cd_Chunk = sample_chunk 3 8, cd_LexicalRank = 1, cd_VectorRank = 0\<rparr>]"
  define f where "f = \<lparr>sf_ProjectID = 7, sf_SourceIDs = [], sf_Cutoff = Time 9 UTC\<rparr>"
  obtain rs where "Fuse cs f 10 60 = Inr rs" by (simp add: Fuse_def f_def is_zero_def)
  from this fuse_respects_filter [OF this] show ?thesis
    unfolding cs_def f_def by (auto simp: accessible_chunk_def list_all_iff)
qed

end
