(* ===== verification/Analysis.thy ===== *)
theory Analysis
  imports Go_Base Go_Float Go_Lifecycle Access Knowledge
begin

text \<open>
  Package \<open>internal/analysis\<close>: analysis runs with their transitions and the validation of their
  evidence, feedback and selections, the agent guard, the publication gate, and the provider
  manager with its concurrency gate. \<open>json.Valid\<close> and the decoding of an output are arguments.
  A run is a value: \<open>cloneRun\<close> only copies memory and has no counterpart.
\<close>

section \<open>Runs\<close>

datatype analysis_error = AnErrInvalidRun | AnErrSchema | AnErrEvidence | AnErrSelection | AnErrProviderUnavailable
  | AnErrInvalidProviderConfig | AnErrProviderQuota | AnErrContext

datatype RunState = RunQueued | RunRunning | RunSucceeded | RunFailed | RunCancelled | RunStateOther string

record UsageRecord =
  us_InputTokens :: int64
  us_OutputTokens :: int64
  us_Cost :: f64
  us_Currency :: string

record Claim =
  cm_Text :: string
  cm_Citations :: "Citation list"

record AnalysisOutput =
  ao_Summary :: string
  ao_Claims :: "Claim list"

record Run =
  rn_ID :: int64
  rn_SeriesID :: int64
  rn_ProjectID :: int64
  rn_ParentRunID :: "int64 option"
  rn_Kind :: string
  rn_State :: RunState
  rn_PromptVersion :: string
  rn_SchemaVersion :: string
  rn_RetrievalVersion :: string
  rn_Provider :: string
  rn_Model :: string
  rn_Language :: string
  rn_RequestedBy :: int64
  rn_Reason :: string
  rn_Cutoff :: gotime
  rn_CreatedAt :: gotime
  rn_StartedAt :: "gotime option"
  rn_FinishedAt :: "gotime option"
  rn_Output :: string
  rn_Evidence :: "Citation list"
  rn_Usage :: UsageRecord
  rn_FailureCode :: string

text \<open>The conditions that \<open>NewRun\<close> and \<open>ValidateForPersistence\<close> both start with.\<close>

definition run_identity_missing :: "Run \<Rightarrow> bool" where
  "run_identity_missing r \<longleftrightarrow> rn_ID r \<le> 0 \<or> rn_SeriesID r \<le> 0 \<or> rn_ProjectID r \<le> 0 \<or>
     trim_space (rn_Kind r) = '''' \<or> trim_space (rn_PromptVersion r) = '''' \<or>
     trim_space (rn_SchemaVersion r) = '''' \<or> trim_space (rn_RetrievalVersion r) = '''' \<or>
     trim_space (rn_Provider r) = '''' \<or> trim_space (rn_Model r) = '''' \<or>
     trim_space (rn_Language r) = '''' \<or> rn_RequestedBy r \<le> 0 \<or>
     is_zero (rn_Cutoff r) \<or> is_zero (rn_CreatedAt r)"

definition NewRun :: "Run \<Rightarrow> analysis_error + Run" where
  "NewRun r =
     (if run_identity_missing r then Inl AnErrInvalidRun
      else Inr (r\<lparr>rn_Provider := trim_space (rn_Provider r), rn_Model := trim_space (rn_Model r),
                 rn_Language := trim_space (rn_Language r), rn_Reason := trim_space (rn_Reason r),
                 rn_State := RunQueued, rn_Output := [], rn_Evidence := []\<rparr>))"

definition run_Start :: "Run \<Rightarrow> gotime \<Rightarrow> analysis_error + Run" where
  "run_Start r now =
     (if rn_State r \<noteq> RunQueued \<or> before now (rn_CreatedAt r) then Inl AnErrInvalidRun
      else Inr (r\<lparr>rn_State := RunRunning, rn_StartedAt := Some (utc now)\<rparr>))"

fun claim_citations :: "(int64 \<rightharpoonup> Citation) \<Rightarrow> Citation list \<Rightarrow> Citation list \<Rightarrow> analysis_error + Citation list" where
  "claim_citations accessible [] ev = Inr ev"
| "claim_citations accessible (c # cs) ev =
     (if accessible (ci_ChunkID c) \<noteq> Some c then Inl AnErrEvidence
      else claim_citations accessible cs (if c \<in> set ev then ev else ev @ [c]))"

fun claims_loop :: "(int64 \<rightharpoonup> Citation) \<Rightarrow> Claim list \<Rightarrow> Citation list \<Rightarrow> analysis_error + Citation list" where
  "claims_loop accessible [] ev = Inr ev"
| "claims_loop accessible (c # cs) ev =
     (if trim_space (cm_Text c) = '''' \<or> cm_Citations c = [] then Inl AnErrEvidence
      else bindE (claim_citations accessible (cm_Citations c) ev) (claims_loop accessible cs))"

definition validateOutput ::
    "(string \<Rightarrow> bool) \<Rightarrow> (string \<Rightarrow> AnalysisOutput option) \<Rightarrow> string \<Rightarrow> (int64 \<rightharpoonup> Citation) \<Rightarrow> analysis_error + Citation list" where
  "validateOutput json_valid decode raw accessible =
     (if \<not> json_valid raw then Inl AnErrSchema
      else case decode raw of
        None \<Rightarrow> Inl AnErrSchema
      | Some out \<Rightarrow>
          if trim_space (ao_Summary out) = '''' \<or> ao_Claims out = [] then Inl AnErrSchema
          else claims_loop accessible (ao_Claims out) [])"

definition usage_Validate :: "UsageRecord \<Rightarrow> analysis_error option" where
  "usage_Validate u =
     (if us_InputTokens u < 0 \<or> us_OutputTokens u < 0 \<or> flt (us_Cost u) (Fin 0) then Some AnErrInvalidRun else None)"

definition not_started_by :: "Run \<Rightarrow> gotime \<Rightarrow> bool" where
  "not_started_by r now \<longleftrightarrow> (case rn_StartedAt r of None \<Rightarrow> True | Some s \<Rightarrow> before now s)"

definition run_Succeed ::
    "(string \<Rightarrow> bool) \<Rightarrow> (string \<Rightarrow> AnalysisOutput option) \<Rightarrow> Run \<Rightarrow> string \<Rightarrow> (int64 \<rightharpoonup> Citation) \<Rightarrow> UsageRecord \<Rightarrow>
     gotime \<Rightarrow> analysis_error + Run" where
  "run_Succeed json_valid decode r raw accessible usage now =
     (if rn_State r \<noteq> RunRunning \<or> not_started_by r now \<or> \<not> json_valid raw then Inl AnErrSchema
      else bindE (validateOutput json_valid decode raw accessible) (\<lambda>evidence.
        case usage_Validate usage of Some e \<Rightarrow> Inl e
        | None \<Rightarrow> Inr (r\<lparr>rn_State := RunSucceeded, rn_FinishedAt := Some (utc now), rn_Output := raw,
                        rn_Evidence := evidence, rn_Usage := usage\<rparr>)))"

definition run_Fail :: "Run \<Rightarrow> string \<Rightarrow> gotime \<Rightarrow> analysis_error + Run" where
  "run_Fail r code now =
     (if rn_State r \<noteq> RunRunning \<or> trim_space code = '''' \<or> not_started_by r now then Inl AnErrInvalidRun
      else Inr (r\<lparr>rn_State := RunFailed, rn_FinishedAt := Some (utc now), rn_FailureCode := trim_space code\<rparr>))"

definition run_Cancel :: "Run \<Rightarrow> gotime \<Rightarrow> analysis_error + Run" where
  "run_Cancel r now =
     (if rn_State r \<noteq> RunRunning \<or> not_started_by r now then Inl AnErrInvalidRun
      else Inr (r\<lparr>rn_State := RunCancelled, rn_FinishedAt := Some (utc now)\<rparr>))"

definition FinishInterrupted :: "Run \<Rightarrow> gotime \<Rightarrow> analysis_error + Run" where
  "FinishInterrupted r now = (if rn_State r \<noteq> RunRunning then Inl AnErrInvalidRun else run_Cancel r now)"

text \<open>The map of the stored evidence that \<open>ValidateForPersistence\<close> rebuilds.\<close>

fun evidence_map :: "Citation list \<Rightarrow> (int64 \<rightharpoonup> Citation) \<Rightarrow> analysis_error + (int64 \<rightharpoonup> Citation)" where
  "evidence_map [] m = Inr m"
| "evidence_map (c # cs) m =
     (if ci_SnapshotID c \<le> 0 \<or> ci_ChunkID c \<le> 0 \<or> ci_StartOffset c < 0 \<or> ci_EndOffset c \<le> ci_StartOffset c
      then Inl AnErrEvidence
      else case m (ci_ChunkID c) of
        Some prior \<Rightarrow> if prior \<noteq> c then Inl AnErrEvidence else evidence_map cs (m(ci_ChunkID c \<mapsto> c))
      | None \<Rightarrow> evidence_map cs (m(ci_ChunkID c \<mapsto> c)))"

definition succeeded_error ::
    "(string \<Rightarrow> bool) \<Rightarrow> (string \<Rightarrow> AnalysisOutput option) \<Rightarrow> Run \<Rightarrow> analysis_error option" where
  "succeeded_error json_valid decode r =
     (case evidence_map (rn_Evidence r) Map.empty of Inl e \<Rightarrow> Some e
      | Inr accessible \<Rightarrow>
          case validateOutput json_valid decode (rn_Output r) accessible of Inl e \<Rightarrow> Some e
          | Inr evidence \<Rightarrow> if evidence \<noteq> rn_Evidence r then Some AnErrEvidence else None)"

definition state_error ::
    "(string \<Rightarrow> bool) \<Rightarrow> (string \<Rightarrow> AnalysisOutput option) \<Rightarrow> Run \<Rightarrow> analysis_error option" where
  "state_error json_valid decode r =
     (let hasOutput = rn_Output r \<noteq> []; hasEvidence = rn_Evidence r \<noteq> [];
          invalid_when = (\<lambda>b. if b then Some AnErrInvalidRun else None) in
      case rn_State r of
        RunQueued \<Rightarrow> invalid_when (rn_StartedAt r \<noteq> None \<or> rn_FinishedAt r \<noteq> None \<or> hasOutput \<or> hasEvidence \<or>
                       rn_FailureCode r \<noteq> '''')
      | RunRunning \<Rightarrow> invalid_when (rn_StartedAt r = None \<or> rn_FinishedAt r \<noteq> None \<or> hasOutput \<or> hasEvidence \<or>
                        rn_FailureCode r \<noteq> '''')
      | RunSucceeded \<Rightarrow>
          if rn_StartedAt r = None \<or> rn_FinishedAt r = None \<or> \<not> hasOutput \<or> \<not> hasEvidence \<or> rn_FailureCode r \<noteq> ''''
          then Some AnErrEvidence else succeeded_error json_valid decode r
      | RunFailed \<Rightarrow> invalid_when (rn_StartedAt r = None \<or> rn_FinishedAt r = None \<or> hasOutput \<or> hasEvidence \<or>
                       trim_space (rn_FailureCode r) = '''')
      | RunCancelled \<Rightarrow> invalid_when (rn_StartedAt r = None \<or> rn_FinishedAt r = None \<or> hasOutput \<or> hasEvidence \<or>
                          rn_FailureCode r \<noteq> '''')
      | RunStateOther _ \<Rightarrow> Some AnErrInvalidRun)"

definition run_times_wrong :: "Run \<Rightarrow> bool" where
  "run_times_wrong r \<longleftrightarrow>
     (case rn_StartedAt r of None \<Rightarrow> False | Some s \<Rightarrow> before s (rn_CreatedAt r)) \<or>
     (case rn_FinishedAt r of None \<Rightarrow> False
      | Some f \<Rightarrow> (case rn_StartedAt r of None \<Rightarrow> True | Some s \<Rightarrow> before f s))"

definition parent_invalid :: "int64 option \<Rightarrow> int64 \<Rightarrow> bool" where
  "parent_invalid parent self = (case parent of None \<Rightarrow> False | Some p \<Rightarrow> p \<le> 0 \<or> p = self)"

definition ValidateForPersistence ::
    "(string \<Rightarrow> bool) \<Rightarrow> (string \<Rightarrow> AnalysisOutput option) \<Rightarrow> Run \<Rightarrow> analysis_error option" where
  "ValidateForPersistence json_valid decode r =
     (if run_identity_missing r \<or> parent_invalid (rn_ParentRunID r) (rn_ID r)
      then Some AnErrInvalidRun
      else case usage_Validate (rn_Usage r) of Some e \<Rightarrow> Some e
        | None \<Rightarrow> if run_times_wrong r then Some AnErrInvalidRun else state_error json_valid decode r)"

section \<open>Feedback, selections, questions\<close>

record Feedback =
  fb_ID :: int64
  fb_RunID :: int64
  fb_ActorID :: int64
  fb_Rating :: string
  fb_Note :: string
  fb_RequestID :: string
  fb_CreatedAt :: gotime

definition feedback_Validate :: "Feedback \<Rightarrow> Run \<Rightarrow> analysis_error option" where
  "feedback_Validate v r =
     (if fb_ID v \<le> 0 \<or> fb_RunID v \<noteq> rn_ID r \<or> fb_ActorID v \<le> 0 \<or> rn_State r \<noteq> RunSucceeded \<or>
         fb_Rating v \<notin> set [''faithful'', ''partial'', ''not_faithful'', ''correct'', ''incorrect''] \<or>
         trim_space (fb_Note v) = '''' \<or> trim_space (fb_RequestID v) = '''' \<or> is_zero (fb_CreatedAt v)
      then Some AnErrInvalidRun else None)"

definition same_request :: "Feedback \<Rightarrow> Feedback \<Rightarrow> bool" where
  "same_request prior v \<longleftrightarrow> fb_RequestID prior = fb_RequestID v \<and> fb_ActorID prior = fb_ActorID v \<and>
     fb_RunID prior = fb_RunID v"

definition AppendFeedback :: "Feedback list \<Rightarrow> Run \<Rightarrow> Feedback \<Rightarrow> analysis_error + Feedback list" where
  "AppendFeedback hist r v =
     (case feedback_Validate v r of Some e \<Rightarrow> Inl e
      | None \<Rightarrow> (case find (\<lambda>prior. same_request prior v) hist of
            Some prior \<Rightarrow> if prior = v then Inr hist else Inl AnErrInvalidRun
          | None \<Rightarrow> Inr (hist @ [v])))"

record Selection =
  sl_ID :: int64
  sl_SeriesID :: int64
  sl_RunID :: int64
  sl_ActorID :: int64
  sl_Version :: int64
  sl_RequestID :: string
  sl_SelectedAt :: gotime

definition Select :: "Selection list \<Rightarrow> Run \<Rightarrow> Selection \<Rightarrow> analysis_error + Selection list" where
  "Select hist r v =
     (if rn_State r \<noteq> RunSucceeded \<or> sl_ID v \<le> 0 \<or> sl_RunID v \<noteq> rn_ID r \<or> sl_SeriesID v \<noteq> rn_SeriesID r \<or>
         sl_ActorID v \<le> 0 \<or> is_zero (sl_SelectedAt v) \<or> trim_space (sl_RequestID v) = ''''
      then Inl AnErrSelection
      else if hist = [] \<and> sl_Version v \<noteq> 1 then Inl AnErrSelection
      else if hist \<noteq> [] \<and> sl_Version v \<noteq> wrap64 (sl_Version (last hist) + 1) then Inl AnErrSelection
      else case find (\<lambda>prior. sl_RequestID prior = sl_RequestID v) hist of
          Some prior \<Rightarrow> if prior = v then Inr hist else Inl AnErrSelection
        | None \<Rightarrow> Inr (hist @ [v]))"

record AnalysisQuery =
  aq_ProjectID :: int64
  aq_Question :: string
  aq_Cutoff :: gotime
  aq_SourceIDs :: "int64 list"
  aq_MaxResults :: int
  aq_MaxOutputBytes :: int64

definition query_Validate :: "AnalysisQuery \<Rightarrow> analysis_error option" where
  "query_Validate q =
     (if aq_ProjectID q \<le> 0 \<or> trim_space (aq_Question q) = '''' \<or> is_zero (aq_Cutoff q) \<or> aq_MaxResults q < 1 \<or>
         aq_MaxResults q > 100 \<or> aq_MaxOutputBytes q < 1 \<or> aq_MaxOutputBytes q > 1048576
      then Some AnErrInvalidRun
      else if length (aq_Question q) > 4096 \<or> CHR 0x00 \<in> set (aq_Question q) \<or> length (aq_SourceIDs q) > 32
      then Some AnErrInvalidRun
      else if list_ex (\<lambda>s. s \<le> 0) (aq_SourceIDs q) \<or> has_dup [] (aq_SourceIDs q) then Some AnErrInvalidRun
      else None)"

section \<open>Guard and publication gate\<close>

datatype guard_error = GuErrToolNotAllowed | GuErrActionNotAllowed | GuErrConfirmation | GuErrBudgetExceeded

record Guard =
  gu_tools :: "string list"

definition NewGuard :: "string list \<Rightarrow> guard_error + Guard" where
  "NewGuard tools =
     (if tools = [] then Inl GuErrToolNotAllowed
      else if list_ex (\<lambda>t. trim_space t = '''') tools then Inl GuErrToolNotAllowed
      else Inr \<lparr>gu_tools = tools\<rparr>)"

definition AuthorizeTool :: "Guard option \<Rightarrow> string \<Rightarrow> guard_error option" where
  "AuthorizeTool guard tool =
     (case guard of None \<Rightarrow> Some GuErrToolNotAllowed
      | Some g \<Rightarrow> if tool \<notin> set (gu_tools g) then Some GuErrToolNotAllowed else None)"

definition AuthorizeProposal :: "string \<Rightarrow> guard_error option" where
  "AuthorizeProposal action =
     (if to_lower (trim_space action) \<in> set [''membership'', ''credential'', ''policy'', ''archive'', ''deletion'']
      then Some GuErrActionNotAllowed else None)"

record Confirmation =
  cf_Action :: string
  cf_Version :: int64
  cf_ExpiresAt :: gotime
  cf_UsedAt :: "gotime option"

definition Consume :: "Confirmation \<Rightarrow> string \<Rightarrow> int64 \<Rightarrow> gotime \<Rightarrow> guard_error + Confirmation" where
  "Consume c action version now =
     (if cf_UsedAt c \<noteq> None \<or> \<not> before now (cf_ExpiresAt c) \<or> cf_Action c \<noteq> action \<or> cf_Version c \<noteq> version
      then Inl GuErrConfirmation
      else Inr (c\<lparr>cf_UsedAt := Some (utc now)\<rparr>))"

record AgentBudget =
  ab_MaxSteps :: int
  ab_MaxOutput :: int64
  ab_MaxCost :: int64
  ab_Deadline :: gotime

record AgentUsage =
  au_Steps :: int
  au_Output :: int64
  au_Cost :: int64
  au_Now :: gotime

definition budget_Check :: "AgentBudget \<Rightarrow> AgentUsage \<Rightarrow> guard_error option" where
  "budget_Check b u =
     (if ab_MaxSteps b \<le> 0 \<or> ab_MaxOutput b \<le> 0 \<or> ab_MaxCost b \<le> 0 \<or> is_zero (ab_Deadline b) then Some GuErrBudgetExceeded
      else if au_Steps u > ab_MaxSteps b then Some GuErrBudgetExceeded
      else if au_Output u > ab_MaxOutput b then Some GuErrBudgetExceeded
      else if au_Cost u > ab_MaxCost b then Some GuErrBudgetExceeded
      else if after (au_Now u) (ab_Deadline b) then Some GuErrBudgetExceeded
      else None)"

datatype readiness_error = ErrDependenciesIncomplete | ErrInsufficientData

record Readiness =
  rd_CollectionComplete :: bool
  rd_MetricsComplete :: bool
  rd_ObservationCount :: int

definition AuthorizePublication :: "Readiness \<Rightarrow> readiness_error option" where
  "AuthorizePublication v =
     (if \<not> rd_CollectionComplete v \<or> \<not> rd_MetricsComplete v then Some ErrDependenciesIncomplete
      else if rd_ObservationCount v \<le> 0 then Some ErrInsufficientData else None)"

section \<open>Provider manager\<close>

record ProviderConfig =
  pc_Provider :: string
  pc_Model :: string
  pc_Capabilities :: "string list"
  pc_MaxConcurrency :: int
  pc_CostCurrency :: string
  pc_InputCost :: f64
  pc_OutputCost :: f64
  pc_Enabled :: bool
  pc_Revision :: int64

fun capabilities_loop :: "string list \<Rightarrow> string list \<Rightarrow> bool" where
  "capabilities_loop seen [] = True"
| "capabilities_loop seen (c0 # cs) =
     (let c = trim_space c0 in
      c \<noteq> '''' \<and> c \<notin> set seen \<and> c \<in> set [''analysis'', ''assistant''] \<and> capabilities_loop (c # seen) cs)"

definition provider_config_Validate :: "ProviderConfig \<Rightarrow> analysis_error option" where
  "provider_config_Validate c =
     (if trim_space (pc_Provider c) = '''' \<or> trim_space (pc_Model c) = '''' \<or> pc_Capabilities c = [] \<or>
         pc_MaxConcurrency c \<le> 0 \<or> pc_MaxConcurrency c > 64 \<or> pc_Revision c \<le> 0 \<or>
         flt (pc_InputCost c) (Fin 0) \<or> flt (pc_OutputCost c) (Fin 0) \<or>
         (flt (Fin 0) (pc_InputCost c) \<or> flt (Fin 0) (pc_OutputCost c)) \<and> trim_space (pc_CostCurrency c) = ''''
      then Some AnErrInvalidProviderConfig
      else if \<not> capabilities_loop [] (pc_Capabilities c) then Some AnErrInvalidProviderConfig
      else None)"

record ProviderSnapshot =
  ps_Provider :: string
  ps_Model :: string
  ps_Capabilities :: "string list"
  ps_MaxConcurrency :: int
  ps_Enabled :: bool
  ps_Revision :: int64
  ps_inputCost :: f64
  ps_outputCost :: f64
  ps_currency :: string

record ProviderUsage =
  pu_Runs :: int64
  pu_InputTokens :: int64
  pu_OutputTokens :: int64
  pu_Cost :: f64
  pu_Currency :: string

record ProviderStatus =
  pt_Configured :: bool
  pt_Enabled :: bool
  pt_Health :: string
  pt_Provider :: string
  pt_Model :: string
  pt_Capabilities :: "string list"
  pt_Revision :: int64
  pt_Usage :: ProviderUsage
  pt_Redacted :: bool

text \<open>
  A gate is a buffered channel: its capacity and the number of values in it. A caller keeps the
  channel it entered after \<open>Activate\<close> has replaced the manager's own, so the channels live in a
  list and are named by their index; \<open>pm_gate\<close> is the manager's current one.
\<close>

record ProviderManager =
  pm_active :: "ProviderSnapshot option"
  pm_health :: string
  pm_usage :: ProviderUsage
  pm_gate :: "nat option"
  pm_channels :: "(nat \<times> nat) list"

definition snapshot_of_config :: "ProviderConfig \<Rightarrow> ProviderSnapshot" where
  "snapshot_of_config c =
     \<lparr>ps_Provider = trim_space (pc_Provider c), ps_Model = trim_space (pc_Model c), ps_Capabilities = pc_Capabilities c,
      ps_MaxConcurrency = pc_MaxConcurrency c, ps_Enabled = pc_Enabled c, ps_Revision = pc_Revision c,
      ps_inputCost = pc_InputCost c, ps_outputCost = pc_OutputCost c, ps_currency = trim_space (pc_CostCurrency c)\<rparr>"

definition provider_Activate :: "ProviderManager \<Rightarrow> ProviderConfig \<Rightarrow> analysis_error + ProviderManager" where
  "provider_Activate m c =
     (case provider_config_Validate c of Some e \<Rightarrow> Inl e
      | None \<Rightarrow> Inr (m\<lparr>pm_active := Some (snapshot_of_config c), pm_gate := Some (length (pm_channels m)),
                     pm_channels := pm_channels m @ [(nat (pc_MaxConcurrency c), 0)],
                     pm_health := (if pc_Enabled c then ''healthy'' else ''disabled''),
                     pm_usage := (pm_usage m)\<lparr>pu_Currency := ps_currency (snapshot_of_config c)\<rparr>\<rparr>))"

definition empty_manager :: ProviderManager where
  "empty_manager = \<lparr>pm_active = None, pm_health = ''unavailable'',
     pm_usage = \<lparr>pu_Runs = 0, pu_InputTokens = 0, pu_OutputTokens = 0, pu_Cost = Fin 0, pu_Currency = ''''\<rparr>,
     pm_gate = None, pm_channels = []\<rparr>"

definition NewProviderManager :: "ProviderConfig option \<Rightarrow> analysis_error + ProviderManager" where
  "NewProviderManager config =
     (case config of None \<Rightarrow> Inr empty_manager | Some c \<Rightarrow> provider_Activate empty_manager c)"

definition provider_Snapshot :: "ProviderManager \<Rightarrow> analysis_error + ProviderSnapshot" where
  "provider_Snapshot m =
     (case pm_active m of None \<Rightarrow> Inl AnErrProviderUnavailable
      | Some s \<Rightarrow> if \<not> ps_Enabled s then Inl AnErrProviderUnavailable else Inr s)"

text \<open>
  The closure that \<open>Acquire\<close> returns: the frozen configuration, the channel it entered and the
  state of its \<open>sync.Once\<close>.
\<close>

record ProviderLease =
  pl_snapshot :: ProviderSnapshot
  pl_gate :: nat
  pl_released :: bool

text \<open>
  The part of \<open>Acquire\<close> after the snapshot, which another goroutine's \<open>Activate\<close> may precede. A select
  whose two cases are both ready takes any of them, \<open>pick\<close> says which; a nil channel is never ready.
\<close>

definition Acquire_enter ::
    "ProviderManager \<Rightarrow> ProviderSnapshot \<Rightarrow> bool \<Rightarrow> bool \<Rightarrow> analysis_error + ProviderManager \<times> ProviderLease" where
  "Acquire_enter m snapshot ctxDone pick =
     (let ready = (case pm_gate m of None \<Rightarrow> False
            | Some g \<Rightarrow> g < length (pm_channels m) \<and> snd (pm_channels m ! g) < fst (pm_channels m ! g)) in
      if ready \<and> (\<not> ctxDone \<or> pick) then
        let g = the (pm_gate m); (cap, n) = pm_channels m ! g in
        Inr (m\<lparr>pm_channels := (pm_channels m)[g := (cap, Suc n)]\<rparr>,
             \<lparr>pl_snapshot = snapshot, pl_gate = g, pl_released = False\<rparr>)
      else if ctxDone then Inl AnErrContext else Inl AnErrProviderQuota)"

definition provider_Acquire :: "ProviderManager \<Rightarrow> bool \<Rightarrow> bool \<Rightarrow> analysis_error + ProviderManager \<times> ProviderLease" where
  "provider_Acquire m ctxDone pick = bindE (provider_Snapshot m) (\<lambda>s. Acquire_enter m s ctxDone pick)"

definition charge :: "ProviderSnapshot \<Rightarrow> UsageRecord \<Rightarrow> ProviderUsage \<Rightarrow> ProviderUsage" where
  "charge s u p = p\<lparr>pu_Runs := wrap64 (pu_Runs p + 1), pu_InputTokens := wrap64 (pu_InputTokens p + us_InputTokens u),
     pu_OutputTokens := wrap64 (pu_OutputTokens p + us_OutputTokens u),
     pu_Cost := fadd (pu_Cost p)
       (fadd (fdiv (fmul (of_int_f64 (us_InputTokens u)) (ps_inputCost s)) (Fin 1000000))
             (fdiv (fmul (of_int_f64 (us_OutputTokens u)) (ps_outputCost s)) (Fin 1000000)))\<rparr>"

text \<open>The receive from an empty channel would block: it is \<open>None\<close>.\<close>

definition provider_release :: "ProviderManager \<Rightarrow> ProviderLease \<Rightarrow> UsageRecord \<Rightarrow> (ProviderManager \<times> ProviderLease) option" where
  "provider_release m l u =
     (if pl_released l then Some (m, l)
      else case pm_channels m ! pl_gate l of (cap, n) \<Rightarrow>
        if n = 0 then None
        else Some (m\<lparr>pm_channels := (pm_channels m)[pl_gate l := (cap, n - 1)],
                     pm_usage := charge (pl_snapshot l) u (pm_usage m)\<rparr>, l\<lparr>pl_released := True\<rparr>))"

definition MarkDegraded :: "ProviderManager \<Rightarrow> ProviderManager" where
  "MarkDegraded m =
     (case pm_active m of None \<Rightarrow> m | Some s \<Rightarrow> if ps_Enabled s then m\<lparr>pm_health := ''degraded''\<rparr> else m)"

definition provider_Status :: "ProviderManager \<Rightarrow> ProviderStatus" where
  "provider_Status m =
     (case pm_active m of
        None \<Rightarrow> \<lparr>pt_Configured = False, pt_Enabled = False, pt_Health = pm_health m, pt_Provider = '''', pt_Model = '''',
                pt_Capabilities = [], pt_Revision = 0, pt_Usage = pm_usage m, pt_Redacted = True\<rparr>
      | Some s \<Rightarrow> \<lparr>pt_Configured = True, pt_Enabled = ps_Enabled s, pt_Health = pm_health m, pt_Provider = ps_Provider s,
                pt_Model = ps_Model s, pt_Capabilities = ps_Capabilities s, pt_Revision = ps_Revision s,
                pt_Usage = pm_usage m, pt_Redacted = True\<rparr>)"

text \<open>
  Goroutines that use one manager: the snapshots read by callers that have not entered the gate
  yet, and every lease handed out.
\<close>

record provider_sys =
  py_manager :: ProviderManager
  py_pending :: "ProviderSnapshot list"
  py_leases :: "ProviderLease list"

inductive provider_step :: "provider_sys \<Rightarrow> provider_sys \<Rightarrow> bool" where
  activate: "provider_Activate (py_manager s) c = Inr m \<Longrightarrow> provider_step s (s\<lparr>py_manager := m\<rparr>)"
| snapshot: "provider_Snapshot (py_manager s) = Inr v \<Longrightarrow> provider_step s (s\<lparr>py_pending := py_pending s @ [v]\<rparr>)"
| enter: "v \<in> set (py_pending s) \<Longrightarrow> Acquire_enter (py_manager s) v ctxDone pick = Inr (m, l) \<Longrightarrow>
    provider_step s (s\<lparr>py_manager := m, py_leases := py_leases s @ [l]\<rparr>)"
| release: "i < length (py_leases s) \<Longrightarrow> provider_release (py_manager s) (py_leases s ! i) u = Some (m, l) \<Longrightarrow>
    provider_step s (s\<lparr>py_manager := m, py_leases := (py_leases s)[i := l]\<rparr>)"
| degrade: "provider_step s (s\<lparr>py_manager := MarkDegraded (py_manager s)\<rparr>)"

inductive_simps provider_step_iff: "provider_step s t"

section \<open>Evidence\<close>

definition collect :: "Citation list \<Rightarrow> Citation list \<Rightarrow> Citation list" where
  "collect ev cs = fold (\<lambda>c ev. if c \<in> set ev then ev else ev @ [c]) cs ev"

lemma collect_simps [simp]:
  "collect ev [] = ev" "collect ev (c # cs) = collect (if c \<in> set ev then ev else ev @ [c]) cs"
  "collect ev (cs @ ds) = collect (collect ev cs) ds"
  by (simp_all add: collect_def)

lemma set_collect [simp]: "set (collect ev cs) = set ev \<union> set cs"
  by (induction cs arbitrary: ev) auto

lemma distinct_collect: "distinct ev \<Longrightarrow> distinct (collect ev cs)"
  by (induction cs arbitrary: ev) auto

definition cites :: "(int64 \<rightharpoonup> Citation) \<Rightarrow> Citation \<Rightarrow> bool" where
  "cites accessible c \<longleftrightarrow> accessible (ci_ChunkID c) = Some c"

definition supported_claim :: "(int64 \<rightharpoonup> Citation) \<Rightarrow> Claim \<Rightarrow> bool" where
  "supported_claim accessible c \<longleftrightarrow> trim_space (cm_Text c) \<noteq> '''' \<and> cm_Citations c \<noteq> [] \<and> list_all (cites accessible) (cm_Citations c)"

lemma claim_citations_iff:
  "claim_citations accessible cs ev = Inr ev' \<longleftrightarrow> list_all (cites accessible) cs \<and> ev' = collect ev cs"
  by (induction cs arbitrary: ev) (auto simp: cites_def)

definition cited :: "Claim list \<Rightarrow> Citation list" where
  "cited cs = concat (map cm_Citations cs)"

lemma claims_loop_iff:
  "claims_loop accessible cs ev = Inr ev' \<longleftrightarrow> list_all (supported_claim accessible) cs \<and> ev' = collect ev (cited cs)"
  by (induction cs arbitrary: ev) (auto simp: cited_def supported_claim_def result_simps claim_citations_iff)

lemma validateOutput_iff:
  "validateOutput jv dec raw accessible = Inr ev \<longleftrightarrow>
     jv raw \<and> (\<exists>out. dec raw = Some out \<and> trim_space (ao_Summary out) \<noteq> '''' \<and> ao_Claims out \<noteq> [] \<and>
       list_all (supported_claim accessible) (ao_Claims out) \<and> ev = collect [] (cited (ao_Claims out)))"
  by (auto simp: validateOutput_def claims_loop_iff split: option.splits)

lemma cited_supported: "list_all (supported_claim accessible) cs \<Longrightarrow> list_all (cites accessible) (cited cs)"
  by (auto simp: cited_def supported_claim_def list_all_iff)

lemma supported_cong:
  "list_all (supported_claim a) cs \<Longrightarrow> list_all (cites b) (cited cs) \<Longrightarrow> list_all (supported_claim b) cs"
  by (auto simp: cited_def supported_claim_def list_all_iff)

lemma cited_not_Nil: "list_all (supported_claim a) cs \<Longrightarrow> cs \<noteq> [] \<Longrightarrow> cited cs \<noteq> []"
  by (cases cs) (auto simp: cited_def supported_claim_def)

text \<open>
  A successful run is grounded: \<open>Succeed\<close> returns a run exactly when the run was running, the clock
  has not gone back, the usage is not negative, and the output decodes to claims that each have a
  text and citations, all of them accessible; the evidence is every citation once, in order.
\<close>

theorem succeed_grounded:
  "run_Succeed jv dec r raw accessible u now = Inr v \<longleftrightarrow>
     rn_State r = RunRunning \<and> \<not> not_started_by r now \<and> usage_Validate u = None \<and> jv raw \<and>
     (\<exists>out. dec raw = Some out \<and> trim_space (ao_Summary out) \<noteq> '''' \<and> ao_Claims out \<noteq> [] \<and>
        list_all (supported_claim accessible) (ao_Claims out) \<and>
        v = r\<lparr>rn_State := RunSucceeded, rn_FinishedAt := Some (utc now), rn_Output := raw,
              rn_Evidence := collect [] (cited (ao_Claims out)), rn_Usage := u\<rparr>)"
  by (auto simp: run_Succeed_def result_simps validateOutput_iff split: option.splits)

section \<open>Every transition can be stored\<close>

definition cite_ok :: "Citation \<Rightarrow> bool" where
  "cite_ok c \<longleftrightarrow> 0 < ci_SnapshotID c \<and> 0 < ci_ChunkID c \<and> 0 \<le> ci_StartOffset c \<and> ci_StartOffset c < ci_EndOffset c"

lemma Cite_ok: "Cite results = Inr cs \<Longrightarrow> list_all cite_ok cs"
proof -
  have "Cite_loop results = Inr cs \<Longrightarrow> list_all cite_ok cs" for results cs
    by (induction results arbitrary: cs) (auto simp: result_simps cite_ok_def Let_def split: if_splits)
  then show "Cite results = Inr cs \<Longrightarrow> list_all cite_ok cs" by (auto simp: Cite_def split: if_splits)
qed

lemma evidence_map_ok:
  assumes "list_all (cites accessible) cs" "list_all cite_ok cs" "m \<subseteq>\<^sub>m accessible"
  shows "\<exists>m'. evidence_map cs m = Inr m' \<and> m \<subseteq>\<^sub>m m' \<and> list_all (cites m') cs"
  using assms
proof (induction cs arbitrary: m)
  case (Cons c cs)
  have c: "accessible (ci_ChunkID c) = Some c" and ok: "cite_ok c" using Cons.prems by (auto simp: cites_def)
  let ?m = "m(ci_ChunkID c \<mapsto> c)"
  have sub: "?m \<subseteq>\<^sub>m accessible" using Cons.prems(3) c by (simp add: map_le_def)
  have old: "m (ci_ChunkID c) = None \<or> m (ci_ChunkID c) = Some c"
    using Cons.prems(3) c unfolding map_le_def by (metis domIff)
  then have le: "m \<subseteq>\<^sub>m ?m" by (auto simp: map_le_def)
  obtain m' where m': "evidence_map cs ?m = Inr m'" "?m \<subseteq>\<^sub>m m'" "list_all (cites m') cs"
    using Cons.IH [OF _ _ sub] Cons.prems(1,2) unfolding list.pred_inject by blast
  have "evidence_map (c # cs) m = Inr m'"
    using ok old m'(1) by (auto simp: cite_ok_def)
  moreover have "cites m' c" using m'(2) by (auto simp: cites_def map_le_def)
  ultimately show ?case using m'(3) map_le_trans [OF le m'(2)] by auto
qed simp

lemma succeeded_ok:
  assumes "list_all (supported_claim accessible) (ao_Claims out)" "ao_Claims out \<noteq> []" "list_all cite_ok (cited (ao_Claims out))"
    and "dec (rn_Output r) = Some out" "jv (rn_Output r)" "trim_space (ao_Summary out) \<noteq> ''''"
    and "rn_Evidence r = collect [] (cited (ao_Claims out))"
  shows "succeeded_error jv dec r = None"
proof -
  have "list_all (cites accessible) (rn_Evidence r)" "list_all cite_ok (rn_Evidence r)"
    using cited_supported [OF assms(1)] assms(3,7) by (auto simp: list_all_iff)
  then obtain m where m: "evidence_map (rn_Evidence r) Map.empty = Inr m" "list_all (cites m) (rn_Evidence r)"
    using evidence_map_ok [of accessible "rn_Evidence r" Map.empty] by auto
  then have "list_all (supported_claim m) (ao_Claims out)"
    using assms(1,7) by (intro supported_cong [OF assms(1)]) (auto simp: list_all_iff)
  then have "validateOutput jv dec (rn_Output r) m = Inr (rn_Evidence r)"
    using assms by (auto simp: validateOutput_iff)
  with m(1) show ?thesis by (simp add: succeeded_error_def)
qed

datatype run_op = OpStart gotime | OpSucceed string "(int64 \<times> Citation) list" UsageRecord gotime
  | OpFail string gotime | OpCancel gotime | OpInterrupt gotime

fun run_step :: "(string \<Rightarrow> bool) \<Rightarrow> (string \<Rightarrow> AnalysisOutput option) \<Rightarrow> run_op \<Rightarrow> Run \<Rightarrow> analysis_error + Run" where
  "run_step jv dec (OpStart now) r = run_Start r now"
| "run_step jv dec (OpSucceed raw accessible u now) r = run_Succeed jv dec r raw (map_of accessible) u now"
| "run_step jv dec (OpFail code now) r = run_Fail r code now"
| "run_step jv dec (OpCancel now) r = run_Cancel r now"
| "run_step jv dec (OpInterrupt now) r = FinishInterrupted r now"

text \<open>The accessible citations come from \<open>Cite\<close>, and an empty text is not JSON.\<close>

fun run_op_ok :: "(string \<Rightarrow> bool) \<Rightarrow> run_op \<Rightarrow> bool" where
  "run_op_ok jv (OpSucceed raw accessible u now) \<longleftrightarrow> list_all (\<lambda>p. cite_ok (snd p)) accessible \<and> (raw = [] \<longrightarrow> \<not> jv raw)"
| "run_op_ok jv op \<longleftrightarrow> True"

definition sound_step :: "(string \<Rightarrow> bool) \<Rightarrow> (string \<Rightarrow> AnalysisOutput option) \<Rightarrow> run_op \<Rightarrow> Run \<Rightarrow> analysis_error + Run" where
  "sound_step jv dec op r = (if run_op_ok jv op then run_step jv dec op r else Inl AnErrInvalidRun)"

definition storable :: "(string \<Rightarrow> bool) \<Rightarrow> (string \<Rightarrow> AnalysisOutput option) \<Rightarrow> Run \<Rightarrow> bool" where
  "storable jv dec r \<longleftrightarrow> ValidateForPersistence jv dec r = None"

fun run_stage :: "RunState \<Rightarrow> int" where
  "run_stage RunQueued = 0"
| "run_stage RunRunning = 1"
| "run_stage _ = 2"

lemma storable_iff:
  "storable jv dec r \<longleftrightarrow> \<not> run_identity_missing r \<and> \<not> parent_invalid (rn_ParentRunID r) (rn_ID r) \<and>
     usage_Validate (rn_Usage r) = None \<and> \<not> run_times_wrong r \<and> state_error jv dec r = None"
  by (auto simp: storable_def ValidateForPersistence_def split: option.splits)

lemma running_shape:
  "storable jv dec r \<Longrightarrow> rn_State r = RunRunning \<Longrightarrow>
     rn_StartedAt r \<noteq> None \<and> rn_FinishedAt r = None \<and> rn_Output r = [] \<and> rn_Evidence r = [] \<and> rn_FailureCode r = ''''"
  by (auto simp: storable_iff state_error_def Let_def split: if_splits)

lemmas run_op_defs = run_Start_def run_Fail_def run_Cancel_def FinishInterrupted_def not_started_by_def

lemma finish_times:
  "\<not> run_times_wrong r \<Longrightarrow> \<not> not_started_by r now \<Longrightarrow> rn_StartedAt w = rn_StartedAt r \<Longrightarrow> rn_CreatedAt w = rn_CreatedAt r \<Longrightarrow>
     rn_FinishedAt w = Some (utc now) \<Longrightarrow> \<not> run_times_wrong w"
  by (auto simp: run_times_wrong_def not_started_by_def before_def split: option.splits)

lemma finish_storable:
  assumes "storable jv dec r" "rn_State r = RunRunning" "\<not> not_started_by r now"
  shows "trim_space code \<noteq> '''' \<Longrightarrow>
      storable jv dec (r\<lparr>rn_State := RunFailed, rn_FinishedAt := Some (utc now), rn_FailureCode := trim_space code\<rparr>)"
    and "storable jv dec (r\<lparr>rn_State := RunCancelled, rn_FinishedAt := Some (utc now)\<rparr>)"
  using running_shape [OF assms(1,2)] assms(1) finish_times [OF _ assms(3)]
  by (simp_all add: storable_iff run_identity_missing_def state_error_def)

lemma succeed_storable:
  assumes "storable jv dec r" "rn_State r = RunRunning" "\<not> not_started_by r now" "usage_Validate u = None"
    and out: "jv raw" "raw \<noteq> []" "dec raw = Some out" "trim_space (ao_Summary out) \<noteq> ''''" "ao_Claims out \<noteq> []"
      "list_all (supported_claim (map_of accessible)) (ao_Claims out)" "list_all (\<lambda>p. cite_ok (snd p)) accessible"
  shows "storable jv dec (r\<lparr>rn_State := RunSucceeded, rn_FinishedAt := Some (utc now), rn_Output := raw,
           rn_Evidence := collect [] (cited (ao_Claims out)), rn_Usage := u\<rparr>)" (is "storable jv dec ?v")
proof -
  have "list_all cite_ok (cited (ao_Claims out))"
    using cited_supported [OF out(6)] out(7) by (fastforce simp: list_all_iff cites_def dest: map_of_SomeD)
  then have "succeeded_error jv dec ?v = None" using out by (intro succeeded_ok) auto
  moreover have "collect [] (cited (ao_Claims out)) \<noteq> []"
    using cited_not_Nil [OF out(6,5)] set_collect [of "[]" "cited (ao_Claims out)"] by (metis set_empty sup_bot_left)
  ultimately have "state_error jv dec ?v = None"
    using running_shape [OF assms(1,2)] out(2) by (simp add: state_error_def)
  then show ?thesis
    using assms(1,4) finish_times [OF _ assms(3), of ?v] by (auto simp: storable_iff run_identity_missing_def)
qed

lemma sound_step_storable:
  assumes "storable jv dec r" "sound_step jv dec op r = Inr t"
  shows "storable jv dec t \<and> run_stage (rn_State r) < run_stage (rn_State t)"
proof -
  have step: "run_step jv dec op r = Inr t" "run_op_ok jv op" using assms(2) by (auto simp: sound_step_def split: if_splits)
  show ?thesis
  proof (cases op)
    case (OpStart now)
    with step have t: "t = r\<lparr>rn_State := RunRunning, rn_StartedAt := Some (utc now)\<rparr>" "rn_State r = RunQueued"
      "\<not> before now (rn_CreatedAt r)" by (auto simp: run_Start_def split: if_splits)
    moreover from t(2) assms(1) have "rn_FinishedAt r = None \<and> rn_Output r = [] \<and> rn_Evidence r = [] \<and> rn_FailureCode r = ''''"
      by (auto simp: storable_iff state_error_def Let_def split: if_splits)
    ultimately show ?thesis using assms(1)
      by (auto simp: storable_iff run_identity_missing_def state_error_def run_times_wrong_def before_def)
  next
    case (OpSucceed raw accessible u now)
    with step have "jv raw" "raw \<noteq> []" "list_all (\<lambda>p. cite_ok (snd p)) accessible" by (auto simp: succeed_grounded)
    with step OpSucceed show ?thesis using succeed_storable [OF assms(1)] by (auto simp: succeed_grounded)
  qed (use step finish_storable [OF assms(1)] in \<open>auto simp: run_op_defs split: if_splits option.splits\<close>)
qed

interpretation run_life: versioned "sound_step jv dec" "storable jv dec" "\<lambda>r. run_stage (rn_State r)"
  "\<lambda>r. run_stage (rn_State r) = 2"
proof
  fix r t :: Run and op
  assume r: "storable jv dec r" and t: "sound_step jv dec op r = Inr t"
  show "storable jv dec t" "t = r \<or> run_stage (rn_State r) < run_stage (rn_State t)"
    using sound_step_storable [OF r t] by auto
  have "run_stage (rn_State t) \<le> 2" by (cases "rn_State t") auto
  then show "run_stage (rn_State r) = 2 \<Longrightarrow> t = r" using sound_step_storable [OF r t] by simp
qed

text \<open>
  \<open>NewRun\<close> keeps the usage, the times and the failure code of its argument, so a run can be stored
  only when they are empty there, as they are at both callers.
\<close>

definition fresh_run :: "Run \<Rightarrow> bool" where
  "fresh_run v \<longleftrightarrow> rn_StartedAt v = None \<and> rn_FinishedAt v = None \<and> rn_FailureCode v = '''' \<and>
     usage_Validate (rn_Usage v) = None \<and> \<not> parent_invalid (rn_ParentRunID v) (rn_ID v)"

lemma NewRun_storable: "NewRun v = Inr r \<Longrightarrow> fresh_run v \<Longrightarrow> storable jv dec r"
  by (auto simp: NewRun_def fresh_run_def storable_iff run_identity_missing_def state_error_def run_times_wrong_def
      split: if_splits)

lemma sound_step_run: "list_all (run_op_ok jv) ops \<Longrightarrow> run_ops (run_step jv dec) r ops = run_ops (sound_step jv dec) r ops"
  by (rule run_ops_cong) (auto simp: sound_step_def list_all_iff)

text \<open>
  Whatever transitions are tried on a new run, in any order and at any times, the run passes the
  revalidation at the storage boundary, its stage never goes back, and once it has succeeded,
  failed or been cancelled nothing changes it again. (The accessible citations are well-formed, as
  those of \<open>Cite\<close> are, and the empty text is not JSON.)
\<close>

theorem run_transitions_storable:
  assumes "NewRun v = Inr r" "fresh_run v" "list_all (run_op_ok jv) (ops @ later)"
    and "run_ops (run_step jv dec) r ops = s"
  shows "ValidateForPersistence jv dec s = None \<and>
    run_stage (rn_State s) \<le> run_stage (rn_State (run_ops (run_step jv dec) s later)) \<and>
    (run_stage (rn_State s) = 2 \<longrightarrow> run_ops (run_step jv dec) s later = s)"
proof -
  have ops: "list_all (run_op_ok jv) ops" "list_all (run_op_ok jv) later" using assms(3) by simp_all
  have s: "s = run_ops (sound_step jv dec) r ops" using assms(4) sound_step_run [OF ops(1)] by simp
  have "storable jv dec s" unfolding s by (rule run_life.run_well_formed) (rule NewRun_storable [OF assms(1,2)])
  then show ?thesis
    using run_life.run_version_mono [of jv dec s later] run_life.run_terminal [of jv dec s later]
    by (simp add: sound_step_run [OF ops(2)] storable_def)
qed

definition sample_run :: Run where
  "sample_run = \<lparr>rn_ID = 1, rn_SeriesID = 2, rn_ProjectID = 3, rn_ParentRunID = None, rn_Kind = ''k'', rn_State = RunQueued,
     rn_PromptVersion = ''p'', rn_SchemaVersion = ''s'', rn_RetrievalVersion = ''r'', rn_Provider = ''m'', rn_Model = ''m'',
     rn_Language = ''en'', rn_RequestedBy = 4, rn_Reason = '''', rn_Cutoff = Time 5 UTC, rn_CreatedAt = Time 6 UTC,
     rn_StartedAt = None, rn_FinishedAt = None, rn_Output = [], rn_Evidence = [],
     rn_Usage = \<lparr>us_InputTokens = 0, us_OutputTokens = 0, us_Cost = Fin 0, us_Currency = ''''\<rparr>, rn_FailureCode = ''''\<rparr>"

definition sample_citation :: Citation where
  "sample_citation = \<lparr>ci_SnapshotID = 8, ci_ChunkID = 9, ci_StartOffset = 0, ci_EndOffset = 4\<rparr>"

definition sample_decode :: "string \<Rightarrow> AnalysisOutput option" where
  "sample_decode raw = Some \<lparr>ao_Summary = ''s'', ao_Claims = [\<lparr>cm_Text = ''t'', cm_Citations = [sample_citation]\<rparr>]\<rparr>"

definition sample_run_ops :: "run_op list" where
  "sample_run_ops = [OpStart (Time 7 UTC), OpSucceed ''{}'' [(9, sample_citation)] (rn_Usage sample_run) (Time 8 UTC)]"

theorem run_transitions_storable_witness:
  "\<exists>r. NewRun sample_run = Inr r \<and>
     rn_State (run_ops (run_step (\<lambda>s. s \<noteq> []) sample_decode) r sample_run_ops) = RunSucceeded \<and>
     ValidateForPersistence (\<lambda>s. s \<noteq> []) sample_decode
       (run_ops (run_step (\<lambda>s. s \<noteq> []) sample_decode) r sample_run_ops) = None"
proof -
  let ?jv = "\<lambda>s :: string. s \<noteq> []"
  have t: "trim_space ''k'' = ''k''" "trim_space ''p'' = ''p''" "trim_space ''s'' = ''s''" "trim_space ''r'' = ''r''"
    "trim_space ''m'' = ''m''" "trim_space ''en'' = ''en''" "trim_space ''t'' = ''t''" by code_simp+
  have r: "NewRun sample_run = Inr sample_run"
    by (simp add: NewRun_def sample_run_def run_identity_missing_def t is_zero_def)
  have f: "fresh_run sample_run" by (simp add: fresh_run_def sample_run_def usage_Validate_def parent_invalid_def)
  have ok: "list_all (run_op_ok ?jv) (sample_run_ops @ [])"
    by (simp add: sample_run_ops_def cite_ok_def sample_citation_def)
  have "rn_State (run_ops (run_step ?jv sample_decode) sample_run sample_run_ops) = RunSucceeded"
    by (simp add: sample_run_ops_def run_Start_def run_Succeed_def sample_run_def before_def not_started_by_def utc_def
        validateOutput_def sample_decode_def t sample_citation_def usage_Validate_def)
  with r run_transitions_storable [OF r f ok refl] show ?thesis by blast
qed

section \<open>Selections and feedback\<close>

text \<open>
  A history built by \<open>Select\<close> has the versions 1, 2, \<open>...\<close>; the version check runs before the search for
  the request, so the branch that accepts an exact replay is never taken: a recorded selection
  sent again is refused.
\<close>

definition versions_ok :: "Selection list \<Rightarrow> bool" where
  "versions_ok hist \<longleftrightarrow> map sl_Version hist = map int [1..<Suc (length hist)] \<and> int (length hist) < max_int64"

lemma versions_last: "versions_ok hist \<Longrightarrow> hist \<noteq> [] \<Longrightarrow> sl_Version (last hist) = int (length hist)"
proof -
  assume v: "versions_ok hist" and ne: "hist \<noteq> []"
  have "sl_Version (last hist) = last (map sl_Version hist)" using ne by (simp add: last_map)
  also have "\<dots> = int (length hist)" using v ne by (simp add: versions_ok_def last_map Suc_le_eq)
  finally show ?thesis .
qed

lemma select_next_version:
  assumes "versions_ok hist" "Select hist r v = Inr hist'"
  shows "sl_Version v = int (length hist) + 1 \<and> (hist' = hist @ [v] \<or> v \<in> set hist)"
proof -
  have "is_int64 (int (length hist) + 1)" using assms(1) by (simp add: versions_ok_def int64_defs)
  with assms versions_last [OF assms(1)] show ?thesis
    by (cases "hist = []") (auto simp: Select_def find_Some_iff split: if_splits option.splits)
qed

lemma version_bound: "versions_ok hist \<Longrightarrow> v \<in> set hist \<Longrightarrow> sl_Version v \<le> int (length hist)"
proof -
  assume "versions_ok hist" "v \<in> set hist"
  then have "sl_Version v \<in> set (map int [1..<Suc (length hist)])" unfolding versions_ok_def by (metis image_eqI list.set_map)
  then show ?thesis by auto
qed

lemma select_appends:
  assumes "versions_ok hist" "int (length hist) + 1 < max_int64" "Select hist r v = Inr hist'"
  shows "hist' = hist @ [v] \<and> versions_ok hist'"
  using select_next_version [OF assms(1,3)] version_bound [OF assms(1), of v] assms(1,2) by (auto simp: versions_ok_def)

lemma select_replay_refused: "versions_ok hist \<Longrightarrow> v \<in> set hist \<Longrightarrow> Select hist r v = Inl AnErrSelection"
  using select_next_version [of hist r v] version_bound [of hist v]
  by (cases "Select hist r v") (auto simp: Select_def split: if_splits option.splits)

text \<open>Feedback is idempotent: sending a recorded event again keeps the history, a changed one is refused.\<close>

lemma feedback_replay:
  assumes "AppendFeedback hist r v = Inr hist'"
  shows "AppendFeedback hist' r v = Inr hist'"
    and "same_request v w \<Longrightarrow> w \<noteq> v \<Longrightarrow> feedback_Validate w r = None \<Longrightarrow> AppendFeedback hist' r w = Inl AnErrInvalidRun"
proof -
  have same: "same_request v w \<Longrightarrow> (\<lambda>p. same_request p w) = (\<lambda>p. same_request p v)" for w
    by (auto simp: same_request_def)
  have ok: "feedback_Validate v r = None" using assms by (auto simp: AppendFeedback_def split: option.splits)
  have found: "find (\<lambda>p. same_request p v) hist' = Some v"
  proof (cases "find (\<lambda>p. same_request p v) hist")
    case None
    then have "hist' = hist @ [v]" "\<forall>p \<in> set hist. \<not> same_request p v"
      using assms ok None by (simp add: AppendFeedback_def) (use None in \<open>auto simp: find_None_iff\<close>)
    then show ?thesis
      by (auto simp: find_Some_iff nth_append same_request_def intro!: exI [of _ "length hist"])
  qed (use assms ok in \<open>auto simp: AppendFeedback_def split: if_splits\<close>)
  show "AppendFeedback hist' r v = Inr hist'" using found ok by (simp add: AppendFeedback_def)
  show "same_request v w \<Longrightarrow> w \<noteq> v \<Longrightarrow> feedback_Validate w r = None \<Longrightarrow> AppendFeedback hist' r w = Inl AnErrInvalidRun"
    using found same [of w] by (simp add: AppendFeedback_def)
qed

section \<open>The provider gate\<close>

definition held :: "nat \<Rightarrow> ProviderLease list \<Rightarrow> ProviderLease list" where
  "held g ls = filter (\<lambda>l. pl_gate l = g \<and> \<not> pl_released l) ls"

definition gates_ok :: "provider_sys \<Rightarrow> bool" where
  "gates_ok s \<longleftrightarrow>
     (\<forall>g < length (pm_channels (py_manager s)). case pm_channels (py_manager s) ! g of (cap, n) \<Rightarrow>
        n = length (held g (py_leases s)) \<and> n \<le> cap) \<and>
     (\<forall>l \<in> set (py_leases s). pl_gate l < length (pm_channels (py_manager s))) \<and>
     (case (pm_active (py_manager s), pm_gate (py_manager s)) of (None, None) \<Rightarrow> True
      | (Some v, Some g) \<Rightarrow> g < length (pm_channels (py_manager s)) \<and>
          int (fst (pm_channels (py_manager s) ! g)) = ps_MaxConcurrency v
      | _ \<Rightarrow> False)"

lemma held_simps [simp]:
  "held g [] = []"
  "held g (l # ls) = (if pl_gate l = g \<and> \<not> pl_released l then l # held g ls else held g ls)"
  "held g (ls @ ls') = held g ls @ held g ls'"
  by (simp_all add: held_def)

lemma held_release:
  "i < length ls \<Longrightarrow> \<not> pl_released (ls ! i) \<Longrightarrow>
     length (held g (ls[i := (ls ! i)\<lparr>pl_released := True\<rparr>])) = length (held g ls) - (if pl_gate (ls ! i) = g then 1 else 0)"
proof (induction ls arbitrary: i)
  case (Cons l ls)
  show ?case
  proof (cases i)
    case (Suc j)
    with Cons have *: "\<not> pl_released (ls ! j)" "j < length ls" by auto
    have "pl_gate (ls ! j) = g \<Longrightarrow> 0 < length (held g ls)"
      using * by (force simp: held_def filter_empty_conv length_greater_0_conv)
    with Cons.IH [OF *(2,1)] Suc show ?thesis by (auto simp: Suc_diff_le)
  qed (use Cons.prems in auto)
qed simp

lemma fst_update: "xs ! k = (cap, n) \<Longrightarrow> g < length xs \<Longrightarrow> fst (xs[k := (cap, j)] ! g) = fst (xs ! g)"
  by (cases "k = g") auto

lemma held_pos: "l \<in> set ls \<Longrightarrow> \<not> pl_released l \<Longrightarrow> 0 < length (held (pl_gate l) ls)"
  by (auto simp: held_def filter_empty_conv)

lemma gates_ok_activate:
  assumes "gates_ok s" "provider_Activate (py_manager s) c = Inr m"
  shows "gates_ok (s\<lparr>py_manager := m\<rparr>)"
proof -
  have c: "0 < pc_MaxConcurrency c"
    using assms(2) by (auto simp: provider_Activate_def provider_config_Validate_def split: option.splits if_splits)
  have none: "held (length (pm_channels (py_manager s))) (py_leases s) = []"
    using assms(1) by (auto simp: gates_ok_def held_def filter_empty_conv)
  show ?thesis
    using assms c none
    by (auto simp: gates_ok_def provider_Activate_def nth_append less_Suc_eq snapshot_of_config_def split: option.splits if_splits)
qed

lemma gates_ok_enter:
  assumes "gates_ok s" "Acquire_enter (py_manager s) v ctxDone pick = Inr (m, l)"
  shows "gates_ok (s\<lparr>py_manager := m, py_leases := py_leases s @ [l]\<rparr>)"
proof -
  obtain g cap n where g: "pm_gate (py_manager s) = Some g" "g < length (pm_channels (py_manager s))"
    "pm_channels (py_manager s) ! g = (cap, n)" "n < cap"
    "m = (py_manager s)\<lparr>pm_channels := (pm_channels (py_manager s))[g := (cap, Suc n)]\<rparr>"
    "l = \<lparr>pl_snapshot = v, pl_gate = g, pl_released = False\<rparr>"
    using assms(2) by (auto simp: Acquire_enter_def Let_def split: if_splits option.splits prod.splits)
  have chan: "case pm_channels m ! k of (cap, n) \<Rightarrow> n = length (held k (py_leases s @ [l])) \<and> n \<le> cap"
    if "k < length (pm_channels m)" for k
  proof (cases "k = g")
    case True
    then show ?thesis using assms(1) g by (fastforce simp: gates_ok_def)
  next
    case False
    then show ?thesis using assms(1) g that by (simp add: gates_ok_def)
  qed
  show ?thesis
    using assms(1) g chan by (auto simp: gates_ok_def split: option.splits)
qed

lemma gates_ok_release:
  assumes "gates_ok s" "i < length (py_leases s)" "provider_release (py_manager s) (py_leases s ! i) u = Some (m, l)"
  shows "gates_ok (s\<lparr>py_manager := m, py_leases := (py_leases s)[i := l]\<rparr>)"
proof (cases "pl_released (py_leases s ! i)")
  case True
  then have "m = py_manager s" "l = py_leases s ! i" using assms(3) by (simp_all add: provider_release_def)
  with assms(1) show ?thesis by simp
next
  case False
  define lease where "lease = py_leases s ! i"
  have in_set: "lease \<in> set (py_leases s)" using assms(2) by (simp add: lease_def)
  obtain cap n where g: "pm_channels (py_manager s) ! pl_gate lease = (cap, n)" "n \<noteq> 0"
    "m = (py_manager s)\<lparr>pm_channels := (pm_channels (py_manager s))[pl_gate lease := (cap, n - 1)],
           pm_usage := charge (pl_snapshot lease) u (pm_usage (py_manager s))\<rparr>" "l = lease\<lparr>pl_released := True\<rparr>"
    using assms(3) False by (auto simp: provider_release_def lease_def split: prod.splits if_splits)
  have len: "length (held k ((py_leases s)[i := l])) = length (held k (py_leases s)) - (if pl_gate lease = k then 1 else 0)" for k
    using held_release [OF assms(2) False, of k] g(4) by (simp add: lease_def)
  have chan: "case pm_channels m ! k of (cap, n) \<Rightarrow> n = length (held k ((py_leases s)[i := l])) \<and> n \<le> cap"
    if "k < length (pm_channels m)" for k
  proof (cases "k = pl_gate lease")
    case True
    then show ?thesis using assms(1) g len [of k] that by (fastforce simp: gates_ok_def)
  next
    case False
    then show ?thesis using assms(1) g len [of k] that by (simp add: gates_ok_def)
  qed
  have leases: "pl_gate x < length (pm_channels m)" if "x \<in> set ((py_leases s)[i := l])" for x
    using that assms(1) in_set g by (auto simp: gates_ok_def dest!: set_update_subset_insert [THEN subsetD])
  show ?thesis
    using assms(1) g chan leases by (auto simp: gates_ok_def fst_update split: option.splits)
qed

lemma gates_ok_step: "provider_step s t \<Longrightarrow> gates_ok s \<Longrightarrow> gates_ok t"
proof (induction rule: provider_step.induct)
  case (degrade s)
  then show ?case by (auto simp: gates_ok_def MarkDegraded_def split: option.splits)
next
  case (snapshot s v)
  then show ?case by (simp add: gates_ok_def split: option.splits)
qed (auto intro: gates_ok_activate gates_ok_enter gates_ok_release)

definition initial_provider :: "ProviderManager \<Rightarrow> provider_sys" where
  "initial_provider m = \<lparr>py_manager = m, py_pending = [], py_leases = []\<rparr>"

lemma gates_ok_initial: "NewProviderManager config = Inr m \<Longrightarrow> gates_ok (initial_provider m)"
proof -
  have e: "gates_ok (initial_provider empty_manager)" by (simp add: gates_ok_def initial_provider_def empty_manager_def)
  assume "NewProviderManager config = Inr m"
  then show ?thesis
    using e gates_ok_activate [OF e] by (auto simp: NewProviderManager_def initial_provider_def split: option.splits)
qed

lemma gates_ok_reachable: "provider_step\<^sup>*\<^sup>* s t \<Longrightarrow> gates_ok s \<Longrightarrow> gates_ok t"
  by (induction rule: rtranclp_induct) (auto intro: gates_ok_step)

text \<open>
  In every interleaving of activations, acquisitions and releases, the leases in use that entered
  one gate never exceed its capacity, the current gate has the capacity of the active
  configuration, and releasing any lease returns without blocking, once for its accounting.
\<close>

theorem provider_gate_bounded:
  assumes "NewProviderManager config = Inr m" "provider_step\<^sup>*\<^sup>* (initial_provider m) s"
  shows "list_all (\<lambda>g. length (held g (py_leases s)) \<le> fst (pm_channels (py_manager s) ! g))
      [0..<length (pm_channels (py_manager s))] \<and>
    (case (pm_active (py_manager s), pm_gate (py_manager s)) of
       (Some v, Some g) \<Rightarrow> int (length (held g (py_leases s))) \<le> ps_MaxConcurrency v | (a, b) \<Rightarrow> a = None \<and> b = None) \<and>
    list_all (\<lambda>l. provider_release (py_manager s) l u \<noteq> None) (py_leases s)"
proof -
  have ok: "gates_ok s" using gates_ok_reachable [OF assms(2) gates_ok_initial [OF assms(1)]] .
  have chan: "snd (pm_channels (py_manager s) ! g) = length (held g (py_leases s))"
    "length (held g (py_leases s)) \<le> fst (pm_channels (py_manager s) ! g)" if "g < length (pm_channels (py_manager s))" for g
    using ok that by (auto simp: gates_ok_def case_prod_beta)
  have "provider_release (py_manager s) l u \<noteq> None" if "l \<in> set (py_leases s)" for l
  proof (cases "pl_released l")
    case False
    have "pl_gate l < length (pm_channels (py_manager s))" using ok that by (simp add: gates_ok_def)
    with chan(1) [of "pl_gate l"] held_pos [OF that False] False show ?thesis
      by (cases "pm_channels (py_manager s) ! pl_gate l") (auto simp: provider_release_def)
  qed (simp add: provider_release_def)
  moreover have "case (pm_active (py_manager s), pm_gate (py_manager s)) of
       (Some v, Some g) \<Rightarrow> int (length (held g (py_leases s))) \<le> ps_MaxConcurrency v | (a, b) \<Rightarrow> a = None \<and> b = None"
    using ok chan(2) by (fastforce simp: gates_ok_def split: option.splits)
  ultimately show ?thesis using chan(2) by (simp add: list_all_iff)
qed

definition sample_provider :: ProviderConfig where
  "sample_provider = \<lparr>pc_Provider = ''p'', pc_Model = ''m'', pc_Capabilities = [''analysis''], pc_MaxConcurrency = 1,
     pc_CostCurrency = '''', pc_InputCost = Fin 0, pc_OutputCost = Fin 0, pc_Enabled = True, pc_Revision = 1\<rparr>"

lemma sample_provider_valid: "provider_config_Validate sample_provider = None"
proof -
  have "trim_space ''p'' = ''p''" "trim_space ''m'' = ''m''" "trim_space ''analysis'' = ''analysis''" by code_simp+
  then show ?thesis by (simp add: provider_config_Validate_def sample_provider_def Let_def)
qed

text \<open>
  The bound is per activation. Activating a configuration again makes a new gate while the leases of
  the old one are still in use, so two runs can be in flight although every configuration ever
  active allowed one.
\<close>

definition activated_twice :: provider_sys where
  "activated_twice = (let c = snapshot_of_config sample_provider in
     \<lparr>py_manager = \<lparr>pm_active = Some c, pm_health = ''healthy'', pm_usage = pm_usage empty_manager, pm_gate = Some 1,
                   pm_channels = [(1, 1), (1, 1)]\<rparr>,
      py_pending = [c, c],
      py_leases = [\<lparr>pl_snapshot = c, pl_gate = 0, pl_released = False\<rparr>, \<lparr>pl_snapshot = c, pl_gate = 1, pl_released = False\<rparr>]\<rparr>)"

lemma reactivation_exceeds_concurrency:
  "\<exists>m. NewProviderManager (Some sample_provider) = Inr m \<and> provider_step\<^sup>*\<^sup>* (initial_provider m) activated_twice"
proof -
  define c where "c = snapshot_of_config sample_provider"
  define man where "man = (\<lambda>g chs. \<lparr>pm_active = Some c, pm_health = ''healthy'', pm_usage = pm_usage empty_manager,
     pm_gate = Some g, pm_channels = chs\<rparr>)"
  define lease where "lease = (\<lambda>g. \<lparr>pl_snapshot = c, pl_gate = g, pl_released = False\<rparr>)"
  have cur: "(pm_usage empty_manager)\<lparr>pu_Currency := ps_currency c\<rparr> = pm_usage empty_manager"
    by (simp add: empty_manager_def c_def snapshot_of_config_def sample_provider_def)
  have act: "provider_Activate m sample_provider = Inr (man (length (pm_channels m)) (pm_channels m @ [(1, 0)]))"
    if "pm_usage m = pm_usage empty_manager" for m
    using cur that sample_provider_valid by (simp add: provider_Activate_def man_def c_def) (simp add: sample_provider_def)
  have snap: "provider_Snapshot (man g chs) = Inr c" for g chs
    by (simp add: provider_Snapshot_def man_def c_def snapshot_of_config_def sample_provider_def)
  have new: "NewProviderManager (Some sample_provider) = Inr (man 0 [(1, 0)])"
    using act [of empty_manager] by (simp add: NewProviderManager_def) (simp add: empty_manager_def)
  let ?s = "\<lambda>g chs p ls. \<lparr>py_manager = man g chs, py_pending = p, py_leases = ls\<rparr>"
  have 1: "provider_step (?s 0 [(1, 0)] [] []) (?s 0 [(1, 0)] [c] [])"
    using provider_step.snapshot [of "?s 0 [(1, 0)] [] []" c] snap by simp
  have 2: "provider_step (?s 0 [(1, 0)] [c] []) (?s 0 [(1, 1)] [c] [lease 0])"
    using provider_step.enter [of c "?s 0 [(1, 0)] [c] []" False True "man 0 [(1, 1)]" "lease 0"]
    by (simp add: Acquire_enter_def man_def lease_def)
  have 3: "provider_step (?s 0 [(1, 1)] [c] [lease 0]) (?s 1 [(1, 1), (1, 0)] [c] [lease 0])"
    using provider_step.activate [of "?s 0 [(1, 1)] [c] [lease 0]" sample_provider] act [of "man 0 [(1, 1)]"]
    by (simp add: man_def)
  have 4: "provider_step (?s 1 [(1, 1), (1, 0)] [c] [lease 0]) (?s 1 [(1, 1), (1, 0)] [c, c] [lease 0])"
    using provider_step.snapshot [of "?s 1 [(1, 1), (1, 0)] [c] [lease 0]" c] snap by simp
  have 5: "provider_step (?s 1 [(1, 1), (1, 0)] [c, c] [lease 0]) (?s 1 [(1, 1), (1, 1)] [c, c] [lease 0, lease 1])"
    using provider_step.enter [of c "?s 1 [(1, 1), (1, 0)] [c, c] [lease 0]" False True "man 1 [(1, 1), (1, 1)]" "lease 1"]
    by (simp add: Acquire_enter_def man_def lease_def)
  have end_state: "?s 1 [(1, 1), (1, 1)] [c, c] [lease 0, lease 1] = activated_twice"
    by (simp add: activated_twice_def man_def lease_def c_def Let_def)
  have "provider_step\<^sup>*\<^sup>* (initial_provider (man 0 [(1, 0)])) activated_twice"
    unfolding initial_provider_def end_state [symmetric]
    by (rule converse_rtranclp_into_rtranclp, rule 1, rule converse_rtranclp_into_rtranclp, rule 2,
        rule converse_rtranclp_into_rtranclp, rule 3, rule converse_rtranclp_into_rtranclp, rule 4,
        rule r_into_rtranclp, rule 5)
  with new show ?thesis by blast
qed

theorem provider_gate_bounded_witness:
  "\<exists>m. NewProviderManager (Some sample_provider) = Inr m \<and>
     list_all (\<lambda>l. provider_release (py_manager activated_twice) l (rn_Usage sample_run) \<noteq> None) (py_leases activated_twice)"
proof -
  obtain m where m: "NewProviderManager (Some sample_provider) = Inr m" "provider_step\<^sup>*\<^sup>* (initial_provider m) activated_twice"
    using reactivation_exceeds_concurrency by blast
  with provider_gate_bounded [OF m] show ?thesis by blast
qed

end
