(* ===== verification/AnalysisStore.thy ===== *)
theory AnalysisStore
  imports Analysis
begin

text \<open>
  The analysis tables of \<open>internal/platform/intelligencestore/extended.go\<close>: saving and reading runs
  with their citations, feedback and selections. A table is a list of rows with the constraints of
  migration 0005; a method that fails leaves the database as it is (its transaction is rolled
  back). The normal form of a \<open>jsonb\<close> column and the generation of identifiers are arguments;
  failures of the connection are not modelled.
\<close>

section \<open>Tables\<close>

datatype intel_error = IntelAccess access_error | IntelAnalysis analysis_error | IntelConstraint | IntelEncode | IntelIDs

record project_ref =
  xp_ID :: int64
  xp_Workspace :: int64
  xp_State :: string

record snapshot_ref =
  xs_ID :: int64
  xs_ProjectID :: int64
  xs_SourceID :: int64
  xs_ObservedAt :: gotime

record citation_row =
  xc_RunID :: int64
  xc_Ordinal :: nat
  xc_Citation :: Citation

text \<open>A row of \<open>analysis_series\<close> is its identifier, project and subject kind: the subject is the identifier.\<close>

record analysis_db =
  an_projects :: "project_ref list"
  an_snapshots :: "snapshot_ref list"
  an_chunks :: "Chunk list"
  an_series :: "(int64 \<times> int64 \<times> string) list"
  an_runs :: "Run list"
  an_citations :: "citation_row list"
  an_feedback :: "Feedback list"
  an_selections :: "Selection list"

definition find_project :: "project_ref list \<Rightarrow> int64 \<Rightarrow> project_ref option" where
  "find_project ps pid = find (\<lambda>p. xp_ID p = pid) ps"

definition project_gone :: "project_ref \<Rightarrow> bool" where
  "project_gone p \<longleftrightarrow> xp_State p = ''deleted'' \<or> xp_State p = ''deleting''"

definition authorizeProject :: "project_ref list \<Rightarrow> Principal \<Rightarrow> int64 \<Rightarrow> access_error option" where
  "authorizeProject ps actor pid =
     (case Authorize actor ActionIntelligenceRead of Some e \<Rightarrow> Some e
      | None \<Rightarrow> (case find_project ps pid of None \<Rightarrow> Some ErrNotFound
          | Some p \<Rightarrow> if xp_Workspace p \<noteq> pr_Workspace actor then Some ErrNotFound
              else if project_gone p then Some ErrNotFound else None))"

text \<open>The foreign key to \<open>projects\<close> and the trigger \<open>reject_deleted_project_write\<close>.\<close>

definition writable :: "project_ref list \<Rightarrow> int64 \<Rightarrow> bool" where
  "writable ps pid \<longleftrightarrow> (case find_project ps pid of None \<Rightarrow> False | Some p \<Rightarrow> \<not> project_gone p)"

definition is_int32 :: "int \<Rightarrow> bool" where
  "is_int32 i \<longleftrightarrow> - (2 ^ 31) \<le> i \<and> i < 2 ^ 31"

section \<open>Saving a run\<close>

definition parent_known :: "analysis_db \<Rightarrow> Run \<Rightarrow> bool" where
  "parent_known db r \<longleftrightarrow> (case rn_ParentRunID r of None \<Rightarrow> True
     | Some p \<Rightarrow> list_ex (\<lambda>q. rn_ID q = p \<and> rn_ProjectID q = rn_ProjectID r \<and> rn_SeriesID q = rn_SeriesID r) (an_runs db))"

definition citation_accessible :: "analysis_db \<Rightarrow> Run \<Rightarrow> Citation \<Rightarrow> bool" where
  "citation_accessible db r c \<longleftrightarrow>
     list_ex (\<lambda>k. ck_ID k = ci_ChunkID c \<and> ck_ProjectID k = rn_ProjectID r \<and> ck_SnapshotID k = ci_SnapshotID c \<and>
       \<not> after (ck_ObservedAt k) (pg_time (rn_Cutoff r)) \<and> ck_StartOffset k \<le> ci_StartOffset c \<and> ci_EndOffset c \<le> ck_EndOffset k \<and>
       list_ex (\<lambda>s. xs_ID s = ck_SnapshotID k \<and> xs_ProjectID s = rn_ProjectID r \<and> xs_SourceID s = ck_SourceID k \<and>
         \<not> after (xs_ObservedAt s) (pg_time (rn_Cutoff r))) (an_snapshots db)) (an_chunks db)"

fun check_citations :: "analysis_db \<Rightarrow> Run \<Rightarrow> Citation list \<Rightarrow> intel_error option" where
  "check_citations db r [] = None"
| "check_citations db r (c # cs) =
     (if \<not> is_int32 (ci_StartOffset c) \<or> \<not> is_int32 (ci_EndOffset c) then Some IntelEncode
      else if \<not> citation_accessible db r c then Some (IntelAnalysis AnErrEvidence)
      else check_citations db r cs)"

definition ensure_series :: "analysis_db \<Rightarrow> Run \<Rightarrow> intel_error + analysis_db" where
  "ensure_series db r =
     (if \<not> writable (an_projects db) (rn_ProjectID r) then Inl IntelConstraint
      else case find (\<lambda>(i, _, _). i = rn_SeriesID r) (an_series db) of
        None \<Rightarrow> Inr (db\<lparr>an_series := an_series db @ [(rn_SeriesID r, rn_ProjectID r, rn_Kind r)]\<rparr>)
      | Some (_, p, k) \<Rightarrow> if p = rn_ProjectID r \<and> k = rn_Kind r then Inr db else Inl (IntelAnalysis AnErrInvalidRun))"

definition run_row :: "(string \<Rightarrow> string option) \<Rightarrow> Run \<Rightarrow> Run option" where
  "run_row jsonb r =
     map_option (\<lambda>output. r\<lparr>rn_Cutoff := pg_time (rn_Cutoff r), rn_CreatedAt := pg_time (rn_CreatedAt r),
         rn_StartedAt := map_option pg_time (rn_StartedAt r), rn_FinishedAt := map_option pg_time (rn_FinishedAt r),
         rn_Output := output, rn_Evidence := []\<rparr>)
       (if rn_Output r = [] then Some [] else jsonb (rn_Output r))"

definition run_row_constraints :: "analysis_db \<Rightarrow> Run \<Rightarrow> bool" where
  "run_row_constraints db row \<longleftrightarrow> rn_ID row > 0 \<and> writable (an_projects db) (rn_ProjectID row) \<and>
     list_ex (\<lambda>(i, _, _). i = rn_SeriesID row) (an_series db) \<and>
     (case rn_ParentRunID row of None \<Rightarrow> True | Some p \<Rightarrow> list_ex (\<lambda>q. rn_ID q = p) (an_runs db)) \<and>
     rn_State row \<in> set [RunQueued, RunRunning, RunSucceeded, RunFailed, RunCancelled] \<and> rn_RequestedBy row > 0 \<and>
     (rn_State row = RunSucceeded \<longleftrightarrow> rn_Output row \<noteq> []) \<and> \<not> run_times_wrong row"

text \<open>
  A replay of a stored run is compared column by column. \<open>output\<close> and \<open>usage\<close> are \<open>jsonb\<close>, which the database compares by
  value; here the comparison is that of the printed text, so a replay that prints one number differently, as \<open>1.0\<close>
  for \<open>1\<close>, is refused here and accepted there. The tables are the same either way.
\<close>

definition insert_run :: "analysis_db \<Rightarrow> Run \<Rightarrow> intel_error + analysis_db" where
  "insert_run db row =
     (if \<not> run_row_constraints db row then Inl IntelConstraint
      else case find (\<lambda>q. rn_ID q = rn_ID row) (an_runs db) of
        None \<Rightarrow> Inr (db\<lparr>an_runs := an_runs db @ [row]\<rparr>)
      | Some q \<Rightarrow> if q = row then Inr db else Inl (IntelAnalysis AnErrInvalidRun))"

definition insert_citation :: "analysis_db \<Rightarrow> int64 \<Rightarrow> nat \<Rightarrow> Citation \<Rightarrow> intel_error + analysis_db" where
  "insert_citation db runID ordinal c =
     (case find (\<lambda>x. xc_RunID x = runID \<and> xc_Ordinal x = ordinal) (an_citations db) of
        Some x \<Rightarrow> if xc_Citation x = c then Inr db else Inl (IntelAnalysis AnErrInvalidRun)
      | None \<Rightarrow>
          if list_ex (\<lambda>x. xc_RunID x = runID \<and> ci_ChunkID (xc_Citation x) = ci_ChunkID c \<and>
               ci_StartOffset (xc_Citation x) = ci_StartOffset c \<and> ci_EndOffset (xc_Citation x) = ci_EndOffset c)
               (an_citations db)
          then Inl IntelConstraint
          else Inr (db\<lparr>an_citations := an_citations db @ [\<lparr>xc_RunID = runID, xc_Ordinal = ordinal, xc_Citation = c\<rparr>]\<rparr>))"

fun insert_citations :: "analysis_db \<Rightarrow> int64 \<Rightarrow> nat \<Rightarrow> Citation list \<Rightarrow> intel_error + analysis_db" where
  "insert_citations db runID ordinal [] = Inr db"
| "insert_citations db runID ordinal (c # cs) =
     bindE (insert_citation db runID ordinal c) (\<lambda>db'. insert_citations db' runID (Suc ordinal) cs)"

definition citations_of :: "analysis_db \<Rightarrow> int64 \<Rightarrow> citation_row list" where
  "citations_of db runID = filter (\<lambda>x. xc_RunID x = runID) (an_citations db)"

definition SaveRun ::
    "(string \<Rightarrow> bool) \<Rightarrow> (string \<Rightarrow> AnalysisOutput option) \<Rightarrow> (string \<Rightarrow> string option) \<Rightarrow> analysis_db \<Rightarrow> Run \<Rightarrow>
     intel_error + analysis_db \<times> Run" where
  "SaveRun jv dec jsonb db r =
     bindE (err_none IntelAnalysis (ValidateForPersistence jv dec r)) (\<lambda>_.
     bindE (require (finite_f64 (us_Cost (rn_Usage r))) IntelEncode) (\<lambda>_.
     bindE (require (parent_known db r) (IntelAnalysis AnErrInvalidRun)) (\<lambda>_.
     bindE (err_none id (check_citations db r (rn_Evidence r))) (\<lambda>_.
     bindE (ensure_series db r) (\<lambda>db1.
     bindE (some_or IntelConstraint (run_row jsonb r)) (\<lambda>row.
     bindE (insert_run db1 row) (\<lambda>db2.
     bindE (insert_citations db2 (rn_ID r) 0 (rn_Evidence r)) (\<lambda>db3.
     bindE (require (length (citations_of db3 (rn_ID r)) = length (rn_Evidence r)) (IntelAnalysis AnErrInvalidRun)) (\<lambda>_.
     Inr (db3, r))))))))))"

definition QueueRun ::
    "(string \<Rightarrow> bool) \<Rightarrow> (string \<Rightarrow> AnalysisOutput option) \<Rightarrow> (string \<Rightarrow> string option) \<Rightarrow> analysis_db \<Rightarrow> Principal \<Rightarrow> Run \<Rightarrow>
     intel_error + analysis_db \<times> Run" where
  "QueueRun jv dec jsonb db actor r =
     bindE (err_none IntelAccess (Authorize actor ActionProjectWrite)) (\<lambda>_.
     bindE (err_none IntelAccess (authorizeProject (an_projects db) actor (rn_ProjectID r))) (\<lambda>_.
     SaveRun jv dec jsonb db r))"

definition cmp_ordinal :: "citation_row \<Rightarrow> citation_row \<Rightarrow> int" where
  "cmp_ordinal a b = cmp_int (int (xc_Ordinal a)) (int (xc_Ordinal b))"

definition store_Run :: "analysis_db \<Rightarrow> Principal \<Rightarrow> int64 \<Rightarrow> intel_error + Run" where
  "store_Run db actor runID =
     (case find (\<lambda>q. rn_ID q = runID) (an_runs db) of None \<Rightarrow> Inl (IntelAccess ErrNotFound)
      | Some row \<Rightarrow>
          bindE (err_none IntelAccess (authorizeProject (an_projects db) actor (rn_ProjectID row))) (\<lambda>_.
          Inr (row\<lparr>rn_Output := (if rn_Output row = ''null'' then [] else rn_Output row),
                   rn_Evidence := map xc_Citation (sort_func cmp_ordinal (citations_of db runID))\<rparr>)))"

text \<open>The identifier source is a list of what its next calls return: an identifier or an error.\<close>

definition given_or_next :: "int64 option \<Rightarrow> int64 \<Rightarrow> intel_error + int64" where
  "given_or_next issued given = (if given \<noteq> 0 then Inr given else some_or IntelIDs issued)"

definition insert_feedback :: "analysis_db \<Rightarrow> Feedback \<Rightarrow> intel_error + analysis_db \<times> Feedback" where
  "insert_feedback db v =
     (case find (\<lambda>p. same_request p v) (an_feedback db) of
        Some p \<Rightarrow> if fb_Rating p = fb_Rating v \<and> fb_Note p = fb_Note v
            then Inr (db, v\<lparr>fb_ID := fb_ID p, fb_Rating := fb_Rating p, fb_Note := fb_Note p, fb_CreatedAt := fb_CreatedAt p\<rparr>)
            else Inl (IntelAnalysis AnErrInvalidRun)
      | None \<Rightarrow> if list_ex (\<lambda>p. fb_ID p = fb_ID v) (an_feedback db) then Inl IntelConstraint
            else let row = v\<lparr>fb_CreatedAt := pg_time (fb_CreatedAt v)\<rparr>
                 in Inr (db\<lparr>an_feedback := an_feedback db @ [row]\<rparr>, row))"

definition SaveFeedback ::
    "analysis_db \<Rightarrow> Principal \<Rightarrow> Feedback \<Rightarrow> int64 option \<Rightarrow> gotime \<Rightarrow> intel_error + analysis_db \<times> Feedback" where
  "SaveFeedback db actor v0 issued now =
     bindE (store_Run db actor (fb_RunID v0)) (\<lambda>r.
     bindE (err_none IntelAccess (Authorize actor ActionProjectWrite)) (\<lambda>_.
     bindE (given_or_next issued (fb_ID v0)) (\<lambda>i.
     let v = v0\<lparr>fb_ID := i, fb_ActorID := pr_ActorID actor, fb_CreatedAt := utc now\<rparr> in
     bindE (err_none IntelAnalysis (feedback_Validate v r)) (\<lambda>_. insert_feedback db v))))"

definition next_version :: "analysis_db \<Rightarrow> int64 \<Rightarrow> int64" where
  "next_version db series =
     fold max (map sl_Version (filter (\<lambda>s. sl_SeriesID s = series) (an_selections db))) 0 + 1"

definition selection_constraints :: "analysis_db \<Rightarrow> Selection \<Rightarrow> bool" where
  "selection_constraints db v \<longleftrightarrow> sl_ID v > 0 \<and> sl_ActorID v > 0 \<and> sl_Version v > 0 \<and> is_int64 (sl_Version v) \<and>
     list_ex (\<lambda>c. c \<noteq> CHR '' '') (sl_RequestID v) \<and>
     list_all (\<lambda>p. sl_ID p \<noteq> sl_ID v \<and>
       (sl_SeriesID p = sl_SeriesID v \<longrightarrow> sl_Version p \<noteq> sl_Version v \<and> sl_RequestID p \<noteq> sl_RequestID v)) (an_selections db)"

definition SelectRun ::
    "analysis_db \<Rightarrow> Principal \<Rightarrow> Selection \<Rightarrow> int64 option \<Rightarrow> gotime \<Rightarrow> intel_error + analysis_db \<times> Selection" where
  "SelectRun db actor v0 issued now =
     bindE (store_Run db actor (sl_RunID v0)) (\<lambda>r.
     bindE (err_none IntelAccess (Authorize actor ActionProjectWrite)) (\<lambda>_.
     bindE (require (rn_State r = RunSucceeded \<and> rn_SeriesID r = sl_SeriesID v0) (IntelAnalysis AnErrSelection)) (\<lambda>_.
     bindE (given_or_next issued (sl_ID v0)) (\<lambda>i.
     let v1 = v0\<lparr>sl_ID := i, sl_ActorID := pr_ActorID actor, sl_SelectedAt := utc now\<rparr>;
         n = next_version db (sl_SeriesID v1) in
     bindE (require (sl_Version v1 = 0 \<or> sl_Version v1 = n) (IntelAccess ErrVersionConflict)) (\<lambda>_.
     let v = v1\<lparr>sl_Version := n\<rparr> in
     bindE (require (selection_constraints db v) IntelConstraint) (\<lambda>_.
     Inr (db\<lparr>an_selections := an_selections db @ [v\<lparr>sl_SelectedAt := pg_time (sl_SelectedAt v)\<rparr>]\<rparr>, v)))))))"

section \<open>Runs are immutable\<close>

lemmas run_find_simps = find_Some_iff find_None_iff

lemma ensure_series_keeps: "ensure_series db r = Inr db1 \<Longrightarrow> an_runs db1 = an_runs db \<and> an_citations db1 = an_citations db \<and>
    an_projects db1 = an_projects db \<and> an_feedback db1 = an_feedback db \<and> an_selections db1 = an_selections db"
  by (auto simp: ensure_series_def split: if_splits option.splits)

lemma insert_run_keeps:
  "insert_run db row = Inr db1 \<Longrightarrow> an_citations db1 = an_citations db \<and> an_projects db1 = an_projects db \<and>
     (an_runs db1 = an_runs db \<and> find (\<lambda>q. rn_ID q = rn_ID row) (an_runs db) = Some row \<or>
      an_runs db1 = an_runs db @ [row] \<and> find (\<lambda>q. rn_ID q = rn_ID row) (an_runs db) = None)"
  by (auto simp: insert_run_def split: if_splits option.splits)

definition same_place :: "citation_row \<Rightarrow> citation_row \<Rightarrow> bool" where
  "same_place a b \<longleftrightarrow> xc_RunID a = xc_RunID b \<and> xc_Ordinal a = xc_Ordinal b"

definition places_ok :: "citation_row list \<Rightarrow> bool" where
  "places_ok xs \<longleftrightarrow> distinct (map (\<lambda>x. (xc_RunID x, xc_Ordinal x)) xs)"

lemma insert_citation_keeps:
  assumes "insert_citation db i n c = Inr db1" "places_ok (an_citations db)"
  shows "(\<exists>more. an_citations db1 = an_citations db @ more \<and> list_all (\<lambda>x. xc_RunID x = i) more) \<and> places_ok (an_citations db1) \<and>
    \<lparr>xc_RunID = i, xc_Ordinal = n, xc_Citation = c\<rparr> \<in> set (an_citations db1) \<and>
    an_runs db1 = an_runs db \<and> an_projects db1 = an_projects db"
proof (cases "find (\<lambda>x. xc_RunID x = i \<and> xc_Ordinal x = n) (an_citations db)")
  case None
  then have "\<forall>x \<in> set (an_citations db). \<not> (xc_RunID x = i \<and> xc_Ordinal x = n)" by (simp add: find_None_iff)
  with None assms show ?thesis by (auto simp: insert_citation_def places_ok_def split: if_splits)
next
  case (Some x)
  then have x: "x \<in> set (an_citations db)" "xc_RunID x = i" "xc_Ordinal x = n" by (auto simp: find_Some_iff)
  from Some assms(1) have db1: "db1 = db" "xc_Citation x = c" by (auto simp: insert_citation_def split: if_splits)
  have eq: "\<lparr>xc_RunID = i, xc_Ordinal = n, xc_Citation = c\<rparr> = x" using x db1 by (intro citation_row.equality) auto
  show ?thesis unfolding eq using x(1) db1(1) assms(2) by simp
qed

lemma insert_citations_keeps:
  assumes "insert_citations db i n cs = Inr db1" "places_ok (an_citations db)"
  shows "(\<exists>more. an_citations db1 = an_citations db @ more \<and> list_all (\<lambda>x. xc_RunID x = i) more) \<and> places_ok (an_citations db1) \<and>
    (\<forall>k < length cs. \<lparr>xc_RunID = i, xc_Ordinal = n + k, xc_Citation = cs ! k\<rparr> \<in> set (an_citations db1)) \<and>
    an_runs db1 = an_runs db \<and> an_projects db1 = an_projects db"
  using assms
proof (induction cs arbitrary: db n)
  case (Cons c cs)
  then obtain db' where db': "insert_citation db i n c = Inr db'" "insert_citations db' i (Suc n) cs = Inr db1"
    by (auto simp: result_simps)
  note one = insert_citation_keeps [OF db'(1) Cons.prems(2)]
  from one have "places_ok (an_citations db')" by simp
  note rest = Cons.IH [OF db'(2) this]
  have "\<lparr>xc_RunID = i, xc_Ordinal = n + k, xc_Citation = (c # cs) ! k\<rparr> \<in> set (an_citations db1)" if "k < length (c # cs)" for k
    using one rest that by (cases k) auto
  with one rest show ?case by fastforce
qed auto

text \<open>The identifiers of the runs and the places of the citations are unique; citations belong to saved runs.\<close>

definition analysis_db_ok :: "analysis_db \<Rightarrow> bool" where
  "analysis_db_ok db \<longleftrightarrow> distinct (map rn_ID (an_runs db)) \<and> places_ok (an_citations db) \<and>
     list_all (\<lambda>x. list_ex (\<lambda>q. rn_ID q = xc_RunID x) (an_runs db)) (an_citations db)"

lemma find_run_by_id: "distinct (map rn_ID qs) \<Longrightarrow> q \<in> set qs \<Longrightarrow> find (\<lambda>x. rn_ID x = rn_ID q) qs = Some q"
  by (induction qs) (auto simp: image_iff)

lemma SaveRun_steps:
  assumes "SaveRun jv dec jsonb db r = Inr (db3, v)"
  obtains db1 row db2 where "ValidateForPersistence jv dec r = None" "check_citations db r (rn_Evidence r) = None"
    "ensure_series db r = Inr db1" "run_row jsonb r = Some row" "insert_run db1 row = Inr db2"
    "insert_citations db2 (rn_ID r) 0 (rn_Evidence r) = Inr db3"
    "length (citations_of db3 (rn_ID r)) = length (rn_Evidence r)" "v = r"
  using assms by (auto simp: SaveRun_def result_simps)

lemma run_row_id: "run_row jsonb r = Some row \<Longrightarrow> rn_ID row = rn_ID r \<and> rn_ProjectID row = rn_ProjectID r"
  by (auto simp: run_row_def)

lemma SaveRun_effect:
  assumes "SaveRun jv dec jsonb db r = Inr (db', v)" "analysis_db_ok db"
  shows "analysis_db_ok db' \<and> (\<exists>runs cits. an_runs db' = an_runs db @ runs \<and> an_citations db' = an_citations db @ cits) \<and>
    (\<exists>row. run_row jsonb r = Some row \<and> find (\<lambda>q. rn_ID q = rn_ID r) (an_runs db') = Some row) \<and>
    length (citations_of db' (rn_ID r)) = length (rn_Evidence r) \<and>
    (\<forall>k < length (rn_Evidence r). \<lparr>xc_RunID = rn_ID r, xc_Ordinal = k, xc_Citation = rn_Evidence r ! k\<rparr> \<in> set (an_citations db')) \<and>
    an_projects db' = an_projects db"
proof -
  obtain db1 row db2 where s: "ensure_series db r = Inr db1" "run_row jsonb r = Some row" "insert_run db1 row = Inr db2"
    "insert_citations db2 (rn_ID r) 0 (rn_Evidence r) = Inr db'" "length (citations_of db' (rn_ID r)) = length (rn_Evidence r)"
    using assms(1) by (rule SaveRun_steps)
  note e = ensure_series_keeps [OF s(1)] and i = insert_run_keeps [OF s(3)] and id = run_row_id [OF s(2)]
  have "places_ok (an_citations db2)" using assms(2) e i by (auto simp: analysis_db_ok_def)
  note c = insert_citations_keeps [OF s(4) this]
  have runs: "an_runs db' = an_runs db \<and> find (\<lambda>q. rn_ID q = rn_ID r) (an_runs db) = Some row \<or>
      an_runs db' = an_runs db @ [row] \<and> find (\<lambda>q. rn_ID q = rn_ID r) (an_runs db) = None"
    using e i c id by auto
  then have "distinct (map rn_ID (an_runs db'))" using assms(2) id by (auto simp: analysis_db_ok_def find_None_iff) metis
  moreover have found: "find (\<lambda>q. rn_ID q = rn_ID r) (an_runs db') = Some row"
    using runs id by (auto simp: find_append)
  moreover have "list_ex (\<lambda>q. rn_ID q = xc_RunID x) (an_runs db')" if "x \<in> set (an_citations db')" for x
  proof (cases "xc_RunID x = rn_ID r")
    case True
    with found show ?thesis by (auto simp: find_Some_iff list_ex_iff dest: nth_mem)
  next
    case False
    with that c e i have "x \<in> set (an_citations db)" by (auto simp: list_all_iff)
    with assms(2) runs show ?thesis by (auto simp: analysis_db_ok_def list_all_iff)
  qed
  ultimately show ?thesis
    using s(2,5) c e i runs by (auto simp: analysis_db_ok_def list_all_iff)
qed

text \<open>What a saved run is when it is read: its times in microseconds, its output as \<open>jsonb\<close> prints it.\<close>

definition read_back :: "(string \<Rightarrow> string option) \<Rightarrow> Run \<Rightarrow> Run" where
  "read_back jsonb r =
     r\<lparr>rn_Cutoff := pg_time (rn_Cutoff r), rn_CreatedAt := pg_time (rn_CreatedAt r),
       rn_StartedAt := map_option pg_time (rn_StartedAt r), rn_FinishedAt := map_option pg_time (rn_FinishedAt r),
       rn_Output := (if rn_Output r = [] then [] else the (jsonb (rn_Output r)))\<rparr>"

lemma distinct_places: "places_ok xs \<Longrightarrow> distinct xs \<and> inj_on (\<lambda>x. (xc_RunID x, xc_Ordinal x)) (set xs)"
  by (simp add: places_ok_def distinct_map)

interpretation ordinal_order: comparator cmp_ordinal
  by standard (auto simp: cmp_ordinal_def cmp_int_def split: if_splits)

lemma citations_read_back:
  assumes ok: "places_ok (an_citations db)" and len: "length (citations_of db i) = length cs"
    and all: "\<forall>k < length cs. \<lparr>xc_RunID = i, xc_Ordinal = k, xc_Citation = cs ! k\<rparr> \<in> set (an_citations db)"
  shows "map xc_Citation (sort_func cmp_ordinal (citations_of db i)) = cs"
proof -
  define want where "want = map (\<lambda>k. \<lparr>xc_RunID = i, xc_Ordinal = k, xc_Citation = cs ! k\<rparr>) [0..<length cs]"
  have dw: "distinct want" by (auto simp: want_def distinct_map inj_on_def)
  have dc: "distinct (citations_of db i)" using distinct_places [OF ok] by (simp add: citations_of_def)
  have sub: "set want \<subseteq> set (citations_of db i)" using all by (auto simp: want_def citations_of_def)
  moreover have "card (set want) = card (set (citations_of db i))"
    using dw dc len by (simp add: distinct_card) (simp add: want_def)
  ultimately have "set want = set (citations_of db i)" by (intro card_subset_eq) auto
  then have "mset (citations_of db i) = mset want" using dw dc by (simp add: set_eq_iff_mset_eq_distinct)
  moreover have "ordered_by cmp_ordinal want"
    by (auto simp: ordered_by_def want_def sorted_wrt_map cmp_ordinal_def cmp_int_def intro: sorted_wrt_mono_rel [OF _ sorted_wrt_upt])
  moreover have "a = b" if "a \<in> set want" "b \<in> set want" "cmp_ordinal a b \<le> 0" "cmp_ordinal b a \<le> 0" for a b
    using that by (auto simp: want_def cmp_ordinal_def cmp_int_def split: if_splits)
  ultimately have "sort_func cmp_ordinal (citations_of db i) = want"
    using ordinal_order.sort_func_unique [of "citations_of db i" want] \<open>set want = set (citations_of db i)\<close>
    by (simp add: sort_result_def)
  then show ?thesis by (simp add: want_def comp_def map_nth)
qed

text \<open>
  C16: A saved run reads back: after \<open>SaveRun\<close> returns, \<open>Run\<close> gives any member who may read the project
  the same run with every citation in its order; only the times are cut to microseconds and the
  output is normalised by the database.
\<close>

theorem saved_run_reads_back:
  assumes "SaveRun jv dec jsonb db r = Inr (db', v)" "analysis_db_ok db"
    and "authorizeProject (an_projects db) actor (rn_ProjectID r) = None" "jsonb (rn_Output r) \<noteq> Some ''null''"
  shows "store_Run db' actor (rn_ID r) = Inr (read_back jsonb r)"
proof -
  note eff = SaveRun_effect [OF assms(1,2)]
  then obtain row where row: "run_row jsonb r = Some row" "find (\<lambda>q. rn_ID q = rn_ID r) (an_runs db') = Some row" by blast
  have cits: "map xc_Citation (sort_func cmp_ordinal (citations_of db' (rn_ID r))) = rn_Evidence r"
    using eff by (intro citations_read_back) (auto simp: analysis_db_ok_def)
  have "rn_Output row \<noteq> ''null''" using row(1) assms(4) by (auto simp: run_row_def split: if_splits)
  moreover have "row\<lparr>rn_Evidence := rn_Evidence r\<rparr> = read_back jsonb r"
    using row(1) by (auto simp: run_row_def read_back_def)
  ultimately show ?thesis
    using row run_row_id [OF row(1)] assms(3) eff by (simp add: store_Run_def cits)
qed

datatype intel_op = OpSave Run | OpQueue Principal Run | OpFeedback Principal Feedback "int64 option" gotime
  | OpSelect Principal Selection "int64 option" gotime

fun intel_step ::
    "(string \<Rightarrow> bool) \<Rightarrow> (string \<Rightarrow> AnalysisOutput option) \<Rightarrow> (string \<Rightarrow> string option) \<Rightarrow> intel_op \<Rightarrow> analysis_db \<Rightarrow> intel_error + analysis_db" where
  "intel_step jv dec jsonb (OpSave r) db = map_sum id fst (SaveRun jv dec jsonb db r)"
| "intel_step jv dec jsonb (OpQueue actor r) db = map_sum id fst (QueueRun jv dec jsonb db actor r)"
| "intel_step jv dec jsonb (OpFeedback actor v issued now) db = map_sum id fst (SaveFeedback db actor v issued now)"
| "intel_step jv dec jsonb (OpSelect actor v issued now) db = map_sum id fst (SelectRun db actor v issued now)"

text \<open>The histories of the rows: what a later database keeps of an earlier one.\<close>

definition extends :: "analysis_db \<Rightarrow> analysis_db \<Rightarrow> bool" where
  "extends db0 db \<longleftrightarrow> prefix (an_runs db0) (an_runs db) \<and> prefix (an_citations db0) (an_citations db) \<and>
     prefix (an_feedback db0) (an_feedback db) \<and> prefix (an_selections db0) (an_selections db)"

lemma SaveRun_extends: "SaveRun jv dec jsonb db r = Inr (db', v) \<Longrightarrow> analysis_db_ok db \<Longrightarrow> analysis_db_ok db' \<and> extends db db'"
proof -
  assume s: "SaveRun jv dec jsonb db r = Inr (db', v)" and ok: "analysis_db_ok db"
  have "an_feedback db' = an_feedback db \<and> an_selections db' = an_selections db"
  proof -
    have one: "insert_citation d i n c = Inr e \<Longrightarrow> an_feedback e = an_feedback d \<and> an_selections e = an_selections d" for d i n c e
      by (auto simp: insert_citation_def split: option.splits if_splits)
    have "insert_citations d i n cs = Inr e \<Longrightarrow> an_feedback e = an_feedback d \<and> an_selections e = an_selections d" for d i n cs e
      by (induction cs arbitrary: d n) (auto simp: result_simps dest!: one)
    with s show ?thesis
      by (elim SaveRun_steps) (auto simp: insert_run_def dest!: ensure_series_keeps split: if_splits option.splits)
  qed
  then show ?thesis using SaveRun_effect [OF s ok] by (auto simp: extends_def)
qed

definition grown :: "analysis_db \<Rightarrow> analysis_db \<Rightarrow> bool" where
  "grown db0 db \<longleftrightarrow> analysis_db_ok db \<and> extends db0 db"

lemma extends_trans: "extends a b \<Longrightarrow> extends b c \<Longrightarrow> extends a c"
  by (auto simp: extends_def)

interpretation intel_store: preserving "intel_step jv dec jsonb" "grown db0"
proof
  fix s t :: analysis_db and a
  assume g: "grown db0 s" and t: "intel_step jv dec jsonb a s = Inr t"
  have "analysis_db_ok t \<and> extends s t"
  proof (cases a)
    case (OpSave r)
    with g t show ?thesis by (auto simp: map_sum_Inr_iff grown_def dest: SaveRun_extends)
  next
    case (OpQueue actor r)
    with g t show ?thesis by (auto simp: map_sum_Inr_iff grown_def QueueRun_def result_simps dest: SaveRun_extends)
  next
    case (OpFeedback actor v issued now)
    with g t show ?thesis
      by (auto simp: map_sum_Inr_iff grown_def SaveFeedback_def insert_feedback_def result_simps Let_def extends_def
          analysis_db_ok_def split: option.splits if_splits)
  next
    case (OpSelect actor v issued now)
    with g t show ?thesis
      by (auto simp: map_sum_Inr_iff grown_def SelectRun_def result_simps Let_def extends_def analysis_db_ok_def)
  qed
  with g show "grown db0 t" by (auto simp: grown_def intro: extends_trans)
qed

text \<open>
  C15: Analysis history is immutable: whatever the store is asked to do, every run, citation, feedback
  and selection that was saved stays in its place unchanged, and no two runs share an identifier.
\<close>

theorem analysis_history_immutable:
  assumes "analysis_db_ok db"
  shows "extends db (run_ops (intel_step jv dec jsonb) db ops) \<and>
    distinct (map rn_ID (an_runs (run_ops (intel_step jv dec jsonb) db ops)))"
proof -
  have "grown db db" using assms by (simp add: grown_def extends_def)
  from intel_store.run_well_formed [OF this, of jv dec jsonb ops] show ?thesis by (simp add: grown_def analysis_db_ok_def)
qed

text \<open>
  The other side of it: a transition of a saved run can never be saved. The state is one of the
  columns that must not differ, and nothing else writes the table, so a queued run stays queued.
\<close>

lemma transition_never_saved:
  assumes "analysis_db_ok db" "q \<in> set (an_runs db)" "rn_ID r = rn_ID q" "rn_State r \<noteq> rn_State q"
  shows "SaveRun jv dec jsonb db r \<noteq> Inr (db', v)"
proof
  assume s: "SaveRun jv dec jsonb db r = Inr (db', v)"
  obtain row where row: "run_row jsonb r = Some row" "find (\<lambda>x. rn_ID x = rn_ID r) (an_runs db') = Some row"
    using SaveRun_effect [OF s assms(1)] by blast
  have "q \<in> set (an_runs db')" using SaveRun_effect [OF s assms(1)] assms(2) by auto
  moreover have "distinct (map rn_ID (an_runs db'))" using SaveRun_effect [OF s assms(1)] by (simp add: analysis_db_ok_def)
  ultimately have "row = q" using row(2) find_run_by_id assms(3) by fastforce
  then show False using row(1) assms(4) by (auto simp: run_row_def)
qed

definition sample_intel_db :: analysis_db where
  "sample_intel_db = \<lparr>an_projects = [\<lparr>xp_ID = 3, xp_Workspace = 1, xp_State = ''active''\<rparr>], an_snapshots = [], an_chunks = [],
     an_series = [], an_runs = [], an_citations = [], an_feedback = [], an_selections = []\<rparr>"

definition sample_reader :: Principal where
  "sample_reader = \<lparr>pr_ActorID = 4, pr_Kind = ActorMember, pr_Role = RoleAnalyst, pr_Status = StatusActive, pr_Scopes = [],
     pr_Version = 1, pr_Workspace = 1\<rparr>"

lemma sample_run_storable: "ValidateForPersistence (\<lambda>s. s \<noteq> []) sample_decode sample_run = None"
proof -
  have t: "trim_space ''k'' = ''k''" "trim_space ''p'' = ''p''" "trim_space ''s'' = ''s''" "trim_space ''r'' = ''r''"
    "trim_space ''m'' = ''m''" "trim_space ''en'' = ''en''" by code_simp+
  show ?thesis
    by (simp add: ValidateForPersistence_def sample_run_def run_identity_missing_def t is_zero_def parent_invalid_def
        usage_Validate_def run_times_wrong_def state_error_def)
qed

lemma sample_run_saved: "\<exists>db v. SaveRun (\<lambda>s. s \<noteq> []) sample_decode Some sample_intel_db sample_run = Inr (db, v)"
  by (simp add: SaveRun_def sample_run_storable)
    (simp add: sample_run_def sample_intel_db_def parent_known_def ensure_series_def writable_def find_project_def
      project_gone_def run_row_def insert_run_def run_row_constraints_def run_times_wrong_def citations_of_def finite_f64_def
      is_nan_def is_inf_def pg_time_def before_def)

theorem saved_run_reads_back_witness:
  "\<exists>db v. SaveRun (\<lambda>s. s \<noteq> []) sample_decode Some sample_intel_db sample_run = Inr (db, v) \<and>
     store_Run db sample_reader 1 = Inr (read_back Some sample_run)"
proof -
  obtain db v where s: "SaveRun (\<lambda>s. s \<noteq> []) sample_decode Some sample_intel_db sample_run = Inr (db, v)"
    using sample_run_saved by blast
  have "analysis_db_ok sample_intel_db" by (simp add: analysis_db_ok_def sample_intel_db_def places_ok_def)
  moreover have "authorizeProject (an_projects sample_intel_db) sample_reader (rn_ProjectID sample_run) = None" by code_simp
  moreover have "Some (rn_Output sample_run) \<noteq> Some ''null''" by (simp add: sample_run_def)
  moreover have "rn_ID sample_run = 1" by (simp add: sample_run_def)
  ultimately show ?thesis using s saved_run_reads_back [OF s] by metis
qed

theorem analysis_history_immutable_witness:
  "extends sample_intel_db (run_ops (intel_step (\<lambda>s. s \<noteq> []) sample_decode Some) sample_intel_db [OpSave sample_run]) \<and>
   an_runs (run_ops (intel_step (\<lambda>s. s \<noteq> []) sample_decode Some) sample_intel_db [OpSave sample_run]) \<noteq> []"
proof -
  have ok: "analysis_db_ok sample_intel_db" by (simp add: analysis_db_ok_def sample_intel_db_def places_ok_def)
  obtain db v where s: "SaveRun (\<lambda>s. s \<noteq> []) sample_decode Some sample_intel_db sample_run = Inr (db, v)"
    using sample_run_saved by blast
  from SaveRun_effect [OF s ok] have "an_runs db \<noteq> []" by auto
  then have "an_runs (run_ops (intel_step (\<lambda>s. s \<noteq> []) sample_decode Some) sample_intel_db [OpSave sample_run]) \<noteq> []"
    using s by simp
  with analysis_history_immutable [OF ok] show ?thesis by blast
qed

end
