(* ===== verification/Assistant.thy ===== *)
theory Assistant
  imports Access Go_Lifecycle
begin

text \<open>
  Package \<open>internal/analysis/agent\<close>: the assistant's proposals, the service that proposes and confirms
  them over a store, the in-memory store, and the planners. The store is an interface of the code:
  here the service takes its operations as arguments, the locale \<open>proposal_store\<close> states what the
  service relies on, and it is interpreted on \<open>MemoryStore\<close> here and on the PostgreSQL store in
  \<open>AssistantStore\<close>. The model of a language provider (\<open>adk.go\<close>) is third-party code; a planner is an
  argument, and so are SHA-256, JSON, the clock and the source of tokens.
\<close>

section \<open>Proposals\<close>

datatype agent_error = AgErrInvalid | AgErrActionNotAllowed | AgErrExpired | AgErrAlreadyUsed | AgErrStateChanged
  | AgErrQuotaExceeded | AgErrUnavailable | AgErrIdempotencyKey | AgErrRunLimit | AgErrProjectNotFound
  | AgErrCompletion | AgErrConstraint | AgErrContext | AgErrIDs | AgErrToken | AgErrExecutor | AgAccess access_error

datatype AgentAction = ActionRepositoryAdd | AgentActionOther string

datatype ProposalStatus = AwaitingConfirmation | Executing | Executed | ProposalFailed | ProposalExpired
  | ProposalStatusOther string

definition ProposalLifetime :: duration where
  "ProposalLifetime = 10 * minute"

record RepositoryAdd =
  ra_ProjectID :: int64
  ra_ProjectVersion :: int64
  ra_URL :: string
  ra_Role :: string

record Draft =
  dr_Action :: AgentAction
  dr_Repository :: RepositoryAdd
  dr_Effect :: string
  dr_QuotaName :: string
  dr_QuotaCost :: int
  dr_QuotaLimit :: int
  dr_QuotaUsed :: int
  dr_ActionCount :: int
  dr_Unrecognized :: "string list"

definition draft_Validate :: "Draft \<Rightarrow> agent_error option" where
  "draft_Validate d =
     (if dr_Action d \<noteq> ActionRepositoryAdd \<or> dr_ActionCount d \<noteq> 1 \<or> dr_Unrecognized d \<noteq> [] then Some AgErrActionNotAllowed
      else
        let input = dr_Repository d in
        if ra_ProjectID input \<le> 0 \<or> ra_ProjectVersion input \<le> 0 \<or> \<not> prefix ''https://'' (ra_URL input) \<or>
           trim_space (ra_Role input) = '''' \<or> trim_space (dr_Effect d) = '''' \<or>
           dr_QuotaName d \<noteq> ''project_repositories'' \<or> dr_QuotaCost d \<noteq> 1 \<or> dr_QuotaLimit d \<le> 0 \<or> dr_QuotaUsed d < 0
        then Some AgErrInvalid
        else if wrap64 (dr_QuotaUsed d + dr_QuotaCost d) > dr_QuotaLimit d then Some AgErrQuotaExceeded
        else None)"

record Quota =
  qu_Name :: string
  qu_Cost :: int
  qu_Remaining :: int

record ProposalResult =
  pz_RepositoryID :: int64
  pz_AuditEventID :: int64

record Proposal =
  pp_ID :: int64
  pp_WorkspaceID :: int64
  pp_ActorID :: int64
  pp_ActorVersion :: int64
  pp_Status :: ProposalStatus
  pp_Action :: AgentAction
  pp_Inputs :: RepositoryAdd
  pp_Resources :: "string list"
  pp_Effect :: string
  pp_Quota :: Quota
  pp_ExpiresAt :: gotime
  pp_ConfirmationToken :: string
  pp_TokenDigest :: string
  pp_CreatedAt :: gotime
  pp_ConsumedAt :: "gotime option"
  pp_Result :: ProposalResult

record ProjectSnapshot =
  sn_ProjectVersion :: int64
  sn_Lifecycle :: string
  sn_QuotaUsed :: int
  sn_QuotaLimit :: int

definition no_result :: ProposalResult where
  "no_result = \<lparr>pz_RepositoryID = 0, pz_AuditEventID = 0\<rparr>"

section \<open>The service\<close>

text \<open>
  The operations of \<open>Store\<close> over a state \<open>'st\<close>: \<open>Create\<close>, \<open>Begin\<close> and \<open>Finish\<close>. An operation returns its
  new state also when it reports an error (\<open>Begin\<close> records an expiry).
\<close>

type_synonym 'st store_Create = "'st \<Rightarrow> Proposal \<Rightarrow> string \<Rightarrow> string \<Rightarrow> 'st \<times> (agent_error + Proposal \<times> bool)"
type_synonym 'st store_Begin = "'st \<Rightarrow> int64 \<Rightarrow> Principal \<Rightarrow> string \<Rightarrow> string \<Rightarrow> gotime \<Rightarrow> 'st \<times> (agent_error + Proposal \<times> bool)"
type_synonym 'st store_Finish = "'st \<Rightarrow> int64 \<Rightarrow> ProposalStatus \<Rightarrow> ProposalResult \<Rightarrow> gotime \<Rightarrow> 'st \<times> (agent_error + Proposal)"
type_synonym 'st executor = "'st \<Rightarrow> Principal \<Rightarrow> RepositoryAdd \<Rightarrow> string \<Rightarrow> 'st \<times> (agent_error + ProposalResult)"
type_synonym 'st state_reader = "'st \<Rightarrow> Principal \<Rightarrow> RepositoryAdd \<Rightarrow> agent_error + ProjectSnapshot"

definition requestDigest :: "(string \<Rightarrow> string) \<Rightarrow> string \<Rightarrow> string" where
  "requestDigest sha256 s = sha256 (trim_space s)"

definition new_proposal ::
    "(string \<Rightarrow> string) \<Rightarrow> Principal \<Rightarrow> Draft \<Rightarrow> ProjectSnapshot \<Rightarrow> int64 \<Rightarrow> string \<Rightarrow> gotime \<Rightarrow> Proposal" where
  "new_proposal sha256 actor draft snapshot i token now =
     \<lparr>pp_ID = i, pp_WorkspaceID = pr_Workspace actor, pp_ActorID = pr_ActorID actor, pp_ActorVersion = pr_Version actor,
      pp_Status = AwaitingConfirmation, pp_Action = dr_Action draft, pp_Inputs = dr_Repository draft,
      pp_Resources = [''project:'' @ format_int (ra_ProjectID (dr_Repository draft)), ra_URL (dr_Repository draft)],
      pp_Effect = dr_Effect draft,
      pp_Quota = \<lparr>qu_Name = dr_QuotaName draft, qu_Cost = dr_QuotaCost draft,
                  qu_Remaining = wrap64 (sn_QuotaLimit snapshot - sn_QuotaUsed snapshot - dr_QuotaCost draft)\<rparr>,
      pp_ExpiresAt = time_add now ProposalLifetime, pp_ConfirmationToken = '''', pp_TokenDigest = sha256 token,
      pp_CreatedAt = now, pp_ConsumedAt = None, pp_Result = no_result\<rparr>"

text \<open>The planner, the identifier, the token and the clock are the values their calls return.\<close>

definition Propose ::
    "'st store_Create \<Rightarrow> 'st state_reader \<Rightarrow> (string \<Rightarrow> string) \<Rightarrow> (Principal \<Rightarrow> string \<Rightarrow> agent_error + Draft) \<Rightarrow>
     int64 option \<Rightarrow> string option \<Rightarrow> gotime \<Rightarrow> 'st \<Rightarrow> Principal \<Rightarrow> string \<Rightarrow> string \<Rightarrow> 'st \<times> (agent_error + Proposal)" where
  "Propose create state sha256 plan issued token now0 st actor message0 key0 =
     (let message = trim_space message0; key = trim_space key0; now = utc now0;
          checked =
            bindE (err_none AgAccess (Authorize actor ActionProjectWrite)) (\<lambda>_.
            bindE (require (message \<noteq> '''' \<and> length message \<le> 4000 \<and> key \<noteq> '''') AgErrInvalid) (\<lambda>_.
            bindE (plan actor message) (\<lambda>draft.
            bindE (err_none id (draft_Validate draft)) (\<lambda>_.
            bindE (state st actor (dr_Repository draft)) (\<lambda>snapshot.
            bindE (require (sn_Lifecycle snapshot = ''active'' \<and> sn_ProjectVersion snapshot = ra_ProjectVersion (dr_Repository draft))
                     AgErrStateChanged) (\<lambda>_.
            bindE (require (\<not> (sn_QuotaLimit snapshot \<le> 0 \<or>
                      wrap64 (sn_QuotaUsed snapshot + dr_QuotaCost draft) > sn_QuotaLimit snapshot)) AgErrQuotaExceeded) (\<lambda>_.
            bindE (some_or AgErrIDs issued) (\<lambda>i.
            bindE (some_or AgErrToken token) (\<lambda>tok.
            Inr (new_proposal sha256 actor draft snapshot i tok now, tok)))))))))) in
      case checked of
        Inl e \<Rightarrow> (st, Inl e)
      | Inr (proposal, tok) \<Rightarrow>
          (case create st proposal key (requestDigest sha256 message) of
             (st', Inl e) \<Rightarrow> (st', Inl e)
           | (st', Inr (created, replay)) \<Rightarrow> (st', Inr (if replay then created else created\<lparr>pp_ConfirmationToken := tok\<rparr>))))"

text \<open>What \<open>Confirm\<close> checks between \<open>Begin\<close> and the executor.\<close>

definition confirm_checks :: "'st state_reader \<Rightarrow> 'st \<Rightarrow> Principal \<Rightarrow> Proposal \<Rightarrow> agent_error option" where
  "confirm_checks state st actor proposal =
     (if pr_Version actor \<noteq> pp_ActorVersion proposal then Some AgErrStateChanged
      else case state st actor (pp_Inputs proposal) of
        Inl e \<Rightarrow> Some e
      | Inr snapshot \<Rightarrow>
          if sn_Lifecycle snapshot \<noteq> ''active'' \<or> sn_ProjectVersion snapshot \<noteq> ra_ProjectVersion (pp_Inputs proposal)
          then Some AgErrStateChanged
          else if wrap64 (sn_QuotaUsed snapshot + qu_Cost (pp_Quota proposal)) > sn_QuotaLimit snapshot
          then Some AgErrQuotaExceeded else None)"

text \<open>
  \<open>Confirm\<close> also returns the identifiers of the proposals whose action it handed to the executor. The
  times are those of its two calls of the clock.
\<close>

definition Confirm ::
    "'st store_Begin \<Rightarrow> 'st store_Finish \<Rightarrow> 'st state_reader \<Rightarrow> 'st executor \<Rightarrow> (string \<Rightarrow> string) \<Rightarrow> gotime \<Rightarrow> gotime \<Rightarrow>
     'st \<Rightarrow> Principal \<Rightarrow> int64 \<Rightarrow> string \<Rightarrow> string \<Rightarrow> 'st \<times> (agent_error + Proposal) \<times> int64 list" where
  "Confirm begin finish state exec sha256 now later st actor proposalID token key =
     (case Authorize actor ActionProjectWrite of Some e \<Rightarrow> (st, Inl (AgAccess e), [])
      | None \<Rightarrow>
        if proposalID \<le> 0 \<or> trim_space token = '''' \<or> trim_space key = '''' then (st, Inl AgErrInvalid, [])
        else
          (case begin st proposalID actor (sha256 token) key (utc now) of
             (st1, Inl e) \<Rightarrow> (st1, Inl e, [])
           | (st1, Inr (proposal, replay)) \<Rightarrow>
               if replay then (st1, Inr proposal, [])
               else
                 (case confirm_checks state st1 actor proposal of
                    Some e \<Rightarrow> (fst (finish st1 (pp_ID proposal) ProposalFailed no_result (utc later)), Inl e, [])
                  | None \<Rightarrow>
                      (case exec st1 actor (pp_Inputs proposal) key of
                         (st2, Inl e) \<Rightarrow>
                           (fst (finish st2 (pp_ID proposal) ProposalFailed no_result (utc later)), Inl e, [pp_ID proposal])
                       | (st2, Inr result) \<Rightarrow>
                           (case finish st2 (pp_ID proposal) Executed result (utc later) of
                              (st3, r) \<Rightarrow> (st3, r, [pp_ID proposal]))))))"

section \<open>The in-memory store\<close>

record memoryRecord =
  mr_proposal :: Proposal
  mr_createKey :: string
  mr_createDigest :: string
  mr_confirmationKey :: string

record MemoryStore =
  ms_values :: "int64 \<rightharpoonup> memoryRecord"
  ms_creates :: "string \<rightharpoonup> int64"

definition NewMemoryStore :: MemoryStore where
  "NewMemoryStore = \<lparr>ms_values = Map.empty, ms_creates = Map.empty\<rparr>"

definition createIdentity :: "Proposal \<Rightarrow> string \<Rightarrow> string" where
  "createIdentity p key = format_int (pp_WorkspaceID p) @ '':'' @ format_int (pp_ActorID p) @ '':'' @ key"

text \<open>
  For an identity without a value the Go map gives the zero record, whose all-zero digest is taken
  as different from that of every request.
\<close>

definition mem_Create :: "MemoryStore store_Create" where
  "mem_Create st p key digest =
     (case ms_creates st (createIdentity p key) of
        Some i \<Rightarrow>
          (case ms_values st i of
             Some record \<Rightarrow> if mr_createDigest record \<noteq> digest then (st, Inl AgErrStateChanged)
                 else (st, Inr (mr_proposal record, True))
           | None \<Rightarrow> (st, Inl AgErrStateChanged))
      | None \<Rightarrow>
          (st\<lparr>ms_values := (ms_values st)(pp_ID p \<mapsto> \<lparr>mr_proposal = p, mr_createKey = key, mr_createDigest = digest,
                 mr_confirmationKey = ''''\<rparr>),
              ms_creates := (ms_creates st)(createIdentity p key \<mapsto> pp_ID p)\<rparr>, Inr (p, False)))"

definition mem_Begin :: "MemoryStore store_Begin" where
  "mem_Begin st i actor token key now =
     (case ms_values st i of None \<Rightarrow> (st, Inl (AgAccess ErrNotFound))
      | Some record \<Rightarrow>
          let p = mr_proposal record in
          if pp_WorkspaceID p \<noteq> pr_Workspace actor \<or> pp_ActorID p \<noteq> pr_ActorID actor then (st, Inl (AgAccess ErrPermissionDenied))
          else if mr_confirmationKey record = key \<and> (pp_Status p = Executed \<or> pp_Status p = ProposalFailed) then (st, Inr (p, True))
          else if mr_confirmationKey record \<noteq> '''' \<or> pp_Status p \<noteq> AwaitingConfirmation then (st, Inl AgErrAlreadyUsed)
          else if \<not> before now (pp_ExpiresAt p)
          then (st\<lparr>ms_values := (ms_values st)(i \<mapsto> record\<lparr>mr_proposal := p\<lparr>pp_Status := ProposalExpired\<rparr>\<rparr>)\<rparr>, Inl AgErrExpired)
          else if pp_TokenDigest p \<noteq> token then (st, Inl (AgAccess ErrPermissionDenied))
          else
            let q = p\<lparr>pp_Status := Executing, pp_ConsumedAt := Some now\<rparr> in
            (st\<lparr>ms_values := (ms_values st)(i \<mapsto> record\<lparr>mr_confirmationKey := key, mr_proposal := q\<rparr>)\<rparr>, Inr (q, False)))"

definition mem_Finish :: "MemoryStore store_Finish" where
  "mem_Finish st i status res now =
     (case ms_values st i of None \<Rightarrow> (st, Inl (AgAccess ErrNotFound))
      | Some record \<Rightarrow>
          let p = mr_proposal record in
          if pp_Status p \<noteq> Executing \<or> status \<noteq> Executed \<and> status \<noteq> ProposalFailed then (st, Inl AgErrCompletion)
          else
            let q = p\<lparr>pp_Status := status, pp_Result := res,
                      pp_ConsumedAt := (if pp_ConsumedAt p = None then Some now else pp_ConsumedAt p)\<rparr> in
            (st\<lparr>ms_values := (ms_values st)(i \<mapsto> record\<lparr>mr_proposal := q\<rparr>)\<rparr>, Inr q))"

section \<open>Planners\<close>

text \<open>\<open>decode\<close>: the first document of the message as a draft without unknown fields, and whether it is the only one.\<close>

definition structured_Plan :: "(string \<Rightarrow> (Draft \<times> bool) option) \<Rightarrow> Principal \<Rightarrow> string \<Rightarrow> agent_error + Draft" where
  "structured_Plan decode actor message =
     (case decode message of None \<Rightarrow> Inl AgErrInvalid
      | Some (draft, only) \<Rightarrow> if \<not> only then Inl AgErrInvalid
          else bindE (err_none id (draft_Validate draft)) (\<lambda>_. Inr draft))"

record PlannerLimits =
  li_MaxSteps :: int
  li_Timeout :: duration
  li_MaxOutputBytes :: int
  li_MaxCostMicros :: int
  li_Concurrency :: int

text \<open>The gate is its capacity and the number of runs in it.\<close>

record BoundedPlanner =
  bp_limits :: PlannerLimits
  bp_gate :: "nat \<times> nat"

definition NewBoundedPlanner :: "bool \<Rightarrow> PlannerLimits \<Rightarrow> agent_error + BoundedPlanner" where
  "NewBoundedPlanner has_next l =
     (if \<not> has_next \<or> li_MaxSteps l < 1 \<or> li_MaxSteps l > 64 \<or> li_Timeout l \<le> 0 \<or> li_Timeout l > 10 * minute \<or>
         li_MaxOutputBytes l < 1 \<or> li_MaxCostMicros l < 1 \<or> li_Concurrency l < 1 \<or> li_Concurrency l > 8
      then Inl AgErrRunLimit
      else Inr \<lparr>bp_limits = l, bp_gate = (nat (li_Concurrency l), 0)\<rparr>)"

text \<open>Entering the gate, and what \<open>Plan\<close> makes of the inner planner's result; \<open>size\<close> is the length of its JSON.\<close>

definition bounded_enter :: "BoundedPlanner \<Rightarrow> bool \<Rightarrow> bool \<Rightarrow> agent_error + BoundedPlanner" where
  "bounded_enter p ctxDone pick =
     (case bp_gate p of (cap, n) \<Rightarrow>
        if n < cap \<and> (\<not> ctxDone \<or> pick) then Inr (p\<lparr>bp_gate := (cap, Suc n)\<rparr>)
        else if ctxDone then Inl AgErrContext else Inl AgErrRunLimit)"

definition bounded_leave :: "BoundedPlanner \<Rightarrow> BoundedPlanner" where
  "bounded_leave p = p\<lparr>bp_gate := (fst (bp_gate p), snd (bp_gate p) - 1)\<rparr>"

definition bounded_result :: "BoundedPlanner \<Rightarrow> (Draft \<Rightarrow> nat) \<Rightarrow> agent_error + Draft \<Rightarrow> agent_error + Draft" where
  "bounded_result p json_len r =
     bindE r (\<lambda>draft. bindE (require (int (json_len draft) \<le> li_MaxOutputBytes (bp_limits p)) AgErrRunLimit) (\<lambda>_. Inr draft))"

definition bounded_Plan ::
    "BoundedPlanner \<Rightarrow> bool \<Rightarrow> bool \<Rightarrow> (Draft \<Rightarrow> nat) \<Rightarrow> agent_error + Draft \<Rightarrow> BoundedPlanner \<times> (agent_error + Draft)" where
  "bounded_Plan p ctxDone pick json_len r =
     (case bounded_enter p ctxDone pick of Inl e \<Rightarrow> (p, Inl e)
      | Inr q \<Rightarrow> (bounded_leave q, bounded_result q json_len r))"

section \<open>The protocol and its stores\<close>

text \<open>
  The abstract protocol: what happens to the status of each proposal. A confirmation consumes a
  proposal once, and only a consumed proposal gets a result.
\<close>

type_synonym protocol = "int64 \<rightharpoonup> ProposalStatus"

inductive proto_step :: "protocol \<Rightarrow> protocol \<Rightarrow> bool" where
  proposed: "a i = None \<Longrightarrow> proto_step a (a(i \<mapsto> AwaitingConfirmation))"
| consumed: "a i = Some AwaitingConfirmation \<Longrightarrow> proto_step a (a(i \<mapsto> Executing))"
| expired: "a i = Some AwaitingConfirmation \<Longrightarrow> proto_step a (a(i \<mapsto> ProposalExpired))"
| finished: "a i = Some Executing \<Longrightarrow> s = Executed \<or> s = ProposalFailed \<Longrightarrow> proto_step a (a(i \<mapsto> s))"

inductive_cases proto_stepE: "proto_step a b"

text \<open>
  Many goroutines use one service: the identifiers issued so far, the confirmations between \<open>Begin\<close>
  and \<open>Finish\<close> (with the flag whether the executor was called), and the calls of the executor.
\<close>

record 'st assistant_sys =
  sy_store :: 'st
  sy_issued :: "int64 list"
  sy_running :: "(Proposal \<times> bool) list"
  sy_calls :: "int64 list"

inductive assistant_step ::
    "'st store_Create \<Rightarrow> 'st store_Begin \<Rightarrow> 'st store_Finish \<Rightarrow> 'st executor \<Rightarrow> 'st assistant_sys \<Rightarrow> 'st assistant_sys \<Rightarrow> bool"
  for create begin_op finish exec where
  propose: "pp_Status p = AwaitingConfirmation \<Longrightarrow> pp_ID p \<notin> set (sy_issued s) \<Longrightarrow> create (sy_store s) p key d = (st, r) \<Longrightarrow>
    assistant_step create begin_op finish exec s (s\<lparr>sy_store := st, sy_issued := pp_ID p # sy_issued s\<rparr>)"
| begin_new: "begin_op (sy_store s) i actor token key now = (st, Inr (p, False)) \<Longrightarrow>
    assistant_step create begin_op finish exec s (s\<lparr>sy_store := st, sy_running := (p, False) # sy_running s\<rparr>)"
| begin_other: "begin_op (sy_store s) i actor token key now = (st, r) \<Longrightarrow> (\<nexists>p. r = Inr (p, False)) \<Longrightarrow>
    assistant_step create begin_op finish exec s (s\<lparr>sy_store := st\<rparr>)"
| execute: "sy_running s = before_run @ (p, False) # after_run \<Longrightarrow> exec (sy_store s) actor (pp_Inputs p) key = (st, r) \<Longrightarrow>
    assistant_step create begin_op finish exec s
      (s\<lparr>sy_store := st, sy_running := before_run @ (p, True) # after_run, sy_calls := sy_calls s @ [pp_ID p]\<rparr>)"
| finish: "sy_running s = before_run @ (p, b) # after_run \<Longrightarrow> finish (sy_store s) (pp_ID p) status res now = (st, r) \<Longrightarrow>
    assistant_step create begin_op finish exec s (s\<lparr>sy_store := st, sy_running := before_run @ after_run\<rparr>)"

locale proposal_store =
  fixes create :: "'st store_Create" and begin_op :: "'st store_Begin" and finish :: "'st store_Finish"
    and exec :: "'st executor" and status_of :: "'st \<Rightarrow> protocol" and store_ok :: "'st \<Rightarrow> bool"
  assumes create_ok: "store_ok st \<Longrightarrow> create st p key d = (st', r) \<Longrightarrow> pp_Status p = AwaitingConfirmation \<Longrightarrow>
        status_of st (pp_ID p) = None \<Longrightarrow>
        store_ok st' \<and> (status_of st' = status_of st \<or> status_of st' = (status_of st)(pp_ID p \<mapsto> AwaitingConfirmation))"
    and begin_new: "store_ok st \<Longrightarrow> begin_op st i actor token key now = (st', Inr (p, False)) \<Longrightarrow>
        store_ok st' \<and> pp_ID p = i \<and> status_of st i = Some AwaitingConfirmation \<and> status_of st' = (status_of st)(i \<mapsto> Executing) \<and>
        pp_WorkspaceID p = pr_Workspace actor \<and> pp_ActorID p = pr_ActorID actor \<and> before now (pp_ExpiresAt p)"
    and begin_other: "store_ok st \<Longrightarrow> begin_op st i actor token key now = (st', r) \<Longrightarrow> (\<nexists>p. r = Inr (p, False)) \<Longrightarrow>
        store_ok st' \<and> (status_of st' = status_of st \<or>
          status_of st i = Some AwaitingConfirmation \<and> status_of st' = (status_of st)(i \<mapsto> ProposalExpired))"
    and finish_ok: "store_ok st \<Longrightarrow> finish st i s res now = (st', rf) \<Longrightarrow>
        store_ok st' \<and> (status_of st' = status_of st \<or>
          status_of st i = Some Executing \<and> (s = Executed \<or> s = ProposalFailed) \<and> status_of st' = (status_of st)(i \<mapsto> s))"
    and exec_ok: "store_ok st \<Longrightarrow> exec st actor input key = (st', re) \<Longrightarrow> store_ok st' \<and> status_of st' = status_of st"
begin

abbreviation step :: "'st assistant_sys \<Rightarrow> 'st assistant_sys \<Rightarrow> bool" where
  "step \<equiv> assistant_step create begin_op finish exec"

definition used :: "'st \<Rightarrow> int64 \<Rightarrow> bool" where
  "used st i \<longleftrightarrow> status_of st i \<in> Some ` {Executing, Executed, ProposalFailed}"

definition sys_ok :: "'st assistant_sys \<Rightarrow> bool" where
  "sys_ok s \<longleftrightarrow> store_ok (sy_store s) \<and> dom (status_of (sy_store s)) \<subseteq> set (sy_issued s) \<and>
     distinct (map (\<lambda>x. pp_ID (fst x)) (sy_running s)) \<and> distinct (sy_calls s) \<and>
     (\<forall>x \<in> set (sy_running s). used (sy_store s) (pp_ID (fst x)) \<and> (snd x \<or> pp_ID (fst x) \<notin> set (sy_calls s))) \<and>
     (\<forall>i \<in> set (sy_calls s). used (sy_store s) i)"

lemma sys_okD:
  assumes "sys_ok s"
  shows "store_ok (sy_store s)" "dom (status_of (sy_store s)) \<subseteq> set (sy_issued s)"
    "i \<notin> set (sy_issued s) \<Longrightarrow> status_of (sy_store s) i = None"
  using assms by (auto simp: sys_ok_def)

lemma dom_status_upd:
  "status_of st i = Some x \<Longrightarrow> dom (status_of st) \<subseteq> A \<Longrightarrow> dom ((status_of st)(i \<mapsto> y)) \<subseteq> A"
  by (auto split: if_splits)

text \<open>Every step of the service is a step of the protocol or leaves it alone; new identifiers are issued ones.\<close>

lemma step_refines:
  assumes "step s t" "sys_ok s"
  shows "proto_step\<^sup>=\<^sup>= (status_of (sy_store s)) (status_of (sy_store t)) \<and> store_ok (sy_store t) \<and>
    dom (status_of (sy_store t)) \<subseteq> set (sy_issued t)"
  using assms(1)
proof (cases rule: assistant_step.cases)
  case (propose p key d st r)
  have none: "status_of (sy_store s) (pp_ID p) = None" using sys_okD(3) [OF assms(2)] propose by simp
  have "proto_step (status_of (sy_store s)) ((status_of (sy_store s))(pp_ID p \<mapsto> AwaitingConfirmation))"
    using none by (rule proposed)
  moreover have "dom (status_of (sy_store s)) \<subseteq> insert (pp_ID p) (set (sy_issued s))" using sys_okD(2) [OF assms(2)] by blast
  ultimately show ?thesis using propose create_ok [OF sys_okD(1) [OF assms(2)] propose(4,2) none]
    by (elim conjE disjE) simp_all
next
  case (begin_new i actor token key now st p)
  note b = proposal_store.begin_new [OF proposal_store_axioms sys_okD(1) [OF assms(2)] begin_new(2)]
  then show ?thesis using begin_new sys_okD(2) [OF assms(2)] dom_status_upd [OF _ sys_okD(2) [OF assms(2)]] by (simp add: consumed)
next
  case (begin_other i actor token key now st r)
  note b = proposal_store.begin_other [OF proposal_store_axioms sys_okD(1) [OF assms(2)] begin_other(2,3)]
  then show ?thesis using begin_other sys_okD(2) [OF assms(2)] dom_status_upd [OF _ sys_okD(2) [OF assms(2)]]
    by (elim conjE disjE) (simp_all add: expired)
next
  case (execute b p a actor key st r)
  then show ?thesis using exec_ok [OF sys_okD(1) [OF assms(2)] execute(3)] sys_okD(2) [OF assms(2)] by simp
next
  case (finish b p f a status res now st r)
  then show ?thesis using finish_ok [OF sys_okD(1) [OF assms(2)] finish(3)] sys_okD(2) [OF assms(2)]
      dom_status_upd [OF _ sys_okD(2) [OF assms(2)]] by (elim conjE disjE) (simp_all add: finished)
qed

lemma used_kept: "proto_step\<^sup>=\<^sup>= (status_of st) (status_of st') \<Longrightarrow> used st i \<Longrightarrow> used st' i"
  by (auto simp: used_def elim!: proto_stepE split: if_splits)

lemma step_ok:
  assumes "step s t" "sys_ok s"
  shows "sys_ok t"
proof -
  note ref = step_refines [OF assms]
  have used: "used (sy_store s) i \<Longrightarrow> used (sy_store t) i" for i using used_kept ref by blast
  show ?thesis
    using assms(1)
  proof (cases rule: assistant_step.cases)
    case (begin_new i actor token key now st p)
    note b = proposal_store.begin_new [OF proposal_store_axioms sys_okD(1) [OF assms(2)] begin_new(2)]
    have "\<not> used (sy_store s) i" using b by (simp add: used_def)
    moreover have "used (sy_store t) i" using b begin_new by (simp add: used_def)
    ultimately show ?thesis using begin_new assms(2) used ref b by (auto simp: sys_ok_def)
  next
    case (execute b p a actor key st r)
    then have "pp_ID (fst x) \<noteq> pp_ID p" if "x \<in> set b \<union> set a" for x
      using that assms(2) by (auto simp: sys_ok_def image_iff)
    then have "\<forall>x \<in> set b \<union> set a. pp_ID (fst x) \<noteq> pp_ID p" by blast
    moreover have "\<forall>i. used (sy_store s) i \<longrightarrow> used st i" using used execute(1) by simp
    ultimately show ?thesis using execute(1,2) assms(2) ref unfolding sys_ok_def by simp
  qed (use assms(2) used ref in \<open>auto simp: sys_ok_def\<close>)
qed

lemma steps_ok: "step\<^sup>*\<^sup>* s t \<Longrightarrow> sys_ok s \<Longrightarrow> sys_ok t \<and> proto_step\<^sup>*\<^sup>* (status_of (sy_store s)) (status_of (sy_store t))"
proof (induction rule: rtranclp_induct)
  case (step t u)
  then have "proto_step\<^sup>=\<^sup>= (status_of (sy_store t)) (status_of (sy_store u))" using step_refines by blast
  with step show ?case using step_ok by (auto intro: rtranclp.rtrancl_into_rtrancl)
qed simp

lemma empty_ok:
  "store_ok st \<Longrightarrow> status_of st = Map.empty \<Longrightarrow>
     sys_ok \<lparr>sy_store = st, sy_issued = [], sy_running = [], sy_calls = []\<rparr>"
  by (simp add: sys_ok_def)

lemma executed_once:
  assumes "step\<^sup>*\<^sup>* \<lparr>sy_store = st, sy_issued = [], sy_running = [], sy_calls = []\<rparr> s" "store_ok st" "status_of st = Map.empty"
  shows "distinct (sy_calls s) \<and> proto_step\<^sup>*\<^sup>* Map.empty (status_of (sy_store s)) \<and>
    (\<forall>i \<in> set (sy_calls s). status_of (sy_store s) i \<in> Some ` {Executing, Executed, ProposalFailed})"
  using steps_ok [OF assms(1) empty_ok [OF assms(2,3)]] assms(3) by (simp add: sys_ok_def used_def)

end

section \<open>The in-memory store keeps the contract\<close>

definition mem_status :: "MemoryStore \<Rightarrow> protocol" where
  "mem_status st i = map_option (\<lambda>r. pp_Status (mr_proposal r)) (ms_values st i)"

definition mem_ok :: "MemoryStore \<Rightarrow> bool" where
  "mem_ok st \<longleftrightarrow> (\<forall>i r. ms_values st i = Some r \<longrightarrow> pp_ID (mr_proposal r) = i)"

lemma mem_status_upd:
  "mem_status (st\<lparr>ms_values := (ms_values st)(i \<mapsto> r)\<rparr>) = (mem_status st)(i \<mapsto> pp_Status (mr_proposal r))"
  "mem_status (st\<lparr>ms_values := (ms_values st)(i \<mapsto> r), ms_creates := c\<rparr>) = (mem_status st)(i \<mapsto> pp_Status (mr_proposal r))"
  by (auto simp: mem_status_def)

text \<open>The executor of the tests changes a project elsewhere: the store does not see it.\<close>

definition outside_executor :: "(Principal \<Rightarrow> RepositoryAdd \<Rightarrow> string \<Rightarrow> agent_error + ProposalResult) \<Rightarrow> 'st executor" where
  "outside_executor f st actor input key = (st, f actor input key)"

interpretation memory: proposal_store mem_Create mem_Begin mem_Finish "outside_executor f" mem_status mem_ok
proof
  fix st st' :: MemoryStore and p :: Proposal and key d r
  assume "mem_ok st" "mem_Create st p key d = (st', r)" "pp_Status p = AwaitingConfirmation" "mem_status st (pp_ID p) = None"
  then show "mem_ok st' \<and> (mem_status st' = mem_status st \<or> mem_status st' = (mem_status st)(pp_ID p \<mapsto> AwaitingConfirmation))"
    by (auto simp: mem_Create_def mem_status_upd mem_ok_def split: option.splits if_splits)
next
  fix st st' :: MemoryStore and i actor token key now and p :: Proposal
  assume "mem_ok st" "mem_Begin st i actor token key now = (st', Inr (p, False))"
  then show "mem_ok st' \<and> pp_ID p = i \<and> mem_status st i = Some AwaitingConfirmation \<and>
      mem_status st' = (mem_status st)(i \<mapsto> Executing) \<and> pp_WorkspaceID p = pr_Workspace actor \<and>
      pp_ActorID p = pr_ActorID actor \<and> before now (pp_ExpiresAt p)"
    by (auto simp: mem_Begin_def Let_def mem_status_upd mem_ok_def split: option.splits if_splits)
      (auto simp: mem_status_def)
next
  fix st st' :: MemoryStore and i actor token key now r
  assume "mem_ok st" "mem_Begin st i actor token key now = (st', r)" "\<nexists>p. r = Inr (p, False)"
  then show "mem_ok st' \<and> (mem_status st' = mem_status st \<or>
      mem_status st i = Some AwaitingConfirmation \<and> mem_status st' = (mem_status st)(i \<mapsto> ProposalExpired))"
    by (auto simp: mem_Begin_def Let_def mem_status_upd mem_ok_def split: option.splits if_splits)
      (auto simp: mem_status_def)
next
  fix st st' :: MemoryStore and i s res now and rf :: "agent_error + Proposal"
  assume "mem_ok st" "mem_Finish st i s res now = (st', rf)"
  then show "mem_ok st' \<and> (mem_status st' = mem_status st \<or>
      mem_status st i = Some Executing \<and> (s = Executed \<or> s = ProposalFailed) \<and> mem_status st' = (mem_status st)(i \<mapsto> s))"
    by (auto simp: mem_Finish_def Let_def mem_status_upd mem_ok_def split: option.splits if_splits)
      (auto simp: mem_status_def)
qed (auto simp: outside_executor_def)

section \<open>The handlers are runs of the protocol\<close>

text \<open>\<open>Confirm\<close> as it is written is a run of the steps above, and so is \<open>Propose\<close> with a fresh identifier.\<close>

lemma Confirm_steps:
  assumes "Confirm begin_op finish state exec sha256 now later (sy_store s) actor i token key = (st, r, calls)"
  shows "(assistant_step create begin_op finish exec)\<^sup>*\<^sup>* s (s\<lparr>sy_store := st, sy_calls := sy_calls s @ calls\<rparr>)"
    (is "?step\<^sup>*\<^sup>* s _")
proof (cases "Authorize actor ActionProjectWrite = None \<and> \<not> (i \<le> 0 \<or> trim_space token = '''' \<or> trim_space key = '''')")
  case False
  then have "st = sy_store s" "calls = []" using assms by (auto simp: Confirm_def split: option.splits if_splits)
  then show ?thesis by simp
next
  case True
  obtain st1 b where b: "begin_op (sy_store s) i actor (sha256 token) key (utc now) = (st1, b)" by fastforce
  show ?thesis
  proof (cases "\<exists>p. b = Inr (p, False)")
    case False
    then have "st = st1" "calls = []" using assms True b by (auto simp: Confirm_def split: sum.splits)
    moreover have "?step s (s\<lparr>sy_store := st1\<rparr>)" by (rule assistant_step.begin_other) (rule b, rule False)
    ultimately show ?thesis by auto
  next
    case [simp]: True
    then obtain p where [simp]: "b = Inr (p, False)" by blast
    let ?s1 = "s\<lparr>sy_store := st1, sy_running := (p, False) # sy_running s\<rparr>"
    have 1: "?step s ?s1" using b by (auto intro: assistant_step.begin_new)
    show ?thesis
    proof (cases "confirm_checks state st1 actor p")
      case (Some e)
      obtain st2 x where f: "finish st1 (pp_ID p) ProposalFailed no_result (utc later) = (st2, x)" by fastforce
      have "st = st2" "calls = []" using assms \<open>Authorize actor ActionProjectWrite = None \<and> _\<close> b Some f by (auto simp: Confirm_def)
      moreover have "?step ?s1 (?s1\<lparr>sy_store := st2, sy_running := [] @ sy_running s\<rparr>)"
        using f by (intro assistant_step.finish [where p = p and b = False and before_run = "[]"]) auto
      ultimately show ?thesis using 1 by (auto intro: converse_rtranclp_into_rtranclp)
    next
      case None
      obtain st2 x where e: "exec st1 actor (pp_Inputs p) key = (st2, x)" by fastforce
      let ?s2 = "?s1\<lparr>sy_store := st2, sy_running := [] @ (p, True) # sy_running s, sy_calls := sy_calls ?s1 @ [pp_ID p]\<rparr>"
      have 2: "?step ?s1 ?s2" using e by (intro assistant_step.execute [where before_run = "[]"]) auto
      obtain status res st3 y where f: "finish st2 (pp_ID p) status res (utc later) = (st3, y)" "st = st3" "calls = [pp_ID p]"
        using assms \<open>Authorize actor ActionProjectWrite = None \<and> _\<close> b None e
        by (cases x; cases "finish st2 (pp_ID p) ProposalFailed no_result (utc later)") (auto simp: Confirm_def split: prod.splits)
      have "?step ?s2 (?s2\<lparr>sy_store := st3, sy_running := [] @ sy_running s\<rparr>)"
        using f(1) by (intro assistant_step.finish [where p = p and b = True and before_run = "[]"]) auto
      moreover have "?s2\<lparr>sy_store := st3, sy_running := [] @ sy_running s\<rparr> = s\<lparr>sy_store := st, sy_calls := sy_calls s @ calls\<rparr>"
        using f(2,3) by (cases s) simp
      ultimately show ?thesis using 1 2 by (metis (no_types, lifting) converse_rtranclp_into_rtranclp r_into_rtranclp)
    qed
  qed
qed

lemma Propose_steps:
  assumes "Propose create state sha256 plan (Some i) token now (sy_store s) actor message key = (st, r)" "i \<notin> set (sy_issued s)"
  shows "\<exists>is. (assistant_step create begin_op finish exec)\<^sup>*\<^sup>* s (s\<lparr>sy_store := st, sy_issued := is\<rparr>) \<and> set is \<subseteq> insert i (set (sy_issued s))"
proof (cases "\<exists>p k d. pp_Status p = AwaitingConfirmation \<and> pp_ID p = i \<and> (\<exists>r. create (sy_store s) p k d = (st, r))")
  case True
  then obtain p k d x where p: "pp_Status p = AwaitingConfirmation" "pp_ID p = i" "create (sy_store s) p k d = (st, x)" by blast
  have "assistant_step create begin_op finish exec s (s\<lparr>sy_store := st, sy_issued := pp_ID p # sy_issued s\<rparr>)"
    using p assms(2) by (intro assistant_step.propose) auto
  then show ?thesis using p(2) by (intro exI [of _ "i # sy_issued s"]) auto
next
  case False
  have "st = sy_store s"
  proof (rule ccontr)
    assume "st \<noteq> sy_store s"
    then obtain draft snapshot tok k d x where
        "create (sy_store s) (new_proposal sha256 actor draft snapshot i tok (utc now)) k d = (st, x)"
      using assms(1) by (auto simp: Propose_def Let_def result_simps split: sum.splits prod.splits)
    with False show False by (auto simp: new_proposal_def)
  qed
  then show ?thesis by (intro exI [of _ "sy_issued s"]) auto
qed

text \<open>The sum of a quota at the greatest integer and its cost wraps, and the draft passes its quota check.\<close>

lemma draft_quota_overflow:
  "draft_Validate \<lparr>dr_Action = ActionRepositoryAdd,
     dr_Repository = \<lparr>ra_ProjectID = 1, ra_ProjectVersion = 1, ra_URL = ''https://h'', ra_Role = ''core''\<rparr>, dr_Effect = ''e'',
     dr_QuotaName = ''project_repositories'', dr_QuotaCost = 1, dr_QuotaLimit = 20, dr_QuotaUsed = max_int64,
     dr_ActionCount = 1, dr_Unrecognized = []\<rparr> = None"
proof -
  have "trim_space ''core'' = ''core''" "trim_space ''e'' = ''e''" by code_simp+
  then show ?thesis by (simp add: draft_Validate_def int64_defs)
qed

end
