(* ===== verification/AssistantStore.thy ===== *)
theory AssistantStore
  imports Assistant Project
begin

text \<open>
  The PostgreSQL store of the assistant, \<open>internal/platform/assistantstore\<close>: proposals with their
  idempotency records, and the one action the assistant can execute, attaching a repository to a
  project in one transaction with its audit and outbox events. Tables are lists of rows with the
  constraints of migrations 0003 and 0007; a failed transaction leaves them as they were. URL
  parsing and the identifier source are arguments; the JSON columns are the values they encode.
\<close>

section \<open>Tables\<close>

record assistant_project =
  aj_ID :: int64
  aj_Workspace :: int64
  aj_State :: string
  aj_Version :: int64

record proposal_row =
  ar_proposal :: Proposal
  ar_key :: "string option"

record idempotency_row =
  ix_Workspace :: int64
  ix_Actor :: int64
  ix_Route :: string
  ix_Key :: string
  ix_Digest :: string
  ix_Resource :: "int64 option"

record action_audit =
  ax_ID :: int64
  ax_Actor :: int64
  ax_Kind :: ActorKind
  ax_Resource :: int64
  ax_Request :: string

record action_event =
  ae_ID :: int64
  ae_Project :: int64
  ae_Repository :: int64
  ae_Correlation :: string

record assistant_db =
  at_workspaces :: "int64 list"
  at_projects :: "assistant_project list"
  at_repositories :: "Repository list"
  at_proposals :: "proposal_row list"
  at_idempotency :: "idempotency_row list"
  at_audit :: "action_audit list"
  at_outbox :: "action_event list"

definition proposalRoute :: string where
  "proposalRoute = ''POST /api/v1/assistant/proposals''"

definition maxRepositories :: int where
  "maxRepositories = 20"

definition assistant_project_row :: "assistant_db \<Rightarrow> int64 \<Rightarrow> int64 \<Rightarrow> assistant_project option" where
  "assistant_project_row db pid ws = find (\<lambda>p. aj_ID p = pid \<and> aj_Workspace p = ws) (at_projects db)"

definition repositories_of :: "assistant_db \<Rightarrow> int64 \<Rightarrow> Repository list" where
  "repositories_of db pid = filter (\<lambda>r. rp_ProjectID r = pid) (at_repositories db)"

definition pg_Snapshot :: "assistant_db state_reader" where
  "pg_Snapshot db actor input =
     bindE (err_none AgAccess (Authorize actor ActionProjectWrite)) (\<lambda>_.
     case assistant_project_row db (ra_ProjectID input) (pr_Workspace actor) of
       None \<Rightarrow> Inl AgErrProjectNotFound
     | Some p \<Rightarrow> Inr \<lparr>sn_ProjectVersion = aj_Version p, sn_Lifecycle = aj_State p,
         sn_QuotaUsed = int (length (repositories_of db (ra_ProjectID input))), sn_QuotaLimit = maxRepositories\<rparr>)"

section \<open>Proposals\<close>

definition zero_digest :: string where
  "zero_digest = replicate 32 (CHR 0x00)"

definition proposal_row_by_id :: "assistant_db \<Rightarrow> int64 \<Rightarrow> proposal_row option" where
  "proposal_row_by_id db i = find (\<lambda>r. pp_ID (ar_proposal r) = i) (at_proposals db)"

text \<open>\<open>scanProposal\<close> reads neither the token nor its digest.\<close>

definition scanProposal :: "proposal_row \<Rightarrow> Proposal" where
  "scanProposal r = (ar_proposal r)\<lparr>pp_ConfirmationToken := '''', pp_TokenDigest := zero_digest\<rparr>"

definition stored_proposal :: "Proposal \<Rightarrow> Proposal" where
  "stored_proposal p = p\<lparr>pp_ExpiresAt := pg_time (pp_ExpiresAt p), pp_CreatedAt := pg_time (pp_CreatedAt p), pp_ConsumedAt := None\<rparr>"

definition proposal_constraints :: "assistant_db \<Rightarrow> Proposal \<Rightarrow> bool" where
  "proposal_constraints db p \<longleftrightarrow> pp_ID p > 0 \<and> proposal_row_by_id db (pp_ID p) = None \<and> pp_WorkspaceID p \<in> set (at_workspaces db) \<and>
     pp_ActorID p > 0 \<and> pp_ActorVersion p > 0 \<and>
     pp_Status p \<in> set [AwaitingConfirmation, Executing, Executed, ProposalFailed, ProposalExpired] \<and>
     pp_Action p = ActionRepositoryAdd \<and> list_ex (\<lambda>c. c \<noteq> CHR '' '') (pp_Effect p) \<and> length (pp_TokenDigest p) = 32 \<and>
     pp_ExpiresAt p = time_add (pp_CreatedAt p) ProposalLifetime"

definition same_key :: "Proposal \<Rightarrow> string \<Rightarrow> idempotency_row \<Rightarrow> bool" where
  "same_key p key x \<longleftrightarrow> ix_Workspace x = pp_WorkspaceID p \<and> ix_Actor x = pp_ActorID p \<and> ix_Route x = proposalRoute \<and> ix_Key x = key"

definition pg_Create :: "assistant_db store_Create" where
  "pg_Create db p key digest =
     (case find (same_key p key) (at_idempotency db) of
        Some x \<Rightarrow>
          if ix_Digest x \<noteq> digest then (db, Inl AgErrIdempotencyKey)
          else (case ix_Resource x of None \<Rightarrow> (db, Inl AgErrIdempotencyKey)
            | Some i \<Rightarrow> (case proposal_row_by_id db i of None \<Rightarrow> (db, Inl AgErrConstraint)
                | Some r \<Rightarrow> (db, Inr (scanProposal r, True))))
      | None \<Rightarrow>
          if \<not> proposal_constraints db (stored_proposal p) \<or> \<not> list_ex (\<lambda>c. c \<noteq> CHR '' '') key \<or> length digest \<noteq> 32
          then (db, Inl AgErrConstraint)
          else (db\<lparr>at_proposals := at_proposals db @ [\<lparr>ar_proposal = stored_proposal p, ar_key = None\<rparr>],
                   at_idempotency := at_idempotency db @ [\<lparr>ix_Workspace = pp_WorkspaceID p, ix_Actor = pp_ActorID p,
                     ix_Route = proposalRoute, ix_Key = key, ix_Digest = digest, ix_Resource = Some (pp_ID p)\<rparr>]\<rparr>,
                Inr (p, False)))"

definition update_proposal :: "assistant_db \<Rightarrow> int64 \<Rightarrow> (proposal_row \<Rightarrow> proposal_row) \<Rightarrow> assistant_db" where
  "update_proposal db i f = db\<lparr>at_proposals := map (\<lambda>r. if pp_ID (ar_proposal r) = i then f r else r) (at_proposals db)\<rparr>"

definition set_status :: "ProposalStatus \<Rightarrow> proposal_row \<Rightarrow> proposal_row" where
  "set_status s r = r\<lparr>ar_proposal := (ar_proposal r)\<lparr>pp_Status := s\<rparr>\<rparr>"

definition pg_Begin :: "assistant_db store_Begin" where
  "pg_Begin db i actor digest key now =
     (case proposal_row_by_id db i of None \<Rightarrow> (db, Inl AgErrProjectNotFound)
      | Some r \<Rightarrow>
          let v = scanProposal r in
          if pp_WorkspaceID v \<noteq> pr_Workspace actor \<or> pp_ActorID v \<noteq> pr_ActorID actor then (db, Inl AgErrProjectNotFound)
          else if pp_TokenDigest (ar_proposal r) \<noteq> digest then (db, Inl AgErrInvalid)
          else if ar_key r = Some key \<and> (pp_Status v = Executed \<or> pp_Status v = ProposalFailed) then (db, Inr (v, True))
          else if \<not> before now (pp_ExpiresAt v)
          then (if pp_Status v = AwaitingConfirmation then update_proposal db i (set_status ProposalExpired) else db, Inl AgErrExpired)
          else if pp_Status v \<noteq> AwaitingConfirmation \<or> ar_key r \<noteq> None then (db, Inl AgErrAlreadyUsed)
          else (update_proposal db i (\<lambda>r. r\<lparr>ar_proposal := (ar_proposal r)\<lparr>pp_Status := Executing, pp_ConsumedAt := Some (pg_time now)\<rparr>,
                    ar_key := Some key\<rparr>),
                Inr (v\<lparr>pp_Status := Executing, pp_ConsumedAt := Some now\<rparr>, False)))"

definition pg_Finish :: "assistant_db store_Finish" where
  "pg_Finish db i status res now =
     (if status \<noteq> Executed \<and> status \<noteq> ProposalFailed then (db, Inl AgErrInvalid)
      else case proposal_row_by_id db i of None \<Rightarrow> (db, Inl AgErrAlreadyUsed)
        | Some r \<Rightarrow>
            if pp_Status (ar_proposal r) \<noteq> Executing then (db, Inl AgErrAlreadyUsed)
            else
              let done = (\<lambda>r. r\<lparr>ar_proposal := (ar_proposal r)\<lparr>pp_Status := status, pp_Result := res\<rparr>\<rparr>)
              in (update_proposal db i done, Inr (scanProposal (done r))))"

section \<open>The action\<close>

definition repository_role :: "string \<Rightarrow> RepositoryRole" where
  "repository_role s =
     (if s = ''primary'' then RolePrimary else if s = ''core'' then RoleCore
      else if s = ''documentation'' then RoleDocumentation else if s = ''examples'' then RoleExamples
      else if s = ''sdk'' then RoleSDK else if s = ''other'' then RoleOtherRepository else RepositoryRoleOther s)"

fun assistant_validRole :: "RepositoryRole \<Rightarrow> bool" where
  "assistant_validRole (RepositoryRoleOther _) = False"
| "assistant_validRole _ = True"

definition demote_primaries :: "int64 \<Rightarrow> Repository list \<Rightarrow> Repository list" where
  "demote_primaries pid rs =
     map (\<lambda>r. if rp_ProjectID r = pid \<and> rp_Role r = RolePrimary then r\<lparr>rp_Role := RoleCore, rp_Version := rp_Version r + 1\<rparr> else r) rs"

definition repository_constraints :: "Repository list \<Rightarrow> Repository \<Rightarrow> bool" where
  "repository_constraints rs r \<longleftrightarrow> rp_ID r > 0 \<and> list_all (\<lambda>q. rp_ID q \<noteq> rp_ID r \<and> rp_CanonicalURL q \<noteq> rp_CanonicalURL r \<and>
       \<not> (rp_ProjectID q = rp_ProjectID r \<and> rp_Role q = RolePrimary \<and> rp_Role r = RolePrimary)) rs \<and>
     list_all (\<lambda>q. is_int64 (rp_Version q)) rs"

definition attach ::
    "assistant_db \<Rightarrow> Principal \<Rightarrow> assistant_project \<Rightarrow> canonical_repository \<Rightarrow> RepositoryRole \<Rightarrow> int64 \<times> int64 \<times> int64 \<Rightarrow> string \<Rightarrow>
     agent_error + assistant_db" where
  "attach db actor p c role issued requestID =
     (case issued of (repositoryID, auditID, outboxID) \<Rightarrow>
        let rs = (if role = RolePrimary then demote_primaries (aj_ID p) (at_repositories db) else at_repositories db);
            r = \<lparr>rp_ID = repositoryID, rp_ProjectID = aj_ID p, rp_Provider = cr_Provider c, rp_CanonicalURL = cr_Canonical c,
                 rp_Role = role, rp_Version = 1\<rparr> in
        if repository_constraints rs r \<and> is_int64 (aj_Version p + 1) \<and> auditID > 0 \<and> auditID \<notin> set (map ax_ID (at_audit db)) \<and>
           pr_Kind actor \<in> set [ActorMember, ActorServiceAccount, ActorSystem, ActorDeleted] \<and>
           outboxID > 0 \<and> outboxID \<notin> set (map ae_ID (at_outbox db))
        then Inr (db\<lparr>at_repositories := rs @ [r],
               at_projects := map (\<lambda>q. if aj_ID q = aj_ID p then q\<lparr>aj_Version := aj_Version q + 1\<rparr> else q) (at_projects db),
               at_audit := at_audit db @ [\<lparr>ax_ID = auditID, ax_Actor = pr_ActorID actor, ax_Kind = pr_Kind actor,
                 ax_Resource = repositoryID, ax_Request = requestID\<rparr>],
               at_outbox := at_outbox db @ [\<lparr>ae_ID = outboxID, ae_Project = aj_ID p, ae_Repository = repositoryID,
                 ae_Correlation = requestID\<rparr>]\<rparr>)
        else Inl AgErrConstraint)"

text \<open>The identifier source: what \<open>nextThree\<close> returns in a state of the database.\<close>

definition pg_AddRepository ::
    "(string \<Rightarrow> request_uri option) \<Rightarrow> (assistant_db \<Rightarrow> (int64 \<times> int64 \<times> int64) option) \<Rightarrow> assistant_db executor" where
  "pg_AddRepository parse nextThree db actor input requestID =
     (let outcome =
        bindE (err_none AgAccess (Authorize actor ActionProjectWrite)) (\<lambda>_.
        bindE (map_sum (\<lambda>_. AgErrInvalid) id (CanonicalRepositoryURL parse (ra_URL input))) (\<lambda>c.
        bindE (require (assistant_validRole (repository_role (ra_Role input))) AgErrInvalid) (\<lambda>_.
        bindE (some_or AgErrIDs (nextThree db)) (\<lambda>issued.
        bindE (some_or AgErrProjectNotFound (assistant_project_row db (ra_ProjectID input) (pr_Workspace actor))) (\<lambda>p.
        bindE (require (aj_State p = ''active'' \<and> aj_Version p = ra_ProjectVersion input) AgErrStateChanged) (\<lambda>_.
        bindE (require (int (length (repositories_of db (ra_ProjectID input))) < maxRepositories) AgErrQuotaExceeded) (\<lambda>_.
        bindE (attach db actor p c (repository_role (ra_Role input)) issued requestID) (\<lambda>db'.
        Inr (db', \<lparr>pz_RepositoryID = fst issued, pz_AuditEventID = fst (snd issued)\<rparr>)))))))))
      in case outcome of Inl e \<Rightarrow> (db, Inl e) | Inr (db', res) \<Rightarrow> (db', Inr res))"

section \<open>The PostgreSQL store keeps the contract\<close>

definition pg_status :: "assistant_db \<Rightarrow> protocol" where
  "pg_status db i = map_option (\<lambda>r. pp_Status (ar_proposal r)) (proposal_row_by_id db i)"

definition pg_ok :: "assistant_db \<Rightarrow> bool" where
  "pg_ok db \<longleftrightarrow> distinct (map (\<lambda>r. pp_ID (ar_proposal r)) (at_proposals db))"

lemma row_id: "proposal_row_by_id db i = Some r \<Longrightarrow> pp_ID (ar_proposal r) = i"
  by (auto simp: proposal_row_by_id_def find_Some_iff)

lemma find_map_same:
  "(\<And>r. P (f r) \<longleftrightarrow> P r) \<Longrightarrow> find P (map f rs) = map_option f (find P rs)"
  by (induction rs) auto

lemma update_proposal_row:
  assumes "\<And>r. pp_ID (ar_proposal (f r)) = pp_ID (ar_proposal r)"
  shows "proposal_row_by_id (update_proposal db i f) j =
    (if j = i then map_option f (proposal_row_by_id db i) else proposal_row_by_id db j)"
proof -
  have "proposal_row_by_id (update_proposal db i f) j =
      map_option (\<lambda>r. if pp_ID (ar_proposal r) = i then f r else r) (proposal_row_by_id db j)"
    unfolding proposal_row_by_id_def update_proposal_def using assms by (simp add: find_map_same)
  also have "\<dots> = (if j = i then map_option f (proposal_row_by_id db i) else proposal_row_by_id db j)"
    by (cases "proposal_row_by_id db j") (auto dest: row_id)
  finally show ?thesis .
qed

lemma update_proposal_ok:
  "(\<And>r. pp_ID (ar_proposal (f r)) = pp_ID (ar_proposal r)) \<Longrightarrow> pg_ok (update_proposal db i f) = pg_ok db"
  by (simp add: pg_ok_def update_proposal_def comp_def if_distrib cong: if_cong)

lemma update_proposal_status:
  assumes "\<And>r. pp_ID (ar_proposal (f r)) = pp_ID (ar_proposal r)" "\<And>r. pp_Status (ar_proposal (f r)) = s"
    "proposal_row_by_id db i = Some r"
  shows "pg_status (update_proposal db i f) = (pg_status db)(i \<mapsto> s)"
  using update_proposal_row [OF assms(1)] assms(2,3) by (auto simp: pg_status_def)

lemma append_proposal:
  "at_proposals db' = at_proposals db @ [r] \<Longrightarrow> proposal_row_by_id db (pp_ID (ar_proposal r)) = None \<Longrightarrow>
     pg_status db' = (pg_status db)(pp_ID (ar_proposal r) \<mapsto> pp_Status (ar_proposal r)) \<and> (pg_ok db \<longrightarrow> pg_ok db')"
proof -
  assume app: "at_proposals db' = at_proposals db @ [r]" and none: "proposal_row_by_id db (pp_ID (ar_proposal r)) = None"
  have "\<forall>x \<in> set (at_proposals db). pp_ID (ar_proposal x) \<noteq> pp_ID (ar_proposal r)"
    using none by (simp add: proposal_row_by_id_def find_None_iff)
  moreover have "pg_status db' j = ((pg_status db)(pp_ID (ar_proposal r) \<mapsto> pp_Status (ar_proposal r))) j" for j
    using none app by (cases "proposal_row_by_id db j") (auto simp: pg_status_def proposal_row_by_id_def find_append)
  ultimately show ?thesis using app by (auto simp: pg_ok_def)
qed

lemma pg_Create_contract:
  assumes "pg_ok db" "pg_Create db p key d = (db', r)" "pp_Status p = AwaitingConfirmation"
  shows "pg_ok db' \<and> (pg_status db' = pg_status db \<or> pg_status db' = (pg_status db)(pp_ID p \<mapsto> AwaitingConfirmation))"
proof (cases "at_proposals db' = at_proposals db")
  case True
  then show ?thesis using assms(1) by (simp add: pg_ok_def pg_status_def proposal_row_by_id_def fun_eq_iff)
next
  case False
  with assms(2) have "at_proposals db' = at_proposals db @ [\<lparr>ar_proposal = stored_proposal p, ar_key = None\<rparr>]"
    "proposal_row_by_id db (pp_ID (stored_proposal p)) = None"
    by (auto simp: pg_Create_def proposal_constraints_def split: option.splits if_splits)
  from append_proposal [OF this(1)] this(2) assms show ?thesis by (simp add: stored_proposal_def)
qed

lemma pg_Begin_cases:
  assumes "pg_Begin db i actor digest key now = (db', r)"
  obtains (none) "db' = db" "\<nexists>p. r = Inr (p, False)"
  | (expire) row where "proposal_row_by_id db i = Some row" "pp_Status (ar_proposal row) = AwaitingConfirmation"
      "db' = update_proposal db i (set_status ProposalExpired)" "r = Inl AgErrExpired"
  | (new) row p where "proposal_row_by_id db i = Some row" "pp_Status (ar_proposal row) = AwaitingConfirmation"
      "db' = update_proposal db i (\<lambda>r. r\<lparr>ar_proposal := (ar_proposal r)\<lparr>pp_Status := Executing, pp_ConsumedAt := Some (pg_time now)\<rparr>,
          ar_key := Some key\<rparr>)"
      "r = Inr (p, False)" "p = (scanProposal row)\<lparr>pp_Status := Executing, pp_ConsumedAt := Some now\<rparr>"
      "pp_WorkspaceID p = pr_Workspace actor" "pp_ActorID p = pr_ActorID actor" "before now (pp_ExpiresAt p)"
      "pp_TokenDigest (ar_proposal row) = digest"
  using assms by (auto simp: pg_Begin_def Let_def scanProposal_def split: option.splits if_splits)

lemma pg_Finish_cases:
  assumes "pg_Finish db i s res now = (db', r)"
  obtains (none) "db' = db"
  | (finished) row where "proposal_row_by_id db i = Some row" "pp_Status (ar_proposal row) = Executing" "s = Executed \<or> s = ProposalFailed"
      "db' = update_proposal db i (\<lambda>r. r\<lparr>ar_proposal := (ar_proposal r)\<lparr>pp_Status := s, pp_Result := res\<rparr>\<rparr>)"
  using assms by (auto simp: pg_Finish_def Let_def split: option.splits if_splits)

lemma pg_AddRepository_proposals:
  "pg_AddRepository parse ids db actor input key = (db', r) \<Longrightarrow> at_proposals db' = at_proposals db"
  by (auto simp: pg_AddRepository_def Let_def attach_def result_simps split: sum.splits prod.splits if_splits)

interpretation pg: proposal_store pg_Create pg_Begin pg_Finish "pg_AddRepository parse ids" pg_status pg_ok
proof
  fix db db' :: assistant_db and i actor digest key now and p :: Proposal
  assume "pg_ok db" "pg_Begin db i actor digest key now = (db', Inr (p, False))"
  from this(2,1) show "pg_ok db' \<and> pp_ID p = i \<and> pg_status db i = Some AwaitingConfirmation \<and> pg_status db' = (pg_status db)(i \<mapsto> Executing) \<and>
      pp_WorkspaceID p = pr_Workspace actor \<and> pp_ActorID p = pr_ActorID actor \<and> before now (pp_ExpiresAt p)"
    by (cases rule: pg_Begin_cases)
      (auto simp: update_proposal_ok update_proposal_status pg_status_def scanProposal_def dest: row_id)
next
  fix db db' :: assistant_db and i actor digest key now r
  assume "pg_ok db" and other: "\<nexists>p. r = Inr (p, False)" and "pg_Begin db i actor digest key now = (db', r)"
  from this(3,1,2) show "pg_ok db' \<and> (pg_status db' = pg_status db \<or>
      pg_status db i = Some AwaitingConfirmation \<and> pg_status db' = (pg_status db)(i \<mapsto> ProposalExpired))"
    by (cases rule: pg_Begin_cases)
      (auto simp: update_proposal_ok update_proposal_status set_status_def pg_status_def)
next
  fix db db' :: assistant_db and i s res now and rf :: "agent_error + Proposal"
  assume "pg_ok db" "pg_Finish db i s res now = (db', rf)"
  from this(2,1) show "pg_ok db' \<and> (pg_status db' = pg_status db \<or>
      pg_status db i = Some Executing \<and> (s = Executed \<or> s = ProposalFailed) \<and> pg_status db' = (pg_status db)(i \<mapsto> s))"
    by (cases rule: pg_Finish_cases) (auto simp: update_proposal_ok update_proposal_status pg_status_def)
next
  fix db db' :: assistant_db and actor input key and re :: "agent_error + ProposalResult"
  assume "pg_ok db" "pg_AddRepository parse ids db actor input key = (db', re)"
  then show "pg_ok db' \<and> pg_status db' = pg_status db"
    using pg_AddRepository_proposals by (fastforce simp: pg_ok_def pg_status_def proposal_row_by_id_def)
qed (rule pg_Create_contract)

definition assistant_start :: "assistant_db \<Rightarrow> assistant_db assistant_sys" where
  "assistant_start db = \<lparr>sy_store = db, sy_issued = [], sy_running = [], sy_calls = []\<rparr>"

abbreviation pg_step where
  "pg_step parse ids \<equiv> assistant_step pg_Create pg_Begin pg_Finish (pg_AddRepository parse ids)"

lemma no_proposals: "at_proposals db = [] \<Longrightarrow> pg_ok db \<and> pg_status db = Map.empty"
  by (simp add: pg_ok_def pg_status_def proposal_row_by_id_def fun_eq_iff)

lemma pg_reachable_ok: "at_proposals db = [] \<Longrightarrow> (pg_step parse ids)\<^sup>*\<^sup>* (assistant_start db) s \<Longrightarrow> pg.sys_ok s"
  using pg.steps_ok [of parse ids "assistant_start db" s] pg.empty_ok [of db] no_proposals [of db]
  by (simp add: assistant_start_def)

text \<open>
  C14: The PostgreSQL store refines the proposal protocol: in every interleaving of proposals and
  confirmations, each step of the service changes the statuses as one step of the abstract protocol
  does, or not at all.
\<close>

theorem assistant_store_refines:
  assumes "at_proposals db = []" "(pg_step parse ids)\<^sup>*\<^sup>* (assistant_start db) s" "pg_step parse ids s t"
  shows "proto_step\<^sup>=\<^sup>= (pg_status (sy_store s)) (pg_status (sy_store t))"
  using pg.step_refines [OF assms(3) pg_reachable_ok [OF assms(1,2)]] by blast

text \<open>
  C13: A proposal is executed at most once: in every interleaving of concurrent confirmations, with any
  keys, replays and failures, the executor is called at most once for a proposal, and only for one
  whose confirmation was consumed.
\<close>

theorem proposal_executed_once:
  assumes "at_proposals db = []" "(pg_step parse ids)\<^sup>*\<^sup>* (assistant_start db) s"
  shows "distinct (sy_calls s) \<and>
    list_all (\<lambda>i. pg_status (sy_store s) i \<in> set [Some Executing, Some Executed, Some ProposalFailed]) (sy_calls s)"
  using pg_reachable_ok [OF assms] by (auto simp: pg.sys_ok_def pg.used_def list_all_iff)

section \<open>Attaching a repository\<close>

definition primaries_of :: "assistant_db \<Rightarrow> int64 \<Rightarrow> Repository list" where
  "primaries_of db pid = filter (\<lambda>r. rp_Role r = RolePrimary) (repositories_of db pid)"

lemma pg_AddRepository_Inr:
  assumes "pg_AddRepository parse ids db actor input key = (db', Inr res)"
  obtains c p issued where "Authorize actor ActionProjectWrite = None" "CanonicalRepositoryURL parse (ra_URL input) = Inr c"
    "assistant_project_row db (ra_ProjectID input) (pr_Workspace actor) = Some p" "aj_State p = ''active''"
    "aj_Version p = ra_ProjectVersion input" "int (length (repositories_of db (ra_ProjectID input))) < maxRepositories"
    "attach db actor p c (repository_role (ra_Role input)) issued key = Inr db'" "pz_RepositoryID res = fst issued"
  using assms by (auto simp: pg_AddRepository_def Let_def result_simps map_sum_def split: sum.splits)

lemma project_row_id: "assistant_project_row db i ws = Some p \<Longrightarrow> aj_ID p = i \<and> aj_Workspace p = ws"
  by (auto simp: assistant_project_row_def find_Some_iff)

lemma demote_filter:
  "length (filter (\<lambda>r. rp_ProjectID r = j) (demote_primaries i rs)) = length (filter (\<lambda>r. rp_ProjectID r = j) rs)"
  "filter (\<lambda>r. rp_ProjectID r = i \<and> rp_Role r = RolePrimary) (demote_primaries i rs) = []"
  by (induction rs) (auto simp: demote_primaries_def)

text \<open>
  The assistant's action is bounded and complete: when it succeeds the project was active at the
  confirmed version, it has exactly one more repository and at most twenty, its version has
  advanced by one, a new primary is the only primary (another role leaves the primaries alone), and
  exactly one audit event and one outbox event are written in the same transaction.
\<close>

theorem assistant_action_effect:
  assumes "pg_AddRepository parse ids db actor input key = (db', Inr res)"
  shows "length (repositories_of db' (ra_ProjectID input)) = length (repositories_of db (ra_ProjectID input)) + 1 \<and>
    length (repositories_of db' (ra_ProjectID input)) \<le> 20 \<and>
    map_option aj_Version (assistant_project_row db' (ra_ProjectID input) (pr_Workspace actor)) = Some (ra_ProjectVersion input + 1) \<and>
    (if repository_role (ra_Role input) = RolePrimary
     then map rp_ID (primaries_of db' (ra_ProjectID input)) = [pz_RepositoryID res]
     else primaries_of db' (ra_ProjectID input) = primaries_of db (ra_ProjectID input)) \<and>
    length (at_audit db') = length (at_audit db) + 1 \<and> length (at_outbox db') = length (at_outbox db) + 1"
proof -
  obtain c p issued where s: "assistant_project_row db (ra_ProjectID input) (pr_Workspace actor) = Some p"
      "aj_Version p = ra_ProjectVersion input" "int (length (repositories_of db (ra_ProjectID input))) < maxRepositories"
      "attach db actor p c (repository_role (ra_Role input)) issued key = Inr db'" "pz_RepositoryID res = fst issued"
    using assms by (rule pg_AddRepository_Inr)
  note id = project_row_id [OF s(1)]
  define rs where "rs = (if repository_role (ra_Role input) = RolePrimary then demote_primaries (aj_ID p) (at_repositories db)
     else at_repositories db)"
  obtain r where r: "at_repositories db' = rs @ [r]" "rp_ID r = fst issued" "rp_ProjectID r = aj_ID p" "rp_Role r = repository_role (ra_Role input)"
      "at_projects db' = map (\<lambda>q. if aj_ID q = aj_ID p then q\<lparr>aj_Version := aj_Version q + 1\<rparr> else q) (at_projects db)"
      "length (at_audit db') = length (at_audit db) + 1" "length (at_outbox db') = length (at_outbox db) + 1"
    using s(4) by (auto simp: attach_def Let_def rs_def split: prod.splits if_splits)
  have "assistant_project_row db' (ra_ProjectID input) (pr_Workspace actor) = Some (p\<lparr>aj_Version := aj_Version p + 1\<rparr>)"
    using s(1) id unfolding assistant_project_row_def r(5) by (subst find_map_same) auto
  moreover have "length (repositories_of db' (ra_ProjectID input)) = length (repositories_of db (ra_ProjectID input)) + 1"
    using r(1,3) id by (simp add: repositories_of_def rs_def demote_filter)
  moreover have "if repository_role (ra_Role input) = RolePrimary
     then map rp_ID (primaries_of db' (ra_ProjectID input)) = [pz_RepositoryID res]
     else primaries_of db' (ra_ProjectID input) = primaries_of db (ra_ProjectID input)"
    using r id s(5) demote_filter(2) [of "aj_ID p" "at_repositories db"]
    by (auto simp: primaries_of_def repositories_of_def rs_def conj_commute)
  ultimately show ?thesis using s(2,3) r(6,7) by (simp add: maxRepositories_def)
qed

definition sample_sha :: "string \<Rightarrow> string" where
  "sample_sha s = replicate 32 (CHR ''d'')"

definition sample_assistant_db :: assistant_db where
  "sample_assistant_db = \<lparr>at_workspaces = [1],
     at_projects = [\<lparr>aj_ID = 3, aj_Workspace = 1, aj_State = ''active'', aj_Version = 2\<rparr>],
     at_repositories = [\<lparr>rp_ID = 30, rp_ProjectID = 3, rp_Provider = ''github'', rp_CanonicalURL = ''https://github.com/o/main'',
       rp_Role = RolePrimary, rp_Version = 1\<rparr>],
     at_proposals = [], at_idempotency = [], at_audit = [], at_outbox = []\<rparr>"

definition sample_input :: RepositoryAdd where
  "sample_input = \<lparr>ra_ProjectID = 3, ra_ProjectVersion = 2, ra_URL = ''https://github.com/o/r'', ra_Role = ''primary''\<rparr>"

definition sample_author :: Principal where
  "sample_author = \<lparr>pr_ActorID = 4, pr_Kind = ActorMember, pr_Role = RoleAnalyst, pr_Status = StatusActive, pr_Scopes = [],
     pr_Version = 1, pr_Workspace = 1\<rparr>"

definition sample_proposal :: Proposal where
  "sample_proposal = new_proposal sample_sha sample_author
     \<lparr>dr_Action = ActionRepositoryAdd, dr_Repository = sample_input, dr_Effect = ''e'', dr_QuotaName = ''project_repositories'',
      dr_QuotaCost = 1, dr_QuotaLimit = 20, dr_QuotaUsed = 1, dr_ActionCount = 1, dr_Unrecognized = []\<rparr>
     \<lparr>sn_ProjectVersion = 2, sn_Lifecycle = ''active'', sn_QuotaUsed = 1, sn_QuotaLimit = 20\<rparr> 7 ''t'' (Time 1000 UTC)"

definition sample_ids :: "assistant_db \<Rightarrow> (int64 \<times> int64 \<times> int64) option" where
  "sample_ids db = Some (31, 41, 51)"

definition sample_created :: assistant_db where
  "sample_created = fst (pg_Create sample_assistant_db sample_proposal ''k'' (sample_sha ''m''))"

definition sample_confirmed :: "assistant_db \<times> (agent_error + Proposal) \<times> int64 list" where
  "sample_confirmed = Confirm pg_Begin pg_Finish pg_Snapshot (pg_AddRepository sample_parse sample_ids) sample_sha
     (Time 2000 UTC) (Time 3000 UTC) sample_created sample_author 7 ''t'' ''c''"

definition sample_assistant_sys :: "assistant_db assistant_sys" where
  "sample_assistant_sys = \<lparr>sy_store = fst sample_confirmed, sy_issued = [7], sy_running = [], sy_calls = snd (snd sample_confirmed)\<rparr>"

lemma sample_confirmed_once:
  "snd (snd sample_confirmed) = [7]" "pg_status (fst sample_confirmed) 7 = Some Executed"
  by code_simp+

lemma sample_proposed:
  "pg_step sample_parse sample_ids (assistant_start sample_assistant_db)
     \<lparr>sy_store = sample_created, sy_issued = [7], sy_running = [], sy_calls = []\<rparr>"
proof -
  define r where "r = snd (pg_Create sample_assistant_db sample_proposal ''k'' (sample_sha ''m''))"
  have "pg_Create sample_assistant_db sample_proposal ''k'' (sample_sha ''m'') = (sample_created, r)"
    by (simp add: sample_created_def r_def)
  from assistant_step.propose [of sample_proposal "assistant_start sample_assistant_db" pg_Create "''k''" "sample_sha ''m''" sample_created r] this
  show ?thesis by (simp add: assistant_start_def sample_proposal_def new_proposal_def)
qed

lemma sample_reached: "(pg_step sample_parse sample_ids)\<^sup>*\<^sup>* (assistant_start sample_assistant_db) sample_assistant_sys"
proof -
  let ?s = "\<lparr>sy_store = sample_created, sy_issued = [7], sy_running = [], sy_calls = []\<rparr>"
  have c: "Confirm pg_Begin pg_Finish pg_Snapshot (pg_AddRepository sample_parse sample_ids) sample_sha
     (Time 2000 UTC) (Time 3000 UTC) (sy_store ?s) sample_author 7 ''t'' ''c'' =
     (fst sample_confirmed, fst (snd sample_confirmed), snd (snd sample_confirmed))"
    by (simp add: sample_confirmed_def)
  have "(pg_step sample_parse sample_ids)\<^sup>*\<^sup>* ?s sample_assistant_sys"
    using Confirm_steps [OF c, of pg_Create] by (simp add: sample_assistant_sys_def)
  with sample_proposed show ?thesis by (rule converse_rtranclp_into_rtranclp)
qed

theorem assistant_store_refines_witness:
  "proto_step\<^sup>=\<^sup>= (pg_status sample_assistant_db) (pg_status sample_created)"
proof -
  have "at_proposals sample_assistant_db = []" by (simp add: sample_assistant_db_def)
  from assistant_store_refines [OF this rtranclp.rtrancl_refl sample_proposed] show ?thesis by (simp add: assistant_start_def)
qed

theorem proposal_executed_once_witness:
  "sy_calls sample_assistant_sys = [7] \<and> distinct (sy_calls sample_assistant_sys) \<and>
   pg_status (sy_store sample_assistant_sys) 7 = Some Executed"
proof -
  have "at_proposals sample_assistant_db = []" by (simp add: sample_assistant_db_def)
  from proposal_executed_once [OF this sample_reached] sample_confirmed_once show ?thesis
    by (simp add: sample_assistant_sys_def)
qed

theorem assistant_action_effect_witness:
  "\<exists>db res. pg_AddRepository sample_parse sample_ids sample_assistant_db sample_author sample_input ''c'' = (db, Inr res) \<and>
     map rp_ID (primaries_of db 3) = [pz_RepositoryID res]"
proof -
  have "case pg_AddRepository sample_parse sample_ids sample_assistant_db sample_author sample_input ''c'' of
      (db, Inl _) \<Rightarrow> False | (db, Inr _) \<Rightarrow> True" by code_simp
  then obtain db res where r: "pg_AddRepository sample_parse sample_ids sample_assistant_db sample_author sample_input ''c'' = (db, Inr res)"
    by (auto split: prod.splits sum.splits)
  moreover have "repository_role (ra_Role sample_input) = RolePrimary" "ra_ProjectID sample_input = 3"
    by (simp_all add: repository_role_def sample_input_def)
  ultimately show ?thesis using assistant_action_effect [OF r] by auto
qed

end
