(* ===== verification/Topic.thy ===== *)
theory Topic
  imports Go_Float
begin

text \<open>
  \<open>internal/topic\<close>: the connected components of mutual nearest neighbours, found by a depth-first search
  with an explicit stack, and the projection that applies an analyst's corrections to a candidate. Go maps
  that are only tested for membership are lists; the iteration order over them cannot be seen, since nodes
  and neighbours are sorted before they are used. A stack has its top in front.
\<close>

section \<open>Candidates\<close>

datatype topic_error = TopicErrInvalid

record Neighbor =
  nb_IssueID :: int64
  nb_NeighborID :: int64
  nb_Rank :: int
  nb_Similarity :: f64

record TopicCandidate =
  ca_ID :: int64
  ca_ProjectID :: int64
  ca_Members :: "int64 list"
  ca_AlgorithmVersion :: string
  ca_GeneratedLabel :: string
  ca_LabelRunID :: "int64 option"
  ca_CreatedAt :: gotime
  ca_RetiredAt :: "gotime option"

definition bad_neighbor :: "int \<Rightarrow> Neighbor \<Rightarrow> bool" where
  "bad_neighbor k n \<longleftrightarrow> nb_IssueID n \<le> 0 \<or> nb_NeighborID n \<le> 0 \<or> nb_IssueID n = nb_NeighborID n \<or>
     nb_Rank n < 1 \<or> nb_Rank n > k \<or> flt (nb_Similarity n) (Fin 0) \<or> flt (Fin 1) (nb_Similarity n)"

definition directed_edges :: "Neighbor list \<Rightarrow> (int64 \<times> int64) list" where
  "directed_edges ns = remdups (map (\<lambda>n. (nb_IssueID n, nb_NeighborID n)) ns)"

definition mutual_edges :: "(int64 \<times> int64) list \<Rightarrow> (int64 \<times> int64) list" where
  "mutual_edges directed = filter (\<lambda>(a, b). (b, a) \<in> set directed) directed"

definition node_order :: "Neighbor list \<Rightarrow> int64 list" where
  "node_order ns = sort_func cmp_int (remdups (concat (map (\<lambda>n. [nb_IssueID n, nb_NeighborID n]) ns)))"

definition adjacent :: "(int64 \<times> int64) list \<Rightarrow> int64 \<Rightarrow> int64 list" where
  "adjacent edges node = sort_func cmp_int (map snd (filter (\<lambda>(a, b). a = node) edges))"

fun push_unvisited :: "int64 list \<Rightarrow> int64 list \<Rightarrow> int64 list \<Rightarrow> int64 list \<times> int64 list" where
  "push_unvisited [] visited stack = (visited, stack)"
| "push_unvisited (n # ns) visited stack =
     (if n \<in> set visited then push_unvisited ns visited stack else push_unvisited ns (n # visited) (n # stack))"

lemma push_visited: "set visited \<subseteq> set (fst (push_unvisited ns visited stack)) \<and>
  set (fst (push_unvisited ns visited stack)) = set visited \<union> set ns"
  by (induction ns visited stack rule: push_unvisited.induct) auto

lemma push_nothing: "set ns \<subseteq> set visited \<Longrightarrow> push_unvisited ns visited stack = (visited, stack)"
  by (induction ns visited stack rule: push_unvisited.induct) auto

lemma set_adjacent [simp]: "set (adjacent edges node) = {b. (node, b) \<in> set edges}"
  by (force simp: adjacent_def)

function component_search :: "(int64 \<times> int64) list \<Rightarrow> int64 list \<Rightarrow> int64 list \<Rightarrow> int64 list \<Rightarrow> int64 list \<times> int64 list" where
  "component_search edges visited [] members = (visited, members)"
| "component_search edges visited (node # stack) members =
     (let (visited', stack') = push_unvisited (adjacent edges node) visited stack in
      component_search edges visited' stack' (members @ [node]))"
  by pat_completeness auto

text \<open>An iteration either marks an end point of an edge for the first time or shortens the stack.\<close>

termination component_search
proof (relation "inv_image (less_than <*lex*> less_than)
    (\<lambda>(edges, visited, stack, members). (card (snd ` set edges - set visited), length stack))", goal_cases)
  case (2 edges visited node stack members p visited' stack')
  then have p: "push_unvisited (adjacent edges node) visited stack = (visited', stack')" by simp
  have v: "set visited' = set visited \<union> set (adjacent edges node)"
    using push_visited [of visited "adjacent edges node" stack] p by simp
  show ?case
  proof (cases "set (adjacent edges node) \<subseteq> set visited")
    case True
    then show ?thesis using push_nothing [OF True, of stack] p by simp
  next
    case False
    then obtain b where b: "(node, b) \<in> set edges" "b \<notin> set visited" by auto
    then have "snd ` set edges - set visited' \<subset> snd ` set edges - set visited" unfolding v by force
    then have "card (snd ` set edges - set visited') < card (snd ` set edges - set visited)" by (intro psubset_card_mono) auto
    then show ?thesis by simp
  qed
qed auto

fun components_from :: "(int64 \<times> int64) list \<Rightarrow> int64 list \<Rightarrow> int64 list \<Rightarrow> int64 list list" where
  "components_from edges [] visited = []"
| "components_from edges (start # starts) visited =
     (if start \<in> set visited \<or> adjacent edges start = [] then components_from edges starts visited
      else let (visited', members) = component_search edges (start # visited) [start] []
           in sort_func cmp_int members # components_from edges starts visited')"

fun compareMembers :: "int64 list \<Rightarrow> int64 list \<Rightarrow> int" where
  "compareMembers (a # as) (b # bs) = (if a < b then - 1 else if a > b then 1 else compareMembers as bs)"
| "compareMembers [] [] = 0"
| "compareMembers [] (b # bs) = - 1"
| "compareMembers (a # as) [] = 1"

definition Candidates :: "int64 \<Rightarrow> Neighbor list \<Rightarrow> int \<Rightarrow> string \<Rightarrow> topic_error + TopicCandidate list" where
  "Candidates projectID neighbors k version =
     (if projectID \<le> 0 \<or> k < 1 \<or> k > 100 \<or> trim_space version = '''' then Inl TopicErrInvalid
      else if list_ex (bad_neighbor k) neighbors then Inl TopicErrInvalid
      else Inr (sort_func (\<lambda>a b. compareMembers (ca_Members a) (ca_Members b))
        (map (\<lambda>members. \<lparr>ca_ID = 0, ca_ProjectID = projectID, ca_Members = members, ca_AlgorithmVersion = version,
            ca_GeneratedLabel = '''', ca_LabelRunID = None, ca_CreatedAt = zero_time, ca_RetiredAt = None\<rparr>)
          (components_from (mutual_edges (directed_edges neighbors)) (node_order neighbors) []))))"

section \<open>Corrections\<close>

datatype TopicAction = ActionRename | ActionInclude | ActionExclude | ActionMerge | ActionSplit | ActionReassign
  | TopicActionOther string

record TopicCorrection =
  tk_ID :: int64
  tk_ProjectID :: int64
  tk_TopicID :: int64
  tk_Action :: TopicAction
  tk_IssueIDs :: "int64 list"
  tk_OtherTopicIDs :: "int64 list"
  tk_Label :: string
  tk_Reason :: string
  tk_ActorID :: int64
  tk_RequestID :: string
  tk_Version :: int64
  tk_CreatedAt :: gotime

definition correction_Validate :: "TopicCorrection \<Rightarrow> topic_error option" where
  "correction_Validate v =
     (if tk_ID v \<le> 0 \<or> tk_ProjectID v \<le> 0 \<or> tk_TopicID v \<le> 0 \<or> tk_ActorID v \<le> 0 \<or> tk_Version v \<le> 0 \<or>
         trim_space (tk_RequestID v) = '''' \<or> trim_space (tk_Reason v) = '''' \<or> is_zero (tk_CreatedAt v)
      then Some TopicErrInvalid
      else case tk_Action v of
        ActionRename \<Rightarrow> if trim_space (tk_Label v) = '''' then Some TopicErrInvalid else None
      | ActionInclude \<Rightarrow> if tk_IssueIDs v = [] then Some TopicErrInvalid else None
      | ActionExclude \<Rightarrow> if tk_IssueIDs v = [] then Some TopicErrInvalid else None
      | ActionSplit \<Rightarrow> if tk_IssueIDs v = [] then Some TopicErrInvalid else None
      | ActionReassign \<Rightarrow> if tk_IssueIDs v = [] then Some TopicErrInvalid else None
      | ActionMerge \<Rightarrow> if tk_OtherTopicIDs v = [] \<or> tk_TopicID v \<in> set (tk_OtherTopicIDs v) then Some TopicErrInvalid else None
      | TopicActionOther a \<Rightarrow> Some TopicErrInvalid)"

record Canonical =
  cn_Candidate :: TopicCandidate
  cn_Label :: string
  cn_Members :: "int64 list"
  cn_History :: "TopicCorrection list"

fun include_all :: "int64 list \<Rightarrow> int64 list \<Rightarrow> int64 list" where
  "include_all members [] = members"
| "include_all members (i # is) = include_all (if i \<in> set members then members else members @ [i]) is"

definition correct :: "TopicCorrection \<Rightarrow> string \<times> int64 list \<Rightarrow> string \<times> int64 list" where
  "correct c = (\<lambda>(label, members). case tk_Action c of
       ActionRename \<Rightarrow> (tk_Label c, members)
     | ActionInclude \<Rightarrow> (label, include_all members (tk_IssueIDs c))
     | ActionExclude \<Rightarrow> (label, filter (\<lambda>i. i \<notin> set (tk_IssueIDs c)) members)
     | ActionSplit \<Rightarrow> (label, filter (\<lambda>i. i \<notin> set (tk_IssueIDs c)) members)
     | ActionReassign \<Rightarrow> (label, filter (\<lambda>i. i \<notin> set (tk_IssueIDs c)) members)
     | ActionMerge \<Rightarrow> (label, members)
     | TopicActionOther a \<Rightarrow> (label, members))"

fun apply_corrections :: "TopicCandidate \<Rightarrow> TopicCorrection list \<Rightarrow> string list \<Rightarrow> int64 \<Rightarrow> string \<times> int64 list \<Rightarrow> topic_error + string \<times> int64 list" where
  "apply_corrections c [] seen last_version current = Inr current"
| "apply_corrections c (r # rs) seen last_version current =
     (if correction_Validate r \<noteq> None \<or> tk_TopicID r \<noteq> ca_ID c \<or> tk_Version r \<le> last_version then Inl TopicErrInvalid
      else if tk_RequestID r \<in> set seen then Inl TopicErrInvalid
      else case tk_Action r of TopicActionOther a \<Rightarrow> Inl TopicErrInvalid
        | _ \<Rightarrow> apply_corrections c rs (tk_RequestID r # seen) (tk_Version r) (correct r current))"

definition topic_Apply :: "TopicCandidate \<Rightarrow> TopicCorrection list \<Rightarrow> topic_error + Canonical" where
  "topic_Apply c rs =
     bindE (apply_corrections c rs [] 0 (ca_GeneratedLabel c, ca_Members c)) (\<lambda>(label, members).
     Inr \<lparr>cn_Candidate = c, cn_Label = label, cn_Members = compact (sort_func cmp_int members), cn_History = rs\<rparr>)"


section \<open>The search finds connected components\<close>

definition mutual :: "Neighbor list \<Rightarrow> (int64 \<times> int64) set" where
  "mutual ns = {(a, b). \<exists>n \<in> set ns. \<exists>m \<in> set ns. nb_IssueID n = a \<and> nb_NeighborID n = b \<and> nb_IssueID m = b \<and> nb_NeighborID m = a}"

lemma set_mutual_edges [simp]: "set (mutual_edges (directed_edges ns)) = mutual ns"
  by (force simp: mutual_edges_def directed_edges_def mutual_def)

lemma sym_mutual: "sym (mutual ns)"
  by (auto simp: sym_def mutual_def)

lemma push_stack:
  "distinct stack \<Longrightarrow> set stack \<subseteq> set visited \<Longrightarrow> push_unvisited ns visited stack = (v, s) \<Longrightarrow>
   distinct s \<and> set stack \<subseteq> set s \<and> set s - set stack = set ns - set visited"
  by (induction ns visited stack rule: push_unvisited.induct) (auto split: if_splits)

text \<open>What holds between two iterations: \<open>old\<close> are the nodes of the components found before.\<close>

definition search_ok :: "(int64 \<times> int64) set \<Rightarrow> int64 set \<Rightarrow> int64 \<Rightarrow> int64 list \<Rightarrow> int64 list \<Rightarrow> int64 list \<Rightarrow> bool" where
  "search_ok E old start visited stack members \<longleftrightarrow> distinct (members @ stack) \<and>
     set visited = old \<union> set (members @ stack) \<and> set (members @ stack) \<inter> old = {} \<and>
     E `` set members \<subseteq> set visited \<and> set (members @ stack) \<subseteq> E\<^sup>* `` {start} \<and> start \<in> set (members @ stack)"

lemma search_step:
  assumes "search_ok (set edges) old start visited (node # stack) members"
    "push_unvisited (adjacent edges node) visited stack = (visited', stack')"
  shows "search_ok (set edges) old start visited' stack' (members @ [node])"
proof -
  note ok = assms(1)[unfolded search_ok_def]
  have v: "set visited' = set visited \<union> set (adjacent edges node)"
    using push_visited [of visited "adjacent edges node" stack] assms(2) by simp
  have s: "distinct stack' \<and> set stack \<subseteq> set stack' \<and> set stack' - set stack = set (adjacent edges node) - set visited"
    by (rule push_stack [OF _ _ assms(2)]) (use ok in auto)
  have set_s: "set stack' = set stack \<union> (set (adjacent edges node) - set visited)" using s by blast
  have "start \<in> set (members @ [node] @ stack')" "distinct (members @ [node] @ stack')"
    using ok s set_s by auto
  moreover have "set visited' = old \<union> set (members @ [node] @ stack')" "set (members @ [node] @ stack') \<inter> old = {}"
    using ok v set_s by auto
  moreover have "set edges `` set (members @ [node]) \<subseteq> set visited'" using ok v by auto
  moreover have "set (members @ [node] @ stack') \<subseteq> (set edges)\<^sup>* `` {start}"
    using ok set_s by (auto intro: rtrancl_into_rtrancl)
  ultimately show ?thesis by (simp add: search_ok_def)
qed

lemma component_search_ok:
  "search_ok (set edges) old start visited stack members \<Longrightarrow> component_search edges visited stack members = (v, ms) \<Longrightarrow>
   search_ok (set edges) old start v [] ms"
proof (induction edges visited stack members arbitrary: v ms rule: component_search.induct)
  case (2 edges visited node stack members)
  obtain visited' stack' where p: "push_unvisited (adjacent edges node) visited stack = (visited', stack')" by (rule prod.exhaust)
  show ?case by (rule "2.IH" [OF p [symmetric] refl search_step [OF "2.prems"(1) p]]) (use "2.prems"(2) p in simp)
qed simp

lemma search_component:
  assumes "search_ok E old start v [] ms" "sym E" "E `` old \<subseteq> old"
  shows "set ms = E\<^sup>* `` {start} \<and> distinct ms \<and> set v = old \<union> E\<^sup>* `` {start} \<and> E `` set v \<subseteq> set v"
proof -
  note ok = assms(1)[unfolded search_ok_def, simplified]
  have closed: "E `` set ms \<subseteq> set ms"
  proof
    fix b assume "b \<in> E `` set ms"
    then obtain a where a: "a \<in> set ms" "(a, b) \<in> E" by auto
    then have "(b, a) \<in> E" using assms(2) by (auto dest: symD)
    then show "b \<in> set ms" using ok a assms(3) by blast
  qed
  have "E\<^sup>* `` {start} \<subseteq> E\<^sup>* `` set ms" using ok by (intro Image_mono) auto
  also have "E\<^sup>* `` set ms = set ms" by (rule Image_closed_trancl) (rule closed)
  finally show ?thesis using ok closed assms(3) by auto
qed

text \<open>The members of the candidates, as sets, are the components of the nodes that have a mutual neighbour.\<close>

definition components :: "('a \<times> 'a) set \<Rightarrow> 'a set \<Rightarrow> 'a set set" where
  "components E A = (\<lambda>a. E\<^sup>* `` {a}) ` {a \<in> A. E `` {a} \<noteq> {}}"

lemma component_eq:
  assumes "sym E" "(a, b) \<in> E\<^sup>*"
  shows "E\<^sup>* `` {b} = E\<^sup>* `` {a}"
proof -
  have "(b, a) \<in> E\<^sup>*" using assms by (meson sym_rtrancl symD)
  then show ?thesis using assms(2) by (auto intro: rtrancl_trans)
qed

lemma components_insert:
  assumes "sym E" "E `` {start} \<noteq> {}" "start \<notin> V" "V' = V \<union> E\<^sup>* `` {start}"
  shows "components E (insert start A - V) = insert (E\<^sup>* `` {start}) (components E (A - V'))"
proof
  show "components E (insert start A - V) \<subseteq> insert (E\<^sup>* `` {start}) (components E (A - V'))"
    using component_eq [OF assms(1)] assms(4) by (auto simp: components_def)
  show "insert (E\<^sup>* `` {start}) (components E (A - V')) \<subseteq> components E (insert start A - V)"
    using assms by (auto simp: components_def)
qed

lemma components_from_correct:
  assumes "sym (set edges)" "set edges `` set visited \<subseteq> set visited"
  shows "set (map set (components_from edges starts visited)) =
      components (set edges) (set starts - set visited) \<and>
    list_all sorted (components_from edges starts visited) \<and> list_all distinct (components_from edges starts visited) \<and>
    pairwise disjnt (set (map set (components_from edges starts visited))) \<and>
    distinct (components_from edges starts visited) \<and>
    list_all (\<lambda>ms. set ms \<inter> set visited = {} \<and> ms \<noteq> []) (components_from edges starts visited)"
  using assms
proof (induction edges starts visited rule: components_from.induct)
  case (1 edges visited)
  then show ?case by (simp add: components_def)
next
  case (2 edges start starts visited)
  let ?E = "set edges"
  show ?case
  proof (cases "start \<in> set visited \<or> adjacent edges start = []")
    case True
    have "set (adjacent edges start) = {} \<or> start \<in> set visited" using True by (auto simp del: set_adjacent)
    then have "?E `` {start} = {} \<or> start \<in> set visited" by auto
    then have "components ?E (set (start # starts) - set visited) = components ?E (set starts - set visited)"
      by (auto simp: components_def)
    moreover have "components_from edges (start # starts) visited = components_from edges starts visited" using True by simp
    ultimately show ?thesis using "2.IH"(1) [OF True "2.prems"] by argo
  next
    case False
    obtain v ms where run: "component_search edges (start # visited) [start] [] = (v, ms)" by (rule prod.exhaust)
    have "search_ok ?E (set visited) start (start # visited) [start] []" using False by (auto simp: search_ok_def)
    from component_search_ok [OF this run] have "search_ok ?E (set visited) start v [] ms" .
    note c = search_component [OF this "2.prems"]
    have "set (adjacent edges start) \<noteq> {}" using False by (simp del: set_adjacent)
    then have E: "?E `` {start} \<noteq> {}" by auto
    have "?E `` set v \<subseteq> set v" using c by blast
    note IH = "2.IH"(2) [OF False run [symmetric] refl "2.prems"(1) this]
    have comps: "components ?E (set (start # starts) - set visited) = insert (set ms) (components ?E (set starts - set v))"
      using components_insert [OF "2.prems"(1) E, of "set visited" "set v" "set starts"] False c by simp
    have eq: "components_from edges (start # starts) visited = sort_func cmp_int ms # components_from edges starts v"
      using False run by simp
    have dist: "distinct (sort_func cmp_int ms)" using c by (metis mset_eq_imp_distinct_iff mset_sort_func)
    have here: "set ms \<noteq> {}" "set ms \<inter> set visited = {}" "set ms \<subseteq> set v" "set visited \<subseteq> set v"
      using c \<open>search_ok ?E (set visited) start v [] ms\<close> by (auto simp: search_ok_def)
    have away: "set m \<inter> set ms = {}" "m \<noteq> []" "set m \<inter> set visited = {}" if "m \<in> set (components_from edges starts v)" for m
    proof -
      have "set m \<inter> set v = {}" "m \<noteq> []" using IH that by (auto simp: list_all_iff)
      then show "set m \<inter> set ms = {}" "m \<noteq> []" "set m \<inter> set visited = {}" using here(3,4) by blast+
    qed
    show ?thesis unfolding eq comps
    proof (intro conjI)
      show "pairwise disjnt (set (map set (sort_func cmp_int ms # components_from edges starts v)))"
      proof -
        have "pairwise disjnt (set (map set (components_from edges starts v)))" using IH by argo
        moreover have "disjnt (set ms) y \<and> disjnt y (set ms)" if "y \<in> set (map set (components_from edges starts v))" for y
          using away(1) that by (auto simp: disjnt_def)
        ultimately show ?thesis by (simp add: pairwise_insert)
      qed
      show "distinct (sort_func cmp_int ms # components_from edges starts v)"
        using IH away(1) [of "sort_func cmp_int ms"] here(1) by auto
      show "list_all (\<lambda>ms. set ms \<inter> set visited = {} \<and> ms \<noteq> []) (sort_func cmp_int ms # components_from edges starts v)"
      proof -
        have "sort_func cmp_int ms \<noteq> []" using here(1) set_sort_func [of cmp_int ms] by (metis set_empty)
        then show ?thesis using here away by (auto simp: list_all_iff)
      qed
    qed (use IH dist sorted_sort_ints in auto)
  qed
qed

lemma cmp_members_less: "compareMembers as bs \<le> 0 \<longleftrightarrow> as \<le> bs"
  by (induction as bs rule: compareMembers.induct) (auto simp: less_list_code)

interpretation member_order: comparator "\<lambda>a b. compareMembers (ca_Members a) (ca_Members b)"
  by unfold_locales (auto simp: cmp_members_less)

lemma node_order_covers: "mutual ns `` {a} \<noteq> {} \<Longrightarrow> a \<in> set (node_order ns)"
  by (auto simp: mutual_def node_order_def)

text \<open>
  C29: The candidates are the connected components, of at least two issues, of the graph in which two issues are joined when
  each is among the nearest neighbours of the other: every component is the member set of exactly one candidate, the members
  are listed in increasing order without repetition, and the candidates come in the order of their members.
\<close>
theorem candidates_are_components:
  assumes "Candidates projectID neighbors k version = Inr cs"
  shows "set (map (\<lambda>c. set (ca_Members c)) cs) = components (mutual neighbors) UNIV \<and>
    pairwise disjnt (set (map (\<lambda>c. set (ca_Members c)) cs)) \<and> distinct (map ca_Members cs) \<and>
    list_all (\<lambda>c. ca_ProjectID c = projectID \<and> sorted (ca_Members c) \<and> distinct (ca_Members c)) cs \<and>
    sorted (map ca_Members cs)"
proof -
  define found where "found = components_from (mutual_edges (directed_edges neighbors)) (node_order neighbors) []"
  define mk where "mk = (\<lambda>members. \<lparr>ca_ID = 0, ca_ProjectID = projectID, ca_Members = members, ca_AlgorithmVersion = version,
            ca_GeneratedLabel = '''', ca_LabelRunID = None, ca_CreatedAt = zero_time, ca_RetiredAt = None\<rparr>)"
  have cs: "cs = sort_func (\<lambda>a b. compareMembers (ca_Members a) (ca_Members b)) (map mk found)"
    using assms by (auto simp: Candidates_def found_def mk_def split: if_splits)
  have mk: "ca_Members (mk m) = m" "ca_ProjectID (mk m) = projectID" for m by (simp_all add: mk_def)
  have fnd: "set (map set found) = components (mutual neighbors) (set (node_order neighbors)) \<and> list_all sorted found \<and>
      list_all distinct found \<and> pairwise disjnt (set (map set found)) \<and> distinct found"
  proof -
    have "sym (set (mutual_edges (directed_edges neighbors)))" "set (mutual_edges (directed_edges neighbors)) `` set [] \<subseteq> set []"
      by (simp_all add: sym_mutual)
    note c = components_from_correct [OF this, of "node_order neighbors", folded found_def, unfolded set_mutual_edges list.set Diff_empty]
    show ?thesis by (intro conjI c [THEN conjunct1] c [THEN conjunct2, THEN conjunct1] c [THEN conjunct2, THEN conjunct2, THEN conjunct1]
      c [THEN conjunct2, THEN conjunct2, THEN conjunct2, THEN conjunct1] c [THEN conjunct2, THEN conjunct2, THEN conjunct2, THEN conjunct2, THEN conjunct1])
  qed
  have univ: "components (mutual neighbors) (set (node_order neighbors)) = components (mutual neighbors) UNIV"
    using node_order_covers by (auto simp: components_def)
  have mem: "set cs = mk ` set found" by (simp add: cs)
  have sets: "set (map (\<lambda>c. set (ca_Members c)) cs) = set (map set found)" using mem mk by (simp add: image_image)
  have "mset (map ca_Members cs) = mset found" by (simp add: cs multiset.map_comp comp_def mk)
  then have d: "distinct (map ca_Members cs)" using fnd mset_eq_imp_distinct_iff by blast
  have s: "sorted (map ca_Members cs)"
    using member_order.ordered_sort [of "map mk found"] by (simp add: cs ordered_by_def cmp_members_less sorted_wrt_map)
  have l: "list_all (\<lambda>c. ca_ProjectID c = projectID \<and> sorted (ca_Members c) \<and> distinct (ca_Members c)) cs"
    using fnd mem mk by (auto simp: list_all_iff)
  have p: "pairwise disjnt (set (map set found))" using fnd by blast
  show ?thesis unfolding sets by (intro conjI trans [OF fnd [THEN conjunct1] univ] p d l s)
qed

section \<open>What corrections come to\<close>

lemma set_include_all [simp]: "set (include_all members is) = set members \<union> set is"
  by (induction members "is" rule: include_all.induct) auto

lemma sorted_wrt_less_Cons: "sorted_wrt (<) (a # b # xs) \<longleftrightarrow> a < b \<and> sorted_wrt (<) (b # xs)" for a :: int
  by (auto intro: less_trans)

lemma apply_corrections_decides:
  "apply_corrections c rs seen last_version current =
     (if list_all (\<lambda>r. correction_Validate r = None \<and> tk_TopicID r = ca_ID c) rs \<and>
         sorted_wrt (<) (last_version # map tk_Version rs) \<and> distinct (map tk_RequestID rs) \<and> set (map tk_RequestID rs) \<inter> set seen = {}
      then Inr (fold correct rs current) else Inl TopicErrInvalid)"
proof (induction c rs seen last_version current rule: apply_corrections.induct)
  case (2 c r rs seen last_version current)
  have other: "\<not> (\<exists>a. tk_Action r = TopicActionOther a)" if "correction_Validate r = None"
    using that by (cases "tk_Action r") (simp_all add: correction_Validate_def split: if_splits)
  show ?case
  proof (cases "correction_Validate r \<noteq> None \<or> tk_TopicID r \<noteq> ca_ID c \<or> tk_Version r \<le> last_version \<or> tk_RequestID r \<in> set seen")
    case True
    then show ?thesis by (auto simp: sorted_wrt_less_Cons simp del: sorted_wrt.simps)
  next
    case False
    then have "apply_corrections c (r # rs) seen last_version current =
        apply_corrections c rs (tk_RequestID r # seen) (tk_Version r) (correct r current)"
      using other by (auto split: TopicAction.split)
    also have "\<dots> = (if list_all (\<lambda>r. correction_Validate r = None \<and> tk_TopicID r = ca_ID c) rs \<and>
         sorted_wrt (<) (tk_Version r # map tk_Version rs) \<and> distinct (map tk_RequestID rs) \<and>
         set (map tk_RequestID rs) \<inter> set (tk_RequestID r # seen) = {}
      then Inr (fold correct rs (correct r current)) else Inl TopicErrInvalid)"
      using "2.IH" False other by (cases "tk_Action r") auto
    finally show ?thesis using False by (auto simp: sorted_wrt_less_Cons simp del: sorted_wrt.simps)
  qed
qed simp

text \<open>The last correction that speaks of an issue, and the last that renames the topic.\<close>

definition membership_action :: "TopicAction \<Rightarrow> bool" where
  "membership_action a \<longleftrightarrow> a = ActionInclude \<or> a = ActionExclude \<or> a = ActionSplit \<or> a = ActionReassign"

definition listed :: "TopicCandidate \<Rightarrow> TopicCorrection list \<Rightarrow> int64 \<Rightarrow> bool" where
  "listed c rs i = (case find (\<lambda>r. membership_action (tk_Action r) \<and> i \<in> set (tk_IssueIDs r)) (rev rs) of
     None \<Rightarrow> i \<in> set (ca_Members c) | Some r \<Rightarrow> tk_Action r = ActionInclude)"

definition last_label :: "TopicCandidate \<Rightarrow> TopicCorrection list \<Rightarrow> string" where
  "last_label c rs = (case find (\<lambda>r. tk_Action r = ActionRename) (rev rs) of None \<Rightarrow> ca_GeneratedLabel c | Some r \<Rightarrow> tk_Label r)"

lemma listed_snoc: "listed c (rs @ [r]) i = (if membership_action (tk_Action r) \<and> i \<in> set (tk_IssueIDs r) then tk_Action r = ActionInclude else listed c rs i)"
  by (simp add: listed_def)

lemma last_label_snoc: "last_label c (rs @ [r]) = (if tk_Action r = ActionRename then tk_Label r else last_label c rs)"
  by (simp add: last_label_def)

lemma listed_bound: "listed c rs i \<Longrightarrow> i \<in> set (ca_Members c) \<union> set (concat (map tk_IssueIDs rs))"
  by (induction rs rule: rev_induct) (auto simp: listed_snoc listed_def [of c "[]"] split: if_splits)

lemma correct_effect:
  "correct r (l, ms) = (label, members) \<Longrightarrow> label = (if tk_Action r = ActionRename then tk_Label r else l) \<and>
   (i \<in> set members \<longleftrightarrow> (if membership_action (tk_Action r) \<and> i \<in> set (tk_IssueIDs r) then tk_Action r = ActionInclude else i \<in> set ms))"
  by (cases "tk_Action r") (auto simp: correct_def membership_action_def)

lemma fold_correct:
  "fold correct rs (ca_GeneratedLabel c, ca_Members c) = (label, members) \<Longrightarrow>
   label = last_label c rs \<and> (\<forall>i. i \<in> set members \<longleftrightarrow> listed c rs i)"
proof (induction rs arbitrary: label members rule: rev_induct)
  case Nil
  then show ?case by (simp add: last_label_def listed_def)
next
  case (snoc r rs)
  obtain l ms where p: "fold correct rs (ca_GeneratedLabel c, ca_Members c) = (l, ms)" by (rule prod.exhaust)
  from snoc.IH [OF p] have IH: "l = last_label c rs" "\<And>i. i \<in> set ms \<longleftrightarrow> listed c rs i" by auto
  have "correct r (l, ms) = (label, members)" using snoc.prems p by simp
  note e = correct_effect [OF this, unfolded IH]
  show ?case unfolding listed_snoc last_label_snoc using e by blast
qed

text \<open>
  Corrections are accepted exactly when each is valid and of this topic, their versions increase and no request is
  repeated. The projection then keeps the generated candidate and every correction, has the label of the last renaming, and
  lists in increasing order the issues that the last correction speaking of them includes, or that the candidate has when
  none speaks of them.
\<close>
theorem topic_apply_decides:
  "topic_Apply c rs =
     (if list_all (\<lambda>r. correction_Validate r = None \<and> tk_TopicID r = ca_ID c) rs \<and>
         sorted_wrt (<) (0 # map tk_Version rs) \<and> distinct (map tk_RequestID rs)
      then Inr \<lparr>cn_Candidate = c, cn_Label = last_label c rs,
        cn_Members = sorted_list_of_set {i \<in> set (ca_Members c) \<union> set (concat (map tk_IssueIDs rs)). listed c rs i},
        cn_History = rs\<rparr>
      else Inl TopicErrInvalid)"
proof -
  obtain l ms where p: "fold correct rs (ca_GeneratedLabel c, ca_Members c) = (l, ms)" by (rule prod.exhaust)
  have ms: "set ms = {i \<in> set (ca_Members c) \<union> set (concat (map tk_IssueIDs rs)). listed c rs i}"
    using fold_correct [OF p] listed_bound [of c rs] by blast
  have "compact (sort_func cmp_int ms) = sorted_list_of_set (set ms)"
    using sorted_compact_distinct [OF sorted_sort_ints [of ms]] by (intro sorted_distinct_set_unique) auto
  then show ?thesis using conjunct1 [OF fold_correct [OF p]] unfolding ms topic_Apply_def apply_corrections_decides p
    by (simp del: sorted_wrt.simps)
qed

definition sample_neighbors :: "Neighbor list" where
  "sample_neighbors = map (\<lambda>(a, b, r). \<lparr>nb_IssueID = a, nb_NeighborID = b, nb_Rank = r, nb_Similarity = Fin 1\<rparr>)
     [(1, 2, 1), (2, 1, 1), (2, 3, 2), (3, 2, 1), (4, 1, 1), (5, 6, 1), (6, 5, 1)]"

definition sample_candidates :: "TopicCandidate list" where
  "sample_candidates = (case Candidates 9 sample_neighbors 5 ''v1'' of Inl _ \<Rightarrow> [] | Inr cs \<Rightarrow> cs)"

theorem candidates_are_components_witness:
  "map ca_Members sample_candidates = [[1, 2, 3], [5, 6]] \<and>
   components (mutual sample_neighbors) UNIV = {{1, 2, 3}, {5, 6}}"
proof -
  have run: "Candidates 9 sample_neighbors 5 ''v1'' = Inr sample_candidates" by code_simp
  have "map ca_Members sample_candidates = [[1, 2, 3], [5, 6]]" by code_simp
  then have "set (map (\<lambda>c. set (ca_Members c)) sample_candidates) = set (map set [[1, 2, 3 :: int], [5, 6]])"
    by (metis (no_types, lifting) list.map_comp comp_apply map_eq_conv)
  with candidates_are_components [OF run] show ?thesis using \<open>map ca_Members sample_candidates = [[1, 2, 3], [5, 6]]\<close> by simp
qed
end
