(* ===== verification/Comparison.thy ===== *)
theory Comparison
  imports Metric
begin

text \<open>
  \<open>internal/comparison\<close>: the table that sets the snapshots of two to five projects side by side, one row
  per metric and one cell per project. The sets that Go keeps as maps only feed a sort or a count.
\<close>

datatype comparison_error = CmpErrInvalid

record ComparedProject =
  pc_ID :: int64
  pc_Name :: string
  pc_Resolved :: bool
  pc_Deleted :: bool
  pc_Archived :: bool
  pc_Metrics :: "Snapshot list"

record Cell =
  ce_ProjectID :: int64
  ce_Status :: MetricStatus
  ce_Value :: "f64 option"
  ce_Version :: string
  ce_Evidence :: "Factor list"

record Row =
  rw_Metric :: string
  rw_Unit :: string
  rw_Cells :: "Cell list"

record Comparison =
  cj_ID :: int64
  cj_ProjectIDs :: "int64 list"
  cj_Window :: MetricWindow
  cj_Rows :: "Row list"
  cj_CreatedAt :: gotime

fun check_projects :: "ComparedProject list \<Rightarrow> int64 list \<Rightarrow> comparison_error option" where
  "check_projects [] seen = None"
| "check_projects (p # ps) seen =
     (if pc_ID p \<le> 0 \<or> pc_Deleted p \<or> \<not> pc_Resolved p then Some CmpErrInvalid
      else if pc_ID p \<in> set seen then Some CmpErrInvalid
      else check_projects ps (pc_ID p # seen))"

definition definition_names :: "ComparedProject list \<Rightarrow> string list" where
  "definition_names ps = sort_func cmp_string (remdups (map (\<lambda>s. df_Name (sn_Definition s)) (concat (map pc_Metrics ps))))"

definition same_window :: "MetricWindow \<Rightarrow> MetricWindow \<Rightarrow> bool" where
  "same_window a b \<longleftrightarrow> time_equal (mw_From a) (mw_From b) \<and> time_equal (mw_To a) (mw_To b) \<and> time_equal (mw_Cutoff a) (mw_Cutoff b)"

definition snapshot_named :: "string \<Rightarrow> ComparedProject \<Rightarrow> Snapshot option" where
  "snapshot_named name p = find (\<lambda>s. df_Name (sn_Definition s) = name) (pc_Metrics p)"

definition cell_of :: "MetricWindow \<Rightarrow> string \<Rightarrow> ComparedProject \<Rightarrow> Cell" where
  "cell_of window name p =
     (let empty = \<lparr>ce_ProjectID = pc_ID p, ce_Status = StatusInsufficientData, ce_Value = None, ce_Version = '''', ce_Evidence = []\<rparr> in
      case snapshot_named name p of
        None \<Rightarrow> empty
      | Some s \<Rightarrow>
          let cell = empty\<lparr>ce_Status := sn_Status s, ce_Value := sn_Value s, ce_Version := df_Version (sn_Definition s),
                ce_Evidence := sn_Factors s\<rparr> in
          if \<not> same_window (sn_Window s) window then cell\<lparr>ce_Status := StatusIncomparable, ce_Value := None\<rparr> else cell)"

definition row_unit :: "string \<Rightarrow> ComparedProject list \<Rightarrow> string" where
  "row_unit name ps = fold (\<lambda>p u. case snapshot_named name p of None \<Rightarrow> u | Some s \<Rightarrow> df_Unit (sn_Definition s)) ps ''''"

definition cell_versions :: "Cell list \<Rightarrow> string list" where
  "cell_versions cells = remdups (map (\<lambda>c. to_lower (ce_Version c)) (filter (\<lambda>c. ce_Version c \<noteq> '''') cells))"

definition row_of :: "MetricWindow \<Rightarrow> ComparedProject list \<Rightarrow> string \<Rightarrow> Row" where
  "row_of window ps name =
     (let cells = map (cell_of window name) ps;
          cells' = (if length (cell_versions cells) > 1
            then map (\<lambda>c. if ce_Version c \<noteq> '''' then c\<lparr>ce_Status := StatusIncomparable, ce_Value := None\<rparr> else c) cells
            else cells) in
      \<lparr>rw_Metric = name, rw_Unit = row_unit name ps, rw_Cells = cells'\<rparr>)"

definition comparison_Materialize :: "int64 \<Rightarrow> ComparedProject list \<Rightarrow> MetricWindow \<Rightarrow> comparison_error + Comparison" where
  "comparison_Materialize i ps window =
     (if i \<le> 0 \<or> length ps < 2 \<or> length ps > 5 \<or> window_Validate window \<noteq> None then Inl CmpErrInvalid
      else case check_projects ps [] of Some e \<Rightarrow> Inl e
        | None \<Rightarrow> Inr \<lparr>cj_ID = i, cj_ProjectIDs = map pc_ID ps, cj_Window = window,
            cj_Rows = map (row_of window ps) (definition_names ps), cj_CreatedAt = mw_Cutoff window\<rparr>)"

section \<open>Properties\<close>

lemma check_projects_decides:
  "check_projects ps seen = (if list_all (\<lambda>p. 0 < pc_ID p \<and> \<not> pc_Deleted p \<and> pc_Resolved p) ps \<and>
     distinct (map pc_ID ps) \<and> set (map pc_ID ps) \<inter> set seen = {} then None else Some CmpErrInvalid)"
  by (induction ps seen rule: check_projects.induct) auto

lemma cell_of_simps [simp]: "ce_ProjectID (cell_of window name p) = pc_ID p"
  by (simp add: cell_of_def Let_def split: option.split)

text \<open>What a number in a cell stands for.\<close>

definition cell_sound :: "MetricWindow \<Rightarrow> string \<Rightarrow> ComparedProject \<Rightarrow> Cell \<Rightarrow> bool" where
  "cell_sound window name p c \<longleftrightarrow> ce_ProjectID c = pc_ID p \<and>
     (case snapshot_named name p of
        None \<Rightarrow> ce_Status c = StatusInsufficientData \<and> ce_Value c = None \<and> ce_Version c = ''''
      | Some s \<Rightarrow> ce_Version c = df_Version (sn_Definition s) \<and> ce_Evidence c = sn_Factors s \<and>
          ((ce_Status c, ce_Value c) = (StatusIncomparable, None) \<or>
           (ce_Status c, ce_Value c) = (sn_Status s, sn_Value s) \<and> same_window (sn_Window s) window))"

lemma cell_of_sound: "cell_sound window name p (cell_of window name p)"
  by (auto simp: cell_sound_def cell_of_def Let_def split: option.split)

lemma blanked_sound:
  "cell_sound window name p c \<Longrightarrow> ce_Version c \<noteq> '''' \<Longrightarrow> cell_sound window name p (c\<lparr>ce_Status := StatusIncomparable, ce_Value := None\<rparr>)"
  by (auto simp: cell_sound_def split: option.splits)

definition one_version :: "Cell list \<Rightarrow> bool" where
  "one_version cells \<longleftrightarrow> length (cell_versions (filter (\<lambda>c. ce_Value c \<noteq> None) cells)) \<le> 1"


lemma cell_versions_card: "length (cell_versions cells) = card ((\<lambda>c. to_lower (ce_Version c)) ` {c \<in> set cells. ce_Version c \<noteq> ''''})"
  by (simp add: cell_versions_def length_remdups_card_conv)

lemma one_version_row: "one_version (rw_Cells (row_of window ps name))"
proof (cases "length (cell_versions (map (cell_of window name) ps)) > 1")
  case True
  then have "{c \<in> set (filter (\<lambda>c. ce_Value c \<noteq> None) (rw_Cells (row_of window ps name))). ce_Version c \<noteq> ''''} = {}"
    by (auto simp: row_of_def Let_def)
  then show ?thesis by (simp only: one_version_def cell_versions_card image_empty card.empty zero_le)
next
  case False
  let ?cells = "map (cell_of window name) ps"
  have "{c \<in> set (filter (\<lambda>c. ce_Value c \<noteq> None) ?cells). ce_Version c \<noteq> ''''} \<subseteq> {c \<in> set ?cells. ce_Version c \<noteq> ''''}" by auto
  then have "length (cell_versions (filter (\<lambda>c. ce_Value c \<noteq> None) ?cells)) \<le> length (cell_versions ?cells)"
    unfolding cell_versions_card by (intro card_mono image_mono) auto
  with False show ?thesis by (simp add: one_version_def row_of_def Let_def)
qed

lemma row_cells_sound: "list_all2 (cell_sound window name) ps (rw_Cells (row_of window ps name))"
  by (auto simp: row_of_def Let_def list_all2_conv_all_nth cell_of_sound intro!: blanked_sound)

lemma row_of_metric [simp]: "rw_Metric (row_of window ps name) = name"
  by (simp add: row_of_def Let_def)

interpretation string_order: comparator cmp_string
  by unfold_locales (auto simp: cmp_string_def split: if_splits)

text \<open>
  A comparison has two to five different projects, one row for each metric name that a snapshot of theirs carries, in
  order, and one cell per project in each row. A number in a cell is the value of that project's snapshot, measured over the
  very window of the comparison, and the numbers of a row were computed by one version of the metric (versions that differ
  only in case, or are empty, do not count as different); nothing is converted or filled in.
\<close>
theorem comparison_cells_sound:
  assumes "comparison_Materialize i ps window = Inr c"
  shows "2 \<le> length ps \<and> length ps \<le> 5 \<and> cj_ProjectIDs c = map pc_ID ps \<and> distinct (cj_ProjectIDs c) \<and>
    list_all (\<lambda>p. pc_Resolved p \<and> \<not> pc_Deleted p) ps \<and> sorted (map rw_Metric (cj_Rows c)) \<and> distinct (map rw_Metric (cj_Rows c)) \<and>
    set (map rw_Metric (cj_Rows c)) = set (map (\<lambda>s. df_Name (sn_Definition s)) (concat (map pc_Metrics ps))) \<and>
    list_all (\<lambda>r. list_all2 (cell_sound window (rw_Metric r)) ps (rw_Cells r) \<and> one_version (rw_Cells r)) (cj_Rows c)"
proof -
  have names: "map rw_Metric (cj_Rows c) = definition_names ps" and rows: "cj_Rows c = map (row_of window ps) (definition_names ps)"
    and ids: "cj_ProjectIDs c = map pc_ID ps" "2 \<le> length ps" "length ps \<le> 5" and chk: "check_projects ps [] = None"
    using assms by (auto simp: comparison_Materialize_def comp_def split: if_splits option.splits)
  have chk: "list_all (\<lambda>p. 0 < pc_ID p \<and> \<not> pc_Deleted p \<and> pc_Resolved p) ps" "distinct (map pc_ID ps)"
    using chk unfolding check_projects_decides by (simp_all split: if_splits)
  have "distinct (definition_names ps)" unfolding definition_names_def by (metis distinct_remdups mset_eq_imp_distinct_iff mset_sort_func)
  moreover have "sorted_wrt (\<le>) (definition_names ps)"
    using string_order.ordered_sort unfolding ordered_by_def definition_names_def
    by (rule sorted_wrt_mono_rel [rotated]) (auto simp: cmp_string_def split: if_splits)
  moreover have "set (definition_names ps) = set (map (\<lambda>s. df_Name (sn_Definition s)) (concat (map pc_Metrics ps)))"
    by (simp only: definition_names_def set_sort_func set_remdups)
  moreover have "list_all (\<lambda>r. list_all2 (cell_sound window (rw_Metric r)) ps (rw_Cells r) \<and> one_version (rw_Cells r)) (cj_Rows c)"
    unfolding rows by (simp add: list_all_iff row_cells_sound one_version_row)
  moreover have "list_all (\<lambda>p. pc_Resolved p \<and> \<not> pc_Deleted p) ps" using chk(1) by (simp add: list_all_iff)
  ultimately show ?thesis using ids chk(2) unfolding names by (simp only: simp_thms)
qed

definition compared_window :: MetricWindow where
  "compared_window = \<lparr>mw_From = Time 1000 UTC, mw_To = Time 2000 UTC, mw_Cutoff = Time 2000 UTC\<rparr>"

definition compared_project :: "int64 \<Rightarrow> string \<Rightarrow> ComparedProject" where
  "compared_project i version = \<lparr>pc_ID = i, pc_Name = ''p'', pc_Resolved = True, pc_Deleted = False, pc_Archived = False,
     pc_Metrics = [\<lparr>sn_ID = 0, sn_ProjectID = i, sn_Definition = (hd catalog)\<lparr>df_Version := version\<rparr>, sn_Window = compared_window,
       sn_Status = StatusAvailable, sn_Value = Some (Fin 3), sn_Coverage = coverage_of 1 1 (Fin 1) '''', sn_Factors = [],
       sn_Repositories = [], sn_StaleReason = ''''\<rparr>]\<rparr>"

theorem comparison_cells_sound_witness:
  "\<exists>c. comparison_Materialize 4 [compared_project 1 ''v1'', compared_project 2 ''V1''] compared_window = Inr c \<and>
     list_all (\<lambda>r. one_version (rw_Cells r)) (cj_Rows c)"
proof -
  have "\<not> isl (comparison_Materialize 4 [compared_project 1 ''v1'', compared_project 2 ''V1''] compared_window)" by code_simp
  then obtain c where "comparison_Materialize 4 [compared_project 1 ''v1'', compared_project 2 ''V1''] compared_window = Inr c"
    by (metis isl_def sumE)
  with comparison_cells_sound [OF this] show ?thesis by (auto simp: list_all_iff)
qed
end
