(* ===== verification/Evidence.thy ===== *)
theory Evidence
  imports JobStore
begin

text \<open>
  Immutable evidence bytes: \<open>internal/evidence\<close> (object identity, purge manifests, the store that stages, verifies,
  promotes and commits), \<open>internal/platform/evidencecatalog\<close> (rows of \<open>object_references\<close>), the object store of
  \<open>internal/platform/objectstore\<close> and the reconciliation of \<open>internal/platform/recovery\<close>. SHA-256 is an argument.
  The remote object store is a map from keys to bodies; its script says which of the next requests fail without effect.
\<close>

section \<open>Objects and manifests\<close>

datatype evidence_error = EvErrInvalid | EvErrCorrupt | EvBlob | EvSQL

record Object =
  ob_ID :: int64
  ob_ProjectID :: int64
  ob_Key :: string
  ob_Digest :: string
  ob_Size :: int64
  ob_MediaType :: string

definition hex_digit :: "nat \<Rightarrow> char" where
  "hex_digit d = (if d < 10 then char_of (48 + d) else char_of (87 + d))"

definition hex_string :: "string \<Rightarrow> string" where
  "hex_string s = concat (map (\<lambda>c. [hex_digit (of_char c div 16), hex_digit (of_char c mod 16)]) s)"

definition object_key :: "int64 \<Rightarrow> string \<Rightarrow> string" where
  "object_key projectID digest = ''projects/'' @ format_int projectID @ ''/sha256/'' @ hex_string digest"

definition NewObject :: "(string \<Rightarrow> string) \<Rightarrow> int64 \<Rightarrow> int64 \<Rightarrow> string \<Rightarrow> string \<Rightarrow> evidence_error + Object" where
  "NewObject sha i projectID mediaType body =
     (if i \<le> 0 \<or> projectID \<le> 0 \<or> trim_space mediaType = '''' then Inl EvErrInvalid
      else Inr \<lparr>ob_ID = i, ob_ProjectID = projectID, ob_Key = object_key projectID (sha body), ob_Digest = sha body,
        ob_Size = int (length body), ob_MediaType = mediaType\<rparr>)"

definition object_Verify :: "(string \<Rightarrow> string) \<Rightarrow> Object \<Rightarrow> string \<Rightarrow> evidence_error option" where
  "object_Verify sha obj body = (if int (length body) \<noteq> ob_Size obj \<or> sha body \<noteq> ob_Digest obj then Some EvErrCorrupt else None)"

record PurgeManifest =
  pu_ProjectID :: int64
  pu_Keys :: "string list"
  pu_Deleted :: "string list"

definition Remaining :: "PurgeManifest \<Rightarrow> string list" where
  "Remaining m = filter (\<lambda>k. k \<notin> set (pu_Deleted m)) (pu_Keys m)"

definition MarkDeleted :: "PurgeManifest \<Rightarrow> string \<Rightarrow> evidence_error + PurgeManifest" where
  "MarkDeleted m key =
     (if key \<notin> set (pu_Keys m) then Inl EvErrInvalid
      else if key \<notin> set (pu_Deleted m) then Inr (m\<lparr>pu_Deleted := pu_Deleted m @ [key]\<rparr>) else Inr m)"

lemma Remaining_MarkDeleted: "MarkDeleted m key = Inr m' \<Longrightarrow> Remaining m' = filter (\<lambda>k. k \<noteq> key) (Remaining m)"
  by (auto simp: MarkDeleted_def Remaining_def filter_filter intro!: filter_cong split: if_splits)

section \<open>The object store\<close>

record blob_store =
  bb_objects :: "string \<Rightarrow> string option"
  bb_script :: "bool list"

definition attempt_request :: "(blob_store \<Rightarrow> blob_store) \<Rightarrow> blob_store \<Rightarrow> bool \<times> blob_store" where
  "attempt_request act b =
     (case bb_script b of [] \<Rightarrow> (True, act b)
      | ok # rest \<Rightarrow> if ok then (True, act (b\<lparr>bb_script := rest\<rparr>)) else (False, b\<lparr>bb_script := rest\<rparr>))"

text \<open>\<open>path.Clean(key) == key\<close> for a key that does not start with a slash.\<close>

definition clean_path :: "string \<Rightarrow> bool" where
  "clean_path key \<longleftrightarrow> key = ''.'' \<or>
     (let parts = split_on CHR ''/'' key in list_all (\<lambda>p. p \<noteq> '''' \<and> p \<noteq> ''.'') parts \<and>
        list_all (\<lambda>p. p \<noteq> ''..'') (dropWhile (\<lambda>p. p = ''..'') parts))"

definition contains :: "string \<Rightarrow> string \<Rightarrow> bool" where
  "contains s sub \<longleftrightarrow> list_ex (\<lambda>i. prefix sub (drop i s)) [0..<Suc (length s)]"

definition validKey :: "string \<Rightarrow> bool" where
  "validKey key \<longleftrightarrow> key \<noteq> '''' \<and> \<not> prefix ''/'' key \<and> \<not> contains key [char_of (92 :: nat)] \<and>
     char_of (13 :: nat) \<notin> set key \<and> char_of (10 :: nat) \<notin> set key \<and> clean_path key \<and> key \<noteq> ''.'' \<and>
     \<not> prefix ''../'' key \<and> \<not> contains key ''/../''"

definition s3_Stage :: "int64 \<Rightarrow> string \<Rightarrow> string \<Rightarrow> string \<Rightarrow> blob_store \<Rightarrow> evidence_error option \<times> blob_store" where
  "s3_Stage maxBytes key body mediaType b =
     (if \<not> validKey key \<or> int (length body) > maxBytes \<or> trim_space mediaType = '''' then (Some EvBlob, b)
      else case attempt_request (\<lambda>b. b\<lparr>bb_objects := (bb_objects b)(key \<mapsto> body)\<rparr>) b of
        (ok, b') \<Rightarrow> (if ok then None else Some EvBlob, b'))"

definition s3_Read :: "int64 \<Rightarrow> string \<Rightarrow> blob_store \<Rightarrow> (evidence_error + string) \<times> blob_store" where
  "s3_Read maxBytes key b =
     (if \<not> validKey key then (Inl EvBlob, b)
      else case attempt_request id b of
        (False, b') \<Rightarrow> (Inl EvBlob, b')
      | (True, b') \<Rightarrow> (case bb_objects b' key of None \<Rightarrow> (Inl EvBlob, b')
          | Some body \<Rightarrow> if int (length body) > maxBytes then (Inl EvBlob, b') else (Inr body, b')))"

definition s3_Delete :: "string \<Rightarrow> blob_store \<Rightarrow> evidence_error option \<times> blob_store" where
  "s3_Delete key b =
     (if \<not> validKey key then (Some EvBlob, b)
      else case attempt_request (\<lambda>b. b\<lparr>bb_objects := (bb_objects b)(key := None)\<rparr>) b of
        (ok, b') \<Rightarrow> (if ok then None else Some EvBlob, b'))"

definition s3_Promote :: "string \<Rightarrow> string \<Rightarrow> blob_store \<Rightarrow> evidence_error option \<times> blob_store" where
  "s3_Promote stagedKey finalKey b =
     (if \<not> validKey stagedKey \<or> \<not> validKey finalKey \<or> stagedKey = finalKey then (Some EvBlob, b)
      else case bb_objects b stagedKey of
        None \<Rightarrow> (Some EvBlob, snd (attempt_request id b))
      | Some body \<Rightarrow>
          case attempt_request (\<lambda>b. b\<lparr>bb_objects := (bb_objects b)(finalKey \<mapsto> body)\<rparr>) b of
            (False, b') \<Rightarrow> (Some EvBlob, b')
          | (True, b') \<Rightarrow> s3_Delete stagedKey b')"

section \<open>The catalog\<close>

text \<open>A row of \<open>object_references\<close>; \<open>or_Verified\<close> says whether \<open>verified_at\<close> is set.\<close>

record object_row =
  or_Object :: Object
  or_Owned :: bool
  or_Retained :: bool
  or_Verified :: bool

definition catalog_Find :: "object_row list \<Rightarrow> int64 \<Rightarrow> int64 \<Rightarrow> evidence_error + Object" where
  "catalog_Find rows projectID objectID =
     (if projectID \<le> 0 \<or> objectID \<le> 0 then Inl EvErrInvalid
      else case find (\<lambda>r. ob_ID (or_Object r) = objectID \<and> or_Owned r \<and> ob_ProjectID (or_Object r) = projectID \<and>
          or_Retained r \<and> or_Verified r) rows of
        None \<Rightarrow> Inl EvErrInvalid
      | Some r \<Rightarrow> Inr (or_Object r))"

text \<open>
  Of the constraints of \<open>object_references\<close>, the foreign key to \<open>projects\<close> and the length of the digest are left out: the rows stand
  for objects of existing projects, and a digest is what SHA-256 returns.
\<close>

definition catalog_Commit :: "object_row list \<Rightarrow> Object \<Rightarrow> evidence_error + object_row list" where
  "catalog_Commit rows obj =
     (if ob_ID obj \<le> 0 \<or> ob_ProjectID obj \<le> 0 \<or> ob_Key obj = '''' \<or> ob_Size obj < 0 \<or> ob_MediaType obj = '''' then Inl EvErrInvalid
      else if \<not> list_ex (\<lambda>r. ob_Key (or_Object r) = ob_Key obj) rows then
        (if list_ex (\<lambda>r. ob_ID (or_Object r) = ob_ID obj) rows then Inl EvSQL
         else Inr (rows @ [\<lparr>or_Object = obj, or_Owned = True, or_Retained = True, or_Verified = True\<rparr>]))
      else bindE (catalog_Find rows (ob_ProjectID obj) (ob_ID obj)) (\<lambda>existing.
        if ob_Key existing \<noteq> ob_Key obj \<or> ob_Digest existing \<noteq> ob_Digest obj \<or> ob_Size existing \<noteq> ob_Size obj \<or>
           ob_MediaType existing \<noteq> ob_MediaType obj
        then Inl EvErrInvalid else Inr rows))"

section \<open>The evidence store\<close>

record evidence_sys =
  ey_blobs :: blob_store
  ey_rows :: "object_row list"

definition staged_key :: "Object \<Rightarrow> string" where
  "staged_key obj = ob_Key obj @ ''.staged-'' @ format_int (ob_ID obj)"

definition abandon_put :: "evidence_sys \<Rightarrow> string \<Rightarrow> evidence_error \<Rightarrow> blob_store \<Rightarrow> (evidence_error + Object) \<times> evidence_sys" where
  "abandon_put es staged e b = (Inl e, es\<lparr>ey_blobs := snd (s3_Delete staged b)\<rparr>)"

definition evidence_Put ::
    "(string \<Rightarrow> string) \<Rightarrow> int64 \<Rightarrow> evidence_sys \<Rightarrow> int64 \<Rightarrow> int64 \<Rightarrow> string \<Rightarrow> string \<Rightarrow> (evidence_error + Object) \<times> evidence_sys" where
  "evidence_Put sha maxBytes es i projectID mediaType body =
     (case NewObject sha i projectID mediaType body of Inl e \<Rightarrow> (Inl e, es)
      | Inr obj \<Rightarrow>
          let staged = staged_key obj in
          case s3_Stage maxBytes staged body mediaType (ey_blobs es) of
            (Some e, b) \<Rightarrow> (Inl e, es\<lparr>ey_blobs := b\<rparr>)
          | (None, b) \<Rightarrow>
              (case s3_Read maxBytes staged b of
                 (Inl e, b) \<Rightarrow> abandon_put es staged e b
               | (Inr stored, b) \<Rightarrow>
                   (case object_Verify sha obj stored of
                      Some e \<Rightarrow> abandon_put es staged e b
                    | None \<Rightarrow>
                        (case s3_Promote staged (ob_Key obj) b of
                           (Some e, b) \<Rightarrow> abandon_put es staged e b
                         | (None, b) \<Rightarrow>
                             (case catalog_Commit (ey_rows es) obj of
                                Inl e \<Rightarrow> abandon_put es staged e (snd (s3_Delete (ob_Key obj) b))
                              | Inr rows \<Rightarrow> (Inr obj, es\<lparr>ey_blobs := b, ey_rows := rows\<rparr>))))))"

definition evidence_Get ::
    "(string \<Rightarrow> string) \<Rightarrow> int64 \<Rightarrow> evidence_sys \<Rightarrow> int64 \<Rightarrow> int64 \<Rightarrow> (evidence_error + string) \<times> evidence_sys" where
  "evidence_Get sha maxBytes es projectID objectID =
     (case catalog_Find (ey_rows es) projectID objectID of Inl e \<Rightarrow> (Inl e, es)
      | Inr obj \<Rightarrow>
          if ob_ProjectID obj \<noteq> projectID then (Inl EvErrInvalid, es)
          else case s3_Read maxBytes (ob_Key obj) (ey_blobs es) of
            (Inl e, b) \<Rightarrow> (Inl e, es\<lparr>ey_blobs := b\<rparr>)
          | (Inr body, b) \<Rightarrow>
              (case object_Verify sha obj body of Some e \<Rightarrow> (Inl e, es\<lparr>ey_blobs := b\<rparr>)
               | None \<Rightarrow> (Inr body, es\<lparr>ey_blobs := b\<rparr>)))"

section \<open>Reconciliation\<close>

text \<open>\<open>actual\<close> is a Go map: an association list with distinct keys.\<close>

record ReconcileResult =
  re_Missing :: "string list"
  re_Mismatched :: "string list"
  re_Orphaned :: "string list"

definition Reconcile :: "(string \<times> string) list \<Rightarrow> (string \<times> string) list \<Rightarrow> ReconcileResult" where
  "Reconcile expected actual =
     \<lparr>re_Missing = sort_func cmp_string (map fst (filter (\<lambda>(k, d). map_of actual k = None) expected)),
      re_Mismatched = sort_func cmp_string (map fst (filter (\<lambda>(k, d). case map_of actual k of None \<Rightarrow> False | Some a \<Rightarrow> a \<noteq> d) expected)),
      re_Orphaned = sort_func cmp_string (filter (\<lambda>k. k \<notin> set (map fst expected)) (map fst actual))\<rparr>"

definition Clean :: "ReconcileResult \<Rightarrow> bool" where
  "Clean r \<longleftrightarrow> length (re_Missing r) = 0 \<and> length (re_Mismatched r) = 0 \<and> length (re_Orphaned r) = 0"

text \<open>A clean result means that the stored objects are exactly the referenced ones, with their digests.\<close>

lemma reconcile_clean_iff:
  assumes "distinct (map fst expected)" "distinct (map fst actual)"
  shows "Clean (Reconcile expected actual) \<longleftrightarrow> map_of expected = map_of actual"
proof -
  have len: "length (sort_func cmp_string xs) = 0 \<longleftrightarrow> xs = []" for xs by simp
  have "Clean (Reconcile expected actual) \<longleftrightarrow> (\<forall>(k, d) \<in> set expected. map_of actual k = Some d) \<and> fst ` set actual \<subseteq> fst ` set expected"
    unfolding Clean_def Reconcile_def by (auto simp: len filter_empty_conv split: option.splits)
  also have "\<dots> \<longleftrightarrow> map_of expected = map_of actual"
  proof
    assume a: "(\<forall>(k, d) \<in> set expected. map_of actual k = Some d) \<and> fst ` set actual \<subseteq> fst ` set expected"
    show "map_of expected = map_of actual"
    proof
      fix k
      show "map_of expected k = map_of actual k"
      proof (cases "map_of expected k")
        case None
        then have "k \<notin> fst ` set actual" using a by (auto simp: map_of_eq_None_iff)
        then have "map_of actual k = None" by (simp add: map_of_eq_None_iff)
        with None show ?thesis by simp
      next
        case (Some d)
        then show ?thesis using a map_of_SomeD [OF Some] by auto
      qed
    qed
  next
    assume a: "map_of expected = map_of actual"
    then have "dom (map_of expected) = dom (map_of actual)" by simp
    then have "fst ` set actual = fst ` set expected" by (simp add: dom_map_of_conv_image_fst)
    then show "(\<forall>(k, d) \<in> set expected. map_of actual k = Some d) \<and> fst ` set actual \<subseteq> fst ` set expected"
      using assms(1) by (auto simp flip: a)
  qed
  finally show ?thesis .
qed


section \<open>Properties of the evidence store\<close>

lemma attempt_ok: "bb_script b = [] \<Longrightarrow> attempt_request act b = (True, act b)"
  by (simp add: attempt_request_def)

lemma attempt_true: "attempt_request act b = (True, b') \<Longrightarrow> \<exists>s. b' = act (b\<lparr>bb_script := s\<rparr>)"
proof (cases "bb_script b")
  case Nil
  assume "attempt_request act b = (True, b')"
  with Nil have "b' = act (b\<lparr>bb_script := bb_script b\<rparr>)" by (cases b) (simp add: attempt_request_def)
  then show ?thesis by blast
next
  case (Cons ok rest)
  assume "attempt_request act b = (True, b')"
  with Cons show ?thesis by (auto simp: attempt_request_def split: if_splits)
qed

text \<open>What a successful \<open>Put\<close> leaves behind.\<close>

lemma evidence_Put_effect:
  assumes "evidence_Put sha maxBytes es i p m body = (Inr obj, es')"
  shows "NewObject sha i p m body = Inr obj \<and> catalog_Commit (ey_rows es) obj = Inr (ey_rows es') \<and>
    bb_objects (ey_blobs es') (ob_Key obj) = Some body \<and> validKey (ob_Key obj) \<and> int (length body) \<le> maxBytes \<and>
    trim_space m \<noteq> '''' \<and> ob_Key obj \<noteq> staged_key obj"
proof -
  obtain o1 where new: "NewObject sha i p m body = Inr o1" using assms by (auto simp: evidence_Put_def split: sum.splits)
  obtain b1 where st: "s3_Stage maxBytes (staged_key o1) body m (ey_blobs es) = (None, b1)"
    using assms new by (auto simp: evidence_Put_def Let_def split: prod.splits option.splits)
  obtain stored b2 where rd: "s3_Read maxBytes (staged_key o1) b1 = (Inr stored, b2)"
    using assms new st by (auto simp: evidence_Put_def Let_def abandon_put_def split: prod.splits sum.splits)
  obtain b3 where vf: "object_Verify sha o1 stored = None" and pr: "s3_Promote (staged_key o1) (ob_Key o1) b2 = (None, b3)"
    using assms new st rd by (auto simp: evidence_Put_def Let_def abandon_put_def split: prod.splits option.splits)
  obtain rows where cm: "catalog_Commit (ey_rows es) o1 = Inr rows" and out: "obj = o1" "es' = es\<lparr>ey_blobs := b3, ey_rows := rows\<rparr>"
    using assms new st rd vf pr by (auto simp: evidence_Put_def Let_def abandon_put_def split: sum.splits)
  have b1: "bb_objects b1 (staged_key o1) = Some body" "int (length body) \<le> maxBytes" "trim_space m \<noteq> ''''"
    using st by (auto simp: s3_Stage_def split: if_splits prod.splits dest!: attempt_true)
  have b2: "bb_objects b2 = bb_objects b1"
    using rd by (auto simp: s3_Read_def split: if_splits prod.splits bool.splits option.splits dest!: attempt_true)
  have keys: "staged_key o1 \<noteq> ob_Key o1" "validKey (ob_Key o1)" using pr by (auto simp: s3_Promote_def split: if_splits)
  have "bb_objects b3 (ob_Key o1) = Some body"
    using pr b1(1) b2 keys by (auto simp: s3_Promote_def s3_Delete_def split: if_splits prod.splits bool.splits dest!: attempt_true)
  with new cm out b1 keys show ?thesis by auto
qed

lemma NewObject_simps: "NewObject sha i p m body = Inr obj \<Longrightarrow> 0 < i \<and> 0 < p \<and> ob_ID obj = i \<and> ob_ProjectID obj = p \<and>
   ob_Digest obj = sha body \<and> ob_Size obj = int (length body) \<and> ob_MediaType obj = m \<and> ob_Key obj = object_key p (sha body)"
  by (auto simp: NewObject_def split: if_splits)

lemma catalog_Find_Some:
  assumes "catalog_Find rows p i = Inr obj"
  shows "\<exists>r \<in> set rows. or_Object r = obj \<and> ob_ID obj = i \<and> ob_ProjectID obj = p \<and> 0 < p \<and> 0 < i"
  using assms by (auto simp: catalog_Find_def find_Some_iff split: if_splits option.splits)

lemma committed_found:
  assumes "catalog_Commit rows obj = Inr rows'"
  shows "\<exists>o2. catalog_Find rows' (ob_ProjectID obj) (ob_ID obj) = Inr o2 \<and> ob_Key o2 = ob_Key obj \<and>
    ob_Digest o2 = ob_Digest obj \<and> ob_Size o2 = ob_Size obj \<and> ob_ProjectID o2 = ob_ProjectID obj"
proof (cases "list_ex (\<lambda>r. ob_Key (or_Object r) = ob_Key obj) rows")
  case True
  show ?thesis
  proof (cases "catalog_Find rows (ob_ProjectID obj) (ob_ID obj)")
    case (Inl e)
    with True assms show ?thesis by (simp add: catalog_Commit_def split: if_splits)
  next
    case (Inr o2)
    then have "rows' = rows \<and> ob_Key o2 = ob_Key obj \<and> ob_Digest o2 = ob_Digest obj \<and> ob_Size o2 = ob_Size obj"
      using True assms by (simp add: catalog_Commit_def split: if_splits)
    with Inr catalog_Find_Some [OF Inr] show ?thesis by auto
  qed
next
  case False
  then have new: "rows' = rows @ [\<lparr>or_Object = obj, or_Owned = True, or_Retained = True, or_Verified = True\<rparr>]"
    and none: "\<not> list_ex (\<lambda>r. ob_ID (or_Object r) = ob_ID obj) rows" and pos: "0 < ob_ProjectID obj" "0 < ob_ID obj"
    using assms by (auto simp: catalog_Commit_def split: if_splits)
  have "find (\<lambda>r. ob_ID (or_Object r) = ob_ID obj \<and> or_Owned r \<and> ob_ProjectID (or_Object r) = ob_ProjectID obj \<and>
      or_Retained r \<and> or_Verified r) rows = None"
    using none by (auto simp: find_None_iff list_ex_iff)
  then show ?thesis using pos by (simp add: catalog_Find_def new find_append)
qed

text \<open>
  C30: What \<open>Put\<close> has stored, \<open>Get\<close> returns: after a successful \<open>Put\<close> the bytes are read back, with their size and digest
  verified, under the project and identifier they were stored with, when the object store answers.
\<close>
theorem evidence_put_get:
  assumes "evidence_Put sha maxBytes es i p m body = (Inr obj, es')" "bb_script (ey_blobs es') = []"
  shows "evidence_Get sha maxBytes es' p i = (Inr body, es')"
proof -
  note e = evidence_Put_effect [OF assms(1)]
  note n = NewObject_simps [OF conjunct1 [OF e]]
  obtain o2 where o2: "catalog_Find (ey_rows es') p i = Inr o2" "ob_Key o2 = ob_Key obj" "ob_Digest o2 = sha body"
      "ob_Size o2 = int (length body)" "ob_ProjectID o2 = p"
    using committed_found [of "ey_rows es" obj "ey_rows es'"] e n by auto
  have "s3_Read maxBytes (ob_Key obj) (ey_blobs es') = (Inr body, ey_blobs es')"
    using e assms(2) by (simp add: s3_Read_def attempt_ok)
  with o2 show ?thesis by (simp add: evidence_Get_def object_Verify_def)
qed

text \<open>
  C31: A second \<open>Put\<close> of the same bytes for the same project under a new identifier is refused, and it destroys the evidence
  that is already there: the row of the first object has the key, so \<open>Commit\<close> finds no row of the new identifier, and
  \<open>Put\<close> then deletes the shared content-addressed object, which the first row still names.
\<close>
theorem evidence_put_again_destroys:
  assumes "evidence_Put sha maxBytes es i p m body = (Inr obj, es')" "bb_script (ey_blobs es') = []"
    "\<not> list_ex (\<lambda>r. ob_ID (or_Object r) = j) (ey_rows es')" "0 < j"
    "validKey (ob_Key obj @ ''.staged-'' @ format_int j)"
  shows "\<exists>es2. evidence_Put sha maxBytes es' j p m body = (Inl EvErrInvalid, es2) \<and>
    fst (evidence_Get sha maxBytes es2 p i) = Inl EvBlob"
proof -
  note e = evidence_Put_effect [OF assms(1)]
  note n = NewObject_simps [OF conjunct1 [OF e]]
  define o2 where "o2 = \<lparr>ob_ID = j, ob_ProjectID = p, ob_Key = ob_Key obj, ob_Digest = sha body, ob_Size = int (length body), ob_MediaType = m\<rparr>"
  have new: "NewObject sha j p m body = Inr o2" using assms(4) n e by (simp add: NewObject_def o2_def)
  define staged where "staged = ob_Key obj @ ''.staged-'' @ format_int j"
  have st: "staged_key o2 = staged" "staged \<noteq> ob_Key obj" "validKey staged" "ob_Key o2 = ob_Key obj"
    using assms(5) by (simp_all add: staged_key_def o2_def staged_def)
  let ?b0 = "ey_blobs es'"
  let ?b1 = "?b0\<lparr>bb_objects := (bb_objects ?b0)(staged \<mapsto> body)\<rparr>"
  let ?b2 = "?b1\<lparr>bb_objects := ((bb_objects ?b1)(ob_Key obj \<mapsto> body))(staged := None)\<rparr>"
  have one: "s3_Stage maxBytes staged body m ?b0 = (None, ?b1)" using e st assms(2) by (simp add: s3_Stage_def attempt_ok)
  have two: "s3_Read maxBytes staged ?b1 = (Inr body, ?b1)" using e st assms(2) by (simp add: s3_Read_def attempt_ok)
  have three: "s3_Promote staged (ob_Key obj) ?b1 = (None, ?b2)"
    using e st assms(2) by (simp add: s3_Promote_def s3_Delete_def attempt_ok)
  obtain r where r: "r \<in> set (ey_rows es')" "ob_Key (or_Object r) = ob_Key obj"
    using committed_found [of "ey_rows es" obj "ey_rows es'"] e catalog_Find_Some by metis
  have "catalog_Find (ey_rows es') p j = Inl EvErrInvalid"
  proof (cases "catalog_Find (ey_rows es') p j")
    case (Inr o4)
    with catalog_Find_Some [OF Inr] assms(3) show ?thesis by (auto simp: list_ex_iff)
  qed (auto simp: catalog_Find_def split: if_splits option.splits)
  moreover have "ob_Key obj \<noteq> ''''" using e by (simp add: validKey_def)
  moreover have "m \<noteq> ''''" using e by auto
  ultimately have four: "catalog_Commit (ey_rows es') o2 = Inl EvErrInvalid"
    using r assms(4) n by (auto simp: catalog_Commit_def o2_def list_ex_iff)
  have ver: "object_Verify sha o2 body = None" by (simp add: object_Verify_def o2_def)
  have del: "s3_Delete (ob_Key obj) ?b2 = (None, ?b2\<lparr>bb_objects := (bb_objects ?b2)(ob_Key obj := None)\<rparr>)"
    using e assms(2) by (simp add: s3_Delete_def attempt_ok)
  let ?b4 = "?b2\<lparr>bb_objects := (bb_objects ?b2)(ob_Key obj := None, staged := None)\<rparr>"
  have "s3_Delete staged (?b2\<lparr>bb_objects := (bb_objects ?b2)(ob_Key obj := None)\<rparr>) = (None, ?b4)"
    using st assms(2) by (simp add: s3_Delete_def attempt_ok)
  then have run: "evidence_Put sha maxBytes es' j p m body = (Inl EvErrInvalid, es'\<lparr>ey_blobs := ?b4\<rparr>)"
    using one two three four ver del st by (simp add: evidence_Put_def new Let_def abandon_put_def)
  obtain o3 where o3: "catalog_Find (ey_rows es') p i = Inr o3" "ob_Key o3 = ob_Key obj" "ob_ProjectID o3 = p"
    using committed_found [of "ey_rows es" obj "ey_rows es'"] e n by auto
  have "fst (s3_Read maxBytes (ob_Key obj) ?b4) = Inl EvBlob" using e assms(2) st by (simp add: s3_Read_def attempt_ok)
  then have "fst (evidence_Get sha maxBytes (es'\<lparr>ey_blobs := ?b4\<rparr>) p i) = Inl EvBlob"
    using o3 by (auto simp: evidence_Get_def split: prod.splits sum.splits)
  with run show ?thesis by blast
qed

definition sample_digest :: "string \<Rightarrow> string" where
  "sample_digest s = ''ab''"

definition sample_evidence :: evidence_sys where
  "sample_evidence = \<lparr>ey_blobs = \<lparr>bb_objects = (\<lambda>_. None), bb_script = []\<rparr>, ey_rows = []\<rparr>"

definition sample_stored :: "evidence_sys" where
  "sample_stored = snd (evidence_Put sample_digest 100 sample_evidence 5 3 ''text/plain'' ''body'')"

definition sample_object :: Object where
  "sample_object = \<lparr>ob_ID = 5, ob_ProjectID = 3, ob_Key = ''projects/3/sha256/6162'', ob_Digest = ''ab'', ob_Size = 4, ob_MediaType = ''text/plain''\<rparr>"

lemma sample_put: "evidence_Put sample_digest 100 sample_evidence 5 3 ''text/plain'' ''body'' = (Inr sample_object, sample_stored)"
proof -
  have "fst (evidence_Put sample_digest 100 sample_evidence 5 3 ''text/plain'' ''body'') = Inr sample_object" by code_simp
  then show ?thesis unfolding sample_stored_def by (metis prod.collapse)
qed

theorem evidence_put_get_witness: "evidence_Get sample_digest 100 sample_stored 3 5 = (Inr ''body'', sample_stored)"
proof -
  have "bb_script (ey_blobs sample_stored) = []" by code_simp
  from evidence_put_get [OF sample_put this] show ?thesis .
qed

theorem evidence_put_again_destroys_witness:
  "\<exists>es2. evidence_Put sample_digest 100 sample_stored 6 3 ''text/plain'' ''body'' = (Inl EvErrInvalid, es2) \<and>
    fst (evidence_Get sample_digest 100 es2 3 5) = Inl EvBlob"
proof (rule evidence_put_again_destroys [OF sample_put])
  show "bb_script (ey_blobs sample_stored) = []" by code_simp
  show "\<not> list_ex (\<lambda>r. ob_ID (or_Object r) = 6) (ey_rows sample_stored)" by code_simp
  show "validKey (ob_Key sample_object @ ''.staged-'' @ format_int 6)" by code_simp
qed simp
end
