(* ===== verification/Purge.thy ===== *)
theory Purge
  imports Evidence
begin

text \<open>
  The purge of a deleted project: \<open>PurgeProject\<close> and \<open>ensureManifest\<close> of \<open>internal/platform/jobstore\<close>. A purge takes
  a batch of the objects that its manifest lists, deletes their bytes, marks them, and with the last one writes the
  tombstone and removes the project. A transaction that fails leaves the tables as they were, but not the object store.
  Only the tables that the purge reads or writes are modelled; the rows of other tables that go with a project by
  \<open>ON DELETE CASCADE\<close> are not. The objects that other transactions hold locked are an argument.
\<close>

datatype purge_error = PuState | PuConstraint | PuIDs | PuNoBlobs | PuBlob | PuJob jobstore_error

record purge_project =
  pu_ID :: int64
  pu_Workspace :: int64
  pu_State :: string
  pu_Slug :: string
  pu_Reason :: string
  pu_Actor :: "int64 option"

record manifest_row =
  mf_ID :: int64
  mf_Project :: int64
  mf_Job :: int64

record manifest_item =
  mi_Manifest :: int64
  mi_Object :: int64
  mi_Deleted :: bool

record export_row =
  xr_ID :: int64
  xr_Object :: "int64 option"
  xr_State :: string

record tombstone =
  tb_ID :: int64
  tb_Project :: int64
  tb_Workspace :: int64
  tb_SlugHash :: string
  tb_Actor :: "int64 option"
  tb_Reason :: string

record purge_db =
  qd_projects :: "purge_project list"
  qd_objects :: "object_row list"
  qd_manifests :: "manifest_row list"
  qd_items :: "manifest_item list"
  qd_exports :: "export_row list"
  qd_owners :: "(int64 \<times> int64) list"
  qd_tombstones :: "tombstone list"
  qd_blobs :: "blob_store option"

abbreviation object_id :: "object_row \<Rightarrow> int64" where
  "object_id r \<equiv> ob_ID (or_Object r)"

definition owned_objects :: "purge_db \<Rightarrow> int64 \<Rightarrow> int64 list" where
  "owned_objects db p = remdups (map object_id (filter (\<lambda>r. or_Owned r \<and> ob_ProjectID (or_Object r) = p) (qd_objects db)) @
     List.map_filter xr_Object (filter (\<lambda>x. (xr_ID x, p) \<in> set (qd_owners db)) (qd_exports db)))"

definition ensureManifest :: "purge_db \<Rightarrow> int64 \<Rightarrow> int64 \<Rightarrow> int64 list \<Rightarrow> purge_error + int64 \<times> purge_db \<times> int64 list" where
  "ensureManifest db projectID jobID ids =
     (case find (\<lambda>m. mf_Project m = projectID) (qd_manifests db) of
        Some m \<Rightarrow> Inr (mf_ID m, db, ids)
      | None \<Rightarrow>
          (case ids of [] \<Rightarrow> Inl PuIDs
           | i # rest \<Rightarrow>
               if i \<le> 0 \<or> list_ex (\<lambda>m. mf_ID m = i \<or> mf_Job m = jobID) (qd_manifests db) then Inl PuConstraint
               else Inr (i, db\<lparr>qd_manifests := qd_manifests db @ [\<lparr>mf_ID = i, mf_Project = projectID, mf_Job = jobID\<rparr>],
                   qd_items := qd_items db @ map (\<lambda>obj. \<lparr>mi_Manifest = i, mi_Object = obj, mi_Deleted = False\<rparr>) (owned_objects db projectID)\<rparr>,
                 rest)))"

definition pending_items :: "purge_db \<Rightarrow> int64 \<Rightarrow> manifest_item list" where
  "pending_items db m = filter (\<lambda>i. mi_Manifest i = m \<and> \<not> mi_Deleted i) (qd_items db)"

definition purge_batch :: "purge_db \<Rightarrow> int64 \<Rightarrow> nat \<Rightarrow> int64 list \<Rightarrow> (int64 \<times> string) list" where
  "purge_batch db m batch locked =
     take batch (List.map_filter (\<lambda>obj. map_option (\<lambda>r. (obj, ob_Key (or_Object r))) (find (\<lambda>r. object_id r = obj) (qd_objects db)))
       (filter (\<lambda>obj. obj \<notin> set locked) (sort_func cmp_int (map mi_Object (pending_items db m)))))"

definition mark_purged :: "int64 \<Rightarrow> int64 \<Rightarrow> purge_db \<Rightarrow> purge_db" where
  "mark_purged m obj db = db\<lparr>qd_objects := map (\<lambda>r. if object_id r = obj then r\<lparr>or_Retained := False\<rparr> else r) (qd_objects db),
     qd_items := map (\<lambda>i. if mi_Manifest i = m \<and> mi_Object i = obj then i\<lparr>mi_Deleted := True\<rparr> else i) (qd_items db)\<rparr>"

text \<open>The error keeps what has already happened to the object store.\<close>

fun delete_objects :: "int64 \<Rightarrow> (int64 \<times> string) list \<Rightarrow> blob_store \<Rightarrow> purge_db \<Rightarrow> bool \<times> blob_store \<times> purge_db" where
  "delete_objects m [] blobs db = (True, blobs, db)"
| "delete_objects m ((obj, key) # os) blobs db =
     (case s3_Delete key blobs of
        (Some e, blobs') \<Rightarrow> (False, blobs', db)
      | (None, blobs') \<Rightarrow> delete_objects m os blobs' (mark_purged m obj db))"

definition finish_purge :: "(string \<Rightarrow> string) \<Rightarrow> purge_project \<Rightarrow> int64 list \<Rightarrow> purge_db \<Rightarrow> purge_error + purge_db \<times> int64 list" where
  "finish_purge sha p ids db =
     (case ids of [] \<Rightarrow> Inl PuIDs
      | i # rest \<Rightarrow>
          let gone = map object_id (filter (\<lambda>r. or_Owned r \<and> ob_ProjectID (or_Object r) = pu_ID p) (qd_objects db));
              manifests = map mf_ID (filter (\<lambda>m. mf_Project m = pu_ID p) (qd_manifests db));
              entombed = list_ex (\<lambda>t. tb_Project t = pu_ID p) (qd_tombstones db) in
          if \<not> entombed \<and> (i \<le> 0 \<or> list_ex (\<lambda>t. tb_ID t = i) (qd_tombstones db)) then Inl PuConstraint
          else if list_ex (\<lambda>x. case xr_Object x of None \<Rightarrow> False | Some obj \<Rightarrow> obj \<in> set gone) (qd_exports db) then Inl PuConstraint
          else Inr (db\<lparr>
            qd_exports := map (\<lambda>x. if xr_State x = ''succeeded'' \<and> (xr_ID x, pu_ID p) \<in> set (qd_owners db) then x\<lparr>xr_State := ''expired''\<rparr> else x)
              (qd_exports db),
            qd_tombstones := (if entombed then qd_tombstones db else qd_tombstones db @ [\<lparr>tb_ID = i, tb_Project = pu_ID p, tb_Workspace = pu_Workspace p,
              tb_SlugHash = sha (format_int (pu_ID p) @ '':'' @ pu_Slug p), tb_Actor = pu_Actor p, tb_Reason = pu_Reason p\<rparr>]),
            qd_projects := filter (\<lambda>q. pu_ID q \<noteq> pu_ID p) (qd_projects db),
            qd_objects := filter (\<lambda>r. object_id r \<notin> set gone) (qd_objects db),
            qd_owners := filter (\<lambda>(x, q). q \<noteq> pu_ID p) (qd_owners db),
            qd_manifests := filter (\<lambda>m. mf_Project m \<noteq> pu_ID p) (qd_manifests db),
            qd_items := filter (\<lambda>i. mi_Manifest i \<notin> set manifests \<and> mi_Object i \<notin> set gone) (qd_items db)\<rparr>, rest))"

definition release_jobs :: "int64 \<Rightarrow> job_db \<Rightarrow> job_db" where
  "release_jobs p db = db\<lparr>jt_jobs := map (\<lambda>r. if jb_ProjectID (jr_job r) = p then r\<lparr>jr_job := (jr_job r)\<lparr>jb_ProjectID := 0\<rparr>\<rparr> else r) (jt_jobs db)\<rparr>"

definition purge_checkpoint ::
    "bool \<Rightarrow> nat \<Rightarrow> JobLease \<Rightarrow> gotime \<Rightarrow> int64 list \<Rightarrow> purge_db \<Rightarrow> job_db \<Rightarrow> (purge_error + bool \<times> JobLease) \<times> purge_db \<times> job_db" where
  "purge_checkpoint finished n l now ids db jdb =
     (case store_Checkpoint jdb l (pg_Completed (jb_Progress (lz_Job l)) + int n)
         \<lparr>cp_Scope = ''purge'', cp_Cursor = format_int (int n), cp_CoverageTo = utc now, cp_Version = jb_Version (lz_Job l) + 1\<rparr> now ids of
        Inl e \<Rightarrow> (Inl (PuJob e), db, jdb)
      | Inr (jdb', l') \<Rightarrow> (Inr (finished, l'), db, jdb'))"

definition delete_batch :: "int64 \<Rightarrow> (int64 \<times> string) list \<Rightarrow> purge_db \<Rightarrow> bool \<times> purge_db" where
  "delete_batch m objects db =
     (case qd_blobs db of None \<Rightarrow> (True, db)
      | Some b \<Rightarrow> (case delete_objects m objects b db of (ok, b', db') \<Rightarrow> (ok, db'\<lparr>qd_blobs := Some b'\<rparr>)))"

definition PurgeProject ::
    "(string \<Rightarrow> string) \<Rightarrow> JobLease \<Rightarrow> int \<Rightarrow> int64 list \<Rightarrow> gotime \<Rightarrow> int64 list \<Rightarrow> purge_db \<Rightarrow> job_db \<Rightarrow>
     (purge_error + bool \<times> JobLease) \<times> purge_db \<times> job_db" where
  "PurgeProject sha l batchSize locked now ids db jdb =
     (let batch = nat (if batchSize \<le> 0 \<or> batchSize > 1000 then 100 else batchSize); pid = jb_ProjectID (lz_Job l) in
      case find (\<lambda>p. pu_ID p = pid) (qd_projects db) of
        None \<Rightarrow> (Inr (True, l), db, jdb)
      | Some p \<Rightarrow>
          if pu_State p = ''deleted'' then (Inr (True, l), db, jdb)
          else if pu_State p \<noteq> ''deleting'' then (Inl PuState, db, jdb)
          else case ensureManifest db pid (jb_ID (lz_Job l)) ids of
            Inl e \<Rightarrow> (Inl e, db, jdb)
          | Inr (m, db1, ids1) \<Rightarrow>
              let objects = purge_batch db1 m batch locked in
              if objects \<noteq> [] \<and> qd_blobs db1 = None then (Inl PuNoBlobs, db, jdb)
              else
                let (ok, db2) = delete_batch m objects db1;
                    rolled_back = db\<lparr>qd_blobs := qd_blobs db2\<rparr> in
                if \<not> ok then (Inl PuBlob, rolled_back, jdb)
                else if pending_items db2 m \<noteq> []
                then purge_checkpoint False (length objects) l now ids1 db2 jdb
                else case finish_purge sha p ids1 db2 of
                  Inl e \<Rightarrow> (Inl e, rolled_back, jdb)
                | Inr (db3, ids2) \<Rightarrow> purge_checkpoint True (length objects) l now ids2 db3 (release_jobs pid jdb))"


section \<open>Soundness of the tables\<close>

definition blob_gone :: "purge_db \<Rightarrow> string \<Rightarrow> bool" where
  "blob_gone db key \<longleftrightarrow> (case qd_blobs db of None \<Rightarrow> False | Some b \<Rightarrow> bb_objects b key = None)"

text \<open>
  Object rows have distinct identifiers, items and exports name existing rows, manifests are unique per identifier and
  project, and the bytes of an item that is marked as deleted are gone.
\<close>

definition purge_ok :: "purge_db \<Rightarrow> bool" where
  "purge_ok db \<longleftrightarrow> distinct (map object_id (qd_objects db)) \<and>
     (\<forall>i \<in> set (qd_items db). mi_Object i \<in> object_id ` set (qd_objects db)) \<and>
     (\<forall>x \<in> set (qd_exports db). \<forall>obj. xr_Object x = Some obj \<longrightarrow> obj \<in> object_id ` set (qd_objects db)) \<and>
     distinct (map mf_ID (qd_manifests db)) \<and> distinct (map mf_Project (qd_manifests db)) \<and>
     (\<forall>i \<in> set (qd_items db). mi_Manifest i \<in> mf_ID ` set (qd_manifests db)) \<and>
     (\<forall>i \<in> set (qd_items db). \<forall>r \<in> set (qd_objects db). mi_Deleted i \<longrightarrow> object_id r = mi_Object i \<longrightarrow> blob_gone db (ob_Key (or_Object r)))"

lemma owned_objects_exist: "purge_ok db \<Longrightarrow> obj \<in> set (owned_objects db p) \<Longrightarrow> obj \<in> object_id ` set (qd_objects db)"
  by (auto simp: owned_objects_def purge_ok_def List.map_filter_def)

lemma ensureManifest_ok:
  assumes "ensureManifest db p j ids = Inr (m, db1, ids1)" "purge_ok db"
  shows "purge_ok db1 \<and> qd_objects db1 = qd_objects db \<and> qd_blobs db1 = qd_blobs db \<and> qd_exports db1 = qd_exports db \<and>
    qd_owners db1 = qd_owners db \<and> qd_projects db1 = qd_projects db \<and> qd_tombstones db1 = qd_tombstones db \<and>
    (case find (\<lambda>m. mf_Project m = p) (qd_manifests db) of
       Some f \<Rightarrow> m = mf_ID f \<and> db1 = db
     | None \<Rightarrow> db1 = db\<lparr>qd_manifests := qd_manifests db @ [\<lparr>mf_ID = m, mf_Project = p, mf_Job = j\<rparr>],
         qd_items := qd_items db @ map (\<lambda>obj. \<lparr>mi_Manifest = m, mi_Object = obj, mi_Deleted = False\<rparr>) (owned_objects db p)\<rparr>)"
proof (cases "find (\<lambda>m. mf_Project m = p) (qd_manifests db)")
  case None
  then have p: "p \<notin> mf_Project ` set (qd_manifests db)" by (auto simp: find_None_iff)
  from None have m: "m \<notin> mf_ID ` set (qd_manifests db)" and
    db1: "db1 = db\<lparr>qd_manifests := qd_manifests db @ [\<lparr>mf_ID = m, mf_Project = p, mf_Job = j\<rparr>],
         qd_items := qd_items db @ map (\<lambda>obj. \<lparr>mi_Manifest = m, mi_Object = obj, mi_Deleted = False\<rparr>) (owned_objects db p)\<rparr>"
    using assms(1) by (auto simp: ensureManifest_def list_ex_iff split: list.splits if_splits)
  have "purge_ok db1" using assms(2) owned_objects_exist [OF assms(2), of _ p] m p
    unfolding purge_ok_def db1 blob_gone_def by (auto simp: image_iff)
  then show ?thesis using None by (simp add: db1)
next
  case (Some f)
  with assms show ?thesis by (simp add: ensureManifest_def)
qed

lemma s3_Delete_gone:
  "s3_Delete key b = (e, b') \<Longrightarrow> (bb_objects b k = None \<longrightarrow> bb_objects b' k = None) \<and> (e = None \<longrightarrow> bb_objects b' key = None)"
  by (auto simp: s3_Delete_def attempt_request_def split: if_splits list.splits)

definition purged_items :: "int64 \<Rightarrow> int64 set \<Rightarrow> manifest_item list \<Rightarrow> manifest_item list" where
  "purged_items m objs = map (\<lambda>i. if mi_Manifest i = m \<and> mi_Object i \<in> objs then i\<lparr>mi_Deleted := True\<rparr> else i)"

definition purged_rows :: "int64 set \<Rightarrow> object_row list \<Rightarrow> object_row list" where
  "purged_rows objs = map (\<lambda>r. if object_id r \<in> objs then r\<lparr>or_Retained := False\<rparr> else r)"

lemma delete_objects_effect:
  "delete_objects m os b db = (ok, b', db') \<Longrightarrow> (\<forall>k. bb_objects b k = None \<longrightarrow> bb_objects b' k = None) \<and>
   (ok \<longrightarrow> (\<forall>(obj, key) \<in> set os. bb_objects b' key = None) \<and>
     db' = db\<lparr>qd_items := purged_items m (fst ` set os) (qd_items db), qd_objects := purged_rows (fst ` set os) (qd_objects db)\<rparr>)"
proof (induction m os b db rule: delete_objects.induct)
  case (1 m b db)
  then show ?case by (simp add: purged_items_def purged_rows_def)
next
  case (2 m obj key os b db)
  obtain e b1 where d: "s3_Delete key b = (e, b1)" by (rule prod.exhaust)
  note g = s3_Delete_gone [OF d]
  show ?case
  proof (cases e)
    case (Some x)
    then show ?thesis using "2.prems" d g by auto
  next
    case None
    note d' = d [unfolded None]
    have rest: "delete_objects m os b1 (mark_purged m obj db) = (ok, b', db')" using "2.prems" d' by simp
    note IH = "2.IH" [OF d' [symmetric] refl rest]
    have items: "purged_items m (fst ` set os) (qd_items (mark_purged m obj db)) = purged_items m (fst ` set ((obj, key) # os)) (qd_items db)"
      by (auto simp: purged_items_def mark_purged_def)
    have rows: "purged_rows (fst ` set os) (qd_objects (mark_purged m obj db)) = purged_rows (fst ` set ((obj, key) # os)) (qd_objects db)"
      by (auto simp: purged_rows_def mark_purged_def)
    have same: "(mark_purged m obj db)\<lparr>qd_items := x, qd_objects := y\<rparr> = db\<lparr>qd_items := x, qd_objects := y\<rparr>" for x y
      by (simp add: mark_purged_def)
    show ?thesis using IH g None unfolding items rows same by auto
  qed
qed

lemma purged_rows_simps [simp]: "map object_id (purged_rows A rs) = map object_id rs"
  by (simp add: purged_rows_def)

lemma purged_rows_object: "or_Object ` set (purged_rows A rs) = or_Object ` set rs"
proof -
  have "map or_Object (purged_rows A rs) = map or_Object rs" by (simp add: purged_rows_def)
  from arg_cong [OF this, of set] show ?thesis by simp
qed

lemma purged_items_item:
  "i \<in> set (purged_items m A is) \<Longrightarrow> \<exists>i0 \<in> set is. mi_Object i = mi_Object i0 \<and> mi_Manifest i = mi_Manifest i0 \<and>
     (mi_Deleted i \<longleftrightarrow> mi_Deleted i0 \<or> mi_Manifest i0 = m \<and> mi_Object i0 \<in> A)"
  unfolding purged_items_def set_map by (elim imageE) (auto split: if_splits)

lemma purged_rows_row: "r \<in> set (purged_rows A rs) \<Longrightarrow> \<exists>q \<in> set rs. or_Object q = or_Object r"
  using purged_rows_object [of A rs] by (metis imageE imageI)

lemma purge_batch_members:
  assumes "(obj, key) \<in> set (purge_batch db m batch locked)" "distinct (map object_id (qd_objects db))"
  shows "(\<forall>r \<in> set (qd_objects db). object_id r = obj \<longrightarrow> ob_Key (or_Object r) = key) \<and> obj \<in> set (map mi_Object (pending_items db m))"
proof -
  have mem: "(obj, key) \<in> set (List.map_filter (\<lambda>obj. map_option (\<lambda>r. (obj, ob_Key (or_Object r))) (find (\<lambda>r. object_id r = obj) (qd_objects db)))
       (filter (\<lambda>obj. obj \<notin> set locked) (sort_func cmp_int (map mi_Object (pending_items db m)))))"
    using assms(1) set_take_subset unfolding purge_batch_def by fast
  then obtain r where r: "find (\<lambda>r. object_id r = obj) (qd_objects db) = Some r" "key = ob_Key (or_Object r)"
    and pend: "obj \<in> set (map mi_Object (pending_items db m))"
    by (auto simp: List.map_filter_def)
  have "r \<in> set (qd_objects db)" "object_id r = obj" using r(1) by (auto simp: find_Some_iff)
  then have "q = r" if "q \<in> set (qd_objects db)" "object_id q = obj" for q
    using assms(2) that by (metis distinct_map inj_onD)
  with r(2) pend show ?thesis by auto
qed

lemma delete_batch_ok:
  assumes "delete_batch m objects db1 = (True, db2)" "purge_ok db1" "objects = purge_batch db1 m batch locked"
    "objects \<noteq> [] \<longrightarrow> qd_blobs db1 \<noteq> None"
  shows "purge_ok db2 \<and> qd_items db2 = purged_items m (fst ` set objects) (qd_items db1) \<and>
    qd_objects db2 = purged_rows (fst ` set objects) (qd_objects db1) \<and> qd_manifests db2 = qd_manifests db1 \<and>
    qd_projects db2 = qd_projects db1 \<and> qd_exports db2 = qd_exports db1 \<and> qd_owners db2 = qd_owners db1 \<and>
    qd_tombstones db2 = qd_tombstones db1"
proof (cases "qd_blobs db1")
  case None
  then have "objects = []" "db2 = db1" using assms by (auto simp: delete_batch_def)
  then show ?thesis using assms(2) by (simp add: purged_items_def purged_rows_def)
next
  case (Some b)
  obtain b' db' where d: "delete_objects m objects b db1 = (True, b', db')" and db2: "db2 = db'\<lparr>qd_blobs := Some b'\<rparr>"
    using assms(1) Some by (auto simp: delete_batch_def split: prod.splits)
  note e = delete_objects_effect [OF d]
  have db': "db' = db1\<lparr>qd_items := purged_items m (fst ` set objects) (qd_items db1), qd_objects := purged_rows (fst ` set objects) (qd_objects db1)\<rparr>"
    using e by simp
  have dist: "distinct (map object_id (qd_objects db1))" using assms(2) by (simp add: purge_ok_def)
  have ids: "object_id ` set (purged_rows A rs) = object_id ` set rs" for A rs
    using purged_rows_simps [of A rs] by (metis list.set_map)
  have gone: "blob_gone db2 (ob_Key (or_Object r))"
    if i: "i \<in> set (qd_items db2)" and r: "r \<in> set (qd_objects db2)" and d: "mi_Deleted i" "object_id r = mi_Object i" for i r
  proof -
    obtain q where q: "q \<in> set (qd_objects db1)" "or_Object q = or_Object r"
      using r purged_rows_row unfolding db2 db' by fastforce
    obtain i0 where i0: "i0 \<in> set (qd_items db1)" "mi_Object i = mi_Object i0"
        "mi_Deleted i0 \<or> mi_Object i0 \<in> fst ` set objects"
      using purged_items_item [of i m "fst ` set objects" "qd_items db1"] i d(1) unfolding db2 db' by auto
    show ?thesis
    proof (cases "mi_Deleted i0")
      case True
      have "object_id q = mi_Object i0" using q(2) d(2) i0(2) by simp
      with True have "blob_gone db1 (ob_Key (or_Object q))" using assms(2) i0(1) q(1) by (simp add: purge_ok_def)
      then show ?thesis using e Some q by (simp add: blob_gone_def db2)
    next
      case False
      then obtain key where k: "(mi_Object i0, key) \<in> set objects" using i0(3) by auto
      then have "ob_Key (or_Object q) = key" using purge_batch_members [OF k [unfolded assms(3)] dist] q d(2) i0(2) by auto
      moreover have "bb_objects b' key = None" using e k by auto
      ultimately show ?thesis using q by (simp add: blob_gone_def db2)
    qed
  qed
  have objs: "mi_Object ` set (qd_items db2) = mi_Object ` set (qd_items db1)"
  proof -
    have "map mi_Object (qd_items db2) = map mi_Object (qd_items db1)" unfolding db2 db' purged_items_def by simp
    from arg_cong [OF this, of set] show ?thesis by simp
  qed
  have same: "object_id ` set (qd_objects db2) = object_id ` set (qd_objects db1)" "qd_exports db2 = qd_exports db1"
      "qd_manifests db2 = qd_manifests db1" "map object_id (qd_objects db2) = map object_id (qd_objects db1)" by (simp_all add: db2 db' ids)
  have "mi_Object ` set (qd_items db1) \<subseteq> object_id ` set (qd_objects db1)" using assms(2) by (auto simp: purge_ok_def)
  then have "mi_Object i \<in> object_id ` set (qd_objects db1)" if "i \<in> set (qd_items db2)" for i
    using that unfolding objs [symmetric] by blast
  moreover have "mi_Manifest i \<in> mf_ID ` set (qd_manifests db1)" if "i \<in> set (qd_items db2)" for i
    using purged_items_item [of i m "fst ` set objects" "qd_items db1"] that assms(2) unfolding db2 db' by (auto simp: purge_ok_def)
  ultimately have "purge_ok db2" using assms(2) gone unfolding purge_ok_def same by blast
  then show ?thesis by (simp add: db2 db')
qed

lemma finish_purge_ok:
  assumes "finish_purge sha p ids db = Inr (db', rest)" "purge_ok db"
  shows "purge_ok db' \<and> qd_blobs db' = qd_blobs db \<and> \<not> list_ex (\<lambda>q. pu_ID q = pu_ID p) (qd_projects db') \<and>
    list_ex (\<lambda>t. tb_Project t = pu_ID p) (qd_tombstones db')"
proof -
  define gone where "gone = map object_id (filter (\<lambda>r. or_Owned r \<and> ob_ProjectID (or_Object r) = pu_ID p) (qd_objects db))"
  obtain i where i: "ids = i # rest" using assms(1) by (auto simp: finish_purge_def Let_def split: list.splits if_splits)
  have fk: "\<forall>x \<in> set (qd_exports db). \<forall>obj. xr_Object x = Some obj \<longrightarrow> obj \<notin> set gone"
    and objs: "qd_objects db' = filter (\<lambda>r. object_id r \<notin> set gone) (qd_objects db)"
    and items: "set (qd_items db') \<subseteq> {i \<in> set (qd_items db). mi_Object i \<notin> set gone}"
    and mans: "\<forall>i \<in> set (qd_items db'). mi_Manifest i \<notin> set (map mf_ID (filter (\<lambda>m. mf_Project m = pu_ID p) (qd_manifests db)))"
    and exports: "xr_Object ` set (qd_exports db') = xr_Object ` set (qd_exports db)"
    and rest: "qd_blobs db' = qd_blobs db" "qd_manifests db' = filter (\<lambda>m. mf_Project m \<noteq> pu_ID p) (qd_manifests db)"
      "\<not> list_ex (\<lambda>q. pu_ID q = pu_ID p) (qd_projects db')" "list_ex (\<lambda>t. tb_Project t = pu_ID p) (qd_tombstones db')"
  proof -
    have run: "(if \<not> list_ex (\<lambda>t. tb_Project t = pu_ID p) (qd_tombstones db) \<and> (i \<le> 0 \<or> list_ex (\<lambda>t. tb_ID t = i) (qd_tombstones db)) then Inl PuConstraint
      else if list_ex (\<lambda>x. case xr_Object x of None \<Rightarrow> False | Some obj \<Rightarrow> obj \<in> set gone) (qd_exports db) then Inl PuConstraint
      else Inr (db', rest)) = (Inr (db', rest) :: purge_error + purge_db \<times> int64 list)"
      using assms(1) unfolding i finish_purge_def gone_def [symmetric] Let_def list.case by (simp split: if_splits)
    show "\<forall>x \<in> set (qd_exports db). \<forall>obj. xr_Object x = Some obj \<longrightarrow> obj \<notin> set gone"
      using run by (auto simp: list_ex_iff split: if_splits)
  next
    show "qd_objects db' = filter (\<lambda>r. object_id r \<notin> set gone) (qd_objects db)"
      using assms(1) unfolding i finish_purge_def gone_def [symmetric] Let_def list.case by (clarsimp split: if_splits)
  next
    show "set (qd_items db') \<subseteq> {i \<in> set (qd_items db). mi_Object i \<notin> set gone}"
      using assms(1) unfolding i finish_purge_def gone_def [symmetric] Let_def list.case by (clarsimp split: if_splits)
  next
    show "\<forall>i \<in> set (qd_items db'). mi_Manifest i \<notin> set (map mf_ID (filter (\<lambda>m. mf_Project m = pu_ID p) (qd_manifests db)))"
      using assms(1) unfolding i finish_purge_def gone_def [symmetric] Let_def list.case by (clarsimp split: if_splits)
  next
    have "map xr_Object (qd_exports db') = map xr_Object (qd_exports db)"
      using assms(1) unfolding i finish_purge_def gone_def [symmetric] Let_def list.case by (clarsimp split: if_splits)
    from arg_cong [OF this, of set] show "xr_Object ` set (qd_exports db') = xr_Object ` set (qd_exports db)" by simp
  next
    show "qd_blobs db' = qd_blobs db" "qd_manifests db' = filter (\<lambda>m. mf_Project m \<noteq> pu_ID p) (qd_manifests db)"
      using assms(1) unfolding i finish_purge_def gone_def [symmetric] Let_def list.case by (clarsimp split: if_splits)+
  next
    show "\<not> list_ex (\<lambda>q. pu_ID q = pu_ID p) (qd_projects db')" "list_ex (\<lambda>t. tb_Project t = pu_ID p) (qd_tombstones db')"
      using assms(1) unfolding i finish_purge_def gone_def [symmetric] Let_def list.case by (clarsimp simp: list_ex_iff split: if_splits)+
  qed
  have ids: "object_id ` set (qd_objects db') = object_id ` set (qd_objects db) - set gone" unfolding objs by auto
  have bg: "blob_gone db' = blob_gone db" by (simp add: blob_gone_def rest fun_eq_iff)
  have ex: "obj \<in> object_id ` set (qd_objects db')" if "x \<in> set (qd_exports db')" "xr_Object x = Some obj" for x obj
  proof -
    from that exports obtain y where "y \<in> set (qd_exports db)" "xr_Object y = Some obj" by (metis imageE imageI)
    then show ?thesis using fk assms(2) unfolding ids purge_ok_def by blast
  qed
  have it: "mi_Object i \<in> object_id ` set (qd_objects db')" if "i \<in> set (qd_items db')" for i
    using items that assms(2) unfolding ids purge_ok_def by blast
  have im: "mi_Manifest i \<in> mf_ID ` set (qd_manifests db')" if i: "i \<in> set (qd_items db')" for i
  proof -
    obtain f where f: "f \<in> set (qd_manifests db)" "mi_Manifest i = mf_ID f" using i items assms(2) unfolding purge_ok_def by blast
    then have "mf_Project f \<noteq> pu_ID p" using mans i by auto
    then have "f \<in> set (qd_manifests db')" using f(1) unfolding rest(2) by simp
    then show ?thesis unfolding f(2) by (rule imageI)
  qed
  have sub: "set (qd_objects db') \<subseteq> set (qd_objects db)" "set (qd_items db') \<subseteq> set (qd_items db)" using objs items by auto
  have "distinct (map object_id (qd_objects db'))" "distinct (map mf_ID (qd_manifests db'))" "distinct (map mf_Project (qd_manifests db'))"
    using assms(2) by (simp_all add: purge_ok_def objs rest distinct_map_filter)
  then have "purge_ok db'" using assms(2) ex it im sub unfolding purge_ok_def bg by blast
  with rest show ?thesis by simp
qed

lemma PurgeProject_steps:
  assumes "PurgeProject sha l batchSize locked now ids db jdb = (Inr (fin, l'), db', jdb')"
    "find (\<lambda>p. pu_ID p = jb_ProjectID (lz_Job l)) (qd_projects db) = Some p" "pu_State p = ''deleting''"
  obtains m db1 ids1 db2 ids2 batch where
    "ensureManifest db (jb_ProjectID (lz_Job l)) (jb_ID (lz_Job l)) ids = Inr (m, db1, ids1)" "0 < batch"
    "delete_batch m (purge_batch db1 m batch locked) db1 = (True, db2)" "purge_batch db1 m batch locked \<noteq> [] \<longrightarrow> qd_blobs db1 \<noteq> None"
    "if fin then pending_items db2 m = [] \<and> finish_purge sha p ids1 db2 = Inr (db', ids2) else pending_items db2 m \<noteq> [] \<and> db' = db2"
proof -
  define batch where "batch = nat (if batchSize \<le> 0 \<or> batchSize > 1000 then 100 else batchSize)"
  obtain m db1 ids1 where em: "ensureManifest db (jb_ProjectID (lz_Job l)) (jb_ID (lz_Job l)) ids = Inr (m, db1, ids1)"
    using assms by (auto simp: PurgeProject_def Let_def split: sum.splits)
  define objects where "objects = purge_batch db1 m batch locked"
  obtain ok db2 where r: "delete_batch m objects db1 = (ok, db2)" by (rule prod.exhaust)
  have run: "(if objects \<noteq> [] \<and> qd_blobs db1 = None then (Inl PuNoBlobs, db, jdb)
     else if \<not> ok then (Inl PuBlob, db\<lparr>qd_blobs := qd_blobs db2\<rparr>, jdb)
     else if pending_items db2 m \<noteq> [] then purge_checkpoint False (length objects) l now ids1 db2 jdb
     else case finish_purge sha p ids1 db2 of Inl e \<Rightarrow> (Inl e, db\<lparr>qd_blobs := qd_blobs db2\<rparr>, jdb)
       | Inr (db3, ids2) \<Rightarrow> purge_checkpoint True (length objects) l now ids2 db3 (release_jobs (jb_ProjectID (lz_Job l)) jdb)) =
     (Inr (fin, l'), db', jdb')"
  proof -
    have n: "(pu_State p = ''deleted'') = False" "(pu_State p \<noteq> ''deleting'') = False" using assms(3) by simp_all
    show ?thesis using assms(1) unfolding PurgeProject_def Let_def assms(2) option.case n if_False em sum.case prod.case
        batch_def [symmetric] objects_def [symmetric] r by (simp only: prod.case)
  qed
  then have bl: "objects \<noteq> [] \<longrightarrow> qd_blobs db1 \<noteq> None" and ok: "ok" by (auto split: if_splits)
  have "\<exists>ids2. if fin then pending_items db2 m = [] \<and> finish_purge sha p ids1 db2 = Inr (db', ids2) else pending_items db2 m \<noteq> [] \<and> db' = db2"
    using run bl ok by (auto simp: purge_checkpoint_def split: if_splits sum.splits prod.splits)
  moreover have "delete_batch m objects db1 = (True, db2)" using r ok by simp
  moreover have "0 < batch" by (simp add: batch_def)
  ultimately show thesis using that em bl unfolding objects_def by blast
qed

section \<open>Properties\<close>

definition manifest_covers :: "purge_db \<Rightarrow> int64 \<Rightarrow> bool" where
  "manifest_covers db p \<longleftrightarrow> (case find (\<lambda>m. mf_Project m = p) (qd_manifests db) of None \<Rightarrow> True
     | Some m \<Rightarrow> list_all (\<lambda>obj. list_ex (\<lambda>i. mi_Manifest i = mf_ID m \<and> mi_Object i = obj) (qd_items db)) (owned_objects db p))"

definition purge_left :: "purge_db \<Rightarrow> int64 \<Rightarrow> nat" where
  "purge_left db p = (case find (\<lambda>m. mf_Project m = p) (qd_manifests db) of
     None \<Rightarrow> length (owned_objects db p) | Some m \<Rightarrow> length (pending_items db (mf_ID m)))"

lemma manifest_item_of:
  assumes "ensureManifest db p j ids = Inr (m, db1, ids1)" "purge_ok db" "manifest_covers db p" "obj \<in> set (owned_objects db p)"
  shows "\<exists>i \<in> set (qd_items db1). mi_Manifest i = m \<and> mi_Object i = obj"
proof (cases "find (\<lambda>m. mf_Project m = p) (qd_manifests db)")
  case None
  then have "\<lparr>mi_Manifest = m, mi_Object = obj, mi_Deleted = False\<rparr> \<in> set (qd_items db1)"
    using ensureManifest_ok [OF assms(1,2)] assms(4) by auto
  then show ?thesis by (intro bexI [of _ "\<lparr>mi_Manifest = m, mi_Object = obj, mi_Deleted = False\<rparr>"]) auto
next
  case (Some f)
  then show ?thesis using ensureManifest_ok [OF assms(1,2)] assms(3,4) by (auto simp: manifest_covers_def list_all_iff list_ex_iff)
qed

text \<open>
  C28: When \<open>PurgeProject\<close> reports that the purge is finished, the project is gone and its tombstone is written, and the
  bytes of every object that the project owned, or that an export of it had produced, are gone from the object store,
  provided that its manifest lists them. \<open>purge_ok\<close> is the invariant of the tables.
\<close>
theorem purge_leaves_no_bytes:
  assumes "PurgeProject sha l batchSize locked now ids db jdb = (Inr (True, l'), db', jdb')" "purge_ok db"
    "manifest_covers db (jb_ProjectID (lz_Job l))"
    "find (\<lambda>p. pu_ID p = jb_ProjectID (lz_Job l)) (qd_projects db) = Some p" "pu_State p = ''deleting''"
    "obj \<in> set (owned_objects db (jb_ProjectID (lz_Job l)))" "r \<in> set (qd_objects db)" "ob_ID (or_Object r) = obj"
  shows "blob_gone db' (ob_Key (or_Object r)) \<and> \<not> list_ex (\<lambda>q. pu_ID q = jb_ProjectID (lz_Job l)) (qd_projects db') \<and>
    list_ex (\<lambda>t. tb_Project t = jb_ProjectID (lz_Job l)) (qd_tombstones db')"
proof -
  let ?p = "jb_ProjectID (lz_Job l)"
  obtain m db1 ids1 db2 ids2 batch where em: "ensureManifest db ?p (jb_ID (lz_Job l)) ids = Inr (m, db1, ids1)"
    and dl: "delete_batch m (purge_batch db1 m batch locked) db1 = (True, db2)" "purge_batch db1 m batch locked \<noteq> [] \<longrightarrow> qd_blobs db1 \<noteq> None"
    and fin: "pending_items db2 m = []" "finish_purge sha p ids1 db2 = Inr (db', ids2)"
    by (rule PurgeProject_steps [OF assms(1,4,5)]) auto
  note e = ensureManifest_ok [OF em assms(2)]
  note d = delete_batch_ok [OF dl(1) _ refl dl(2)]
  have ok1: "purge_ok db1" and ok2: "purge_ok db2" and items: "qd_items db2 = purged_items m (fst ` set (purge_batch db1 m batch locked)) (qd_items db1)"
    and rows: "qd_objects db2 = purged_rows (fst ` set (purge_batch db1 m batch locked)) (qd_objects db1)"
    using e d by auto
  have pid: "pu_ID p = ?p" using assms(4) by (auto simp: find_Some_iff)
  note f = finish_purge_ok [OF fin(2) ok2]
  obtain i where i: "i \<in> set (qd_items db1)" "mi_Manifest i = m" "mi_Object i = obj"
    using manifest_item_of [OF em assms(2,3,6)] by auto
  obtain i2 where i2: "i2 \<in> set (qd_items db2)" "mi_Manifest i2 = m" "mi_Object i2 = obj"
  proof -
    let ?g = "\<lambda>i. if mi_Manifest i = m \<and> mi_Object i \<in> fst ` set (purge_batch db1 m batch locked) then i\<lparr>mi_Deleted := True\<rparr> else i"
    have "?g i \<in> set (qd_items db2)" unfolding items purged_items_def set_map by (rule image_eqI [OF refl i(1)])
    then show thesis by (rule that) (use i in auto)
  qed
  then have del: "mi_Deleted i2" using fin(1) by (auto simp: pending_items_def filter_empty_conv)
  have "or_Object r \<in> or_Object ` set (qd_objects db2)" unfolding rows purged_rows_object using assms(7) e by simp
  then obtain r2 where r2: "r2 \<in> set (qd_objects db2)" "or_Object r = or_Object r2" by (rule imageE)
  have "mi_Deleted i2 \<longrightarrow> object_id r2 = mi_Object i2 \<longrightarrow> blob_gone db2 (ob_Key (or_Object r2))"
    using ok2 i2(1) r2(1) by (simp add: purge_ok_def)
  then have "blob_gone db2 (ob_Key (or_Object r))" using del i2(3) assms(8) r2(2) by simp
  then show ?thesis using f unfolding pid by (simp add: blob_gone_def)
qed

lemma pending_purged:
  assumes "i \<in> set (qd_items db1)" "mi_Manifest i = m" "\<not> mi_Deleted i" "mi_Object i \<in> A" "qd_items db2 = purged_items m A (qd_items db1)"
  shows "length (pending_items db2 m) < length (pending_items db1 m)"
proof -
  define hit :: "manifest_item \<Rightarrow> bool" where "hit = (\<lambda>i. mi_Manifest i = m \<and> \<not> mi_Deleted i)"
  have "length (pending_items db2 m) = length (filter (\<lambda>i. hit i \<and> mi_Object i \<notin> A) (qd_items db1))"
    unfolding pending_items_def assms(5) purged_items_def filter_map length_map comp_def hit_def
    by (intro arg_cong [of _ _ length] filter_cong) auto
  also have "\<dots> = length (filter (\<lambda>i. mi_Object i \<notin> A) (filter hit (qd_items db1)))" by (simp add: conj_commute)
  also have "\<dots> < length (filter hit (qd_items db1))"
    by (rule length_filter_less [of i]) (use assms(1-4) in \<open>auto simp: hit_def\<close>)
  finally show ?thesis by (simp add: pending_items_def hit_def)
qed

lemma batch_not_empty:
  assumes "purge_ok db1" "0 < batch" "pending_items db1 m \<noteq> []"
  shows "purge_batch db1 m batch [] \<noteq> []"
proof -
  obtain i where i: "i \<in> set (pending_items db1 m)" using assms(3) by (cases "pending_items db1 m") auto
  then have "mi_Object i \<in> object_id ` set (qd_objects db1)" using assms(1) by (auto simp: purge_ok_def pending_items_def)
  then have "find (\<lambda>r. object_id r = mi_Object i) (qd_objects db1) \<noteq> None" by (auto simp: find_None_iff)
  then have "List.map_filter (\<lambda>obj. map_option (\<lambda>r. (obj, ob_Key (or_Object r))) (find (\<lambda>r. object_id r = obj) (qd_objects db1)))
      (filter (\<lambda>obj. obj \<notin> set []) (sort_func cmp_int (map mi_Object (pending_items db1 m)))) \<noteq> []"
    using i by (force simp: List.map_filter_def filter_empty_conv)
  then show ?thesis using assms(2) by (simp add: purge_batch_def)
qed

lemma purge_ok_blobs:
  assumes "purge_ok db" "\<And>key. blob_gone db key \<Longrightarrow> blob_gone (db\<lparr>qd_blobs := bs\<rparr>) key"
  shows "purge_ok (db\<lparr>qd_blobs := bs\<rparr>)"
  using assms by (auto simp: purge_ok_def)

lemma delete_batch_blobs:
  assumes "delete_batch m objects db = (ok, db')" "blob_gone db key"
  shows "blob_gone db' key"
proof -
  obtain b where b: "qd_blobs db = Some b" "bb_objects b key = None" using assms(2) by (auto simp: blob_gone_def split: option.splits)
  obtain b' d where d: "delete_objects m objects b db = (ok, b', d)" and db': "db' = d\<lparr>qd_blobs := Some b'\<rparr>"
    using assms(1) b by (auto simp: delete_batch_def split: prod.splits)
  from delete_objects_effect [OF d] b show ?thesis by (simp add: blob_gone_def db')
qed

lemma PurgeProject_error_ok:
  assumes "PurgeProject sha l batchSize locked now ids db jdb = (Inl e, db', jdb')" "purge_ok db" "\<forall>j. e \<noteq> PuJob j"
  shows "purge_ok db'"
proof (cases "find (\<lambda>p. pu_ID p = jb_ProjectID (lz_Job l)) (qd_projects db)")
  case None
  with assms show ?thesis by (simp add: PurgeProject_def Let_def)
next
  case (Some p)
  show ?thesis
  proof (cases "ensureManifest db (jb_ProjectID (lz_Job l)) (jb_ID (lz_Job l)) ids")
    case (Inl x)
    with Some assms show ?thesis by (auto simp: PurgeProject_def Let_def split: if_splits)
  next
    case (Inr t)
    obtain m db1 ids1 where t: "t = (m, db1, ids1)" by (cases t)
    note em = ensureManifest_ok [OF Inr [unfolded t] assms(2)]
    define batch where "batch = nat (if batchSize \<le> 0 \<or> batchSize > 1000 then 100 else batchSize)"
    obtain ok db2 where d: "delete_batch m (purge_batch db1 m batch locked) db1 = (ok, db2)" by (rule prod.exhaust)
    have gone: "purge_ok (db\<lparr>qd_blobs := qd_blobs db2\<rparr>)"
    proof (rule purge_ok_blobs [OF assms(2)])
      fix key assume "blob_gone db key"
      then have "blob_gone db1 key" using em by (simp add: blob_gone_def)
      from delete_batch_blobs [OF d this] show "blob_gone (db\<lparr>qd_blobs := qd_blobs db2\<rparr>) key" by (simp add: blob_gone_def)
    qed
    have "db' = db \<or> db' = db\<lparr>qd_blobs := qd_blobs db2\<rparr>"
      using assms(1,3) unfolding PurgeProject_def Let_def Some option.case Inr t sum.case prod.case batch_def [symmetric] d
      by (auto simp: purge_checkpoint_def split: if_splits sum.splits prod.splits)
    with gone assms(2) show ?thesis by auto
  qed
qed

text \<open>
  The loop of the worker that calls \<open>PurgeProject\<close> until it reports the end makes progress: a call that leaves work behind,
  when no other transaction holds the objects, has purged at least one of the objects that were left, and the tables are
  sound again after it, so a purge of \<open>n\<close> objects ends after at most \<open>n + 1\<close> such calls.
\<close>
theorem purge_makes_progress:
  assumes "PurgeProject sha l batchSize [] now ids db jdb = (Inr (False, l'), db', jdb')" "purge_ok db"
  shows "purge_ok db' \<and> purge_left db' (jb_ProjectID (lz_Job l)) < purge_left db (jb_ProjectID (lz_Job l))"
proof -
  let ?p = "jb_ProjectID (lz_Job l)"
  obtain p where p: "find (\<lambda>p. pu_ID p = ?p) (qd_projects db) = Some p" "pu_State p = ''deleting''"
    using assms(1) by (auto simp: PurgeProject_def Let_def split: option.splits if_splits)
  obtain m db1 ids1 db2 batch where em: "ensureManifest db ?p (jb_ID (lz_Job l)) ids = Inr (m, db1, ids1)" and batch: "0 < batch"
    and dl: "delete_batch m (purge_batch db1 m batch []) db1 = (True, db2)" "purge_batch db1 m batch [] \<noteq> [] \<longrightarrow> qd_blobs db1 \<noteq> None"
    and fin: "pending_items db2 m \<noteq> []" "db' = db2"
    by (rule PurgeProject_steps [OF assms(1) p]) auto
  note e = ensureManifest_ok [OF em assms(2)]
  note d = delete_batch_ok [OF dl(1) _ refl dl(2)]
  have ok1: "purge_ok db1" and ok2: "purge_ok db2" and items: "qd_items db2 = purged_items m (fst ` set (purge_batch db1 m batch [])) (qd_items db1)"
    and mans: "qd_manifests db2 = qd_manifests db1"
    using e d by auto
  have "pending_items db1 m \<noteq> []"
  proof -
    obtain i2 where i2: "i2 \<in> set (pending_items db2 m)" using fin(1) by (cases "pending_items db2 m") auto
    then obtain i0 where "i0 \<in> set (qd_items db1)" "mi_Manifest i0 = m" "\<not> mi_Deleted i0"
      using purged_items_item [of i2 m "fst ` set (purge_batch db1 m batch [])" "qd_items db1"] unfolding pending_items_def items by auto
    then have "i0 \<in> set (pending_items db1 m)" by (simp add: pending_items_def)
    then show ?thesis by auto
  qed
  from batch_not_empty [OF ok1 batch this] obtain obj key where ok: "(obj, key) \<in> set (purge_batch db1 m batch [])"
    by (cases "purge_batch db1 m batch []") auto
  then obtain i where i: "i \<in> set (qd_items db1)" "mi_Manifest i = m" "\<not> mi_Deleted i" "mi_Object i = obj"
    using purge_batch_members [OF ok] ok1 by (auto simp: purge_ok_def pending_items_def)
  have less: "length (pending_items db2 m) < length (pending_items db1 m)"
    by (rule pending_purged [OF i(1-3) _ items]) (use ok i(4) in force)
  have "purge_left db2 ?p = length (pending_items db2 m) \<and> length (pending_items db1 m) \<le> purge_left db ?p"
  proof (cases "find (\<lambda>m. mf_Project m = ?p) (qd_manifests db)")
    case None
    have new: "qd_manifests db1 = qd_manifests db @ [\<lparr>mf_ID = m, mf_Project = ?p, mf_Job = jb_ID (lz_Job l)\<rparr>]"
      "qd_items db1 = qd_items db @ map (\<lambda>obj. \<lparr>mi_Manifest = m, mi_Object = obj, mi_Deleted = False\<rparr>) (owned_objects db ?p)"
      using e None by auto
    have "m \<notin> mf_ID ` set (qd_manifests db)" using ok1 unfolding purge_ok_def new(1) by simp
    then have "filter (\<lambda>i. mi_Manifest i = m \<and> \<not> mi_Deleted i) (qd_items db) = []"
      using assms(2) by (auto simp: purge_ok_def filter_empty_conv)
    then have "length (pending_items db1 m) = length (owned_objects db ?p)" by (simp add: pending_items_def new(2) comp_def)
    then show ?thesis using None by (simp add: purge_left_def mans new(1) find_append)
  next
    case (Some f)
    then show ?thesis using e mans by (simp add: purge_left_def)
  qed
  with less ok2 show ?thesis unfolding fin(2) by simp
qed

section \<open>Concrete purges\<close>

definition purge_object :: "int64 \<Rightarrow> string \<Rightarrow> object_row" where
  "purge_object i key = \<lparr>or_Object = \<lparr>ob_ID = i, ob_ProjectID = 3, ob_Key = key, ob_Digest = ''ab'', ob_Size = 1, ob_MediaType = ''text/plain''\<rparr>,
     or_Owned = True, or_Retained = True, or_Verified = True\<rparr>"

definition sample_purge_db :: purge_db where
  "sample_purge_db = \<lparr>qd_projects = [\<lparr>pu_ID = 3, pu_Workspace = 1, pu_State = ''deleting'', pu_Slug = ''s'', pu_Reason = ''r'', pu_Actor = Some 7\<rparr>],
     qd_objects = [purge_object 51 ''a'', purge_object 52 ''b''], qd_manifests = [], qd_items = [], qd_exports = [], qd_owners = [], qd_tombstones = [],
     qd_blobs = Some \<lparr>bb_objects = (\<lambda>k. if k \<in> {''a'', ''b'', ''c''} then Some ''x'' else None), bb_script = []\<rparr>\<rparr>"

definition sample_purge :: "int \<Rightarrow> (purge_error + bool \<times> JobLease) \<times> purge_db \<times> job_db" where
  "sample_purge batch = PurgeProject sample_digest sample_lease batch [] (Time 1000 UTC) [61, 62, 63] sample_purge_db sample_jobs_now"

lemma sample_purge_ok: "purge_ok sample_purge_db"
  by (simp add: purge_ok_def sample_purge_db_def purge_object_def)

lemma sample_lease_project: "jb_ProjectID (lz_Job sample_lease) = 3"
  by code_simp

theorem purge_leaves_no_bytes_witness:
  "blob_gone (fst (snd (sample_purge 10))) ''b'' \<and> \<not> blob_gone sample_purge_db ''b''"
proof -
  have "map_sum (\<lambda>_. ()) fst (fst (sample_purge 10)) = Inr True" by code_simp
  then obtain l' where run: "PurgeProject sample_digest sample_lease 10 [] (Time 1000 UTC) [61, 62, 63] sample_purge_db sample_jobs_now =
      (Inr (True, l'), fst (snd (sample_purge 10)), snd (snd (sample_purge 10)))"
    unfolding sample_purge_def by (cases "PurgeProject sample_digest sample_lease 10 [] (Time 1000 UTC) [61, 62, 63] sample_purge_db sample_jobs_now")
      (auto simp: map_sum_Inr_iff)
  have "blob_gone (fst (snd (sample_purge 10))) (ob_Key (or_Object (purge_object 52 ''b'')))"
    by (rule purge_leaves_no_bytes [OF run sample_purge_ok, THEN conjunct1, of _ 52])
       (simp add: sample_lease_project manifest_covers_def owned_objects_def sample_purge_db_def purge_object_def)+
  moreover have "\<not> blob_gone sample_purge_db ''b''" by (simp add: blob_gone_def sample_purge_db_def)
  ultimately show ?thesis by (simp add: purge_object_def)
qed

theorem purge_makes_progress_witness:
  "purge_left (fst (snd (sample_purge 1))) 3 < purge_left sample_purge_db 3"
proof -
  have "map_sum (\<lambda>_. ()) fst (fst (sample_purge 1)) = Inr False" by code_simp
  then obtain l' where run: "PurgeProject sample_digest sample_lease 1 [] (Time 1000 UTC) [61, 62, 63] sample_purge_db sample_jobs_now =
      (Inr (False, l'), fst (snd (sample_purge 1)), snd (snd (sample_purge 1)))"
    unfolding sample_purge_def by (cases "PurgeProject sample_digest sample_lease 1 [] (Time 1000 UTC) [61, 62, 63] sample_purge_db sample_jobs_now")
      (auto simp: map_sum_Inr_iff)
  from purge_makes_progress [OF run sample_purge_ok] show ?thesis by (simp add: sample_lease_project)
qed

text \<open>
  Evidence committed after the first batch is not in the manifest, and nothing keeps it from being committed: the purge ends,
  its row goes with the project, and its bytes stay behind without any reference.
\<close>

lemma late_evidence_survives:
  "let db1 = fst (snd (sample_purge 1));
       late = db1\<lparr>qd_objects := qd_objects db1 @ [purge_object 53 ''c'']\<rparr>;
       res = PurgeProject sample_digest sample_lease 10 [] (Time 1000 UTC) [71, 72, 73] late sample_jobs_now;
       db2 = fst (snd res) in
     map_sum (\<lambda>_. ()) fst (fst res) = Inr True \<and> qd_objects db2 = [] \<and> \<not> blob_gone db2 ''c''"
proof -
  define db1 where "db1 = fst (snd (sample_purge 1))"
  define res where "res = PurgeProject sample_digest sample_lease 10 [] (Time 1000 UTC) [71, 72, 73]
    (db1\<lparr>qd_objects := qd_objects db1 @ [purge_object 53 ''c'']\<rparr>) sample_jobs_now"
  have "map_sum (\<lambda>_. ()) fst (fst res) = Inr True" unfolding res_def db1_def by code_simp
  moreover have "qd_objects (fst (snd res)) = []" unfolding res_def db1_def by code_simp
  moreover have "\<not> blob_gone (fst (snd res)) ''c''" unfolding res_def db1_def by code_simp
  ultimately show ?thesis by (simp add: Let_def flip: db1_def res_def)
qed
end
