(* ===== verification/Github.thy ===== *)
theory Github
  imports Go_Base
begin

text \<open>
  \<open>internal/platform/github\<close>: the client of the public GitHub API. What \<open>net/http\<close>, \<open>net/url\<close> and
  \<open>encoding/json\<close> do with a request, a reference or a body is an argument: \<open>ghc_Do\<close> performs a request,
  \<open>ghc_Resolve\<close> is \<open>BaseURL.Parse\<close> with the scheme and the host name of its result, and every operation
  takes the decoder of its transfer object and, where it keeps the object as provenance, the encoder.
\<close>

section \<open>The client\<close>

datatype transport_error = TransportCanceled | TransportDeadline | TransportOther string

datatype gh_error = GhArguments | GhNotPublic | GhRateLimited gotime | GhEndpoint | GhRequest transport_error
  | GhStatus int | GhRead transport_error | GhTooLarge | GhDecode | GhProvenance

record gh_request =
  rq_URL :: string
  rq_Headers :: "(string \<times> string) list"

text \<open>A response with its body: the bytes, and the error that ends them when it is not the end of the file.\<close>

record gh_response =
  rs_Status :: int
  rs_Header :: "string \<Rightarrow> string"
  rs_Bytes :: string
  rs_Broken :: "transport_error option"

record gh_client =
  ghc_Token :: string
  ghc_MaxPayload :: int64
  ghc_Resolve :: "string \<Rightarrow> (string \<times> string \<times> string) option"
  ghc_Do :: "gh_request \<Rightarrow> transport_error + gh_response"

record GhRepository =
  gr_ExternalID :: int64
  gr_CanonicalURL :: string
  gr_Name :: string
  gr_Description :: string
  gr_DefaultBranch :: string
  gr_Owner :: string
  gr_UpdatedAt :: gotime
  gr_Raw :: string

record GhIssue =
  gi_ExternalID :: int64
  gi_Number :: int64
  gi_Title :: string
  gi_State :: string
  gi_Author :: string
  gi_CreatedAt :: gotime
  gi_UpdatedAt :: gotime
  gi_ClosedAt :: "gotime option"
  gi_Raw :: string

record GhPullRequest =
  gp_ExternalID :: int64
  gp_Number :: int64
  gp_Title :: string
  gp_State :: string
  gp_CreatedAt :: gotime
  gp_ReadyAt :: "gotime option"
  gp_MergedAt :: "gotime option"
  gp_Raw :: string

record GhRelease =
  gl_ExternalID :: int64
  gl_Tag :: string
  gl_Draft :: bool
  gl_Prerelease :: bool
  gl_PublishedAt :: "gotime option"
  gl_Raw :: string

record GhCommit =
  go_ExternalID :: string
  go_SHA :: string
  go_AuthorExternalID :: string
  go_CommittedAt :: gotime
  go_DefaultBranch :: bool
  go_MergeCommit :: bool
  go_Raw :: string

section \<open>Paths and queries\<close>

definition validSegment :: "string \<Rightarrow> bool" where
  "validSegment v \<longleftrightarrow> v \<noteq> '''' \<and> v \<noteq> ''.'' \<and> v \<noteq> ''..'' \<and>
     \<not> list_ex (\<lambda>c. c \<in> {CHR ''/'', CHR 0x5C, CHR 0x0D, CHR 0x0A}) v"

definition url_unreserved :: "char \<Rightarrow> bool" where
  "url_unreserved c \<longleftrightarrow> (CHR ''a'' \<le> c \<and> c \<le> CHR ''z'') \<or> (CHR ''A'' \<le> c \<and> c \<le> CHR ''Z'') \<or>
     (CHR ''0'' \<le> c \<and> c \<le> CHR ''9'') \<or> c \<in> {CHR ''-'', CHR ''_'', CHR ''.'', CHR ''~''}"

definition upper_hex :: "nat \<Rightarrow> char" where
  "upper_hex d = (if d < 10 then char_of (48 + d) else char_of (55 + d))"

definition percent_byte :: "char \<Rightarrow> string" where
  "percent_byte c = (let n = of_char c in [CHR ''%'', upper_hex (n div 16), upper_hex (n mod 16)])"

definition PathEscape :: "string \<Rightarrow> string" where
  "PathEscape v = concat (map (\<lambda>c. if url_unreserved c \<or> c \<in> {CHR ''$'', CHR ''&'', CHR ''+'', CHR '':'', CHR ''='', CHR ''@''}
     then [c] else percent_byte c) v)"

definition QueryEscape :: "string \<Rightarrow> string" where
  "QueryEscape v = concat (map (\<lambda>c. if url_unreserved c then [c] else if c = CHR '' '' then ''+'' else percent_byte c) v)"

definition repo_path :: "string \<Rightarrow> string \<Rightarrow> string" where
  "repo_path owner name = ''/repos/'' @ PathEscape owner @ ''/'' @ PathEscape name"

section \<open>Requests\<close>

text \<open>What \<open>strconv.ParseInt\<close> returns beside its error: 0, or the bound that is exceeded.\<close>

definition parse_int_value :: "string \<Rightarrow> int64" where
  "parse_int_value s =
     (let (neg, digits) = (case s of [] \<Rightarrow> (False, [])
            | c # cs \<Rightarrow> if c = CHR ''-'' then (True, cs) else if c = CHR ''+'' then (False, cs) else (False, s))
      in case parse_nat digits of None \<Rightarrow> 0
         | Some n \<Rightarrow> if neg then max min_int64 (- int n) else min max_int64 (int n))"

text \<open>\<open>time.Unix(sec, 0).UTC()\<close>: the seconds since year 1 are 64 bits wide.\<close>

definition of_unix :: "int64 \<Rightarrow> gotime" where
  "of_unix sec = Time (wrap64 (sec + 62135596800) * second) UTC"

definition check_status :: "gh_response \<Rightarrow> gh_error option" where
  "check_status r =
     (if rs_Status r = 404 \<or> rs_Status r = 403 \<and> to_lower (rs_Header r ''X-Resource-Visibility'') = ''private'' then Some GhNotPublic
      else if rs_Status r = 429 \<or> rs_Status r = 403 \<and> rs_Header r ''X-RateLimit-Remaining'' = ''0''
      then Some (GhRateLimited (of_unix (parse_int_value (rs_Header r ''X-RateLimit-Reset''))))
      else if rs_Status r < 200 \<or> rs_Status r \<ge> 300 then Some (GhStatus (rs_Status r))
      else None)"

definition read_body :: "int64 \<Rightarrow> gh_response \<Rightarrow> gh_error + string" where
  "read_body maxPayload r =
     (let limit = (if maxPayload \<le> 0 then 8388608 else maxPayload); n = nat (wrap64 (limit + 1)) in
      if length (rs_Bytes r) < n \<and> rs_Broken r \<noteq> None then Inl (GhRead (the (rs_Broken r)))
      else let raw = take n (rs_Bytes r) in if int (length raw) > limit then Inl GhTooLarge else Inr raw)"

definition gh_request_for :: "gh_client \<Rightarrow> string \<Rightarrow> gh_request" where
  "gh_request_for c url = \<lparr>rq_URL = url, rq_Headers = [(''Accept'', ''application/vnd.github+json''), (''X-GitHub-Api-Version'', ''2022-11-28'')] @
     (if ghc_Token c \<noteq> '''' then [(''Authorization'', ''Bearer '' @ ghc_Token c)] else [])\<rparr>"

definition gh_get :: "gh_client \<Rightarrow> (string \<Rightarrow> 'dto option) \<Rightarrow> string \<Rightarrow> gh_error + string \<times> 'dto" where
  "gh_get c decode endpoint =
     (case ghc_Resolve c endpoint of None \<Rightarrow> Inl GhEndpoint
      | Some (scheme, host, url) \<Rightarrow>
          if scheme \<noteq> ''https'' \<and> host \<noteq> ''127.0.0.1'' \<and> host \<noteq> ''localhost'' then Inl GhEndpoint
          else case ghc_Do c (gh_request_for c url) of Inl e \<Rightarrow> Inl (GhRequest e)
          | Inr r \<Rightarrow>
              bindE (err_none id (check_status r)) (\<lambda>_.
              bindE (read_body (ghc_MaxPayload c) r) (\<lambda>raw.
              bindE (some_or GhDecode (decode raw)) (\<lambda>dto. Inr (raw, dto)))))"

section \<open>Operations\<close>

record repositoryDTO =
  rt_ID :: int64
  rt_Name :: string
  rt_Description :: string
  rt_Private :: bool
  rt_Visibility :: string
  rt_HTMLURL :: string
  rt_DefaultBranch :: string
  rt_UpdatedAt :: gotime
  rt_Login :: string

record issueDTO =
  it_ID :: int64
  it_Number :: int64
  it_Title :: string
  it_State :: string
  it_CreatedAt :: gotime
  it_UpdatedAt :: gotime
  it_ClosedAt :: "gotime option"
  it_PullRequest :: "string option"
  it_Login :: string

record pullRequestDTO =
  qt_ID :: int64
  qt_Number :: int64
  qt_Title :: string
  qt_State :: string
  qt_Draft :: bool
  qt_CreatedAt :: gotime
  qt_MergedAt :: "gotime option"

record releaseDTO =
  lt_ID :: int64
  lt_TagName :: string
  lt_Draft :: bool
  lt_Prerelease :: bool
  lt_PublishedAt :: "gotime option"

record commitDTO =
  ct_SHA :: string
  ct_AuthorID :: "int64 option"
  ct_CommitterDate :: gotime
  ct_Parents :: "string list"

definition gh_Repository :: "gh_client \<Rightarrow> (string \<Rightarrow> repositoryDTO option) \<Rightarrow> string \<Rightarrow> string \<Rightarrow> gh_error + GhRepository" where
  "gh_Repository c decode owner name =
     (if \<not> validSegment owner \<or> \<not> validSegment name then Inl GhArguments
      else bindE (gh_get c decode (repo_path owner name)) (\<lambda>(raw, d).
        if rt_Private d \<or> rt_Visibility d \<noteq> '''' \<and> rt_Visibility d \<noteq> ''public'' then Inl GhNotPublic
        else Inr \<lparr>gr_ExternalID = rt_ID d, gr_CanonicalURL = rt_HTMLURL d, gr_Name = rt_Name d, gr_Description = rt_Description d,
          gr_DefaultBranch = rt_DefaultBranch d, gr_Owner = rt_Login d, gr_UpdatedAt = utc (rt_UpdatedAt d), gr_Raw = raw\<rparr>))"

text \<open>The transfer objects of a page, each with its encoding as provenance.\<close>

fun retain :: "('dto \<Rightarrow> string option) \<Rightarrow> ('dto \<Rightarrow> string \<Rightarrow> 'v) \<Rightarrow> 'dto list \<Rightarrow> gh_error + 'v list" where
  "retain encode f [] = Inr []"
| "retain encode f (d # ds) =
     (case encode d of None \<Rightarrow> Inl GhProvenance
      | Some raw \<Rightarrow> bindE (retain encode f ds) (\<lambda>vs. Inr (f d raw # vs)))"

definition gh_page :: "gh_client \<Rightarrow> (string \<Rightarrow> 'dto list option) \<Rightarrow> string \<Rightarrow> string \<Rightarrow> string \<Rightarrow> int \<Rightarrow> gh_error + 'dto list" where
  "gh_page c decode owner name query page =
     (if \<not> validSegment owner \<or> \<not> validSegment name \<or> page \<le> 0 then Inl GhArguments
      else bindE (gh_get c decode (repo_path owner name @ query @ format_int page)) (\<lambda>(raw, ds). Inr ds))"

definition issue_of :: "issueDTO \<Rightarrow> string \<Rightarrow> GhIssue" where
  "issue_of d raw = \<lparr>gi_ExternalID = it_ID d, gi_Number = it_Number d, gi_Title = it_Title d, gi_State = it_State d, gi_Author = it_Login d,
     gi_CreatedAt = utc (it_CreatedAt d), gi_UpdatedAt = utc (it_UpdatedAt d), gi_ClosedAt = map_option utc (it_ClosedAt d), gi_Raw = raw\<rparr>"

definition gh_Issues :: "gh_client \<Rightarrow> (string \<Rightarrow> issueDTO list option) \<Rightarrow> (issueDTO \<Rightarrow> string option) \<Rightarrow> string \<Rightarrow> string \<Rightarrow> int \<Rightarrow> gh_error + GhIssue list" where
  "gh_Issues c decode encode owner name page =
     bindE (gh_page c decode owner name ''/issues?state=all&per_page=100&page='' page) (\<lambda>ds.
     retain encode issue_of (filter (\<lambda>d. it_PullRequest d = None) ds))"

definition pull_of :: "pullRequestDTO \<Rightarrow> string \<Rightarrow> GhPullRequest" where
  "pull_of d raw = \<lparr>gp_ExternalID = qt_ID d, gp_Number = qt_Number d, gp_Title = qt_Title d,
     gp_State = (if qt_MergedAt d \<noteq> None then ''merged'' else qt_State d), gp_CreatedAt = utc (qt_CreatedAt d),
     gp_ReadyAt = (if qt_Draft d then None else Some (utc (qt_CreatedAt d))), gp_MergedAt = map_option utc (qt_MergedAt d), gp_Raw = raw\<rparr>"

definition gh_PullRequests ::
    "gh_client \<Rightarrow> (string \<Rightarrow> pullRequestDTO list option) \<Rightarrow> (pullRequestDTO \<Rightarrow> string option) \<Rightarrow> string \<Rightarrow> string \<Rightarrow> int \<Rightarrow> gh_error + GhPullRequest list" where
  "gh_PullRequests c decode encode owner name page =
     bindE (gh_page c decode owner name ''/pulls?state=all&per_page=100&page='' page) (\<lambda>ds. retain encode pull_of ds)"

definition release_of :: "releaseDTO \<Rightarrow> string \<Rightarrow> GhRelease" where
  "release_of d raw = \<lparr>gl_ExternalID = lt_ID d, gl_Tag = lt_TagName d, gl_Draft = lt_Draft d, gl_Prerelease = lt_Prerelease d,
     gl_PublishedAt = map_option utc (lt_PublishedAt d), gl_Raw = raw\<rparr>"

definition gh_Releases ::
    "gh_client \<Rightarrow> (string \<Rightarrow> releaseDTO list option) \<Rightarrow> (releaseDTO \<Rightarrow> string option) \<Rightarrow> string \<Rightarrow> string \<Rightarrow> int \<Rightarrow> gh_error + GhRelease list" where
  "gh_Releases c decode encode owner name page =
     bindE (gh_page c decode owner name ''/releases?per_page=100&page='' page) (\<lambda>ds. retain encode release_of ds)"

definition commit_of :: "commitDTO \<Rightarrow> string \<Rightarrow> GhCommit" where
  "commit_of d raw = \<lparr>go_ExternalID = ct_SHA d, go_SHA = ct_SHA d,
     go_AuthorExternalID = (case ct_AuthorID d of None \<Rightarrow> '''' | Some i \<Rightarrow> if i > 0 then format_int i else ''''),
     go_CommittedAt = utc (ct_CommitterDate d), go_DefaultBranch = True, go_MergeCommit = (length (ct_Parents d) > 1), go_Raw = raw\<rparr>"

definition gh_Commits ::
    "gh_client \<Rightarrow> (string \<Rightarrow> commitDTO list option) \<Rightarrow> (commitDTO \<Rightarrow> string option) \<Rightarrow> string \<Rightarrow> string \<Rightarrow> string \<Rightarrow> int \<Rightarrow> gh_error + GhCommit list" where
  "gh_Commits c decode encode owner name branch page =
     (if \<not> validSegment branch then Inl GhArguments
      else bindE (gh_page c decode owner name (''/commits?sha='' @ QueryEscape branch @ ''&per_page=100&page='') page) (\<lambda>ds.
        retain encode commit_of ds))"

section \<open>What the operations return\<close>

lemma retain_Inr_iff: "retain encode f ds = Inr vs \<longleftrightarrow> list_all (\<lambda>d. encode d \<noteq> None) ds \<and> vs = map (\<lambda>d. f d (the (encode d))) ds"
  by (induction ds arbitrary: vs) (auto simp: result_simps split: option.splits)

lemma gh_page_Inr:
  "gh_page c decode owner name query page = Inr ds \<Longrightarrow> validSegment owner \<and> validSegment name \<and> page > 0"
  by (auto simp: gh_page_def split: if_splits)

lemma gh_get_not_public: "gh_get c decode endpoint = Inl GhNotPublic \<Longrightarrow>
   \<exists>scheme host url r. ghc_Resolve c endpoint = Some (scheme, host, url) \<and> ghc_Do c (gh_request_for c url) = Inr r \<and>
     (rs_Status r = 404 \<or> rs_Status r = 403)"
  by (auto simp: gh_get_def bindE_def err_none_def check_status_def some_or_def read_body_def Let_def
      split: option.splits sum.splits if_splits prod.splits)

lemma read_body_bounded:
  assumes "read_body m r = Inr raw"
  shows "int (length raw) \<le> (if m \<le> 0 then 8388608 else m)" "prefix raw (rs_Bytes r)"
  using assms by (auto simp: read_body_def Let_def take_is_prefix split: if_splits)

lemma issues_drop_pull_requests:
  assumes "gh_Issues c decode encode owner name page = Inr vs"
  obtains ds where "gh_page c decode owner name ''/issues?state=all&per_page=100&page='' page = Inr ds"
    "length vs = length (filter (\<lambda>d. it_PullRequest d = None) ds)"
  using assms by (auto simp: gh_Issues_def result_simps retain_Inr_iff)

text \<open>A rate limit without a reset header is taken to have been reset in 1970, which is not the zero time.\<close>

lemma rate_limit_reset_not_zero: "check_status r = Some (GhRateLimited t) \<Longrightarrow> rs_Header r ''X-RateLimit-Reset'' = '''' \<Longrightarrow> t = Time unix_epoch UTC"
  by (auto simp: check_status_def parse_int_value_def parse_nat_def of_unix_def wrap64_def second_def unix_epoch_def split: if_splits)

end
