(* ===== verification/Ingestion.thy ===== *)
theory Ingestion
  imports JobStore Github
begin

text \<open>
  \<open>internal/platform/ingestion\<close>: a page of normalised GitHub data is written in one transaction with the
  payloads it comes from, the checkpoint of its scope and the coverage of its source. Tables are lists of
  rows with the constraints and the write guard of migration 0003; a failed transaction leaves them as they
  were. \<open>json.Valid\<close>, what the column \<open>jsonb\<close> renders for a text (or refuses), and SHA-256 are arguments.
\<close>

section \<open>Tables\<close>

datatype ingest_error = IngIdentity | IngMalformed | IngIDs | IngConstraint

record raw_row =
  iw_ID :: int64
  iw_ProjectID :: int64
  iw_SourceID :: int64
  iw_Type :: string
  iw_ExternalID :: string
  iw_ObservedAt :: gotime
  iw_Payload :: string
  iw_Digest :: string

text \<open>A row of one of the four canonical tables; \<open>cx_Value\<close> holds the columns that depend on its kind.\<close>

record 'v canonical_row =
  cx_ID :: int64
  cx_ProjectID :: int64
  cx_RepositoryID :: int64
  cx_SourceID :: int64
  cx_ExternalID :: string
  cx_Value :: 'v
  cx_RawID :: int64

record sync_checkpoint =
  sk_ID :: int64
  sk_ProjectID :: int64
  sk_SourceID :: int64
  sk_Scope :: string
  sk_Cursor :: string
  sk_CoverageFrom :: "gotime option"
  sk_CoverageTo :: "gotime option"
  sk_Version :: int64

record ingest_db =
  ig_Projects :: "(int64 \<times> string) list"
  ig_Repositories :: "int64 list"
  ig_Sources :: "source_row list"
  ig_Raw :: "raw_row list"
  ig_Issues :: "GhIssue canonical_row list"
  ig_Pulls :: "GhPullRequest canonical_row list"
  ig_Releases :: "GhRelease canonical_row list"
  ig_Commits :: "GhCommit canonical_row list"
  ig_Checkpoints :: "sync_checkpoint list"

record page_lib =
  pl_Valid :: "string \<Rightarrow> bool"
  pl_Jsonb :: "string \<Rightarrow> string option"
  pl_Sha :: "string \<Rightarrow> string"

text \<open>\<open>LEAST\<close> and \<open>GREATEST\<close> ignore nulls.\<close>

definition earliest :: "gotime option \<Rightarrow> gotime \<Rightarrow> gotime" where
  "earliest t u = (case t of None \<Rightarrow> u | Some v \<Rightarrow> if after v u then u else v)"

definition latest :: "gotime option \<Rightarrow> gotime \<Rightarrow> gotime" where
  "latest t u = (case t of None \<Rightarrow> u | Some v \<Rightarrow> if before v u then u else v)"

definition project_frozen :: "ingest_db \<Rightarrow> int64 \<Rightarrow> bool" where
  "project_frozen db p \<longleftrightarrow> map_of (ig_Projects db) p \<in> {Some ''deleting'', Some ''deleted''}"

definition source_exists :: "ingest_db \<Rightarrow> int64 \<Rightarrow> bool" where
  "source_exists db s \<longleftrightarrow> list_ex (\<lambda>x. so_ID (sx_source x) = s) (ig_Sources db)"

definition raw_writable :: "ingest_db \<Rightarrow> int64 \<Rightarrow> int64 \<Rightarrow> bool" where
  "raw_writable db p s \<longleftrightarrow> \<not> project_frozen db p \<and> map_of (ig_Projects db) p \<noteq> None \<and> source_exists db s"

section \<open>The items of a page\<close>

definition same_raw :: "int64 \<Rightarrow> string \<Rightarrow> string \<Rightarrow> string \<Rightarrow> raw_row \<Rightarrow> bool" where
  "same_raw s ty ext digest r \<longleftrightarrow> iw_SourceID r = s \<and> iw_Type r = ty \<and> iw_ExternalID r = ext \<and> iw_Digest r = digest"

definition retainRaw ::
    "page_lib \<Rightarrow> ingest_db \<Rightarrow> int64 \<Rightarrow> int64 \<Rightarrow> string \<Rightarrow> string \<Rightarrow> gotime \<Rightarrow> string \<Rightarrow> raw_row list \<Rightarrow> int64 list \<Rightarrow>
     ingest_error + raw_row list \<times> int64 \<times> int64 list" where
  "retainRaw lib db p s ty ext observed raw rows ids =
     (case ids of [] \<Rightarrow> Inl IngIDs
      | i # rest \<Rightarrow>
          if i \<le> 0 \<or> pl_Jsonb lib raw = None \<or> \<not> raw_writable db p s then Inl IngConstraint
          else case find (same_raw s ty ext (pl_Sha lib raw)) rows of
            Some r \<Rightarrow> Inr (map (\<lambda>q. if same_raw s ty ext (pl_Sha lib raw) q
                then q\<lparr>iw_ObservedAt := earliest (Some (iw_ObservedAt q)) (pg_time observed)\<rparr> else q) rows, iw_ID r, rest)
          | None \<Rightarrow>
              if i \<in> iw_ID ` set rows then Inl IngConstraint
              else Inr (rows @ [\<lparr>iw_ID = i, iw_ProjectID = p, iw_SourceID = s, iw_Type = ty, iw_ExternalID = ext,
                iw_ObservedAt = pg_time observed, iw_Payload = the (pl_Jsonb lib raw), iw_Digest = pl_Sha lib raw\<rparr>], i, rest))"

text \<open>
  What the four loops differ in: the type of the payload, the checks of the loop body and of the table, the
  columns, the unique key that an insert can conflict with, and when the conflicting row is replaced.
\<close>

record 'v page_kind =
  pk_Type :: string
  pk_Valid :: "'v \<Rightarrow> bool"
  pk_Check :: "'v \<Rightarrow> bool"
  pk_ExternalID :: "'v \<Rightarrow> string"
  pk_ObservedAt :: "'v \<Rightarrow> gotime"
  pk_Raw :: "'v \<Rightarrow> string"
  pk_Columns :: "'v \<Rightarrow> 'v"
  pk_Conflict :: "'v canonical_row \<Rightarrow> 'v canonical_row \<Rightarrow> bool"
  pk_Replaces :: "'v canonical_row \<Rightarrow> 'v canonical_row \<Rightarrow> bool"

definition replace_row :: "'v canonical_row \<Rightarrow> 'v canonical_row \<Rightarrow> 'v canonical_row" where
  "replace_row new old = old\<lparr>cx_ExternalID := cx_ExternalID new, cx_Value := cx_Value new, cx_RawID := cx_RawID new\<rparr>"

definition upsert_row :: "'v page_kind \<Rightarrow> 'v canonical_row \<Rightarrow> 'v canonical_row list \<Rightarrow> ingest_error + 'v canonical_row list" where
  "upsert_row k new rows =
     (if cx_ID new \<le> 0 then Inl IngConstraint
      else case find (pk_Conflict k new) rows of
        Some old \<Rightarrow> Inr (map (\<lambda>r. if pk_Conflict k new r \<and> pk_Replaces k new r then replace_row new r else r) rows)
      | None \<Rightarrow> if cx_ID new \<in> cx_ID ` set rows then Inl IngConstraint else Inr (rows @ [new]))"

definition item_row :: "'v page_kind \<Rightarrow> int64 \<Rightarrow> int64 \<Rightarrow> int64 \<Rightarrow> int64 \<Rightarrow> 'v \<Rightarrow> int64 \<Rightarrow> 'v canonical_row" where
  "item_row k i p r s v rawID = \<lparr>cx_ID = i, cx_ProjectID = p, cx_RepositoryID = r, cx_SourceID = s,
     cx_ExternalID = pk_ExternalID k v, cx_Value = pk_Columns k v, cx_RawID = rawID\<rparr>"

definition commit_item ::
    "page_lib \<Rightarrow> ingest_db \<Rightarrow> 'v page_kind \<Rightarrow> int64 \<Rightarrow> int64 \<Rightarrow> int64 \<Rightarrow> 'v \<Rightarrow> raw_row list \<times> 'v canonical_row list \<times> int64 list \<Rightarrow>
     ingest_error + raw_row list \<times> 'v canonical_row list \<times> int64 list" where
  "commit_item lib db k p r s v = (\<lambda>(raws, rows, ids).
     if \<not> pk_Valid k v \<or> \<not> pl_Valid lib (pk_Raw k v) then Inl IngMalformed
     else bindE (retainRaw lib db p s (pk_Type k) (pk_ExternalID k v) (pk_ObservedAt k v) (pk_Raw k v) raws ids) (\<lambda>(raws', rawID, ids1).
       case ids1 of [] \<Rightarrow> Inl IngIDs
       | i # rest \<Rightarrow>
           if r \<notin> set (ig_Repositories db) \<or> \<not> pk_Check k v then Inl IngConstraint
           else bindE (upsert_row k (item_row k i p r s v rawID) rows) (\<lambda>rows'.
             Inr (raws', rows', rest))))"

fun commit_items ::
    "page_lib \<Rightarrow> ingest_db \<Rightarrow> 'v page_kind \<Rightarrow> int64 \<Rightarrow> int64 \<Rightarrow> int64 \<Rightarrow> 'v list \<Rightarrow> raw_row list \<times> 'v canonical_row list \<times> int64 list \<Rightarrow>
     ingest_error + raw_row list \<times> 'v canonical_row list \<times> int64 list" where
  "commit_items lib db k p r s [] t = Inr t"
| "commit_items lib db k p r s (v # vs) t = bindE (commit_item lib db k p r s v t) (commit_items lib db k p r s vs)"

section \<open>The end of a page\<close>

definition advance_checkpoint :: "int64 \<Rightarrow> int64 \<Rightarrow> int64 \<Rightarrow> string \<Rightarrow> string \<Rightarrow> gotime \<Rightarrow> gotime \<Rightarrow> sync_checkpoint list \<Rightarrow> sync_checkpoint list" where
  "advance_checkpoint i p s scope cursor from to rows =
     (if list_ex (\<lambda>c. sk_SourceID c = s \<and> sk_Scope c = scope) rows
      then map (\<lambda>c. if sk_SourceID c = s \<and> sk_Scope c = scope
        then c\<lparr>sk_Cursor := cursor, sk_CoverageFrom := Some (earliest (sk_CoverageFrom c) (pg_time from)),
          sk_CoverageTo := Some (latest (sk_CoverageTo c) (pg_time to)), sk_Version := sk_Version c + 1\<rparr> else c) rows
      else rows @ [\<lparr>sk_ID = i, sk_ProjectID = p, sk_SourceID = s, sk_Scope = scope, sk_Cursor = cursor,
        sk_CoverageFrom = Some (pg_time from), sk_CoverageTo = Some (pg_time to), sk_Version = 1\<rparr>])"

definition cover_source :: "int64 \<Rightarrow> int64 \<Rightarrow> gotime \<Rightarrow> gotime \<Rightarrow> gotime \<Rightarrow> source_row list \<Rightarrow> source_row list" where
  "cover_source p s from to now = map (\<lambda>x. if so_ID (sx_source x) = s \<and> so_ProjectID (sx_source x) = p
     then x\<lparr>sx_source := (sx_source x)\<lparr>so_CoverageFrom := Some (earliest (so_CoverageFrom (sx_source x)) (pg_time from)),
       so_CoverageTo := Some (latest (so_CoverageTo (sx_source x)) (pg_time to)), so_LastAttemptAt := Some (pg_time now),
       so_LastSuccessAt := Some (pg_time now), so_Failure := '''', so_Version := so_Version (sx_source x) + 1\<rparr>\<rparr> else x)"

definition finishPage ::
    "ingest_db \<Rightarrow> int64 list \<Rightarrow> int64 \<Rightarrow> int64 \<Rightarrow> string \<Rightarrow> string \<Rightarrow> gotime \<Rightarrow> gotime \<Rightarrow> gotime \<Rightarrow> ingest_error + ingest_db" where
  "finishPage db ids p s scope cursor from to now =
     (case ids of [] \<Rightarrow> Inl IngIDs
      | i # rest \<Rightarrow>
          if i \<le> 0 \<or> after (pg_time from) (pg_time to) \<or> map_of (ig_Projects db) p = None \<or> \<not> source_exists db s then Inl IngConstraint
          else if i \<in> sk_ID ` set (ig_Checkpoints db) \<and> \<not> list_ex (\<lambda>c. sk_SourceID c = s \<and> sk_Scope c = scope) (ig_Checkpoints db)
          then Inl IngConstraint
          else if project_frozen db p \<and> list_ex (\<lambda>x. so_ID (sx_source x) = s \<and> so_ProjectID (sx_source x) = p) (ig_Sources db)
          then Inl IngConstraint
          else Inr (db\<lparr>ig_Checkpoints := advance_checkpoint i p s scope cursor from to (ig_Checkpoints db),
            ig_Sources := cover_source p s from to now (ig_Sources db)\<rparr>))"

definition validPageIdentity :: "int64 \<Rightarrow> int64 \<Rightarrow> int64 \<Rightarrow> string \<Rightarrow> bool" where
  "validPageIdentity p r s cursor \<longleftrightarrow> \<not> (p \<le> 0 \<or> r \<le> 0 \<or> s \<le> 0 \<or> trim_space cursor = '''')"

text \<open>A page of work: where it belongs, the cursor to continue with, and the coverage it claims.\<close>

record page_id =
  pi_Project :: int64
  pi_Repository :: int64
  pi_Source :: int64
  pi_Next :: string
  pi_From :: gotime
  pi_To :: gotime

definition source_key :: "'v canonical_row \<Rightarrow> 'v canonical_row \<Rightarrow> bool" where
  "source_key new r \<longleftrightarrow> cx_SourceID r = cx_SourceID new \<and> cx_ExternalID r = cx_ExternalID new"

definition issue_kind :: "GhIssue page_kind" where
  "issue_kind = \<lparr>pk_Type = ''github_issue'',
     pk_Valid = (\<lambda>v. gi_ExternalID v > 0 \<and> \<not> is_zero (gi_CreatedAt v) \<and> \<not> is_zero (gi_UpdatedAt v)),
     pk_Check = (\<lambda>v. gi_State v \<in> {''open'', ''closed''}), pk_ExternalID = (\<lambda>v. format_int (gi_ExternalID v)),
     pk_ObservedAt = gi_UpdatedAt, pk_Raw = gi_Raw,
     pk_Columns = (\<lambda>v. v\<lparr>gi_Author := '''', gi_Raw := '''', gi_CreatedAt := pg_time (gi_CreatedAt v), gi_UpdatedAt := pg_time (gi_UpdatedAt v),
       gi_ClosedAt := map_option pg_time (gi_ClosedAt v)\<rparr>),
     pk_Conflict = source_key,
     pk_Replaces = (\<lambda>new r. \<not> after (gi_UpdatedAt (cx_Value r)) (gi_UpdatedAt (cx_Value new)))\<rparr>"

definition pull_kind :: "GhPullRequest page_kind" where
  "pull_kind = \<lparr>pk_Type = ''github_pull_request'',
     pk_Valid = (\<lambda>v. gp_ExternalID v > 0 \<and> \<not> is_zero (gp_CreatedAt v) \<and> gp_State v \<in> {''open'', ''closed'', ''merged''}),
     pk_Check = (\<lambda>v. True), pk_ExternalID = (\<lambda>v. format_int (gp_ExternalID v)),
     pk_ObservedAt = gp_CreatedAt, pk_Raw = gp_Raw,
     pk_Columns = (\<lambda>v. v\<lparr>gp_Raw := '''', gp_CreatedAt := pg_time (gp_CreatedAt v), gp_ReadyAt := map_option pg_time (gp_ReadyAt v),
       gp_MergedAt := map_option pg_time (gp_MergedAt v)\<rparr>),
     pk_Conflict = source_key, pk_Replaces = (\<lambda>new r. True)\<rparr>"

definition release_kind :: "gotime \<Rightarrow> GhRelease page_kind" where
  "release_kind coverageTo = \<lparr>pk_Type = ''github_release'',
     pk_Valid = (\<lambda>v. gl_ExternalID v > 0 \<and> trim_space (gl_Tag v) \<noteq> ''''), pk_Check = (\<lambda>v. True),
     pk_ExternalID = (\<lambda>v. format_int (gl_ExternalID v)),
     pk_ObservedAt = (\<lambda>v. case gl_PublishedAt v of None \<Rightarrow> coverageTo | Some t \<Rightarrow> t), pk_Raw = gl_Raw,
     pk_Columns = (\<lambda>v. v\<lparr>gl_Raw := '''', gl_PublishedAt := map_option pg_time (gl_PublishedAt v)\<rparr>),
     pk_Conflict = source_key, pk_Replaces = (\<lambda>new r. True)\<rparr>"

definition commit_kind :: "GhCommit page_kind" where
  "commit_kind = \<lparr>pk_Type = ''github_commit'',
     pk_Valid = (\<lambda>v. trim_space (go_ExternalID v) \<noteq> '''' \<and> trim_space (go_SHA v) \<noteq> '''' \<and> \<not> is_zero (go_CommittedAt v)),
     pk_Check = (\<lambda>v. True), pk_ExternalID = go_ExternalID, pk_ObservedAt = go_CommittedAt, pk_Raw = go_Raw,
     pk_Columns = (\<lambda>v. v\<lparr>go_ExternalID := '''', go_Raw := '''', go_CommittedAt := pg_time (go_CommittedAt v)\<rparr>),
     pk_Conflict = (\<lambda>new r. cx_RepositoryID r = cx_RepositoryID new \<and> go_SHA (cx_Value r) = go_SHA (cx_Value new)),
     pk_Replaces = (\<lambda>new r. True)\<rparr>"

definition CommitGitHubIssues :: "page_lib \<Rightarrow> page_id \<Rightarrow> GhIssue list \<Rightarrow> gotime \<Rightarrow> int64 list \<Rightarrow> ingest_db \<Rightarrow> ingest_error + ingest_db" where
  "CommitGitHubIssues lib g vs now ids db =
     (if pi_Project g \<le> 0 \<or> pi_Repository g \<le> 0 \<or> pi_Source g \<le> 0 \<or> pi_Next g = '''' then Inl IngIdentity
      else bindE (commit_items lib db issue_kind (pi_Project g) (pi_Repository g) (pi_Source g) vs (ig_Raw db, ig_Issues db, ids))
        (\<lambda>(raws, rows, ids'). finishPage (db\<lparr>ig_Raw := raws, ig_Issues := rows\<rparr>) ids' (pi_Project g) (pi_Source g) ''github_issues''
          (pi_Next g) (pi_From g) (pi_To g) now))"

definition CommitGitHubPullRequests :: "page_lib \<Rightarrow> page_id \<Rightarrow> GhPullRequest list \<Rightarrow> gotime \<Rightarrow> int64 list \<Rightarrow> ingest_db \<Rightarrow> ingest_error + ingest_db" where
  "CommitGitHubPullRequests lib g vs now ids db =
     (if \<not> validPageIdentity (pi_Project g) (pi_Repository g) (pi_Source g) (pi_Next g) then Inl IngIdentity
      else bindE (commit_items lib db pull_kind (pi_Project g) (pi_Repository g) (pi_Source g) vs (ig_Raw db, ig_Pulls db, ids))
        (\<lambda>(raws, rows, ids'). finishPage (db\<lparr>ig_Raw := raws, ig_Pulls := rows\<rparr>) ids' (pi_Project g) (pi_Source g) ''github_pull_requests''
          (pi_Next g) (pi_From g) (pi_To g) now))"

definition CommitGitHubReleases :: "page_lib \<Rightarrow> page_id \<Rightarrow> GhRelease list \<Rightarrow> gotime \<Rightarrow> int64 list \<Rightarrow> ingest_db \<Rightarrow> ingest_error + ingest_db" where
  "CommitGitHubReleases lib g vs now ids db =
     (if \<not> validPageIdentity (pi_Project g) (pi_Repository g) (pi_Source g) (pi_Next g) then Inl IngIdentity
      else bindE (commit_items lib db (release_kind (pi_To g)) (pi_Project g) (pi_Repository g) (pi_Source g) vs (ig_Raw db, ig_Releases db, ids))
        (\<lambda>(raws, rows, ids'). finishPage (db\<lparr>ig_Raw := raws, ig_Releases := rows\<rparr>) ids' (pi_Project g) (pi_Source g) ''github_releases''
          (pi_Next g) (pi_From g) (pi_To g) now))"

definition CommitGitHubCommits :: "page_lib \<Rightarrow> page_id \<Rightarrow> GhCommit list \<Rightarrow> gotime \<Rightarrow> int64 list \<Rightarrow> ingest_db \<Rightarrow> ingest_error + ingest_db" where
  "CommitGitHubCommits lib g vs now ids db =
     (if \<not> validPageIdentity (pi_Project g) (pi_Repository g) (pi_Source g) (pi_Next g) then Inl IngIdentity
      else bindE (commit_items lib db commit_kind (pi_Project g) (pi_Repository g) (pi_Source g) vs (ig_Raw db, ig_Commits db, ids))
        (\<lambda>(raws, rows, ids'). finishPage (db\<lparr>ig_Raw := raws, ig_Commits := rows\<rparr>) ids' (pi_Project g) (pi_Source g) ''github_commits''
          (pi_Next g) (pi_From g) (pi_To g) now))"

section \<open>Provenance\<close>

text \<open>
  What a page brings for a payload row: the type, the external identifier and the bytes of each item. The column
  \<open>payload\<close> is \<open>jsonb\<close>, so a payload row keeps the bytes only in the form the column renders them in, while its
  digest is that of the bytes themselves. \<open>raw_sig\<close> is what identifies a stored payload. A canonical row is \<^emph>\<open>traced\<close> when its columns are those of one of the
  given items and it cites a payload stored for that item.
\<close>

definition raw_sig :: "raw_row \<Rightarrow> int64 \<times> string \<times> string \<times> string" where
  "raw_sig r = (iw_ID r, iw_Type r, iw_ExternalID r, iw_Digest r)"

definition traced :: "(string \<Rightarrow> string) \<Rightarrow> 'v page_kind \<Rightarrow> 'v set \<Rightarrow> raw_row list \<Rightarrow> 'v canonical_row \<Rightarrow> bool" where
  "traced sha k V raws c \<longleftrightarrow> (\<exists>v \<in> V. cx_Value c = pk_Columns k v \<and> cx_ExternalID c = pk_ExternalID k v \<and>
     (cx_RawID c, pk_Type k, pk_ExternalID k v, sha (pk_Raw k v)) \<in> set (map raw_sig raws))"

definition table_traced :: "(string \<Rightarrow> string) \<Rightarrow> 'v page_kind \<Rightarrow> 'v set \<Rightarrow> raw_row list \<Rightarrow> 'v canonical_row list \<Rightarrow> bool" where
  "table_traced sha k V raws rows \<longleftrightarrow> distinct (map cx_ID rows) \<and> list_all (traced sha k V raws) rows"

definition received :: "'v page_kind \<Rightarrow> 'v set \<Rightarrow> (string \<times> string \<times> string) set" where
  "received k V = (\<lambda>v. (pk_Type k, pk_ExternalID k v, pk_Raw k v)) ` V"

definition raw_traced :: "page_lib \<Rightarrow> (string \<times> string \<times> string) set \<Rightarrow> raw_row \<Rightarrow> bool" where
  "raw_traced lib R r \<longleftrightarrow> (\<exists>(ty, ext, raw) \<in> R. iw_Type r = ty \<and> iw_ExternalID r = ext \<and>
     iw_Digest r = pl_Sha lib raw \<and> pl_Jsonb lib raw = Some (iw_Payload r))"

definition raw_ok :: "page_lib \<Rightarrow> (string \<times> string \<times> string) set \<Rightarrow> raw_row list \<Rightarrow> bool" where
  "raw_ok lib R raws \<longleftrightarrow> distinct (map iw_ID raws) \<and> list_all (raw_traced lib R) raws"

lemma raw_traced_observed [simp]: "raw_traced lib R (q\<lparr>iw_ObservedAt := t\<rparr>) = raw_traced lib R q"
  by (simp add: raw_traced_def)

lemma raw_sig_observed [simp]: "raw_sig (q\<lparr>iw_ObservedAt := t\<rparr>) = raw_sig q"
  by (simp add: raw_sig_def)

lemma retainRaw_effect:
  assumes "retainRaw lib db p s ty ext observed raw rows ids = Inr (rows', i, rest)" "raw_ok lib R rows" "(ty, ext, raw) \<in> R"
  shows "raw_ok lib R rows' \<and> set (map raw_sig rows) \<subseteq> set (map raw_sig rows') \<and>
    (i, ty, ext, pl_Sha lib raw) \<in> set (map raw_sig rows')"
proof (cases "find (same_raw s ty ext (pl_Sha lib raw)) rows")
  case None
  obtain i' rest' where ids: "ids = i' # rest'" using assms(1) by (cases ids) (auto simp: retainRaw_def)
  with assms(1) None obtain form where form: "pl_Jsonb lib raw = Some form" and new: "i' \<notin> iw_ID ` set rows" "i = i'"
    "rows' = rows @ [\<lparr>iw_ID = i', iw_ProjectID = p, iw_SourceID = s, iw_Type = ty, iw_ExternalID = ext,
      iw_ObservedAt = pg_time observed, iw_Payload = form, iw_Digest = pl_Sha lib raw\<rparr>]"
    by (auto simp: retainRaw_def split: if_splits)
  have "raw_traced lib R (last rows')" using assms(3) form by (auto simp: raw_traced_def new intro!: bexI [of _ "(ty, ext, raw)"])
  then show ?thesis using assms(2) new by (auto simp: raw_ok_def raw_sig_def image_iff)
next
  case (Some r)
  then have r: "r \<in> set rows" "same_raw s ty ext (pl_Sha lib raw) r" by (auto simp: find_Some_iff)
  have rows': "rows' = map (\<lambda>q. if same_raw s ty ext (pl_Sha lib raw) q
      then q\<lparr>iw_ObservedAt := earliest (Some (iw_ObservedAt q)) (pg_time observed)\<rparr> else q) rows" and i: "i = iw_ID r"
    using assms(1) Some by (auto simp: retainRaw_def split: list.splits if_splits)
  have sig: "map raw_sig rows' = map raw_sig rows" "map iw_ID rows' = map iw_ID rows" by (auto simp: rows')
  have "(i, ty, ext, pl_Sha lib raw) \<in> set (map raw_sig rows)"
    using r i by (auto simp: raw_sig_def same_raw_def image_iff intro!: bexI [of _ r])
  moreover have "list_all (raw_traced lib R) rows'"
    using assms(2) by (auto simp: rows' raw_ok_def list_all_iff)
  ultimately show ?thesis using assms(2) sig by (simp add: raw_ok_def)
qed

lemma table_traced_more: "table_traced sha k V raws rows \<Longrightarrow> set (map raw_sig raws) \<subseteq> set (map raw_sig raws') \<Longrightarrow> table_traced sha k V raws' rows"
  by (auto simp: table_traced_def traced_def list_all_iff subset_iff) blast

lemma upsert_row_traced:
  assumes "upsert_row k new rows = Inr rows'" "table_traced sha k V raws rows" "traced sha k V raws new"
  shows "table_traced sha k V raws rows'"
proof (cases "find (pk_Conflict k new) rows")
  case None
  then show ?thesis using assms by (auto simp: upsert_row_def table_traced_def image_iff split: if_splits)
next
  case (Some old)
  then have rows': "rows' = map (\<lambda>r. if pk_Conflict k new r \<and> pk_Replaces k new r then replace_row new r else r) rows"
    using assms(1) by (auto simp: upsert_row_def split: if_splits)
  have ids: "map cx_ID rows' = map cx_ID rows" by (auto simp: rows' replace_row_def)
  have "traced sha k V raws (replace_row new r)" for r using assms(3) by (simp add: traced_def replace_row_def)
  then have "list_all (traced sha k V raws) rows'" using assms(2) by (auto simp: rows' table_traced_def list_all_iff)
  then show ?thesis using assms(2) ids by (simp add: table_traced_def)
qed

lemma commit_item_traced:
  assumes "commit_item lib db k p r s v (raws, rows, ids) = Inr (raws', rows', ids')" "raw_ok lib R raws"
    "table_traced (pl_Sha lib) k V raws rows" "v \<in> V" "received k V \<subseteq> R"
  shows "raw_ok lib R raws' \<and> set (map raw_sig raws) \<subseteq> set (map raw_sig raws') \<and> table_traced (pl_Sha lib) k V raws' rows'"
proof -
  obtain rawID i where raw: "retainRaw lib db p s (pk_Type k) (pk_ExternalID k v) (pk_ObservedAt k v) (pk_Raw k v) raws ids = Inr (raws', rawID, i # ids')"
    and up: "upsert_row k (item_row k i p r s v rawID) rows = Inr rows'"
  proof (cases "retainRaw lib db p s (pk_Type k) (pk_ExternalID k v) (pk_ObservedAt k v) (pk_Raw k v) raws ids")
    case (Inl e)
    with assms(1) show thesis by (simp add: commit_item_def split: if_splits)
  next
    case (Inr t)
    obtain q rawID ids1 where t: "t = (q, rawID, ids1)" by (rule prod_cases3)
    from assms(1) Inr t obtain i rest where "ids1 = i # rest" by (cases ids1) (auto simp: commit_item_def split: if_splits)
    with assms(1) Inr t that show thesis by (auto simp: commit_item_def result_simps split: if_splits)
  qed
  have R: "(pk_Type k, pk_ExternalID k v, pk_Raw k v) \<in> R" using assms(4,5) by (auto simp: received_def)
  note e = retainRaw_effect [OF raw assms(2) R]
  have "traced (pl_Sha lib) k V raws' (item_row k i p r s v rawID)"
    using e assms(4) by (auto simp: traced_def item_row_def intro!: bexI [of _ v])
  then have "table_traced (pl_Sha lib) k V raws' rows'"
    using upsert_row_traced [OF up] table_traced_more [OF assms(3)] e by blast
  with e show ?thesis by blast
qed

lemma commit_items_traced:
  assumes "commit_items lib db k p r s vs (raws, rows, ids) = Inr (raws', rows', ids')" "raw_ok lib R raws"
    "table_traced (pl_Sha lib) k V raws rows" "set vs \<subseteq> V" "received k V \<subseteq> R"
  shows "raw_ok lib R raws' \<and> set (map raw_sig raws) \<subseteq> set (map raw_sig raws') \<and> table_traced (pl_Sha lib) k V raws' rows'"
  using assms
proof (induction vs arbitrary: raws rows ids)
  case (Cons v vs)
  then obtain raws1 rows1 ids1 where one: "commit_item lib db k p r s v (raws, rows, ids) = Inr (raws1, rows1, ids1)"
    and rest: "commit_items lib db k p r s vs (raws1, rows1, ids1) = Inr (raws', rows', ids')"
    by (auto simp: result_simps)
  have v: "v \<in> V" using Cons.prems(4) by simp
  note e = commit_item_traced [OF one Cons.prems(2,3) v Cons.prems(5)]
  have vs: "set vs \<subseteq> V" using Cons.prems(4) by simp
  note f = Cons.IH [OF rest conjunct1 [OF e] conjunct2 [OF conjunct2 [OF e]] vs Cons.prems(5)]
  show ?case using f subset_trans [OF conjunct1 [OF conjunct2 [OF e]] conjunct1 [OF conjunct2 [OF f]]] by blast
qed auto

section \<open>Histories\<close>

datatype ingest_op =
    DoIssues page_id "GhIssue list" gotime "int64 list"
  | DoPulls page_id "GhPullRequest list" gotime "int64 list"
  | DoReleases page_id "GhRelease list" gotime "int64 list"
  | DoCommits page_id "GhCommit list" gotime "int64 list"

fun apply_ingest :: "page_lib \<Rightarrow> ingest_op \<Rightarrow> ingest_db \<Rightarrow> ingest_error + ingest_db" where
  "apply_ingest lib (DoIssues g vs now ids) db = CommitGitHubIssues lib g vs now ids db"
| "apply_ingest lib (DoPulls g vs now ids) db = CommitGitHubPullRequests lib g vs now ids db"
| "apply_ingest lib (DoReleases g vs now ids) db = CommitGitHubReleases lib g vs now ids db"
| "apply_ingest lib (DoCommits g vs now ids) db = CommitGitHubCommits lib g vs now ids db"

fun op_issues :: "ingest_op \<Rightarrow> GhIssue list" where
  "op_issues (DoIssues g vs now ids) = vs"
| "op_issues _ = []"

fun op_pulls :: "ingest_op \<Rightarrow> GhPullRequest list" where
  "op_pulls (DoPulls g vs now ids) = vs"
| "op_pulls _ = []"

fun op_releases :: "ingest_op \<Rightarrow> GhRelease list" where
  "op_releases (DoReleases g vs now ids) = vs"
| "op_releases _ = []"

fun op_commits :: "ingest_op \<Rightarrow> GhCommit list" where
  "op_commits (DoCommits g vs now ids) = vs"
| "op_commits _ = []"

definition op_items :: "ingest_op \<Rightarrow> (string \<times> string \<times> string) set" where
  "op_items a = received issue_kind (set (op_issues a)) \<union> received pull_kind (set (op_pulls a)) \<union>
     received (release_kind zero_time) (set (op_releases a)) \<union> received commit_kind (set (op_commits a))"

definition ingest_ok :: "page_lib \<Rightarrow> ingest_op set \<Rightarrow> ingest_db \<Rightarrow> bool" where
  "ingest_ok lib A db \<longleftrightarrow> raw_ok lib (\<Union>a \<in> A. op_items a) (ig_Raw db) \<and>
     table_traced (pl_Sha lib) issue_kind (\<Union>a \<in> A. set (op_issues a)) (ig_Raw db) (ig_Issues db) \<and>
     table_traced (pl_Sha lib) pull_kind (\<Union>a \<in> A. set (op_pulls a)) (ig_Raw db) (ig_Pulls db) \<and>
     table_traced (pl_Sha lib) (release_kind zero_time) (\<Union>a \<in> A. set (op_releases a)) (ig_Raw db) (ig_Releases db) \<and>
     table_traced (pl_Sha lib) commit_kind (\<Union>a \<in> A. set (op_commits a)) (ig_Raw db) (ig_Commits db)"

lemma traced_release: "table_traced sha (release_kind t) V raws rows = table_traced sha (release_kind zero_time) V raws rows"
  by (simp add: table_traced_def traced_def [abs_def] release_kind_def)

lemma received_release: "received (release_kind t) V = received (release_kind zero_time) V"
  by (simp add: received_def release_kind_def)

lemma received_items:
  "received issue_kind (\<Union>a \<in> A. set (op_issues a)) \<subseteq> (\<Union>a \<in> A. op_items a)"
  "received pull_kind (\<Union>a \<in> A. set (op_pulls a)) \<subseteq> (\<Union>a \<in> A. op_items a)"
  "received (release_kind t) (\<Union>a \<in> A. set (op_releases a)) \<subseteq> (\<Union>a \<in> A. op_items a)"
  "received commit_kind (\<Union>a \<in> A. set (op_commits a)) \<subseteq> (\<Union>a \<in> A. op_items a)"
  unfolding received_release [of t] by (force simp: op_items_def received_def)+

lemma finishPage_tables:
  assumes "finishPage db ids p s scope cursor from to now = Inr db'"
  shows "ig_Raw db' = ig_Raw db \<and> ig_Issues db' = ig_Issues db \<and> ig_Pulls db' = ig_Pulls db \<and> ig_Releases db' = ig_Releases db \<and>
    ig_Commits db' = ig_Commits db \<and> ig_Sources db' = cover_source p s from to now (ig_Sources db)"
  using assms by (auto simp: finishPage_def split: list.splits if_splits)

lemmas commit_defs = CommitGitHubIssues_def CommitGitHubPullRequests_def CommitGitHubReleases_def CommitGitHubCommits_def

lemma committed_page_traced:
  assumes "bindE (commit_items lib db k p r s vs (raws, rows, ids)) (\<lambda>(raws, rows, ids'). f raws rows ids') = Inr (db' :: ingest_db)"
    "raw_ok lib R raws" "table_traced (pl_Sha lib) k V raws rows" "set vs \<subseteq> V" "received k V \<subseteq> R"
  obtains raws' rows' ids' where "f raws' rows' ids' = Inr db'" "raw_ok lib R raws'"
    "set (map raw_sig raws) \<subseteq> set (map raw_sig raws')" "table_traced (pl_Sha lib) k V raws' rows'"
proof -
  obtain raws' rows' ids' where c: "commit_items lib db k p r s vs (raws, rows, ids) = Inr (raws', rows', ids')" and f: "f raws' rows' ids' = Inr db'"
    using assms(1) unfolding bindE_Inr_iff by (metis (no_types, lifting) case_prod_conv prod.collapse)
  show thesis using commit_items_traced [OF c assms(2-5)] that [OF f] by blast
qed

interpretation ingestion: preserving "\<lambda>a db. if a \<in> A then apply_ingest lib a db else Inl IngIdentity" "ingest_ok lib A" for lib A
proof
  fix db db' a
  assume ok: "ingest_ok lib A db" and step: "(if a \<in> A then apply_ingest lib a db else Inl IngIdentity) = Inr db'"
  then have a: "a \<in> A" and run: "apply_ingest lib a db = Inr db'" by (auto split: if_splits)
  have o: "raw_ok lib (\<Union>a \<in> A. op_items a) (ig_Raw db)" "table_traced (pl_Sha lib) issue_kind (\<Union>a \<in> A. set (op_issues a)) (ig_Raw db) (ig_Issues db)"
    "table_traced (pl_Sha lib) pull_kind (\<Union>a \<in> A. set (op_pulls a)) (ig_Raw db) (ig_Pulls db)"
    "table_traced (pl_Sha lib) (release_kind zero_time) (\<Union>a \<in> A. set (op_releases a)) (ig_Raw db) (ig_Releases db)"
    "table_traced (pl_Sha lib) commit_kind (\<Union>a \<in> A. set (op_commits a)) (ig_Raw db) (ig_Commits db)"
    using ok by (simp_all add: ingest_ok_def)
  show "ingest_ok lib A db'"
  proof (cases a)
    case (DoIssues g vs now ids)
    with a have V: "set vs \<subseteq> (\<Union>a \<in> A. set (op_issues a))" by force
    from run DoIssues have c: "bindE (commit_items lib db issue_kind (pi_Project g) (pi_Repository g) (pi_Source g) vs (ig_Raw db, ig_Issues db, ids))
        (\<lambda>(raws, rows, ids'). finishPage (db\<lparr>ig_Raw := raws, ig_Issues := rows\<rparr>) ids' (pi_Project g) (pi_Source g) ''github_issues''
          (pi_Next g) (pi_From g) (pi_To g) now) = Inr db'" by (simp add: CommitGitHubIssues_def split: if_splits)
    obtain raws' rows' ids' where f: "finishPage (db\<lparr>ig_Raw := raws', ig_Issues := rows'\<rparr>) ids' (pi_Project g) (pi_Source g) ''github_issues''
          (pi_Next g) (pi_From g) (pi_To g) now = Inr db'" and new: "raw_ok lib (\<Union>a \<in> A. op_items a) raws'"
        "set (map raw_sig (ig_Raw db)) \<subseteq> set (map raw_sig raws')" "table_traced (pl_Sha lib) issue_kind (\<Union>a \<in> A. set (op_issues a)) raws' rows'"
      by (rule committed_page_traced [OF c o(1) o(2) V received_items(1)])
    note keep = o(2-5) [THEN table_traced_more [OF _ new(2)]]
    show ?thesis using keep new finishPage_tables [OF f] by (auto simp: ingest_ok_def traced_release [of _ "pi_To g"])
  next
    case (DoPulls g vs now ids)
    with a have V: "set vs \<subseteq> (\<Union>a \<in> A. set (op_pulls a))" by force
    from run DoPulls have c: "bindE (commit_items lib db pull_kind (pi_Project g) (pi_Repository g) (pi_Source g) vs (ig_Raw db, ig_Pulls db, ids))
        (\<lambda>(raws, rows, ids'). finishPage (db\<lparr>ig_Raw := raws, ig_Pulls := rows\<rparr>) ids' (pi_Project g) (pi_Source g) ''github_pull_requests''
          (pi_Next g) (pi_From g) (pi_To g) now) = Inr db'" by (simp add: CommitGitHubPullRequests_def split: if_splits)
    obtain raws' rows' ids' where f: "finishPage (db\<lparr>ig_Raw := raws', ig_Pulls := rows'\<rparr>) ids' (pi_Project g) (pi_Source g) ''github_pull_requests''
          (pi_Next g) (pi_From g) (pi_To g) now = Inr db'" and new: "raw_ok lib (\<Union>a \<in> A. op_items a) raws'"
        "set (map raw_sig (ig_Raw db)) \<subseteq> set (map raw_sig raws')" "table_traced (pl_Sha lib) pull_kind (\<Union>a \<in> A. set (op_pulls a)) raws' rows'"
      by (rule committed_page_traced [OF c o(1) o(3) V received_items(2)])
    note keep = o(2-5) [THEN table_traced_more [OF _ new(2)]]
    show ?thesis using keep new finishPage_tables [OF f] by (auto simp: ingest_ok_def traced_release [of _ "pi_To g"])
  next
    case (DoReleases g vs now ids)
    with a have V: "set vs \<subseteq> (\<Union>a \<in> A. set (op_releases a))" by force
    from run DoReleases have c: "bindE (commit_items lib db (release_kind (pi_To g)) (pi_Project g) (pi_Repository g) (pi_Source g) vs (ig_Raw db, ig_Releases db, ids))
        (\<lambda>(raws, rows, ids'). finishPage (db\<lparr>ig_Raw := raws, ig_Releases := rows\<rparr>) ids' (pi_Project g) (pi_Source g) ''github_releases''
          (pi_Next g) (pi_From g) (pi_To g) now) = Inr db'" by (simp add: CommitGitHubReleases_def split: if_splits)
    obtain raws' rows' ids' where f: "finishPage (db\<lparr>ig_Raw := raws', ig_Releases := rows'\<rparr>) ids' (pi_Project g) (pi_Source g) ''github_releases''
          (pi_Next g) (pi_From g) (pi_To g) now = Inr db'" and new: "raw_ok lib (\<Union>a \<in> A. op_items a) raws'"
        "set (map raw_sig (ig_Raw db)) \<subseteq> set (map raw_sig raws')" "table_traced (pl_Sha lib) (release_kind (pi_To g)) (\<Union>a \<in> A. set (op_releases a)) raws' rows'"
      by (rule committed_page_traced [OF c o(1) iffD2 [OF traced_release o(4)] V received_items(3)])
    note keep = o(2-5) [THEN table_traced_more [OF _ new(2)]]
    show ?thesis using keep new finishPage_tables [OF f] by (auto simp: ingest_ok_def traced_release [of _ "pi_To g"])
  next
    case (DoCommits g vs now ids)
    with a have V: "set vs \<subseteq> (\<Union>a \<in> A. set (op_commits a))" by force
    from run DoCommits have c: "bindE (commit_items lib db commit_kind (pi_Project g) (pi_Repository g) (pi_Source g) vs (ig_Raw db, ig_Commits db, ids))
        (\<lambda>(raws, rows, ids'). finishPage (db\<lparr>ig_Raw := raws, ig_Commits := rows\<rparr>) ids' (pi_Project g) (pi_Source g) ''github_commits''
          (pi_Next g) (pi_From g) (pi_To g) now) = Inr db'" by (simp add: CommitGitHubCommits_def split: if_splits)
    obtain raws' rows' ids' where f: "finishPage (db\<lparr>ig_Raw := raws', ig_Commits := rows'\<rparr>) ids' (pi_Project g) (pi_Source g) ''github_commits''
          (pi_Next g) (pi_From g) (pi_To g) now = Inr db'" and new: "raw_ok lib (\<Union>a \<in> A. op_items a) raws'"
        "set (map raw_sig (ig_Raw db)) \<subseteq> set (map raw_sig raws')" "table_traced (pl_Sha lib) commit_kind (\<Union>a \<in> A. set (op_commits a)) raws' rows'"
      by (rule committed_page_traced [OF c o(1) o(5) V received_items(4)])
    note keep = o(2-5) [THEN table_traced_more [OF _ new(2)]]
    show ?thesis using keep new finishPage_tables [OF f] by (auto simp: ingest_ok_def traced_release [of _ "pi_To g"])
  qed
qed

text \<open>
  C27: Whatever pages are committed, in whatever order and however often they are refused, every stored payload comes from
  an item of one of those pages: it has its type and its external identifier, its digest is the digest of the bytes
  received, and its payload is what the \<open>jsonb\<close> column renders for those bytes. Every canonical row carries the
  columns of an item of one of those pages and cites a stored payload with the type, the external identifier and
  the digest of that item; no two stored payloads and no two rows of a table share an identifier.
\<close>
theorem ingestion_provenance:
  assumes "ig_Raw db0 = []" "ig_Issues db0 = []" "ig_Pulls db0 = []" "ig_Releases db0 = []" "ig_Commits db0 = []"
    "db = run_ops (apply_ingest lib) db0 ops"
  shows "raw_ok lib (\<Union>a \<in> set ops. op_items a) (ig_Raw db) \<and>
    table_traced (pl_Sha lib) issue_kind (set (concat (map op_issues ops))) (ig_Raw db) (ig_Issues db) \<and>
    table_traced (pl_Sha lib) pull_kind (set (concat (map op_pulls ops))) (ig_Raw db) (ig_Pulls db) \<and>
    table_traced (pl_Sha lib) (release_kind zero_time) (set (concat (map op_releases ops))) (ig_Raw db) (ig_Releases db) \<and>
    table_traced (pl_Sha lib) commit_kind (set (concat (map op_commits ops))) (ig_Raw db) (ig_Commits db)"
proof -
  have "ingest_ok lib (set ops) db0" using assms(1-5) by (simp add: ingest_ok_def raw_ok_def table_traced_def)
  then have "ingest_ok lib (set ops) (run_ops (\<lambda>a db. if a \<in> set ops then apply_ingest lib a db else Inl IngIdentity) db0 ops)"
    by (rule ingestion.run_well_formed)
  also have "run_ops (\<lambda>a db. if a \<in> set ops then apply_ingest lib a db else Inl IngIdentity) db0 ops = db"
    unfolding assms(6) by (rule run_ops_cong) auto
  finally show ?thesis by (simp add: ingest_ok_def)
qed

section \<open>Replays\<close>

text \<open>
  An item is \<^emph>\<open>settled\<close> when committing it again would change neither its payload row nor its canonical row.
\<close>

definition settled :: "page_lib \<Rightarrow> 'v page_kind \<Rightarrow> int64 \<Rightarrow> int64 \<Rightarrow> raw_row list \<Rightarrow> 'v canonical_row list \<Rightarrow> 'v \<Rightarrow> bool" where
  "settled lib k r s raws rows v \<longleftrightarrow>
     (let same = same_raw s (pk_Type k) (pk_ExternalID k v) (pl_Sha lib (pk_Raw k v)) in
      \<exists>q. find same raws = Some q \<and> (\<forall>q' \<in> set raws. same q' \<longrightarrow> \<not> after (iw_ObservedAt q') (pg_time (pk_ObservedAt k v))) \<and>
        (let new = (\<lambda>i p. item_row k i p r s v (iw_ID q)) in
         \<forall>i p. find (pk_Conflict k (new i p)) rows \<noteq> None \<and>
           (\<forall>c \<in> set rows. pk_Conflict k (new i p) c \<longrightarrow> pk_Replaces k (new i p) c \<longrightarrow> replace_row (new i p) c = c)))"

lemma map_unchanged: "(\<And>x. x \<in> set xs \<Longrightarrow> f x = x) \<Longrightarrow> map f xs = xs"
  by (induction xs) auto

lemma settled_item:
  assumes "settled lib k r s raws rows v" "commit_item lib db k p r s v (raws, rows, ids) = Inr (raws', rows', ids')"
  shows "raws' = raws \<and> rows' = rows"
proof -
  define same where "same = same_raw s (pk_Type k) (pk_ExternalID k v) (pl_Sha lib (pk_Raw k v))"
  obtain q where q: "find same raws = Some q" and old: "\<And>q'. q' \<in> set raws \<Longrightarrow> same q' \<Longrightarrow> \<not> after (iw_ObservedAt q') (pg_time (pk_ObservedAt k v))"
    and here: "\<And>i p. find (pk_Conflict k (item_row k i p r s v (iw_ID q))) rows \<noteq> None"
    and kept: "\<And>i p c. c \<in> set rows \<Longrightarrow> pk_Conflict k (item_row k i p r s v (iw_ID q)) c \<Longrightarrow>
         pk_Replaces k (item_row k i p r s v (iw_ID q)) c \<Longrightarrow>
         replace_row (item_row k i p r s v (iw_ID q)) c = c"
    using assms(1) unfolding settled_def Let_def same_def by blast
  show ?thesis
  proof (cases "retainRaw lib db p s (pk_Type k) (pk_ExternalID k v) (pk_ObservedAt k v) (pk_Raw k v) raws ids")
    case (Inl e)
    with assms(2) show ?thesis by (simp add: commit_item_def split: if_splits)
  next
    case (Inr t)
    obtain raws1 rawID ids1 where t: "t = (raws1, rawID, ids1)" by (rule prod_cases3)
    have raw: "raws1 = map (\<lambda>q. if same q then q\<lparr>iw_ObservedAt := earliest (Some (iw_ObservedAt q)) (pg_time (pk_ObservedAt k v))\<rparr> else q) raws"
      and id: "rawID = iw_ID q"
      using Inr q by (auto simp: t retainRaw_def same_def split: list.splits if_splits)
    have raws1: "raws1 = raws" unfolding raw by (rule map_unchanged) (auto simp: earliest_def dest: old)
    from assms(2) Inr t obtain i rest where ids1: "ids1 = i # rest" by (cases ids1) (auto simp: commit_item_def split: if_splits)
    have "upsert_row k (item_row k i p r s v (iw_ID q)) rows = Inr rows'" "raws' = raws1"
      using assms(2) Inr t ids1 id by (auto simp: commit_item_def result_simps split: if_splits)
    with here [of i p] have "rows' = rows" by (auto simp: upsert_row_def kept intro!: map_unchanged split: if_splits option.splits)
    with raws1 \<open>raws' = raws1\<close> show ?thesis by simp
  qed
qed

lemma settled_items:
  "commit_items lib db k p r s vs (raws, rows, ids) = Inr (raws', rows', ids') \<Longrightarrow> list_all (settled lib k r s raws rows) vs \<Longrightarrow>
   raws' = raws \<and> rows' = rows"
proof (induction vs arbitrary: ids)
  case (Cons v vs)
  obtain t where one: "commit_item lib db k p r s v (raws, rows, ids) = Inr t" and rest: "commit_items lib db k p r s vs t = Inr (raws', rows', ids')"
    using Cons.prems(1) by (auto simp: result_simps)
  obtain a b c where t: "t = (a, b, c)" by (rule prod_cases3)
  have "a = raws \<and> b = rows" by (rule settled_item) (use Cons.prems(2) one t in auto)
  with Cons.IH [of c] rest t Cons.prems(2) show ?case by simp
qed simp

text \<open>
  What a canonical table promises: the unique key of a row is a function of the item it is written for, in the
  repository and source of the page, and neither the identifier, the project nor the payload it cites matters.
\<close>

lemma earliest_not_after: "\<not> after (earliest t u) u"
  by (auto simp: earliest_def after_def split: option.split)

locale page_table =
  fixes k :: "'v page_kind" and key :: "'v \<Rightarrow> string"
  assumes conflict_item: "pk_Conflict k (item_row k i p r s v w) c \<longleftrightarrow> pk_Conflict k (item_row k i' p' r s v w') c"
    and conflict_self: "pk_Conflict k (item_row k i p r s v w) (item_row k i' p' r s v w')"
    and conflict_replaced: "pk_Conflict k (item_row k i p r s v w) c \<Longrightarrow> pk_Conflict k (item_row k i p r s v w) (replace_row (item_row k i p r s v w) c)"
    and conflict_key: "pk_Conflict k (item_row k i p r s v w) c \<Longrightarrow> pk_Conflict k (item_row k i' p' r s v' w') c \<Longrightarrow> key v = key v'"
    and replaces_item: "pk_Replaces k (item_row k i p r s v w) c \<longleftrightarrow> pk_Replaces k (item_row k i' p' r s v w') c"
begin

lemma committed_item:
  assumes "commit_item lib db k p r s v (raws, rows, ids) = Inr (raws', rows', ids')"
  obtains i rawID where "raws' = (if find (same_raw s (pk_Type k) (pk_ExternalID k v) (pl_Sha lib (pk_Raw k v))) raws = None
       then raws @ [\<lparr>iw_ID = rawID, iw_ProjectID = p, iw_SourceID = s, iw_Type = pk_Type k, iw_ExternalID = pk_ExternalID k v,
         iw_ObservedAt = pg_time (pk_ObservedAt k v), iw_Payload = the (pl_Jsonb lib (pk_Raw k v)), iw_Digest = pl_Sha lib (pk_Raw k v)\<rparr>]
       else map (\<lambda>q. if same_raw s (pk_Type k) (pk_ExternalID k v) (pl_Sha lib (pk_Raw k v)) q
         then q\<lparr>iw_ObservedAt := earliest (Some (iw_ObservedAt q)) (pg_time (pk_ObservedAt k v))\<rparr> else q) raws)"
    "\<exists>q. find (same_raw s (pk_Type k) (pk_ExternalID k v) (pl_Sha lib (pk_Raw k v))) raws' = Some q \<and> iw_ID q = rawID"
    "rows' = (if find (pk_Conflict k (item_row k i p r s v rawID)) rows = None then rows @ [item_row k i p r s v rawID]
       else map (\<lambda>c. if pk_Conflict k (item_row k i p r s v rawID) c \<and> pk_Replaces k (item_row k i p r s v rawID) c
         then replace_row (item_row k i p r s v rawID) c else c) rows)"
proof -
  let ?same = "same_raw s (pk_Type k) (pk_ExternalID k v) (pl_Sha lib (pk_Raw k v))"
  obtain rawID ids1 i where raw: "retainRaw lib db p s (pk_Type k) (pk_ExternalID k v) (pk_ObservedAt k v) (pk_Raw k v) raws ids = Inr (raws', rawID, ids1)"
    and up: "upsert_row k (item_row k i p r s v rawID) rows = Inr rows'"
    using assms by (auto simp: commit_item_def bindE_def split: if_splits sum.splits list.splits)
  have r: "raws' = (if find ?same raws = None
       then raws @ [\<lparr>iw_ID = rawID, iw_ProjectID = p, iw_SourceID = s, iw_Type = pk_Type k, iw_ExternalID = pk_ExternalID k v,
         iw_ObservedAt = pg_time (pk_ObservedAt k v), iw_Payload = the (pl_Jsonb lib (pk_Raw k v)), iw_Digest = pl_Sha lib (pk_Raw k v)\<rparr>]
       else map (\<lambda>q. if ?same q then q\<lparr>iw_ObservedAt := earliest (Some (iw_ObservedAt q)) (pg_time (pk_ObservedAt k v))\<rparr> else q) raws)"
    and id: "find ?same raws \<noteq> None \<Longrightarrow> rawID = iw_ID (the (find ?same raws))"
    using raw by (auto simp: retainRaw_def split: list.splits if_splits option.splits)
  have same_upd: "?same (q\<lparr>iw_ObservedAt := t\<rparr>) = ?same q" for q t by (simp add: same_raw_def)
  have find_upd: "find ?same (map (\<lambda>q. if ?same q then q\<lparr>iw_ObservedAt := f q\<rparr> else q) xs) = map_option (\<lambda>q. q\<lparr>iw_ObservedAt := f q\<rparr>) (find ?same xs)"
    for xs f by (induction xs) (auto simp: same_upd)
  have q: "\<exists>q. find ?same raws' = Some q \<and> iw_ID q = rawID"
  proof (cases "find ?same raws")
    case None
    then show ?thesis using r by (simp add: find_append) (simp add: same_raw_def)
  next
    case (Some a)
    then show ?thesis using r id by (simp add: find_upd)
  qed
  from up have "rows' = (if find (pk_Conflict k (item_row k i p r s v rawID)) rows = None then rows @ [item_row k i p r s v rawID]
       else map (\<lambda>c. if pk_Conflict k (item_row k i p r s v rawID) c \<and> pk_Replaces k (item_row k i p r s v rawID) c
         then replace_row (item_row k i p r s v rawID) c else c) rows)"
    by (auto simp: upsert_row_def split: if_splits option.splits)
  with r q that show thesis by blast
qed

lemma item_settles:
  assumes "commit_item lib db k p r s v (raws, rows, ids) = Inr (raws', rows', ids')"
  shows "settled lib k r s raws' rows' v"
proof -
  let ?same = "same_raw s (pk_Type k) (pk_ExternalID k v) (pl_Sha lib (pk_Raw k v))"
  obtain i rawID where raws': "raws' = (if find ?same raws = None
       then raws @ [\<lparr>iw_ID = rawID, iw_ProjectID = p, iw_SourceID = s, iw_Type = pk_Type k, iw_ExternalID = pk_ExternalID k v,
         iw_ObservedAt = pg_time (pk_ObservedAt k v), iw_Payload = the (pl_Jsonb lib (pk_Raw k v)), iw_Digest = pl_Sha lib (pk_Raw k v)\<rparr>]
       else map (\<lambda>q. if ?same q then q\<lparr>iw_ObservedAt := earliest (Some (iw_ObservedAt q)) (pg_time (pk_ObservedAt k v))\<rparr> else q) raws)"
    and q: "\<exists>q. find ?same raws' = Some q \<and> iw_ID q = rawID"
    and rows': "rows' = (if find (pk_Conflict k (item_row k i p r s v rawID)) rows = None then rows @ [item_row k i p r s v rawID]
       else map (\<lambda>c. if pk_Conflict k (item_row k i p r s v rawID) c \<and> pk_Replaces k (item_row k i p r s v rawID) c
         then replace_row (item_row k i p r s v rawID) c else c) rows)"
    by (rule committed_item [OF assms])
  let ?new = "item_row k i p r s v rawID"
  have old: "\<forall>q \<in> set raws'. ?same q \<longrightarrow> \<not> after (iw_ObservedAt q) (pg_time (pk_ObservedAt k v))"
    unfolding raws' by (auto simp: find_None_iff earliest_not_after) (simp add: after_def)
  have swap: "pk_Conflict k (item_row k i' p' r s v rawID) = pk_Conflict k ?new" "pk_Replaces k (item_row k i' p' r s v rawID) = pk_Replaces k ?new"
    for i' p' by (intro ext conflict_item) (intro ext replaces_item)
  have again: "replace_row (item_row k i' p' r s v rawID) (replace_row ?new c) = replace_row ?new c"
      "replace_row (item_row k i' p' r s v rawID) ?new = ?new" for i' p' c
    by (simp_all add: replace_row_def item_row_def)
  have found: "find (pk_Conflict k ?new) rows' \<noteq> None"
  proof (cases "find (pk_Conflict k ?new) rows")
    case None
    then show ?thesis by (simp add: rows' find_append conflict_self)
  next
    case (Some c)
    then have c: "c \<in> set rows" "pk_Conflict k ?new c" by (auto simp: find_Some_iff)
    with Some conflict_replaced [OF c(2)] show ?thesis unfolding rows' by (auto simp: find_None_iff intro!: bexI [OF _ c(1)])
  qed
  have fixed: "replace_row (item_row k i' p' r s v rawID) c = c" if "c \<in> set rows'" "pk_Conflict k ?new c" "pk_Replaces k ?new c" for c i' p'
    using that unfolding rows' by (auto simp: again find_None_iff split: if_splits)
  have "\<forall>i' p'. find (pk_Conflict k (item_row k i' p' r s v rawID)) rows' \<noteq> None \<and>
     (\<forall>c \<in> set rows'. pk_Conflict k (item_row k i' p' r s v rawID) c \<longrightarrow> pk_Replaces k (item_row k i' p' r s v rawID) c \<longrightarrow>
        replace_row (item_row k i' p' r s v rawID) c = c)"
  proof (intro allI conjI ballI impI)
    fix i' p'
    show "find (pk_Conflict k (item_row k i' p' r s v rawID)) rows' \<noteq> None" using found by (simp only: swap(1) [of i' p'] not_False_eq_True)
    fix c assume "c \<in> set rows'" "pk_Conflict k (item_row k i' p' r s v rawID) c" "pk_Replaces k (item_row k i' p' r s v rawID) c"
    then show "replace_row (item_row k i' p' r s v rawID) c = c" using fixed unfolding swap [of i' p'] by blast
  qed
  moreover obtain q' where "find ?same raws' = Some q'" "iw_ID q' = rawID" using q by blast
  ultimately show ?thesis using old unfolding settled_def Let_def by (intro exI [of _ q']) auto
qed

lemma item_keeps:
  assumes "commit_item lib db k p r s v (raws, rows, ids) = Inr (raws', rows', ids')" "settled lib k r s raws rows w"
    "key v \<noteq> key w" "pk_ExternalID k v \<noteq> pk_ExternalID k w"
  shows "settled lib k r s raws' rows' w"
proof -
  let ?same = "\<lambda>v. same_raw s (pk_Type k) (pk_ExternalID k v) (pl_Sha lib (pk_Raw k v))"
  obtain i rawID where raws': "raws' = (if find (?same v) raws = None
       then raws @ [\<lparr>iw_ID = rawID, iw_ProjectID = p, iw_SourceID = s, iw_Type = pk_Type k, iw_ExternalID = pk_ExternalID k v,
         iw_ObservedAt = pg_time (pk_ObservedAt k v), iw_Payload = the (pl_Jsonb lib (pk_Raw k v)), iw_Digest = pl_Sha lib (pk_Raw k v)\<rparr>]
       else map (\<lambda>q. if ?same v q then q\<lparr>iw_ObservedAt := earliest (Some (iw_ObservedAt q)) (pg_time (pk_ObservedAt k v))\<rparr> else q) raws)"
    and rows': "rows' = (if find (pk_Conflict k (item_row k i p r s v rawID)) rows = None then rows @ [item_row k i p r s v rawID]
       else map (\<lambda>c. if pk_Conflict k (item_row k i p r s v rawID) c \<and> pk_Replaces k (item_row k i p r s v rawID) c
         then replace_row (item_row k i p r s v rawID) c else c) rows)"
    by (rule committed_item [OF assms(1)])
  let ?new = "item_row k i p r s v rawID"
  have other: "\<not> ?same v q" if "?same w q" for q using that assms(4) by (simp add: same_raw_def)
  have same_w: "?same w (q\<lparr>iw_ObservedAt := t\<rparr>) = ?same w q" for q t by (simp add: same_raw_def)
  have find_w: "find (?same w) raws' = find (?same w) raws"
  proof -
    have "find (?same w) (map (\<lambda>q. if ?same v q then q\<lparr>iw_ObservedAt := f q\<rparr> else q) xs) = find (?same w) xs" for f xs
      by (induction xs) (auto simp: same_w dest: other)
    then show ?thesis unfolding raws' using assms(4) by (auto simp: find_append same_raw_def split: option.split)
  qed
  have mem_w: "q \<in> set raws" if q: "?same w q" "q \<in> set raws'" for q
  proof -
    have v: "\<not> ?same v q" by (rule other [OF q(1)])
    have "q \<noteq> u\<lparr>iw_ObservedAt := t\<rparr>" if "?same v u" for u t using v that by (auto simp: same_raw_def)
    moreover have "q \<noteq> \<lparr>iw_ID = rawID, iw_ProjectID = p, iw_SourceID = s, iw_Type = pk_Type k, iw_ExternalID = pk_ExternalID k v,
         iw_ObservedAt = pg_time (pk_ObservedAt k v), iw_Payload = the (pl_Jsonb lib (pk_Raw k v)), iw_Digest = pl_Sha lib (pk_Raw k v)\<rparr>"
      using v by (auto simp: same_raw_def)
    ultimately show ?thesis using q(2) unfolding raws' by (auto split: if_splits)
  qed
  have apart: "\<not> pk_Conflict k ?new c" if "pk_Conflict k (item_row k i' p' r s w x) c" for i' p' x c
    using conflict_key [OF _ that, of i p v rawID] assms(3) by auto
  have row_w: "c \<in> set rows" if c: "c \<in> set rows'" "pk_Conflict k (item_row k i' p' r s w x) c" for i' p' x c
  proof -
    have "\<not> pk_Conflict k ?new c" by (rule apart [OF c(2)])
    then show ?thesis using c(1) conflict_self [of i p r s v rawID i p rawID] conflict_replaced [of i p r s v rawID]
      unfolding rows' by (auto split: if_splits)
  qed
  have kept: "c \<in> set rows'" if c: "c \<in> set rows" "pk_Conflict k (item_row k i' p' r s w x) c" for i' p' x c
    using c(1) apart [OF c(2)] unfolding rows' by (auto simp: image_iff intro!: bexI [of _ c])
  have find_row: "find (pk_Conflict k (item_row k i' p' r s w x)) rows' \<noteq> None" if "find (pk_Conflict k (item_row k i' p' r s w x)) rows \<noteq> None" for i' p' x
    using that kept [of _ i' p' x] unfolding find_None_iff by blast
  obtain q where q: "find (?same w) raws = Some q" "\<forall>q' \<in> set raws. ?same w q' \<longrightarrow> \<not> after (iw_ObservedAt q') (pg_time (pk_ObservedAt k w))"
    and c: "\<And>i p. find (pk_Conflict k (item_row k i p r s w (iw_ID q))) rows \<noteq> None"
      "\<And>i p c. c \<in> set rows \<Longrightarrow> pk_Conflict k (item_row k i p r s w (iw_ID q)) c \<Longrightarrow> pk_Replaces k (item_row k i p r s w (iw_ID q)) c \<Longrightarrow>
         replace_row (item_row k i p r s w (iw_ID q)) c = c"
    using assms(2) unfolding settled_def Let_def by blast
  have "\<forall>q' \<in> set raws'. ?same w q' \<longrightarrow> \<not> after (iw_ObservedAt q') (pg_time (pk_ObservedAt k w))" using q(2) mem_w by blast
  moreover have "\<forall>i p. find (pk_Conflict k (item_row k i p r s w (iw_ID q))) rows' \<noteq> None \<and>
     (\<forall>c \<in> set rows'. pk_Conflict k (item_row k i p r s w (iw_ID q)) c \<longrightarrow> pk_Replaces k (item_row k i p r s w (iw_ID q)) c \<longrightarrow>
        replace_row (item_row k i p r s w (iw_ID q)) c = c)"
    using find_row [OF c(1)] c(2) row_w by blast
  ultimately show ?thesis using find_w q(1) unfolding settled_def Let_def by auto
qed

lemma items_settle:
  "commit_items lib db k p r s vs (raws, rows, ids) = Inr (raws', rows', ids') \<Longrightarrow> list_all (settled lib k r s raws rows) us \<Longrightarrow>
   distinct (map key (us @ vs)) \<Longrightarrow> distinct (map (pk_ExternalID k) (us @ vs)) \<Longrightarrow> list_all (settled lib k r s raws' rows') (us @ vs)"
proof (induction vs arbitrary: us raws rows ids)
  case (Cons v vs)
  obtain raws1 rows1 ids1 where one: "commit_item lib db k p r s v (raws, rows, ids) = Inr (raws1, rows1, ids1)"
    and rest: "commit_items lib db k p r s vs (raws1, rows1, ids1) = Inr (raws', rows', ids')"
    using Cons.prems(1) by (auto simp: result_simps)
  have "settled lib k r s raws1 rows1 u" if "u \<in> set us" for u
    by (rule item_keeps [OF one]) (use Cons.prems(2-4) that in \<open>auto simp: list_all_iff image_iff\<close>)
  then have "list_all (settled lib k r s raws1 rows1) (us @ [v])" using item_settles [OF one] by (simp add: list_all_iff)
  from Cons.IH [OF rest this] Cons.prems(3,4) show ?case by simp
qed simp

end

lemmas kind_defs = issue_kind_def pull_kind_def release_kind_def commit_kind_def source_key_def item_row_def replace_row_def

interpretation issues: page_table issue_kind "pk_ExternalID issue_kind"
  by unfold_locales (auto simp: kind_defs)

interpretation pulls: page_table pull_kind "pk_ExternalID pull_kind"
  by unfold_locales (auto simp: kind_defs)

interpretation releases: page_table "release_kind t" "pk_ExternalID (release_kind t)" for t
  by unfold_locales (auto simp: kind_defs)

interpretation commits: page_table commit_kind go_SHA
  by unfold_locales (auto simp: kind_defs)

lemma settled_release:
  "settled lib (release_kind t) r s raws rows v \<Longrightarrow> \<not> after t u \<Longrightarrow> settled lib (release_kind u) r s raws rows v"
proof -
  assume s: "settled lib (release_kind t) r s raws rows v" and tu: "\<not> after t u"
  have "\<not> after x (pg_time (pk_ObservedAt (release_kind u) v))" if "\<not> after x (pg_time (pk_ObservedAt (release_kind t) v))" for x
    using that tu zdiv_mono1 [of "nanos t" "nanos u" 1000] by (auto simp: release_kind_def after_def pg_time_def split: option.splits)
  moreover have "pk_Type (release_kind u) = pk_Type (release_kind t)" "pk_ExternalID (release_kind u) = pk_ExternalID (release_kind t)"
    "pk_Raw (release_kind u) = pk_Raw (release_kind t)" "pk_Conflict (release_kind u) = pk_Conflict (release_kind t)"
    "pk_Replaces (release_kind u) = pk_Replaces (release_kind t)" "item_row (release_kind u) = item_row (release_kind t)"
    by (simp_all add: release_kind_def item_row_def [abs_def])
  ultimately show ?thesis using s unfolding settled_def Let_def by metis
qed

fun op_page :: "ingest_op \<Rightarrow> page_id" where
  "op_page (DoIssues g vs now ids) = g"
| "op_page (DoPulls g vs now ids) = g"
| "op_page (DoReleases g vs now ids) = g"
| "op_page (DoCommits g vs now ids) = g"

fun again :: "ingest_op \<Rightarrow> page_id \<Rightarrow> gotime \<Rightarrow> int64 list \<Rightarrow> ingest_op" where
  "again (DoIssues _ vs _ _) g now ids = DoIssues g vs now ids"
| "again (DoPulls _ vs _ _) g now ids = DoPulls g vs now ids"
| "again (DoReleases _ vs _ _) g now ids = DoReleases g vs now ids"
| "again (DoCommits _ vs _ _) g now ids = DoCommits g vs now ids"

definition same_page :: "page_id \<Rightarrow> page_id \<Rightarrow> bool" where
  "same_page g g' \<longleftrightarrow> pi_Project g' = pi_Project g \<and> pi_Repository g' = pi_Repository g \<and> pi_Source g' = pi_Source g \<and>
     \<not> after (pi_To g) (pi_To g')"

fun distinct_items :: "ingest_op \<Rightarrow> bool" where
  "distinct_items (DoIssues g vs now ids) = distinct (map gi_ExternalID vs)"
| "distinct_items (DoPulls g vs now ids) = distinct (map gp_ExternalID vs)"
| "distinct_items (DoReleases g vs now ids) = distinct (map gl_ExternalID vs)"
| "distinct_items (DoCommits g vs now ids) = (distinct (map go_SHA vs) \<and> distinct (map go_ExternalID vs))"

lemma distinct_format: "distinct (map f vs) \<Longrightarrow> distinct (map (\<lambda>v. format_int (f v)) vs)"
  by (induction vs) (auto dest: format_int_inj)

lemma bind_page:
  assumes "bindE c (\<lambda>(raws, rows, ids'). f raws rows ids') = Inr (db' :: ingest_db)"
  obtains raws' rows' ids' where "c = Inr (raws', rows', ids')" "f raws' rows' ids' = Inr db'"
  using assms by (auto simp: result_simps)

definition ingest_tables :: "ingest_db \<Rightarrow> raw_row list \<times> GhIssue canonical_row list \<times> GhPullRequest canonical_row list \<times>
    GhRelease canonical_row list \<times> GhCommit canonical_row list" where
  "ingest_tables db = (ig_Raw db, ig_Issues db, ig_Pulls db, ig_Releases db, ig_Commits db)"

text \<open>
  C26: Committing a page again, at any later time and with other identifiers, changes no payload row and no canonical row: an
  interrupted collection that starts over converges. A page does not list an item twice.
\<close>
theorem page_replay_idempotent:
  assumes "apply_ingest lib a db = Inr db1" "apply_ingest lib (again a g now ids) db1 = Inr db2" "same_page (op_page a) g" "distinct_items a"
  shows "ingest_tables db2 = ingest_tables db1"
proof (cases a)
  case (DoIssues g0 vs now0 ids0)
  have d: "distinct (map (pk_ExternalID issue_kind) vs)" using assms(4) distinct_format DoIssues by (simp add: issue_kind_def)
  from assms(1) obtain raws rows i where c: "commit_items lib db issue_kind (pi_Project g) (pi_Repository g) (pi_Source g) vs (ig_Raw db, ig_Issues db, ids0) = Inr (raws, rows, i)"
      and f: "finishPage (db\<lparr>ig_Raw := raws, ig_Issues := rows\<rparr>) i (pi_Project g0) (pi_Source g0) ''github_issues'' (pi_Next g0) (pi_From g0) (pi_To g0) now0 = Inr db1"
    using assms(3) DoIssues by (auto simp: CommitGitHubIssues_def same_page_def split: if_splits elim!: bind_page)
  note t = finishPage_tables [OF f]
  from assms(2) obtain raws' rows' i' where c': "commit_items lib db1 issue_kind (pi_Project g) (pi_Repository g) (pi_Source g) vs (raws, rows, ids) = Inr (raws', rows', i')"
      and f': "finishPage (db1\<lparr>ig_Raw := raws', ig_Issues := rows'\<rparr>) i' (pi_Project g) (pi_Source g) ''github_issues'' (pi_Next g) (pi_From g) (pi_To g) now = Inr db2"
    using DoIssues t by (auto simp: CommitGitHubIssues_def split: if_splits elim!: bind_page)
  show ?thesis using settled_items [OF c'] issues.items_settle [OF c, of "[]"] d finishPage_tables [OF f'] t by (simp add: ingest_tables_def)
next
  case (DoPulls g0 vs now0 ids0)
  have d: "distinct (map (pk_ExternalID pull_kind) vs)" using assms(4) distinct_format DoPulls by (simp add: pull_kind_def)
  from assms(1) obtain raws rows i where c: "commit_items lib db pull_kind (pi_Project g) (pi_Repository g) (pi_Source g) vs (ig_Raw db, ig_Pulls db, ids0) = Inr (raws, rows, i)"
      and f: "finishPage (db\<lparr>ig_Raw := raws, ig_Pulls := rows\<rparr>) i (pi_Project g0) (pi_Source g0) ''github_pull_requests'' (pi_Next g0) (pi_From g0) (pi_To g0) now0 = Inr db1"
    using assms(3) DoPulls by (auto simp: CommitGitHubPullRequests_def same_page_def split: if_splits elim!: bind_page)
  note t = finishPage_tables [OF f]
  from assms(2) obtain raws' rows' i' where c': "commit_items lib db1 pull_kind (pi_Project g) (pi_Repository g) (pi_Source g) vs (raws, rows, ids) = Inr (raws', rows', i')"
      and f': "finishPage (db1\<lparr>ig_Raw := raws', ig_Pulls := rows'\<rparr>) i' (pi_Project g) (pi_Source g) ''github_pull_requests'' (pi_Next g) (pi_From g) (pi_To g) now = Inr db2"
    using DoPulls t by (auto simp: CommitGitHubPullRequests_def split: if_splits elim!: bind_page)
  show ?thesis using settled_items [OF c'] pulls.items_settle [OF c, of "[]"] d finishPage_tables [OF f'] t by (simp add: ingest_tables_def)
next
  case (DoReleases g0 vs now0 ids0)
  have d: "distinct (map (pk_ExternalID (release_kind (pi_To g0))) vs)" using assms(4) distinct_format DoReleases by (simp add: release_kind_def)
  from assms(1) obtain raws rows i where c: "commit_items lib db (release_kind (pi_To g0)) (pi_Project g) (pi_Repository g) (pi_Source g) vs (ig_Raw db, ig_Releases db, ids0) = Inr (raws, rows, i)"
      and f: "finishPage (db\<lparr>ig_Raw := raws, ig_Releases := rows\<rparr>) i (pi_Project g0) (pi_Source g0) ''github_releases'' (pi_Next g0) (pi_From g0) (pi_To g0) now0 = Inr db1"
    using assms(3) DoReleases by (auto simp: CommitGitHubReleases_def same_page_def split: if_splits elim!: bind_page)
  note t = finishPage_tables [OF f]
  from assms(2) obtain raws' rows' i' where c': "commit_items lib db1 (release_kind (pi_To g)) (pi_Project g) (pi_Repository g) (pi_Source g) vs (raws, rows, ids) = Inr (raws', rows', i')"
      and f': "finishPage (db1\<lparr>ig_Raw := raws', ig_Releases := rows'\<rparr>) i' (pi_Project g) (pi_Source g) ''github_releases'' (pi_Next g) (pi_From g) (pi_To g) now = Inr db2"
    using DoReleases t by (auto simp: CommitGitHubReleases_def split: if_splits elim!: bind_page)
  have "list_all (settled lib (release_kind (pi_To g)) (pi_Repository g) (pi_Source g) raws rows) vs"
    using releases.items_settle [OF c, of "[]"] d assms(3) DoReleases by (auto simp: list_all_iff same_page_def intro: settled_release)
  with settled_items [OF c'] finishPage_tables [OF f'] t show ?thesis by (simp add: ingest_tables_def)
next
  case (DoCommits g0 vs now0 ids0)
  have d: "distinct (map go_SHA vs)" "distinct (map (pk_ExternalID commit_kind) vs)" using assms(4) DoCommits by (simp_all add: commit_kind_def)
  from assms(1) obtain raws rows i where c: "commit_items lib db commit_kind (pi_Project g) (pi_Repository g) (pi_Source g) vs (ig_Raw db, ig_Commits db, ids0) = Inr (raws, rows, i)"
      and f: "finishPage (db\<lparr>ig_Raw := raws, ig_Commits := rows\<rparr>) i (pi_Project g0) (pi_Source g0) ''github_commits'' (pi_Next g0) (pi_From g0) (pi_To g0) now0 = Inr db1"
    using assms(3) DoCommits by (auto simp: CommitGitHubCommits_def same_page_def split: if_splits elim!: bind_page)
  note t = finishPage_tables [OF f]
  from assms(2) obtain raws' rows' i' where c': "commit_items lib db1 commit_kind (pi_Project g) (pi_Repository g) (pi_Source g) vs (raws, rows, ids) = Inr (raws', rows', i')"
      and f': "finishPage (db1\<lparr>ig_Raw := raws', ig_Commits := rows'\<rparr>) i' (pi_Project g) (pi_Source g) ''github_commits'' (pi_Next g) (pi_From g) (pi_To g) now = Inr db2"
    using DoCommits t by (auto simp: CommitGitHubCommits_def split: if_splits elim!: bind_page)
  show ?thesis using settled_items [OF c'] commits.items_settle [OF c, of "[]"] d finishPage_tables [OF f'] t by (simp add: ingest_tables_def)
qed

section \<open>Coverage\<close>

text \<open>
  Every page, the first of many included, widens the coverage of its source to the whole range of the collection,
  whichever scope it is for.
\<close>

lemma page_covers_source:
  assumes "apply_ingest lib a db = Inr db'" "x \<in> set (ig_Sources db')" "so_ID (sx_source x) = pi_Source (op_page a)"
    "so_ProjectID (sx_source x) = pi_Project (op_page a)"
  shows "\<exists>t u. so_CoverageFrom (sx_source x) = Some t \<and> so_CoverageTo (sx_source x) = Some u \<and>
    \<not> after t (pg_time (pi_From (op_page a))) \<and> \<not> before u (pg_time (pi_To (op_page a))) \<and> so_Failure (sx_source x) = ''''"
proof -
  have "\<exists>scope now db0 ids. finishPage db0 ids (pi_Project (op_page a)) (pi_Source (op_page a)) scope (pi_Next (op_page a))
      (pi_From (op_page a)) (pi_To (op_page a)) now = Inr db'"
    using assms(1) by (cases a) (auto simp: commit_defs split: if_splits elim!: bind_page)
  then obtain now srcs where "ig_Sources db' = cover_source (pi_Project (op_page a)) (pi_Source (op_page a)) (pi_From (op_page a)) (pi_To (op_page a)) now srcs"
    using finishPage_tables by blast
  with assms(2-4) show ?thesis
    by (auto simp: cover_source_def earliest_def latest_def after_def before_def split: option.splits if_splits)
qed

text \<open>A page only ever widens what a checkpoint and a source claim.\<close>

lemma earliest_le: "nanos (earliest (Some t) u) \<le> nanos t" "nanos t \<le> nanos (latest (Some t) u)"
  by (auto simp: earliest_def latest_def after_def before_def)

section \<open>Concrete pages\<close>

text \<open>A column that drops the spaces of a text, and refuses the empty one.\<close>

definition sample_jsonb :: "string \<Rightarrow> string option" where
  "sample_jsonb raw = (if raw = [] then None else Some (filter (\<lambda>c. c \<noteq> CHR 0x20) raw))"

definition sample_lib :: page_lib where
  "sample_lib = \<lparr>pl_Valid = (\<lambda>_. True), pl_Jsonb = sample_jsonb, pl_Sha = id\<rparr>"

definition sample_source :: source_row where
  "sample_source = \<lparr>sx_source = \<lparr>so_ID = 4, so_ProjectID = 2, so_Kind = SourceGitHub, so_CanonicalURL = ''https://github.com/o/p'',
     so_State = SourceAvailable, so_Public = True, so_CoverageFrom = None, so_CoverageTo = None, so_LastAttemptAt = None,
     so_LastSuccessAt = None, so_NextRunAt = None, so_Failure = '''', so_Version = 1\<rparr>, sx_RepositoryID = 3\<rparr>"

definition sample_ingest_db :: ingest_db where
  "sample_ingest_db = \<lparr>ig_Projects = [(2, ''active'')], ig_Repositories = [3], ig_Sources = [sample_source], ig_Raw = [], ig_Issues = [],
     ig_Pulls = [], ig_Releases = [], ig_Commits = [], ig_Checkpoints = []\<rparr>"

definition sample_issue :: "int64 \<Rightarrow> GhIssue" where
  "sample_issue i = \<lparr>gi_ExternalID = i, gi_Number = 1, gi_Title = ''t'', gi_State = ''open'', gi_Author = ''a'', gi_CreatedAt = Time 1000 UTC,
     gi_UpdatedAt = Time 2000 UTC, gi_ClosedAt = None, gi_Raw = ''{ }''\<rparr>"

definition sample_page :: page_id where
  "sample_page = \<lparr>pi_Project = 2, pi_Repository = 3, pi_Source = 4, pi_Next = ''complete'', pi_From = Time 0 UTC, pi_To = Time 9000 UTC\<rparr>"

definition sample_issues :: ingest_op where
  "sample_issues = DoIssues sample_page [sample_issue 7, sample_issue 8] (Time 9000 UTC) [101, 102, 103, 104, 105]"

theorem ingestion_provenance_witness:
  "ig_Issues (run_ops (apply_ingest sample_lib) sample_ingest_db [sample_issues]) \<noteq> [] \<and>
   table_traced (pl_Sha sample_lib) issue_kind (set (concat (map op_issues [sample_issues])))
     (ig_Raw (run_ops (apply_ingest sample_lib) sample_ingest_db [sample_issues]))
     (ig_Issues (run_ops (apply_ingest sample_lib) sample_ingest_db [sample_issues]))"
proof -
  have "ig_Raw sample_ingest_db = []" "ig_Issues sample_ingest_db = []" "ig_Pulls sample_ingest_db = []" "ig_Releases sample_ingest_db = []"
    "ig_Commits sample_ingest_db = []" by (simp_all add: sample_ingest_db_def)
  note p = ingestion_provenance [OF this refl, of sample_lib "[sample_issues]"]
  have "length (ig_Issues (run_ops (apply_ingest sample_lib) sample_ingest_db [sample_issues])) = 2" by code_simp
  with p show ?thesis by force
qed

theorem page_replay_idempotent_witness:
  "\<exists>db1 db2. apply_ingest sample_lib sample_issues sample_ingest_db = Inr db1 \<and>
     apply_ingest sample_lib (again sample_issues (sample_page\<lparr>pi_To := Time 10000 UTC\<rparr>) (Time 10000 UTC) [111, 112, 113, 114, 115]) db1 = Inr db2 \<and>
     ingest_tables db2 = ingest_tables db1 \<and> ig_Issues db1 \<noteq> []"
proof -
  have "\<not> isl (apply_ingest sample_lib sample_issues sample_ingest_db)" by code_simp
  then obtain db1 where 1: "apply_ingest sample_lib sample_issues sample_ingest_db = Inr db1" by (metis sum.collapse(2))
  have "\<not> isl (bindE (apply_ingest sample_lib sample_issues sample_ingest_db)
      (apply_ingest sample_lib (again sample_issues (sample_page\<lparr>pi_To := Time 10000 UTC\<rparr>) (Time 10000 UTC) [111, 112, 113, 114, 115])))" by code_simp
  with 1 obtain db2 where 2: "apply_ingest sample_lib (again sample_issues (sample_page\<lparr>pi_To := Time 10000 UTC\<rparr>) (Time 10000 UTC) [111, 112, 113, 114, 115]) db1 = Inr db2"
    by (metis bindE_simps(2) sum.collapse(2))
  have "same_page (op_page sample_issues) (sample_page\<lparr>pi_To := Time 10000 UTC\<rparr>)" "distinct_items sample_issues" by code_simp+
  note p = page_replay_idempotent [OF 1 2 this]
  have "(case apply_ingest sample_lib sample_issues sample_ingest_db of Inl e \<Rightarrow> False | Inr db \<Rightarrow> length (ig_Issues db) = 2)" by code_simp
  with 1 2 p show ?thesis by force
qed
end
