(* ===== verification/Worker.thy ===== *)
theory Worker
  imports Ingestion Purge
begin

text \<open>
  \<open>internal/worker\<close>: the runner that executes leased jobs. Its interfaces are records of functions over
  a state of any type, as the Go runner takes them, and \<open>postgres_runner\<close> below supplies the job store,
  the purge, the page store and the GitHub client of the program. An unbounded loop is \<open>loop\<close>, whose value
  is \<open>None\<close> when it does not end.
\<close>

section \<open>Errors and effects\<close>

text \<open>\<open>WkWrap\<close> is \<open>fmt.Errorf\<close> with \<open>%w\<close>, \<open>WkJoin\<close> is \<open>errors.Join\<close>.\<close>

datatype worker_error = WkCanceled | WkDeadlineExceeded | WkRateLimited "gotime option" | WkNotPublic | WkLeaseUnavailable | WkConflict
  | WkMessage string | WkWrap worker_error | WkJoin worker_error worker_error

text \<open>\<open>errors.Is\<close> for a predicate on the leaves, and \<open>errors.As\<close> for \<open>*RateLimitError\<close>, which also is \<open>ErrRateLimited\<close>.\<close>

fun err_is :: "(worker_error \<Rightarrow> bool) \<Rightarrow> worker_error \<Rightarrow> bool" where
  "err_is p (WkWrap e) = err_is p e"
| "err_is p (WkJoin d e) = (err_is p d \<or> err_is p e)"
| "err_is p e = p e"

fun as_rate_limit :: "worker_error \<Rightarrow> gotime option" where
  "as_rate_limit (WkWrap e) = as_rate_limit e"
| "as_rate_limit (WkJoin d e) = (case as_rate_limit d of None \<Rightarrow> as_rate_limit e | Some t \<Rightarrow> Some t)"
| "as_rate_limit (WkRateLimited (Some t)) = Some t"
| "as_rate_limit e = None"

definition rate_limited :: "worker_error \<Rightarrow> bool" where
  "rate_limited e \<longleftrightarrow> (case e of WkRateLimited t \<Rightarrow> True | _ \<Rightarrow> False)"

type_synonym ('s, 'a) act = "'s \<Rightarrow> (worker_error + 'a) \<times> 's"

definition ret :: "'a \<Rightarrow> ('s, 'a) act" where
  "ret v s = (Inr v, s)"

definition fail :: "worker_error \<Rightarrow> ('s, 'a) act" where
  "fail e s = (Inl e, s)"

definition bindA :: "('s, 'a) act \<Rightarrow> ('a \<Rightarrow> ('s, 'b) act) \<Rightarrow> ('s, 'b) act" where
  "bindA m f s = (case m s of (Inl e, t) \<Rightarrow> (Inl e, t) | (Inr v, t) \<Rightarrow> f v t)"

text \<open>\<open>time.Now\<close> reads a clock and does not fail.\<close>

definition bindN :: "('s \<Rightarrow> gotime \<times> 's) \<Rightarrow> (gotime \<Rightarrow> ('s, 'b) act) \<Rightarrow> ('s, 'b) act" where
  "bindN m f s = (case m s of (v, t) \<Rightarrow> f v t)"

text \<open>Code that may not return, and the loop: its body ends it with \<open>Inl\<close> or continues with \<open>Inr\<close>.\<close>

type_synonym ('s, 'a) prog = "'s \<Rightarrow> ((worker_error + 'a) \<times> 's) option"

definition run_act :: "('s, 'a) act \<Rightarrow> ('s, 'a) prog" where
  "run_act m s = Some (m s)"

definition bindP :: "('s, 'a) prog \<Rightarrow> ('a \<Rightarrow> ('s, 'b) prog) \<Rightarrow> ('s, 'b) prog" where
  "bindP m f s = (case m s of None \<Rightarrow> None | Some (Inl e, t) \<Rightarrow> Some (Inl e, t) | Some (Inr v, t) \<Rightarrow> f v t)"

partial_function (option) loop :: "('l \<Rightarrow> ('s, 'r + 'l) act) \<Rightarrow> 'l \<Rightarrow> ('s, 'r) prog" where
  "loop body l s = (case body l s of
     (Inl e, t) \<Rightarrow> Some (Inl e, t)
   | (Inr (Inl r), t) \<Rightarrow> Some (Inr r, t)
   | (Inr (Inr l'), t) \<Rightarrow> loop body l' t)"

section \<open>The interfaces of the runner\<close>

record 's github_side =
  gs_Repository :: "string \<Rightarrow> string \<Rightarrow> ('s, GhRepository) act"
  gs_Issues :: "string \<Rightarrow> string \<Rightarrow> int \<Rightarrow> ('s, GhIssue list) act"
  gs_PullRequests :: "string \<Rightarrow> string \<Rightarrow> int \<Rightarrow> ('s, GhPullRequest list) act"
  gs_Releases :: "string \<Rightarrow> string \<Rightarrow> int \<Rightarrow> ('s, GhRelease list) act"
  gs_Commits :: "string \<Rightarrow> string \<Rightarrow> string \<Rightarrow> int \<Rightarrow> ('s, GhCommit list) act"
  gs_Source :: "int64 \<Rightarrow> ('s, GitHubTarget) act"
  gs_MarkUnavailable :: "int64 \<Rightarrow> string \<Rightarrow> ('s, unit) act"
  gs_CommitIssues :: "page_id \<Rightarrow> GhIssue list \<Rightarrow> ('s, unit) act"
  gs_CommitPulls :: "page_id \<Rightarrow> GhPullRequest list \<Rightarrow> ('s, unit) act"
  gs_CommitReleases :: "page_id \<Rightarrow> GhRelease list \<Rightarrow> ('s, unit) act"
  gs_CommitCommits :: "page_id \<Rightarrow> GhCommit list \<Rightarrow> ('s, unit) act"

record 's runner =
  rn_Holder :: string
  rn_TTL :: duration
  rn_Claim :: "string \<Rightarrow> duration \<Rightarrow> ('s, JobLease option) act"
  rn_ClaimJob :: "int64 \<Rightarrow> string \<Rightarrow> duration \<Rightarrow> ('s, JobLease option) act"
  rn_Heartbeat :: "JobLease \<Rightarrow> duration \<Rightarrow> ('s, JobLease) act"
  rn_CheckCancelled :: "JobLease \<Rightarrow> ('s, bool) act"
  rn_Checkpoint :: "JobLease \<Rightarrow> int64 \<Rightarrow> Checkpoint \<Rightarrow> ('s, JobLease) act"
  rn_MarkCollectionSuccess :: "JobLease \<Rightarrow> ('s, unit) act"
  rn_PurgeProject :: "JobLease \<Rightarrow> int \<Rightarrow> ('s, bool \<times> JobLease) act"
  rn_Complete :: "JobLease \<Rightarrow> ('s, unit) act"
  rn_Fail :: "JobLease \<Rightarrow> string \<Rightarrow> duration \<Rightarrow> ('s, unit) act"
  rn_GitHub :: "'s github_side option"
  rn_Intelligence :: "(int64 \<Rightarrow> gotime \<Rightarrow> ('s, unit) act) option"
  rn_Exports :: "(JobLease \<Rightarrow> ('s, unit) act) option"
  rn_Context :: "('s, unit) act"
  rn_Now :: "'s \<Rightarrow> gotime \<times> 's"

definition defaultLeaseTTL :: duration where
  "defaultLeaseTTL = 30 * second"

definition defaultPurgeBatch :: int where
  "defaultPurgeBatch = 100"

section \<open>Collecting pages\<close>

definition nextCursor :: "int \<Rightarrow> int \<Rightarrow> string" where
  "nextCursor page n = (if n < 100 then ''complete'' else format_int (wrap64 (page + 1)))"

definition collectionAllowed :: "'s runner \<Rightarrow> JobLease \<Rightarrow> ('s, unit) act" where
  "collectionAllowed rn l =
     bindA (rn_Context rn) (\<lambda>_.
     bindA (rn_CheckCancelled rn l) (\<lambda>cancelled.
     if cancelled then fail WkConflict else ret ()))"

text \<open>One iteration of the loop over the pages of a scope.\<close>

definition collect_page ::
    "'s runner \<Rightarrow> string \<Rightarrow> (int \<Rightarrow> ('s, 'v list) act) \<Rightarrow> (page_id \<Rightarrow> 'v list \<Rightarrow> ('s, unit) act) \<Rightarrow> GitHubTarget \<Rightarrow>
     JobLease \<times> int64 \<times> int \<Rightarrow> ('s, (JobLease \<times> int64) + (JobLease \<times> int64 \<times> int)) act" where
  "collect_page rn scope fetch commit target = (\<lambda>(l, completed, page).
     bindA (collectionAllowed rn l) (\<lambda>_.
     bindA (fetch page) (\<lambda>values.
     bindN (rn_Now rn) (\<lambda>now.
     let next = nextCursor page (int (length values)); completed' = wrap64 (completed + int (length values)) in
     bindA (commit \<lparr>pi_Project = gt_ProjectID target, pi_Repository = gt_RepositoryID target, pi_Source = gt_SourceID target,
         pi_Next = next, pi_From = gt_CoverageFrom target, pi_To = utc now\<rparr> values) (\<lambda>_.
     bindA (rn_Checkpoint rn l completed' \<lparr>cp_Scope = scope, cp_Cursor = next, cp_CoverageTo = utc now, cp_Version = jb_Version (lz_Job l) + 1\<rparr>) (\<lambda>l.
     if next = ''complete'' then ret (Inl (l, completed'))
     else bindA (rn_Heartbeat rn l (rn_TTL rn)) (\<lambda>l. ret (Inr (l, completed', wrap64 (page + 1))))))))))"

definition target_page :: "GitHubTarget \<Rightarrow> string \<Rightarrow> int" where
  "target_page target scope = (case map_of (gt_Pages target) scope of None \<Rightarrow> 0 | Some p \<Rightarrow> p)"

definition collectGitHubIssues :: "'s runner \<Rightarrow> 's github_side \<Rightarrow> GitHubTarget \<Rightarrow> JobLease \<Rightarrow> int64 \<Rightarrow> ('s, JobLease \<times> int64) prog" where
  "collectGitHubIssues rn g target l completed =
     loop (collect_page rn ''github_issues'' (gs_Issues g (gt_Owner target) (gt_Repository target)) (gs_CommitIssues g) target)
       (l, completed, target_page target ''github_issues'')"

definition collectGitHubPullRequests :: "'s runner \<Rightarrow> 's github_side \<Rightarrow> GitHubTarget \<Rightarrow> JobLease \<Rightarrow> int64 \<Rightarrow> ('s, JobLease \<times> int64) prog" where
  "collectGitHubPullRequests rn g target l completed =
     loop (collect_page rn ''github_pull_requests'' (gs_PullRequests g (gt_Owner target) (gt_Repository target)) (gs_CommitPulls g) target)
       (l, completed, target_page target ''github_pull_requests'')"

definition collectGitHubReleases :: "'s runner \<Rightarrow> 's github_side \<Rightarrow> GitHubTarget \<Rightarrow> JobLease \<Rightarrow> int64 \<Rightarrow> ('s, JobLease \<times> int64) prog" where
  "collectGitHubReleases rn g target l completed =
     loop (collect_page rn ''github_releases'' (gs_Releases g (gt_Owner target) (gt_Repository target)) (gs_CommitReleases g) target)
       (l, completed, target_page target ''github_releases'')"

definition collectGitHubCommits :: "'s runner \<Rightarrow> 's github_side \<Rightarrow> GitHubTarget \<Rightarrow> string \<Rightarrow> JobLease \<Rightarrow> int64 \<Rightarrow> ('s, JobLease \<times> int64) prog" where
  "collectGitHubCommits rn g target branch l completed =
     loop (collect_page rn ''github_commits'' (gs_Commits g (gt_Owner target) (gt_Repository target) branch) (gs_CommitCommits g) target)
       (l, completed, target_page target ''github_commits'')"

section \<open>Executing a job\<close>

definition materialize :: "'s runner \<Rightarrow> int64 \<Rightarrow> ('s, unit) act" where
  "materialize rn projectID =
     (case rn_Intelligence rn of None \<Rightarrow> ret ()
      | Some f \<Rightarrow>
          bindN (rn_Now rn) (\<lambda>now s.
          case f projectID (Time (nanos now - nanos now mod day_length) UTC) s of
            (Inl e, t) \<Rightarrow> (Inl (WkWrap e), t) | (Inr _, t) \<Rightarrow> (Inr (), t)))"

definition find_repository :: "'s github_side \<Rightarrow> GitHubTarget \<Rightarrow> ('s, GhRepository) act" where
  "find_repository g target s =
     (case gs_Repository g (gt_Owner target) (gt_Repository target) s of
        (Inr r, t) \<Rightarrow> (Inr r, t)
      | (Inl e, t) \<Rightarrow>
          if err_is (\<lambda>x. x = WkNotPublic) e
          then (case gs_MarkUnavailable g (gt_SourceID target) ''not_public'' t of
                  (Inl e', t') \<Rightarrow> (Inl (WkJoin e e'), t') | (Inr _, t') \<Rightarrow> (Inl e, t'))
          else (Inl e, t))"

definition collectGitHub :: "'s runner \<Rightarrow> 's github_side \<Rightarrow> JobLease \<Rightarrow> ('s, unit) prog" where
  "collectGitHub rn g l =
     bindP (run_act (gs_Source g (jb_ProjectID (lz_Job l)))) (\<lambda>target.
     bindP (run_act (find_repository g target)) (\<lambda>repo.
     if trim_space (gr_DefaultBranch repo) = '''' then run_act (fail (WkMessage ''GitHub repository omitted its default branch''))
     else
       bindP (collectGitHubIssues rn g target l (pg_Completed (jb_Progress (lz_Job l)))) (\<lambda>(l, completed).
       bindP (collectGitHubPullRequests rn g target l completed) (\<lambda>(l, completed).
       bindP (collectGitHubReleases rn g target l completed) (\<lambda>(l, completed).
       bindP (collectGitHubCommits rn g target (gr_DefaultBranch repo) l completed) (\<lambda>(l, _).
       bindP (run_act (materialize rn (jb_ProjectID (lz_Job l)))) (\<lambda>_.
       run_act (rn_Complete rn l))))))))"

definition purge_round :: "'s runner \<Rightarrow> JobLease \<Rightarrow> ('s, JobLease + JobLease) act" where
  "purge_round rn l =
     bindA (rn_Context rn) (\<lambda>_.
     bindA (rn_PurgeProject rn l defaultPurgeBatch) (\<lambda>(finished, l).
     if finished then ret (Inl l)
     else bindA (rn_Heartbeat rn l (rn_TTL rn)) (\<lambda>l. ret (Inr l))))"

definition collect_without_github :: "'s runner \<Rightarrow> JobLease \<Rightarrow> ('s, unit) act" where
  "collect_without_github rn l =
     bindA (rn_MarkCollectionSuccess rn l) (\<lambda>_.
     bindN (rn_Now rn) (\<lambda>now.
     bindA (rn_Checkpoint rn l 1 \<lparr>cp_Scope = pg_Unit (jb_Progress (lz_Job l)), cp_Cursor = ''complete'', cp_CoverageTo = utc now,
         cp_Version = jb_Version (lz_Job l) + 1\<rparr>) (\<lambda>l.
     bindA (materialize rn (jb_ProjectID (lz_Job l))) (\<lambda>_. rn_Complete rn l))))"

definition execute_kind :: "'s runner \<Rightarrow> JobLease \<Rightarrow> ('s, unit) prog" where
  "execute_kind rn l =
     (let kind = jb_Kind (lz_Job l) in
      if kind \<in> {''project_initial_sync'', ''project_sync'', ''project_history''}
      then (case rn_GitHub rn of Some g \<Rightarrow> collectGitHub rn g l | None \<Rightarrow> run_act (collect_without_github rn l))
      else if kind = ''project_purge'' then bindP (loop (purge_round rn) l) (\<lambda>l. run_act (rn_Complete rn l))
      else if kind \<in> {''association_recalculation'', ''source_recalculation''}
      then run_act (bindA (materialize rn (jb_ProjectID (lz_Job l))) (\<lambda>_. rn_Complete rn l))
      else if kind = ''project_transition'' then run_act (rn_Complete rn l)
      else if kind = ''export''
      then (case rn_Exports rn of None \<Rightarrow> run_act (fail (WkMessage ''export processor is unavailable''))
            | Some process \<Rightarrow> run_act (bindA (process l) (\<lambda>_. rn_Complete rn l)))
      else run_act (fail (WkMessage ''unsupported job kind'')))"

definition execute :: "'s runner \<Rightarrow> JobLease \<Rightarrow> ('s, unit) prog" where
  "execute rn l =
     (if jb_Kind (lz_Job l) \<noteq> ''project_purge''
      then bindP (run_act (rn_CheckCancelled rn l)) (\<lambda>cancelled. if cancelled then run_act (ret ()) else execute_kind rn l)
      else execute_kind rn l)"

section \<open>Running a lease\<close>

definition failureCode :: "worker_error \<Rightarrow> string" where
  "failureCode e =
     (if err_is rate_limited e then ''rate_limited''
      else if err_is (\<lambda>x. x = WkNotPublic) e then ''not_public''
      else if err_is (\<lambda>x. x = WkLeaseUnavailable) e then ''lease_lost''
      else ''worker_error'')"

text \<open>The argument is the time at which \<open>time.Until\<close> reads the clock.\<close>

definition retryDelay :: "worker_error \<Rightarrow> gotime \<Rightarrow> duration" where
  "retryDelay e now =
     (if err_is rate_limited e
      then (case as_rate_limit e of
              Some reset \<Rightarrow>
                if \<not> is_zero reset
                then let delay = time_sub reset now in if delay < second then second else if delay > hour then hour else delay
                else 15 * minute
            | None \<Rightarrow> 15 * minute)
      else if err_is (\<lambda>x. x = WkNotPublic) e then - 1
      else if err_is (\<lambda>x. x = WkLeaseUnavailable) e then - 1
      else 0)"

definition interrupted :: "worker_error \<Rightarrow> bool" where
  "interrupted e \<longleftrightarrow> err_is (\<lambda>x. x = WkCanceled) e \<or> err_is (\<lambda>x. x = WkDeadlineExceeded) e"

text \<open>\<open>(ran, err)\<close> of the Go function, with the state.\<close>

definition report_failure :: "'s runner \<Rightarrow> JobLease \<Rightarrow> worker_error \<Rightarrow> 's \<Rightarrow> worker_error \<times> 's" where
  "report_failure rn l e s =
     (case rn_Now rn s of (now, t) \<Rightarrow>
          (case rn_Fail rn l (failureCode e) (retryDelay e now) t of
             (Inl e', t') \<Rightarrow> (WkJoin e e', t') | (Inr _, t') \<Rightarrow> (e, t')))"

definition runLease :: "'s runner \<Rightarrow> JobLease \<Rightarrow> 's \<Rightarrow> (bool \<times> worker_error option \<times> 's) option" where
  "runLease rn l s =
     (case execute rn l s of None \<Rightarrow> None
      | Some (Inr _, t) \<Rightarrow> Some (True, None, t)
      | Some (Inl e, t) \<Rightarrow>
          if interrupted e then Some (True, Some e, t)
          else (case report_failure rn l e t of (e', t') \<Rightarrow> Some (True, Some e', t')))"

definition run_claimed :: "'s runner \<Rightarrow> (worker_error + JobLease option) \<times> 's \<Rightarrow> (bool \<times> worker_error option \<times> 's) option" where
  "run_claimed rn claimed =
     (case claimed of (Inl e, t) \<Rightarrow> Some (False, Some e, t)
      | (Inr None, t) \<Rightarrow> Some (False, None, t)
      | (Inr (Some l), t) \<Rightarrow> runLease rn l t)"

definition RunOne :: "'s runner \<Rightarrow> 's \<Rightarrow> (bool \<times> worker_error option \<times> 's) option" where
  "RunOne rn s = run_claimed rn (rn_Claim rn (rn_Holder rn) (rn_TTL rn) s)"

definition RunJob :: "'s runner \<Rightarrow> int64 \<Rightarrow> 's \<Rightarrow> (bool \<times> worker_error option \<times> 's) option" where
  "RunJob rn jobID s = run_claimed rn (rn_ClaimJob rn jobID (rn_Holder rn) (rn_TTL rn) s)"


section \<open>Loops\<close>

lemma loop_rule [consumes 1]:
  fixes body :: "'l \<Rightarrow> ('s, 'r + 'l) act" and I :: "'l \<Rightarrow> 's \<Rightarrow> bool"
  assumes "loop body l s = Some (Inr r, t)"
    and "I l s"
    and step: "\<And>l s l' s'. I l s \<Longrightarrow> body l s = (Inr (Inr l'), s') \<Longrightarrow> I l' s'"
  shows "\<exists>l' s'. I l' s' \<and> body l' s' = (Inr (Inl r), t)"
proof -
  define P where "P b l s y \<longleftrightarrow> (b = body \<longrightarrow> y = (Inr r, t) \<longrightarrow> I l s \<longrightarrow> (\<exists>l' s'. I l' s' \<and> body l' s' = (Inr (Inl r), t)))" for b l s and y :: "(worker_error + 'r) \<times> 's"
  have "P body l s (Inr r, t)"
  proof (rule loop.raw_induct [OF _ assms(1)])
    fix f :: "('l \<Rightarrow> ('s, 'r + 'l) act) \<Rightarrow> 'l \<Rightarrow> ('s, 'r) prog" and b l s y
    assume IH: "\<And>b l s y. f b l s = Some y \<Longrightarrow> P b l s y"
      and eq: "(case b l s of (Inl e, t) \<Rightarrow> Some (Inl e, t) | (Inr (Inl r), t) \<Rightarrow> Some (Inr r, t) | (Inr (Inr l'), t) \<Rightarrow> f b l' t) = Some y"
    show "P b l s y"
      unfolding P_def using eq IH [of b, unfolded P_def] step by (fastforce split: prod.splits sum.splits)
  qed
  with assms(2) show ?thesis by (simp add: P_def)
qed

lemma loop_terminates:
  fixes m :: "'l \<Rightarrow> 's \<Rightarrow> nat"
  assumes "I l s"
    and "\<And>l s l' s'. I l s \<Longrightarrow> body l s = (Inr (Inr l'), s') \<Longrightarrow> I l' s' \<and> m l' s' < m l s"
  shows "loop body l s \<noteq> None"
  using assms(1)
proof (induction "m l s" arbitrary: l s rule: less_induct)
  case less
  show ?case
  proof (cases "body l s")
    case (Pair res t)
    show ?thesis
    proof (cases res)
      case (Inr v)
      show ?thesis
      proof (cases v)
        case (Inr l')
        then have "I l' t \<and> m l' t < m l s" using assms(2) [OF less.prems] Pair \<open>res = Inr v\<close> by simp
        then have "loop body l' t \<noteq> None" using less.hyps by blast
        then show ?thesis using Pair Inr \<open>res = Inr v\<close> by (simp add: loop.simps [of body l s])
      qed (use Pair \<open>res = Inr v\<close> in \<open>simp add: loop.simps [of body l s]\<close>)
    qed (use Pair in \<open>simp add: loop.simps [of body l s]\<close>)
  qed
qed

lemma bindA_Inr_iff [result_simps]: "bindA m f s = (Inr v, t) \<longleftrightarrow> (\<exists>u s'. m s = (Inr u, s') \<and> f u s' = (Inr v, t))"
  by (auto simp: bindA_def split: prod.split sum.split)

lemma bindN_iff [result_simps]: "bindN m f s = r \<longleftrightarrow> (\<exists>u s'. m s = (u, s') \<and> f u s' = r)"
  by (auto simp: bindN_def split: prod.split)

lemma ret_iff [result_simps]: "ret v s = (Inr u, t) \<longleftrightarrow> u = v \<and> t = s"
  by (auto simp: ret_def)

lemma fail_iff [result_simps]: "fail e s = (Inr u, t) \<longleftrightarrow> False"
  by (simp add: fail_def)

lemma bindP_Inr_iff [result_simps]: "bindP m f s = Some (Inr v, t) \<longleftrightarrow> (\<exists>u s'. m s = Some (Inr u, s') \<and> f u s' = Some (Inr v, t))"
  by (auto simp: bindP_def split: prod.split sum.split option.split)

lemma run_act_iff [result_simps]: "run_act m s = Some r \<longleftrightarrow> m s = r"
  by (simp add: run_act_def)

section \<open>A job that succeeds has been completed\<close>

text \<open>What the runner needs of a store: the lease an operation hands back is for the job it was called with.\<close>

locale lease_store =
  fixes rn :: "'s runner"
  assumes heartbeat_job: "rn_Heartbeat rn l ttl s = (Inr l', t) \<Longrightarrow> jb_ID (lz_Job l') = jb_ID (lz_Job l)"
    and checkpoint_job: "rn_Checkpoint rn l n c s = (Inr l', t) \<Longrightarrow> jb_ID (lz_Job l') = jb_ID (lz_Job l)"
    and purge_job: "rn_PurgeProject rn l n s = (Inr (b, l'), t) \<Longrightarrow> jb_ID (lz_Job l') = jb_ID (lz_Job l)"
begin

definition completed :: "int64 \<Rightarrow> 's \<Rightarrow> bool" where
  "completed i t \<longleftrightarrow> (\<exists>l s. jb_ID (lz_Job l) = i \<and> rn_Complete rn l s = (Inr (), t))"

lemma collect_page_job:
  assumes "collect_page rn scope fetch commit target (l, c, p) s = (Inr res, t)"
  shows "case res of Inl (l', c') \<Rightarrow> jb_ID (lz_Job l') = jb_ID (lz_Job l) | Inr (l', c', p') \<Rightarrow> jb_ID (lz_Job l') = jb_ID (lz_Job l)"
  using assms by (auto simp: collect_page_def Let_def result_simps dest!: heartbeat_job checkpoint_job split: if_splits)

lemma collect_loop_job:
  assumes "loop (collect_page rn scope fetch commit target) (l, c, p) s = Some (Inr (l', c'), t)"
  shows "jb_ID (lz_Job l') = jb_ID (lz_Job l)"
proof -
  have "\<exists>x s'. jb_ID (lz_Job (fst x)) = jb_ID (lz_Job l) \<and> collect_page rn scope fetch commit target x s' = (Inr (Inl (l', c')), t)"
    by (rule loop_rule [OF assms]) (auto dest!: collect_page_job)
  then show ?thesis using collect_page_job by fastforce
qed

lemma collect_job:
  "collectGitHubIssues rn g target l c s = Some (Inr (l', c'), t) \<Longrightarrow> jb_ID (lz_Job l') = jb_ID (lz_Job l)"
  "collectGitHubPullRequests rn g target l c s = Some (Inr (l', c'), t) \<Longrightarrow> jb_ID (lz_Job l') = jb_ID (lz_Job l)"
  "collectGitHubReleases rn g target l c s = Some (Inr (l', c'), t) \<Longrightarrow> jb_ID (lz_Job l') = jb_ID (lz_Job l)"
  "collectGitHubCommits rn g target b l c s = Some (Inr (l', c'), t) \<Longrightarrow> jb_ID (lz_Job l') = jb_ID (lz_Job l)"
  unfolding collectGitHubIssues_def collectGitHubPullRequests_def collectGitHubReleases_def collectGitHubCommits_def
  by (rule collect_loop_job, assumption)+

lemma collectGitHub_completes: "collectGitHub rn g l s = Some (Inr (), t) \<Longrightarrow> completed (jb_ID (lz_Job l)) t"
  unfolding completed_def
  by (auto simp: collectGitHub_def result_simps split: if_splits dest!: collect_job) metis

lemma purge_completes: "bindP (loop (purge_round rn) l) (\<lambda>l. run_act (rn_Complete rn l)) s = Some (Inr (), t) \<Longrightarrow> completed (jb_ID (lz_Job l)) t"
proof -
  assume "bindP (loop (purge_round rn) l) (\<lambda>l. run_act (rn_Complete rn l)) s = Some (Inr (), t)"
  then obtain l' s' where p: "loop (purge_round rn) l s = Some (Inr l', s')" and c: "rn_Complete rn l' s' = (Inr (), t)"
    by (auto simp: result_simps)
  have "\<exists>l2 s2. jb_ID (lz_Job l2) = jb_ID (lz_Job l) \<and> purge_round rn l2 s2 = (Inr (Inl l'), s')"
    by (rule loop_rule [OF p]) (auto simp: purge_round_def result_simps dest!: heartbeat_job purge_job split: if_splits)
  then have "jb_ID (lz_Job l') = jb_ID (lz_Job l)" by (auto simp: purge_round_def result_simps dest!: purge_job split: if_splits)
  with c show ?thesis by (auto simp: completed_def)
qed

lemma kind_completes: "execute_kind rn l s = Some (Inr (), t) \<Longrightarrow> completed (jb_ID (lz_Job l)) t"
proof -
  assume e: "execute_kind rn l s = Some (Inr (), t)"
  have "collect_without_github rn l s = (Inr (), t) \<Longrightarrow> completed (jb_ID (lz_Job l)) t"
    by (auto simp: collect_without_github_def completed_def result_simps dest!: checkpoint_job)
  moreover have "rn_Complete rn l s = (Inr (), t) \<Longrightarrow> completed (jb_ID (lz_Job l)) t" for s by (auto simp: completed_def)
  ultimately show ?thesis using e collectGitHub_completes purge_completes
    by (auto simp: execute_kind_def Let_def result_simps split: if_splits option.splits)
qed

lemma success_completes:
  assumes "runLease rn l s = Some (True, None, t)"
  shows "completed (jb_ID (lz_Job l)) t \<or> rn_CheckCancelled rn l s = (Inr True, t)"
proof -
  have "execute rn l s = Some (Inr (), t)"
    using assms by (auto simp: runLease_def report_failure_def split: option.splits prod.splits sum.splits if_splits)
  then show ?thesis by (auto simp: execute_def result_simps split: if_splits dest!: kind_completes)
qed

end

section \<open>Which pages a collection reads\<close>

lemma collect_page_fetches:
  assumes "collect_page rn scope fetch commit target (l, c, p) s = (Inr res, t)" "\<And>n s. fst (fetch n s) = F n"
  shows "\<exists>vs. F p = Inr vs \<and> (case res of
      Inl (l', c') \<Rightarrow> length vs < 100 \<and> c' = wrap64 (c + int (length vs))
    | Inr (l', c', p') \<Rightarrow> length vs \<ge> 100 \<and> p' = wrap64 (p + 1) \<and> c' = wrap64 (c + int (length vs)))"
proof -
  obtain vs s1 s2 where f: "fetch p s1 = (Inr vs, s2)" and res: "case res of
      Inl (l', c') \<Rightarrow> nextCursor p (int (length vs)) = ''complete'' \<and> c' = wrap64 (c + int (length vs))
    | Inr (l', c', p') \<Rightarrow> nextCursor p (int (length vs)) \<noteq> ''complete'' \<and> p' = wrap64 (p + 1) \<and> c' = wrap64 (c + int (length vs))"
    using assms(1) by (auto simp: collect_page_def Let_def result_simps split: if_splits)
  have "format_int i \<noteq> ''complete''" for i
  proof
    assume "format_int i = ''complete''"
    then have "CHR ''c'' \<in> set (format_int i)" by simp
    then show False using set_format_int by (force simp: digit_char_def dest: arg_cong [where f = "of_char :: char \<Rightarrow> nat"])
  qed
  then have n: "nextCursor p (int (length vs)) = ''complete'' \<longleftrightarrow> length vs < 100" by (auto simp: nextCursor_def)
  have "F p = Inr vs" using assms(2) [of p s1] f by simp
  with res n show ?thesis by (auto split: sum.splits)
qed

lemma wrap64_add: "wrap64 (wrap64 a + b) = wrap64 (a + b)" "wrap64 (b + wrap64 a) = wrap64 (b + a)"
  by (simp add: wrap64_def, presburger)+

text \<open>
  When the source answers a page the same way each time, a collection that succeeds has read consecutive pages from the
  one it was to start with, all but the last with at least 100 items; the last has fewer, and no page after it is read.
\<close>
theorem collection_ends_at_short_page:
  assumes "loop (collect_page rn scope fetch commit target) (l, c, p) s = Some (Inr (l', c'), t)" "\<And>n s. fst (fetch n s) = F n" "is_int64 c" "is_int64 p"
  shows "\<exists>pages. pages \<noteq> [] \<and> list_all (\<lambda>vs. 100 \<le> length vs) (butlast pages) \<and> length (last pages) < 100 \<and>
    map (\<lambda>i. F (wrap64 (p + int i))) [0..<length pages] = map Inr pages \<and> c' = wrap64 (c + int (length (concat pages)))"
proof -
  define I where "I = (\<lambda>(l :: JobLease, d, q) (s :: 'a). \<exists>pages. list_all (\<lambda>vs. 100 \<le> length vs) pages \<and>
    map (\<lambda>i. F (wrap64 (p + int i))) [0..<length pages] = map Inr pages \<and> q = wrap64 (p + int (length pages)) \<and>
    d = wrap64 (c + int (length (concat pages))))"
  have start: "I (l, c, p) s" unfolding I_def using assms(3,4) by (auto intro!: exI [of _ "[]"])
  have step: "I x' s'" if Ix: "I x s" and b: "collect_page rn scope fetch commit target x s = (Inr (Inr x'), s')" for x s x' s'
  proof -
    obtain l1 d q where x: "x = (l1, d, q)" by (rule prod_cases3)
    obtain l2 d2 q2 where x': "x' = (l2, d2, q2)" by (rule prod_cases3)
    from Ix obtain pages where p: "list_all (\<lambda>vs. 100 \<le> length vs) pages" "map (\<lambda>i. F (wrap64 (p + int i))) [0..<length pages] = map Inr pages"
      "q = wrap64 (p + int (length pages))" "d = wrap64 (c + int (length (concat pages)))" unfolding I_def x by auto
    obtain vs where "F q = Inr vs" "100 \<le> length vs" "q2 = wrap64 (q + 1)" "d2 = wrap64 (d + int (length vs))"
      using collect_page_fetches [OF b [unfolded x] assms(2)] by (auto simp: x')
    with p have "I (l2, d2, q2) s'" unfolding I_def
      by (auto simp: wrap64_add ac_simps intro!: exI [of _ "pages @ [vs]"])
    then show ?thesis by (simp add: x')
  qed
  have "\<exists>x s'. I x s' \<and> collect_page rn scope fetch commit target x s' = (Inr (Inl (l', c')), t)"
    by (rule loop_rule [OF assms(1), of I, OF start]) (rule step)
  then obtain x s' where Ix: "I x s'" and last: "collect_page rn scope fetch commit target x s' = (Inr (Inl (l', c')), t)" by blast
  obtain l1 d q where x: "x = (l1, d, q)" by (rule prod_cases3)
  from Ix obtain pages where p: "list_all (\<lambda>vs. 100 \<le> length vs) pages" "map (\<lambda>i. F (wrap64 (p + int i))) [0..<length pages] = map Inr pages"
      "q = wrap64 (p + int (length pages))" "d = wrap64 (c + int (length (concat pages)))" unfolding I_def x by auto
  obtain vs where "F q = Inr vs" "length vs < 100" "c' = wrap64 (d + int (length vs))"
    using collect_page_fetches [OF last [unfolded x] assms(2)] by auto
  with p show ?thesis by (intro exI [of _ "pages @ [vs]"]) (auto simp: wrap64_add add.assoc)
qed

text \<open>
  A collection always ends, whatever the stores do, when some page from the first on is short or cannot be read.
\<close>
theorem collection_terminates:
  assumes "\<And>n s. fst (fetch n s) = F n" "1 \<le> p" "p \<le> n" "n < max_int64" "case F n of Inl e \<Rightarrow> True | Inr vs \<Rightarrow> length vs < 100"
  shows "loop (collect_page rn scope fetch commit target) (l, c, p) s \<noteq> None"
proof (rule loop_terminates [where I = "\<lambda>x _. 1 \<le> snd (snd x) \<and> snd (snd x) \<le> n" and m = "\<lambda>x _. nat (n - snd (snd x))"])
  show "1 \<le> snd (snd (l, c, p)) \<and> snd (snd (l, c, p)) \<le> n" using assms by simp
  fix x s x' s'
  assume I: "1 \<le> snd (snd x) \<and> snd (snd x) \<le> n" and b: "collect_page rn scope fetch commit target x s = (Inr (Inr x'), s')"
  obtain l1 d q where x: "x = (l1, d, q)" by (rule prod_cases3)
  obtain l2 d2 q2 where x': "x' = (l2, d2, q2)" by (rule prod_cases3)
  obtain vs where v: "F q = Inr vs" "100 \<le> length vs" "q2 = wrap64 (q + 1)"
    using collect_page_fetches [OF b [unfolded x] assms(1)] by (auto simp: x')
  have "q \<noteq> n" using v assms(5) by auto
  moreover have "1 \<le> q" "q \<le> n" using I x by auto
  moreover have "wrap64 (q + 1) = q + 1" using calculation assms(4) by (simp add: int64_defs)
  ultimately show "(1 \<le> snd (snd x') \<and> snd (snd x') \<le> n) \<and> nat (n - snd (snd x')) < nat (n - snd (snd x))"
    using v(3) by (simp add: x x')
qed

text \<open>The client leaves the pull requests of a page of issues out before the page is counted.\<close>

lemma pull_request_short_page:
  assumes "gh_page c decode owner name ''/issues?state=all&per_page=100&page='' page = Inr ds" "length ds \<le> 100"
    "list_ex (\<lambda>d. it_PullRequest d \<noteq> None) ds" "gh_Issues c decode encode owner name page = Inr vs"
  shows "length vs < 100"
proof -
  have len: "length vs = length (filter (\<lambda>d. it_PullRequest d = None) ds)"
    using assms(1,4) by (auto simp: gh_Issues_def result_simps retain_Inr_iff)
  obtain d where "d \<in> set ds" "it_PullRequest d \<noteq> None" using assms(3) by (auto simp: list_ex_iff)
  then have "length (filter (\<lambda>d. it_PullRequest d = None) ds) < length ds" by (intro length_filter_less [of d]) auto
  with assms(2) len show ?thesis by simp
qed

text \<open>Two loops whose bodies agree wherever the first one comes, and make progress there, have one outcome.\<close>

lemma loop_same:
  assumes "I x" "\<And>x s. I x \<Longrightarrow> body' x s = body x s" "\<And>x s x' t. I x \<Longrightarrow> body x s = (Inr (Inr x'), t) \<Longrightarrow> I x' \<and> m x' < (m x :: nat)"
  shows "loop body' x s = loop body x s \<and> loop body x s \<noteq> None"
  using assms(1)
proof (induction "m x" arbitrary: x s rule: less_induct)
  case less
  obtain r t where b: "body x s = (r, t)" by fastforce
  show ?case
  proof (cases "\<exists>x'. r = Inr (Inr x')")
    case True
    then obtain x' where r: "r = Inr (Inr x')" by blast
    with assms(3) [OF less.prems, of s x' t] b less.hyps [of x' t]
    have "loop body' x' t = loop body x' t \<and> loop body x' t \<noteq> None" by simp
    then show ?thesis using b r assms(2) [OF less.prems, of s] by (simp add: loop.simps [of body' x s] loop.simps [of body x s])
  next
    case False
    then show ?thesis using b assms(2) [OF less.prems, of s]
      by (auto simp: loop.simps [of body' x s] loop.simps [of body x s] split: sum.splits)
  qed
qed

section \<open>Retries\<close>

text \<open>A job is retried after a delay between a second and an hour, by the back-off of the store, or not at all.\<close>
theorem retry_delay_bounded:
  "retryDelay e now \<in> {- 1, 0} \<union> {second..hour}"
  by (auto simp: retryDelay_def duration_defs Let_def split: option.splits)

text \<open>
  A rate limit that comes without a reset time is retried after a second: the 15 minutes meant for it are never used for an
  error of the client.
\<close>

lemma unknown_reset_retried_at_once:
  assumes "check_status r = Some (GhRateLimited t)" "rs_Header r ''X-RateLimit-Reset'' = ''''" "nanos now > unix_epoch"
  shows "retryDelay (WkRateLimited (Some t)) now = second"
proof -
  have t: "t = Time unix_epoch UTC" by (rule rate_limit_reset_not_zero [OF assms(1,2)])
  show ?thesis using assms(3) unfolding t
    by (auto simp: retryDelay_def rate_limited_def is_zero_def unix_epoch_def time_sub_def second_def hour_def int64_defs Let_def)
qed

section \<open>The runner of the program\<close>

text \<open>
  The stores of the program side by side. Each call is one step: before it other processes may have changed the
  tables in any way (\<open>we_Other\<close>), and its clock, its fresh identifiers and the rows that are locked are those
  of the step. The materialiser and the exports are arguments.
\<close>

record worker_world =
  ww_Tick :: nat
  ww_Jobs :: job_db
  ww_Purge :: purge_db
  ww_Ingest :: ingest_db

record worker_env =
  we_Now :: "nat \<Rightarrow> gotime"
  we_IDs :: "nat \<Rightarrow> int64 list"
  we_Locked :: "nat \<Rightarrow> int64 list"
  we_Context :: "nat \<Rightarrow> worker_error option"
  we_Other :: "nat \<Rightarrow> worker_world \<Rightarrow> worker_world"
  we_Client :: "nat \<Rightarrow> gh_client"
  we_Repository :: "string \<Rightarrow> repositoryDTO option"
  we_Issues :: "string \<Rightarrow> issueDTO list option"
  we_Pulls :: "string \<Rightarrow> pullRequestDTO list option"
  we_Releases :: "string \<Rightarrow> releaseDTO list option"
  we_Commits :: "string \<Rightarrow> commitDTO list option"
  we_Issue :: "issueDTO \<Rightarrow> string option"
  we_Pull :: "pullRequestDTO \<Rightarrow> string option"
  we_Release :: "releaseDTO \<Rightarrow> string option"
  we_Commit :: "commitDTO \<Rightarrow> string option"
  we_Lib :: page_lib
  we_Materialize :: "(int64 \<Rightarrow> gotime \<Rightarrow> (worker_world, unit) act) option"
  we_Exports :: "(JobLease \<Rightarrow> (worker_world, unit) act) option"

definition world_step :: "worker_env \<Rightarrow> (nat \<Rightarrow> worker_world \<Rightarrow> 'r \<times> worker_world) \<Rightarrow> worker_world \<Rightarrow> 'r \<times> worker_world" where
  "world_step env f w = f (ww_Tick w) ((we_Other env (ww_Tick w) w)\<lparr>ww_Tick := ww_Tick w + 1\<rparr>)"

fun of_jobstore :: "jobstore_error \<Rightarrow> worker_error" where
  "of_jobstore (JsJob JobErrLeaseUnavailable) = WkLeaseUnavailable"
| "of_jobstore (JsJob JobErrConflict) = WkConflict"
| "of_jobstore e = WkMessage ''job store''"

fun of_transport :: "transport_error \<Rightarrow> worker_error" where
  "of_transport TransportCanceled = WkCanceled"
| "of_transport TransportDeadline = WkDeadlineExceeded"
| "of_transport (TransportOther m) = WkMessage m"

fun of_github :: "gh_error \<Rightarrow> worker_error" where
  "of_github GhNotPublic = WkNotPublic"
| "of_github (GhRateLimited t) = WkRateLimited (Some t)"
| "of_github (GhRequest e) = WkWrap (of_transport e)"
| "of_github (GhRead e) = WkWrap (of_transport e)"
| "of_github e = WkMessage ''github''"

fun of_purge :: "purge_error \<Rightarrow> worker_error" where
  "of_purge (PuJob e) = of_jobstore e"
| "of_purge e = WkMessage ''purge''"

definition jobs_act :: "worker_env \<Rightarrow> (nat \<Rightarrow> job_db \<Rightarrow> jobstore_error + job_db \<times> 'a) \<Rightarrow> (worker_world, 'a) act" where
  "jobs_act env f = world_step env (\<lambda>n w. case f n (ww_Jobs w) of Inl e \<Rightarrow> (Inl (of_jobstore e), w)
     | Inr (db, v) \<Rightarrow> (Inr v, w\<lparr>ww_Jobs := db\<rparr>))"

text \<open>The projects of the ingestion tables are those of the purge.\<close>

definition ingest_view :: "worker_world \<Rightarrow> ingest_db" where
  "ingest_view w = (ww_Ingest w)\<lparr>ig_Projects := map (\<lambda>p. (pu_ID p, pu_State p)) (qd_projects (ww_Purge w))\<rparr>"

definition ingest_act :: "worker_env \<Rightarrow> (nat \<Rightarrow> ingest_db \<Rightarrow> ingest_error + ingest_db) \<Rightarrow> (worker_world, unit) act" where
  "ingest_act env f = world_step env (\<lambda>n w. case f n (ingest_view w) of Inl e \<Rightarrow> (Inl (WkMessage ''ingestion''), w)
     | Inr db \<Rightarrow> (Inr (), w\<lparr>ww_Ingest := db\<rparr>))"

definition client_act :: "worker_env \<Rightarrow> (gh_client \<Rightarrow> gh_error + 'a) \<Rightarrow> (worker_world, 'a) act" where
  "client_act env f = world_step env (\<lambda>n w. case f (we_Client env n) of Inl e \<Rightarrow> (Inl (of_github e), w) | Inr v \<Rightarrow> (Inr v, w))"

definition cursor_of :: "ingest_db \<Rightarrow> int64 \<Rightarrow> string \<Rightarrow> string option" where
  "cursor_of db s scope = map_option sk_Cursor (find (\<lambda>c. sk_SourceID c = s \<and> sk_Scope c = scope) (ig_Checkpoints db))"

definition postgres_github :: "worker_env \<Rightarrow> worker_world github_side" where
  "postgres_github env = \<lparr>
     gs_Repository = (\<lambda>owner name. client_act env (\<lambda>c. gh_Repository c (we_Repository env) owner name)),
     gs_Issues = (\<lambda>owner name page. client_act env (\<lambda>c. gh_Issues c (we_Issues env) (we_Issue env) owner name page)),
     gs_PullRequests = (\<lambda>owner name page. client_act env (\<lambda>c. gh_PullRequests c (we_Pulls env) (we_Pull env) owner name page)),
     gs_Releases = (\<lambda>owner name page. client_act env (\<lambda>c. gh_Releases c (we_Releases env) (we_Release env) owner name page)),
     gs_Commits = (\<lambda>owner name branch page. client_act env (\<lambda>c. gh_Commits c (we_Commits env) (we_Commit env) owner name branch page)),
     gs_Source = (\<lambda>projectID. world_step env (\<lambda>n w.
       case GitHubSource (ig_Sources (ww_Ingest w)) (cursor_of (ww_Ingest w)) projectID (we_Now env n) of
         Inl e \<Rightarrow> (Inl (of_jobstore e), w) | Inr target \<Rightarrow> (Inr target, w))),
     gs_MarkUnavailable = (\<lambda>sourceID code. world_step env (\<lambda>n w.
       case MarkSourceUnavailable (ig_Sources (ww_Ingest w)) sourceID code (we_Now env n) of
         Inl e \<Rightarrow> (Inl (of_jobstore e), w) | Inr srcs \<Rightarrow> (Inr (), w\<lparr>ww_Ingest := (ww_Ingest w)\<lparr>ig_Sources := srcs\<rparr>\<rparr>))),
     gs_CommitIssues = (\<lambda>g vs. ingest_act env (\<lambda>n. CommitGitHubIssues (we_Lib env) g vs (we_Now env n) (we_IDs env n))),
     gs_CommitPulls = (\<lambda>g vs. ingest_act env (\<lambda>n. CommitGitHubPullRequests (we_Lib env) g vs (we_Now env n) (we_IDs env n))),
     gs_CommitReleases = (\<lambda>g vs. ingest_act env (\<lambda>n. CommitGitHubReleases (we_Lib env) g vs (we_Now env n) (we_IDs env n))),
     gs_CommitCommits = (\<lambda>g vs. ingest_act env (\<lambda>n. CommitGitHubCommits (we_Lib env) g vs (we_Now env n) (we_IDs env n)))\<rparr>"

definition postgres_runner :: "worker_env \<Rightarrow> string \<Rightarrow> worker_world runner" where
  "postgres_runner env holder = \<lparr>
     rn_Holder = holder, rn_TTL = defaultLeaseTTL,
     rn_Claim = (\<lambda>h ttl. jobs_act env (\<lambda>n db. Claim_any db h ttl (we_Now env n) (we_Now env n) (we_Locked env n) (we_IDs env n))),
     rn_ClaimJob = (\<lambda>i h ttl. jobs_act env (\<lambda>n db. ClaimJob db i h ttl (we_Now env n) (we_Now env n) (we_Locked env n) (we_IDs env n))),
     rn_Heartbeat = (\<lambda>l ttl. jobs_act env (\<lambda>n db. Heartbeat db l ttl (we_Now env n))),
     rn_CheckCancelled = (\<lambda>l. jobs_act env (\<lambda>n db. map_sum id (\<lambda>b. (db, b)) (CheckCancelled db l))),
     rn_Checkpoint = (\<lambda>l done c. jobs_act env (\<lambda>n db. store_Checkpoint db l done c (we_Now env n) (we_IDs env n))),
     rn_MarkCollectionSuccess = (\<lambda>l. world_step env (\<lambda>n w.
       case MarkCollectionSuccess (ww_Jobs w) (ig_Sources (ww_Ingest w)) l (we_Now env n) of
         Inl e \<Rightarrow> (Inl (of_jobstore e), w) | Inr srcs \<Rightarrow> (Inr (), w\<lparr>ww_Ingest := (ww_Ingest w)\<lparr>ig_Sources := srcs\<rparr>\<rparr>))),
     rn_PurgeProject = (\<lambda>l batch. world_step env (\<lambda>n w.
       case PurgeProject (pl_Sha (we_Lib env)) l batch (we_Locked env n) (we_Now env n) (we_IDs env n) (ww_Purge w) (ww_Jobs w) of
         (Inl e, qdb, db) \<Rightarrow> (Inl (of_purge e), w\<lparr>ww_Purge := qdb, ww_Jobs := db\<rparr>)
       | (Inr v, qdb, db) \<Rightarrow> (Inr v, w\<lparr>ww_Purge := qdb, ww_Jobs := db\<rparr>))),
     rn_Complete = (\<lambda>l. jobs_act env (\<lambda>n db. map_sum id (\<lambda>db. (db, ())) (Complete db l (we_Now env n) (we_IDs env n)))),
     rn_Fail = (\<lambda>l code delay. jobs_act env (\<lambda>n db. map_sum id (\<lambda>db. (db, ())) (store_Fail db l code delay (we_Now env n) (we_IDs env n)))),
     rn_GitHub = Some (postgres_github env), rn_Intelligence = we_Materialize env, rn_Exports = we_Exports env,
     rn_Context = world_step env (\<lambda>n w. case we_Context env n of None \<Rightarrow> (Inr (), w) | Some e \<Rightarrow> (Inl e, w)),
     rn_Now = world_step env (\<lambda>n w. (we_Now env n, w))\<rparr>"

lemma jobs_act_Inr [result_simps]: "jobs_act env f w = (Inr v, w') \<longleftrightarrow> (\<exists>n w1 db. w1 = (we_Other env (ww_Tick w) w)\<lparr>ww_Tick := ww_Tick w + 1\<rparr> \<and>
    n = ww_Tick w \<and> f n (ww_Jobs w1) = Inr (db, v) \<and> w' = w1\<lparr>ww_Jobs := db\<rparr>)"
  by (auto simp: jobs_act_def world_step_def split: sum.splits prod.splits)

lemma Heartbeat_job: "Heartbeat db l ttl now = Inr (db', l') \<Longrightarrow> jb_ID (lz_Job l') = jb_ID (lz_Job l)"
  by (auto simp: Heartbeat_def Let_def split: if_splits option.splits)

lemma store_Checkpoint_job: "store_Checkpoint db l n c now ids = Inr (db', l') \<Longrightarrow> jb_ID (lz_Job l') = jb_ID (lz_Job l)"
  by (auto simp: store_Checkpoint_def Let_def result_simps split: option.splits)

lemma purge_checkpoint_job: "purge_checkpoint b n l now ids qdb db = (Inr (b', l'), x) \<Longrightarrow> jb_ID (lz_Job l') = jb_ID (lz_Job l)"
  by (auto simp: purge_checkpoint_def dest: store_Checkpoint_job split: sum.splits prod.splits)

lemma PurgeProject_job: "PurgeProject sha l batch locked now ids qdb db = (Inr (b, l'), x) \<Longrightarrow> jb_ID (lz_Job l') = jb_ID (lz_Job l)"
  by (auto simp: PurgeProject_def Let_def dest: purge_checkpoint_job split: option.splits if_splits sum.splits prod.splits)

interpretation postgres: lease_store "postgres_runner env holder" for env holder
proof unfold_locales
  fix l l' ttl s t
  assume "rn_Heartbeat (postgres_runner env holder) l ttl s = (Inr l', t)"
  then show "jb_ID (lz_Job l') = jb_ID (lz_Job l)" by (auto simp: postgres_runner_def result_simps dest: Heartbeat_job)
next
  fix l l' n c s t
  assume "rn_Checkpoint (postgres_runner env holder) l n c s = (Inr l', t)"
  then show "jb_ID (lz_Job l') = jb_ID (lz_Job l)" by (auto simp: postgres_runner_def result_simps dest: store_Checkpoint_job)
next
  fix l l' n s b t
  assume "rn_PurgeProject (postgres_runner env holder) l n s = (Inr (b, l'), t)"
  then show "jb_ID (lz_Job l') = jb_ID (lz_Job l)"
    by (auto simp: postgres_runner_def world_step_def dest: PurgeProject_job split: sum.splits prod.splits)
qed

section \<open>A pull request among the issues\<close>

text \<open>Of the functions of the runner, only those of the client look at the client.\<close>

lemma world_step_client: "world_step (env\<lparr>we_Client := k\<rparr>) f = world_step env f"
  by (simp add: world_step_def fun_eq_iff)

lemma runner_fields:
  "rn_TTL (postgres_runner (env\<lparr>we_Client := k\<rparr>) h) = rn_TTL (postgres_runner env h)"
  "rn_Context (postgres_runner (env\<lparr>we_Client := k\<rparr>) h) = rn_Context (postgres_runner env h)"
  "rn_CheckCancelled (postgres_runner (env\<lparr>we_Client := k\<rparr>) h) = rn_CheckCancelled (postgres_runner env h)"
  "rn_Now (postgres_runner (env\<lparr>we_Client := k\<rparr>) h) = rn_Now (postgres_runner env h)"
  "rn_Checkpoint (postgres_runner (env\<lparr>we_Client := k\<rparr>) h) = rn_Checkpoint (postgres_runner env h)"
  "rn_Heartbeat (postgres_runner (env\<lparr>we_Client := k\<rparr>) h) = rn_Heartbeat (postgres_runner env h)"
  by (simp_all add: postgres_runner_def jobs_act_def world_step_client)

lemma runner_without_client:
  "collect_page (postgres_runner (env\<lparr>we_Client := k\<rparr>) holder) scope fetch commit target =
     collect_page (postgres_runner env holder) scope fetch commit target"
  "gs_CommitIssues (postgres_github (env\<lparr>we_Client := k\<rparr>)) = gs_CommitIssues (postgres_github env)"
  unfolding collect_page_def collectionAllowed_def runner_fields
  by (rule refl) (simp add: postgres_github_def ingest_act_def world_step_client)

lemma issues_of_client:
  "gs_Issues (postgres_github (env\<lparr>we_Client := \<lambda>_. c\<rparr>)) owner name page = client_act (env\<lparr>we_Client := \<lambda>_. c\<rparr>)
     (\<lambda>c. gh_Issues c (we_Issues env) (we_Issue env) owner name page)"
  by (simp add: postgres_github_def)

lemma client_act_answer:
  "client_act (env\<lparr>we_Client := \<lambda>_. c\<rparr>) f w = (map_sum of_github id (f c), (we_Other env (ww_Tick w) w)\<lparr>ww_Tick := ww_Tick w + 1\<rparr>)"
  by (simp add: client_act_def world_step_def split: sum.split)

text \<open>
  C25: GitHub lists pull requests among the issues, 100 to a page, and the client leaves them out before the worker counts the page. So a
  page with a pull request ends the collection of issues: whatever the other processes, the clock and the stores do, the collection ends,
  and its whole outcome, the tables, the checkpoint and the count of items included, is the same for any two servers that give the same
  issues up to that page, whatever issues the second one has on the pages after it.
\<close>
theorem pull_request_ends_issues:
  assumes "gh_page c (we_Issues env) (gt_Owner target) (gt_Repository target) ''/issues?state=all&per_page=100&page='' n = Inr ds"
    and "length ds \<le> 100" and "list_ex (\<lambda>d. it_PullRequest d \<noteq> None) ds"
    and "1 \<le> target_page target ''github_issues''" and "target_page target ''github_issues'' \<le> n" and "n < max_int64"
    and "\<forall>i \<in> {target_page target ''github_issues''..n}. gh_Issues c' (we_Issues env) (we_Issue env) (gt_Owner target) (gt_Repository target) i =
      gh_Issues c (we_Issues env) (we_Issue env) (gt_Owner target) (gt_Repository target) i"
  shows "collectGitHubIssues (postgres_runner (env\<lparr>we_Client := \<lambda>_. c'\<rparr>) holder) (postgres_github (env\<lparr>we_Client := \<lambda>_. c'\<rparr>)) target l done w =
      collectGitHubIssues (postgres_runner (env\<lparr>we_Client := \<lambda>_. c\<rparr>) holder) (postgres_github (env\<lparr>we_Client := \<lambda>_. c\<rparr>)) target l done w \<and>
    collectGitHubIssues (postgres_runner (env\<lparr>we_Client := \<lambda>_. c\<rparr>) holder) (postgres_github (env\<lparr>we_Client := \<lambda>_. c\<rparr>)) target l done w \<noteq> None"
proof -
  let ?p = "target_page target ''github_issues''"
  let ?get = "\<lambda>c n. gh_Issues c (we_Issues env) (we_Issue env) (gt_Owner target) (gt_Repository target) n"
  let ?body = "\<lambda>c. collect_page (postgres_runner env holder) ''github_issues''
    (gs_Issues (postgres_github (env\<lparr>we_Client := \<lambda>_. c\<rparr>)) (gt_Owner target) (gt_Repository target)) (gs_CommitIssues (postgres_github env)) target"
  let ?I = "\<lambda>x :: JobLease \<times> int64 \<times> int. ?p \<le> snd (snd x) \<and> snd (snd x) \<le> n"
  have answers: "gs_Issues (postgres_github (env\<lparr>we_Client := \<lambda>_. c\<rparr>)) (gt_Owner target) (gt_Repository target) i w =
      (map_sum of_github id (?get c i), (we_Other env (ww_Tick w) w)\<lparr>ww_Tick := ww_Tick w + 1\<rparr>)" for c i w
    unfolding issues_of_client client_act_answer by simp
  have "loop (?body c') (l, done, ?p) w = loop (?body c) (l, done, ?p) w \<and> loop (?body c) (l, done, ?p) w \<noteq> None"
  proof (rule loop_same [where I = ?I and m = "\<lambda>x. nat (n - snd (snd x))"])
    show "?I (l, done, ?p)" using assms(5) by simp
    show "?body c' x w = ?body c x w" if "?I x" for x w
    proof -
      obtain l1 d q where x: "x = (l1, d, q)" by (rule prod_cases3)
      have "?get c' q = ?get c q" using assms(7) that by (simp add: x)
      then have "gs_Issues (postgres_github (env\<lparr>we_Client := \<lambda>_. c'\<rparr>)) (gt_Owner target) (gt_Repository target) q =
          gs_Issues (postgres_github (env\<lparr>we_Client := \<lambda>_. c\<rparr>)) (gt_Owner target) (gt_Repository target) q"
        by (simp add: fun_eq_iff answers)
      then show ?thesis by (simp add: x collect_page_def)
    qed
    show "?I x' \<and> nat (n - snd (snd x')) < nat (n - snd (snd x))" if I: "?I x" and b: "?body c x w = (Inr (Inr x'), t)" for x w x' t
    proof -
      obtain l1 d q where x: "x = (l1, d, q)" by (rule prod_cases3)
      obtain l2 d2 q2 where x': "x' = (l2, d2, q2)" by (rule prod_cases3)
      obtain vs where v: "map_sum of_github id (?get c q) = Inr vs" "100 \<le> length vs" "q2 = wrap64 (q + 1)"
        using collect_page_fetches [OF b [unfolded x], of "\<lambda>i. map_sum of_github id (?get c i)"] by (auto simp: x' answers)
      have "?get c q = Inr vs" using v(1) by (cases "?get c q") auto
      then have "q \<noteq> n" using pull_request_short_page [OF assms(1-3)] v(2) by fastforce
      then have "q < n" "1 \<le> q" using I assms(4) by (auto simp: x)
      moreover have "wrap64 (q + 1) = q + 1" using calculation assms(6) by (simp add: int64_defs)
      ultimately show ?thesis using v(3) I by (simp add: x x')
    qed
  qed
  then show ?thesis by (simp add: collectGitHubIssues_def runner_without_client)
qed

section \<open>The outcome of a run\<close>

lemma recordEvent_jobs: "recordEvent db ids v = Inr (db', rest) \<Longrightarrow> jt_jobs db' = jt_jobs db"
  by (auto simp: recordEvent_def split: list.splits if_splits)

lemma finished_state: "row_by_job (close_attempts p st now code (update_job db i (finished_row final c now a))) i =
    map_option (finished_row final c now a) (row_by_job db i)"
  using row_by_job_update [of "finished_row final c now a" db i i]
  by (simp add: row_by_job_def close_attempts_def finished_row_def)

lemma Complete_succeeds:
  assumes "Complete db l now ids = Inr db'"
  shows "\<exists>r. row_by_job db' (jb_ID (lz_Job l)) = Some r \<and> jb_State (jr_job r) = Succeeded"
proof -
  from assms obtain r db2 v rest where r: "row_by_job db (jb_ID (lz_Job l)) = Some r"
    and e: "recordEvent (close_attempts (\<lambda>a. ja_ID a = lz_AttemptID l) Succeeded (utc now) '''' (update_job db (jb_ID (lz_Job l))
      (finished_row Succeeded '''' (utc now) (utc now)))) ids v = Inr (db', rest)"
    by (auto simp: Complete_def store_finish_def Let_def result_simps split: option.splits if_splits)
  have "row_by_job db' (jb_ID (lz_Job l)) = Some (finished_row Succeeded '''' (utc now) (utc now) r)"
    using recordEvent_jobs [OF e] finished_state r by (simp add: row_by_job_def)
  then show ?thesis by (simp add: finished_row_def)
qed

lemma store_claim_job: "store_claim db i h ttl now dbnow locked ids = Inr (db', Some l) \<Longrightarrow> i \<noteq> 0 \<Longrightarrow> jb_ID (lz_Job l) = i"
proof -
  assume c: "store_claim db i h ttl now dbnow locked ids = Inr (db', Some l)" and i: "i \<noteq> 0"
  then obtain r rs where r: "sort_func cmp_claim (claimable db i locked dbnow) = r # rs" and l: "jb_ID (lz_Job l) = jb_ID (jr_job r)"
    by (auto simp: store_claim_def Let_def result_simps split: list.splits if_splits)
  have "r \<in> set (claimable db i locked dbnow)" using r set_sort_func [of cmp_claim "claimable db i locked dbnow"] by auto
  with i l show ?thesis by (auto simp: claimable_def)
qed

text \<open>
  C22: A run of a job that ends without an error leaves it succeeded, unless it had been cancelled, whatever other processes
  do to the tables in between, whatever the source and the clock say, and however often pages or purges are retried.
\<close>
theorem successful_run_settles_job:
  assumes "RunJob (postgres_runner env holder) i w = Some (True, None, w')" "i > 0"
  shows "\<exists>r. row_by_job (ww_Jobs w') i = Some r \<and> jb_State (jr_job r) \<in> {Succeeded, Cancelled}"
proof -
  obtain l w1 where c: "rn_ClaimJob (postgres_runner env holder) i holder defaultLeaseTTL w = (Inr (Some l), w1)"
      and run: "runLease (postgres_runner env holder) l w1 = Some (True, None, w')"
    using assms(1) by (auto simp: RunJob_def run_claimed_def postgres_runner_def split: prod.splits sum.splits option.splits)
  have l: "jb_ID (lz_Job l) = i" using c assms(2) by (auto simp: postgres_runner_def ClaimJob_def result_simps split: if_splits dest: store_claim_job)
  from postgres.success_completes [OF run] show ?thesis
  proof
    assume "postgres.completed env holder (jb_ID (lz_Job l)) w'"
    then obtain l2 s where "jb_ID (lz_Job l2) = i" "rn_Complete (postgres_runner env holder) l2 s = (Inr (), w')"
      unfolding postgres.completed_def l by blast
    then show ?thesis by (auto simp: postgres_runner_def result_simps dest!: Complete_succeeds)
  next
    assume "rn_CheckCancelled (postgres_runner env holder) l w1 = (Inr True, w')"
    then show ?thesis using l by (auto simp: postgres_runner_def result_simps CheckCancelled_def split: option.splits)
  qed
qed

text \<open>
  A page that takes longer than the lease costs the job: with attempts left and no other worker holding it, the checkpoint
  is refused, the refusal is reported as \<open>lease_lost\<close> without a retry, and the report, when it is accepted, fails the job for good.
\<close>
theorem late_page_fails_job:
  assumes "row_by_job db (jb_ID (lz_Job l)) = Some r" "jb_State (jr_job r) = Running" "jr_Holder r = Some (lz_Holder l)"
    "jr_ExpiresAt r = Some t" "\<not> after t (pg_time (utc now))" "store_Fail db l (failureCode WkLeaseUnavailable) (retryDelay WkLeaseUnavailable later) later ids = Inr db'"
  shows "store_Checkpoint db l n c now ids = Inl (JsJob JobErrLeaseUnavailable) \<and> of_jobstore (JsJob JobErrLeaseUnavailable) = WkLeaseUnavailable \<and>
    (\<exists>r'. row_by_job db' (jb_ID (lz_Job l)) = Some r' \<and> jb_State (jr_job r') = Failed \<and> jb_Failure (jr_job r') = ''lease_lost'')"
proof -
  have code: "failureCode WkLeaseUnavailable = ''lease_lost''" "retryDelay WkLeaseUnavailable later = - 1" "trim_space ''lease_lost'' \<noteq> ''''"
    by (simp_all add: failureCode_def retryDelay_def rate_limited_def, code_simp)
  from assms(1-3,6) code obtain db2 v rest corr time rest' where
    e: "recordEvent (close_attempts (\<lambda>a. ja_ID a = lz_AttemptID l) Failed (utc later) ''lease_lost'' (update_job db (jb_ID (lz_Job l))
      (finished_row Failed ''lease_lost'' (utc later) (utc later)))) ids v = Inr (db2, rest)"
    and d: "recordDeliveryEvent db2 rest v ''job.dead_lettered'' corr time = Inr (db', rest')"
    by (auto simp: store_Fail_def store_finish_def Let_def result_simps split: if_splits)
  have "jt_jobs db' = jt_jobs db2" using d by (auto simp: recordDeliveryEvent_def insert_delivery_def Let_def split: list.splits if_splits)
  then have "row_by_job db' (jb_ID (lz_Job l)) = Some (finished_row Failed ''lease_lost'' (utc later) (utc later) r)"
    using recordEvent_jobs [OF e] finished_state assms(1) by (simp add: row_by_job_def)
  moreover have "held_row db l (utc now) = None" using assms(1-5) by (simp add: held_row_def)
  ultimately show ?thesis by (simp add: store_Checkpoint_def Let_def finished_row_def)
qed

section \<open>Concrete runs\<close>

definition sample_response :: gh_response where
  "sample_response = \<lparr>rs_Status = 200, rs_Header = (\<lambda>_. ''''), rs_Bytes = ''[]'', rs_Broken = None\<rparr>"

definition sample_client :: gh_client where
  "sample_client = \<lparr>ghc_Token = '''', ghc_MaxPayload = 0, ghc_Resolve = (\<lambda>ref. Some (''https'', ''api.github.com'', ref)), ghc_Do = (\<lambda>_. Inr sample_response)\<rparr>"

definition sample_repository :: repositoryDTO where
  "sample_repository = \<lparr>rt_ID = 9, rt_Name = ''p'', rt_Description = '''', rt_Private = False, rt_Visibility = ''public'', rt_HTMLURL = ''https://github.com/o/p'',
     rt_DefaultBranch = ''main'', rt_UpdatedAt = Time 0 UTC, rt_Login = ''o''\<rparr>"

definition sample_env :: worker_env where
  "sample_env = \<lparr>we_Now = (\<lambda>n. Time (10000 + 1000 * int n) UTC), we_IDs = (\<lambda>n. map (\<lambda>k. 1000 + 10 * int n + int k) [0..<10]), we_Locked = (\<lambda>_. []),
     we_Context = (\<lambda>_. None), we_Other = (\<lambda>_ w. w), we_Client = (\<lambda>_. sample_client), we_Repository = (\<lambda>_. Some sample_repository),
     we_Issues = (\<lambda>_. Some []), we_Pulls = (\<lambda>_. Some []), we_Releases = (\<lambda>_. Some []), we_Commits = (\<lambda>_. Some []),
     we_Issue = (\<lambda>_. Some ''''), we_Pull = (\<lambda>_. Some ''''), we_Release = (\<lambda>_. Some ''''), we_Commit = (\<lambda>_. Some ''''), we_Lib = sample_lib,
     we_Materialize = None, we_Exports = None\<rparr>"

definition sample_queued_jobs :: job_db where
  "sample_queued_jobs = ys_db (reachable_jobs [DoQueue sample_operator 2 ''project_transition'' ''pages'' ''k'' ''req'' None None (Time 0 UTC) (Time 0 UTC) [11, 12, 13]])"

definition sample_world :: worker_world where
  "sample_world = \<lparr>ww_Tick = 0, ww_Jobs = sample_queued_jobs, ww_Purge = sample_purge_db\<lparr>qd_projects := [\<lparr>pu_ID = 2, pu_Workspace = 1, pu_State = ''active'',
     pu_Slug = ''p'', pu_Reason = '''', pu_Actor = None\<rparr>]\<rparr>, ww_Ingest = sample_ingest_db\<rparr>"

lemma sample_worker_run: "(case RunJob (postgres_runner sample_env ''w'') 11 sample_world of Some (True, None, w) \<Rightarrow> True | _ \<Rightarrow> False)"
  by code_simp

theorem successful_run_settles_job_witness:
  "\<exists>w'. RunJob (postgres_runner sample_env ''w'') 11 sample_world = Some (True, None, w') \<and>
     (\<exists>r. row_by_job (ww_Jobs w') 11 = Some r \<and> jb_State (jr_job r) \<in> {Succeeded, Cancelled})"
proof -
  obtain w' where "RunJob (postgres_runner sample_env ''w'') 11 sample_world = Some (True, None, w')"
    using sample_worker_run by (auto split: option.splits prod.splits bool.splits)
  then show ?thesis using successful_run_settles_job [of sample_env "''w''" 11 sample_world w'] by simp
qed

text \<open>A runner whose stores accept everything, over a state that does not matter.\<close>

definition sample_runner :: "nat runner" where
  "sample_runner = \<lparr>rn_Holder = ''w'', rn_TTL = defaultLeaseTTL, rn_Claim = (\<lambda>_ _. ret None), rn_ClaimJob = (\<lambda>_ _ _. ret None),
     rn_Heartbeat = (\<lambda>l _. ret l), rn_CheckCancelled = (\<lambda>_. ret False), rn_Checkpoint = (\<lambda>l _ _. ret l), rn_MarkCollectionSuccess = (\<lambda>_. ret ()),
     rn_PurgeProject = (\<lambda>l _. ret (True, l)), rn_Complete = (\<lambda>_. ret ()), rn_Fail = (\<lambda>_ _ _. ret ()), rn_GitHub = None,
     rn_Intelligence = None, rn_Exports = None, rn_Context = ret (), rn_Now = (\<lambda>n. (Time 0 UTC, Suc n))\<rparr>"

definition sample_pages :: "int \<Rightarrow> (nat, unit list) act" where
  "sample_pages n = ret (if n = 1 then replicate 100 () else [()])"

lemma sample_loop:
  "loop (collect_page sample_runner ''github_issues'' sample_pages (\<lambda>_ _. ret ()) target) (l, 0, 1) 0 = Some (Inr (l, 101), 2)"
proof -
  have cursors: "nextCursor 1 100 = ''2''" "nextCursor 2 1 = ''complete''" by code_simp+
  have "collect_page sample_runner ''github_issues'' sample_pages (\<lambda>_ _. ret ()) target (l, 0, 1) 0 = (Inr (Inr (l, 100, 2)), 1)"
    "collect_page sample_runner ''github_issues'' sample_pages (\<lambda>_ _. ret ()) target (l, 100, 2) 1 = (Inr (Inl (l, 101)), 2)"
    by (simp_all add: collect_page_def collectionAllowed_def sample_runner_def sample_pages_def bindA_def bindN_def ret_def wrap64_def cursors)
  then show ?thesis by (simp add: loop.simps)
qed

theorem collection_ends_at_short_page_witness:
  "\<exists>pages. pages \<noteq> [] \<and> list_all (\<lambda>vs. 100 \<le> length vs) (butlast pages) \<and> length (last pages) < 100 \<and>
     map (\<lambda>i. (Inr (if wrap64 (1 + int i) = 1 then replicate 100 () else [()]) :: worker_error + unit list)) [0..<length pages] = map Inr pages \<and>
     101 = wrap64 (0 + int (length (concat pages)))"
  by (rule collection_ends_at_short_page [OF sample_loop, of "\<lambda>n. Inr (if n = 1 then replicate 100 () else [()])"])
    (auto simp: sample_pages_def ret_def int64_defs)

definition sample_target :: GitHubTarget where
  "sample_target = \<lparr>gt_ProjectID = 2, gt_RepositoryID = 3, gt_SourceID = 4, gt_Owner = ''o'', gt_Repository = ''p'',
     gt_Pages = [(''github_issues'', 1)], gt_CoverageFrom = Time 0 UTC\<rparr>"

theorem collection_terminates_witness:
  "loop (collect_page sample_runner ''github_issues'' sample_pages (\<lambda>_ _. ret ()) sample_target) (sample_lease, 0, 1) 0 \<noteq> None"
  by (rule collection_terminates [of sample_pages "\<lambda>n. Inr (if n = 1 then replicate 100 () else [()])" 1 2])
    (auto simp: sample_pages_def ret_def int64_defs)

definition sample_issue_dto :: "string option \<Rightarrow> issueDTO" where
  "sample_issue_dto pull = \<lparr>it_ID = 7, it_Number = 1, it_Title = '''', it_State = ''open'', it_CreatedAt = Time 1 UTC, it_UpdatedAt = Time 1 UTC,
     it_ClosedAt = None, it_PullRequest = pull, it_Login = ''a''\<rparr>"

text \<open>A server whose first page holds 99 issues and a pull request, against one whose later pages are lost.\<close>

definition sample_issues_page :: "issueDTO list" where
  "sample_issues_page = replicate 99 (sample_issue_dto None) @ [sample_issue_dto (Some ''{}'')]"

definition sample_issue_env :: worker_env where
  "sample_issue_env = sample_env\<lparr>we_Issues := \<lambda>_. Some sample_issues_page, we_Issue := \<lambda>_. Some ''''\<rparr>"

definition lost_client :: gh_client where
  "lost_client = sample_client\<lparr>ghc_Do := \<lambda>q. if rq_URL q = ''/repos/o/p/issues?state=all&per_page=100&page=1''
     then Inr sample_response else Inl TransportCanceled\<rparr>"

theorem pull_request_ends_issues_witness:
  "collectGitHubIssues (postgres_runner (sample_issue_env\<lparr>we_Client := \<lambda>_. lost_client\<rparr>) ''w'')
      (postgres_github (sample_issue_env\<lparr>we_Client := \<lambda>_. lost_client\<rparr>)) sample_target sample_lease 0 sample_world =
    collectGitHubIssues (postgres_runner (sample_issue_env\<lparr>we_Client := \<lambda>_. sample_client\<rparr>) ''w'')
      (postgres_github (sample_issue_env\<lparr>we_Client := \<lambda>_. sample_client\<rparr>)) sample_target sample_lease 0 sample_world"
proof -
  let ?e = "sample_issue_env"
  have page: "gh_page sample_client (we_Issues ?e) (gt_Owner sample_target) (gt_Repository sample_target) ''/issues?state=all&per_page=100&page='' 1 =
      Inr sample_issues_page"
    by (simp add: gh_page_def gh_get_def validSegment_def sample_client_def sample_response_def check_status_def read_body_def wrap64_def to_lower_def
      sample_issue_env_def sample_target_def)
  have first: "repo_path ''o'' ''p'' @ ''/issues?state=all&per_page=100&page='' @ format_int 1 = ''/repos/o/p/issues?state=all&per_page=100&page=1''"
    by code_simp
  have one: "target_page sample_target ''github_issues'' = 1" by (simp add: target_page_def sample_target_def)
  have "gh_Issues lost_client (we_Issues ?e) (we_Issue ?e) (gt_Owner sample_target) (gt_Repository sample_target) 1 =
      gh_Issues sample_client (we_Issues ?e) (we_Issue ?e) (gt_Owner sample_target) (gt_Repository sample_target) 1"
    using first by (simp add: gh_Issues_def gh_page_def gh_get_def gh_request_for_def lost_client_def sample_client_def sample_target_def)
  then have agree: "\<forall>i \<in> {target_page sample_target ''github_issues''..1}.
      gh_Issues lost_client (we_Issues ?e) (we_Issue ?e) (gt_Owner sample_target) (gt_Repository sample_target) i =
      gh_Issues sample_client (we_Issues ?e) (we_Issue ?e) (gt_Owner sample_target) (gt_Repository sample_target) i" by (simp add: one)
  show ?thesis
    using pull_request_ends_issues [OF page _ _ _ _ _ agree, of "''w''" sample_lease 0 sample_world]
    by (simp add: one sample_issues_page_def sample_issue_dto_def int64_defs)
qed

definition sample_late :: job_db where
  "sample_late = (case store_Fail sample_jobs_now sample_lease ''lease_lost'' (- 1) (Time 2000000 UTC) [31, 32] of Inr db \<Rightarrow> db | Inl e \<Rightarrow> sample_jobs_now)"

theorem late_page_fails_job_witness:
  "store_Checkpoint sample_jobs_now sample_lease 1 sample_checkpoint (Time 2000000 UTC) [31, 32] = Inl (JsJob JobErrLeaseUnavailable) \<and>
   (\<exists>r'. row_by_job sample_late (jb_ID (lz_Job sample_lease)) = Some r' \<and> jb_State (jr_job r') = Failed)"
proof -
  have "(case row_by_job sample_jobs_now (jb_ID (lz_Job sample_lease)) of None \<Rightarrow> False
     | Some r \<Rightarrow> jb_State (jr_job r) = Running \<and> jr_Holder r = Some (lz_Holder sample_lease) \<and>
         (case jr_ExpiresAt r of None \<Rightarrow> False | Some t \<Rightarrow> \<not> after t (pg_time (utc (Time 2000000 UTC)))))" by code_simp
  then obtain r t where r: "row_by_job sample_jobs_now (jb_ID (lz_Job sample_lease)) = Some r" "jb_State (jr_job r) = Running"
      "jr_Holder r = Some (lz_Holder sample_lease)" "jr_ExpiresAt r = Some t" "\<not> after t (pg_time (utc (Time 2000000 UTC)))"
    by (auto split: option.splits)
  have "\<not> isl (store_Fail sample_jobs_now sample_lease ''lease_lost'' (- 1) (Time 2000000 UTC) [31, 32])" by code_simp
  then have f: "store_Fail sample_jobs_now sample_lease ''lease_lost'' (- 1) (Time 2000000 UTC) [31, 32] = Inr sample_late"
    unfolding sample_late_def by (cases "store_Fail sample_jobs_now sample_lease ''lease_lost'' (- 1) (Time 2000000 UTC) [31, 32]") auto
  have "failureCode WkLeaseUnavailable = ''lease_lost''" "retryDelay WkLeaseUnavailable (Time 2000000 UTC) = - 1"
    by (simp_all add: failureCode_def retryDelay_def rate_limited_def)
  with f have "store_Fail sample_jobs_now sample_lease (failureCode WkLeaseUnavailable) (retryDelay WkLeaseUnavailable (Time 2000000 UTC)) (Time 2000000 UTC) [31, 32] = Inr sample_late"
    by simp
  from late_page_fails_job [OF r this] show ?thesis by blast
qed
end
