(* ===== verification/Trend.thy ===== *)
theory Trend
  imports Metric
begin

text \<open>
  \<open>internal/trend\<close>: observed trends (Theil-Sen slope, Mann-Kendall consistency) and forecasts with a rolling
  back-test, in the IEEE arithmetic of \<open>Go_Float\<close>. Sums and slopes are computed in the order of the loops.
\<close>

section \<open>Observed trends\<close>

datatype trend_error = TrendErrInvalid

datatype TrendKind = KindObserved | KindForecast

datatype Direction = DirectionIncrease | DirectionDecrease | DirectionStable | DirectionNone

record Point =
  tp_At :: gotime
  tp_Value :: f64
  tp_EvidenceID :: int64

record TrendDefinition =
  td_Version :: string
  td_MinimumPoints :: int
  td_MaximumPoints :: int
  td_Consistency :: f64

definition ObservedV1 :: TrendDefinition where
  "ObservedV1 = \<lparr>td_Version = ''theil-sen-mann-kendall-v1'', td_MinimumPoints = 6, td_MaximumPoints = 730, td_Consistency = of_rat64 (6 / 10)\<rparr>"

record Observed =
  to_ID :: int64
  to_ProjectID :: int64
  to_MetricName :: string
  to_MetricVersion :: string
  to_Kind :: TrendKind
  to_Direction :: Direction
  to_Magnitude :: "f64 option"
  to_ObservationWindow :: MetricWindow
  to_BaselineWindow :: MetricWindow
  to_MethodVersion :: string
  to_Coverage :: Coverage
  to_MinimumPoints :: int
  to_EvidenceIDs :: "int64 list"
  to_InputDigest :: string
  to_SupersededBy :: int64

definition cmp_point :: "Point \<Rightarrow> Point \<Rightarrow> int" where
  "cmp_point a b = time_compare (tp_At a) (tp_At b)"

text \<open>The loops over all pairs, \<open>left\<close> before \<open>right\<close>.\<close>

fun pairs_of :: "'a list \<Rightarrow> ('a \<times> 'a) list" where
  "pairs_of [] = []"
| "pairs_of (x # xs) = map (Pair x) xs @ pairs_of xs"

definition days_between :: "Point \<Rightarrow> Point \<Rightarrow> f64" where
  "days_between l r = fdiv (duration_hours (time_sub (tp_At r) (tp_At l))) (Fin 24)"

definition slopes_of :: "Point list \<Rightarrow> f64 list" where
  "slopes_of points = map (\<lambda>(l, r). fdiv (fsub (tp_Value r) (tp_Value l)) (days_between l r))
     (filter (\<lambda>(l, r). flt (Fin 0) (days_between l r)) (pairs_of points))"

definition TheilSen :: "Point list \<Rightarrow> f64" where
  "TheilSen points =
     (if length points < 2 then Fin 0
      else case Median (slopes_of points) of None \<Rightarrow> Fin 0 | Some v \<Rightarrow> v)"

definition pair_score :: "Point \<times> Point \<Rightarrow> int" where
  "pair_score = (\<lambda>(l, r). if flt (tp_Value l) (tp_Value r) then 1 else if flt (tp_Value r) (tp_Value l) then - 1 else 0)"

definition MannKendallConsistency :: "Point list \<Rightarrow> f64" where
  "MannKendallConsistency points =
     (if length points < 2 then Fin 0
      else fdiv (fabs (of_int_f64 (sum_list (map pair_score (pairs_of points))))) (of_int_f64 (int (length (pairs_of points)))))"

fun check_points :: "MetricWindow \<Rightarrow> MetricWindow \<Rightarrow> Point option \<Rightarrow> Point list \<Rightarrow> bool" where
  "check_points observation baseline previous [] = True"
| "check_points observation baseline previous (p # ps) =
     (if location_of (tp_At p) \<noteq> UTC \<or> \<not> before (tp_At p) (mw_To observation) \<or> before (tp_At p) (mw_From baseline) \<or>
         is_nan (tp_Value p) \<or> is_inf (tp_Value p) \<or> (case previous of None \<Rightarrow> False | Some q \<Rightarrow> \<not> before (tp_At q) (tp_At p))
      then False else check_points observation baseline (Some p) ps)"

definition evidence_ids :: "Point list \<Rightarrow> int64 list" where
  "evidence_ids points = filter (\<lambda>i. i > 0) (map tp_EvidenceID points)"

definition trend_coverage :: "int \<Rightarrow> int \<Rightarrow> string \<Rightarrow> Coverage" where
  "trend_coverage minimum n note = \<lparr>cv_Eligible = max minimum n, cv_Observed = n, cv_Ratio = Fin 0, cv_Note = note\<rparr>"

definition points_required :: "int \<Rightarrow> string" where
  "points_required n = ''at least '' @ format_int n @ '' points are required''"

definition bad_trend_request :: "int64 \<Rightarrow> TrendDefinition \<Rightarrow> string \<Rightarrow> string \<Rightarrow> MetricWindow \<Rightarrow> MetricWindow \<Rightarrow> bool" where
  "bad_trend_request projectID d name version observation baseline \<longleftrightarrow>
     projectID \<le> 0 \<or> trim_space name = '''' \<or> trim_space version = '''' \<or> trim_space (td_Version d) = '''' \<or>
     td_MinimumPoints d < 3 \<or> td_MaximumPoints d < td_MinimumPoints d \<or> fle (td_Consistency d) (Fin 0) \<or> flt (Fin 1) (td_Consistency d) \<or>
     window_Validate observation \<noteq> None \<or> window_Validate baseline \<noteq> None \<or> mw_Cutoff observation \<noteq> mw_Cutoff baseline \<or>
     after (mw_To baseline) (mw_From observation)"

definition CalculateObserved ::
    "int64 \<Rightarrow> TrendDefinition \<Rightarrow> string \<Rightarrow> string \<Rightarrow> MetricWindow \<Rightarrow> MetricWindow \<Rightarrow> Point list \<Rightarrow> trend_error + Observed" where
  "CalculateObserved projectID d name version observation baseline points =
     (if bad_trend_request projectID d name version observation baseline then Inl TrendErrInvalid
      else if int (length points) > td_MaximumPoints d then Inl TrendErrInvalid
      else
        let ordered = sort_func cmp_point points;
            result = \<lparr>to_ID = 0, to_ProjectID = projectID, to_MetricName = name, to_MetricVersion = version, to_Kind = KindObserved,
              to_Direction = DirectionNone, to_Magnitude = None, to_ObservationWindow = observation, to_BaselineWindow = baseline,
              to_MethodVersion = td_Version d, to_Coverage = trend_coverage (td_MinimumPoints d) (int (length ordered)) '''',
              to_MinimumPoints = td_MinimumPoints d, to_EvidenceIDs = evidence_ids ordered, to_InputDigest = '''',
              to_SupersededBy = 0\<rparr> in
        if \<not> check_points observation baseline None ordered then Inl TrendErrInvalid
        else if int (length ordered) < td_MinimumPoints d
        then Inr (result\<lparr>to_Coverage := trend_coverage (td_MinimumPoints d) (int (length ordered)) (points_required (td_MinimumPoints d))\<rparr>)
        else
          let slope = TheilSen ordered; consistency = MannKendallConsistency ordered; measured = result\<lparr>to_Magnitude := Some slope\<rparr> in
          if flt consistency (td_Consistency d)
          then Inr (measured\<lparr>to_Direction := DirectionStable, to_Coverage := trend_coverage (td_MinimumPoints d) (int (length ordered))
            ''directional consistency is below the published threshold''\<rparr>)
          else Inr (measured\<lparr>to_Direction := (if flt (Fin 0) slope then DirectionIncrease else if flt slope (Fin 0) then DirectionDecrease
            else DirectionStable)\<rparr>))"

section \<open>Forecasts\<close>

record ForecastDefinition =
  tf_Version :: string
  tf_MinimumPoints :: int
  tf_MaximumPoints :: int
  tf_MaximumHorizon :: int
  tf_SeasonLength :: int
  tf_Alpha :: f64

definition ForecastV1 :: ForecastDefinition where
  "ForecastV1 = \<lparr>tf_Version = ''rolling-baseline-v1'', tf_MinimumPoints = 12, tf_MaximumPoints = 730, tf_MaximumHorizon = 90,
     tf_SeasonLength = 7, tf_Alpha = of_rat64 (35 / 100)\<rparr>"

record Forecast =
  fo_ID :: int64
  fo_ProjectID :: int64
  fo_MetricName :: string
  fo_MetricVersion :: string
  fo_Kind :: TrendKind
  fo_Status :: Direction
  fo_HorizonDays :: int
  fo_Predicted :: "f64 option"
  fo_IntervalLow :: "f64 option"
  fo_IntervalHigh :: "f64 option"
  fo_Confidence :: "f64 option"
  fo_BacktestError :: "f64 option"
  fo_ModelVersion :: string
  fo_SelectedModel :: string
  fo_Coverage :: Coverage
  fo_EvidenceIDs :: "int64 list"
  fo_OutcomeStatus :: string
  fo_Explanation :: string
  fo_SupersededBy :: int64

definition ExplainForecast :: "Forecast \<Rightarrow> string \<Rightarrow> trend_error + Forecast" where
  "ExplainForecast v explanation =
     (if fo_ID v \<le> 0 \<or> fo_Kind v \<noteq> KindForecast \<or> trim_space explanation = '''' then Inl TrendErrInvalid
      else Inr (v\<lparr>fo_Explanation := trim_space explanation\<rparr>))"

definition SupersedeForecast :: "Forecast \<Rightarrow> int64 \<Rightarrow> trend_error + Forecast" where
  "SupersedeForecast v replacementID =
     (if fo_ID v \<le> 0 \<or> replacementID \<le> 0 \<or> fo_ID v = replacementID \<or> fo_SupersededBy v \<noteq> 0 then Inl TrendErrInvalid
      else Inr (v\<lparr>fo_SupersededBy := replacementID\<rparr>))"

text \<open>
  \<open>math.Sqrt\<close> is correctly rounded: the integer square root of a multiple with more than 53 bits, and half a unit
  below them when it is not exact.
\<close>

fun isqrt :: "nat \<Rightarrow> nat" where
  "isqrt n = (if n = 0 then 0 else let r = 2 * isqrt (n div 4) in if (r + 1) * (r + 1) \<le> n then r + 1 else r)"

declare isqrt.simps [simp del]

fun fsqrt :: "f64 \<Rightarrow> f64" where
  "fsqrt (Fin q) =
     (if q < 0 then NaN else if q = 0 then Fin 0
      else let t = 60 - flog2 q div 2; n = nat \<lfloor>q * 4 powi t\<rfloor>; s = isqrt n in
        of_rat64 ((of_nat s + (if of_nat (s * s) = q * 4 powi t then 0 else 1 / 2)) / 2 powi t))"
| "fsqrt PInf = PInf"
| "fsqrt _ = NaN"

fun exponential_level :: "f64 \<Rightarrow> f64 \<Rightarrow> Point list \<Rightarrow> f64" where
  "exponential_level alpha level [] = level"
| "exponential_level alpha level (p # ps) =
     exponential_level alpha (fadd (fmul alpha (tp_Value p)) (fmul (fsub (Fin 1) alpha) level)) ps"

text \<open>Called on non-empty lists only.\<close>

definition exponential :: "Point list \<Rightarrow> f64 \<Rightarrow> f64" where
  "exponential points alpha = exponential_level alpha (tp_Value (hd points)) (tl points)"

definition seasonal :: "Point list \<Rightarrow> int \<Rightarrow> f64" where
  "seasonal points season =
     (case Median (map tp_Value (drop (nat (max 0 (int (length points) - season))) points)) of None \<Rightarrow> Fin 0 | Some v \<Rightarrow> v)"

definition rolling_terms :: "Point list \<Rightarrow> nat \<Rightarrow> (Point list \<Rightarrow> f64) \<Rightarrow> f64 list" where
  "rolling_terms points start predictor =
     map (\<lambda>i. fabs (fsub (predictor (take i points)) (tp_Value (points ! i)))) [start..<length points]"

definition rollingError :: "Point list \<Rightarrow> int \<Rightarrow> (Point list \<Rightarrow> f64) \<Rightarrow> f64" where
  "rollingError points start predictor =
     (let terms = rolling_terms points (nat (max 2 start)) predictor in
      if terms = [] then PInf else fdiv (foldl fadd (Fin 0) terms) (of_int_f64 (int (length terms))))"

definition bad_forecast_request :: "int64 \<Rightarrow> ForecastDefinition \<Rightarrow> string \<Rightarrow> string \<Rightarrow> Point list \<Rightarrow> int \<Rightarrow> bool" where
  "bad_forecast_request projectID d name version points horizonDays \<longleftrightarrow>
     projectID \<le> 0 \<or> trim_space name = '''' \<or> trim_space version = '''' \<or> trim_space (tf_Version d) = '''' \<or> tf_MinimumPoints d < 3 \<or>
     tf_MaximumPoints d < tf_MinimumPoints d \<or> tf_SeasonLength d < 2 \<or> fle (tf_Alpha d) (Fin 0) \<or> flt (Fin 1) (tf_Alpha d) \<or>
     horizonDays \<le> 0 \<or> horizonDays > tf_MaximumHorizon d \<or> int (length points) > tf_MaximumPoints d"

definition CalculateForecast :: "int64 \<Rightarrow> ForecastDefinition \<Rightarrow> string \<Rightarrow> string \<Rightarrow> Point list \<Rightarrow> int \<Rightarrow> trend_error + Forecast" where
  "CalculateForecast projectID d name version points horizonDays =
     (if bad_forecast_request projectID d name version points horizonDays then Inl TrendErrInvalid
      else if list_ex (\<lambda>p. is_nan (tp_Value p) \<or> is_inf (tp_Value p)) points then Inl TrendErrInvalid
      else
        let result = \<lparr>fo_ID = 0, fo_ProjectID = projectID, fo_MetricName = name, fo_MetricVersion = version, fo_Kind = KindForecast,
              fo_Status = DirectionNone, fo_HorizonDays = horizonDays, fo_Predicted = None, fo_IntervalLow = None, fo_IntervalHigh = None,
              fo_Confidence = None, fo_BacktestError = None, fo_ModelVersion = tf_Version d, fo_SelectedModel = '''',
              fo_Coverage = trend_coverage (tf_MinimumPoints d) (int (length points)) '''', fo_EvidenceIDs = evidence_ids points,
              fo_OutcomeStatus = ''pending'', fo_Explanation = '''', fo_SupersededBy = 0\<rparr> in
        if int (length points) < tf_MinimumPoints d
        then Inr (result\<lparr>fo_Coverage := trend_coverage (tf_MinimumPoints d) (int (length points)) (points_required (tf_MinimumPoints d))\<rparr>)
        else
          let season = tf_SeasonLength d; alpha = tf_Alpha d;
              exponentialError = rollingError points season (\<lambda>history. exponential history alpha);
              seasonalError = rollingError points season (\<lambda>history. seasonal history season);
              (predicted, selected, backtest) = (if flt seasonalError exponentialError
                then (seasonal points season, ''seasonal_baseline'', seasonalError)
                else (exponential points alpha, ''exponential_smoothing'', exponentialError));
              width = fmul (fmul (of_rat64 (196 / 100)) backtest)
                (fsqrt (fadd (Fin 1) (fdiv (of_int_f64 horizonDays) (of_int_f64 season)))) in
          Inr (result\<lparr>fo_Status := DirectionStable, fo_Predicted := Some predicted, fo_IntervalLow := Some (fsub predicted width),
            fo_IntervalHigh := Some (fadd predicted width), fo_Confidence := Some (fdiv (Fin 1) (fadd (Fin 1) backtest)),
            fo_BacktestError := Some backtest, fo_SelectedModel := selected, fo_OutcomeStatus := ''unevaluated''\<rparr>))"


section \<open>Signs\<close>

lemma round_rat_0 [simp]: "round_rat 0 = 0"
  using round_rat_of_int [of 0] by simp

lemma of_rat64_0 [simp]: "of_rat64 0 = Fin 0"
  by (simp add: of_rat64_def)

lemma of_rat64_sign: "0 \<le> q \<Longrightarrow> fle (Fin 0) (of_rat64 q)" "q \<le> 0 \<Longrightarrow> fle (of_rat64 q) (Fin 0)"
  using fle_of_rat64 [of 0 q] fle_of_rat64 [of q 0] by simp_all

lemma fle_zero:
  assumes "fle (Fin 0) x"
  obtains (fin) a where "x = Fin a" "0 \<le> a" | (inf) "x = PInf"
  using assms by (cases x) (auto simp: fle_def)

lemma zero_fle:
  assumes "fle x (Fin 0)"
  obtains (fin) a where "x = Fin a" "a \<le> 0" | (inf) "x = NInf"
  using assms by (cases x) (auto simp: fle_def)

lemma fle_PInf: "fle (Fin a) PInf" and fle_NInf: "fle NInf (Fin a)"
  by (simp_all add: fle_def)

lemma fadd_sign: "fle (Fin 0) x \<Longrightarrow> fle (Fin 0) y \<Longrightarrow> fle (Fin 0) (fadd x y)" "fle x (Fin 0) \<Longrightarrow> fle y (Fin 0) \<Longrightarrow> fle (fadd x y) (Fin 0)"
proof -
  show "fle (Fin 0) (fadd x y)" if "fle (Fin 0) x" "fle (Fin 0) y"
    using that(1)
  proof (cases rule: fle_zero)
    case (fin a)
    from that(2) show ?thesis by (cases rule: fle_zero) (use fin in \<open>simp_all add: of_rat64_sign fle_PInf\<close>)
  next
    case inf
    from that(2) show ?thesis by (cases rule: fle_zero) (use inf in \<open>simp_all add: fle_PInf\<close>)
  qed
  show "fle (fadd x y) (Fin 0)" if "fle x (Fin 0)" "fle y (Fin 0)"
    using that(1)
  proof (cases rule: zero_fle)
    case (fin a)
    from that(2) show ?thesis by (cases rule: zero_fle) (use fin in \<open>simp_all add: of_rat64_sign fle_NInf\<close>)
  next
    case inf
    from that(2) show ?thesis by (cases rule: zero_fle) (use inf in \<open>simp_all add: fle_NInf\<close>)
  qed
qed

lemma fdiv_sign:
  "fle (Fin 0) x \<Longrightarrow> 0 < d \<Longrightarrow> fle (Fin 0) (fdiv x (Fin d))"
  "fle x (Fin 0) \<Longrightarrow> 0 < d \<Longrightarrow> fle (fdiv x (Fin d)) (Fin 0)"
proof -
  show "fle (Fin 0) (fdiv x (Fin d))" if "fle (Fin 0) x" "0 < d"
    using that(1) by (cases rule: fle_zero) (use that(2) in \<open>simp_all add: of_rat64_sign fle_PInf\<close>)
  show "fle (fdiv x (Fin d)) (Fin 0)" if "fle x (Fin 0)" "0 < d"
    using that(1) by (cases rule: zero_fle) (use that(2) in \<open>simp_all add: of_rat64_sign fle_NInf divide_nonpos_pos\<close>)
qed

lemma Median_sign:
  assumes "Median vals = Some m"
  shows "(\<forall>x \<in> set vals. fle (Fin 0) x) \<longrightarrow> fle (Fin 0) m" "(\<forall>x \<in> set vals. fle x (Fin 0)) \<longrightarrow> fle m (Fin 0)"
proof -
  let ?s = "sort_func cmp_f64 vals"
  have ne: "vals \<noteq> []" using assms by (auto simp: Median_def)
  then have i: "length vals div 2 < length vals" "length vals div 2 - 1 < length vals" by (auto simp: less_imp_diff_less)
  then have mem: "?s ! (length vals div 2) \<in> set vals" "?s ! (length vals div 2 - 1) \<in> set vals"
    by (metis length_sort_func nth_mem set_sort_func)+
  have m: "m = ?s ! (length vals div 2) \<or> m = fdiv (fadd (?s ! (length vals div 2 - 1)) (?s ! (length vals div 2))) (Fin 2)"
    using assms ne by (auto simp: Median_def Let_def split: if_splits)
  show "(\<forall>x \<in> set vals. fle (Fin 0) x) \<longrightarrow> fle (Fin 0) m" "(\<forall>x \<in> set vals. fle x (Fin 0)) \<longrightarrow> fle m (Fin 0)"
    using m mem fadd_sign fdiv_sign [of _ 2] by auto
qed

lemma days_between_finite: "\<exists>d. days_between l r = Fin d"
proof -
  obtain h where h: "duration_hours (time_sub (tp_At r) (tp_At l)) = Fin h" "\<bar>h\<bar> \<le> of_int 2562048"
    using duration_hours_bounded [OF time_sub_int64] by (auto simp: bounded_f64_def)
  have "\<bar>h / 24\<bar> \<le> of_int 2562048" using h(2) by (simp add: abs_divide)
  with of_rat64_bounded [of "h / 24" 2562048] h(1) show ?thesis by (auto simp: days_between_def bounded_f64_def)
qed

lemma slope_sign:
  assumes "finite_f64 (tp_Value l)" "finite_f64 (tp_Value r)" "flt (Fin 0) (days_between l r)"
  shows "fle (tp_Value l) (tp_Value r) \<Longrightarrow> fle (Fin 0) (fdiv (fsub (tp_Value r) (tp_Value l)) (days_between l r))"
    "fle (tp_Value r) (tp_Value l) \<Longrightarrow> fle (fdiv (fsub (tp_Value r) (tp_Value l)) (days_between l r)) (Fin 0)"
proof -
  obtain d where d: "days_between l r = Fin d" using days_between_finite by blast
  with assms(3) have "0 < d" by simp
  moreover obtain a b where "tp_Value l = Fin a" "tp_Value r = Fin b" using assms(1,2) by (auto simp: finite_f64_iff)
  ultimately show "fle (tp_Value l) (tp_Value r) \<Longrightarrow> fle (Fin 0) (fdiv (fsub (tp_Value r) (tp_Value l)) (days_between l r))"
    "fle (tp_Value r) (tp_Value l) \<Longrightarrow> fle (fdiv (fsub (tp_Value r) (tp_Value l)) (days_between l r)) (Fin 0)"
    using d by (simp_all add: fsub_def fdiv_sign of_rat64_sign)
qed

section \<open>Trends\<close>

lemma pairs_of_sub: "(l, r) \<in> set (pairs_of xs) \<Longrightarrow> l \<in> set xs \<and> r \<in> set xs"
  by (induction xs) auto

lemma pairs_of_ordered: "sorted_wrt R xs \<Longrightarrow> (l, r) \<in> set (pairs_of xs) \<Longrightarrow> R l r"
  by (induction xs) auto

lemma check_points_facts:
  "check_points observation baseline previous ps \<Longrightarrow>
   (\<forall>p \<in> set ps. finite_f64 (tp_Value p) \<and> location_of (tp_At p) = UTC \<and> \<not> before (tp_At p) (mw_From baseline) \<and> before (tp_At p) (mw_To observation)) \<and>
   (\<forall>q p. previous = Some q \<longrightarrow> p \<in> set ps \<longrightarrow> before (tp_At q) (tp_At p)) \<and> sorted_wrt (\<lambda>p q. before (tp_At p) (tp_At q)) ps"
proof (induction ps arbitrary: previous)
  case (Cons p ps)
  from Cons.prems have p: "location_of (tp_At p) = UTC" "before (tp_At p) (mw_To observation)" "\<not> before (tp_At p) (mw_From baseline)"
    "finite_f64 (tp_Value p)" "case previous of None \<Rightarrow> True | Some q \<Rightarrow> before (tp_At q) (tp_At p)"
    and rest: "check_points observation baseline (Some p) ps"
    by (auto simp: finite_f64_def split: if_splits option.splits)
  note IH = Cons.IH [OF rest]
  show ?case using p IH by (auto simp: before_def split: option.splits intro: less_trans)
qed simp

interpretation point_order: comparator cmp_point
  by unfold_locales (auto simp: cmp_point_def time_compare_def split: if_splits)

lemma sorted_before_unique:
  "sorted_wrt (\<lambda>p q. before (tp_At p) (tp_At q)) ps \<Longrightarrow> x \<in> set ps \<Longrightarrow> y \<in> set ps \<Longrightarrow> nanos (tp_At x) = nanos (tp_At y) \<Longrightarrow> x = y"
  by (induction ps) (auto simp: before_def)

lemma ordered_points_unique:
  assumes "mset ps = mset qs" "check_points observation baseline None (sort_func cmp_point ps)"
  shows "sort_func cmp_point qs = sort_func cmp_point ps"
proof -
  have s: "sorted_wrt (\<lambda>p q. before (tp_At p) (tp_At q)) (sort_func cmp_point ps)" using check_points_facts [OF assms(2)] by blast
  have "x = y" if "x \<in> set ps" "y \<in> set ps" "nanos (tp_At x) = nanos (tp_At y)" for x y
    using sorted_before_unique [OF s] that by simp
  then have anti: "\<And>x y. x \<in> set ps \<Longrightarrow> y \<in> set ps \<Longrightarrow> cmp_point x y \<le> 0 \<Longrightarrow> cmp_point y x \<le> 0 \<Longrightarrow> x = y"
    by (auto simp: cmp_point_def time_compare_def split: if_splits)
  show ?thesis by (rule point_order.sort_func_unique) (use assms(1) anti in \<open>auto simp: sort_result_def point_order.ordered_sort\<close>)
qed

text \<open>C39: A trend does not depend on the order in which its points are given.\<close>
theorem observed_order_irrelevant:
  assumes "mset points = mset points'"
  shows "CalculateObserved projectID d name version observation baseline points = CalculateObserved projectID d name version observation baseline points'"
proof -
  have len: "length points = length points'" using assms by (rule mset_eq_length)
  show ?thesis
  proof (cases "check_points observation baseline None (sort_func cmp_point points) \<or> check_points observation baseline None (sort_func cmp_point points')")
    case True
    then have "sort_func cmp_point points' = sort_func cmp_point points" using ordered_points_unique assms by metis
    then show ?thesis unfolding CalculateObserved_def len by simp
  next
    case False
    then show ?thesis unfolding CalculateObserved_def len by simp
  qed
qed

definition rising :: "Point list \<Rightarrow> bool" where
  "rising points \<longleftrightarrow> list_all (\<lambda>p. list_all (\<lambda>q. before (tp_At q) (tp_At p) \<or> fle (tp_Value p) (tp_Value q)) points) points"

definition falling :: "Point list \<Rightarrow> bool" where
  "falling points \<longleftrightarrow> list_all (\<lambda>p. list_all (\<lambda>q. before (tp_At q) (tp_At p) \<or> fle (tp_Value q) (tp_Value p)) points) points"

lemma TheilSen_sign:
  assumes "check_points observation baseline None ps"
  shows "rising ps \<Longrightarrow> fle (Fin 0) (TheilSen ps)" "falling ps \<Longrightarrow> fle (TheilSen ps) (Fin 0)"
proof -
  note c = check_points_facts [OF assms]
  have pair: "before (tp_At l) (tp_At r) \<and> finite_f64 (tp_Value l) \<and> finite_f64 (tp_Value r) \<and> l \<in> set ps \<and> r \<in> set ps" if "(l, r) \<in> set (pairs_of ps)" for l r
    using pairs_of_sub [OF that] pairs_of_ordered [OF _ that] c by blast
  have up: "rising ps \<Longrightarrow> (l, r) \<in> set (pairs_of ps) \<Longrightarrow> fle (tp_Value l) (tp_Value r)"
    and down: "falling ps \<Longrightarrow> (l, r) \<in> set (pairs_of ps) \<Longrightarrow> fle (tp_Value r) (tp_Value l)" for l r
    using pair [of l r] unfolding rising_def falling_def list_all_iff before_def by (metis order_less_asym)+
  have "\<forall>x \<in> set (slopes_of ps). fle (Fin 0) x" if "rising ps" using that up pair slope_sign(1) by (auto simp: slopes_of_def)
  moreover have "\<forall>x \<in> set (slopes_of ps). fle x (Fin 0)" if "falling ps" using that down pair slope_sign(2) by (auto simp: slopes_of_def)
  ultimately show "rising ps \<Longrightarrow> fle (Fin 0) (TheilSen ps)" "falling ps \<Longrightarrow> fle (TheilSen ps) (Fin 0)"
    using Median_sign by (auto simp: TheilSen_def split: option.split)
qed

text \<open>
  A trend reports no direction exactly when there are too few points, never a decrease of values that only rise and never
  an increase of values that only fall; and its points, in order, are finite samples within the two windows.
\<close>
theorem observed_direction_sound:
  assumes "CalculateObserved projectID d name version observation baseline points = Inr r"
  shows "(to_Direction r = DirectionNone \<longleftrightarrow> int (length points) < td_MinimumPoints d) \<and> (to_Magnitude r = None \<longleftrightarrow> int (length points) < td_MinimumPoints d) \<and>
    (if rising points then to_Direction r \<noteq> DirectionDecrease else True) \<and> (if falling points then to_Direction r \<noteq> DirectionIncrease else True) \<and>
    list_all (\<lambda>p. finite_f64 (tp_Value p) \<and> \<not> before (tp_At p) (mw_From baseline) \<and> before (tp_At p) (mw_To observation)) points"
proof -
  let ?o = "sort_func cmp_point points"
  have ok: "check_points observation baseline None ?o" using assms by (auto simp: CalculateObserved_def Let_def split: if_splits)
  have same: "rising ?o = rising points" "falling ?o = falling points" by (auto simp: rising_def falling_def list_all_iff)
  have "flt (TheilSen ?o) (Fin 0) \<Longrightarrow> \<not> rising points" "flt (Fin 0) (TheilSen ?o) \<Longrightarrow> \<not> falling points"
    using TheilSen_sign [OF ok] same by (cases "TheilSen ?o"; auto simp: fle_def)+
  moreover have "list_all (\<lambda>p. finite_f64 (tp_Value p) \<and> \<not> before (tp_At p) (mw_From baseline) \<and> before (tp_At p) (mw_To observation)) points"
    using check_points_facts [OF ok] by (simp add: list_all_iff)
  ultimately show ?thesis using assms by (auto simp: CalculateObserved_def Let_def split: if_splits)
qed

definition sample_observation :: MetricWindow where
  "sample_observation = \<lparr>mw_From = Time (20 * 24 * hour) UTC, mw_To = Time (30 * 24 * hour) UTC, mw_Cutoff = Time (30 * 24 * hour) UTC\<rparr>"

definition sample_baseline :: MetricWindow where
  "sample_baseline = \<lparr>mw_From = Time (10 * 24 * hour) UTC, mw_To = Time (20 * 24 * hour) UTC, mw_Cutoff = Time (30 * 24 * hour) UTC\<rparr>"

definition sample_trend :: TrendDefinition where
  "sample_trend = \<lparr>td_Version = ''v'', td_MinimumPoints = 3, td_MaximumPoints = 9, td_Consistency = Fin 1\<rparr>"

definition sample_points :: "Point list" where
  "sample_points = map (\<lambda>i. \<lparr>tp_At = Time ((10 + 5 * i) * 24 * hour) UTC, tp_Value = Fin (of_int i), tp_EvidenceID = i\<rparr>) [1, 2, 3]"

theorem observed_direction_sound_witness:
  "\<exists>r. CalculateObserved 1 sample_trend ''m'' ''v'' sample_observation sample_baseline sample_points = Inr r \<and> to_Magnitude r \<noteq> None \<and>
    to_Direction r \<noteq> DirectionNone \<and> to_Direction r \<noteq> DirectionDecrease"
proof -
  let ?c = "CalculateObserved 1 sample_trend ''m'' ''v'' sample_observation sample_baseline sample_points"
  have f: "\<not> bad_trend_request 1 sample_trend ''m'' ''v'' sample_observation sample_baseline"
    "check_points sample_observation sample_baseline None (sort_func cmp_point sample_points)" "rising sample_points"
    "length sample_points = 3" "td_MinimumPoints sample_trend = 3" "td_MaximumPoints sample_trend = 9" by code_simp+
  then have "\<not> isl ?c" by (simp add: CalculateObserved_def Let_def)
  then obtain r where r: "?c = Inr r" by (cases ?c) auto
  with observed_direction_sound [OF r] f show ?thesis by (auto split: if_splits)
qed

theorem observed_order_irrelevant_witness:
  "CalculateObserved 1 sample_trend ''m'' ''v'' sample_observation sample_baseline sample_points =
    CalculateObserved 1 sample_trend ''m'' ''v'' sample_observation sample_baseline (rev sample_points)"
  by (rule observed_order_irrelevant) simp
end
