(* ===== verification/Export.thy ===== *)
theory Export
  imports Metric JobStore
begin

text \<open>
  \<open>internal/export\<close>: export requests, the CSV and evidence generators and the expiry of artifacts.
  \<open>json.Marshal\<close>, \<open>sha256.Sum256\<close> and the verb \<open>%.17g\<close> are arguments; the writer of \<open>encoding/csv\<close> is written out.
\<close>

section \<open>Requests\<close>

datatype ctx_error = CtxCanceled | CtxDeadlineExceeded

datatype export_error = ExErrInvalidRequest | ExErrTooLarge | ExErrBusy | ExErrNotReady | ExErrExpired | ExErrIdempotencyKey
  | ExErrGone | ExCtx ctx_error | ExMessage string

datatype ExportFormat = CSV | EvidenceJSON | FormatOther string

definition DefaultMaxBytes :: int where "DefaultMaxBytes = 64 * 2 ^ 20"

text \<open>The filters are the entries of the map: the keys are distinct.\<close>

record ExportRequest =
  xq_ProjectIDs :: "int64 list"
  xq_Resource :: string
  xq_Format :: ExportFormat
  xq_Filters :: "(string \<times> string) list"
  xq_Locale :: string
  xq_WindowFrom :: gotime
  xq_WindowTo :: gotime
  xq_Cutoff :: gotime

definition request_Normalize :: "ExportRequest \<Rightarrow> ExportRequest" where
  "request_Normalize r = r\<lparr>xq_ProjectIDs := sort_func cmp_int (xq_ProjectIDs r)\<rparr>"

fun check_ids :: "int64 list \<Rightarrow> int64 list \<Rightarrow> bool" where
  "check_ids seen [] = True"
| "check_ids seen (i # rest) = (if i \<le> 0 then False else if i \<in> set seen then False else check_ids (i # seen) rest)"

definition request_Validate :: "ExportRequest \<Rightarrow> export_error option" where
  "request_Validate r =
     (let validResource = (xq_Resource r = ''metrics'' \<or> xq_Resource r = ''snapshots'' \<or> xq_Resource r = ''comparisons'') in
      if xq_ProjectIDs r = [] \<or> length (xq_ProjectIDs r) > 100 \<or> \<not> validResource \<or> (xq_Format r \<noteq> CSV \<and> xq_Format r \<noteq> EvidenceJSON) \<or>
         (xq_Locale r \<noteq> ''en'' \<and> xq_Locale r \<noteq> ''pt-BR'') \<or> is_zero (xq_WindowFrom r) \<or> is_zero (xq_WindowTo r) \<or> is_zero (xq_Cutoff r) \<or>
         after (xq_WindowFrom r) (xq_WindowTo r) \<or> after (xq_WindowTo r) (xq_Cutoff r)
      then Some ExErrInvalidRequest
      else if \<not> check_ids [] (xq_ProjectIDs r) then Some ExErrInvalidRequest
      else if list_ex (\<lambda>(key, val). trim_space key = '''' \<or> length key > 64 \<or> length val > 256) (xq_Filters r) then Some ExErrInvalidRequest
      else None)"

section \<open>Records and packages\<close>

datatype MissingState = MissingAvailable | MissingUnknown | MissingNotApplicable | MissingInsufficientData | MissingOther string

fun missing_text :: "MissingState \<Rightarrow> string" where
  "missing_text MissingAvailable = ''available''"
| "missing_text MissingUnknown = ''unknown''"
| "missing_text MissingNotApplicable = ''not_applicable''"
| "missing_text MissingInsufficientData = ''insufficient_data''"
| "missing_text (MissingOther s) = s"

record ExportRecord =
  xr_ProjectID :: int64
  xr_RepositoryID :: int64
  xr_Metric :: string
  xr_Value :: "f64 option"
  xr_Status :: MissingState
  xr_Unit :: string
  xr_Definition :: string
  xr_Formula :: string
  xr_Coverage :: string
  xr_Provenance :: "string list"
  xr_PolicyContext :: string
  xr_AnalysisRunIDs :: "int64 list"

record Package =
  pk_SchemaVersion :: string
  pk_Resource :: string
  pk_ProjectIDs :: "int64 list"
  pk_Filters :: "(string \<times> string) list"
  pk_Locale :: string
  pk_WindowFrom :: gotime
  pk_WindowTo :: gotime
  pk_Cutoff :: gotime
  pk_Rows :: "ExportRecord list"

record Generated =
  gd_Body :: string
  gd_MediaType :: string
  gd_Rows :: int
  gd_Digest :: string
  gd_DigestHex :: string

text \<open>\<open>hex.EncodeToString\<close>.\<close>

definition hex_nibble :: "nat \<Rightarrow> char" where
  "hex_nibble d = ''0123456789abcdef'' ! d"

definition hex_encode :: "string \<Rightarrow> string" where
  "hex_encode s = concat (map (\<lambda>c. [hex_nibble ((of_char c :: nat) div 16), hex_nibble ((of_char c :: nat) mod 16)]) s)"

section \<open>CSV\<close>

text \<open>\<open>csv.Writer\<close> with the comma as its separator and without \<open>UseCRLF\<close>.\<close>

definition field_needs_quotes :: "string \<Rightarrow> bool" where
  "field_needs_quotes field =
     (if field = [] then False
      else if field = [CHR 0x5C, CHR ''.''] then True
      else list_ex (\<lambda>c. c = CHR 0x0A \<or> c = CHR 0x0D \<or> c = CHR 0x22 \<or> c = CHR '','') field \<or> list_ex (\<lambda>w. prefix w field) space_seqs)"

definition double_quotes :: "string \<Rightarrow> string" where
  "double_quotes field = concat (map (\<lambda>c. if c = CHR 0x22 then [c, c] else [c]) field)"

definition csv_field :: "string \<Rightarrow> string" where
  "csv_field field = (if field_needs_quotes field then CHR 0x22 # double_quotes field @ [CHR 0x22] else field)"

fun csv_fields :: "string list \<Rightarrow> string" where
  "csv_fields [] = []"
| "csv_fields [f] = csv_field f"
| "csv_fields (f # fs) = csv_field f @ CHR '','' # csv_fields fs"

definition csv_Write :: "string list \<Rightarrow> string" where
  "csv_Write cols = csv_fields cols @ [CHR 0x0A]"

definition machineColumns :: "string list" where
  "machineColumns = [''project_id'', ''repository_id'', ''metric'', ''value'', ''status'', ''unit'', ''definition_version'', ''formula'',
     ''coverage'', ''provenance'', ''policy_context'', ''analysis_run_ids'']"

text \<open>The bytes of the UTF-8 encoding; an unknown locale has no columns.\<close>

definition localizedColumns :: "string \<Rightarrow> string list" where
  "localizedColumns locale =
     (if locale = ''en''
      then [''Project'', ''Repository'', ''Metric'', ''Value'', ''Status'', ''Unit'', ''Definition version'', ''Formula'', ''Coverage'',
        ''Provenance'', ''Policy context'', ''Analysis run IDs'']
      else if locale = ''pt-BR''
      then [''Projeto'', ''Reposit'' @ [CHR 0xC3, CHR 0xB3] @ ''rio'', ''M'' @ [CHR 0xC3, CHR 0xA9] @ ''trica'', ''Valor'', ''Estado'', ''Unidade'',
        ''Vers'' @ [CHR 0xC3, CHR 0xA3] @ ''o da defini'' @ [CHR 0xC3, CHR 0xA7, CHR 0xC3, CHR 0xA3] @ ''o'',
        ''F'' @ [CHR 0xC3, CHR 0xB3] @ ''rmula'', ''Cobertura'', ''Proveni'' @ [CHR 0xC3, CHR 0xAA] @ ''ncia'',
        ''Contexto da pol'' @ [CHR 0xC3, CHR 0xAD] @ ''tica'',
        ''IDs das execu'' @ [CHR 0xC3, CHR 0xA7, CHR 0xC3, CHR 0xB5] @ ''es de IA'']
      else [])"

definition nullableID :: "int64 \<Rightarrow> string" where
  "nullableID i = (if i = 0 then '''' else format_int i)"

definition join_bar :: "string list \<Rightarrow> string" where
  "join_bar xs = concat (map (\<lambda>i. (if i = 0 then [] else [CHR 0x7C]) @ xs ! i) [0..<length xs])"

definition row_fields :: "(f64 \<Rightarrow> string) \<Rightarrow> ExportRecord \<Rightarrow> string list" where
  "row_fields format_g17 row =
     [format_int (xr_ProjectID row), nullableID (xr_RepositoryID row), xr_Metric row,
      (case xr_Value row of None \<Rightarrow> '''' | Some v \<Rightarrow> format_g17 v), missing_text (xr_Status row), xr_Unit row, xr_Definition row, xr_Formula row,
      xr_Coverage row, join_bar (xr_Provenance row), xr_PolicyContext row, join_bar (map format_int (xr_AnalysisRunIDs row))]"

text \<open>\<open>ctx i\<close> is what \<open>ctx.Err\<close> returns when it is called for the \<open>i\<close>-th time.\<close>

fun csv_rows :: "(f64 \<Rightarrow> string) \<Rightarrow> (nat \<Rightarrow> ctx_error option) \<Rightarrow> nat \<Rightarrow> ExportRecord list \<Rightarrow> export_error + string" where
  "csv_rows format_g17 ctx index [] = Inr []"
| "csv_rows format_g17 ctx index (row # rows) =
     (case (if index mod 128 = 0 then ctx (1 + index div 128) else None) of
        Some e \<Rightarrow> Inl (ExCtx e)
      | None \<Rightarrow> map_sum id (\<lambda>rest. csv_Write (row_fields format_g17 row) @ rest) (csv_rows format_g17 ctx (index + 1) rows))"

definition generateCSV :: "(f64 \<Rightarrow> string) \<Rightarrow> (nat \<Rightarrow> ctx_error option) \<Rightarrow> string \<Rightarrow> ExportRecord list \<Rightarrow> export_error + string" where
  "generateCSV format_g17 ctx locale rows =
     map_sum id (\<lambda>body. csv_Write machineColumns @ csv_Write (localizedColumns locale) @ body) (csv_rows format_g17 ctx 0 rows)"

section \<open>Generators\<close>

record export_env =
  ev_format :: "f64 \<Rightarrow> string"
  ev_marshal :: "Package \<Rightarrow> string option"
  ev_sha256 :: "string \<Rightarrow> string"

definition cmp_record :: "ExportRecord \<Rightarrow> ExportRecord \<Rightarrow> int" where
  "cmp_record a b = cmp_then (cmp_int (xr_ProjectID a) (xr_ProjectID b))
     (cmp_then (cmp_int (xr_RepositoryID a) (xr_RepositoryID b)) (cmp_string (xr_Metric a) (xr_Metric b)))"

definition NewGenerator :: "int64 \<Rightarrow> int64" where
  "NewGenerator maxBytes = (if maxBytes \<le> 0 then DefaultMaxBytes else maxBytes)"

definition package_of :: "ExportRequest \<Rightarrow> ExportRecord list \<Rightarrow> Package" where
  "package_of request rows = \<lparr>pk_SchemaVersion = ''opi.evidence-export/v1'', pk_Resource = xq_Resource request,
     pk_ProjectIDs = xq_ProjectIDs request, pk_Filters = xq_Filters request, pk_Locale = xq_Locale request,
     pk_WindowFrom = utc (xq_WindowFrom request), pk_WindowTo = utc (xq_WindowTo request), pk_Cutoff = utc (xq_Cutoff request), pk_Rows = rows\<rparr>"

text \<open>
  \<open>sort.Slice\<close> leaves the order of records with equal project, repository and metric open; here they keep their order. The
  query of the export store returns one record per project and metric, so that no two records are equal in all three.
\<close>

definition generator_Generate ::
    "export_env \<Rightarrow> int64 \<Rightarrow> (nat \<Rightarrow> ctx_error option) \<Rightarrow> ExportRequest \<Rightarrow> ExportRecord list \<Rightarrow> export_error + Generated" where
  "generator_Generate env maxBytes ctx request0 records =
     (let request = request_Normalize request0 in
      case request_Validate request of Some e \<Rightarrow> Inl e
      | None \<Rightarrow>
          (case ctx 0 of Some e \<Rightarrow> Inl (ExCtx e)
           | None \<Rightarrow>
               let rows = sort_func cmp_record records in
               bindE (case xq_Format request of
                   CSV \<Rightarrow> map_sum id (\<lambda>body. (body, ''text/csv; charset=utf-8'')) (generateCSV (ev_format env) ctx (xq_Locale request) rows)
                 | EvidenceJSON \<Rightarrow>
                     (case ev_marshal env (package_of request rows) of None \<Rightarrow> Inl (ExMessage ''json'')
                      | Some body \<Rightarrow> Inr (body, ''application/vnd.opi.evidence+json''))
                 | FormatOther f \<Rightarrow> Inl ExErrInvalidRequest)
               (\<lambda>(body, mediaType).
                 if int (length body) > maxBytes then Inl ExErrTooLarge
                 else let digest = ev_sha256 env body in
                   Inr \<lparr>gd_Body = body, gd_MediaType = mediaType, gd_Rows = int (length rows), gd_Digest = digest,
                     gd_DigestHex = hex_encode digest\<rparr>)))"

text \<open>The gate is a channel: its capacity and the number of tokens it holds.\<close>

record Coordinator =
  co_capacity :: int
  co_held :: int
  co_gen :: int64

definition NewCoordinator :: "int \<Rightarrow> int64 \<Rightarrow> export_error + Coordinator" where
  "NewCoordinator concurrency maxBytes =
     (if concurrency \<le> 0 \<or> concurrency > 64 then Inl ExErrInvalidRequest
      else Inr \<lparr>co_capacity = concurrency, co_held = 0, co_gen = NewGenerator maxBytes\<rparr>)"

text \<open>
  The \<open>select\<close> takes a case that is ready, any one when both are, and the default otherwise. The first part of
  the call enters the gate; the second one runs between \<open>acquire\<close> and the deferred release.
\<close>

definition acquire :: "Coordinator \<Rightarrow> ctx_error option \<Rightarrow> bool \<Rightarrow> export_error + Coordinator" where
  "acquire c cancelled prefer_gate =
     (case cancelled of
        None \<Rightarrow> if co_held c < co_capacity c then Inr (c\<lparr>co_held := co_held c + 1\<rparr>) else Inl ExErrBusy
      | Some e \<Rightarrow> if co_held c < co_capacity c \<and> prefer_gate then Inr (c\<lparr>co_held := co_held c + 1\<rparr>) else Inl (ExCtx e))"

definition release :: "Coordinator \<Rightarrow> Coordinator" where
  "release c = c\<lparr>co_held := co_held c - 1\<rparr>"

definition coordinator_Generate ::
    "export_env \<Rightarrow> Coordinator \<Rightarrow> ctx_error option \<Rightarrow> bool \<Rightarrow> (nat \<Rightarrow> ctx_error option) \<Rightarrow> ExportRequest \<Rightarrow> ExportRecord list \<Rightarrow>
     (export_error + Generated) \<times> Coordinator" where
  "coordinator_Generate env c cancelled prefer_gate ctx request records =
     (case acquire c cancelled prefer_gate of Inl e \<Rightarrow> (Inl e, c)
      | Inr c' \<Rightarrow> (generator_Generate env (co_gen c') ctx request records, release c'))"

section \<open>Artifacts\<close>

definition Lifetime :: duration where "Lifetime = 24 * hour"

record Artifact =
  ar_ProjectID :: int64
  ar_Key :: string
  ar_MediaType :: string
  ar_Digest :: string
  ar_Size :: int64
  ar_CompletedAt :: gotime

definition NewArtifact :: "(string \<Rightarrow> string) \<Rightarrow> int64 \<Rightarrow> string \<Rightarrow> string \<Rightarrow> string \<Rightarrow> gotime \<Rightarrow> export_error + Artifact" where
  "NewArtifact sha256 projectID key mediaType body completedAt =
     (if projectID \<le> 0 \<or> key = '''' \<or> mediaType = '''' \<or> is_zero completedAt then Inl (ExMessage ''invalid export artifact'')
      else Inr \<lparr>ar_ProjectID = projectID, ar_Key = key, ar_MediaType = mediaType, ar_Digest = sha256 body, ar_Size = int (length body),
        ar_CompletedAt = utc completedAt\<rparr>)"

definition artifact_Authorize :: "Artifact \<Rightarrow> int64 \<Rightarrow> gotime \<Rightarrow> export_error option" where
  "artifact_Authorize a projectID t =
     (if ar_ProjectID a \<noteq> projectID \<or> projectID \<le> 0 then Some (ExMessage ''export authorization failed'')
      else if \<not> before t (time_add (ar_CompletedAt a) Lifetime) then Some ExErrGone
      else None)"

definition artifact_Verify :: "(string \<Rightarrow> string) \<Rightarrow> Artifact \<Rightarrow> string \<Rightarrow> bool" where
  "artifact_Verify sha256 a body \<longleftrightarrow> int (length body) = ar_Size a \<and> sha256 body = ar_Digest a"


section \<open>Reading the CSV back\<close>

text \<open>A reader of RFC 4180, which keeps line breaks inside quotes as they are and wants every record ended by a line feed.\<close>

datatype csv_state = AtField | InPlain | InQuoted | AfterQuote

fun csv_read :: "csv_state \<Rightarrow> string \<Rightarrow> string list \<Rightarrow> string \<Rightarrow> string list list option" where
  "csv_read st f fs [] = (if st = AtField \<and> fs = [] then Some [] else None)"
| "csv_read st f fs (c # cs) =
     (if st = InQuoted then (if c = CHR 0x22 then csv_read AfterQuote f fs cs else csv_read InQuoted (f @ [c]) fs cs)
      else if st = AfterQuote \<and> c = CHR 0x22 then csv_read InQuoted (f @ [c]) fs cs
      else if c = CHR '','' then csv_read AtField [] (fs @ [f]) cs
      else if c = CHR 0x0A then map_option ((#) (fs @ [f])) (csv_read AtField [] [] cs)
      else if st = AtField \<and> c = CHR 0x22 then csv_read InQuoted [] fs cs
      else if st = AfterQuote \<or> c = CHR 0x22 \<or> c = CHR 0x0D then None
      else csv_read InPlain (f @ [c]) fs cs)"

lemma read_plain:
  assumes "\<forall>c \<in> set x. c \<noteq> CHR 0x22 \<and> c \<noteq> CHR '','' \<and> c \<noteq> CHR 0x0A \<and> c \<noteq> CHR 0x0D"
    "st = AtField \<or> st = InPlain" "sep = CHR '','' \<or> sep = CHR 0x0A"
  shows "csv_read st f fs (x @ sep # rest) = csv_read InPlain (f @ x) fs (sep # rest)"
  using assms by (induction x arbitrary: st f) auto

lemma read_quoted:
  assumes "sep = CHR '','' \<or> sep = CHR 0x0A"
  shows "csv_read InQuoted f fs (double_quotes x @ CHR 0x22 # sep # rest) = csv_read InPlain (f @ x) fs (sep # rest)"
  using assms by (induction x arbitrary: f) (auto simp: double_quotes_def)

lemma read_field:
  assumes "sep = CHR '','' \<or> sep = CHR 0x0A"
  shows "csv_read AtField [] fs (csv_field x @ sep # rest) = csv_read InPlain x fs (sep # rest)"
proof (cases "field_needs_quotes x")
  case True
  then show ?thesis using read_quoted [OF assms, of "[]" fs x rest] by (simp add: csv_field_def)
next
  case False
  then have "\<forall>c \<in> set x. c \<noteq> CHR 0x22 \<and> c \<noteq> CHR '','' \<and> c \<noteq> CHR 0x0A \<and> c \<noteq> CHR 0x0D"
    by (auto simp: field_needs_quotes_def list_ex_iff split: if_splits)
  with False read_plain [of x AtField sep "[]" fs rest] assms show ?thesis by (simp add: csv_field_def)
qed

lemma read_fields:
  "xs \<noteq> [] \<Longrightarrow> csv_read AtField [] fs (csv_fields xs @ CHR 0x0A # rest) = map_option ((#) (fs @ xs)) (csv_read AtField [] [] rest)"
proof (induction xs arbitrary: fs rule: csv_fields.induct)
  case (2 f)
  then show ?case by (simp add: read_field del: csv_read.simps) simp
next
  case (3 f g gs)
  have "csv_read AtField [] fs (csv_fields (f # g # gs) @ CHR 0x0A # rest)
      = csv_read InPlain f fs (CHR '','' # csv_fields (g # gs) @ CHR 0x0A # rest)"
    using read_field [of "CHR '',''" fs f "csv_fields (g # gs) @ CHR 0x0A # rest"] by (simp del: csv_read.simps)
  also have "\<dots> = csv_read AtField [] (fs @ [f]) (csv_fields (g # gs) @ CHR 0x0A # rest)" by simp
  finally show ?case using 3(1) [of "fs @ [f]"] by simp
qed simp

lemma read_Write: "xs \<noteq> [] \<Longrightarrow> csv_read AtField [] [] (csv_Write xs @ rest) = map_option ((#) xs) (csv_read AtField [] [] rest)"
  using read_fields [of xs "[]" rest] by (simp add: csv_Write_def)

lemma read_rows:
  "csv_rows format_g17 ctx index rows = Inr body \<Longrightarrow> csv_read AtField [] [] body = Some (map (row_fields format_g17) rows)"
proof (induction rows arbitrary: index body)
  case (Cons row rows)
  then obtain rest where "csv_rows format_g17 ctx (index + 1) rows = Inr rest" "body = csv_Write (row_fields format_g17 row) @ rest"
    by (auto simp: result_simps split: option.splits if_splits)
  with Cons.IH [of "index + 1" rest] show ?case by (simp add: read_Write row_fields_def del: csv_read.simps)
qed simp

lemma generate_facts:
  assumes "generator_Generate env maxBytes ctx request records = Inr g"
  shows "request_Validate (request_Normalize request) = None" "int (length (gd_Body g)) \<le> maxBytes" "gd_Digest g = ev_sha256 env (gd_Body g)"
    "gd_DigestHex g = hex_encode (gd_Digest g)" "gd_Rows g = int (length records)"
    "xq_Format request = CSV \<Longrightarrow> generateCSV (ev_format env) ctx (xq_Locale request) (sort_func cmp_record records) = Inr (gd_Body g)"
  using assms
  by (auto simp: generator_Generate_def Let_def result_simps request_Normalize_def split: option.splits if_splits ExportFormat.splits)

text \<open>
  C35: A reader of RFC 4180 gets back, from a CSV export, the two header records and then the fields of every record, in the
  order of the project, the repository and the metric, whatever the fields contain; and the body keeps to the size quota.
\<close>
theorem csv_export_roundtrip:
  assumes "generator_Generate env maxBytes ctx request records = Inr g" "xq_Format request = CSV"
  shows "csv_read AtField [] [] (gd_Body g) =
      Some (machineColumns # localizedColumns (xq_Locale request) # map (row_fields (ev_format env)) (sort_func cmp_record records)) \<and>
    int (length (gd_Body g)) \<le> maxBytes \<and> gd_Rows g = int (length records)"
proof -
  note f = generate_facts [OF assms(1)]
  obtain body where b: "csv_rows (ev_format env) ctx 0 (sort_func cmp_record records) = Inr body"
    and g: "gd_Body g = csv_Write machineColumns @ csv_Write (localizedColumns (xq_Locale request)) @ body"
    using f(6) [OF assms(2)] by (auto simp: generateCSV_def result_simps)
  have "localizedColumns (xq_Locale request) \<noteq> []"
    using f(1) by (auto simp: request_Validate_def request_Normalize_def localizedColumns_def Let_def split: if_splits)
  then show ?thesis using f(2,5) read_rows [OF b] g by (simp add: read_Write machineColumns_def del: csv_read.simps)
qed

interpretation record_order: comparator cmp_record
  by unfold_locales (auto simp: cmp_record_def cmp_then_def cmp_int_def cmp_string_def split: if_splits)

lemma cmp_record_key: "cmp_record x y \<le> 0 \<Longrightarrow> cmp_record y x \<le> 0 \<Longrightarrow>
    (xr_ProjectID x, xr_RepositoryID x, xr_Metric x) = (xr_ProjectID y, xr_RepositoryID y, xr_Metric y)"
  by (auto simp: cmp_record_def cmp_then_def cmp_int_def cmp_string_def split: if_splits)

text \<open>An export of the same records in another order is the same, byte for byte, when no two records have the same key.\<close>
theorem export_order_irrelevant:
  assumes "mset records = mset records'" "distinct (map (\<lambda>r. (xr_ProjectID r, xr_RepositoryID r, xr_Metric r)) records)"
  shows "generator_Generate env maxBytes ctx request records = generator_Generate env maxBytes ctx request records'"
proof -
  have "x = y" if "x \<in> set records" "y \<in> set records" "cmp_record x y \<le> 0" "cmp_record y x \<le> 0" for x y
    using cmp_record_key [OF that(3,4)] assms(2) that(1,2) unfolding distinct_map inj_on_def by blast
  then have s: "sort_func cmp_record records' = sort_func cmp_record records"
    by (intro record_order.sort_func_unique) (simp_all add: sort_result_def record_order.ordered_sort assms(1))
  show ?thesis unfolding generator_Generate_def Let_def s ..
qed

definition sample_export_env :: export_env where
  "sample_export_env = \<lparr>ev_format = (\<lambda>v. ''1''), ev_marshal = (\<lambda>p. None), ev_sha256 = take 32\<rparr>"

definition sample_export_request :: ExportRequest where
  "sample_export_request = \<lparr>xq_ProjectIDs = [7, 5], xq_Resource = ''metrics'', xq_Format = CSV, xq_Filters = [], xq_Locale = ''en'',
     xq_WindowFrom = Time 100 UTC, xq_WindowTo = Time 200 UTC, xq_Cutoff = Time 300 UTC\<rparr>"

definition sample_record :: "int64 \<Rightarrow> string \<Rightarrow> ExportRecord" where
  "sample_record i name = \<lparr>xr_ProjectID = i, xr_RepositoryID = 0, xr_Metric = name, xr_Value = Some (Fin 1), xr_Status = MissingAvailable,
     xr_Unit = [CHR 0x22, CHR 0x0A, CHR '',''], xr_Definition = ''1'', xr_Formula = ''f'', xr_Coverage = ''1/1'', xr_Provenance = [''a'', ''b''],
     xr_PolicyContext = '' p'', xr_AnalysisRunIDs = [3]\<rparr>"

theorem csv_export_roundtrip_witness:
  "\<exists>g. generator_Generate sample_export_env 9999 (\<lambda>i. None) sample_export_request [sample_record 7 ''a'', sample_record 5 ''b''] = Inr g \<and>
    csv_read AtField [] [] (gd_Body g) = Some (machineColumns # localizedColumns ''en'' #
      map (row_fields (\<lambda>v. ''1'')) [sample_record 5 ''b'', sample_record 7 ''a''])"
proof -
  let ?rs = "[sample_record 7 ''a'', sample_record 5 ''b'']"
  have "\<not> isl (generator_Generate sample_export_env 9999 (\<lambda>i. None) sample_export_request ?rs)" by code_simp
  then obtain g where g: "generator_Generate sample_export_env 9999 (\<lambda>i. None) sample_export_request ?rs = Inr g"
    by (cases "generator_Generate sample_export_env 9999 (\<lambda>i. None) sample_export_request ?rs") auto
  moreover have "sort_func cmp_record ?rs = [sample_record 5 ''b'', sample_record 7 ''a'']"
    by (simp add: cmp_record_def cmp_then_def cmp_int_def sample_record_def)
  moreover have "xq_Format sample_export_request = CSV" "xq_Locale sample_export_request = ''en''" "ev_format sample_export_env = (\<lambda>v. ''1'')"
    by (simp_all add: sample_export_request_def sample_export_env_def)
  ultimately show ?thesis using csv_export_roundtrip [OF g] by simp
qed

theorem export_order_irrelevant_witness:
  "generator_Generate sample_export_env 9999 (\<lambda>i. None) sample_export_request [sample_record 7 ''a'', sample_record 5 ''b''] =
    generator_Generate sample_export_env 9999 (\<lambda>i. None) sample_export_request [sample_record 5 ''b'', sample_record 7 ''a'']"
  by (rule export_order_irrelevant) (simp_all add: sample_record_def)

lemma check_ids_iff: "check_ids seen xs \<longleftrightarrow> (\<forall>i \<in> set xs. 0 < i) \<and> \<not> has_dup seen xs"
  by (induction seen xs rule: check_ids.induct) auto

lemma request_scope:
  "request_Validate r = None \<Longrightarrow> distinct (xq_ProjectIDs r) \<and> (\<forall>i \<in> set (xq_ProjectIDs r). 0 < i) \<and> length (xq_ProjectIDs r) \<in> {1..100} \<and>
     (xq_Format r = CSV \<or> xq_Format r = EvidenceJSON) \<and> nanos (xq_WindowFrom r) \<le> nanos (xq_WindowTo r) \<and> nanos (xq_WindowTo r) \<le> nanos (xq_Cutoff r)"
  by (auto simp: request_Validate_def Let_def check_ids_iff has_dup_iff after_def Suc_le_eq split: if_splits)

lemma distinct_length_set: "distinct xs \<Longrightarrow> distinct (sort_func cmp xs)"
  by (metis mset_sort_func mset_eq_imp_distinct_iff)

text \<open>Normalizing twice is normalizing once, and validation does not depend on the order of the identifiers.\<close>

lemma sort_ints_fixed: "sorted xs \<Longrightarrow> sort_func cmp_int xs = xs"
  by (rule sym, rule int_order.sort_func_unique)
    (auto simp: sort_result_def ordered_by_def cmp_int_def elim: sorted_wrt_mono_rel [rotated] split: if_splits)

lemma normalize_idem: "request_Normalize (request_Normalize r) = request_Normalize r"
  by (simp add: request_Normalize_def sort_ints_fixed sorted_sort_ints)

lemma validate_normalize: "request_Validate (request_Normalize r) = request_Validate r"
proof -
  have "sort_func cmp_int (xq_ProjectIDs r) = [] \<longleftrightarrow> xq_ProjectIDs r = []" by (metis length_0_conv length_sort_func)
  moreover have "check_ids [] (sort_func cmp_int (xq_ProjectIDs r)) = check_ids [] (xq_ProjectIDs r)"
    by (simp add: check_ids_iff has_dup_iff) (metis mset_sort_func mset_eq_imp_distinct_iff)
  ultimately show ?thesis by (simp add: request_Validate_def request_Normalize_def)
qed

section \<open>Expiry and capacity\<close>

text \<open>
  An artifact opens to its own project from its completion for 24 hours exactly, and to no other project; and a body passes
  the verification only with the size and the digest of the one the artifact was made from.
\<close>
theorem artifact_expiry:
  assumes "NewArtifact sha256 projectID key mediaType body completedAt = Inr a"
  shows "(artifact_Authorize a p t = None \<longleftrightarrow> p = projectID \<and> nanos t < nanos completedAt + 86400000000000) \<and>
    (artifact_Authorize a projectID t = Some ExErrGone \<longleftrightarrow> nanos completedAt + 86400000000000 \<le> nanos t) \<and>
    (artifact_Verify sha256 a other \<longleftrightarrow> length other = length body \<and> sha256 other = sha256 body)"
  using assms
  by (auto simp: NewArtifact_def artifact_Authorize_def artifact_Verify_def before_def time_add_def Lifetime_def hour_def split: if_splits)

theorem artifact_expiry_witness:
  "\<exists>a. NewArtifact rev 5 ''k'' ''m'' ''abc'' (Time 10 UTC) = Inr a \<and> artifact_Authorize a 5 (Time 86400000000009 UTC) = None \<and>
    artifact_Authorize a 5 (Time 86400000000010 UTC) = Some ExErrGone \<and> \<not> artifact_Verify rev a ''abd''"
proof -
  obtain a where a: "NewArtifact rev 5 ''k'' ''m'' ''abc'' (Time 10 UTC) = Inr a"
    by (simp add: NewArtifact_def is_zero_def)
  show ?thesis using a artifact_expiry [OF a] by auto
qed

text \<open>
  The gate of a coordinator under any interleaving: calls enter with \<open>acquire\<close>, and every call that entered leaves once. \<open>n\<close>
  counts the calls inside.
\<close>

inductive gate_run :: "Coordinator \<Rightarrow> nat \<Rightarrow> Coordinator \<Rightarrow> bool" for c0 where
  gate_start: "gate_run c0 0 c0"
| gate_enter: "gate_run c0 n c \<Longrightarrow> acquire c cancelled prefer_gate = Inr c' \<Longrightarrow> gate_run c0 (Suc n) c'"
| gate_leave: "gate_run c0 (Suc n) c \<Longrightarrow> gate_run c0 n (release c)"

lemma gate_counts:
  assumes "gate_run c0 n c" "NewCoordinator concurrency maxBytes = Inr c0"
  shows "co_held c = int n \<and> co_held c \<le> concurrency \<and> co_capacity c = concurrency \<and> co_gen c = NewGenerator maxBytes"
  using assms
  by (induction rule: gate_run.induct)
    (auto simp: NewCoordinator_def acquire_def release_def split: if_splits option.splits)

text \<open>
  However the calls of a coordinator interleave, no more of them generate at a time than its capacity, at most 64; a call is
  turned away as busy exactly when that many are inside, and the gate does not leak.
\<close>
theorem export_capacity:
  assumes "NewCoordinator concurrency maxBytes = Inr c0" "gate_run c0 n c"
  shows "int n \<le> concurrency \<and> concurrency \<le> 64 \<and> co_held c = int n \<and>
    (acquire c None prefer_gate = Inl ExErrBusy \<longleftrightarrow> int n = concurrency) \<and>
    co_held (snd (coordinator_Generate env c cancelled prefer_gate ctx request records)) = int n"
proof -
  have "concurrency \<le> 64" using assms(1) by (auto simp: NewCoordinator_def split: if_splits)
  moreover have "co_held (snd (coordinator_Generate env c cancelled prefer_gate ctx request records)) = co_held c"
    by (auto simp: coordinator_Generate_def acquire_def release_def split: option.split)
  ultimately show ?thesis using gate_counts [OF assms(2,1)] by (auto simp: acquire_def)
qed

theorem export_capacity_witness:
  "\<exists>c. gate_run \<lparr>co_capacity = 1, co_held = 0, co_gen = DefaultMaxBytes\<rparr> 1 c \<and> acquire c None False = Inl ExErrBusy"
proof -
  let ?c0 = "\<lparr>co_capacity = 1, co_held = 0, co_gen = DefaultMaxBytes\<rparr>"
  have n: "NewCoordinator 1 0 = Inr ?c0" by (simp add: NewCoordinator_def NewGenerator_def)
  have "gate_run ?c0 (Suc 0) (?c0\<lparr>co_held := 1\<rparr>)"
    by (rule gate_enter [OF gate_start, where cancelled = None]) (simp add: acquire_def)
  with export_capacity [OF n, of "Suc 0" "?c0\<lparr>co_held := 1\<rparr>" False] show ?thesis by auto
qed
end
