(* ===== verification/ExportStore.thy ===== *)
theory ExportStore
  imports Export Project
begin

text \<open>
  \<open>internal/platform/exportstore\<close>: durable export requests, the generation of an artifact under a job's lease and its download.
  The tables are lists of rows with the constraints of the migrations, the object store a map from keys to bodies. \<open>json.Marshal\<close>,
  \<open>json.Unmarshal\<close> and the text that PostgreSQL returns for a \<open>jsonb\<close> value are arguments.
\<close>

section \<open>Tables\<close>

datatype exportstore_error = XsAccess access_error | XsExport export_error | XsJob job_error | XsJobs jobstore_error | XsNotFound | XsIDs
  | XsConstraint | XsMessage string

datatype ExportState = XQueued | XRunning | XSucceeded | XFailed | XCancelled | XExpired

record export_request_row =
  xe_ID :: int64
  xe_Workspace :: int64
  xe_Actor :: int64
  xe_JobID :: int64
  xe_Request :: string
  xe_RequestID :: string
  xe_ObjectID :: "int64 option"
  xe_Rows :: int64
  xe_State :: ExportState
  xe_Failure :: string
  xe_CreatedAt :: gotime
  xe_CompletedAt :: "gotime option"
  xe_ExpiresAt :: "gotime option"

record object_ref_row =
  oj_ID :: int64
  oj_Key :: string
  oj_SHA256 :: string
  oj_Size :: int64
  oj_MediaType :: string
  oj_VerifiedAt :: gotime

record scope_project =
  sj_ID :: int64
  sj_Workspace :: int64
  sj_State :: ProjectState

record snapshot_row =
  sr_ID :: int64
  sr_ProjectID :: int64
  sr_RepositoryIDs :: "int64 list"
  sr_Name :: string
  sr_Version :: string
  sr_Value :: "f64 option"
  sr_Status :: string
  sr_From :: gotime
  sr_To :: gotime
  sr_Cutoff :: gotime
  sr_Observed :: int64
  sr_Eligible :: int64

record definition_ref =
  dr_Name :: string
  dr_Version :: string
  dr_Unit :: string
  dr_Formula :: string

record export_db =
  xd_jobs :: job_db
  xd_exports :: "export_request_row list"
  xd_scopes :: "(int64 \<times> int64) list"
  xd_objects :: "object_ref_row list"
  xd_projects :: "scope_project list"
  xd_snapshots :: "snapshot_row list"
  xd_definitions :: "definition_ref list"

text \<open>A promotion is a copy and the removal of the staged object: it fails before or after the copy.\<close>

datatype promote_outcome = Promoted | NotCopied | NotRemoved

text \<open>
  A commit that returns an error was rolled back by the server, or was committed by it and the confirmation got lost
  (a context that ends or a connection that breaks while the answer is awaited).
\<close>

datatype commit_outcome = Committed | RolledBack | Unconfirmed

text \<open>The outcomes of the object store and of the transaction that publishes an artifact are part of the environment.\<close>

record store_env =
  es_generate :: export_env
  es_encode :: "ExportRequest \<Rightarrow> string"
  es_jsonb :: "string \<Rightarrow> string"
  es_decode :: "string \<Rightarrow> ExportRequest option"
  es_ctx :: "nat \<Rightarrow> ctx_error option"
  es_stage :: bool
  es_promote :: promote_outcome
  es_delete :: bool
  es_begin :: bool
  es_commit :: commit_outcome

type_synonym blobs = "string \<Rightarrow> string option"

record export_sys =
  xs_db :: export_db
  xs_blobs :: blobs

record Export =
  xv_ID :: int64
  xv_JobID :: int64
  xv_State :: ExportState
  xv_Request :: ExportRequest
  xv_Rows :: int64
  xv_MediaType :: string
  xv_SHA256 :: string
  xv_SizeBytes :: int64
  xv_DownloadURL :: string
  xv_Failure :: string
  xv_CreatedAt :: gotime
  xv_CompletedAt :: "gotime option"
  xv_ExpiresAt :: "gotime option"
  xv_objectKey :: string
  xv_workspaceID :: int64
  xv_actorID :: int64

definition artifactLifetime :: duration where "artifactLifetime = 24 * hour"

section \<open>Reading exports\<close>

definition export_by_id :: "export_db \<Rightarrow> int64 \<Rightarrow> export_request_row option" where
  "export_by_id db i = find (\<lambda>e. xe_ID e = i) (xd_exports db)"

definition object_by_id :: "export_db \<Rightarrow> int64 option \<Rightarrow> object_ref_row option" where
  "object_by_id db i = (case i of None \<Rightarrow> None | Some k \<Rightarrow> find (\<lambda>x. oj_ID x = k) (xd_objects db))"

definition authorizeProjects :: "export_db \<Rightarrow> int64 \<Rightarrow> int64 list \<Rightarrow> exportstore_error option" where
  "authorizeProjects db ws ids =
     (if length (filter (\<lambda>p. sj_Workspace p = ws \<and> sj_ID p \<in> set ids \<and> sj_State p \<noteq> StateDeleting \<and> sj_State p \<noteq> StateDeleted) (xd_projects db))
         \<noteq> length ids then Some XsNotFound else None)"

definition loaded_state :: "export_request_row \<Rightarrow> JobState \<Rightarrow> ExportState" where
  "loaded_state e j =
     (if xe_State e \<noteq> XSucceeded \<and> j = Failed then XFailed else if xe_State e \<noteq> XSucceeded \<and> j = Cancelled then XCancelled else xe_State e)"

definition load_export :: "store_env \<Rightarrow> export_db \<Rightarrow> int64 \<Rightarrow> int64 \<Rightarrow> int64 \<Rightarrow> exportstore_error + Export" where
  "load_export env db i workspaceID actorID =
     (case find (\<lambda>e. xe_ID e = i \<and> xe_Workspace e = workspaceID \<and> xe_Actor e = actorID \<and> row_by_job (xd_jobs db) (xe_JobID e) \<noteq> None)
             (xd_exports db) of
        None \<Rightarrow> Inl XsNotFound
      | Some e \<Rightarrow>
          let ob = object_by_id db (xe_ObjectID e) in
          bindE (some_or (XsMessage ''decode export metadata'') (es_decode env (xe_Request e))) (\<lambda>request.
          Inr \<lparr>xv_ID = xe_ID e, xv_JobID = xe_JobID e,
            xv_State = (case row_by_job (xd_jobs db) (xe_JobID e) of None \<Rightarrow> xe_State e | Some j \<Rightarrow> loaded_state e (jb_State (jr_job j))),
            xv_Request = request, xv_Rows = xe_Rows e, xv_MediaType = (case ob of None \<Rightarrow> '''' | Some x \<Rightarrow> oj_MediaType x),
            xv_SHA256 = hex_encode (case ob of None \<Rightarrow> '''' | Some x \<Rightarrow> oj_SHA256 x),
            xv_SizeBytes = (case ob of None \<Rightarrow> 0 | Some x \<Rightarrow> oj_Size x), xv_DownloadURL = '''', xv_Failure = xe_Failure e,
            xv_CreatedAt = xe_CreatedAt e, xv_CompletedAt = xe_CompletedAt e, xv_ExpiresAt = xe_ExpiresAt e,
            xv_objectKey = (case ob of None \<Rightarrow> '''' | Some x \<Rightarrow> oj_Key x), xv_workspaceID = xe_Workspace e, xv_actorID = xe_Actor e\<rparr>))"

definition GetExport :: "store_env \<Rightarrow> export_db \<Rightarrow> Principal \<Rightarrow> int64 \<Rightarrow> gotime \<Rightarrow> exportstore_error + Export" where
  "GetExport env db actor i now =
     (case Authorize actor ActionIntelligenceRead of Some e \<Rightarrow> Inl (XsAccess e)
      | None \<Rightarrow>
          bindE (load_export env db i (pr_Workspace actor) (pr_ActorID actor)) (\<lambda>v.
          let v1 = (case xv_ExpiresAt v of None \<Rightarrow> v | Some t \<Rightarrow>
                      if \<not> before (utc now) t then v\<lparr>xv_State := XExpired, xv_DownloadURL := ''''\<rparr> else v) in
          Inr (if xv_State v1 = XSucceeded
               then v1\<lparr>xv_DownloadURL := ''/api/v1/exports/'' @ format_int (xv_ID v1) @ ''/download''\<rparr> else v1)))"

definition Download :: "store_env \<Rightarrow> export_sys \<Rightarrow> Principal \<Rightarrow> int64 \<Rightarrow> gotime \<Rightarrow> exportstore_error + Export \<times> string" where
  "Download env s actor i now =
     bindE (GetExport env (xs_db s) actor i now) (\<lambda>v.
       if xv_State v = XExpired then Inl (XsExport ExErrExpired)
       else if xv_State v \<noteq> XSucceeded \<or> xv_objectKey v = '''' then Inl (XsExport ExErrNotReady)
       else (case xs_blobs s (xv_objectKey v) of None \<Rightarrow> Inl (XsMessage ''read object'')
        | Some body \<Rightarrow>
            if hex_encode (ev_sha256 (es_generate env) body) \<noteq> xv_SHA256 v \<or> int (length body) \<noteq> xv_SizeBytes v
            then Inl (XsMessage ''export artifact checksum mismatch'')
            else Inr (v, body)))"

section \<open>Creating exports\<close>

definition insert_export_job :: "export_db \<Rightarrow> Job \<Rightarrow> Principal \<Rightarrow> string \<Rightarrow> gotime \<Rightarrow> exportstore_error + export_db" where
  "insert_export_job db v actor requestID now =
     (if jb_ID v \<le> 0 \<or> row_by_job (xd_jobs db) (jb_ID v) \<noteq> None then Inl XsConstraint
      else Inr (db\<lparr>xd_jobs := (xd_jobs db)\<lparr>jt_jobs := jt_jobs (xd_jobs db) @
             [\<lparr>jr_job = v\<lparr>jb_CreatedAt := pg_time now, jb_UpdatedAt := pg_time now\<rparr>, jr_Workspace = pr_Workspace actor, jr_Key = None,
               jr_AvailableAt = pg_time now, jr_Holder = None, jr_ExpiresAt = None, jr_HeartbeatAt = None, jr_MaxAttempts = 3,
               jr_CorrelationID = requestID\<rparr>]\<rparr>\<rparr>))"

definition insert_export :: "export_db \<Rightarrow> export_request_row \<Rightarrow> exportstore_error + export_db" where
  "insert_export db e =
     (if xe_ID e \<le> 0 \<or> xe_Actor e \<le> 0 \<or> list_ex (\<lambda>x. xe_ID x = xe_ID e \<or> xe_JobID x = xe_JobID e \<or>
           (xe_Workspace x = xe_Workspace e \<and> xe_Actor x = xe_Actor e \<and> xe_RequestID x = xe_RequestID e)) (xd_exports db)
      then Inl XsConstraint
      else Inr (db\<lparr>xd_exports := xd_exports db @ [e]\<rparr>))"

fun insert_export_scopes :: "export_db \<Rightarrow> int64 \<Rightarrow> int64 list \<Rightarrow> exportstore_error + export_db" where
  "insert_export_scopes db exportID [] = Inr db"
| "insert_export_scopes db exportID (p # ps) =
     (if (exportID, p) \<in> set (xd_scopes db) \<or> p \<notin> sj_ID ` set (xd_projects db) then Inl XsConstraint
      else insert_export_scopes (db\<lparr>xd_scopes := xd_scopes db @ [(exportID, p)]\<rparr>) exportID ps)"

definition new_export_row :: "store_env \<Rightarrow> Principal \<Rightarrow> int64 \<Rightarrow> int64 \<Rightarrow> ExportRequest \<Rightarrow> string \<Rightarrow> gotime \<Rightarrow> export_request_row" where
  "new_export_row env actor exportID jobID request requestID now =
     \<lparr>xe_ID = exportID, xe_Workspace = pr_Workspace actor, xe_Actor = pr_ActorID actor, xe_JobID = jobID,
      xe_Request = es_jsonb env (es_encode env request), xe_RequestID = requestID, xe_ObjectID = None, xe_Rows = 0, xe_State = XQueued,
      xe_Failure = '''', xe_CreatedAt = pg_time now, xe_CompletedAt = None, xe_ExpiresAt = None\<rparr>"

definition queued_export :: "int64 \<Rightarrow> int64 \<Rightarrow> ExportRequest \<Rightarrow> gotime \<Rightarrow> Export" where
  "queued_export exportID jobID request now =
     \<lparr>xv_ID = exportID, xv_JobID = jobID, xv_State = XQueued, xv_Request = request, xv_Rows = 0, xv_MediaType = '''', xv_SHA256 = '''',
      xv_SizeBytes = 0, xv_DownloadURL = '''', xv_Failure = '''', xv_CreatedAt = now, xv_CompletedAt = None, xv_ExpiresAt = None,
      xv_objectKey = '''', xv_workspaceID = 0, xv_actorID = 0\<rparr>"

definition CreateExport ::
    "store_env \<Rightarrow> export_db \<Rightarrow> Principal \<Rightarrow> ExportRequest \<Rightarrow> string \<Rightarrow> gotime \<Rightarrow> int64 list \<Rightarrow> exportstore_error + Export \<times> export_db" where
  "CreateExport env db actor request0 requestID0 clock ids =
     (case Authorize actor ActionExportWrite of Some e \<Rightarrow> Inl (XsAccess e)
      | None \<Rightarrow>
      let request = request_Normalize request0 in
      bindE (err_none XsExport (request_Validate request)) (\<lambda>_.
      let requestID = trim_space requestID0 in
      if requestID = '''' \<or> length requestID > 255 then Inl (XsExport ExErrInvalidRequest)
      else
        bindE (err_none id (authorizeProjects db (pr_Workspace actor) (xq_ProjectIDs request))) (\<lambda>_.
        let encoded = es_encode env request in
        case find (\<lambda>e. xe_Workspace e = pr_Workspace actor \<and> xe_Actor e = pr_ActorID actor \<and> xe_RequestID e = requestID) (xd_exports db) of
          Some e \<Rightarrow>
            if xe_Request e \<noteq> encoded then Inl (XsExport ExErrIdempotencyKey)
            else map_sum id (\<lambda>v. (v, db)) (load_export env db (xe_ID e) (pr_Workspace actor) (pr_ActorID actor))
        | None \<Rightarrow>
            (case ids of
               exportID # jobID # rest \<Rightarrow>
                 let now = utc clock in
                 bindE (map_sum XsJob id (job_New jobID 0 ''export'' ''rows'' None True now)) (\<lambda>v.
                 bindE (insert_export_job db v actor requestID now) (\<lambda>db1.
                 bindE (insert_export db1 (new_export_row env actor exportID jobID request requestID now)) (\<lambda>db2.
                 bindE (insert_export_scopes db2 exportID (xq_ProjectIDs request)) (\<lambda>db3.
                 bindE (map_sum XsJobs id (recordEvent (xd_jobs db3) rest v)) (\<lambda>(jobs, _).
                 Inr (queued_export exportID jobID request now, db3\<lparr>xd_jobs := jobs\<rparr>))))))
             | _ \<Rightarrow> Inl XsIDs))))"

section \<open>Generating artifacts\<close>

definition missingState :: "string \<Rightarrow> MissingState" where
  "missingState s =
     (if s = ''available'' then MissingAvailable else if s = ''unknown'' then MissingUnknown
      else if s = ''not_applicable'' then MissingNotApplicable else if s = ''insufficient_data'' then MissingInsufficientData
      else MissingUnknown)"

definition cmp_snapshot :: "snapshot_row \<Rightarrow> snapshot_row \<Rightarrow> int" where
  "cmp_snapshot a b = cmp_then (cmp_int (sr_ProjectID a) (sr_ProjectID b)) (cmp_then (cmp_string (sr_Name a) (sr_Name b))
     (cmp_then (time_compare (sr_Cutoff b) (sr_Cutoff a)) (cmp_int (sr_ID b) (sr_ID a))))"

text \<open>\<open>DISTINCT ON\<close> keeps the first row of every group of the ordered rows.\<close>

fun first_of_each :: "('a \<Rightarrow> 'k) \<Rightarrow> 'a list \<Rightarrow> 'a list" where
  "first_of_each key [] = []"
| "first_of_each key (x # xs) = x # first_of_each key (filter (\<lambda>y. key y \<noteq> key x) xs)"

definition definition_of :: "export_db \<Rightarrow> snapshot_row \<Rightarrow> definition_ref option" where
  "definition_of db r = find (\<lambda>d. dr_Name d = sr_Name r \<and> dr_Version d = sr_Version r) (xd_definitions db)"

definition snapshot_record :: "export_db \<Rightarrow> snapshot_row \<Rightarrow> ExportRecord" where
  "snapshot_record db r =
     (let d = the (definition_of db r) in
      \<lparr>xr_ProjectID = sr_ProjectID r, xr_RepositoryID = (case sr_RepositoryIDs r of [] \<Rightarrow> 0 | i # _ \<Rightarrow> i), xr_Metric = sr_Name r,
       xr_Value = sr_Value r, xr_Status = missingState (sr_Status r), xr_Unit = dr_Unit d, xr_Definition = dr_Version d,
       xr_Formula = dr_Formula d, xr_Coverage = format_int (sr_Observed r) @ ''/'' @ format_int (sr_Eligible r),
       xr_Provenance = [''metric_snapshot:'' @ format_int (sr_ID r)], xr_PolicyContext = '''', xr_AnalysisRunIDs = []\<rparr>)"

definition exported_snapshots :: "export_db \<Rightarrow> ExportRequest \<Rightarrow> snapshot_row list" where
  "exported_snapshots db request =
     first_of_each (\<lambda>r. (sr_ProjectID r, sr_Name r)) (sort_func cmp_snapshot (filter (\<lambda>r. definition_of db r \<noteq> None \<and>
       sr_ProjectID r \<in> set (xq_ProjectIDs request) \<and> time_equal (sr_From r) (pg_time (xq_WindowFrom request)) \<and>
       time_equal (sr_To r) (pg_time (xq_WindowTo request)) \<and> \<not> after (sr_Cutoff r) (pg_time (xq_Cutoff request))) (xd_snapshots db)))"

definition export_records :: "export_db \<Rightarrow> ExportRequest \<Rightarrow> ExportRecord list" where
  "export_records db request = map (snapshot_record db) (exported_snapshots db request)"

definition update_export :: "export_db \<Rightarrow> int64 \<Rightarrow> (export_request_row \<Rightarrow> export_request_row) \<Rightarrow> export_db" where
  "update_export db i f = db\<lparr>xd_exports := map (\<lambda>e. if xe_ID e = i then f e else e) (xd_exports db)\<rparr>"

definition export_base :: "int64 \<Rightarrow> string" where
  "export_base exportID = ''exports/'' @ format_int exportID"

definition stagedKey :: "int64 \<Rightarrow> string" where "stagedKey exportID = export_base exportID @ ''/staged''"
definition finalKey :: "int64 \<Rightarrow> string" where "finalKey exportID = export_base exportID @ ''/artifact''"

text \<open>The object store: \<open>Promote\<close> moves the staged object, over any object that has the final key.\<close>

definition blob_put :: "blobs \<Rightarrow> string \<Rightarrow> string \<Rightarrow> blobs" where "blob_put b key body = b(key := Some body)"

definition blob_delete :: "store_env \<Rightarrow> blobs \<Rightarrow> string \<Rightarrow> blobs" where
  "blob_delete env b key = (if es_delete env then b(key := None) else b)"

definition blob_promote :: "store_env \<Rightarrow> blobs \<Rightarrow> string \<Rightarrow> string \<Rightarrow> bool \<times> blobs" where
  "blob_promote env b staged final =
     (case es_promote env of
        Promoted \<Rightarrow> (True, (b(final := b staged))(staged := None))
      | NotCopied \<Rightarrow> (False, b)
      | NotRemoved \<Rightarrow> (False, b(final := b staged)))"

text \<open>\<open>Process\<close> in three parts: the start, the artifact in the object store, and the publication in a transaction.\<close>

definition process_start :: "export_db \<Rightarrow> int64 \<Rightarrow> exportstore_error + export_db \<times> export_request_row" where
  "process_start db jobID =
     (case find (\<lambda>e. xe_JobID e = jobID \<and> (xe_State e = XQueued \<or> xe_State e = XRunning)) (xd_exports db) of
        None \<Rightarrow> Inl (XsExport ExErrInvalidRequest)
      | Some e \<Rightarrow> Inr (update_export db (xe_ID e) (\<lambda>r. r\<lparr>xe_State := XRunning\<rparr>), e))"

definition process_generate :: "store_env \<Rightarrow> Coordinator \<Rightarrow> export_db \<Rightarrow> export_request_row \<Rightarrow> exportstore_error + ExportRequest \<times> Generated" where
  "process_generate env gen db e =
     bindE (some_or (XsMessage ''decode export request'') (es_decode env (xe_Request e))) (\<lambda>request.
     bindE (map_sum XsExport id (fst (coordinator_Generate (es_generate env) gen (es_ctx env 0) False (\<lambda>i. es_ctx env (i + 1)) request
         (export_records db request)))) (\<lambda>g. Inr (request, g)))"

definition process_store :: "store_env \<Rightarrow> int64 \<Rightarrow> string \<Rightarrow> blobs \<Rightarrow> exportstore_error option \<times> blobs" where
  "process_store env exportID body b =
     (if \<not> es_stage env then (Some (XsMessage ''stage''), b)
      else let staged = blob_put b (stagedKey exportID) body in
        case blob_promote env staged (stagedKey exportID) (finalKey exportID) of
          (False, b') \<Rightarrow> (Some (XsMessage ''promote''), blob_delete env b' (stagedKey exportID))
        | (True, b') \<Rightarrow> (None, b'))"

definition insert_object :: "export_db \<Rightarrow> object_ref_row \<Rightarrow> exportstore_error + export_db" where
  "insert_object db ob =
     (if oj_ID ob \<le> 0 \<or> oj_Key ob = '''' \<or> length (oj_SHA256 ob) \<noteq> 32 \<or> oj_Size ob < 0 \<or> oj_MediaType ob = '''' \<or>
         list_ex (\<lambda>x. oj_ID x = oj_ID ob \<or> oj_Key x = oj_Key ob) (xd_objects db)
      then Inl XsConstraint
      else Inr (db\<lparr>xd_objects := xd_objects db @ [ob]\<rparr>))"

definition published_row :: "int64 \<Rightarrow> Generated \<Rightarrow> gotime \<Rightarrow> export_request_row \<Rightarrow> export_request_row" where
  "published_row objectID g now e =
     (if xe_State e = XRunning
      then e\<lparr>xe_State := XSucceeded, xe_ObjectID := Some objectID, xe_Rows := gd_Rows g, xe_CompletedAt := Some (pg_time now),
        xe_ExpiresAt := Some (pg_time (time_add now artifactLifetime))\<rparr>
      else e)"

definition process_publish :: "store_env \<Rightarrow> int64 \<Rightarrow> int64 \<Rightarrow> Generated \<Rightarrow> gotime \<Rightarrow> export_sys \<Rightarrow> exportstore_error option \<times> export_sys" where
  "process_publish env exportID objectID g clock s =
     (let now = utc clock; dropped = s\<lparr>xs_blobs := blob_delete env (xs_blobs s) (finalKey exportID)\<rparr> in
      if \<not> es_begin env then (Some (XsMessage ''begin''), dropped)
      else
        (case insert_object (xs_db s) \<lparr>oj_ID = objectID, oj_Key = finalKey exportID, oj_SHA256 = gd_Digest g, oj_Size = int (length (gd_Body g)),
             oj_MediaType = gd_MediaType g, oj_VerifiedAt = pg_time now\<rparr> of
           Inl e \<Rightarrow> (Some e, dropped)
         | Inr db1 \<Rightarrow>
             let db2 = update_export db1 exportID (published_row objectID g now) in
             (case es_commit env of
                Committed \<Rightarrow> (None, s\<lparr>xs_db := db2\<rparr>)
              | RolledBack \<Rightarrow> (Some (XsMessage ''commit''), dropped)
              | Unconfirmed \<Rightarrow> (Some (XsMessage ''commit''), dropped\<lparr>xs_db := db2\<rparr>))))"

definition ProcessExport ::
    "store_env \<Rightarrow> Coordinator \<Rightarrow> export_sys \<Rightarrow> JobLease \<Rightarrow> gotime \<Rightarrow> int64 list \<Rightarrow> exportstore_error option \<times> export_sys" where
  "ProcessExport env gen s l clock ids =
     (case process_start (xs_db s) (jb_ID (lz_Job l)) of Inl e \<Rightarrow> (Some e, s)
      | Inr (db, e) \<Rightarrow>
          let s1 = s\<lparr>xs_db := db\<rparr> in
          (case process_generate env gen db e of Inl err \<Rightarrow> (Some err, s1)
           | Inr (request, g) \<Rightarrow>
               (case ids of [] \<Rightarrow> (Some XsIDs, s1)
                | objectID # _ \<Rightarrow>
                    (case process_store env (xe_ID e) (gd_Body g) (xs_blobs s1) of
                       (Some err, b) \<Rightarrow> (Some err, s1\<lparr>xs_blobs := b\<rparr>)
                     | (None, b) \<Rightarrow> process_publish env (xe_ID e) objectID g clock (s1\<lparr>xs_blobs := b\<rparr>)))))"

fun FailureCode :: "exportstore_error \<Rightarrow> string" where
  "FailureCode (XsExport (ExCtx e)) = ''interrupted''"
| "FailureCode (XsExport ExErrTooLarge) = ''export_too_large''"
| "FailureCode (XsExport ExErrInvalidRequest) = ''invalid_export''"
| "FailureCode e = ''export_failed''"

definition Filename :: "Export \<Rightarrow> string" where
  "Filename v =
     ''opi-'' @ map (\<lambda>c. if c = CHR ''_'' then CHR ''-'' else c) (xq_Resource (xv_Request v)) @ ''-'' @ format_int (xv_ID v) @
     (if xq_Format (xv_Request v) = CSV then ''.csv'' else ''.json'')"


section \<open>Creation\<close>

lemma insert_scopes_same:
  "insert_export_scopes db i ps = Inr db' \<Longrightarrow> xd_exports db' = xd_exports db \<and> xd_projects db' = xd_projects db \<and> xd_objects db' = xd_objects db \<and>
     xd_jobs db' = xd_jobs db"
  by (induction db i ps rule: insert_export_scopes.induct) (auto split: if_splits)

lemma create_effect:
  assumes "CreateExport env db actor r rid clock ids = Inr (v, db')"
    "find (\<lambda>e. xe_Workspace e = pr_Workspace actor \<and> xe_Actor e = pr_ActorID actor \<and> xe_RequestID e = trim_space rid) (xd_exports db) = None"
  obtains exportID jobID rest where "ids = exportID # jobID # rest"
    "xd_exports db' = xd_exports db @ [new_export_row env actor exportID jobID (request_Normalize r) (trim_space rid) (utc clock)]"
    "xd_projects db' = xd_projects db" "xd_objects db' = xd_objects db" "exportID \<notin> xe_ID ` set (xd_exports db)" "jobID \<notin> xe_JobID ` set (xd_exports db)"
    "0 < exportID" "Authorize actor ActionExportWrite = None" "request_Validate (request_Normalize r) = None"
    "trim_space rid \<noteq> ''''" "length (trim_space rid) \<le> 255" "authorizeProjects db (pr_Workspace actor) (xq_ProjectIDs (request_Normalize r)) = None"
    "v = queued_export exportID jobID (request_Normalize r) (utc clock)"
proof -
  from assms obtain exportID jobID rest where ids: "ids = exportID # jobID # rest"
    by (auto simp: CreateExport_def Let_def result_simps split: option.splits if_splits list.splits)
  from assms(1) [unfolded CreateExport_def Let_def ids] assms(2) obtain job db1 db2 db3 jobs where
    g: "Authorize actor ActionExportWrite = None" "request_Validate (request_Normalize r) = None" "trim_space rid \<noteq> ''''"
      "length (trim_space rid) \<le> 255" "authorizeProjects db (pr_Workspace actor) (xq_ProjectIDs (request_Normalize r)) = None"
    and i: "insert_export_job db job actor (trim_space rid) (utc clock) = Inr db1"
      "insert_export db1 (new_export_row env actor exportID jobID (request_Normalize r) (trim_space rid) (utc clock)) = Inr db2"
      "insert_export_scopes db2 exportID (xq_ProjectIDs (request_Normalize r)) = Inr db3" "db' = db3\<lparr>xd_jobs := jobs\<rparr>"
    and v: "v = queued_export exportID jobID (request_Normalize r) (utc clock)"
    by (auto simp: result_simps split: option.splits if_splits)
  have "xd_exports db1 = xd_exports db" "xd_projects db1 = xd_projects db" "xd_objects db1 = xd_objects db"
    using i(1) by (auto simp: insert_export_job_def split: if_splits)
  with i(2) have j: "xd_exports db2 = xd_exports db @ [new_export_row env actor exportID jobID (request_Normalize r) (trim_space rid) (utc clock)]"
      "xd_projects db2 = xd_projects db" "xd_objects db2 = xd_objects db"
      "exportID \<notin> xe_ID ` set (xd_exports db)" "jobID \<notin> xe_JobID ` set (xd_exports db)" "0 < exportID"
    by (auto simp: insert_export_def list_ex_iff new_export_row_def split: if_splits)
  from insert_scopes_same [OF i(3)] i(4) j g v ids that show thesis by simp
qed

text \<open>
  C37: A repeated creation with the same request identifier is answered with the stored export exactly when the database returns the
  stored request in the very bytes it was given; when it returns it in another form, as PostgreSQL does for \<open>jsonb\<close>, every
  repetition is refused as a reuse of the key. Nothing is stored by the repetition.
\<close>
theorem create_replay:
  assumes "CreateExport env db actor r rid clock ids = Inr (v, db')"
    "find (\<lambda>e. xe_Workspace e = pr_Workspace actor \<and> xe_Actor e = pr_ActorID actor \<and> xe_RequestID e = trim_space rid) (xd_exports db) = None"
  shows "CreateExport env db' actor r rid clock' ids' =
    (if es_jsonb env (es_encode env (request_Normalize r)) = es_encode env (request_Normalize r)
     then map_sum id (\<lambda>x. (x, db')) (load_export env db' (xv_ID v) (pr_Workspace actor) (pr_ActorID actor))
     else Inl (XsExport ExErrIdempotencyKey))"
proof -
  obtain exportID jobID where
    e: "xd_exports db' = xd_exports db @ [new_export_row env actor exportID jobID (request_Normalize r) (trim_space rid) (utc clock)]"
      "xd_projects db' = xd_projects db"
    and g: "Authorize actor ActionExportWrite = None" "request_Validate (request_Normalize r) = None" "trim_space rid \<noteq> ''''"
      "length (trim_space rid) \<le> 255" "authorizeProjects db (pr_Workspace actor) (xq_ProjectIDs (request_Normalize r)) = None"
    and v: "xv_ID v = exportID" by (rule create_effect [OF assms]) (use that in \<open>auto simp: queued_export_def\<close>)
  have "find (\<lambda>e. xe_Workspace e = pr_Workspace actor \<and> xe_Actor e = pr_ActorID actor \<and> xe_RequestID e = trim_space rid) (xd_exports db') =
      Some (new_export_row env actor exportID jobID (request_Normalize r) (trim_space rid) (utc clock))"
    using assms(2) e(1) by (simp add: find_append new_export_row_def)
  moreover have "authorizeProjects db' (pr_Workspace actor) (xq_ProjectIDs (request_Normalize r)) = None"
    using g(5) e(2) by (simp add: authorizeProjects_def)
  ultimately show ?thesis using g(1-4) v by (simp add: CreateExport_def new_export_row_def)
qed

section \<open>Publication\<close>

lemma finalKey_inj [simp]: "finalKey i = finalKey j \<longleftrightarrow> i = j"
  by (auto simp: finalKey_def export_base_def dest: format_int_inj)

lemma finalKey_not_staged [simp]: "finalKey i \<noteq> stagedKey j"
proof
  assume "finalKey i = stagedKey j"
  then have "last (finalKey i) = last (stagedKey j)" by simp
  then show False by (simp add: finalKey_def stagedKey_def)
qed

text \<open>
  An export that cites_artifact an object row cites_artifact that of its own artifact (\<open>cites_artifact\<close>). A succeeded export cites_artifact one; the artifact is there with the recorded digest and size, unless
  the export is one of the given ones, whose artifact may be missing.
\<close>

definition published :: "store_env \<Rightarrow> export_sys \<Rightarrow> int64 set \<Rightarrow> export_request_row \<Rightarrow> bool" where
  "published env s L e =
     (case object_by_id (xs_db s) (xe_ObjectID e) of None \<Rightarrow> False
      | Some ob \<Rightarrow> oj_Key ob = finalKey (xe_ID e) \<and>
          (case xs_blobs s (finalKey (xe_ID e)) of None \<Rightarrow> xe_ID e \<in> L
           | Some body \<Rightarrow> oj_SHA256 ob = ev_sha256 (es_generate env) body \<and> oj_Size ob = int (length body)))"

definition artifact_keys :: "export_db \<Rightarrow> string set" where
  "artifact_keys db = oj_Key ` set (xd_objects db)"

definition in_process :: "export_request_row \<Rightarrow> bool" where
  "in_process e \<longleftrightarrow> xe_State e = XQueued \<or> xe_State e = XRunning"

lemma in_process_simps [simp]:
  "xe_State e = XSucceeded \<Longrightarrow> \<not> in_process e" "xe_State e = XRunning \<Longrightarrow> in_process e"
  by (simp_all add: in_process_def)

definition cites_artifact :: "export_db \<Rightarrow> export_request_row \<Rightarrow> bool" where
  "cites_artifact db e \<longleftrightarrow> xe_ObjectID e = None \<or> map_option oj_Key (object_by_id db (xe_ObjectID e)) = Some (finalKey (xe_ID e))"

definition exports_ok :: "store_env \<Rightarrow> export_sys \<Rightarrow> int64 set \<Rightarrow> bool" where
  "exports_ok env s L \<longleftrightarrow> distinct (map xe_ID (xd_exports (xs_db s))) \<and>
     (\<forall>e \<in> set (xd_exports (xs_db s)). cites_artifact (xs_db s) e) \<and>
     (\<forall>e \<in> set (xd_exports (xs_db s)). xe_State e = XSucceeded \<longrightarrow> published env s L e) \<and>
     (\<forall>e \<in> set (xd_exports (xs_db s)). in_process e \<longrightarrow> finalKey (xe_ID e) \<notin> artifact_keys (xs_db s)) \<and>
     (\<forall>i. finalKey i \<in> artifact_keys (xs_db s) \<longrightarrow> i \<in> xe_ID ` set (xd_exports (xs_db s)))"

lemma published_cong:
  "object_by_id (xs_db s) (xe_ObjectID e) = object_by_id (xs_db s') (xe_ObjectID e) \<Longrightarrow> xs_blobs s (finalKey (xe_ID e)) = xs_blobs s' (finalKey (xe_ID e)) \<Longrightarrow>
   published env s L e = published env s' L e"
  by (simp add: published_def cong: option.case_cong)

lemma published_mono: "published env s L e \<Longrightarrow> L \<subseteq> L' \<Longrightarrow> published env s L' e"
  by (auto simp: published_def split: option.splits)

lemma exports_ok_mono: "exports_ok env s L \<Longrightarrow> L \<subseteq> L' \<Longrightarrow> exports_ok env s L'"
  unfolding exports_ok_def by (blast intro: published_mono)

lemma exports_okD:
  assumes "exports_ok env s L" "e \<in> set (xd_exports (xs_db s))"
  shows "xe_State e = XSucceeded \<Longrightarrow> published env s L e" "in_process e \<Longrightarrow> finalKey (xe_ID e) \<notin> artifact_keys (xs_db s)"
    "cites_artifact (xs_db s) e"
  using assms by (auto simp: exports_ok_def)

lemma create_ok:
  assumes "exports_ok env s L" "CreateExport env' (xs_db s) actor r rid clock ids = Inr (v, db')"
  shows "exports_ok env (s\<lparr>xs_db := db'\<rparr>) L"
proof (cases "find (\<lambda>e. xe_Workspace e = pr_Workspace actor \<and> xe_Actor e = pr_ActorID actor \<and> xe_RequestID e = trim_space rid) (xd_exports (xs_db s))")
  case None
  from create_effect [OF assms(2) None] obtain exportID jobID where
    e: "xd_exports db' = xd_exports (xs_db s) @ [new_export_row env' actor exportID jobID (request_Normalize r) (trim_space rid) (utc clock)]"
      "xd_objects db' = xd_objects (xs_db s)" "exportID \<notin> xe_ID ` set (xd_exports (xs_db s))" by metis
  have p: "published env (s\<lparr>xs_db := db'\<rparr>) L x = published env s L x" for x
    using e(2) by (intro published_cong) (simp_all add: object_by_id_def cong: option.case_cong)
  have c: "cites_artifact db' x = cites_artifact (xs_db s) x" for x using e(2) by (simp add: cites_artifact_def object_by_id_def cong: option.case_cong)
  show ?thesis using assms(1) e p c unfolding exports_ok_def artifact_keys_def by (auto simp: new_export_row_def cites_artifact_def)
next
  case (Some e)
  then have "db' = xs_db s" using assms(2) by (auto simp: CreateExport_def Let_def result_simps split: option.splits if_splits)
  then show ?thesis using assms(1) by simp
qed

lemma same_export: "distinct (map xe_ID es) \<Longrightarrow> e \<in> set es \<Longrightarrow> e' \<in> set es \<Longrightarrow> xe_ID e = xe_ID e' \<Longrightarrow> e = e'"
  by (auto simp: distinct_map inj_on_def)

lemma update_export_simps [simp]:
  "xd_objects (update_export db i f) = xd_objects db" "xd_jobs (update_export db i f) = xd_jobs db"
  "xd_exports (update_export db i f) = map (\<lambda>e. if xe_ID e = i then f e else e) (xd_exports db)"
  by (simp_all add: update_export_def)

lemma object_by_id_update [simp]: "object_by_id (update_export db i f) k = object_by_id db k"
  by (simp add: object_by_id_def cong: option.case_cong)

lemma update_ids: "(\<And>e. xe_ID (f e) = xe_ID e) \<Longrightarrow> map xe_ID (xd_exports (update_export db i f)) = map xe_ID (xd_exports db)"
  by (auto simp: o_def)

text \<open>A change of the rows, the objects and the artifacts keeps the invariant when it does so for each row.\<close>

lemma rows_ok:
  assumes ok: "exports_ok env s L" and rows: "xd_exports (xs_db s') = map f (xd_exports (xs_db s))" and ids: "\<And>e. xe_ID (f e) = xe_ID e"
    and keys: "\<And>i. finalKey i \<in> artifact_keys (xs_db s') \<Longrightarrow> finalKey i \<in> artifact_keys (xs_db s) \<or> i \<in> xe_ID ` set (xd_exports (xs_db s))"
    and row: "\<And>e. e \<in> set (xd_exports (xs_db s)) \<Longrightarrow> cites_artifact (xs_db s') (f e) \<and> (xe_State (f e) = XSucceeded \<longrightarrow> published env s' L' (f e)) \<and>
      (in_process (f e) \<longrightarrow> finalKey (xe_ID e) \<notin> artifact_keys (xs_db s'))"
  shows "exports_ok env s' L'"
proof -
  have "map xe_ID (xd_exports (xs_db s')) = map xe_ID (xd_exports (xs_db s))" using rows ids by (simp add: o_def)
  then have 1: "distinct (map xe_ID (xd_exports (xs_db s')))" and idset: "xe_ID ` set (xd_exports (xs_db s')) = xe_ID ` set (xd_exports (xs_db s))"
    using ok by (simp_all add: exports_ok_def) (metis list.set_map)
  have 2: "\<forall>i. finalKey i \<in> artifact_keys (xs_db s') \<longrightarrow> i \<in> xe_ID ` set (xd_exports (xs_db s'))"
    unfolding idset using keys ok unfolding exports_ok_def by blast
  show ?thesis unfolding exports_ok_def using 1 2 row by (simp add: rows ids)
qed

lemma start_ok:
  assumes ok: "exports_ok env s L" and start: "process_start (xs_db s) j = Inr (db, e)"
  shows "exports_ok env (s\<lparr>xs_db := db\<rparr>) L" "e\<lparr>xe_State := XRunning\<rparr> \<in> set (xd_exports db)"
proof -
  let ?f = "\<lambda>r. r\<lparr>xe_State := XRunning\<rparr>"
  from start have db: "db = update_export (xs_db s) (xe_ID e) ?f" and e: "e \<in> set (xd_exports (xs_db s))" "in_process e"
    by (auto simp: process_start_def find_Some_iff in_process_def split: option.splits)
  show "?f e \<in> set (xd_exports db)" using e(1) by (force simp: db)
  have d: "distinct (map xe_ID (xd_exports (xs_db s)))" using ok by (simp add: exports_ok_def)
  show "exports_ok env (s\<lparr>xs_db := db\<rparr>) L"
  proof (rule rows_ok [OF ok, of _ "\<lambda>r. if xe_ID r = xe_ID e then ?f r else r"])
    fix y assume y: "y \<in> set (xd_exports (xs_db s))"
    have "published env (s\<lparr>xs_db := db\<rparr>) L y = published env s L y" by (rule published_cong) (simp_all add: db)
    moreover have "xe_ID y = xe_ID e \<Longrightarrow> y = e" using same_export [OF d y e(1)] .
    ultimately show "cites_artifact (xs_db (s\<lparr>xs_db := db\<rparr>)) (if xe_ID y = xe_ID e then ?f y else y) \<and>
        (xe_State (if xe_ID y = xe_ID e then ?f y else y) = XSucceeded \<longrightarrow>
          published env (s\<lparr>xs_db := db\<rparr>) L (if xe_ID y = xe_ID e then ?f y else y)) \<and>
        (in_process (if xe_ID y = xe_ID e then ?f y else y) \<longrightarrow> finalKey (xe_ID y) \<notin> artifact_keys (xs_db (s\<lparr>xs_db := db\<rparr>)))"
      using exports_okD [OF ok y] exports_okD(2) [OF ok e] by (auto simp: artifact_keys_def db cites_artifact_def)
  qed (auto simp: db artifact_keys_def)
qed

lemma blobs_ok:
  assumes ok: "exports_ok env s L" and e: "e \<in> set (xd_exports (xs_db s))" "in_process e"
    and b: "\<And>k. k \<noteq> xe_ID e \<Longrightarrow> b (finalKey k) = xs_blobs s (finalKey k)"
  shows "exports_ok env (s\<lparr>xs_blobs := b\<rparr>) L"
proof -
  have d: "distinct (map xe_ID (xd_exports (xs_db s)))" using ok by (simp add: exports_ok_def)
  have "published env (s\<lparr>xs_blobs := b\<rparr>) L x = published env s L x" if x: "x \<in> set (xd_exports (xs_db s))" "xe_State x = XSucceeded" for x
  proof -
    have "xe_ID x \<noteq> xe_ID e" using same_export [OF d x(1) e(1)] x(2) e(2) by auto
    then show ?thesis using b by (intro published_cong) simp_all
  qed
  then show ?thesis using ok by (simp add: exports_ok_def)
qed

lemma process_store_blobs:
  assumes "process_store env i body b = (r, b')"
  shows "k \<noteq> i \<Longrightarrow> b' (finalKey k) = b (finalKey k)" "r = None \<Longrightarrow> b' (finalKey i) = Some body"
  using assms finalKey_not_staged [of i i]
  by (auto simp: process_store_def blob_put_def blob_delete_def blob_promote_def Let_def split: if_splits promote_outcome.splits prod.splits)

abbreviation artifact_object :: "int64 \<Rightarrow> int64 \<Rightarrow> Generated \<Rightarrow> gotime \<Rightarrow> object_ref_row" where
  "artifact_object objectID exportID g clock \<equiv> \<lparr>oj_ID = objectID, oj_Key = finalKey exportID, oj_SHA256 = gd_Digest g,
     oj_Size = int (length (gd_Body g)), oj_MediaType = gd_MediaType g, oj_VerifiedAt = pg_time (utc clock)\<rparr>"

lemma insert_object_effect:
  assumes "insert_object db ob = Inr db'"
  shows "db' = db\<lparr>xd_objects := xd_objects db @ [ob]\<rparr>" "object_by_id db' (Some (oj_ID ob)) = Some ob"
    "object_by_id db k \<noteq> None \<Longrightarrow> object_by_id db' k = object_by_id db k"
proof -
  from assms have db': "db' = db\<lparr>xd_objects := xd_objects db @ [ob]\<rparr>" and fresh: "oj_ID ob \<notin> oj_ID ` set (xd_objects db)"
    by (auto simp: insert_object_def list_ex_iff split: if_splits)
  then have "find (\<lambda>x. oj_ID x = oj_ID ob) (xd_objects db) = None" by (auto simp: find_None_iff image_iff)
  with db' show "db' = db\<lparr>xd_objects := xd_objects db @ [ob]\<rparr>" "object_by_id db' (Some (oj_ID ob)) = Some ob"
    "object_by_id db k \<noteq> None \<Longrightarrow> object_by_id db' k = object_by_id db k"
    by (auto simp: object_by_id_def find_append split: option.splits)
qed

text \<open>The transaction of the publication, whatever happened to the artifact meanwhile.\<close>

lemma published_row_ok:
  assumes ok: "exports_ok env s L" and e: "e \<in> set (xd_exports (xs_db s))" "xe_State e = XRunning"
    and ins: "insert_object (xs_db s) (artifact_object objectID (xe_ID e) g clock) = Inr db1"
    and b: "\<And>k. k \<noteq> xe_ID e \<Longrightarrow> b (finalKey k) = xs_blobs s (finalKey k)"
    and g: "gd_Digest g = ev_sha256 (es_generate env) (gd_Body g)"
      "b (finalKey (xe_ID e)) = Some (gd_Body g) \<or> b (finalKey (xe_ID e)) = None \<and> xe_ID e \<in> L"
  shows "exports_ok env (s\<lparr>xs_blobs := b, xs_db := update_export db1 (xe_ID e) (published_row objectID g (utc clock))\<rparr>) L"
proof -
  let ?f = "published_row objectID g (utc clock)"
  let ?s = "s\<lparr>xs_blobs := b, xs_db := update_export db1 (xe_ID e) ?f\<rparr>"
  note i = insert_object_effect [OF ins]
  have d: "distinct (map xe_ID (xd_exports (xs_db s)))" using ok by (simp add: exports_ok_def)
  have keys: "artifact_keys (update_export db1 (xe_ID e) ?f) = insert (finalKey (xe_ID e)) (artifact_keys (xs_db s))" by (simp add: artifact_keys_def i(1))
  show ?thesis
  proof (rule rows_ok [OF ok, of _ "\<lambda>r. if xe_ID r = xe_ID e then ?f r else r"])
    fix y assume y: "y \<in> set (xd_exports (xs_db s))"
    have "cites_artifact (xs_db ?s) y \<and> (xe_State y = XSucceeded \<longrightarrow> published env ?s L y) \<and> (in_process y \<longrightarrow> finalKey (xe_ID y) \<notin> artifact_keys (xs_db ?s))"
      if n: "xe_ID y \<noteq> xe_ID e"
    proof -
      have "published env ?s L y" if p: "published env s L y"
      proof -
        have "object_by_id (xs_db s) (xe_ObjectID y) \<noteq> None" using p by (auto simp: published_def split: option.splits)
        then have "published env s L y = published env ?s L y" using i(3) b n by (intro published_cong) simp_all
        with p show ?thesis by simp
      qed
      moreover have "cites_artifact (xs_db ?s) y" using exports_okD(3) [OF ok y] i(3) [of "xe_ObjectID y"] by (auto simp: cites_artifact_def)
      ultimately show ?thesis using exports_okD [OF ok y] n by (auto simp: keys)
    qed
    moreover have "cites_artifact (xs_db ?s) (?f y)" "published env ?s L (?f y)" "xe_State (?f y) = XSucceeded" if "xe_ID y = xe_ID e"
      using same_export [OF d y e(1) that] e(2) i(2) g by (auto simp: published_row_def published_def cites_artifact_def)
    ultimately show "cites_artifact (xs_db ?s) (if xe_ID y = xe_ID e then ?f y else y) \<and>
        (xe_State (if xe_ID y = xe_ID e then ?f y else y) = XSucceeded \<longrightarrow> published env ?s L (if xe_ID y = xe_ID e then ?f y else y)) \<and>
        (in_process (if xe_ID y = xe_ID e then ?f y else y) \<longrightarrow> finalKey (xe_ID y) \<notin> artifact_keys (xs_db ?s))"
      by simp
  qed (use e(1) in \<open>auto simp: i(1) artifact_keys_def published_row_def\<close>)
qed

lemma publish_ok:
  assumes ok: "exports_ok env s L" and e: "e \<in> set (xd_exports (xs_db s))" "xe_State e = XRunning"
    and g: "xs_blobs s (finalKey (xe_ID e)) = Some (gd_Body g)" "gd_Digest g = ev_sha256 (es_generate env) (gd_Body g)"
    and p: "process_publish env' (xe_ID e) objectID g clock s = (r, s')"
  shows "exports_ok env s' (L \<union> (if es_commit env' = Unconfirmed then {xe_ID e} else {}))" (is "exports_ok env s' ?L")
proof -
  have ok': "exports_ok env s ?L" using exports_ok_mono [OF ok] by simp
  let ?b = "blob_delete env' (xs_blobs s) (finalKey (xe_ID e))"
  have b: "k \<noteq> xe_ID e \<Longrightarrow> ?b (finalKey k) = xs_blobs s (finalKey k)" for k by (simp add: blob_delete_def)
  have dropped: "exports_ok env (s\<lparr>xs_blobs := ?b\<rparr>) ?L" using blobs_ok [OF ok' e(1)] e(2) b by simp
  show ?thesis
  proof (cases "insert_object (xs_db s) (artifact_object objectID (xe_ID e) g clock)")
    case (Inl err)
    with p dropped show ?thesis by (auto simp: process_publish_def Let_def split: if_splits)
  next
    case (Inr db1)
    note row = published_row_ok [OF ok' e Inr]
    show ?thesis
    proof (cases "es_begin env'")
      case False
      with p dropped show ?thesis by (auto simp: process_publish_def Let_def)
    next
      case True
      show ?thesis
      proof (cases "es_commit env'")
        case Committed
        with p True Inr row [of "xs_blobs s"] g show ?thesis by (auto simp: process_publish_def Let_def)
      next
        case RolledBack
        with p True Inr dropped show ?thesis by (auto simp: process_publish_def Let_def)
      next
        case Unconfirmed
        with p True Inr row [OF b] g show ?thesis by (auto simp: process_publish_def Let_def blob_delete_def)
      qed
    qed
  qed
qed

text \<open>The export whose artifact a run of \<open>ProcessExport\<close> may remove although its publication was committed.\<close>

definition unconfirmed :: "store_env \<Rightarrow> export_db \<Rightarrow> JobLease \<Rightarrow> int64 set" where
  "unconfirmed env db l =
     (case process_start db (jb_ID (lz_Job l)) of Inl e \<Rightarrow> {} | Inr (db', e) \<Rightarrow> if es_commit env = Unconfirmed then {xe_ID e} else {})"

lemma process_ok:
  assumes ok: "exports_ok env s L" and same: "es_generate env' = es_generate env"
    and p: "ProcessExport env' gen s l clock ids = (r, s')"
  shows "exports_ok env s' (L \<union> unconfirmed env' (xs_db s) l)"
proof (cases "process_start (xs_db s) (jb_ID (lz_Job l))")
  case (Inl e)
  then show ?thesis using ok p by (simp add: ProcessExport_def unconfirmed_def)
next
  case (Inr start)
  then obtain db e where st: "process_start (xs_db s) (jb_ID (lz_Job l)) = Inr (db, e)" by (cases start) auto
  note ok1 = start_ok [OF ok st]
  show ?thesis
  proof (cases "s' = s\<lparr>xs_db := db\<rparr>")
    case True
    with exports_ok_mono [OF ok1(1)] show ?thesis by simp
  next
    case False
    with p st obtain request g objectID rest r1 b where g: "process_generate env' gen db e = Inr (request, g)" and ids: "ids = objectID # rest"
      and b: "process_store env' (xe_ID e) (gd_Body g) (xs_blobs s) = (r1, b)"
      and fin: "case r1 of Some err \<Rightarrow> s' = s\<lparr>xs_db := db, xs_blobs := b\<rparr>
        | None \<Rightarrow> process_publish env' (xe_ID e) objectID g clock (s\<lparr>xs_db := db, xs_blobs := b\<rparr>) = (r, s')"
      by (auto simp: ProcessExport_def Let_def split: sum.splits prod.splits list.splits option.splits)
    let ?e = "e\<lparr>xe_State := XRunning\<rparr>"
    have ok2: "exports_ok env (s\<lparr>xs_db := db, xs_blobs := b\<rparr>) L"
      using blobs_ok [OF ok1(1), of ?e b] ok1(2) process_store_blobs(1) [OF b] by simp
    show ?thesis
    proof (cases r1)
      case None
      have "gd_Digest g = ev_sha256 (es_generate env) (gd_Body g)"
        using g same by (auto simp: process_generate_def result_simps coordinator_Generate_def generate_facts(3) split: sum.splits)
      with publish_ok [OF ok2, of ?e g env' objectID clock r s'] None fin ok1(2) process_store_blobs(2) [OF b None] st
      show ?thesis by (auto simp: unconfirmed_def split: if_splits)
    qed (use fin exports_ok_mono [OF ok2] in simp)
  qed
qed

text \<open>
  What \<open>PurgeProject\<close> (\<open>jobstore/store.go\<close>) does to exports: a batch deletes the artifacts of some of the exports that
  cover the project, while they are still succeeded; the last batch marks those exports as expired and removes
  the project. A batch whose transaction fails has deleted its artifacts all the same.
\<close>

definition covers :: "export_db \<Rightarrow> int64 \<Rightarrow> export_request_row \<Rightarrow> bool" where
  "covers db p e \<longleftrightarrow> (xe_ID e, p) \<in> set (xd_scopes db)"

definition purged_exports :: "export_db \<Rightarrow> int64 \<Rightarrow> int64 list \<Rightarrow> export_request_row list" where
  "purged_exports db p batch = filter (\<lambda>e. covers db p e \<and> xe_ObjectID e \<in> Some ` set batch) (xd_exports db)"

definition purge_artifacts :: "int64 \<Rightarrow> int64 list \<Rightarrow> export_sys \<Rightarrow> export_sys" where
  "purge_artifacts p batch s =
     (let keys = List.map_filter (\<lambda>e. map_option oj_Key (object_by_id (xs_db s) (xe_ObjectID e))) (purged_exports (xs_db s) p batch) in
      s\<lparr>xs_blobs := (\<lambda>k. if k \<in> set keys then None else xs_blobs s k)\<rparr>)"

definition expire_exports :: "int64 \<Rightarrow> export_db \<Rightarrow> export_db" where
  "expire_exports p db = db\<lparr>
     xd_exports := map (\<lambda>e. if xe_State e = XSucceeded \<and> covers db p e then e\<lparr>xe_State := XExpired\<rparr> else e) (xd_exports db),
     xd_scopes := filter (\<lambda>(x, q). q \<noteq> p) (xd_scopes db), xd_projects := filter (\<lambda>q. sj_ID q \<noteq> p) (xd_projects db)\<rparr>"

lemma purge_artifacts_ok:
  assumes ok: "exports_ok env s L"
  shows "exports_ok env (purge_artifacts p batch s) (L \<union> xe_ID ` set (purged_exports (xs_db s) p batch))" (is "exports_ok env ?s ?L")
proof (rule rows_ok [OF ok, of _ "\<lambda>e. e"])
  have db: "xs_db ?s = xs_db s" by (simp add: purge_artifacts_def Let_def)
  fix e assume e: "e \<in> set (xd_exports (xs_db s))"
  have "published env ?s ?L e" if s: "xe_State e = XSucceeded"
  proof -
    have p: "published env s ?L e" using published_mono [OF exports_okD(1) [OF ok e s]] by blast
    show ?thesis
    proof (cases "xs_blobs ?s (finalKey (xe_ID e)) = xs_blobs s (finalKey (xe_ID e))")
      case True
      then have "published env s ?L e = published env ?s ?L e" by (intro published_cong) (simp_all add: db)
      with p show ?thesis by blast
    next
      case False
      then have none: "xs_blobs ?s (finalKey (xe_ID e)) = None" by (auto simp: purge_artifacts_def Let_def split: if_splits)
      from False obtain x where x: "x \<in> set (purged_exports (xs_db s) p batch)"
          "map_option oj_Key (object_by_id (xs_db s) (xe_ObjectID x)) = Some (finalKey (xe_ID e))"
        by (auto simp: purge_artifacts_def Let_def List.map_filter_def split: if_splits)
      then have "cites_artifact (xs_db s) x" using exports_okD(3) [OF ok] by (simp add: purged_exports_def)
      then have "xe_ID x = xe_ID e" using x by (auto simp: cites_artifact_def object_by_id_def)
      then have "xe_ID e \<in> ?L" using x(1) by (metis UnI2 imageI)
      with p none show ?thesis by (auto simp: published_def db split: option.splits)
    qed
  qed
  then show "cites_artifact (xs_db ?s) e \<and> (xe_State e = XSucceeded \<longrightarrow> published env ?s ?L e) \<and> (in_process e \<longrightarrow> finalKey (xe_ID e) \<notin> artifact_keys (xs_db ?s))"
    using exports_okD [OF ok e] by (simp add: db)
qed (simp_all add: purge_artifacts_def Let_def)

lemma expire_exports_ok:
  assumes ok: "exports_ok env s L"
  shows "exports_ok env (s\<lparr>xs_db := expire_exports p (xs_db s)\<rparr>) L"
proof (rule rows_ok [OF ok, of _ "\<lambda>e. if xe_State e = XSucceeded \<and> covers (xs_db s) p e then e\<lparr>xe_State := XExpired\<rparr> else e"])
  have o: "object_by_id (expire_exports p (xs_db s)) k = object_by_id (xs_db s) k" for k
    by (simp add: object_by_id_def expire_exports_def cong: option.case_cong)
  have p: "published env (s\<lparr>xs_db := expire_exports p (xs_db s)\<rparr>) L e = published env s L e" for e by (rule published_cong) (simp_all add: o)
  have k: "artifact_keys (expire_exports p (xs_db s)) = artifact_keys (xs_db s)" by (simp add: artifact_keys_def expire_exports_def)
  have xx: "xe_State e = XSucceeded \<Longrightarrow> \<not> in_process (e\<lparr>xe_State := XExpired\<rparr>)" for e by (simp add: in_process_def)
  fix e assume e: "e \<in> set (xd_exports (xs_db s))"
  show "cites_artifact (xs_db (s\<lparr>xs_db := expire_exports p (xs_db s)\<rparr>))
        (if xe_State e = XSucceeded \<and> covers (xs_db s) p e then e\<lparr>xe_State := XExpired\<rparr> else e) \<and>
      (xe_State (if xe_State e = XSucceeded \<and> covers (xs_db s) p e then e\<lparr>xe_State := XExpired\<rparr> else e) = XSucceeded \<longrightarrow>
        published env (s\<lparr>xs_db := expire_exports p (xs_db s)\<rparr>) L
          (if xe_State e = XSucceeded \<and> covers (xs_db s) p e then e\<lparr>xe_State := XExpired\<rparr> else e)) \<and>
      (in_process (if xe_State e = XSucceeded \<and> covers (xs_db s) p e then e\<lparr>xe_State := XExpired\<rparr> else e) \<longrightarrow>
        finalKey (xe_ID e) \<notin> artifact_keys (xs_db (s\<lparr>xs_db := expire_exports p (xs_db s)\<rparr>)))"
    using exports_okD [OF ok e] xx by (simp add: cites_artifact_def o p k)
qed (auto simp: expire_exports_def artifact_keys_def)

text \<open>
  The states of the store when no two runs of \<open>ProcessExport\<close> overlap: exports are created and processed, by processes whose object
  store and transactions may fail, and projects are purged; everything else may change, such as other object rows and the
  objects of other keys. The set collects the exports whose artifact a purge batch has taken, or whose publication
  reported a failed commit that the server had made.
\<close>

definition artifact_rows :: "export_db \<Rightarrow> object_ref_row set" where
  "artifact_rows db = {ob \<in> set (xd_objects db). \<exists>i. oj_Key ob = finalKey i}"

lemma artifact_key_iff: "finalKey i \<in> artifact_keys db \<longleftrightarrow> (\<exists>ob \<in> artifact_rows db. oj_Key ob = finalKey i)"
proof
  assume "finalKey i \<in> artifact_keys db"
  then obtain ob where "ob \<in> set (xd_objects db)" "oj_Key ob = finalKey i" by (auto simp: artifact_keys_def)
  then show "\<exists>ob \<in> artifact_rows db. oj_Key ob = finalKey i" by (auto simp: artifact_rows_def)
next
  assume "\<exists>ob \<in> artifact_rows db. oj_Key ob = finalKey i"
  then show "finalKey i \<in> artifact_keys db" by (auto simp: artifact_keys_def artifact_rows_def image_iff) metis
qed

inductive export_reach :: "store_env \<Rightarrow> export_sys \<Rightarrow> int64 set \<Rightarrow> bool" for env where
  reach_start: "xd_exports (xs_db s) = [] \<Longrightarrow> artifact_rows (xs_db s) = {} \<Longrightarrow> export_reach env s {}"
| reach_create: "export_reach env s L \<Longrightarrow> CreateExport env' (xs_db s) actor r rid clock ids = Inr (v, db') \<Longrightarrow> export_reach env (s\<lparr>xs_db := db'\<rparr>) L"
| reach_process: "export_reach env s L \<Longrightarrow> es_generate env' = es_generate env \<Longrightarrow> ProcessExport env' gen s l clock ids = (r, s') \<Longrightarrow>
    export_reach env s' (L \<union> unconfirmed env' (xs_db s) l)"
| reach_purge: "export_reach env s L \<Longrightarrow> export_reach env (purge_artifacts p batch s) (L \<union> xe_ID ` set (purged_exports (xs_db s) p batch))"
| reach_expire: "export_reach env s L \<Longrightarrow> export_reach env (s\<lparr>xs_db := expire_exports p (xs_db s)\<rparr>) L"
| reach_other: "export_reach env s L \<Longrightarrow> xd_exports (xs_db s') = xd_exports (xs_db s) \<Longrightarrow> distinct (map oj_ID (xd_objects (xs_db s'))) \<Longrightarrow>
    artifact_rows (xs_db s') = artifact_rows (xs_db s) \<Longrightarrow> (\<And>i. xs_blobs s' (finalKey i) = xs_blobs s (finalKey i)) \<Longrightarrow> export_reach env s' L"

lemma other_ok:
  assumes ok: "exports_ok env s L" and rows: "xd_exports (xs_db s') = xd_exports (xs_db s)" and ids: "distinct (map oj_ID (xd_objects (xs_db s')))"
    and objs: "artifact_rows (xs_db s') = artifact_rows (xs_db s)" and blobs: "\<And>i. xs_blobs s' (finalKey i) = xs_blobs s (finalKey i)"
  shows "exports_ok env s' L"
proof (rule rows_ok [OF ok, of _ "\<lambda>e. e"])
  have keys: "finalKey i \<in> artifact_keys (xs_db s') \<longleftrightarrow> finalKey i \<in> artifact_keys (xs_db s)" for i by (simp add: artifact_key_iff objs)
  then show "finalKey i \<in> artifact_keys (xs_db s') \<Longrightarrow> finalKey i \<in> artifact_keys (xs_db s) \<or> i \<in> xe_ID ` set (xd_exports (xs_db s))" for i by simp
  fix e assume e: "e \<in> set (xd_exports (xs_db s))"
  have same: "object_by_id (xs_db s') (xe_ObjectID e) = object_by_id (xs_db s) (xe_ObjectID e)"
  proof (cases "xe_ObjectID e")
    case (Some k)
    then obtain ob where ob: "object_by_id (xs_db s) (Some k) = Some ob" "oj_Key ob = finalKey (xe_ID e)"
      using exports_okD(3) [OF ok e] by (auto simp: cites_artifact_def)
    then have m: "ob \<in> set (xd_objects (xs_db s))" "oj_ID ob = k" by (auto simp: object_by_id_def find_Some_iff)
    with ob objs have "ob \<in> set (xd_objects (xs_db s'))" by (auto simp: artifact_rows_def)
    then have "find (\<lambda>x. oj_ID x = k) (xd_objects (xs_db s')) = Some ob"
      using ids m(2) by (auto intro!: find_unique simp: distinct_map inj_on_def)
    with ob Some show ?thesis by (simp add: object_by_id_def)
  qed (simp add: object_by_id_def)
  then have "published env s' L e = published env s L e" using blobs by (intro published_cong) simp_all
  then show "cites_artifact (xs_db s') e \<and> (xe_State e = XSucceeded \<longrightarrow> published env s' L e) \<and> (in_process e \<longrightarrow> finalKey (xe_ID e) \<notin> artifact_keys (xs_db s'))"
    using exports_okD [OF ok e] keys same by (simp add: cites_artifact_def)
qed (simp_all add: rows)

lemma export_reach_ok: "export_reach env s L \<Longrightarrow> exports_ok env s L"
proof (induction rule: export_reach.induct)
  case (reach_start s)
  then show ?case by (simp add: exports_ok_def artifact_key_iff)
next
  case (reach_create s L env' actor r rid clock ids v db')
  then show ?case by (blast intro: create_ok)
next
  case (reach_process s L env' gen l clock ids r s')
  then show ?case by (blast intro: process_ok)
next
  case (reach_purge s L p batch)
  then show ?case by (blast intro: purge_artifacts_ok)
next
  case (reach_expire s L p)
  then show ?case by (blast intro: expire_exports_ok)
next
  case (reach_other s L s')
  then show ?case by (blast intro: other_ok)
qed

lemma load_export_facts:
  assumes "load_export env db i ws actor = Inr v"
  obtains e where "e \<in> set (xd_exports db)" "xe_ID e = i" "xv_State v = XSucceeded \<longrightarrow> xe_State e = XSucceeded"
    "xv_objectKey v = (case object_by_id db (xe_ObjectID e) of None \<Rightarrow> '''' | Some x \<Rightarrow> oj_Key x)"
    "xv_SHA256 v = hex_encode (case object_by_id db (xe_ObjectID e) of None \<Rightarrow> '''' | Some x \<Rightarrow> oj_SHA256 x)"
    "xv_SizeBytes v = (case object_by_id db (xe_ObjectID e) of None \<Rightarrow> 0 | Some x \<Rightarrow> oj_Size x)"
proof -
  from assms obtain e where f: "find (\<lambda>e. xe_ID e = i \<and> xe_Workspace e = ws \<and> xe_Actor e = actor \<and> row_by_job (xd_jobs db) (xe_JobID e) \<noteq> None) (xd_exports db) = Some e"
    by (auto simp: load_export_def split: option.splits)
  then have e: "e \<in> set (xd_exports db)" "xe_ID e = i" by (auto simp: find_Some_iff)
  show thesis
    by (rule that [OF e]) (use assms f in \<open>auto simp: load_export_def result_simps Let_def loaded_state_def split: option.splits if_splits\<close>)
qed

lemma GetExport_loads:
  assumes "GetExport env db actor i now = Inr v"
  obtains v0 where "load_export env db i (pr_Workspace actor) (pr_ActorID actor) = Inr v0" "xv_objectKey v = xv_objectKey v0"
    "xv_SHA256 v = xv_SHA256 v0" "xv_SizeBytes v = xv_SizeBytes v0" "xv_State v = xv_State v0 \<or> xv_State v = XExpired"
  using assms by (auto simp: GetExport_def result_simps Let_def split: option.splits if_splits)

text \<open>
  C36: While no two workers process the same export at once, and whatever fails in the object store or in the publication, a
  download never finds other bytes than the recorded digest and size say, and it never misses the object of a
  published export, except of one whose artifact a purge of a covered project has deleted or whose publication
  reported a failed commit that the server had made.
\<close>
theorem downloads_intact:
  assumes "export_reach env s L"
  shows "Download env s actor i now \<noteq> Inl (XsMessage ''export artifact checksum mismatch'') \<and>
    (Download env s actor i now = Inl (XsMessage ''read object'') \<longrightarrow> i \<in> L)"
proof (cases "GetExport env (xs_db s) actor i now")
  case (Inl e)
  then show ?thesis
    by (auto simp: Download_def GetExport_def load_export_def Let_def some_or_def split: option.splits if_splits)
next
  case (Inr v)
  obtain v0 where l: "load_export env (xs_db s) i (pr_Workspace actor) (pr_ActorID actor) = Inr v0"
    and v: "xv_objectKey v = xv_objectKey v0" "xv_SHA256 v = xv_SHA256 v0" "xv_SizeBytes v = xv_SizeBytes v0" "xv_State v = xv_State v0 \<or> xv_State v = XExpired"
    by (rule GetExport_loads [OF Inr])
  show ?thesis
  proof (cases "xv_State v = XSucceeded")
    case True
    with v(4) have "xv_State v0 = XSucceeded" by simp
    then obtain e where e: "e \<in> set (xd_exports (xs_db s))" "xe_State e = XSucceeded" and i: "xe_ID e = i"
      and o: "xv_objectKey v0 = (case object_by_id (xs_db s) (xe_ObjectID e) of None \<Rightarrow> '''' | Some x \<Rightarrow> oj_Key x)"
        "xv_SHA256 v0 = hex_encode (case object_by_id (xs_db s) (xe_ObjectID e) of None \<Rightarrow> '''' | Some x \<Rightarrow> oj_SHA256 x)"
        "xv_SizeBytes v0 = (case object_by_id (xs_db s) (xe_ObjectID e) of None \<Rightarrow> 0 | Some x \<Rightarrow> oj_Size x)"
      using load_export_facts [OF l] by metis
    have "published env s L e" using exports_okD(1) [OF export_reach_ok [OF assms] e] .
    then show ?thesis using Inr True v o i by (auto simp: published_def Download_def split: option.splits)
  qed (use Inr in \<open>simp add: Download_def\<close>)
qed

lemma no_artifact_no_download:
  assumes rows: "\<And>x. x \<in> set (xd_exports (xs_db s)) \<Longrightarrow> xe_ID x = i \<Longrightarrow> xe_ObjectID x = Some k"
    and ob: "object_by_id (xs_db s) (Some k) = Some ob" "xs_blobs s (oj_Key ob) = None"
  shows "Download env s actor i now \<noteq> Inr (v, body)"
proof
  assume d: "Download env s actor i now = Inr (v, body)"
  then obtain v1 where g: "GetExport env (xs_db s) actor i now = Inr v1" and b: "xs_blobs s (xv_objectKey v1) \<noteq> None"
    by (auto simp: Download_def result_simps split: if_splits option.splits)
  obtain v0 where l: "load_export env (xs_db s) i (pr_Workspace actor) (pr_ActorID actor) = Inr v0" and key: "xv_objectKey v1 = xv_objectKey v0"
    by (rule GetExport_loads [OF g])
  obtain x where x: "x \<in> set (xd_exports (xs_db s))" "xe_ID x = i" and xk:
      "xv_objectKey v0 = (case object_by_id (xs_db s) (xe_ObjectID x) of None \<Rightarrow> '''' | Some x \<Rightarrow> oj_Key x)"
    by (rule load_export_facts [OF l])
  then have "xv_objectKey v0 = oj_Key ob" using rows [OF x] ob by simp
  with b key ob(2) show False by simp
qed

lemma started_rows:
  assumes "process_start (xs_db s) j = Inr (db, e)" "distinct (map xe_ID (xd_exports (xs_db s)))"
  shows "x \<in> set (xd_exports db) \<Longrightarrow> xe_ID x = xe_ID e \<Longrightarrow> x = e\<lparr>xe_State := XRunning\<rparr>"
    "e\<lparr>xe_State := XRunning\<rparr> \<in> set (xd_exports db)"
proof -
  have db: "db = update_export (xs_db s) (xe_ID e) (\<lambda>r. r\<lparr>xe_State := XRunning\<rparr>)" and e: "e \<in> set (xd_exports (xs_db s))"
    using assms(1) by (auto simp: process_start_def find_Some_iff split: option.splits)
  show "e\<lparr>xe_State := XRunning\<rparr> \<in> set (xd_exports db)" using e by (force simp: db)
  assume "x \<in> set (xd_exports db)" "xe_ID x = xe_ID e"
  then obtain y where y: "y \<in> set (xd_exports (xs_db s))" "xe_ID y = xe_ID e" "x = y\<lparr>xe_State := XRunning\<rparr>"
    by (auto simp: db split: if_splits)
  then show "x = e\<lparr>xe_State := XRunning\<rparr>" using same_export [OF assms(2) y(1) e] by simp
qed

text \<open>The rows after the transaction of a publication.\<close>

lemma published_rows:
  assumes st: "process_start (xs_db s) j = Inr (db, e)" "distinct (map xe_ID (xd_exports (xs_db s)))"
    and ins: "insert_object db (artifact_object o1 (xe_ID e) g t) = Inr db1" and db2: "db2 = update_export db1 (xe_ID e) (published_row o1 g (utc t))"
  shows "\<exists>x \<in> set (xd_exports db2). xe_ID x = xe_ID e \<and> xe_State x = XSucceeded"
    "x \<in> set (xd_exports db2) \<Longrightarrow> xe_ID x = xe_ID e \<Longrightarrow> xe_ObjectID x = Some o1 \<and> xe_State x = XSucceeded"
    "object_by_id db2 (Some o1) = Some (artifact_object o1 (xe_ID e) g t)"
proof -
  note i = insert_object_effect [OF ins]
  have r: "xd_exports db1 = xd_exports db" by (simp add: i(1))
  show "object_by_id db2 (Some o1) = Some (artifact_object o1 (xe_ID e) g t)" using i(2) by (simp add: db2)
  let ?f = "published_row o1 g (utc t)"
  have f: "?f (e\<lparr>xe_State := XRunning\<rparr>) \<in> set (xd_exports db2)" using started_rows(2) [OF st] by (force simp: db2 r)
  then show "\<exists>x \<in> set (xd_exports db2). xe_ID x = xe_ID e \<and> xe_State x = XSucceeded"
    by (rule bexI [rotated]) (simp add: published_row_def)
  assume "x \<in> set (xd_exports db2)" "xe_ID x = xe_ID e"
  then obtain y where y: "y \<in> set (xd_exports db)" "xe_ID y = xe_ID e" "x = ?f y"
    by (auto simp: db2 r published_row_def split: if_splits)
  then show "xe_ObjectID x = Some o1 \<and> xe_State x = XSucceeded" using started_rows(1) [OF st y(1,2)] by (simp add: published_row_def)
qed

lemma find_map: "find P (map f xs) = map_option f (find (\<lambda>x. P (f x)) xs)"
  by (induction xs) auto

lemma start_again:
  assumes "process_start db0 j = Inr (db, e)" "distinct (map xe_ID (xd_exports db0))"
  shows "process_start db j = Inr (db, e\<lparr>xe_State := XRunning\<rparr>)"
proof -
  let ?f = "\<lambda>r. r\<lparr>xe_State := XRunning\<rparr>"
  let ?g = "\<lambda>r. if xe_ID r = xe_ID e then ?f r else r"
  let ?P = "\<lambda>x. xe_JobID x = j \<and> (xe_State x = XQueued \<or> xe_State x = XRunning)"
  from assms(1) have db: "db = update_export db0 (xe_ID e) ?f" and e: "find ?P (xd_exports db0) = Some e"
    by (auto simp: process_start_def split: option.splits)
  then have mem: "e \<in> set (xd_exports db0)" "?P e" by (auto simp: find_Some_iff)
  have "?P (?g x) = ?P x" if "x \<in> set (xd_exports db0)" for x
    using that mem assms(2) by (cases "xe_ID x = xe_ID e") (auto simp: distinct_map inj_on_def)
  then have "find (\<lambda>x. ?P (?g x)) (xd_exports db0) = Some e" using e find_cong [OF refl, of "xd_exports db0" "\<lambda>x. ?P (?g x)" ?P] by simp
  then have "find ?P (xd_exports db) = Some (?f e)" by (simp add: db find_map)
  moreover have "update_export db (xe_ID e) ?f = db" by (simp add: db update_export_def)
  ultimately show ?thesis by (simp add: process_start_def)
qed

text \<open>
  C38: When two workers have started the same export and one has published it, the other one's publication fails and removes the
  published artifact: the export stays succeeded, and no reader can download it.
\<close>
theorem late_publication_loses_artifact:
  assumes "process_start (xs_db s) j = Inr (db, e)"
    "process_publish env1 (xe_ID e) o1 g1 t1 (s\<lparr>xs_db := db, xs_blobs := b1\<rparr>) = (None, s1)"
    "process_publish env2 (xe_ID e) o2 g2 t2 (s1\<lparr>xs_blobs := b2\<rparr>) = (r, s2)" "es_delete env2" "distinct (map xe_ID (xd_exports (xs_db s)))"
  shows "process_start db j = Inr (db, e\<lparr>xe_State := XRunning\<rparr>) \<and> r \<noteq> None \<and>
    (\<exists>e' \<in> set (xd_exports (xs_db s2)). xe_ID e' = xe_ID e \<and> xe_State e' = XSucceeded) \<and>
    Download env s2 actor (xe_ID e) now \<noteq> Inr (v, body)"
proof -
  have again: "process_start db j = Inr (db, e\<lparr>xe_State := XRunning\<rparr>)" using start_again assms(1,5) .
  from assms(2) obtain db1 where ins: "insert_object db (artifact_object o1 (xe_ID e) g1 t1) = Inr db1"
    and s1: "s1 = s\<lparr>xs_db := update_export db1 (xe_ID e) (published_row o1 g1 (utc t1)), xs_blobs := b1\<rparr>"
    by (auto simp: process_publish_def Let_def split: if_splits sum.splits commit_outcome.splits)
  note i = insert_object_effect [OF ins]
  have r: "r \<noteq> None" and s2: "s2 = s1\<lparr>xs_blobs := b2(finalKey (xe_ID e) := None)\<rparr>"
    using assms(3,4) by (auto simp: process_publish_def Let_def insert_object_def blob_delete_def list_ex_iff s1 i(1) split: if_splits sum.splits commit_outcome.splits)
  have db2: "xs_db s2 = update_export db1 (xe_ID e) (published_row o1 g1 (utc t1))" by (simp add: s2 s1)
  note p = published_rows [OF assms(1,5) ins db2]
  have "Download env s2 actor (xe_ID e) now \<noteq> Inr (v, body)"
    by (rule no_artifact_no_download [OF _ p(3)]) (use p(2) in \<open>auto simp: s2\<close>)
  with again r p(1) show ?thesis by blast
qed

lemma no_restart:
  assumes "\<And>x. x \<in> set (xd_exports db) \<Longrightarrow> xe_JobID x = j \<Longrightarrow> xe_State x = XSucceeded"
  shows "process_start db j = Inl (XsExport ExErrInvalidRequest)"
proof -
  have "find (\<lambda>e. xe_JobID e = j \<and> (xe_State e = XQueued \<or> xe_State e = XRunning)) (xd_exports db) = None"
    unfolding find_None_iff using assms by fastforce
  then show ?thesis by (simp add: process_start_def)
qed

text \<open>
  C34: When the server commits a publication but the commit returns an error, the artifact that the rows already cite is removed:
  the export stays succeeded, no reader can download it, and every later run of its job is refused.
\<close>
theorem unconfirmed_commit_loses_artifact:
  assumes "process_start (xs_db s) j = Inr (db, e)" "es_begin env" "es_commit env = Unconfirmed" "es_delete env"
    "insert_object db \<lparr>oj_ID = o1, oj_Key = finalKey (xe_ID e), oj_SHA256 = gd_Digest g, oj_Size = int (length (gd_Body g)),
       oj_MediaType = gd_MediaType g, oj_VerifiedAt = pg_time (utc t)\<rparr> = Inr db1"
    "process_publish env (xe_ID e) o1 g t (s\<lparr>xs_db := db, xs_blobs := b\<rparr>) = (r, s1)"
    "distinct (map xe_ID (xd_exports (xs_db s)))" "distinct (map xe_JobID (xd_exports (xs_db s)))" "jb_ID (lz_Job l) = j"
  shows "r = Some (XsMessage ''commit'') \<and>
    (\<exists>x \<in> set (xd_exports (xs_db s1)). xe_ID x = xe_ID e \<and> xe_State x = XSucceeded) \<and>
    Download env' s1 actor (xe_ID e) now \<noteq> Inr (v, body) \<and>
    ProcessExport env'' gen s1 l clock ids = (Some (XsExport ExErrInvalidRequest), s1)"
proof -
  have r: "r = Some (XsMessage ''commit'')" and s1: "s1 = s\<lparr>xs_db := update_export db1 (xe_ID e) (published_row o1 g (utc t)),
      xs_blobs := b(finalKey (xe_ID e) := None)\<rparr>"
    using assms(2-6) by (auto simp: process_publish_def Let_def blob_delete_def)
  have db2: "xs_db s1 = update_export db1 (xe_ID e) (published_row o1 g (utc t))" by (simp add: s1)
  note p = published_rows [OF assms(1,7,5) db2]
  have "Download env' s1 actor (xe_ID e) now \<noteq> Inr (v, body)"
    by (rule no_artifact_no_download [OF _ p(3)]) (use p(2) in \<open>auto simp: s1\<close>)
  moreover have "process_start (xs_db s1) j = Inl (XsExport ExErrInvalidRequest)"
  proof (rule no_restart)
    have db: "db = update_export (xs_db s) (xe_ID e) (\<lambda>r. r\<lparr>xe_State := XRunning\<rparr>)" and e: "e \<in> set (xd_exports (xs_db s))" "xe_JobID e = j"
      using assms(1) by (auto simp: process_start_def find_Some_iff split: option.splits)
    fix x assume x: "x \<in> set (xd_exports (xs_db s1))" "xe_JobID x = j"
    then obtain y where y: "y \<in> set (xd_exports (xs_db s))" "xe_JobID y = j" "xe_ID y = xe_ID x"
      using insert_object_effect(1) [OF assms(5)] by (auto simp: db2 db published_row_def split: if_splits)
    then have "y = e" using e assms(8) by (auto simp: distinct_map inj_on_def)
    then show "xe_State x = XSucceeded" using p(2) [OF x(1)] y(3) by simp
  qed
  ultimately show ?thesis using r p(1) assms(9) by (simp add: ProcessExport_def)
qed

section \<open>Concrete runs\<close>

definition sample_store :: store_env where
  "sample_store = \<lparr>es_generate = sample_export_env, es_encode = (\<lambda>r. ''{}''), es_jsonb = (\<lambda>s. s @ '' ''),
     es_decode = (\<lambda>s. Some sample_export_request), es_ctx = (\<lambda>i. None), es_stage = True, es_promote = Promoted, es_delete = True,
     es_begin = True, es_commit = Committed\<rparr>"

definition sample_projects :: export_db where
  "sample_projects = \<lparr>xd_jobs = \<lparr>jt_jobs = [], jt_attempts = [], jt_events = [], jt_outbox = []\<rparr>, xd_exports = [], xd_scopes = [], xd_objects = [],
     xd_projects = [\<lparr>sj_ID = 5, sj_Workspace = pr_Workspace example_analyst, sj_State = StateActive\<rparr>,
       \<lparr>sj_ID = 7, sj_Workspace = pr_Workspace example_analyst, sj_State = StateActive\<rparr>], xd_snapshots = [], xd_definitions = []\<rparr>"

abbreviation sample_creation :: "exportstore_error + Export \<times> export_db" where
  "sample_creation \<equiv> CreateExport sample_store sample_projects example_analyst sample_export_request ''once'' (Time 1000 UTC) [9, 8, 6]"

lemma sample_creation_succeeds: "\<not> isl sample_creation"
  by code_simp

theorem create_replay_witness:
  "\<exists>v db'. sample_creation = Inr (v, db') \<and>
    CreateExport sample_store db' example_analyst sample_export_request ''once'' (Time 2000 UTC) [] = Inl (XsExport ExErrIdempotencyKey)"
proof -
  obtain v db' where c: "sample_creation = Inr (v, db')" using sample_creation_succeeds by (cases sample_creation) auto
  have "xd_exports sample_projects = []" by (simp add: sample_projects_def)
  then have "CreateExport sample_store db' example_analyst sample_export_request ''once'' (Time 2000 UTC) [] = Inl (XsExport ExErrIdempotencyKey)"
    using create_replay [OF c, of "Time 2000 UTC" "[]"] by (simp add: sample_store_def)
  with c show ?thesis by blast
qed

definition export_lease :: JobLease where
  "export_lease = \<lparr>lz_Job = zero_job\<lparr>jb_ID := 8\<rparr>, lz_AttemptID = 1, lz_Attempt = 1, lz_Holder = ''w'', lz_ExpiresAt = Time 0 UTC\<rparr>"

definition sample_gate :: Coordinator where
  "sample_gate = \<lparr>co_capacity = 1, co_held = 0, co_gen = DefaultMaxBytes\<rparr>"

theorem downloads_intact_witness:
  "case sample_creation of Inl e \<Rightarrow> False
   | Inr (v, db') \<Rightarrow>
       Download sample_store (snd (ProcessExport sample_store sample_gate \<lparr>xs_db = db', xs_blobs = (\<lambda>k. None)\<rparr> export_lease (Time 3000 UTC) [4]))
         example_analyst 9 (Time 4000 UTC) \<noteq> Inl (XsMessage ''read object'')"
proof -
  obtain v db' where c: "sample_creation = Inr (v, db')" using sample_creation_succeeds by (cases sample_creation) auto
  let ?s = "\<lparr>xs_db = sample_projects, xs_blobs = (\<lambda>k. None)\<rparr>"
  have "export_reach sample_store ?s {}" by (rule reach_start) (simp_all add: sample_projects_def artifact_rows_def)
  then have "export_reach sample_store (?s\<lparr>xs_db := db'\<rparr>) {}"
    by (rule reach_create [of _ _ _ sample_store example_analyst sample_export_request "''once''" "Time 1000 UTC" "[9, 8, 6]" v]) (simp add: c)
  then have "export_reach sample_store (snd (ProcessExport sample_store sample_gate \<lparr>xs_db = db', xs_blobs = (\<lambda>k. None)\<rparr> export_lease (Time 3000 UTC) [4]))
      ({} \<union> unconfirmed sample_store (xs_db (?s\<lparr>xs_db := db'\<rparr>)) export_lease)"
    by (rule reach_process [OF _ refl]) (simp add: prod_eq_iff)
  moreover have "unconfirmed sample_store db export_lease = {}" for db by (simp add: unconfirmed_def sample_store_def split: sum.splits)
  ultimately show ?thesis using downloads_intact by (fastforce simp: c)
qed

definition sample_artifact :: Generated where
  "sample_artifact = \<lparr>gd_Body = ''x'', gd_MediaType = ''text/csv'', gd_Rows = 0, gd_Digest = replicate 32 CHR ''d'', gd_DigestHex = ''''\<rparr>"

theorem late_publication_loses_artifact_witness:
  "\<exists>v db' db e s1 s2 r. sample_creation = Inr (v, db') \<and> process_start db' 8 = Inr (db, e) \<and>
    process_publish sample_store (xe_ID e) 4 sample_artifact (Time 3000 UTC) \<lparr>xs_db = db, xs_blobs = (\<lambda>k. Some ''x'')\<rparr> = (None, s1) \<and>
    process_publish sample_store (xe_ID e) 3 sample_artifact (Time 3000 UTC) (s1\<lparr>xs_blobs := (\<lambda>k. Some ''x'')\<rparr>) = (r, s2) \<and>
    r \<noteq> None \<and> Download sample_store s2 example_analyst (xe_ID e) (Time 4000 UTC) \<noteq> Inr (v, ''x'')"
proof -
  let ?b = "\<lambda>k. Some ''x''" let ?t = "Time 3000 UTC"
  obtain v db' where c: "sample_creation = Inr (v, db')" using sample_creation_succeeds by (cases sample_creation) auto
  have "case sample_creation of Inl e \<Rightarrow> False | Inr (v, db') \<Rightarrow>
      (case process_start db' 8 of Inl e \<Rightarrow> False | Inr (db, e) \<Rightarrow> distinct (map xe_ID (xd_exports db')) \<and>
         fst (process_publish sample_store (xe_ID e) 4 sample_artifact ?t \<lparr>xs_db = db, xs_blobs = ?b\<rparr>) = None)" by code_simp
  then obtain db e s1 where st: "process_start db' 8 = Inr (db, e)" and d: "distinct (map xe_ID (xd_exports db'))"
    and p: "process_publish sample_store (xe_ID e) 4 sample_artifact ?t \<lparr>xs_db = db, xs_blobs = ?b\<rparr> = (None, s1)"
    by (auto simp: c split: sum.splits simp: prod_eq_iff)
  obtain r s2 where q: "process_publish sample_store (xe_ID e) 3 sample_artifact ?t (s1\<lparr>xs_blobs := ?b\<rparr>) = (r, s2)" by fastforce
  from late_publication_loses_artifact [where s = "\<lparr>xs_db = db', xs_blobs = ?b\<rparr>" and j = 8 and db = db and e = e and ?env1.0 = sample_store
      and ?o1.0 = 4 and ?g1.0 = sample_artifact and ?t1.0 = ?t and ?b1.0 = ?b and ?s1.0 = s1 and ?env2.0 = sample_store and ?o2.0 = 3
      and ?g2.0 = sample_artifact and ?t2.0 = ?t and ?b2.0 = ?b and r = r and ?s2.0 = s2 and actor = example_analyst
      and now = "Time 4000 UTC" and v = v and body = "''x''"] st p q d
  have "r \<noteq> None \<and> Download sample_store s2 example_analyst (xe_ID e) (Time 4000 UTC) \<noteq> Inr (v, ''x'')" by (simp add: sample_store_def)
  with c st p q show ?thesis by blast
qed

theorem unconfirmed_commit_loses_artifact_witness:
  "\<exists>v db' db e s1. sample_creation = Inr (v, db') \<and> process_start db' 8 = Inr (db, e) \<and>
    process_publish (sample_store\<lparr>es_commit := Unconfirmed\<rparr>) (xe_ID e) 4 sample_artifact (Time 3000 UTC) \<lparr>xs_db = db, xs_blobs = (\<lambda>k. Some ''x'')\<rparr>
      = (Some (XsMessage ''commit''), s1) \<and>
    Download sample_store s1 example_analyst (xe_ID e) (Time 4000 UTC) \<noteq> Inr (v, ''x'') \<and>
    ProcessExport sample_store sample_gate s1 export_lease (Time 5000 UTC) [5] = (Some (XsExport ExErrInvalidRequest), s1)"
proof -
  let ?b = "\<lambda>k. Some ''x''" let ?t = "Time 3000 UTC" let ?env = "sample_store\<lparr>es_commit := Unconfirmed\<rparr>"
  obtain v db' where c: "sample_creation = Inr (v, db')" using sample_creation_succeeds by (cases sample_creation) auto
  have "case sample_creation of Inl e \<Rightarrow> False | Inr (v, db') \<Rightarrow>
      (case process_start db' 8 of Inl e \<Rightarrow> False | Inr (db, e) \<Rightarrow> distinct (map xe_ID (xd_exports db')) \<and> distinct (map xe_JobID (xd_exports db')) \<and>
         \<not> isl (insert_object db (artifact_object 4 (xe_ID e) sample_artifact ?t)))" by code_simp
  then obtain db e where st: "process_start db' 8 = Inr (db, e)" and d: "distinct (map xe_ID (xd_exports db'))" "distinct (map xe_JobID (xd_exports db'))"
    and "\<not> isl (insert_object db (artifact_object 4 (xe_ID e) sample_artifact ?t))"
    by (auto simp: c split: sum.splits)
  then obtain db1 where ins: "insert_object db (artifact_object 4 (xe_ID e) sample_artifact ?t) = Inr db1" by (metis sum.collapse(2))
  obtain r s1 where p: "process_publish ?env (xe_ID e) 4 sample_artifact ?t \<lparr>xs_db = db, xs_blobs = ?b\<rparr> = (r, s1)" by fastforce
  have l: "jb_ID (lz_Job export_lease) = 8" by (simp add: export_lease_def)
  from unconfirmed_commit_loses_artifact [where s = "\<lparr>xs_db = db', xs_blobs = ?b\<rparr>" and j = 8 and db = db and e = e and env = ?env and ?o1.0 = 4
      and g = sample_artifact and t = ?t and ?db1.0 = db1 and b = ?b and r = r and ?s1.0 = s1 and l = export_lease and env' = sample_store
      and actor = example_analyst and now = "Time 4000 UTC" and v = v and body = "''x''" and env'' = sample_store and gen = sample_gate
      and clock = "Time 5000 UTC" and ids = "[5]"] st p d l ins
  have "r = Some (XsMessage ''commit'') \<and> Download sample_store s1 example_analyst (xe_ID e) (Time 4000 UTC) \<noteq> Inr (v, ''x'') \<and>
      ProcessExport sample_store sample_gate s1 export_lease (Time 5000 UTC) [5] = (Some (XsExport ExErrInvalidRequest), s1)"
    by (simp add: sample_store_def)
  with c st p show ?thesis by blast
qed

end
