(* ===== verification/Sources.thy ===== *)
theory Sources
  imports Analysis
begin

text \<open>
  Public-source evidence: \<open>internal/source\<close> and its adapters in \<open>internal/platform/sourceadapter\<close>, registry adoption and public
  advisories (\<open>internal/adoption\<close>) and release intelligence (\<open>internal/release/intelligence.go\<close>). Decoding JSON and formatting times
  and floats are arguments. Both packages merge the pages of a history in the same way, which the locale \<open>history\<close> states.
\<close>

section \<open>Source records\<close>

datatype source_record_error = SrcErrInvalid | SrcErrMalformed

datatype RecordKind = KindGitLab | KindGitea | KindRegistry | KindAdvisory | KindDiscussion | KindChangelog | KindFeed | KindDocument
  | KindWebsite | RecordKindOther string

record SourceRecord =
  sc_Kind :: RecordKind
  sc_ExternalID :: string
  sc_CanonicalURL :: string
  sc_Title :: string
  sc_Body :: string
  sc_Language :: string
  sc_ObservedAt :: gotime
  sc_EvidenceID :: int64
  sc_Attributes :: "string \<rightharpoonup> string"

text \<open>A nil map and an empty one read alike; the copy of the attributes is the map itself.\<close>

definition NewRecord :: "SourceRecord \<Rightarrow> source_record_error + SourceRecord" where
  "NewRecord value0 =
     (let v = value0\<lparr>sc_ExternalID := trim_space (sc_ExternalID value0), sc_CanonicalURL := trim_space (sc_CanonicalURL value0),
            sc_Language := to_lower (trim_space (sc_Language value0))\<rparr> in
      if sc_Kind v = RecordKindOther '''' \<or> sc_ExternalID v = '''' \<or> \<not> prefix ''https://'' (sc_CanonicalURL v) \<or> is_zero (sc_ObservedAt v) \<or>
         sc_EvidenceID v \<le> 0
      then Inl SrcErrInvalid else Inr v)"

record gitLabIssue =
  gl_ID :: int64
  gl_IID :: int64
  gl_Title :: string
  gl_Description :: string
  gl_WebURL :: string
  gl_CreatedAt :: gotime

record giteaIssue =
  ge_ID :: int64
  ge_Index :: int64
  ge_Title :: string
  ge_Body :: string
  ge_HTMLURL :: string
  ge_Created :: gotime

definition gitlab_record :: "gitLabIssue \<Rightarrow> int64 \<Rightarrow> SourceRecord" where
  "gitlab_record v evidenceID = \<lparr>sc_Kind = KindGitLab, sc_ExternalID = format_int (gl_ID v), sc_CanonicalURL = gl_WebURL v,
     sc_Title = gl_Title v, sc_Body = gl_Description v, sc_Language = '''', sc_ObservedAt = gl_CreatedAt v, sc_EvidenceID = evidenceID,
     sc_Attributes = [''iid'' \<mapsto> format_int (gl_IID v)]\<rparr>"

definition gitea_record :: "giteaIssue \<Rightarrow> int64 \<Rightarrow> SourceRecord" where
  "gitea_record v evidenceID = \<lparr>sc_Kind = KindGitea, sc_ExternalID = format_int (ge_ID v), sc_CanonicalURL = ge_HTMLURL v,
     sc_Title = ge_Title v, sc_Body = ge_Body v, sc_Language = '''', sc_ObservedAt = ge_Created v, sc_EvidenceID = evidenceID,
     sc_Attributes = [''number'' \<mapsto> format_int (ge_Index v)]\<rparr>"

text \<open>The loop of both adapters; the lists have the same length.\<close>

fun adapt_all :: "('a \<Rightarrow> int64 \<Rightarrow> SourceRecord) \<Rightarrow> 'a list \<Rightarrow> int64 list \<Rightarrow> source_record_error + SourceRecord list" where
  "adapt_all mk (v # vs) (i # ids) =
     (case NewRecord (mk v i) of Inl e \<Rightarrow> Inl SrcErrMalformed
      | Inr r \<Rightarrow> map_sum id (Cons r) (adapt_all mk vs ids))"
| "adapt_all mk _ _ = Inr []"

definition GitLabIssues :: "(string \<Rightarrow> gitLabIssue list option) \<Rightarrow> string \<Rightarrow> int64 list \<Rightarrow> source_record_error + SourceRecord list" where
  "GitLabIssues decode body evidenceIDs =
     (case decode body of None \<Rightarrow> Inl SrcErrMalformed
      | Some values \<Rightarrow> if length values \<noteq> length evidenceIDs then Inl SrcErrMalformed else adapt_all gitlab_record values evidenceIDs)"

definition GiteaIssues :: "(string \<Rightarrow> giteaIssue list option) \<Rightarrow> string \<Rightarrow> int64 list \<Rightarrow> source_record_error + SourceRecord list" where
  "GiteaIssues decode body evidenceIDs =
     (case decode body of None \<Rightarrow> Inl SrcErrMalformed
      | Some values \<Rightarrow> if length values \<noteq> length evidenceIDs then Inl SrcErrMalformed else adapt_all gitea_record values evidenceIDs)"

record RegistryValue =
  rv_Registry :: string
  rv_Package :: string
  rv_URL :: string
  rv_Unit :: string
  rv_Population :: string
  rv_Value :: f64
  rv_ObservedAt :: gotime
  rv_EvidenceID :: int64

definition Registry :: "(f64 \<Rightarrow> string) \<Rightarrow> RegistryValue \<Rightarrow> source_record_error + SourceRecord" where
  "Registry format_shortest v =
     (let registry = to_lower (trim_space (rv_Registry v)) in
      if registry = '''' \<or> trim_space (rv_Unit v) = '''' \<or> trim_space (rv_Population v) = '''' \<or> flt (rv_Value v) (Fin 0)
      then Inl SrcErrMalformed
      else NewRecord \<lparr>sc_Kind = KindRegistry, sc_ExternalID = rv_Package v, sc_CanonicalURL = rv_URL v, sc_Title = rv_Package v, sc_Body = '''',
        sc_Language = '''', sc_ObservedAt = rv_ObservedAt v, sc_EvidenceID = rv_EvidenceID v,
        sc_Attributes = [''registry'' \<mapsto> registry, ''unit'' \<mapsto> rv_Unit v, ''population'' \<mapsto> rv_Population v,
          ''value'' \<mapsto> format_shortest (rv_Value v)]\<rparr>)"

definition source_Text :: "RecordKind \<Rightarrow> string \<Rightarrow> string \<Rightarrow> string \<Rightarrow> string \<Rightarrow> string \<Rightarrow> gotime \<Rightarrow> int64 \<Rightarrow> source_record_error + SourceRecord" where
  "source_Text kind externalID rawURL title body language observedAt evidenceID =
     (if kind \<notin> {KindAdvisory, KindDiscussion, KindChangelog, KindFeed, KindDocument, KindWebsite} then Inl SrcErrMalformed
      else NewRecord \<lparr>sc_Kind = kind, sc_ExternalID = externalID, sc_CanonicalURL = rawURL, sc_Title = title, sc_Body = body,
        sc_Language = language, sc_ObservedAt = observedAt, sc_EvidenceID = evidenceID, sc_Attributes = Map.empty\<rparr>)"

section \<open>Adoption\<close>

datatype adoption_error = AdErrInvalid

datatype AdoptionStatus = AdAvailable | AdUnknown | AdIncomparable | AdStale | AdOther string

record AdoptionSnapshot =
  sm_ID :: int64
  sm_ProjectID :: int64
  sm_SourceID :: int64
  sm_Registry :: string
  sm_Package :: string
  sm_Unit :: string
  sm_Population :: string
  sm_Value :: "f64 option"
  sm_Status :: AdoptionStatus
  sm_WindowFrom :: gotime
  sm_WindowTo :: gotime
  sm_ObservedAt :: gotime
  sm_EvidenceID :: int64
  sm_StaleAt :: "gotime option"

definition adoption_NewSnapshot :: "AdoptionSnapshot \<Rightarrow> adoption_error + AdoptionSnapshot" where
  "adoption_NewSnapshot value0 =
     (let v = value0\<lparr>sm_Registry := to_lower (trim_space (sm_Registry value0)), sm_Package := trim_space (sm_Package value0),
            sm_Unit := trim_space (sm_Unit value0), sm_Population := trim_space (sm_Population value0)\<rparr> in
      if sm_ID v \<le> 0 \<or> sm_ProjectID v \<le> 0 \<or> sm_SourceID v \<le> 0 \<or> sm_EvidenceID v \<le> 0 \<or> sm_Registry v = '''' \<or> sm_Package v = '''' \<or>
         sm_Unit v = '''' \<or> \<not> before (sm_WindowFrom v) (sm_WindowTo v) \<or> after (sm_WindowTo v) (sm_ObservedAt v)
      then Inl AdErrInvalid
      else
        bindE (case sm_Value v of None \<Rightarrow> Inr (v\<lparr>sm_Status := AdUnknown\<rparr>)
          | Some x \<Rightarrow> if flt x (Fin 0) \<or> sm_Population v = '''' then Inl AdErrInvalid
              else Inr (if sm_Status v = AdOther '''' then v\<lparr>sm_Status := AdAvailable\<rparr> else v)) (\<lambda>v'.
        case sm_StaleAt v' of None \<Rightarrow> Inr v'
        | Some t \<Rightarrow> if \<not> after t (sm_ObservedAt v') then Inl AdErrInvalid else Inr v'))"

definition Comparable :: "AdoptionSnapshot \<Rightarrow> AdoptionSnapshot \<Rightarrow> bool" where
  "Comparable l r \<longleftrightarrow> sm_Registry l = sm_Registry r \<and> sm_Package l = sm_Package r \<and> sm_Unit l = sm_Unit r \<and> sm_Population l = sm_Population r"

fun presence_status :: "AdoptionSnapshot list \<Rightarrow> AdoptionStatus" where
  "presence_status [] = AdAvailable"
| "presence_status (v # vs) = (if sm_Value v = None then AdUnknown else if sm_StaleAt v \<noteq> None then AdStale else presence_status vs)"

fun ComparisonStatus :: "AdoptionSnapshot list \<Rightarrow> AdoptionStatus" where
  "ComparisonStatus [] = AdUnknown"
| "ComparisonStatus (v # vs) = (if list_ex (\<lambda>w. \<not> Comparable v w) vs then AdIncomparable else presence_status (v # vs))"

text \<open>The merge of both packages: the loop that collects the values of all pages and stops at a repeated key, and the sort.\<close>

fun collect_pages :: "('a \<Rightarrow> 'k) \<Rightarrow> 'k list \<Rightarrow> 'a list \<Rightarrow> 'a list option" where
  "collect_pages key seen [] = Some []"
| "collect_pages key seen (v # vs) =
     (if key v \<in> set seen then None else map_option (Cons v) (collect_pages key (key v # seen) vs))"

definition merge_pages :: "('a \<Rightarrow> 'k) \<Rightarrow> ('a \<Rightarrow> 'a \<Rightarrow> int) \<Rightarrow> 'a list list \<Rightarrow> 'a list option" where
  "merge_pages key cmp pages = map_option (sort_func cmp) (collect_pages key [] (concat pages))"

text \<open>\<open>rfc3339\<close> formats a time in UTC with \<open>time.RFC3339Nano\<close>.\<close>

definition slash :: "string \<Rightarrow> string \<Rightarrow> string" where
  "slash a b = a @ CHR ''/'' # b"

definition sample_key :: "(gotime \<Rightarrow> string) \<Rightarrow> AdoptionSnapshot \<Rightarrow> string" where
  "sample_key rfc3339 v = slash (format_int (sm_SourceID v)) (slash (sm_Registry v) (slash (sm_Package v) (slash (sm_Unit v)
     (slash (sm_Population v) (rfc3339 (utc (sm_ObservedAt v)))))))"

definition cmp_sample :: "AdoptionSnapshot \<Rightarrow> AdoptionSnapshot \<Rightarrow> int" where
  "cmp_sample l r = cmp_then (time_compare (sm_ObservedAt r) (sm_ObservedAt l)) (cmp_int (sm_ID l) (sm_ID r))"

definition adoption_MergeHistory :: "(gotime \<Rightarrow> string) \<Rightarrow> AdoptionSnapshot list list \<Rightarrow> adoption_error + AdoptionSnapshot list" where
  "adoption_MergeHistory rfc3339 pages = some_or AdErrInvalid (merge_pages (sample_key rfc3339) cmp_sample pages)"

datatype AdvisoryState = AdvisoryPublished | AdvisoryWithdrawn | AdvisoryStateOther string

record Advisory =
  av_ID :: int64
  av_ProjectID :: int64
  av_SourceID :: int64
  av_ExternalID :: string
  av_Severity :: string
  av_Summary :: string
  av_State :: AdvisoryState
  av_PublishedAt :: gotime
  av_WithdrawnAt :: "gotime option"
  av_EvidenceID :: int64

record Security =
  se_Status :: AdoptionStatus
  se_Qualification :: string
  se_CoverageNote :: string
  se_Advisories :: "Advisory list"

definition cmp_advisory :: "Advisory \<Rightarrow> Advisory \<Rightarrow> int" where
  "cmp_advisory l r = cmp_then (time_compare (av_PublishedAt r) (av_PublishedAt l)) (cmp_string (av_ExternalID l) (av_ExternalID r))"

definition SummarizeSecurity :: "bool \<Rightarrow> bool \<Rightarrow> Advisory list \<Rightarrow> Security" where
  "SummarizeSecurity sourceObserved coverageComplete advisories =
     (let (status, note) =
        (if \<not> sourceObserved then (AdUnknown, ''no public advisory source was observed'')
         else if \<not> coverageComplete then (AdUnknown, ''public advisory coverage is incomplete'')
         else if advisories = [] then (AdUnknown, ''no public advisories were found; this is not a safety claim'')
         else (AdAvailable, ''public advisories were observed; this is not a vulnerability scan'')) in
      \<lparr>se_Status = status, se_Qualification = ''public_advisory_evidence_only'', se_CoverageNote = note,
       se_Advisories = sort_func cmp_advisory advisories\<rparr>)"

section \<open>Release intelligence\<close>

datatype release_error = RelErrInvalid

datatype ReleaseState = ReleasePublished | ReleaseWithdrawn | ReleaseStateOther string

record Intelligence =
  ri_ID :: int64
  ri_ProjectID :: int64
  ri_RepositoryID :: int64
  ri_SourceID :: int64
  ri_ExternalID :: string
  ri_Tag :: string
  ri_Title :: string
  ri_Body :: string
  ri_Language :: string
  ri_URL :: string
  ri_PublishedAt :: gotime
  ri_Prerelease :: bool
  ri_State :: ReleaseState
  ri_WithdrawnAt :: "gotime option"
  ri_EvidenceID :: int64
  ri_ChangelogID :: "int64 option"
  ri_AnalysisRunID :: "int64 option"

definition NewIntelligence :: "Intelligence \<Rightarrow> release_error + Intelligence" where
  "NewIntelligence value0 =
     (let v = value0\<lparr>ri_ExternalID := trim_space (ri_ExternalID value0), ri_Tag := trim_space (ri_Tag value0)\<rparr> in
      if ri_ID v \<le> 0 \<or> ri_ProjectID v \<le> 0 \<or> ri_RepositoryID v \<le> 0 \<or> ri_SourceID v \<le> 0 \<or> ri_EvidenceID v \<le> 0 \<or> ri_ExternalID v = '''' \<or>
         ri_Tag v = '''' \<or> \<not> prefix ''https://'' (ri_URL v) \<or> is_zero (ri_PublishedAt v)
      then Inl RelErrInvalid
      else
        let v' = (if ri_State v = ReleaseStateOther '''' then v\<lparr>ri_State := ReleasePublished\<rparr> else v) in
        if ri_State v' = ReleaseWithdrawn \<and> (case ri_WithdrawnAt v' of None \<Rightarrow> True | Some t \<Rightarrow> before t (ri_PublishedAt v'))
        then Inl RelErrInvalid else Inr v')"

definition release_key :: "Intelligence \<Rightarrow> string" where
  "release_key v = ri_ExternalID v @ CHR 0x00 # ri_Tag v @ CHR 0x00 # ri_URL v"

definition cmp_release :: "Intelligence \<Rightarrow> Intelligence \<Rightarrow> int" where
  "cmp_release l r = cmp_then (time_compare (ri_PublishedAt r) (ri_PublishedAt l)) (cmp_int (ri_ID l) (ri_ID r))"

definition release_MergeHistory :: "Intelligence list list \<Rightarrow> release_error + Intelligence list" where
  "release_MergeHistory pages = some_or RelErrInvalid (merge_pages release_key cmp_release pages)"

record ReleaseView =
  vw_Release :: Intelligence
  vw_Analysis :: "Run option"
  vw_AnalysisStatus :: string
  vw_CoverageNote :: string

fun run_state_text :: "RunState \<Rightarrow> string" where
  "run_state_text RunQueued = ''queued''"
| "run_state_text RunRunning = ''running''"
| "run_state_text RunSucceeded = ''succeeded''"
| "run_state_text RunFailed = ''failed''"
| "run_state_text RunCancelled = ''cancelled''"
| "run_state_text (RunStateOther s) = s"

definition Present :: "Intelligence \<Rightarrow> Run option \<Rightarrow> bool \<Rightarrow> ReleaseView" where
  "Present v run providerAvailable =
     \<lparr>vw_Release = v, vw_Analysis = run,
      vw_AnalysisStatus = (case run of Some r \<Rightarrow> run_state_text (rn_State r) | None \<Rightarrow> if \<not> providerAvailable then ''unavailable'' else ''pending''),
      vw_CoverageNote = (if ri_ChangelogID v = None then ''release metadata available; no changelog evidence'' else ''release metadata available'')\<rparr>"

section \<open>Merged histories\<close>

lemma collect_pages_iff:
  "collect_pages key seen vs = Some ws \<longleftrightarrow> ws = vs \<and> distinct (map key vs) \<and> set (map key vs) \<inter> set seen = {}"
  by (induction key seen vs arbitrary: ws rule: collect_pages.induct) auto

text \<open>
  A history: the key that tells observations apart, and the order, newest first. The identifier breaks ties between observations of the
  same instant.
\<close>

locale history = comparator cmp for cmp :: "'a \<Rightarrow> 'a \<Rightarrow> int" +
  fixes key :: "'a \<Rightarrow> string" and ident :: "'a \<Rightarrow> int64" and instant :: "'a \<Rightarrow> gotime"
  assumes newest: "cmp x y \<le> 0 \<Longrightarrow> \<not> before (instant x) (instant y)"
    and tie: "cmp x y \<le> 0 \<Longrightarrow> cmp y x \<le> 0 \<Longrightarrow> ident x = ident y"
begin

lemma merge_iff: "merge_pages key cmp pages = Some vs \<longleftrightarrow> distinct (map key (concat pages)) \<and> vs = sort_func cmp (concat pages)"
  by (auto simp: merge_pages_def collect_pages_iff)

lemma merge_complete:
  assumes "merge_pages key cmp pages = Some vs"
  shows "mset vs = mset (concat pages)" "sorted_wrt (\<lambda>x y. \<not> before (instant x) (instant y)) vs" "distinct (map key vs)"
proof -
  have vs: "distinct (map key (concat pages))" "vs = sort_func cmp (concat pages)" using assms by (auto simp: merge_iff)
  then show m: "mset vs = mset (concat pages)" by simp
  show "sorted_wrt (\<lambda>x y. \<not> before (instant x) (instant y)) vs"
    unfolding vs(2) by (rule sorted_wrt_mono_rel [OF _ ordered_sort [unfolded ordered_by_def]]) (rule newest)
  show "distinct (map key vs)" using vs(1) m by (metis mset_eq_imp_distinct_iff mset_map)
qed

lemma merge_paging_irrelevant:
  assumes "mset (concat pages) = mset (concat pages')" "distinct (map ident (concat pages))"
  shows "merge_pages key cmp pages = merge_pages key cmp pages'"
proof -
  have "x = y" if "x \<in> set (concat pages)" "y \<in> set (concat pages)" "cmp x y \<le> 0" "cmp y x \<le> 0" for x y
    using tie [OF that(3,4)] that(1,2) assms(2) unfolding distinct_map inj_on_def by blast
  then have s: "sort_func cmp (concat pages') = sort_func cmp (concat pages)"
    by (intro sort_func_unique) (simp_all add: sort_result_def ordered_sort assms(1))
  have "distinct (map key (concat pages)) = distinct (map key (concat pages'))" using assms(1) by (metis mset_eq_imp_distinct_iff mset_map)
  then show ?thesis using merge_iff [of pages] merge_iff [of pages'] s by (cases "merge_pages key cmp pages"; cases "merge_pages key cmp pages'") auto
qed

end

interpretation adoption_history: history cmp_sample "sample_key rfc3339" sm_ID sm_ObservedAt for rfc3339
  by unfold_locales (auto simp: cmp_sample_def cmp_then_def cmp_int_def time_compare_def before_def split: if_splits)

interpretation release_history: history cmp_release release_key ri_ID ri_PublishedAt
  by unfold_locales (auto simp: cmp_release_def cmp_then_def cmp_int_def time_compare_def before_def split: if_splits)


section \<open>Statuses and keys\<close>

lemma presence_status_iff: "presence_status vs = AdAvailable \<longleftrightarrow> list_all (\<lambda>v. sm_Value v \<noteq> None \<and> sm_StaleAt v = None) vs"
  by (induction vs rule: presence_status.induct) auto

lemma presence_comparable: "presence_status vs \<noteq> AdIncomparable"
  by (induction vs rule: presence_status.induct) auto

lemma comparable_hd: "list_all (\<lambda>w. Comparable v w) vs \<longleftrightarrow> list_all (\<lambda>x. list_all (Comparable x) (v # vs)) (v # vs)"
proof -
  define f where "f (x :: AdoptionSnapshot) = (sm_Registry x, sm_Package x, sm_Unit x, sm_Population x)" for x
  have "Comparable x y \<longleftrightarrow> f x = f y" for x y by (auto simp: Comparable_def f_def)
  then show ?thesis by (simp add: list_all_iff) metis
qed

text \<open>
  Adoption samples are available together exactly when there are some, any two of them come from the same registry, package, unit
  and population, each has a value and none is stale; and they are incomparable exactly when two of them do not.
\<close>
theorem adoption_status_decides:
  "(ComparisonStatus vs = AdAvailable) = (vs \<noteq> [] \<and> list_all (\<lambda>v. list_all (Comparable v) vs) vs \<and>
      list_all (\<lambda>v. sm_Value v \<noteq> None \<and> sm_StaleAt v = None) vs) \<and>
   (ComparisonStatus vs = AdIncomparable) = (\<not> list_all (\<lambda>v. list_all (Comparable v) vs) vs)"
proof (cases vs)
  case (Cons v ws)
  have "list_ex (\<lambda>w. \<not> Comparable v w) ws \<longleftrightarrow> \<not> list_all (\<lambda>w. Comparable v w) ws" by (simp add: list_ex_iff list_all_iff)
  also have "\<dots> \<longleftrightarrow> \<not> list_all (\<lambda>x. list_all (Comparable x) vs) vs" unfolding Cons by (rule arg_cong [OF comparable_hd])
  finally have s0: "list_ex (\<lambda>w. \<not> Comparable v w) ws \<longleftrightarrow> \<not> list_all (\<lambda>x. list_all (Comparable x) vs) vs" .
  have s: "ComparisonStatus vs = (if \<not> list_all (\<lambda>x. list_all (Comparable x) vs) vs then AdIncomparable else presence_status vs)"
    using s0 unfolding Cons ComparisonStatus.simps by (simp only: not_not split: if_split)
  have "vs \<noteq> []" using Cons by simp
  then show ?thesis unfolding s using presence_comparable [of vs] by (simp add: presence_status_iff)
qed simp

text \<open>
  C40: The merged release history holds every release of every page once, newest first; and it does not depend on how the provider
  splits or orders the pages, when the releases have different identifiers.
\<close>
theorem release_history_paging:
  assumes "mset (concat pages) = mset (concat pages')" "distinct (map ri_ID (concat pages))" "release_MergeHistory pages = Inr vs"
  shows "release_MergeHistory pages' = Inr vs \<and> mset vs = mset (concat pages') \<and> distinct (map release_key vs) \<and>
    sorted_wrt (\<lambda>x y. \<not> before (ri_PublishedAt x) (ri_PublishedAt y)) vs"
proof -
  have m: "merge_pages release_key cmp_release pages = Some vs" using assms(3) by (simp add: release_MergeHistory_def result_simps)
  moreover have "merge_pages release_key cmp_release pages' = Some vs" using release_history.merge_paging_irrelevant [OF assms(1,2)] m by simp
  ultimately show ?thesis using release_history.merge_complete [OF m] assms(1) by (simp add: release_MergeHistory_def)
qed

definition sample_release :: "int64 \<Rightarrow> string \<Rightarrow> Intelligence" where
  "sample_release i tag = \<lparr>ri_ID = i, ri_ProjectID = 1, ri_RepositoryID = 1, ri_SourceID = 1, ri_ExternalID = tag, ri_Tag = tag, ri_Title = '''',
     ri_Body = '''', ri_Language = '''', ri_URL = ''https://x'', ri_PublishedAt = Time i UTC, ri_Prerelease = False, ri_State = ReleasePublished,
     ri_WithdrawnAt = None, ri_EvidenceID = 1, ri_ChangelogID = None, ri_AnalysisRunID = None\<rparr>"

theorem release_history_paging_witness:
  "release_MergeHistory [[sample_release 2 ''b''], [sample_release 1 ''a'']] = Inr [sample_release 2 ''b'', sample_release 1 ''a''] \<and>
   release_MergeHistory [[sample_release 1 ''a'', sample_release 2 ''b'']] = Inr [sample_release 2 ''b'', sample_release 1 ''a'']"
proof -
  have m: "release_MergeHistory [[sample_release 2 ''b''], [sample_release 1 ''a'']] = Inr [sample_release 2 ''b'', sample_release 1 ''a'']"
    by (simp add: release_MergeHistory_def merge_pages_def sample_release_def release_key_def cmp_release_def cmp_then_def time_compare_def)
  with release_history_paging [OF _ _ m, of "[[sample_release 1 ''a'', sample_release 2 ''b'']]"] show ?thesis
    by (simp add: sample_release_def)
qed

definition sample_adoption :: "string \<Rightarrow> string \<Rightarrow> AdoptionSnapshot" where
  "sample_adoption package u = \<lparr>sm_ID = 1, sm_ProjectID = 1, sm_SourceID = 1, sm_Registry = ''npm'', sm_Package = package, sm_Unit = u,
     sm_Population = ''all'', sm_Value = None, sm_Status = AdUnknown, sm_WindowFrom = Time 1 UTC, sm_WindowTo = Time 2 UTC,
     sm_ObservedAt = Time 3 UTC, sm_EvidenceID = 1, sm_StaleAt = None\<rparr>"

text \<open>The key of an adoption sample joins its parts with a slash, which they may contain: two different samples have the same key.\<close>

lemma adoption_key_collides:
  "\<not> Comparable (sample_adoption ''@s/p'' ''u'') (sample_adoption ''@s'' ''p/u'') \<and>
   adoption_MergeHistory rfc3339 [[sample_adoption ''@s/p'' ''u''], [sample_adoption ''@s'' ''p/u'']] = Inl AdErrInvalid"
  by (simp add: sample_adoption_def Comparable_def adoption_MergeHistory_def merge_pages_def sample_key_def slash_def)

text \<open>Public evidence is never a claim of safety: without advisories the status is unknown.\<close>

lemma security_without_advisories: "se_Status (SummarizeSecurity sourceObserved coverageComplete []) = AdUnknown"
  by (simp add: SummarizeSecurity_def)

section \<open>Adapters\<close>

lemma NewRecord_sound:
  "NewRecord v = Inr r \<Longrightarrow> sc_Kind r = sc_Kind v \<and> sc_ExternalID r \<noteq> '''' \<and> prefix ''https://'' (sc_CanonicalURL r) \<and> 0 < sc_EvidenceID r \<and>
     sc_Attributes r = sc_Attributes v"
  by (auto simp: NewRecord_def Let_def split: if_splits)

lemma adapt_all_sound:
  "adapt_all mk vs ids = Inr rs \<Longrightarrow> length vs = length ids \<Longrightarrow>
   list_all2 (\<lambda>(v, i) r. NewRecord (mk v i) = Inr r) (zip vs ids) rs"
  by (induction mk vs ids arbitrary: rs rule: adapt_all.induct) (auto simp: result_simps split: sum.splits)
end
