(* ===== verification/Crawl.thy ===== *)
theory Crawl
  imports "HOL-Library.Word" Knowledge Access
begin

text \<open>
  \<open>internal/collector\<close> and \<open>internal/platform/crawler\<close>: the policy that keeps collection on public hosts, the HTTP client that dials
  only validated addresses, the bounded crawl and the bounded task runner. Parsing a URL (\<open>url.ParseRequestURI\<close>), the resolver, the
  servers, the robots policy and the links of an HTML page are arguments; every call of the outside world carries the number of the
  crawl's step, so that answers may differ from call to call.
\<close>

unbundle bit_operations_syntax

section \<open>Public addresses\<close>

text \<open>\<open>netip.Addr\<close>: an IPv4 address, or an IPv6 address with a zone.\<close>

datatype ip_addr = InvalidAddr | V4 "32 word" | V6 "128 word" string

definition v4_byte :: "32 word \<Rightarrow> nat \<Rightarrow> 8 word" where
  "v4_byte w i = ucast (drop_bit (24 - 8 * i) w)"

definition v6_group :: "128 word \<Rightarrow> nat \<Rightarrow> 16 word" where
  "v6_group w i = ucast (drop_bit (112 - 16 * i) w)"

definition v6_first_byte :: "128 word \<Rightarrow> 8 word" where
  "v6_first_byte w = ucast (drop_bit 120 w)"

fun Unmap :: "ip_addr \<Rightarrow> ip_addr" where
  "Unmap (V6 w zone) = (if drop_bit 32 w = 0xffff then V4 (ucast w) else V6 w zone)"
| "Unmap a = a"

fun IsUnspecified :: "ip_addr \<Rightarrow> bool" where
  "IsUnspecified (V4 w) = (w = 0)"
| "IsUnspecified (V6 w zone) = (w = 0 \<and> zone = '''')"
| "IsUnspecified InvalidAddr = False"

text \<open>The remaining tests are made on unmapped addresses only.\<close>

fun IsLoopback :: "ip_addr \<Rightarrow> bool" where
  "IsLoopback (V4 w) = (v4_byte w 0 = 127)"
| "IsLoopback (V6 w zone) = (w = 1)"
| "IsLoopback InvalidAddr = False"

fun IsPrivate :: "ip_addr \<Rightarrow> bool" where
  "IsPrivate (V4 w) = (v4_byte w 0 = 10 \<or> (v4_byte w 0 = 172 \<and> v4_byte w 1 AND 0xf0 = 16) \<or> (v4_byte w 0 = 192 \<and> v4_byte w 1 = 168))"
| "IsPrivate (V6 w zone) = (v6_first_byte w AND 0xfe = 0xfc)"
| "IsPrivate InvalidAddr = False"

fun IsLinkLocalUnicast :: "ip_addr \<Rightarrow> bool" where
  "IsLinkLocalUnicast (V4 w) = (v4_byte w 0 = 169 \<and> v4_byte w 1 = 254)"
| "IsLinkLocalUnicast (V6 w zone) = (v6_group w 0 AND 0xffc0 = 0xfe80)"
| "IsLinkLocalUnicast InvalidAddr = False"

fun IsLinkLocalMulticast :: "ip_addr \<Rightarrow> bool" where
  "IsLinkLocalMulticast (V4 w) = (v4_byte w 0 = 224 \<and> v4_byte w 1 = 0 \<and> v4_byte w 2 = 0)"
| "IsLinkLocalMulticast (V6 w zone) = (v6_group w 0 AND 0xff0f = 0xff02)"
| "IsLinkLocalMulticast InvalidAddr = False"

fun IsMulticast :: "ip_addr \<Rightarrow> bool" where
  "IsMulticast (V4 w) = (v4_byte w 0 AND 0xf0 = 0xe0)"
| "IsMulticast (V6 w zone) = (v6_first_byte w = 0xff)"
| "IsMulticast InvalidAddr = False"

definition publicAddress :: "ip_addr \<Rightarrow> bool" where
  "publicAddress a \<longleftrightarrow> a \<noteq> InvalidAddr \<and> \<not> IsUnspecified a \<and> \<not> IsLoopback a \<and> \<not> IsPrivate a \<and> \<not> IsLinkLocalUnicast a \<and>
     \<not> IsLinkLocalMulticast a \<and> \<not> IsMulticast a"

section \<open>URLs\<close>

text \<open>
  \<open>cu_EscapedPath\<close> is what \<open>EscapedPath\<close> returns on the parsed URL, and \<open>cu_Query\<close> the query with its question mark, empty when there
  is none.
\<close>

record crawl_url =
  cu_Scheme :: string
  cu_Host :: string
  cu_HasUser :: bool
  cu_EscapedPath :: string
  cu_Query :: string
  cu_Fragment :: string

text \<open>\<open>splitHostPort\<close> of \<open>net/url\<close>, which \<open>Hostname\<close> and \<open>Port\<close> call.\<close>

definition valid_optional_port :: "string \<Rightarrow> bool" where
  "valid_optional_port p = (case p of [] \<Rightarrow> True | c # ds \<Rightarrow> c = CHR '':'' \<and> list_all (\<lambda>d. digit_value d \<noteq> None) ds)"

definition last_colon :: "string \<Rightarrow> (string \<times> string) option" where
  "last_colon s = (case cut_at CHR '':'' (rev s) of None \<Rightarrow> None | Some (b, a) \<Rightarrow> Some (rev a, rev b))"

definition split_host_port :: "string \<Rightarrow> string \<times> string" where
  "split_host_port hp =
     (let (host, port) = (case last_colon hp of None \<Rightarrow> (hp, '''')
            | Some (a, b) \<Rightarrow> if valid_optional_port (CHR '':'' # b) then (a, b) else (hp, '''')) in
      (if prefix ''['' host \<and> suffix '']'' host then take (length host - 2) (drop 1 host) else host, port))"

definition url_Hostname :: "string \<Rightarrow> string" where "url_Hostname h = fst (split_host_port h)"
definition url_Port :: "string \<Rightarrow> string" where "url_Port h = snd (split_host_port h)"

definition JoinHostPort :: "string \<Rightarrow> string \<Rightarrow> string" where
  "JoinHostPort host port = (if CHR '':'' \<in> set host then ''['' @ host @ '']:'' @ port else host @ '':'' @ port)"

text \<open>The escaping of a path and of a host by \<open>URL.String\<close>.\<close>

definition unreserved :: "char \<Rightarrow> bool" where
  "unreserved c = (let n = (of_char c :: nat) in (48 \<le> n \<and> n \<le> 57) \<or> (65 \<le> n \<and> n \<le> 90) \<or> (97 \<le> n \<and> n \<le> 122) \<or> c \<in> set ''-_.~'')"

definition path_hex :: "nat \<Rightarrow> char" where "path_hex d = ''0123456789ABCDEF'' ! d"

definition escape_with :: "string \<Rightarrow> string \<Rightarrow> string" where
  "escape_with allowed s = concat (map (\<lambda>c. if unreserved c \<or> c \<in> set allowed then [c]
     else [CHR ''%'', path_hex ((of_char c :: nat) div 16), path_hex ((of_char c :: nat) mod 16)]) s)"

definition escape_path :: "string \<Rightarrow> string" where
  "escape_path = escape_with ''$&+,/:;=@''"

definition escape_host :: "string \<Rightarrow> string" where
  "escape_host = escape_with (''!$&()*+,;=:[]<>'' @ [CHR 0x27, CHR 0x22])"

text \<open>\<open>path.Clean\<close> of a path that starts with a slash: the stack of segments is kept in reverse.\<close>

fun clean_segments :: "string list \<Rightarrow> string list \<Rightarrow> string list" where
  "clean_segments stack [] = stack"
| "clean_segments stack (s # rest) =
     (if s = '''' \<or> s = ''.'' then clean_segments stack rest
      else if s = ''..'' then clean_segments (tl stack) rest
      else clean_segments (s # stack) rest)"

definition path_Clean :: "string \<Rightarrow> string" where
  "path_Clean p =
     (let segments = rev (clean_segments [] (split_on CHR ''/'' p)) in
      if segments = [] then ''/'' else concat (map (\<lambda>s. CHR ''/'' # s) segments))"

text \<open>The URL that a validation returns: it is an HTTPS URL without user, fragment or raw path.\<close>

record valid_url =
  vu_Host :: string
  vu_Path :: string
  vu_Query :: string

definition url_String :: "valid_url \<Rightarrow> string" where
  "url_String u = ''https://'' @ escape_host (vu_Host u) @ escape_path (vu_Path u) @ vu_Query u"

section \<open>The policy\<close>

datatype crawl_error = CrUnsafe string | CrInvalid | CrRobotsDenied | CrRobots | CrCancelled | CrFetch | CrStatus | CrLimitExceeded
  | CrBudget knowledge_error

type_synonym resolver = "string \<Rightarrow> ip_addr list option"

text \<open>An empty set of hosts allows any public host.\<close>

record PublicURLPolicy =
  pp_AllowedPorts :: "string list"
  pp_AllowedHosts :: "string list"

definition drop_prefix :: "string \<Rightarrow> string \<Rightarrow> string" where
  "drop_prefix s pre = (if prefix pre s then drop (length pre) s else s)"

definition drop_suffix :: "string \<Rightarrow> string \<Rightarrow> string" where
  "drop_suffix s suf = (if suffix suf s then take (length s - length suf) s else s)"

definition url_host :: "crawl_url \<Rightarrow> string" where
  "url_host u = drop_suffix (to_lower (url_Hostname (cu_Host u))) ''.''"

definition url_policy_Validate :: "(string \<Rightarrow> crawl_url option) \<Rightarrow> resolver \<Rightarrow> PublicURLPolicy \<Rightarrow> string \<Rightarrow> crawl_error + valid_url" where
  "url_policy_Validate parse lookup policy raw =
     (case parse (trim_space raw) of None \<Rightarrow> Inl (CrUnsafe ''url'')
      | Some u \<Rightarrow>
          if cu_Scheme u \<noteq> ''https'' \<or> cu_Host u = '''' \<or> cu_HasUser u \<or> cu_Fragment u \<noteq> '''' then Inl (CrUnsafe ''url'')
          else
            let host = url_host u; port = url_Port (cu_Host u) in
            if host = '''' \<or> host = ''localhost'' \<or> suffix ''.localhost'' host then Inl (CrUnsafe ''local'')
            else if pp_AllowedHosts policy \<noteq> [] \<and> host \<notin> set (pp_AllowedHosts policy) then Inl (CrUnsafe ''scope'')
            else if port \<noteq> '''' \<and> port \<noteq> ''443'' \<and> port \<notin> set (pp_AllowedPorts policy) then Inl (CrUnsafe ''port'')
            else (case lookup host of None \<Rightarrow> Inl (CrUnsafe ''resolve'')
              | Some addresses \<Rightarrow>
                  if addresses = [] then Inl (CrUnsafe ''resolve'')
                  else if list_ex (\<lambda>a. \<not> publicAddress (Unmap a)) addresses then Inl (CrUnsafe ''protected'')
                  else Inr \<lparr>vu_Host = (if port \<noteq> '''' then JoinHostPort host port else host),
                    vu_Path = path_Clean (CHR ''/'' # drop_prefix (cu_EscapedPath u) ''/''), vu_Query = cu_Query u\<rparr>))"

text \<open>\<open>DialContext\<close> of \<open>PublicHTTPClient\<close>: the address that is dialled.\<close>

definition dial_address :: "resolver \<Rightarrow> string \<Rightarrow> crawl_error + ip_addr" where
  "dial_address lookup host =
     (case lookup host of None \<Rightarrow> Inl (CrUnsafe ''resolve'')
      | Some addresses \<Rightarrow>
          if addresses = [] then Inl (CrUnsafe ''resolve'')
          else if list_ex (\<lambda>a. \<not> publicAddress (Unmap a)) addresses then Inl (CrUnsafe ''protected'')
          else Inr (hd addresses))"

definition redirect_Check :: "(string \<Rightarrow> crawl_url option) \<Rightarrow> resolver \<Rightarrow> PublicURLPolicy \<Rightarrow> int \<Rightarrow> string \<Rightarrow> nat \<Rightarrow> crawl_error option" where
  "redirect_Check parse lookup policy limit0 next via =
     (let limit = (if limit0 \<le> 0 then 5 else limit0) in
      if int via \<ge> limit then Some (CrUnsafe ''redirects'')
      else (case url_policy_Validate parse lookup policy next of Inl e \<Rightarrow> Some e | Inr _ \<Rightarrow> None))"

section \<open>The crawl\<close>

record reply =
  rp_Status :: int
  rp_ContentType :: string
  rp_Body :: string

text \<open>A server fails, answers, or redirects to another URL, given as its string.\<close>

datatype exchange = NoReply | Answer reply | RedirectTo string

record crawl_env =
  ce_parse :: "string \<Rightarrow> crawl_url option"
  ce_lookup :: "nat \<Rightarrow> nat \<Rightarrow> resolver"
  ce_exchange :: "nat \<Rightarrow> nat \<Rightarrow> string \<Rightarrow> exchange"
  ce_robots :: "nat \<Rightarrow> valid_url \<Rightarrow> bool option"
  ce_cancelled :: "nat \<Rightarrow> bool"
  ce_wait_cancelled :: "nat \<Rightarrow> bool"
  ce_now :: "nat \<Rightarrow> gotime"
  ce_links :: "valid_url \<Rightarrow> string \<Rightarrow> string list"

text \<open>
  \<open>client.Do\<close>: every request dials the host of its URL through \<open>dial_address\<close>, and every redirect is checked before it is followed.
  \<open>via\<close> counts the requests made so far; with \<open>Limit: 5\<close> the check refuses the fifth, so that \<open>rest\<close> need not exceed 5. The value is
  the list of the requests that are sent, each with its URL and the address that is dialled, and the outcome.
\<close>

primrec client_Do ::
    "crawl_env \<Rightarrow> PublicURLPolicy \<Rightarrow> nat \<Rightarrow> nat \<Rightarrow> nat \<Rightarrow> string \<Rightarrow> (string \<times> ip_addr) list \<times> (crawl_error + reply)" where
  "client_Do env policy step via 0 url = ([], Inl CrFetch)"
| "client_Do env policy step via (Suc rest) url =
     (case ce_parse env url of None \<Rightarrow> ([], Inl CrFetch)
      | Some u \<Rightarrow>
          (case dial_address (ce_lookup env step (2 * via + 1)) (url_Hostname (cu_Host u)) of Inl e \<Rightarrow> ([], Inl e)
           | Inr a \<Rightarrow>
               (case ce_exchange env step via url of
                  NoReply \<Rightarrow> ([(url, a)], Inl CrFetch)
                | Answer r \<Rightarrow> ([(url, a)], Inr r)
                | RedirectTo next \<Rightarrow>
                    (case redirect_Check (ce_parse env) (ce_lookup env step (2 * via + 2)) policy 5 next (via + 1) of
                       Some e \<Rightarrow> ([(url, a)], Inl e)
                     | None \<Rightarrow>
                         (let (sent, outcome) = client_Do env policy step (via + 1) rest next in ((url, a) # sent, outcome))))))"

record CrawlPage =
  cp_URL :: string
  cp_Depth :: int
  cp_MediaType :: string
  cp_Body :: string
  cp_ObservedAt :: gotime
  cp_Links :: "string list"

text \<open>Reading stops one byte after the limit.\<close>

definition readPage :: "crawl_env \<Rightarrow> reply \<Rightarrow> valid_url \<Rightarrow> int \<Rightarrow> int64 \<Rightarrow> gotime \<Rightarrow> crawl_error + CrawlPage" where
  "readPage env r base depth maxBytes observedAt =
     (if rp_Status r < 200 \<or> rp_Status r \<ge> 300 then Inl CrStatus
      else
        let mediaType = to_lower (trim_space (hd (split_on CHR '';'' (rp_ContentType r)))); body = take (nat (maxBytes + 1)) (rp_Body r) in
        if int (length body) > maxBytes then Inl CrLimitExceeded
        else Inr \<lparr>cp_URL = url_String base, cp_Depth = depth, cp_MediaType = mediaType, cp_Body = body, cp_ObservedAt = utc observedAt,
          cp_Links = (if mediaType = ''text/html'' then ce_links env base body else [])\<rparr>)"

fun canonical_roots :: "crawl_env \<Rightarrow> PublicURLPolicy \<Rightarrow> nat \<Rightarrow> string list \<Rightarrow> crawl_error + valid_url list" where
  "canonical_roots env base i [] = Inr []"
| "canonical_roots env base i (r # rs) =
     bindE (url_policy_Validate (ce_parse env) (ce_lookup env 0 i) base r) (\<lambda>u. map_sum id (Cons u) (canonical_roots env base (i + 1) rs))"

definition crawlPolicy :: "crawl_env \<Rightarrow> PublicURLPolicy \<Rightarrow> string list \<Rightarrow> crawl_error + PublicURLPolicy \<times> string list" where
  "crawlPolicy env base roots =
     map_sum id (\<lambda>us. (base\<lparr>pp_AllowedHosts := map (url_Hostname \<circ> vu_Host) us\<rparr>, map url_String us)) (canonical_roots env base 0 roots)"

record crawl_state =
  cs_queue :: "(string \<times> int) list"
  cs_seen :: "string list"
  cs_budget :: CrawlBudget
  cs_pages :: "CrawlPage list"
  cs_first :: bool
  cs_step :: nat

text \<open>One turn of the loop on a queue that is not empty: it ends the crawl with an error, or goes on.\<close>

definition crawl_turn :: "crawl_env \<Rightarrow> PublicURLPolicy \<Rightarrow> CrawlLimits \<Rightarrow> crawl_state \<Rightarrow> crawl_error + crawl_state" where
  "crawl_turn env policy limits s =
     (let step = cs_step s; (raw, depth) = hd (cs_queue s); s0 = s\<lparr>cs_queue := tl (cs_queue s), cs_step := step + 1\<rparr> in
      if ce_cancelled env step then Inl CrCancelled
      else
        bindE (url_policy_Validate (ce_parse env) (ce_lookup env step 0) policy raw) (\<lambda>validated.
        let key = url_String validated in
        if key \<in> set (cs_seen s) then Inr s0
        else
          (case ce_robots env step validated of None \<Rightarrow> Inl CrRobots
           | Some False \<Rightarrow> Inl CrRobotsDenied
           | Some True \<Rightarrow>
               if \<not> cs_first s \<and> ce_wait_cancelled env step then Inl CrCancelled
               else
                 bindE (snd (client_Do env policy step 0 5 key)) (\<lambda>r.
                 bindE (readPage env r validated depth (cl_MaxPageBytes limits) (ce_now env step)) (\<lambda>page.
                 case budget_Accept (cs_budget s) (url_Hostname (vu_Host validated)) depth (int (length (cp_Body page))) (cp_MediaType page) of
                   (b, Some e) \<Rightarrow> Inl (CrBudget e)
                 | (b, None) \<Rightarrow>
                     Inr (s0\<lparr>cs_seen := key # cs_seen s, cs_budget := b, cs_pages := cs_pages s @ [page], cs_first := False,
                       cs_queue := tl (cs_queue s) @ (if depth \<ge> cl_MaxDepth limits then [] else map (\<lambda>l. (l, depth + 1)) (cp_Links page))\<rparr>))))))"

text \<open>The loop, which returns the pages with the error that ended it; its value is \<open>None\<close> when it does not end.\<close>

partial_function (option) crawl_loop :: "crawl_env \<Rightarrow> PublicURLPolicy \<Rightarrow> CrawlLimits \<Rightarrow> crawl_state \<Rightarrow> (CrawlPage list \<times> crawl_error option) option" where
  "crawl_loop env policy limits s =
     (if cs_queue s = [] then Some (cs_pages s, None)
      else (case crawl_turn env policy limits s of Inl e \<Rightarrow> Some (cs_pages s, Some e) | Inr t \<Rightarrow> crawl_loop env policy limits t))"

definition Crawl :: "crawl_env \<Rightarrow> PublicURLPolicy \<Rightarrow> CrawlLimits \<Rightarrow> string list \<Rightarrow> (CrawlPage list \<times> crawl_error option) option" where
  "Crawl env base limits roots =
     (if crawl_limits_Validate limits \<noteq> None \<or> roots = [] then Some ([], Some CrInvalid)
      else (case crawlPolicy env base roots of Inl e \<Rightarrow> Some ([], Some e)
        | Inr (policy, canonicalRoots) \<Rightarrow>
            crawl_loop env policy limits \<lparr>cs_queue = map (\<lambda>r. (r, 0)) canonicalRoots, cs_seen = [],
              cs_budget = \<lparr>cb_Limits = limits, cb_Domains = [], cb_Pages = 0, cb_Bytes = 0\<rparr>, cs_pages = [], cs_first = True, cs_step = 1\<rparr>))"

section \<open>Bounded tasks\<close>

text \<open>
  \<open>RunBounded\<close>: the loop starts tasks in their order while the semaphore has room, tasks end in any order, and the loop stops at a
  cancellation it sees. \<open>bt_errs\<close> is the slice of errors; the outcome of a task is an argument.
\<close>

record bounded_tasks =
  bt_next :: nat
  bt_running :: "nat list"
  bt_errs :: "string option list"
  bt_stopped :: bool

definition bounded_init :: "nat \<Rightarrow> bounded_tasks" where
  "bounded_init n = \<lparr>bt_next = 0, bt_running = [], bt_errs = replicate n None, bt_stopped = False\<rparr>"

inductive bounded_step :: "nat \<Rightarrow> (nat \<Rightarrow> string option) \<Rightarrow> nat \<Rightarrow> bounded_tasks \<Rightarrow> bounded_tasks \<Rightarrow> bool" for limit outcome n where
  bounded_start: "\<not> bt_stopped b \<Longrightarrow> bt_next b < n \<Longrightarrow> length (bt_running b) < limit \<Longrightarrow>
    bounded_step limit outcome n b (b\<lparr>bt_next := bt_next b + 1, bt_running := bt_running b @ [bt_next b]\<rparr>)"
| bounded_stop: "\<not> bt_stopped b \<Longrightarrow> bt_next b < n \<Longrightarrow> bounded_step limit outcome n b (b\<lparr>bt_stopped := True\<rparr>)"
| bounded_end: "i \<in> set (bt_running b) \<Longrightarrow>
    bounded_step limit outcome n b (b\<lparr>bt_running := remove1 i (bt_running b), bt_errs := (bt_errs b)[i := outcome i]\<rparr>)"

text \<open>\<open>compact\<close> of the errors, and the values joined at the end, with the cancellation's when the loop was stopped.\<close>

definition compact_errors :: "string option list \<Rightarrow> string list" where
  "compact_errors errs = map the (filter (\<lambda>e. e \<noteq> None) errs)"

definition bounded_outcome :: "bounded_tasks \<Rightarrow> string \<Rightarrow> string list" where
  "bounded_outcome b ctxErr = compact_errors (bt_errs b) @ (if bt_stopped b then [ctxErr] else [])"


section \<open>Addresses\<close>

lemma byte_table:
  "list_all (\<lambda>n. ((word_of_nat n :: 8 word) AND 0xf0 = 16) = (16 \<le> n \<and> n < 32) \<and> ((word_of_nat n :: 8 word) AND 0xf0 = 0xe0) = (224 \<le> n \<and> n < 240))
     [0..<256]"
  by code_simp

lemma byte_ranges:
  fixes x :: "8 word"
  shows "x AND 0xf0 = 16 \<longleftrightarrow> 16 \<le> unat x \<and> unat x < 32" "x AND 0xf0 = 0xe0 \<longleftrightarrow> 224 \<le> unat x \<and> unat x < 240"
proof -
  have "(unat x :: nat) < 2 ^ LENGTH(8)" by (rule unsigned_less)
  then have "unat x \<in> set [0..<256]" by simp
  with byte_table have "((word_of_nat (unat x) :: 8 word) AND 0xf0 = 16) = (16 \<le> unat x \<and> unat x < 32) \<and>
      ((word_of_nat (unat x) :: 8 word) AND 0xf0 = 0xe0) = (224 \<le> unat x \<and> unat x < 240)"
    unfolding list_all_iff by blast
  then show "x AND 0xf0 = 16 \<longleftrightarrow> 16 \<le> unat x \<and> unat x < 32" "x AND 0xf0 = 0xe0 \<longleftrightarrow> 224 \<le> unat x \<and> unat x < 240"
    by simp_all
qed

definition octet :: "32 word \<Rightarrow> nat \<Rightarrow> nat" where "octet w i = unat (v4_byte w i)"

lemma byte_is: "v4_byte w i = n \<longleftrightarrow> octet w i = unat n"
  by (simp add: octet_def word_unat_eq_iff)

lemma ucast_push_or: "(ucast (push_bit 32 m OR ucast w :: 128 word) :: 32 word) = w" for w :: "32 word"
  by (rule bit_word_eqI) (auto simp: bit_simps)

lemma mapped_v4: "Unmap (V6 (push_bit 32 0xffff OR ucast w) zone) = V4 w"
proof -
  let ?m = "push_bit 32 0xffff OR ucast (w :: 32 word) :: 128 word"
  have "drop_bit 32 ?m = 0xffff"
    by (rule bit_word_eqI) (auto simp: bit_simps dest: bit_imp_le_length)
  moreover have "(ucast ?m :: 32 word) = w" by (rule ucast_push_or)
  ultimately show ?thesis by (simp only: Unmap.simps if_True refl)
qed

text \<open>
  The decision on IPv4 addresses: one passes when it is not 0.0.0.0 and lies outside 10/8, 127/8, 172.16/12, 192.168/16, 169.254/16 and
  224/4, and an IPv4-mapped IPv6 address passes when the IPv4 address does.
\<close>
lemma public_ipv4_decides:
  "publicAddress (V4 w) = (w \<noteq> 0 \<and> octet w 0 \<noteq> 10 \<and> octet w 0 \<noteq> 127 \<and> \<not> (octet w 0 = 172 \<and> 16 \<le> octet w 1 \<and> octet w 1 < 32) \<and>
     \<not> (octet w 0 = 192 \<and> octet w 1 = 168) \<and> \<not> (octet w 0 = 169 \<and> octet w 1 = 254) \<and> \<not> (224 \<le> octet w 0 \<and> octet w 0 < 240)) \<and>
   publicAddress (Unmap (V6 (push_bit 32 0xffff OR ucast w) zone)) = publicAddress (V4 w)"
proof -
  have "publicAddress (V4 w) = (w \<noteq> 0 \<and> octet w 0 \<noteq> 10 \<and> octet w 0 \<noteq> 127 \<and> \<not> (octet w 0 = 172 \<and> 16 \<le> octet w 1 \<and> octet w 1 < 32) \<and>
     \<not> (octet w 0 = 192 \<and> octet w 1 = 168) \<and> \<not> (octet w 0 = 169 \<and> octet w 1 = 254) \<and> \<not> (224 \<le> octet w 0 \<and> octet w 0 < 240))"
    by (auto simp: publicAddress_def byte_is byte_ranges octet_def [symmetric])
  then show ?thesis by (simp only: mapped_v4)
qed

text \<open>
  Some addresses that are no public targets pass: the shared range 100.64/10, which holds a metadata service, the reserved 240/4, and
  the addresses that a translator maps to IPv4, here 169.254.169.254 under 64:ff9b::/96.
\<close>

lemma unlisted_ranges_pass:
  "publicAddress (V4 0x64646464)" "publicAddress (V4 0x646464C8)" "publicAddress (V4 0xFFFFFFFF)"
  "publicAddress (Unmap (V6 (push_bit 96 0x0064ff9b OR 0xA9FEA9FE) ''''))"
  by (code_simp, code_simp, code_simp, code_simp)

section \<open>The policy is kept\<close>

lemma url_policy_Validate_sound:
  assumes "url_policy_Validate parse lookup policy raw = Inr u"
  obtains p as where "parse (trim_space raw) = Some p" "cu_Scheme p = ''https''" "\<not> cu_HasUser p" "lookup (url_host p) = Some as" "as \<noteq> []"
    "\<And>a. a \<in> set as \<Longrightarrow> publicAddress (Unmap a)" "pp_AllowedHosts policy \<noteq> [] \<longrightarrow> url_host p \<in> set (pp_AllowedHosts policy)"
    "vu_Host u = url_host p \<or> vu_Host u = JoinHostPort (url_host p) (url_Port (cu_Host p))"
    "vu_Path u = path_Clean (CHR ''/'' # drop_prefix (cu_EscapedPath p) ''/'')" "url_host p \<noteq> ''localhost''"
  using assms
  by (auto simp: url_policy_Validate_def Let_def list_ex_iff split: option.splits if_splits)

text \<open>
  The URL of a page lies on a host when it is the HTTPS URL of that host, alone or with a port number, and of a path: the host ends where the
  path begins.
\<close>

definition on_host :: "string \<Rightarrow> string \<Rightarrow> bool" where
  "on_host h url \<longleftrightarrow> (\<exists>host rest. (host = h \<or> (\<exists>p. list_all (\<lambda>d. digit_value d \<noteq> None) p \<and> host = JoinHostPort h p)) \<and> url = ''https://'' @ escape_host host @ CHR ''/'' # rest)"

text \<open>The URL of a redirect lies in the scope when it parses to an HTTPS URL without user on an allowed host.\<close>

definition in_scope :: "(string \<Rightarrow> crawl_url option) \<Rightarrow> PublicURLPolicy \<Rightarrow> string \<Rightarrow> bool" where
  "in_scope parse policy url = (case parse (trim_space url) of None \<Rightarrow> False
     | Some u \<Rightarrow> cu_Scheme u = ''https'' \<and> \<not> cu_HasUser u \<and> url_host u \<in> set (pp_AllowedHosts policy))"

lemma clean_slash: "\<exists>r. path_Clean q = CHR ''/'' # r"
  by (cases "rev (clean_segments [] (split_on CHR ''/'' q))") (auto simp: path_Clean_def Let_def)

lemma port_digits: "list_all (\<lambda>d. digit_value d \<noteq> None) (url_Port h)"
  by (auto simp: url_Port_def split_host_port_def valid_optional_port_def last_colon_def Let_def list_all_iff split: option.splits list.splits if_splits prod.splits)

lemma validated_on_host:
  assumes "url_policy_Validate parse lookup policy raw = Inr u" "pp_AllowedHosts policy \<noteq> []"
  shows "\<exists>h \<in> set (pp_AllowedHosts policy). on_host h (url_String u)"
proof -
  obtain p where p: "url_host p \<in> set (pp_AllowedHosts policy)" "vu_Host u = url_host p \<or> vu_Host u = JoinHostPort (url_host p) (url_Port (cu_Host p))"
      "vu_Path u = path_Clean (CHR ''/'' # drop_prefix (cu_EscapedPath p) ''/'')"
    by (rule url_policy_Validate_sound [OF assms(1)]) (use assms(2) in blast)
  obtain r where "vu_Path u = CHR ''/'' # r" using clean_slash p(3) by metis
  then have "escape_path (vu_Path u) = CHR ''/'' # escape_path r" by (simp add: escape_path_def escape_with_def)
  then have "on_host (url_host p) (url_String u)" using p(2) port_digits [of "cu_Host p"] unfolding on_host_def url_String_def by auto
  with p(1) show ?thesis by blast
qed

lemma dialled_public: "dial_address lookup host = Inr a \<Longrightarrow> publicAddress (Unmap a)"
  by (auto simp: dial_address_def list_ex_iff split: option.splits if_splits dest: bspec [OF _ hd_in_set])

lemma redirect_in_scope:
  assumes "redirect_Check parse lookup policy limit next via = None" "pp_AllowedHosts policy \<noteq> []"
  shows "in_scope parse policy next"
proof -
  obtain u where v: "url_policy_Validate parse lookup policy next = Inr u"
    using assms(1) by (auto simp: redirect_Check_def Let_def split: if_splits sum.splits)
  show ?thesis by (rule url_policy_Validate_sound [OF v]) (use assms(2) in \<open>simp add: in_scope_def\<close>)
qed

text \<open>Every request goes to a public address, the first one to the URL asked for and every other one to a URL in the scope.\<close>

lemma client_Do_sent:
  assumes "client_Do env policy step via n url = (sent, outcome)" "pp_AllowedHosts policy \<noteq> []"
  shows "list_all (\<lambda>(u, a). publicAddress (Unmap a)) sent \<and> list_all (\<lambda>(u, a). u = url \<or> in_scope (ce_parse env) policy u) sent \<and>
    (sent = [] \<or> fst (hd sent) = url \<and> list_all (\<lambda>(u, a). in_scope (ce_parse env) policy u) (tl sent))"
  using assms(1)
proof (induction n arbitrary: via url sent outcome)
  case (Suc n)
  show ?case
  proof (cases "ce_parse env url")
    case (Some u)
    show ?thesis
    proof (cases "dial_address (ce_lookup env step (2 * via + 1)) (url_Hostname (cu_Host u))")
      case (Inr a)
      note pub = dialled_public [OF Inr]
      show ?thesis
      proof (cases "ce_exchange env step via url")
        case (RedirectTo target)
        show ?thesis
        proof (cases "redirect_Check (ce_parse env) (ce_lookup env step (2 * via + 2)) policy 5 target (via + 1)")
          case None
          obtain sent' outcome' where r: "client_Do env policy step (via + 1) n target = (sent', outcome')" by fastforce
          have "sent = (url, a) # sent'" using Suc.prems Some Inr RedirectTo None r by simp
          moreover have "in_scope (ce_parse env) policy target" by (rule redirect_in_scope [OF None assms(2)])
          ultimately show ?thesis using Suc.IH [OF r] pub by (auto simp: list_all_iff)
        qed (use Suc.prems Some Inr RedirectTo pub in auto)
      qed (use Suc.prems Some Inr pub in auto)
    qed (use Suc.prems Some in auto)
  qed (use Suc.prems in auto)
qed simp

lemma answered_sent: "client_Do env policy step via n url = (sent, Inr r) \<Longrightarrow> sent \<noteq> []"
  by (cases n) (auto simp: Let_def split: option.splits sum.splits exchange.splits prod.splits)

text \<open>
  How a page was fetched: its URL lies on an allowed host, its body is the whole body of the answer, every request on the way went to a
  public address, the first one to the URL of the page, and every redirect that was followed leads to an allowed host.
\<close>

definition fetched_in_scope :: "crawl_env \<Rightarrow> PublicURLPolicy \<Rightarrow> CrawlPage \<Rightarrow> bool" where
  "fetched_in_scope env policy p \<longleftrightarrow> (\<exists>h \<in> set (pp_AllowedHosts policy). on_host h (cp_URL p)) \<and>
     (\<exists>step a redirects r. client_Do env policy step 0 5 (cp_URL p) = ((cp_URL p, a) # redirects, Inr r) \<and> cp_Body p = rp_Body r \<and>
       publicAddress (Unmap a) \<and> list_all (\<lambda>(u, b). in_scope (ce_parse env) policy u \<and> publicAddress (Unmap b)) redirects)"

lemma page_in_scope:
  assumes "url_policy_Validate parse lookup policy raw = Inr u" "pp_AllowedHosts policy \<noteq> []"
    and "snd (client_Do env policy step 0 5 (url_String u)) = Inr r" "readPage env r u depth sz now = Inr p"
  shows "fetched_in_scope env policy p"
proof -
  obtain sent where sent: "client_Do env policy step 0 5 (url_String u) = (sent, Inr r)" using assms(3) by (metis prod.collapse)
  have p: "cp_URL p = url_String u" "cp_Body p = rp_Body r" using assms(4) by (auto simp: readPage_def Let_def split: if_splits)
  obtain x redirects where x: "sent = x # redirects" using answered_sent [OF sent] by (cases sent) auto
  note s = client_Do_sent [OF sent assms(2), unfolded x]
  obtain a where a: "x = (cp_URL p, a)" using s p(1) by (cases x) simp
  have "client_Do env policy step 0 5 (cp_URL p) = ((cp_URL p, a) # redirects, Inr r)" using sent p(1) x a by simp
  moreover have "publicAddress (Unmap a)" "list_all (\<lambda>(u, b). in_scope (ce_parse env) policy u \<and> publicAddress (Unmap b)) redirects"
    using s a by (auto simp: list_all_iff)
  ultimately show ?thesis unfolding fetched_in_scope_def using validated_on_host [OF assms(1,2)] p by metis
qed

section \<open>The crawl is bounded\<close>

lemma budget_Accept_facts:
  assumes "budget_Accept b host depth sz m = (b', None)"
  shows "cb_Limits b' = cb_Limits b" "cb_Pages b' = wrap64 (cb_Pages b + 1)" "cb_Pages b' \<le> cl_MaxPages (cb_Limits b)"
    "depth \<le> cl_MaxDepth (cb_Limits b)" "sz \<le> cl_MaxPageBytes (cb_Limits b)" "cb_Bytes b' = wrap64 (cb_Bytes b + sz)"
    "cb_Bytes b' \<le> cl_MaxTotalBytes (cb_Limits b)" "m \<in> set (cl_MediaTypes (cb_Limits b))"
  using assms by (auto simp: budget_Accept_def Let_def split: if_splits)

definition page_bytes :: "CrawlPage list \<Rightarrow> int" where
  "page_bytes ps = sum_list (map (\<lambda>p. int (length (cp_Body p))) ps)"

definition within_limits :: "CrawlLimits \<Rightarrow> CrawlPage list \<Rightarrow> bool" where
  "within_limits l ps \<longleftrightarrow> int (length ps) \<le> cl_MaxPages l \<and> page_bytes ps \<le> cl_MaxTotalBytes l \<and> distinct (map cp_URL ps) \<and>
     list_all (\<lambda>p. cp_Depth p \<le> cl_MaxDepth l \<and> int (length (cp_Body p)) \<le> cl_MaxPageBytes l \<and> cp_MediaType p \<in> set (cl_MediaTypes l)) ps"

definition crawl_ok :: "crawl_env \<Rightarrow> PublicURLPolicy \<Rightarrow> CrawlLimits \<Rightarrow> crawl_state \<Rightarrow> bool" where
  "crawl_ok env policy l s \<longleftrightarrow> cb_Limits (cs_budget s) = l \<and> cb_Pages (cs_budget s) = int (length (cs_pages s)) \<and>
     cb_Bytes (cs_budget s) = page_bytes (cs_pages s) \<and> within_limits l (cs_pages s) \<and> cp_URL ` set (cs_pages s) \<subseteq> set (cs_seen s) \<and>
     (\<forall>p \<in> set (cs_pages s). fetched_in_scope env policy p)"

lemma page_bytes_nonneg: "0 \<le> page_bytes ps"
  by (induction ps) (auto simp: page_bytes_def)

lemma crawl_turn_cases:
  assumes "crawl_turn env policy l s = Inr t"
  obtains (skip) "cs_pages t = cs_pages s" "cs_budget t = cs_budget s" "cs_seen t = cs_seen s" "cs_queue t = tl (cs_queue s)"
  | (page) u b page raw r depth where "url_policy_Validate (ce_parse env) (ce_lookup env (cs_step s) 0) policy raw = Inr u" "url_String u \<notin> set (cs_seen s)"
      "cs_pages t = cs_pages s @ [page]" "cs_budget t = b" "cs_seen t = url_String u # cs_seen s" "cp_URL page = url_String u"
      "budget_Accept (cs_budget s) (url_Hostname (vu_Host u)) (cp_Depth page) (int (length (cp_Body page))) (cp_MediaType page) = (b, None)"
      "snd (client_Do env policy (cs_step s) 0 5 (url_String u)) = Inr r" "readPage env r u depth (cl_MaxPageBytes l) (ce_now env (cs_step s)) = Inr page"
proof -
  obtain raw depth where q: "hd (cs_queue s) = (raw, depth)" by fastforce
  from assms obtain u where v: "url_policy_Validate (ce_parse env) (ce_lookup env (cs_step s) 0) policy raw = Inr u"
    by (auto simp: crawl_turn_def q Let_def result_simps split: if_splits)
  show thesis
  proof (cases "url_String u \<in> set (cs_seen s)")
    case True
    then have "t = s\<lparr>cs_queue := tl (cs_queue s), cs_step := cs_step s + 1\<rparr>" using assms v by (auto simp: crawl_turn_def q Let_def split: if_splits)
    then show thesis using skip by simp
  next
    case False
    from assms v False obtain r pg where r: "snd (client_Do env policy (cs_step s) 0 5 (url_String u)) = Inr r"
      and pg: "readPage env r u depth (cl_MaxPageBytes l) (ce_now env (cs_step s)) = Inr pg"
      by (auto simp: crawl_turn_def q Let_def result_simps split: if_splits option.splits bool.splits)
    obtain b e where b: "budget_Accept (cs_budget s) (url_Hostname (vu_Host u)) depth (int (length (cp_Body pg))) (cp_MediaType pg) = (b, e)"
      by fastforce
    have f: "cp_URL pg = url_String u" "cp_Depth pg = depth" using pg by (auto simp: readPage_def Let_def split: if_splits)
    from assms v False r pg b have "e = None" "cs_pages t = cs_pages s @ [pg]" "cs_budget t = b" "cs_seen t = url_String u # cs_seen s"
      by (auto simp: crawl_turn_def q Let_def split: if_splits option.splits bool.splits)
    with page [OF v False, of pg b r depth] f b r pg show thesis by simp
  qed
qed

lemma crawl_turn_ok:
  assumes ok: "crawl_ok env policy l s" and l: "cl_MaxPages l \<le> 10000" "cl_MaxTotalBytes l + cl_MaxPageBytes l \<le> max_int64"
    and hosts: "pp_AllowedHosts policy \<noteq> []" and turn: "crawl_turn env policy l s = Inr t"
  shows "crawl_ok env policy l t" "cs_queue s \<noteq> [] \<Longrightarrow> length (cs_pages t) = length (cs_pages s) + 1 \<or>
    (length (cs_pages t) = length (cs_pages s) \<and> length (cs_queue t) < length (cs_queue s))"
proof -
  from turn have "crawl_ok env policy l t \<and> (cs_queue s \<noteq> [] \<longrightarrow> length (cs_pages t) = length (cs_pages s) + 1 \<or>
    (length (cs_pages t) = length (cs_pages s) \<and> length (cs_queue t) < length (cs_queue s)))"
  proof (cases rule: crawl_turn_cases)
    case skip
    then show ?thesis using ok by (auto simp: crawl_ok_def)
  next
    case (page u b page raw r depth)
    note a = budget_Accept_facts [OF page(7)]
    have s: "cb_Limits (cs_budget s) = l" "cb_Pages (cs_budget s) = int (length (cs_pages s))" "cb_Bytes (cs_budget s) = page_bytes (cs_pages s)"
      "int (length (cs_pages s)) \<le> cl_MaxPages l" "page_bytes (cs_pages s) \<le> cl_MaxTotalBytes l"
      using ok by (auto simp: crawl_ok_def within_limits_def)
    have "is_int64 (int (length (cs_pages s)) + 1)" using s(4) l(1) by (simp add: int64_defs)
    then have n: "cb_Pages b = int (length (cs_pages s)) + 1" using a(2) s(2) by simp
    have "is_int64 (page_bytes (cs_pages s) + int (length (cp_Body page)))"
      using s(1,5) l(2) a(5) page_bytes_nonneg [of "cs_pages s"] by (simp add: is_int64_def min_int64_def)
    then have bts: "cb_Bytes b = page_bytes (cs_pages s) + int (length (cp_Body page))" using a(6) s(3) by simp
    have "within_limits l (cs_pages t)"
      using ok a n bts s(1) page(2,6) by (auto simp: crawl_ok_def within_limits_def page(3) page_bytes_def)
    moreover have "fetched_in_scope env policy page" by (rule page_in_scope [OF page(1) hosts page(8,9)])
    ultimately show ?thesis
      using ok a(1) n bts page(6) by (auto simp: crawl_ok_def page(3,4,5) page_bytes_def)
  qed
  then show "crawl_ok env policy l t" "cs_queue s \<noteq> [] \<Longrightarrow> length (cs_pages t) = length (cs_pages s) + 1 \<or>
    (length (cs_pages t) = length (cs_pages s) \<and> length (cs_queue t) < length (cs_queue s))" by auto
qed

lemma crawl_loop_ends:
  assumes "cl_MaxPages l \<le> 10000" "cl_MaxTotalBytes l + cl_MaxPageBytes l \<le> max_int64" "pp_AllowedHosts policy \<noteq> []" "crawl_ok env policy l s"
  shows "\<exists>ps e. crawl_loop env policy l s = Some (ps, e) \<and> within_limits l ps \<and> (\<forall>p \<in> set ps. fetched_in_scope env policy p)"
  using assms(4)
proof (induction s rule: wf_induct_rule [OF wf_inv_image [OF wf_lex_prod [OF wf_less wf_less],
      of "\<lambda>s. (nat (cl_MaxPages l - int (length (cs_pages s))), length (cs_queue s))"]])
  case (1 s)
  show ?case
  proof (cases "cs_queue s = []")
    case True
    then show ?thesis using 1(2) by (simp add: crawl_loop.simps [of env policy l s] crawl_ok_def)
  next
    case False
    show ?thesis
    proof (cases "crawl_turn env policy l s")
      case (Inl e)
      then show ?thesis using 1(2) False by (simp add: crawl_loop.simps [of env policy l s] crawl_ok_def)
    next
      case (Inr t)
      note ok = crawl_turn_ok [OF 1(2) assms(1,2,3) Inr]
      have "int (length (cs_pages t)) \<le> cl_MaxPages l" using ok(1) by (simp add: crawl_ok_def within_limits_def)
      with ok(2) [OF False] have "(t, s) \<in> inv_image ({(x, y). x < y} <*lex*> {(x, y). x < y})
          (\<lambda>s. (nat (cl_MaxPages l - int (length (cs_pages s))), length (cs_queue s)))" by auto
      from 1(1) [OF this ok(1)] show ?thesis using False Inr by (simp add: crawl_loop.simps [of env policy l s])
    qed
  qed
qed

lemma canonical_roots_length: "canonical_roots env base i rs = Inr us \<Longrightarrow> length us = length rs"
  by (induction env base i rs arbitrary: us rule: canonical_roots.induct) (auto simp: result_simps)

lemma crawl_unfold:
  assumes "crawlPolicy env base roots = Inr (policy, cs)" "crawl_limits_Validate limits = None" "roots \<noteq> []"
    "cl_MaxTotalBytes limits + cl_MaxPageBytes limits \<le> max_int64"
  shows "\<exists>ps e. Crawl env base limits roots = Some (ps, e) \<and> within_limits limits ps \<and>
    (\<forall>p \<in> set ps. fetched_in_scope env policy p)"
proof -
  let ?s = "\<lparr>cs_queue = map (\<lambda>r. (r, 0)) cs, cs_seen = [], cs_budget = \<lparr>cb_Limits = limits, cb_Domains = [], cb_Pages = 0, cb_Bytes = 0\<rparr>,
    cs_pages = [], cs_first = True, cs_step = 1\<rparr>"
  from assms(2) have l: "1 \<le> cl_MaxPages limits" "cl_MaxPages limits \<le> 10000" "0 \<le> cl_MaxTotalBytes limits"
    by (auto simp: crawl_limits_Validate_def split: if_splits)
  from assms(1,3) have "pp_AllowedHosts policy \<noteq> []"
    by (auto simp: crawlPolicy_def result_simps dest: canonical_roots_length)
  moreover have "crawl_ok env policy limits ?s" using l by (simp add: crawl_ok_def within_limits_def page_bytes_def)
  ultimately show ?thesis using crawl_loop_ends [OF l(2) assms(4), where policy = policy and s = ?s and env = env] assms(1-3) by (simp add: Crawl_def)
qed

text \<open>
  C24: A crawl ends, whatever the servers answer and however the pages link to each other, and it keeps to its limits: it returns at most
  as many pages as allowed, no URL twice, no page too deep, too large or of another media type, and no more bytes in all than allowed.
\<close>
theorem crawl_ends_within_limits:
  assumes "cl_MaxTotalBytes limits + cl_MaxPageBytes limits \<le> max_int64"
  shows "\<exists>ps e. Crawl env base limits roots = Some (ps, e) \<and> (if ps = [] then True else within_limits limits ps)"
proof (cases "crawl_limits_Validate limits = None \<and> roots \<noteq> []")
  case True
  show ?thesis
  proof (cases "crawlPolicy env base roots")
    case (Inl e)
    then show ?thesis using True by (simp add: Crawl_def)
  next
    case (Inr pc)
    then obtain policy cs where "crawlPolicy env base roots = Inr (policy, cs)" by (cases pc) auto
    moreover have "crawl_limits_Validate limits = None" "roots \<noteq> []" using True by simp_all
    ultimately show ?thesis using crawl_unfold [OF _ _ _ assms, of env base roots policy cs] by fastforce
  qed
qed (auto simp: Crawl_def)


section \<open>Escaped paths\<close>

lemma escape_append [simp]: "escape_with al (a @ b) = escape_with al a @ escape_with al b"
  by (simp add: escape_with_def)

lemma escape_Nil [simp]: "escape_with al [] = []"
  by (simp add: escape_with_def)

lemma escape_Cons: "escape_with al (c # s) = (if unreserved c \<or> c \<in> set al then [c]
    else [CHR ''%'', path_hex ((of_char c :: nat) div 16), path_hex ((of_char c :: nat) mod 16)]) @ escape_with al s"
  by (simp add: escape_with_def)

lemma escape_length: "length s \<le> length (escape_with al s)"
  by (induction s) (auto simp: escape_Cons)

lemma escape_longer: "CHR ''%'' \<in> set s \<Longrightarrow> CHR ''%'' \<notin> set al \<Longrightarrow> length s < length (escape_with al s)"
proof (induction s)
  case (Cons c s)
  have "\<not> unreserved CHR ''%''" by code_simp
  then show ?case using Cons escape_length [of s al] by (auto simp: escape_Cons)
qed simp

lemma escape_percent: "escape_with al s = s \<or> CHR ''%'' \<in> set (escape_with al s)"
  by (induction s) (auto simp: escape_Cons)

lemma upper_hex_no_slash: "d < 16 \<Longrightarrow> path_hex d \<noteq> CHR ''/''"
proof -
  have "list_all (\<lambda>d. path_hex d \<noteq> CHR ''/'') [0..<16]" by code_simp
  then show "d < 16 \<Longrightarrow> path_hex d \<noteq> CHR ''/''" by (auto simp: list_all_iff)
qed

lemma escape_no_slash: "CHR ''/'' \<notin> set s \<Longrightarrow> CHR ''/'' \<notin> set (escape_path s)"
proof (induction s)
  case (Cons c s)
  have "(of_char c :: nat) div 16 < 16" using nat_of_char_less_256 [of c] by linarith
  then show ?case using Cons upper_hex_no_slash [of "of_char c div 16"] upper_hex_no_slash [of "of_char c mod 16"]
    by (auto simp: escape_path_def escape_Cons dest: sym)
qed (simp add: escape_path_def)

definition proper_segment :: "string \<Rightarrow> bool" where
  "proper_segment s \<longleftrightarrow> s \<noteq> '''' \<and> s \<noteq> ''.'' \<and> s \<noteq> ''..'' \<and> CHR ''/'' \<notin> set s"

lemma escape_proper: "proper_segment s \<Longrightarrow> proper_segment (escape_path s)"
  using escape_percent [of "''$&+,/:;=@''" s] escape_no_slash [of s] escape_length [of s "''$&+,/:;=@''"]
  by (auto simp: proper_segment_def escape_path_def)

lemma clean_segments_proper:
  "list_all proper_segment stack \<Longrightarrow> list_all (\<lambda>s. CHR ''/'' \<notin> set s) ss \<Longrightarrow> list_all proper_segment (clean_segments stack ss)"
proof (induction stack ss rule: clean_segments.induct)
  case (2 stack s rest)
  have "list_all proper_segment (tl stack)" using 2(4) by (cases stack) auto
  with 2 show ?case by (auto simp: proper_segment_def [of s])
qed simp

lemma split_on_no_char: "list_all (\<lambda>s. c \<notin> set s) (split_on c p)"
  by (induction p) (auto split: list.splits)

lemma clean_proper: "list_all proper_segment ss \<Longrightarrow> clean_segments stack ss = rev ss @ stack"
  by (induction ss arbitrary: stack) (auto simp: proper_segment_def)

lemma split_joined: "list_all (\<lambda>s. CHR ''/'' \<notin> set s) ss \<Longrightarrow> split_on CHR ''/'' (concat (map (\<lambda>s. CHR ''/'' # s) ss)) = '''' # ss"
proof (induction ss)
  case (Cons s ss)
  have "split_on CHR ''/'' (s @ r) = (s @ hd (split_on CHR ''/'' r)) # tl (split_on CHR ''/'' r)" for r
    using Cons.prems by (induction s) (auto split: list.splits)
  with Cons show ?case by simp
qed simp

lemma escape_joined: "escape_path (concat (map (\<lambda>s. CHR ''/'' # s) ss)) = concat (map (\<lambda>s. CHR ''/'' # s) (map escape_path ss))"
  by (induction ss) (auto simp: escape_path_def escape_Cons)

lemma clean_escape_clean: "path_Clean (escape_path (path_Clean q)) = escape_path (path_Clean q)"
proof -
  define ss where "ss = rev (clean_segments [] (split_on CHR ''/'' q))"
  have p: "list_all proper_segment ss"
    using clean_segments_proper [of "[]" "split_on CHR ''/'' q"] split_on_no_char by (simp add: ss_def list_all_iff)
  show ?thesis
  proof (cases "ss = []")
    case True
    then have "path_Clean q = ''/''" by (simp add: path_Clean_def ss_def)
    moreover have "path_Clean (escape_path ''/'') = escape_path ''/''" by code_simp
    ultimately show ?thesis by simp
  next
    case False
    then have q: "path_Clean q = concat (map (\<lambda>s. CHR ''/'' # s) ss)" by (simp add: path_Clean_def ss_def Let_def)
    have p': "list_all proper_segment (map escape_path ss)" using p escape_proper by (auto simp: list_all_iff)
    then have "split_on CHR ''/'' (concat (map (\<lambda>s. CHR ''/'' # s) (map escape_path ss))) = '''' # map escape_path ss"
      by (intro split_joined) (auto simp: list_all_iff proper_segment_def)
    then have "clean_segments [] (split_on CHR ''/'' (concat (map (\<lambda>s. CHR ''/'' # s) (map escape_path ss)))) = rev (map escape_path ss)"
      using clean_proper [OF p', of "[]"] by (simp only: clean_segments.simps append_Nil2 if_True simp_thms)
    then show ?thesis using False unfolding q escape_joined path_Clean_def [of "concat (map (\<lambda>s. CHR ''/'' # s) (map escape_path ss))"] by simp
  qed
qed

text \<open>
  Validating the URL that a validation returned is not the identity: the returned path is the escaped one, which is escaped once
  more in its string. When the path has a percent sign, the second validation, which a crawl makes of its own roots, returns a longer
  path, of another resource.
\<close>
theorem validation_escapes_twice:
  assumes "url_policy_Validate parse lookup policy raw = Inr u" "CHR ''%'' \<in> set (vu_Path u)"
    and "parse (trim_space (url_String u)) = Some p" "cu_EscapedPath p = escape_path (vu_Path u)"
    and "url_policy_Validate parse lookup' policy (url_String u) = Inr u'"
  shows "vu_Path u' = escape_path (vu_Path u) \<and> length (vu_Path u) < length (vu_Path u') \<and> CHR ''%'' \<in> set (vu_Path u')"
proof -
  obtain q where q: "vu_Path u = path_Clean q" using url_policy_Validate_sound [OF assms(1)] by metis
  have "vu_Path u' = path_Clean (CHR ''/'' # drop_prefix (escape_path (vu_Path u)) ''/'')"
    using url_policy_Validate_sound [OF assms(5)] assms(3,4) by (metis option.inject)
  also have "CHR ''/'' # drop_prefix (escape_path (vu_Path u)) ''/'' = escape_path (vu_Path u)"
  proof -
    obtain r where "path_Clean q = CHR ''/'' # r" by (cases "rev (clean_segments [] (split_on CHR ''/'' q))") (auto simp: path_Clean_def Let_def)
    then show ?thesis by (simp add: q escape_path_def escape_Cons drop_prefix_def)
  qed
  finally have u': "vu_Path u' = escape_path (vu_Path u)" by (simp add: q clean_escape_clean)
  moreover have "length (vu_Path u) < length (escape_path (vu_Path u))" unfolding escape_path_def by (rule escape_longer) (use assms(2) in simp_all)
  moreover have "CHR ''%'' \<in> set (escape_path (vu_Path u))" using escape_percent [of "''$&+,/:;=@''" "vu_Path u"] assms(2) by (auto simp: escape_path_def)
  ultimately show ?thesis by simp
qed

section \<open>Bounded tasks\<close>

abbreviation bounded_run :: "nat \<Rightarrow> (nat \<Rightarrow> string option) \<Rightarrow> nat \<Rightarrow> bounded_tasks \<Rightarrow> bool" where
  "bounded_run limit outcome n b \<equiv> (bounded_step limit outcome n)\<^sup>*\<^sup>* (bounded_init n) b"

definition bounded_ok :: "nat \<Rightarrow> (nat \<Rightarrow> string option) \<Rightarrow> nat \<Rightarrow> bounded_tasks \<Rightarrow> bool" where
  "bounded_ok limit outcome n b \<longleftrightarrow> length (bt_running b) \<le> limit \<and> distinct (bt_running b) \<and> set (bt_running b) \<subseteq> {..<bt_next b} \<and>
     bt_next b \<le> n \<and> length (bt_errs b) = n \<and>
     (\<forall>i < n. bt_errs b ! i = (if i < bt_next b \<and> i \<notin> set (bt_running b) then outcome i else None))"

lemma bounded_run_ok: "bounded_run limit outcome n b \<Longrightarrow> bounded_ok limit outcome n b"
proof (induction rule: rtranclp_induct)
  case base
  show ?case by (simp add: bounded_ok_def bounded_init_def)
next
  case (step b c)
  from step(2,3) show ?case
  proof (cases rule: bounded_step.cases)
    case bounded_start
    then show ?thesis using step(3) by (auto simp: bounded_ok_def less_Suc_eq)
  next
    case bounded_stop
    then show ?thesis using step(3) by (simp add: bounded_ok_def)
  next
    case (bounded_end i)
    have b: "distinct (bt_running b)" "set (bt_running b) \<subseteq> {..<bt_next b}" "bt_next b \<le> n" using step(3) by (auto simp: bounded_ok_def)
    have "length (remove1 i (bt_running b)) \<le> limit" using step(3) by (auto simp: bounded_ok_def length_remove1)
    then show ?thesis using bounded_end step(3) b by (auto simp: bounded_ok_def nth_list_update set_remove1_eq)
  qed
qed

text \<open>
  Whatever the order in which tasks end, no more of them run at once than the limit, none runs twice, and no task of an earlier place
  is left behind; a run that was not cancelled and is over has started every task and joins exactly the errors of those that failed.
\<close>
theorem bounded_tasks_sound:
  assumes "bounded_run limit outcome n b"
  shows "length (bt_running b) \<le> limit \<and> distinct (bt_running b) \<and> list_all (\<lambda>i. i < bt_next b) (bt_running b) \<and>
    (if bt_running b = [] \<and> bt_next b = n \<and> \<not> bt_stopped b
     then bounded_outcome b ctxErr = compact_errors (map outcome [0..<n]) else True)"
proof -
  note ok = bounded_run_ok [OF assms, unfolded bounded_ok_def]
  have "bt_errs b = map outcome [0..<n]" if "bt_running b = []" "bt_next b = n"
    using ok that by (intro nth_equalityI) auto
  then show ?thesis using ok by (auto simp: bounded_outcome_def list_all_iff)
qed

theorem bounded_tasks_sound_witness:
  "\<exists>b. bounded_run 1 (\<lambda>i. if i = 0 then Some ''e'' else None) 2 b \<and> bounded_outcome b ''c'' = [''e'']"
proof -
  let ?o = "\<lambda>i::nat. if i = 0 then Some ''e'' else None"
  let ?b = "\<lambda>next running errs. \<lparr>bt_next = next, bt_running = running, bt_errs = errs, bt_stopped = False\<rparr>"
  have "bounded_step 1 ?o 2 (?b 0 [] [None, None]) (?b 1 [0] [None, None])"
    using bounded_start [of "?b 0 [] [None, None]" 2 1 ?o] by simp
  moreover have "bounded_step 1 ?o 2 (?b 1 [0] [None, None]) (?b 1 [] [Some ''e'', None])"
    using bounded_end [of 0 "?b 1 [0] [None, None]" 1 ?o 2] by simp
  moreover have "bounded_step 1 ?o 2 (?b 1 [] [Some ''e'', None]) (?b 2 [1] [Some ''e'', None])"
    using bounded_start [of "?b 1 [] [Some ''e'', None]" 2 1 ?o] by (simp add: numeral_2_eq_2)
  moreover have "bounded_step 1 ?o 2 (?b 2 [1] [Some ''e'', None]) (?b 2 [] [Some ''e'', None])"
    using bounded_end [of 1 "?b 2 [1] [Some ''e'', None]" 1 ?o 2] by simp
  ultimately have run: "bounded_run 1 ?o 2 (?b 2 [] [Some ''e'', None])"
    by (simp add: bounded_init_def numeral_2_eq_2)
  from bounded_tasks_sound [OF run, of "''c''"] have "bounded_outcome (?b 2 [] [Some ''e'', None]) ''c'' = compact_errors (map ?o [0..<2])"
    by (auto split: if_splits)
  then show ?thesis using run by (auto simp: compact_errors_def upt_rec)
qed

section \<open>Concrete crawls\<close>

definition sample_url :: "string \<Rightarrow> crawl_url option" where
  "sample_url raw = (if prefix ''https://h/'' raw
     then Some \<lparr>cu_Scheme = ''https'', cu_Host = ''h'', cu_HasUser = False, cu_EscapedPath = drop 9 raw, cu_Query = '''', cu_Fragment = ''''\<rparr>
     else None)"

definition sample_crawl :: crawl_env where
  "sample_crawl = \<lparr>ce_parse = sample_url, ce_lookup = (\<lambda>i j h. Some [V4 0x08080808]),
     ce_exchange = (\<lambda>i j u. Answer \<lparr>rp_Status = 200, rp_ContentType = ''text/html'', rp_Body = ''x''\<rparr>), ce_robots = (\<lambda>i u. Some True),
     ce_cancelled = (\<lambda>i. False), ce_wait_cancelled = (\<lambda>i. False), ce_now = (\<lambda>i. Time 5 UTC), ce_links = (\<lambda>u b. [])\<rparr>"

definition open_policy :: PublicURLPolicy where
  "open_policy = \<lparr>pp_AllowedPorts = [], pp_AllowedHosts = []\<rparr>"

definition sample_limits :: CrawlLimits where
  "sample_limits = \<lparr>cl_MaxDomains = 1, cl_MaxDepth = 1, cl_MaxPages = 5, cl_MaxPageBytes = 10, cl_MaxTotalBytes = 50,
     cl_RequestsPerMinute = 60, cl_MediaTypes = [''text/html'']\<rparr>"

theorem crawl_ends_within_limits_witness:
  "\<exists>ps e. Crawl sample_crawl open_policy sample_limits [''https://h/a''] = Some (ps, e) \<and> (if ps = [] then True else within_limits sample_limits ps)"
  by (rule crawl_ends_within_limits) (simp add: sample_limits_def int64_defs)

lemma sample_validation:
  "url_policy_Validate sample_url (\<lambda>h. Some [V4 0x08080808]) open_policy ''https://h/a%20b'' = Inr \<lparr>vu_Host = ''h'', vu_Path = ''/a%20b'', vu_Query = ''''\<rparr>"
  by code_simp

theorem validation_escapes_twice_witness:
  "\<exists>u u'. url_policy_Validate sample_url (\<lambda>h. Some [V4 0x08080808]) open_policy ''https://h/a%20b'' = Inr u \<and>
     url_policy_Validate sample_url (\<lambda>h. Some [V4 0x08080808]) open_policy (url_String u) = Inr u' \<and> vu_Path u' = ''/a%2520b''"
proof -
  let ?u = "\<lparr>vu_Host = ''h'', vu_Path = ''/a%20b'', vu_Query = ''''\<rparr>" and ?u' = "\<lparr>vu_Host = ''h'', vu_Path = ''/a%2520b'', vu_Query = ''''\<rparr>"
  have v: "url_policy_Validate sample_url (\<lambda>h. Some [V4 0x08080808]) open_policy (url_String ?u) = Inr ?u'" by code_simp
  have p: "sample_url (trim_space (url_String ?u)) = Some \<lparr>cu_Scheme = ''https'', cu_Host = ''h'', cu_HasUser = False,
      cu_EscapedPath = ''/a%2520b'', cu_Query = '''', cu_Fragment = ''''\<rparr>" by code_simp
  have "escape_path ''/a%20b'' = ''/a%2520b''" by code_simp
  with validation_escapes_twice [OF sample_validation _ p _ v] have "vu_Path ?u' = ''/a%2520b''" by simp
  with sample_validation v show ?thesis by blast
qed

end
