(* ===== verification/ProjectStore.thy ===== *)
theory ProjectStore
  imports JobStore
begin

text \<open>
  \<open>internal/platform/projectstore\<close>: registration, the project lifecycle, repositories, sources, associations and the jobs they queue.
  A table is a list of rows with the constraints of the migrations; a transaction is a function whose error leaves the database as it
  was. \<open>sha256\<close> and the parser of URLs are arguments; \<open>ids\<close> are the identifiers that the source issues next, \<open>now\<close> the clock of the
  process and \<open>dbnow\<close> that of the database. The operations on jobs are in \<open>JobStore\<close>, the rules they apply in \<open>Project\<close>.
\<close>

section \<open>Tables\<close>

datatype projectstore_error = PsProject project_error | PsAccess access_error | PsJob job_error | PsJobs jobstore_error | PsIDs | PsConstraint

text \<open>A row of \<open>projects\<close>; the lists of its value are empty.\<close>

record stored_project =
  pw_Project :: Project
  pw_UpdatedAt :: gotime
  pw_UnavailableAt :: "gotime option"
  pw_DeletionActor :: "int64 option"
  pw_DeletionReason :: string

record correction_row =
  cw_ID :: int64
  cw_AssociationID :: int64
  cw_Action :: string
  cw_From :: int64
  cw_To :: "int64 option"
  cw_Reason :: string
  cw_ActorID :: int64

record key_row =
  kw_Workspace :: int64
  kw_Actor :: int64
  kw_Key :: string
  kw_Digest :: string
  kw_Resource :: int64
  kw_JobID :: int64

record catalog_row =
  gw_ID :: int64
  gw_Name :: string
  gw_Slug :: string
  gw_Description :: string
  gw_State :: ProjectState

record project_audit =
  ww_ID :: int64
  ww_ActorID :: int64
  ww_Action :: string
  ww_ResourceID :: int64
  ww_RequestID :: string

record project_db =
  pt_jobs :: job_db
  pt_projects :: "stored_project list"
  pt_repositories :: "Repository list"
  pt_sources :: "source_row list"
  pt_associations :: "Association list"
  pt_corrections :: "correction_row list"
  pt_keys :: "key_row list"
  pt_catalog :: "catalog_row list"
  pt_audit :: "project_audit list"

record Registration =
  rg_Project :: Project
  rg_Job :: Job
  rg_Replay :: bool

record ProjectFilter =
  pf_State :: string
  pf_Query :: string
  pf_Kind :: string
  pf_Limit :: int
  pf_Offset :: int

definition no_filter :: ProjectFilter where
  "no_filter = \<lparr>pf_State = '''', pf_Query = '''', pf_Kind = '''', pf_Limit = 0, pf_Offset = 0\<rparr>"

definition store_page :: "int \<Rightarrow> int \<Rightarrow> int \<times> int" where
  "store_page limit offset = ((if limit \<le> 0 \<or> limit > 100 then 50 else limit), (if offset < 0 then 0 else offset))"

definition paged :: "ProjectFilter \<Rightarrow> 'a list \<Rightarrow> 'a list" where
  "paged f xs = (let (limit, offset) = store_page (pf_Limit f) (pf_Offset f) in take (nat (limit + 1)) (drop (nat offset) xs))"

definition row_of_project :: "project_db \<Rightarrow> int64 \<Rightarrow> int64 \<Rightarrow> stored_project option" where
  "row_of_project db ws i = find (\<lambda>r. pj_ID (pw_Project r) = i \<and> pj_WorkspaceID (pw_Project r) = ws) (pt_projects db)"

definition set_project :: "project_db \<Rightarrow> int64 \<Rightarrow> (stored_project \<Rightarrow> stored_project) \<Rightarrow> project_db" where
  "set_project db i f = db\<lparr>pt_projects := map (\<lambda>r. if pj_ID (pw_Project r) = i then f r else r) (pt_projects db)\<rparr>"

definition set_version :: "int64 \<Rightarrow> gotime \<Rightarrow> stored_project \<Rightarrow> stored_project" where
  "set_version v dbnow r = r\<lparr>pw_Project := (pw_Project r)\<lparr>pj_Version := v\<rparr>, pw_UpdatedAt := dbnow\<rparr>"

definition cmp_repository :: "Repository \<Rightarrow> Repository \<Rightarrow> int" where
  "cmp_repository a b = cmp_int (rp_ID a) (rp_ID b)"

definition cmp_repository_role :: "Repository \<Rightarrow> Repository \<Rightarrow> int" where
  "cmp_repository_role a b = cmp_then (cmp_int (if rp_Role a = RolePrimary then 0 else 1) (if rp_Role b = RolePrimary then 0 else 1))
     (cmp_int (rp_ID a) (rp_ID b))"

fun source_kind_text :: "SourceKind \<Rightarrow> string" where
  "source_kind_text SourceGitHub = ''github''" | "source_kind_text SourceGitLab = ''gitlab''" | "source_kind_text SourceGitea = ''gitea''"
| "source_kind_text SourceGit = ''git''" | "source_kind_text SourceNPM = ''npm''" | "source_kind_text SourceNuGet = ''nuget''"
| "source_kind_text SourcePyPI = ''pypi''" | "source_kind_text SourceDocs = ''docs''" | "source_kind_text SourceWebsite = ''website''"
| "source_kind_text SourceChangelog = ''changelog''" | "source_kind_text SourceRSS = ''rss''"
| "source_kind_text SourceDiscussion = ''discussion''" | "source_kind_text SourceAdvisory = ''advisory''"
| "source_kind_text (SourceKindOther s) = s"

fun source_state_text :: "SourceState \<Rightarrow> string" where
  "source_state_text SourceAvailable = ''available''" | "source_state_text SourceUnavailable = ''unavailable''"
| "source_state_text SourcePaused = ''paused''" | "source_state_text SourceRemoved = ''removed''" | "source_state_text (SourceStateOther s) = s"

fun project_state_text :: "ProjectState \<Rightarrow> string" where
  "project_state_text StateActive = ''active''" | "project_state_text StatePaused = ''paused''"
| "project_state_text StateArchived = ''archived''" | "project_state_text StateDeleting = ''deleting''"
| "project_state_text StateDeleted = ''deleted''" | "project_state_text (ProjectStateOther s) = s"

definition cmp_source :: "Source \<Rightarrow> Source \<Rightarrow> int" where
  "cmp_source a b = cmp_then (cmp_string (source_kind_text (so_Kind a)) (source_kind_text (so_Kind b))) (cmp_int (so_ID a) (so_ID b))"

definition stored_repositories_of :: "project_db \<Rightarrow> int64 \<Rightarrow> Repository list" where
  "stored_repositories_of db pid = filter (\<lambda>r. rp_ProjectID r = pid) (pt_repositories db)"

definition sources_of :: "project_db \<Rightarrow> int64 \<Rightarrow> Source list" where
  "sources_of db pid = filter (\<lambda>s. so_ProjectID s = pid) (map sx_source (pt_sources db))"

text \<open>\<open>job_id\<close> 0 stands for the null that \<open>nullableProject\<close> writes.\<close>

definition writeOutbox :: "project_db \<Rightarrow> int64 list \<Rightarrow> int64 \<Rightarrow> int64 \<Rightarrow> string \<Rightarrow> string \<Rightarrow> projectstore_error + project_db" where
  "writeOutbox db ids projectID jobID eventType requestID =
     bindE (map_sum PsJobs id (insert_delivery (pt_jobs db) ids (zero_job\<lparr>jb_ProjectID := projectID, jb_ID := jobID\<rparr>) eventType requestID None))
       (\<lambda>(jobs, _). Inr (db\<lparr>pt_jobs := jobs\<rparr>))"

definition write_audit :: "project_db \<Rightarrow> int64 list \<Rightarrow> Principal \<Rightarrow> string \<Rightarrow> int64 \<Rightarrow> string \<Rightarrow> projectstore_error + project_db \<times> int64 list" where
  "write_audit db ids actor action resourceID requestID =
     (case ids of [] \<Rightarrow> Inl PsIDs
      | i # rest \<Rightarrow>
          if i \<le> 0 \<or> i \<in> set (map ww_ID (pt_audit db)) then Inl PsConstraint
          else Inr (db\<lparr>pt_audit := pt_audit db @ [\<lparr>ww_ID = i, ww_ActorID = pr_ActorID actor, ww_Action = action,
                 ww_ResourceID = resourceID, ww_RequestID = requestID\<rparr>]\<rparr>, rest))"

text \<open>A job and its event, as every operation that queues a fresh job writes them. A unique violation is a conflict.\<close>

definition insert_queued :: "project_db \<Rightarrow> int64 list \<Rightarrow> Job \<Rightarrow> Principal \<Rightarrow> string \<Rightarrow> string \<Rightarrow> projectstore_error + project_db \<times> int64 list" where
  "insert_queued db ids v actor requestID key =
     (if row_by_job (pt_jobs db) (jb_ID v) \<noteq> None \<or> active_with_key (pt_jobs db) (pr_Workspace actor) key \<noteq> None
      then Inl (PsProject ProjErrConflict)
      else
        bindE (map_sum PsJobs id (insertJob (pt_jobs db) v actor requestID key)) (\<lambda>jobs1.
        bindE (map_sum PsJobs id (recordEvent jobs1 ids v)) (\<lambda>(jobs2, rest). Inr (db\<lparr>pt_jobs := jobs2\<rparr>, rest))))"

section \<open>Reading projects\<close>

definition loadProjectForUpdate :: "project_db \<Rightarrow> int64 \<Rightarrow> int64 \<Rightarrow> projectstore_error + Project" where
  "loadProjectForUpdate db ws pid =
     (case row_of_project db ws pid of None \<Rightarrow> Inl (PsProject ProjErrNotFound)
      | Some r \<Rightarrow> Inr ((pw_Project r)\<lparr>pj_Repositories := sort_func cmp_repository (stored_repositories_of db pid)\<rparr>))"

definition registrationTx :: "project_db \<Rightarrow> int64 \<Rightarrow> int64 \<Rightarrow> projectstore_error + Registration" where
  "registrationTx db projectID jobID =
     (case find (\<lambda>r. pj_ID (pw_Project r) = projectID) (pt_projects db) of None \<Rightarrow> Inl (PsProject ProjErrNotFound)
      | Some r \<Rightarrow>
          (case row_by_job (pt_jobs db) jobID of None \<Rightarrow> Inl PsConstraint
           | Some j \<Rightarrow> Inr \<lparr>rg_Project = (pw_Project r)\<lparr>pj_Repositories := sort_func cmp_repository_role (stored_repositories_of db projectID),
                 pj_Sources := sort_func cmp_source (sources_of db projectID)\<rparr>, rg_Job = jr_job j, rg_Replay = False\<rparr>))"

definition ListRepositories :: "project_db \<Rightarrow> Principal \<Rightarrow> int64 \<Rightarrow> ProjectFilter \<Rightarrow> projectstore_error + Repository list" where
  "ListRepositories db actor projectID f =
     (case Authorize actor ActionIntelligenceRead of Some e \<Rightarrow> Inl (PsAccess e)
      | None \<Rightarrow> Inr (if row_of_project db (pr_Workspace actor) projectID = None then []
          else paged f (sort_func cmp_repository_role (stored_repositories_of db projectID))))"

definition ListSources :: "project_db \<Rightarrow> Principal \<Rightarrow> int64 \<Rightarrow> ProjectFilter \<Rightarrow> projectstore_error + Source list" where
  "ListSources db actor projectID f =
     (case Authorize actor ActionIntelligenceRead of Some e \<Rightarrow> Inl (PsAccess e)
      | None \<Rightarrow> Inr (if row_of_project db (pr_Workspace actor) projectID = None then []
          else paged f (sort_func cmp_source (filter (\<lambda>s. (pf_Kind f = '''' \<or> source_kind_text (so_Kind s) = pf_Kind f) \<and>
            (pf_State f = '''' \<or> source_state_text (so_State s) = pf_State f)) (sources_of db projectID)))))"

definition GetProject :: "project_db \<Rightarrow> Principal \<Rightarrow> int64 \<Rightarrow> projectstore_error + Project" where
  "GetProject db actor i =
     (case Authorize actor ActionIntelligenceRead of Some e \<Rightarrow> Inl (PsAccess e)
      | None \<Rightarrow>
          (case row_of_project db (pr_Workspace actor) i of None \<Rightarrow> Inl (PsProject ProjErrNotFound)
           | Some r \<Rightarrow>
               if pj_State (pw_Project r) = StateDeleting \<or> pj_State (pw_Project r) = StateDeleted then Inl (PsProject ProjErrNotFound)
               else
                 bindE (ListRepositories db actor i no_filter) (\<lambda>repos.
                 bindE (ListSources db actor i no_filter) (\<lambda>sources.
                 Inr ((pw_Project r)\<lparr>pj_Repositories := repos, pj_Sources := sources\<rparr>)))))"

text \<open>\<open>ILIKE\<close>: a percent sign matches any string, an underscore any character, a backslash quotes.\<close>

fun like_match :: "string \<Rightarrow> string \<Rightarrow> bool" where
  "like_match [] s = (s = [])"
| "like_match (p # ps) s =
     (if p = CHR ''%'' then list_ex (\<lambda>n. like_match ps (drop n s)) [0..<length s + 1]
      else if p = CHR 0x5C then (case ps of [] \<Rightarrow> False | q # qs \<Rightarrow> (case s of [] \<Rightarrow> False | c # cs \<Rightarrow> c = q \<and> like_match qs cs))
      else (case s of [] \<Rightarrow> False | c # cs \<Rightarrow> (p = CHR ''_'' \<or> p = c) \<and> like_match ps cs))"

definition ilike :: "string \<Rightarrow> string \<Rightarrow> bool" where
  "ilike pattern s = like_match (to_lower pattern) (to_lower s)"

definition cmp_project_row :: "stored_project \<Rightarrow> stored_project \<Rightarrow> int" where
  "cmp_project_row a b = cmp_then (time_compare (pw_UpdatedAt b) (pw_UpdatedAt a)) (cmp_int (pj_ID (pw_Project b)) (pj_ID (pw_Project a)))"

definition ListProjects :: "project_db \<Rightarrow> Principal \<Rightarrow> ProjectFilter \<Rightarrow> projectstore_error + Project list" where
  "ListProjects db actor f =
     (case Authorize actor ActionIntelligenceRead of Some e \<Rightarrow> Inl (PsAccess e)
      | None \<Rightarrow>
          let q = trim_space (pf_Query f); pattern = ''%'' @ q @ ''%'' in
          Inr (map pw_Project (paged f (sort_func cmp_project_row (filter (\<lambda>r. pj_WorkspaceID (pw_Project r) = pr_Workspace actor \<and>
            (pf_State f = '''' \<or> project_state_text (pj_State (pw_Project r)) = pf_State f) \<and>
            (q = '''' \<or> ilike pattern (pj_Name (pw_Project r)) \<or> ilike pattern (pj_Slug (pw_Project r)))) (pt_projects db))))))"

section \<open>Registration\<close>

definition provider_kind :: "string \<Rightarrow> SourceKind" where
  "provider_kind p = (if p = ''github'' then SourceGitHub else if p = ''gitlab'' then SourceGitLab else SourceKindOther p)"

definition cmp_job_age :: "job_row \<Rightarrow> job_row \<Rightarrow> int" where
  "cmp_job_age a b = cmp_then (time_compare (jb_CreatedAt (jr_job a)) (jb_CreatedAt (jr_job b))) (cmp_int (jb_ID (jr_job a)) (jb_ID (jr_job b)))"

definition first_job :: "project_db \<Rightarrow> int64 \<Rightarrow> int64 option" where
  "first_job db pid =
     (case sort_func cmp_job_age (filter (\<lambda>r. jb_ProjectID (jr_job r) = pid) (jt_jobs (pt_jobs db))) of
        [] \<Rightarrow> None | r # _ \<Rightarrow> Some (jb_ID (jr_job r)))"

definition existing_registration :: "project_db \<Rightarrow> int64 \<Rightarrow> string \<Rightarrow> (int64 \<times> int64) option" where
  "existing_registration db ws url =
     (case find (\<lambda>r. rp_CanonicalURL r = url \<and> row_of_project db ws (rp_ProjectID r) \<noteq> None \<and> first_job db (rp_ProjectID r) \<noteq> None)
             (pt_repositories db) of
        None \<Rightarrow> None | Some r \<Rightarrow> Some (rp_ProjectID r, the (first_job db (rp_ProjectID r))))"

definition complete_key :: "Principal \<Rightarrow> string \<Rightarrow> string \<Rightarrow> int64 \<Rightarrow> int64 \<Rightarrow> project_db \<Rightarrow> project_db" where
  "complete_key actor key digest resource jobID db =
     db\<lparr>pt_keys := pt_keys db @ [\<lparr>kw_Workspace = pr_Workspace actor, kw_Actor = pr_ActorID actor, kw_Key = key, kw_Digest = digest,
       kw_Resource = resource, kw_JobID = jobID\<rparr>]\<rparr>"

definition initial_source :: "int64 \<Rightarrow> int64 \<Rightarrow> string \<Rightarrow> string \<Rightarrow> gotime \<Rightarrow> Source" where
  "initial_source sourceID projectID provider url from =
     \<lparr>so_ID = sourceID, so_ProjectID = projectID, so_Kind = provider_kind provider, so_CanonicalURL = url, so_State = SourceAvailable,
      so_Public = True, so_CoverageFrom = Some from, so_CoverageTo = None, so_LastAttemptAt = None, so_LastSuccessAt = None,
      so_NextRunAt = None, so_Failure = '''', so_Version = 1\<rparr>"

text \<open>The three rows of a new project, under the unique keys on identifiers, slugs and canonical URLs.\<close>

definition insert_project :: "project_db \<Rightarrow> Project \<Rightarrow> Repository \<Rightarrow> Source \<Rightarrow> gotime \<Rightarrow> projectstore_error + project_db" where
  "insert_project db p primary source dbnow =
     (if list_ex (\<lambda>r. pj_ID (pw_Project r) = pj_ID p \<or> (pj_WorkspaceID (pw_Project r) = pj_WorkspaceID p \<and> pj_Slug (pw_Project r) = pj_Slug p))
           (pt_projects db)
      then Inl (PsProject ProjErrConflict)
      else if list_ex (\<lambda>r. rp_ID r = rp_ID primary \<or> rp_CanonicalURL r = rp_CanonicalURL primary) (pt_repositories db)
      then Inl (PsProject ProjErrConflict)
      else if so_ID source \<le> 0 \<or> so_ID source \<in> set (map (so_ID \<circ> sx_source) (pt_sources db)) \<or>
        list_ex (\<lambda>s. so_ProjectID (sx_source s) = pj_ID p \<and> so_Kind (sx_source s) = so_Kind source \<and>
          so_CanonicalURL (sx_source s) = so_CanonicalURL source) (pt_sources db)
      then Inl PsConstraint
      else Inr (db\<lparr>pt_projects := pt_projects db @ [\<lparr>pw_Project = p\<lparr>pj_Repositories := [], pj_Sources := []\<rparr>, pw_UpdatedAt = dbnow,
             pw_UnavailableAt = None, pw_DeletionActor = None, pw_DeletionReason = ''''\<rparr>],
           pt_repositories := pt_repositories db @ [primary],
           pt_sources := pt_sources db @ [\<lparr>sx_source = source\<lparr>so_CoverageFrom := map_option pg_time (so_CoverageFrom source)\<rparr>,
             sx_RepositoryID = rp_ID primary\<rparr>]\<rparr>))"

definition registration_digest :: "(string \<Rightarrow> string) \<Rightarrow> string \<Rightarrow> int \<Rightarrow> string" where
  "registration_digest sha256 url days = sha256 (url @ CHR 0x00 # format_int days)"

text \<open>The part of \<open>Register\<close> that creates the project, once neither the key nor the repository is known.\<close>

definition register_new ::
    "project_db \<Rightarrow> Principal \<Rightarrow> canonical_repository \<Rightarrow> string \<Rightarrow> int \<Rightarrow> string \<Rightarrow> string \<Rightarrow> string \<Rightarrow> gotime \<Rightarrow> gotime \<Rightarrow> int64 list \<Rightarrow>
     projectstore_error + Registration \<times> project_db" where
  "register_new db actor c slug historyDays digest idempotencyKey requestID clock dbnow ids =
     (if int (length (filter (\<lambda>r. pj_WorkspaceID (pw_Project r) = pr_Workspace actor \<and> pj_State (pw_Project r) \<noteq> StateDeleted) (pt_projects db)))
         \<ge> 1000
      then Inl (PsProject ProjErrConflict)
      else (case ids of
        projectID # repositoryID # sourceID # jobID # rest \<Rightarrow>
          let now = utc clock; url = cr_Canonical c;
              primary = \<lparr>rp_ID = repositoryID, rp_ProjectID = projectID, rp_Provider = cr_Provider c, rp_CanonicalURL = url,
                rp_Role = RolePrimary, rp_Version = 1\<rparr>;
              initial = InitialHistoryRange now historyDays;
              source = initial_source sourceID projectID (cr_Provider c) url (hr_From initial) in
          bindE (map_sum PsProject id (project_New projectID (pr_Workspace actor) (cr_Name c) slug primary)) (\<lambda>created.
          bindE (map_sum PsJob id (job_New jobID projectID ''project_initial_sync'' ''sources'' None True now)) (\<lambda>queued.
          bindE (insert_project db created primary source dbnow) (\<lambda>db1.
          bindE (insert_queued db1 rest queued actor requestID (''initial:'' @ format_int projectID)) (\<lambda>(db2, rest2).
          bindE (writeOutbox db2 rest2 projectID jobID ''project.registered'' requestID) (\<lambda>db3.
          if list_ex (\<lambda>c. gw_ID c = projectID \<or> gw_Slug c = pj_Slug created) (pt_catalog db3) then Inl PsConstraint
          else
            let db4 = db3\<lparr>pt_catalog := pt_catalog db3 @ [\<lparr>gw_ID = projectID, gw_Name = pj_Name created, gw_Slug = pj_Slug created,
                  gw_Description = '''', gw_State = StateActive\<rparr>]\<rparr> in
            bindE (write_audit db4 (drop 1 rest2) actor ''project.register'' projectID requestID) (\<lambda>(db5, _).
            Inr (\<lparr>rg_Project = created\<lparr>pj_Sources := [source]\<rparr>, rg_Job = queued, rg_Replay = False\<rparr>,
              complete_key actor idempotencyKey digest projectID jobID db5)))))))
      | _ \<Rightarrow> Inl PsIDs))"

definition Register ::
    "(string \<Rightarrow> request_uri option) \<Rightarrow> (string \<Rightarrow> string) \<Rightarrow> project_db \<Rightarrow> Principal \<Rightarrow> string \<Rightarrow> int \<Rightarrow> string \<Rightarrow> string \<Rightarrow> gotime \<Rightarrow> gotime \<Rightarrow>
     int64 list \<Rightarrow> projectstore_error + Registration \<times> project_db" where
  "Register parse sha256 db actor repositoryURL historyDays0 idempotencyKey requestID clock dbnow ids =
     (case Authorize actor ActionProjectWrite of Some e \<Rightarrow> Inl (PsAccess e)
      | None \<Rightarrow>
      if trim_space idempotencyKey = '''' then Inl (PsProject ProjErrInvalid)
      else
        bindE (map_sum PsProject id (CanonicalRepositoryURL parse repositoryURL)) (\<lambda>c.
        let historyDays = (if historyDays0 \<le> 0 then DefaultHistoryDays else historyDays0) in
        if historyDays > 3650 then Inl (PsProject ProjErrInvalid)
        else
          bindE (map_sum PsProject id (Slug (cr_Name c))) (\<lambda>slug.
          let digest = registration_digest sha256 (cr_Canonical c) historyDays in
          case find (\<lambda>k. kw_Workspace k = pr_Workspace actor \<and> kw_Actor k = pr_ActorID actor \<and> kw_Key k = idempotencyKey) (pt_keys db) of
            Some k \<Rightarrow>
              if kw_Digest k \<noteq> digest then Inl (PsProject ProjErrConflict)
              else if kw_Resource k = 0 \<or> kw_JobID k = 0 then Inl (PsProject ProjErrConflict)
              else map_sum id (\<lambda>r. (r\<lparr>rg_Replay := True\<rparr>, db)) (registrationTx db (kw_Resource k) (kw_JobID k))
          | None \<Rightarrow>
              if length digest \<noteq> 32 then Inl PsConstraint
              else
                (case existing_registration db (pr_Workspace actor) (cr_Canonical c) of
                   Some (pid, jid) \<Rightarrow>
                     map_sum id (\<lambda>r. (r\<lparr>rg_Replay := True\<rparr>, complete_key actor idempotencyKey digest pid jid db)) (registrationTx db pid jid)
                 | None \<Rightarrow> register_new db actor c slug historyDays digest idempotencyKey requestID clock dbnow ids))))"

section \<open>Lifecycle\<close>

definition set_catalog :: "project_db \<Rightarrow> int64 \<Rightarrow> (catalog_row \<Rightarrow> catalog_row) \<Rightarrow> project_db" where
  "set_catalog db i f = db\<lparr>pt_catalog := map (\<lambda>c. if gw_ID c = i then f c else c) (pt_catalog db)\<rparr>"

definition UpdateProject ::
    "project_db \<Rightarrow> Principal \<Rightarrow> int64 \<Rightarrow> int64 \<Rightarrow> string \<Rightarrow> string \<Rightarrow> string \<Rightarrow> gotime \<Rightarrow> int64 list \<Rightarrow> projectstore_error + Project \<times> project_db" where
  "UpdateProject db actor i expectedVersion name0 description requestID dbnow ids =
     (case Authorize actor ActionProjectWrite of Some e \<Rightarrow> Inl (PsAccess e)
      | None \<Rightarrow>
          let name = trim_space name0 in
          if name = '''' then Inl (PsProject ProjErrInvalid)
          else
            (case row_of_project db (pr_Workspace actor) i of None \<Rightarrow> Inl (PsProject ProjErrVersionConflict)
             | Some r \<Rightarrow>
                 if pj_Version (pw_Project r) \<noteq> expectedVersion \<or>
                   (pj_State (pw_Project r) \<noteq> StateActive \<and> pj_State (pw_Project r) \<noteq> StatePaused)
                 then Inl (PsProject ProjErrVersionConflict)
                 else
                   let p = (pw_Project r)\<lparr>pj_Name := name, pj_Description := description, pj_Version := pj_Version (pw_Project r) + 1\<rparr>;
                       db1 = set_project db i (\<lambda>r. r\<lparr>pw_Project := p, pw_UpdatedAt := dbnow\<rparr>);
                       db2 = set_catalog db1 i (\<lambda>c. c\<lparr>gw_Name := name, gw_Description := description\<rparr>) in
                   bindE (write_audit db2 ids actor ''project.update'' i requestID) (\<lambda>(db3, rest).
                   bindE (writeOutbox db3 rest i 0 ''project.updated'' requestID) (\<lambda>db4. Inr (p, db4)))))"

definition transitioned_row :: "ProjectState \<Rightarrow> int64 \<Rightarrow> gotime \<Rightarrow> stored_project \<Rightarrow> stored_project" where
  "transitioned_row to v dbnow r = r\<lparr>
     pw_Project := (pw_Project r)\<lparr>pj_State := to, pj_Version := v, pj_DeletedAt := (if to = StateDeleted then Some dbnow else None)\<rparr>,
     pw_UpdatedAt := dbnow,
     pw_UnavailableAt := (if to = StateDeleting \<or> to = StateDeleted
       then (case pw_UnavailableAt r of None \<Rightarrow> Some dbnow | t \<Rightarrow> t) else None)\<rparr>"

text \<open>The row that an update with \<open>WHERE id = \<dots> AND workspace_id = \<dots> AND version = \<dots>\<close> affects.\<close>

definition row_versioned :: "project_db \<Rightarrow> int64 \<Rightarrow> int64 \<Rightarrow> int64 \<Rightarrow> bool" where
  "row_versioned db ws i v \<longleftrightarrow> (case row_of_project db ws i of None \<Rightarrow> False | Some r \<Rightarrow> pj_Version (pw_Project r) = v)"

definition TransitionProject ::
    "project_db \<Rightarrow> Principal \<Rightarrow> int64 \<Rightarrow> int64 \<Rightarrow> ProjectState \<Rightarrow> string \<Rightarrow> gotime \<Rightarrow> gotime \<Rightarrow> int64 list \<Rightarrow>
     projectstore_error + Registration \<times> project_db" where
  "TransitionProject db actor i expectedVersion to requestID clock dbnow ids =
     (case Authorize actor ActionProjectLifecycle of Some e \<Rightarrow> Inl (PsAccess e)
      | None \<Rightarrow>
      bindE (GetProject db actor i) (\<lambda>current.
      bindE (map_sum PsProject id (project_Transition current to expectedVersion True clock)) (\<lambda>next.
      if pj_Version next = pj_Version current then Inr (\<lparr>rg_Project = current, rg_Job = zero_job, rg_Replay = False\<rparr>, db)
      else (case ids of [] \<Rightarrow> Inl PsIDs
      | jobID # rest \<Rightarrow>
          bindE (map_sum PsJob id (job_New jobID i ''project_transition'' ''effects'' None False clock)) (\<lambda>queued.
          if \<not> row_versioned db (pr_Workspace actor) i expectedVersion then Inl (PsProject ProjErrVersionConflict)
          else
            let db1 = set_project db i (transitioned_row to (pj_Version next) dbnow);
                db2 = set_catalog db1 i (\<lambda>c. c\<lparr>gw_State := (if to = StateDeleting then StateDeleted else to)\<rparr>);
                key = ''transition:'' @ format_int i @ '':'' @ project_state_text to @ '':'' @ format_int (pj_Version next) in
            bindE (insert_queued db2 rest queued actor requestID key) (\<lambda>(db3, rest2).
            bindE (write_audit db3 rest2 actor ''project.transition'' i requestID) (\<lambda>(db4, rest3).
            bindE (writeOutbox db4 rest3 i jobID ''project.transitioned'' requestID) (\<lambda>db5.
            Inr (\<lparr>rg_Project = next, rg_Job = queued, rg_Replay = False\<rparr>, db5)))))))))"

definition deleting_row :: "int64 \<Rightarrow> int64 \<Rightarrow> string \<Rightarrow> gotime \<Rightarrow> stored_project \<Rightarrow> stored_project" where
  "deleting_row v actorID reason dbnow r = r\<lparr>
     pw_Project := (pw_Project r)\<lparr>pj_State := StateDeleting, pj_Version := v\<rparr>, pw_UpdatedAt := dbnow,
     pw_UnavailableAt := (case pw_UnavailableAt r of None \<Rightarrow> Some dbnow | t \<Rightarrow> t),
     pw_DeletionActor := Some actorID, pw_DeletionReason := reason\<rparr>"

definition RequestDeletion ::
    "project_db \<Rightarrow> Principal \<Rightarrow> int64 \<Rightarrow> int64 \<Rightarrow> string \<Rightarrow> string \<Rightarrow> string \<Rightarrow> gotime \<Rightarrow> gotime \<Rightarrow> int64 list \<Rightarrow>
     projectstore_error + Registration \<times> project_db" where
  "RequestDeletion db actor i expectedVersion confirmation reason requestID clock dbnow ids =
     bindE (GetProject db actor i) (\<lambda>current.
     if confirmation \<noteq> ''DELETE '' @ pj_Slug current then Inl (PsProject ProjErrInvalid)
     else
       bindE (map_sum PsProject id (project_Transition current StateDeleting expectedVersion (pr_Role actor = RoleAdmin) clock)) (\<lambda>next.
       case ids of [] \<Rightarrow> Inl PsIDs
       | jobID # rest \<Rightarrow>
           bindE (map_sum PsJob id (job_New jobID i ''project_purge'' ''objects'' None False clock)) (\<lambda>queued.
           if \<not> row_versioned db (pr_Workspace actor) i expectedVersion then Inl (PsProject ProjErrVersionConflict)
           else
             let db1 = set_project db i (deleting_row (pj_Version next) (pr_ActorID actor) (trim_space reason) dbnow);
                 db2 = set_catalog db1 i (\<lambda>c. c\<lparr>gw_State := StateDeleted\<rparr>) in
             bindE (insert_queued db2 rest queued actor requestID (''purge:'' @ format_int i)) (\<lambda>(db3, rest2).
             bindE (writeOutbox db3 rest2 i jobID ''project.deletion_requested'' requestID) (\<lambda>db4.
             Inr (\<lparr>rg_Project = next, rg_Job = queued, rg_Replay = False\<rparr>, db4))))))"

section \<open>Repositories\<close>

text \<open>The update that demotes the stored primaries of a project, all but the repository \<open>except\<close>.\<close>

definition demote_stored :: "int64 \<Rightarrow> int64 option \<Rightarrow> project_db \<Rightarrow> project_db" where
  "demote_stored pid except db = db\<lparr>pt_repositories :=
     map (\<lambda>r. if rp_ProjectID r = pid \<and> Some (rp_ID r) \<noteq> except then demote r else r) (pt_repositories db)\<rparr>"

definition insert_repository :: "project_db \<Rightarrow> Repository \<Rightarrow> projectstore_error + project_db" where
  "insert_repository db r =
     (if list_ex (\<lambda>s. rp_ID s = rp_ID r \<or> rp_CanonicalURL s = rp_CanonicalURL r) (pt_repositories db) \<or>
         (rp_Role r = RolePrimary \<and> list_ex (\<lambda>s. rp_ProjectID s = rp_ProjectID r \<and> rp_Role s = RolePrimary) (pt_repositories db))
      then Inl (PsProject ProjErrConflict)
      else Inr (db\<lparr>pt_repositories := pt_repositories db @ [r]\<rparr>))"

definition store_maxRepositories :: int where
  "store_maxRepositories = 20"

definition AddRepository_store ::
    "(string \<Rightarrow> request_uri option) \<Rightarrow> project_db \<Rightarrow> Principal \<Rightarrow> int64 \<Rightarrow> string \<Rightarrow> RepositoryRole \<Rightarrow> string \<Rightarrow> gotime \<Rightarrow> int64 list \<Rightarrow>
     projectstore_error + Repository \<times> project_db" where
  "AddRepository_store parse db actor projectID rawURL role requestID dbnow ids =
     (case Authorize actor ActionProjectWrite of Some e \<Rightarrow> Inl (PsAccess e)
      | None \<Rightarrow>
      bindE (map_sum PsProject id (CanonicalRepositoryURL parse rawURL)) (\<lambda>c.
      case ids of [] \<Rightarrow> Inl PsIDs
      | repositoryID # rest \<Rightarrow>
          let v = \<lparr>rp_ID = repositoryID, rp_ProjectID = projectID, rp_Provider = cr_Provider c, rp_CanonicalURL = cr_Canonical c,
                rp_Role = role, rp_Version = 1\<rparr> in
          bindE (loadProjectForUpdate db (pr_Workspace actor) projectID) (\<lambda>current.
          if int (length (pj_Repositories current)) \<ge> store_maxRepositories then Inl (PsProject ProjErrConflict)
          else
            bindE (map_sum PsProject id (AddRepository current v store_maxRepositories)) (\<lambda>updated.
            case find (\<lambda>e. to_lower (rp_CanonicalURL e) = to_lower (cr_Canonical c)) (caller_after_AddRepository current v store_maxRepositories) of
              Some existing \<Rightarrow> Inr (existing, db)
            | None \<Rightarrow>
                let db1 = (if role = RolePrimary then demote_stored projectID None db else db) in
                bindE (insert_repository db1 v) (\<lambda>db2.
                bindE (writeOutbox (set_project db2 projectID (set_version (pj_Version updated) dbnow)) rest projectID 0
                    ''repository.attached'' requestID) (\<lambda>db3.
                Inr (v, db3)))))))"

definition change_role :: "project_db \<Rightarrow> int64 \<Rightarrow> int64 \<Rightarrow> RepositoryRole \<Rightarrow> project_db" where
  "change_role db pid repositoryID role = db\<lparr>pt_repositories :=
     map (\<lambda>r. if rp_ID r = repositoryID \<and> rp_ProjectID r = pid then r\<lparr>rp_Role := role, rp_Version := rp_Version r + 1\<rparr> else r)
       (pt_repositories db)\<rparr>"

definition stored_repository :: "project_db \<Rightarrow> int64 \<Rightarrow> int64 \<Rightarrow> Repository option" where
  "stored_repository db pid repositoryID = find (\<lambda>r. rp_ID r = repositoryID \<and> rp_ProjectID r = pid) (pt_repositories db)"

definition ChangeRepositoryRole_store ::
    "project_db \<Rightarrow> Principal \<Rightarrow> int64 \<Rightarrow> int64 \<Rightarrow> int64 \<Rightarrow> RepositoryRole \<Rightarrow> string \<Rightarrow> gotime \<Rightarrow> int64 list \<Rightarrow>
     projectstore_error + Repository \<times> project_db" where
  "ChangeRepositoryRole_store db actor projectID repositoryID expectedVersion role requestID dbnow ids =
     (case Authorize actor ActionProjectWrite of Some e \<Rightarrow> Inl (PsAccess e)
      | None \<Rightarrow>
      bindE (loadProjectForUpdate db (pr_Workspace actor) projectID) (\<lambda>current.
      bindE (map_sum PsProject id (ChangeRepositoryRole current repositoryID role)) (\<lambda>updated.
      let db1 = (if role = RolePrimary then demote_stored projectID (Some repositoryID) db else db) in
      case stored_repository db1 projectID repositoryID of None \<Rightarrow> Inl (PsProject ProjErrVersionConflict)
      | Some r \<Rightarrow>
          if rp_Version r \<noteq> expectedVersion then Inl (PsProject ProjErrVersionConflict)
          else
            let db2 = set_project (change_role db1 projectID repositoryID role) projectID (set_version (pj_Version updated) dbnow) in
            bindE (writeOutbox db2 ids projectID 0 ''repository.role_changed'' requestID) (\<lambda>db3.
            Inr (r\<lparr>rp_Role := role, rp_Version := rp_Version r + 1\<rparr>, db3)))))"

text \<open>The deletion of a repository and, by the foreign keys, of its sources, their associations and their corrections.\<close>

definition delete_repository :: "project_db \<Rightarrow> int64 \<Rightarrow> int64 \<Rightarrow> project_db" where
  "delete_repository db pid repositoryID =
     (let sources = filter (\<lambda>s. sx_RepositoryID s \<noteq> repositoryID) (pt_sources db);
          kept = set (map (so_ID \<circ> sx_source) sources);
          associations = filter (\<lambda>a. as_SourceID a \<in> kept) (pt_associations db) in
      db\<lparr>pt_repositories := filter (\<lambda>r. \<not> (rp_ID r = repositoryID \<and> rp_ProjectID r = pid)) (pt_repositories db),
        pt_sources := sources, pt_associations := associations,
        pt_corrections := filter (\<lambda>c. cw_AssociationID c \<in> set (map as_ID associations)) (pt_corrections db)\<rparr>)"

definition RemoveRepository_store ::
    "project_db \<Rightarrow> Principal \<Rightarrow> int64 \<Rightarrow> int64 \<Rightarrow> int64 \<Rightarrow> string \<Rightarrow> gotime \<Rightarrow> int64 list \<Rightarrow> projectstore_error + project_db" where
  "RemoveRepository_store db actor projectID repositoryID expectedVersion requestID dbnow ids =
     (case Authorize actor ActionProjectWrite of Some e \<Rightarrow> Inl (PsAccess e)
      | None \<Rightarrow>
      bindE (loadProjectForUpdate db (pr_Workspace actor) projectID) (\<lambda>current.
      bindE (map_sum PsProject id (RemoveRepository current repositoryID)) (\<lambda>updated.
      case stored_repository db projectID repositoryID of None \<Rightarrow> Inl (PsProject ProjErrVersionConflict)
      | Some r \<Rightarrow>
          if rp_Version r \<noteq> expectedVersion then Inl (PsProject ProjErrVersionConflict)
          else
            writeOutbox (set_project (delete_repository db projectID repositoryID) projectID (set_version (pj_Version updated) dbnow))
              ids projectID 0 ''repository.removed'' requestID)))"


section \<open>Sources\<close>

definition find_source :: "project_db \<Rightarrow> int64 \<Rightarrow> int64 \<Rightarrow> Source option" where
  "find_source db pid sourceID = find (\<lambda>s. so_ID s = sourceID \<and> so_ProjectID s = pid) (map sx_source (pt_sources db))"

definition set_source :: "project_db \<Rightarrow> int64 \<Rightarrow> (Source \<Rightarrow> Source) \<Rightarrow> project_db" where
  "set_source db i f = db\<lparr>pt_sources := map (\<lambda>s. if so_ID (sx_source s) = i then s\<lparr>sx_source := f (sx_source s)\<rparr> else s) (pt_sources db)\<rparr>"

definition maxSources :: int where
  "maxSources = 50"

text \<open>A source that a project already has under the kind and URL becomes available again, whatever its state was.\<close>

definition upsert_source :: "project_db \<Rightarrow> int64 \<Rightarrow> int64 \<Rightarrow> SourceKind \<Rightarrow> string \<Rightarrow> projectstore_error + Source \<times> project_db" where
  "upsert_source db sourceID pid kind url =
     (if \<not> prefix ''https://'' url \<or> sourceID \<le> 0 then Inl PsConstraint
      else
        (case find (\<lambda>s. so_ProjectID s = pid \<and> so_Kind s = kind \<and> so_CanonicalURL s = url) (map sx_source (pt_sources db)) of
           Some s \<Rightarrow>
             let s' = s\<lparr>so_State := SourceAvailable, so_Public := True, so_Failure := '''', so_Version := so_Version s + 1\<rparr> in
             Inr (s', set_source db (so_ID s) (\<lambda>_. s'))
         | None \<Rightarrow>
             if sourceID \<in> set (map (so_ID \<circ> sx_source) (pt_sources db)) then Inl (PsProject ProjErrConflict)
             else
               let s = \<lparr>so_ID = sourceID, so_ProjectID = pid, so_Kind = kind, so_CanonicalURL = url, so_State = SourceAvailable,
                     so_Public = True, so_CoverageFrom = None, so_CoverageTo = None, so_LastAttemptAt = None, so_LastSuccessAt = None,
                     so_NextRunAt = None, so_Failure = '''', so_Version = 1\<rparr> in
               Inr (s, db\<lparr>pt_sources := pt_sources db @ [\<lparr>sx_source = s, sx_RepositoryID = 0\<rparr>]\<rparr>)))"

definition AddSource ::
    "project_db \<Rightarrow> Principal \<Rightarrow> int64 \<Rightarrow> SourceKind \<Rightarrow> string \<Rightarrow> string \<Rightarrow> int64 list \<Rightarrow> projectstore_error + Source \<times> project_db" where
  "AddSource db actor projectID kind canonicalURL requestID ids =
     (case Authorize actor ActionProjectWrite of Some e \<Rightarrow> Inl (PsAccess e)
      | None \<Rightarrow>
      if \<not> ValidSourceKind kind \<or> trim_space canonicalURL = '''' then Inl (PsProject ProjErrInvalid)
      else (case ids of [] \<Rightarrow> Inl PsIDs
      | sourceID # rest \<Rightarrow>
          bindE (loadProjectForUpdate db (pr_Workspace actor) projectID) (\<lambda>current.
          if pj_State current \<noteq> StateActive \<and> pj_State current \<noteq> StatePaused then Inl (PsProject ProjErrConflict)
          else if int (length (filter (\<lambda>s. so_State s \<noteq> SourceRemoved) (sources_of db projectID))) \<ge> maxSources
          then Inl (PsProject ProjErrConflict)
          else
            bindE (upsert_source db sourceID projectID kind canonicalURL) (\<lambda>(v, db1).
            bindE (writeOutbox db1 rest projectID 0 ''source.attached'' requestID) (\<lambda>db2. Inr (v, db2))))))"

text \<open>The check \<open>state <> 'available' OR public\<close> of the table.\<close>

definition UpdateSource ::
    "project_db \<Rightarrow> Principal \<Rightarrow> int64 \<Rightarrow> int64 \<Rightarrow> int64 \<Rightarrow> SourceState \<Rightarrow> string \<Rightarrow> int64 list \<Rightarrow> projectstore_error + Source \<times> project_db" where
  "UpdateSource db actor projectID sourceID expectedVersion state requestID ids =
     (case Authorize actor ActionProjectWrite of Some e \<Rightarrow> Inl (PsAccess e)
      | None \<Rightarrow>
      if state \<noteq> SourceAvailable \<and> state \<noteq> SourcePaused \<and> state \<noteq> SourceRemoved then Inl (PsProject ProjErrInvalid)
      else
        bindE (loadProjectForUpdate db (pr_Workspace actor) projectID) (\<lambda>current.
        if read_only current then Inl (PsProject ProjErrConflict)
        else (case find_source db projectID sourceID of None \<Rightarrow> Inl (PsProject ProjErrVersionConflict)
        | Some s \<Rightarrow>
            if so_Version s \<noteq> expectedVersion then Inl (PsProject ProjErrVersionConflict)
            else if state = SourceAvailable \<and> \<not> so_Public s then Inl PsConstraint
            else
              let s' = s\<lparr>so_State := state, so_Version := so_Version s + 1,
                    so_NextRunAt := (if state = SourcePaused then None else so_NextRunAt s)\<rparr> in
              bindE (writeOutbox (set_source db sourceID (\<lambda>_. s')) ids projectID 0 ''source.updated'' requestID) (\<lambda>db1. Inr (s', db1)))))"

definition RemoveSource ::
    "project_db \<Rightarrow> Principal \<Rightarrow> int64 \<Rightarrow> int64 \<Rightarrow> int64 \<Rightarrow> string \<Rightarrow> gotime \<Rightarrow> int64 list \<Rightarrow> projectstore_error + Job \<times> project_db" where
  "RemoveSource db actor projectID sourceID expectedVersion requestID clock ids =
     (case Authorize actor ActionProjectWrite of Some e \<Rightarrow> Inl (PsAccess e)
      | None \<Rightarrow>
      (case ids of [] \<Rightarrow> Inl PsIDs
      | jobID # rest \<Rightarrow>
          bindE (map_sum PsJob id (job_New jobID projectID ''source_recalculation'' ''snapshots'' None True clock)) (\<lambda>queued.
          bindE (loadProjectForUpdate db (pr_Workspace actor) projectID) (\<lambda>current.
          if read_only current then Inl (PsProject ProjErrConflict)
          else (case find_source db projectID sourceID of None \<Rightarrow> Inl (PsProject ProjErrVersionConflict)
          | Some s \<Rightarrow>
              if so_Version s \<noteq> expectedVersion then Inl (PsProject ProjErrVersionConflict)
              else
                let db1 = set_source db sourceID (\<lambda>s. s\<lparr>so_State := SourceRemoved, so_Version := so_Version s + 1, so_NextRunAt := None\<rparr>);
                    key = ''source-removal:'' @ format_int sourceID @ '':'' @ format_int expectedVersion in
                bindE (insert_queued db1 rest queued actor requestID key) (\<lambda>(db2, rest2).
                bindE (writeOutbox db2 rest2 projectID jobID ''source.removed'' requestID) (\<lambda>db3. Inr (queued, db3))))))))"

section \<open>Queues and jobs\<close>

definition lift_queue :: "project_db \<Rightarrow> jobstore_error + job_db \<times> Job \<Rightarrow> projectstore_error + Job \<times> project_db" where
  "lift_queue db r = map_sum PsJobs (\<lambda>(jobs, v). (v, db\<lparr>pt_jobs := jobs\<rparr>)) r"

definition QueueSync ::
    "project_db \<Rightarrow> Principal \<Rightarrow> int64 \<Rightarrow> string \<Rightarrow> string \<Rightarrow> gotime \<Rightarrow> gotime \<Rightarrow> int64 list \<Rightarrow> projectstore_error + Job \<times> project_db" where
  "QueueSync db actor projectID scope0 requestID clock dbnow ids =
     (case Authorize actor ActionProjectWrite of Some e \<Rightarrow> Inl (PsAccess e)
      | None \<Rightarrow>
      let scope = (if scope0 = '''' then ''all'' else scope0) in
      if scope \<notin> set [''all'', ''repository'', ''issues'', ''releases''] then Inl (PsProject ProjErrInvalid)
      else
        bindE (GetProject db actor projectID) (\<lambda>current.
        case CanSynchronize current of Some e \<Rightarrow> Inl (PsProject e)
        | None \<Rightarrow> lift_queue db (queueJob (pt_jobs db) actor projectID ''project_sync'' scope
            (''sync:'' @ format_int projectID @ '':'' @ scope) requestID None None clock dbnow ids)))"

definition history_covered :: "project_db \<Rightarrow> int64 \<Rightarrow> HistoryRange \<Rightarrow> bool" where
  "history_covered db pid window =
     list_ex (\<lambda>s. so_State s = SourceAvailable \<and>
       (case so_CoverageFrom s of None \<Rightarrow> False | Some t \<Rightarrow> \<not> after t (hr_From window)) \<and>
       (case so_CoverageTo s of None \<Rightarrow> False | Some t \<Rightarrow> \<not> before t (hr_To window))) (sources_of db pid)"

definition QueueHistory ::
    "project_db \<Rightarrow> Principal \<Rightarrow> int64 \<Rightarrow> gotime \<Rightarrow> gotime \<Rightarrow> string \<Rightarrow> gotime \<Rightarrow> gotime \<Rightarrow> int64 list \<Rightarrow>
     projectstore_error + Job \<times> project_db" where
  "QueueHistory db actor projectID from to requestID clock dbnow ids =
     (case Authorize actor ActionProjectWrite of Some e \<Rightarrow> Inl (PsAccess e)
      | None \<Rightarrow>
      bindE (GetProject db actor projectID) (\<lambda>current.
      case CanSynchronize current of Some e \<Rightarrow> Inl (PsProject e)
      | None \<Rightarrow>
          bindE (map_sum PsProject id (ValidateHistoryRange from to clock 3650)) (\<lambda>window.
          if history_covered db projectID window then Inl (PsProject ProjErrConflict)
          else lift_queue db (queueJob (pt_jobs db) actor projectID ''project_history'' ''history'' (''history:'' @ format_int projectID)
            requestID (Some (hr_From window)) (Some (hr_To window)) clock dbnow ids))))"

fun job_state_text :: "JobState \<Rightarrow> string" where
  "job_state_text Queued = ''queued''" | "job_state_text Running = ''running''" | "job_state_text Succeeded = ''succeeded''"
| "job_state_text Failed = ''failed''" | "job_state_text Cancelled = ''cancelled''" | "job_state_text (JobStateOther s) = s"

definition cmp_job_newest :: "Job \<Rightarrow> Job \<Rightarrow> int" where
  "cmp_job_newest a b = cmp_then (time_compare (jb_CreatedAt b) (jb_CreatedAt a)) (cmp_int (jb_ID b) (jb_ID a))"

definition ListJobs :: "project_db \<Rightarrow> Principal \<Rightarrow> int64 \<Rightarrow> ProjectFilter \<Rightarrow> projectstore_error + Job list" where
  "ListJobs db actor projectID f =
     (case Authorize actor ActionIntelligenceRead of Some e \<Rightarrow> Inl (PsAccess e)
      | None \<Rightarrow> Inr (paged f (sort_func cmp_job_newest (map jr_job (filter (\<lambda>r. jr_Workspace r = pr_Workspace actor \<and>
          (projectID = 0 \<or> jb_ProjectID (jr_job r) = projectID) \<and>
          (pf_State f = '''' \<or> (pf_State f = ''active'' \<and> (jb_State (jr_job r) = Queued \<or> jb_State (jr_job r) = Running)) \<or>
            job_state_text (jb_State (jr_job r)) = pf_State f) \<and>
          (pf_Kind f = '''' \<or> jb_Kind (jr_job r) = pf_Kind f)) (jt_jobs (pt_jobs db)))))))"

definition GetJob :: "project_db \<Rightarrow> Principal \<Rightarrow> int64 \<Rightarrow> projectstore_error + Job" where
  "GetJob db actor i =
     (case Authorize actor ActionIntelligenceRead of Some e \<Rightarrow> Inl (PsAccess e)
      | None \<Rightarrow>
          (case row_by_job (pt_jobs db) i of None \<Rightarrow> Inl (PsProject ProjErrNotFound)
           | Some r \<Rightarrow> if jr_Workspace r = pr_Workspace actor then Inr (jr_job r) else Inl (PsProject ProjErrNotFound)))"

definition JobEvents :: "project_db \<Rightarrow> Principal \<Rightarrow> int64 \<Rightarrow> int64 \<Rightarrow> int \<Rightarrow> projectstore_error + (int64 \<times> Job) list" where
  "JobEvents db actor i later limit0 =
     (case Authorize actor ActionIntelligenceRead of Some e \<Rightarrow> Inl (PsAccess e)
      | None \<Rightarrow>
          let limit = fst (store_page limit0 0);
              mine = (case row_by_job (pt_jobs db) i of None \<Rightarrow> False | Some r \<Rightarrow> jr_Workspace r = pr_Workspace actor) in
          Inr (map (\<lambda>e. (je_ID e, je_Job e)) (take (nat limit) (sort_func (\<lambda>a b. cmp_int (je_ID a) (je_ID b))
            (filter (\<lambda>e. je_JobID e = i \<and> mine \<and> je_ID e > later) (jt_events (pt_jobs db)))))))"

record Portfolio_view =
  pv_Projects :: "Project list"
  pv_AttentionCount :: int
  pv_ActiveJobs :: "Job list"
  pv_GeneratedAt :: gotime

definition needs_attention :: "project_db \<Rightarrow> stored_project \<Rightarrow> bool" where
  "needs_attention db r =
     (list_ex (\<lambda>s. so_State s = SourceUnavailable) (sources_of db (pj_ID (pw_Project r))) \<or>
      list_ex (\<lambda>a. as_ProjectID a = pj_ID (pw_Project r) \<and> as_Status a = AssociationUnresolved) (pt_associations db) \<or>
      list_ex (\<lambda>j. jb_ProjectID (jr_job j) = pj_ID (pw_Project r) \<and> job_state_text (jb_State (jr_job j)) \<in> set [''failed'', ''partial''])
        (jt_jobs (pt_jobs db)))"

definition store_Portfolio :: "project_db \<Rightarrow> Principal \<Rightarrow> gotime \<Rightarrow> projectstore_error + Portfolio_view" where
  "store_Portfolio db actor clock =
     (case Authorize actor ActionIntelligenceRead of Some e \<Rightarrow> Inl (PsAccess e)
      | None \<Rightarrow>
          let f = no_filter\<lparr>pf_State := ''active'', pf_Limit := 12\<rparr> in
          bindE (ListProjects db actor f) (\<lambda>projects.
          bindE (ListJobs db actor 0 f) (\<lambda>jobs.
          Inr \<lparr>pv_Projects = take 12 projects,
            pv_AttentionCount = int (length (filter (\<lambda>r. pj_WorkspaceID (pw_Project r) = pr_Workspace actor \<and>
              pj_State (pw_Project r) = StateActive \<and> needs_attention db r) (pt_projects db))),
            pv_ActiveJobs = take 12 jobs, pv_GeneratedAt = utc clock\<rparr>)))"

section \<open>Associations\<close>

fun association_status_text :: "AssociationStatus \<Rightarrow> string" where
  "association_status_text AssociationLinked = ''linked''" | "association_status_text AssociationUnresolved = ''unresolved''"
| "association_status_text AssociationCorrected = ''corrected''" | "association_status_text (AssociationStatusOther s) = s"

definition cmp_association :: "Association \<Rightarrow> Association \<Rightarrow> int" where
  "cmp_association a b =
     cmp_then (cmp_int (if as_Status a = AssociationUnresolved then 0 else 1) (if as_Status b = AssociationUnresolved then 0 else 1))
       (cmp_then (cmp_f64 (as_Confidence a) (as_Confidence b)) (cmp_int (as_ID a) (as_ID b)))"

definition ListAssociations :: "project_db \<Rightarrow> Principal \<Rightarrow> int64 \<Rightarrow> ProjectFilter \<Rightarrow> projectstore_error + Association list" where
  "ListAssociations db actor projectID f =
     (case Authorize actor ActionIntelligenceRead of Some e \<Rightarrow> Inl (PsAccess e)
      | None \<Rightarrow> Inr (if row_of_project db (pr_Workspace actor) projectID = None then []
          else paged f (sort_func cmp_association (filter (\<lambda>a. as_ProjectID a = projectID \<and>
            (pf_State f = '''' \<or> association_status_text (as_Status a) = pf_State f)) (pt_associations db)))))"

definition nullable_project :: "int64 \<Rightarrow> int64 option" where
  "nullable_project i = (if i \<le> 0 then None else Some i)"

definition correction_replayed :: "project_db \<Rightarrow> Principal \<Rightarrow> int64 \<Rightarrow> string \<Rightarrow> int64 \<Rightarrow> int64 \<Rightarrow> bool" where
  "correction_replayed db actor associationID action target projectID =
     list_ex (\<lambda>c. cw_AssociationID c = associationID \<and> cw_Action c = action \<and> cw_To c = nullable_project target \<and>
       cw_From c = projectID \<and> row_of_project db (pr_Workspace actor) projectID \<noteq> None) (pt_corrections db)"

definition reassign_target :: "project_db \<Rightarrow> Principal \<Rightarrow> string \<Rightarrow> int64 \<Rightarrow> project_error option" where
  "reassign_target db actor action target =
     (if action \<noteq> ''reassign'' then None
      else (case row_of_project db (pr_Workspace actor) target of None \<Rightarrow> Some ProjErrNotFound
        | Some r \<Rightarrow> if pj_State (pw_Project r) = StateDeleting \<or> pj_State (pw_Project r) = StateDeleted then Some ProjErrConflict else None))"

definition insert_correction :: "project_db \<Rightarrow> correction_row \<Rightarrow> string \<Rightarrow> projectstore_error + project_db" where
  "insert_correction db c requestID =
     (if list_ex (\<lambda>d. cw_ID d = cw_ID c \<or> (cw_AssociationID d = cw_AssociationID c \<and> cw_Action d = cw_Action c \<and> cw_To d = cw_To c))
           (pt_corrections db)
      then Inl (PsProject ProjErrConflict)
      else if cw_ID c \<le> 0 \<or> list_all (\<lambda>x. x = CHR '' '') requestID \<or>
        (case cw_To c of None \<Rightarrow> False | Some p \<Rightarrow> p \<notin> set (map (\<lambda>r. pj_ID (pw_Project r)) (pt_projects db)))
      then Inl PsConstraint
      else Inr (db\<lparr>pt_corrections := pt_corrections db @ [c]\<rparr>))"

text \<open>The association is read without its constraint, as the query selects no column for it.\<close>

definition CorrectAssociation ::
    "project_db \<Rightarrow> Principal \<Rightarrow> int64 \<Rightarrow> int64 \<Rightarrow> int64 \<Rightarrow> string \<Rightarrow> string \<Rightarrow> string \<Rightarrow> gotime \<Rightarrow> int64 list \<Rightarrow>
     projectstore_error + (int64 \<times> bool) \<times> project_db" where
  "CorrectAssociation db actor projectID associationID target action reason requestID clock ids =
     (case Authorize actor ActionProjectWrite of Some e \<Rightarrow> Inl (PsAccess e)
      | None \<Rightarrow>
      let correction = \<lparr>co_Action = action, co_ProjectID = target, co_Reason = trim_space reason, co_ActorID = pr_ActorID actor,
            co_At = utc clock\<rparr> in
      if correction_replayed db actor associationID action target projectID then Inr ((0, False), db)
      else (case find (\<lambda>a. as_ID a = associationID \<and> as_ProjectID a = projectID) (pt_associations db) of
        None \<Rightarrow> Inl (PsProject ProjErrNotFound)
      | Some a \<Rightarrow>
          (case reassign_target db actor action target of Some e \<Rightarrow> Inl (PsProject e)
           | None \<Rightarrow>
             bindE (map_sum PsProject id (Correct (a\<lparr>as_Constraint := None\<rparr>) correction)) (\<lambda>(updated, recalculate).
             if \<not> recalculate then Inr ((0, False), db)
             else (case ids of
               correctionID # jobID # rest \<Rightarrow>
                 bindE (insert_correction db \<lparr>cw_ID = correctionID, cw_AssociationID = associationID, cw_Action = action, cw_From = projectID,
                     cw_To = nullable_project target, cw_Reason = co_Reason correction, cw_ActorID = pr_ActorID actor\<rparr> requestID) (\<lambda>db1.
                 let db2 = db1\<lparr>pt_associations := map (\<lambda>b. if as_ID b = associationID
                       then b\<lparr>as_ProjectID := as_ProjectID updated, as_Status := AssociationCorrected, as_Version := as_Version updated\<rparr>
                       else b) (pt_associations db)\<rparr>;
                     key = ''association:'' @ format_int associationID @ '':'' @ action @ '':'' @ format_int target in
                 bindE (map_sum PsJob id (job_New jobID projectID ''association_recalculation'' ''snapshots'' None True clock)) (\<lambda>queued.
                 bindE (insert_queued db2 rest queued actor requestID key) (\<lambda>(db3, rest2).
                 bindE (writeOutbox db3 rest2 projectID jobID ''association.corrected'' requestID) (\<lambda>db4.
                 Inr ((jobID, True), db4)))))
             | _ \<Rightarrow> Inl PsIDs)))))"


section \<open>What the tables keep\<close>

lemma writeOutbox_frame: "writeOutbox db ids p j ty req = Inr db' \<Longrightarrow> \<exists>jobs. db' = db\<lparr>pt_jobs := jobs\<rparr>"
  by (auto simp: writeOutbox_def result_simps)

lemma write_audit_frame: "write_audit db ids a act i req = Inr (db', rest) \<Longrightarrow> \<exists>w. db' = db\<lparr>pt_audit := w\<rparr>"
  by (auto simp: write_audit_def split: list.splits if_splits)

lemma insert_queued_frame: "insert_queued db ids v a req key = Inr (db', rest) \<Longrightarrow> \<exists>jobs. db' = db\<lparr>pt_jobs := jobs\<rparr>"
  by (auto simp: insert_queued_def result_simps split: if_splits)

definition project_tables :: "project_db \<Rightarrow> stored_project list \<times> Repository list" where
  "project_tables db = (pt_projects db, pt_repositories db)"

lemma project_tables_simps [simp]:
  "project_tables (db\<lparr>pt_jobs := a\<rparr>) = project_tables db" "project_tables (db\<lparr>pt_audit := w\<rparr>) = project_tables db"
  "project_tables (db\<lparr>pt_sources := s\<rparr>) = project_tables db" "project_tables (db\<lparr>pt_catalog := g\<rparr>) = project_tables db"
  "project_tables (db\<lparr>pt_keys := k\<rparr>) = project_tables db" "project_tables (db\<lparr>pt_associations := x\<rparr>) = project_tables db"
  "project_tables (db\<lparr>pt_corrections := y\<rparr>) = project_tables db"
  "project_tables (set_catalog db i f) = project_tables db" "project_tables (set_source db i g') = project_tables db"
  by (simp_all add: project_tables_def set_catalog_def set_source_def)

lemma frame_tables:
  "writeOutbox db ids p j ty req = Inr db' \<Longrightarrow> project_tables db' = project_tables db"
  "write_audit db ids a act i req = Inr (db', rest) \<Longrightarrow> project_tables db' = project_tables db"
  "insert_queued db ids v a req key = Inr (db', rest) \<Longrightarrow> project_tables db' = project_tables db"
  using writeOutbox_frame [of db ids p j ty req db'] write_audit_frame [of db ids a act i req db' rest]
    insert_queued_frame [of db ids v a req key db' rest] by auto

definition stored_id :: "stored_project \<Rightarrow> int64" where
  "stored_id r = pj_ID (pw_Project r)"

definition assembled :: "Repository list \<Rightarrow> stored_project \<Rightarrow> Project" where
  "assembled rs r = (pw_Project r)\<lparr>pj_Repositories := filter (\<lambda>x. rp_ProjectID x = stored_id r) rs\<rparr>"

definition stored_row_ok :: "Repository list \<Rightarrow> stored_project \<Rightarrow> bool" where
  "stored_row_ok rs r \<longleftrightarrow> project_Validate (assembled rs r) = None \<and>
     ((pj_State (pw_Project r) = StateDeleting \<or> pj_State (pw_Project r) = StateDeleted) = (pw_UnavailableAt r \<noteq> None)) \<and>
     (pj_State (pw_Project r) = StateDeleted) = (pj_DeletedAt (pw_Project r) \<noteq> None)"

definition tables_ok :: "stored_project list \<Rightarrow> Repository list \<Rightarrow> bool" where
  "tables_ok ps rs \<longleftrightarrow> distinct (map stored_id ps) \<and> distinct (map rp_ID rs) \<and> distinct (map rp_CanonicalURL rs) \<and>
     list_all (\<lambda>x. rp_ProjectID x \<in> set (map stored_id ps)) rs \<and> list_all (stored_row_ok rs) ps"

definition project_db_ok :: "project_db \<Rightarrow> bool" where
  "project_db_ok db \<longleftrightarrow> tables_ok (pt_projects db) (pt_repositories db)"

lemma project_db_ok_tables: "project_tables db' = project_tables db \<Longrightarrow> project_db_ok db' = project_db_ok db"
  by (simp add: project_db_ok_def project_tables_def)

text \<open>What the rules look at in a repository: all but its version.\<close>

definition repo_key :: "Repository \<Rightarrow> int64 \<times> int64 \<times> string \<times> string \<times> RepositoryRole" where
  "repo_key r = (rp_ID r, rp_ProjectID r, rp_Provider r, rp_CanonicalURL r, rp_Role r)"

definition same_repositories :: "Repository list \<Rightarrow> Repository list \<Rightarrow> bool" where
  "same_repositories xs ys \<longleftrightarrow> mset (map repo_key xs) = mset (map repo_key ys)"

lemma same_repositories_refl [simp]: "same_repositories xs xs"
  by (simp add: same_repositories_def)

lemma same_repositories_map:
  assumes "same_repositories xs ys" "\<And>x y. repo_key x = repo_key y \<Longrightarrow> f x = f y"
  shows "mset (map f xs) = mset (map f ys)"
proof -
  have f: "f x = (\<lambda>k. f \<lparr>rp_ID = fst k, rp_ProjectID = fst (snd k), rp_Provider = fst (snd (snd k)),
      rp_CanonicalURL = fst (snd (snd (snd k))), rp_Role = snd (snd (snd (snd k))), rp_Version = 0\<rparr>) (repo_key x)" for x
    by (rule assms(2)) (simp add: repo_key_def)
  define g where "g = (\<lambda>k. f \<lparr>rp_ID = fst k, rp_ProjectID = fst (snd k), rp_Provider = fst (snd (snd k)),
      rp_CanonicalURL = fst (snd (snd (snd k))), rp_Role = snd (snd (snd (snd k))), rp_Version = 0\<rparr>)"
  have fg: "f = g \<circ> repo_key" using f by (simp add: g_def fun_eq_iff)
  have "mset (map f zs) = image_mset g (mset (map repo_key zs))" for zs
    unfolding fg by (induction zs) auto
  with assms(1) show ?thesis by (simp add: same_repositories_def)
qed

lemma primaries_mset: "primaries xs = int (size (filter_mset (\<lambda>r. r = RolePrimary) (mset (map rp_Role xs))))"
  by (induction xs) auto

lemma valid_same_repositories:
  assumes "same_repositories xs (pj_Repositories p)"
  shows "project_Validate (p\<lparr>pj_Repositories := xs\<rparr>) = None \<longleftrightarrow> project_Validate p = None"
proof -
  note m = same_repositories_map [OF assms]
  have "mset (map (malformed_repository (pj_ID p)) xs) = mset (map (malformed_repository (pj_ID p)) (pj_Repositories p))"
    by (rule m) (simp add: repo_key_def malformed_repository_def)
  then have "set (map (malformed_repository (pj_ID p)) xs) = set (map (malformed_repository (pj_ID p)) (pj_Repositories p))"
    by (rule mset_eq_setD)
  then have "list_all (\<lambda>r. \<not> malformed_repository (pj_ID p) r) xs = list_all (\<lambda>r. \<not> malformed_repository (pj_ID p) r) (pj_Repositories p)"
    by (auto simp: list_all_iff)
  moreover have "mset (map canonical xs) = mset (map canonical (pj_Repositories p))"
    by (rule m) (simp add: repo_key_def canonical_def)
  then have "distinct (map canonical xs) = distinct (map canonical (pj_Repositories p))" by (rule mset_eq_imp_distinct_iff)
  moreover have "mset (map rp_Role xs) = mset (map rp_Role (pj_Repositories p))" by (rule m) (simp add: repo_key_def)
  then have "primaries xs = primaries (pj_Repositories p)" by (simp add: primaries_mset)
  ultimately show ?thesis by (simp add: project_Validate_None)
qed

text \<open>
  The contract of an edit of the repositories: the project that the tables show afterwards is the one that the rule of the domain
  computes from the project they showed before, up to the order and the versions of the repositories.
\<close>

definition edited :: "project_db \<Rightarrow> int64 \<Rightarrow> int64 \<Rightarrow> (Project \<Rightarrow> project_error + Project) \<Rightarrow> project_db \<Rightarrow> bool" where
  "edited db ws pid rule db' \<longleftrightarrow> (\<exists>p q p'. loadProjectForUpdate db ws pid = Inr p \<and> rule p = Inr q \<and> loadProjectForUpdate db' ws pid = Inr p' \<and>
     p'\<lparr>pj_Repositories := []\<rparr> = q\<lparr>pj_Repositories := []\<rparr> \<and> same_repositories (pj_Repositories p') (pj_Repositories q))"

lemma loadProject_Inr:
  "loadProjectForUpdate db ws pid = Inr p \<longleftrightarrow> (\<exists>r. row_of_project db ws pid = Some r \<and>
     p = (pw_Project r)\<lparr>pj_Repositories := sort_func cmp_repository (stored_repositories_of db pid)\<rparr>)"
  by (auto simp: loadProjectForUpdate_def split: option.splits)

lemma row_of_project_Some: "row_of_project db ws i = Some r \<Longrightarrow> r \<in> set (pt_projects db) \<and> stored_id r = i \<and> pj_WorkspaceID (pw_Project r) = ws"
  by (auto simp: row_of_project_def find_Some_iff stored_id_def)

lemma row_after_set:
  assumes "pt_projects db' = map (\<lambda>r. if stored_id r = i then f r else r) (pt_projects db)"
    and "\<And>r. stored_id (f r) = stored_id r \<and> pj_WorkspaceID (pw_Project (f r)) = pj_WorkspaceID (pw_Project r)"
  shows "row_of_project db' ws j = map_option (\<lambda>r. if j = i then f r else r) (row_of_project db ws j)"
proof -
  have "find (\<lambda>r. stored_id r = j \<and> pj_WorkspaceID (pw_Project r) = ws) (map (\<lambda>r. if stored_id r = i then f r else r) ps) =
      map_option (\<lambda>r. if j = i then f r else r) (find (\<lambda>r. stored_id r = j \<and> pj_WorkspaceID (pw_Project r) = ws) ps)" for ps
    using assms(2) by (induction ps) auto
  then show ?thesis unfolding row_of_project_def assms(1) stored_id_def [symmetric] by simp
qed

lemma set_version_keeps: "stored_id (set_version v t r) = stored_id r \<and> pj_WorkspaceID (pw_Project (set_version v t r)) = pj_WorkspaceID (pw_Project r)"
  by (simp add: set_version_def stored_id_def)

lemma same_repositories_sort [simp]:
  "same_repositories (sort_func c xs) ys = same_repositories xs ys" "same_repositories ys (sort_func c xs) = same_repositories ys xs"
  by (simp_all add: same_repositories_def)

lemma loaded_valid: "project_db_ok db \<Longrightarrow> loadProjectForUpdate db ws pid = Inr p \<Longrightarrow> project_Validate p = None"
proof -
  assume ok: "project_db_ok db" and p: "loadProjectForUpdate db ws pid = Inr p"
  then obtain r where r: "row_of_project db ws pid = Some r"
    "p = (pw_Project r)\<lparr>pj_Repositories := sort_func cmp_repository (stored_repositories_of db pid)\<rparr>"
    by (auto simp: loadProject_Inr)
  note m = row_of_project_Some [OF r(1)]
  then have "project_Validate (assembled (pt_repositories db) r) = None"
    using ok by (simp add: project_db_ok_def tables_ok_def stored_row_ok_def list_all_iff)
  moreover have "assembled (pt_repositories db) r = (pw_Project r)\<lparr>pj_Repositories := stored_repositories_of db pid\<rparr>"
    using m by (simp add: assembled_def stored_repositories_of_def)
  ultimately show ?thesis
    using valid_same_repositories [of "sort_func cmp_repository (stored_repositories_of db pid)" "(pw_Project r)\<lparr>pj_Repositories := stored_repositories_of db pid\<rparr>"]
    by (simp add: r(2))
qed

lemma edited_intro:
  assumes "project_db_ok db" "loadProjectForUpdate db ws pid = Inr p" "rule p = Inr q" "project_Validate q = None"
    and kept: "q\<lparr>pj_Repositories := [], pj_Version := 0\<rparr> = p\<lparr>pj_Repositories := [], pj_Version := 0\<rparr>"
    and tables: "project_tables db' = (map (\<lambda>r. if stored_id r = pid then set_version (pj_Version q) t r else r) (pt_projects db), rs)"
    and mine: "same_repositories (filter (\<lambda>x. rp_ProjectID x = pid) rs) (pj_Repositories q)"
    and others: "\<And>i. i \<noteq> pid \<Longrightarrow> filter (\<lambda>x. rp_ProjectID x = i) rs = filter (\<lambda>x. rp_ProjectID x = i) (pt_repositories db)"
    and dist: "distinct (map rp_ID rs)" "distinct (map rp_CanonicalURL rs)"
    and sub: "rp_ProjectID ` set rs \<subseteq> insert pid (rp_ProjectID ` set (pt_repositories db))"
  shows "edited db ws pid rule db' \<and> project_db_ok db'"
proof -
  obtain r where r: "row_of_project db ws pid = Some r"
    "p = (pw_Project r)\<lparr>pj_Repositories := sort_func cmp_repository (stored_repositories_of db pid)\<rparr>"
    using assms(2) by (auto simp: loadProject_Inr)
  note m = row_of_project_Some [OF r(1)]
  have t: "pt_projects db' = map (\<lambda>r. if stored_id r = pid then set_version (pj_Version q) t r else r) (pt_projects db)" "pt_repositories db' = rs"
    using tables by (simp_all add: project_tables_def)
  have row: "row_of_project db' ws pid = Some (set_version (pj_Version q) t r)"
    unfolding row_after_set [OF t(1) set_version_keeps] r(1) by simp
  define p' where "p' = (pw_Project (set_version (pj_Version q) t r))\<lparr>pj_Repositories := sort_func cmp_repository (stored_repositories_of db' pid)\<rparr>"
  have p': "loadProjectForUpdate db' ws pid = Inr p'" unfolding loadProject_Inr p'_def using row by blast
  have q: "q\<lparr>pj_Repositories := []\<rparr> = (pw_Project r)\<lparr>pj_Repositories := [], pj_Version := pj_Version q\<rparr>"
    using kept unfolding r(2) by (cases q, cases "pw_Project r") simp
  have same: "same_repositories (pj_Repositories p') (pj_Repositories q)" using mine by (simp add: p'_def stored_repositories_of_def t(2))
  have "p'\<lparr>pj_Repositories := []\<rparr> = q\<lparr>pj_Repositories := []\<rparr>" unfolding q by (simp add: p'_def set_version_def)
  with p' same assms(2,3) have ed: "edited db ws pid rule db'" unfolding edited_def by blast
  have row_ok: "stored_row_ok rs (set_version (pj_Version q) t x)" if x: "x \<in> set (pt_projects db)" "stored_id x = pid" for x
  proof -
    have "x = r" using x m assms(1) by (auto simp: project_db_ok_def tables_ok_def distinct_map inj_on_def)
    have "assembled rs (set_version (pj_Version q) t r) = q\<lparr>pj_Repositories := filter (\<lambda>x. rp_ProjectID x = pid) rs\<rparr>"
      using q m by (simp add: assembled_def set_version_def stored_id_def) (cases q, cases "pw_Project r", simp)
    moreover have "project_Validate (q\<lparr>pj_Repositories := filter (\<lambda>x. rp_ProjectID x = pid) rs\<rparr>) = None"
      using valid_same_repositories [OF mine] assms(4) by simp
    moreover have "stored_row_ok (pt_repositories db) r" using m assms(1) by (simp add: project_db_ok_def tables_ok_def list_all_iff)
    ultimately show ?thesis unfolding \<open>x = r\<close> stored_row_ok_def by (auto simp: set_version_def)
  qed
  have other_ok: "stored_row_ok rs x" if x: "x \<in> set (pt_projects db)" "stored_id x \<noteq> pid" for x
  proof -
    have "assembled rs x = assembled (pt_repositories db) x" using others [OF x(2)] by (simp add: assembled_def)
    moreover have "stored_row_ok (pt_repositories db) x" using x assms(1) by (simp add: project_db_ok_def tables_ok_def list_all_iff)
    ultimately show ?thesis unfolding stored_row_ok_def by metis
  qed
  have ids: "map stored_id (pt_projects db') = map stored_id (pt_projects db)" unfolding t by (simp add: set_version_keeps)
  have "pid \<in> set (map stored_id (pt_projects db))" using m by force
  then have "list_all (\<lambda>x. rp_ProjectID x \<in> set (map stored_id (pt_projects db))) rs"
    using sub assms(1) by (auto simp: project_db_ok_def tables_ok_def list_all_iff)
  then have "project_db_ok db'"
    using row_ok other_ok dist assms(1) unfolding project_db_ok_def tables_ok_def ids t(2)
    by (auto simp: t(1) list_all_iff)
  with ed show ?thesis by simp
qed

lemma demote_key: "rp_ID (demote r) = rp_ID r" "rp_ProjectID (demote r) = rp_ProjectID r" "rp_CanonicalURL (demote r) = rp_CanonicalURL r"
  "rp_Provider (demote r) = rp_Provider r"
  by (simp_all add: demote_def)

lemma filter_map_if:
  assumes "\<And>r. P (f r) = P r" "\<And>r. P r \<Longrightarrow> Q r"
  shows "filter P (map (\<lambda>r. if Q r then f r else r) rs) = map f (filter P rs)"
  using assms by (induction rs) auto

lemma filter_map_other:
  assumes "\<And>r. P (f r) = P r" "\<And>r. P r \<Longrightarrow> \<not> Q r"
  shows "filter P (map (\<lambda>r. if Q r then f r else r) rs) = filter P rs"
  using assms by (induction rs) auto

lemma map_if_key: "(\<And>r. g (f r) = g r) \<Longrightarrow> map g (map (\<lambda>r. if Q r then f r else r) rs) = map g rs"
  by (induction rs) auto

lemma set_project_tables: "project_tables (set_project db i f) = (map (\<lambda>r. if stored_id r = i then f r else r) (pt_projects db), pt_repositories db)"
  by (simp add: project_tables_def set_project_def stored_id_def)

lemma AddRepository_kept: "AddRepository p r n = Inr q \<Longrightarrow> q\<lparr>pj_Repositories := [], pj_Version := 0\<rparr> = p\<lparr>pj_Repositories := [], pj_Version := 0\<rparr>"
  by (auto simp: AddRepository_def Let_def validated_Inr split: if_splits)

lemma ChangeRepositoryRole_kept: "ChangeRepositoryRole p i role = Inr q \<Longrightarrow> q\<lparr>pj_Repositories := [], pj_Version := 0\<rparr> = p\<lparr>pj_Repositories := [], pj_Version := 0\<rparr>"
  by (auto simp: ChangeRepositoryRole_def Let_def validated_Inr split: if_splits option.splits)

lemma RemoveRepository_kept: "RemoveRepository p i = Inr q \<Longrightarrow> q\<lparr>pj_Repositories := [], pj_Version := 0\<rparr> = p\<lparr>pj_Repositories := [], pj_Version := 0\<rparr>"
  by (auto simp: RemoveRepository_def Let_def validated_Inr split: if_splits option.splits)

lemma edited_same:
  "loadProjectForUpdate db ws pid = Inr p \<Longrightarrow> rule p = Inr p \<Longrightarrow> edited db ws pid rule db"
  unfolding edited_def using same_repositories_refl by blast

definition requested_repository :: "canonical_repository \<Rightarrow> int64 \<Rightarrow> int64 \<Rightarrow> RepositoryRole \<Rightarrow> Repository" where
  "requested_repository c rid pid role = \<lparr>rp_ID = rid, rp_ProjectID = pid, rp_Provider = cr_Provider c, rp_CanonicalURL = cr_Canonical c,
     rp_Role = role, rp_Version = 1\<rparr>"

lemma insert_repository_Inr: "insert_repository db r = Inr db' \<Longrightarrow> db' = db\<lparr>pt_repositories := pt_repositories db @ [r]\<rparr> \<and>
    rp_ID r \<notin> rp_ID ` set (pt_repositories db) \<and> rp_CanonicalURL r \<notin> rp_CanonicalURL ` set (pt_repositories db)"
  by (auto simp: insert_repository_def list_ex_iff split: if_splits)

definition add_cases :: "project_db \<Rightarrow> gotime \<Rightarrow> int64 \<Rightarrow> Repository \<Rightarrow> Project \<Rightarrow> Project \<Rightarrow> project_db \<Rightarrow> bool" where
  "add_cases db t pid w p q db' \<longleftrightarrow>
     (find (\<lambda>e. to_lower (rp_CanonicalURL e) = to_lower (rp_CanonicalURL w)) (caller_after_AddRepository p w 20) \<noteq> None \<and> db' = db) \<or>
     (\<exists>db2. insert_repository (if rp_Role w = RolePrimary then demote_stored pid None db else db) w = Inr db2 \<and>
        find (\<lambda>e. to_lower (rp_CanonicalURL e) = to_lower (rp_CanonicalURL w)) (caller_after_AddRepository p w 20) = None \<and>
        project_tables db' = project_tables (set_project db2 pid (set_version (pj_Version q) t)))"

lemma AddRepository_store_cases:
  assumes "AddRepository_store parse db actor pid rawURL role req t ids = Inr (v, db')"
  shows "\<exists>c rid p q. rid = hd ids \<and> CanonicalRepositoryURL parse rawURL = Inr c \<and> loadProjectForUpdate db (pr_Workspace actor) pid = Inr p \<and>
    AddRepository p (requested_repository c rid pid role) 20 = Inr q \<and> add_cases db t pid (requested_repository c rid pid role) p q db'"
proof -
  obtain c rid rest where c: "CanonicalRepositoryURL parse rawURL = Inr c" and ids: "ids = rid # rest"
    using assms by (cases ids) (auto simp: AddRepository_store_def result_simps Let_def split: option.splits)
  define w where "w = requested_repository c rid pid role"
  have w: "\<lparr>rp_ID = rid, rp_ProjectID = pid, rp_Provider = cr_Provider c, rp_CanonicalURL = cr_Canonical c, rp_Role = role, rp_Version = 1\<rparr> = w"
    by (simp add: w_def requested_repository_def)
  have wf: "rp_CanonicalURL w = cr_Canonical c" "rp_Role w = role" by (simp_all add: w_def requested_repository_def)
  obtain p q where p: "loadProjectForUpdate db (pr_Workspace actor) pid = Inr p" and q: "AddRepository p w 20 = Inr q"
    using assms c w by (auto simp: AddRepository_store_def ids result_simps Let_def store_maxRepositories_def split: option.splits if_splits)
  have "add_cases db t pid w p q db'"
    using assms c p q unfolding add_cases_def wf
    by (auto simp: AddRepository_store_def ids result_simps Let_def store_maxRepositories_def w dest!: frame_tables(1) split: option.splits if_splits)
  with c p q ids show ?thesis unfolding w_def by force
qed

lemma AddRepository_store_refines:
  assumes "project_db_ok db" "AddRepository_store parse db actor pid rawURL role req t ids = Inr (v, db')"
  shows "(\<exists>c. CanonicalRepositoryURL parse rawURL = Inr c \<and>
    edited db (pr_Workspace actor) pid (\<lambda>p. AddRepository p (requested_repository c (hd ids) pid role) 20) db') \<and> project_db_ok db'"
proof -
  obtain c rid p q where rid: "rid = hd ids" and c: "CanonicalRepositoryURL parse rawURL = Inr c" and p: "loadProjectForUpdate db (pr_Workspace actor) pid = Inr p"
    and q: "AddRepository p (requested_repository c rid pid role) 20 = Inr q"
    and cs: "add_cases db t pid (requested_repository c rid pid role) p q db'" using AddRepository_store_cases [OF assms(2)] by blast
  define w where "w = requested_repository c rid pid role"
  have w: "rp_ProjectID w = pid" "rp_Role w = role" "rp_Version w = 1" by (simp_all add: w_def requested_repository_def)
  note q = q [folded w_def] note cs = cs [folded w_def, unfolded w(2)]
  have pid: "pj_Repositories p = sort_func cmp_repository (stored_repositories_of db pid)"
    using p by (auto simp: loadProject_Inr)
  note valid = loaded_valid [OF assms(1) p]
  have vq: "project_Validate q = None" using project_step_valid [OF valid, of "PAddRepository w 20" q] q by simp
  let ?same = "\<lambda>e. to_lower (rp_CanonicalURL e) = to_lower (rp_CanonicalURL w)"
  have ok: "distinct (map rp_ID (pt_repositories db))" "distinct (map rp_CanonicalURL (pt_repositories db))"
    using assms(1) by (simp_all add: project_db_ok_def tables_ok_def)
  have "edited db (pr_Workspace actor) pid (\<lambda>p. AddRepository p w 20) db' \<and> project_db_ok db'"
  proof (cases "list_ex ?same (pj_Repositories p)")
    case True
    then have "q = p" using q by (auto simp: AddRepository_def split: if_splits)
    have "find ?same (caller_after_AddRepository p w 20) \<noteq> None" using True by (auto simp: caller_after_AddRepository_def find_None_iff list_ex_iff)
    then have "db' = db" using cs by (auto simp: add_cases_def)
    with \<open>q = p\<close> edited_same [OF p, of "\<lambda>p. AddRepository p w 20"] q assms(1) show ?thesis by simp
  next
    case False
    have none: "find ?same (caller_after_AddRepository p w 20) = None"
      using False by (auto simp: caller_after_AddRepository_def find_None_iff list_ex_iff demote_key)
    define rs0 where "rs0 = (if role = RolePrimary then map (\<lambda>r. if rp_ProjectID r = pid then demote r else r) (pt_repositories db) else pt_repositories db)"
    obtain db2 where ins: "insert_repository (if role = RolePrimary then demote_stored pid None db else db) w = Inr db2"
      and t: "project_tables db' = project_tables (set_project db2 pid (set_version (pj_Version q) t))"
      using cs none by (auto simp: add_cases_def w)
    have rs0: "pt_repositories (if role = RolePrimary then demote_stored pid None db else db) = rs0"
      "pt_projects (if role = RolePrimary then demote_stored pid None db else db) = pt_projects db"
      by (simp_all add: demote_stored_def rs0_def)
    note i = insert_repository_Inr [OF ins, unfolded rs0]
    have t: "project_tables db' = (map (\<lambda>r. if stored_id r = pid then set_version (pj_Version q) t r else r) (pt_projects db), rs0 @ [w])"
      using t i rs0(2) by (simp add: set_project_tables)
    have keys: "map rp_ID rs0 = map rp_ID (pt_repositories db)" "map rp_CanonicalURL rs0 = map rp_CanonicalURL (pt_repositories db)"
      "map rp_ProjectID rs0 = map rp_ProjectID (pt_repositories db)"
      by (simp_all add: rs0_def map_if_key demote_key del: map_map)
    have qr: "pj_Repositories q = (if role = RolePrimary then map demote (pj_Repositories p) else pj_Repositories p) @ [w\<lparr>rp_Version := 1\<rparr>]"
      using q False by (auto simp: AddRepository_def Let_def w validated_Inr split: if_splits)
    have mine: "filter (\<lambda>x. rp_ProjectID x = pid) rs0 = (if role = RolePrimary then map demote (stored_repositories_of db pid) else stored_repositories_of db pid)"
      by (simp add: rs0_def stored_repositories_of_def filter_map_if demote_key)
    have "same_repositories (filter (\<lambda>x. rp_ProjectID x = pid) (rs0 @ [w])) (pj_Repositories q)"
      unfolding qr same_repositories_def by (simp add: mine pid w) (simp add: repo_key_def flip: mset_map)
    moreover have "filter (\<lambda>x. rp_ProjectID x = i) (rs0 @ [w]) = filter (\<lambda>x. rp_ProjectID x = i) (pt_repositories db)" if "i \<noteq> pid" for i
      using that w by (auto simp: rs0_def demote_key intro!: filter_map_other)
    moreover note im = keys [THEN arg_cong [of _ _ set], unfolded set_map]
    ultimately show ?thesis
      by (intro edited_intro [where rule = "\<lambda>p. AddRepository p w 20", OF assms(1) p q vq AddRepository_kept [OF q] t])
        (use ok i keys im w in \<open>simp_all add: im\<close>)
  qed
  with c show ?thesis unfolding w_def rid by blast
qed

lemma distinct_ids_index:
  assumes "distinct (map rp_ID xs)" "i < length xs" "j < length xs"
  shows "rp_ID (xs ! j) = rp_ID (xs ! i) \<longleftrightarrow> j = i"
  using assms nth_eq_iff_index_eq [of "map rp_ID xs" j i] by auto

definition role_key :: "int64 \<Rightarrow> RepositoryRole \<Rightarrow> Repository \<Rightarrow> int64 \<times> int64 \<times> string \<times> string \<times> RepositoryRole" where
  "role_key rid role r = (rp_ID r, rp_ProjectID r, rp_Provider r, rp_CanonicalURL r,
     if rp_ID r = rid then role else if role = RolePrimary then rp_Role (demote r) else rp_Role r)"

lemma ChangeRepositoryRole_keys:
  assumes "ChangeRepositoryRole p rid role = Inr q" "project_Validate p = None" "distinct (map rp_ID (pj_Repositories p))"
  shows "map repo_key (pj_Repositories q) = map (role_key rid role) (pj_Repositories p)"
proof -
  let ?rs = "pj_Repositories p"
  obtain i where i: "index_of (\<lambda>r. rp_ID r = rid) ?rs = Some i" and nd: "\<not> read_only p"
    using assms(1) by (auto simp: ChangeRepositoryRole_def split: if_splits option.splits)
  then have len: "i < length ?rs" and rid: "rp_ID (?rs ! i) = rid" by (auto dest: index_of_Some)
  have at_i: "rp_ID (?rs ! j) = rid \<longleftrightarrow> j = i" if "j < length ?rs" for j using distinct_ids_index [OF assms(3) len that] rid by simp
  show ?thesis
  proof (cases "rp_Role (?rs ! i) = role")
    case True
    then have q: "q = p" using assms(1) i nd by (auto simp: ChangeRepositoryRole_def split: if_splits)
    have one: "primaries ?rs = 1" using assms(2) nd by (auto simp: project_Validate_None read_only_def)
    have "repo_key (?rs ! j) = role_key rid role (?rs ! j)" if "j < length ?rs" for j
      using True at_i [OF that] single_primary [OF one len] that by (auto simp: repo_key_def role_key_def demote_def)
    then show ?thesis unfolding q by (intro nth_equalityI) simp_all
  next
    case False
    define rs where "rs = (if role = RolePrimary then map demote ?rs else ?rs)"
    have qr: "pj_Repositories q = rs[i := (rs ! i)\<lparr>rp_Role := role, rp_Version := rp_Version (rs ! i) + 1\<rparr>]"
      using assms(1) i nd False by (auto simp: ChangeRepositoryRole_def Let_def validated_Inr rs_def split: if_splits)
    show ?thesis unfolding qr using len at_i
      by (intro nth_equalityI) (auto simp: rs_def nth_list_update repo_key_def role_key_def demote_key)
  qed
qed

lemma find_mem: "find P xs = Some x \<Longrightarrow> x \<in> set xs \<and> P x"
  by (auto simp: find_Some_iff)

lemma loaded_repositories:
  assumes "project_db_ok db" "loadProjectForUpdate db ws pid = Inr p"
  shows "pj_Repositories p = sort_func cmp_repository (stored_repositories_of db pid)" "distinct (map rp_ID (pj_Repositories p))"
proof -
  show s: "pj_Repositories p = sort_func cmp_repository (stored_repositories_of db pid)" using assms(2) by (auto simp: loadProject_Inr)
  have "distinct (map rp_ID (stored_repositories_of db pid))"
    using assms(1) by (simp add: project_db_ok_def tables_ok_def stored_repositories_of_def distinct_map_filter)
  then show "distinct (map rp_ID (pj_Repositories p))"
    unfolding s by (metis mset_eq_imp_distinct_iff mset_map mset_sort_func)
qed

lemma ChangeRepositoryRole_store_refines:
  assumes "project_db_ok db" "ChangeRepositoryRole_store db actor pid rid ver role req t ids = Inr (v, db')"
  shows "edited db (pr_Workspace actor) pid (\<lambda>p. ChangeRepositoryRole p rid role) db' \<and> project_db_ok db'"
proof -
  obtain p q where p: "loadProjectForUpdate db (pr_Workspace actor) pid = Inr p" and q: "ChangeRepositoryRole p rid role = Inr q"
    and t: "project_tables db' = project_tables (set_project (change_role (if role = RolePrimary then demote_stored pid (Some rid) db else db)
        pid rid role) pid (set_version (pj_Version q) t))"
    using assms(2) by (fastforce simp: ChangeRepositoryRole_store_def result_simps Let_def dest!: frame_tables(1) split: option.splits if_splits)
  note lr = loaded_repositories [OF assms(1) p]
  note valid = loaded_valid [OF assms(1) p]
  have vq: "project_Validate q = None" using project_step_valid [OF valid, of "PChangeRepositoryRole rid role" q] q by simp
  define g where "g = (\<lambda>r. if rp_ID r = rid then r\<lparr>rp_Role := role, rp_Version := rp_Version r + 1\<rparr> else if role = RolePrimary then demote r else r)"
  define rs where "rs = map (\<lambda>r. if rp_ProjectID r = pid then g r else r) (pt_repositories db)"
  have gk: "rp_ID (g r) = rp_ID r" "rp_ProjectID (g r) = rp_ProjectID r" "rp_CanonicalURL (g r) = rp_CanonicalURL r"
    "repo_key (g r) = role_key rid role r" for r by (auto simp: g_def demote_key repo_key_def role_key_def)
  have t: "project_tables db' = (map (\<lambda>r. if stored_id r = pid then set_version (pj_Version q) t r else r) (pt_projects db), rs)"
    unfolding t set_project_tables by (auto simp: change_role_def demote_stored_def rs_def g_def demote_key)
  have mine: "filter (\<lambda>x. rp_ProjectID x = pid) rs = map g (stored_repositories_of db pid)"
    unfolding rs_def stored_repositories_of_def by (rule filter_map_if) (simp_all add: gk)
  have "same_repositories (filter (\<lambda>x. rp_ProjectID x = pid) rs) (pj_Repositories q)"
    unfolding same_repositories_def ChangeRepositoryRole_keys [OF q valid lr(2)] unfolding mine lr(1)
    by (simp add: gk(4) comp_def)
  moreover have "filter (\<lambda>x. rp_ProjectID x = i) rs = filter (\<lambda>x. rp_ProjectID x = i) (pt_repositories db)" if "i \<noteq> pid" for i
    using that by (auto simp: rs_def gk intro!: filter_map_other)
  moreover have keys: "map rp_ID rs = map rp_ID (pt_repositories db)" "map rp_CanonicalURL rs = map rp_CanonicalURL (pt_repositories db)"
      "map rp_ProjectID rs = map rp_ProjectID (pt_repositories db)" by (simp_all add: rs_def map_if_key gk del: map_map)
  moreover note im = keys [THEN arg_cong [of _ _ set], unfolded set_map]
  ultimately show ?thesis
    by (intro edited_intro [where rule = "\<lambda>p. ChangeRepositoryRole p rid role", OF assms(1) p q vq ChangeRepositoryRole_kept [OF q] t])
      (use assms(1) keys im in \<open>auto simp: im project_db_ok_def tables_ok_def\<close>)
qed

lemma remove_index:
  "distinct (map rp_ID xs) \<Longrightarrow> index_of (\<lambda>r. rp_ID r = rid) xs = Some i \<Longrightarrow> take i xs @ drop (i + 1) xs = filter (\<lambda>r. rp_ID r \<noteq> rid) xs"
proof (induction xs arbitrary: i)
  case (Cons x xs)
  show ?case
  proof (cases "rp_ID x = rid")
    case True
    then have "filter (\<lambda>r. rp_ID r \<noteq> rid) xs = xs" using Cons.prems(1) by (auto simp: filter_id_conv) (metis image_eqI)
    with True Cons.prems show ?thesis by simp
  qed (use Cons in auto)
qed simp

lemma index_of_exists: "x \<in> set xs \<Longrightarrow> P x \<Longrightarrow> \<exists>i. index_of P xs = Some i"
  by (induction xs) auto

lemma RemoveRepository_store_refines:
  assumes "project_db_ok db" "RemoveRepository_store db actor pid rid ver req t ids = Inr db'"
  shows "edited db (pr_Workspace actor) pid (\<lambda>p. RemoveRepository p rid) db' \<and> project_db_ok db'"
proof -
  obtain p q r where p: "loadProjectForUpdate db (pr_Workspace actor) pid = Inr p" and q: "RemoveRepository p rid = Inr q"
    and r: "stored_repository db pid rid = Some r"
    and t: "project_tables db' = project_tables (set_project (delete_repository db pid rid) pid (set_version (pj_Version q) t))"
    using assms(2) by (fastforce simp: RemoveRepository_store_def result_simps Let_def dest!: frame_tables(1) split: option.splits if_splits)
  note lr = loaded_repositories [OF assms(1) p]
  note valid = loaded_valid [OF assms(1) p]
  have vq: "project_Validate q = None" using project_step_valid [OF valid, of "PRemoveRepository rid" q] q by simp
  define rs where "rs = filter (\<lambda>r. \<not> (rp_ID r = rid \<and> rp_ProjectID r = pid)) (pt_repositories db)"
  have t: "project_tables db' = (map (\<lambda>r. if stored_id r = pid then set_version (pj_Version q) t r else r) (pt_projects db), rs)"
    unfolding t set_project_tables by (simp add: delete_repository_def rs_def Let_def)
  have "r \<in> set (pj_Repositories p)" "rp_ID r = rid"
    using find_mem [OF r [unfolded stored_repository_def]] by (auto simp: lr(1) stored_repositories_of_def)
  then obtain i where i: "index_of (\<lambda>r. rp_ID r = rid) (pj_Repositories p) = Some i"
    using index_of_exists [of r "pj_Repositories p" "\<lambda>r. rp_ID r = rid"] by blast
  have qr: "pj_Repositories q = filter (\<lambda>r. rp_ID r \<noteq> rid) (pj_Repositories p)"
    unfolding remove_index [OF lr(2) i, symmetric] using q i by (auto simp: RemoveRepository_def validated_Inr split: if_splits)
  have "filter (\<lambda>x. rp_ProjectID x = pid) rs = filter (\<lambda>r. rp_ID r \<noteq> rid) (stored_repositories_of db pid)"
    by (auto simp: rs_def stored_repositories_of_def intro: filter_cong)
  then have "same_repositories (filter (\<lambda>x. rp_ProjectID x = pid) rs) (pj_Repositories q)"
    unfolding qr lr(1) same_repositories_def by simp
  moreover have "filter (\<lambda>x. rp_ProjectID x = i) rs = filter (\<lambda>x. rp_ProjectID x = i) (pt_repositories db)" if "i \<noteq> pid" for i
    using that by (auto simp: rs_def intro: filter_cong)
  ultimately show ?thesis
    by (intro edited_intro [where rule = "\<lambda>p. RemoveRepository p rid", OF assms(1) p q vq RemoveRepository_kept [OF q] t])
      (use assms(1) in \<open>auto simp: rs_def project_db_ok_def tables_ok_def distinct_map_filter\<close>)
qed

lemma tables_ok_row:
  assumes "tables_ok ps rs" "\<And>r. r \<in> set ps \<Longrightarrow> stored_id r = i \<Longrightarrow> stored_id (f r) = stored_id r \<and> stored_row_ok rs (f r)"
  shows "tables_ok (map (\<lambda>r. if stored_id r = i then f r else r) ps) rs"
proof -
  have "map stored_id (map (\<lambda>r. if stored_id r = i then f r else r) ps) = map stored_id ps" using assms(2) by simp
  then show ?thesis using assms unfolding tables_ok_def by (auto simp: list_all_iff simp del: map_map)
qed

lemma set_project_ok:
  assumes "project_db_ok db" "project_tables db' = project_tables (set_project db i f)" "row_of_project db ws i = Some r"
    "stored_id (f r) = i" "stored_row_ok (pt_repositories db) (f r)"
  shows "project_db_ok db'"
proof -
  note m = row_of_project_Some [OF assms(3)]
  have "x = r" if "x \<in> set (pt_projects db)" "stored_id x = i" for x
    using that m assms(1) by (auto simp: project_db_ok_def tables_ok_def distinct_map inj_on_def)
  then have "tables_ok (map (\<lambda>r. if stored_id r = i then f r else r) (pt_projects db)) (pt_repositories db)"
    using assms m by (intro tables_ok_row) (auto simp: project_db_ok_def)
  then show ?thesis using assms(2) unfolding set_project_tables by (simp add: project_db_ok_def project_tables_def)
qed

lemma row_ok_stored: "project_db_ok db \<Longrightarrow> row_of_project db ws i = Some r \<Longrightarrow> stored_row_ok (pt_repositories db) r"
  using row_of_project_Some [of db ws i r] by (auto simp: project_db_ok_def tables_ok_def list_all_iff)

lemma UpdateProject_ok:
  assumes "project_db_ok db" "UpdateProject db actor i ver name0 descr req t ids = Inr (p, db')"
  shows "project_db_ok db'"
proof -
  obtain r where r: "row_of_project db (pr_Workspace actor) i = Some r" and n: "trim_space name0 \<noteq> ''''"
    and tab: "project_tables db' = project_tables (set_project db i (\<lambda>r'. r'\<lparr>pw_Project := (pw_Project r)\<lparr>pj_Name := trim_space name0, pj_Description := descr,
      pj_Version := pj_Version (pw_Project r) + 1\<rparr>, pw_UpdatedAt := t\<rparr>))"
    using assms(2) by (fastforce simp: UpdateProject_def result_simps Let_def dest!: frame_tables(1,2) split: option.splits if_splits)
  note ok = row_ok_stored [OF assms(1) r] note id = row_of_project_Some [OF r]
  show ?thesis
    by (rule set_project_ok [OF assms(1) tab r])
      (use ok id n in \<open>auto simp: stored_row_ok_def assembled_def stored_id_def project_Validate_None trim_space_idem\<close>)
qed

lemma GetProject_Inr:
  assumes "GetProject db actor i = Inr c"
  shows "\<exists>r. row_of_project db (pr_Workspace actor) i = Some r \<and> pj_State (pw_Project r) \<noteq> StateDeleting \<and> pj_State (pw_Project r) \<noteq> StateDeleted \<and>
    c\<lparr>pj_Repositories := [], pj_Sources := []\<rparr> = (pw_Project r)\<lparr>pj_Repositories := [], pj_Sources := []\<rparr>"
  using assms by (auto simp: GetProject_def result_simps split: option.splits if_splits)

lemma GetProject_state:
  assumes "GetProject db actor i = Inr c" "row_of_project db (pr_Workspace actor) i = Some r"
  shows "pj_State c = pj_State (pw_Project r) \<and> pj_Version c = pj_Version (pw_Project r) \<and> pj_Slug c = pj_Slug (pw_Project r) \<and>
    pj_State c \<noteq> StateDeleting \<and> pj_State c \<noteq> StateDeleted"
  using assms by (auto simp: GetProject_def result_simps split: option.splits if_splits)

lemma Transition_stored:
  assumes "project_Transition c to ver adm t = Inr q" "pj_Version q \<noteq> pj_Version c"
  shows "to \<in> set (project_allowed (pj_State c)) \<and> pj_Version q = pj_Version c + 1"
  using assms by (auto simp: project_Transition_def Let_def split: if_splits)

lemma allowed_states: "to \<in> set (project_allowed s) \<Longrightarrow> validState to \<and> s \<noteq> StateDeleted \<and> (to = StateDeleted \<longrightarrow> s = StateDeleting)"
  by (cases s) (auto simp: validState_def)

lemma state_row_ok:
  assumes "stored_row_ok rs r" "to \<in> set (project_allowed (pj_State (pw_Project r)))" "to \<noteq> StateDeleted"
    and "pw_Project r' = (pw_Project r)\<lparr>pj_State := to, pj_Version := pj_Version (pw_Project r) + 1, pj_DeletedAt := None\<rparr>"
    and "(to = StateDeleting) = (pw_UnavailableAt r' \<noteq> None)"
  shows "stored_row_ok rs r'"
  using assms allowed_states [OF assms(2)] by (auto simp: stored_row_ok_def assembled_def stored_id_def project_Validate_None)

lemma TransitionProject_row:
  assumes "TransitionProject db actor i ver to req clock t ids = Inr (g, db')" "db' \<noteq> db"
  shows "\<exists>r. row_of_project db (pr_Workspace actor) i = Some r \<and> to \<in> set (project_allowed (pj_State (pw_Project r))) \<and> to \<noteq> StateDeleted \<and>
    pj_State (pw_Project r) \<noteq> StateDeleting \<and>
    project_tables db' = project_tables (set_project db i (transitioned_row to (pj_Version (pw_Project r) + 1) t))"
proof -
  obtain c q where c: "GetProject db actor i = Inr c" and q: "project_Transition c to ver True clock = Inr q" "pj_Version q \<noteq> pj_Version c"
    and tab: "project_tables db' = project_tables (set_project db i (transitioned_row to (pj_Version q) t))"
    using assms by (fastforce simp: TransitionProject_def result_simps Let_def dest!: frame_tables split: option.splits if_splits list.splits)
  obtain r where r: "row_of_project db (pr_Workspace actor) i = Some r" using GetProject_Inr [OF c] by blast
  note s = GetProject_state [OF c r] note a = Transition_stored [OF q]
  have "to \<noteq> StateDeleted" using a s allowed_states [of to "pj_State c"] by auto
  with r s a tab show ?thesis by (intro exI [of _ r]) auto
qed

lemma TransitionProject_ok:
  assumes "project_db_ok db" "TransitionProject db actor i ver to req clock t ids = Inr (g, db')"
  shows "project_db_ok db'"
proof (cases "db' = db")
  case False
  then obtain r where r: "row_of_project db (pr_Workspace actor) i = Some r" "to \<in> set (project_allowed (pj_State (pw_Project r)))"
    "to \<noteq> StateDeleted" "project_tables db' = project_tables (set_project db i (transitioned_row to (pj_Version (pw_Project r) + 1) t))"
    using TransitionProject_row [OF assms(2)] by blast
  note id = row_of_project_Some [OF r(1)]
  have "stored_row_ok (pt_repositories db) (transitioned_row to (pj_Version (pw_Project r) + 1) t r)"
    by (rule state_row_ok [OF row_ok_stored [OF assms(1) r(1)] r(2,3)])
      (use r(3) in \<open>auto simp: transitioned_row_def split: option.splits\<close>)
  then show ?thesis using id by (intro set_project_ok [OF assms(1) r(4) r(1)]) (simp_all add: transitioned_row_def stored_id_def)
qed (use assms in simp)

lemma RequestDeletion_ok:
  assumes "project_db_ok db" "RequestDeletion db actor i ver conf reason req clock t ids = Inr (g, db')"
  shows "project_db_ok db'"
proof -
  obtain c q where c: "GetProject db actor i = Inr c" and q: "project_Transition c StateDeleting ver (pr_Role actor = RoleAdmin) clock = Inr q"
    and tab: "project_tables db' = project_tables (set_project db i (deleting_row (pj_Version q) (pr_ActorID actor) (trim_space reason) t))"
    using assms(2) by (cases ids; fastforce simp: RequestDeletion_def result_simps Let_def dest!: frame_tables split: option.splits if_splits)
  obtain r where r: "row_of_project db (pr_Workspace actor) i = Some r" using GetProject_Inr [OF c] by blast
  note s = GetProject_state [OF c r] note id = row_of_project_Some [OF r] note ok = row_ok_stored [OF assms(1) r]
  have v: "StateDeleting \<in> set (project_allowed (pj_State (pw_Project r)))" "pj_Version q = pj_Version (pw_Project r) + 1"
    using q s by (auto simp: project_Transition_def Let_def split: if_splits)
  have "pj_DeletedAt (pw_Project r) = None" using ok s by (auto simp: stored_row_ok_def)
  then have "stored_row_ok (pt_repositories db) (deleting_row (pj_Version q) (pr_ActorID actor) (trim_space reason) t r)"
    by (intro state_row_ok [OF ok v(1)]) (auto simp: deleting_row_def v split: option.splits)
  then show ?thesis using id by (intro set_project_ok [OF assms(1) tab r]) (simp_all add: deleting_row_def stored_id_def)
qed

lemma insert_project_Inr:
  assumes "insert_project db p primary source t = Inr db'"
  shows "pj_ID p \<notin> stored_id ` set (pt_projects db) \<and> rp_ID primary \<notin> rp_ID ` set (pt_repositories db) \<and>
    rp_CanonicalURL primary \<notin> rp_CanonicalURL ` set (pt_repositories db) \<and>
    project_tables db' = (pt_projects db @ [\<lparr>pw_Project = p\<lparr>pj_Repositories := [], pj_Sources := []\<rparr>, pw_UpdatedAt = t,
             pw_UnavailableAt = None, pw_DeletionActor = None, pw_DeletionReason = ''''\<rparr>], pt_repositories db @ [primary])"
  using assms by (auto simp: insert_project_def project_tables_def list_ex_iff stored_id_def split: if_splits)

lemma insert_project_ok:
  assumes "project_db_ok db" "project_New pid ws name slug primary = Inr p" "rp_Version primary = 1" "insert_project db p primary source t = Inr db'"
  shows "project_db_ok db'"
proof -
  have p: "p = \<lparr>pj_ID = pid, pj_WorkspaceID = ws, pj_Name = trim_space name, pj_Slug = trim_space slug, pj_Description = '''', pj_State = StateActive,
      pj_Version = 1, pj_Repositories = [primary], pj_Sources = [], pj_DeletedAt = None\<rparr>" and own: "rp_ProjectID primary = pid"
    using assms(2,3) by (auto simp: project_New_def split: if_splits)
  define r where "r = \<lparr>pw_Project = p\<lparr>pj_Repositories := [], pj_Sources := []\<rparr>, pw_UpdatedAt = t, pw_UnavailableAt = None,
      pw_DeletionActor = None, pw_DeletionReason = ''''\<rparr>"
  note i = insert_project_Inr [OF assms(4), folded r_def]
  have rid: "stored_id r = pid" by (simp add: r_def stored_id_def p)
  have fresh: "pid \<notin> stored_id ` set (pt_projects db)" using i by (simp add: p)
  have none: "filter (\<lambda>x. rp_ProjectID x = pid) (pt_repositories db) = []"
    using fresh assms(1) by (auto simp: project_db_ok_def tables_ok_def list_all_iff filter_empty_conv)
  have "assembled (pt_repositories db @ [primary]) r = p" by (simp add: assembled_def rid none own) (simp add: r_def p)
  then have new: "stored_row_ok (pt_repositories db @ [primary]) r"
    using project_New_valid [OF assms(2)] by (simp add: stored_row_ok_def) (simp add: r_def p)
  have old: "stored_row_ok (pt_repositories db @ [primary]) x" if x: "x \<in> set (pt_projects db)" for x
  proof -
    have "assembled (pt_repositories db @ [primary]) x = assembled (pt_repositories db) x" using x fresh own by (auto simp: assembled_def)
    moreover have "stored_row_ok (pt_repositories db) x" using x assms(1) by (simp add: project_db_ok_def tables_ok_def list_all_iff)
    ultimately show ?thesis unfolding stored_row_ok_def by metis
  qed
  from i have "pt_projects db' = pt_projects db @ [r]" "pt_repositories db' = pt_repositories db @ [primary]" by (simp_all add: project_tables_def)
  then show ?thesis using i new old fresh assms(1) rid own
    unfolding project_db_ok_def tables_ok_def by (auto simp: list_all_iff p)
qed

lemma register_new_ok:
  assumes "project_db_ok db" "register_new db actor c slug days digest key req clock t ids = Inr (g, db')"
  shows "project_db_ok db'"
proof -
  obtain a b s j rest where ids: "ids = a # b # s # j # rest" using assms(2) by (auto simp: register_new_def split: if_splits list.splits)
  define primary where "primary = \<lparr>rp_ID = b, rp_ProjectID = a, rp_Provider = cr_Provider c, rp_CanonicalURL = cr_Canonical c, rp_Role = RolePrimary, rp_Version = 1\<rparr>"
  obtain p source db1 where n: "project_New a (pr_Workspace actor) (cr_Name c) slug primary = Inr p" and ins: "insert_project db p primary source t = Inr db1"
    and t: "project_tables db' = project_tables db1"
    using assms(2) by (auto simp: register_new_def ids result_simps Let_def primary_def complete_key_def dest!: frame_tables split: if_splits)
  have "project_db_ok db1" by (rule insert_project_ok [OF assms(1) n _ ins]) (simp add: primary_def)
  then show ?thesis using project_db_ok_tables [OF t] by simp
qed

lemma Register_ok:
  assumes "project_db_ok db" "Register parse sha256 db actor url days key req clock t ids = Inr (g, db')"
  shows "project_db_ok db'"
proof -
  consider "db' = db" | p j d where "db' = complete_key actor key d p j db"
    | c slug hd d where "register_new db actor c slug hd d key req clock t ids = Inr (g, db')"
    using assms(2) by (fastforce simp: Register_def result_simps Let_def split: option.splits if_splits)
  then show ?thesis
  proof cases
    case 2
    then have "project_tables db' = project_tables db" by (simp add: complete_key_def)
    then show ?thesis using assms(1) project_db_ok_tables by blast
  qed (use assms(1) register_new_ok in auto)
qed

lemma other_operations_frame:
  "AddSource db actor i kind url req ids = Inr (s, db') \<Longrightarrow> project_tables db' = project_tables db"
  "UpdateSource db actor i k ver st req ids = Inr (s, db') \<Longrightarrow> project_tables db' = project_tables db"
  "RemoveSource db actor i k ver req clock ids = Inr (j, db') \<Longrightarrow> project_tables db' = project_tables db"
  "QueueSync db actor i scope req clock t ids = Inr (j, db') \<Longrightarrow> project_tables db' = project_tables db"
  "QueueHistory db actor i from to req clock t ids = Inr (j, db') \<Longrightarrow> project_tables db' = project_tables db"
  "CorrectAssociation db actor i k target action reason req clock ids = Inr (x, db') \<Longrightarrow> project_tables db' = project_tables db"
proof -
  show "AddSource db actor i kind url req ids = Inr (s, db') \<Longrightarrow> project_tables db' = project_tables db"
    by (cases ids) (auto simp: AddSource_def upsert_source_def result_simps Let_def dest!: frame_tables split: option.splits if_splits)
  show "UpdateSource db actor i k ver st req ids = Inr (s, db') \<Longrightarrow> project_tables db' = project_tables db"
    by (auto simp: UpdateSource_def result_simps Let_def dest!: frame_tables split: option.splits if_splits)
  show "RemoveSource db actor i k ver req clock ids = Inr (j, db') \<Longrightarrow> project_tables db' = project_tables db"
    by (cases ids) (auto simp: RemoveSource_def result_simps Let_def dest!: frame_tables split: option.splits if_splits)
  show "QueueSync db actor i scope req clock t ids = Inr (j, db') \<Longrightarrow> project_tables db' = project_tables db"
    by (auto simp: QueueSync_def lift_queue_def result_simps Let_def split: option.splits if_splits)
  show "QueueHistory db actor i from to req clock t ids = Inr (j, db') \<Longrightarrow> project_tables db' = project_tables db"
    by (auto simp: QueueHistory_def lift_queue_def result_simps Let_def split: option.splits if_splits)
  show "CorrectAssociation db actor i k target action reason req clock ids = Inr (x, db') \<Longrightarrow> project_tables db' = project_tables db"
    by (cases ids; cases "tl ids") (auto simp: CorrectAssociation_def insert_correction_def result_simps Let_def dest!: frame_tables split: option.splits if_splits)
qed

section \<open>Histories of the store\<close>

datatype projectstore_op =
    PsRegister Principal string int string string gotime gotime "int64 list"
  | PsUpdate Principal int64 int64 string string string gotime "int64 list"
  | PsTransition Principal int64 int64 ProjectState string gotime gotime "int64 list"
  | PsDelete Principal int64 int64 string string string gotime gotime "int64 list"
  | PsAddRepository Principal int64 string RepositoryRole string gotime "int64 list"
  | PsChangeRole Principal int64 int64 int64 RepositoryRole string gotime "int64 list"
  | PsRemoveRepository Principal int64 int64 int64 string gotime "int64 list"
  | PsAddSource Principal int64 SourceKind string string "int64 list"
  | PsUpdateSource Principal int64 int64 int64 SourceState string "int64 list"
  | PsRemoveSource Principal int64 int64 int64 string gotime "int64 list"
  | PsQueueSync Principal int64 string string gotime gotime "int64 list"
  | PsQueueHistory Principal int64 gotime gotime string gotime gotime "int64 list"
  | PsCorrect Principal int64 int64 int64 string string string gotime "int64 list"

fun projectstore_step ::
    "(string \<Rightarrow> request_uri option) \<Rightarrow> (string \<Rightarrow> string) \<Rightarrow> projectstore_op \<Rightarrow> project_db \<Rightarrow> projectstore_error + project_db" where
  "projectstore_step parse sha256 (PsRegister a url days key req clock t ids) db = map_sum id snd (Register parse sha256 db a url days key req clock t ids)"
| "projectstore_step parse sha256 (PsUpdate a i ver name descr req t ids) db = map_sum id snd (UpdateProject db a i ver name descr req t ids)"
| "projectstore_step parse sha256 (PsTransition a i ver to req clock t ids) db = map_sum id snd (TransitionProject db a i ver to req clock t ids)"
| "projectstore_step parse sha256 (PsDelete a i ver conf reason req clock t ids) db =
     map_sum id snd (RequestDeletion db a i ver conf reason req clock t ids)"
| "projectstore_step parse sha256 (PsAddRepository a i url role req t ids) db = map_sum id snd (AddRepository_store parse db a i url role req t ids)"
| "projectstore_step parse sha256 (PsChangeRole a i rid ver role req t ids) db =
     map_sum id snd (ChangeRepositoryRole_store db a i rid ver role req t ids)"
| "projectstore_step parse sha256 (PsRemoveRepository a i rid ver req t ids) db = RemoveRepository_store db a i rid ver req t ids"
| "projectstore_step parse sha256 (PsAddSource a i kind url req ids) db = map_sum id snd (AddSource db a i kind url req ids)"
| "projectstore_step parse sha256 (PsUpdateSource a i k ver st req ids) db = map_sum id snd (UpdateSource db a i k ver st req ids)"
| "projectstore_step parse sha256 (PsRemoveSource a i k ver req clock ids) db = map_sum id snd (RemoveSource db a i k ver req clock ids)"
| "projectstore_step parse sha256 (PsQueueSync a i scope req clock t ids) db = map_sum id snd (QueueSync db a i scope req clock t ids)"
| "projectstore_step parse sha256 (PsQueueHistory a i from to req clock t ids) db =
     map_sum id snd (QueueHistory db a i from to req clock t ids)"
| "projectstore_step parse sha256 (PsCorrect a i k target action reason req clock ids) db =
     map_sum id snd (CorrectAssociation db a i k target action reason req clock ids)"

definition no_projects :: project_db where
  "no_projects = \<lparr>pt_jobs = ys_db no_jobs, pt_projects = [], pt_repositories = [], pt_sources = [], pt_associations = [], pt_corrections = [],
     pt_keys = [], pt_catalog = [], pt_audit = []\<rparr>"

lemma projectstore_step_ok:
  assumes "projectstore_step parse sha256 a db = Inr db'" "project_db_ok db"
  shows "project_db_ok db'"
  using assms by (cases a) (auto simp: map_sum_Inr_iff dest: Register_ok UpdateProject_ok TransitionProject_ok RequestDeletion_ok
      AddRepository_store_refines ChangeRepositoryRole_store_refines RemoveRepository_store_refines
      dest!: other_operations_frame [THEN project_db_ok_tables])

definition reachable_projects :: "(string \<Rightarrow> request_uri option) \<Rightarrow> (string \<Rightarrow> string) \<Rightarrow> projectstore_op list \<Rightarrow> project_db" where
  "reachable_projects parse sha256 ops = run_ops (projectstore_step parse sha256) no_projects ops"

interpretation stored_projects: preserving "projectstore_step parse sha256" project_db_ok for parse sha256
  by unfold_locales (rule projectstore_step_ok)

lemma reachable_projects_ok: "project_db_ok (reachable_projects parse sha256 ops)"
  unfolding reachable_projects_def
  by (rule stored_projects.run_well_formed) (simp add: no_projects_def project_db_ok_def tables_ok_def)

text \<open>
  C5: whatever the operations of the store, their arguments, actors and identifiers, each project in the tables can be loaded and is valid as
  \<open>project.Validate\<close> demands: it has exactly one primary repository unless it is deleted; no canonical URL belongs to two repositories.
\<close>

theorem stored_projects_valid:
  "list_all (\<lambda>r. case loadProjectForUpdate (reachable_projects parse sha256 ops) (pj_WorkspaceID (pw_Project r)) (pj_ID (pw_Project r)) of
       Inl _ \<Rightarrow> False
     | Inr p \<Rightarrow> project_Validate p = None \<and> (if pj_State p = StateDeleted then True else primaries (pj_Repositories p) = 1))
     (pt_projects (reachable_projects parse sha256 ops)) \<and>
   distinct (map rp_CanonicalURL (pt_repositories (reachable_projects parse sha256 ops)))"
proof -
  define db where "db = reachable_projects parse sha256 ops"
  have ok: "project_db_ok db" unfolding db_def by (rule reachable_projects_ok)
  have "case loadProjectForUpdate db (pj_WorkspaceID (pw_Project r)) (pj_ID (pw_Project r)) of Inl _ \<Rightarrow> False
     | Inr p \<Rightarrow> project_Validate p = None \<and> (if pj_State p = StateDeleted then True else primaries (pj_Repositories p) = 1)"
    if r: "r \<in> set (pt_projects db)" for r
  proof (cases "loadProjectForUpdate db (pj_WorkspaceID (pw_Project r)) (pj_ID (pw_Project r))")
    case (Inl e)
    then show ?thesis using r by (auto simp: loadProjectForUpdate_def row_of_project_def find_None_iff split: option.splits)
  next
    case (Inr p)
    with loaded_valid [OF ok Inr] show ?thesis by (simp add: project_Validate_None)
  qed
  with ok show ?thesis unfolding db_def [symmetric] by (simp add: list_all_iff project_db_ok_def tables_ok_def)
qed

datatype repository_edit = EditAdd string RepositoryRole | EditRole int64 int64 RepositoryRole | EditRemove int64 int64

fun stored_edit ::
    "(string \<Rightarrow> request_uri option) \<Rightarrow> project_db \<Rightarrow> Principal \<Rightarrow> int64 \<Rightarrow> repository_edit \<Rightarrow> string \<Rightarrow> gotime \<Rightarrow> int64 list \<Rightarrow>
     projectstore_error + project_db" where
  "stored_edit parse db a pid (EditAdd url role) req t ids = map_sum id snd (AddRepository_store parse db a pid url role req t ids)"
| "stored_edit parse db a pid (EditRole rid ver role) req t ids = map_sum id snd (ChangeRepositoryRole_store db a pid rid ver role req t ids)"
| "stored_edit parse db a pid (EditRemove rid ver) req t ids = RemoveRepository_store db a pid rid ver req t ids"

text \<open>The rule of package \<open>project\<close> for an edit; \<open>rid\<close> is the identifier issued for an added repository.\<close>

fun domain_edit :: "(string \<Rightarrow> request_uri option) \<Rightarrow> int64 \<Rightarrow> int64 \<Rightarrow> repository_edit \<Rightarrow> Project \<Rightarrow> project_error + Project" where
  "domain_edit parse pid rid (EditAdd url role) p =
     bindE (CanonicalRepositoryURL parse url) (\<lambda>c. AddRepository p (requested_repository c rid pid role) 20)"
| "domain_edit parse pid rid (EditRole i ver role) p = ChangeRepositoryRole p i role"
| "domain_edit parse pid rid (EditRemove i ver) p = RemoveRepository p i"

text \<open>
  C6: the statements that edit repositories implement the rules of package \<open>project\<close>. Whenever an edit of the store succeeds on a reachable
  database, the rule accepts the project loaded before, and the project loaded afterwards is the one it returns: every field, the version of
  the project included, and the same repositories with the same owners, providers, URLs and roles. The versions of the
  repositories are left out: a change to the role that a repository already has raises the stored version, and the rule keeps it.
\<close>

theorem repository_edits_refine_rules:
  assumes "stored_edit parse (reachable_projects parse sha256 ops) actor pid e req t ids = Inr db'"
  shows "\<exists>p q p'. loadProjectForUpdate (reachable_projects parse sha256 ops) (pr_Workspace actor) pid = Inr p \<and>
    domain_edit parse pid (hd ids) e p = Inr q \<and> loadProjectForUpdate db' (pr_Workspace actor) pid = Inr p' \<and>
    p'\<lparr>pj_Repositories := []\<rparr> = q\<lparr>pj_Repositories := []\<rparr> \<and>
    mset (map (\<lambda>r. (rp_ID r, rp_ProjectID r, rp_Provider r, rp_CanonicalURL r, rp_Role r)) (pj_Repositories p')) =
    mset (map (\<lambda>r. (rp_ID r, rp_ProjectID r, rp_Provider r, rp_CanonicalURL r, rp_Role r)) (pj_Repositories q))"
proof -
  note ok = reachable_projects_ok [of parse sha256 ops]
  have "edited (reachable_projects parse sha256 ops) (pr_Workspace actor) pid (domain_edit parse pid (hd ids) e) db'"
  proof (cases e)
    case (EditAdd url role)
    with assms obtain v where "AddRepository_store parse (reachable_projects parse sha256 ops) actor pid url role req t ids = Inr (v, db')"
      by (auto simp: map_sum_Inr_iff)
    then obtain c where "CanonicalRepositoryURL parse url = Inr c"
        "edited (reachable_projects parse sha256 ops) (pr_Workspace actor) pid (\<lambda>p. AddRepository p (requested_repository c (hd ids) pid role) 20) db'"
      using AddRepository_store_refines [OF ok] by blast
    with EditAdd show ?thesis by (simp add: edited_def)
  qed (use assms ChangeRepositoryRole_store_refines [OF ok] RemoveRepository_store_refines [OF ok] in \<open>auto simp: edited_def map_sum_Inr_iff\<close>)
  then show ?thesis unfolding edited_def same_repositories_def repo_key_def by blast
qed

section \<open>Deletion, replays and corrections\<close>

lemma insert_queued_jobs:
  assumes "insert_queued db ids v a req key = Inr (db', rest)"
  shows "map (\<lambda>r. jb_Kind (jr_job r)) (jt_jobs (pt_jobs db')) = map (\<lambda>r. jb_Kind (jr_job r)) (jt_jobs (pt_jobs db)) @ [jb_Kind v]"
  using assms by (auto simp: insert_queued_def insertJob_def result_simps dest!: recordEvent_effect split: if_splits)

lemma writeOutbox_jobs: "writeOutbox db ids p j ty req = Inr db' \<Longrightarrow> jt_jobs (pt_jobs db') = jt_jobs (pt_jobs db)"
  by (auto simp: writeOutbox_def result_simps dest!: insert_delivery_effect)

lemma job_New_kind: "job_New i p k s tot c now = Inr v \<Longrightarrow> jb_Kind v = k"
  by (auto simp: job_New_def Let_def split: if_splits)

lemma deleting_unreachable:
  assumes "project_tables db' = project_tables (set_project db i (transitioned_row StateDeleting v t))"
  shows "isl (GetProject db' other i)"
proof (rule ccontr)
  assume "\<not> isl (GetProject db' other i)"
  then obtain c where c: "GetProject db' other i = Inr c" by (cases "GetProject db' other i") auto
  obtain r where r: "row_of_project db' (pr_Workspace other) i = Some r" "pj_State (pw_Project r) \<noteq> StateDeleting"
    using GetProject_Inr [OF c] by blast
  have ps: "pt_projects db' = map (\<lambda>r. if stored_id r = i then transitioned_row StateDeleting v t r else r) (pt_projects db)"
    using assms unfolding set_project_tables by (simp add: project_tables_def)
  have "r \<in> (\<lambda>r. if stored_id r = i then transitioned_row StateDeleting v t r else r) ` set (pt_projects db)"
    using conjunct1 [OF row_of_project_Some [OF r(1)]] unfolding ps list.set_map .
  then obtain x where x: "r = (if stored_id x = i then transitioned_row StateDeleting v t x else x)" by (rule imageE)
  show False
  proof (cases "stored_id x = i")
    case True
    with x have "pj_State (pw_Project r) = StateDeleting" by (simp add: transitioned_row_def)
    with r(2) show False by simp
  next
    case False
    with x row_of_project_Some [OF r(1)] show False by simp
  qed
qed

text \<open>What the lists of repositories and sources read does not change with the state of a project.\<close>

lemma lists_after_transition:
  assumes "pt_projects db' = pt_projects (set_project db i (transitioned_row to v t))" and "pt_repositories db' = pt_repositories db"
    and "pt_sources db' = pt_sources db"
  shows "ListRepositories db' other i f = ListRepositories db other i f" "ListSources db' other i f = ListSources db other i f"
proof -
  have "pt_projects db' = map (\<lambda>r. if stored_id r = i then transitioned_row to v t r else r) (pt_projects db)"
    using assms(1) by (simp add: set_project_def stored_id_def)
  then have "row_of_project db' (pr_Workspace other) i = map_option (\<lambda>r. if i = i then transitioned_row to v t r else r)
      (row_of_project db (pr_Workspace other) i)"
    by (rule row_after_set) (simp add: transitioned_row_def stored_id_def)
  then have none: "(row_of_project db' (pr_Workspace other) i = None) = (row_of_project db (pr_Workspace other) i = None)" by simp
  have lists: "stored_repositories_of db' i = stored_repositories_of db i" "sources_of db' i = sources_of db i"
    using assms(2,3) by (simp_all add: stored_repositories_of_def sources_of_def)
  show "ListRepositories db' other i f = ListRepositories db other i f" "ListSources db' other i f = ListSources db other i f"
    unfolding ListRepositories_def ListSources_def none lists by (rule refl)+
qed

text \<open>
  C32: a transition to \<open>deleting\<close>, which asks for no confirmation, queues a job of the kind \<open>project_transition\<close> and no purge. Right after it
  the store refuses everybody who asks for the project with \<open>GetProject\<close>, for another transition or for its deletion, the only operation
  that queues a purge, while the repositories and sources of the project are still listed as before.
\<close>

theorem transition_strands_project:
  assumes "TransitionProject db actor i ver StateDeleting req clock t ids = Inr (g, db')"
  shows "map (\<lambda>r. jb_Kind (jr_job r)) (jt_jobs (pt_jobs db')) = map (\<lambda>r. jb_Kind (jr_job r)) (jt_jobs (pt_jobs db)) @ [''project_transition''] \<and>
    isl (GetProject db' other i) \<and> isl (RequestDeletion db' other i ver2 conf reason req2 clock2 t2 ids2) \<and>
    isl (TransitionProject db' other i ver3 to req3 clock3 t3 ids3) \<and>
    ListRepositories db' other i f = ListRepositories db other i f \<and> ListSources db' other i f = ListSources db other i f"
proof -
  obtain c q where c: "GetProject db actor i = Inr c" and q: "project_Transition c StateDeleting ver True clock = Inr q"
    using assms by (auto simp: TransitionProject_def result_simps split: option.splits)
  have new: "pj_Version q \<noteq> pj_Version c" using q by (auto simp: project_Transition_def Let_def split: if_splits)
  obtain jobID rest where ids: "ids = jobID # rest" using assms c q new by (cases ids) (auto simp: TransitionProject_def split: option.splits)
  obtain queued where j: "job_New jobID i ''project_transition'' ''effects'' None False clock = Inr queued"
    using assms c q new by (auto simp: TransitionProject_def ids result_simps Let_def split: option.splits if_splits)
  define db2 where "db2 = set_catalog (set_project db i (transitioned_row StateDeleting (pj_Version q) t)) i (\<lambda>c. c\<lparr>gw_State := StateDeleted\<rparr>)"
  obtain key db3 rest2 db4 rest3 where ins: "insert_queued db2 rest queued actor req key = Inr (db3, rest2)"
    and au: "write_audit db3 rest2 actor ''project.transition'' i req = Inr (db4, rest3)"
    and out: "writeOutbox db4 rest3 i jobID ''project.transitioned'' req = Inr db'"
    using assms c q new j by (auto simp: TransitionProject_def ids result_simps Let_def db2_def split: option.splits if_splits)
  have "pt_jobs db2 = pt_jobs db" by (simp add: db2_def set_catalog_def set_project_def)
  moreover have "pt_jobs db4 = pt_jobs db3" using write_audit_frame [OF au] by auto
  moreover have "jb_Kind queued = ''project_transition''" using job_New_kind [OF j] .
  ultimately have jobs: "map (\<lambda>r. jb_Kind (jr_job r)) (jt_jobs (pt_jobs db')) = map (\<lambda>r. jb_Kind (jr_job r)) (jt_jobs (pt_jobs db)) @ [''project_transition'']"
    using insert_queued_jobs [OF ins] writeOutbox_jobs [OF out] by simp
  have "project_tables db' = project_tables (set_project db i (transitioned_row StateDeleting (pj_Version q) t))"
    using frame_tables(1) [OF out] frame_tables(2) [OF au] frame_tables(3) [OF ins] by (simp add: db2_def)
  note gone = deleting_unreachable [OF this]
  have "isl (RequestDeletion db' other i ver2 conf reason req2 clock2 t2 ids2)" using gone [of other] by (auto simp: RequestDeletion_def isl_def)
  moreover have "isl (TransitionProject db' other i ver3 to req3 clock3 t3 ids3)"
    using gone [of other] by (auto simp: TransitionProject_def isl_def split: option.splits)
  moreover have "pt_projects db' = pt_projects db2" "pt_repositories db' = pt_repositories db2" "pt_sources db' = pt_sources db2"
    using writeOutbox_frame [OF out] write_audit_frame [OF au] insert_queued_frame [OF ins] by auto
  then have "ListRepositories db' other i f = ListRepositories db other i f" "ListSources db' other i f = ListSources db other i f"
    by (intro lists_after_transition [where to = StateDeleting and v = "pj_Version q" and t = t], simp_all add: db2_def set_catalog_def set_project_def)+
  ultimately show ?thesis using jobs gone by blast
qed

text \<open>The corrections only grow, and a successful correction records itself.\<close>

lemma CorrectAssociation_effect:
  assumes "CorrectAssociation db actor pid aid target action reason req clock ids = Inr ((j, True), db')"
  shows "Authorize actor ActionProjectWrite = None \<and> \<not> correction_replayed db actor aid action target pid \<and>
    reassign_target db actor action target = None \<and> pt_projects db' = pt_projects db \<and>
    (\<exists>c. pt_corrections db' = pt_corrections db @ [c] \<and> cw_AssociationID c = aid \<and> cw_Action c = action \<and> cw_From c = pid \<and> cw_To c = nullable_project target) \<and>
    (\<exists>a. find (\<lambda>a. as_ID a = aid \<and> as_ProjectID a = pid) (pt_associations db) = Some a) \<and>
    list_all (\<lambda>b. as_ID b = aid \<longrightarrow> as_ProjectID b = (if action = ''reassign'' then target else pid) \<and> as_Status b = AssociationCorrected) (pt_associations db')"
proof -
  obtain a u where auth: "Authorize actor ActionProjectWrite = None" and nr: "\<not> correction_replayed db actor aid action target pid"
    and a: "find (\<lambda>a. as_ID a = aid \<and> as_ProjectID a = pid) (pt_associations db) = Some a" and tg: "reassign_target db actor action target = None"
    and u: "Correct (a\<lparr>as_Constraint := None\<rparr>) \<lparr>co_Action = action, co_ProjectID = target, co_Reason = trim_space reason,
      co_ActorID = pr_ActorID actor, co_At = utc clock\<rparr> = Inr (u, True)"
    using assms by (auto simp: CorrectAssociation_def result_simps Let_def split: option.splits if_splits)
  obtain cid jid rest where ids: "ids = cid # jid # rest"
    using assms auth nr a tg u by (cases ids; cases "tl ids") (auto simp: CorrectAssociation_def Let_def)
  define c where "c = \<lparr>cw_ID = cid, cw_AssociationID = aid, cw_Action = action, cw_From = pid, cw_To = nullable_project target,
    cw_Reason = trim_space reason, cw_ActorID = pr_ActorID actor\<rparr>"
  obtain db1 db2 key q db3 rest2 where ic: "insert_correction db c req = Inr db1"
    and db2: "db2 = db1\<lparr>pt_associations := map (\<lambda>b. if as_ID b = aid then b\<lparr>as_ProjectID := as_ProjectID u, as_Status := AssociationCorrected,
      as_Version := as_Version u\<rparr> else b) (pt_associations db)\<rparr>"
    and iq: "insert_queued db2 rest q actor req key = Inr (db3, rest2)" and out: "writeOutbox db3 rest2 pid jid ''association.corrected'' req = Inr db'"
    using assms auth nr a tg u by (auto simp: CorrectAssociation_def ids result_simps Let_def c_def)
  obtain jobs where "db' = db2\<lparr>pt_jobs := jobs\<rparr>" using insert_queued_frame [OF iq] writeOutbox_frame [OF out] by auto
  moreover have "db1 = db\<lparr>pt_corrections := pt_corrections db @ [c]\<rparr>" using ic by (auto simp: insert_correction_def split: if_splits)
  ultimately have "pt_projects db' = pt_projects db" "pt_corrections db' = pt_corrections db @ [c]"
    "pt_associations db' = map (\<lambda>b. if as_ID b = aid then b\<lparr>as_ProjectID := as_ProjectID u, as_Status := AssociationCorrected,
      as_Version := as_Version u\<rparr> else b) (pt_associations db)" by (simp_all add: db2)
  moreover have "as_ProjectID u = (if action = ''reassign'' then target else pid)"
    using u find_mem [OF a] by (auto simp: Correct_def Let_def split: if_splits)
  moreover have "cw_AssociationID c = aid" "cw_Action c = action" "cw_From c = pid" "cw_To c = nullable_project target" by (simp_all add: c_def)
  ultimately show ?thesis using auth nr tg a by (auto simp: list_all_iff)
qed

text \<open>
  C33: a source that was corrected back cannot be corrected again. After an association was reassigned from one project to another and back, the
  first reassignment is taken for a replay of itself: it reports success without a change, and the association stays where it is.
\<close>

theorem reassignment_forgotten:
  assumes "CorrectAssociation db actor p aid q ''reassign'' reason1 req1 t1 ids1 = Inr ((j1, True), db1)"
    and "CorrectAssociation db1 actor q aid p ''reassign'' reason2 req2 t2 ids2 = Inr ((j2, True), db2)"
  shows "CorrectAssociation db2 actor p aid q ''reassign'' reason3 req3 t3 ids3 = Inr ((0, False), db2) \<and>
    list_all (\<lambda>a. if as_ID a = aid then as_ProjectID a = p else True) (pt_associations db2)"
proof -
  note e1 = CorrectAssociation_effect [OF assms(1)] note e2 = CorrectAssociation_effect [OF assms(2)]
  obtain c where c: "c \<in> set (pt_corrections db2)" "cw_AssociationID c = aid" "cw_Action c = ''reassign''" "cw_From c = p" "cw_To c = nullable_project q"
  proof -
    obtain c where "pt_corrections db1 = pt_corrections db @ [c]" "cw_AssociationID c = aid" "cw_Action c = ''reassign''" "cw_From c = p"
      "cw_To c = nullable_project q" using e1 by blast
    moreover obtain d where "pt_corrections db2 = pt_corrections db1 @ [d]" using e2 by blast
    ultimately show thesis by (intro that [of c]) simp_all
  qed
  have "row_of_project db1 (pr_Workspace actor) p \<noteq> None" using e2 by (auto simp: reassign_target_def split: option.splits)
  then have "row_of_project db2 (pr_Workspace actor) p \<noteq> None" using e2 by (simp add: row_of_project_def)
  with c have "correction_replayed db2 actor aid ''reassign'' q p" by (auto simp: correction_replayed_def list_ex_iff)
  moreover have "list_all (\<lambda>a. if as_ID a = aid then as_ProjectID a = p else True) (pt_associations db2)" using e2 by (auto simp: list_all_iff)
  ultimately show ?thesis using e1 by (simp add: CorrectAssociation_def Let_def)
qed

lemma keys_frame:
  "writeOutbox db ids p j ty req = Inr db' \<Longrightarrow> pt_keys db' = pt_keys db"
  "write_audit db ids a act i req = Inr (db', rest) \<Longrightarrow> pt_keys db' = pt_keys db"
  "insert_queued db ids v a req key = Inr (db', rest) \<Longrightarrow> pt_keys db' = pt_keys db"
  "insert_project db pr primary s t = Inr db' \<Longrightarrow> pt_keys db' = pt_keys db"
  using writeOutbox_frame [of db ids p j ty req db'] write_audit_frame [of db ids a act i req db' rest]
    insert_queued_frame [of db ids v a req key db' rest] by (auto simp: insert_project_def split: if_splits)

lemma insert_queued_row: "insert_queued db ids v a req key = Inr (db', rest) \<Longrightarrow> row_by_job (pt_jobs db') (jb_ID v) \<noteq> None"
  by (auto simp: insert_queued_def insertJob_def result_simps row_by_job_def find_None_iff dest!: recordEvent_effect split: if_splits)

lemma writeOutbox_row: "writeOutbox db ids p j ty req = Inr db' \<Longrightarrow> row_by_job (pt_jobs db') i = row_by_job (pt_jobs db) i"
  by (simp add: row_by_job_def writeOutbox_jobs)

lemma register_new_replayable:
  assumes "register_new db actor c slug days digest key req clock t ids = Inr (g, db')"
  shows "\<exists>k. pt_keys db' = pt_keys db @ [k] \<and> kw_Workspace k = pr_Workspace actor \<and> kw_Actor k = pr_ActorID actor \<and> kw_Key k = key \<and>
    kw_Digest k = digest \<and> kw_Resource k = pj_ID (rg_Project g) \<and> kw_JobID k = jb_ID (rg_Job g) \<and> 0 < kw_Resource k \<and> 0 < kw_JobID k \<and>
    (\<exists>r \<in> set (pt_projects db'). pj_ID (pw_Project r) = kw_Resource k) \<and> row_by_job (pt_jobs db') (kw_JobID k) \<noteq> None"
proof -
  obtain a b s j rest where ids: "ids = a # b # s # j # rest" using assms by (auto simp: register_new_def split: if_splits list.splits)
  define primary where "primary = \<lparr>rp_ID = b, rp_ProjectID = a, rp_Provider = cr_Provider c, rp_CanonicalURL = cr_Canonical c, rp_Role = RolePrimary, rp_Version = 1\<rparr>"
  define source where "source = initial_source s a (cr_Provider c) (cr_Canonical c) (hr_From (InitialHistoryRange (utc clock) days))"
  obtain p v where n: "project_New a (pr_Workspace actor) (cr_Name c) slug primary = Inr p"
    and q: "job_New j a ''project_initial_sync'' ''sources'' None True (utc clock) = Inr v"
    using assms by (auto simp: register_new_def ids result_simps Let_def primary_def split: if_splits)
  define cat where "cat = \<lparr>gw_ID = a, gw_Name = pj_Name p, gw_Slug = pj_Slug p, gw_Description = '''', gw_State = StateActive\<rparr>"
  have run: "bindE (insert_project db p primary source t) (\<lambda>db1.
      bindE (insert_queued db1 rest v actor req (''initial:'' @ format_int a)) (\<lambda>(db2, rest2).
      bindE (writeOutbox db2 rest2 a j ''project.registered'' req) (\<lambda>db3.
      if list_ex (\<lambda>c. gw_ID c = a \<or> gw_Slug c = pj_Slug p) (pt_catalog db3) then Inl PsConstraint
      else bindE (write_audit (db3\<lparr>pt_catalog := pt_catalog db3 @ [cat]\<rparr>) (drop 1 rest2) actor ''project.register'' a req) (\<lambda>(db5, _).
        Inr (\<lparr>rg_Project = p\<lparr>pj_Sources := [source]\<rparr>, rg_Job = v, rg_Replay = False\<rparr>, complete_key actor key digest a j db5))))) = Inr (g, db')"
    using assms n q unfolding register_new_def ids primary_def source_def cat_def by (simp add: Let_def cong: if_cong split: if_splits)
  obtain db1 where ins: "insert_project db p primary source t = Inr db1" using run by (auto simp: bindE_Inr_iff)
  note run = run [unfolded ins bindE_simps]
  obtain db2 rest2 where iq: "insert_queued db1 rest v actor req (''initial:'' @ format_int a) = Inr (db2, rest2)"
    using run by (auto simp: bindE_Inr_iff)
  note run = run [unfolded iq bindE_simps prod.case]
  obtain db3 where out: "writeOutbox db2 rest2 a j ''project.registered'' req = Inr db3" using run by (auto simp: bindE_Inr_iff)
  note run = run [unfolded out bindE_simps]
  define db4 where "db4 = db3\<lparr>pt_catalog := pt_catalog db3 @ [cat]\<rparr>"
  obtain db5 rest3 where au: "write_audit db4 (drop 1 rest2) actor ''project.register'' a req = Inr (db5, rest3)"
    and db': "db' = complete_key actor key digest a j db5" and g: "pj_ID (rg_Project g) = pj_ID p" "rg_Job g = v"
    using run unfolding db4_def by (auto simp: bindE_Inr_iff split: if_splits)
  have pid: "pj_ID p = a" "0 < a" using n by (auto simp: project_New_def split: if_splits)
  have jid: "jb_ID v = j" "0 < j" using job_New_effect [OF q] by auto
  have tab: "project_tables db5 = project_tables db1"
    using frame_tables(1) [OF out] frame_tables(2) [OF au] frame_tables(3) [OF iq] by (simp add: db4_def)
  obtain w where w: "db5 = db4\<lparr>pt_audit := w\<rparr>" using write_audit_frame [OF au] by blast
  have "pt_keys db5 = pt_keys db" using keys_frame(1) [OF out] keys_frame(3) [OF iq] keys_frame(4) [OF ins] w by (simp add: db4_def)
  moreover have "row_by_job (pt_jobs db5) j \<noteq> None"
    using insert_queued_row [OF iq] writeOutbox_row [OF out] w jid by (simp add: db4_def)
  moreover have "\<exists>r \<in> set (pt_projects db5). pj_ID (pw_Project r) = a"
    using tab insert_project_Inr [OF ins] pid by (auto simp: project_tables_def)
  ultimately show ?thesis using g pid jid by (simp add: db' complete_key_def)
qed

text \<open>
  a registration can be repeated. Once it created a project under a key, the same request of the same actor under that key reports the same
  project and job as a replay and changes nothing, whatever the clock and the identifiers say.
\<close>

theorem register_replay:
  assumes "Register parse sha256 db actor url days key req clock t ids = Inr (g, db')" "\<not> rg_Replay g"
  shows "\<exists>g'. Register parse sha256 db' actor url days key req2 clock2 t2 ids2 = Inr (g', db') \<and> rg_Replay g' \<and>
    pj_ID (rg_Project g') = pj_ID (rg_Project g) \<and> jb_ID (rg_Job g') = jb_ID (rg_Job g)"
proof -
  define hd where "hd = (if days \<le> 0 then DefaultHistoryDays else days)"
  let ?mine = "\<lambda>k. kw_Workspace k = pr_Workspace actor \<and> kw_Actor k = pr_ActorID actor \<and> kw_Key k = key"
  obtain c slug where a: "Authorize actor ActionProjectWrite = None" "trim_space key \<noteq> ''''" and c: "CanonicalRepositoryURL parse url = Inr c"
    and h: "\<not> hd > 3650" and slug: "Slug (cr_Name c) = Inr slug"
    using assms(1) unfolding hd_def Register_def by (auto simp: result_simps Let_def split: option.splits if_splits)
  have run: "Register parse sha256 db actor url days key req clock t ids = (case find ?mine (pt_keys db) of
      Some k \<Rightarrow> if kw_Digest k \<noteq> registration_digest sha256 (cr_Canonical c) hd then Inl (PsProject ProjErrConflict)
        else if kw_Resource k = 0 \<or> kw_JobID k = 0 then Inl (PsProject ProjErrConflict)
        else map_sum id (\<lambda>r. (r\<lparr>rg_Replay := True\<rparr>, db)) (registrationTx db (kw_Resource k) (kw_JobID k))
    | None \<Rightarrow> if length (registration_digest sha256 (cr_Canonical c) hd) \<noteq> 32 then Inl PsConstraint
        else (case existing_registration db (pr_Workspace actor) (cr_Canonical c) of
          Some (pid, jid) \<Rightarrow> map_sum id (\<lambda>r. (r\<lparr>rg_Replay := True\<rparr>,
            complete_key actor key (registration_digest sha256 (cr_Canonical c) hd) pid jid db)) (registrationTx db pid jid)
        | None \<Rightarrow> register_new db actor c slug hd (registration_digest sha256 (cr_Canonical c) hd) key req clock t ids))"
    using a c h slug by (simp add: Register_def Let_def flip: hd_def)
  have none: "find ?mine (pt_keys db) = None"
    using assms run by (cases "find ?mine (pt_keys db)") (auto simp: map_sum_Inr_iff split: if_splits)
  have new: "register_new db actor c slug hd (registration_digest sha256 (cr_Canonical c) hd) key req clock t ids = Inr (g, db')"
    using assms run none by (cases "existing_registration db (pr_Workspace actor) (cr_Canonical c)") (auto simp: map_sum_Inr_iff split: if_splits)
  let ?d = "registration_digest sha256 (cr_Canonical c) hd"
  obtain k where k: "pt_keys db' = pt_keys db @ [k]" "?mine k" "kw_Digest k = ?d" "kw_Resource k = pj_ID (rg_Project g)"
      "kw_JobID k = jb_ID (rg_Job g)" "0 < kw_Resource k" "0 < kw_JobID k"
    and there: "\<exists>r \<in> set (pt_projects db'). pj_ID (pw_Project r) = kw_Resource k" "row_by_job (pt_jobs db') (kw_JobID k) \<noteq> None"
    using register_new_replayable [OF new] by blast
  have found: "find ?mine (pt_keys db') = Some k" using k none by (simp add: find_append)
  obtain r where r: "find (\<lambda>r. pj_ID (pw_Project r) = kw_Resource k) (pt_projects db') = Some r"
    using there(1) by (cases "find (\<lambda>r. pj_ID (pw_Project r) = kw_Resource k) (pt_projects db')") (auto simp: find_None_iff)
  obtain j where j: "row_by_job (pt_jobs db') (kw_JobID k) = Some j" using there(2) by blast
  obtain g0 where g0: "registrationTx db' (kw_Resource k) (kw_JobID k) = Inr g0" "pj_ID (rg_Project g0) = kw_Resource k" "jb_ID (rg_Job g0) = kw_JobID k"
    using find_mem [OF r] row_by_job_id [OF j] by (simp add: registrationTx_def r j)
  have "Register parse sha256 db' actor url days key req2 clock2 t2 ids2 = Inr (g0\<lparr>rg_Replay := True\<rparr>, db')"
    using a c h slug found k g0 by (simp add: Register_def Let_def flip: hd_def)
  with g0 k show ?thesis by auto
qed

section \<open>Sample runs\<close>

definition sample_admin :: Principal where
  "sample_admin = sample_operator\<lparr>pr_Role := RoleAdmin\<rparr>"

definition sample_uri :: "string \<Rightarrow> request_uri option" where
  "sample_uri s = (if s = ''r'' \<or> s = ''d'' then Some \<lparr>ru_Scheme = ''https'', ru_HasUser = False, ru_RawQuery = '''', ru_Fragment = '''',
     ru_Hostname = ''github.com'', ru_Port = '''', ru_Path = ''/o/'' @ s\<rparr> else None)"

definition sample_store_sha :: "string \<Rightarrow> string" where
  "sample_store_sha s = replicate 32 CHR ''x''"

definition sample_registration :: projectstore_op where
  "sample_registration = PsRegister sample_admin ''r'' 0 ''k'' ''q'' (Time 0 UTC) (Time 0 UTC) [1, 2, 3, 4, 5, 6, 7]"

definition sample_stored_projects :: project_db where
  "sample_stored_projects = reachable_projects sample_uri sample_store_sha [sample_registration]"

theorem repository_edits_refine_rules_witness:
  "\<exists>db' p q p'. stored_edit sample_uri sample_stored_projects sample_admin 1 (EditAdd ''d'' RoleDocumentation) ''q'' (Time 0 UTC) [8, 9] = Inr db' \<and>
    loadProjectForUpdate sample_stored_projects 1 1 = Inr p \<and> domain_edit sample_uri 1 8 (EditAdd ''d'' RoleDocumentation) p = Inr q \<and>
    loadProjectForUpdate db' 1 1 = Inr p' \<and> p'\<lparr>pj_Repositories := []\<rparr> = q\<lparr>pj_Repositories := []\<rparr>"
proof -
  have "\<not> isl (stored_edit sample_uri sample_stored_projects sample_admin 1 (EditAdd ''d'' RoleDocumentation) ''q'' (Time 0 UTC) [8, 9])" by code_simp
  then obtain db' where e: "stored_edit sample_uri sample_stored_projects sample_admin 1 (EditAdd ''d'' RoleDocumentation) ''q'' (Time 0 UTC) [8, 9] = Inr db'"
    by (metis sum.collapse(2))
  have "pr_Workspace sample_admin = 1" by (simp add: sample_admin_def sample_operator_def)
  with repository_edits_refine_rules [OF e [unfolded sample_stored_projects_def]] e show ?thesis unfolding sample_stored_projects_def by auto
qed

theorem transition_strands_project_witness:
  "\<exists>g db'. TransitionProject sample_stored_projects sample_admin 1 1 StateDeleting ''q'' (Time 0 UTC) (Time 0 UTC) [11, 12, 13, 14] = Inr (g, db') \<and>
    isl (GetProject db' sample_admin 1) \<and>
    isl (RequestDeletion db' sample_admin 1 2 ''DELETE r'' '''' ''q'' (Time 0 UTC) (Time 0 UTC) [21, 22, 23])"
proof -
  have "\<not> isl (TransitionProject sample_stored_projects sample_admin 1 1 StateDeleting ''q'' (Time 0 UTC) (Time 0 UTC) [11, 12, 13, 14])" by code_simp
  then obtain g db' where e: "TransitionProject sample_stored_projects sample_admin 1 1 StateDeleting ''q'' (Time 0 UTC) (Time 0 UTC) [11, 12, 13, 14] = Inr (g, db')"
    by (metis sum.collapse(2) prod.collapse)
  from transition_strands_project [OF e] e show ?thesis by blast
qed

theorem register_replay_witness:
  "\<exists>g db' g'. Register sample_uri sample_store_sha no_projects sample_admin ''r'' 0 ''k'' ''q'' (Time 0 UTC) (Time 0 UTC) [1, 2, 3, 4, 5, 6, 7] = Inr (g, db') \<and>
    Register sample_uri sample_store_sha db' sample_admin ''r'' 0 ''k'' ''p'' (Time 9 UTC) (Time 9 UTC) [] = Inr (g', db') \<and> rg_Replay g'"
proof -
  let ?r = "Register sample_uri sample_store_sha no_projects sample_admin ''r'' 0 ''k'' ''q'' (Time 0 UTC) (Time 0 UTC) [1, 2, 3, 4, 5, 6, 7]"
  have n: "\<not> isl ?r \<and> \<not> rg_Replay (fst (projr ?r))" by code_simp
  then obtain g db' where e: "?r = Inr (g, db')" by (metis sum.collapse(2) prod.collapse)
  with n have "\<not> rg_Replay g" by simp
  from register_replay [OF e this, of "''p''" "Time 9 UTC" "Time 9 UTC" "[]"] e show ?thesis by blast
qed

text \<open>A source of project 1 with its association, and a second project.\<close>

definition sample_association :: Association where
  "sample_association = \<lparr>as_ID = 50, as_SourceID = 3, as_ProjectID = 1, as_Method = ''m'', as_Confidence = Fin 1, as_Evidence = [],
     as_DecisionVersion = ''v'', as_Status = AssociationUnresolved, as_Constraint = None, as_Version = 1\<rparr>"

definition sample_associated :: project_db where
  "sample_associated = (reachable_projects sample_uri sample_store_sha [sample_registration,
       PsRegister sample_admin ''d'' 0 ''l'' ''q'' (Time 0 UTC) (Time 0 UTC) [31, 32, 33, 34, 35, 36, 37]])\<lparr>pt_associations := [sample_association]\<rparr>"

lemma accepted_result: "\<not> isl x \<and> snd (fst (projr x)) \<Longrightarrow> x = Inr ((fst (fst (projr x)), True), snd (projr x))"
  by (cases x) (auto simp: prod_eq_iff)

theorem reassignment_forgotten_witness:
  "\<exists>j1 db1 j2 db2. CorrectAssociation sample_associated sample_admin 1 50 31 ''reassign'' ''r'' ''q'' (Time 0 UTC) [41, 42, 43, 44] = Inr ((j1, True), db1) \<and>
     CorrectAssociation db1 sample_admin 31 50 1 ''reassign'' ''r'' ''q'' (Time 0 UTC) [45, 46, 47, 48] = Inr ((j2, True), db2) \<and>
     CorrectAssociation db2 sample_admin 1 50 31 ''reassign'' ''r'' ''q'' (Time 0 UTC) [] = Inr ((0, False), db2)"
proof -
  let ?a = "CorrectAssociation sample_associated sample_admin 1 50 31 ''reassign'' ''r'' ''q'' (Time 0 UTC) [41, 42, 43, 44]"
  let ?b = "CorrectAssociation (snd (projr ?a)) sample_admin 31 50 1 ''reassign'' ''r'' ''q'' (Time 0 UTC) [45, 46, 47, 48]"
  have "\<not> isl ?a \<and> snd (fst (projr ?a))" by code_simp
  note a = accepted_result [OF this]
  have "\<not> isl ?b \<and> snd (fst (projr ?b))" by code_simp
  note b = accepted_result [OF this]
  from a b conjunct1 [OF reassignment_forgotten [OF a b, of "''r''" "''q''" "Time 0 UTC" "[]"]] show ?thesis by (intro exI conjI)
qed
end
