(* ===== verification/PolicyStore.thy ===== *)
theory PolicyStore
  imports Policy AnalysisStore
begin

text \<open>
  The policy and radar methods of \<open>internal/platform/intelligencestore/governance.go\<close>: policy families and their versions, activation,
  recommendation evaluations, radar selections and overrides. A table is a list of rows with the constraints of migration 0006; a version
  row holds its rules and its mapping, an evaluation row its factors, evidence and gaps. \<open>now\<close> is the clock of the process, \<open>ids\<close> the
  identifiers that the source issues next. Signals and metrics are not modelled here.
\<close>

section \<open>Tables\<close>

datatype policystore_error = PvAccess access_error | PvPolicy policy_error | PvRadar radar_error | PvNoRows | PvConstraint | PvIDs

record policy_project =
  pq_Ref :: project_ref
  pq_Name :: string

record family_row =
  fw_ID :: int64
  fw_Workspace :: int64
  fw_Name :: string
  fw_Description :: string
  fw_Owner :: string
  fw_Active :: "int option"
  fw_CreatedAt :: gotime
  fw_RequestID :: string

text \<open>\<open>vr_Version\<close> has the columns of the version; its name, description and owner are those of the family.\<close>

record version_row =
  vr_Version :: PolicyVersion
  vr_RequestID :: string

record evaluation_row =
  ew_Evaluation :: Evaluation
  ew_VersionID :: int64

record selection_row =
  zr_ProjectID :: int64
  zr_EvaluationID :: int64
  zr_SelectedBy :: int64
  zr_SelectedAt :: gotime
  zr_Revision :: int64

record override_row =
  rv_Override :: Override
  rv_ProjectID :: int64
  rv_RequestID :: string

record policy_db =
  pd_projects :: "policy_project list"
  pd_definitions :: "(string \<times> string) list"
  pd_families :: "family_row list"
  pd_versions :: "version_row list"
  pd_evaluations :: "evaluation_row list"
  pd_selections :: "selection_row list"
  pd_overrides :: "override_row list"

definition blank_text :: "string \<Rightarrow> bool" where
  "blank_text s = list_all (\<lambda>c. c = CHR '' '') s"

definition stored_rule_ok :: "(string \<times> string) list \<Rightarrow> policy_Rule \<Rightarrow> bool" where
  "stored_rule_ok known r \<longleftrightarrow> (po_MetricName r, po_MetricVersion r) \<in> set known \<and> validOperator (po_Operator r) \<and>
     flt (Fin 0) (po_Weight r) \<and> fle (po_Weight r) (Fin 1) \<and> (po_OnFailure r = Conditional \<or> po_OnFailure r = NotRecommended) \<and>
     \<not> blank_text (po_Label r) \<and> (\<not> po_Required r \<or> \<not> blank_text (po_RequiredEvidence r))"

definition stored_version :: "PolicyVersion \<Rightarrow> string \<Rightarrow> version_row" where
  "stored_version v requestID = \<lparr>vr_Version = v\<lparr>pv_CreatedAt := pg_time (pv_CreatedAt v),
     pv_ActivatedAt := map_option pg_time (pv_ActivatedAt v), pv_RetiredAt := map_option pg_time (pv_RetiredAt v)\<rparr>, vr_RequestID = requestID\<rparr>"

definition insertPolicyVersion :: "policy_db \<Rightarrow> PolicyVersion \<Rightarrow> string \<Rightarrow> policystore_error + policy_db" where
  "insertPolicyVersion db v requestID =
     (if pv_ID v \<le> 0 \<or> pv_Version v \<le> 0 \<or> pv_CreatedBy v \<le> 0 \<or> pv_Revision v \<le> 0 \<or> blank_text requestID \<or>
         pv_Version v > 2147483647 \<or> (case pv_State v of PolicyStateOther _ \<Rightarrow> True | _ \<Rightarrow> False) \<or>
         (pv_State v = PolicyActive \<and> (pv_ActivatedAt v = None \<or> pv_RetiredAt v \<noteq> None)) \<or>
         (case pv_RetiredAt v of None \<Rightarrow> False | Some t \<Rightarrow> (case pv_ActivatedAt v of None \<Rightarrow> True | Some a \<Rightarrow> after (pg_time a) (pg_time t))) \<or>
         list_ex (\<lambda>r. pv_ID (vr_Version r) = pv_ID v \<or> (pv_FamilyID (vr_Version r) = pv_FamilyID v \<and>
           (pv_Version (vr_Version r) = pv_Version v \<or> vr_RequestID r = requestID))) (pd_versions db) \<or>
         \<not> list_all (stored_rule_ok (pd_definitions db)) (pv_Rules v) \<or> length (pv_Rules v) > 100 \<or>
         \<not> list_all (\<lambda>(c, ring). outcome_Valid c \<and> ring \<in> set radarRings) (pv_RadarMap v)
      then Inl PvConstraint
      else Inr (db\<lparr>pd_versions := pd_versions db @ [stored_version v requestID]\<rparr>))"

section \<open>Versions\<close>

definition family_of :: "policy_db \<Rightarrow> int64 \<Rightarrow> int64 \<Rightarrow> family_row option" where
  "family_of db ws i = find (\<lambda>f. fw_ID f = i \<and> fw_Workspace f = ws) (pd_families db)"

definition loadPolicyVersion :: "policy_db \<Rightarrow> int64 \<Rightarrow> int64 \<Rightarrow> int \<Rightarrow> string \<Rightarrow> policystore_error + PolicyVersion" where
  "loadPolicyVersion db ws policyID version requestID =
     (case family_of db ws policyID of None \<Rightarrow> Inl PvNoRows
      | Some f \<Rightarrow>
          (case find (\<lambda>r. pv_FamilyID (vr_Version r) = policyID \<and>
                  (if requestID \<noteq> '''' then vr_RequestID r = requestID else pv_Version (vr_Version r) = version)) (pd_versions db) of
             None \<Rightarrow> Inl PvNoRows
           | Some r \<Rightarrow> Inr ((vr_Version r)\<lparr>pv_Name := fw_Name f, pv_Description := fw_Description f, pv_Owner := fw_Owner f\<rparr>)))"

definition store_PolicyVersion :: "policy_db \<Rightarrow> Principal \<Rightarrow> int64 \<Rightarrow> int \<Rightarrow> policystore_error + PolicyVersion" where
  "store_PolicyVersion db actor policyID version =
     (case Authorize actor ActionIntelligenceRead of Some e \<Rightarrow> Inl (PvAccess e)
      | None \<Rightarrow> loadPolicyVersion db (pr_Workspace actor) policyID version '''')"

definition insert_family :: "policy_db \<Rightarrow> family_row \<Rightarrow> int64 \<Rightarrow> policystore_error + policy_db" where
  "insert_family db f createdBy =
     (if fw_ID f \<le> 0 \<or> createdBy \<le> 0 \<or> blank_text (fw_Name f) \<or> blank_text (fw_Owner f) \<or> blank_text (fw_RequestID f) \<or>
         list_ex (\<lambda>g. fw_ID g = fw_ID f \<or> (fw_Workspace g = fw_Workspace f \<and> (fw_Name g = fw_Name f \<or> fw_RequestID g = fw_RequestID f)))
           (pd_families db)
      then Inl PvConstraint
      else Inr (db\<lparr>pd_families := pd_families db @ [f]\<rparr>))"

definition policy_defaults :: "PolicyVersion \<Rightarrow> PolicyVersion" where
  "policy_defaults value0 =
     (let v = (if pv_State value0 = PolicyStateOther '''' then value0\<lparr>pv_State := PolicyDraft\<rparr> else value0) in
      if pv_Version v = 0 then v\<lparr>pv_Version := 1\<rparr> else v)"

definition policy_stamped :: "gotime \<Rightarrow> PolicyVersion \<Rightarrow> PolicyVersion" where
  "policy_stamped now v = (if is_zero (pv_CreatedAt v) then v\<lparr>pv_CreatedAt := utc now\<rparr> else v)"

definition new_family :: "int64 \<Rightarrow> Principal \<Rightarrow> PolicyVersion \<Rightarrow> string \<Rightarrow> family_row" where
  "new_family familyID actor v requestID = \<lparr>fw_ID = familyID, fw_Workspace = pr_Workspace actor, fw_Name = pv_Name v,
     fw_Description = pv_Description v, fw_Owner = pv_Owner v, fw_Active = None, fw_CreatedAt = pg_time (pv_CreatedAt v),
     fw_RequestID = requestID\<rparr>"

definition CreatePolicy ::
    "policy_db \<Rightarrow> Principal \<Rightarrow> PolicyVersion \<Rightarrow> string \<Rightarrow> gotime \<Rightarrow> int64 list \<Rightarrow> policystore_error + PolicyVersion \<times> policy_db" where
  "CreatePolicy db actor value0 requestID now ids =
     (case CanGovern actor of Some e \<Rightarrow> Inl (PvAccess e)
      | None \<Rightarrow>
      if pv_State (policy_defaults value0) \<noteq> PolicyDraft \<or> policy_Validate (policy_defaults value0) \<noteq> None \<or> trim_space requestID = ''''
      then Inl (PvPolicy PolicyErrInvalid)
      else
        (case ids of
           familyID # versionID # rest \<Rightarrow>
             let v = policy_stamped now (policy_defaults value0) in
             (case insert_family db (new_family familyID actor v requestID) (pr_ActorID actor) of
                Inl e \<Rightarrow>
                  (case find (\<lambda>f. fw_Workspace f = pr_Workspace actor \<and> fw_RequestID f = requestID) (pd_families db) of
                     None \<Rightarrow> Inl e
                   | Some f \<Rightarrow> map_sum id (\<lambda>v. (v, db)) (store_PolicyVersion db actor (fw_ID f) 1))
              | Inr db1 \<Rightarrow>
                  let created = v\<lparr>pv_ID := versionID, pv_FamilyID := familyID, pv_CreatedBy := pr_ActorID actor, pv_Revision := 1\<rparr> in
                  bindE (insertPolicyVersion db1 created requestID) (\<lambda>db2. Inr (created, db2)))
         | _ \<Rightarrow> Inl PvIDs))"

definition latest_version :: "policy_db \<Rightarrow> int64 \<Rightarrow> int" where
  "latest_version db policyID = fold max (map (\<lambda>r. pv_Version (vr_Version r)) (filter (\<lambda>r. pv_FamilyID (vr_Version r) = policyID) (pd_versions db))) 0"

definition following_version :: "family_row \<Rightarrow> int \<Rightarrow> Principal \<Rightarrow> PolicyVersion \<Rightarrow> PolicyVersion" where
  "following_version f latest actor value0 = value0\<lparr>pv_FamilyID := fw_ID f, pv_Version := latest + 1, pv_Name := fw_Name f,
     pv_Description := fw_Description f, pv_Owner := fw_Owner f, pv_State := PolicyDraft, pv_Revision := 1, pv_CreatedBy := pr_ActorID actor\<rparr>"

definition CreatePolicyVersion ::
    "policy_db \<Rightarrow> Principal \<Rightarrow> int64 \<Rightarrow> PolicyVersion \<Rightarrow> string \<Rightarrow> int \<Rightarrow> gotime \<Rightarrow> int64 list \<Rightarrow> policystore_error + PolicyVersion \<times> policy_db" where
  "CreatePolicyVersion db actor policyID value0 requestID expectedLatest now ids =
     (case CanGovern actor of Some e \<Rightarrow> Inl (PvAccess e)
      | None \<Rightarrow>
      if trim_space requestID = '''' \<or> (pv_State value0 \<noteq> PolicyStateOther '''' \<and> pv_State value0 \<noteq> PolicyDraft)
      then Inl (PvPolicy PolicyErrInvalid)
      else (case family_of db (pr_Workspace actor) policyID of None \<Rightarrow> Inl PvNoRows
      | Some f \<Rightarrow>
          (case loadPolicyVersion db (pr_Workspace actor) policyID 0 requestID of
             Inr existing \<Rightarrow> Inr (existing, db)
           | Inl _ \<Rightarrow>
               if latest_version db policyID \<noteq> expectedLatest then Inl (PvAccess ErrVersionConflict)
               else
                 let v = policy_stamped now (following_version f (latest_version db policyID) actor value0) in
                 case policy_Validate v of Some e \<Rightarrow> Inl (PvPolicy e)
                 | None \<Rightarrow>
                     (case ids of [] \<Rightarrow> Inl PvIDs
                      | i # rest \<Rightarrow> bindE (insertPolicyVersion db (v\<lparr>pv_ID := i\<rparr>) requestID) (\<lambda>db1. Inr (v\<lparr>pv_ID := i\<rparr>, db1))))))"

definition cmp_family :: "family_row \<Rightarrow> family_row \<Rightarrow> int" where
  "cmp_family a b = cmp_then (cmp_string (to_lower (fw_Name a)) (to_lower (fw_Name b))) (cmp_int (fw_ID a) (fw_ID b))"

fun policy_state_text :: "PolicyState \<Rightarrow> string" where
  "policy_state_text PolicyDraft = ''draft''" | "policy_state_text PolicyActive = ''active''"
| "policy_state_text PolicySuperseded = ''superseded''" | "policy_state_text PolicyRetired = ''retired''"
| "policy_state_text (PolicyStateOther s) = s"

fun load_each :: "policy_db \<Rightarrow> int64 \<Rightarrow> (int64 \<times> int) list \<Rightarrow> policystore_error + PolicyVersion list" where
  "load_each db ws [] = Inr []"
| "load_each db ws ((i, version) # rest) =
     bindE (loadPolicyVersion db ws i version '''') (\<lambda>v. bindE (load_each db ws rest) (\<lambda>vs. Inr (v # vs)))"

definition Policies :: "policy_db \<Rightarrow> Principal \<Rightarrow> string \<Rightarrow> int \<Rightarrow> int \<Rightarrow> policystore_error + PolicyVersion list" where
  "Policies db actor state limit offset =
     (case Authorize actor ActionIntelligenceRead of Some e \<Rightarrow> Inl (PvAccess e)
      | None \<Rightarrow>
      if limit \<le> 0 \<or> limit > 200 \<or> offset < 0 then Inl (PvPolicy PolicyErrInvalid)
      else
        load_each db (pr_Workspace actor) (map (\<lambda>f. (fw_ID f, case fw_Active f of Some v \<Rightarrow> v | None \<Rightarrow> latest_version db (fw_ID f)))
          (take (nat limit) (drop (nat offset) (sort_func cmp_family (filter (\<lambda>f. fw_Workspace f = pr_Workspace actor \<and>
            (state = '''' \<or> list_ex (\<lambda>r. pv_FamilyID (vr_Version r) = fw_ID f \<and> policy_state_text (pv_State (vr_Version r)) = state)
              (pd_versions db))) (pd_families db)))))))"

section \<open>Activation\<close>

text \<open>
  An activation reads and writes in one transaction at the level READ COMMITTED. \<open>seen\<close> is the database that its first statements saw,
  \<open>db\<close> the one that its writes reach: an \<open>UPDATE\<close> chooses its rows from what its statement saw and checks its condition again on the
  row that it writes. \<open>ActivatePolicy\<close> is the transaction that runs alone; two that overlap share \<open>seen\<close>.
\<close>

definition other_active :: "int64 \<Rightarrow> int \<Rightarrow> version_row \<Rightarrow> bool" where
  "other_active policyID version r \<longleftrightarrow> pv_FamilyID (vr_Version r) = policyID \<and> pv_State (vr_Version r) = PolicyActive \<and>
     pv_Version (vr_Version r) \<noteq> version"

definition version_ids :: "(version_row \<Rightarrow> bool) \<Rightarrow> policy_db \<Rightarrow> int64 list" where
  "version_ids P db = map (\<lambda>r. pv_ID (vr_Version r)) (filter P (pd_versions db))"

definition superseded :: "gotime \<Rightarrow> version_row \<Rightarrow> version_row" where
  "superseded now r = r\<lparr>vr_Version := (vr_Version r)\<lparr>pv_State := PolicySuperseded, pv_RetiredAt := Some (pg_time now),
     pv_Revision := pv_Revision (vr_Version r) + 1\<rparr>\<rparr>"

definition draft_at :: "int64 \<Rightarrow> int \<Rightarrow> int64 \<Rightarrow> version_row \<Rightarrow> bool" where
  "draft_at policyID version expectedRevision r \<longleftrightarrow> pv_FamilyID (vr_Version r) = policyID \<and> pv_Version (vr_Version r) = version \<and>
     pv_Revision (vr_Version r) = expectedRevision \<and> pv_State (vr_Version r) = PolicyDraft"

definition activated :: "int64 \<Rightarrow> gotime \<Rightarrow> version_row \<Rightarrow> version_row" where
  "activated revision now r = r\<lparr>vr_Version := (vr_Version r)\<lparr>pv_State := PolicyActive, pv_ActivatedAt := Some (pg_time now),
     pv_Revision := revision\<rparr>\<rparr>"

definition set_active_version :: "int64 \<Rightarrow> int \<Rightarrow> family_row \<Rightarrow> family_row" where
  "set_active_version policyID version f = (if fw_ID f = policyID then f\<lparr>fw_Active := Some version\<rparr> else f)"

definition activation_writes ::
    "policy_db \<Rightarrow> policy_db \<Rightarrow> int64 \<Rightarrow> int \<Rightarrow> int64 \<Rightarrow> int64 \<Rightarrow> gotime \<Rightarrow> policystore_error + policy_db" where
  "activation_writes seen db policyID version expectedRevision revision now =
     (let hit = (\<lambda>r. pv_ID (vr_Version r) \<in> set (version_ids (other_active policyID version) seen) \<and> other_active policyID version r);
          rows = map (\<lambda>r. if hit r then superseded now r else r) (pd_versions db) in
      if list_ex (\<lambda>r. hit r \<and> (case pv_ActivatedAt (vr_Version r) of None \<Rightarrow> True | Some a \<Rightarrow> after a (pg_time now))) (pd_versions db) \<or>
         list_ex (\<lambda>r. draft_at policyID version expectedRevision r \<and> pv_RetiredAt (vr_Version r) \<noteq> None) rows
      then Inl PvConstraint
      else if length (filter (draft_at policyID version expectedRevision) rows) \<noteq> 1 then Inl (PvAccess ErrVersionConflict)
      else Inr (db\<lparr>pd_versions := map (\<lambda>r. if draft_at policyID version expectedRevision r then activated revision now r else r) rows,
        pd_families := map (set_active_version policyID version) (pd_families db)\<rparr>))"

definition overlapping_activation ::
    "policy_db \<Rightarrow> policy_db \<Rightarrow> Principal \<Rightarrow> int64 \<Rightarrow> int \<Rightarrow> int64 \<Rightarrow> gotime \<Rightarrow> policystore_error + PolicyVersion \<times> policy_db" where
  "overlapping_activation seen db actor policyID version expectedRevision now =
     (case CanGovern actor of Some e \<Rightarrow> Inl (PvAccess e)
      | None \<Rightarrow>
      bindE (loadPolicyVersion seen (pr_Workspace actor) policyID version '''') (\<lambda>v.
      if pv_Revision v \<noteq> expectedRevision then Inl (PvAccess ErrVersionConflict)
      else
        bindE (map_sum PvPolicy id (Activate v now)) (\<lambda>active.
        bindE (activation_writes seen db policyID version expectedRevision (pv_Revision active) now) (\<lambda>db'.
        Inr (active, db')))))"

definition ActivatePolicy ::
    "policy_db \<Rightarrow> Principal \<Rightarrow> int64 \<Rightarrow> int \<Rightarrow> int64 \<Rightarrow> gotime \<Rightarrow> policystore_error + PolicyVersion \<times> policy_db" where
  "ActivatePolicy db = overlapping_activation db db"

definition cmp_family_age :: "family_row \<Rightarrow> family_row \<Rightarrow> int" where
  "cmp_family_age a b = cmp_then (time_compare (fw_CreatedAt a) (fw_CreatedAt b)) (cmp_int (fw_ID a) (fw_ID b))"

definition ActivePolicy :: "policy_db \<Rightarrow> Principal \<Rightarrow> string \<Rightarrow> policystore_error + PolicyVersion" where
  "ActivePolicy db actor selector0 =
     (case Authorize actor ActionIntelligenceRead of Some e \<Rightarrow> Inl (PvAccess e)
      | None \<Rightarrow>
      let selector = trim_space selector0 in
      (case sort_func cmp_family_age (filter (\<lambda>f. fw_Workspace f = pr_Workspace actor \<and> fw_Active f \<noteq> None \<and>
          (selector = '''' \<or> selector = ''default'' \<or> format_int (fw_ID f) = selector \<or> to_lower (fw_Name f) = to_lower selector))
          (pd_families db)) of
         [] \<Rightarrow> Inl PvNoRows
       | f # _ \<Rightarrow> loadPolicyVersion db (pr_Workspace actor) (fw_ID f) (the (fw_Active f)) ''''))"

section \<open>Evaluations\<close>

definition window_key :: "MetricWindow \<Rightarrow> gotime \<times> gotime \<times> gotime" where
  "window_key w = (pg_time (mw_From w), pg_time (mw_To w), pg_time (mw_Cutoff w))"

definition version_by_id :: "policy_db \<Rightarrow> int64 \<Rightarrow> PolicyVersion option" where
  "version_by_id db i = map_option vr_Version (find (\<lambda>r. pv_ID (vr_Version r) = i) (pd_versions db))"

definition project_refs :: "policy_db \<Rightarrow> project_ref list" where
  "project_refs db = map pq_Ref (pd_projects db)"

definition cmp_evaluation :: "evaluation_row \<Rightarrow> evaluation_row \<Rightarrow> int" where
  "cmp_evaluation a b = cmp_then (time_compare (el_CreatedAt (ew_Evaluation b)) (el_CreatedAt (ew_Evaluation a)))
     (cmp_int (el_ID (ew_Evaluation b)) (el_ID (ew_Evaluation a)))"

definition recommended_rows :: "policy_db \<Rightarrow> int64 \<Rightarrow> int64 \<Rightarrow> int64 \<Rightarrow> int \<Rightarrow> MetricWindow \<Rightarrow> evaluation_row list" where
  "recommended_rows db ws projectID policyID version window = filter (\<lambda>r. let e = ew_Evaluation r in
     el_ProjectID e = projectID \<and> el_PolicyID e = policyID \<and> window_key (el_Window e) = window_key window \<and>
     (case version_by_id db (ew_VersionID r) of None \<Rightarrow> False | Some v \<Rightarrow> pv_Version v = version) \<and> family_of db ws policyID \<noteq> None)
     (pd_evaluations db)"

definition Recommendation ::
    "policy_db \<Rightarrow> Principal \<Rightarrow> int64 \<Rightarrow> int64 \<Rightarrow> int \<Rightarrow> MetricWindow \<Rightarrow> policystore_error + Evaluation" where
  "Recommendation db actor projectID policyID version window =
     (case authorizeProject (project_refs db) actor projectID of Some e \<Rightarrow> Inl (PvAccess e)
      | None \<Rightarrow>
          (case sort_func cmp_evaluation (recommended_rows db (pr_Workspace actor) projectID policyID version window) of
             [] \<Rightarrow> Inl PvNoRows
           | r # _ \<Rightarrow> Inr ((ew_Evaluation r)\<lparr>el_PolicyVersion := version, el_Window := window,
                 el_PolicyOwner := (case family_of db (pr_Workspace actor) policyID of None \<Rightarrow> '''' | Some f \<Rightarrow> fw_Owner f)\<rparr>)))"

text \<open>The row as it is read back: evidence identifiers sorted and once each.\<close>

definition stored_evaluation :: "Evaluation \<Rightarrow> Evaluation" where
  "stored_evaluation e = e\<lparr>el_CreatedAt := pg_time (el_CreatedAt e), el_EvidenceIDs := compactIDs (el_EvidenceIDs e),
     el_Window := (case window_key (el_Window e) of (from, to, cutoff) \<Rightarrow> \<lparr>mw_From = from, mw_To = to, mw_Cutoff = cutoff\<rparr>)\<rparr>"

definition evaluation_rows_ok :: "Evaluation \<Rightarrow> bool" where
  "evaluation_rows_ok e \<longleftrightarrow> list_all (\<lambda>f. \<not> blank_text (px_Label f) \<and> px_RuleIndex f \<ge> 0) (el_Factors e) \<and>
     list_all (\<lambda>i. i > 0) (el_EvidenceIDs e) \<and>
     list_all (\<lambda>s. \<not> blank_text s) (el_Missing e @ el_StaleInputs e @ el_Conditions e @ el_Decisive e)"

definition same_inputs :: "Evaluation \<Rightarrow> Evaluation \<Rightarrow> bool" where
  "same_inputs v e \<longleftrightarrow> el_ProjectID e = el_ProjectID v \<and> window_key (el_Window e) = window_key (el_Window v) \<and> el_InputDigest e = el_InputDigest v"

definition evaluation_to_save :: "gotime \<Rightarrow> int64 list \<Rightarrow> Evaluation \<Rightarrow> Evaluation" where
  "evaluation_to_save now ids value0 =
     (let v = (if el_ID value0 = 0 then value0\<lparr>el_ID := hd ids\<rparr> else value0) in
      if is_zero (el_CreatedAt v) then v\<lparr>el_CreatedAt := utc now\<rparr> else v)"

definition SaveEvaluation ::
    "policy_db \<Rightarrow> Principal \<Rightarrow> Evaluation \<Rightarrow> gotime \<Rightarrow> int64 list \<Rightarrow> policystore_error + Evaluation \<times> policy_db" where
  "SaveEvaluation db actor value0 now ids =
     (case authorizeProject (project_refs db) actor (el_ProjectID value0) of Some e \<Rightarrow> Inl (PvAccess e)
      | None \<Rightarrow>
      if el_PolicyID value0 \<le> 0 \<or> el_PolicyVersion value0 \<le> 0 \<or> \<not> outcome_Valid (el_Outcome value0) \<or>
         window_Validate (el_Window value0) \<noteq> None \<or> trim_space (el_InputDigest value0) = ''''
      then Inl (PvPolicy PolicyErrInvalid)
      else if el_ID value0 = 0 \<and> ids = [] then Inl PvIDs
      else
        let v = evaluation_to_save now ids value0 in
        bindE (loadPolicyVersion db (pr_Workspace actor) (el_PolicyID v) (el_PolicyVersion v) '''') (\<lambda>pv.
        if el_ID v \<le> 0 \<or> blank_text (el_InputDigest v) \<or>
           (case window_key (el_Window v) of (from, to, cutoff) \<Rightarrow> \<not> before from to \<or> after to cutoff)
        then Inl PvConstraint
        else if list_ex (\<lambda>r. ew_VersionID r = pv_ID pv \<and> same_inputs v (ew_Evaluation r)) (pd_evaluations db)
        then map_sum id (\<lambda>e. (e, db)) (Recommendation db actor (el_ProjectID v) (el_PolicyID v) (el_PolicyVersion v) (el_Window v))
        else if el_ID v \<in> set (map (el_ID \<circ> ew_Evaluation) (pd_evaluations db)) \<or> \<not> evaluation_rows_ok v then Inl PvConstraint
        else Inr (v, db\<lparr>pd_evaluations := pd_evaluations db @ [\<lparr>ew_Evaluation = stored_evaluation v, ew_VersionID = pv_ID pv\<rparr>]\<rparr>)))"

section \<open>The radar\<close>

definition selection_of :: "int64 \<Rightarrow> int64 \<Rightarrow> Principal \<Rightarrow> gotime \<Rightarrow> int64 \<Rightarrow> selection_row" where
  "selection_of pid evaluationID actor now revision = \<lparr>zr_ProjectID = pid, zr_EvaluationID = evaluationID, zr_SelectedBy = pr_ActorID actor,
     zr_SelectedAt = pg_time now, zr_Revision = revision\<rparr>"

definition reselected :: "int64 \<Rightarrow> int64 \<Rightarrow> Principal \<Rightarrow> gotime \<Rightarrow> selection_row \<Rightarrow> selection_row" where
  "reselected pid evaluationID actor now s =
     (if zr_ProjectID s = pid then selection_of pid evaluationID actor now (zr_Revision s + 1) else s)"

definition SelectRadar :: "policy_db \<Rightarrow> Principal \<Rightarrow> int64 \<Rightarrow> int64 \<Rightarrow> gotime \<Rightarrow> policystore_error + policy_db" where
  "SelectRadar db actor evaluationID expectedRevision now =
     (case CanSelect actor of Some e \<Rightarrow> Inl (PvAccess e)
      | None \<Rightarrow>
      (case find (\<lambda>r. el_ID (ew_Evaluation r) = evaluationID \<and>
          list_ex (\<lambda>p. xp_ID p = el_ProjectID (ew_Evaluation r) \<and> xp_Workspace p = pr_Workspace actor \<and> xp_State p = ''active'')
            (project_refs db)) (pd_evaluations db) of
         None \<Rightarrow> Inl PvNoRows
       | Some r \<Rightarrow>
           let pid = el_ProjectID (ew_Evaluation r) in
           if pr_ActorID actor \<le> 0 then Inl PvConstraint
           else (case find (\<lambda>s. zr_ProjectID s = pid) (pd_selections db) of
               None \<Rightarrow> Inr (db\<lparr>pd_selections := pd_selections db @ [selection_of pid evaluationID actor now 1]\<rparr>)
             | Some s \<Rightarrow>
                 if zr_Revision s \<noteq> expectedRevision \<and> zr_EvaluationID s \<noteq> evaluationID then Inl (PvAccess ErrVersionConflict)
                 else Inr (db\<lparr>pd_selections := map (reselected pid evaluationID actor now) (pd_selections db)\<rparr>))))"

definition date_part :: "gotime \<Rightarrow> gotime" where
  "date_part t = Time (nanos t div day_length * day_length) UTC"

definition removed_override :: "int64 \<Rightarrow> gotime \<Rightarrow> override_row \<Rightarrow> override_row" where
  "removed_override pid now r = (if rv_ProjectID r = pid \<and> ov_RemovedAt (rv_Override r) = None
     then r\<lparr>rv_Override := (rv_Override r)\<lparr>ov_RemovedAt := Some (pg_time now), ov_Revision := ov_Revision (rv_Override r) + 1\<rparr>\<rparr> else r)"

text \<open>The check \<open>removed_at >= created_at\<close> of the rows that an update removes.\<close>

definition removable_at :: "policy_db \<Rightarrow> int64 \<Rightarrow> gotime \<Rightarrow> bool" where
  "removable_at db pid now \<longleftrightarrow> list_all (\<lambda>r. if rv_ProjectID r = pid \<and> ov_RemovedAt (rv_Override r) = None
     then \<not> after (ov_CreatedAt (rv_Override r)) (pg_time now) else True) (pd_overrides db)"

definition SaveRadarOverride ::
    "policy_db \<Rightarrow> Principal \<Rightarrow> int64 \<Rightarrow> Override \<Rightarrow> string \<Rightarrow> int64 list \<Rightarrow> policystore_error + Override \<times> policy_db" where
  "SaveRadarOverride db actor projectID value0 requestID ids =
     (case Authorize actor ActionProjectWrite of Some e \<Rightarrow> Inl (PvAccess e)
      | None \<Rightarrow>
      if projectID \<le> 0 \<or> ov_ActorID value0 \<noteq> pr_ActorID actor \<or> ov_Revision value0 \<noteq> 1 \<or> requestID = '''' then Inl (PvRadar RadarErrInvalid)
      else if ov_ID value0 = 0 \<and> ids = [] then Inl PvIDs
      else
        let v = (if ov_ID value0 = 0 then value0\<lparr>ov_ID := hd ids\<rparr> else value0) in
        if \<not> removable_at db projectID (ov_CreatedAt v) then Inl PvConstraint
        else if ov_ID v \<le> 0 \<or> ov_ID v \<in> set (map (ov_ID \<circ> rv_Override) (pd_overrides db)) \<or> ov_ActorID v \<le> 0 \<or>
          projectID \<notin> set (map zr_ProjectID (pd_selections db)) \<or> ov_Ring v \<notin> set [RingAdopt, RingTrial, RingAssess, RingHold] \<or>
          blank_text (ov_Reason v) \<or> blank_text (ov_Owner v) \<or> blank_text requestID \<or> ov_RemovedAt v \<noteq> None \<or>
          list_ex (\<lambda>r. rv_ProjectID r = projectID \<and> rv_RequestID r = requestID) (pd_overrides db)
        then (case find (\<lambda>r. rv_ProjectID r = projectID \<and> rv_RequestID r = requestID) (pd_overrides db) of
            None \<Rightarrow> Inl PvConstraint | Some r \<Rightarrow> Inr (rv_Override r, db))
        else Inr (v, db\<lparr>pd_overrides := map (removed_override projectID (ov_CreatedAt v)) (pd_overrides db) @
          [\<lparr>rv_Override = v\<lparr>ov_ReviewOn := date_part (ov_ReviewOn v), ov_CreatedAt := pg_time (ov_CreatedAt v)\<rparr>,
            rv_ProjectID = projectID, rv_RequestID = requestID\<rparr>]\<rparr>))"

definition RemoveRadarOverride :: "policy_db \<Rightarrow> Principal \<Rightarrow> int64 \<Rightarrow> int64 \<Rightarrow> gotime \<Rightarrow> policystore_error + policy_db" where
  "RemoveRadarOverride db actor projectID expectedRevision now =
     (case Authorize actor ActionProjectWrite of Some e \<Rightarrow> Inl (PvAccess e)
      | None \<Rightarrow>
      (case filter (\<lambda>r. rv_ProjectID r = projectID \<and> ov_Revision (rv_Override r) = expectedRevision \<and> ov_RemovedAt (rv_Override r) = None)
          (pd_overrides db) of
         [x] \<Rightarrow>
           if after (ov_CreatedAt (rv_Override x)) (pg_time now) then Inl PvConstraint
           else Inr (db\<lparr>pd_overrides := map (\<lambda>r. if r = x then removed_override projectID now r else r) (pd_overrides db)\<rparr>)
       | _ \<Rightarrow> Inl (PvAccess ErrVersionConflict)))"

definition placement_of :: "policy_db \<Rightarrow> gotime \<Rightarrow> policy_project \<Rightarrow> selection_row \<Rightarrow> policystore_error + Placement" where
  "placement_of db now p s =
     (case find (\<lambda>r. el_ID (ew_Evaluation r) = zr_EvaluationID s) (pd_evaluations db) of None \<Rightarrow> Inl PvNoRows
      | Some r \<Rightarrow>
          let e = ew_Evaluation r in
          (case (version_by_id db (ew_VersionID r), find (\<lambda>f. fw_ID f = el_PolicyID e) (pd_families db)) of
             (Some v, Some f) \<Rightarrow>
               map_sum PvRadar id (Resolve (zr_ProjectID s) (xp_State (pq_Ref p))
                 (e\<lparr>el_PolicyVersion := pv_Version v, el_PolicyOwner := fw_Owner f, el_Factors := [], el_EvidenceIDs := [], el_Missing := [],
                   el_Conditions := [], el_Decisive := [], el_StaleInputs := [], el_Explanation := ''''\<rparr>)
                 (pv_RadarMap v)
                 (map_option rv_Override (find (\<lambda>o'. rv_ProjectID o' = zr_ProjectID s \<and> ov_RemovedAt (rv_Override o') = None) (pd_overrides db)))
                 now)
           | _ \<Rightarrow> Inl PvNoRows))"

fun placements :: "policy_db \<Rightarrow> gotime \<Rightarrow> (policy_project \<times> selection_row) list \<Rightarrow> policystore_error + Placement list" where
  "placements db now [] = Inr []"
| "placements db now ((p, s) # rest) = bindE (placement_of db now p s) (\<lambda>x. bindE (placements db now rest) (\<lambda>xs. Inr (x # xs)))"

definition selected_projects :: "policy_db \<Rightarrow> int64 \<Rightarrow> (policy_project \<times> selection_row) list" where
  "selected_projects db ws = sort_func (\<lambda>a b. cmp_then (cmp_string (to_lower (pq_Name (fst a))) (to_lower (pq_Name (fst b))))
       (cmp_int (xp_ID (pq_Ref (fst a))) (xp_ID (pq_Ref (fst b)))))
     [(p, s). p \<leftarrow> pd_projects db, s \<leftarrow> pd_selections db, xp_ID (pq_Ref p) = zr_ProjectID s \<and> xp_Workspace (pq_Ref p) = ws]"

definition Radar :: "policy_db \<Rightarrow> Principal \<Rightarrow> gotime \<Rightarrow> int \<Rightarrow> int \<Rightarrow> policystore_error + Placement list" where
  "Radar db actor now limit offset =
     (case Authorize actor ActionIntelligenceRead of Some e \<Rightarrow> Inl (PvAccess e)
      | None \<Rightarrow>
      if limit \<le> 0 \<or> limit > 200 \<or> offset < 0 then Inl (PvRadar RadarErrInvalid)
      else placements db now (take (nat limit) (drop (nat offset) (selected_projects db (pr_Workspace actor)))))"

section \<open>Histories\<close>

datatype policystore_op =
  PoCreate Principal PolicyVersion string gotime "int64 list"
| PoVersion Principal int64 PolicyVersion string int gotime "int64 list"
| PoActivate Principal int64 int int64 gotime
| PoEvaluate Principal Evaluation gotime "int64 list"
| PoSelect Principal int64 int64 gotime
| PoOverride Principal int64 Override string "int64 list"
| PoRemove Principal int64 int64 gotime

definition after_policy :: "policy_db \<Rightarrow> policystore_error + 'a \<times> policy_db \<Rightarrow> policy_db" where
  "after_policy db r = (case r of Inl _ \<Rightarrow> db | Inr (_, db') \<Rightarrow> db')"

fun run_policy :: "policy_db \<Rightarrow> policystore_op \<Rightarrow> policy_db" where
  "run_policy db (PoCreate p v q now ids) = after_policy db (CreatePolicy db p v q now ids)"
| "run_policy db (PoVersion p i v q latest now ids) = after_policy db (CreatePolicyVersion db p i v q latest now ids)"
| "run_policy db (PoActivate p i v revision now) = after_policy db (ActivatePolicy db p i v revision now)"
| "run_policy db (PoEvaluate p e now ids) = after_policy db (SaveEvaluation db p e now ids)"
| "run_policy db (PoSelect p i revision now) = after_policy db (map_sum id (Pair ()) (SelectRadar db p i revision now))"
| "run_policy db (PoOverride p i v q ids) = after_policy db (SaveRadarOverride db p i v q ids)"
| "run_policy db (PoRemove p i revision now) = after_policy db (map_sum id (Pair ()) (RemoveRadarOverride db p i revision now))"

definition reachable_policies :: "policy_project list \<Rightarrow> (string \<times> string) list \<Rightarrow> policystore_op list \<Rightarrow> policy_db" where
  "reachable_policies projects known ops = fold (\<lambda>op db. run_policy db op) ops
     \<lparr>pd_projects = projects, pd_definitions = known, pd_families = [], pd_versions = [], pd_evaluations = [], pd_selections = [],
       pd_overrides = []\<rparr>"

section \<open>What the tables hold\<close>

definition version_key :: "version_row \<Rightarrow> int64 \<times> int" where
  "version_key r = (pv_FamilyID (vr_Version r), pv_Version (vr_Version r))"

definition is_active :: "version_row \<Rightarrow> bool" where
  "is_active r \<longleftrightarrow> pv_State (vr_Version r) = PolicyActive"

definition version_of_family :: "family_row \<Rightarrow> version_row \<Rightarrow> bool" where
  "version_of_family f r \<longleftrightarrow> pv_FamilyID (vr_Version r) = fw_ID f \<and> pv_Name (vr_Version r) = fw_Name f \<and>
     pv_Description (vr_Version r) = fw_Description f \<and> pv_Owner (vr_Version r) = fw_Owner f"

definition policy_sound :: "policy_db \<Rightarrow> bool" where
  "policy_sound db \<longleftrightarrow> distinct (map fw_ID (pd_families db)) \<and> distinct (map (pv_ID \<circ> vr_Version) (pd_versions db)) \<and>
     distinct (map version_key (pd_versions db)) \<and>
     (\<forall>r \<in> set (pd_versions db). policy_Validate (vr_Version r) = None \<and> (\<exists>f \<in> set (pd_families db). version_of_family f r)) \<and>
     (\<forall>f \<in> set (pd_families db). \<forall>v. fw_Active f = Some v \<longleftrightarrow>
       (\<exists>r \<in> set (pd_versions db). version_key r = (fw_ID f, v) \<and> is_active r))"

definition versions_present :: "policy_db \<Rightarrow> bool" where
  "versions_present db \<longleftrightarrow> (\<forall>f \<in> set (pd_families db). \<exists>r \<in> set (pd_versions db). pv_FamilyID (vr_Version r) = fw_ID f)"

lemma policy_Validate_cong [simp]:
  "policy_Validate (v\<lparr>pv_State := a\<rparr>) = policy_Validate v" "policy_Validate (v\<lparr>pv_ActivatedAt := b\<rparr>) = policy_Validate v"
  "policy_Validate (v\<lparr>pv_RetiredAt := c\<rparr>) = policy_Validate v" "policy_Validate (v\<lparr>pv_Revision := d\<rparr>) = policy_Validate v"
  "policy_Validate (v\<lparr>pv_CreatedAt := e\<rparr>) = policy_Validate v" "policy_Validate (v\<lparr>pv_ID := f\<rparr>) = policy_Validate v"
  "policy_Validate (v\<lparr>pv_FamilyID := g\<rparr>) = policy_Validate v" "policy_Validate (v\<lparr>pv_CreatedBy := h\<rparr>) = policy_Validate v"
  by (simp_all add: policy_Validate_def)

lemma stored_version_keeps [simp]:
  "pv_ID (vr_Version (stored_version v q)) = pv_ID v" "version_key (stored_version v q) = (pv_FamilyID v, pv_Version v)"
  "pv_FamilyID (vr_Version (stored_version v q)) = pv_FamilyID v" "pv_State (vr_Version (stored_version v q)) = pv_State v"
  "policy_Validate (vr_Version (stored_version v q)) = policy_Validate v"
  "version_of_family f (stored_version v q) \<longleftrightarrow> pv_FamilyID v = fw_ID f \<and> pv_Name v = fw_Name f \<and> pv_Description v = fw_Description f \<and>
    pv_Owner v = fw_Owner f"
  by (simp_all add: stored_version_def version_key_def version_of_family_def)

lemma insertPolicyVersion_Inr:
  assumes "insertPolicyVersion db v q = Inr db'"
  shows "db' = db\<lparr>pd_versions := pd_versions db @ [stored_version v q]\<rparr>" "pv_ID v \<notin> (pv_ID \<circ> vr_Version) ` set (pd_versions db)"
    "(pv_FamilyID v, pv_Version v) \<notin> version_key ` set (pd_versions db)"
  using assms by (auto simp: insertPolicyVersion_def version_key_def list_ex_iff split: if_splits)

lemma policy_sound_add:
  assumes "policy_sound db" "insertPolicyVersion db v q = Inr db'" "pv_State v = PolicyDraft" "policy_Validate v = None"
    "f \<in> set (pd_families db)" "pv_FamilyID v = fw_ID f" "pv_Name v = fw_Name f" "pv_Description v = fw_Description f" "pv_Owner v = fw_Owner f"
  shows "policy_sound db'"
  using assms(1,3-) insertPolicyVersion_Inr [OF assms(2)] unfolding policy_sound_def by (auto 0 3 simp: is_active_def)

lemma find_key_iff:
  assumes "distinct (map k xs)" "\<And>y. P y \<Longrightarrow> k y = c"
  shows "find P xs = Some x \<longleftrightarrow> x \<in> set xs \<and> P x"
  using assms
proof (induction xs)
  case (Cons y ys)
  have p: "P x \<Longrightarrow> P y \<Longrightarrow> k x = k y" using Cons.prems(2) [of x] Cons.prems(2) [of y] by simp
  have "P y \<Longrightarrow> P x \<Longrightarrow> x \<in> set ys \<Longrightarrow> False" using Cons.prems(1) p by (auto simp: image_iff)
  then show ?case using Cons by (cases "P y") auto
qed simp

lemma load_version_sound:
  assumes "policy_sound db"
  shows "loadPolicyVersion db ws i n '''' = Inr x \<longleftrightarrow> (\<exists>f \<in> set (pd_families db). \<exists>r \<in> set (pd_versions db).
    fw_ID f = i \<and> fw_Workspace f = ws \<and> version_key r = (i, n) \<and> x = vr_Version r)"
proof -
  note d = assms [unfolded policy_sound_def]
  have fam: "family_of db ws i = Some f \<longleftrightarrow> f \<in> set (pd_families db) \<and> fw_ID f = i \<and> fw_Workspace f = ws" for f
    unfolding family_of_def by (rule find_key_iff [where k = fw_ID]) (use d in simp_all)
  have ver: "find (\<lambda>r. pv_FamilyID (vr_Version r) = i \<and> pv_Version (vr_Version r) = n) (pd_versions db) = Some r \<longleftrightarrow>
      r \<in> set (pd_versions db) \<and> version_key r = (i, n)" for r
    using find_key_iff [of version_key "pd_versions db" "\<lambda>r. pv_FamilyID (vr_Version r) = i \<and> pv_Version (vr_Version r) = n" "(i, n)" r] d
    by (simp add: version_key_def)
  have same: "(vr_Version r)\<lparr>pv_Name := fw_Name f, pv_Description := fw_Description f, pv_Owner := fw_Owner f\<rparr> = vr_Version r"
    if fr: "f \<in> set (pd_families db)" "r \<in> set (pd_versions db)" "fw_ID f = i" "version_key r = (i, n)" for f r
  proof -
    obtain g where g: "g \<in> set (pd_families db)" "version_of_family g r" using d fr(2) by blast
    have "fw_ID g = fw_ID f" using g(2) fr(3,4) by (simp add: version_of_family_def version_key_def)
    moreover have "inj_on fw_ID (set (pd_families db))" using d by (simp add: distinct_map)
    ultimately have "g = f" using g(1) fr(1) by (simp add: inj_on_eq_iff)
    then show ?thesis using g(2) by (cases "vr_Version r") (simp add: version_of_family_def)
  qed
  show ?thesis
  proof
    assume "loadPolicyVersion db ws i n '''' = Inr x"
    then obtain f r where "family_of db ws i = Some f"
        "find (\<lambda>r. pv_FamilyID (vr_Version r) = i \<and> pv_Version (vr_Version r) = n) (pd_versions db) = Some r"
        "x = (vr_Version r)\<lparr>pv_Name := fw_Name f, pv_Description := fw_Description f, pv_Owner := fw_Owner f\<rparr>"
      unfolding loadPolicyVersion_def by (auto split: option.splits)
    then show "\<exists>f \<in> set (pd_families db). \<exists>r \<in> set (pd_versions db).
        fw_ID f = i \<and> fw_Workspace f = ws \<and> version_key r = (i, n) \<and> x = vr_Version r" using fam ver same by blast
  next
    assume "\<exists>f \<in> set (pd_families db). \<exists>r \<in> set (pd_versions db). fw_ID f = i \<and> fw_Workspace f = ws \<and> version_key r = (i, n) \<and> x = vr_Version r"
    then obtain f r where fr: "f \<in> set (pd_families db)" "r \<in> set (pd_versions db)" "fw_ID f = i" "fw_Workspace f = ws" "version_key r = (i, n)"
        "x = vr_Version r" by blast
    then show "loadPolicyVersion db ws i n '''' = Inr x" using fam [of f] ver [of r] same [of f r] by (simp add: loadPolicyVersion_def)
  qed
qed

definition activation_row :: "int64 \<Rightarrow> int \<Rightarrow> int64 \<Rightarrow> int64 \<Rightarrow> gotime \<Rightarrow> version_row \<Rightarrow> version_row" where
  "activation_row policyID version expectedRevision revision now r =
     (let r' = (if other_active policyID version r then superseded now r else r) in
      if draft_at policyID version expectedRevision r' then activated revision now r' else r')"

lemma activation_row_keeps [simp]:
  "pv_ID (vr_Version (activation_row i n e k now r)) = pv_ID (vr_Version r)" "version_key (activation_row i n e k now r) = version_key r"
  "pv_FamilyID (vr_Version (activation_row i n e k now r)) = pv_FamilyID (vr_Version r)"
  "policy_Validate (vr_Version (activation_row i n e k now r)) = policy_Validate (vr_Version r)"
  "version_of_family f (activation_row i n e k now r) = version_of_family f r"
  by (simp_all add: activation_row_def version_key_def version_of_family_def superseded_def activated_def Let_def)

lemma activation_row_active:
  "is_active (activation_row i n e k now r) \<longleftrightarrow> draft_at i n e r \<or> (is_active r \<and> (pv_FamilyID (vr_Version r) \<noteq> i \<or> version_key r = (i, n)))"
  by (auto simp: activation_row_def is_active_def superseded_def activated_def draft_at_def other_active_def version_key_def Let_def)

lemma activation_writes_Inr:
  assumes "activation_writes db db i n e k now = Inr db'"
  shows "db' = db\<lparr>pd_versions := map (activation_row i n e k now) (pd_versions db), pd_families := map (set_active_version i n) (pd_families db)\<rparr>"
    "\<exists>r \<in> set (pd_versions db). draft_at i n e r"
proof -
  have hit: "(pv_ID (vr_Version r) \<in> set (version_ids (other_active i n) db) \<and> other_active i n r) = other_active i n r"
    if "r \<in> set (pd_versions db)" for r using that by (auto simp: version_ids_def)
  let ?rows = "map (\<lambda>r. if pv_ID (vr_Version r) \<in> set (version_ids (other_active i n) db) \<and> other_active i n r then superseded now r else r)
    (pd_versions db)"
  have rows: "?rows = map (\<lambda>r. if other_active i n r then superseded now r else r) (pd_versions db)" using hit by auto
  have w: "length (filter (draft_at i n e) ?rows) = 1"
    "db' = db\<lparr>pd_versions := map (\<lambda>r. if draft_at i n e r then activated k now r else r) ?rows, pd_families := map (set_active_version i n) (pd_families db)\<rparr>"
    using assms by (auto simp: activation_writes_def Let_def split: if_splits)
  show "db' = db\<lparr>pd_versions := map (activation_row i n e k now) (pd_versions db), pd_families := map (set_active_version i n) (pd_families db)\<rparr>"
    unfolding w(2) rows by (simp add: activation_row_def [abs_def] Let_def)
  have "\<exists>x. filter (draft_at i n e) ?rows = [x]" using w(1) by (cases "filter (draft_at i n e) ?rows") auto
  then obtain x where "x \<in> set (filter (draft_at i n e) ?rows)" by force
  then have "x \<in> set ?rows" "draft_at i n e x" by simp_all
  then show "\<exists>r \<in> set (pd_versions db). draft_at i n e r"
    unfolding rows by (auto simp: superseded_def draft_at_def split: if_splits)
qed

lemma active_unique:
  assumes "policy_sound db" "r \<in> set (pd_versions db)" "version_key r = version_key s" "s \<in> set (pd_versions db)"
  shows "r = s"
proof -
  have "inj_on version_key (set (pd_versions db))" using assms(1) by (simp add: policy_sound_def distinct_map)
  then show ?thesis using assms(2-4) by (simp add: inj_on_eq_iff)
qed

lemma activation_writes_sound:
  assumes s: "policy_sound db" and w: "activation_writes db db i n e k now = Inr db'"
  shows "policy_sound db'"
proof -
  note d = s [unfolded policy_sound_def]
  obtain r0 where r0: "r0 \<in> set (pd_versions db)" "draft_at i n e r0" using activation_writes_Inr [OF w] by blast
  have key0: "version_key r0 = (i, n)" using r0(2) by (simp add: draft_at_def version_key_def)
  have act: "is_active (activation_row i n e k now r) \<longleftrightarrow> (if pv_FamilyID (vr_Version r) = i then version_key r = (i, n) else is_active r)"
    if r: "r \<in> set (pd_versions db)" for r
  proof (cases "version_key r = (i, n)")
    case True
    then have "r = r0" using active_unique [OF s r _ r0(1)] key0 by simp
    then show ?thesis using r0(2) by (simp add: activation_row_active draft_at_def version_key_def)
  next
    case False
    then show ?thesis by (auto simp: activation_row_active draft_at_def version_key_def)
  qed
  have keys: "map version_key (map (activation_row i n e k now) xs) = map version_key xs"
      "map (pv_ID \<circ> vr_Version) (map (activation_row i n e k now) xs) = map (pv_ID \<circ> vr_Version) xs" for xs by simp_all
  have fams: "map fw_ID (map (set_active_version i n) fs) = map fw_ID fs" for fs by (simp add: set_active_version_def)
  have of: "version_of_family (set_active_version i n f) r = version_of_family f r" for f r
    by (simp add: version_of_family_def set_active_version_def)
  have link: "fw_Active (set_active_version i n f) = Some v \<longleftrightarrow>
      (\<exists>r \<in> set (pd_versions db). version_key r = (fw_ID f, v) \<and> is_active (activation_row i n e k now r))" if f: "f \<in> set (pd_families db)" for f v
  proof (cases "fw_ID f = i")
    case True
    then have "(\<exists>r \<in> set (pd_versions db). version_key r = (fw_ID f, v) \<and> is_active (activation_row i n e k now r)) \<longleftrightarrow> v = n"
      using act r0(1) key0 by (auto simp: version_key_def)
    then show ?thesis using True by (auto simp: set_active_version_def)
  next
    case False
    then have "version_key r = (fw_ID f, v) \<Longrightarrow> r \<in> set (pd_versions db) \<Longrightarrow> is_active (activation_row i n e k now r) \<longleftrightarrow> is_active r" for r
      using act [of r] by (simp add: version_key_def)
    then show ?thesis using d f False by (auto simp: set_active_version_def)
  qed
  show ?thesis unfolding activation_writes_Inr(1) [OF w] policy_sound_def
    using d link by (simp add: keys fams of del: map_map) (simp add: set_active_version_def)
qed

lemma activate_sound: "policy_sound db \<Longrightarrow> ActivatePolicy db p i n e now = Inr (v, db') \<Longrightarrow> policy_sound db'"
  by (auto simp: ActivatePolicy_def overlapping_activation_def bindE_def dest: activation_writes_sound split: option.splits sum.splits if_splits)

lemma add_family_sound:
  assumes "policy_sound db" "insert_family db f who = Inr db'" "fw_Active f = None"
  shows "policy_sound db'" "db' = db\<lparr>pd_families := pd_families db @ [f]\<rparr>"
proof -
  have f: "db' = db\<lparr>pd_families := pd_families db @ [f]\<rparr>" "fw_ID f \<notin> fw_ID ` set (pd_families db)"
    using assms(2) by (auto simp: insert_family_def list_ex_iff split: if_splits)
  have "version_key r \<noteq> (fw_ID f, v)" if r: "r \<in> set (pd_versions db)" for r v
  proof -
    obtain g where "g \<in> set (pd_families db)" "version_of_family g r" using assms(1) r unfolding policy_sound_def by blast
    then show ?thesis using f(2) by (auto simp: version_of_family_def version_key_def image_iff)
  qed
  then show "policy_sound db'" using assms(1,3) f unfolding policy_sound_def by auto
  show "db' = db\<lparr>pd_families := pd_families db @ [f]\<rparr>" by (rule f(1))
qed

lemma policy_stamped_keeps [simp]:
  "policy_Validate (policy_stamped now v) = policy_Validate v" "pv_State (policy_stamped now v) = pv_State v"
  "pv_FamilyID (policy_stamped now v) = pv_FamilyID v" "pv_Version (policy_stamped now v) = pv_Version v"
  "pv_Name (policy_stamped now v) = pv_Name v" "pv_Description (policy_stamped now v) = pv_Description v"
  "pv_Owner (policy_stamped now v) = pv_Owner v"
  by (simp_all add: policy_stamped_def)

lemma create_sound:
  assumes s: "policy_sound db" "versions_present db" and c: "CreatePolicy db p v q now ids = Inr (u, db')"
  shows "policy_sound db' \<and> versions_present db'"
proof (cases "db' = db")
  case False
  have ok: "pv_State (policy_defaults v) = PolicyDraft" "policy_Validate (policy_defaults v) = None"
    using c by (auto simp: CreatePolicy_def split: option.splits if_splits)
  obtain i j rest where ids: "ids = i # j # rest"
    using c by (auto simp: CreatePolicy_def Let_def split: option.splits if_splits list.splits)
  let ?v = "policy_stamped now (policy_defaults v)"
  let ?f = "new_family i p ?v q"
  let ?c = "?v\<lparr>pv_ID := j, pv_FamilyID := i, pv_CreatedBy := pr_ActorID p, pv_Revision := 1\<rparr>"
  obtain db1 where d: "insert_family db ?f (pr_ActorID p) = Inr db1" "insertPolicyVersion db1 ?c q = Inr db'"
    using c False by (auto simp: CreatePolicy_def Let_def ids map_sum_def bindE_def split: option.splits if_splits sum.splits)
  note a = add_family_sound [OF s(1) d(1)]
  have fa: "fw_Active ?f = None" "fw_ID ?f = i" by (simp_all add: new_family_def)
  have "policy_sound db'"
    by (rule policy_sound_add [OF a(1) [OF fa(1)] d(2), of ?f]) (use ok a(2) [OF fa(1)] in \<open>simp_all add: new_family_def\<close>)
  moreover have "versions_present db'" using s(2) insertPolicyVersion_Inr(1) [OF d(2)] a(2) [OF fa(1)] fa(2)
    by (auto simp: versions_present_def)
  ultimately show ?thesis by simp
qed (use s in simp)

lemma new_version_sound:
  assumes s: "policy_sound db" "versions_present db" and c: "CreatePolicyVersion db p i v q latest now ids = Inr (u, db')"
  shows "policy_sound db' \<and> versions_present db'"
proof (cases "db' = db")
  case False
  obtain f where f: "family_of db (pr_Workspace p) i = Some f"
    using c by (auto simp: CreatePolicyVersion_def split: option.splits if_splits)
  let ?v = "policy_stamped now (following_version f (latest_version db i) p v)"
  obtain j where d: "policy_Validate ?v = None" "insertPolicyVersion db (?v\<lparr>pv_ID := j\<rparr>) q = Inr db'"
    using c False f by (auto simp: CreatePolicyVersion_def Let_def bindE_def split: option.splits if_splits sum.splits list.splits)
  have fm: "f \<in> set (pd_families db)" "fw_ID f = i" using f by (auto simp: family_of_def find_Some_iff)
  have "policy_sound db'"
    by (rule policy_sound_add [OF s(1) d(2), of f]) (use d(1) fm in \<open>simp_all add: following_version_def\<close>)
  moreover have "versions_present db'" using s(2) insertPolicyVersion_Inr(1) [OF d(2)] by (auto simp: versions_present_def)
  ultimately show ?thesis by simp
qed (use s in simp)

definition current_override :: "override_row \<Rightarrow> bool" where
  "current_override r \<longleftrightarrow> ov_RemovedAt (rv_Override r) = None"

definition evaluation_sound :: "policy_db \<Rightarrow> evaluation_row \<Rightarrow> bool" where
  "evaluation_sound db e \<longleftrightarrow> outcome_Valid (el_Outcome (ew_Evaluation e)) \<and>
     (\<exists>r \<in> set (pd_versions db). pv_ID (vr_Version r) = ew_VersionID e \<and> pv_FamilyID (vr_Version r) = el_PolicyID (ew_Evaluation e))"

definition radar_sound :: "policy_db \<Rightarrow> bool" where
  "radar_sound db \<longleftrightarrow> distinct (map (el_ID \<circ> ew_Evaluation) (pd_evaluations db)) \<and> (\<forall>e \<in> set (pd_evaluations db). evaluation_sound db e) \<and>
     distinct (map zr_ProjectID (pd_selections db)) \<and>
     (\<forall>s \<in> set (pd_selections db). \<exists>e \<in> set (pd_evaluations db). el_ID (ew_Evaluation e) = zr_EvaluationID s \<and>
       el_ProjectID (ew_Evaluation e) = zr_ProjectID s) \<and>
     distinct (map rv_ProjectID (filter current_override (pd_overrides db)))"

text \<open>Operations on policies keep what the radar tables refer to.\<close>

definition extends_versions :: "policy_db \<Rightarrow> policy_db \<Rightarrow> bool" where
  "extends_versions db db' \<longleftrightarrow> pd_projects db' = pd_projects db \<and> pd_evaluations db' = pd_evaluations db \<and> pd_selections db' = pd_selections db \<and>
     pd_overrides db' = pd_overrides db \<and> (\<forall>r \<in> set (pd_versions db). \<exists>r' \<in> set (pd_versions db').
       pv_ID (vr_Version r') = pv_ID (vr_Version r) \<and> pv_FamilyID (vr_Version r') = pv_FamilyID (vr_Version r))"

lemma extends_versions_refl [simp]: "extends_versions db db"
  by (auto simp: extends_versions_def)

lemma radar_sound_extends: "radar_sound db \<Longrightarrow> extends_versions db db' \<Longrightarrow> radar_sound db'"
  unfolding radar_sound_def extends_versions_def evaluation_sound_def by (metis (no_types, lifting))

lemma insert_extends: "insertPolicyVersion db v q = Inr db' \<Longrightarrow> extends_versions db db'"
  by (drule insertPolicyVersion_Inr(1)) (auto simp: extends_versions_def)

lemma create_extends:
  assumes "CreatePolicy db p v q now ids = Inr (u, db')"
  shows "extends_versions db db'"
proof (cases "db' = db")
  case False
  then obtain f db1 c where "insert_family db f (pr_ActorID p) = Inr db1" "insertPolicyVersion db1 c q = Inr db'"
    using assms by (auto simp: CreatePolicy_def Let_def map_sum_def bindE_def split: option.splits if_splits sum.splits list.splits)
  then show ?thesis using insert_extends [of db1 c q db'] by (auto simp: insert_family_def extends_versions_def split: if_splits)
qed simp

lemma new_version_extends: "CreatePolicyVersion db p i v q latest now ids = Inr (u, db') \<Longrightarrow> extends_versions db db'"
  by (auto simp: CreatePolicyVersion_def Let_def bindE_def dest: insert_extends split: option.splits if_splits sum.splits list.splits)

lemma activate_extends:
  assumes "ActivatePolicy db p i n e now = Inr (v, db')"
  shows "extends_versions db db'" "versions_present db \<Longrightarrow> versions_present db'"
proof -
  obtain k where "activation_writes db db i n e k now = Inr db'"
    using assms by (auto simp: ActivatePolicy_def overlapping_activation_def bindE_def split: option.splits sum.splits if_splits)
  note w = activation_writes_Inr(1) [OF this]
  show "extends_versions db db'" unfolding w by (auto simp: extends_versions_def)
  show "versions_present db \<Longrightarrow> versions_present db'" unfolding w by (auto simp: versions_present_def set_active_version_def)
qed

text \<open>Operations on the radar leave the policies alone.\<close>

lemma same_policies:
  "pd_families db' = pd_families db \<Longrightarrow> pd_versions db' = pd_versions db \<Longrightarrow> policy_sound db' \<longleftrightarrow> policy_sound db"
  "pd_families db' = pd_families db \<Longrightarrow> pd_versions db' = pd_versions db \<Longrightarrow> versions_present db' \<longleftrightarrow> versions_present db"
  by (simp_all add: policy_sound_def versions_present_def)

lemma evaluation_to_save_keeps [simp]:
  "el_Outcome (evaluation_to_save now ids e) = el_Outcome e" "el_ProjectID (evaluation_to_save now ids e) = el_ProjectID e"
  "el_PolicyID (evaluation_to_save now ids e) = el_PolicyID e" "el_PolicyVersion (evaluation_to_save now ids e) = el_PolicyVersion e"
  "el_Window (evaluation_to_save now ids e) = el_Window e" "el_InputDigest (evaluation_to_save now ids e) = el_InputDigest e"
  by (simp_all add: evaluation_to_save_def)

lemma stored_evaluation_keeps [simp]:
  "el_Outcome (stored_evaluation e) = el_Outcome e" "el_ProjectID (stored_evaluation e) = el_ProjectID e"
  "el_PolicyID (stored_evaluation e) = el_PolicyID e" "el_ID (stored_evaluation e) = el_ID e"
  "el_InputDigest (stored_evaluation e) = el_InputDigest e"
  by (simp_all add: stored_evaluation_def)

lemma evaluate_cases:
  assumes "SaveEvaluation db p e now ids = Inr (u, db')" "db' \<noteq> db"
  obtains pv where "u = evaluation_to_save now ids e"
    "db' = db\<lparr>pd_evaluations := pd_evaluations db @ [\<lparr>ew_Evaluation = stored_evaluation u, ew_VersionID = pv_ID pv\<rparr>]\<rparr>"
    "outcome_Valid (el_Outcome u)" "el_ID u \<notin> set (map (el_ID \<circ> ew_Evaluation) (pd_evaluations db))"
    "loadPolicyVersion db (pr_Workspace p) (el_PolicyID u) (el_PolicyVersion u) '''' = Inr pv"
  using assms by (auto simp: SaveEvaluation_def Let_def map_sum_def bindE_def split: option.splits if_splits sum.splits)

lemma evaluate_sound:
  assumes s: "policy_sound db" "radar_sound db" and e: "SaveEvaluation db p v now ids = Inr (u, db')"
  shows "radar_sound db' \<and> policy_sound db' \<and> pd_versions db' = pd_versions db \<and> pd_families db' = pd_families db \<and> pd_projects db' = pd_projects db"
proof (cases "db' = db")
  case False
  obtain pv where d: "db' = db\<lparr>pd_evaluations := pd_evaluations db @ [\<lparr>ew_Evaluation = stored_evaluation u, ew_VersionID = pv_ID pv\<rparr>]\<rparr>"
      "outcome_Valid (el_Outcome u)" "el_ID u \<notin> set (map (el_ID \<circ> ew_Evaluation) (pd_evaluations db))"
      "loadPolicyVersion db (pr_Workspace p) (el_PolicyID u) (el_PolicyVersion u) '''' = Inr pv"
    by (rule evaluate_cases [OF e False])
  obtain r where "r \<in> set (pd_versions db)" "version_key r = (el_PolicyID u, el_PolicyVersion u)" "pv = vr_Version r"
    using d(4) load_version_sound [OF s(1)] by blast
  then have r: "\<exists>r \<in> set (pd_versions db). pv_ID (vr_Version r) = pv_ID pv \<and> pv_FamilyID (vr_Version r) = el_PolicyID u"
    by (auto simp: version_key_def)
  have "radar_sound db'" using s(2) d(2,3) r unfolding radar_sound_def d(1) evaluation_sound_def by auto
  then show ?thesis using s(1) by (simp add: d(1) policy_sound_def)
qed (use s in simp)

lemma select_cases:
  assumes "SelectRadar db p i n now = Inr db'"
  obtains e where "e \<in> set (pd_evaluations db)" "el_ID (ew_Evaluation e) = i"
    "db' = db\<lparr>pd_selections := pd_selections db @ [selection_of (el_ProjectID (ew_Evaluation e)) i p now 1]\<rparr>"
    "el_ProjectID (ew_Evaluation e) \<notin> zr_ProjectID ` set (pd_selections db)"
  | e where "e \<in> set (pd_evaluations db)" "el_ID (ew_Evaluation e) = i"
    "db' = db\<lparr>pd_selections := map (reselected (el_ProjectID (ew_Evaluation e)) i p now) (pd_selections db)\<rparr>"
proof -
  obtain e where e: "find (\<lambda>r. el_ID (ew_Evaluation r) = i \<and> list_ex (\<lambda>p'. xp_ID p' = el_ProjectID (ew_Evaluation r) \<and>
      xp_Workspace p' = pr_Workspace p \<and> xp_State p' = ''active'') (project_refs db)) (pd_evaluations db) = Some e"
    using assms by (auto simp: SelectRadar_def split: option.splits)
  then have m: "e \<in> set (pd_evaluations db)" "el_ID (ew_Evaluation e) = i" by (auto simp: find_Some_iff)
  show ?thesis
  proof (cases "find (\<lambda>s. zr_ProjectID s = el_ProjectID (ew_Evaluation e)) (pd_selections db)")
    case None
    have "el_ProjectID (ew_Evaluation e) \<notin> zr_ProjectID ` set (pd_selections db)" using None by (auto simp: find_None_iff)
    moreover have "db' = db\<lparr>pd_selections := pd_selections db @ [selection_of (el_ProjectID (ew_Evaluation e)) i p now 1]\<rparr>"
      using assms None e by (simp add: SelectRadar_def Let_def split: option.splits if_splits)
    ultimately show ?thesis using m that(1) by blast
  next
    case (Some z)
    have "db' = db\<lparr>pd_selections := map (reselected (el_ProjectID (ew_Evaluation e)) i p now) (pd_selections db)\<rparr>"
      using assms Some e by (simp add: SelectRadar_def Let_def split: option.splits if_splits)
    then show ?thesis using m that(2) by blast
  qed
qed

lemma reselected_project [simp]: "zr_ProjectID (reselected pid i p now s) = zr_ProjectID s"
  by (simp add: reselected_def selection_of_def)

lemma select_sound:
  assumes s: "radar_sound db" and e: "SelectRadar db p i n now = Inr db'"
  shows "radar_sound db' \<and> pd_versions db' = pd_versions db \<and> pd_families db' = pd_families db \<and> pd_projects db' = pd_projects db"
proof -
  note r = s [unfolded radar_sound_def]
  from e show ?thesis
  proof (cases rule: select_cases)
    case (1 x)
    have "radar_sound db'" using r 1 unfolding radar_sound_def 1(3) by (auto simp: selection_of_def evaluation_sound_def)
    then show ?thesis by (simp add: 1(3))
  next
    case (2 x)
    have "map (zr_ProjectID \<circ> reselected (el_ProjectID (ew_Evaluation x)) i p now) ys = map zr_ProjectID ys" for ys by simp
    moreover have "\<forall>s \<in> set (map (reselected (el_ProjectID (ew_Evaluation x)) i p now) (pd_selections db)). \<exists>e \<in> set (pd_evaluations db).
        el_ID (ew_Evaluation e) = zr_EvaluationID s \<and> el_ProjectID (ew_Evaluation e) = zr_ProjectID s"
      using r 2(1,2) by (auto simp: reselected_def selection_of_def)
    ultimately have "radar_sound db'" using r unfolding radar_sound_def 2(3) by (simp add: evaluation_sound_def comp_def)
    then show ?thesis by (simp add: 2(3))
  qed
qed

lemma removed_override_current: "current_override (removed_override pid now r) \<longleftrightarrow> current_override r \<and> rv_ProjectID r \<noteq> pid"
  by (auto simp: removed_override_def current_override_def)

lemma removed_override_project [simp]: "rv_ProjectID (removed_override pid now r) = rv_ProjectID r"
  by (simp add: removed_override_def)

lemma current_after_removal:
  "map rv_ProjectID (filter current_override (map (removed_override pid now) xs)) =
     filter (\<lambda>i. i \<noteq> pid) (map rv_ProjectID (filter current_override xs))"
  by (induction xs) (simp_all add: removed_override_current)

lemma override_sound:
  assumes s: "radar_sound db" and e: "SaveRadarOverride db p i v q ids = Inr (u, db')"
  shows "radar_sound db' \<and> pd_versions db' = pd_versions db \<and> pd_families db' = pd_families db \<and> pd_projects db' = pd_projects db"
proof (cases "db' = db")
  case False
  then obtain x now where d: "db' = db\<lparr>pd_overrides := map (removed_override i now) (pd_overrides db) @ [x]\<rparr>" "rv_ProjectID x = i"
    using e by (auto simp: SaveRadarOverride_def Let_def split: option.splits if_splits)
  have "distinct (map rv_ProjectID (filter current_override (map (removed_override i now) (pd_overrides db) @ [x])))"
    using s d(2) unfolding filter_append map_append current_after_removal by (auto simp: radar_sound_def)
  then have "radar_sound db'" using s unfolding radar_sound_def d(1) by (simp add: evaluation_sound_def)
  then show ?thesis by (simp add: d(1))
qed (use s in simp)

lemma remove_sound:
  assumes s: "radar_sound db" and e: "RemoveRadarOverride db p i n now = Inr db'"
  shows "radar_sound db' \<and> pd_versions db' = pd_versions db \<and> pd_families db' = pd_families db \<and> pd_projects db' = pd_projects db"
proof -
  obtain x where d: "db' = db\<lparr>pd_overrides := map (\<lambda>r. if r = x then removed_override i now r else r) (pd_overrides db)\<rparr>"
    using e by (auto simp: RemoveRadarOverride_def split: option.splits if_splits list.splits)
  have "set (map rv_ProjectID (filter current_override (map (\<lambda>r. if r = x then removed_override i now r else r) xs))) \<subseteq>
      set (map rv_ProjectID (filter current_override xs)) \<and>
    (distinct (map rv_ProjectID (filter current_override xs)) \<longrightarrow>
     distinct (map rv_ProjectID (filter current_override (map (\<lambda>r. if r = x then removed_override i now r else r) xs))))" for xs
    by (induction xs) (auto simp: removed_override_current)
  then have "radar_sound db'" using s unfolding radar_sound_def d by (simp add: evaluation_sound_def)
  then show ?thesis by (simp add: d)
qed

lemma run_policy_sound:
  assumes s: "policy_sound db" "versions_present db" "radar_sound db"
  shows "policy_sound (run_policy db op) \<and> versions_present (run_policy db op) \<and> radar_sound (run_policy db op) \<and>
    pd_projects (run_policy db op) = pd_projects db"
proof -
  have ev: "policy_sound db' \<and> versions_present db' \<and> radar_sound db' \<and> pd_projects db' = pd_projects db"
    if "radar_sound db'" "pd_versions db' = pd_versions db" "pd_families db' = pd_families db" "pd_projects db' = pd_projects db" for db'
    using s that(1,4) same_policies [OF that(3,2)] by simp
  have pol: "policy_sound db' \<and> versions_present db' \<and> radar_sound db' \<and> pd_projects db' = pd_projects db"
    if "policy_sound db'" "versions_present db'" "extends_versions db db'" for db'
    using that radar_sound_extends [OF s(3) that(3)] by (simp add: extends_versions_def)
  have both: "policy_sound (after_policy db x) \<and> versions_present (after_policy db x) \<and> radar_sound (after_policy db x) \<and>
      pd_projects (after_policy db x) = pd_projects db"
    if "\<And>u db'. x = Inr (u, db') \<Longrightarrow> policy_sound db' \<and> versions_present db' \<and> radar_sound db' \<and> pd_projects db' = pd_projects db" for x
  proof (cases x)
    case (Inr y)
    then show ?thesis using that [of "fst y" "snd y"] by (simp add: after_policy_def case_prod_unfold)
  qed (use s in \<open>simp add: after_policy_def\<close>)
  show ?thesis
  proof (cases op)
    case (PoCreate p v q now ids)
    show ?thesis unfolding PoCreate run_policy.simps by (rule both) (use pol create_sound [OF s(1,2)] create_extends in blast)
  next
    case (PoVersion p i v q latest now ids)
    show ?thesis unfolding PoVersion run_policy.simps by (rule both) (use pol new_version_sound [OF s(1,2)] new_version_extends in blast)
  next
    case (PoActivate p i n e now)
    show ?thesis unfolding PoActivate run_policy.simps
      by (rule both, rule pol) (erule activate_sound [OF s(1)], erule activate_extends(2) [OF _ s(2)], erule activate_extends(1))
  next
    case (PoEvaluate p e now ids)
    show ?thesis unfolding PoEvaluate run_policy.simps by (rule both) (use ev evaluate_sound [OF s(1,3)] in blast)
  next
    case (PoSelect p i n now)
    show ?thesis unfolding PoSelect run_policy.simps
      by (rule both) (use ev select_sound [OF s(3)] in \<open>auto simp: map_sum_def split: sum.splits\<close>)
  next
    case (PoOverride p i v q ids)
    show ?thesis unfolding PoOverride run_policy.simps by (rule both) (use ev override_sound [OF s(3)] in blast)
  next
    case (PoRemove p i n now)
    show ?thesis unfolding PoRemove run_policy.simps
      by (rule both) (use ev remove_sound [OF s(3)] in \<open>auto simp: map_sum_def split: sum.splits\<close>)
  qed
qed

lemma run_policies_sound:
  "policy_sound db \<Longrightarrow> versions_present db \<Longrightarrow> radar_sound db \<Longrightarrow>
    policy_sound (fold (\<lambda>op db. run_policy db op) ops db) \<and> versions_present (fold (\<lambda>op db. run_policy db op) ops db) \<and>
    radar_sound (fold (\<lambda>op db. run_policy db op) ops db) \<and> pd_projects (fold (\<lambda>op db. run_policy db op) ops db) = pd_projects db"
proof (induction ops arbitrary: db)
  case (Cons op ops)
  then show ?case using run_policy_sound [of db op] by simp
qed simp

lemma reachable_policies_sound:
  "policy_sound (reachable_policies ps known ops)" "versions_present (reachable_policies ps known ops)"
  "radar_sound (reachable_policies ps known ops)" "pd_projects (reachable_policies ps known ops) = ps"
  using run_policies_sound [of "\<lparr>pd_projects = ps, pd_definitions = known, pd_families = [], pd_versions = [], pd_evaluations = [],
    pd_selections = [], pd_overrides = []\<rparr>" ops]
  by (simp_all add: reachable_policies_def policy_sound_def versions_present_def radar_sound_def)

text \<open>
  The active policy: after every history of operations the version that a selector finds is an active one that passes the validation, it
  is the version that its family names, in the workspace of the reader, and no other version of the family is active.
\<close>

theorem the_active_policy_is_one:
  assumes "ActivePolicy (reachable_policies ps known ops) p selector = Inr v"
  shows "pv_State v = PolicyActive" "policy_Validate v = None"
    "\<exists>f \<in> set (pd_families (reachable_policies ps known ops)). fw_ID f = pv_FamilyID v \<and> fw_Workspace f = pr_Workspace p \<and>
      fw_Active f = Some (pv_Version v)"
    "\<forall>r \<in> set (pd_versions (reachable_policies ps known ops)). pv_FamilyID (vr_Version r) = pv_FamilyID v \<and>
      pv_State (vr_Version r) = PolicyActive \<longrightarrow> vr_Version r = v"
proof -
  let ?db = "reachable_policies ps known ops"
  let ?fs = "sort_func cmp_family_age (filter (\<lambda>f. fw_Workspace f = pr_Workspace p \<and> fw_Active f \<noteq> None \<and> (trim_space selector = '''' \<or>
    trim_space selector = ''default'' \<or> format_int (fw_ID f) = trim_space selector \<or> to_lower (fw_Name f) = to_lower (trim_space selector)))
    (pd_families ?db))"
  note s = reachable_policies_sound(1) [of ps known ops]
  obtain f fs where f: "?fs = f # fs" "loadPolicyVersion ?db (pr_Workspace p) (fw_ID f) (the (fw_Active f)) '''' = Inr v"
    using assms by (auto simp: ActivePolicy_def Let_def split: option.splits list.splits)
  have "f \<in> set ?fs" unfolding f(1) by simp
  then have fm: "f \<in> set (pd_families ?db)" "fw_Workspace f = pr_Workspace p" "fw_Active f = Some (the (fw_Active f))" by auto
  obtain r where r: "r \<in> set (pd_versions ?db)" "version_key r = (fw_ID f, the (fw_Active f))" "v = vr_Version r"
    using f(2) load_version_sound [OF s] by blast
  have link: "\<And>n. fw_Active f = Some n \<longleftrightarrow> (\<exists>r \<in> set (pd_versions ?db). version_key r = (fw_ID f, n) \<and> is_active r)"
    using s fm(1) unfolding policy_sound_def by blast
  obtain r' where "r' \<in> set (pd_versions ?db)" "version_key r' = (fw_ID f, the (fw_Active f))" "is_active r'" using link fm(3) by blast
  then have a: "is_active r" using active_unique [OF s r(1)] r(2) by metis
  then show "pv_State v = PolicyActive" by (simp add: r(3) is_active_def)
  show "policy_Validate v = None" using s r(1) unfolding policy_sound_def r(3) by blast
  show "\<exists>f \<in> set (pd_families ?db). fw_ID f = pv_FamilyID v \<and> fw_Workspace f = pr_Workspace p \<and> fw_Active f = Some (pv_Version v)"
    using fm r(2,3) by (auto simp: version_key_def)
  show "\<forall>q \<in> set (pd_versions ?db). pv_FamilyID (vr_Version q) = pv_FamilyID v \<and> pv_State (vr_Version q) = PolicyActive \<longrightarrow> vr_Version q = v"
  proof (intro ballI impI)
    fix q assume q: "q \<in> set (pd_versions ?db)" "pv_FamilyID (vr_Version q) = pv_FamilyID v \<and> pv_State (vr_Version q) = PolicyActive"
    have k: "version_key q = (fw_ID f, pv_Version (vr_Version q))" using q(2) r(2,3) by (simp add: version_key_def)
    then have "fw_Active f = Some (pv_Version (vr_Version q))" using link q by (auto simp: is_active_def)
    then have "version_key q = version_key r" using r(2) k by simp
    then show "vr_Version q = v" using active_unique [OF s q(1) _ r(1)] r(3) by simp
  qed
qed

lemma activate_steps:
  assumes "overlapping_activation seen db p i n e now = Inr (v, db')"
  obtains d where "CanGovern p = None" "loadPolicyVersion seen (pr_Workspace p) i n '''' = Inr d" "pv_Revision d = e" "Activate d now = Inr v"
    "activation_writes seen db i n e (pv_Revision v) now = Inr db'"
  using assms by (auto simp: overlapping_activation_def bindE_def map_sum_def split: option.splits sum.splits if_splits)

lemma activation_writes_drafts:
  assumes "activation_writes db db i n e k now = Inr db'"
  shows "length (filter (draft_at i n e) (pd_versions db)) = 1" "\<And>r. r \<in> set (pd_versions db) \<Longrightarrow> draft_at i n e r \<Longrightarrow> pv_RetiredAt (vr_Version r) = None"
proof -
  let ?g = "\<lambda>r. if pv_ID (vr_Version r) \<in> set (version_ids (other_active i n) db) \<and> other_active i n r then superseded now r else r"
  have g: "draft_at i n e (?g r) = draft_at i n e r" "draft_at i n e r \<Longrightarrow> ?g r = r" for r
    by (auto simp: draft_at_def other_active_def superseded_def)
  have "length (filter (draft_at i n e) (map ?g (pd_versions db))) = 1"
    using assms by (auto simp: activation_writes_def Let_def split: if_splits)
  moreover have "draft_at i n e \<circ> ?g = draft_at i n e" using g(1) by (auto simp: fun_eq_iff)
  ultimately show "length (filter (draft_at i n e) (pd_versions db)) = 1" by (simp only: filter_map length_map)
  show "pv_RetiredAt (vr_Version r) = None" if r: "r \<in> set (pd_versions db)" "draft_at i n e r" for r
  proof -
    have "\<not> list_ex (\<lambda>r. draft_at i n e r \<and> pv_RetiredAt (vr_Version r) \<noteq> None) (map ?g (pd_versions db))"
      using assms by (simp add: activation_writes_def Let_def split: if_splits)
    then have "\<not> (draft_at i n e (?g r) \<and> pv_RetiredAt (vr_Version (?g r)) \<noteq> None)" using r(1) by (simp only: list_ex_iff set_map) blast
    then show ?thesis using g r(2) by simp
  qed
qed

text \<open>Writes that find nothing to supersede.\<close>

lemma activation_writes_quiet:
  assumes "\<And>r. r \<in> set (pd_versions db) \<Longrightarrow> \<not> (pv_ID (vr_Version r) \<in> set (version_ids (other_active i n) seen) \<and> other_active i n r)"
    and "length (filter (draft_at i n e) (pd_versions db)) = 1"
    and "\<And>r. r \<in> set (pd_versions db) \<Longrightarrow> draft_at i n e r \<Longrightarrow> pv_RetiredAt (vr_Version r) = None"
  shows "activation_writes seen db i n e k now = Inr (db\<lparr>
    pd_versions := map (\<lambda>r. if draft_at i n e r then activated k now r else r) (pd_versions db),
    pd_families := map (set_active_version i n) (pd_families db)\<rparr>)"
proof -
  have rows: "map (\<lambda>r. if pv_ID (vr_Version r) \<in> set (version_ids (other_active i n) seen) \<and> other_active i n r then superseded now r else r)
      (pd_versions db) = pd_versions db" by (rule map_idI) (use assms(1) in auto)
  have "\<not> list_ex (\<lambda>r. (pv_ID (vr_Version r) \<in> set (version_ids (other_active i n) seen) \<and> other_active i n r) \<and>
      (case pv_ActivatedAt (vr_Version r) of None \<Rightarrow> True | Some a \<Rightarrow> after a (pg_time now))) (pd_versions db)"
    using assms(1) by (auto simp: list_ex_iff)
  moreover have "\<not> list_ex (\<lambda>r. draft_at i n e r \<and> pv_RetiredAt (vr_Version r) \<noteq> None) (pd_versions db)"
    using assms(3) by (auto simp: list_ex_iff)
  ultimately show ?thesis using assms(2) unfolding activation_writes_def Let_def rows by simp
qed

lemma one_active_version:
  assumes "policy_sound db" "r \<in> set (pd_versions db)" "q \<in> set (pd_versions db)" "is_active r" "is_active q"
    "pv_FamilyID (vr_Version r) = pv_FamilyID (vr_Version q)"
  shows "r = q"
proof -
  obtain f where f: "f \<in> set (pd_families db)" "fw_ID f = pv_FamilyID (vr_Version r)"
    using assms(1,2) unfolding policy_sound_def version_of_family_def by metis
  have "fw_Active f = Some (pv_Version (vr_Version x))" if "x \<in> set (pd_versions db)" "is_active x" "pv_FamilyID (vr_Version x) = fw_ID f" for x
    using assms(1) f(1) that unfolding policy_sound_def version_key_def by blast
  from this [of r] this [of q] have "version_key r = version_key q" using assms(2-6) f(2) by (simp add: version_key_def)
  then show ?thesis using active_unique [OF assms(1,2) _ assms(3)] by simp
qed

text \<open>
  The contract of an activation that runs alone: the version that the tables show before is one that the rule of the domain activates, the
  version that they show afterwards is the one that the rule returns with the time as the column keeps it, and every other version of the
  family that the reader can load is not active.
\<close>

theorem activation_refines_rule:
  assumes "ActivatePolicy (reachable_policies ps known ops) p i n e now = Inr (v, db')"
  shows "\<exists>d. loadPolicyVersion (reachable_policies ps known ops) (pr_Workspace p) i n '''' = Inr d \<and> pv_Revision d = e \<and> Activate d now = Inr v \<and>
    loadPolicyVersion db' (pr_Workspace p) i n '''' = Inr (v\<lparr>pv_ActivatedAt := Some (pg_time now)\<rparr>) \<and>
    (\<forall>m x. m \<noteq> n \<and> loadPolicyVersion db' (pr_Workspace p) i m '''' = Inr x \<longrightarrow> pv_State x \<noteq> PolicyActive)"
proof -
  let ?db = "reachable_policies ps known ops" and ?ws = "pr_Workspace p"
  note s = reachable_policies_sound(1) [of ps known ops]
  obtain d where d: "loadPolicyVersion ?db ?ws i n '''' = Inr d" "pv_Revision d = e" "Activate d now = Inr v"
      "activation_writes ?db ?db i n e (pv_Revision v) now = Inr db'"
    using assms unfolding ActivatePolicy_def by (rule activate_steps)
  note w = activation_writes_Inr(1) [OF d(4)] and s' = activation_writes_sound [OF s d(4)]
  obtain f r where fr: "f \<in> set (pd_families ?db)" "r \<in> set (pd_versions ?db)" "fw_ID f = i" "fw_Workspace f = ?ws" "version_key r = (i, n)"
      "d = vr_Version r" using d(1) load_version_sound [OF s] by blast
  have v: "v = d\<lparr>pv_State := PolicyActive, pv_ActivatedAt := Some now, pv_Revision := pv_Revision d + 1\<rparr>" "pv_State d = PolicyDraft"
    using d(3) by (auto simp: Activate_def split: if_splits)
  let ?r = "activation_row i n e (pv_Revision v) now r" and ?f = "set_active_version i n f"
  have row: "vr_Version ?r = v\<lparr>pv_ActivatedAt := Some (pg_time now)\<rparr>"
    using fr(5,6) v d(2) by (simp add: activation_row_def draft_at_def other_active_def activated_def version_key_def)
  have mem: "?r \<in> set (pd_versions db')" "?f \<in> set (pd_families db')" using fr(1,2) by (simp_all add: w)
  have fam: "fw_ID ?f = i" "fw_Workspace ?f = ?ws" using fr(3,4) by (simp_all add: set_active_version_def)
  have "loadPolicyVersion db' ?ws i n '''' = Inr (v\<lparr>pv_ActivatedAt := Some (pg_time now)\<rparr>)"
    unfolding load_version_sound [OF s'] by (rule bexI [OF _ mem(2)], rule bexI [OF _ mem(1)]) (simp add: fam row fr(5))
  moreover have "pv_State x \<noteq> PolicyActive" if x: "m \<noteq> n" "loadPolicyVersion db' ?ws i m '''' = Inr x" for m x
  proof
    assume a: "pv_State x = PolicyActive"
    obtain q where q: "q \<in> set (pd_versions db')" "version_key q = (i, m)" "x = vr_Version q" using x(2) load_version_sound [OF s'] by blast
    have "is_active ?r" unfolding is_active_def row using v(1) by simp
    moreover have "is_active q" using a q(3) by (simp add: is_active_def)
    moreover have "pv_FamilyID (vr_Version q) = pv_FamilyID (vr_Version ?r)" using q(2) fr(5) by (simp add: version_key_def)
    ultimately have "q = ?r" using one_active_version [OF s' q(1) mem(1)] by blast
    then show False using q(2) fr(5) x(1) by simp
  qed
  ultimately show ?thesis using d(1-3) by blast
qed

text \<open>
  Two activations that overlap: when two versions of a family can each be activated alone, and the second transaction chose the rows to
  supersede before the first one committed, both commit and the family has two active versions. No constraint of the tables forbids it.
\<close>

theorem overlapping_activations_leave_two_active:
  assumes "ActivatePolicy (reachable_policies ps known ops) p i m e now = Inr (v, db1)"
    and "ActivatePolicy (reachable_policies ps known ops) p' i n e' now' = Inr (w, db')" and "m \<noteq> n"
  shows "\<exists>db2. overlapping_activation (reachable_policies ps known ops) db1 p' i n e' now' = Inr (w, db2) \<and>
    (\<exists>r \<in> set (pd_versions db2). \<exists>q \<in> set (pd_versions db2). version_key r = (i, m) \<and> version_key q = (i, n) \<and>
      pv_State (vr_Version r) = PolicyActive \<and> pv_State (vr_Version q) = PolicyActive)"
proof -
  let ?db = "reachable_policies ps known ops"
  note s = reachable_policies_sound(1) [of ps known ops]
  obtain d where d: "Activate d now = Inr v" "activation_writes ?db ?db i m e (pv_Revision v) now = Inr db1"
    using assms(1) unfolding ActivatePolicy_def by (rule activate_steps)
  obtain d' where d': "CanGovern p' = None" "loadPolicyVersion ?db (pr_Workspace p') i n '''' = Inr d'" "pv_Revision d' = e'"
      "Activate d' now' = Inr w" "activation_writes ?db ?db i n e' (pv_Revision w) now' = Inr db'"
    using assms(2) unfolding ActivatePolicy_def by (rule activate_steps)
  let ?g = "activation_row i m e (pv_Revision v) now"
  note w1 = activation_writes_Inr(1) [OF d(2)]
  obtain r0 where r0: "r0 \<in> set (pd_versions ?db)" "draft_at i m e r0" using activation_writes_Inr(2) [OF d(2)] by blast
  obtain r1 where r1: "r1 \<in> set (pd_versions ?db)" "draft_at i n e' r1" using activation_writes_Inr(2) [OF d'(5)] by blast
  have gone: "\<not> (pv_ID (vr_Version (?g r)) \<in> set (version_ids (other_active i n) ?db) \<and> other_active i n (?g r))"
    if r: "r \<in> set (pd_versions ?db)" for r
  proof
    assume a: "pv_ID (vr_Version (?g r)) \<in> set (version_ids (other_active i n) ?db) \<and> other_active i n (?g r)"
    then obtain q where q: "q \<in> set (pd_versions ?db)" "other_active i n q" "pv_ID (vr_Version q) = pv_ID (vr_Version r)"
      by (auto simp: version_ids_def)
    have "inj_on (pv_ID \<circ> vr_Version) (set (pd_versions ?db))" using s by (simp add: policy_sound_def distinct_map)
    then have "q = r" using q(1,3) r inj_onD [of "pv_ID \<circ> vr_Version" _ q r] by simp
    then have act: "is_active r" "pv_FamilyID (vr_Version r) = i" using q(2) by (simp_all add: other_active_def is_active_def)
    have "is_active (?g r)" using a by (simp add: other_active_def is_active_def)
    moreover have "\<not> draft_at i m e r" using act(1) by (simp add: draft_at_def is_active_def)
    ultimately have "version_key r = (i, m)" using act(2) activation_row_active [of i m e "pv_Revision v" now r] by blast
    then have "r = r0" using active_unique [OF s r _ r0(1)] r0(2) by (simp add: draft_at_def version_key_def)
    then show False using act(1) r0(2) by (simp add: draft_at_def is_active_def)
  qed
  have same: "draft_at i n e' (?g r) \<longleftrightarrow> draft_at i n e' r" for r
    using assms(3) by (auto simp: activation_row_def draft_at_def other_active_def superseded_def activated_def Let_def)
  have keep: "draft_at i n e' r \<Longrightarrow> ?g r = r" for r
    using assms(3) by (auto simp: activation_row_def draft_at_def other_active_def Let_def)
  have "draft_at i n e' \<circ> ?g = draft_at i n e'" using same by (auto simp: fun_eq_iff)
  then have "length (filter (draft_at i n e') (pd_versions db1)) = 1"
    using activation_writes_drafts(1) [OF d'(5)] by (simp add: w1 filter_map)
  moreover have "r \<in> set (pd_versions db1) \<Longrightarrow> draft_at i n e' r \<Longrightarrow> pv_RetiredAt (vr_Version r) = None" for r
    using activation_writes_drafts(2) [OF d'(5)] same keep by (auto simp: w1)
  moreover have "r \<in> set (pd_versions db1) \<Longrightarrow>
      \<not> (pv_ID (vr_Version r) \<in> set (version_ids (other_active i n) ?db) \<and> other_active i n r)" for r
    using gone unfolding w1 by auto
  ultimately obtain db2 where w2: "activation_writes ?db db1 i n e' (pv_Revision w) now' = Inr db2" "db2 = db1\<lparr>
      pd_versions := map (\<lambda>r. if draft_at i n e' r then activated (pv_Revision w) now' r else r) (pd_versions db1),
      pd_families := map (set_active_version i n) (pd_families db1)\<rparr>"
    using activation_writes_quiet [of db1 i n ?db e' "pv_Revision w" now'] by blast
  have "overlapping_activation ?db db1 p' i n e' now' = Inr (w, db2)"
    using d' w2(1) by (simp add: overlapping_activation_def bindE_def)
  moreover have "\<not> draft_at i n e' (?g r0)" unfolding same using r0(2) assms(3) by (auto simp: draft_at_def)
  then have "?g r0 \<in> set (pd_versions db2)" using r0(1) by (force simp: w2(2) w1)
  moreover have "pv_State (vr_Version (?g r0)) = PolicyActive"
    using r0(2) activation_row_active [of i m e "pv_Revision v" now r0] by (simp add: is_active_def)
  moreover have "activated (pv_Revision w) now' r1 \<in> set (pd_versions db2)" using r1 keep [OF r1(2)] by (force simp: w2(2) w1 image_iff)
  moreover have "version_key (?g r0) = (i, m)" using r0(2) by (simp add: draft_at_def) (simp add: version_key_def)
  moreover have "version_key (activated (pv_Revision w) now' r1) = (i, n)" "pv_State (vr_Version (activated (pv_Revision w) now' r1)) = PolicyActive"
    using r1(2) by (simp_all add: draft_at_def version_key_def activated_def)
  ultimately show ?thesis by blast
qed

text \<open>
  The overrides of the radar look at the role of the actor only: in whatever workspace the actor is, the outcome is the same, so a member of
  one workspace can override or restore the placement of a project of another.
\<close>

lemma override_ignores_workspace:
  "SaveRadarOverride db (actor\<lparr>pr_Workspace := w\<rparr>) projectID v requestID ids = SaveRadarOverride db actor projectID v requestID ids"
  "RemoveRadarOverride db (actor\<lparr>pr_Workspace := w\<rparr>) projectID e now = RemoveRadarOverride db actor projectID e now"
proof -
  have "Authorize (actor\<lparr>pr_Workspace := w\<rparr>) ActionProjectWrite = Authorize actor ActionProjectWrite"
    by (simp add: Authorize_def IsApproved_def)
  moreover have "pr_ActorID (actor\<lparr>pr_Workspace := w\<rparr>) = pr_ActorID actor" by simp
  ultimately show "SaveRadarOverride db (actor\<lparr>pr_Workspace := w\<rparr>) projectID v requestID ids = SaveRadarOverride db actor projectID v requestID ids"
    "RemoveRadarOverride db (actor\<lparr>pr_Workspace := w\<rparr>) projectID e now = RemoveRadarOverride db actor projectID e now"
    by (simp_all only: SaveRadarOverride_def RemoveRadarOverride_def)
qed

end
