(* ===== verification/Spec2Isabelle.thy ===== *)
theory Spec2Isabelle
  imports Go_Base Go_Float Go_Lifecycle Access AccessStore Job JobStore Project Snowflake Activity Metric Alert Policy
    Knowledge Analysis AnalysisStore Assistant AssistantStore Topic Comparison Evidence Purge Github Ingestion Worker Trend Export ExportStore Sources Crawl ProjectStore PolicyStore
begin

text \<open>
  Verification of the opensource-project-intelligence server (Go, \<open>src/internal\<close>).

  The program is a modular monolith. Members and service accounts of a workspace register public repositories as projects; a worker
  collects their history from GitHub and other public sources into canonical tables; metrics, health, trends, policies, alerts, topics,
  knowledge and analysis runs are computed from these; an assistant proposes changes that a member confirms; exports and purges move
  bytes between the tables and an object store. A package \<open>internal/<name>\<close> holds the rules of a component as values and pure functions,
  \<open>internal/platform/<name>store\<close> keeps its rows in PostgreSQL, \<open>internal/worker\<close> runs the jobs, and the HTTP handlers call the stores.

  \<^bold>\<open>How the code is modelled.\<close> A struct is a record, an enumeration over strings a datatype with a last constructor for any other string,
  a function with an error result returns a sum (\<open>Inl\<close> the error) and one that only fails an option. \<open>int64\<close> is an integer of HOL where the
  code cannot overflow and goes through \<open>wrap64\<close> where it adds or multiplies unbounded values; IP addresses are words; \<open>float64\<close> is
  IEEE binary64 with rounding. A table is a list of rows, a transaction a function from the tables to an error or the new tables, and the
  constraints, foreign keys and triggers of \<open>src/migrations\<close> are its guards; the columns that nothing reads are left out. What a \<open>jsonb\<close>
  column returns for a text is an argument, as PostgreSQL keeps the value and not the text. A failed
  transaction changes nothing. What \<open>now\<close>, \<open>now()\<close> in SQL, the identifier generator and the random source return is an argument of each
  operation. Transactions on the same rows are serialised by the locks that the code takes, so that an interleaving is a sequence of
  operations; where the code does not lock (workers that lost their lease, two nodes, leases of a provider, tasks of a bounded group), the
  sequence or the step relation contains every interleaving. Calls to what is not under \<open>src\<close> are arguments: URL and JSON parsing,
  SHA-256, HMAC, Base64, the time-zone database, HTTP transport, DNS and the ADK agent.

  \<^bold>\<open>Foundations.\<close> \<open>Go_Base\<close>: strings, instants, sorting, results; the locale \<open>comparator\<close> is the contract of a comparison function
  (interpreted for each comparison the code sorts with). \<open>Go_Float\<close>: binary64 and its rounding (locale \<open>rounding\<close>). \<open>Go_Lifecycle\<close>: the
  locales \<open>preserving\<close> (an operation keeps an invariant) and \<open>versioned\<close> (versions grow, terminal states stay), which every life cycle
  below interprets; \<open>run_ops\<close> is a sequence of operations whose errors change nothing.

  \<^bold>\<open>Identity and access.\<close> \<open>Access\<close> (\<open>internal/access\<close>): roles, the authorization decision, tokens, signed cursors. \<open>AccessStore\<close>
  (\<open>platform/accessstore\<close>): members, sessions, login flows, service accounts, the audit log, over all sequences of operations.
  \<open>Snowflake\<close> (\<open>platform/id\<close>, \<open>platform/database\<close>): the identifier generator and the leases of its nodes.

  \<^bold>\<open>Projects and jobs.\<close> \<open>Project\<close>, \<open>Job\<close>: the rules. \<open>ProjectStore\<close> (\<open>platform/projectstore\<close>): registration, the project life cycle,
  repositories, sources, associations, queues; every reachable database holds valid projects only, and the SQL of the repository edits
  implements the rules of \<open>Project\<close>. \<open>JobStore\<close> (\<open>platform/jobstore\<close> and the queueing of \<open>platform/projectstore\<close>): claims, heartbeats, checkpoints,
  completion, failure and recovery. \<open>Purge\<close>: the purge of a deleted project, with \<open>platform/recovery\<close>.

  \<^bold>\<open>Collection.\<close> \<open>Github\<close> (\<open>platform/github\<close>): the client. \<open>Ingestion\<close> (\<open>platform/ingestion\<close>): page commits (locale \<open>page_table\<close>, one
  interpretation per table). \<open>Worker\<close> (\<open>internal/worker\<close>): the runner over its interfaces as records of functions; locale
  \<open>lease_store\<close> is what it relies on, interpreted by the modelled stores. \<open>Sources\<close> (\<open>internal/source\<close>, \<open>platform/sourceadapter\<close>,
  \<open>internal/adoption\<close>, \<open>internal/release\<close>): normalised records, adoption and release histories (locale \<open>history\<close>). \<open>Crawl\<close>
  (\<open>internal/collector\<close>, \<open>platform/crawler\<close>): the public-host policy, the crawl loop, bounded tasks. \<open>Evidence\<close> (\<open>internal/evidence\<close>,
  \<open>platform/evidencecatalog\<close>, \<open>platform/objectstore\<close>): content-addressed bytes.

  \<^bold>\<open>Intelligence.\<close> \<open>Activity\<close> (\<open>contributor\<close>, \<open>issue\<close>, \<open>pullrequest\<close>, \<open>platform/timewindow\<close>, the stable releases of \<open>release\<close>), \<open>Metric\<close>,
  \<open>Trend\<close>, \<open>Policy\<close> (with \<open>radar\<close>), \<open>Alert\<close> (rules and their store in \<open>platform/intelligencestore/governance.go\<close>), \<open>Knowledge\<close>, \<open>Topic\<close>,
  \<open>Comparison\<close>, \<open>Analysis\<close> (runs, guards, the provider gate) and \<open>AnalysisStore\<close> (\<open>platform/intelligencestore/extended.go\<close>).
  \<open>PolicyStore\<close> (the policy and radar methods of \<open>governance.go\<close>): the active policy is unique after every history of transactions that run
  one after the other, each activation implements the rule of \<open>Policy\<close>, and two activations that overlap leave two active versions.
  \<open>Assistant\<close> (\<open>analysis/agent\<close>; locale \<open>proposal_store\<close>, interpreted by the in-memory store) and \<open>AssistantStore\<close>
  (\<open>platform/assistantstore\<close>, the second interpretation). \<open>Export\<close> (\<open>internal/export\<close>) and \<open>ExportStore\<close> (\<open>platform/exportstore\<close>).

  \<^bold>\<open>What the lemmas show.\<close> Invariants of all reachable databases (valid projects, job attempts, audit log, alert history, provenance of
  collected rows, downloads whose bytes are those recorded); safety of what must not happen (an access change leaves no session, a lease
  has one holder through its renewals, a proposal is executed once, a crawl stays on its hosts through redirects); refinement of the rules
  by the SQL and of one abstract proposal store by both stores; decisions characterised on every branch (authorization, policy validation); round trips
  (CSV, analysis runs, evidence); termination and bounds; and error behaviour, where some theorems describe what the code should not do:
  the manifest lists these as findings.

  \<^bold>\<open>Loops.\<close> A loop that may not return is a \<open>partial_function (option)\<close> (the page loops and the purge loop of \<open>Worker\<close>, the crawl loop of
  \<open>Crawl\<close>), so that not returning is the value \<open>None\<close>; that it returns is a theorem of its own (a measure on pages, bytes or the
  queue, under the limits that the code checks). There is no fuel. Other recursion is structural or has a termination proof.

  \<^bold>\<open>Not modelled.\<close> The HTTP interface (generated code, and handlers that decode, call a store and render problems); the signal and
  metric tables and the materialisation queries of \<open>platform/intelligencestore\<close>, which are SQL over many tables; the NATS and Valkey clients
  and the outbox relay; git, OIDC, and the ADK adapter; configuration, telemetry, probes and \<open>cmd\<close>; failures of the database
  connection and of commits, except of the commit that publishes an export, whose error may be reported after the server has committed.
\<close>

end
